(* ===== verification/Prelude.thy ===== *)
theory Prelude
  imports Main "HOL-Library.Word"
begin

text \<open>
  Shared vocabulary of the development.

  \<^item> \<open>fault\<close> names the ways the C++ code stops without returning a value: a failed
    \<open>assert\<close> (tagged with the site that asserts), an \<open>llvm_unreachable\<close>, the use of a
    null attribute. Operations that can stop return \<open>fault + 'a\<close>.
  \<^item> \<open>rbind\<close> sequences such operations, \<open>assertE\<close> is the \<open>assert\<close> statement.
  \<^item> The list lemmas are about shapes: a shape is an \<open>int list\<close>, as
    \<open>SmallVector<int64_t>\<close> is in the code.
\<close>

unbundle bit_operations_syntax

named_theorems result_simps \<open>evaluation of the error monad\<close>
named_theorems enum_simps \<open>case tables over the enumerations of the dialects\<close>

section \<open>Faults and the error monad\<close>

datatype assert_site =
    SiteRank            \<comment> \<open>"expected at least 2D shape", empty shapes\<close>
  | SiteLinear          \<comment> \<open>linear map and grid of different rank\<close>
  | SiteTileElement     \<comment> \<open>tile element type expected\<close>
  | SiteTypecastTile    \<comment> \<open>"Only tilized tensors are supported for device typecast"\<close>
  | SiteSameLayout      \<comment> \<open>handlers: layouts (data types) should be the same\<close>
  | SiteHasValue        \<comment> \<open>\<open>assert(x.has_value())\<close>\<close>
  | SiteBitWidth        \<comment> \<open>\<open>getIntOrFloatBitWidth\<close> of another type, BFP tile of odd shape\<close>
  | SiteDimOnRHS        \<comment> \<open>"Dim does not participate in AffineMap RHS"\<close>
  | SiteChips           \<comment> \<open>chip and grid assertions of the device\<close>
  | SiteOutOfMemory     \<comment> \<open>"Out of memory"\<close>
  | SiteChainState      \<comment> \<open>\<open>resolveWithSolver\<close>: the chain must be built\<close>
  | SiteOther

datatype fault = AssertFailed assert_site | Unreachable | NullDeref | OutOfBounds | FatalError
  | DivisionByZero | SignedOverflow

definition rbind :: "'e + 'a \<Rightarrow> ('a \<Rightarrow> 'e + 'b) \<Rightarrow> 'e + 'b" where
  "rbind m f = (case m of Inl e \<Rightarrow> Inl e | Inr x \<Rightarrow> f x)"

definition assertE :: "assert_site \<Rightarrow> bool \<Rightarrow> fault + unit" where
  "assertE s b = (if b then Inr () else Inl (AssertFailed s))"

lemma rbind_simps [simp, result_simps]:
  "rbind (Inl e) f = Inl e"
  "rbind (Inr x) f = f x"
  by (simp_all add: rbind_def)

lemma rbind_Inr_iff [result_simps]:
  "rbind m f = Inr y \<longleftrightarrow> (\<exists>x. m = Inr x \<and> f x = Inr y)"
  by (cases m) auto

lemma rbind_Inl_iff [result_simps]:
  "rbind m f = Inl e \<longleftrightarrow> m = Inl e \<or> (\<exists>x. m = Inr x \<and> f x = Inl e)"
  by (cases m) auto

lemma rbind_InrE: "rbind m f = Inr y \<Longrightarrow> (\<And>x. m = Inr x \<Longrightarrow> f x = Inr y \<Longrightarrow> P) \<Longrightarrow> P"
  by (cases m) auto

lemma rbind_assoc: "rbind (rbind m f) g = rbind m (\<lambda>x. rbind (f x) g)"
  by (cases m) auto

lemma rbind_Inr_right [simp]: "rbind m Inr = m"
  by (cases m) auto

lemma rbind_cong [fundef_cong]:
  "m = m' \<Longrightarrow> (\<And>x. m' = Inr x \<Longrightarrow> f x = f' x) \<Longrightarrow> rbind m f = rbind m' f'"
  by (cases m') auto

lemma assertE_simps [simp, result_simps]:
  "assertE s True = Inr ()"
  "assertE s False = Inl (AssertFailed s)"
  by (simp_all add: assertE_def)

lemma assertE_Inr_iff [result_simps]: "assertE s b = Inr u \<longleftrightarrow> b"
  by (simp add: assertE_def)

lemma assertE_Inl_iff [result_simps]: "assertE s b = Inl e \<longleftrightarrow> \<not> b \<and> e = AssertFailed s"
  by (auto simp: assertE_def)

text \<open>Checked indexing: \<open>v[i]\<close> on a vector asserts (or is undefined) out of range.\<close>

definition at :: "'a list \<Rightarrow> nat \<Rightarrow> fault + 'a" where
  "at xs i = (if i < length xs then Inr (xs ! i) else Inl OutOfBounds)"

lemma at_Inr [simp, result_simps]: "i < length xs \<Longrightarrow> at xs i = Inr (xs ! i)"
  by (simp add: at_def)

lemma at_Inr_iff [result_simps]: "at xs i = Inr x \<longleftrightarrow> i < length xs \<and> x = xs ! i"
  by (auto simp: at_def)

text \<open>Running a fallible step over a list, stopping at the first failure.\<close>

fun mapE :: "('a \<Rightarrow> 'e + 'b) \<Rightarrow> 'a list \<Rightarrow> 'e + 'b list" where
  "mapE f [] = Inr []"
| "mapE f (x # xs) = rbind (f x) (\<lambda>y. rbind (mapE f xs) (\<lambda>ys. Inr (y # ys)))"

fun foldE :: "('a \<Rightarrow> 's \<Rightarrow> 'e + 's) \<Rightarrow> 'a list \<Rightarrow> 's \<Rightarrow> 'e + 's" where
  "foldE f [] s = Inr s"
| "foldE f (x # xs) s = rbind (f x s) (foldE f xs)"

lemma mapE_length: "mapE f xs = Inr ys \<Longrightarrow> length ys = length xs"
  by (induction xs arbitrary: ys) (auto simp: result_simps)

lemma mapE_nth: "mapE f xs = Inr ys \<Longrightarrow> i < length xs \<Longrightarrow> f (xs ! i) = Inr (ys ! i)"
  by (induction xs arbitrary: ys i) (auto simp: result_simps nth_Cons split: nat.splits)

lemma foldE_append: "foldE f (xs @ ys) s = rbind (foldE f xs s) (foldE f ys)"
  by (induction xs arbitrary: s) (auto simp: rbind_def split: sum.splits)

lemma foldE_invariant:
  assumes "\<And>x s s'. x \<in> set xs \<Longrightarrow> I s \<Longrightarrow> f x s = Inr s' \<Longrightarrow> I s'"
    and "foldE f xs s = Inr s'" and "I s"
  shows "I s'"
  using assms
proof (induction xs arbitrary: s)
  case Nil
  then show ?case by simp
next
  case (Cons x xs)
  from Cons.prems(2) obtain s1 where s1: "f x s = Inr s1" "foldE f xs s1 = Inr s'"
    by (auto simp: result_simps)
  from Cons.prems(1)[of x s s1] Cons.prems(3) s1(1) have "I s1" by simp
  with Cons.IH[of s1] Cons.prems(1) s1(2) show ?case by auto
qed

section \<open>Shapes\<close>

lemma length_2E: "length xs = 2 \<Longrightarrow> (\<And>a b. xs = [a, b] \<Longrightarrow> P) \<Longrightarrow> P"
  by (cases xs; cases "tl xs") auto

type_synonym shape = "int list"

definition positive_shape :: "shape \<Rightarrow> bool" where
  "positive_shape s \<longleftrightarrow> (\<forall>d \<in> set s. 0 < d)"

lemma positive_shape_simps [simp]:
  "positive_shape []"
  "positive_shape (d # s) \<longleftrightarrow> 0 < d \<and> positive_shape s"
  "positive_shape (s @ t) \<longleftrightarrow> positive_shape s \<and> positive_shape t"
  by (auto simp: positive_shape_def)

lemma positive_shape_nth: "positive_shape s \<Longrightarrow> i < length s \<Longrightarrow> 0 < s ! i"
  by (auto simp: positive_shape_def)

lemma prod_list_pos: "positive_shape s \<Longrightarrow> 0 < prod_list (s :: int list)"
  by (induction s) (auto)

text \<open>An index of a shape: one coordinate per dimension, in range.\<close>

definition index_of :: "shape \<Rightarrow> int list \<Rightarrow> bool" where
  "index_of s idx \<longleftrightarrow> list_all2 (\<lambda>i d. 0 \<le> i \<and> i < d) idx s"

lemma index_of_simps [simp]:
  "index_of [] idx \<longleftrightarrow> idx = []"
  "index_of (d # s) (i # idx) \<longleftrightarrow> 0 \<le> i \<and> i < d \<and> index_of s idx"
  "\<not> index_of (d # s) []"
  by (auto simp: index_of_def)

lemma index_of_Nil: "index_of [] idx \<longleftrightarrow> idx = []" "index_of s [] \<longleftrightarrow> s = []"
  by (auto simp: index_of_def)

lemma index_of_length: "index_of s idx \<Longrightarrow> length idx = length s"
  by (auto simp: index_of_def list_all2_lengthD)

lemma index_of_nth: "index_of s idx \<Longrightarrow> i < length s \<Longrightarrow> 0 \<le> idx ! i \<and> idx ! i < s ! i"
  by (auto simp: index_of_def list_all2_conv_all_nth)

section \<open>Division\<close>

lemma div_less_of_less_mult: "0 < k \<Longrightarrow> n < d * k \<Longrightarrow> n div k < (d :: int)"
proof -
  assume k: "0 < k" and n: "n < d * k"
  have "k * (n div k) + n mod k = n" by (rule mult_div_mod_eq)
  moreover have "0 \<le> n mod k" using k by simp
  ultimately have "k * (n div k) < d * k" using n by linarith
  then show ?thesis using k by (simp add: mult.commute)
qed

lemma upt_Suc_Cons: "[0..<Suc n] = 0 # map Suc [0..<n]"
  by (simp add: upt_conv_Cons map_Suc_upt del: upt_Suc)

text \<open>The code's \<open>(a + b - 1) / b\<close>.\<close>

definition ceil_div :: "int \<Rightarrow> int \<Rightarrow> int" where
  "ceil_div a b = (a + b - 1) div b"

lemma ceil_div_covers: "0 < b \<Longrightarrow> a \<le> ceil_div a b * b"
proof -
  assume b: "0 < b"
  have "b * ((a + b - 1) div b) + (a + b - 1) mod b = a + b - 1"
    by (rule mult_div_mod_eq)
  moreover from b have "(a + b - 1) mod b < b" by simp
  ultimately have "a \<le> b * ((a + b - 1) div b)" by linarith
  then show ?thesis by (simp add: ceil_div_def mult.commute)
qed

lemma ceil_div_least: "0 < b \<Longrightarrow> (ceil_div a b - 1) * b < a"
proof -
  assume b: "0 < b"
  have "b * ((a + b - 1) div b) + (a + b - 1) mod b = a + b - 1"
    by (rule mult_div_mod_eq)
  moreover from b have "0 \<le> (a + b - 1) mod b" by simp
  ultimately have "b * ((a + b - 1) div b) \<le> a + b - 1" by linarith
  then show ?thesis by (simp add: ceil_div_def algebra_simps)
qed

lemma ceil_div_pos: "0 < a \<Longrightarrow> 0 < b \<Longrightarrow> 0 < ceil_div a b"
proof -
  assume "0 < a" "0 < b"
  then have "b \<le> a + b - 1" by simp
  with \<open>0 < b\<close> have "1 \<le> (a + b - 1) div b"
    by (simp add: pos_imp_zdiv_pos_iff int_one_le_iff_zero_less)
  then show ?thesis by (simp add: ceil_div_def)
qed

lemma ceil_div_mult [simp]: "0 < b \<Longrightarrow> ceil_div (a * b) b = a"
proof -
  assume b: "0 < b"
  have "a * b \<le> ceil_div (a * b) b * b" using b by (rule ceil_div_covers)
  then have le: "a \<le> ceil_div (a * b) b" using b by simp
  have "(ceil_div (a * b) b - 1) * b < a * b" using b by (rule ceil_div_least)
  then have "ceil_div (a * b) b - 1 < a" using b by simp
  with le show ?thesis by linarith
qed

end
