(* ===== verification/TTTypes.thy ===== *)
theory TTTypes
  imports Prelude
begin

text \<open>
  The enumerations and element types of the TT and TTNN dialects, and the operations on
  tile types: the enums of \<open>TTOpsEnums.td\<close> and \<open>TTNNOpsEnums.td\<close>, the predicates of
  \<open>TTNNOpsAttrs.h\<close> and \<open>TTOpsTypes.h\<close>, the conversions between element types and
  \<open>DataType\<close>, \<open>TileType\<close> with its shape and size functions, and the conversions between
  memory spaces and buffer types of \<open>TTNN/Utils/Utils.cpp\<close>.
\<close>

section \<open>Enumerations\<close>

datatype data_type =
    Float32 | Float16 | BFloat16
  | BFP_Float8 | BFP_BFloat8 | BFP_Float4 | BFP_BFloat4 | BFP_Float2 | BFP_BFloat2
  | UInt32 | UInt16 | UInt8 | Int32

datatype memory_space = System | SystemMMIO | DeviceDRAM | DeviceL1

datatype layout = RowMajor | Tile | InvalidLayout

datatype tensor_memory_layout =
  Interleaved | SingleBank | HeightSharded | WidthSharded | BlockSharded

datatype buffer_type = DRAM | L1 | SystemMemory | L1Small | Trace

definition isSystemMemorySpace :: "memory_space \<Rightarrow> bool" where
  "isSystemMemorySpace memorySpace \<longleftrightarrow> memorySpace = System \<or> memorySpace = SystemMMIO"

definition isDeviceMemorySpace :: "memory_space \<Rightarrow> bool" where
  "isDeviceMemorySpace memorySpace \<longleftrightarrow> memorySpace = DeviceDRAM \<or> memorySpace = DeviceL1"

definition isL1MemorySpace :: "memory_space \<Rightarrow> bool" where
  "isL1MemorySpace memorySpace \<longleftrightarrow> memorySpace = DeviceL1"

definition isSystemBufferType :: "buffer_type \<Rightarrow> bool" where
  "isSystemBufferType bufferType \<longleftrightarrow> bufferType = SystemMemory"

definition isDeviceBufferType :: "buffer_type \<Rightarrow> bool" where
  "isDeviceBufferType bufferType \<longleftrightarrow>
     bufferType = L1 \<or> bufferType = DRAM \<or> bufferType = L1Small"

definition isL1BufferType :: "buffer_type \<Rightarrow> bool" where
  "isL1BufferType bufferType \<longleftrightarrow> bufferType = L1"

definition isDRAMBufferType :: "buffer_type \<Rightarrow> bool" where
  "isDRAMBufferType bufferType \<longleftrightarrow> bufferType = DRAM"

definition isShardedMemoryLayout :: "tensor_memory_layout \<Rightarrow> bool" where
  "isShardedMemoryLayout layout \<longleftrightarrow>
     layout = HeightSharded \<or> layout = WidthSharded \<or> layout = BlockSharded"

lemmas space_predicates [enum_simps] =
  isSystemMemorySpace_def isDeviceMemorySpace_def isL1MemorySpace_def
  isSystemBufferType_def isDeviceBufferType_def isL1BufferType_def isDRAMBufferType_def
  isShardedMemoryLayout_def

text \<open>\<open>utils::toTTNNBufferType\<close> and \<open>utils::toTTMemorySpace\<close>; the latter asserts on
  the two buffer types it does not support.\<close>

fun toTTNNBufferType :: "memory_space \<Rightarrow> buffer_type" where
  "toTTNNBufferType System = SystemMemory"
| "toTTNNBufferType SystemMMIO = SystemMemory"
| "toTTNNBufferType DeviceDRAM = DRAM"
| "toTTNNBufferType DeviceL1 = L1"

fun toTTMemorySpace :: "buffer_type \<Rightarrow> fault + memory_space" where
  "toTTMemorySpace SystemMemory = Inr System"
| "toTTMemorySpace DRAM = Inr DeviceDRAM"
| "toTTMemorySpace L1 = Inr DeviceL1"
| "toTTMemorySpace L1Small = Inl (AssertFailed SiteOther)"
| "toTTMemorySpace Trace = Inl (AssertFailed SiteOther)"

section \<open>Element types\<close>

text \<open>
  The scalar element types the code distinguishes: \<open>BFloat16Type\<close>, the other float types
  by width, integer types by signedness and width, a quantized type by its expressed type,
  and any other type.
\<close>

datatype signedness = Signless | Signed | Unsigned

datatype scalar_type =
    BF16Type
  | FloatType nat
  | IntegerType signedness nat
  | QuantizedType scalar_type
  | OtherType

definition stripQuant :: "scalar_type \<Rightarrow> scalar_type" where
  "stripQuant t = (case t of QuantizedType e \<Rightarrow> e | _ \<Rightarrow> t)"

definition elementTypeToDataTypeImpl :: "scalar_type \<Rightarrow> data_type option" where
  "elementTypeToDataTypeImpl elementType =
     (case stripQuant elementType of
        BF16Type \<Rightarrow> Some BFloat16
      | FloatType width \<Rightarrow>
          (if width = 32 \<or> width = 64 then Some Float32
           else if width = 16 then Some Float16
           else None)
      | IntegerType sg width \<Rightarrow>
          (if width = 1 then Some BFloat16
           else if width = 8 then Some UInt8
           else if width = 16 then Some UInt16
           else if width = 32 \<or> width = 64
             then Some (if sg = Signed \<or> sg = Signless then Int32 else UInt32)
           else None)
      | _ \<Rightarrow> None)"

definition scalarToDataType :: "scalar_type \<Rightarrow> fault + data_type" where
  "scalarToDataType elementType =
     (case elementTypeToDataTypeImpl elementType of
        Some dt \<Rightarrow> Inr dt | None \<Rightarrow> Inl Unreachable)"

fun dataTypeToElementType :: "data_type \<Rightarrow> scalar_type" where
  "dataTypeToElementType Float32 = FloatType 32"
| "dataTypeToElementType Float16 = FloatType 16"
| "dataTypeToElementType BFloat16 = BF16Type"
| "dataTypeToElementType BFP_Float8 = FloatType 16"
| "dataTypeToElementType BFP_BFloat8 = BF16Type"
| "dataTypeToElementType BFP_Float4 = FloatType 16"
| "dataTypeToElementType BFP_BFloat4 = BF16Type"
| "dataTypeToElementType BFP_Float2 = FloatType 16"
| "dataTypeToElementType BFP_BFloat2 = BF16Type"
| "dataTypeToElementType UInt32 = IntegerType Unsigned 32"
| "dataTypeToElementType UInt16 = IntegerType Unsigned 16"
| "dataTypeToElementType UInt8 = IntegerType Unsigned 8"
| "dataTypeToElementType Int32 = IntegerType Signed 32"

definition toTTMLIRSupportedDataType :: "scalar_type \<Rightarrow> scalar_type option" where
  "toTTMLIRSupportedDataType elementType =
     map_option dataTypeToElementType (elementTypeToDataTypeImpl elementType)"

text \<open>The block floating point formats exist only inside a tile: as a scalar they read back
  as the uncompressed format.\<close>

definition isBlockFloat :: "data_type \<Rightarrow> bool" where
  "isBlockFloat dt \<longleftrightarrow> dt \<in> {BFP_Float8, BFP_BFloat8, BFP_Float4, BFP_BFloat4, BFP_Float2, BFP_BFloat2}"

fun uncompressed :: "data_type \<Rightarrow> data_type" where
  "uncompressed BFP_Float8 = Float16"
| "uncompressed BFP_BFloat8 = BFloat16"
| "uncompressed BFP_Float4 = Float16"
| "uncompressed BFP_BFloat4 = BFloat16"
| "uncompressed BFP_Float2 = Float16"
| "uncompressed BFP_BFloat2 = BFloat16"
| "uncompressed dt = dt"

lemma scalarToDataType_dataTypeToElementType [simp]:
  "scalarToDataType (dataTypeToElementType dt) = Inr (uncompressed dt)"
  by (cases dt) (auto simp: scalarToDataType_def elementTypeToDataTypeImpl_def stripQuant_def)

lemma uncompressed_id: "\<not> isBlockFloat dt \<Longrightarrow> uncompressed dt = dt"
  by (cases dt) (auto simp: isBlockFloat_def)

lemma uncompressed_not_block [simp]: "\<not> isBlockFloat (uncompressed dt)"
  by (cases dt) (auto simp: isBlockFloat_def)

lemma uncompressed_idem [simp]: "uncompressed (uncompressed dt) = uncompressed dt"
  by (simp add: uncompressed_id)

section \<open>Tile types\<close>

record tile_type =
  tile_shape :: shape
  tile_dtype :: data_type

definition tileVerify :: "tile_type \<Rightarrow> bool" where
  "tileVerify t \<longleftrightarrow> length (tile_shape t) = 2"

definition getHeight :: "tile_type \<Rightarrow> int" where
  "getHeight t = tile_shape t ! 0"

definition getWidth :: "tile_type \<Rightarrow> int" where
  "getWidth t = tile_shape t ! 1"

definition TILE_HEIGHT :: int where "TILE_HEIGHT = 32"
definition TILE_WIDTH :: int where "TILE_WIDTH = 32"

definition defaultTile :: "data_type \<Rightarrow> tile_type" where
  "defaultTile dt = \<lparr>tile_shape = [TILE_HEIGHT, TILE_WIDTH], tile_dtype = dt\<rparr>"

text \<open>\<open>TileType::get(elementType, shape)\<close>.\<close>

definition tileTypeGet :: "scalar_type \<Rightarrow> shape \<Rightarrow> fault + tile_type" where
  "tileTypeGet elementType shp =
     rbind (scalarToDataType elementType) (\<lambda>dt. Inr \<lparr>tile_shape = shp, tile_dtype = dt\<rparr>)"

definition getScalarShape :: "tile_type \<Rightarrow> shape \<Rightarrow> fault + shape" where
  "getScalarShape t tiledShape =
     (let n = length tiledShape in
      rbind (assertE SiteRank (2 \<le> n)) (\<lambda>_.
        Inr (tiledShape[n - 2 := tiledShape ! (n - 2) * getHeight t,
                        n - 1 := tiledShape ! (n - 1) * getWidth t])))"

definition getTiledShape :: "tile_type \<Rightarrow> shape \<Rightarrow> fault + shape" where
  "getTiledShape t scalarShape =
     (let n = length scalarShape in
      rbind (assertE SiteRank (2 \<le> n)) (\<lambda>_.
        Inr (scalarShape[n - 2 := ceil_div (scalarShape ! (n - 2)) (getHeight t),
                         n - 1 := ceil_div (scalarShape ! (n - 1)) (getWidth t)])))"

definition tileSizeBytes :: "tile_type \<Rightarrow> fault + int" where
  "tileSizeBytes t =
     (let area = getHeight t * getWidth t;
          square = (getHeight t = 32 \<and> getWidth t = 32)
      in case tile_dtype t of
        Float32 \<Rightarrow> Inr (area * 4)
      | Float16 \<Rightarrow> Inr (area * 2)
      | BFloat16 \<Rightarrow> Inr (area * 2)
      | BFP_Float8 \<Rightarrow> rbind (assertE SiteBitWidth square) (\<lambda>_. Inr 1024)
      | BFP_BFloat8 \<Rightarrow> rbind (assertE SiteBitWidth square) (\<lambda>_. Inr 1024)
      | BFP_Float4 \<Rightarrow> rbind (assertE SiteBitWidth square) (\<lambda>_. Inr 512)
      | BFP_BFloat4 \<Rightarrow> rbind (assertE SiteBitWidth square) (\<lambda>_. Inr 512)
      | BFP_Float2 \<Rightarrow> rbind (assertE SiteBitWidth square) (\<lambda>_. Inr 256)
      | BFP_BFloat2 \<Rightarrow> rbind (assertE SiteBitWidth square) (\<lambda>_. Inr 256)
      | UInt32 \<Rightarrow> Inr (area * 4)
      | Int32 \<Rightarrow> Inr (area * 4)
      | UInt16 \<Rightarrow> Inr (area * 2)
      | UInt8 \<Rightarrow> Inr area)"

text \<open>The element type of a tensor or memref: a scalar type or a tile.\<close>

datatype elem_type = Scalar scalar_type | TileElem tile_type

definition isTileElem :: "elem_type \<Rightarrow> bool" where
  "isTileElem e \<longleftrightarrow> (case e of TileElem _ \<Rightarrow> True | Scalar _ \<Rightarrow> False)"

lemma isTileElem_simps [simp]: "isTileElem (TileElem t)" "\<not> isTileElem (Scalar s)"
  by (simp_all add: isTileElem_def)

definition elementTypeToDataType :: "elem_type \<Rightarrow> fault + data_type" where
  "elementTypeToDataType e =
     (case e of Scalar s \<Rightarrow> scalarToDataType s | TileElem _ \<Rightarrow> Inl Unreachable)"

fun getIntOrFloatBitWidth :: "scalar_type \<Rightarrow> fault + int" where
  "getIntOrFloatBitWidth BF16Type = Inr 16"
| "getIntOrFloatBitWidth (FloatType w) = Inr (int w)"
| "getIntOrFloatBitWidth (IntegerType _ w) = Inr (int w)"
| "getIntOrFloatBitWidth _ = Inl (AssertFailed SiteBitWidth)"

text \<open>\<open>mlir::tt::getElementSizeBytes\<close>.\<close>

definition getElementSizeBytes :: "elem_type \<Rightarrow> fault + int" where
  "getElementSizeBytes e =
     (case e of
        TileElem t \<Rightarrow> tileSizeBytes t
      | Scalar s \<Rightarrow> rbind (getIntOrFloatBitWidth s) (\<lambda>w. Inr (w div 8)))"

section \<open>Lemmas on tiles\<close>

lemma getHeight_default [simp]: "getHeight (defaultTile dt) = 32"
  and getWidth_default [simp]: "getWidth (defaultTile dt) = 32"
  and tile_dtype_default [simp]: "tile_dtype (defaultTile dt) = dt"
  by (simp_all add: getHeight_def getWidth_def defaultTile_def TILE_HEIGHT_def TILE_WIDTH_def)

text \<open>A tile type whose two dimensions are positive.\<close>

definition tile_ok :: "tile_type \<Rightarrow> bool" where
  "tile_ok t \<longleftrightarrow> tileVerify t \<and> 0 < getHeight t \<and> 0 < getWidth t"

lemma tile_ok_default [simp]: "tile_ok (defaultTile dt)"
  by (simp add: tile_ok_def tileVerify_def) (simp add: defaultTile_def)

lemma getTiledShape_Inr_iff:
  "getTiledShape t s = Inr r \<longleftrightarrow>
     2 \<le> length s \<and>
     r = s[length s - 2 := ceil_div (s ! (length s - 2)) (getHeight t),
           length s - 1 := ceil_div (s ! (length s - 1)) (getWidth t)]"
  by (auto simp: getTiledShape_def Let_def result_simps)

lemma getScalarShape_Inr_iff:
  "getScalarShape t s = Inr r \<longleftrightarrow>
     2 \<le> length s \<and>
     r = s[length s - 2 := s ! (length s - 2) * getHeight t,
           length s - 1 := s ! (length s - 1) * getWidth t]"
  by (auto simp: getScalarShape_def Let_def result_simps)

lemma getTiledShape_length: "getTiledShape t s = Inr r \<Longrightarrow> length r = length s"
  by (auto simp: getTiledShape_Inr_iff)

lemma getScalarShape_length: "getScalarShape t s = Inr r \<Longrightarrow> length r = length s"
  by (auto simp: getScalarShape_Inr_iff)

text \<open>
  Tiling undoes the conversion to scalars: \<open>getTiledShape (getScalarShape s) = s\<close>; in the
  other direction the result is the shape rounded up to whole tiles.
\<close>

lemma tiled_of_scalar:
  assumes "tile_ok t" and "getScalarShape t s = Inr r"
  shows "getTiledShape t r = Inr s"
proof -
  from assms(2) have n: "2 \<le> length s"
    and r: "r = s[length s - 2 := s ! (length s - 2) * getHeight t,
                  length s - 1 := s ! (length s - 1) * getWidth t]"
    by (simp_all add: getScalarShape_Inr_iff)
  from assms(1) have h: "0 < getHeight t" and w: "0 < getWidth t" by (simp_all add: tile_ok_def)
  have ne: "length s - 2 \<noteq> length s - 1" using n by arith
  have "s = r[length r - 2 := ceil_div (r ! (length r - 2)) (getHeight t),
              length r - 1 := ceil_div (r ! (length r - 1)) (getWidth t)]"
    using n ne h w unfolding r by (auto intro!: nth_equalityI simp: nth_list_update)
  moreover have "2 \<le> length r" using n r by simp
  ultimately show ?thesis unfolding getTiledShape_Inr_iff by (rule conjI [rotated])
qed

lemma getScalarShape_total: "2 \<le> length s \<Longrightarrow> \<exists>r. getScalarShape t s = Inr r"
  by (simp add: getScalarShape_Inr_iff)

lemma getTiledShape_total: "2 \<le> length s \<Longrightarrow> \<exists>r. getTiledShape t s = Inr r"
  by (simp add: getTiledShape_Inr_iff)

lemma getTiledShape_covers:
  assumes "tile_ok t" and "getTiledShape t s = Inr r" and "i < length s"
  shows "s ! i \<le> (if i = length s - 2 then r ! i * getHeight t
                  else if i = length s - 1 then r ! i * getWidth t else r ! i)"
proof -
  from assms have n: "2 \<le> length s" and hw: "0 < getHeight t" "0 < getWidth t"
    and r: "r = s[length s - 2 := ceil_div (s ! (length s - 2)) (getHeight t),
                  length s - 1 := ceil_div (s ! (length s - 1)) (getWidth t)]"
    by (simp_all add: getTiledShape_Inr_iff tile_ok_def)
  have ne: "length s - 2 \<noteq> length s - 1" using n by arith
  show ?thesis
    using n ne assms(3) ceil_div_covers[OF hw(1), of "s ! (length s - 2)"]
      ceil_div_covers[OF hw(2), of "s ! (length s - 1)"]
    unfolding r by (simp add: nth_list_update)
qed

lemma getTiledShape_positive:
  assumes "tile_ok t" and "getTiledShape t s = Inr r" and "positive_shape s"
  shows "positive_shape r"
proof -
  from assms(2) have n: "2 \<le> length s" by (simp add: getTiledShape_Inr_iff)
  have "0 < r ! i" if "i < length s" for i
    using that assms n positive_shape_nth[OF assms(3)]
    by (auto simp: getTiledShape_Inr_iff tile_ok_def nth_list_update intro!: ceil_div_pos)
  with getTiledShape_length[OF assms(2)] show ?thesis
    by (auto simp: positive_shape_def in_set_conv_nth)
qed

lemma getScalarShape_positive:
  assumes "tile_ok t" and "getScalarShape t s = Inr r" and "positive_shape s"
  shows "positive_shape r"
proof -
  from assms(2) have n: "2 \<le> length s" by (simp add: getScalarShape_Inr_iff)
  have "0 < r ! i" if "i < length s" for i
    using that assms n positive_shape_nth[OF assms(3)]
    by (auto simp: getScalarShape_Inr_iff tile_ok_def nth_list_update)
  with getScalarShape_length[OF assms(2)] show ?thesis
    by (auto simp: positive_shape_def in_set_conv_nth)
qed

end
