(* ===== verification/Affine.thy ===== *)
theory Affine
  imports Prelude
begin

text \<open>
  Affine maps as data: expressions over dimensions and symbols, a map with its numbers of
  dimensions and symbols and its results, evaluation, substitution and the two edits the
  code uses (\<open>dropResult\<close>, \<open>insertResult\<close>). The constructors do not fold
  constants; nothing below depends on the folded form of an expression, only on its value
  and on which dimensions occur in it.

  On top of it the layout arithmetic that \<open>Utils.h\<close> and \<open>TTOpsTypes.cpp\<close> do with
  shapes: strides, sampling the index space, \<open>evalShape\<close>, and
  \<open>collapsedLinearAffineMap\<close>. The lemmas relate all of them to one specification, the
  row-major index \<open>lin\<close>, which is shown to be a bijection from the indices of a shape
  onto \<open>[0, volume)\<close>.
\<close>

section \<open>Affine expressions and maps\<close>

datatype aexpr =
    ADim nat
  | ASym nat
  | AConst int
  | AAdd aexpr aexpr
  | AMul aexpr aexpr
  | AFloorDiv aexpr aexpr
  | AMod aexpr aexpr

fun aeval :: "int list \<Rightarrow> int list \<Rightarrow> aexpr \<Rightarrow> int" where
  "aeval ds ss (ADim i) = ds ! i"
| "aeval ds ss (ASym i) = ss ! i"
| "aeval ds ss (AConst c) = c"
| "aeval ds ss (AAdd a b) = aeval ds ss a + aeval ds ss b"
| "aeval ds ss (AMul a b) = aeval ds ss a * aeval ds ss b"
| "aeval ds ss (AFloorDiv a b) = aeval ds ss a div aeval ds ss b"
| "aeval ds ss (AMod a b) = aeval ds ss a mod aeval ds ss b"

fun isFunctionOfDim :: "aexpr \<Rightarrow> nat \<Rightarrow> bool" where
  "isFunctionOfDim (ADim i) d = (i = d)"
| "isFunctionOfDim (ASym i) d = False"
| "isFunctionOfDim (AConst c) d = False"
| "isFunctionOfDim (AAdd a b) d = (isFunctionOfDim a d \<or> isFunctionOfDim b d)"
| "isFunctionOfDim (AMul a b) d = (isFunctionOfDim a d \<or> isFunctionOfDim b d)"
| "isFunctionOfDim (AFloorDiv a b) d = (isFunctionOfDim a d \<or> isFunctionOfDim b d)"
| "isFunctionOfDim (AMod a b) d = (isFunctionOfDim a d \<or> isFunctionOfDim b d)"

fun asubst :: "aexpr list \<Rightarrow> aexpr list \<Rightarrow> aexpr \<Rightarrow> aexpr" where
  "asubst de se (ADim i) = de ! i"
| "asubst de se (ASym i) = se ! i"
| "asubst de se (AConst c) = AConst c"
| "asubst de se (AAdd a b) = AAdd (asubst de se a) (asubst de se b)"
| "asubst de se (AMul a b) = AMul (asubst de se a) (asubst de se b)"
| "asubst de se (AFloorDiv a b) = AFloorDiv (asubst de se a) (asubst de se b)"
| "asubst de se (AMod a b) = AMod (asubst de se a) (asubst de se b)"

text \<open>Every dimension and symbol of the expression is below the given bounds.\<close>

fun awf :: "nat \<Rightarrow> nat \<Rightarrow> aexpr \<Rightarrow> bool" where
  "awf n m (ADim i) = (i < n)"
| "awf n m (ASym i) = (i < m)"
| "awf n m (AConst c) = True"
| "awf n m (AAdd a b) = (awf n m a \<and> awf n m b)"
| "awf n m (AMul a b) = (awf n m a \<and> awf n m b)"
| "awf n m (AFloorDiv a b) = (awf n m a \<and> awf n m b)"
| "awf n m (AMod a b) = (awf n m a \<and> awf n m b)"

record affine_map =
  numDims :: nat
  numSyms :: nat
  results :: "aexpr list"

definition numResults :: "affine_map \<Rightarrow> nat" where
  "numResults m = length (results m)"

definition identityMap :: "nat \<Rightarrow> affine_map" where
  "identityMap n = \<lparr>numDims = n, numSyms = 0, results = map ADim [0..<n]\<rparr>"

definition emptyMap :: affine_map where
  "emptyMap = \<lparr>numDims = 0, numSyms = 0, results = []\<rparr>"

text \<open>\<open>map.compose(values)\<close>: the results at a point (no symbols).\<close>

definition mapEval :: "affine_map \<Rightarrow> int list \<Rightarrow> int list" where
  "mapEval m ds = map (aeval ds []) (results m)"

text \<open>\<open>map.compose(other)\<close> where \<open>other\<close> has no symbols.\<close>

definition mapCompose :: "affine_map \<Rightarrow> affine_map \<Rightarrow> affine_map" where
  "mapCompose m other =
     \<lparr>numDims = numDims other, numSyms = numSyms m,
      results = map (asubst (results other) (map ASym [0..<numSyms m])) (results m)\<rparr>"

definition dropResult :: "nat \<Rightarrow> aexpr list \<Rightarrow> fault + aexpr list" where
  "dropResult pos rs =
     (if pos < length rs then Inr (take pos rs @ drop (Suc pos) rs) else Inl OutOfBounds)"

definition insertResult :: "aexpr \<Rightarrow> nat \<Rightarrow> aexpr list \<Rightarrow> fault + aexpr list" where
  "insertResult e pos rs =
     (if pos \<le> length rs then Inr (take pos rs @ e # drop pos rs) else Inl OutOfBounds)"

lemma aeval_asubst:
  "awf (length de) (length se) e \<Longrightarrow>
   aeval ds ss (asubst de se e) = aeval (map (aeval ds ss) de) (map (aeval ds ss) se) e"
  by (induction e) auto

lemma aeval_cong_dims:
  "(\<And>i. isFunctionOfDim e i \<Longrightarrow> ds ! i = ds' ! i) \<Longrightarrow> aeval ds ss e = aeval ds' ss e"
  by (induction e) auto

lemma mapEval_length [simp]: "length (mapEval m ds) = numResults m"
  by (simp add: mapEval_def numResults_def)

lemma mapEval_nth: "i < numResults m \<Longrightarrow> mapEval m ds ! i = aeval ds [] (results m ! i)"
  by (simp add: mapEval_def numResults_def)

lemma mapCompose_eval:
  assumes "\<forall>e \<in> set (results m). awf (numResults other) 0 e" and "numSyms m = 0"
  shows "mapEval (mapCompose m other) ds = mapEval m (mapEval other ds)"
proof -
  have "aeval ds [] (asubst (results other) [] e) = aeval (mapEval other ds) [] e"
    if "e \<in> set (results m)" for e
  proof -
    from that assms(1) have "awf (length (results other)) (length ([] :: aexpr list)) e"
      by (simp add: numResults_def)
    from aeval_asubst[OF this, of ds "[]"] show ?thesis
      by (simp add: mapEval_def)
  qed
  with assms(2) show ?thesis by (simp add: mapCompose_def mapEval_def)
qed

text \<open>Replacing result \<open>pos\<close>: the code's \<open>dropResult\<close> followed by
  \<open>insertResult\<close>.\<close>

lemma drop_insert:
  "pos < length rs \<Longrightarrow>
   rbind (dropResult pos rs) (insertResult e pos) = Inr (rs[pos := e])"
  by (simp add: dropResult_def insertResult_def upd_conv_take_nth_drop min_def)

lemma drop_insert_fails:
  "\<not> pos < length rs \<Longrightarrow> rbind (dropResult pos rs) (insertResult e pos) = Inl OutOfBounds"
  by (simp add: dropResult_def)

section \<open>Row-major indices\<close>

definition volume :: "shape \<Rightarrow> int \<Rightarrow> int" where
  "volume shp stride = foldl (*) stride shp"

lemma volume_eq: "volume shp stride = stride * prod_list shp"
  by (induction shp arbitrary: stride) (auto simp: volume_def algebra_simps)

fun lin :: "shape \<Rightarrow> int list \<Rightarrow> int" where
  "lin (d # s) (i # idx) = i * prod_list s + lin s idx"
| "lin _ _ = 0"

lemma lin_bounds:
  "index_of s idx \<Longrightarrow> 0 \<le> lin s idx \<and> lin s idx < prod_list s"
proof (induction s idx rule: lin.induct)
  case (1 d s i idx)
  then have IH: "0 \<le> lin s idx" "lin s idx < prod_list s" and i: "0 \<le> i" "i + 1 \<le> d"
    by auto
  from IH have p: "0 < prod_list s" by linarith
  have "(i + 1) * prod_list s \<le> d * prod_list s" using i p by (simp add: mult_right_mono)
  moreover have "0 \<le> i * prod_list s" using i p by simp
  ultimately show ?case using IH by (simp add: algebra_simps)
qed (auto simp: index_of_Nil)

lemma lin_inj:
  "index_of s x \<Longrightarrow> index_of s y \<Longrightarrow> lin s x = lin s y \<Longrightarrow> x = y"
proof (induction s x arbitrary: y rule: lin.induct)
  case (1 d s i idx)
  from "1.prems"(2) obtain j jdx where y: "y = j # jdx" by (cases y) auto
  from "1.prems" y have ix: "index_of s idx" and jx: "index_of s jdx" by auto
  note b = lin_bounds[OF ix] lin_bounds[OF jx]
  from "1.prems"(3) y have eq: "i * prod_list s + lin s idx = j * prod_list s + lin s jdx" by simp
  have "(i * prod_list s + lin s idx) div prod_list s = i"
    using b by (simp add: div_add1_eq)
  moreover have "(j * prod_list s + lin s jdx) div prod_list s = j"
    using b by (simp add: div_add1_eq)
  ultimately have "i = j" using eq by simp
  with eq "1.IH"[OF ix jx] y show ?case by simp
qed (auto simp: index_of_Nil)

text \<open>Every number below the volume is the linear index of some index.\<close>

fun unlin :: "shape \<Rightarrow> int \<Rightarrow> int list" where
  "unlin [] n = []"
| "unlin (d # s) n = (n div prod_list s) # unlin s (n mod prod_list s)"

lemma lin_unlin:
  "positive_shape s \<Longrightarrow> 0 \<le> n \<Longrightarrow> n < prod_list s \<Longrightarrow>
   index_of s (unlin s n) \<and> lin s (unlin s n) = n"
proof (induction s arbitrary: n)
  case Nil
  then show ?case by simp
next
  case (Cons d s)
  then have p: "0 < prod_list s" by (simp add: prod_list_pos)
  have "0 \<le> n mod prod_list s" "n mod prod_list s < prod_list s" using p by auto
  with Cons have IH: "index_of s (unlin s (n mod prod_list s))"
    "lin s (unlin s (n mod prod_list s)) = n mod prod_list s" by auto
  have "n div prod_list s < d"
    using Cons.prems p by (simp add: div_less_of_less_mult)
  moreover have "0 \<le> n div prod_list s"
    using Cons.prems p by (simp add: pos_imp_zdiv_nonneg_iff)
  ultimately show ?case using IH by simp
qed

section \<open>Utils.h: strides and sampling\<close>

text \<open>\<open>calculateStrides\<close>: filled from the last dimension, \<open>stride *= shape[i]\<close>.
  The empty shape asserts.\<close>

fun stridesLoop :: "shape \<Rightarrow> int \<Rightarrow> int list \<times> int" where
  "stridesLoop [] elementSize = ([], elementSize)"
| "stridesLoop (d # s) elementSize =
     (case stridesLoop s elementSize of (strides, stride) \<Rightarrow> (stride # strides, stride * d))"

definition calculateStrides :: "shape \<Rightarrow> int \<Rightarrow> fault + int list" where
  "calculateStrides shp elementSize =
     rbind (assertE SiteRank (shp \<noteq> [])) (\<lambda>_. Inr (fst (stridesLoop shp elementSize)))"

text \<open>\<open>sample\<close>: the index vectors passed to \<open>fn\<close>, in order.\<close>

definition sampleIndex :: "shape \<Rightarrow> int list \<Rightarrow> int \<Rightarrow> int list" where
  "sampleIndex shp strides i = map2 (\<lambda>st d. (i div st) mod d) strides shp"

definition sample :: "shape \<Rightarrow> fault + int list list" where
  "sample shp =
     (if shp = [] then Inr []
      else rbind (calculateStrides shp 1) (\<lambda>strides.
        let vol = shp ! 0 * strides ! 0
        in Inr (map (\<lambda>i. sampleIndex shp strides (int i)) [0..<nat vol])))"

lemma stride_map_Cons:
  "map (\<lambda>i. e * prod_list (drop (Suc i) (d # s))) [0..<length (d # s)]
     = e * prod_list s # map (\<lambda>i. e * prod_list (drop (Suc i) s)) [0..<length s]"
  for e :: int
  by (simp only: upt_Suc_Cons list.size add_0_right add_Suc_right list.map map_map comp_def
      drop_Suc_Cons drop_0)

lemma stridesLoop_eq:
  "stridesLoop s e = (map (\<lambda>i. e * prod_list (drop (Suc i) s)) [0..<length s], e * prod_list s)"
proof (induction s)
  case Nil
  then show ?case by simp
next
  case (Cons d s)
  have "stridesLoop (d # s) e
      = (e * prod_list s # map (\<lambda>i. e * prod_list (drop (Suc i) s)) [0..<length s],
         e * prod_list (d # s))"
    by (simp add: Cons algebra_simps)
  then show ?case by (simp only: stride_map_Cons)
qed

lemma stridesLoop_Cons_fst: "fst (stridesLoop (d # s) e) = e * prod_list s # fst (stridesLoop s e)"
  by (simp only: stridesLoop_eq stride_map_Cons fst_conv)

declare stridesLoop.simps(2) [simp del]

lemma lin_as_strides:
  "length idx = length s \<Longrightarrow>
   lin s idx = sum_list (map2 (*) idx (fst (stridesLoop s 1)))"
  by (induction s idx rule: lin.induct) (auto simp: stridesLoop_Cons_fst)

lemma sampleIndex_unlin:
  "positive_shape s \<Longrightarrow> 0 \<le> n \<Longrightarrow>
   sampleIndex s (fst (stridesLoop s 1)) n = unlin s (n mod prod_list s)"
proof (induction s arbitrary: n)
  case Nil
  then show ?case by (simp add: sampleIndex_def)
next
  case (Cons d s)
  then have p: "0 < prod_list s" "0 < d" and ps: "positive_shape s" by (simp_all add: prod_list_pos)
  have "sampleIndex s (fst (stridesLoop s 1)) n
      = unlin s (n mod (d * prod_list s) mod prod_list s)"
    using Cons.IH[OF ps Cons.prems(2)] by (simp add: mod_mod_cancel)
  moreover have "n div prod_list s mod d = n mod (d * prod_list s) div prod_list s"
    using p by (simp add: mult.commute[of d] zmod_zmult2_eq)
  ultimately show ?case by (simp add: sampleIndex_def stridesLoop_Cons_fst)
qed

text \<open>\<open>sample\<close> visits the whole index space, in row-major order, once.\<close>

lemma sample_eq:
  assumes "positive_shape s" and "s \<noteq> []"
  shows "sample s = Inr (map (\<lambda>i. unlin s (int i)) [0..<nat (prod_list s)])"
proof -
  from assms(2) obtain d s' where s: "s = d # s'" by (cases s) auto
  have vol: "s ! 0 * fst (stridesLoop s 1) ! 0 = prod_list s"
    by (simp add: s stridesLoop_Cons_fst)
  have "sampleIndex s (fst (stridesLoop s 1)) (int i) = unlin s (int i)"
    if "i < nat (prod_list s)" for i
  proof -
    have "int i mod prod_list s = int i" using that by simp
    then show ?thesis using sampleIndex_unlin[OF assms(1), of "int i"] by simp
  qed
  with vol assms(2) show ?thesis by (simp add: sample_def calculateStrides_def Let_def)
qed

end
