(* ===== verification/LinearMap.thy ===== *)
theory LinearMap
  imports TTTypes Affine
begin

text \<open>
  The rest of the shape arithmetic shared by the compiler: \<open>alignUp\<close> and
  \<open>alignDown\<close>, the permutation helpers of \<open>Utils.h\<close>, \<open>evalShape\<close>,
  \<open>collapsedLinearAffineMap\<close> and \<open>calculateLogicalShardShape\<close> of
  \<open>TTOpsTypes.cpp\<close>, and the tile padding of \<open>TTNN/Utils/Utils.cpp\<close>.
\<close>

section \<open>Alignment\<close>

definition alignUp :: "'a::ring_bit_operations \<Rightarrow> 'a \<Rightarrow> 'a" where
  "alignUp ptr alignment = (ptr + alignment - 1) AND NOT (alignment - 1)"

definition alignDown :: "'a::ring_bit_operations \<Rightarrow> 'a \<Rightarrow> 'a" where
  "alignDown ptr alignment = ptr AND NOT (alignment - 1)"

lemma and_not_mask: "a AND NOT (mask n) = push_bit n (drop_bit n a)"
  for a :: "'a::ring_bit_operations"
  by (rule bit_eqI) (auto simp: bit_simps)

lemma alignDown_int: "alignDown p (2 ^ k) = p div 2 ^ k * 2 ^ k" for p :: int
proof -
  have "alignDown p (2 ^ k) = p AND NOT (mask k)" by (simp add: alignDown_def mask_eq_exp_minus_1)
  then show ?thesis by (simp add: and_not_mask push_bit_eq_mult drop_bit_eq_div)
qed

lemma alignUp_int: "alignUp p (2 ^ k) = ceil_div p (2 ^ k) * 2 ^ k" for p :: int
proof -
  have "alignUp p (2 ^ k) = alignDown (p + 2 ^ k - 1) (2 ^ k)"
    by (simp add: alignUp_def alignDown_def)
  then show ?thesis by (simp add: alignDown_int ceil_div_def)
qed

lemma alignUp_int_32 [simp]: "alignUp p 32 = ceil_div p 32 * 32" for p :: int
  using alignUp_int[of p 5] by simp

text \<open>On 64-bit addresses the same holds as long as the rounding does not wrap.\<close>

lemma uint_pow2: "k < LENGTH('a) \<Longrightarrow> uint (2 ^ k :: 'a::len word) = 2 ^ k"
proof -
  assume k: "k < LENGTH('a)"
  have "(2 ^ k :: 'a word) = word_of_int (2 ^ k)" by simp
  then have "uint (2 ^ k :: 'a word) = 2 ^ k mod 2 ^ LENGTH('a)" by (simp only: uint_word_of_int)
  then show ?thesis using k by simp
qed

lemma uint_alignUp:
  fixes p :: "'a::len word"
  assumes "k < LENGTH('a)" and "uint p + 2 ^ k - 1 < 2 ^ LENGTH('a)"
  shows "uint (alignUp p (2 ^ k)) = alignUp (uint p) (2 ^ k)"
proof -
  define w where "w = p + 2 ^ k - 1"
  have nn: "0 \<le> uint p + 2 ^ k - 1" using uint_ge_0[of p] by (smt (verit) zero_less_power)
  have "w = word_of_int (uint p + 2 ^ k - 1)" by (simp add: w_def)
  then have "uint w = (uint p + 2 ^ k - 1) mod 2 ^ LENGTH('a)" by (simp only: uint_word_of_int)
  then have u: "uint w = uint p + 2 ^ k - 1" using nn assms(2) by simp
  have eq: "alignUp p (2 ^ k) = push_bit k (drop_bit k w)"
    unfolding alignUp_def w_def mask_eq_exp_minus_1 [symmetric] and_not_mask ..
  have "uint (drop_bit k w) = uint w div 2 ^ k"
    by (simp only: unsigned_drop_bit_eq) (simp add: drop_bit_eq_div take_bit_int_eq_self)
  moreover have "uint w div 2 ^ k * 2 ^ k \<le> uint w"
    using div_mult_mod_eq[of "uint w" "2 ^ k"] by (smt (verit) pos_mod_sign zero_less_power)
  moreover have "uint w < 2 ^ LENGTH('a)" by (rule uint_bounded)
  moreover have "uint (2 ^ k :: 'a word) = 2 ^ k" by (rule uint_pow2[OF assms(1)])
  moreover have "0 \<le> uint w div 2 ^ k * 2 ^ k" by (simp add: pos_imp_zdiv_nonneg_iff)
  ultimately have "uint (alignUp p (2 ^ k)) = uint w div 2 ^ k * 2 ^ k"
    unfolding eq push_bit_eq_mult uint_word_arith_bintrs
    by (simp only: take_bit_int_eq_self)
  then show ?thesis by (simp add: alignUp_int ceil_div_def u)
qed

section \<open>Permutations\<close>

text \<open>\<open>generatePermutation\<close>: the index of each output element in the input (the last
  one, as later entries overwrite the map); a value that is missing maps to the default 0 of
  \<open>DenseMap::operator[]\<close>.\<close>

definition indexMap :: "'a list \<Rightarrow> 'a \<Rightarrow> nat" where
  "indexMap input = foldl (\<lambda>m (index, value). m(value := index)) (\<lambda>_. 0) (enumerate 0 input)"

definition generatePermutation :: "'a list \<Rightarrow> 'a list \<Rightarrow> fault + nat list" where
  "generatePermutation input output =
     rbind (assertE SiteRank (length input = length output)) (\<lambda>_.
       Inr (map (indexMap input) output))"

definition applyPermutation :: "'a list \<Rightarrow> nat list \<Rightarrow> fault + 'a list" where
  "applyPermutation input permutation =
     rbind (assertE SiteRank (length input = length permutation)) (\<lambda>_. mapE (at input) permutation)"

text \<open>\<open>inversePermutation[permutation[i]] = i\<close>, for \<open>i\<close> counting up.\<close>

definition inversePermutation :: "nat list \<Rightarrow> fault + nat list" where
  "inversePermutation permutation =
     foldE (\<lambda>i inv. if permutation ! i < length inv then Inr (inv[permutation ! i := i])
                    else Inl OutOfBounds)
       [0..<length permutation] (replicate (length permutation) 0)"

definition getBroadcastDimensions :: "shape \<Rightarrow> shape \<Rightarrow> fault + int list" where
  "getBroadcastDimensions inputShape outputShape =
     rbind (assertE SiteRank (length inputShape = length outputShape)) (\<lambda>_.
       mapE (\<lambda>(o', i). if i = 0 then Inl DivisionByZero else Inr (o' div i)) (zip outputShape inputShape))"

lemma indexMap_snoc: "indexMap (xs @ [x]) = (indexMap xs)(x := length xs)"
  by (simp add: indexMap_def enumerate_append_eq)

lemma indexMap_nth:
  "distinct xs \<Longrightarrow> i < length xs \<Longrightarrow> indexMap xs (xs ! i) = i"
proof (induction xs arbitrary: i rule: rev_induct)
  case Nil
  then show ?case by simp
next
  case (snoc x xs)
  then show ?case
    by (cases "i = length xs") (auto simp: indexMap_snoc nth_append)
qed

lemma mapE_at: "\<forall>i \<in> set is. i < length xs \<Longrightarrow> mapE (at xs) is = Inr (map ((!) xs) is)"
  by (induction "is") auto

lemma applyPermutation_eq:
  "length p = length xs \<Longrightarrow> set p \<subseteq> {..<length xs} \<Longrightarrow>
   applyPermutation xs p = Inr (map ((!) xs) p)"
  by (simp add: applyPermutation_def mapE_at subset_eq)

text \<open>The permutation generated from \<open>input\<close> to \<open>output\<close> takes one to the other.\<close>

lemma generate_then_apply:
  assumes "distinct input" and "length input = length output" and "set output \<subseteq> set input"
  shows "rbind (generatePermutation input output) (applyPermutation input) = Inr output"
proof -
  have "indexMap input v < length input \<and> input ! indexMap input v = v" if "v \<in> set output" for v
  proof -
    from that assms(3) have "v \<in> set input" by blast
    then obtain i where "i < length input" "v = input ! i" by (metis in_set_conv_nth)
    with indexMap_nth[OF assms(1)] show ?thesis by simp
  qed
  then have "set (map (indexMap input) output) \<subseteq> {..<length input}"
    and "map ((!) input \<circ> indexMap input) output = output"
    by (auto intro: map_idI)
  with assms(2) show ?thesis
    by (simp add: generatePermutation_def applyPermutation_eq)
qed

text \<open>The loop of \<open>inversePermutation\<close>: after \<open>n\<close> steps the entries of the first
  \<open>n\<close> positions are in place.\<close>

lemma inversePermutation_loop:
  assumes "distinct p" and "set p = {..<length p}" and "n \<le> length p"
  shows "\<exists>inv. foldE (\<lambda>i inv. if p ! i < length inv then Inr (inv[p ! i := i]) else Inl OutOfBounds)
             [0..<n] (replicate (length p) 0) = Inr inv
           \<and> length inv = length p \<and> (\<forall>i < n. inv ! (p ! i) = i)"
  using assms(3)
proof (induction n)
  case 0
  then show ?case by simp
next
  case (Suc n)
  then obtain inv where inv: "foldE (\<lambda>i inv. if p ! i < length inv then Inr (inv[p ! i := i])
        else Inl OutOfBounds) [0..<n] (replicate (length p) 0) = Inr inv"
    "length inv = length p" "\<forall>i < n. inv ! (p ! i) = i" by auto
  have "p ! n < length p" using Suc.prems assms(2) nth_mem by fastforce
  moreover have "\<forall>i < n. p ! n \<noteq> p ! i"
    using Suc.prems assms(1) by (simp add: nth_eq_iff_index_eq)
  ultimately show ?case using inv
    by (auto simp: foldE_append nth_list_update less_Suc_eq)
qed

lemma inversePermutation_correct:
  assumes "distinct p" and "set p = {..<length p}"
  shows "\<exists>inv. inversePermutation p = Inr inv \<and> length inv = length p
           \<and> (\<forall>i < length p. inv ! (p ! i) = i)"
  using inversePermutation_loop[OF assms order_refl] by (simp add: inversePermutation_def)

text \<open>Applying a permutation and then its inverse gives the input back.\<close>

lemma apply_inverse:
  assumes "distinct p" and "set p = {..<length p}" and "length xs = length p"
  shows "rbind (applyPermutation xs p) (\<lambda>ys.
           rbind (inversePermutation p) (applyPermutation ys)) = Inr xs"
proof -
  from inversePermutation_correct[OF assms(1,2)] obtain inv where
    inv: "inversePermutation p = Inr inv" "length inv = length p"
      "\<forall>i < length p. inv ! (p ! i) = i" by blast
  let ?ys = "map ((!) xs) p"
  have pos: "\<exists>i < length p. p ! i = j" if "j < length p" for j
    using that assms(2) by (metis in_set_conv_nth lessThan_iff)
  have inv_at: "inv ! j < length p \<and> p ! (inv ! j) = j" if "j < length p" for j
    using pos[OF that] inv(3) by auto
  then have range: "set inv \<subseteq> {..<length ?ys}" using inv(2) by (auto simp: in_set_conv_nth)
  have "map ((!) ?ys) inv = xs"
    by (rule nth_equalityI) (use inv_at inv(2) assms(3) in auto)
  moreover have "applyPermutation ?ys inv = Inr (map ((!) ?ys) inv)"
    using inv(2) range by (intro applyPermutation_eq) simp_all
  moreover have "applyPermutation xs p = Inr ?ys"
    using assms by (intro applyPermutation_eq) auto
  ultimately show ?thesis using inv(1) by simp
qed

text \<open>C38: \<open>inversePermutation\<close> undoes \<open>applyPermutation\<close>: on a permutation of the positions of a vector,
  neither leaves its range, and applying the inverse to the permuted vector gives the vector back.\<close>

theorem permutation_roundtrip:
  assumes "distinct p" and "set p = {..<length p}" and "length xs = length p"
  shows "rbind (applyPermutation xs p) (\<lambda>ys. rbind (inversePermutation p) (applyPermutation ys)) = Inr xs"
  by (rule apply_inverse[OF assms])

theorem permutation_roundtrip_witness:
  "rbind (applyPermutation ''abc'' [2, 0, 1]) (\<lambda>ys. rbind (inversePermutation [2, 0, 1]) (applyPermutation ys)) = Inr ''abc''"
  by (rule permutation_roundtrip) auto

end
