(* ===== verification/CollapsedMap.thy ===== *)
theory CollapsedMap
  imports LinearMap
begin

text \<open>
  How a logical tensor is laid out on a grid: \<open>evalShape\<close> (\<open>Utils.h\<close>),
  \<open>collapsedLinearAffineMap\<close> and \<open>calculateLogicalShardShape\<close>
  (\<open>TTOpsTypes.cpp\<close>), and \<open>getTilePaddedShape\<close> (\<open>TTNN/Utils/Utils.cpp\<close>).

  The main facts: with the default interval \<open>{{0, -1}}\<close> and a two-dimensional grid the
  map sends an index to its row-major position over all dimensions but the last, paired with
  the last coordinate; it is injective on the index space; and the shards of the grid cover
  the physical shape with no shard row or column to spare. The code's \<open>int multiplier\<close>
  is kept at 32 bits.
\<close>

section \<open>Grids and shapes under a map\<close>

record grid_attr =
  gridShape :: shape
  gridMapping :: affine_map

definition gridOfShape :: "shape \<Rightarrow> grid_attr" where
  "gridOfShape shp = \<lparr>gridShape = shp, gridMapping = emptyMap\<rparr>"

definition gridOfRank :: "nat \<Rightarrow> grid_attr" where
  "gridOfRank rank = gridOfShape (replicate rank 1)"

definition getGridVolume :: "grid_attr \<Rightarrow> int" where
  "getGridVolume g = foldl (*) 1 (gridShape g)"

lemma gridShape_simps [simp]:
  "gridShape (gridOfShape s) = s" "gridShape (gridOfRank n) = replicate n 1"
  by (simp_all add: gridOfShape_def gridOfRank_def)

lemma getGridVolume_eq: "getGridVolume g = prod_list (gridShape g)"
  using volume_eq[of "gridShape g" 1] by (simp add: getGridVolume_def volume_def)

definition evalShape :: "affine_map \<Rightarrow> shape \<Rightarrow> shape" where
  "evalShape m shp = map (\<lambda>d. d + 1) (mapEval m (map (\<lambda>d. d - 1) shp))"

lemma evalShape_length [simp]: "length (evalShape m shp) = numResults m"
  by (simp add: evalShape_def)

text \<open>\<open>int multiplier\<close> is a 32-bit signed integer.\<close>

definition wrap32 :: "int \<Rightarrow> int" where
  "wrap32 x = signed_take_bit 31 x"

lemma wrap32_id: "- (2 ^ 31) \<le> x \<Longrightarrow> x < 2 ^ 31 \<Longrightarrow> wrap32 x = x"
  by (simp add: wrap32_def signed_take_bit_int_eq_self)

section \<open>collapsedLinearAffineMap\<close>

definition minorIdentity :: "nat \<Rightarrow> nat \<Rightarrow> aexpr list" where
  "minorIdentity dims res = map ADim [dims - res..<dims]"

definition resolveDim :: "nat \<Rightarrow> int \<Rightarrow> int" where
  "resolveDim n i = (if i < 0 then i + int n else i)"

text \<open>The inner loop: \<open>for (d = end - 1; d >= begin; --d)\<close>.\<close>

definition collapseBody :: "shape \<Rightarrow> nat \<Rightarrow> aexpr \<times> int \<Rightarrow> aexpr \<times> int" where
  "collapseBody shp d = (\<lambda>(collapsed, multiplier).
     (AAdd (AMul (ADim d) (AConst multiplier)) collapsed, wrap32 (multiplier * shp ! d)))"

definition collapseDims :: "shape \<Rightarrow> nat \<Rightarrow> nat \<Rightarrow> aexpr \<times> int" where
  "collapseDims shp b e = fold (collapseBody shp) (rev [b..<e]) (AConst 0, 1)"

text \<open>One interval. State: \<open>minimumDim\<close> and the results of \<open>map\<close>.\<close>

definition collapseInterval ::
  "shape \<Rightarrow> int \<times> int \<Rightarrow> int \<times> aexpr list \<Rightarrow> fault + int \<times> aexpr list" where
  "collapseInterval shp interval state =
     (case (interval, state) of ((begin0, end0), (minimumDim, rs)) \<Rightarrow>
       let n = length shp; b = resolveDim n begin0; e = resolveDim n end0 in
       if b = e then Inr (minimumDim, rs)
       else rbind (assertE SiteRank (0 < e)) (\<lambda>_.
         if b < 0 \<or> b < e \<and> int n < e then Inl OutOfBounds
         else rbind (dropResult (nat b) rs) (\<lambda>rs1.
              rbind (insertResult (fst (collapseDims shp (nat b) (nat e))) (nat b) rs1) (\<lambda>rs2.
              Inr (min minimumDim b, rs2)))))"

definition fillDim :: "nat \<Rightarrow> aexpr list \<Rightarrow> fault + aexpr list" where
  "fillDim d rs = rbind (dropResult d rs) (insertResult (ADim d) d)"

definition collapsedLinearAffineMap ::
  "shape \<Rightarrow> shape \<Rightarrow> (int \<times> int) list \<Rightarrow> fault + affine_map" where
  "collapsedLinearAffineMap shp grid collapseIntervals =
     (let n = length shp; numResultsClamped = min n (length grid) in
      rbind (foldE (collapseInterval shp) collapseIntervals (int n, minorIdentity n numResultsClamped))
        (\<lambda>(minimumDim, rs).
      rbind (foldE fillDim [0..<nat minimumDim] rs) (\<lambda>rs1.
      rbind (assertE SiteDimOnRHS (\<forall>d \<in> set [0..<n]. \<exists>r \<in> set rs1. isFunctionOfDim r d)) (\<lambda>_.
      Inr \<lparr>numDims = n, numSyms = 0,
           results = replicate (length grid - length rs1) (AConst 0) @ rs1\<rparr>))))"

definition calculateLogicalShardShape :: "shape \<Rightarrow> affine_map \<Rightarrow> grid_attr \<Rightarrow> fault + shape" where
  "calculateLogicalShardShape tensorShape linear g =
     rbind (assertE SiteLinear (numResults linear = length (gridShape g))) (\<lambda>_.
       let logicalShape = evalShape linear tensorShape in
       Inr (map2 ceil_div logicalShape (gridShape g)))"

definition getTilePaddedShape :: "shape \<Rightarrow> fault + shape" where
  "getTilePaddedShape shp =
     (let n = length shp in
      rbind (at shp (n - 1)) (\<lambda>w.
        let tiled = shp[n - 1 := alignUp w TILE_WIDTH] in
        Inr (if 1 < n then tiled[n - 2 := alignUp (shp ! (n - 2)) TILE_HEIGHT] else tiled)))"

section \<open>The collapsed expression is the row-major index\<close>

lemma collapseDims_Suc:
  "b < e \<Longrightarrow> collapseDims shp b e = collapseBody shp b (collapseDims shp (Suc b) e)"
  by (simp add: collapseDims_def upt_conv_Cons)

lemma collapseDims_empty: "e \<le> b \<Longrightarrow> collapseDims shp b e = (AConst 0, 1)"
  by (simp add: collapseDims_def)

lemma positive_drop_take: "positive_shape s \<Longrightarrow> positive_shape (drop b (take e s))"
  unfolding positive_shape_def by (meson in_set_dropD in_set_takeD)

lemma drop_take_Cons:
  "b < e \<Longrightarrow> e \<le> length s \<Longrightarrow> drop b (take e s) = s ! b # drop (Suc b) (take e s)"
  by (subst Cons_nth_drop_Suc [symmetric]) auto

text \<open>The multiplier after dimension \<open>b\<close> is the product of the dimensions from \<open>b\<close>
  on, while it stays below \<open>2^31\<close>.\<close>

lemma collapseDims_multiplier:
  assumes "positive_shape shp" and "e \<le> length shp" and "b \<le> e"
    and "prod_list (drop b (take e shp)) < 2 ^ 31"
  shows "snd (collapseDims shp b e) = prod_list (drop b (take e shp))"
  using assms(3,4)
proof (induction rule: inc_induct)
  case base
  then show ?case using assms(2) by (simp add: collapseDims_empty)
next
  case (step b)
  from step.hyps assms(2) have eq: "drop b (take e shp) = shp ! b # drop (Suc b) (take e shp)"
    by (intro drop_take_Cons)
  have p: "0 < prod_list (drop (Suc b) (take e shp))"
    by (intro prod_list_pos positive_drop_take assms(1))
  have d: "1 \<le> shp ! b"
    using positive_shape_nth[OF assms(1), of b] step.hyps assms(2) by simp
  have "prod_list (drop (Suc b) (take e shp)) \<le> shp ! b * prod_list (drop (Suc b) (take e shp))"
    using d p by (simp add: mult_le_cancel_right1)
  with step.prems eq have "prod_list (drop (Suc b) (take e shp)) < 2 ^ 31" by simp
  with step.IH have IH: "snd (collapseDims shp (Suc b) e) = prod_list (drop (Suc b) (take e shp))" by simp
  have pos: "0 < shp ! b * prod_list (drop (Suc b) (take e shp))" using d p by simp
  have "wrap32 (shp ! b * prod_list (drop (Suc b) (take e shp)))
      = shp ! b * prod_list (drop (Suc b) (take e shp))"
    using step.prems pos unfolding eq by (intro wrap32_id) (simp_all add: less_imp_le)
  with step.hyps IH eq show ?case
    by (simp add: collapseDims_Suc collapseBody_def case_prod_beta mult.commute)
qed

lemma collapseDims_eval:
  assumes "positive_shape shp" and "e \<le> length shp" and "b \<le> e" and "length idx = length shp"
    and "prod_list (drop (Suc b) (take e shp)) < 2 ^ 31"
  shows "aeval idx [] (fst (collapseDims shp b e)) = lin (drop b (take e shp)) (drop b (take e idx))"
  using assms(3,5)
proof (induction rule: inc_induct)
  case base
  then show ?case using assms(2,4) by (simp add: collapseDims_empty)
next
  case (step b)
  have eq: "drop b (take e shp) = shp ! b # drop (Suc b) (take e shp)"
    "drop b (take e idx) = idx ! b # drop (Suc b) (take e idx)"
    using step.hyps assms(2,4) by (auto intro: drop_take_Cons)
  have "prod_list (drop (Suc (Suc b)) (take e shp)) < 2 ^ 31"
  proof (cases "Suc b < e")
    case True
    then have "drop (Suc b) (take e shp) = shp ! Suc b # drop (Suc (Suc b)) (take e shp)"
      using assms(2) by (intro drop_take_Cons)
    moreover have "1 \<le> shp ! Suc b"
      using positive_shape_nth[OF assms(1), of "Suc b"] True assms(2) by simp
    moreover have "0 < prod_list (drop (Suc (Suc b)) (take e shp))"
      by (intro prod_list_pos positive_drop_take assms(1))
    ultimately have "prod_list (drop (Suc (Suc b)) (take e shp)) \<le> prod_list (drop (Suc b) (take e shp))"
      by (simp add: mult_le_cancel_right1)
    then show ?thesis using step.prems by (rule le_less_trans)
  next
    case False
    then show ?thesis by simp
  qed
  with step.IH have IH: "aeval idx [] (fst (collapseDims shp (Suc b) e))
      = lin (drop (Suc b) (take e shp)) (drop (Suc b) (take e idx))" by simp
  have "snd (collapseDims shp (Suc b) e) = prod_list (drop (Suc b) (take e shp))"
    using step.hyps step.prems assms(1,2) by (intro collapseDims_multiplier) auto
  with step.hyps IH show ?case
    unfolding eq by (simp add: collapseDims_Suc collapseBody_def case_prod_beta)
qed

lemma collapseDims_function_of:
  "isFunctionOfDim (fst (collapseDims shp b e)) d \<longleftrightarrow> b \<le> d \<and> d < e"
proof (cases "b \<le> e")
  case True
  then show ?thesis
  proof (induction rule: inc_induct)
    case base
    then show ?case by (auto simp: collapseDims_empty)
  next
    case (step b)
    have "isFunctionOfDim (fst (collapseDims shp b e)) d
        \<longleftrightarrow> b = d \<or> isFunctionOfDim (fst (collapseDims shp (Suc b) e)) d"
      using step.hyps by (simp add: collapseDims_Suc[of b e] collapseBody_def case_prod_beta)
    with step.IH step.hyps show ?case by auto
  qed
next
  case False
  then show ?thesis by (auto simp: collapseDims_empty)
qed

section \<open>The default interval on a two-dimensional grid\<close>

abbreviation defaultIntervals :: "(int \<times> int) list" where
  "defaultIntervals \<equiv> [(0, -1)]"

definition linear2d :: "shape \<Rightarrow> affine_map" where
  "linear2d shp = \<lparr>numDims = length shp, numSyms = 0,
     results = [fst (collapseDims shp 0 (length shp - 1)), ADim (length shp - 1)]\<rparr>"

lemma minorIdentity_2: "2 \<le> n \<Longrightarrow> minorIdentity n 2 = [ADim (n - 2), ADim (n - 1)]"
proof -
  assume "2 \<le> n"
  then have "[n - 2..<n] = [n - 2, n - 1]"
    by (cases n; cases "n - 1") (auto simp: upt_rec)
  then show ?thesis by (simp add: minorIdentity_def)
qed

lemma collapseInterval_default:
  assumes "2 \<le> length shp" and "rs \<noteq> []"
  shows "collapseInterval shp (0, -1) (m, rs)
       = Inr (min m 0, fst (collapseDims shp 0 (length shp - 1)) # tl rs)"
proof -
  from assms(2) obtain r rs' where "rs = r # rs'" by (cases rs) auto
  moreover from assms(1) have "nat (int (length shp) - 1) = length shp - 1" by simp
  ultimately show ?thesis using assms(1)
    by (simp add: collapseInterval_def resolveDim_def dropResult_def insertResult_def)
qed

lemma collapsed_default:
  assumes "2 \<le> length shp" and "length grid = 2"
  shows "collapsedLinearAffineMap shp grid defaultIntervals = Inr (linear2d shp)"
proof -
  have "\<exists>r \<in> set [fst (collapseDims shp 0 (length shp - 1)), ADim (length shp - 1)]. isFunctionOfDim r d"
    if "d \<in> set [0..<length shp]" for d
    using that by (auto simp: collapseDims_function_of)
  then have all: "(\<forall>d \<in> set [0..<length shp]. \<exists>r \<in> set [fst (collapseDims shp 0 (length shp - 1)),
      ADim (length shp - 1)]. isFunctionOfDim r d) = True" by blast
  have "min (length shp) (length grid) = 2" using assms by simp
  then show ?thesis
    using assms all
    by (simp only: collapsedLinearAffineMap_def Let_def foldE.simps minorIdentity_2
        collapseInterval_default[OF assms(1)] list.sel list.distinct rbind_simps prod.case
        rbind_Inr_right assertE_simps linear2d_def simp_thms)
      simp
qed

lemma numResults_linear2d [simp]: "numResults (linear2d shp) = 2"
  by (simp add: linear2d_def numResults_def)

lemma mapEval_linear2d:
  assumes "positive_shape shp" and "2 \<le> length shp" and "length idx = length shp"
    and "prod_list (tl (butlast shp)) < 2 ^ 31"
  shows "mapEval (linear2d shp) idx = [lin (butlast shp) (butlast idx), last idx]"
proof -
  have "aeval idx [] (fst (collapseDims shp 0 (length shp - 1)))
      = lin (drop 0 (take (length shp - 1) shp)) (drop 0 (take (length shp - 1) idx))"
    using assms by (intro collapseDims_eval) (auto simp: butlast_conv_take drop_Suc)
  moreover have "idx ! (length shp - 1) = last idx"
    using assms(2,3) by (subst last_conv_nth) auto
  ultimately show ?thesis
    using assms(3) by (simp add: mapEval_def linear2d_def butlast_conv_take)
qed

text \<open>The last index of a shape sits at the end of its row-major order.\<close>

lemma lin_last: "positive_shape s \<Longrightarrow> lin s (map (\<lambda>d. d - 1) s) = prod_list s - 1"
  by (induction s) (auto simp: algebra_simps)

lemma evalShape_linear2d:
  assumes "positive_shape shp" and "2 \<le> length shp"
    and "prod_list (tl (butlast shp)) < 2 ^ 31"
  shows "evalShape (linear2d shp) shp = [prod_list (butlast shp), last shp]"
proof -
  have "positive_shape (butlast shp)"
    using assms(1) by (auto simp: positive_shape_def dest: in_set_butlastD)
  moreover have "last (map (\<lambda>d. d - 1) shp) = last shp - 1"
    using assms(2) by (subst last_map) auto
  ultimately show ?thesis
    using assms by (simp add: evalShape_def mapEval_linear2d map_butlast [symmetric] lin_last)
qed

lemma index_of_split:
  assumes "index_of s x" and "s \<noteq> []"
  shows "index_of (butlast s) (butlast x) \<and> 0 \<le> last x \<and> last x < last s"
proof -
  from assms have "length x = length s" "x \<noteq> []" by (auto dest: index_of_length)
  with assms show ?thesis
    unfolding index_of_def
    by (auto simp: list_all2_conv_all_nth nth_butlast last_conv_nth)
qed

text \<open>Distinct tensor indices have distinct physical coordinates.\<close>

lemma linear2d_injective:
  assumes "positive_shape shp" and "2 \<le> length shp"
    and "prod_list (tl (butlast shp)) < 2 ^ 31"
    and "index_of shp x" and "index_of shp y"
    and "mapEval (linear2d shp) x = mapEval (linear2d shp) y"
  shows "x = y"
proof -
  have len: "length x = length shp" "length y = length shp"
    using assms(4,5) by (simp_all add: index_of_length)
  have ne: "shp \<noteq> []" "x \<noteq> []" "y \<noteq> []" using assms(2) len by auto
  from assms(6) have "lin (butlast shp) (butlast x) = lin (butlast shp) (butlast y)" "last x = last y"
    by (simp_all add: mapEval_linear2d[OF assms(1,2) _ assms(3)] len)
  with index_of_split[OF assms(4) ne(1)] index_of_split[OF assms(5) ne(1)]
  have "butlast x = butlast y" by (blast intro: lin_inj)
  with \<open>last x = last y\<close> ne show ?thesis by (metis append_butlast_last_id)
qed

section \<open>Shards cover the tensor\<close>

lemma calculateLogicalShardShape_Inr_iff:
  "calculateLogicalShardShape ts m g = Inr r \<longleftrightarrow>
     numResults m = length (gridShape g) \<and> r = map2 ceil_div (evalShape m ts) (gridShape g)"
  by (auto simp: calculateLogicalShardShape_def Let_def result_simps)

lemma shardShape_nth:
  assumes "calculateLogicalShardShape ts m g = Inr r" and "i < length (gridShape g)"
  shows "length r = length (gridShape g) \<and> r ! i = ceil_div (evalShape m ts ! i) (gridShape g ! i)"
  using assms by (auto simp: calculateLogicalShardShape_Inr_iff)

lemma shardShape_covers:
  assumes "calculateLogicalShardShape ts m g = Inr r" and "positive_shape (gridShape g)"
    and "i < length (gridShape g)"
  shows "(r ! i - 1) * gridShape g ! i < evalShape m ts ! i
       \<and> evalShape m ts ! i \<le> r ! i * gridShape g ! i"
  using shardShape_nth[OF assms(1,3)] ceil_div_covers ceil_div_least positive_shape_nth[OF assms(2,3)]
  by simp

lemma getTilePaddedShape_eq:
  assumes "2 \<le> length shp"
  shows "getTilePaddedShape shp =
    Inr (shp[length shp - 1 := ceil_div (last shp) 32 * 32,
             length shp - 2 := ceil_div (shp ! (length shp - 2)) 32 * 32])"
proof -
  have "last shp = shp ! (length shp - 1)" using assms by (intro last_conv_nth) auto
  with assms show ?thesis
    by (simp add: getTilePaddedShape_def Let_def TILE_WIDTH_def TILE_HEIGHT_def)
qed

end
