(* ===== verification/TTNNLayout.thy ===== *)
theory TTNNLayout
  imports CollapsedMap
begin

text \<open>
  \<open>TTNNLayoutAttr\<close>, the encoding of every TTNN tensor type (\<open>TTNNOpsAttrs.cpp\<close>):
  its accessors, the verifier of the buffer type and memory layout, the two shard shape
  computations, the constructor \<open>get\<close> and the \<open>with...\<close> copies, and
  \<open>MemoryConfigAttr\<close>; then the tensor types built on it (\<open>TTNN/Utils/Utils.cpp\<close>).
\<close>

section \<open>Memrefs and the layout attribute\<close>

record 'sp memref_type =
  memrefShape :: shape
  memrefElem :: elem_type
  memrefSpace :: 'sp

definition buildMemRef :: "shape \<Rightarrow> elem_type \<Rightarrow> 'sp \<Rightarrow> fault + 'sp memref_type" where
  "buildMemRef shardShape elementType memorySpace =
     rbind (case elementType of
              TileElem t \<Rightarrow> getTiledShape t shardShape
            | Scalar _ \<Rightarrow> Inr shardShape)
       (\<lambda>s. Inr \<lparr>memrefShape = s, memrefElem = elementType, memrefSpace = memorySpace\<rparr>)"

record tensor_mesh_sharding =
  meshShardingName :: string
  meshShardingAxes :: "(int \<times> int list) list"

record ttnn_layout_attr =
  getLinear :: affine_map
  getGrid :: grid_attr
  getMemref :: "buffer_type memref_type"
  getMemLayout :: "tensor_memory_layout option"
  getTensorMeshSharding :: "tensor_mesh_sharding option"

definition getElementType :: "ttnn_layout_attr \<Rightarrow> elem_type" where
  "getElementType l = memrefElem (getMemref l)"

definition getBufferType :: "ttnn_layout_attr \<Rightarrow> buffer_type" where
  "getBufferType l = memrefSpace (getMemref l)"

definition isTiled :: "ttnn_layout_attr \<Rightarrow> bool" where
  "isTiled l \<longleftrightarrow> isTileElem (getElementType l)"

definition getLayout :: "ttnn_layout_attr \<Rightarrow> layout" where
  "getLayout l = (if isTiled l then Tile else RowMajor)"

definition hasL1BufferType :: "ttnn_layout_attr \<Rightarrow> bool" where
  "hasL1BufferType l \<longleftrightarrow> isL1BufferType (getBufferType l)"

definition hasDRAMBufferType :: "ttnn_layout_attr \<Rightarrow> bool" where
  "hasDRAMBufferType l \<longleftrightarrow> isDRAMBufferType (getBufferType l)"

text \<open>\<open>getMemLayout().getValue()\<close> dereferences a null attribute when it is absent.\<close>

definition memLayoutValue :: "tensor_memory_layout option \<Rightarrow> fault + tensor_memory_layout" where
  "memLayoutValue m = (case m of None \<Rightarrow> Inl NullDeref | Some v \<Rightarrow> Inr v)"

definition hasShardedTensorMemoryLayout :: "ttnn_layout_attr \<Rightarrow> fault + bool" where
  "hasShardedTensorMemoryLayout l =
     (if isDeviceBufferType (getBufferType l)
      then rbind (memLayoutValue (getMemLayout l)) (\<lambda>m.
             Inr (m = HeightSharded \<or> m = WidthSharded \<or> m = BlockSharded))
      else Inr False)"

definition hasShardedL1TensorMemoryLayout :: "ttnn_layout_attr \<Rightarrow> fault + bool" where
  "hasShardedL1TensorMemoryLayout l =
     (if hasL1BufferType l
      then rbind (memLayoutValue (getMemLayout l)) (\<lambda>m.
             Inr (m = HeightSharded \<or> m = WidthSharded \<or> m = BlockSharded))
      else Inr False)"

definition hasInterleavedL1TensorMemoryLayout :: "ttnn_layout_attr \<Rightarrow> fault + bool" where
  "hasInterleavedL1TensorMemoryLayout l =
     (if hasL1BufferType l
      then rbind (memLayoutValue (getMemLayout l)) (\<lambda>m. Inr (m = Interleaved)) else Inr False)"

definition hasInterleavedDRAMTensorMemoryLayout :: "ttnn_layout_attr \<Rightarrow> fault + bool" where
  "hasInterleavedDRAMTensorMemoryLayout l =
     (if hasDRAMBufferType l
      then rbind (memLayoutValue (getMemLayout l)) (\<lambda>m. Inr (m = Interleaved)) else Inr False)"

datatype layout_error = MemLayoutOnSystemMemory | DramNotInterleaved | MemLayoutRequired

definition verifyBufferAndMemoryLayout ::
  "buffer_type \<Rightarrow> tensor_memory_layout option \<Rightarrow> layout_error + unit" where
  "verifyBufferAndMemoryLayout bufferType memLayoutAttr =
     (case memLayoutAttr of
        Some m \<Rightarrow>
          (if bufferType = SystemMemory then Inl MemLayoutOnSystemMemory
           else if bufferType = DRAM \<and> m \<noteq> Interleaved then Inl DramNotInterleaved
           else Inr ())
      | None \<Rightarrow> (if bufferType \<noteq> SystemMemory then Inl MemLayoutRequired else Inr ()))"

definition layoutVerify :: "ttnn_layout_attr \<Rightarrow> layout_error + unit" where
  "layoutVerify l = verifyBufferAndMemoryLayout (getBufferType l) (getMemLayout l)"

abbreviation layout_ok :: "ttnn_layout_attr \<Rightarrow> bool" where
  "layout_ok l \<equiv> layoutVerify l = Inr ()"

definition getScalarElementType :: "ttnn_layout_attr \<Rightarrow> scalar_type" where
  "getScalarElementType l =
     (case getElementType l of TileElem t \<Rightarrow> dataTypeToElementType (tile_dtype t) | Scalar s \<Rightarrow> s)"

definition getDataType :: "ttnn_layout_attr \<Rightarrow> fault + data_type" where
  "getDataType l =
     (case getElementType l of TileElem t \<Rightarrow> Inr (tile_dtype t) | Scalar s \<Rightarrow> scalarToDataType s)"

definition layoutElementSizeBytes :: "ttnn_layout_attr \<Rightarrow> fault + int" where
  "layoutElementSizeBytes l =
     (case getElementType l of
        TileElem t \<Rightarrow> tileSizeBytes t
      | Scalar s \<Rightarrow> rbind (getIntOrFloatBitWidth s) (\<lambda>w. Inr (w div 8)))"

definition getShardShape :: "ttnn_layout_attr \<Rightarrow> shape" where
  "getShardShape l = memrefShape (getMemref l)"

definition getScalarShardShape :: "ttnn_layout_attr \<Rightarrow> fault + shape" where
  "getScalarShardShape l =
     (case getElementType l of
        TileElem t \<Rightarrow> getScalarShape t (memrefShape (getMemref l))
      | Scalar _ \<Rightarrow> Inr (memrefShape (getMemref l)))"

text \<open>The byte size is accumulated in \<open>uint64_t\<close>.\<close>

definition getShardSizeInBytes :: "ttnn_layout_attr \<Rightarrow> fault + 64 word" where
  "getShardSizeInBytes l =
     rbind (layoutElementSizeBytes l) (\<lambda>size.
       Inr (foldl (\<lambda>acc d. acc * of_int d) (of_int size) (getShardShape l)))"

section \<open>Shard shapes\<close>

definition calculateLogicalShardShapeForSharding ::
  "shape \<Rightarrow> affine_map \<Rightarrow> grid_attr \<Rightarrow> fault + shape" where
  "calculateLogicalShardShapeForSharding tensorShape linear g =
     rbind (assertE SiteLinear (numResults linear = length (gridShape g))) (\<lambda>_.
       let physicalShape = evalShape linear tensorShape in
       Inr (map2 ceil_div physicalShape (gridShape g)))"

text \<open>
  The interleaved computation counts tiles with \<open>std::accumulate(..., 1, ...)\<close>, whose
  accumulator is an \<open>int\<close>; the count is then read as \<open>uint64_t\<close>.
\<close>

definition accumulateInt :: "shape \<Rightarrow> int" where
  "accumulateInt s = foldl (\<lambda>acc d. wrap32 (acc * d)) 1 s mod 2 ^ 64"

definition calculateLogicalShardShapeForL1Interleaved ::
  "shape \<Rightarrow> elem_type \<Rightarrow> affine_map \<Rightarrow> grid_attr \<Rightarrow> fault + shape" where
  "calculateLogicalShardShapeForL1Interleaved tensorShape elementType linear g =
     rbind (assertE SiteLinear (numResults linear = length (gridShape g))) (\<lambda>_.
     case elementType of
       Scalar _ \<Rightarrow> Inl (AssertFailed SiteTileElement)
     | TileElem t \<Rightarrow>
         (let physicalShape = evalShape linear tensorShape in
          rbind (getTiledShape t physicalShape) (\<lambda>physicalTiledShape.
            let numOfTiles = accumulateInt physicalTiledShape;
                numOfGridUnits = accumulateInt (gridShape g);
                shardShape = replicate (length (gridShape g) - 1) 1
                             @ [((numOfTiles + numOfGridUnits - 1) mod 2 ^ 64) div numOfGridUnits]
            in getScalarShape t shardShape)))"

section \<open>Construction\<close>

definition ttnnLayoutGet ::
  "shape \<Rightarrow> elem_type \<Rightarrow> buffer_type \<Rightarrow> grid_attr \<Rightarrow> tensor_memory_layout option
   \<Rightarrow> tensor_mesh_sharding option \<Rightarrow> (int \<times> int) list \<Rightarrow> fault + ttnn_layout_attr" where
  "ttnnLayoutGet tensorShape elementType bufferType g memLayoutAttr meshSharding collapseIntervals =
     rbind (if isTileElem elementType then getTilePaddedShape tensorShape else Inr tensorShape)
       (\<lambda>physicalShape.
     rbind (collapsedLinearAffineMap physicalShape (gridShape g) collapseIntervals) (\<lambda>linear.
     rbind (if bufferType = L1
            then rbind (memLayoutValue memLayoutAttr) (\<lambda>m. Inr (m = Interleaved))
            else Inr False) (\<lambda>l1Interleaved.
     rbind (if l1Interleaved
            then calculateLogicalShardShapeForL1Interleaved physicalShape elementType linear g
            else calculateLogicalShardShapeForSharding physicalShape linear g) (\<lambda>shardShape.
     rbind (buildMemRef shardShape elementType bufferType) (\<lambda>memRefType.
     Inr \<lparr>getLinear = linear, getGrid = g, getMemref = memRefType,
          getMemLayout = memLayoutAttr, getTensorMeshSharding = meshSharding\<rparr>)))))"

definition withGrid :: "ttnn_layout_attr \<Rightarrow> shape \<Rightarrow> grid_attr \<Rightarrow> (int \<times> int) list \<Rightarrow> fault + ttnn_layout_attr" where
  "withGrid l tensorShape g collapseIntervals =
     ttnnLayoutGet tensorShape (getElementType l) (getBufferType l) g (getMemLayout l)
       (getTensorMeshSharding l) collapseIntervals"

definition withElementType :: "ttnn_layout_attr \<Rightarrow> elem_type \<Rightarrow> shape \<Rightarrow> (int \<times> int) list \<Rightarrow> fault + ttnn_layout_attr" where
  "withElementType l elementType tensorShape collapseIntervals =
     ttnnLayoutGet tensorShape elementType (getBufferType l) (getGrid l) (getMemLayout l)
       (getTensorMeshSharding l) collapseIntervals"

definition withTensorShape :: "ttnn_layout_attr \<Rightarrow> shape \<Rightarrow> fault + ttnn_layout_attr" where
  "withTensorShape l tensorShape =
     ttnnLayoutGet tensorShape (getElementType l) (getBufferType l) (getGrid l) (getMemLayout l)
       (getTensorMeshSharding l) defaultIntervals"

definition withBufferType :: "ttnn_layout_attr \<Rightarrow> buffer_type \<Rightarrow> fault + ttnn_layout_attr" where
  "withBufferType l memorySpace =
     (let rankGrid = gridOfRank (length (gridShape (getGrid l)));
          memLayoutAttr0 = getMemLayout l; grid0 = getGrid l;
          (memLayoutAttr1, grid1) =
            (if memorySpace = SystemMemory then (None, rankGrid) else (memLayoutAttr0, grid0));
          (memLayoutAttr2, grid2) =
            (if memorySpace = DRAM then (Some Interleaved, rankGrid) else (memLayoutAttr1, grid1));
          memLayoutAttr3 =
            (if memorySpace = L1
             then (if getMemLayout l \<noteq> None then getMemLayout l else Some Interleaved)
             else memLayoutAttr2)
      in rbind (getScalarShardShape l) (\<lambda>scalarShard.
         rbind (buildMemRef scalarShard (getElementType l) memorySpace) (\<lambda>memref.
         Inr (l\<lparr>getGrid := grid2, getMemref := memref, getMemLayout := memLayoutAttr3\<rparr>))))"

definition withMemoryLayout :: "ttnn_layout_attr \<Rightarrow> tensor_memory_layout option \<Rightarrow> fault + ttnn_layout_attr" where
  "withMemoryLayout l memLayoutAttr =
     rbind (getScalarShardShape l) (\<lambda>scalarShard.
     rbind (buildMemRef scalarShard (getElementType l) (getBufferType l)) (\<lambda>memref.
     Inr (l\<lparr>getMemref := memref, getMemLayout := memLayoutAttr\<rparr>)))"

definition withShardShape :: "ttnn_layout_attr \<Rightarrow> shape \<Rightarrow> fault + ttnn_layout_attr" where
  "withShardShape l shardShape =
     rbind (buildMemRef shardShape (getElementType l) (getBufferType l)) (\<lambda>memref.
     Inr (l\<lparr>getMemref := memref\<rparr>))"


text \<open>
  \<open>TTNNLayoutAttr::getTiledShape\<close>: the last two results of the linear map are replaced,
  wherever they occur, by their quotient by the tile size, and the map is evaluated at the
  padded shape.
\<close>

fun areplace :: "(aexpr \<times> aexpr) list \<Rightarrow> aexpr \<Rightarrow> aexpr" where
  "areplace tbl (AAdd a b) =
     (case map_of tbl (AAdd a b) of Some r \<Rightarrow> r | None \<Rightarrow> AAdd (areplace tbl a) (areplace tbl b))"
| "areplace tbl (AMul a b) =
     (case map_of tbl (AMul a b) of Some r \<Rightarrow> r | None \<Rightarrow> AMul (areplace tbl a) (areplace tbl b))"
| "areplace tbl (AFloorDiv a b) =
     (case map_of tbl (AFloorDiv a b) of
        Some r \<Rightarrow> r | None \<Rightarrow> AFloorDiv (areplace tbl a) (areplace tbl b))"
| "areplace tbl (AMod a b) =
     (case map_of tbl (AMod a b) of Some r \<Rightarrow> r | None \<Rightarrow> AMod (areplace tbl a) (areplace tbl b))"
| "areplace tbl e = (case map_of tbl e of Some r \<Rightarrow> r | None \<Rightarrow> e)"

definition layoutTiledShape :: "ttnn_layout_attr \<Rightarrow> shape \<Rightarrow> fault + shape" where
  "layoutTiledShape l tensorShape =
     (case getElementType l of
        Scalar _ \<Rightarrow> Inl (AssertFailed SiteTileElement)
      | TileElem t \<Rightarrow>
          (let linear = getLinear l; rank = numResults linear in
           rbind (assertE SiteRank (2 \<le> rank)) (\<lambda>_.
             let y = results linear ! (rank - 2); x = results linear ! (rank - 1);
                 tbl = [(y, AFloorDiv y (AConst (getHeight t))),
                        (x, AFloorDiv x (AConst (getWidth t)))];
                 tiled = linear\<lparr>results := map (areplace tbl) (results linear)\<rparr>
             in rbind (getTilePaddedShape tensorShape) (\<lambda>padded. Inr (evalShape tiled padded)))))"

section \<open>Memory configurations\<close>

record memory_config_attr =
  mcBufferType :: buffer_type
  mcShardSpec :: shape
  mcTensorMemoryLayout :: "tensor_memory_layout option"

definition memoryConfigWithBufferType :: "memory_config_attr \<Rightarrow> buffer_type \<Rightarrow> memory_config_attr" where
  "memoryConfigWithBufferType mc b = mc\<lparr>mcBufferType := b\<rparr>"

definition memoryConfigWithMemoryLayout ::
  "memory_config_attr \<Rightarrow> tensor_memory_layout \<Rightarrow> memory_config_attr" where
  "memoryConfigWithMemoryLayout mc m = mc\<lparr>mcTensorMemoryLayout := Some m\<rparr>"

definition memoryConfigVerify :: "memory_config_attr \<Rightarrow> layout_error + unit" where
  "memoryConfigVerify mc = verifyBufferAndMemoryLayout (mcBufferType mc) (mcTensorMemoryLayout mc)"

section \<open>The verifier\<close>

lemma verify_Inr_iff:
  "verifyBufferAndMemoryLayout b m = Inr () \<longleftrightarrow>
     (b = SystemMemory \<and> m = None) \<or> (b = DRAM \<and> m = Some Interleaved)
     \<or> (b \<noteq> SystemMemory \<and> b \<noteq> DRAM \<and> m \<noteq> None)"
  by (cases b; cases m) (auto simp: verifyBufferAndMemoryLayout_def)

lemma layout_ok_device:
  "layout_ok l \<Longrightarrow> getBufferType l \<noteq> SystemMemory \<Longrightarrow> \<exists>m. getMemLayout l = Some m"
  by (auto simp: layoutVerify_def verify_Inr_iff)

section \<open>The copies keep the memref\<close>

text \<open>A layout whose memref has the rank and tile the constructors give it.\<close>

definition memref_ok :: "ttnn_layout_attr \<Rightarrow> bool" where
  "memref_ok l \<longleftrightarrow> length (getShardShape l) = 2
     \<and> (case getElementType l of TileElem t \<Rightarrow> tile_ok t | Scalar _ \<Rightarrow> True)"

lemma buildMemRef_scalar_shard:
  assumes "memref_ok l"
  shows "\<exists>s. getScalarShardShape l = Inr s
     \<and> buildMemRef s (getElementType l) b = Inr ((getMemref l)\<lparr>memrefSpace := b\<rparr>)"
proof (cases "getElementType l")
  case (Scalar s)
  then show ?thesis
    by (simp add: getScalarShardShape_def buildMemRef_def getElementType_def)
next
  case (TileElem t)
  with assms have ok: "tile_ok t" "2 \<le> length (memrefShape (getMemref l))"
    by (simp_all add: memref_ok_def getShardShape_def)
  then obtain s where s: "getScalarShape t (memrefShape (getMemref l)) = Inr s"
    using getScalarShape_total by blast
  then have "getTiledShape t s = Inr (memrefShape (getMemref l))"
    using ok(1) by (rule tiled_of_scalar [rotated])
  with s TileElem show ?thesis
    by (simp add: getScalarShardShape_def buildMemRef_def getElementType_def)
qed

lemma withBufferType_eq:
  assumes "memref_ok l"
  shows "withBufferType l b = Inr (l\<lparr>
     getGrid := (if b = SystemMemory \<or> b = DRAM
                 then gridOfRank (length (gridShape (getGrid l))) else getGrid l),
     getMemref := (getMemref l)\<lparr>memrefSpace := b\<rparr>,
     getMemLayout := (if b = SystemMemory then None
                      else if b = DRAM then Some Interleaved
                      else if b = L1 \<and> getMemLayout l = None then Some Interleaved
                      else getMemLayout l)\<rparr>)"
proof -
  from buildMemRef_scalar_shard[OF assms] obtain s where
    "getScalarShardShape l = Inr s"
    "buildMemRef s (getElementType l) b = Inr ((getMemref l)\<lparr>memrefSpace := b\<rparr>)" by blast
  then show ?thesis by (cases b) (simp_all add: withBufferType_def Let_def)
qed

lemma withMemoryLayout_eq:
  assumes "memref_ok l"
  shows "withMemoryLayout l m = Inr (l\<lparr>getMemLayout := m\<rparr>)"
proof -
  from buildMemRef_scalar_shard[OF assms, of "getBufferType l"] obtain s where
    "getScalarShardShape l = Inr s"
    "buildMemRef s (getElementType l) (getBufferType l) = Inr (getMemref l)"
    by (auto simp: getBufferType_def)
  then show ?thesis by (simp add: withMemoryLayout_def)
qed

lemma withBufferType_fields:
  assumes "withBufferType l b = Inr l'"
  shows "getBufferType l' = b \<and> getElementType l' = getElementType l
    \<and> getLinear l' = getLinear l \<and> getTensorMeshSharding l' = getTensorMeshSharding l
    \<and> getGrid l' = (if b = SystemMemory \<or> b = DRAM
                 then gridOfRank (length (gridShape (getGrid l))) else getGrid l)
    \<and> getMemLayout l' = (if b = SystemMemory then None
                      else if b = DRAM then Some Interleaved
                      else if b = L1 \<and> getMemLayout l = None then Some Interleaved
                      else getMemLayout l)"
  using assms
  by (cases b) (auto simp: withBufferType_def Let_def result_simps buildMemRef_def
      getBufferType_def getElementType_def)

lemma withMemoryLayout_fields:
  assumes "withMemoryLayout l m = Inr l'"
  shows "getBufferType l' = getBufferType l \<and> getElementType l' = getElementType l
    \<and> getLinear l' = getLinear l \<and> getTensorMeshSharding l' = getTensorMeshSharding l
    \<and> getGrid l' = getGrid l \<and> getMemLayout l' = m"
  using assms
  by (auto simp: withMemoryLayout_def result_simps buildMemRef_def getBufferType_def getElementType_def)

lemma ttnnLayoutGet_fields:
  assumes "ttnnLayoutGet s e b g m ms ci = Inr l"
  shows "getBufferType l = b \<and> getElementType l = e \<and> getGrid l = g \<and> getMemLayout l = m
    \<and> getTensorMeshSharding l = ms"
  using assms
  by (auto simp: ttnnLayoutGet_def result_simps buildMemRef_def getBufferType_def getElementType_def)

end
