(* ===== verification/TTNNCoverage.thy ===== *)
theory TTNNCoverage
  imports TTNNLayout
begin

text \<open>
  What a layout built by \<open>TTNNLayoutAttr::get\<close> promises about the tensor: with the
  default collapse interval and a two-dimensional grid the layout assigns every element of
  the tensor to a core of the grid and a position inside that core's shard, and no two
  elements share both; interleaved L1 layouts have room for every tile; \<open>getTiledShape\<close>
  counts the tiles.
\<close>

section \<open>The physical shape\<close>

text \<open>The shape whose row-major image the layout stores: padded to tiles for a tiled
  element type.\<close>

definition physicalShapeOf :: "elem_type \<Rightarrow> shape \<Rightarrow> shape" where
  "physicalShapeOf e s =
     (if isTileElem e
      then s[length s - 1 := ceil_div (last s) 32 * 32,
             length s - 2 := ceil_div (s ! (length s - 2)) 32 * 32]
      else s)"

lemma physicalShapeOf_length [simp]: "length (physicalShapeOf e s) = length s"
  by (simp add: physicalShapeOf_def)

lemma physicalShapeOf_covers:
  assumes "2 \<le> length s" and "i < length s"
  shows "s ! i \<le> physicalShapeOf e s ! i"
proof -
  have "last s = s ! (length s - 1)" using assms(1) by (intro last_conv_nth) auto
  then show ?thesis
    using assms ceil_div_covers[of 32] by (auto simp: physicalShapeOf_def nth_list_update)
qed

lemma physicalShapeOf_positive:
  assumes "2 \<le> length s" and "positive_shape s"
  shows "positive_shape (physicalShapeOf e s)"
proof -
  have "0 < physicalShapeOf e s ! i" if "i < length s" for i
    using that positive_shape_nth[OF assms(2) that] physicalShapeOf_covers[OF assms(1) that, of e]
    by (rule_tac less_le_trans)
  then show ?thesis by (auto simp: positive_shape_def in_set_conv_nth)
qed

lemma index_of_physical:
  assumes "2 \<le> length s" and "index_of s x"
  shows "index_of (physicalShapeOf e s) x"
  unfolding index_of_def list_all2_conv_all_nth
  using index_of_length[OF assms(2)] index_of_nth[OF assms(2)] physicalShapeOf_covers[OF assms(1), of _ e]
  by (auto intro: less_le_trans)

section \<open>The layout that get builds\<close>

text \<open>The side conditions of the code's use: a tensor of rank at least two, a
  two-dimensional grid, and a memory layout other than L1 interleaved.\<close>

definition sharded_args :: "shape \<Rightarrow> buffer_type \<Rightarrow> grid_attr \<Rightarrow> tensor_memory_layout option \<Rightarrow> bool" where
  "sharded_args s b g m \<longleftrightarrow> 2 \<le> length s \<and> length (gridShape g) = 2
     \<and> (b = L1 \<longrightarrow> m \<noteq> None \<and> m \<noteq> Some Interleaved)"

lemma get_physicalShape:
  "2 \<le> length s \<Longrightarrow>
   (if isTileElem e then getTilePaddedShape s else Inr s) = Inr (physicalShapeOf e s)"
  by (simp add: getTilePaddedShape_eq physicalShapeOf_def)

lemma shardForSharding_2d:
  assumes "length (gridShape g) = 2"
  shows "calculateLogicalShardShapeForSharding p (linear2d p) g =
    Inr [ceil_div (evalShape (linear2d p) p ! 0) (gridShape g ! 0),
         ceil_div (evalShape (linear2d p) p ! 1) (gridShape g ! 1)]"
proof -
  have l: "length (evalShape (linear2d p) p) = 2" by simp
  then obtain a b where ab: "evalShape (linear2d p) p = [a, b]" by (rule length_2E)
  from assms obtain u v where "gridShape g = [u, v]" by (rule length_2E)
  with ab show ?thesis by (simp add: calculateLogicalShardShapeForSharding_def)
qed

lemma buildMemRef_2d:
  "buildMemRef [a, b] e sp = Inr \<lparr>
     memrefShape = (case e of Scalar _ \<Rightarrow> [a, b]
                    | TileElem t \<Rightarrow> [ceil_div a (getHeight t), ceil_div b (getWidth t)]),
     memrefElem = e, memrefSpace = sp\<rparr>"
  by (cases e) (simp_all add: buildMemRef_def getTiledShape_def Let_def)

lemma ttnnLayoutGet_eq:
  assumes "sharded_args s b g m"
  shows "ttnnLayoutGet s e b g m ms defaultIntervals =
    (let p = physicalShapeOf e s;
         h = ceil_div (evalShape (linear2d p) p ! 0) (gridShape g ! 0);
         w = ceil_div (evalShape (linear2d p) p ! 1) (gridShape g ! 1)
     in Inr \<lparr>getLinear = linear2d p, getGrid = g,
             getMemref = \<lparr>memrefShape = (case e of Scalar _ \<Rightarrow> [h, w]
                 | TileElem t \<Rightarrow> [ceil_div h (getHeight t), ceil_div w (getWidth t)]),
               memrefElem = e, memrefSpace = b\<rparr>,
             getMemLayout = m, getTensorMeshSharding = ms\<rparr>)"
proof -
  from assms have n: "2 \<le> length s" and g: "length (gridShape g) = 2"
    and i: "(if b = L1 then rbind (memLayoutValue m) (\<lambda>m. Inr (m = Interleaved)) else Inr False) = Inr False"
    by (auto simp: sharded_args_def memLayoutValue_def)
  from n g have "collapsedLinearAffineMap (physicalShapeOf e s) (gridShape g) defaultIntervals
      = Inr (linear2d (physicalShapeOf e s))"
    by (intro collapsed_default) simp_all
  then show ?thesis
    unfolding ttnnLayoutGet_def get_physicalShape[OF n] i rbind_simps
    by (simp add: shardForSharding_2d[OF g] buildMemRef_2d Let_def)
qed

lemma get_total_memref_ok:
  assumes "sharded_args s b g m" and "\<And>t. e = TileElem t \<Longrightarrow> tile_ok t"
  shows "\<exists>l. ttnnLayoutGet s e b g m ms defaultIntervals = Inr l \<and> memref_ok l"
  using assms(2)
  by (simp add: ttnnLayoutGet_eq[OF assms(1)] Let_def memref_ok_def getShardShape_def
      getElementType_def split: elem_type.splits)

section \<open>Placement of the elements\<close>

text \<open>The core that holds an element and the position in its shard: the quotient and
  remainder of the physical coordinates by the scalar shard shape.\<close>

definition coreOf :: "ttnn_layout_attr \<Rightarrow> shape \<Rightarrow> int list \<Rightarrow> int list" where
  "coreOf l shard x = map2 (div) (mapEval (getLinear l) x) shard"

definition offsetOf :: "ttnn_layout_attr \<Rightarrow> shape \<Rightarrow> int list \<Rightarrow> int list" where
  "offsetOf l shard x = map2 (mod) (mapEval (getLinear l) x) shard"

lemma div_mod_inj: "x div k = y div k \<Longrightarrow> x mod k = y mod k \<Longrightarrow> x = (y::int)"
  by (metis div_mult_mod_eq)

text \<open>The scalar shard is at least as large as the quotient the code divides by.\<close>

lemma get_scalar_shard:
  assumes "sharded_args s b g m" and "\<And>t. e = TileElem t \<Longrightarrow> tile_ok t"
    and "ttnnLayoutGet s e b g m ms defaultIntervals = Inr l"
  shows "\<exists>h w. getScalarShardShape l = Inr [h, w]
    \<and> ceil_div (evalShape (linear2d (physicalShapeOf e s)) (physicalShapeOf e s) ! 0) (gridShape g ! 0) \<le> h
    \<and> ceil_div (evalShape (linear2d (physicalShapeOf e s)) (physicalShapeOf e s) ! 1) (gridShape g ! 1) \<le> w"
proof (cases e)
  case (Scalar a)
  with assms(3) show ?thesis
    unfolding ttnnLayoutGet_eq[OF assms(1)]
    by (auto simp: Let_def getScalarShardShape_def getElementType_def)
next
  case (TileElem t)
  with assms(2) have "0 < getHeight t" "0 < getWidth t" by (simp_all add: tile_ok_def)
  with assms(3) TileElem show ?thesis
    unfolding ttnnLayoutGet_eq[OF assms(1)]
    by (auto simp: Let_def getScalarShardShape_def getElementType_def getScalarShape_def
        intro: ceil_div_covers)
qed

lemma get_linear:
  assumes "sharded_args s b g m" and "ttnnLayoutGet s e b g m ms defaultIntervals = Inr l"
  shows "getLinear l = linear2d (physicalShapeOf e s) \<and> getGrid l = g"
  using assms(2) unfolding ttnnLayoutGet_eq[OF assms(1)] by (auto simp: Let_def)

text \<open>\<open>placement_ok\<close>: every index has a core of the grid and a position of the shard, and
  different indices differ in one of them.\<close>

definition placement_ok :: "ttnn_layout_attr \<Rightarrow> shape \<Rightarrow> shape \<Rightarrow> bool" where
  "placement_ok l shard s \<longleftrightarrow>
     (\<forall>x. index_of s x \<longrightarrow> index_of (gridShape (getGrid l)) (coreOf l shard x)
                         \<and> index_of shard (offsetOf l shard x))
   \<and> (\<forall>x y. index_of s x \<longrightarrow> index_of s y \<longrightarrow>
         coreOf l shard x = coreOf l shard y \<longrightarrow> offsetOf l shard x = offsetOf l shard y \<longrightarrow> x = y)"

lemma placement_ok_linear2d:
  assumes p: "positive_shape p" "2 \<le> length p" "prod_list (tl (butlast p)) < 2 ^ 31"
    and sub: "\<And>x. index_of s x \<Longrightarrow> index_of p x"
    and l: "getLinear l = linear2d p" "gridShape (getGrid l) = [u, v]" "0 < u" "0 < v"
    and h: "ceil_div (evalShape (linear2d p) p ! 0) u \<le> h"
    and w: "ceil_div (evalShape (linear2d p) p ! 1) v \<le> w"
  shows "placement_ok l [h, w] s"
proof -
  let ?P = "prod_list (butlast p)" and ?W = "last p"
  have ev: "evalShape (linear2d p) p = [?P, ?W]" by (rule evalShape_linear2d[OF p(1,2,3)])
  have pb: "positive_shape (butlast p)"
    using p(1) by (auto simp: positive_shape_def dest: in_set_butlastD)
  have ne: "p \<noteq> []" using p(2) by auto
  have pos: "0 < ?P" "0 < ?W"
    using prod_list_pos[OF pb] p(1) ne by (auto simp: positive_shape_def)
  have hw: "0 < h" "0 < w"
    using ceil_div_pos[OF pos(1) l(3)] ceil_div_pos[OF pos(2) l(4)] h w ev by auto
  have "ceil_div ?P u * u \<le> h * u" "ceil_div ?W v * v \<le> w * v"
    using h w l(3,4) ev by (auto intro!: mult_right_mono)
  with ceil_div_covers[OF l(3), of ?P] ceil_div_covers[OF l(4), of ?W]
  have cov: "?P \<le> u * h" "?W \<le> v * w" by (auto simp: mult.commute)
  have me: "mapEval (getLinear l) x = [lin (butlast p) (butlast x), last x]" if "index_of p x" for x
    unfolding l(1) using index_of_length[OF that] by (intro mapEval_linear2d p) simp_all
  show ?thesis
    unfolding placement_ok_def
  proof (intro conjI allI impI)
    fix x assume "index_of s x"
    then have x: "index_of p x" by (rule sub)
    note sp = index_of_split[OF x ne]
    have b: "0 \<le> lin (butlast p) (butlast x)" "lin (butlast p) (butlast x) < ?P"
      using lin_bounds[OF conjunct1[OF sp]] by simp_all
    show "index_of (gridShape (getGrid l)) (coreOf l [h, w] x)"
      using b sp hw cov by (auto simp: coreOf_def me[OF x] l(2) pos_imp_zdiv_nonneg_iff
          intro!: div_less_of_less_mult)
    show "index_of [h, w] (offsetOf l [h, w] x)"
      using hw by (simp add: offsetOf_def me[OF x])
  next
    fix x y assume "index_of s x" "index_of s y"
      and c: "coreOf l [h, w] x = coreOf l [h, w] y" "offsetOf l [h, w] x = offsetOf l [h, w] y"
    then have x: "index_of p x" and y: "index_of p y" by (simp_all add: sub)
    from c have "mapEval (getLinear l) x = mapEval (getLinear l) y"
      by (auto simp: coreOf_def offsetOf_def me[OF x] me[OF y] intro: div_mod_inj)
    then show "x = y" using linear2d_injective[OF p x y] by (simp add: l(1))
  qed
qed

text \<open>
  C1: \<open>TTNNLayoutAttr::get\<close>, with the default collapse interval, a tensor of rank at
  least two, positive dimensions and a two-dimensional grid (any layout but interleaved L1),
  returns a layout that places every element of the tensor: the core lies in the grid, the
  position lies in the scalar shard, and two different elements never share core and
  position. The bound says that the 32-bit multiplier of the collapsed map does not wrap.
\<close>

theorem get_places_every_element:
  assumes "sharded_args s b g m" and "positive_shape s" and "positive_shape (gridShape g)"
    and "\<And>t. e = TileElem t \<Longrightarrow> tile_ok t"
    and "prod_list (tl (butlast (physicalShapeOf e s))) < 2 ^ 31"
  shows "\<exists>l shard. ttnnLayoutGet s e b g m ms defaultIntervals = Inr l
    \<and> getScalarShardShape l = Inr shard \<and> placement_ok l shard s"
proof -
  obtain l where l: "ttnnLayoutGet s e b g m ms defaultIntervals = Inr l"
    using get_total_memref_ok[OF assms(1), of e ms] assms(4) by blast
  from assms(1) have n: "2 \<le> length s" and "length (gridShape g) = 2"
    by (simp_all add: sharded_args_def)
  obtain u v where uv: "gridShape g = [u, v]"
    using \<open>length (gridShape g) = 2\<close> by (rule length_2E)
  from get_scalar_shard[OF assms(1) assms(4) l] uv obtain h w where hw:
    "getScalarShardShape l = Inr [h, w]"
    "ceil_div (evalShape (linear2d (physicalShapeOf e s)) (physicalShapeOf e s) ! 0) u \<le> h"
    "ceil_div (evalShape (linear2d (physicalShapeOf e s)) (physicalShapeOf e s) ! 1) v \<le> w" by auto
  have "placement_ok l [h, w] s"
    by (rule placement_ok_linear2d[of "physicalShapeOf e s" _ _ u v])
      (use assms(3,5) n get_linear[OF assms(1) l] uv hw
        in \<open>auto intro: physicalShapeOf_positive assms index_of_physical\<close>)
  with l hw(1) show ?thesis by blast
qed

lemma get_places_every_element_witness:
  "\<exists>l shard. ttnnLayoutGet [2, 70, 40] (TileElem (defaultTile BFloat16)) L1
       (gridOfShape [2, 2]) (Some BlockSharded) None defaultIntervals = Inr l
    \<and> getScalarShardShape l = Inr shard \<and> placement_ok l shard [2, 70, 40]"
  by (rule get_places_every_element)
    (auto simp: sharded_args_def physicalShapeOf_def ceil_div_def)

section \<open>Interleaved L1\<close>

lemma accumulateInt_pair:
  assumes "0 < a" and "0 < b" and "a * b < 2 ^ 31"
  shows "accumulateInt [a, b] = a * b"
proof -
  have "a * 1 \<le> a * b" using assms by (intro mult_left_mono) auto
  then have "a < 2 ^ 31" using assms(3) by simp
  with assms(1) have "wrap32 a = a" by (intro wrap32_id) auto
  moreover have ab: "0 \<le> a * b" using assms by simp
  moreover have "wrap32 (a * b) = a * b"
    using ab assms(3) by (intro wrap32_id) linarith+
  ultimately show ?thesis using assms(3) by (simp add: accumulateInt_def)
qed

text \<open>The number of 32x32 tiles of a physical shape collapsed to two dimensions.\<close>

definition tilesOf :: "shape \<Rightarrow> int" where
  "tilesOf p = ceil_div (prod_list (butlast p)) 32 * ceil_div (last p) 32"

lemma l1_interleaved_shard:
  assumes p: "positive_shape p" "2 \<le> length p" "prod_list (tl (butlast p)) < 2 ^ 31"
    and g: "gridShape g = [u, v]" "0 < u" "0 < v" "u * v < 2 ^ 31"
    and n: "tilesOf p < 2 ^ 31"
  shows "calculateLogicalShardShapeForL1Interleaved p (TileElem (defaultTile dt)) (linear2d p) g
    = Inr [32, ceil_div (tilesOf p) (u * v) * 32]"
proof -
  have pb: "positive_shape (butlast p)"
    using p(1) by (auto simp: positive_shape_def dest: in_set_butlastD)
  have ne: "p \<noteq> []" using p(2) by auto
  have pos: "0 < prod_list (butlast p)" "0 < last p"
    using prod_list_pos[OF pb] p(1) ne by (auto simp: positive_shape_def)
  have tiles: "accumulateInt [ceil_div (prod_list (butlast p)) 32, ceil_div (last p) 32] = tilesOf p"
    using n pos unfolding tilesOf_def by (intro accumulateInt_pair ceil_div_pos) auto
  have units: "accumulateInt [u, v] = u * v" using g by (intro accumulateInt_pair)
  have t0: "0 < tilesOf p" using pos by (auto simp: tilesOf_def intro!: mult_pos_pos ceil_div_pos)
  have g0: "0 < u * v" using g by simp
  have "(tilesOf p + u * v - 1) mod 2 ^ 64 = tilesOf p + u * v - 1"
    using t0 g0 g(4) n by (intro mod_pos_pos_trivial) auto
  then have "(tilesOf p + u * v - 1) mod 2 ^ 64 div (u * v) = ceil_div (tilesOf p) (u * v)"
    by (simp add: ceil_div_def)
  then show ?thesis
    unfolding calculateLogicalShardShapeForL1Interleaved_def
    using g(1) evalShape_linear2d[OF p]
    by (simp add: Let_def getTiledShape_def getScalarShape_def tiles units)
qed

text \<open>
  C2: an interleaved L1 layout of a tiled tensor has a shard of \<open>1 x k\<close> tiles where
  \<open>k\<close> is the least number such that the cores of the grid together hold every tile of
  the (padded, collapsed) tensor. The bounds say that neither the collapsed map's multiplier
  nor the two \<open>int\<close> accumulations wrap.
\<close>

theorem l1_interleaved_holds_every_tile:
  assumes "2 \<le> length s" and "positive_shape s"
    and "length (gridShape g) = 2" and "positive_shape (gridShape g)"
    and "prod_list (tl (butlast (physicalShapeOf (TileElem (defaultTile dt)) s))) < 2 ^ 31"
    and "tilesOf (physicalShapeOf (TileElem (defaultTile dt)) s) < 2 ^ 31"
    and "prod_list (gridShape g) < 2 ^ 31"
  shows "\<exists>l k. ttnnLayoutGet s (TileElem (defaultTile dt)) L1 g (Some Interleaved) ms defaultIntervals = Inr l
    \<and> getShardShape l = [1, k]
    \<and> tilesOf (physicalShapeOf (TileElem (defaultTile dt)) s) \<le> k * getGridVolume g
    \<and> (k - 1) * getGridVolume g < tilesOf (physicalShapeOf (TileElem (defaultTile dt)) s)"
proof -
  let ?e = "TileElem (defaultTile dt)" let ?p = "physicalShapeOf ?e s"
  obtain u v where uv: "gridShape g = [u, v]" using assms(3) by (rule length_2E)
  with assms(4,7) have g: "0 < u" "0 < v" "u * v < 2 ^ 31" by auto
  have p: "positive_shape ?p" "2 \<le> length ?p"
    using assms(1,2) by (simp_all add: physicalShapeOf_positive)
  note sh = l1_interleaved_shard[OF p assms(5) uv g assms(6)]
  have c: "collapsedLinearAffineMap ?p (gridShape g) defaultIntervals = Inr (linear2d ?p)"
    using p assms(3) by (intro collapsed_default)
  have "\<exists>l. ttnnLayoutGet s ?e L1 g (Some Interleaved) ms defaultIntervals = Inr l
      \<and> getShardShape l = [1, ceil_div (tilesOf ?p) (u * v)]"
    unfolding ttnnLayoutGet_def get_physicalShape[OF assms(1)] rbind_simps c memLayoutValue_def
    by (simp add: sh buildMemRef_2d getShardShape_def) (simp add: ceil_div_def)
  then show ?thesis
    using ceil_div_covers[of "u * v" "tilesOf ?p"] ceil_div_least[of "u * v" "tilesOf ?p"] g uv
    by (auto simp: getGridVolume_eq)
qed

lemma l1_interleaved_holds_every_tile_witness:
  "\<exists>l k. ttnnLayoutGet [32, 2049] (TileElem (defaultTile BFloat16)) L1 (gridOfShape [8, 8])
        (Some Interleaved) None defaultIntervals = Inr l
    \<and> getShardShape l = [1, k]
    \<and> tilesOf (physicalShapeOf (TileElem (defaultTile BFloat16)) [32, 2049]) \<le> k * getGridVolume (gridOfShape [8, 8])
    \<and> (k - 1) * getGridVolume (gridOfShape [8, 8]) < tilesOf (physicalShapeOf (TileElem (defaultTile BFloat16)) [32, 2049])"
  by (rule l1_interleaved_holds_every_tile)
    (auto simp: physicalShapeOf_def tilesOf_def ceil_div_def)

text \<open>
  The same layout for a row-major element type is never built: whatever the tensor, an
  interleaved L1 layout of scalars stops at the tile assertion (the code calls the tile
  computation for every interleaved L1 layout).
\<close>

lemma l1_interleaved_row_major_asserts:
  assumes "2 \<le> length s" and "length (gridShape g) = 2"
  shows "ttnnLayoutGet s (Scalar a) L1 g (Some Interleaved) ms defaultIntervals
    = Inl (AssertFailed SiteTileElement)"
proof -
  have "collapsedLinearAffineMap s (gridShape g) defaultIntervals = Inr (linear2d s)"
    using assms by (intro collapsed_default)
  with assms show ?thesis
    by (simp add: ttnnLayoutGet_def memLayoutValue_def calculateLogicalShardShapeForL1Interleaved_def)
qed

lemma l1_interleaved_row_major_asserts_witness:
  "ttnnLayoutGet [32, 64] (Scalar BF16Type) L1 (gridOfShape [8, 8]) (Some Interleaved) None defaultIntervals
    = Inl (AssertFailed SiteTileElement)"
  by (rule l1_interleaved_row_major_asserts) simp_all

section \<open>Tiles of a tensor\<close>

text \<open>Evaluating the map with its two results divided gives the number of tiles in each
  direction: \<open>floor((n - 1) / 32) + 1\<close> is \<open>n / 32\<close> rounded up.\<close>

lemma floor_plus_one: "0 < k \<Longrightarrow> (n - 1) div k + 1 = ceil_div n (k :: int)"
  using div_add_self2[of k "n - 1"] by (simp add: ceil_div_def algebra_simps)

lemma areplace_hit: "map_of tbl e = Some r \<Longrightarrow> areplace tbl e = r"
  by (cases e) auto

lemma linear2d_results_distinct:
  assumes "2 \<le> length p"
  shows "fst (collapseDims p 0 (length p - 1)) \<noteq> ADim (length p - 1)"
  using assms collapseDims_function_of[of p 0 "length p - 1" "length p - 1"] by auto

lemma layoutTiledShape_linear2d:
  assumes p: "positive_shape p" "2 \<le> length p" "prod_list (tl (butlast p)) < 2 ^ 31"
    and l: "getLinear l = linear2d p" "getElementType l = TileElem (defaultTile dt)"
    and s: "getTilePaddedShape s = Inr p"
  shows "layoutTiledShape l s = Inr [ceil_div (prod_list (butlast p)) 32, ceil_div (last p) 32]"
proof -
  let ?y = "fst (collapseDims p 0 (length p - 1))" and ?x = "ADim (length p - 1)"
  let ?q = "map (\<lambda>d. d - 1) p"
  have ev: "mapEval (linear2d p) ?q = [prod_list (butlast p) - 1, last p - 1]"
    using evalShape_linear2d[OF p] by (simp add: evalShape_def mapEval_def linear2d_def)
  then have e: "aeval ?q [] ?y = prod_list (butlast p) - 1" "aeval ?q [] ?x = last p - 1"
    by (simp_all add: mapEval_def linear2d_def)
  have r: "results (linear2d p) = [?y, ?x]" by (simp add: linear2d_def)
  have h: "areplace [(?y, AFloorDiv ?y (AConst 32)), (?x, AFloorDiv ?x (AConst 32))] ?y
        = AFloorDiv ?y (AConst 32)"
      "areplace [(?y, AFloorDiv ?y (AConst 32)), (?x, AFloorDiv ?x (AConst 32))] ?x
        = AFloorDiv ?x (AConst 32)"
    using linear2d_results_distinct[OF p(2)] by (auto intro!: areplace_hit)
  show ?thesis
    using floor_plus_one[of 32 "prod_list (butlast p)"] floor_plus_one[of 32 "last p"] e
    unfolding layoutTiledShape_def l
    by (simp add: Let_def r s evalShape_def mapEval_def numResults_def h
        del: areplace.simps One_nat_def)
qed

text \<open>
  C4: \<open>TTNNLayoutAttr::getTiledShape\<close> of the layout built for a tensor in tiles of 32 by 32 is the number of
  tile rows and tile columns of the padded, collapsed tensor: both counts are exact, with
  nothing left over. The tensor has rank at least two, positive dimensions and, between its first and its last
  padded dimension, fewer than \<open>2 ^ 31\<close> elements; the grid has two dimensions; and the layout is not an interleaved one
  in L1, whose map covers the device grid instead (C2).
\<close>

theorem getTiledShape_counts_tiles:
  assumes "sharded_args s b g m" and "positive_shape s"
    and "prod_list (tl (butlast (physicalShapeOf (TileElem (defaultTile dt)) s))) < 2 ^ 31"
  shows "\<exists>l r c. ttnnLayoutGet s (TileElem (defaultTile dt)) b g m ms defaultIntervals = Inr l
    \<and> layoutTiledShape l s = Inr [r, c]
    \<and> r * 32 = prod_list (butlast (physicalShapeOf (TileElem (defaultTile dt)) s))
    \<and> c * 32 = last (physicalShapeOf (TileElem (defaultTile dt)) s)"
proof -
  let ?e = "TileElem (defaultTile dt)" let ?p = "physicalShapeOf ?e s"
  from assms(1) have n: "2 \<le> length s" by (simp add: sharded_args_def)
  obtain l where l: "ttnnLayoutGet s ?e b g m ms defaultIntervals = Inr l"
    using get_total_memref_ok[OF assms(1), of ?e ms] by auto
  have pad: "getTilePaddedShape s = Inr ?p" using get_physicalShape[OF n, of ?e] by simp
  have el: "getElementType l = ?e" using ttnnLayoutGet_fields[OF l] by simp
  have p: "positive_shape ?p" "2 \<le> length ?p" using n assms(2) by (simp_all add: physicalShapeOf_positive)
  have "layoutTiledShape l s = Inr [ceil_div (prod_list (butlast ?p)) 32, ceil_div (last ?p) 32]"
    by (rule layoutTiledShape_linear2d[OF p assms(3) _ el pad]) (simp add: get_linear[OF assms(1) l])
  moreover have "ceil_div (last ?p) 32 * 32 = last ?p"
  proof -
    have ne: "?p \<noteq> []" using p(2) by (metis list.size(3) not_numeral_le_zero)
    have "last ?p = ceil_div (last s) 32 * 32"
      unfolding last_conv_nth[OF ne] using n by (auto simp: physicalShapeOf_def nth_list_update)
    then show ?thesis by (metis ceil_div_mult zero_less_numeral)
  qed
  moreover have "ceil_div (prod_list (butlast ?p)) 32 * 32 = prod_list (butlast ?p)"
  proof -
    have "?p ! (length s - 2) \<in> set (butlast ?p)"
      using n by (auto simp: in_set_conv_nth nth_butlast intro!: exI[of _ "length s - 2"])
    then have "?p ! (length s - 2) dvd prod_list (butlast ?p)" by (rule prod_list_dvd)
    moreover have "?p ! (length s - 2) = ceil_div (s ! (length s - 2)) 32 * 32"
      using n by (simp add: physicalShapeOf_def)
    ultimately have "32 dvd prod_list (butlast ?p)" by (metis dvd_mult_right)
    then obtain k where "prod_list (butlast ?p) = k * 32" by (auto simp: dvd_def mult.commute)
    then show ?thesis by simp
  qed
  ultimately show ?thesis using l by blast
qed

lemma getTiledShape_counts_tiles_witness:
  "\<exists>l r c. ttnnLayoutGet [6, 15, 10] (TileElem (defaultTile BFloat16)) DRAM (gridOfShape [1, 1])
        (Some Interleaved) None defaultIntervals = Inr l
    \<and> layoutTiledShape l [6, 15, 10] = Inr [r, c]
    \<and> r * 32 = prod_list (butlast (physicalShapeOf (TileElem (defaultTile BFloat16)) [6, 15, 10]))
    \<and> c * 32 = last (physicalShapeOf (TileElem (defaultTile BFloat16)) [6, 15, 10])"
  by (rule getTiledShape_counts_tiles)
    (auto simp: sharded_args_def physicalShapeOf_def ceil_div_def)

end
