(* ===== verification/TTNNUtils.thy ===== *)
theory TTNNUtils
  imports TTNNCoverage
begin

text \<open>
  Ranked tensor types with a \<open>TTNNLayoutAttr\<close> encoding and the helpers of
  \<open>TTNN/Utils/Utils.cpp\<close> that build a new type from an old one by changing one part of
  the layout. The second half describes a tensor type by the four things a layout conversion
  changes (buffer type, layout, data type, memory layout) and shows what each helper does to
  that description.
\<close>

record tensor_type =
  ttShape :: shape
  ttElem :: elem_type
  ttEncoding :: ttnn_layout_attr

definition createRankedTensorTypeWithEncoding :: "tensor_type \<Rightarrow> ttnn_layout_attr \<Rightarrow> tensor_type" where
  "createRankedTensorTypeWithEncoding ty encoding = ty\<lparr>ttEncoding := encoding\<rparr>"

definition createRankedTensorTypeWithElementType :: "tensor_type \<Rightarrow> elem_type \<Rightarrow> fault + tensor_type" where
  "createRankedTensorTypeWithElementType ty elementType =
     rbind (withElementType (ttEncoding ty) elementType (ttShape ty) defaultIntervals) (\<lambda>newEncoding.
       let newElementType = (case elementType of
             TileElem t \<Rightarrow> Scalar (dataTypeToElementType (tile_dtype t)) | Scalar _ \<Rightarrow> elementType)
       in Inr \<lparr>ttShape = ttShape ty, ttElem = newElementType, ttEncoding = newEncoding\<rparr>)"

definition createRankedTensorTypeWithBufferType :: "tensor_type \<Rightarrow> buffer_type \<Rightarrow> fault + tensor_type" where
  "createRankedTensorTypeWithBufferType ty bufferType =
     rbind (withBufferType (ttEncoding ty) bufferType) (\<lambda>newEncoding.
       Inr (createRankedTensorTypeWithEncoding ty newEncoding))"

definition createRankedTensorTypeWithMemoryLayout ::
  "tensor_type \<Rightarrow> tensor_memory_layout \<Rightarrow> fault + tensor_type" where
  "createRankedTensorTypeWithMemoryLayout ty memoryLayout =
     rbind (withMemoryLayout (ttEncoding ty) (Some memoryLayout)) (\<lambda>newEncoding.
       Inr (createRankedTensorTypeWithEncoding ty newEncoding))"

definition createRankedTensorTypeWithGrid :: "tensor_type \<Rightarrow> grid_attr \<Rightarrow> fault + tensor_type" where
  "createRankedTensorTypeWithGrid ty g =
     rbind (withGrid (ttEncoding ty) (ttShape ty) g defaultIntervals) (\<lambda>newEncoding.
       Inr (createRankedTensorTypeWithEncoding ty newEncoding))"

definition getOpOutputL1Usage :: "ttnn_layout_attr \<Rightarrow> fault + 64 word" where
  "getOpOutputL1Usage opLayout =
     (if hasDRAMBufferType opLayout then Inr 0 else getShardSizeInBytes opLayout)"

text \<open>\<open>utils::getElementType(layout, dataType)\<close>.\<close>

definition elementTypeFor :: "layout \<Rightarrow> data_type \<Rightarrow> elem_type" where
  "elementTypeFor tensorLayout dataType =
     (if tensorLayout = Tile then TileElem (defaultTile dataType)
      else Scalar (dataTypeToElementType dataType))"

section \<open>The description of a tensor type\<close>

record desc =
  dBuffer :: buffer_type
  dLayout :: layout
  dType :: data_type
  dMem :: "tensor_memory_layout option"

definition describes :: "desc \<Rightarrow> tensor_type \<Rightarrow> bool" where
  "describes d ty \<longleftrightarrow>
     getBufferType (ttEncoding ty) = dBuffer d \<and> getLayout (ttEncoding ty) = dLayout d
   \<and> getDataType (ttEncoding ty) = Inr (dType d) \<and> getMemLayout (ttEncoding ty) = dMem d
   \<and> elementTypeToDataType (ttElem ty) = Inr (uncompressed (dType d))"

lemma getLayout_cases: "getLayout l = Tile \<or> getLayout l = RowMajor"
  by (simp add: getLayout_def)

lemma describes_layout: "describes d ty \<Longrightarrow> dLayout d = Tile \<or> dLayout d = RowMajor"
  using getLayout_cases[of "ttEncoding ty"] by (auto simp: describes_def)

text \<open>What the type helpers do to a description.\<close>

definition descWithBuffer :: "buffer_type \<Rightarrow> desc \<Rightarrow> desc" where
  "descWithBuffer b d = d\<lparr>dBuffer := b,
     dMem := (if b = SystemMemory then None else if b = DRAM then Some Interleaved
              else if b = L1 \<and> dMem d = None then Some Interleaved else dMem d)\<rparr>"

lemma describes_withBufferType:
  assumes "describes d ty" and "createRankedTensorTypeWithBufferType ty b = Inr ty'"
  shows "describes (descWithBuffer b d) ty'"
proof -
  from assms(2) obtain l where l: "withBufferType (ttEncoding ty) b = Inr l" "ty' = ty\<lparr>ttEncoding := l\<rparr>"
    by (auto simp: createRankedTensorTypeWithBufferType_def createRankedTensorTypeWithEncoding_def result_simps)
  from withBufferType_fields[OF l(1)] assms(1) l(2) show ?thesis
    by (auto simp: describes_def descWithBuffer_def getLayout_def isTiled_def getDataType_def)
qed

lemma describes_withMemoryLayout:
  assumes "describes d ty" and "createRankedTensorTypeWithMemoryLayout ty m = Inr ty'"
  shows "describes (d\<lparr>dMem := Some m\<rparr>) ty'"
proof -
  from assms(2) obtain l where l: "withMemoryLayout (ttEncoding ty) (Some m) = Inr l" "ty' = ty\<lparr>ttEncoding := l\<rparr>"
    by (auto simp: createRankedTensorTypeWithMemoryLayout_def createRankedTensorTypeWithEncoding_def result_simps)
  from withMemoryLayout_fields[OF l(1)] assms(1) l(2) show ?thesis
    by (auto simp: describes_def getLayout_def isTiled_def getDataType_def)
qed

lemma describes_withGrid:
  assumes "describes d ty" and "createRankedTensorTypeWithGrid ty g = Inr ty'"
  shows "describes d ty'"
proof -
  from assms(2) obtain l where "withGrid (ttEncoding ty) (ttShape ty) g defaultIntervals = Inr l"
      "ty' = ty\<lparr>ttEncoding := l\<rparr>"
    by (auto simp: createRankedTensorTypeWithGrid_def createRankedTensorTypeWithEncoding_def result_simps)
  with assms(1) show ?thesis
    by (auto simp: withGrid_def describes_def getLayout_def isTiled_def getDataType_def dest!: ttnnLayoutGet_fields)
qed

definition storedType :: "layout \<Rightarrow> data_type \<Rightarrow> data_type" where
  "storedType lay dt = (if lay = Tile then dt else uncompressed dt)"

lemma describes_withElementType:
  assumes "describes d ty" and "lay = Tile \<or> lay = RowMajor"
    and "createRankedTensorTypeWithElementType ty (elementTypeFor lay dt) = Inr ty'"
  shows "describes (d\<lparr>dLayout := lay, dType := storedType lay dt\<rparr>) ty'"
proof -
  from assms(3) obtain l where
    "withElementType (ttEncoding ty) (elementTypeFor lay dt) (ttShape ty) defaultIntervals = Inr l"
    "ty' = \<lparr>ttShape = ttShape ty, ttElem = (case elementTypeFor lay dt of
             TileElem t \<Rightarrow> Scalar (dataTypeToElementType (tile_dtype t)) | Scalar _ \<Rightarrow> elementTypeFor lay dt),
            ttEncoding = l\<rparr>"
    by (auto simp: createRankedTensorTypeWithElementType_def Let_def result_simps)
  with assms(1,2) show ?thesis
    by (auto simp: withElementType_def describes_def getLayout_def isTiled_def getDataType_def
        elementTypeFor_def storedType_def elementTypeToDataType_def dest!: ttnnLayoutGet_fields)
qed

section \<open>Well-formed types\<close>

text \<open>
  The types on which the helpers return: rank at least two, a two-dimensional grid and
  memref, well-formed tiles and, as \<open>verify\<close> demands, a memory layout on the device.
\<close>

definition type_ok :: "tensor_type \<Rightarrow> bool" where
  "type_ok ty \<longleftrightarrow> 2 \<le> length (ttShape ty) \<and> length (gridShape (getGrid (ttEncoding ty))) = 2
     \<and> memref_ok (ttEncoding ty)"

definition l1_interleaved :: "desc \<Rightarrow> bool" where
  "l1_interleaved d \<longleftrightarrow> dBuffer d = L1 \<and> (dMem d = None \<or> dMem d = Some Interleaved)"

lemma memref_ok_cong:
  "getMemref l' = (getMemref l)\<lparr>memrefSpace := b\<rparr> \<Longrightarrow> memref_ok l' = memref_ok l"
  by (simp add: memref_ok_def getShardShape_def getElementType_def)

lemma type_ok_withBufferType:
  assumes "type_ok ty"
  shows "\<exists>ty'. createRankedTensorTypeWithBufferType ty b = Inr ty' \<and> type_ok ty'"
proof -
  from assms have m: "memref_ok (ttEncoding ty)" by (simp add: type_ok_def)
  from withBufferType_eq[OF m, of b] assms show ?thesis
    by (simp add: createRankedTensorTypeWithBufferType_def createRankedTensorTypeWithEncoding_def
        type_ok_def memref_ok_def getShardShape_def getElementType_def)
qed

lemma type_ok_withMemoryLayout:
  assumes "type_ok ty"
  shows "\<exists>ty'. createRankedTensorTypeWithMemoryLayout ty m = Inr ty' \<and> type_ok ty'"
proof -
  from assms have "memref_ok (ttEncoding ty)" by (simp add: type_ok_def)
  from withMemoryLayout_eq[OF this] assms show ?thesis
    by (simp add: createRankedTensorTypeWithMemoryLayout_def createRankedTensorTypeWithEncoding_def
        type_ok_def memref_ok_def getShardShape_def getElementType_def)
qed

lemma get_ok:
  assumes "2 \<le> length s" and "length (gridShape g) = 2" and "\<not> (b = L1 \<and> (m = None \<or> m = Some Interleaved))"
    and "\<And>t. e = TileElem t \<Longrightarrow> tile_ok t"
  shows "\<exists>l. ttnnLayoutGet s e b g m ms defaultIntervals = Inr l \<and> memref_ok l
    \<and> length (gridShape (getGrid l)) = 2"
proof -
  have "sharded_args s b g m" using assms by (auto simp: sharded_args_def)
  from get_total_memref_ok[OF this, of e ms] assms(4) obtain l where
    "ttnnLayoutGet s e b g m ms defaultIntervals = Inr l" "memref_ok l" by blast
  with ttnnLayoutGet_fields[OF this(1)] assms(2) show ?thesis by auto
qed

lemma type_ok_withGrid:
  assumes "type_ok ty" and "describes d ty" and "\<not> l1_interleaved d" and "length (gridShape g) = 2"
  shows "\<exists>ty'. createRankedTensorTypeWithGrid ty g = Inr ty' \<and> type_ok ty'"
proof -
  let ?l = "ttEncoding ty"
  have t: "\<And>t. getElementType ?l = TileElem t \<Longrightarrow> tile_ok t"
    using assms(1) by (auto simp: type_ok_def memref_ok_def)
  have "\<exists>l. withGrid ?l (ttShape ty) g defaultIntervals = Inr l \<and> memref_ok l
      \<and> length (gridShape (getGrid l)) = 2"
    unfolding withGrid_def using assms t
    by (intro get_ok) (auto simp: type_ok_def describes_def l1_interleaved_def)
  with assms(1) show ?thesis
    by (auto simp: createRankedTensorTypeWithGrid_def createRankedTensorTypeWithEncoding_def type_ok_def)
qed

lemma type_ok_withElementType:
  assumes "type_ok ty" and "describes d ty" and "\<not> l1_interleaved d"
  shows "\<exists>ty'. createRankedTensorTypeWithElementType ty (elementTypeFor lay dt) = Inr ty' \<and> type_ok ty'"
proof -
  let ?l = "ttEncoding ty" and ?e = "elementTypeFor lay dt"
  have "\<exists>l. withElementType ?l ?e (ttShape ty) defaultIntervals = Inr l \<and> memref_ok l
      \<and> length (gridShape (getGrid l)) = 2"
    unfolding withElementType_def using assms
    by (intro get_ok) (auto simp: type_ok_def describes_def l1_interleaved_def elementTypeFor_def
        split: if_splits)
  with assms(1) show ?thesis
    by (auto simp: createRankedTensorTypeWithElementType_def type_ok_def)
qed

end
