(* ===== verification/DecomposeLayouts.thy ===== *)
theory DecomposeLayouts
  imports TTNNUtils
begin

text \<open>
  The pass \<open>TTNNDecomposeLayouts\<close>: every \<open>ttnn.to_layout\<close> op is replaced by a sequence
  of more specific ops. This theory is the pass as written: the layout infos read from an
  op, the set of ops to create, the validity checks, the five \<open>create...IfNeeded\<close> helpers
  with the result types they compute, the eight handlers and the driver.

  A value is its type: the state of a handler is the list of ops created so far and the
  type of \<open>currentInput\<close>. A handler's branch is the list of helpers it calls, in order.
\<close>

section \<open>Layout infos and required ops\<close>

record layout_info =
  liBufferType :: buffer_type
  liLayoutEnum :: layout
  liDataType :: data_type
  liTensorMemoryLayout :: "tensor_memory_layout option"
  liShardGrid :: grid_attr
  liShardShape :: shape

definition createMemoryConfigAttr :: "layout_info \<Rightarrow> memory_config_attr" where
  "createMemoryConfigAttr li =
     \<lparr>mcBufferType = liBufferType li, mcShardSpec = liShardShape li,
      mcTensorMemoryLayout = liTensorMemoryLayout li\<rparr>"

definition isL1Sharded :: "layout_info \<Rightarrow> fault + bool" where
  "isL1Sharded li =
     rbind (memLayoutValue (liTensorMemoryLayout li)) (\<lambda>m. Inr (isShardedMemoryLayout m))"

definition isOnHost :: "layout_info \<Rightarrow> bool" where
  "isOnHost li \<longleftrightarrow> liBufferType li = SystemMemory"

definition isOnDevice :: "layout_info \<Rightarrow> bool" where
  "isOnDevice li \<longleftrightarrow> \<not> isOnHost li"

definition isTilized :: "layout_info \<Rightarrow> bool" where
  "isTilized li \<longleftrightarrow> liLayoutEnum li = Tile"

record ops_to_create =
  createToDeviceOp :: bool
  createFromDeviceOp :: bool
  createToLayoutOp :: bool
  createDataTypeCastOp :: bool
  createToMemoryConfigOp :: bool

definition createSomeOp :: "ops_to_create \<Rightarrow> bool" where
  "createSomeOp ops \<longleftrightarrow> createToLayoutOp ops \<or> createDataTypeCastOp ops \<or> createToDeviceOp ops
     \<or> createFromDeviceOp ops \<or> createToMemoryConfigOp ops"

record op_creation_info =
  infoDevice :: "nat option"
  infoInput :: layout_info
  infoOutput :: layout_info
  infoOps :: ops_to_create

definition shouldUntilize :: "op_creation_info \<Rightarrow> bool" where
  "shouldUntilize info \<longleftrightarrow> createToLayoutOp (infoOps info) \<and> \<not> isTilized (infoOutput info)"

definition shouldTilize :: "op_creation_info \<Rightarrow> bool" where
  "shouldTilize info \<longleftrightarrow> createToLayoutOp (infoOps info) \<and> isTilized (infoOutput info)"

definition canTilizeDataTypeOnDevice :: "data_type \<Rightarrow> bool" where
  "canTilizeDataTypeOnDevice dataType \<longleftrightarrow> dataType = BFloat16"

definition canUntilizeDataTypeOnDevice :: "data_type \<Rightarrow> bool" where
  "canUntilizeDataTypeOnDevice dataType \<longleftrightarrow> dataType = BFloat16"

text \<open>A \<open>ttnn.to_layout\<close> op: its operand and result (value numbers), its result type and
  its optional attributes. Values of the device type are numbers too.\<close>

record to_layout_op =
  tlInput :: nat
  tlResult :: nat
  tlResultType :: tensor_type
  tlDtype :: "data_type option"
  tlMemoryConfig :: "memory_config_attr option"
  tlDevice :: "nat option"

definition getInputOutputLayouts ::
  "to_layout_op \<Rightarrow> tensor_type \<Rightarrow> fault + layout_info \<times> layout_info" where
  "getInputOutputLayouts op inputType =
     (let inputLayoutAttr = ttEncoding inputType; outputLayoutAttr = ttEncoding (tlResultType op) in
      case tlMemoryConfig op of
        None \<Rightarrow> Inl (AssertFailed SiteHasValue)
      | Some outputMemoryConfig \<Rightarrow>
          rbind (getDataType inputLayoutAttr) (\<lambda>inputDataType.
          case tlDtype op of
            None \<Rightarrow> Inl (AssertFailed SiteHasValue)
          | Some outputDataType \<Rightarrow>
              Inr (\<lparr>liBufferType = getBufferType inputLayoutAttr,
                    liLayoutEnum = getLayout inputLayoutAttr,
                    liDataType = inputDataType,
                    liTensorMemoryLayout = getMemLayout inputLayoutAttr,
                    liShardGrid = getGrid inputLayoutAttr,
                    liShardShape = getShardShape inputLayoutAttr\<rparr>,
                   \<lparr>liBufferType = mcBufferType outputMemoryConfig,
                    liLayoutEnum = getLayout outputLayoutAttr,
                    liDataType = outputDataType,
                    liTensorMemoryLayout = mcTensorMemoryLayout outputMemoryConfig,
                    liShardGrid = getGrid outputLayoutAttr,
                    liShardShape = getShardShape outputLayoutAttr\<rparr>)))"

definition determineRequiredOps :: "layout_info \<Rightarrow> layout_info \<Rightarrow> fault + ops_to_create" where
  "determineRequiredOps input output =
     (let toDevice = (liBufferType input \<noteq> liBufferType output \<and> isOnHost input);
          ops = \<lparr>createToDeviceOp = toDevice,
                 createFromDeviceOp = (liBufferType input \<noteq> liBufferType output \<and> isOnHost output),
                 createToLayoutOp = (liLayoutEnum input \<noteq> liLayoutEnum output),
                 createDataTypeCastOp = (liDataType input \<noteq> liDataType output),
                 createToMemoryConfigOp = False\<rparr>
      in if \<not> toDevice \<and> isOnDevice output then
           (let memLayoutDiffers = (liTensorMemoryLayout output \<noteq> None
                  \<and> liTensorMemoryLayout input \<noteq> liTensorMemoryLayout output);
                moves = (liBufferType input = DRAM \<and> liBufferType output = L1
                       \<or> liBufferType input = L1 \<and> liBufferType output = DRAM)
            in rbind (isL1Sharded input) (\<lambda>inputSharded.
               rbind (if inputSharded then isL1Sharded output else Inr False) (\<lambda>bothSharded.
               let regrid = (bothSharded \<and> liShardGrid input \<noteq> liShardGrid output)
               in Inr (ops\<lparr>createToMemoryConfigOp := (memLayoutDiffers \<or> moves \<or> regrid)\<rparr>))))
         else Inr ops)"

datatype pass_error =
    RedundantToLayoutOp
  | BothDeviceOps
  | MemoryConfigOnHost
  | FromDeviceOnHost
  | ToDeviceOnDevice
  | DeviceNotSpecified
  | PassFault fault

definition isCreationValid :: "layout_info \<Rightarrow> layout_info \<Rightarrow> ops_to_create \<Rightarrow> pass_error + unit" where
  "isCreationValid input output ops =
     (if \<not> createSomeOp ops then Inl RedundantToLayoutOp
      else if createToDeviceOp ops \<and> createFromDeviceOp ops then Inl BothDeviceOps
      else if createToMemoryConfigOp ops \<and> liBufferType output = SystemMemory then Inl MemoryConfigOnHost
      else if isOnHost input \<and> createFromDeviceOp ops then Inl FromDeviceOnHost
      else if isOnDevice input \<and> createToDeviceOp ops then Inl ToDeviceOnDevice
      else Inr ())"

section \<open>Creating ops\<close>

datatype op_kind =
    ToDeviceOp "nat option" memory_config_attr
  | FromDeviceOp
  | ToLayoutOp layout "nat option"
  | ToDTypeOp data_type
  | TypecastOp data_type
  | ToMemoryConfigOp memory_config_attr

record created_op =
  coKind :: op_kind
  coOperand :: tensor_type
  coResult :: tensor_type

type_synonym conv_state = "created_op list \<times> tensor_type"

definition createOp :: "op_kind \<Rightarrow> tensor_type \<Rightarrow> conv_state \<Rightarrow> conv_state" where
  "createOp kind newResultType st =
     (fst st @ [\<lparr>coKind = kind, coOperand = snd st, coResult = newResultType\<rparr>], newResultType)"

definition createToDeviceOpIfNeeded :: "op_creation_info \<Rightarrow> bool \<Rightarrow> conv_state \<Rightarrow> fault + conv_state" where
  "createToDeviceOpIfNeeded info forceCreate st =
     (if \<not> createToDeviceOp (infoOps info) \<and> \<not> forceCreate then Inr st
      else let output = infoOutput info in
        rbind (createRankedTensorTypeWithBufferType (snd st) (liBufferType output)) (\<lambda>ty1.
        rbind (memLayoutValue (liTensorMemoryLayout output)) (\<lambda>m.
        rbind (createRankedTensorTypeWithMemoryLayout ty1 m) (\<lambda>ty2.
        rbind (createRankedTensorTypeWithGrid ty2 (liShardGrid output)) (\<lambda>ty3.
        Inr (createOp (ToDeviceOp (infoDevice info) (createMemoryConfigAttr output)) ty3 st))))))"

definition createFromDeviceOpIfNeeded :: "op_creation_info \<Rightarrow> bool \<Rightarrow> conv_state \<Rightarrow> fault + conv_state" where
  "createFromDeviceOpIfNeeded info forceCreate st =
     (if \<not> createFromDeviceOp (infoOps info) \<and> \<not> forceCreate then Inr st
      else rbind (createRankedTensorTypeWithBufferType (snd st) SystemMemory) (\<lambda>ty.
           Inr (createOp FromDeviceOp ty st)))"

definition createToLayoutOpIfNeeded :: "op_creation_info \<Rightarrow> conv_state \<Rightarrow> fault + conv_state" where
  "createToLayoutOpIfNeeded info st =
     (if \<not> createToLayoutOp (infoOps info) then Inr st
      else let lay = liLayoutEnum (infoOutput info) in
        rbind (elementTypeToDataType (ttElem (snd st))) (\<lambda>currentInputDataType.
        rbind (createRankedTensorTypeWithElementType (snd st) (elementTypeFor lay currentInputDataType)) (\<lambda>ty.
        Inr (createOp (ToLayoutOp lay
               (if isSystemBufferType (getBufferType (ttEncoding (snd st))) then None else infoDevice info))
             ty st))))"

definition createDataTypeCastingOp :: "(data_type \<Rightarrow> op_kind) \<Rightarrow> op_creation_info \<Rightarrow> conv_state \<Rightarrow> fault + conv_state" where
  "createDataTypeCastingOp kind info st =
     (let dt = liDataType (infoOutput info) in
      rbind (createRankedTensorTypeWithElementType (snd st)
               (elementTypeFor (getLayout (ttEncoding (snd st))) dt)) (\<lambda>ty.
      Inr (createOp (kind dt) ty st)))"

definition createDataTypeCastingOpIfNeeded :: "op_creation_info \<Rightarrow> conv_state \<Rightarrow> fault + conv_state" where
  "createDataTypeCastingOpIfNeeded info st =
     (if \<not> createDataTypeCastOp (infoOps info) then Inr st
      else if isSystemBufferType (getBufferType (ttEncoding (snd st)))
        then createDataTypeCastingOp ToDTypeOp info st
      else rbind (assertE SiteTypecastTile (getLayout (ttEncoding (snd st)) = Tile)) (\<lambda>_.
             createDataTypeCastingOp TypecastOp info st))"

text \<open>\<open>ToMemoryConfigOp\<close> takes the result type of the op being replaced.\<close>

definition createToMemoryConfigOpIfNeeded ::
  "to_layout_op \<Rightarrow> op_creation_info \<Rightarrow> conv_state \<Rightarrow> fault + conv_state" where
  "createToMemoryConfigOpIfNeeded op info st =
     (if \<not> createToMemoryConfigOp (infoOps info) then Inr st
      else Inr (createOp (ToMemoryConfigOp (createMemoryConfigAttr (infoOutput info))) (tlResultType op) st))"

datatype conv_step =
    ToDeviceIfNeeded | ForceToDevice
  | FromDeviceIfNeeded | ForceFromDevice
  | ToLayoutIfNeeded | CastIfNeeded | ToMemoryConfigIfNeeded

fun runStep :: "to_layout_op \<Rightarrow> op_creation_info \<Rightarrow> conv_step \<Rightarrow> conv_state \<Rightarrow> fault + conv_state" where
  "runStep op info ToDeviceIfNeeded = createToDeviceOpIfNeeded info False"
| "runStep op info ForceToDevice = createToDeviceOpIfNeeded info True"
| "runStep op info FromDeviceIfNeeded = createFromDeviceOpIfNeeded info False"
| "runStep op info ForceFromDevice = createFromDeviceOpIfNeeded info True"
| "runStep op info ToLayoutIfNeeded = createToLayoutOpIfNeeded info"
| "runStep op info CastIfNeeded = createDataTypeCastingOpIfNeeded info"
| "runStep op info ToMemoryConfigIfNeeded = createToMemoryConfigOpIfNeeded op info"

abbreviation runSteps ::
  "to_layout_op \<Rightarrow> op_creation_info \<Rightarrow> conv_step list \<Rightarrow> conv_state \<Rightarrow> fault + conv_state" where
  "runSteps op info \<equiv> foldE (runStep op info)"

section \<open>Handlers\<close>

definition handleHostInputNoLayoutNoTypecast ::
  "to_layout_op \<Rightarrow> op_creation_info \<Rightarrow> conv_state \<Rightarrow> fault + conv_state" where
  "handleHostInputNoLayoutNoTypecast op info st =
     runSteps op info [ToDeviceIfNeeded, ToMemoryConfigIfNeeded] st"

definition handleHostInputLayoutNoTypecast ::
  "to_layout_op \<Rightarrow> op_creation_info \<Rightarrow> conv_state \<Rightarrow> fault + conv_state" where
  "handleHostInputLayoutNoTypecast op info st =
     (let input = infoInput info; output = infoOutput info in
      rbind (assertE SiteSameLayout (liDataType input = liDataType output)) (\<lambda>_.
      if isOnHost output then
        runSteps op info [ToLayoutIfNeeded, ToMemoryConfigIfNeeded] st
      else if shouldUntilize info \<and> canUntilizeDataTypeOnDevice (liDataType output) then
        runSteps op info [ToDeviceIfNeeded, ToLayoutIfNeeded, ToMemoryConfigIfNeeded] st
      else if shouldUntilize info \<and> \<not> canUntilizeDataTypeOnDevice (liDataType output) then
        runSteps op info [ToLayoutIfNeeded, ToDeviceIfNeeded, ToMemoryConfigIfNeeded] st
      else if shouldTilize info \<and> canTilizeDataTypeOnDevice (liDataType output) then
        runSteps op info [ToDeviceIfNeeded, ToLayoutIfNeeded, ToMemoryConfigIfNeeded] st
      else if shouldTilize info \<and> \<not> canTilizeDataTypeOnDevice (liDataType output) then
        runSteps op info [ToLayoutIfNeeded, ToDeviceIfNeeded, ToMemoryConfigIfNeeded] st
      else Inl Unreachable))"

definition handleHostInputNoLayoutTypecast ::
  "to_layout_op \<Rightarrow> op_creation_info \<Rightarrow> conv_state \<Rightarrow> fault + conv_state" where
  "handleHostInputNoLayoutTypecast op info st =
     (let input = infoInput info; output = infoOutput info in
      rbind (assertE SiteSameLayout (liLayoutEnum input = liLayoutEnum output)) (\<lambda>_.
      if isOnHost output then
        runSteps op info [CastIfNeeded, ToMemoryConfigIfNeeded] st
      else if \<not> isTilized output then
        runSteps op info [CastIfNeeded, ToDeviceIfNeeded, ToMemoryConfigIfNeeded] st
      else if isTilized output then
        runSteps op info [ToDeviceIfNeeded, CastIfNeeded, ToMemoryConfigIfNeeded] st
      else Inl Unreachable))"

definition handleHostInputLayoutTypecast ::
  "to_layout_op \<Rightarrow> op_creation_info \<Rightarrow> conv_state \<Rightarrow> fault + conv_state" where
  "handleHostInputLayoutTypecast op info st =
     (let input = infoInput info; output = infoOutput info in
      if isOnHost output then
        runSteps op info [CastIfNeeded, ToLayoutIfNeeded, ToMemoryConfigIfNeeded] st
      else if shouldUntilize info \<and> canUntilizeDataTypeOnDevice (liDataType output) then
        runSteps op info [ToDeviceIfNeeded, CastIfNeeded, ToLayoutIfNeeded, ToMemoryConfigIfNeeded] st
      else if shouldUntilize info \<and> \<not> canUntilizeDataTypeOnDevice (liDataType output) then
        runSteps op info [CastIfNeeded, ToLayoutIfNeeded, ToDeviceIfNeeded, ToMemoryConfigIfNeeded] st
      else if shouldTilize info \<and> canTilizeDataTypeOnDevice (liDataType input) then
        runSteps op info [ToDeviceIfNeeded, ToLayoutIfNeeded, CastIfNeeded, ToMemoryConfigIfNeeded] st
      else if shouldTilize info \<and> canTilizeDataTypeOnDevice (liDataType output) then
        runSteps op info [CastIfNeeded, ToDeviceIfNeeded, ToLayoutIfNeeded, ToMemoryConfigIfNeeded] st
      else if shouldTilize info \<and> \<not> canTilizeDataTypeOnDevice (liDataType input)
              \<and> \<not> canTilizeDataTypeOnDevice (liDataType output) then
        runSteps op info [CastIfNeeded, ToLayoutIfNeeded, ToDeviceIfNeeded, ToMemoryConfigIfNeeded] st
      else Inl Unreachable)"

definition handleHostInputLayoutConversion ::
  "to_layout_op \<Rightarrow> op_creation_info \<Rightarrow> conv_state \<Rightarrow> fault + conv_state" where
  "handleHostInputLayoutConversion op info st =
     (let ops = infoOps info in
      if \<not> createToLayoutOp ops \<and> \<not> createDataTypeCastOp ops then
        handleHostInputNoLayoutNoTypecast op info st
      else if createToLayoutOp ops \<and> \<not> createDataTypeCastOp ops then
        handleHostInputLayoutNoTypecast op info st
      else if \<not> createToLayoutOp ops \<and> createDataTypeCastOp ops then
        handleHostInputNoLayoutTypecast op info st
      else if createToLayoutOp ops \<and> createDataTypeCastOp ops then
        handleHostInputLayoutTypecast op info st
      else Inl Unreachable)"

definition handleDeviceInputNoLayoutNoTypecast ::
  "to_layout_op \<Rightarrow> op_creation_info \<Rightarrow> conv_state \<Rightarrow> fault + conv_state" where
  "handleDeviceInputNoLayoutNoTypecast op info st =
     runSteps op info [ToMemoryConfigIfNeeded, FromDeviceIfNeeded] st"

definition handleDeviceInputLayoutNoTypecast ::
  "to_layout_op \<Rightarrow> op_creation_info \<Rightarrow> conv_state \<Rightarrow> fault + conv_state" where
  "handleDeviceInputLayoutNoTypecast op info st =
     (let input = infoInput info; output = infoOutput info;
          fromDevice = createFromDeviceOp (infoOps info) in
      rbind (assertE SiteSameLayout (liDataType input = liDataType output)) (\<lambda>_.
      if shouldUntilize info \<and> canUntilizeDataTypeOnDevice (liDataType input) then
        runSteps op info [ToLayoutIfNeeded, ToMemoryConfigIfNeeded, FromDeviceIfNeeded] st
      else if shouldUntilize info \<and> \<not> canUntilizeDataTypeOnDevice (liDataType input) \<and> fromDevice then
        runSteps op info [FromDeviceIfNeeded, ToLayoutIfNeeded] st
      else if shouldUntilize info \<and> \<not> canUntilizeDataTypeOnDevice (liDataType input) \<and> \<not> fromDevice then
        runSteps op info [ForceFromDevice, ToLayoutIfNeeded, ForceToDevice] st
      else if shouldTilize info \<and> canTilizeDataTypeOnDevice (liDataType input) then
        runSteps op info [ToLayoutIfNeeded, ToMemoryConfigIfNeeded, FromDeviceIfNeeded] st
      else if shouldTilize info \<and> \<not> canTilizeDataTypeOnDevice (liDataType input) \<and> fromDevice then
        runSteps op info [FromDeviceIfNeeded, ToLayoutIfNeeded] st
      else if shouldTilize info \<and> \<not> canTilizeDataTypeOnDevice (liDataType input) \<and> \<not> fromDevice then
        runSteps op info [ForceFromDevice, ToLayoutIfNeeded, ForceToDevice, ToMemoryConfigIfNeeded] st
      else Inl Unreachable))"

definition handleDeviceInputNoLayoutTypecast ::
  "to_layout_op \<Rightarrow> op_creation_info \<Rightarrow> conv_state \<Rightarrow> fault + conv_state" where
  "handleDeviceInputNoLayoutTypecast op info st =
     (let input = infoInput info; output = infoOutput info;
          fromDevice = createFromDeviceOp (infoOps info) in
      rbind (assertE SiteSameLayout (liLayoutEnum input = liLayoutEnum output)) (\<lambda>_.
      if isTilized output then
        runSteps op info [CastIfNeeded, ToMemoryConfigIfNeeded, FromDeviceIfNeeded] st
      else if \<not> isTilized output \<and> fromDevice then
        runSteps op info [FromDeviceIfNeeded, CastIfNeeded] st
      else if \<not> isTilized output \<and> \<not> fromDevice then
        runSteps op info [ForceFromDevice, CastIfNeeded, ForceToDevice, ToMemoryConfigIfNeeded] st
      else Inl Unreachable))"

definition handleDeviceInputLayoutTypecast ::
  "to_layout_op \<Rightarrow> op_creation_info \<Rightarrow> conv_state \<Rightarrow> fault + conv_state" where
  "handleDeviceInputLayoutTypecast op info st =
     (let input = infoInput info; output = infoOutput info;
          fromDevice = createFromDeviceOp (infoOps info) in
      if shouldUntilize info \<and> canUntilizeDataTypeOnDevice (liDataType output) then
        runSteps op info [CastIfNeeded, ToLayoutIfNeeded, FromDeviceIfNeeded] st
      else if shouldUntilize info \<and> \<not> canUntilizeDataTypeOnDevice (liDataType output) \<and> fromDevice then
        runSteps op info [CastIfNeeded, FromDeviceIfNeeded, ToLayoutIfNeeded] st
      else if shouldUntilize info \<and> \<not> canUntilizeDataTypeOnDevice (liDataType output) \<and> \<not> fromDevice then
        runSteps op info
          [CastIfNeeded, ForceFromDevice, ToLayoutIfNeeded, ForceToDevice, ToMemoryConfigIfNeeded] st
      else if shouldTilize info \<and> canTilizeDataTypeOnDevice (liDataType input) then
        runSteps op info [ToLayoutIfNeeded, CastIfNeeded, ToMemoryConfigIfNeeded, FromDeviceIfNeeded] st
      else if shouldTilize info \<and> \<not> canTilizeDataTypeOnDevice (liDataType input) \<and> fromDevice then
        runSteps op info [FromDeviceIfNeeded, ToLayoutIfNeeded, CastIfNeeded] st
      else if shouldTilize info \<and> \<not> canTilizeDataTypeOnDevice (liDataType input) \<and> \<not> fromDevice then
        runSteps op info
          [ForceFromDevice, ToLayoutIfNeeded, ForceToDevice, CastIfNeeded, ToMemoryConfigIfNeeded] st
      else Inl Unreachable)"

definition handleDeviceInputLayoutConversion ::
  "to_layout_op \<Rightarrow> op_creation_info \<Rightarrow> conv_state \<Rightarrow> fault + conv_state" where
  "handleDeviceInputLayoutConversion op info st =
     (let ops = infoOps info in
      if \<not> createToLayoutOp ops \<and> \<not> createDataTypeCastOp ops then
        handleDeviceInputNoLayoutNoTypecast op info st
      else if createToLayoutOp ops \<and> \<not> createDataTypeCastOp ops then
        handleDeviceInputLayoutNoTypecast op info st
      else if \<not> createToLayoutOp ops \<and> createDataTypeCastOp ops then
        handleDeviceInputNoLayoutTypecast op info st
      else if createToLayoutOp ops \<and> createDataTypeCastOp ops then
        handleDeviceInputLayoutTypecast op info st
      else Inl Unreachable)"

section \<open>The driver\<close>

definition orFault :: "fault + 'a \<Rightarrow> pass_error + 'a" where
  "orFault m = (case m of Inl f \<Rightarrow> Inl (PassFault f) | Inr x \<Rightarrow> Inr x)"

definition createLayoutConversionOps ::
  "to_layout_op \<Rightarrow> tensor_type \<Rightarrow> pass_error + conv_state" where
  "createLayoutConversionOps op inputType =
     rbind (orFault (getInputOutputLayouts op inputType)) (\<lambda>(input, output).
     rbind (orFault (determineRequiredOps input output)) (\<lambda>opsToCreate.
     rbind (isCreationValid input output opsToCreate) (\<lambda>_.
     if tlDevice op = None \<and> \<not> isOnHost output then Inl DeviceNotSpecified
     else let info = \<lparr>infoDevice = tlDevice op, infoInput = input, infoOutput = output,
                      infoOps = opsToCreate\<rparr>
          in orFault (if isOnHost input
               then handleHostInputLayoutConversion op info ([], inputType)
               else handleDeviceInputLayoutConversion op info ([], inputType)))))"

text \<open>
  The module: functions of one block; an op of a body is a \<open>to_layout\<close> op of the input, one of the
  ops the pass creates (among them \<open>ttnn.to_layout\<close> ops that only change the layout: they are \<open>BodyCreated\<close> too,
  and the pass does not visit them), or another op that defines a value. Values are numbered; the types of the
  values are a map. Replacing the uses of the result of a \<open>to_layout\<close> op by the last
  created value is giving that result number the type of the created value.
\<close>

datatype body_op = BodyToLayout to_layout_op | BodyCreated created_op | BodyOther nat

record func_op =
  fnIsDeclaration :: bool
  fnBlocks :: "body_op list list"

type_synonym value_types = "nat \<rightharpoonup> tensor_type"

fun rewriteBody :: "body_op list \<Rightarrow> value_types \<Rightarrow> pass_error + body_op list \<times> value_types" where
  "rewriteBody [] env = Inr ([], env)"
| "rewriteBody (BodyToLayout op # rest) env =
     (case env (tlInput op) of
        None \<Rightarrow> Inl (PassFault NullDeref)
      | Some ty \<Rightarrow>
          rbind (createLayoutConversionOps op ty) (\<lambda>(created, ty').
          rbind (rewriteBody rest (env(tlResult op \<mapsto> ty'))) (\<lambda>(rest', env').
          Inr (map BodyCreated created @ rest', env'))))"
| "rewriteBody (bop # rest) env =
     rbind (rewriteBody rest env) (\<lambda>(rest', env'). Inr (bop # rest', env'))"

definition rewriteFunc :: "func_op \<Rightarrow> value_types \<Rightarrow> pass_error + func_op \<times> value_types" where
  "rewriteFunc f env =
     (if fnIsDeclaration f then Inr (f, env)
      else case fnBlocks f of
        [body] \<Rightarrow> rbind (rewriteBody body env) (\<lambda>(body', env'). Inr (f\<lparr>fnBlocks := [body']\<rparr>, env'))
      | _ \<Rightarrow> Inl (PassFault (AssertFailed SiteOther)))"

fun rewriteModule :: "func_op list \<Rightarrow> value_types \<Rightarrow> pass_error + func_op list \<times> value_types" where
  "rewriteModule [] env = Inr ([], env)"
| "rewriteModule (f # fs) env =
     rbind (rewriteFunc f env) (\<lambda>(f', env').
     rbind (rewriteModule fs env') (\<lambda>(fs', env''). Inr (f' # fs', env'')))"

definition runOnOperation :: "func_op list \<Rightarrow> value_types \<Rightarrow> pass_error + func_op list \<times> value_types" where
  "runOnOperation fs env =
     rbind (orFault (assertE SiteOther (\<forall>f \<in> set fs. fnIsDeclaration f \<or> length (fnBlocks f) = 1)))
       (\<lambda>_. rewriteModule fs env)"

end
