(* ===== verification/DecomposeFacts.thy ===== *)
theory DecomposeFacts
  imports DecomposeLayouts
begin

text \<open>
  Correctness of \<open>TTNNDecomposeLayouts\<close>. Every helper is simulated by a step on the
  description of the current type; the step also says whether the op it creates is one the
  backend accepts. The branch of every handler is then a list of steps that takes the
  description of the input to the description of the output.
\<close>

section \<open>Legal ops and chains\<close>

text \<open>What the ops the pass creates demand of their operand: \<open>to_device\<close> takes a host
  tensor, \<open>from_device\<close> a device tensor, a layout change on the device is only done for
  bfloat16, \<open>to_dtype\<close> runs on the host, \<open>typecast\<close> on a tiled device tensor,
  \<open>to_memory_config\<close> on a device tensor; memory configs verify. Untilizing on the device asks
  for an even width and for rows of more than four bytes (the comment of \<open>createLayoutConversionOps\<close>);
  the argument says whether the tensor has such rows.\<close>

definition untilizableRows :: "shape \<Rightarrow> bool" where
  "untilizableRows s \<longleftrightarrow> even (last s) \<and> 4 < 2 * last s"

definition op_legal :: "bool \<Rightarrow> created_op \<Rightarrow> bool" where
  "op_legal rowsOk c \<longleftrightarrow>
     (let l = ttEncoding (coOperand c); host = (getBufferType l = SystemMemory) in
      case coKind c of
        ToDeviceOp dev mc \<Rightarrow> host \<and> dev \<noteq> None \<and> memoryConfigVerify mc = Inr ()
      | FromDeviceOp \<Rightarrow> \<not> host
      | ToLayoutOp lay dev \<Rightarrow> if host then dev = None else getDataType l = Inr BFloat16 \<and> (lay = RowMajor \<longrightarrow> rowsOk)
      | ToDTypeOp dt \<Rightarrow> host
      | TypecastOp dt \<Rightarrow> \<not> host \<and> getLayout l = Tile
      | ToMemoryConfigOp mc \<Rightarrow> \<not> host \<and> memoryConfigVerify mc = Inr ())"

text \<open>Each op consumes the result of the one before.\<close>

fun op_chain :: "tensor_type \<Rightarrow> created_op list \<Rightarrow> tensor_type \<Rightarrow> bool" where
  "op_chain t [] t' \<longleftrightarrow> t = t'"
| "op_chain t (c # cs) t' \<longleftrightarrow> coOperand c = t \<and> op_chain (coResult c) cs t'"

lemma op_chain_snoc: "op_chain t (cs @ [c]) t' \<longleftrightarrow> op_chain t cs (coOperand c) \<and> coResult c = t'"
  by (induction cs arbitrary: t) auto

lemma op_chain_createOp: "op_chain t (fst st) (snd st) \<Longrightarrow>
    op_chain t (fst (createOp k ty st)) (snd (createOp k ty st))"
  by (simp add: createOp_def op_chain_snoc)

section \<open>Steps on descriptions\<close>

definition outDesc :: "op_creation_info \<Rightarrow> desc" where
  "outDesc info = (let li = infoOutput info in
     \<lparr>dBuffer = liBufferType li, dLayout = liLayoutEnum li, dType = liDataType li,
      dMem = liTensorMemoryLayout li\<rparr>)"

definition absToDevice :: "op_creation_info \<Rightarrow> desc \<Rightarrow> desc option" where
  "absToDevice info d =
     (if dBuffer d = SystemMemory \<and> infoDevice info \<noteq> None
       \<and> verifyBufferAndMemoryLayout (liBufferType (infoOutput info)) (liTensorMemoryLayout (infoOutput info)) = Inr ()
       \<and> liBufferType (infoOutput info) \<noteq> SystemMemory
      then Some (d\<lparr>dBuffer := liBufferType (infoOutput info),
                   dMem := liTensorMemoryLayout (infoOutput info)\<rparr>)
      else None)"

definition absFromDevice :: "desc \<Rightarrow> desc option" where
  "absFromDevice d =
     (if dBuffer d \<noteq> SystemMemory then Some (d\<lparr>dBuffer := SystemMemory, dMem := None\<rparr>) else None)"

definition absToLayout :: "bool \<Rightarrow> op_creation_info \<Rightarrow> desc \<Rightarrow> desc option" where
  "absToLayout rowsOk info d =
     (if dBuffer d = SystemMemory \<or> dType d = BFloat16 \<and> (liLayoutEnum (infoOutput info) = RowMajor \<longrightarrow> rowsOk)
      then Some (d\<lparr>dLayout := liLayoutEnum (infoOutput info), dType := uncompressed (dType d)\<rparr>)
      else None)"

definition absCast :: "op_creation_info \<Rightarrow> desc \<Rightarrow> desc option" where
  "absCast info d =
     (if dBuffer d = SystemMemory \<or> dLayout d = Tile
      then Some (d\<lparr>dType := storedType (dLayout d) (liDataType (infoOutput info))\<rparr>)
      else None)"

definition absMemoryConfig :: "op_creation_info \<Rightarrow> desc \<Rightarrow> desc option" where
  "absMemoryConfig info d =
     (if dBuffer d \<noteq> SystemMemory
       \<and> verifyBufferAndMemoryLayout (liBufferType (infoOutput info)) (liTensorMemoryLayout (infoOutput info)) = Inr ()
      then Some (outDesc info) else None)"

fun absStep :: "bool \<Rightarrow> op_creation_info \<Rightarrow> conv_step \<Rightarrow> desc \<Rightarrow> desc option" where
  "absStep rowsOk info ToDeviceIfNeeded d =
     (if createToDeviceOp (infoOps info) then absToDevice info d else Some d)"
| "absStep rowsOk info ForceToDevice d = absToDevice info d"
| "absStep rowsOk info FromDeviceIfNeeded d =
     (if createFromDeviceOp (infoOps info) then absFromDevice d else Some d)"
| "absStep rowsOk info ForceFromDevice d = absFromDevice d"
| "absStep rowsOk info ToLayoutIfNeeded d =
     (if createToLayoutOp (infoOps info) then absToLayout rowsOk info d else Some d)"
| "absStep rowsOk info CastIfNeeded d =
     (if createDataTypeCastOp (infoOps info) then absCast info d else Some d)"
| "absStep rowsOk info ToMemoryConfigIfNeeded d =
     (if createToMemoryConfigOp (infoOps info) then absMemoryConfig info d else Some d)"

fun absRun :: "bool \<Rightarrow> op_creation_info \<Rightarrow> conv_step list \<Rightarrow> desc \<Rightarrow> desc option" where
  "absRun rowsOk info [] d = Some d"
| "absRun rowsOk info (s # ss) d = (case absStep rowsOk info s d of None \<Rightarrow> None | Some d' \<Rightarrow> absRun rowsOk info ss d')"

section \<open>Simulation\<close>

text \<open>The op agrees with itself: the declared result type has the layout, data type, buffer
  type and memory layout of the attributes.\<close>

definition result_described :: "to_layout_op \<Rightarrow> op_creation_info \<Rightarrow> bool" where
  "result_described op info \<longleftrightarrow> describes (outDesc info) (tlResultType op)"

definition sim :: "bool \<Rightarrow> tensor_type \<Rightarrow> desc \<Rightarrow> conv_state \<Rightarrow> bool" where
  "sim rowsOk t d st \<longleftrightarrow> describes d (snd st) \<and> op_chain t (fst st) (snd st) \<and> (\<forall>c \<in> set (fst st). op_legal rowsOk c)"

lemma sim_createOp:
  assumes "sim rowsOk t d st" and "describes d' ty"
    and "op_legal rowsOk \<lparr>coKind = k, coOperand = snd st, coResult = ty\<rparr>"
  shows "sim rowsOk t d' (createOp k ty st)"
  using assms op_chain_createOp[of t st k ty] by (auto simp: sim_def createOp_def)

lemma sim_toDevice:
  assumes "sim rowsOk t d st" and "absToDevice info d = Some d'"
    and "createToDeviceOpIfNeeded info force st = Inr st'" and "createToDeviceOp (infoOps info) \<or> force"
  shows "sim rowsOk t d' st'"
proof -
  let ?out = "infoOutput info"
  from assms(4) have "\<not> (\<not> createToDeviceOp (infoOps info) \<and> \<not> force)" by blast
  with assms(3) obtain ty1 m ty2 ty3 where s:
    "createRankedTensorTypeWithBufferType (snd st) (liBufferType ?out) = Inr ty1"
    "memLayoutValue (liTensorMemoryLayout ?out) = Inr m"
    "createRankedTensorTypeWithMemoryLayout ty1 m = Inr ty2"
    "createRankedTensorTypeWithGrid ty2 (liShardGrid ?out) = Inr ty3"
    "st' = createOp (ToDeviceOp (infoDevice info) (createMemoryConfigAttr ?out)) ty3 st"
    unfolding createToDeviceOpIfNeeded_def Let_def by (simp only: if_False) (elim rbind_InrE, blast)
  have d: "describes d (snd st)" using assms(1) by (simp add: sim_def)
  from s(2) have m: "liTensorMemoryLayout ?out = Some m"
    by (auto simp: memLayoutValue_def split: option.splits)
  have "describes ((descWithBuffer (liBufferType ?out) d)\<lparr>dMem := Some m\<rparr>) ty3"
    using describes_withGrid[OF describes_withMemoryLayout[OF describes_withBufferType[OF d s(1)] s(3)] s(4)] .
  moreover have "(descWithBuffer (liBufferType ?out) d)\<lparr>dMem := Some m\<rparr> = d'"
    using assms(2) m by (auto simp: absToDevice_def descWithBuffer_def split: if_splits)
  ultimately show ?thesis
    unfolding s(5) using assms(1,2) d
    by (intro sim_createOp) (auto simp: absToDevice_def op_legal_def memoryConfigVerify_def
        createMemoryConfigAttr_def describes_def split: if_splits)
qed

lemma sim_fromDevice:
  assumes "sim rowsOk t d st" and "absFromDevice d = Some d'"
    and "createFromDeviceOpIfNeeded info force st = Inr st'" and "createFromDeviceOp (infoOps info) \<or> force"
  shows "sim rowsOk t d' st'"
proof -
  from assms(4) have "\<not> (\<not> createFromDeviceOp (infoOps info) \<and> \<not> force)" by blast
  with assms(3) obtain ty where s: "createRankedTensorTypeWithBufferType (snd st) SystemMemory = Inr ty"
    "st' = createOp FromDeviceOp ty st"
    unfolding createFromDeviceOpIfNeeded_def by (simp only: if_False) (elim rbind_InrE, blast)
  have d: "describes d (snd st)" using assms(1) by (simp add: sim_def)
  from describes_withBufferType[OF d s(1)] assms(2) have "describes d' ty"
    by (auto simp: absFromDevice_def descWithBuffer_def split: if_splits)
  then show ?thesis
    unfolding s(2) using assms(1,2) d
    by (intro sim_createOp) (auto simp: absFromDevice_def op_legal_def describes_def split: if_splits)
qed

lemma sim_toLayout:
  assumes "sim rowsOk t d st" and "absToLayout rowsOk info d = Some d'"
    and "createToLayoutOpIfNeeded info st = Inr st'" and "createToLayoutOp (infoOps info)"
    and "liLayoutEnum (infoOutput info) = Tile \<or> liLayoutEnum (infoOutput info) = RowMajor"
  shows "sim rowsOk t d' st'"
proof -
  let ?lay = "liLayoutEnum (infoOutput info)"
  have d: "describes d (snd st)" using assms(1) by (simp add: sim_def)
  from assms(3,4) d obtain ty where s:
    "createRankedTensorTypeWithElementType (snd st) (elementTypeFor ?lay (uncompressed (dType d))) = Inr ty"
    "st' = createOp (ToLayoutOp ?lay (if isSystemBufferType (getBufferType (ttEncoding (snd st)))
               then None else infoDevice info)) ty st"
    by (auto simp: createToLayoutOpIfNeeded_def Let_def result_simps describes_def)
  have "describes d' ty"
    using describes_withElementType[OF d assms(5) s(1)] assms(2)
    by (auto simp: absToLayout_def storedType_def split: if_splits)
  then show ?thesis
    unfolding s(2) using assms(1,2) d
    by (intro sim_createOp) (auto simp: absToLayout_def op_legal_def describes_def
        isSystemBufferType_def split: if_splits)
qed

lemma sim_cast:
  assumes "sim rowsOk t d st" and "absCast info d = Some d'"
    and "createDataTypeCastingOpIfNeeded info st = Inr st'" and "createDataTypeCastOp (infoOps info)"
  shows "sim rowsOk t d' st'"
proof -
  let ?dt = "liDataType (infoOutput info)"
  have d: "describes d (snd st)" using assms(1) by (simp add: sim_def)
  from assms(3,4) d obtain k ty where s:
    "createRankedTensorTypeWithElementType (snd st) (elementTypeFor (dLayout d) ?dt) = Inr ty"
    "st' = createOp (k ?dt) ty st"
    "k = (if dBuffer d = SystemMemory then ToDTypeOp else TypecastOp)"
    by (auto simp: createDataTypeCastingOpIfNeeded_def createDataTypeCastingOp_def Let_def
        result_simps describes_def isSystemBufferType_def split: if_splits)
  from describes_layout[OF d] have "dLayout d = Tile \<or> dLayout d = RowMajor" .
  from describes_withElementType[OF d this s(1)] assms(2) have "describes d' ty"
    by (auto simp: absCast_def split: if_splits)
  then show ?thesis
    unfolding s(2) using assms(1,2) d s(3)
    by (intro sim_createOp) (auto simp: absCast_def op_legal_def describes_def split: if_splits)
qed

lemma sim_memoryConfig:
  assumes "sim rowsOk t d st" and "absMemoryConfig info d = Some d'"
    and "createToMemoryConfigOpIfNeeded op info st = Inr st'" and "createToMemoryConfigOp (infoOps info)"
    and "result_described op info"
  shows "sim rowsOk t d' st'"
proof -
  from assms(3,4) have s: "st' = createOp (ToMemoryConfigOp (createMemoryConfigAttr (infoOutput info))) (tlResultType op) st"
    by (simp add: createToMemoryConfigOpIfNeeded_def)
  have "describes d (snd st)" using assms(1) by (simp add: sim_def)
  with assms(2) have "op_legal rowsOk \<lparr>coKind = ToMemoryConfigOp (createMemoryConfigAttr (infoOutput info)),
      coOperand = snd st, coResult = tlResultType op\<rparr>"
    by (auto simp: absMemoryConfig_def op_legal_def memoryConfigVerify_def
        createMemoryConfigAttr_def describes_def split: if_splits)
  moreover have "d' = outDesc info" using assms(2) by (auto simp: absMemoryConfig_def split: if_splits)
  ultimately show ?thesis
    unfolding s using assms(1,5) by (intro sim_createOp) (simp_all add: result_described_def)
qed

lemmas sim_steps = sim_toDevice sim_fromDevice sim_toLayout sim_cast sim_memoryConfig

lemma step_not_needed:
  "\<not> createToDeviceOp (infoOps info) \<Longrightarrow> createToDeviceOpIfNeeded info False st = Inr st"
  "\<not> createFromDeviceOp (infoOps info) \<Longrightarrow> createFromDeviceOpIfNeeded info False st = Inr st"
  "\<not> createToLayoutOp (infoOps info) \<Longrightarrow> createToLayoutOpIfNeeded info st = Inr st"
  "\<not> createDataTypeCastOp (infoOps info) \<Longrightarrow> createDataTypeCastingOpIfNeeded info st = Inr st"
  "\<not> createToMemoryConfigOp (infoOps info) \<Longrightarrow> createToMemoryConfigOpIfNeeded op info st = Inr st"
  by (simp_all add: createToDeviceOpIfNeeded_def createFromDeviceOpIfNeeded_def
      createToLayoutOpIfNeeded_def createDataTypeCastingOpIfNeeded_def createToMemoryConfigOpIfNeeded_def)

lemma sim_step:
  assumes "sim rowsOk t d st" and "absStep rowsOk info s d = Some d'" and "runStep op info s st = Inr st'"
    and "result_described op info"
  shows "sim rowsOk t d' st'"
proof -
  have lay: "liLayoutEnum (infoOutput info) = Tile \<or> liLayoutEnum (infoOutput info) = RowMajor"
    using assms(4) describes_layout by (fastforce simp: result_described_def outDesc_def Let_def)
  show ?thesis
    using assms lay
    by (cases s) (auto simp: step_not_needed split: if_splits intro: sim_steps)
qed

lemma sim_run:
  assumes "sim rowsOk t d st" and "absRun rowsOk info ss d = Some d'" and "runSteps op info ss st = Inr st'"
    and "result_described op info"
  shows "sim rowsOk t d' st'"
  using assms(1-3)
proof (induction ss arbitrary: d st)
  case Nil
  then show ?case by simp
next
  case (Cons s ss)
  from Cons.prems(2,3) obtain d1 st1 where
    "absStep rowsOk info s d = Some d1" "absRun rowsOk info ss d1 = Some d'"
    "runStep op info s st = Inr st1" "runSteps op info ss st1 = Inr st'"
    by (auto simp: result_simps split: option.splits)
  then show ?case using Cons.IH sim_step[OF Cons.prems(1) _ _ assms(4)] by blast
qed

section \<open>Steps return\<close>

text \<open>Neither the current type nor the output is an interleaved L1 layout: for those the
  layout constructor only accepts tiles.\<close>

definition can_run :: "to_layout_op \<Rightarrow> op_creation_info \<Rightarrow> bool" where
  "can_run op info \<longleftrightarrow> \<not> l1_interleaved (outDesc info) \<and> length (gridShape (liShardGrid (infoOutput info))) = 2
     \<and> type_ok (tlResultType op)"

definition ok_result :: "fault + conv_state \<Rightarrow> bool" where
  "ok_result m \<longleftrightarrow> (case m of Inl _ \<Rightarrow> False | Inr st \<Rightarrow> type_ok (snd st))"

lemma ok_result_simps [simp]: "ok_result (Inr st) \<longleftrightarrow> type_ok (snd st)" "\<not> ok_result (Inl f)"
  by (simp_all add: ok_result_def)

lemma ok_resultE: "ok_result m \<Longrightarrow> (\<And>st. m = Inr st \<Longrightarrow> type_ok (snd st) \<Longrightarrow> P) \<Longrightarrow> P"
  by (cases m) auto

lemma toDevice_total:
  assumes "type_ok (snd st)" and "describes d (snd st)" and "absToDevice info d \<noteq> None" and "can_run op info"
  shows "ok_result (createToDeviceOpIfNeeded info force st)"
proof (cases "createToDeviceOp (infoOps info) \<or> force")
  case True
  let ?b = "liBufferType (infoOutput info)"
  obtain m where m: "liTensorMemoryLayout (infoOutput info) = Some m"
    using assms(3) by (auto simp: absToDevice_def verify_Inr_iff split: if_splits)
  obtain ty1 where t1: "createRankedTensorTypeWithBufferType (snd st) ?b = Inr ty1" "type_ok ty1"
    using type_ok_withBufferType[OF assms(1)] by blast
  obtain ty2 where t2: "createRankedTensorTypeWithMemoryLayout ty1 m = Inr ty2" "type_ok ty2"
    using type_ok_withMemoryLayout[OF t1(2)] by blast
  note d2 = describes_withMemoryLayout[OF describes_withBufferType[OF assms(2) t1(1)] t2(1)]
  have "\<not> l1_interleaved ((descWithBuffer ?b d)\<lparr>dMem := Some m\<rparr>)"
    using assms(4) m by (simp add: can_run_def l1_interleaved_def outDesc_def Let_def descWithBuffer_def)
  then obtain ty3 where t3: "createRankedTensorTypeWithGrid ty2 (liShardGrid (infoOutput info)) = Inr ty3" "type_ok ty3"
    using type_ok_withGrid[OF t2(2) d2] assms(4) by (auto simp: can_run_def)
  show ?thesis
    using True t1 t2 t3 m assms(1) by (simp add: createToDeviceOpIfNeeded_def Let_def memLayoutValue_def createOp_def)
next
  case False
  with assms(1) show ?thesis by (simp add: createToDeviceOpIfNeeded_def)
qed

lemma fromDevice_total:
  assumes "type_ok (snd st)"
  shows "ok_result (createFromDeviceOpIfNeeded info force st)"
  using assms type_ok_withBufferType[OF assms, of SystemMemory]
  by (auto simp: createFromDeviceOpIfNeeded_def createOp_def)

lemma toLayout_total:
  assumes "type_ok (snd st)" and "describes d (snd st)" and "\<not> l1_interleaved d"
  shows "ok_result (createToLayoutOpIfNeeded info st)"
proof -
  have "elementTypeToDataType (ttElem (snd st)) = Inr (uncompressed (dType d))"
    using assms(2) by (simp add: describes_def)
  moreover obtain ty where "createRankedTensorTypeWithElementType (snd st)
      (elementTypeFor (liLayoutEnum (infoOutput info)) (uncompressed (dType d))) = Inr ty" "type_ok ty"
    using type_ok_withElementType[OF assms] by blast
  ultimately show ?thesis
    using assms(1) by (simp add: createToLayoutOpIfNeeded_def Let_def createOp_def)
qed

lemma cast_total:
  assumes "type_ok (snd st)" and "describes d (snd st)" and "\<not> l1_interleaved d" and "absCast info d \<noteq> None"
  shows "ok_result (createDataTypeCastingOpIfNeeded info st)"
proof -
  obtain ty where "createRankedTensorTypeWithElementType (snd st)
      (elementTypeFor (getLayout (ttEncoding (snd st))) (liDataType (infoOutput info))) = Inr ty" "type_ok ty"
    using type_ok_withElementType[OF assms(1-3)] by blast
  moreover have "isSystemBufferType (getBufferType (ttEncoding (snd st)))
      \<or> getLayout (ttEncoding (snd st)) = Tile"
    using assms(2,4) by (auto simp: describes_def absCast_def isSystemBufferType_def split: if_splits)
  ultimately show ?thesis
    using assms(1) by (auto simp: createDataTypeCastingOpIfNeeded_def createDataTypeCastingOp_def
        Let_def createOp_def)
qed

lemma memoryConfig_total:
  assumes "type_ok (snd st)" and "can_run op info"
  shows "ok_result (createToMemoryConfigOpIfNeeded op info st)"
  using assms by (simp add: createToMemoryConfigOpIfNeeded_def createOp_def can_run_def)

lemma absStep_l1_free:
  assumes "absStep rowsOk info s d = Some d'" and "\<not> l1_interleaved d" and "\<not> l1_interleaved (outDesc info)"
  shows "\<not> l1_interleaved d'"
  using assms
  by (cases s) (auto simp: absToDevice_def absFromDevice_def absToLayout_def absCast_def
      absMemoryConfig_def l1_interleaved_def outDesc_def Let_def split: if_splits)

lemma step_total:
  assumes "type_ok (snd st)" and "describes d (snd st)" and "\<not> l1_interleaved d"
    and "absStep rowsOk info s d = Some d'" and "can_run op info"
  shows "ok_result (runStep op info s st)"
proof (cases s)
  case ToDeviceIfNeeded
  with assms toDevice_total[OF assms(1,2) _ assms(5), of False] step_not_needed(1)[of info st] show ?thesis
    by (auto split: if_splits)
next
  case ForceToDevice
  with assms toDevice_total[OF assms(1,2) _ assms(5), of True] show ?thesis by auto
next
  case CastIfNeeded
  with assms cast_total[OF assms(1-3), of info] step_not_needed(4)[of info st] show ?thesis
    by (auto split: if_splits)
next
  case ToLayoutIfNeeded
  with toLayout_total[OF assms(1-3)] show ?thesis by simp
next
  case ToMemoryConfigIfNeeded
  with memoryConfig_total[OF assms(1,5)] show ?thesis by simp
qed (simp_all add: fromDevice_total[OF assms(1)])

lemma run_total:
  assumes "type_ok (snd st)" and "sim rowsOk t d st" and "\<not> l1_interleaved d"
    and "absRun rowsOk info ss d = Some d'" and "can_run op info" and "result_described op info"
  shows "\<exists>st'. runSteps op info ss st = Inr st' \<and> sim rowsOk t d' st'"
  using assms(1-4)
proof (induction ss arbitrary: d st)
  case Nil
  then show ?case by (simp del: split_paired_Ex)
next
  case (Cons s ss)
  from Cons.prems(4) obtain d1 where d1: "absStep rowsOk info s d = Some d1" "absRun rowsOk info ss d1 = Some d'"
    by (auto split: option.splits)
  have "describes d (snd st)" using Cons.prems(2) by (simp add: sim_def)
  from step_total[OF Cons.prems(1) this Cons.prems(3) d1(1) assms(5)] obtain st1 where
    st1: "runStep op info s st = Inr st1" "type_ok (snd st1)" by (rule ok_resultE)
  have "\<not> l1_interleaved d1"
    using absStep_l1_free[OF d1(1) Cons.prems(3)] assms(5) by (simp add: can_run_def)
  from Cons.IH[OF st1(2) sim_step[OF Cons.prems(2) d1(1) st1(1) assms(6)] this d1(2)] st1(1)
  show ?case by (simp del: split_paired_Ex)
qed

section \<open>The branches\<close>

text \<open>A handler result that is the run of some list of legal steps from \<open>di\<close> to the
  description of the output.\<close>

definition good_branch ::
  "bool \<Rightarrow> to_layout_op \<Rightarrow> op_creation_info \<Rightarrow> conv_state \<Rightarrow> desc \<Rightarrow> desc \<Rightarrow> fault + conv_state \<Rightarrow> bool" where
  "good_branch rowsOk op info st di tgt m \<longleftrightarrow>
     (\<exists>ss. m = runSteps op info ss st \<and> absRun rowsOk info ss di = Some tgt)"

lemma good_branchI: "absRun rowsOk info ss di = Some tgt \<Longrightarrow> good_branch rowsOk op info st di tgt (runSteps op info ss st)"
  by (auto simp: good_branch_def)

text \<open>The infos of a conversion from \<open>di\<close>, with the flags of \<open>determineRequiredOps\<close>.\<close>

definition desc_ok :: "desc \<Rightarrow> bool" where
  "desc_ok d \<longleftrightarrow> dBuffer d \<in> {SystemMemory, DRAM, L1} \<and> (dLayout d = Tile \<or> dLayout d = RowMajor)
     \<and> verifyBufferAndMemoryLayout (dBuffer d) (dMem d) = Inr () \<and> \<not> isBlockFloat (dType d)"

definition li_desc :: "layout_info \<Rightarrow> desc" where
  "li_desc li = \<lparr>dBuffer = liBufferType li, dLayout = liLayoutEnum li, dType = liDataType li,
                 dMem = liTensorMemoryLayout li\<rparr>"

lemma li_desc_sel [simp]:
  "dBuffer (li_desc li) = liBufferType li" "dLayout (li_desc li) = liLayoutEnum li"
  "dType (li_desc li) = liDataType li" "dMem (li_desc li) = liTensorMemoryLayout li"
  by (simp_all add: li_desc_def)

definition conversion :: "op_creation_info \<Rightarrow> bool" where
  "conversion info \<longleftrightarrow> desc_ok (li_desc (infoInput info)) \<and> desc_ok (li_desc (infoOutput info))
     \<and> (isOnDevice (infoOutput info) \<longrightarrow> infoDevice info \<noteq> None)
     \<and> determineRequiredOps (infoInput info) (infoOutput info) = Inr (infoOps info)"

lemma required_form:
  assumes "determineRequiredOps i out = Inr ops"
  shows "\<exists>mc. ops = \<lparr>createToDeviceOp = (liBufferType i \<noteq> liBufferType out \<and> isOnHost i),
       createFromDeviceOp = (liBufferType i \<noteq> liBufferType out \<and> isOnHost out),
       createToLayoutOp = (liLayoutEnum i \<noteq> liLayoutEnum out),
       createDataTypeCastOp = (liDataType i \<noteq> liDataType out), createToMemoryConfigOp = mc\<rparr>
    \<and> (mc \<longrightarrow> isOnDevice out \<and> \<not> (liBufferType i \<noteq> liBufferType out \<and> isOnHost i))
    \<and> (isOnDevice out \<longrightarrow> \<not> (liBufferType i \<noteq> liBufferType out \<and> isOnHost i) \<longrightarrow> \<not> mc \<longrightarrow>
         (liTensorMemoryLayout out = None \<or> liTensorMemoryLayout i = liTensorMemoryLayout out)
         \<and> \<not> (liBufferType i = DRAM \<and> liBufferType out = L1)
         \<and> \<not> (liBufferType i = L1 \<and> liBufferType out = DRAM))"
proof (cases "\<not> (liBufferType i \<noteq> liBufferType out \<and> isOnHost i) \<and> isOnDevice out")
  case True
  from assms show ?thesis
    unfolding determineRequiredOps_def Let_def if_P[OF True]
    using True by (elim rbind_InrE) (drule sym, simp)
next
  case False
  from assms show ?thesis
    unfolding determineRequiredOps_def Let_def if_not_P[OF False]
    using False by (intro exI[of _ False]) auto
qed

lemma required_cases:
  assumes "determineRequiredOps i out = Inr ops"
  shows "createToDeviceOp ops \<longleftrightarrow> liBufferType i \<noteq> liBufferType out \<and> isOnHost i"
    and "createFromDeviceOp ops \<longleftrightarrow> liBufferType i \<noteq> liBufferType out \<and> isOnHost out"
    and "createToLayoutOp ops \<longleftrightarrow> liLayoutEnum i \<noteq> liLayoutEnum out"
    and "createDataTypeCastOp ops \<longleftrightarrow> liDataType i \<noteq> liDataType out"
    and "createToMemoryConfigOp ops \<Longrightarrow> isOnDevice out \<and> (isOnHost i \<longrightarrow> liBufferType i = liBufferType out)"
    and "\<not> createToMemoryConfigOp ops \<Longrightarrow> isOnDevice out \<Longrightarrow> isOnDevice i \<Longrightarrow>
      liTensorMemoryLayout out \<noteq> None \<Longrightarrow>
      liTensorMemoryLayout i = liTensorMemoryLayout out
      \<and> \<not> (liBufferType i = DRAM \<and> liBufferType out = L1)
      \<and> \<not> (liBufferType i = L1 \<and> liBufferType out = DRAM)"
  using required_form[OF assms] by (auto simp: isOnDevice_def)

lemma desc_okD:
  assumes "desc_ok d"
  shows "dBuffer d = SystemMemory \<Longrightarrow> dMem d = None"
    and "dBuffer d \<noteq> SystemMemory \<Longrightarrow> dMem d \<noteq> None \<and> (dBuffer d = DRAM \<or> dBuffer d = L1)"
    and "dLayout d = Tile \<or> dLayout d = RowMajor"
    and "uncompressed (dType d) = dType d"
    and "verifyBufferAndMemoryLayout (dBuffer d) (dMem d) = Inr ()"
  using assms by (auto simp: desc_ok_def verify_Inr_iff uncompressed_id)

lemma conversionD:
  assumes "conversion info"
  defines "i \<equiv> infoInput info" and "out \<equiv> infoOutput info" and "ops \<equiv> infoOps info"
  shows "createToDeviceOp ops \<longleftrightarrow> liBufferType i = SystemMemory \<and> liBufferType out \<noteq> SystemMemory"
    and "createFromDeviceOp ops \<longleftrightarrow> liBufferType i \<noteq> SystemMemory \<and> liBufferType out = SystemMemory"
    and "createToLayoutOp ops \<longleftrightarrow> liLayoutEnum i \<noteq> liLayoutEnum out"
    and "createDataTypeCastOp ops \<longleftrightarrow> liDataType i \<noteq> liDataType out"
    and "createToMemoryConfigOp ops \<Longrightarrow> liBufferType i \<noteq> SystemMemory \<and> liBufferType out \<noteq> SystemMemory"
    and "liBufferType i \<noteq> SystemMemory \<Longrightarrow> liBufferType out \<noteq> SystemMemory \<Longrightarrow> \<not> createToMemoryConfigOp ops
      \<Longrightarrow> liBufferType i = liBufferType out \<and> liTensorMemoryLayout i = liTensorMemoryLayout out"
    and "liBufferType out \<noteq> SystemMemory \<Longrightarrow> infoDevice info \<noteq> None"
proof -
  have r: "determineRequiredOps i out = Inr ops"
    and io: "desc_ok (li_desc i)" "desc_ok (li_desc out)"
    and d: "isOnDevice out \<longrightarrow> infoDevice info \<noteq> None"
    using assms(1) unfolding conversion_def i_def out_def ops_def by simp_all
  note rc = required_cases[OF r] and iD = desc_okD[OF io(1), simplified] and oD = desc_okD[OF io(2), simplified]
  show "createToDeviceOp ops \<longleftrightarrow> liBufferType i = SystemMemory \<and> liBufferType out \<noteq> SystemMemory"
    "createFromDeviceOp ops \<longleftrightarrow> liBufferType i \<noteq> SystemMemory \<and> liBufferType out = SystemMemory"
    "createToLayoutOp ops \<longleftrightarrow> liLayoutEnum i \<noteq> liLayoutEnum out"
    "createDataTypeCastOp ops \<longleftrightarrow> liDataType i \<noteq> liDataType out"
    using rc(1-4) by (auto simp: isOnHost_def)
  show "liBufferType i \<noteq> SystemMemory \<and> liBufferType out \<noteq> SystemMemory" if "createToMemoryConfigOp ops"
    using rc(5)[OF that] by (auto simp: isOnDevice_def isOnHost_def)
  show "infoDevice info \<noteq> None" if "liBufferType out \<noteq> SystemMemory"
    using d that by (simp add: isOnDevice_def isOnHost_def)
  show "liBufferType i = liBufferType out \<and> liTensorMemoryLayout i = liTensorMemoryLayout out"
    if "liBufferType i \<noteq> SystemMemory" "liBufferType out \<noteq> SystemMemory" "\<not> createToMemoryConfigOp ops"
    using rc(6)[OF that(3)] that(1,2) iD(2) oD(2) by (auto simp: isOnDevice_def isOnHost_def)
qed

lemma li_desc_update:
  "liTensorMemoryLayout li = m \<Longrightarrow> liBufferType li = b \<Longrightarrow> liLayoutEnum li = l \<Longrightarrow> liDataType li = t \<Longrightarrow>
   li_desc li = \<lparr>dBuffer = b, dLayout = l, dType = t, dMem = m\<rparr>"
  by (simp add: li_desc_def)

lemmas abs_eval = absToDevice_def absFromDevice_def absToLayout_def absCast_def absMemoryConfig_def
  outDesc_def Let_def storedType_def

text \<open>The conversions the pass untilizes on the device: those of bfloat16 before or after, from or to the device.\<close>

definition deviceUntilize :: "desc \<Rightarrow> desc \<Rightarrow> bool" where
  "deviceUntilize di dout \<longleftrightarrow> (dBuffer di \<noteq> SystemMemory \<or> dBuffer dout \<noteq> SystemMemory)
     \<and> dLayout di = Tile \<and> dLayout dout = RowMajor \<and> (dType di = BFloat16 \<or> dType dout = BFloat16)"

lemma host_branches:
  assumes c: "conversion info" and h: "isOnHost (infoInput info)"
    and rows: "deviceUntilize (li_desc (infoInput info)) (outDesc info) \<Longrightarrow> rowsOk"
  shows "good_branch rowsOk op info st (li_desc (infoInput info)) (outDesc info)
    (handleHostInputLayoutConversion op info st)"
proof -
  let ?i = "infoInput info" and ?out = "infoOutput info"
  have rows': "liBufferType ?i \<noteq> SystemMemory \<or> liBufferType ?out \<noteq> SystemMemory \<Longrightarrow> liLayoutEnum ?i = Tile \<Longrightarrow>
    liLayoutEnum ?out = RowMajor \<Longrightarrow> liDataType ?i = BFloat16 \<or> liDataType ?out = BFloat16 \<Longrightarrow> rowsOk"
    using rows by (simp add: deviceUntilize_def outDesc_def Let_def)
  have io: "desc_ok (li_desc ?i)" "desc_ok (li_desc ?out)" using c by (simp_all add: conversion_def)
  note iD = desc_okD[OF io(1), simplified] and oD = desc_okD[OF io(2), simplified] and cD = conversionD[OF c]
  have b: "liBufferType ?i = SystemMemory" using h by (simp add: isOnHost_def)
  have im: "liTensorMemoryLayout ?i = None" using iD(1)[OF b] .
  have nm: "\<not> createToMemoryConfigOp (infoOps info)" using cD(5) b by blast
  note i_desc = li_desc_update[OF im b refl refl]
  show ?thesis
  proof (cases "liBufferType ?out = SystemMemory")
    case True
    with oD(1) have om: "liTensorMemoryLayout ?out = None" by simp
    show ?thesis
      using nm True om b iD(3,4) oD(3,4)
      unfolding handleHostInputLayoutConversion_def handleHostInputNoLayoutNoTypecast_def
        handleHostInputLayoutNoTypecast_def handleHostInputNoLayoutTypecast_def
        handleHostInputLayoutTypecast_def Let_def i_desc
      by (auto simp: cD(1-4) isOnHost_def abs_eval simp del: foldE.simps intro!: good_branchI rows')
  next
    case False
    with cD(7) have dev: "infoDevice info \<noteq> None" by simp
    show ?thesis
      using nm False dev b iD(3,4) oD(3,4,5)
      unfolding handleHostInputLayoutConversion_def handleHostInputNoLayoutNoTypecast_def
        handleHostInputLayoutNoTypecast_def handleHostInputNoLayoutTypecast_def
        handleHostInputLayoutTypecast_def Let_def i_desc
      by (auto simp: cD(1-4) isOnHost_def abs_eval isTilized_def shouldTilize_def shouldUntilize_def
          canTilizeDataTypeOnDevice_def canUntilizeDataTypeOnDevice_def
          simp del: foldE.simps intro!: good_branchI rows')
  qed
qed

text \<open>The branch that casts and untilizes on the device never creates the memory config op:
  the buffer type and memory layout stay those of the input.\<close>

definition castUntilizeOnDevice :: "desc \<Rightarrow> desc \<Rightarrow> bool" where
  "castUntilizeOnDevice di dout \<longleftrightarrow> dBuffer di \<noteq> SystemMemory \<and> dBuffer dout \<noteq> SystemMemory
     \<and> dLayout di = Tile \<and> dLayout dout = RowMajor \<and> dType di \<noteq> dType dout \<and> dType dout = BFloat16"

definition finalDesc :: "desc \<Rightarrow> desc \<Rightarrow> desc" where
  "finalDesc di dout =
     (if castUntilizeOnDevice di dout then dout\<lparr>dBuffer := dBuffer di, dMem := dMem di\<rparr> else dout)"

lemmas device_handlers = handleDeviceInputLayoutConversion_def handleDeviceInputNoLayoutNoTypecast_def
  handleDeviceInputLayoutNoTypecast_def handleDeviceInputNoLayoutTypecast_def
  handleDeviceInputLayoutTypecast_def

lemma device_branches:
  assumes c: "conversion info" and h: "isOnDevice (infoInput info)"
    and nd: "\<not> castUntilizeOnDevice (li_desc (infoInput info)) (outDesc info)"
    and rows: "deviceUntilize (li_desc (infoInput info)) (outDesc info) \<Longrightarrow> rowsOk"
  shows "good_branch rowsOk op info st (li_desc (infoInput info)) (outDesc info)
    (handleDeviceInputLayoutConversion op info st)"
proof -
  let ?i = "infoInput info" and ?out = "infoOutput info"
  have rows': "liBufferType ?i \<noteq> SystemMemory \<or> liBufferType ?out \<noteq> SystemMemory \<Longrightarrow> liLayoutEnum ?i = Tile \<Longrightarrow>
    liLayoutEnum ?out = RowMajor \<Longrightarrow> liDataType ?i = BFloat16 \<or> liDataType ?out = BFloat16 \<Longrightarrow> rowsOk"
    using rows by (simp add: deviceUntilize_def outDesc_def Let_def)
  have io: "desc_ok (li_desc ?i)" "desc_ok (li_desc ?out)" using c by (simp_all add: conversion_def)
  note iD = desc_okD[OF io(1), simplified] and oD = desc_okD[OF io(2), simplified] and cD = conversionD[OF c]
  have b: "liBufferType ?i \<noteq> SystemMemory" using h by (simp add: isOnHost_def isOnDevice_def)
  note i_desc = li_desc_update[OF refl refl refl refl, of ?i]
  consider (toHost) "liBufferType ?out = SystemMemory" "liTensorMemoryLayout ?out = None"
      "\<not> createToMemoryConfigOp (infoOps info)"
    | (config) "liBufferType ?out \<noteq> SystemMemory" "infoDevice info \<noteq> None"
      "createToMemoryConfigOp (infoOps info)"
    | (same) "liBufferType ?out \<noteq> SystemMemory" "infoDevice info \<noteq> None"
      "\<not> createToMemoryConfigOp (infoOps info)"
      "liBufferType ?i = liBufferType ?out" "liTensorMemoryLayout ?i = liTensorMemoryLayout ?out"
    using cD(5,6,7) oD(1) b
    by (cases "liBufferType ?out = SystemMemory"; cases "createToMemoryConfigOp (infoOps info)") auto
  then show ?thesis
  proof cases
    case toHost
    then show ?thesis
      using b iD(3,4) oD(3,4) unfolding device_handlers Let_def i_desc
      by (auto simp: cD(1-4) isOnHost_def abs_eval isTilized_def shouldTilize_def shouldUntilize_def
          canTilizeDataTypeOnDevice_def canUntilizeDataTypeOnDevice_def
          simp del: foldE.simps intro!: good_branchI rows')
  next
    case config
    then show ?thesis
      using b iD(3,4) oD(3,4,5) nd unfolding device_handlers Let_def i_desc
      by (auto simp: cD(1-4) isOnHost_def isOnDevice_def abs_eval castUntilizeOnDevice_def isTilized_def shouldTilize_def
          shouldUntilize_def canTilizeDataTypeOnDevice_def canUntilizeDataTypeOnDevice_def
          simp del: foldE.simps intro!: good_branchI rows')
  next
    case same
    then show ?thesis
      using b iD(3,4) oD(3,4,5) unfolding device_handlers Let_def i_desc
      by (auto simp: cD(1-4) isOnHost_def abs_eval isTilized_def shouldTilize_def
          shouldUntilize_def canTilizeDataTypeOnDevice_def canUntilizeDataTypeOnDevice_def
          simp del: foldE.simps intro!: good_branchI rows')
  qed
qed

lemma device_cast_untilize:
  assumes c: "conversion info"
    and nd: "castUntilizeOnDevice (li_desc (infoInput info)) (outDesc info)"
    and rows: "deviceUntilize (li_desc (infoInput info)) (outDesc info) \<Longrightarrow> rowsOk"
  shows "good_branch rowsOk op info st (li_desc (infoInput info)) (finalDesc (li_desc (infoInput info)) (outDesc info))
    (handleDeviceInputLayoutConversion op info st)"
proof -
  let ?i = "infoInput info" and ?out = "infoOutput info"
  have rowsOk using nd rows by (simp add: deviceUntilize_def castUntilizeOnDevice_def)
  have "desc_ok (li_desc ?out)" using c by (simp_all add: conversion_def)
  note oD = desc_okD(4)[OF this, simplified] and cD = conversionD[OF c]
  have f: "handleDeviceInputLayoutConversion op info st = runSteps op info [CastIfNeeded, ToLayoutIfNeeded, FromDeviceIfNeeded] st"
    using nd unfolding device_handlers Let_def
    by (auto simp: cD(1-4) castUntilizeOnDevice_def outDesc_def Let_def isTilized_def
        shouldTilize_def shouldUntilize_def canUntilizeDataTypeOnDevice_def simp del: foldE.simps)
  show ?thesis unfolding f
    by (rule good_branchI) (use nd oD \<open>rowsOk\<close> in \<open>auto simp: cD(1-4) castUntilizeOnDevice_def finalDesc_def
        abs_eval li_desc_def\<close>)
qed

section \<open>The conversion of one op\<close>

text \<open>The op agrees with its own attributes, and the output is one of the supported
  buffer types with a memory layout that verifies.\<close>

definition op_wf :: "to_layout_op \<Rightarrow> desc \<Rightarrow> bool" where
  "op_wf op dout \<longleftrightarrow>
     (case tlMemoryConfig op of None \<Rightarrow> False
      | Some mc \<Rightarrow> mcBufferType mc = dBuffer dout \<and> mcTensorMemoryLayout mc = dMem dout)
     \<and> tlDtype op = Some (dType dout) \<and> describes dout (tlResultType op) \<and> desc_ok dout"

lemma getInputOutputLayouts_eq:
  assumes "op_wf op dout" and "describes di ty"
  shows "\<exists>i out. getInputOutputLayouts op ty = Inr (i, out) \<and> li_desc i = di \<and> li_desc out = dout
    \<and> liShardGrid i = getGrid (ttEncoding ty) \<and> liShardGrid out = getGrid (ttEncoding (tlResultType op))"
  using assms
  by (auto simp: op_wf_def getInputOutputLayouts_def Let_def describes_def li_desc_def split: option.splits)

text \<open>Two sharded layouts on different grids.\<close>

definition regrid :: "to_layout_op \<Rightarrow> tensor_type \<Rightarrow> desc \<Rightarrow> bool" where
  "regrid op ty dout \<longleftrightarrow> (case dMem dout of None \<Rightarrow> False | Some m \<Rightarrow> isShardedMemoryLayout m)
     \<and> getGrid (ttEncoding ty) \<noteq> getGrid (ttEncoding (tlResultType op))"

lemma determineRequiredOps_total:
  assumes "desc_ok (li_desc i)" and "desc_ok (li_desc out)"
  shows "\<exists>ops. determineRequiredOps i out = Inr ops \<and>
    (\<not> createSomeOp ops \<longleftrightarrow> li_desc i = li_desc out \<and>
      \<not> ((case liTensorMemoryLayout out of None \<Rightarrow> False | Some m \<Rightarrow> isShardedMemoryLayout m)
         \<and> liShardGrid i \<noteq> liShardGrid out))"
proof -
  note iD = desc_okD[OF assms(1), simplified] and oD = desc_okD[OF assms(2), simplified]
  show ?thesis
  proof (cases "isOnHost out \<or> isOnHost i \<and> liBufferType i \<noteq> liBufferType out")
    case True
    then show ?thesis
      using iD(1) oD(1)
      by (auto simp: determineRequiredOps_def Let_def isOnDevice_def createSomeOp_def isOnHost_def li_desc_def)
  next
    case False
    then obtain a b where ab: "liTensorMemoryLayout i = Some a" "liTensorMemoryLayout out = Some b"
      "liBufferType i = DRAM \<or> liBufferType i = L1" "liBufferType out = DRAM \<or> liBufferType out = L1"
      using iD(2) oD(2) by (auto simp: isOnHost_def)
    then show ?thesis
      using False
      by (auto simp: determineRequiredOps_def Let_def isOnDevice_def createSomeOp_def isOnHost_def
          li_desc_def isL1Sharded_def memLayoutValue_def)
  qed
qed

lemma creation_valid:
  assumes "desc_ok (li_desc i)" and "desc_ok (li_desc out)" and "determineRequiredOps i out = Inr ops"
  shows "isCreationValid i out ops = (if createSomeOp ops then Inr () else Inl RedundantToLayoutOp)"
  using required_cases[OF assms(3)]
  by (auto simp: isCreationValid_def isOnHost_def isOnDevice_def)

lemma orFault_simps [simp]: "orFault (Inr x) = Inr x" "orFault (Inl f) = Inl (PassFault f)"
  by (simp_all add: orFault_def)

definition conversionInfo :: "to_layout_op \<Rightarrow> layout_info \<Rightarrow> layout_info \<Rightarrow> ops_to_create \<Rightarrow> op_creation_info" where
  "conversionInfo op i out ops =
     \<lparr>infoDevice = tlDevice op, infoInput = i, infoOutput = out, infoOps = ops\<rparr>"

text \<open>Everything the driver does, in one equation: an op that changes nothing is an error, a
  device output without a device is an error, anything else is the run of legal steps.\<close>

lemma createLayoutConversionOps_cases:
  assumes op: "op_wf op dout" and d: "describes di ty" "desc_ok di"
    and rows: "deviceUntilize di dout \<Longrightarrow> rowsOk"
  shows "\<exists>info ss. createLayoutConversionOps op ty =
      (if di = dout \<and> \<not> regrid op ty dout then Inl RedundantToLayoutOp
       else if tlDevice op = None \<and> dBuffer dout \<noteq> SystemMemory then Inl DeviceNotSpecified
       else orFault (runSteps op info ss ([], ty)))
    \<and> (\<not> (di = dout \<and> \<not> regrid op ty dout) \<longrightarrow> \<not> (tlDevice op = None \<and> dBuffer dout \<noteq> SystemMemory) \<longrightarrow>
       absRun rowsOk info ss di = Some (finalDesc di dout) \<and> outDesc info = dout
       \<and> liShardGrid (infoOutput info) = getGrid (ttEncoding (tlResultType op)))"
proof -
  obtain i out where io: "getInputOutputLayouts op ty = Inr (i, out)" "li_desc i = di" "li_desc out = dout"
    "liShardGrid i = getGrid (ttEncoding ty)" "liShardGrid out = getGrid (ttEncoding (tlResultType op))"
    using getInputOutputLayouts_eq[OF op d(1)] by blast
  have ok: "desc_ok (li_desc i)" "desc_ok (li_desc out)" using d(2) op io(2,3) by (simp_all add: op_wf_def)
  obtain ops where ops: "determineRequiredOps i out = Inr ops"
    "\<not> createSomeOp ops \<longleftrightarrow> di = dout \<and> \<not> regrid op ty dout"
    using determineRequiredOps_total[OF ok] unfolding regrid_def io(2)[symmetric] io(3)[symmetric]
      io(4)[symmetric] io(5)[symmetric] li_desc_sel by blast
  let ?info = "conversionInfo op i out ops"
  have sel: "infoInput ?info = i" "infoOutput ?info = out" "infoOps ?info = ops" "infoDevice ?info = tlDevice op"
    by (simp_all add: conversionInfo_def)
  have od: "outDesc ?info = dout" using io(3) sel(2) by (simp add: outDesc_def li_desc_def Let_def)
  have host: "isOnHost out \<longleftrightarrow> dBuffer dout = SystemMemory" using io(3) by (auto simp: isOnHost_def)
  have step: "createLayoutConversionOps op ty =
      (if di = dout \<and> \<not> regrid op ty dout then Inl RedundantToLayoutOp
       else if tlDevice op = None \<and> dBuffer dout \<noteq> SystemMemory then Inl DeviceNotSpecified
       else orFault (if isOnHost i then handleHostInputLayoutConversion op ?info ([], ty)
                     else handleDeviceInputLayoutConversion op ?info ([], ty)))"
  proof -
    have v: "isCreationValid i out ops = (if di = dout \<and> \<not> regrid op ty dout then Inl RedundantToLayoutOp else Inr ())"
      using creation_valid[OF ok ops(1)] ops(2) by (cases "createSomeOp ops") auto
    show ?thesis
      unfolding createLayoutConversionOps_def io(1) conversionInfo_def orFault_simps ops(1) rbind_simps
        prod.case v host Let_def
      by (cases "di = dout \<and> \<not> regrid op ty dout") (simp_all only: if_True if_False rbind_simps simp_thms)
  qed
  show ?thesis
  proof (cases "di = dout \<and> \<not> regrid op ty dout \<or> tlDevice op = None \<and> dBuffer dout \<noteq> SystemMemory")
    case True
    then show ?thesis unfolding step by auto
  next
    case False
    then have c: "conversion ?info"
      using ok ops(1) host by (auto simp: conversion_def sel isOnDevice_def)
    have "good_branch rowsOk op ?info ([], ty) di (finalDesc di dout)
        (if isOnHost i then handleHostInputLayoutConversion op ?info ([], ty)
         else handleDeviceInputLayoutConversion op ?info ([], ty))"
    proof (cases "isOnHost i")
      case h: True
      then have "\<not> castUntilizeOnDevice di dout"
        using io(2) by (auto simp: castUntilizeOnDevice_def isOnHost_def)
      then show ?thesis using host_branches[OF c, of rowsOk] rows h sel io(2) od by (simp add: finalDesc_def)
    next
      case h: False
      show ?thesis
        using device_branches[OF c, of rowsOk op "([], ty)"] device_cast_untilize[OF c, of rowsOk op "([], ty)"] rows h sel io(2) od
        by (cases "castUntilizeOnDevice di dout") (simp_all add: finalDesc_def isOnDevice_def)
    qed
    then obtain ss where "(if isOnHost i then handleHostInputLayoutConversion op ?info ([], ty)
         else handleDeviceInputLayoutConversion op ?info ([], ty)) = runSteps op ?info ss ([], ty)"
      "absRun rowsOk ?info ss di = Some (finalDesc di dout)" by (auto simp: good_branch_def)
    note ss = this
    show ?thesis
      unfolding step ss(1)
      by (rule exI[of _ ?info], rule exI[of _ ss]) (use ss(2) od io(5) sel(2) in simp)
  qed
qed

lemma describes_unique: "describes d ty \<Longrightarrow> describes d' ty \<Longrightarrow> d = d'"
  by (cases d; cases d') (auto simp: describes_def)

lemma sim_initial: "describes d ty \<Longrightarrow> sim rowsOk ty d ([], ty)"
  by (simp add: sim_def)

lemma conversion_sound:
  assumes "op_wf op dout" and "describes di ty" and "desc_ok di"
    and "createLayoutConversionOps op ty = Inr (created, ty')" and "deviceUntilize di dout \<Longrightarrow> rowsOk"
  shows "describes (finalDesc di dout) ty' \<and> op_chain ty created ty' \<and> (\<forall>c \<in> set created. op_legal rowsOk c)"
proof -
  obtain info ss where eq: "createLayoutConversionOps op ty =
      (if di = dout \<and> \<not> regrid op ty dout then Inl RedundantToLayoutOp
       else if tlDevice op = None \<and> dBuffer dout \<noteq> SystemMemory then Inl DeviceNotSpecified
       else orFault (runSteps op info ss ([], ty)))"
    and imp: "\<not> (di = dout \<and> \<not> regrid op ty dout) \<longrightarrow> \<not> (tlDevice op = None \<and> dBuffer dout \<noteq> SystemMemory) \<longrightarrow>
       absRun rowsOk info ss di = Some (finalDesc di dout) \<and> outDesc info = dout"
    using createLayoutConversionOps_cases[OF assms(1-3), of rowsOk] assms(5) by blast
  from eq assms(4) have n: "\<not> (di = dout \<and> \<not> regrid op ty dout)"
    "\<not> (tlDevice op = None \<and> dBuffer dout \<noteq> SystemMemory)"
    and r: "runSteps op info ss ([], ty) = Inr (created, ty')"
    by (auto simp: orFault_def split: if_splits sum.splits)
  from imp n have a: "absRun rowsOk info ss di = Some (finalDesc di dout)" "outDesc info = dout" by auto
  have "result_described op info" using assms(1) a(2) by (simp add: result_described_def op_wf_def)
  from sim_run[OF sim_initial[OF assms(2)] a(1) r this] show ?thesis by (simp add: sim_def)
qed

lemma conversion_total:
  assumes "op_wf op dout" and "describes di ty" and "desc_ok di"
    and "type_ok ty" and "type_ok (tlResultType op)"
    and "\<not> l1_interleaved di" and "\<not> l1_interleaved dout"
  shows "if di = dout \<and> \<not> regrid op ty dout
         then createLayoutConversionOps op ty = Inl RedundantToLayoutOp
         else if tlDevice op = None \<and> dBuffer dout \<noteq> SystemMemory
         then createLayoutConversionOps op ty = Inl DeviceNotSpecified
         else (case createLayoutConversionOps op ty of Inl e \<Rightarrow> False | Inr (created, ty') \<Rightarrow> di \<noteq> dout \<longrightarrow> created \<noteq> [])"
proof -
  obtain info ss where eq: "createLayoutConversionOps op ty =
      (if di = dout \<and> \<not> regrid op ty dout then Inl RedundantToLayoutOp
       else if tlDevice op = None \<and> dBuffer dout \<noteq> SystemMemory then Inl DeviceNotSpecified
       else orFault (runSteps op info ss ([], ty)))"
    and imp: "\<not> (di = dout \<and> \<not> regrid op ty dout) \<longrightarrow> \<not> (tlDevice op = None \<and> dBuffer dout \<noteq> SystemMemory) \<longrightarrow>
       absRun True info ss di = Some (finalDesc di dout) \<and> outDesc info = dout
       \<and> liShardGrid (infoOutput info) = getGrid (ttEncoding (tlResultType op))"
    using createLayoutConversionOps_cases[OF assms(1-3), of True] by blast
  show ?thesis
  proof (cases "di = dout \<and> \<not> regrid op ty dout \<or> tlDevice op = None \<and> dBuffer dout \<noteq> SystemMemory")
    case True
    then show ?thesis unfolding eq by auto
  next
    case False
    with imp have a: "absRun True info ss di = Some (finalDesc di dout)" "outDesc info = dout"
      "liShardGrid (infoOutput info) = getGrid (ttEncoding (tlResultType op))" by auto
    have "can_run op info" using a assms(5,7) by (simp add: can_run_def type_ok_def)
    moreover have "result_described op info" using assms(1) a(2) by (simp add: result_described_def op_wf_def)
    ultimately obtain created ty' where r: "runSteps op info ss ([], ty) = Inr (created, ty')"
      "sim True ty (finalDesc di dout) (created, ty')"
      using run_total[of "([], ty)" True ty di info ss "finalDesc di dout" op] assms sim_initial a(1) by auto
    have "di \<noteq> dout \<longrightarrow> created \<noteq> []"
    proof (intro impI notI)
      assume ne: "di \<noteq> dout" and "created = []"
      with r(2) have "ty' = ty" by (simp add: sim_def)
      with r(2) have "finalDesc di dout = di"
        using assms(2) by (intro describes_unique[of _ ty]) (simp_all add: sim_def)
      then have l: "dLayout (finalDesc di dout) = dLayout di" by simp
      have "castUntilizeOnDevice di dout"
        using ne \<open>finalDesc di dout = di\<close> by (auto simp: finalDesc_def split: if_splits)
      moreover from this l have "dLayout dout = dLayout di" by (simp add: finalDesc_def)
      ultimately show False by (auto simp: castUntilizeOnDevice_def)
    qed
    with False r(1) show ?thesis unfolding eq by (auto simp: orFault_def)
  qed
qed


text \<open>Concrete conversions of a 64x128 tensor, for the examples below.\<close>

definition exType :: "data_type \<Rightarrow> layout \<Rightarrow> buffer_type \<Rightarrow> tensor_memory_layout option \<Rightarrow> tensor_type" where
  "exType dt lay b m =
     \<lparr>ttShape = [64, 128], ttElem = Scalar (dataTypeToElementType dt),
      ttEncoding = \<lparr>getLinear = linear2d [64, 128], getGrid = gridOfShape [1, 1],
        getMemref = \<lparr>memrefShape = (if lay = Tile then [2, 4] else [64, 128]),
                     memrefElem = elementTypeFor lay dt, memrefSpace = b\<rparr>,
        getMemLayout = m, getTensorMeshSharding = None\<rparr>\<rparr>"

definition exDesc :: "data_type \<Rightarrow> layout \<Rightarrow> buffer_type \<Rightarrow> tensor_memory_layout option \<Rightarrow> desc" where
  "exDesc dt lay b m = \<lparr>dBuffer = b, dLayout = lay, dType = dt, dMem = m\<rparr>"

definition exOp :: "data_type \<Rightarrow> layout \<Rightarrow> buffer_type \<Rightarrow> tensor_memory_layout option \<Rightarrow> to_layout_op" where
  "exOp dt lay b m =
     \<lparr>tlInput = 0, tlResult = 1, tlResultType = exType dt lay b m, tlDtype = Some dt,
      tlMemoryConfig = Some \<lparr>mcBufferType = b, mcShardSpec = [64, 128], mcTensorMemoryLayout = m\<rparr>,
      tlDevice = Some 7\<rparr>"

lemma ex_describes:
  "\<not> isBlockFloat dt \<Longrightarrow> lay = Tile \<or> lay = RowMajor \<Longrightarrow> describes (exDesc dt lay b m) (exType dt lay b m)"
  by (auto simp: describes_def exDesc_def exType_def getBufferType_def getLayout_def isTiled_def
      getElementType_def elementTypeFor_def getDataType_def elementTypeToDataType_def uncompressed_id)

lemma ex_type_ok: "type_ok (exType dt lay b m)"
  by (simp add: type_ok_def exType_def memref_ok_def getShardShape_def getElementType_def elementTypeFor_def)

lemma ex_desc_ok:
  "\<not> isBlockFloat dt \<Longrightarrow> lay = Tile \<or> lay = RowMajor \<Longrightarrow> b \<in> {SystemMemory, DRAM, L1} \<Longrightarrow>
   verifyBufferAndMemoryLayout b m = Inr () \<Longrightarrow> desc_ok (exDesc dt lay b m)"
  by (simp add: desc_ok_def exDesc_def)

lemma ex_op_wf:
  "\<not> isBlockFloat dt \<Longrightarrow> lay = Tile \<or> lay = RowMajor \<Longrightarrow> b \<in> {SystemMemory, DRAM, L1} \<Longrightarrow>
   verifyBufferAndMemoryLayout b m = Inr () \<Longrightarrow> op_wf (exOp dt lay b m) (exDesc dt lay b m)"
  using ex_describes[of dt lay b m] ex_desc_ok[of dt lay b m]
  by (simp add: op_wf_def exOp_def) (simp add: exDesc_def)

lemma ex_returns:
  assumes "op_wf (exOp dt' lay' b' m') (exDesc dt' lay' b' m')" and "desc_ok (exDesc dt lay b m)"
    and "\<not> isBlockFloat dt" and "lay = Tile \<or> lay = RowMajor" and "exDesc dt lay b m \<noteq> exDesc dt' lay' b' m'"
    and "\<not> l1_interleaved (exDesc dt lay b m)" and "\<not> l1_interleaved (exDesc dt' lay' b' m')"
  obtains created ty' where
    "createLayoutConversionOps (exOp dt' lay' b' m') (exType dt lay b m) = Inr (created, ty')"
proof -
  have "type_ok (tlResultType (exOp dt' lay' b' m'))" using ex_type_ok by (simp add: exOp_def)
  from conversion_total[OF assms(1) ex_describes[OF assms(3,4)] assms(2) ex_type_ok this assms(6,7)] assms(5)
  show thesis by (auto simp: exOp_def split: sum.splits intro: that)
qed

text \<open>
  C5: what \<open>TTNNDecomposeLayouts\<close> puts in place of a \<open>to_layout\<close> op computes what the op
  asked for: the last created value has the layout and data type of the output, and its
  buffer type and memory layout, and the created ops form a chain from the operand in which
  every op is one the backend accepts (typecasts on the device only on tiles, layout changes
  on the device only in bfloat16 and to rows only of even width and more than four bytes, moves
  only from the side the tensor is on, host casts only on the host). Input and output are in
  system memory, DRAM or L1 (not small L1 or trace memory), in tiles or rows, of a data type that is
  not a block float, with a memory layout that fits the buffer, and the attributes of the op agree with
  its result type. Excluded are a device-to-device cast and untilize to bfloat16, and conversions of
  tiled bfloat16 data (before or after, from or to the device) to rows of odd width or of at most four bytes.
\<close>

theorem decompose_correct:
  assumes "op_wf op dout" and "describes di ty" and "desc_ok di"
    and "\<not> castUntilizeOnDevice di dout" and "deviceUntilize di dout \<Longrightarrow> untilizableRows (ttShape ty)"
    and "createLayoutConversionOps op ty = Inr (created, ty')"
  shows "describes dout ty' \<and> op_chain ty created ty' \<and> (\<forall>c \<in> set created. op_legal (untilizableRows (ttShape ty)) c)"
  using conversion_sound[OF assms(1-3,6,5)] assms(4) by (simp add: finalDesc_def)

lemma decompose_correct_witness:
  "\<exists>created ty'.
     createLayoutConversionOps (exOp BFloat16 Tile DRAM (Some Interleaved))
       (exType Float32 RowMajor SystemMemory None) = Inr (created, ty')
   \<and> describes (exDesc BFloat16 Tile DRAM (Some Interleaved)) ty'
   \<and> op_chain (exType Float32 RowMajor SystemMemory None) created ty' \<and> (\<forall>c \<in> set created. op_legal True c)"
proof -
  have op: "op_wf (exOp BFloat16 Tile DRAM (Some Interleaved)) (exDesc BFloat16 Tile DRAM (Some Interleaved))"
    by (rule ex_op_wf) (simp_all add: isBlockFloat_def verify_Inr_iff)
  have i: "desc_ok (exDesc Float32 RowMajor SystemMemory None)"
    by (rule ex_desc_ok) (simp_all add: isBlockFloat_def verify_Inr_iff)
  have d: "describes (exDesc Float32 RowMajor SystemMemory None) (exType Float32 RowMajor SystemMemory None)"
    by (rule ex_describes) (simp_all add: isBlockFloat_def)
  obtain created ty' where r: "createLayoutConversionOps (exOp BFloat16 Tile DRAM (Some Interleaved))
       (exType Float32 RowMajor SystemMemory None) = Inr (created, ty')"
    by (rule ex_returns[OF op i]) (auto simp: isBlockFloat_def exDesc_def l1_interleaved_def)
  have "\<not> castUntilizeOnDevice (exDesc Float32 RowMajor SystemMemory None)
      (exDesc BFloat16 Tile DRAM (Some Interleaved))"
    by (simp add: castUntilizeOnDevice_def exDesc_def)
  moreover have "untilizableRows (ttShape (exType Float32 RowMajor SystemMemory None))"
    by (simp add: untilizableRows_def exType_def)
  ultimately show ?thesis using decompose_correct[OF op d i _ _ r] r by auto
qed

text \<open>
  The comment of \<open>createLayoutConversionOps\<close> says that the pass always untilizes on the host, because the device
  demands an even width. The code untilizes bfloat16 tensors on the device, whatever their width: here rows of
  33 elements.
\<close>

lemma odd_width_untilized_on_device:
  "let ty = (exType BFloat16 Tile DRAM (Some Interleaved))\<lparr>ttShape := [64, 33]\<rparr>
   in \<not> untilizableRows (ttShape ty)
    \<and> (case createLayoutConversionOps (exOp BFloat16 RowMajor SystemMemory None) ty of
         Inl e \<Rightarrow> False
       | Inr (created, ty') \<Rightarrow> (case created of
           c # rest \<Rightarrow> coKind c = ToLayoutOp RowMajor (Some 7) \<and> getBufferType (ttEncoding (coOperand c)) = DRAM | [] \<Rightarrow> False))"
  by code_simp

text \<open>
  In the excluded case, a device tensor in tiles cast to bfloat16 and untilized on the
  device, the handler never creates the memory config op: the value it returns keeps the
  buffer type and memory layout of the input, whatever the op asked for.
\<close>

theorem cast_untilize_keeps_memory:
  assumes "op_wf op dout" and "describes di ty" and "desc_ok di"
    and "castUntilizeOnDevice di dout"
    and "createLayoutConversionOps op ty = Inr (created, ty')"
  shows "describes (dout\<lparr>dBuffer := dBuffer di, dMem := dMem di\<rparr>) ty'"
  using conversion_sound[OF assms(1-3,5), of True] assms(4) by (simp add: finalDesc_def)

lemma cast_untilize_keeps_memory_witness:
  "\<exists>created ty'.
     createLayoutConversionOps (exOp BFloat16 RowMajor DRAM (Some Interleaved))
       (exType Float32 Tile L1 (Some BlockSharded)) = Inr (created, ty')
   \<and> describes ((exDesc BFloat16 RowMajor DRAM (Some Interleaved))
       \<lparr>dBuffer := dBuffer (exDesc Float32 Tile L1 (Some BlockSharded)),
        dMem := dMem (exDesc Float32 Tile L1 (Some BlockSharded))\<rparr>) ty'
   \<and> getBufferType (ttEncoding ty') = L1"
proof -
  have op: "op_wf (exOp BFloat16 RowMajor DRAM (Some Interleaved)) (exDesc BFloat16 RowMajor DRAM (Some Interleaved))"
    by (rule ex_op_wf) (simp_all add: isBlockFloat_def verify_Inr_iff)
  have i: "desc_ok (exDesc Float32 Tile L1 (Some BlockSharded))"
    by (rule ex_desc_ok) (simp_all add: isBlockFloat_def verify_Inr_iff)
  have d: "describes (exDesc Float32 Tile L1 (Some BlockSharded)) (exType Float32 Tile L1 (Some BlockSharded))"
    by (rule ex_describes) (simp_all add: isBlockFloat_def)
  obtain created ty' where r: "createLayoutConversionOps (exOp BFloat16 RowMajor DRAM (Some Interleaved))
       (exType Float32 Tile L1 (Some BlockSharded)) = Inr (created, ty')"
    by (rule ex_returns[OF op i]) (auto simp: isBlockFloat_def exDesc_def l1_interleaved_def)
  have "castUntilizeOnDevice (exDesc Float32 Tile L1 (Some BlockSharded))
      (exDesc BFloat16 RowMajor DRAM (Some Interleaved))"
    by (simp add: castUntilizeOnDevice_def exDesc_def)
  from cast_untilize_keeps_memory[OF op d i this r] r show ?thesis
    by (auto simp: describes_def exDesc_def)
qed

text \<open>
  C7: the pass decides every conversion between tensors of rank at least two on two-dimensional grids, in system
  memory, DRAM or L1 (not small L1 or trace memory), in tiles or rows, of data types other than the block floats, with a
  memory layout that fits the buffer, if the attributes of the op agree with its result type and neither side is
  interleaved in L1. An op that changes neither layout, data type, buffer type nor memory layout and
  keeps the grid of a sharded tensor is rejected as redundant; an op with a device output and no
  device is rejected; every other op is decomposed: no assertion fails, no unreachable code is
  reached and no result type fails to build. (For interleaved L1 layouts a result type can fail to build:
  lemma \<open>l1_interleaved_row_major_asserts\<close>.)
\<close>

theorem decompose_total:
  assumes "op_wf op dout" and "describes di ty" and "desc_ok di"
    and "type_ok ty" and "type_ok (tlResultType op)"
    and "\<not> l1_interleaved di" and "\<not> l1_interleaved dout"
  shows "if di = dout \<and> \<not> regrid op ty dout
         then createLayoutConversionOps op ty = Inl RedundantToLayoutOp
         else if tlDevice op = None \<and> dBuffer dout \<noteq> SystemMemory
         then createLayoutConversionOps op ty = Inl DeviceNotSpecified
         else (case createLayoutConversionOps op ty of Inl e \<Rightarrow> False | Inr (created, ty') \<Rightarrow> di \<noteq> dout \<longrightarrow> created \<noteq> [])"
  using assms by (rule conversion_total)

lemma decompose_total_witness:
  "case createLayoutConversionOps (exOp BFloat16 RowMajor SystemMemory None)
     (exType Int32 Tile L1 (Some HeightSharded)) of Inl e \<Rightarrow> False | Inr (created, ty') \<Rightarrow> created \<noteq> []"
proof -
  have op: "op_wf (exOp BFloat16 RowMajor SystemMemory None) (exDesc BFloat16 RowMajor SystemMemory None)"
    by (rule ex_op_wf) (simp_all add: isBlockFloat_def verify_Inr_iff)
  have i: "desc_ok (exDesc Int32 Tile L1 (Some HeightSharded))"
    by (rule ex_desc_ok) (simp_all add: isBlockFloat_def verify_Inr_iff)
  have d: "describes (exDesc Int32 Tile L1 (Some HeightSharded)) (exType Int32 Tile L1 (Some HeightSharded))"
    by (rule ex_describes) (simp_all add: isBlockFloat_def)
  have t: "type_ok (tlResultType (exOp BFloat16 RowMajor SystemMemory None))"
    using ex_type_ok by (simp add: exOp_def)
  have ne: "exDesc Int32 Tile L1 (Some HeightSharded) \<noteq> exDesc BFloat16 RowMajor SystemMemory None"
    and b: "dBuffer (exDesc BFloat16 RowMajor SystemMemory None) = SystemMemory"
    and l: "\<not> l1_interleaved (exDesc Int32 Tile L1 (Some HeightSharded))"
    "\<not> l1_interleaved (exDesc BFloat16 RowMajor SystemMemory None)"
    by (simp_all add: exDesc_def l1_interleaved_def)
  from decompose_total[OF op d i ex_type_ok t l] ne b show ?thesis
    by (auto split: sum.splits)
qed

section \<open>The whole module\<close>

definition isToLayoutOp :: "body_op \<Rightarrow> bool" where
  "isToLayoutOp b \<longleftrightarrow> (case b of BodyToLayout _ \<Rightarrow> True | _ \<Rightarrow> False)"

definition isOther :: "body_op \<Rightarrow> bool" where
  "isOther b \<longleftrightarrow> (case b of BodyOther _ \<Rightarrow> True | _ \<Rightarrow> False)"

lemma isToLayout_simps [simp]: "isToLayoutOp (BodyToLayout op)" "\<not> isToLayoutOp (BodyCreated c)" "\<not> isToLayoutOp (BodyOther n)"
  and isOther_simps [simp]: "\<not> isOther (BodyToLayout op)" "\<not> isOther (BodyCreated c)" "isOther (BodyOther n)"
  by (simp_all add: isToLayoutOp_def isOther_def)

lemma rewriteBody_result:
  "rewriteBody body env = Inr (body', env') \<Longrightarrow>
   (\<forall>b \<in> set body'. \<not> isToLayoutOp b) \<and> filter isOther body' = filter isOther body"
proof (induction body arbitrary: env body')
  case (Cons b rest)
  show ?case
  proof (cases b)
    case (BodyToLayout op)
    with Cons.prems obtain ty created ty' rest' where "env (tlInput op) = Some ty"
      "createLayoutConversionOps op ty = Inr (created, ty')"
      and rest: "rewriteBody rest (env(tlResult op \<mapsto> ty')) = Inr (rest', env')"
      and body: "body' = map BodyCreated created @ rest'"
      by (auto simp: rbind_Inr_iff split: option.splits)
    have "filter isOther (map BodyCreated created) = []" by (auto simp: filter_empty_conv)
    with Cons.IH[OF rest] body BodyToLayout show ?thesis by auto
  next
    case (BodyCreated c)
    with Cons show ?thesis by (auto simp: rbind_Inr_iff)
  next
    case (BodyOther n)
    with Cons show ?thesis by (auto simp: rbind_Inr_iff)
  qed
qed simp

lemma rewriteModule_result:
  "rewriteModule fs env = Inr (fs', env') \<Longrightarrow>
   list_all2 (\<lambda>f f'. fnIsDeclaration f' = fnIsDeclaration f \<and>
     (\<not> fnIsDeclaration f \<longrightarrow> (\<forall>body \<in> set (fnBlocks f'). \<forall>b \<in> set body. \<not> isToLayoutOp b)
       \<and> map (filter isOther) (fnBlocks f') = map (filter isOther) (fnBlocks f))) fs fs'"
proof (induction fs arbitrary: env fs')
  case (Cons f fs)
  then obtain f' env1 fs1 where
    f: "rewriteFunc f env = Inr (f', env1)" and fs: "rewriteModule fs env1 = Inr (fs1, env')"
    and r: "fs' = f' # fs1"
    by (auto simp: rbind_Inr_iff)
  from f have "fnIsDeclaration f' = fnIsDeclaration f \<and>
     (\<not> fnIsDeclaration f \<longrightarrow> (\<forall>body \<in> set (fnBlocks f'). \<forall>b \<in> set body. \<not> isToLayoutOp b)
       \<and> map (filter isOther) (fnBlocks f') = map (filter isOther) (fnBlocks f))"
    by (auto simp: rewriteFunc_def rbind_Inr_iff dest!: rewriteBody_result
        split: if_splits list.splits)
  with Cons.IH[OF fs] r show ?case by simp
qed simp

text \<open>
  When the pass succeeds, every \<open>to_layout\<close> op of the input is gone from every function with a body, replaced by the
  ops created for it (among them \<open>to_layout\<close> ops with the layout alone to change), and the other ops of every block
  are the same ops in the same order.
\<close>

lemma runOnOperation_replaces_to_layout:
  assumes "runOnOperation fs env = Inr (fs', env')"
  shows "list_all2 (\<lambda>f f'. fnIsDeclaration f' = fnIsDeclaration f \<and>
     (\<not> fnIsDeclaration f \<longrightarrow> (\<forall>body \<in> set (fnBlocks f'). \<forall>b \<in> set body. \<not> isToLayoutOp b)
       \<and> map (filter isOther) (fnBlocks f') = map (filter isOther) (fnBlocks f))) fs fs'"
  using assms by (intro rewriteModule_result[of fs env fs' env']) (simp add: runOnOperation_def rbind_Inr_iff orFault_def split: sum.splits)

end
