(* ===== verification/LayoutConverter.thy ===== *)
theory LayoutConverter
  imports Prelude
begin

text \<open>
  The runtime's counterpart of the layout decomposition: \<open>LayoutDesc\<close>
  (\<open>runtime/lib/ttnn/types/types.cpp\<close>) and \<open>LayoutConverter\<close>
  (\<open>runtime/lib/ttnn/types/layout_converter.cpp\<close>).

  The TTNN backend is not part of the repository: its six conversion calls are the fields of
  a \<open>backend\<close> record, and what the converter relies on is the predicate
  \<open>backend_laws\<close>. Tensors, devices and memory configs are type parameters.
\<close>

section \<open>Descriptions of runtime tensors\<close>

datatype storage_type = HOST | DEVICE | MULTI_DEVICE_HOST

datatype rt_layout = ROW_MAJOR | TILE | INVALID_LAYOUT

datatype rt_dtype =
    FLOAT32 | BFLOAT16 | BFLOAT8_B | BFLOAT4_B | UINT32 | UINT16 | UINT8 | INT32 | INVALID_DTYPE

record 'mc layout_desc =
  ldStorageType :: storage_type
  ldLayout :: rt_layout
  ldDataType :: rt_dtype
  ldMemoryConfig :: "'mc option"

definition storageOnHost :: "storage_type \<Rightarrow> bool" where
  "storageOnHost s \<longleftrightarrow> s = HOST \<or> s = MULTI_DEVICE_HOST"

definition ldIsOnHost :: "'mc layout_desc \<Rightarrow> bool" where
  "ldIsOnHost d \<longleftrightarrow> ldStorageType d = HOST \<or> ldStorageType d = MULTI_DEVICE_HOST"

definition ldIsOnDevice :: "'mc layout_desc \<Rightarrow> bool" where
  "ldIsOnDevice d \<longleftrightarrow> \<not> ldIsOnHost d"

definition ldIsTilized :: "'mc layout_desc \<Rightarrow> bool" where
  "ldIsTilized d \<longleftrightarrow> ldLayout d = TILE"


section \<open>The converter\<close>

record 'mc layout_converter =
  cvInputDesc :: "'mc layout_desc"
  cvOutputDesc :: "'mc layout_desc"
  cvShouldTilize :: bool
  cvShouldUntilize :: bool
  cvShouldTypecast :: bool
  cvShouldToDevice :: bool
  cvShouldToMemoryConfig :: bool
  cvShouldFromDevice :: bool

definition layoutConverter :: "'mc layout_desc \<Rightarrow> 'mc layout_desc \<Rightarrow> 'mc layout_converter" where
  "layoutConverter inputDesc outputDesc =
     (let toDevice = (ldIsOnHost inputDesc \<and> ldIsOnDevice outputDesc) in
      \<lparr>cvInputDesc = inputDesc, cvOutputDesc = outputDesc,
       cvShouldTilize = (ldLayout inputDesc = ROW_MAJOR \<and> ldLayout outputDesc = TILE),
       cvShouldUntilize = (ldLayout inputDesc = TILE \<and> ldLayout outputDesc = ROW_MAJOR),
       cvShouldTypecast = (ldDataType inputDesc \<noteq> ldDataType outputDesc),
       cvShouldToDevice = toDevice,
       cvShouldToMemoryConfig = (\<not> toDevice \<and> ldIsOnDevice outputDesc
          \<and> ldMemoryConfig inputDesc \<noteq> ldMemoryConfig outputDesc),
       cvShouldFromDevice = (ldIsOnDevice inputDesc \<and> ldIsOnHost outputDesc)\<rparr>)"

definition rtCanTilizeDataTypeOnDevice :: "rt_dtype \<Rightarrow> bool" where
  "rtCanTilizeDataTypeOnDevice dataType \<longleftrightarrow> dataType = BFLOAT16"

definition rtCanUntilizeDataTypeOnDevice :: "rt_dtype \<Rightarrow> bool" where
  "rtCanUntilizeDataTypeOnDevice dataType \<longleftrightarrow> dataType = BFLOAT16"

record ('tn, 'mc, 'dv) backend =
  beDesc :: "'tn \<Rightarrow> 'mc layout_desc"
  be_to_layout :: "'tn \<Rightarrow> rt_layout \<Rightarrow> 'tn"
  be_to_dtype :: "'tn \<Rightarrow> rt_dtype \<Rightarrow> 'tn"
  be_typecast :: "'tn \<Rightarrow> rt_dtype \<Rightarrow> 'tn"
  be_to_device :: "'tn \<Rightarrow> 'dv \<Rightarrow> 'mc option \<Rightarrow> 'tn"
  be_to_memory_config :: "'tn \<Rightarrow> 'mc \<Rightarrow> 'tn"
  be_from_device :: "'tn \<Rightarrow> 'tn"

datatype rt_error =
    RtAssert
  | DeviceUntilizeUnsupported rt_dtype
  | DeviceTilizeUnsupported rt_dtype
  | DeviceTypecastUnsupported rt_layout
  | RtUnreachable

definition toLayoutIfNeeded ::
  "('tn, 'mc, 'dv) backend \<Rightarrow> 'mc layout_converter \<Rightarrow> 'tn \<Rightarrow> rt_error + 'tn" where
  "toLayoutIfNeeded be cv input =
     (if cvShouldTilize cv then Inr (be_to_layout be input TILE)
      else if cvShouldUntilize cv then Inr (be_to_layout be input ROW_MAJOR)
      else Inr input)"

definition typecastIfNeeded ::
  "('tn, 'mc, 'dv) backend \<Rightarrow> 'mc layout_converter \<Rightarrow> 'tn \<Rightarrow> rt_error + 'tn" where
  "typecastIfNeeded be cv input =
     (if \<not> cvShouldTypecast cv then Inr input
      else if storageOnHost (ldStorageType (beDesc be input))
        then Inr (be_to_dtype be input (ldDataType (cvOutputDesc cv)))
      else Inr (be_typecast be input (ldDataType (cvOutputDesc cv))))"

text \<open>The parameter \<open>force\<close> of \<open>toDeviceIfNeeded\<close> is \<open>false\<close> at every call.\<close>

definition toDeviceIfNeeded ::
  "('tn, 'mc, 'dv) backend \<Rightarrow> 'mc layout_converter \<Rightarrow> 'dv option \<Rightarrow> bool \<Rightarrow> 'tn \<Rightarrow> rt_error + 'tn" where
  "toDeviceIfNeeded be cv targetDevice force input =
     (if cvShouldToDevice cv \<or> force then
        (case targetDevice of
           None \<Rightarrow> Inl RtAssert
         | Some dev \<Rightarrow> Inr (be_to_device be input dev (ldMemoryConfig (cvOutputDesc cv))))
      else Inr input)"

definition toMemoryConfigIfNeeded ::
  "('tn, 'mc, 'dv) backend \<Rightarrow> 'mc layout_converter \<Rightarrow> 'tn \<Rightarrow> rt_error + 'tn" where
  "toMemoryConfigIfNeeded be cv input =
     (if cvShouldToMemoryConfig cv then
        (case ldMemoryConfig (cvOutputDesc cv) of
           None \<Rightarrow> Inl RtAssert
         | Some mc \<Rightarrow> Inr (be_to_memory_config be input mc))
      else Inr input)"

definition fromDeviceIfNeeded ::
  "('tn, 'mc, 'dv) backend \<Rightarrow> 'mc layout_converter \<Rightarrow> 'tn \<Rightarrow> rt_error + 'tn" where
  "fromDeviceIfNeeded be cv input =
     (if cvShouldFromDevice cv then Inr (be_from_device be input) else Inr input)"

datatype rt_step = RtToDevice | RtToLayout | RtTypecast | RtToMemoryConfig | RtFromDevice

fun rtStep ::
  "('tn, 'mc, 'dv) backend \<Rightarrow> 'mc layout_converter \<Rightarrow> 'dv option \<Rightarrow> rt_step \<Rightarrow> 'tn \<Rightarrow> rt_error + 'tn" where
  "rtStep be cv dev RtToDevice = toDeviceIfNeeded be cv dev False"
| "rtStep be cv dev RtToLayout = toLayoutIfNeeded be cv"
| "rtStep be cv dev RtTypecast = typecastIfNeeded be cv"
| "rtStep be cv dev RtToMemoryConfig = toMemoryConfigIfNeeded be cv"
| "rtStep be cv dev RtFromDevice = fromDeviceIfNeeded be cv"

abbreviation rtRun ::
  "('tn, 'mc, 'dv) backend \<Rightarrow> 'mc layout_converter \<Rightarrow> 'dv option \<Rightarrow> rt_step list \<Rightarrow> 'tn \<Rightarrow> rt_error + 'tn" where
  "rtRun be cv dev \<equiv> foldE (rtStep be cv dev)"

section \<open>Handlers\<close>

definition rtHostNoLayoutNoTypecast ::
  "('tn, 'mc, 'dv) backend \<Rightarrow> 'mc layout_converter \<Rightarrow> 'dv option \<Rightarrow> 'tn \<Rightarrow> rt_error + 'tn" where
  "rtHostNoLayoutNoTypecast be cv dev input = rtRun be cv dev [RtToDevice, RtToMemoryConfig] input"

definition rtHostLayoutNoTypecast ::
  "('tn, 'mc, 'dv) backend \<Rightarrow> 'mc layout_converter \<Rightarrow> 'dv option \<Rightarrow> 'tn \<Rightarrow> rt_error + 'tn" where
  "rtHostLayoutNoTypecast be cv dev input =
     (let outType = ldDataType (cvOutputDesc cv) in
      if cvShouldUntilize cv \<and> rtCanUntilizeDataTypeOnDevice outType then
        rtRun be cv dev [RtToDevice, RtToLayout, RtToMemoryConfig] input
      else if cvShouldUntilize cv \<and> \<not> rtCanUntilizeDataTypeOnDevice outType then
        rtRun be cv dev [RtToLayout, RtToDevice, RtToMemoryConfig] input
      else if cvShouldTilize cv \<and> rtCanTilizeDataTypeOnDevice outType then
        rtRun be cv dev [RtToDevice, RtToLayout, RtToMemoryConfig] input
      else if cvShouldTilize cv \<and> \<not> rtCanTilizeDataTypeOnDevice outType then
        rtRun be cv dev [RtToLayout, RtToDevice, RtToMemoryConfig] input
      else Inl RtUnreachable)"

definition rtHostNoLayoutTypecast ::
  "('tn, 'mc, 'dv) backend \<Rightarrow> 'mc layout_converter \<Rightarrow> 'dv option \<Rightarrow> 'tn \<Rightarrow> rt_error + 'tn" where
  "rtHostNoLayoutTypecast be cv dev input =
     (if ldLayout (cvOutputDesc cv) = TILE then
        rtRun be cv dev [RtToDevice, RtTypecast, RtToMemoryConfig] input
      else if ldLayout (cvOutputDesc cv) \<noteq> TILE then
        rtRun be cv dev [RtTypecast, RtToDevice, RtToMemoryConfig] input
      else Inl RtUnreachable)"

definition rtHostLayoutTypecast ::
  "('tn, 'mc, 'dv) backend \<Rightarrow> 'mc layout_converter \<Rightarrow> 'dv option \<Rightarrow> 'tn \<Rightarrow> rt_error + 'tn" where
  "rtHostLayoutTypecast be cv dev input =
     (let outType = ldDataType (cvOutputDesc cv); inType = ldDataType (cvInputDesc cv) in
      if cvShouldUntilize cv \<and> rtCanUntilizeDataTypeOnDevice outType then
        rtRun be cv dev [RtToDevice, RtTypecast, RtToLayout, RtToMemoryConfig] input
      else if cvShouldUntilize cv \<and> \<not> rtCanUntilizeDataTypeOnDevice outType then
        rtRun be cv dev [RtTypecast, RtToLayout, RtToDevice, RtToMemoryConfig] input
      else if cvShouldTilize cv \<and> rtCanTilizeDataTypeOnDevice inType then
        rtRun be cv dev [RtToDevice, RtToLayout, RtTypecast, RtToMemoryConfig] input
      else if cvShouldTilize cv \<and> rtCanTilizeDataTypeOnDevice outType then
        rtRun be cv dev [RtTypecast, RtToDevice, RtToLayout, RtToMemoryConfig] input
      else if cvShouldTilize cv \<and> \<not> rtCanTilizeDataTypeOnDevice inType
              \<and> \<not> rtCanTilizeDataTypeOnDevice outType then
        rtRun be cv dev [RtTypecast, RtToLayout, RtToDevice, RtToMemoryConfig] input
      else Inl RtUnreachable)"

definition convertHostTensorLayout ::
  "('tn, 'mc, 'dv) backend \<Rightarrow> 'mc layout_converter \<Rightarrow> 'dv option \<Rightarrow> 'tn \<Rightarrow> rt_error + 'tn" where
  "convertHostTensorLayout be cv dev input =
     (let shouldToLayout = (cvShouldTilize cv \<or> cvShouldUntilize cv);
          shouldTypecast = cvShouldTypecast cv in
      if \<not> (\<not> cvShouldToDevice cv \<or> dev \<noteq> None) then Inl RtAssert
      else if \<not> shouldToLayout \<and> \<not> shouldTypecast then rtHostNoLayoutNoTypecast be cv dev input
      else if shouldToLayout \<and> \<not> shouldTypecast then rtHostLayoutNoTypecast be cv dev input
      else if \<not> shouldToLayout \<and> shouldTypecast then rtHostNoLayoutTypecast be cv dev input
      else if shouldToLayout \<and> shouldTypecast then rtHostLayoutTypecast be cv dev input
      else Inl RtUnreachable)"

definition rtDeviceNoLayoutNoTypecast ::
  "('tn, 'mc, 'dv) backend \<Rightarrow> 'mc layout_converter \<Rightarrow> 'tn \<Rightarrow> rt_error + 'tn" where
  "rtDeviceNoLayoutNoTypecast be cv input = rtRun be cv None [RtToMemoryConfig, RtFromDevice] input"

definition rtDeviceLayoutNoTypecast ::
  "('tn, 'mc, 'dv) backend \<Rightarrow> 'mc layout_converter \<Rightarrow> 'tn \<Rightarrow> rt_error + 'tn" where
  "rtDeviceLayoutNoTypecast be cv input =
     (let outType = ldDataType (cvOutputDesc cv); inType = ldDataType (cvInputDesc cv);
          fromDevice = cvShouldFromDevice cv in
      if cvShouldUntilize cv \<and> rtCanUntilizeDataTypeOnDevice outType then
        rtRun be cv None [RtToLayout, RtToMemoryConfig, RtFromDevice] input
      else if cvShouldUntilize cv \<and> \<not> rtCanUntilizeDataTypeOnDevice outType \<and> fromDevice then
        rtRun be cv None [RtFromDevice, RtToLayout] input
      else if cvShouldUntilize cv \<and> \<not> rtCanUntilizeDataTypeOnDevice outType \<and> \<not> fromDevice then
        Inl (DeviceUntilizeUnsupported outType)
      else if cvShouldTilize cv \<and> rtCanTilizeDataTypeOnDevice inType then
        rtRun be cv None [RtToLayout, RtToMemoryConfig, RtFromDevice] input
      else if cvShouldTilize cv \<and> \<not> rtCanTilizeDataTypeOnDevice inType \<and> fromDevice then
        rtRun be cv None [RtFromDevice, RtToLayout] input
      else if cvShouldTilize cv \<and> \<not> rtCanTilizeDataTypeOnDevice inType \<and> \<not> fromDevice then
        Inl (DeviceTilizeUnsupported inType)
      else Inl RtUnreachable)"

definition rtDeviceNoLayoutTypecast ::
  "('tn, 'mc, 'dv) backend \<Rightarrow> 'mc layout_converter \<Rightarrow> 'tn \<Rightarrow> rt_error + 'tn" where
  "rtDeviceNoLayoutTypecast be cv input =
     (let tilized = ldIsTilized (cvInputDesc cv); fromDevice = cvShouldFromDevice cv in
      if tilized then rtRun be cv None [RtTypecast, RtToMemoryConfig, RtFromDevice] input
      else if \<not> tilized \<and> fromDevice then rtRun be cv None [RtFromDevice, RtTypecast] input
      else if \<not> tilized \<and> \<not> fromDevice then
        Inl (DeviceTypecastUnsupported (ldLayout (cvInputDesc cv)))
      else Inl RtUnreachable)"

definition rtDeviceLayoutTypecast ::
  "('tn, 'mc, 'dv) backend \<Rightarrow> 'mc layout_converter \<Rightarrow> 'tn \<Rightarrow> rt_error + 'tn" where
  "rtDeviceLayoutTypecast be cv input =
     (let outType = ldDataType (cvOutputDesc cv); inType = ldDataType (cvInputDesc cv);
          fromDevice = cvShouldFromDevice cv in
      if cvShouldUntilize cv \<and> rtCanUntilizeDataTypeOnDevice outType then
        rtRun be cv None [RtTypecast, RtToLayout, RtToMemoryConfig, RtFromDevice] input
      else if cvShouldUntilize cv \<and> \<not> rtCanUntilizeDataTypeOnDevice outType \<and> fromDevice then
        rtRun be cv None [RtTypecast, RtFromDevice, RtToLayout] input
      else if cvShouldUntilize cv \<and> \<not> rtCanUntilizeDataTypeOnDevice outType \<and> \<not> fromDevice then
        Inl (DeviceUntilizeUnsupported outType)
      else if cvShouldTilize cv \<and> rtCanTilizeDataTypeOnDevice inType then
        rtRun be cv None [RtToLayout, RtTypecast, RtToMemoryConfig, RtFromDevice] input
      else if cvShouldTilize cv \<and> \<not> rtCanTilizeDataTypeOnDevice inType \<and> fromDevice then
        rtRun be cv None [RtFromDevice, RtToLayout, RtTypecast] input
      else if cvShouldTilize cv \<and> \<not> rtCanTilizeDataTypeOnDevice inType \<and> \<not> fromDevice then
        Inl (DeviceTilizeUnsupported inType)
      else Inl RtUnreachable)"

definition convertDeviceTensorLayout ::
  "('tn, 'mc, 'dv) backend \<Rightarrow> 'mc layout_converter \<Rightarrow> 'tn \<Rightarrow> rt_error + 'tn" where
  "convertDeviceTensorLayout be cv input =
     (let shouldToLayout = (cvShouldTilize cv \<or> cvShouldUntilize cv);
          shouldTypecast = cvShouldTypecast cv in
      if \<not> shouldToLayout \<and> \<not> shouldTypecast then rtDeviceNoLayoutNoTypecast be cv input
      else if shouldToLayout \<and> \<not> shouldTypecast then rtDeviceLayoutNoTypecast be cv input
      else if \<not> shouldToLayout \<and> shouldTypecast then rtDeviceNoLayoutTypecast be cv input
      else if shouldToLayout \<and> shouldTypecast then rtDeviceLayoutTypecast be cv input
      else Inl RtUnreachable)"

definition convertTensorLayout ::
  "('tn, 'mc, 'dv) backend \<Rightarrow> 'mc layout_converter \<Rightarrow> 'tn \<Rightarrow> 'dv option \<Rightarrow> rt_error + 'tn" where
  "convertTensorLayout be cv input targetDevice =
     (if ldIsOnHost (cvInputDesc cv) then convertHostTensorLayout be cv targetDevice input
      else convertDeviceTensorLayout be cv input)"

section \<open>What the converter relies on\<close>



definition rtBlockFloat :: "rt_dtype \<Rightarrow> bool" where
  "rtBlockFloat t \<longleftrightarrow> t = BFLOAT8_B \<or> t = BFLOAT4_B"


section \<open>Steps on observations\<close>





section \<open>Correctness\<close>

text \<open>Descriptions of real tensors: row major or tile, and a memory config exactly on the
  device.\<close>

definition ld_wf :: "'mc layout_desc \<Rightarrow> bool" where
  "ld_wf d \<longleftrightarrow> (ldLayout d = TILE \<or> ldLayout d = ROW_MAJOR) \<and> (ldIsOnHost d \<longleftrightarrow> ldMemoryConfig d = None)
     \<and> \<not> rtBlockFloat (ldDataType d)"

text \<open>The error the converter raises, if any: a missing device, or one of the device to device
  conversions it does not support.\<close>

definition rtExpectedError :: "'mc layout_desc \<Rightarrow> 'mc layout_desc \<Rightarrow> 'dv option \<Rightarrow> rt_error option" where
  "rtExpectedError i out dev =
     (if ldIsOnHost i then (if ldIsOnDevice out \<and> dev = None then Some RtAssert else None)
      else if ldIsOnHost out then None
      else if ldLayout i = TILE \<and> ldLayout out = ROW_MAJOR \<and> ldDataType out \<noteq> BFLOAT16
        then Some (DeviceUntilizeUnsupported (ldDataType out))
      else if ldLayout i = ROW_MAJOR \<and> ldLayout out = TILE \<and> ldDataType i \<noteq> BFLOAT16
        then Some (DeviceTilizeUnsupported (ldDataType i))
      else if ldLayout i = ROW_MAJOR \<and> ldLayout out = ROW_MAJOR \<and> ldDataType i \<noteq> ldDataType out
        then Some (DeviceTypecastUnsupported ROW_MAJOR)
      else None)"




lemmas rt_device_handlers = convertDeviceTensorLayout_def rtDeviceNoLayoutNoTypecast_def
  rtDeviceLayoutNoTypecast_def rtDeviceNoLayoutTypecast_def rtDeviceLayoutTypecast_def

lemmas rt_can = rtCanTilizeDataTypeOnDevice_def rtCanUntilizeDataTypeOnDevice_def

lemma layoutConverter_sel [simp]:
  "cvInputDesc (layoutConverter i out) = i" "cvOutputDesc (layoutConverter i out) = out"
  "cvShouldTilize (layoutConverter i out) \<longleftrightarrow> ldLayout i = ROW_MAJOR \<and> ldLayout out = TILE"
  "cvShouldUntilize (layoutConverter i out) \<longleftrightarrow> ldLayout i = TILE \<and> ldLayout out = ROW_MAJOR"
  "cvShouldTypecast (layoutConverter i out) \<longleftrightarrow> ldDataType i \<noteq> ldDataType out"
  "cvShouldToDevice (layoutConverter i out) \<longleftrightarrow> ldIsOnHost i \<and> \<not> ldIsOnHost out"
  "cvShouldToMemoryConfig (layoutConverter i out) \<longleftrightarrow>
     \<not> (ldIsOnHost i \<and> \<not> ldIsOnHost out) \<and> \<not> ldIsOnHost out \<and> ldMemoryConfig i \<noteq> ldMemoryConfig out"
  "cvShouldFromDevice (layoutConverter i out) \<longleftrightarrow> \<not> ldIsOnHost i \<and> ldIsOnHost out"
  by (simp_all add: layoutConverter_def Let_def ldIsOnDevice_def)



lemma rt_error:
  assumes "ld_wf i" and "ld_wf out" and "rtExpectedError i out dev = Some e"
  shows "convertTensorLayout be (layoutConverter i out) t dev = Inl e"
proof (cases "ldIsOnHost i")
  case True
  with assms(3) show ?thesis
    by (auto simp: convertTensorLayout_def convertHostTensorLayout_def rtExpectedError_def Let_def
        ldIsOnDevice_def split: if_splits)
next
  case False
  with assms show ?thesis
    unfolding convertTensorLayout_def rt_device_handlers Let_def
    by (auto simp: rtExpectedError_def rt_can ld_wf_def ldIsTilized_def
        simp del: foldE.simps split: if_splits)
qed






end
