(* ===== verification/MetalLayout.thy ===== *)
theory MetalLayout
  imports TTNNLayout
begin

text \<open>
  \<open>MetalLayoutAttr\<close>, the layout of the TT dialect (\<open>TTOpsTypes.cpp\<close>): construction,
  the physical shape and the strides of the logical dimensions, the shard accessors, the
  \<open>with...\<close> copies, the tiled shape and the memref type used at bufferization. The lemmas
  give the strides their meaning: the row-major position of an element in the physical shape
  is the scalar product of its index with \<open>getStride\<close>.
\<close>

datatype oob_val = Undef | Zero | One | InfV | NegInf

record metal_layout_attr =
  mlLinear :: affine_map
  mlOobVal :: oob_val
  mlGrid :: grid_attr
  mlMemref :: "memory_space memref_type"

definition mlElementType :: "metal_layout_attr \<Rightarrow> elem_type" where
  "mlElementType l = memrefElem (mlMemref l)"

definition mlMemorySpace :: "metal_layout_attr \<Rightarrow> memory_space" where
  "mlMemorySpace l = memrefSpace (mlMemref l)"

definition mlIsTiled :: "metal_layout_attr \<Rightarrow> bool" where
  "mlIsTiled l \<longleftrightarrow> isTileElem (mlElementType l)"

definition mlScalarElementType :: "metal_layout_attr \<Rightarrow> scalar_type" where
  "mlScalarElementType l =
     (case mlElementType l of TileElem t \<Rightarrow> dataTypeToElementType (tile_dtype t) | Scalar s \<Rightarrow> s)"

definition metalLayoutGet ::
  "shape \<Rightarrow> elem_type \<Rightarrow> memory_space \<Rightarrow> grid_attr option \<Rightarrow> (int \<times> int) list \<Rightarrow> oob_val
   \<Rightarrow> fault + metal_layout_attr" where
  "metalLayoutGet tensorShape elementType memorySpace gridOpt collapseIntervals oobVal =
     (let g = (case gridOpt of None \<Rightarrow> gridOfRank (length tensorShape) | Some g \<Rightarrow> g) in
      rbind (collapsedLinearAffineMap tensorShape (gridShape g) collapseIntervals) (\<lambda>linear.
      rbind (calculateLogicalShardShape tensorShape linear g) (\<lambda>shardShape.
      rbind (buildMemRef shardShape elementType memorySpace) (\<lambda>memref.
      Inr \<lparr>mlLinear = linear, mlOobVal = oobVal, mlGrid = g, mlMemref = memref\<rparr>))))"

text \<open>\<open>get\<close> from a ranked tensor type: the tensor shape is scaled to scalars when the
  element type of the tensor is a tile.\<close>

definition metalLayoutGetTy ::
  "shape \<Rightarrow> elem_type \<Rightarrow> memory_space \<Rightarrow> grid_attr option \<Rightarrow> (int \<times> int) list \<Rightarrow> oob_val
   \<Rightarrow> fault + metal_layout_attr" where
  "metalLayoutGetTy tyShape tyElem memorySpace g collapseIntervals oobVal =
     rbind (case tyElem of TileElem t \<Rightarrow> getScalarShape t tyShape | Scalar _ \<Rightarrow> Inr tyShape) (\<lambda>tensorShape.
       metalLayoutGet tensorShape tyElem memorySpace g collapseIntervals oobVal)"

text \<open>\<open>get\<close> with the \<open>tiled\<close> flag: \<open>TileType::get\<close> of the scalar element type.\<close>

definition metalLayoutGetTiled ::
  "shape \<Rightarrow> scalar_type \<Rightarrow> grid_attr \<Rightarrow> bool \<Rightarrow> memory_space \<Rightarrow> (int \<times> int) list \<Rightarrow> oob_val
   \<Rightarrow> fault + metal_layout_attr" where
  "metalLayoutGetTiled tyShape elementType g tiled memorySpace collapseIntervals oobVal =
     rbind (if tiled then rbind (tileTypeGet elementType [TILE_HEIGHT, TILE_WIDTH]) (\<lambda>t. Inr (TileElem t))
            else Inr (Scalar elementType)) (\<lambda>e.
       metalLayoutGet tyShape e memorySpace (Some g) collapseIntervals oobVal)"

definition getPhysicalShape :: "metal_layout_attr \<Rightarrow> shape \<Rightarrow> shape" where
  "getPhysicalShape l logicalShape =
     map (\<lambda>i. aeval (map (\<lambda>e. e - 1) logicalShape) [] (results (mlLinear l) ! i) + 1)
       [0..<length (gridShape (mlGrid l))]"

text \<open>\<open>getStride\<close>: for each physical dimension from the innermost, every logical dimension
  its expression depends on gets the difference of the expression between the unit point and
  the origin, times the number of elements of the inner physical dimensions.\<close>

definition strideOf :: "nat \<Rightarrow> aexpr \<Rightarrow> nat \<Rightarrow> int" where
  "strideOf n e j =
     aeval ((replicate n 0)[j := 1]) [] e - aeval (replicate n 0) [] e"

definition strideStep :: "nat \<Rightarrow> shape \<Rightarrow> affine_map \<Rightarrow> nat \<Rightarrow> int list \<times> int \<Rightarrow> int list \<times> int" where
  "strideStep n physicalShape linear i = (\<lambda>(stride, prevDimElems).
     let e = results linear ! i in
     (map (\<lambda>j. if isFunctionOfDim e j then prevDimElems * strideOf n e j else stride ! j) [0..<n],
      prevDimElems * physicalShape ! i))"

definition getStride :: "metal_layout_attr \<Rightarrow> shape \<Rightarrow> int list" where
  "getStride l logicalShape =
     (let n = length logicalShape; linear = mlLinear l in
      fst (fold (strideStep n (getPhysicalShape l logicalShape) linear)
             (rev [0..<numResults linear]) (replicate n 0, 1)))"

definition mlShardShape :: "metal_layout_attr \<Rightarrow> bool \<Rightarrow> fault + shape" where
  "mlShardShape l convertTileToScalar =
     (case mlElementType l of
        TileElem t \<Rightarrow> (if convertTileToScalar then getScalarShape t (memrefShape (mlMemref l))
                      else Inr (memrefShape (mlMemref l)))
      | Scalar _ \<Rightarrow> Inr (memrefShape (mlMemref l)))"

definition mlElementSizeBytes :: "metal_layout_attr \<Rightarrow> fault + int" where
  "mlElementSizeBytes l = getElementSizeBytes (mlElementType l)"

definition mlMemrefSizeBytes :: "metal_layout_attr \<Rightarrow> fault + 64 word" where
  "mlMemrefSizeBytes l =
     rbind (mlElementSizeBytes l) (\<lambda>size.
       Inr (foldl (\<lambda>acc d. acc * of_int d) (of_int size) (memrefShape (mlMemref l))))"

text \<open>\<open>getShardStride\<close>: the last stride is the element size, each other one the product of
  the next extent and the next stride.\<close>

fun shardStrides :: "shape \<Rightarrow> int \<Rightarrow> int list" where
  "shardStrides [] esize = []"
| "shardStrides [d] esize = [esize]"
| "shardStrides (d # d' # s) esize = (let rest = shardStrides (d' # s) esize in d' * hd rest # rest)"

definition getShardStride :: "metal_layout_attr \<Rightarrow> fault + int list" where
  "getShardStride l =
     rbind (mlShardShape l False) (\<lambda>shardShape.
     rbind (assertE SiteRank (shardShape \<noteq> [])) (\<lambda>_.
     rbind (mlElementSizeBytes l) (\<lambda>size. Inr (shardStrides shardShape size))))"

definition mlWithGrid ::
  "metal_layout_attr \<Rightarrow> shape \<Rightarrow> grid_attr \<Rightarrow> (int \<times> int) list \<Rightarrow> fault + metal_layout_attr" where
  "mlWithGrid l tensorShape g collapseIntervals =
     metalLayoutGet tensorShape (mlElementType l) (mlMemorySpace l) (Some g) collapseIntervals (mlOobVal l)"

definition mlWithElementType :: "metal_layout_attr \<Rightarrow> elem_type \<Rightarrow> fault + metal_layout_attr" where
  "mlWithElementType l elementType =
     rbind (mlShardShape l True) (\<lambda>s.
     rbind (buildMemRef s elementType (mlMemorySpace l)) (\<lambda>memref. Inr (l\<lparr>mlMemref := memref\<rparr>)))"

definition mlWithMemorySpace :: "metal_layout_attr \<Rightarrow> memory_space \<Rightarrow> fault + metal_layout_attr" where
  "mlWithMemorySpace l memorySpace =
     rbind (mlShardShape l True) (\<lambda>s.
     rbind (buildMemRef s (mlElementType l) memorySpace) (\<lambda>memref. Inr (l\<lparr>mlMemref := memref\<rparr>)))"

definition mlWithShardShape :: "metal_layout_attr \<Rightarrow> shape \<Rightarrow> fault + metal_layout_attr" where
  "mlWithShardShape l shardShape =
     rbind (buildMemRef shardShape (mlElementType l) (mlMemorySpace l)) (\<lambda>memref.
       Inr (l\<lparr>mlMemref := memref\<rparr>))"

definition mlTiledShape :: "metal_layout_attr \<Rightarrow> shape \<Rightarrow> fault + shape" where
  "mlTiledShape l tensorShape =
     (case mlElementType l of
        Scalar _ \<Rightarrow> Inl (AssertFailed SiteTileElement)
      | TileElem t \<Rightarrow>
          (let linear = mlLinear l; rank = numResults linear in
           rbind (assertE SiteRank (2 \<le> rank)) (\<lambda>_.
             let y = results linear ! (rank - 2); x = results linear ! (rank - 1);
                 tbl = [(y, AFloorDiv y (AConst (getHeight t))),
                        (x, AFloorDiv x (AConst (getWidth t)))]
             in Inr (evalShape (linear\<lparr>results := map (areplace tbl) (results linear)\<rparr>) tensorShape))))"

definition getIdentityTileLinearMap :: "metal_layout_attr \<Rightarrow> fault + affine_map" where
  "getIdentityTileLinearMap l =
     rbind (assertE SiteTileElement (mlIsTiled l)) (\<lambda>_. Inr (identityMap (numResults (mlLinear l))))"

definition replaceMemoryMapSymbolsWithShardShape ::
  "metal_layout_attr \<Rightarrow> affine_map \<Rightarrow> fault + affine_map" where
  "replaceMemoryMapSymbolsWithShardShape l physicalMemoryMap =
     rbind (mlShardShape l False) (\<lambda>shardShape.
     rbind (assertE SiteRank (numSyms physicalMemoryMap = length shardShape)) (\<lambda>_.
     Inr \<lparr>numDims = numDims physicalMemoryMap, numSyms = 0,
          results = map (asubst (map ADim [0..<numDims physicalMemoryMap]) (map AConst shardShape))
                      (results physicalMemoryMap)\<rparr>))"

definition projectOnto :: "metal_layout_attr \<Rightarrow> affine_map \<Rightarrow> affine_map \<Rightarrow> fault + affine_map" where
  "projectOnto l linearMap physicalMemoryMap =
     rbind (assertE SiteRank (length (gridShape (mlGrid l)) = numDims physicalMemoryMap)) (\<lambda>_.
     rbind (assertE SiteRank (numResults (mlLinear l) = numDims physicalMemoryMap)) (\<lambda>_.
     rbind (replaceMemoryMapSymbolsWithShardShape l physicalMemoryMap) (\<lambda>m.
     Inr (mapCompose m linearMap))))"

text \<open>A memref on the device: its shape is the grid followed by the shard, its layout either
  the strides of a shard with a number of buffers or a view.\<close>

datatype device_layout = ShardLayout "int list" nat | ViewLayout nat | OtherLayout

record device_memref =
  dmShape :: shape
  dmElem :: elem_type
  dmLayout :: device_layout
  dmSpace :: memory_space

definition metalBufferType :: "metal_layout_attr \<Rightarrow> bool \<Rightarrow> fault + device_memref" where
  "metalBufferType l isView =
     rbind (mlShardShape l False) (\<lambda>shardShape.
       let fullMemrefShape = gridShape (mlGrid l) @ shardShape in
       rbind (if isView then Inr (ViewLayout (length fullMemrefShape))
              else rbind (getShardStride l) (\<lambda>stride. Inr (ShardLayout stride 1))) (\<lambda>layoutAttr.
       Inr \<lparr>dmShape = fullMemrefShape, dmElem = mlElementType l, dmLayout = layoutAttr,
            dmSpace = mlMemorySpace l\<rparr>))"

section \<open>Shard strides are the row-major strides\<close>

lemma shardStrides_eq: "shardStrides s esize = fst (stridesLoop s esize)"
proof (induction s esize rule: shardStrides.induct)
  case (3 d d' s esize)
  then show ?case by (simp add: stridesLoop_Cons_fst Let_def mult.commute mult.left_commute)
qed (simp_all add: stridesLoop_Cons_fst)

section \<open>Strides of the logical dimensions\<close>

definition dot :: "int list \<Rightarrow> int list \<Rightarrow> int" where
  "dot xs ys = sum_list (map2 (*) xs ys)"

lemma lin_dot: "length idx = length s \<Longrightarrow> lin s idx = dot idx (fst (stridesLoop s 1))"
proof (induction s arbitrary: idx)
  case (Cons d s)
  then obtain i idx' where "idx = i # idx'" "length idx' = length s" by (cases idx) auto
  with Cons.IH[of idx'] show ?case by (simp add: dot_def stridesLoop_Cons_fst)
qed (simp add: dot_def)

lemma lin_zero: "lin s (replicate (length s) 0) = 0"
  by (induction s) simp_all

lemma lin_unit: "j < length s \<Longrightarrow> lin s ((replicate (length s) 0)[j := 1]) = fst (stridesLoop s 1) ! j"
proof (induction s arbitrary: j)
  case (Cons d s)
  then show ?case
    by (cases j) (simp_all add: lin_zero stridesLoop_Cons_fst)
qed simp

lemma collapse_unit:
  assumes "positive_shape s" and "2 \<le> length s" and "prod_list (tl (butlast s)) < 2 ^ 31" and "j < length s - 1"
  shows "strideOf (length s) (fst (collapseDims s 0 (length s - 1))) j = fst (stridesLoop (butlast s) 1) ! j"
proof -
  let ?n = "length s"
  have ev: "aeval idx [] (fst (collapseDims s 0 (?n - 1))) = lin (butlast s) (butlast idx)"
    if "length idx = ?n" for idx
    using collapseDims_eval[OF assms(1), of "?n - 1" 0 idx] that assms(2,3)
    by (simp add: butlast_conv_take drop_Suc)
  have z: "butlast (replicate ?n (0::int)) = replicate (length (butlast s)) 0"
    by (simp add: butlast_conv_take)
  have u: "butlast ((replicate ?n (0::int))[j := 1]) = (replicate (length (butlast s)) 0)[j := 1]"
    using assms(2,4) by (simp add: butlast_conv_take take_update_swap)
  have "j < length (butlast s)" using assms(4) by simp
  from lin_unit[OF this] show ?thesis
    by (simp only: strideOf_def ev length_list_update length_replicate z u lin_zero diff_0_right)
qed

lemma getPhysicalShape_linear2d:
  assumes "positive_shape s" and "2 \<le> length s" and "prod_list (tl (butlast s)) < 2 ^ 31"
    and "mlLinear l = linear2d s" and "length (gridShape (mlGrid l)) = 2"
  shows "getPhysicalShape l s = [prod_list (butlast s), last s]"
proof -
  have "getPhysicalShape l s = evalShape (linear2d s) s"
    by (simp add: getPhysicalShape_def assms(4,5) evalShape_def mapEval_def linear2d_def upt_Suc_Cons
        numeral_2_eq_2)
  with evalShape_linear2d[OF assms(1-3)] show ?thesis by simp
qed

lemma last_stride: "s \<noteq> [] \<Longrightarrow> fst (stridesLoop s 1) ! (length s - 1) = 1"
  by (simp add: stridesLoop_eq)

lemma butlast_stride:
  assumes "s \<noteq> []" and "j < length s - 1"
  shows "last s * fst (stridesLoop (butlast s) 1) ! j = fst (stridesLoop s 1) ! j"
proof -
  have "prod_list (drop (Suc j) s) = prod_list (drop (Suc j) (butlast s @ [last s]))"
    using assms(1) by simp
  also have "\<dots> = prod_list (drop (Suc j) (butlast s)) * last s"
    using assms(2) by (subst drop_append) simp
  finally have "last s * prod_list (drop (Suc j) (butlast s)) = prod_list (drop (Suc j) s)" by simp
  moreover have "j < length s" using assms(2) by simp
  ultimately show ?thesis using assms(2) by (simp add: stridesLoop_eq)
qed

text \<open>
  C10: for the layout of a tensor with the default collapse interval on a two-dimensional grid,
  \<open>MetalLayoutAttr::getStride\<close> is the list of row-major strides of the tensor itself, so
  the row-major position of an element in the collapsed physical shape is the scalar product
  of its index with the strides.
\<close>

theorem getStride_row_major:
  assumes "positive_shape s" and "2 \<le> length s" and "prod_list (tl (butlast s)) < 2 ^ 31"
    and "length (gridShape g) = 2"
    and "metalLayoutGet s e sp (Some g) defaultIntervals oob = Inr l"
  shows "getStride l s = fst (stridesLoop s 1)
    \<and> (\<forall>idx. index_of s idx \<longrightarrow>
         lin (getPhysicalShape l s) (mapEval (mlLinear l) idx) = dot idx (getStride l s))"
proof -
  let ?n = "length s"
  have lin: "mlLinear l = linear2d s" and gr: "length (gridShape (mlGrid l)) = 2"
    using assms(5) collapsed_default[OF assms(2,4)] assms(4)
    by (auto simp: metalLayoutGet_def Let_def result_simps)
  have ps: "getPhysicalShape l s = [prod_list (butlast s), last s]"
    by (rule getPhysicalShape_linear2d[OF assms(1-3) lin gr])
  have ne: "s \<noteq> []" using assms(2) by auto
  have f1: "isFunctionOfDim (fst (collapseDims s 0 (?n - 1))) j \<longleftrightarrow> j < ?n - 1" for j
    by (simp add: collapseDims_function_of)
  have s1: "strideOf ?n (ADim (?n - 1)) (?n - 1) = 1"
    using ne by (simp add: strideOf_def)
  have st: "getStride l s =
      map (\<lambda>j. if j < ?n - 1 then last s * strideOf ?n (fst (collapseDims s 0 (?n - 1))) j
               else if j = ?n - 1 then 1 else 0) [0..<?n]"
  proof -
    have "getStride l s = fst (strideStep ?n [prod_list (butlast s), last s] (linear2d s) 0
        (strideStep ?n [prod_list (butlast s), last s] (linear2d s) 1 (replicate ?n 0, 1)))"
      unfolding getStride_def Let_def lin ps by (simp add: upt_Suc_Cons numeral_2_eq_2)
    also have "\<dots> = map (\<lambda>j. if j < ?n - 1 then last s * strideOf ?n (fst (collapseDims s 0 (?n - 1))) j
               else if j = ?n - 1 then 1 else 0) [0..<?n]"
      using f1 s1 by (auto simp: strideStep_def linear2d_def Let_def simp del: One_nat_def)
    finally show ?thesis .
  qed
  have len: "length (fst (stridesLoop s 1)) = ?n" by (simp add: stridesLoop_eq)
  have eq: "getStride l s = fst (stridesLoop s 1)"
  proof (rule nth_equalityI)
    show "length (getStride l s) = length (fst (stridesLoop s 1))" by (simp add: st len)
    fix j assume "j < length (getStride l s)"
    then have j: "j < ?n" by (simp add: st)
    show "getStride l s ! j = fst (stridesLoop s 1) ! j"
    proof (cases "j < ?n - 1")
      case True
      then show ?thesis
        using j butlast_stride[OF ne True] collapse_unit[OF assms(1-3) True] by (simp add: st)
    next
      case False
      then have "j = ?n - 1" using j by simp
      then show ?thesis using j last_stride[OF ne] by (simp add: st)
    qed
  qed
  have pos: "lin (getPhysicalShape l s) (mapEval (mlLinear l) idx) = dot idx (getStride l s)"
    if "index_of s idx" for idx
  proof -
    have li: "length idx = ?n" using that by (rule index_of_length)
    have "lin s idx = lin (butlast s) (butlast idx) * last s + last idx"
    proof -
      have "lin (s1 @ [d]) (i1 @ [i]) = lin s1 i1 * d + i" if "length i1 = length s1" for s1 i1 d i
        using that by (induction s1 arbitrary: i1) (auto simp: length_Suc_conv algebra_simps)
      from this[of "butlast idx" "butlast s" "last s" "last idx"] ne li show ?thesis
        by (metis append_butlast_last_id length_butlast length_greater_0_conv)
    qed
    then show ?thesis
      using mapEval_linear2d[OF assms(1,2) li assms(3)] lin_dot[OF li] eq by (simp add: ps lin)
  qed
  with eq show ?thesis by blast
qed

lemma getStride_row_major_witness:
  "\<exists>l. metalLayoutGet [2, 3, 64, 128] (Scalar (FloatType 32)) DeviceL1 (Some (gridOfShape [2, 4])) defaultIntervals Undef = Inr l
    \<and> getStride l [2, 3, 64, 128] = [24576, 8192, 128, 1]"
proof -
  obtain l where l: "metalLayoutGet [2, 3, 64, 128] (Scalar (FloatType 32)) DeviceL1
      (Some (gridOfShape [2, 4])) defaultIntervals Undef = Inr l"
    using collapsed_default[of "[2, 3, 64, 128]" "[2, 4]"]
    by (simp add: metalLayoutGet_def calculateLogicalShardShape_def buildMemRef_def)
  have "getStride l [2, 3, 64, 128] = fst (stridesLoop [2, 3, 64, 128] 1)"
    using getStride_row_major[OF _ _ _ _ l] by simp
  with l show ?thesis by (simp add: stridesLoop_eq upt_Suc_Cons numeral_eq_Suc)
qed

end
