(* ===== verification/Device.thy ===== *)
theory Device
  imports MetalLayout
begin

text \<open>
  The device of the TT dialect (\<open>TTOpsTypes.cpp\<close>): the chip and system descriptions with
  their defaults and alignments, \<open>ShardLayoutAttr\<close>, the worker grid of a mesh of chips,
  the L1 and DRAM memory maps, \<open>DeviceAttr::get\<close>, the memory map and sizes of a memref, and
  the verifier. The lemmas say which chip a virtual core belongs to, that the L1 map gives
  every element of a memref its own bytes, and where the core and DRAM formulas collide.
\<close>

section \<open>System descriptions\<close>

record chip_desc =
  cdGrid :: shape
  cdCoordTranslationOffsets :: shape
  cdL1Size :: "32 word"
  cdNumDramChannels :: "32 word"
  cdDramChannelSize :: "32 word"
  cdNocL1AddressAlignBytes :: "32 word"
  cdPcieAddressAlignBytes :: "32 word"
  cdNocDRAMAddressAlignBytes :: "32 word"
  cdL1UnreservedBase :: "32 word"
  cdEriscL1UnreservedBase :: "32 word"
  cdDramUnreservedBase :: "32 word"
  cdDramUnreservedEnd :: "32 word"
  cdDramCores :: "(int \<times> int) list"
  cdSupportedDataTypes :: "data_type list"
  cdSupportedTileSizes :: "(int \<times> int) list"
  cdNumCBs :: "32 word"
  cdNumComputeThreads :: "32 word"
  cdNumDatamovementThreads :: "32 word"

record system_desc =
  sdChipDescs :: "chip_desc list"
  sdChipDescIndices :: "nat list"
  sdChipCapabilities :: "string list list"
  sdChipCoords :: "(int \<times> int \<times> int \<times> int) list"
  sdChipChannels :: "(int \<times> shape \<times> int \<times> shape) list"

definition getScratchL1RegionSize :: "chip_desc \<Rightarrow> 32 word" where
  "getScratchL1RegionSize c = push_bit 12 1"

definition getScratchL1RegionAddress :: "chip_desc \<Rightarrow> 32 word" where
  "getScratchL1RegionAddress c = cdL1Size c - getScratchL1RegionSize c"

definition defaultChipDesc :: chip_desc where
  "defaultChipDesc =
     \<lparr>cdGrid = [8, 8], cdCoordTranslationOffsets = [18, 18], cdL1Size = 1499136,
      cdNumDramChannels = 12, cdDramChannelSize = push_bit 30 1, cdNocL1AddressAlignBytes = 16,
      cdPcieAddressAlignBytes = 32, cdNocDRAMAddressAlignBytes = 32, cdL1UnreservedBase = 1024,
      cdEriscL1UnreservedBase = 1024, cdDramUnreservedBase = 1024,
      cdDramUnreservedEnd = push_bit 30 1,
      cdDramCores = concat (map (\<lambda>x. map (\<lambda>y. (y + 8, x)) [0, 1, 2]) [0, 1, 2, 3]),
      cdSupportedDataTypes = [Float32, Float16, BFloat16, BFP_Float8, BFP_BFloat8, BFP_Float4,
        BFP_BFloat4, BFP_Float2, BFP_BFloat2, UInt32, UInt16, UInt8, Int32],
      cdSupportedTileSizes = [(4, 16), (16, 16), (32, 16), (4, 32), (16, 32), (32, 32)],
      cdNumCBs = 32, cdNumComputeThreads = 1, cdNumDatamovementThreads = 2\<rparr>"

definition systemDescGetDefault :: "shape \<Rightarrow> system_desc" where
  "systemDescGetDefault meshShape =
     (let numberOfChips = foldl (*) 1 meshShape in
      \<lparr>sdChipDescs = replicate (nat numberOfChips) defaultChipDesc,
       sdChipDescIndices = [0..<nat numberOfChips],
       sdChipCapabilities = replicate (nat numberOfChips) [''pcie'', ''host_mmio''],
       sdChipCoords = [(0, 0, 0, 0)],
       sdChipChannels =
         (if numberOfChips \<noteq> 1
          then map (\<lambda>i. (i, [0, 0], (i + 1) mod numberOfChips, [0, 0])) [0..numberOfChips - 1]
          else [])\<rparr>)"

definition chipAt :: "system_desc \<Rightarrow> nat \<Rightarrow> fault + chip_desc" where
  "chipAt sd chipIndex = at (sdChipDescs sd) chipIndex"

definition getAddressAlignBytesFor :: "system_desc \<Rightarrow> memory_space \<Rightarrow> nat \<Rightarrow> fault + 32 word" where
  "getAddressAlignBytesFor sd memorySpace chipIndex =
     (case memorySpace of
        DeviceL1 \<Rightarrow> rbind (chipAt sd chipIndex) (\<lambda>c. Inr (cdNocL1AddressAlignBytes c))
      | DeviceDRAM \<Rightarrow> rbind (chipAt sd chipIndex) (\<lambda>c. Inr (cdNocDRAMAddressAlignBytes c))
      | SystemMMIO \<Rightarrow> rbind (chipAt sd chipIndex) (\<lambda>c. Inr (cdPcieAddressAlignBytes c))
      | System \<Rightarrow> Inr 1)"

text \<open>The overload without a memory space takes the maximum over chip 0, the default argument
  of the three accessors; its own \<open>chipIndex\<close> is not used.\<close>

definition getAddressAlignBytes :: "system_desc \<Rightarrow> nat \<Rightarrow> fault + 32 word" where
  "getAddressAlignBytes sd chipIndex =
     rbind (chipAt sd 0) (\<lambda>c.
       Inr (max (max (cdNocL1AddressAlignBytes c) (cdNocDRAMAddressAlignBytes c))
                (cdPcieAddressAlignBytes c)))"

section \<open>Shard layouts\<close>

definition shardLayoutGet :: "shape \<Rightarrow> int \<Rightarrow> nat \<Rightarrow> fault + device_layout" where
  "shardLayoutGet shp elementSize buffers =
     rbind (calculateStrides shp elementSize) (\<lambda>stride. Inr (ShardLayout stride buffers))"

definition memrefShardShape :: "device_memref \<Rightarrow> fault + shape" where
  "memrefShardShape m =
     (let n = length (dmShape m) in
      rbind (assertE SiteRank (n mod 2 = 0)) (\<lambda>_. Inr (drop (n div 2) (dmShape m))))"

definition memrefGridShape :: "device_memref \<Rightarrow> fault + shape" where
  "memrefGridShape m =
     (let n = length (dmShape m) in
      rbind (assertE SiteRank (n mod 2 = 0)) (\<lambda>_. Inr (take (n div 2) (dmShape m))))"

definition shardLayoutOfMemref :: "device_memref \<Rightarrow> nat \<Rightarrow> fault + device_layout" where
  "shardLayoutOfMemref m buffers =
     rbind (case dmLayout m of OtherLayout \<Rightarrow> Inr (dmShape m) | _ \<Rightarrow> memrefShardShape m) (\<lambda>shp.
     rbind (getElementSizeBytes (dmElem m)) (\<lambda>esize. shardLayoutGet shp esize buffers))"

definition shardByteOffset :: "int list \<Rightarrow> aexpr" where
  "shardByteOffset stride =
     (let rank = length stride in
      fold (\<lambda>i acc. AAdd (AMul (ADim (rank + i)) (AConst (stride ! i))) acc)
        (rev [0..<rank]) (AConst 0))"

definition shardAffineMap :: "int list \<Rightarrow> affine_map" where
  "shardAffineMap stride =
     (let rank = length stride in
      \<lparr>numDims = rank * 2, numSyms = 0,
       results = map ADim [0..<rank] @ [shardByteOffset stride]\<rparr>)"

section \<open>Worker grid\<close>

definition padMesh :: "shape \<Rightarrow> shape \<Rightarrow> shape" where
  "padMesh chipGrid meshShape = meshShape @ replicate (length chipGrid - length meshShape) 1"

definition virtualGridOf :: "shape \<Rightarrow> shape \<Rightarrow> shape" where
  "virtualGridOf chipGrid mesh =
     map2 (*) (replicate (length mesh - length chipGrid) 1 @ chipGrid) mesh"

text \<open>The outer mesh dimensions: \<open>for (i = meshShape.size() - 3; i >= 0; --i)\<close>; the stride
  is an \<open>int\<close>.\<close>

definition outerMesh :: "shape \<Rightarrow> aexpr \<Rightarrow> int \<Rightarrow> aexpr" where
  "outerMesh mesh idx0 stride0 =
     fst (fold (\<lambda>i (idx, meshStride).
            (AAdd (AMul (ADim i) (AConst meshStride)) idx, wrap32 (meshStride * mesh ! i)))
          (rev [0..<length mesh - 2]) (idx0, stride0))"

definition createWorkerGrid :: "shape \<Rightarrow> shape \<Rightarrow> fault + grid_attr" where
  "createWorkerGrid chipGrid meshShapeRef =
     rbind (assertE SiteChips (length chipGrid = 2)) (\<lambda>_.
       let meshShape = padMesh chipGrid meshShapeRef;
           virtualGrid = virtualGridOf chipGrid meshShape;
           n = length meshShape;
           meshX = meshShape ! (n - 1); meshY = meshShape ! (n - 2);
           (idx1, coreX) =
             (if 1 < meshX
              then (AAdd (AFloorDiv (ADim (n - 1)) (AConst (chipGrid ! 1))) (AConst 0),
                    AMod (ADim (n - 1)) (AConst meshX))
              else (AConst 0, ADim (n - 1)));
           stride1 = wrap32 (1 * meshX);
           (idx2, coreY) =
             (if 1 < meshY
              then (AAdd (AMul (AFloorDiv (ADim (n - 2)) (AConst (chipGrid ! 0))) (AConst stride1)) idx1,
                    AMod (ADim (n - 2)) (AConst meshY))
              else (idx1, ADim (n - 2)));
           stride2 = wrap32 (stride1 * meshY);
           idx3 = outerMesh meshShape idx2 stride2
       in Inr \<lparr>gridShape = virtualGrid,
               gridMapping = \<lparr>numDims = length virtualGrid, numSyms = 0,
                              results = [idx3, coreY, coreX]\<rparr>\<rparr>)"

section \<open>Memory maps\<close>

definition createL1Map :: "grid_attr \<Rightarrow> affine_map" where
  "createL1Map workerGrid =
     (let workerMap = gridMapping workerGrid; n = numDims workerMap in
      \<lparr>numDims = n + 1, numSyms = 1, results = results workerMap @ [AAdd (ASym 0) (ADim n)]\<rparr>)"

text \<open>The linear address: \<open>addr = dim * gridVolume * shardVolume + addr\<close>, from the last
  grid dimension. Symbols: the grid dimensions, the shard dimensions, the page size and the
  base address.\<close>

definition shardVolumeExpr :: "nat \<Rightarrow> aexpr" where
  "shardVolumeExpr n = fold (\<lambda>i acc. AMul (ASym (n + i)) acc) (rev [0..<n]) (AConst 1)"

definition dramAddr :: "nat \<Rightarrow> aexpr" where
  "dramAddr n = fst (fold (\<lambda>i (addr, gridVolume).
       (AAdd (AMul (AMul (ADim i) gridVolume) (shardVolumeExpr n)) addr, AMul gridVolume (ASym i)))
     (rev [0..<n]) (ADim n, AConst 1))"

definition createDramMap :: "grid_attr \<Rightarrow> nat \<Rightarrow> fault + affine_map" where
  "createDramMap workerGrid numDramCores =
     (let workerMap = gridMapping workerGrid; n = numDims workerMap in
      rbind (assertE SiteChips (numResults workerMap = 3)) (\<lambda>_.
        let addr = dramAddr n; pageSize = ASym (n * 2); baseAddress = ASym (n * 2 + 1);
            cores = AConst (int numDramCores)
        in Inr \<lparr>numDims = n + 1, numSyms = n * 2 + 2,
                results = [AConst 0, AConst 0,
                  AMod (AFloorDiv addr pageSize) cores,
                  AAdd (AAdd (AFloorDiv addr (AMul pageSize cores)) (AMod addr pageSize)) baseAddress]\<rparr>))"

definition createDramMapForChips :: "grid_attr \<Rightarrow> system_desc \<Rightarrow> nat list \<Rightarrow> fault + affine_map" where
  "createDramMapForChips workerGrid sd chipIds =
     rbind (chipAt sd 0) (\<lambda>first.
     rbind (assertE SiteChips (cdDramCores first \<noteq> [])) (\<lambda>_.
     rbind (mapE (\<lambda>chipId. rbind (chipAt sd chipId) (\<lambda>c.
              assertE SiteChips (length (cdDramCores c) = length (cdDramCores first)))) chipIds) (\<lambda>_.
     createDramMap workerGrid (length (cdDramCores first)))))"

section \<open>Devices\<close>

record device_attr =
  dvWorkerGrid :: grid_attr
  dvL1Map :: affine_map
  dvDramMap :: affine_map
  dvMeshShape :: shape
  dvChipIds :: "nat list"

definition minChipGrid :: "shape \<Rightarrow> chip_desc \<Rightarrow> fault + shape" where
  "minChipGrid chipGrid chip =
     rbind (assertE SiteChips (length (cdGrid chip) = 2)) (\<lambda>_.
       Inr [min (chipGrid ! 0) (cdGrid chip ! 0), min (chipGrid ! 1) (cdGrid chip ! 1)])"

definition deviceGet :: "system_desc \<Rightarrow> shape \<Rightarrow> nat list \<Rightarrow> fault + device_attr" where
  "deviceGet sd meshShape chipIds =
     rbind (assertE SiteChips (chipIds \<noteq> [])) (\<lambda>_.
     rbind (chipAt sd (hd chipIds)) (\<lambda>first.
     rbind (assertE SiteChips (length (cdGrid first) = 2)) (\<lambda>_.
     rbind (foldE (\<lambda>chipId g. rbind (chipAt sd chipId) (minChipGrid g)) chipIds (cdGrid first)) (\<lambda>chipGrid.
     rbind (createWorkerGrid chipGrid meshShape) (\<lambda>workerGrid.
     rbind (createDramMapForChips workerGrid sd chipIds) (\<lambda>dramMap.
     Inr \<lparr>dvWorkerGrid = workerGrid, dvL1Map = createL1Map workerGrid, dvDramMap = dramMap,
          dvMeshShape = meshShape, dvChipIds = chipIds\<rparr>))))))"

definition deviceGetMesh :: "system_desc \<Rightarrow> shape \<Rightarrow> fault + device_attr" where
  "deviceGetMesh sd meshShape =
     (let numChips = volume meshShape 1 in
      rbind (assertE SiteChips (numChips \<le> int (length (sdChipDescIndices sd)))) (\<lambda>_.
        deviceGet sd meshShape [0..<nat numChips]))"

definition replaceAffineMapSymbols :: "affine_map \<Rightarrow> int list \<Rightarrow> fault + affine_map" where
  "replaceAffineMapSymbols m symbols =
     rbind (assertE SiteOther (numSyms m = length symbols)) (\<lambda>_.
       Inr \<lparr>numDims = numDims m, numSyms = 0,
            results = map (asubst (map ADim [0..<numDims m]) (map AConst symbols)) (results m)\<rparr>)"

definition getMemoryMap ::
  "device_attr \<Rightarrow> device_memref \<Rightarrow> int \<Rightarrow> affine_map option \<Rightarrow> int \<Rightarrow> fault + affine_map" where
  "getMemoryMap dev m pageSize view baseOffset =
     (case dmLayout m of
        ShardLayout stride buffers \<Rightarrow>
          (let layoutMap = shardAffineMap stride;
               affineMap = (case view of None \<Rightarrow> layoutMap | Some v \<Rightarrow> mapCompose layoutMap v) in
           case dmSpace m of
             DeviceL1 \<Rightarrow>
               rbind (replaceAffineMapSymbols (dvL1Map dev) [baseOffset]) (\<lambda>mm.
                 Inr (mapCompose mm affineMap))
           | DeviceDRAM \<Rightarrow>
               rbind (assertE SiteOther (0 < pageSize)) (\<lambda>_.
               rbind (replaceAffineMapSymbols (dvDramMap dev) (dmShape m @ [pageSize, baseOffset])) (\<lambda>mm.
                 Inr (mapCompose mm affineMap)))
           | _ \<Rightarrow> Inl Unreachable)
      | _ \<Rightarrow> Inl (AssertFailed SiteOther))"

text \<open>A local memref has no layout of ours; \<open>includeBuffers\<close> on it dereferences null.\<close>

definition getMemrefSizeBytes :: "device_memref \<Rightarrow> int \<Rightarrow> bool \<Rightarrow> fault + int" where
  "getMemrefSizeBytes m pageSize includeBuffers =
     rbind (assertE SiteOther (pageSize = 0)) (\<lambda>_.
     rbind (getElementSizeBytes (dmElem m)) (\<lambda>elementSizeBytes.
     case dmLayout m of
       ViewLayout n \<Rightarrow> Inl (AssertFailed SiteOther)
     | ShardLayout stride buffers \<Rightarrow>
         rbind (memrefShardShape m) (\<lambda>shardShape.
         Inr (volume shardShape (elementSizeBytes * (if includeBuffers then int buffers else 1))))
     | OtherLayout \<Rightarrow>
         (if includeBuffers then Inl NullDeref else Inr (volume (dmShape m) elementSizeBytes))))"

definition getMemrefCBPageSizeBytes :: "device_memref \<Rightarrow> fault + int" where
  "getMemrefCBPageSizeBytes m =
     (case dmElem m of
        TileElem t \<Rightarrow> tileSizeBytes t
      | Scalar s \<Rightarrow> rbind (tileTypeGet s [TILE_HEIGHT, TILE_WIDTH]) tileSizeBytes)"

definition getMemrefCBNumPages :: "device_memref \<Rightarrow> fault + int" where
  "getMemrefCBNumPages m =
     rbind (getMemrefSizeBytes m 0 False) (\<lambda>sizeBytes.
     rbind (getMemrefCBPageSizeBytes m) (\<lambda>pageSize.
     rbind (assertE SiteOther (sizeBytes mod pageSize = 0)) (\<lambda>_.
     Inr (sizeBytes div pageSize))))"

datatype device_error =
  NoChips | ChipsNotMeshVolume | GridNotPositive | BadGridMapping | BadL1Map | BadDramMap

definition deviceVerify :: "device_attr \<Rightarrow> device_error + unit" where
  "deviceVerify d =
     (if dvChipIds d = [] then Inl NoChips
      else if int (length (dvChipIds d)) \<noteq> volume (dvMeshShape d) 1 then Inl ChipsNotMeshVolume
      else if \<exists>dim \<in> set (gridShape (dvWorkerGrid d)). dim \<le> 0 then Inl GridNotPositive
      else if numResults (gridMapping (dvWorkerGrid d)) \<noteq> 3 then Inl BadGridMapping
      else if numResults (dvL1Map d) \<noteq> 4 then Inl BadL1Map
      else if numResults (dvDramMap d) \<noteq> 4 then Inl BadDramMap
      else Inr ())"

end
