(* ===== verification/DeviceFacts.thy ===== *)
theory DeviceFacts
  imports Device
begin

text \<open>
  Facts about devices: what the worker grid of a two-dimensional mesh computes (the right
  chip for every virtual core, but not the right core of a chip when a mesh dimension is
  larger than one), that the default system description gives a device that verifies, that
  the L1 memory map gives every element of a memref bytes of its own inside the shard, and
  two collisions of the DRAM memory map.
\<close>

section \<open>The worker grid of a mesh of at most two dimensions\<close>

lemma upt_0_0: "[0..<2 - 2] = ([] :: nat list)"
  by simp

definition workerGrid2d :: "int \<Rightarrow> int \<Rightarrow> int \<Rightarrow> int \<Rightarrow> grid_attr" where
  "workerGrid2d g0 g1 m0 m1 =
     (let idx1 = (if 1 < m1 then AAdd (AFloorDiv (ADim 1) (AConst g1)) (AConst 0) else AConst 0);
          idx2 = (if 1 < m0 then AAdd (AMul (AFloorDiv (ADim 0) (AConst g0)) (AConst (wrap32 m1))) idx1 else idx1)
      in \<lparr>gridShape = [g0 * m0, g1 * m1],
          gridMapping = \<lparr>numDims = 2, numSyms = 0,
            results = [idx2, (if 1 < m0 then AMod (ADim 0) (AConst m0) else ADim 0),
                       (if 1 < m1 then AMod (ADim 1) (AConst m1) else ADim 1)]\<rparr>\<rparr>)"

lemma createWorkerGrid_2d: "createWorkerGrid [g0, g1] [m0, m1] = Inr (workerGrid2d g0 g1 m0 m1)"
  by (simp add: createWorkerGrid_def workerGrid2d_def padMesh_def virtualGridOf_def outerMesh_def Let_def)

text \<open>
  C11: for a mesh of \<open>m0 x m1\<close> chips with a \<open>g0 x g1\<close> core grid each, the worker grid has
  \<open>(g0 m0) x (g1 m1)\<close> virtual cores and its map sends a virtual core to the chip whose block
  of the virtual grid it lies in, in row-major order of the mesh, so always to one of the
  \<open>m0 m1\<close> chips.
\<close>

theorem worker_grid_selects_chip:
  assumes "0 < g0" and "0 < g1" and "0 < m0" and "0 < m1" and "m1 < 2 ^ 31"
    and "index_of [g0 * m0, g1 * m1] [y, x]"
  shows "\<exists>wg. createWorkerGrid [g0, g1] [m0, m1] = Inr wg \<and> gridShape wg = [g0 * m0, g1 * m1]
    \<and> mapEval (gridMapping wg) [y, x] ! 0 = lin [m0, m1] [y div g0, x div g1]
    \<and> 0 \<le> mapEval (gridMapping wg) [y, x] ! 0 \<and> mapEval (gridMapping wg) [y, x] ! 0 < m0 * m1"
proof -
  have b: "0 \<le> y" "y < m0 * g0" "0 \<le> x" "x < m1 * g1"
    using assms(6) by (simp_all add: mult.commute)
  have q: "0 \<le> y div g0" "y div g0 < m0" "0 \<le> x div g1" "x div g1 < m1"
    using b assms(1,2) by (auto simp: pos_imp_zdiv_nonneg_iff intro: div_less_of_less_mult)
  have w: "wrap32 m1 = m1" using assms(4,5) by (intro wrap32_id) auto
  have "y div g0 = 0" if "\<not> 1 < m0" using that q assms(3) by simp
  moreover have "x div g1 = 0" if "\<not> 1 < m1" using that q assms(4) by simp
  ultimately have m: "mapEval (gridMapping (workerGrid2d g0 g1 m0 m1)) [y, x] ! 0
      = lin [m0, m1] [y div g0, x div g1]"
    by (simp add: workerGrid2d_def mapEval_def Let_def w)
  moreover have "0 \<le> lin [m0, m1] [y div g0, x div g1] \<and> lin [m0, m1] [y div g0, x div g1] < prod_list [m0, m1]"
    using q by (intro lin_bounds) simp
  ultimately show ?thesis
    unfolding createWorkerGrid_2d by (simp add: workerGrid2d_def Let_def)
qed

lemma worker_grid_selects_chip_witness:
  "\<exists>wg. createWorkerGrid [8, 8] [2, 4] = Inr wg \<and> gridShape wg = [8 * 2, 8 * 4]
    \<and> mapEval (gridMapping wg) [9, 17] ! 0 = lin [2, 4] [9 div 8, 17 div 8]
    \<and> 0 \<le> mapEval (gridMapping wg) [9, 17] ! 0 \<and> mapEval (gridMapping wg) [9, 17] ! 0 < 2 * 4"
  by (rule worker_grid_selects_chip) simp_all

text \<open>
  The core coordinate inside the chip is wrong as soon as a mesh dimension is larger than
  one and smaller than the chip grid: the coordinate is taken modulo the mesh dimension, not
  modulo the chip grid, so virtual cores \<open>(y, 0)\<close> and \<open>(y, m)\<close> of a \<open>1 x m\<close> mesh, both on
  the first chip, are mapped to the same physical core (the documented map has \<open>d1 mod 8\<close>).
\<close>

lemma worker_grid_cores_collide:
  assumes "0 < g0" and "1 < m" and "m < g1" and "0 \<le> y" and "y < g0"
  shows "\<exists>wg. createWorkerGrid [g0, g1] [1, m] = Inr wg
    \<and> index_of (gridShape wg) [y, 0] \<and> index_of (gridShape wg) [y, m]
    \<and> mapEval (gridMapping wg) [y, 0] = mapEval (gridMapping wg) [y, m]"
proof -
  have "g1 * 1 \<le> g1 * m" using assms by (intro mult_left_mono) auto
  then have "m < g1 * m" using assms by linarith
  moreover have "m div g1 = 0" using assms by (intro div_pos_pos_trivial) auto
  ultimately show ?thesis
    unfolding createWorkerGrid_2d using assms by (simp add: workerGrid2d_def mapEval_def Let_def)
qed

lemma worker_grid_cores_collide_witness:
  "\<exists>wg. createWorkerGrid [8, 8] [1, 2] = Inr wg
    \<and> index_of (gridShape wg) [3, 0] \<and> index_of (gridShape wg) [3, 2]
    \<and> mapEval (gridMapping wg) [3, 0] = mapEval (gridMapping wg) [3, 2]"
  by (rule worker_grid_cores_collide) simp_all

lemma workerGrid2d_single: "gridMapping (workerGrid2d g0 g1 1 1) =
    \<lparr>numDims = 2, numSyms = 0, results = [AConst 0, ADim 0, ADim 1]\<rparr>"
  by (simp add: workerGrid2d_def Let_def)

section \<open>The default device\<close>

lemma chips_default:
  "i < nat (foldl (*) 1 mesh) \<Longrightarrow> chipAt (systemDescGetDefault mesh) i = Inr defaultChipDesc"
  by (simp add: chipAt_def systemDescGetDefault_def Let_def)

lemma foldE_const:
  "(\<And>x. x \<in> set xs \<Longrightarrow> f x s = Inr s) \<Longrightarrow> foldE f xs s = Inr s"
  by (induction xs) auto

lemma mapE_units: "(\<And>x. x \<in> set xs \<Longrightarrow> f x = Inr ()) \<Longrightarrow> \<exists>us. mapE f xs = Inr us"
  by (induction xs) auto

lemma deviceGet_default:
  assumes "chipIds \<noteq> []" and "\<And>c. c \<in> set chipIds \<Longrightarrow> c < nat (foldl (*) 1 mesh)"
  shows "deviceGet (systemDescGetDefault mesh) [m0, m1] chipIds =
    rbind (createDramMap (workerGrid2d 8 8 m0 m1) 12) (\<lambda>dramMap.
      Inr \<lparr>dvWorkerGrid = workerGrid2d 8 8 m0 m1, dvL1Map = createL1Map (workerGrid2d 8 8 m0 m1),
           dvDramMap = dramMap, dvMeshShape = [m0, m1], dvChipIds = chipIds\<rparr>)"
proof -
  have h: "hd chipIds < nat (foldl (*) 1 mesh)" using assms by (cases chipIds) auto
  have z: "0 < nat (foldl (*) 1 mesh)" using h by arith
  have g: "cdGrid defaultChipDesc = [8, 8]" and dc: "length (cdDramCores defaultChipDesc) = 12"
    by (simp_all add: defaultChipDesc_def)
  have f: "foldE (\<lambda>chipId g. rbind (chipAt (systemDescGetDefault mesh) chipId) (minChipGrid g)) chipIds [8, 8] = Inr [8, 8]"
    by (rule foldE_const) (simp add: chips_default assms(2) minChipGrid_def g)
  obtain us where us: "mapE (\<lambda>chipId. rbind (chipAt (systemDescGetDefault mesh) chipId) (\<lambda>c.
       assertE SiteChips (length (cdDramCores c) = length (cdDramCores defaultChipDesc)))) chipIds = Inr us"
    using mapE_units[of chipIds] by (metis (mono_tags, lifting) assms(2) assertE_simps(1) chips_default rbind_simps(2))
  have ne: "cdDramCores defaultChipDesc \<noteq> []" using dc by auto
  show ?thesis
    using assms(1) ne f us dc
    by (simp add: deviceGet_def chips_default[OF h] chips_default[OF z] g createWorkerGrid_2d
        createDramMapForChips_def)
qed

text \<open>
  C13: the default system description of an \<open>m0 x m1\<close> mesh gives a device, and the device
  passes its verifier.
\<close>

theorem default_device_verifies:
  assumes "0 < m0" and "0 < m1"
  shows "\<exists>d. deviceGetMesh (systemDescGetDefault [m0, m1]) [m0, m1] = Inr d \<and> deviceVerify d = Inr ()
    \<and> gridShape (dvWorkerGrid d) = [8 * m0, 8 * m1]"
proof -
  have v: "volume [m0, m1] 1 = m0 * m1" "foldl (*) 1 [m0, m1] = m0 * m1" by (simp_all add: volume_def)
  have n: "0 < m0 * m1" using assms by simp
  have "deviceGet (systemDescGetDefault [m0, m1]) [m0, m1] [0..<nat (m0 * m1)] =
    rbind (createDramMap (workerGrid2d 8 8 m0 m1) 12) (\<lambda>dramMap.
      Inr \<lparr>dvWorkerGrid = workerGrid2d 8 8 m0 m1, dvL1Map = createL1Map (workerGrid2d 8 8 m0 m1),
           dvDramMap = dramMap, dvMeshShape = [m0, m1], dvChipIds = [0..<nat (m0 * m1)]\<rparr>)"
    using n by (intro deviceGet_default) auto
  moreover have "length (sdChipDescIndices (systemDescGetDefault [m0, m1])) = nat (m0 * m1)"
    by (simp add: systemDescGetDefault_def Let_def)
  ultimately show ?thesis
    using assms n v
    by (simp add: deviceGetMesh_def createDramMap_def workerGrid2d_def Let_def numResults_def
        deviceVerify_def createL1Map_def mult_le_0_iff)
qed

lemma default_device_verifies_witness:
  "\<exists>d. deviceGetMesh (systemDescGetDefault [2, 4]) [2, 4] = Inr d \<and> deviceVerify d = Inr ()
    \<and> gridShape (dvWorkerGrid d) = [8 * 2, 8 * 4]"
  by (rule default_device_verifies) simp_all

section \<open>The L1 memory map\<close>

lemma shardByteOffset_eval:
  assumes "length idx = 2 * length stride"
  shows "aeval idx [] (shardByteOffset stride) = dot (drop (length stride) idx) stride"
proof -
  let ?r = "length stride"
  have step: "aeval idx [] (fold (\<lambda>i acc. AAdd (AMul (ADim (?r + i)) (AConst (stride ! i))) acc) (rev [b..<?r]) (AConst 0))
      = dot (drop (?r + b) idx) (drop b stride)" if "b \<le> ?r" for b
    using that
  proof (induction rule: inc_induct)
    case base
    then show ?case by (simp add: dot_def)
  next
    case (step b)
    have "drop (?r + b) idx = idx ! (?r + b) # drop (Suc (?r + b)) idx"
      using step.hyps assms by (intro Cons_nth_drop_Suc [symmetric]) simp
    moreover have "drop b stride = stride ! b # drop (Suc b) stride"
      using step.hyps by (intro Cons_nth_drop_Suc [symmetric]) simp
    ultimately show ?case
      using step by (simp add: upt_conv_Cons dot_def)
  qed
  from step[of 0] show ?thesis by (simp add: shardByteOffset_def Let_def)
qed

lemma shardAffineMap_eval:
  assumes "length idx = 2 * length stride"
  shows "mapEval (shardAffineMap stride) idx = take (length stride) idx @ [dot (drop (length stride) idx) stride]"
proof -
  have "map (aeval idx [] \<circ> ADim) [0..<length stride] = take (length stride) idx"
    using assms by (auto intro!: nth_equalityI)
  then show ?thesis
    using shardByteOffset_eval[OF assms] by (simp add: mapEval_def shardAffineMap_def Let_def)
qed

text \<open>A worker map of the rank of the grid, over dimensions only.\<close>

definition worker_map_ok :: "nat \<Rightarrow> affine_map \<Rightarrow> bool" where
  "worker_map_ok n m \<longleftrightarrow> numDims m = n \<and> numSyms m = 0 \<and> (\<forall>e \<in> set (results m). awf n 0 e)"

lemma awf_mono: "awf n m e \<Longrightarrow> n \<le> n' \<Longrightarrow> m \<le> m' \<Longrightarrow> awf n' m' e"
  by (induction e) auto

lemma aeval_take: "awf n 0 e \<Longrightarrow> n \<le> length ds \<Longrightarrow> aeval ds ss e = aeval (take n ds) [] e"
  by (induction e) auto

lemma l1_map_eval:
  assumes "worker_map_ok n (gridMapping wg)" and "length ds = n + 1"
    and "replaceAffineMapSymbols (createL1Map wg) [base] = Inr mm"
  shows "mapEval mm ds = mapEval (gridMapping wg) (take n ds) @ [base + ds ! n]"
proof -
  let ?w = "gridMapping wg"
  from assms(1) have n: "numDims ?w = n" and wf: "\<And>e. e \<in> set (results ?w) \<Longrightarrow> awf n 0 e"
    by (auto simp: worker_map_ok_def)
  have mm: "mm = \<lparr>numDims = n + 1, numSyms = 0,
      results = map (asubst (map ADim [0..<n + 1]) [AConst base]) (results ?w @ [AAdd (ASym 0) (ADim n)])\<rparr>"
    using assms(3) n by (auto simp: replaceAffineMapSymbols_def createL1Map_def Let_def)
  have id: "map (aeval ds []) (map ADim [0..<n + 1]) = ds"
    using assms(2) by (auto intro!: nth_equalityI simp del: upt_Suc)
  have "aeval ds [] (asubst (map ADim [0..<n + 1]) [AConst base] e) = aeval (take n ds) [] e"
    if "e \<in> set (results ?w)" for e
  proof -
    have "awf (n + 1) 1 e" using awf_mono[OF wf[OF that]] by simp
    then have "aeval ds [] (asubst (map ADim [0..<n + 1]) [AConst base] e)
        = aeval (map (aeval ds []) (map ADim [0..<n + 1])) (map (aeval ds []) [AConst base]) e"
      by (intro aeval_asubst) simp
    also have "\<dots> = aeval ds [base] e" unfolding id by simp
    also have "\<dots> = aeval (take n ds) [] e"
      by (rule aeval_take[OF wf[OF that]]) (simp add: assms(2))
    finally show ?thesis .
  qed
  then show ?thesis
    using assms(2) by (simp add: mm mapEval_def nth_append del: upt_Suc)
qed

lemma mapEval_compose:
  assumes "numSyms m = 0" and "numDims m = numResults other"
    and "\<And>e. e \<in> set (results m) \<Longrightarrow> awf (numResults other) 0 e"
  shows "mapEval (mapCompose m other) ds = mapEval m (mapEval other ds)"
proof -
  have "aeval ds [] (asubst (results other) [] e) = aeval (map (aeval ds []) (results other)) [] e"
    if "e \<in> set (results m)" for e
    using aeval_asubst[of "results other" "[]" e ds "[]"] assms(3)[OF that] by (simp add: numResults_def)
  then show ?thesis by (simp add: mapEval_def mapCompose_def assms(1))
qed

lemma awf_asubst:
  "awf (length de) (length se) e \<Longrightarrow> (\<forall>x \<in> set de. awf n m x) \<Longrightarrow> (\<forall>x \<in> set se. awf n m x) \<Longrightarrow> awf n m (asubst de se e)"
  by (induction e) auto

lemma l1_memory_map:
  assumes wg: "dvL1Map dev = createL1Map wg" "worker_map_ok n (gridMapping wg)"
    and m: "dmLayout mem = ShardLayout stride buffers" "dmSpace mem = DeviceL1" "length stride = n"
  shows "\<exists>mm. getMemoryMap dev mem 0 None base = Inr mm \<and>
    (\<forall>idx. length idx = 2 * n \<longrightarrow>
       mapEval mm idx = mapEval (gridMapping wg) (take n idx) @ [base + dot (drop n idx) stride])"
proof -
  let ?w = "gridMapping wg"
  from wg(2) have n: "numDims ?w = n" and wf: "\<And>e. e \<in> set (results ?w) \<Longrightarrow> awf n 0 e"
    by (auto simp: worker_map_ok_def)
  obtain mm where mm: "replaceAffineMapSymbols (createL1Map wg) [base] = Inr mm"
    by (simp add: replaceAffineMapSymbols_def createL1Map_def Let_def)
  have mm_form: "mm = \<lparr>numDims = n + 1, numSyms = 0,
      results = map (asubst (map ADim [0..<n + 1]) [AConst base]) (results ?w @ [AAdd (ASym 0) (ADim n)])\<rparr>"
    using mm n by (auto simp: replaceAffineMapSymbols_def createL1Map_def Let_def)
  have "awf (n + 1) 0 e" if e: "e \<in> set (results mm)" for e
  proof -
    from e obtain e0 where e0: "e = asubst (map ADim [0..<n + 1]) [AConst base] e0"
      "e0 \<in> set (results ?w @ [AAdd (ASym 0) (ADim n)])"
      unfolding mm_form affine_map.select_convs set_map by blast
    from e0(2) have "awf (n + 1) 1 e0" using awf_mono[OF wf] by auto
    then show ?thesis
      unfolding e0(1) by (intro awf_asubst) (auto simp del: upt_Suc)
  qed
  then have "mapEval (mapCompose mm (shardAffineMap stride)) idx = mapEval mm (mapEval (shardAffineMap stride) idx)" for idx
    using m(3) by (intro mapEval_compose) (simp_all add: mm_form shardAffineMap_def Let_def numResults_def)
  moreover have "mapEval mm (mapEval (shardAffineMap stride) idx)
      = mapEval ?w (take n idx) @ [base + dot (drop n idx) stride]" if "length idx = 2 * n" for idx
    using l1_map_eval[OF wg(2) _ mm, of "mapEval (shardAffineMap stride) idx"]
      shardAffineMap_eval[of idx stride] m(3) that by (simp add: nth_append)
  ultimately show ?thesis
    using mm by (simp add: getMemoryMap_def m wg(1) Let_def)
qed

text \<open>Strides scaled by the element size: the byte offset is the row-major index times the
  element size.\<close>

lemma dot_scaled: "length idx = length s \<Longrightarrow> dot idx (fst (stridesLoop s esize)) = esize * lin s idx"
proof (induction s arbitrary: idx)
  case (Cons d s)
  then obtain i idx' where "idx = i # idx'" "length idx' = length s" by (cases idx) auto
  with Cons.IH[of idx'] show ?case by (simp add: dot_def stridesLoop_Cons_fst algebra_simps)
qed (simp add: dot_def)

text \<open>
  C14: the L1 memory map of a memref whose layout is \<open>ShardLayoutAttr::get\<close> of its shard: every
  element goes to the core the worker grid assigns to its grid part, at the base offset plus
  the element size times its row-major position in the shard; its bytes lie inside the
  shard's bytes, and two different elements of the same shard never overlap. The shard has as many dimensions as
  the worker grid's map and positive sizes, the element size is positive, the worker grid's map has no symbols and
  refers to its own dimensions only, and the memref is in L1 and accessed without a view.
\<close>

theorem l1_map_places_elements:
  assumes "dvL1Map dev = createL1Map wg" and "worker_map_ok n (gridMapping wg)"
    and "length shard = n" and "shard \<noteq> []" and "positive_shape shard" and "0 < esize"
    and "shardLayoutGet shard esize buffers = Inr lay" and "dmLayout mem = lay" and "dmSpace mem = DeviceL1"
  shows "\<exists>mm. getMemoryMap dev mem 0 None base = Inr mm \<and>
    (\<forall>g a. length g = n \<longrightarrow> index_of shard a \<longrightarrow>
       mapEval mm (g @ a) = mapEval (gridMapping wg) g @ [base + esize * lin shard a]
     \<and> 0 \<le> esize * lin shard a \<and> esize * lin shard a + esize \<le> volume shard esize
     \<and> (\<forall>b. index_of shard b \<longrightarrow> a \<noteq> b \<longrightarrow> esize \<le> \<bar>esize * lin shard a - esize * lin shard b\<bar>))"
proof -
  have lay: "lay = ShardLayout (fst (stridesLoop shard esize)) buffers"
    using assms(4,7) by (auto simp: shardLayoutGet_def calculateStrides_def)
  have len: "length (fst (stridesLoop shard esize)) = n" using assms(3) by (simp add: stridesLoop_eq)
  obtain mm where mm: "getMemoryMap dev mem 0 None base = Inr mm"
    and ev: "\<And>idx. length idx = 2 * n \<Longrightarrow>
       mapEval mm idx = mapEval (gridMapping wg) (take n idx) @ [base + dot (drop n idx) (fst (stridesLoop shard esize))]"
    using l1_memory_map[OF assms(1,2) _ assms(9) len] assms(8) lay by blast
  have "mapEval mm (g @ a) = mapEval (gridMapping wg) g @ [base + esize * lin shard a]
     \<and> 0 \<le> esize * lin shard a \<and> esize * lin shard a + esize \<le> volume shard esize
     \<and> (\<forall>b. index_of shard b \<longrightarrow> a \<noteq> b \<longrightarrow> esize \<le> \<bar>esize * lin shard a - esize * lin shard b\<bar>)"
    if g: "length g = n" and a: "index_of shard a" for g a
  proof -
    have la: "length a = length shard" using a by (rule index_of_length)
    have bd: "0 \<le> lin shard a" "lin shard a + 1 \<le> prod_list shard"
      using lin_bounds[OF a] by simp_all
    have sep: "esize \<le> \<bar>esize * lin shard a - esize * lin shard b\<bar>" if b: "index_of shard b" and ab: "a \<noteq> b" for b
    proof -
      have "lin shard a \<noteq> lin shard b" using lin_inj[OF a b] ab by blast
      then have "1 \<le> \<bar>lin shard a - lin shard b\<bar>" by simp
      then have "esize * 1 \<le> esize * \<bar>lin shard a - lin shard b\<bar>" using assms(6) by (intro mult_left_mono) auto
      also have "\<dots> = \<bar>esize * lin shard a - esize * lin shard b\<bar>"
        using assms(6) by (simp add: abs_mult right_diff_distrib[symmetric])
      finally show ?thesis by simp
    qed
    have "esize * (lin shard a + 1) \<le> esize * prod_list shard"
      using bd assms(6) by (intro mult_left_mono) auto
    then have fit: "esize * lin shard a + esize \<le> volume shard esize"
      by (simp add: volume_eq algebra_simps)
    show ?thesis
      using ev[of "g @ a"] g la assms(3,6) dot_scaled[OF la, of esize] bd sep fit by simp
  qed
  with mm show ?thesis by blast
qed

lemma l1_map_places_elements_witness:
  "\<exists>mm. getMemoryMap
      \<lparr>dvWorkerGrid = workerGrid2d 8 8 1 1, dvL1Map = createL1Map (workerGrid2d 8 8 1 1),
       dvDramMap = emptyMap, dvMeshShape = [1, 1], dvChipIds = [0]\<rparr>
      \<lparr>dmShape = [2, 2, 4, 3], dmElem = Scalar (FloatType 32), dmLayout = ShardLayout [12, 4] 1, dmSpace = DeviceL1\<rparr>
      0 None 1024 = Inr mm
    \<and> mapEval mm ([1, 0] @ [2, 1]) = mapEval (gridMapping (workerGrid2d 8 8 1 1)) [1, 0] @ [1024 + 4 * lin [4, 3] [2, 1]]"
proof -
  have w: "worker_map_ok 2 (gridMapping (workerGrid2d 8 8 1 1))"
    by (simp add: worker_map_ok_def workerGrid2d_single)
  have l: "shardLayoutGet [4, 3] 4 1 = Inr (ShardLayout [12, 4] 1)"
    by (simp add: shardLayoutGet_def calculateStrides_def stridesLoop_eq upt_Suc_Cons numeral_2_eq_2)
  obtain mm where mm: "getMemoryMap
      \<lparr>dvWorkerGrid = workerGrid2d 8 8 1 1, dvL1Map = createL1Map (workerGrid2d 8 8 1 1),
       dvDramMap = emptyMap, dvMeshShape = [1, 1], dvChipIds = [0]\<rparr>
      \<lparr>dmShape = [2, 2, 4, 3], dmElem = Scalar (FloatType 32), dmLayout = ShardLayout [12, 4] 1, dmSpace = DeviceL1\<rparr>
      0 None 1024 = Inr mm"
    and all: "\<And>g a. length g = 2 \<Longrightarrow> index_of [4, 3] a \<Longrightarrow>
       mapEval mm (g @ a) = mapEval (gridMapping (workerGrid2d 8 8 1 1)) g @ [1024 + 4 * lin [4, 3] a]"
    using l1_map_places_elements[OF _ w _ _ _ _ l, where dev = "\<lparr>dvWorkerGrid = workerGrid2d 8 8 1 1,
        dvL1Map = createL1Map (workerGrid2d 8 8 1 1), dvDramMap = emptyMap, dvMeshShape = [1, 1], dvChipIds = [0]\<rparr>"
      and mem = "\<lparr>dmShape = [2, 2, 4, 3], dmElem = Scalar (FloatType 32), dmLayout = ShardLayout [12, 4] 1, dmSpace = DeviceL1\<rparr>"
      and base = 1024] by auto
  from all[of "[1, 0]" "[2, 1]"] mm show ?thesis by simp
qed

section \<open>The DRAM memory map\<close>

text \<open>A device with one chip.\<close>

definition exDevice :: device_attr where
  "exDevice = \<lparr>dvWorkerGrid = workerGrid2d 8 8 1 1, dvL1Map = createL1Map (workerGrid2d 8 8 1 1),
     dvDramMap = (case createDramMap (workerGrid2d 8 8 1 1) 12 of Inr m \<Rightarrow> m | Inl e \<Rightarrow> emptyMap),
     dvMeshShape = [1, 1], dvChipIds = [0]\<rparr>"

definition exDramMemref :: "shape \<Rightarrow> scalar_type \<Rightarrow> int list \<Rightarrow> device_memref" where
  "exDramMemref shp e stride =
     \<lparr>dmShape = shp, dmElem = Scalar e, dmLayout = ShardLayout stride 1, dmSpace = DeviceDRAM\<rparr>"

lemma exDevice_is_default: "deviceGetMesh (systemDescGetDefault [1, 1]) [1, 1] = Inr exDevice"
proof -
  have "deviceGet (systemDescGetDefault [1, 1]) [1, 1] [0] =
    rbind (createDramMap (workerGrid2d 8 8 1 1) 12) (\<lambda>dramMap.
      Inr \<lparr>dvWorkerGrid = workerGrid2d 8 8 1 1, dvL1Map = createL1Map (workerGrid2d 8 8 1 1),
           dvDramMap = dramMap, dvMeshShape = [1, 1], dvChipIds = [0]\<rparr>)"
    by (intro deviceGet_default) auto
  then show ?thesis
    by (simp add: deviceGetMesh_def volume_def systemDescGetDefault_def exDevice_def
        createDramMap_def workerGrid2d_single Let_def numResults_def)
qed

lemmas dram_eval = getMemoryMap_def exDramMemref_def exDevice_def createDramMap_def
  workerGrid2d_single Let_def numResults_def replaceAffineMapSymbols_def mapCompose_def
  shardAffineMap_def shardByteOffset_def dramAddr_def shardVolumeExpr_def mapEval_def

text \<open>
  The DRAM memory map of the default single-chip device is not injective within one
  shard: in a 98305-byte buffer of bytes with pages of 8192 bytes, bytes 1 and 98304 (page
  12, which wraps to channel 0 again) get the same channel and the same offset, because the
  page row is not multiplied by the page size as the comment on the map says.
\<close>

lemma dram_map_pages_collide:
  "\<exists>d mm. deviceGetMesh (systemDescGetDefault [1, 1]) [1, 1] = Inr d
    \<and> getMemoryMap d (exDramMemref [1, 1, 1, 98305] (IntegerType Unsigned 8) [98305, 1]) 8192 None 0 = Inr mm
    \<and> mapEval mm [0, 0, 0, 1] = mapEval mm [0, 0, 0, 98304]"
  using exDevice_is_default by (simp add: dram_eval upt_Suc_Cons numeral_eq_Suc)

text \<open>
  The DRAM memory map overlaps different shards when elements are larger than a byte:
  the strides of the shard count bytes, but the distance between shards is the number of
  elements of a shard. In a memref of two shards of 64 floats, element 16 of the first shard
  and element 0 of the second get the same channel and offset.
\<close>

lemma dram_map_shards_overlap:
  "\<exists>d mm. deviceGetMesh (systemDescGetDefault [1, 1]) [1, 1] = Inr d
    \<and> shardLayoutGet [1, 64] 4 1 = Inr (ShardLayout [256, 4] 1)
    \<and> getMemoryMap d (exDramMemref [2, 1, 1, 64] (FloatType 32) [256, 4]) 8192 None 0 = Inr mm
    \<and> mapEval mm [0, 0, 0, 16] = mapEval mm [1, 0, 0, 0]"
  using exDevice_is_default
  by (simp add: dram_eval upt_Suc_Cons numeral_eq_Suc shardLayoutGet_def calculateStrides_def stridesLoop_eq)

end
