(* ===== verification/Allocator.thy ===== *)
theory Allocator
  imports Device
begin

text \<open>
  The buffer allocator of the pass \<open>TTIRAllocate\<close> (\<open>TTIR/Transforms/Allocate.cpp\<close>): the
  bump allocator \<open>SimpleAllocator\<close> over 64-bit addresses, \<open>createSimpleAllocator\<close>, the
  allocation of every \<open>memref.alloc\<close> of a function, and \<open>needsStream\<close>.

  The contract of a bump allocator is the locale \<open>region_allocator\<close>: inside it, the regions
  of any sequence of allocations are shown to be aligned, in bounds and pairwise disjoint
  within their memory space. The locale is interpreted on \<open>SimpleAllocator::allocate\<close>.
\<close>

unbundle bit_operations_syntax

section \<open>The contract of a bump allocator\<close>

fun allocAll ::
  "('sp \<Rightarrow> int \<Rightarrow> 's \<Rightarrow> fault + int \<times> 's) \<Rightarrow> ('sp \<times> int) list \<Rightarrow> 's \<Rightarrow> fault + int list \<times> 's" where
  "allocAll alloc [] s = Inr ([], s)"
| "allocAll alloc ((sp, n) # reqs) s =
     rbind (alloc sp n s) (\<lambda>(a, s1).
     rbind (allocAll alloc reqs s1) (\<lambda>(as, s2). Inr (a # as, s2)))"

locale region_allocator =
  fixes alloc :: "'sp \<Rightarrow> int \<Rightarrow> 's \<Rightarrow> fault + int \<times> 's"
    and top :: "'s \<Rightarrow> 'sp \<Rightarrow> int"
    and limit :: "'sp \<Rightarrow> int"
    and algn :: "'sp \<Rightarrow> int"
    and inv :: "'s \<Rightarrow> bool"
    and req_ok :: "'sp \<Rightarrow> int \<Rightarrow> bool"
  assumes alloc_inv: "inv s \<Longrightarrow> req_ok sp n \<Longrightarrow> alloc sp n s = Inr (a, s') \<Longrightarrow> inv s'"
    and alloc_region: "inv s \<Longrightarrow> req_ok sp n \<Longrightarrow> alloc sp n s = Inr (a, s') \<Longrightarrow>
      top s sp \<le> a \<and> a mod algn sp = 0 \<and> top s' sp = a + n \<and> a + n \<le> limit sp"
    and alloc_frame: "inv s \<Longrightarrow> req_ok sp n \<Longrightarrow> alloc sp n s = Inr (a, s') \<Longrightarrow> sp' \<noteq> sp \<Longrightarrow>
      top s' sp' = top s sp'"
    and req_nonneg: "req_ok sp n \<Longrightarrow> 0 \<le> n"
begin

lemma allocAll_length: "allocAll alloc reqs s = Inr (as, s') \<Longrightarrow> length as = length reqs"
  by (induction reqs arbitrary: s as) (auto simp: rbind_Inr_iff)

lemma alloc_mono:
  assumes "inv s" and "req_ok sp n" and "alloc sp n s = Inr (a, s')"
  shows "top s sp' \<le> top s' sp'"
  using alloc_region[OF assms] alloc_frame[OF assms] req_nonneg[OF assms(2)]
  by (cases "sp' = sp") auto

lemma allocAll_regions:
  assumes "inv s" and "\<forall>(sp, n) \<in> set reqs. req_ok sp n" and "allocAll alloc reqs s = Inr (as, s')"
    and "i < length reqs"
  shows "top s (fst (reqs ! i)) \<le> as ! i \<and> as ! i mod algn (fst (reqs ! i)) = 0
    \<and> as ! i + snd (reqs ! i) \<le> limit (fst (reqs ! i))"
  using assms
proof (induction reqs arbitrary: s as i)
  case (Cons req reqs)
  obtain sp n where req: "req = (sp, n)" by (cases req)
  with Cons.prems obtain a s1 as1 where a: "alloc sp n s = Inr (a, s1)"
    and rest: "allocAll alloc reqs s1 = Inr (as1, s')" "as = a # as1"
    by (auto simp: rbind_Inr_iff)
  have ok: "req_ok sp n" "\<forall>(sp, n) \<in> set reqs. req_ok sp n" using Cons.prems(2) req by auto
  have i1: "inv s1" using alloc_inv[OF Cons.prems(1) ok(1) a] .
  show ?case
  proof (cases i)
    case 0
    with alloc_region[OF Cons.prems(1) ok(1) a] req rest show ?thesis by simp
  next
    case (Suc k)
    with Cons.prems(4) have k: "k < length reqs" by simp
    from Cons.IH[OF i1 ok(2) rest(1) k] alloc_mono[OF Cons.prems(1) ok(1) a, of "fst (reqs ! k)"]
    show ?thesis using Suc req rest(2) by auto
  qed
qed simp

lemma allocAll_ordered:
  assumes "inv s" and "\<forall>(sp, n) \<in> set reqs. req_ok sp n" and "allocAll alloc reqs s = Inr (as, s')"
    and "i < j" and "j < length reqs" and "fst (reqs ! i) = fst (reqs ! j)"
  shows "as ! i + snd (reqs ! i) \<le> as ! j"
  using assms
proof (induction reqs arbitrary: s as i j)
  case (Cons req reqs)
  obtain sp n where req: "req = (sp, n)" by (cases req)
  with Cons.prems obtain a s1 as1 where a: "alloc sp n s = Inr (a, s1)"
    and rest: "allocAll alloc reqs s1 = Inr (as1, s')" "as = a # as1"
    by (auto simp: rbind_Inr_iff)
  have ok: "req_ok sp n" "\<forall>(sp, n) \<in> set reqs. req_ok sp n" using Cons.prems(2) req by auto
  have i1: "inv s1" using alloc_inv[OF Cons.prems(1) ok(1) a] .
  from Cons.prems(4,5) obtain l where j: "j = Suc l" "l < length reqs" by (cases j) auto
  show ?case
  proof (cases i)
    case 0
    with allocAll_regions[OF i1 ok(2) rest(1) j(2)] alloc_region[OF Cons.prems(1) ok(1) a]
      Cons.prems(6) req rest(2) j show ?thesis by auto
  next
    case (Suc k)
    with Cons.IH[OF i1 ok(2) rest(1), of k l] Cons.prems(4,6) j rest(2) show ?thesis by simp
  qed
qed simp

end

section \<open>SimpleAllocator\<close>

record memory_space_info =
  msBaseAddress :: "64 word"
  msSize :: "64 word"
  msAlignment :: "64 word"

definition infoEnd :: "memory_space_info \<Rightarrow> 64 word" where
  "infoEnd info = msBaseAddress info + msSize info"

record simple_allocator =
  saCurrPtr :: "64 word list"
  saInfo :: "memory_space_info list"

definition simpleAllocator :: "memory_space_info list \<Rightarrow> simple_allocator" where
  "simpleAllocator info = \<lparr>saCurrPtr = map msBaseAddress info, saInfo = info\<rparr>"

fun toUnderlying :: "memory_space \<Rightarrow> nat" where
  "toUnderlying System = 0"
| "toUnderlying SystemMMIO = 1"
| "toUnderlying DeviceDRAM = 2"
| "toUnderlying DeviceL1 = 3"

definition allocate ::
  "64 word \<Rightarrow> memory_space \<Rightarrow> simple_allocator \<Rightarrow> fault + (64 word \<times> 64 word) \<times> simple_allocator" where
  "allocate bytes memorySpace sa =
     (if isSystemMemorySpace memorySpace then Inr ((0, 0), sa)
      else let index = toUnderlying memorySpace in
        rbind (at (saCurrPtr sa) index) (\<lambda>ptr0.
        rbind (at (saInfo sa) index) (\<lambda>info.
          let alignment = msAlignment info;
              ptr1 = alignUp ptr0 alignment;
              ptr2 = ptr1 + bytes
          in rbind (assertE SiteOutOfMemory (ptr2 \<le> infoEnd info)) (\<lambda>_.
             Inr ((ptr1, alignment), sa\<lparr>saCurrPtr := (saCurrPtr sa)[index := ptr2]\<rparr>)))))"

definition emptyInfo :: memory_space_info where
  "emptyInfo = \<lparr>msBaseAddress = 0, msSize = 0, msAlignment = 0\<rparr>"

text \<open>The sizes are computed in \<open>unsigned\<close> (32 bits) and then widened.\<close>

definition l1Info :: "chip_desc \<Rightarrow> memory_space_info" where
  "l1Info c = \<lparr>msBaseAddress = ucast (cdL1UnreservedBase c),
     msSize = ucast (cdL1Size c - getScratchL1RegionSize c),
     msAlignment = ucast (cdNocL1AddressAlignBytes c)\<rparr>"

definition dramInfo :: "chip_desc \<Rightarrow> memory_space_info" where
  "dramInfo c = \<lparr>msBaseAddress = ucast (cdDramUnreservedBase c),
     msSize = ucast (cdDramChannelSize c),
     msAlignment = ucast (cdNocDRAMAddressAlignBytes c)\<rparr>"

definition createSimpleAllocator :: "chip_desc \<Rightarrow> simple_allocator" where
  "createSimpleAllocator c = simpleAllocator [emptyInfo, emptyInfo, dramInfo c, l1Info c]"

section \<open>Allocating the buffers of a function\<close>

record alloc_op =
  aoMemref :: device_memref
  aoHasSpace :: bool
  aoAlignment :: "64 word option"
  aoAddress :: "64 word option"

text \<open>\<open>getMemorySpace(memref, dflt)\<close>.\<close>

definition allocMemorySpace :: "alloc_op \<Rightarrow> memory_space" where
  "allocMemorySpace ao = (if aoHasSpace ao then dmSpace (aoMemref ao) else System)"

definition allocateBuffer :: "alloc_op \<Rightarrow> simple_allocator \<Rightarrow> fault + alloc_op \<times> simple_allocator" where
  "allocateBuffer ao sa =
     (let memorySpace = allocMemorySpace ao in
      if \<not> isDeviceMemorySpace memorySpace then Inr (ao, sa)
      else rbind (getMemrefSizeBytes (aoMemref ao) 0 False) (\<lambda>sizeBytes.
           rbind (allocate (word_of_int sizeBytes) memorySpace sa) (\<lambda>((address, alignment), sa').
           Inr (ao\<lparr>aoAlignment := Some alignment, aoAddress := Some address\<rparr>, sa'))))"

fun allocateBuffers :: "alloc_op list \<Rightarrow> simple_allocator \<Rightarrow> fault + alloc_op list \<times> simple_allocator" where
  "allocateBuffers [] sa = Inr ([], sa)"
| "allocateBuffers (ao # aos) sa =
     rbind (allocateBuffer ao sa) (\<lambda>(ao', sa1).
     rbind (allocateBuffers aos sa1) (\<lambda>(aos', sa2). Inr (ao' # aos', sa2)))"

definition runAllocateBuffers :: "alloc_op list \<Rightarrow> chip_desc \<Rightarrow> fault + alloc_op list" where
  "runAllocateBuffers allocs chipDesc =
     rbind (allocateBuffers allocs (createSimpleAllocator chipDesc)) (\<lambda>(aos, sa). Inr aos)"

section \<open>Streams\<close>

datatype defining_op = StreamLayoutOp | ViewLayoutOp | OtherOp | BlockArgument

datatype iterator_type = Parallel | Reduction

text \<open>\<open>getBroadcastDims\<close>: the results that are the constant 0. \<open>getDimPosition\<close> asks for a
  dimension expression.\<close>

definition isBroadcastResult :: "aexpr \<Rightarrow> bool" where
  "isBroadcastResult e \<longleftrightarrow> e = AConst 0"

definition getDimPosition :: "aexpr \<Rightarrow> fault + nat" where
  "getDimPosition e = (case e of ADim d \<Rightarrow> Inr d | _ \<Rightarrow> Inl (AssertFailed SiteOther))"

fun anyResultMoves :: "aexpr list \<Rightarrow> iterator_type list \<Rightarrow> fault + bool" where
  "anyResultMoves [] its = Inr False"
| "anyResultMoves (e # es) its =
     rbind (if isBroadcastResult e then Inr True
            else rbind (getDimPosition e) (\<lambda>d. rbind (at its d) (\<lambda>it. Inr (it = Reduction)))) (\<lambda>b.
       if b then Inr True else anyResultMoves es its)"

definition needsStream :: "defining_op \<Rightarrow> bool \<Rightarrow> affine_map \<Rightarrow> iterator_type list \<Rightarrow> fault + bool" where
  "needsStream definingOp isOutput operandIndexingMap iteratorTypes =
     (if definingOp = StreamLayoutOp then Inr False
      else if definingOp = ViewLayoutOp then Inr True
      else if isOutput then Inr False
      else anyResultMoves (results operandIndexingMap) iteratorTypes)"

text \<open>The operands of a \<open>ttir.generic\<close>: what defines them, whether they are outputs, the
  indexing map and the memref type. Inserting a stream allocates a storage memref with a
  single-buffered shard layout and redefines the operand by the stream.\<close>

record generic_operand =
  goDefiningOp :: defining_op
  goIsOutput :: bool
  goIndexingMap :: affine_map
  goMemref :: device_memref

definition insertStream :: "generic_operand \<Rightarrow> fault + device_memref \<times> generic_operand" where
  "insertStream operand =
     (let memref = goMemref operand;
          streamMemref = memref\<lparr>dmLayout := ViewLayout (length (dmShape memref))\<rparr>
      in rbind (shardLayoutOfMemref memref 1) (\<lambda>storageAttr.
         Inr (memref\<lparr>dmLayout := storageAttr\<rparr>,
              operand\<lparr>goDefiningOp := StreamLayoutOp, goMemref := streamMemref\<rparr>)))"

text \<open>One application of the pattern: the storages it allocates, the new operands and whether
  it modified the op.\<close>

fun allocateStreams ::
  "iterator_type list \<Rightarrow> generic_operand list \<Rightarrow> fault + device_memref list \<times> generic_operand list \<times> bool" where
  "allocateStreams its [] = Inr ([], [], False)"
| "allocateStreams its (operand # rest) =
     rbind (needsStream (goDefiningOp operand) (goIsOutput operand) (goIndexingMap operand) its) (\<lambda>needs.
     if \<not> needs then
       rbind (allocateStreams its rest) (\<lambda>(storages, rest', modified). Inr (storages, operand # rest', modified))
     else
       rbind (insertStream operand) (\<lambda>(storage, operand').
       rbind (allocateStreams its rest) (\<lambda>(storages, rest', modified).
       Inr (storage # storages, operand' # rest', True))))"

end
