(* ===== verification/AllocatorFacts.thy ===== *)
theory AllocatorFacts
  imports Allocator DeviceFacts
begin

text \<open>
  The interpretation of the allocator contract on \<open>SimpleAllocator\<close>, and what follows for
  the buffers of a function and for the bounds of the two memories; the stream pattern reaches
  its fixed point in one application.
\<close>

unbundle bit_operations_syntax

section \<open>SimpleAllocator is a region allocator\<close>

definition infoOf :: "chip_desc \<Rightarrow> memory_space \<Rightarrow> memory_space_info" where
  "infoOf c sp = [emptyInfo, emptyInfo, dramInfo c, l1Info c] ! toUnderlying sp"

text \<open>Alignments are powers of two; everything else about the chip is a 32-bit value.\<close>

definition pow2 :: "32 word \<Rightarrow> bool" where
  "pow2 w \<longleftrightarrow> (\<exists>k < 32. w = 2 ^ k)"

definition chip_aligned :: "chip_desc \<Rightarrow> bool" where
  "chip_aligned c \<longleftrightarrow> pow2 (cdNocL1AddressAlignBytes c) \<and> pow2 (cdNocDRAMAddressAlignBytes c)"

definition allocateInt :: "memory_space \<Rightarrow> int \<Rightarrow> simple_allocator \<Rightarrow> fault + int \<times> simple_allocator" where
  "allocateInt sp n sa = rbind (allocate (word_of_int n) sp sa) (\<lambda>((a, al), sa'). Inr (uint a, sa'))"

definition saTop :: "simple_allocator \<Rightarrow> memory_space \<Rightarrow> int" where
  "saTop sa sp = uint (saCurrPtr sa ! toUnderlying sp)"

definition saLimit :: "chip_desc \<Rightarrow> memory_space \<Rightarrow> int" where
  "saLimit c sp = uint (infoEnd (infoOf c sp))"

definition saAlign :: "chip_desc \<Rightarrow> memory_space \<Rightarrow> int" where
  "saAlign c sp = uint (msAlignment (infoOf c sp))"

definition saInv :: "chip_desc \<Rightarrow> simple_allocator \<Rightarrow> bool" where
  "saInv c sa \<longleftrightarrow> chip_aligned c \<and> length (saCurrPtr sa) = 4
     \<and> saInfo sa = [emptyInfo, emptyInfo, dramInfo c, l1Info c]
     \<and> (\<forall>sp. isDeviceMemorySpace sp \<longrightarrow> saTop sa sp \<le> saLimit c sp)"

definition saReq :: "memory_space \<Rightarrow> int \<Rightarrow> bool" where
  "saReq sp n \<longleftrightarrow> isDeviceMemorySpace sp \<and> 0 \<le> n \<and> n < 2 ^ 63"

lemma device_space_cases: "isDeviceMemorySpace sp \<longleftrightarrow> sp = DeviceDRAM \<or> sp = DeviceL1"
  by (simp add: isDeviceMemorySpace_def)

lemma toUnderlying_inj: "toUnderlying sp = toUnderlying sp' \<Longrightarrow> sp = sp'"
  by (cases sp; cases sp') auto

lemma infoOf_simps: "infoOf c DeviceDRAM = dramInfo c" "infoOf c DeviceL1 = l1Info c"
  by (simp_all add: infoOf_def)

lemma uint_ucast_32_64: "uint (ucast (w :: 32 word) :: 64 word) = uint w"
  by (simp add: uint_up_ucast is_up)

lemma uint_infoEnd:
  assumes "isDeviceMemorySpace sp"
  shows "saLimit c sp = uint (msBaseAddress (infoOf c sp)) + uint (msSize (infoOf c sp))
    \<and> saLimit c sp < 2 ^ 33"
proof -
  have b: "uint w < 2 ^ 32" for w :: "32 word" using uint_bounded[of w] by simp
  have "uint (msBaseAddress (infoOf c sp)) < 2 ^ 32 \<and> uint (msSize (infoOf c sp)) < 2 ^ 32"
    using assms b by (auto simp: device_space_cases infoOf_simps dramInfo_def l1Info_def uint_ucast_32_64)
  then show ?thesis by (auto simp: saLimit_def infoEnd_def uint_plus_if')
qed

lemma align_pow2:
  assumes "chip_aligned c" and "isDeviceMemorySpace sp"
  shows "\<exists>k < 32. msAlignment (infoOf c sp) = 2 ^ k \<and> saAlign c sp = 2 ^ k"
proof -
  have "\<exists>k < 32. (ucast w :: 64 word) = 2 ^ k \<and> uint (ucast w :: 64 word) = 2 ^ k" if "pow2 w" for w :: "32 word"
  proof -
    from that obtain k where k: "k < 32" "w = 2 ^ k" by (auto simp: pow2_def)
    have u: "uint (2 ^ k :: 32 word) = 2 ^ k" using k(1) by (simp add: uint_pow2)
    have u64: "uint (2 ^ k :: 64 word) = 2 ^ k" using k(1) by (simp add: uint_pow2)
    have e: "(ucast w :: 64 word) = 2 ^ k"
      by (intro word_uint_eqI) (simp only: uint_ucast_32_64 k(2) u u64)
    show ?thesis by (intro exI[of _ k]) (simp only: e u64 k(1) simp_thms)
  qed
  with assms show ?thesis
    by (auto simp: chip_aligned_def saAlign_def device_space_cases infoOf_simps dramInfo_def l1Info_def)
qed

lemma allocate_step:
  assumes "saInv c sa" and "saReq sp n" and "allocateInt sp n sa = Inr (a, sa')"
  shows "saTop sa sp \<le> a \<and> a mod saAlign c sp = 0 \<and> saTop sa' sp = a + n \<and> a + n \<le> saLimit c sp
    \<and> sa' = sa\<lparr>saCurrPtr := (saCurrPtr sa)[toUnderlying sp := word_of_int (a + n)]\<rparr>"
proof -
  let ?i = "toUnderlying sp" and ?info = "infoOf c sp"
  from assms(2) have dev: "isDeviceMemorySpace sp" and n: "0 \<le> n" "n < 2 ^ 63" by (simp_all add: saReq_def)
  have i: "?i < 4" "\<not> isSystemMemorySpace sp" using dev by (auto simp: device_space_cases isSystemMemorySpace_def)
  from assms(1) have len: "length (saCurrPtr sa) = 4" "saInfo sa ! ?i = ?info" "length (saInfo sa) = 4"
    and top: "saTop sa sp \<le> saLimit c sp" and al: "chip_aligned c"
    using dev by (auto simp: saInv_def infoOf_def)
  obtain k where k: "k < 32" "msAlignment ?info = 2 ^ k" "saAlign c sp = 2 ^ k" using align_pow2[OF al dev] by blast
  have lim: "saLimit c sp < 2 ^ 33" using uint_infoEnd[OF dev] by blast
  have "(2::int) ^ k \<le> 2 ^ 31" using k(1) by (intro power_increasing) auto
  with top lim have small: "saTop sa sp + 2 ^ k - 1 < 2 ^ 34" by simp
  let ?p1 = "alignUp (saCurrPtr sa ! ?i) (2 ^ k)"
  have up1: "uint ?p1 = ceil_div (saTop sa sp) (2 ^ k) * 2 ^ k"
    using uint_alignUp[of k "saCurrPtr sa ! ?i"] k(1) small by (simp add: saTop_def alignUp_int)
  have p1: "saTop sa sp \<le> uint ?p1" "uint ?p1 < 2 ^ 34"
    using ceil_div_covers[of "2 ^ k" "saTop sa sp"] ceil_div_least[of "2 ^ k" "saTop sa sp"] small
    by (simp_all add: up1 left_diff_distrib)
  have n64: "uint (word_of_int n :: 64 word) = n" using n by (simp add: word_of_int_inverse)
  have up2: "uint (?p1 + word_of_int n) = uint ?p1 + n"
    using p1(2) n n64 by (simp add: uint_plus_if')
  from assms(3) i len k(2) have le: "?p1 + word_of_int n \<le> infoEnd ?info"
    and a: "a = uint ?p1" and sa': "sa' = sa\<lparr>saCurrPtr := (saCurrPtr sa)[?i := ?p1 + word_of_int n]\<rparr>"
    by (auto simp: allocateInt_def allocate_def Let_def rbind_Inr_iff assertE_Inr_iff)
  from le have "uint ?p1 + n \<le> saLimit c sp" by (simp add: word_le_def up2 saLimit_def)
  moreover have "uint ?p1 mod 2 ^ k = 0" by (simp add: up1)
  moreover have "?p1 + word_of_int n = word_of_int (a + n)" by (simp add: a)
  ultimately show ?thesis
    using p1(1) a sa' i len up2 k(3) by (simp add: saTop_def)
qed

lemma allocate_frame:
  assumes "saInv c sa" and "saReq sp n" and "allocateInt sp n sa = Inr (a, sa')" and "sp' \<noteq> sp"
  shows "saTop sa' sp' = saTop sa sp'"
proof -
  have "toUnderlying sp \<noteq> toUnderlying sp'" using assms(4) toUnderlying_inj by blast
  moreover have "sa' = sa\<lparr>saCurrPtr := (saCurrPtr sa)[toUnderlying sp := word_of_int (a + n)]\<rparr>"
    using allocate_step[OF assms(1-3)] by blast
  ultimately show ?thesis by (simp add: saTop_def)
qed

lemma allocate_inv:
  assumes "saInv c sa" and "saReq sp n" and "allocateInt sp n sa = Inr (a, sa')"
  shows "saInv c sa'"
proof -
  note st = allocate_step[OF assms]
  have "saTop sa' sp' \<le> saLimit c sp'" if "isDeviceMemorySpace sp'" for sp'
    using st allocate_frame[OF assms, of sp'] assms(1) that by (cases "sp' = sp") (auto simp: saInv_def)
  with st assms(1) show ?thesis by (auto simp: saInv_def)
qed

interpretation sa: region_allocator allocateInt saTop "saLimit c" "saAlign c" "saInv c" saReq
  for c :: chip_desc
  by unfold_locales (use allocate_inv allocate_step allocate_frame in \<open>auto simp: saReq_def\<close>)

lemma saInv_initial:
  assumes "chip_aligned c"
  shows "saInv c (createSimpleAllocator c)"
proof -
  have "saTop (createSimpleAllocator c) sp \<le> saLimit c sp" if "isDeviceMemorySpace sp" for sp
  proof -
    have "saTop (createSimpleAllocator c) sp = uint (msBaseAddress (infoOf c sp))"
      using that by (auto simp: device_space_cases saTop_def createSimpleAllocator_def simpleAllocator_def infoOf_simps)
    moreover have "0 \<le> uint (msSize (infoOf c sp))" by (rule uint_ge_0)
    ultimately show ?thesis using uint_infoEnd[OF that, of c] by linarith
  qed
  with assms show ?thesis by (simp add: saInv_def createSimpleAllocator_def simpleAllocator_def)
qed

section \<open>The buffers of a function\<close>

definition devAlloc :: "alloc_op \<Rightarrow> bool" where
  "devAlloc ao \<longleftrightarrow> isDeviceMemorySpace (allocMemorySpace ao)"

definition allocSize :: "alloc_op \<Rightarrow> int" where
  "allocSize ao = (case getMemrefSizeBytes (aoMemref ao) 0 False of Inr n \<Rightarrow> n | Inl e \<Rightarrow> 0)"

definition allocAddress :: "alloc_op \<Rightarrow> int" where
  "allocAddress ao = (case aoAddress ao of Some a \<Rightarrow> uint a | None \<Rightarrow> -1)"

definition allocReq :: "alloc_op \<Rightarrow> memory_space \<times> int" where
  "allocReq ao = (allocMemorySpace ao, allocSize ao)"

lemma allocateBuffers_allocAll:
  assumes "allocateBuffers aos sa = Inr (aos', sa')"
  shows "allocAll allocateInt (map allocReq (filter devAlloc aos)) sa
      = Inr (map allocAddress (filter devAlloc aos'), sa')
    \<and> map allocReq (filter devAlloc aos') = map allocReq (filter devAlloc aos)
    \<and> list_all2 (\<lambda>ao ao'. aoMemref ao' = aoMemref ao \<and> (\<not> devAlloc ao \<longrightarrow> ao' = ao)) aos aos'"
  using assms
proof (induction aos arbitrary: sa aos')
  case (Cons ao aos)
  then obtain ao' sa1 aos1 where a: "allocateBuffer ao sa = Inr (ao', sa1)"
    and rest: "allocateBuffers aos sa1 = Inr (aos1, sa')" and r: "aos' = ao' # aos1"
    by (auto simp: rbind_Inr_iff)
  note IH = Cons.IH[OF rest]
  show ?case
  proof (cases "devAlloc ao")
    case False
    with a have "ao' = ao" "sa1 = sa" by (auto simp: allocateBuffer_def devAlloc_def Let_def)
    with IH False r show ?thesis by simp
  next
    case True
    with a obtain n address al where n: "getMemrefSizeBytes (aoMemref ao) 0 False = Inr n"
      and al: "allocate (word_of_int n) (allocMemorySpace ao) sa = Inr ((address, al), sa1)"
      and ao': "ao' = ao\<lparr>aoAlignment := Some al, aoAddress := Some address\<rparr>"
      by (auto simp: allocateBuffer_def devAlloc_def Let_def rbind_Inr_iff)
    have sp: "allocMemorySpace ao' = allocMemorySpace ao" by (simp add: ao' allocMemorySpace_def)
    have same: "allocSize ao' = n" "allocSize ao = n" "allocAddress ao' = uint address"
      "aoMemref ao' = aoMemref ao" using n by (simp_all add: ao' allocSize_def allocAddress_def)
    have dev: "devAlloc ao'" using True by (simp add: devAlloc_def sp)
    have "allocateInt (allocMemorySpace ao) n sa = Inr (uint address, sa1)"
      using al by (simp add: allocateInt_def)
    with IH True same sp dev r show ?thesis by (simp add: allocReq_def)
  qed
qed simp

text \<open>
  C17: when \<open>TTIRAllocate\<close> allocates the buffers of a function, every device buffer gets an
  address that is a multiple of the address alignment of its memory, its bytes lie between
  the unreserved base and the allocator's own limit (the base plus the size of the memory, as
  \<open>createSimpleAllocator\<close> computes it; the memory itself ends earlier, see C18), and two buffers of the same
  memory never overlap: a later one starts at or after the end of an earlier one. Host buffers are left
  alone. The alignments of the chip are powers of two, and the sizes of the device buffers from 0 to below \<open>2 ^ 63\<close>.
\<close>

theorem allocated_buffers_disjoint:
  assumes "chip_aligned c" and "runAllocateBuffers allocs c = Inr aos"
    and "\<forall>ao \<in> set allocs. devAlloc ao \<longrightarrow> 0 \<le> allocSize ao \<and> allocSize ao < 2 ^ 63"
  shows "list_all2 (\<lambda>ao ao'. aoMemref ao' = aoMemref ao \<and> (\<not> devAlloc ao \<longrightarrow> ao' = ao)) allocs aos
    \<and> (\<forall>i < length (filter devAlloc aos).
         let ao = filter devAlloc aos ! i; sp = allocMemorySpace ao in
         uint (msBaseAddress (infoOf c sp)) \<le> allocAddress ao
       \<and> allocAddress ao mod saAlign c sp = 0
       \<and> allocAddress ao + allocSize ao \<le> saLimit c sp
       \<and> (\<forall>j < length (filter devAlloc aos). i < j \<longrightarrow> allocMemorySpace (filter devAlloc aos ! j) = sp \<longrightarrow>
            allocAddress ao + allocSize ao \<le> allocAddress (filter devAlloc aos ! j)))"
proof -
  from assms(2) obtain sa' where run: "allocateBuffers allocs (createSimpleAllocator c) = Inr (aos, sa')"
    by (auto simp: runAllocateBuffers_def rbind_Inr_iff)
  let ?d = "filter devAlloc aos"
  note all = allocateBuffers_allocAll[OF run]
  have reqs: "map allocReq (filter devAlloc allocs) = map allocReq ?d" using all by simp
  have run': "allocAll allocateInt (map allocReq ?d) (createSimpleAllocator c) = Inr (map allocAddress ?d, sa')"
    using all unfolding reqs by blast
  have ok: "\<forall>(sp, n) \<in> set (map allocReq ?d). saReq sp n"
    unfolding reqs[symmetric] using assms(3) by (auto simp: allocReq_def saReq_def devAlloc_def)
  note inv = saInv_initial[OF assms(1)]
  have "let ao = ?d ! i; sp = allocMemorySpace ao in
         uint (msBaseAddress (infoOf c sp)) \<le> allocAddress ao
       \<and> allocAddress ao mod saAlign c sp = 0
       \<and> allocAddress ao + allocSize ao \<le> saLimit c sp
       \<and> (\<forall>j < length ?d. i < j \<longrightarrow> allocMemorySpace (?d ! j) = sp \<longrightarrow>
            allocAddress ao + allocSize ao \<le> allocAddress (?d ! j))" if i: "i < length ?d" for i
  proof -
    have dev: "isDeviceMemorySpace (allocMemorySpace (?d ! i))"
      using nth_mem[OF i] by (simp add: devAlloc_def)
    have top: "saTop (createSimpleAllocator c) (allocMemorySpace (?d ! i))
        = uint (msBaseAddress (infoOf c (allocMemorySpace (?d ! i))))"
      using dev by (auto simp: device_space_cases saTop_def createSimpleAllocator_def simpleAllocator_def infoOf_simps)
    show ?thesis
      using sa.allocAll_regions[OF inv ok run', of i] sa.allocAll_ordered[OF inv ok run', of i] i top
      by (auto simp: Let_def allocReq_def)
  qed
  with all show ?thesis by blast
qed

definition exAlloc :: "memory_space \<Rightarrow> shape \<Rightarrow> alloc_op" where
  "exAlloc sp shp = \<lparr>aoMemref = \<lparr>dmShape = shp, dmElem = Scalar (FloatType 32), dmLayout = ShardLayout [4] 1, dmSpace = sp\<rparr>,
     aoHasSpace = True, aoAlignment = None, aoAddress = None\<rparr>"

lemma default_chip_aligned: "chip_aligned defaultChipDesc"
proof -
  have "(16 :: 32 word) = 2 ^ 4" "(32 :: 32 word) = 2 ^ 5" by simp_all
  then have "pow2 16" "pow2 32" unfolding pow2_def
    by (metis numeral_less_iff semiring_norm(68,75,76,78,79,81))+
  then show ?thesis by (simp add: chip_aligned_def defaultChipDesc_def)
qed

definition exAllocs :: "alloc_op list" where
  "exAllocs = [exAlloc DeviceL1 [1, 1, 3, 5], exAlloc System [1, 1, 2, 2], exAlloc DeviceL1 [1, 1, 2, 2]]"

lemma exAllocs_run: "map_sum id (map allocAddress) (runAllocateBuffers exAllocs defaultChipDesc) = Inr [1024, -1, 1088]"
  by code_simp

lemma exAllocs_sizes: "map allocSize exAllocs = [60, 16, 16]"
  by code_simp

theorem allocated_buffers_disjoint_witness:
  "\<exists>aos. runAllocateBuffers exAllocs defaultChipDesc = Inr aos \<and> map allocAddress aos = [1024, -1, 1088]
    \<and> (\<forall>i < length (filter devAlloc aos).
        allocAddress (filter devAlloc aos ! i) mod saAlign defaultChipDesc (allocMemorySpace (filter devAlloc aos ! i)) = 0)"
proof -
  obtain aos where r: "runAllocateBuffers exAllocs defaultChipDesc = Inr aos" and a: "map allocAddress aos = [1024, -1, 1088]"
    using exAllocs_run by (cases "runAllocateBuffers exAllocs defaultChipDesc") auto
  have "\<forall>ao \<in> set exAllocs. devAlloc ao \<longrightarrow> 0 \<le> allocSize ao \<and> allocSize ao < 2 ^ 63"
    using exAllocs_sizes by (auto simp: exAllocs_def)
  from allocated_buffers_disjoint[OF default_chip_aligned r this] r a show ?thesis by (auto simp: Let_def)
qed

text \<open>
  C18: the L1 limit of the allocator does not keep the scratch region free. The allocator ends
  at \<open>base + (size - scratch)\<close>, although the scratch region starts at \<open>size - scratch\<close>: on
  every chip whose unreserved base is positive and aligned, and whose L1 holds the base
  and the scratch region, one allocation of \<open>size - scratch\<close> bytes succeeds, and its bytes
  run past the start of the scratch region.
\<close>

theorem l1_allocation_overlaps_scratch:
  assumes "chip_aligned c"
    and "uint (cdL1UnreservedBase c) mod uint (cdNocL1AddressAlignBytes c) = 0"
    and "0 < cdL1UnreservedBase c"
  shows "\<exists>sa'. allocate (ucast (cdL1Size c - getScratchL1RegionSize c)) DeviceL1 (createSimpleAllocator c)
      = Inr ((ucast (cdL1UnreservedBase c), ucast (cdNocL1AddressAlignBytes c)), sa')
    \<and> uint (getScratchL1RegionAddress c)
       < uint (cdL1UnreservedBase c) + uint (cdL1Size c - getScratchL1RegionSize c)"
proof -
  let ?b = "ucast (cdL1UnreservedBase c) :: 64 word" and ?al = "ucast (cdNocL1AddressAlignBytes c) :: 64 word"
  have al: "\<exists>k < 32. ?al = 2 ^ k \<and> uint (cdNocL1AddressAlignBytes c) = 2 ^ k"
    using align_pow2[OF assms(1), of DeviceL1]
    by (simp add: saAlign_def infoOf_simps l1Info_def uint_ucast_32_64 isDeviceMemorySpace_def)
  have "alignUp ?b ?al = ?b"
  proof -
    from al obtain k where k: "k < 32" "?al = 2 ^ k" "uint (cdNocL1AddressAlignBytes c) = 2 ^ k" by blast
    have b: "uint ?b = uint (cdL1UnreservedBase c)" "uint ?b < 2 ^ 32"
      using uint_bounded[of "cdL1UnreservedBase c"] by (simp_all add: uint_ucast_32_64)
    have "(2::int) ^ k \<le> 2 ^ 31" using k(1) by (intro power_increasing) auto
    then have "uint (alignUp ?b ?al) = ceil_div (uint ?b) (2 ^ k) * 2 ^ k"
      using uint_alignUp[of k ?b] k b(2) by (simp add: alignUp_int)
    also have "\<dots> = uint ?b" using assms(2) ceil_div_mult[of "2 ^ k" "uint ?b div 2 ^ k"]
      by (simp add: k(3) b(1) mod_0_imp_dvd)
    finally show ?thesis by (rule word_uint_eqI)
  qed
  moreover have "0 < uint (cdL1UnreservedBase c)" using assms(3) by (simp add: word_less_def)
  ultimately show ?thesis
    by (simp add: allocate_def createSimpleAllocator_def simpleAllocator_def l1Info_def infoEnd_def
        isSystemMemorySpace_def assertE_def getScratchL1RegionAddress_def Let_def)
qed

theorem l1_allocation_overlaps_scratch_witness:
  "\<exists>sa'. allocate (ucast (cdL1Size defaultChipDesc - getScratchL1RegionSize defaultChipDesc)) DeviceL1
      (createSimpleAllocator defaultChipDesc) = Inr ((1024, 16), sa')
    \<and> getScratchL1RegionAddress defaultChipDesc = 1495040
    \<and> 1495040 < 1024 + uint (cdL1Size defaultChipDesc - getScratchL1RegionSize defaultChipDesc)"
  using l1_allocation_overlaps_scratch[OF default_chip_aligned]
  by (simp add: defaultChipDesc_def getScratchL1RegionSize_def getScratchL1RegionAddress_def)

section \<open>Streams\<close>

text \<open>An operand is settled when the pattern leaves it alone.\<close>

lemma allocateStreams_output:
  assumes "allocateStreams its operands = Inr (storages, operands', modified)"
  shows "(modified \<longleftrightarrow> storages \<noteq> []) \<and> (\<not> modified \<longrightarrow> operands' = operands)
    \<and> list_all2 (\<lambda>o1 o2. o2 = o1 \<and> needsStream (goDefiningOp o1) (goIsOutput o1) (goIndexingMap o1) its = Inr False
         \<or> goDefiningOp o2 = StreamLayoutOp \<and> needsStream (goDefiningOp o1) (goIsOutput o1) (goIndexingMap o1) its = Inr True
           \<and> goIsOutput o2 = goIsOutput o1 \<and> goIndexingMap o2 = goIndexingMap o1
           \<and> goMemref o2 = (goMemref o1)\<lparr>dmLayout := ViewLayout (length (dmShape (goMemref o1)))\<rparr>) operands operands'"
  using assms
proof (induction operands arbitrary: storages operands' modified)
  case (Cons operand rest)
  then obtain needs where n: "needsStream (goDefiningOp operand) (goIsOutput operand) (goIndexingMap operand) its = Inr needs"
    by (auto simp: rbind_Inr_iff)
  show ?case
  proof (cases needs)
    case False
    with Cons.prems n obtain rest' where "allocateStreams its rest = Inr (storages, rest', modified)" "operands' = operand # rest'"
      by (auto simp: rbind_Inr_iff)
    with Cons.IH n False show ?thesis by simp
  next
    case True
    with Cons.prems n obtain storage operand' ss rest' m where i: "insertStream operand = Inr (storage, operand')"
      and r: "allocateStreams its rest = Inr (ss, rest', m)" "operands' = operand' # rest'" "storages = storage # ss" "modified"
      by (auto simp: rbind_Inr_iff)
    from i have "goDefiningOp operand' = StreamLayoutOp \<and> goIsOutput operand' = goIsOutput operand
        \<and> goIndexingMap operand' = goIndexingMap operand
        \<and> goMemref operand' = (goMemref operand)\<lparr>dmLayout := ViewLayout (length (dmShape (goMemref operand)))\<rparr>"
      by (auto simp: insertStream_def Let_def rbind_Inr_iff)
    with Cons.IH[OF r(1)] r n True show ?thesis by simp
  qed
qed simp

lemma allocateStreams_settled:
  assumes "\<forall>operand \<in> set operands. needsStream (goDefiningOp operand) (goIsOutput operand) (goIndexingMap operand) its = Inr False"
  shows "allocateStreams its operands = Inr ([], operands, False)"
  using assms by (induction operands) auto

text \<open>
  C19: the stream pattern reaches its fixed point in one application: whatever the first
  application did, the next one inserts nothing and reports no change, so the greedy driver
  stops. The first one reports a change exactly when it allocated a storage, and it redirects
  exactly the operands that need a stream, keeping the shape, element type and memory space of
  their memref.
\<close>

theorem allocateStreams_fixpoint:
  assumes "allocateStreams its operands = Inr (storages, operands', modified)"
  shows "allocateStreams its operands' = Inr ([], operands', False)
    \<and> (modified \<longleftrightarrow> storages \<noteq> []) \<and> (\<not> modified \<longrightarrow> operands' = operands)
    \<and> list_all2 (\<lambda>o1 o2.
         dmShape (goMemref o2) = dmShape (goMemref o1) \<and> dmElem (goMemref o2) = dmElem (goMemref o1)
       \<and> dmSpace (goMemref o2) = dmSpace (goMemref o1)
       \<and> (goDefiningOp o2 = StreamLayoutOp \<longleftrightarrow> goDefiningOp o1 = StreamLayoutOp
            \<or> needsStream (goDefiningOp o1) (goIsOutput o1) (goIndexingMap o1) its = Inr True)) operands operands'"
proof -
  note out = allocateStreams_output[OF assms]
  have rel: "list_all2 (\<lambda>o1 o2. o2 = o1 \<and> needsStream (goDefiningOp o1) (goIsOutput o1) (goIndexingMap o1) its = Inr False
         \<or> goDefiningOp o2 = StreamLayoutOp \<and> needsStream (goDefiningOp o1) (goIsOutput o1) (goIndexingMap o1) its = Inr True
           \<and> goIsOutput o2 = goIsOutput o1 \<and> goIndexingMap o2 = goIndexingMap o1
           \<and> goMemref o2 = (goMemref o1)\<lparr>dmLayout := ViewLayout (length (dmShape (goMemref o1)))\<rparr>) operands operands'"
    using out by blast
  have "\<forall>operand \<in> set operands'. needsStream (goDefiningOp operand) (goIsOutput operand) (goIndexingMap operand) its = Inr False"
  proof
    fix operand assume "operand \<in> set operands'"
    then obtain i where i: "i < length operands'" "operand = operands' ! i" by (auto simp: in_set_conv_nth)
    from list_all2_nthD2[OF rel i(1)] consider
        "operands' ! i = operands ! i" "needsStream (goDefiningOp (operands ! i)) (goIsOutput (operands ! i)) (goIndexingMap (operands ! i)) its = Inr False"
      | "goDefiningOp (operands' ! i) = StreamLayoutOp" by blast
    then show "needsStream (goDefiningOp operand) (goIsOutput operand) (goIndexingMap operand) its = Inr False"
      by cases (simp_all add: i(2) needsStream_def)
  qed
  then have "allocateStreams its operands' = Inr ([], operands', False)" by (rule allocateStreams_settled)
  moreover from rel have "list_all2 (\<lambda>o1 o2.
         dmShape (goMemref o2) = dmShape (goMemref o1) \<and> dmElem (goMemref o2) = dmElem (goMemref o1)
       \<and> dmSpace (goMemref o2) = dmSpace (goMemref o1)
       \<and> (goDefiningOp o2 = StreamLayoutOp \<longleftrightarrow> goDefiningOp o1 = StreamLayoutOp
            \<or> needsStream (goDefiningOp o1) (goIsOutput o1) (goIndexingMap o1) its = Inr True)) operands operands'"
    by (rule list_all2_mono) auto
  ultimately show ?thesis using out by blast
qed

definition exMatmulOperand :: "nat \<Rightarrow> nat \<Rightarrow> bool \<Rightarrow> generic_operand" where
  "exMatmulOperand d1 d2 isOut = \<lparr>goDefiningOp = OtherOp, goIsOutput = isOut,
     goIndexingMap = \<lparr>numDims = 3, numSyms = 0, results = [ADim d1, ADim d2]\<rparr>,
     goMemref = aoMemref (exAlloc DeviceL1 [1, 1, 3, 5])\<rparr>"

theorem allocateStreams_fixpoint_witness:
  "\<exists>storages operands'. allocateStreams [Parallel, Parallel, Reduction]
        [exMatmulOperand 0 2 False, exMatmulOperand 2 1 False, exMatmulOperand 0 1 True]
      = Inr (storages, operands', True)
    \<and> map goDefiningOp operands' = [StreamLayoutOp, StreamLayoutOp, OtherOp] \<and> length storages = 2
    \<and> allocateStreams [Parallel, Parallel, Reduction] operands' = Inr ([], operands', False)"
proof -
  let ?ops = "[exMatmulOperand 0 2 False, exMatmulOperand 2 1 False, exMatmulOperand 0 1 True]"
  have run: "map_sum id (\<lambda>(ss, ops, m). (length ss, map goDefiningOp ops, m))
      (allocateStreams [Parallel, Parallel, Reduction] ?ops) = Inr (2, [StreamLayoutOp, StreamLayoutOp, OtherOp], True)"
    by code_simp
  obtain ss ops m where r: "allocateStreams [Parallel, Parallel, Reduction] ?ops = Inr (ss, ops, m)"
    using run by (cases "allocateStreams [Parallel, Parallel, Reduction] ?ops") auto
  from allocateStreams_fixpoint[OF r] run r show ?thesis by auto
qed

end
