(* ===== verification/Scheduler.thy ===== *)
theory Scheduler
  imports Prelude
begin

text \<open>
  The op scheduler (\<open>lib/Scheduler/Scheduler.cpp\<close>): the schedulable ops of a function, the
  dependency map built from the users of the first result of every op, and the state machine
  of \<open>getScheduleableOps\<close> and \<open>scheduleOp\<close> that the sharding policies drive.

  The locale \<open>ready_scheduler\<close> states the contract of a scheduler that repeatedly takes a
  ready op; inside it every run is shown to be free of duplicates, ordered by the
  dependencies and, when these are well founded, never stuck. It is interpreted on the code.
\<close>

section \<open>The contract\<close>

text \<open>The runs of a scheduler: any ready op may be taken next. Orders that respect the
  dependencies.\<close>

inductive ready_run :: "('s \<Rightarrow> 'o \<Rightarrow> bool) \<Rightarrow> ('o \<Rightarrow> 's \<Rightarrow> 's) \<Rightarrow> 's \<Rightarrow> 's \<Rightarrow> bool"
  for ready take_op where
  refl: "ready_run ready take_op s s"
| step: "ready_run ready take_op s s' \<Longrightarrow> ready s' x \<Longrightarrow> ready_run ready take_op s (take_op x s')"

definition ordered_by :: "('o \<Rightarrow> 'o set) \<Rightarrow> 'o list \<Rightarrow> bool" where
  "ordered_by needs xs \<longleftrightarrow> distinct xs \<and> (\<forall>i < length xs. needs (xs ! i) \<subseteq> set (take i xs))"

lemma ordered_by_snoc:
  "ordered_by needs xs \<Longrightarrow> x \<notin> set xs \<Longrightarrow> needs x \<subseteq> set xs \<Longrightarrow> ordered_by needs (xs @ [x])"
  by (auto simp: ordered_by_def nth_append less_Suc_eq)

lemma ordered_by_Nil [simp]: "ordered_by needs []"
  by (simp add: ordered_by_def)

locale ready_scheduler =
  fixes pending :: "'s \<Rightarrow> 'o set"
    and issued :: "'s \<Rightarrow> 'o list"
    and ready :: "'s \<Rightarrow> 'o \<Rightarrow> bool"
    and take_op :: "'o \<Rightarrow> 's \<Rightarrow> 's"
    and needs :: "'o \<Rightarrow> 'o set"
    and inv :: "'s \<Rightarrow> bool"
  assumes finite_pending: "inv s \<Longrightarrow> finite (pending s)"
    and ready_iff: "inv s \<Longrightarrow> ready s x \<longleftrightarrow> x \<in> pending s \<and> needs x \<subseteq> set (issued s)"
    and take_inv: "inv s \<Longrightarrow> ready s x \<Longrightarrow> inv (take_op x s)"
    and take_pending: "inv s \<Longrightarrow> ready s x \<Longrightarrow> pending (take_op x s) = pending s - {x}"
    and take_issued: "inv s \<Longrightarrow> ready s x \<Longrightarrow> issued (take_op x s) = issued s @ [x]"
    and disjoint: "inv s \<Longrightarrow> pending s \<inter> set (issued s) = {}"
begin

lemma run_invariant:
  assumes "ready_run ready take_op s s'" and "inv s" and "ordered_by needs (issued s)"
  shows "inv s' \<and> ordered_by needs (issued s') \<and> pending s' \<union> set (issued s') = pending s \<union> set (issued s)"
  using assms
proof (induction rule: ready_run.induct)
  case (step s s' x)
  then have I: "inv s'" "ordered_by needs (issued s')" by blast+
  from I(1) step.hyps(2) have "x \<in> pending s'" "needs x \<subseteq> set (issued s')"
    by (simp_all add: ready_iff)
  moreover from this disjoint[OF I(1)] have "x \<notin> set (issued s')" by blast
  ultimately show ?case
    using step I ordered_by_snoc[OF I(2)] by (auto simp: take_inv take_pending take_issued)
qed simp

lemma not_stuck:
  assumes "inv s" and "pending s \<noteq> {}"
    and "wf r" and "\<forall>x \<in> pending s. needs x \<subseteq> pending s \<union> set (issued s) \<and> (\<forall>y \<in> needs x. (y, x) \<in> r)"
  shows "\<exists>x. ready s x"
proof -
  from assms(2) obtain z where "z \<in> pending s" by blast
  with assms(3) obtain x where x: "x \<in> pending s" "\<And>y. (y, x) \<in> r \<Longrightarrow> y \<notin> pending s"
    by (rule wfE_min) blast
  with assms(4) have "needs x \<subseteq> set (issued s)" by blast
  with x(1) assms(1) show ?thesis by (auto simp: ready_iff)
qed

lemma run_completes:
  assumes "inv s" and "ordered_by needs (issued s)"
    and "wf r" and "\<forall>x \<in> pending s. needs x \<subseteq> pending s \<union> set (issued s) \<and> (\<forall>y \<in> needs x. (y, x) \<in> r)"
  shows "\<exists>s'. ready_run ready take_op s s' \<and> pending s' = {}"
proof -
  have "ready_run ready take_op s s1 \<Longrightarrow> \<exists>s'. ready_run ready take_op s s' \<and> pending s' = {}" if "card (pending s1) = n" for n s1
    using that
  proof (induction n arbitrary: s1)
    case 0
    with run_invariant[OF 0(1) assms(1,2)] finite_pending[of s1] show ?case by auto
  next
    case (Suc n)
    note I = run_invariant[OF Suc.prems(1) assms(1,2)]
    from Suc.prems(2) have ne: "pending s1 \<noteq> {}" by auto
    have sub: "pending s1 \<subseteq> pending s"
      using Suc.prems(1) assms(1,2)
    proof (induction rule: ready_run.induct)
      case (step t t' x)
      then show ?case using run_invariant[OF step.hyps(1)] by (auto simp: take_pending)
    qed simp
    have "\<forall>x \<in> pending s1. needs x \<subseteq> pending s1 \<union> set (issued s1) \<and> (\<forall>y \<in> needs x. (y, x) \<in> r)"
      using assms(4) I sub by blast
    from not_stuck[OF _ ne assms(3) this] I obtain x where x: "ready s1 x" by blast
    then have "x \<in> pending s1" using I by (simp add: ready_iff)
    then have "card (pending (take_op x s1)) = n"
      using Suc.prems(2) I x finite_pending[of s1] by (simp add: take_pending)
    with Suc.IH[OF ready_run.step[OF Suc.prems(1) x]] show ?case by blast
  qed
  from this[OF HOL.refl ready_run.refl] show ?thesis .
qed

end

section \<open>The scheduler\<close>

datatype op_dialect = TTNNDialect | TTIRDialect | OtherDialect
datatype op_name = EmptyOp | GetDeviceOp | ComputeOp

text \<open>An op is known by its position; its operands are the results of other ops, given as
  the producer and the result number (block arguments and attributes play no role). A
  function has the ops of its block, and the ops nested in their regions, which appear only
  as users.\<close>

record sch_op =
  soId :: nat
  soDialect :: op_dialect
  soName :: op_name
  soNumResults :: nat
  soOperands :: "(nat \<times> nat) list"

record sch_func =
  sfOps :: "sch_op list"
  sfNested :: "sch_op list"

definition isTTNNScheduleableOp :: "sch_op \<Rightarrow> bool" where
  "isTTNNScheduleableOp op \<longleftrightarrow> soDialect op = TTNNDialect \<and> 0 < soNumResults op
     \<and> soName op \<noteq> EmptyOp \<and> soName op \<noteq> GetDeviceOp"

definition isTTIRSchedulableOp :: "sch_op \<Rightarrow> bool" where
  "isTTIRSchedulableOp op \<longleftrightarrow> soDialect op = TTIRDialect \<and> soName op \<noteq> EmptyOp"

definition isTTSchedulableOp :: "sch_op \<Rightarrow> bool" where
  "isTTSchedulableOp op \<longleftrightarrow> isTTNNScheduleableOp op \<or> isTTIRSchedulableOp op"

text \<open>\<open>Value::getUsers\<close>: one entry per use.\<close>

definition getUsers :: "sch_func \<Rightarrow> nat \<times> nat \<Rightarrow> sch_op list" where
  "getUsers f v = concat (map (\<lambda>op. replicate (length (filter ((=) v) (soOperands op))) op) (sfOps f @ sfNested f))"

text \<open>The state: the two sets hold op pointers in no particular order, here without
  duplicates. A missing dependency entry reads as empty.\<close>

record scheduler =
  scheduledOps :: "nat list"
  schSchedule :: "nat list"
  unscheduledOps :: "nat list"
  dependencies :: "nat \<Rightarrow> nat list"

text \<open>\<open>op.getResult(0)\<close> asserts that the op has a result; so does the user's.\<close>

definition addDependencies :: "sch_func \<Rightarrow> sch_op \<Rightarrow> (nat \<Rightarrow> nat list) \<Rightarrow> fault + (nat \<Rightarrow> nat list)" where
  "addDependencies f op deps =
     (if \<not> isTTSchedulableOp op then Inr deps
      else rbind (assertE SiteRank (0 < soNumResults op)) (\<lambda>_.
        foldE (\<lambda>use deps.
          if isTTSchedulableOp use
          then rbind (assertE SiteRank (0 < soNumResults use)) (\<lambda>_.
            if soId use \<noteq> soId op then Inr (deps(soId use := deps (soId use) @ [soId op])) else Inr deps)
          else Inr deps) (getUsers f (soId op, 0)) deps))"

definition schedulerOf :: "sch_func \<Rightarrow> fault + scheduler" where
  "schedulerOf f =
     rbind (foldE (addDependencies f) (sfOps f) (\<lambda>_. [])) (\<lambda>deps.
       Inr \<lparr>scheduledOps = [], schSchedule = [],
            unscheduledOps = remdups (map soId (filter isTTSchedulableOp (sfOps f))), dependencies = deps\<rparr>)"

definition canSchedule :: "scheduler \<Rightarrow> nat \<Rightarrow> bool" where
  "canSchedule s op \<longleftrightarrow> (\<forall>dep \<in> set (dependencies s op). dep \<in> set (scheduledOps s))"

definition getScheduleableOps :: "scheduler \<Rightarrow> nat list" where
  "getScheduleableOps s = filter (canSchedule s) (unscheduledOps s)"

definition scheduleOp :: "nat \<Rightarrow> scheduler \<Rightarrow> scheduler" where
  "scheduleOp op s = s\<lparr>scheduledOps := List.insert op (scheduledOps s),
     unscheduledOps := removeAll op (unscheduledOps s), schSchedule := schSchedule s @ [op]\<rparr>"

definition hasUnscheduledOps :: "scheduler \<Rightarrow> bool" where
  "hasUnscheduledOps s \<longleftrightarrow> unscheduledOps s \<noteq> []"

section \<open>What the dependency map holds\<close>

definition usesFirst :: "sch_op \<Rightarrow> sch_op \<Rightarrow> bool" where
  "usesFirst use op \<longleftrightarrow> (soId op, 0) \<in> set (soOperands use)"

lemma getUsers_set: "set (getUsers f v) = {op \<in> set (sfOps f) \<union> set (sfNested f). v \<in> set (soOperands op)}"
  by (auto simp: getUsers_def in_set_replicate filter_empty_conv)

lemma addUses:
  assumes "foldE (\<lambda>use deps.
          if isTTSchedulableOp use
          then rbind (assertE SiteRank (0 < soNumResults use)) (\<lambda>_.
            if soId use \<noteq> soId op then Inr (deps(soId use := deps (soId use) @ [soId op])) else Inr deps)
          else Inr deps) uses deps = Inr deps'"
  shows "y \<in> set (deps' x) \<longleftrightarrow> y \<in> set (deps x)
    \<or> y = soId op \<and> (\<exists>use \<in> set uses. isTTSchedulableOp use \<and> soId use = x \<and> x \<noteq> y)"
  using assms
  by (induction uses arbitrary: deps) (force simp: rbind_Inr_iff split: if_splits)+

lemma addAll:
  assumes "foldE (addDependencies f) ops deps = Inr deps'"
  shows "y \<in> set (deps' x) \<longleftrightarrow> y \<in> set (deps x) \<or> (\<exists>op \<in> set ops. isTTSchedulableOp op \<and> soId op = y
    \<and> (\<exists>use \<in> set (sfOps f) \<union> set (sfNested f). isTTSchedulableOp use \<and> soId use = x \<and> usesFirst use op \<and> x \<noteq> y))"
  using assms
proof (induction ops arbitrary: deps)
  case (Cons op ops)
  then obtain d1 where d1: "addDependencies f op deps = Inr d1" "foldE (addDependencies f) ops d1 = Inr deps'"
    by (auto simp: rbind_Inr_iff)
  have "y \<in> set (d1 x) \<longleftrightarrow> y \<in> set (deps x) \<or> isTTSchedulableOp op \<and> soId op = y
    \<and> (\<exists>use \<in> set (sfOps f) \<union> set (sfNested f). isTTSchedulableOp use \<and> soId use = x \<and> usesFirst use op \<and> x \<noteq> y)"
  proof (cases "isTTSchedulableOp op")
    case True
    with d1(1) show ?thesis
      by (auto simp: addDependencies_def rbind_Inr_iff dest!: addUses[of op _ _ _ y x] simp: getUsers_set usesFirst_def)
  qed (use d1(1) in \<open>simp add: addDependencies_def\<close>)
  with Cons.IH[OF d1(2)] show ?case by auto
qed simp

section \<open>The scheduler meets the contract\<close>

abbreviation isReady :: "scheduler \<Rightarrow> nat \<Rightarrow> bool" where
  "isReady s op \<equiv> op \<in> set (getScheduleableOps s)"

definition schInv :: "(nat \<Rightarrow> nat list) \<Rightarrow> scheduler \<Rightarrow> bool" where
  "schInv deps s \<longleftrightarrow> dependencies s = deps \<and> set (scheduledOps s) = set (schSchedule s)
     \<and> set (unscheduledOps s) \<inter> set (schSchedule s) = {}"

interpretation sch: ready_scheduler "\<lambda>s. set (unscheduledOps s)" schSchedule isReady scheduleOp
  "\<lambda>x. set (deps x)" "schInv deps" for deps
  by unfold_locales (auto simp: schInv_def getScheduleableOps_def canSchedule_def scheduleOp_def)

definition schedulableIds :: "sch_func \<Rightarrow> nat set" where
  "schedulableIds f = {soId op | op. op \<in> set (sfOps f) \<and> isTTSchedulableOp op}"

text \<open>\<open>dependsOn f x y\<close>: a schedulable op \<open>x\<close> uses the first result of the schedulable op
  \<open>y\<close> of the block.\<close>

definition dependsOn :: "sch_func \<Rightarrow> nat \<Rightarrow> nat \<Rightarrow> bool" where
  "dependsOn f x y \<longleftrightarrow> x \<noteq> y \<and> (\<exists>op \<in> set (sfOps f). isTTSchedulableOp op \<and> soId op = y
    \<and> (\<exists>use \<in> set (sfOps f) \<union> set (sfNested f). isTTSchedulableOp use \<and> soId use = x \<and> usesFirst use op))"

lemma schedulerOf_state:
  assumes "schedulerOf f = Inr s0"
  shows "schInv (dependencies s0) s0 \<and> schSchedule s0 = [] \<and> set (unscheduledOps s0) = schedulableIds f
    \<and> (\<forall>x. set (dependencies s0 x) = {y. dependsOn f x y})"
proof -
  from assms obtain deps where d: "foldE (addDependencies f) (sfOps f) (\<lambda>_. []) = Inr deps"
    and s0: "s0 = \<lparr>scheduledOps = [], schSchedule = [],
      unscheduledOps = remdups (map soId (filter isTTSchedulableOp (sfOps f))), dependencies = deps\<rparr>"
    by (auto simp: schedulerOf_def rbind_Inr_iff)
  have "y \<in> set (deps x) \<longleftrightarrow> dependsOn f x y" for x y
    using addAll[OF d, of y x] by (auto simp: dependsOn_def)
  then show ?thesis by (auto simp: s0 schInv_def schedulableIds_def)
qed

lemma ordered_by_before:
  assumes "ordered_by needs xs" and "x \<in> set xs" and "y \<in> needs x"
  shows "\<exists>i j. i < j \<and> j < length xs \<and> xs ! i = y \<and> xs ! j = x"
proof -
  from assms(2) obtain j where j: "j < length xs" "xs ! j = x" by (auto simp: in_set_conv_nth)
  with assms(1,3) have "y \<in> set (take j xs)" by (auto simp: ordered_by_def)
  then obtain i where "i < j" "xs ! i = y" using j(1) by (auto simp: in_set_conv_nth)
  with j show ?thesis by blast
qed

lemma run_not_stuck:
  assumes "schedulerOf f = Inr s0"
    and "\<forall>op \<in> set (sfOps f). \<forall>use \<in> set (sfOps f) \<union> set (sfNested f). usesFirst use op \<longrightarrow> soId op < soId use"
    and "ready_run isReady scheduleOp s0 s" and "hasUnscheduledOps s"
  shows "\<exists>x. isReady s x"
proof -
  let ?deps = "dependencies s0"
  note init = schedulerOf_state[OF assms(1)]
  then have I: "schInv ?deps s0" "ordered_by (\<lambda>x. set (?deps x)) (schSchedule s0)" by simp_all
  note R = sch.run_invariant[OF assms(3) I]
  have "\<forall>x. set (?deps x) \<subseteq> set (unscheduledOps s0) \<union> set (schSchedule s0) \<and> (\<forall>y \<in> set (?deps x). (y, x) \<in> less_than)"
    using init assms(2) by (auto simp: dependsOn_def schedulableIds_def)
  with R assms(4) show ?thesis
    by (intro sch.not_stuck[OF conjunct1[OF R] _ wf_less_than]) (auto simp: hasUnscheduledOps_def)
qed

text \<open>
  C20: however the ready ops are picked, at every point of a run the schedule holds no op
  twice, the scheduled and the unscheduled ops are disjoint and together are the schedulable
  ops of the function, and an op is scheduled only after every schedulable op whose first
  result it uses.
\<close>

theorem schedule_is_topological:
  assumes "schedulerOf f = Inr s0" and "ready_run isReady scheduleOp s0 s"
  shows "distinct (schSchedule s) \<and> set (schSchedule s) \<inter> set (unscheduledOps s) = {}
    \<and> set (schSchedule s) \<union> set (unscheduledOps s) = schedulableIds f
    \<and> (\<forall>x \<in> set (schSchedule s). \<forall>y. dependsOn f x y \<longrightarrow>
         (\<exists>i j. i < j \<and> j < length (schSchedule s) \<and> schSchedule s ! i = y \<and> schSchedule s ! j = x))"
proof -
  note init = schedulerOf_state[OF assms(1)]
  then have "schInv (dependencies s0) s0" "ordered_by (\<lambda>x. set (dependencies s0 x)) (schSchedule s0)" by simp_all
  note R = sch.run_invariant[OF assms(2) this]
  have "\<exists>i j. i < j \<and> j < length (schSchedule s) \<and> schSchedule s ! i = y \<and> schSchedule s ! j = x"
    if "x \<in> set (schSchedule s)" "dependsOn f x y" for x y
    using ordered_by_before[OF conjunct1[OF conjunct2[OF R]] that(1), of y] init that(2) by simp
  with R init show ?thesis by (auto simp: schInv_def ordered_by_def)
qed

definition exSchOp :: "nat \<Rightarrow> op_dialect \<Rightarrow> op_name \<Rightarrow> nat \<Rightarrow> (nat \<times> nat) list \<Rightarrow> sch_op" where
  "exSchOp n d nm res opnds = \<lparr>soId = n, soDialect = d, soName = nm, soNumResults = res, soOperands = opnds\<rparr>"

definition exFunc :: sch_func where
  "exFunc = \<lparr>sfOps = [exSchOp 0 TTNNDialect GetDeviceOp 1 [], exSchOp 1 TTNNDialect ComputeOp 1 [(0, 0)],
       exSchOp 2 TTNNDialect ComputeOp 1 [(0, 0)], exSchOp 3 TTNNDialect ComputeOp 1 [(1, 0), (2, 0)],
       exSchOp 4 OtherDialect ComputeOp 0 [(3, 0)]], sfNested = []\<rparr>"

definition exStart :: scheduler where
  "exStart = \<lparr>scheduledOps = [], schSchedule = [], unscheduledOps = [1, 2, 3],
     dependencies = (\<lambda>_. [])(3 := [1, 2])\<rparr>"

lemma exStart: "schedulerOf exFunc = Inr exStart"
  by (simp add: schedulerOf_def exFunc_def exSchOp_def addDependencies_def getUsers_def isTTSchedulableOp_def
      isTTNNScheduleableOp_def isTTIRSchedulableOp_def exStart_def assertE_def)

lemma exRun: "ready_run isReady scheduleOp exStart (scheduleOp 3 (scheduleOp 1 (scheduleOp 2 exStart)))"
  by (intro ready_run.intros)
    (simp_all add: exStart_def scheduleOp_def getScheduleableOps_def canSchedule_def)

theorem schedule_is_topological_witness:
  "schSchedule (scheduleOp 3 (scheduleOp 1 (scheduleOp 2 exStart))) = [2, 1, 3]
    \<and> schedulableIds exFunc = {1, 2, 3}"
proof -
  from schedule_is_topological[OF exStart exRun]
  have "schedulableIds exFunc = set [2, 1, 3] \<union> {}"
    by (simp add: exStart_def scheduleOp_def)
  then show ?thesis by (auto simp: exStart_def scheduleOp_def)
qed

text \<open>
  C21: when the uses of a function follow the definitions (every user of an op comes later in
  the numbering of the ops), the scheduler is never stuck: at every point of a run with
  unscheduled ops some op can be scheduled, and the function can be scheduled completely,
  every schedulable op exactly once.
\<close>

theorem scheduler_completes:
  assumes "schedulerOf f = Inr s0"
    and "\<forall>op \<in> set (sfOps f). \<forall>use \<in> set (sfOps f) \<union> set (sfNested f). usesFirst use op \<longrightarrow> soId op < soId use"
  shows "(\<forall>s. ready_run isReady scheduleOp s0 s \<longrightarrow> hasUnscheduledOps s \<longrightarrow> getScheduleableOps s \<noteq> [])
    \<and> (\<exists>s. ready_run isReady scheduleOp s0 s \<and> \<not> hasUnscheduledOps s
         \<and> distinct (schSchedule s) \<and> set (schSchedule s) = schedulableIds f)"
proof -
  let ?deps = "dependencies s0"
  note init = schedulerOf_state[OF assms(1)]
  then have I: "schInv ?deps s0" "ordered_by (\<lambda>x. set (?deps x)) (schSchedule s0)" by simp_all
  have wf: "\<forall>y \<in> set (?deps x). (y, x) \<in> less_than" for x
    using init assms(2) by (auto simp: dependsOn_def)
  have all: "set (?deps x) \<subseteq> set (unscheduledOps s0) \<union> set (schSchedule s0)" for x
    using init by (auto simp: dependsOn_def schedulableIds_def)
  have "getScheduleableOps s \<noteq> []" if r: "ready_run isReady scheduleOp s0 s" and "hasUnscheduledOps s" for s
    using run_not_stuck[OF assms that] by auto
  moreover from sch.run_completes[OF I wf_less_than] wf all
  obtain s where s: "ready_run isReady scheduleOp s0 s" "set (unscheduledOps s) = {}" by blast
  ultimately show ?thesis
    using sch.run_invariant[OF s(1) I] init by (auto simp: hasUnscheduledOps_def ordered_by_def intro!: exI[of _ s] s(1))
qed

theorem scheduler_completes_witness:
  "\<exists>s. ready_run isReady scheduleOp exStart s \<and> \<not> hasUnscheduledOps s \<and> distinct (schSchedule s)
    \<and> set (schSchedule s) = schedulableIds exFunc"
proof -
  have "\<forall>op \<in> set (sfOps exFunc). \<forall>use \<in> set (sfOps exFunc) \<union> set (sfNested exFunc).
      usesFirst use op \<longrightarrow> soId op < soId use"
    by (simp add: exFunc_def exSchOp_def usesFirst_def)
  from scheduler_completes[OF exStart this] show ?thesis by blast
qed

text \<open>
  Only the first result of an op makes a dependency. An op that uses no first result of a
  schedulable op is ready from the start, even when it uses their other results, and a run may
  schedule it before the ops it uses.
\<close>

theorem later_results_ignored:
  assumes "schedulerOf f = Inr s0" and "use \<in> set (sfOps f)" and "isTTSchedulableOp use"
    and "\<forall>v \<in> set (soOperands use). 0 < snd v"
    and "\<forall>op \<in> set (sfOps f) \<union> set (sfNested f). soId op = soId use \<longrightarrow> op = use"
  shows "ready_run isReady scheduleOp s0 (scheduleOp (soId use) s0) \<and> schSchedule (scheduleOp (soId use) s0) = [soId use]"
proof -
  note init = schedulerOf_state[OF assms(1)]
  have "\<not> dependsOn f (soId use) y" for y using assms(4,5) by (force simp: dependsOn_def usesFirst_def)
  with init have "set (dependencies s0 (soId use)) = {}" by auto
  then have "dependencies s0 (soId use) = []" by (simp only: set_empty)
  moreover have "soId use \<in> set (unscheduledOps s0)" using init assms(2,3) by (auto simp: schedulableIds_def)
  ultimately have "isReady s0 (soId use)" by (simp add: getScheduleableOps_def canSchedule_def)
  then have "ready_run isReady scheduleOp s0 (scheduleOp (soId use) s0)" by (intro ready_run.intros)
  with init show ?thesis by (simp add: scheduleOp_def)
qed

definition exTwoResults :: sch_func where
  "exTwoResults = \<lparr>sfOps = [exSchOp 0 TTNNDialect ComputeOp 2 [], exSchOp 1 TTNNDialect ComputeOp 1 [(0, 1)]], sfNested = []\<rparr>"

theorem later_results_ignored_witness:
  "\<exists>s0. schedulerOf exTwoResults = Inr s0 \<and> ready_run isReady scheduleOp s0 (scheduleOp 1 s0)
    \<and> schSchedule (scheduleOp 1 s0) = [1]"
proof -
  have "schedulerOf exTwoResults \<noteq> Inl e" for e
    by (simp add: schedulerOf_def exTwoResults_def exSchOp_def addDependencies_def getUsers_def isTTSchedulableOp_def
      isTTNNScheduleableOp_def isTTIRSchedulableOp_def assertE_def)
  then obtain s0 where s0: "schedulerOf exTwoResults = Inr s0" by (cases "schedulerOf exTwoResults") auto
  have "ready_run isReady scheduleOp s0 (scheduleOp 1 s0) \<and> schSchedule (scheduleOp 1 s0) = [1]"
    using later_results_ignored[OF s0, of "exSchOp 1 TTNNDialect ComputeOp 1 [(0, 1)]"]
    by (simp add: exTwoResults_def exSchOp_def isTTSchedulableOp_def isTTNNScheduleableOp_def)
  with s0 show ?thesis by blast
qed

end
