(* ===== verification/PathSets.thy ===== *)
theory PathSets
  imports Prelude "HOL-Library.Word" "HOL-Library.Multiset"
begin

text \<open>
  The path sets of the shard solver (\<open>ShardSolver.h\<close>): the 64-bit sets of op configs that are
  still possible, the pairs of producer and consumer configs allowed on an edge, and the two
  pruning operations. Pruning removes exactly the dead paths and narrows both bitsets to the
  configs that keep a path; it never widens a bitset, and it reports a change exactly when a
  bitset became smaller.
\<close>

unbundle bit_operations_syntax

section \<open>Bitsets\<close>

type_synonym bitset = "64 word"

definition kNumBitsetBits :: nat where
  "kNumBitsetBits = 64"

definition isSubset :: "bitset \<Rightarrow> bitset \<Rightarrow> bool" where
  "isSubset a b \<longleftrightarrow> a = a AND b"

text \<open>\<open>std::bitset::test\<close>, \<open>set\<close> and \<open>reset\<close> throw out of range.\<close>

definition bsTest :: "bitset \<Rightarrow> nat \<Rightarrow> fault + bool" where
  "bsTest b n = (if n < kNumBitsetBits then Inr (bit b n) else Inl OutOfBounds)"

definition bsSet :: "nat \<Rightarrow> bitset \<Rightarrow> fault + bitset" where
  "bsSet n b = (if n < kNumBitsetBits then Inr (set_bit n b) else Inl OutOfBounds)"

definition bsReset :: "nat \<Rightarrow> bitset \<Rightarrow> fault + bitset" where
  "bsReset n b = (if n < kNumBitsetBits then Inr (unset_bit n b) else Inl OutOfBounds)"

lemma bit_bound: "bit (b :: bitset) n \<Longrightarrow> n < 64"
  by (rule ccontr) (simp add: bit_word_def)

lemma isSubset_iff: "isSubset a b \<longleftrightarrow> (\<forall>n. bit a n \<longrightarrow> bit b n)"
  by (auto simp: isSubset_def bit_eq_iff bit_and_iff dest: bit_bound)

lemma bit_set64: "bit (set_bit n (b :: bitset)) m \<longleftrightarrow> n = m \<and> n < 64 \<or> bit b m"
  by (auto simp: bit_set_bit_iff)

definition bits :: "bitset \<Rightarrow> nat set" where
  "bits b = {n. bit b n}"

lemma finite_bits [simp]: "finite (bits b)"
  by (rule finite_subset[of _ "{..<64}"]) (auto simp: bits_def dest: bit_bound)

lemma bits_and: "bits (a AND b) = bits a \<inter> bits b"
  by (auto simp: bits_def bit_and_iff)

lemma zero_iff_no_bits: "b = 0 \<longleftrightarrow> bits b = {}"
  by (auto simp: bits_def bit_eq_iff dest: bit_bound)

definition totalBits :: "bitset list \<Rightarrow> nat" where
  "totalBits bs = (\<Sum>b \<leftarrow> bs. card (bits b))"

lemma totalBits_update:
  assumes "i < length bs"
  shows "totalBits (bs[i := b]) + card (bits (bs ! i)) = totalBits bs + card (bits b)"
  using assms
proof (induction bs arbitrary: i)
  case (Cons a bs)
  then show ?case by (cases i) (auto simp: totalBits_def)
qed simp

lemma totalBits_narrow:
  assumes "i < length bs"
  shows "totalBits (bs[i := bs ! i AND v]) \<le> totalBits bs"
    and "\<not> isSubset (bs ! i) v \<Longrightarrow> totalBits (bs[i := bs ! i AND v]) < totalBits bs"
proof -
  note eq = totalBits_update[OF assms, of "bs ! i AND v"]
  have sub: "bits (bs ! i AND v) \<subseteq> bits (bs ! i)" by (auto simp: bits_and)
  then show "totalBits (bs[i := bs ! i AND v]) \<le> totalBits bs"
    using eq card_mono[OF finite_bits sub] by linarith
  assume "\<not> isSubset (bs ! i) v"
  then have "bits (bs ! i AND v) \<subset> bits (bs ! i)" by (auto simp: isSubset_iff bits_and bits_def bit_and_iff)
  then show "totalBits (bs[i := bs ! i AND v]) < totalBits bs"
    using eq psubset_card_mono[OF finite_bits] by (metis add_less_cancel_right nat_add_left_cancel_less add.commute)
qed

section \<open>Path sets\<close>

record path =
  pathProducer :: nat
  pathConsumer :: nat

record path_set =
  psProducerSet :: nat
  psConsumerSet :: nat
  psProducerOp :: nat
  psConsumerOp :: nat
  psPaths :: "path list"

text \<open>The loop both operations share: a dead path is overwritten by the last one, which is
  dropped, and the index stays.\<close>

function pruneLoop ::
  "bitset \<Rightarrow> bitset \<Rightarrow> nat \<Rightarrow> path list \<Rightarrow> bitset \<Rightarrow> bitset \<Rightarrow> path list \<times> bitset \<times> bitset" where
  "pruneLoop producer consumer i paths validProducer validConsumer =
     (if length paths \<le> i then (paths, validProducer, validConsumer)
      else let path = paths ! i in
        if bit consumer (pathConsumer path) \<and> bit producer (pathProducer path)
        then pruneLoop producer consumer (Suc i) paths
               (set_bit (pathProducer path) validProducer) (set_bit (pathConsumer path) validConsumer)
        else pruneLoop producer consumer i (butlast (paths[i := last paths])) validProducer validConsumer)"
  by pat_completeness auto
termination by (relation "measure (\<lambda>(_, _, i, paths, _, _). length paths - i)") auto

declare pruneLoop.simps [simp del]

definition alive :: "bitset \<Rightarrow> bitset \<Rightarrow> path \<Rightarrow> bool" where
  "alive producer consumer path \<longleftrightarrow> bit producer (pathProducer path) \<and> bit consumer (pathConsumer path)"

lemma swap_remove:
  assumes "i < length xs"
  shows "length (butlast (xs[i := last xs])) = length xs - 1"
    and "take i (butlast (xs[i := last xs])) = take i xs"
    and "mset (drop i (butlast (xs[i := last xs]))) + {#xs ! i#} = mset (drop i xs)"
proof -
  show "length (butlast (xs[i := last xs])) = length xs - 1" by simp
  show "take i (butlast (xs[i := last xs])) = take i xs"
    using assms by (intro nth_equalityI) (auto simp: nth_butlast)
  obtain ys x zs where xs: "xs = ys @ x # zs" and len: "length ys = i"
    using assms id_take_nth_drop[OF assms] by (metis length_take min.absorb4)
  show "mset (drop i (butlast (xs[i := last xs]))) + {#xs ! i#} = mset (drop i xs)"
  proof (cases "zs = []")
    case True
    then show ?thesis using len by (simp add: xs list_update_append nth_append butlast_append)
  next
    case False
    have "mset zs = add_mset (last zs) (mset (butlast zs))"
      by (subst append_butlast_last_id[OF False, symmetric]) simp
    then show ?thesis using len False
      by (simp add: xs list_update_append nth_append butlast_append)
  qed
qed

lemma pruneLoop_result:
  assumes "pruneLoop P C i paths vp vc = (paths', vp', vc')" and "i \<le> length paths"
  shows "mset paths' = mset (take i paths) + filter_mset (alive P C) (mset (drop i paths))
    \<and> (\<forall>n. bit vp' n \<longleftrightarrow> bit vp n \<or> (\<exists>p \<in> set (drop i paths). alive P C p \<and> pathProducer p = n))
    \<and> (\<forall>n. bit vc' n \<longleftrightarrow> bit vc n \<or> (\<exists>p \<in> set (drop i paths). alive P C p \<and> pathConsumer p = n))"
  using assms
proof (induction P C i paths vp vc arbitrary: paths' vp' vc' rule: pruneLoop.induct)
  case (1 P C i paths vp vc)
  show ?case
  proof (cases "length paths \<le> i")
    case True
    with 1(3,4) show ?thesis by (simp add: pruneLoop.simps[of P C i])
  next
    case False
    then have i: "i < length paths" by simp
    let ?p = "paths ! i"
    have drop: "drop i paths = ?p # drop (Suc i) paths" using i by (simp add: Cons_nth_drop_Suc)
    have take: "take (Suc i) paths = take i paths @ [?p]" using i by (simp add: take_Suc_conv_app_nth)
    show ?thesis
    proof (cases "alive P C ?p")
      case True
      then have cond: "bit C (pathConsumer ?p) \<and> bit P (pathProducer ?p)" by (simp add: alive_def)
      have lt: "pathProducer ?p < 64" "pathConsumer ?p < 64" using cond by (auto dest: bit_bound)
      from 1(3) cond i have rec: "pruneLoop P C (Suc i) paths (set_bit (pathProducer ?p) vp) (set_bit (pathConsumer ?p) vc)
          = (paths', vp', vc')" by (simp add: pruneLoop.simps[of P C i] Let_def)
      from 1(1)[OF False HOL.refl cond rec] i True lt show ?thesis
        unfolding drop take by (auto simp: bit_set64)
    next
      case False2: False
      then have cond: "\<not> (bit C (pathConsumer ?p) \<and> bit P (pathProducer ?p))" by (auto simp: alive_def)
      let ?q = "butlast (paths[i := last paths])"
      from 1(3) cond i have rec: "pruneLoop P C i ?q vp vc = (paths', vp', vc')"
        by (simp add: pruneLoop.simps[of P C i paths] Let_def)
      note sw = swap_remove[OF i]
      have "i \<le> length ?q" using sw(1) i by simp
      note IH = 1(2)[OF False HOL.refl cond rec this]
      have ms: "filter_mset (alive P C) (mset (drop i ?q)) = filter_mset (alive P C) (mset (drop i paths))"
        using False2 unfolding sw(3)[symmetric] by simp
      have "x \<in># mset (drop i ?q) + {#?p#} \<longleftrightarrow> x \<in># mset (drop i paths)" for x using sw(3) by simp
      then have mem: "(\<exists>p \<in> set (drop i ?q). alive P C p \<and> Q p) \<longleftrightarrow> (\<exists>p \<in> set (drop i paths). alive P C p \<and> Q p)" for Q
        using False2 by (metis (no_types, opaque_lifting) set_mset_mset union_iff set_mset_single singletonD insertE mset_subset_eq_insertD union_single_eq_member add_mset_add_single insert_iff set_mset_add_mset_insert)
      show ?thesis using IH unfolding sw(2) ms mem by blast
    qed
  qed
qed

lemma prune_all:
  assumes "pruneLoop P C 0 paths 0 0 = (paths', vp, vc)"
  shows "set paths' = {p \<in> set paths. alive P C p}" and "length paths' \<le> length paths"
    and "bits vp = pathProducer ` set paths'" and "bits vc = pathConsumer ` set paths'"
proof -
  note r = pruneLoop_result[OF assms le0]
  then have m: "mset paths' = filter_mset (alive P C) (mset paths)" by simp
  then have "set_mset (mset paths') = {p \<in> set_mset (mset paths). alive P C p}" by auto
  then show s: "set paths' = {p \<in> set paths. alive P C p}" by simp
  have "size (mset paths') \<le> size (mset paths)" unfolding m by (rule size_filter_mset_lesseq)
  then show "length paths' \<le> length paths" by simp
  show "bits vp = pathProducer ` set paths'" "bits vc = pathConsumer ` set paths'"
    using r unfolding s by (auto simp: bits_def)
qed

section \<open>Updating\<close>

definition psEmpty :: "path_set \<Rightarrow> bitset list \<Rightarrow> fault + bool" where
  "psEmpty ps bs =
     (if psPaths ps = [] then Inr True
      else rbind (at bs (psProducerSet ps)) (\<lambda>producer.
           if producer = 0 then Inr True
           else rbind (at bs (psConsumerSet ps)) (\<lambda>consumer. Inr (consumer = 0))))"

definition psUpdate :: "path_set \<Rightarrow> bitset list \<Rightarrow> fault + path_set \<times> bitset list \<times> bool" where
  "psUpdate ps bs =
     rbind (at bs (psProducerSet ps)) (\<lambda>producer.
     rbind (at bs (psConsumerSet ps)) (\<lambda>consumer.
       let (paths', validProducer, validConsumer) = pruneLoop producer consumer 0 (psPaths ps) 0 0;
           unchanged = isSubset producer validProducer \<and> isSubset consumer validConsumer;
           bs1 = bs[psProducerSet ps := bs ! psProducerSet ps AND validProducer];
           bs2 = bs1[psConsumerSet ps := bs1 ! psConsumerSet ps AND validConsumer]
       in Inr (ps\<lparr>psPaths := paths'\<rparr>, (if unchanged then bs else bs2), \<not> unchanged)))"

text \<open>The worklist of the path processor: a vector used as a stack, and the set of the ops in
  it.\<close>

record processor =
  prQueue :: "nat list"
  prControl :: "nat list"

definition addOp :: "nat \<Rightarrow> processor \<Rightarrow> processor" where
  "addOp operation pr =
     (if operation \<notin> set (prControl pr)
      then pr\<lparr>prQueue := prQueue pr @ [operation], prControl := operation # prControl pr\<rparr> else pr)"

definition updateOperationProcessor ::
  "path_set \<Rightarrow> bitset list \<times> processor \<Rightarrow> fault + path_set \<times> bitset list \<times> processor" where
  "updateOperationProcessor ps = (\<lambda>(bs, pr).
     rbind (at bs (psProducerSet ps)) (\<lambda>producer.
     rbind (at bs (psConsumerSet ps)) (\<lambda>consumer.
       let (paths', validProducer, validConsumer) = pruneLoop producer consumer 0 (psPaths ps) 0 0;
           (bs1, pr1) = (if \<not> isSubset producer validProducer
             then (bs[psProducerSet ps := bs ! psProducerSet ps AND validProducer],
                   addOp (psProducerOp ps) (addOp (psConsumerOp ps) pr)) else (bs, pr));
           (bs2, pr2) = (if \<not> isSubset consumer validConsumer
             then (bs1[psConsumerSet ps := bs1 ! psConsumerSet ps AND validConsumer],
                   addOp (psConsumerOp ps) (addOp (psProducerOp ps) pr1)) else (bs1, pr1))
       in Inr (ps\<lparr>psPaths := paths'\<rparr>, bs2, pr2))))"

section \<open>What an update does\<close>

text \<open>\<open>narrowed bs bs'\<close>: no bitset gained a config.\<close>

definition narrowed :: "bitset list \<Rightarrow> bitset list \<Rightarrow> bool" where
  "narrowed bs bs' \<longleftrightarrow> length bs' = length bs \<and> (\<forall>i < length bs. bits (bs' ! i) \<subseteq> bits (bs ! i))"

lemma narrowed_refl [simp]: "narrowed bs bs"
  by (simp add: narrowed_def)

lemma narrowed_trans: "narrowed a b \<Longrightarrow> narrowed b c \<Longrightarrow> narrowed a c"
  unfolding narrowed_def by (metis subset_trans)

lemma narrowed_and: "narrowed bs (bs[i := bs ! i AND v])"
proof -
  have "bits (bs[i := bs ! i AND v] ! j) \<subseteq> bits (bs ! j)" if "j < length bs" for j
    using that by (cases "i = j") (simp_all add: bits_and)
  then show ?thesis by (simp add: narrowed_def)
qed

lemma narrowed_nth: "narrowed bs bs' \<Longrightarrow> i < length bs \<Longrightarrow> bits (bs' ! i) \<subseteq> bits (bs ! i)"
  by (simp add: narrowed_def)

text \<open>The same path set with some of its paths.\<close>

definition ps_below :: "path_set \<Rightarrow> path_set \<Rightarrow> bool" where
  "ps_below ps ps' \<longleftrightarrow> psProducerSet ps' = psProducerSet ps \<and> psConsumerSet ps' = psConsumerSet ps
     \<and> psProducerOp ps' = psProducerOp ps \<and> psConsumerOp ps' = psConsumerOp ps
     \<and> set (psPaths ps') \<subseteq> set (psPaths ps)"

text \<open>A path set is consistent with the bitsets when every config left on either side has a
  path to a config left on the other.\<close>

definition consistent :: "path_set \<Rightarrow> bitset list \<Rightarrow> bool" where
  "consistent ps bs \<longleftrightarrow>
     (let live = {p \<in> set (psPaths ps). alive (bs ! psProducerSet ps) (bs ! psConsumerSet ps) p} in
      bits (bs ! psProducerSet ps) \<subseteq> pathProducer ` live \<and> bits (bs ! psConsumerSet ps) \<subseteq> pathConsumer ` live)"

lemma isSubset_bits: "isSubset a b \<longleftrightarrow> bits a \<subseteq> bits b"
  by (auto simp: isSubset_iff bits_def)

lemma psUpdate_result:
  assumes "psUpdate ps bs = Inr (ps', bs', changed)"
  shows "ps_below ps ps'" and "narrowed bs bs'"
    and "\<not> changed \<Longrightarrow> bs' = bs \<and> consistent ps bs \<and> consistent ps' bs"
    and "changed \<Longrightarrow> totalBits bs' < totalBits bs"
    and "\<And>i. i \<noteq> psProducerSet ps \<Longrightarrow> i \<noteq> psConsumerSet ps \<Longrightarrow> bs' ! i = bs ! i"
    and "set (psPaths ps') = {p \<in> set (psPaths ps). alive (bs ! psProducerSet ps) (bs ! psConsumerSet ps) p}"
    and "bits (bs' ! psProducerSet ps) \<subseteq> pathProducer ` set (psPaths ps')"
    and "bits (bs' ! psConsumerSet ps) \<subseteq> pathConsumer ` set (psPaths ps')"
    and "psProducerSet ps < length bs" and "psConsumerSet ps < length bs"
proof -
  let ?a = "psProducerSet ps" and ?b = "psConsumerSet ps"
  from assms have len: "?a < length bs" "?b < length bs" by (auto simp: psUpdate_def rbind_Inr_iff at_Inr_iff)
  obtain paths' vp vc where pr: "pruneLoop (bs ! ?a) (bs ! ?b) 0 (psPaths ps) 0 0 = (paths', vp, vc)"
    by (metis prod_cases3)
  note P = prune_all[OF pr]
  let ?bs1 = "bs[?a := bs ! ?a AND vp]"
  let ?bs2 = "?bs1[?b := ?bs1 ! ?b AND vc]"
  from assms pr len have ps': "ps' = ps\<lparr>psPaths := paths'\<rparr>"
    and ch: "changed \<longleftrightarrow> \<not> (isSubset (bs ! ?a) vp \<and> isSubset (bs ! ?b) vc)"
    and bs': "bs' = (if changed then ?bs2 else bs)"
    by (auto simp: psUpdate_def Let_def)
  show "psProducerSet ps < length bs" "psConsumerSet ps < length bs" by (fact len)+
  show paths: "set (psPaths ps') = {p \<in> set (psPaths ps). alive (bs ! ?a) (bs ! ?b) p}" using P(1) ps' by simp
  show "ps_below ps ps'" using P(1) by (auto simp: ps_below_def ps')
  have n2: "narrowed bs ?bs2" by (rule narrowed_trans[OF narrowed_and narrowed_and])
  then show "narrowed bs bs'" by (simp add: bs')
  show "bs' ! i = bs ! i" if "i \<noteq> ?a" "i \<noteq> ?b" for i using that by (simp add: bs')
  show "bs' = bs \<and> consistent ps bs \<and> consistent ps' bs" if "\<not> changed"
    using that ch P by (auto simp: bs' ps' consistent_def Let_def isSubset_bits)
  show "bits (bs' ! ?a) \<subseteq> pathProducer ` set (psPaths ps')"
  proof (cases changed)
    case True
    have "bits (?bs1 ! ?a) \<subseteq> bits vp" using len by (simp add: bits_and)
    moreover have "bits (?bs2 ! ?a) \<subseteq> bits (?bs1 ! ?a)" using len narrowed_nth[OF narrowed_and[of ?bs1 ?b vc], of ?a] by (simp del: nth_list_update nth_list_update_eq nth_list_update_neq)
    ultimately show ?thesis using True P by (simp add: bs' ps')
  qed (use ch P in \<open>simp add: bs' ps' isSubset_bits\<close>)
  show "bits (bs' ! ?b) \<subseteq> pathConsumer ` set (psPaths ps')"
    using ch P len by (cases changed) (simp_all add: bs' ps' isSubset_bits bits_and)
  show "totalBits bs' < totalBits bs" if changed
  proof (cases "isSubset (bs ! ?a) vp")
    case False
    then have "totalBits ?bs1 < totalBits bs" using len by (simp add: totalBits_narrow)
    moreover have "totalBits ?bs2 \<le> totalBits ?bs1" using len by (intro totalBits_narrow) simp
    ultimately show ?thesis using that by (simp add: bs')
  next
    case True
    with that ch have b: "\<not> isSubset (bs ! ?b) vc" by simp
    from True have "bs ! ?a AND vp = bs ! ?a" by (simp add: isSubset_def)
    then have "?bs1 = bs" by simp
    with b len that show ?thesis by (simp add: bs' totalBits_narrow)
  qed
qed

lemma updateOperationProcessor_result:
  assumes "updateOperationProcessor ps (bs, pr) = Inr (ps', bs', pr')"
  shows "ps_below ps ps'" and "narrowed bs bs'"
    and "bs' = bs \<and> pr' = pr \<or> totalBits bs' < totalBits bs"
    and "set (psPaths ps') = {p \<in> set (psPaths ps). alive (bs ! psProducerSet ps) (bs ! psConsumerSet ps) p}"
    and "psProducerSet ps < length bs" and "psConsumerSet ps < length bs"
proof -
  let ?a = "psProducerSet ps" and ?b = "psConsumerSet ps"
  from assms have len: "?a < length bs" "?b < length bs"
    by (auto simp: updateOperationProcessor_def rbind_Inr_iff at_Inr_iff)
  obtain paths' vp vc where pr: "pruneLoop (bs ! ?a) (bs ! ?b) 0 (psPaths ps) 0 0 = (paths', vp, vc)"
    by (metis prod_cases3)
  note P = prune_all[OF pr]
  define bs1 where "bs1 = (if isSubset (bs ! ?a) vp then bs else bs[?a := bs ! ?a AND vp])"
  from assms pr len have ps': "ps' = ps\<lparr>psPaths := paths'\<rparr>"
    and bs': "bs' = (if isSubset (bs ! ?b) vc then bs1 else bs1[?b := bs1 ! ?b AND vc])"
    and same: "isSubset (bs ! ?a) vp \<Longrightarrow> isSubset (bs ! ?b) vc \<Longrightarrow> pr' = pr"
    by (auto simp: updateOperationProcessor_def Let_def bs1_def split: if_splits)
  show "psProducerSet ps < length bs" "psConsumerSet ps < length bs" by (fact len)+
  show "set (psPaths ps') = {p \<in> set (psPaths ps). alive (bs ! ?a) (bs ! ?b) p}" using P(1) ps' by simp
  show "ps_below ps ps'" using P(1) by (auto simp: ps_below_def ps')
  have n1: "narrowed bs bs1" by (simp add: bs1_def narrowed_and)
  have n2: "narrowed bs1 bs'" by (simp add: bs' narrowed_and)
  from narrowed_trans[OF n1 n2] show "narrowed bs bs'" .
  have l1: "length bs1 = length bs" by (simp add: bs1_def)
  have le: "totalBits bs' \<le> totalBits bs1"
    unfolding bs' using totalBits_narrow(1)[of ?b bs1 vc] len l1 by (cases "isSubset (bs ! ?b) vc") simp_all
  show "bs' = bs \<and> pr' = pr \<or> totalBits bs' < totalBits bs"
  proof (cases "isSubset (bs ! ?a) vp")
    case False
    then have "totalBits bs1 < totalBits bs" using len by (simp add: bs1_def totalBits_narrow)
    with le show ?thesis by simp
  next
    case True
    then show ?thesis using same len by (cases "isSubset (bs ! ?b) vc") (simp_all add: bs' bs1_def totalBits_narrow)
  qed
qed

end
