(* ===== verification/ShardSolver.thy ===== *)
theory ShardSolver
  imports PathSets TTNNUtils
begin

text \<open>
  The shard solver of the TTNN optimizer (\<open>Dialect/TTNN/Analysis/ShardSolver.cpp\<close>). For a
  chain of ops with legal configs it keeps, per op, the bitset of the configs still possible
  and, per edge inside the chain, the set of allowed config pairs. \<open>resolve\<close> builds the path
  sets from the compatibility check (inserting a reshard where no pair is compatible) and
  propagates; \<open>set\<close> fixes the config of an op and propagates again.

  The backend that answers the compatibility queries is a parameter of the context, as is the
  hook the unit tests install in its place.
\<close>

unbundle bit_operations_syntax

section \<open>The context: ops, configs, backend\<close>

datatype ir_value = OpResult nat nat | BlockArg nat

datatype value_type = DeviceValue | RankedTensor tensor_type

record ir_op =
  irOperands :: "ir_value list"
  irUsers :: "nat list"
  irIsDPS :: bool

fun definingOp :: "ir_value \<Rightarrow> nat option" where
  "definingOp (OpResult op r) = Some op"
| "definingOp (BlockArg n) = None"

text \<open>A layout and an op-specific attribute may both be null.\<close>

record op_config =
  ocOutputLayout :: "ttnn_layout_attr option"
  ocOpSpecificAttr :: "nat option"

record edge =
  egProducer :: "nat option"
  egConsumer :: nat
  egOperandIndex :: nat

datatype solver_error = OutputLayoutMismatch | NotEnoughL1Memory | BackendError string

type_synonym op_constraints =
  "ttnn_layout_attr list \<Rightarrow> op_config \<Rightarrow> solver_error + 64 word \<times> 64 word \<times> 64 word \<times> ttnn_layout_attr"

type_synonym shard_check =
  "ir_value \<Rightarrow> ttnn_layout_attr \<Rightarrow> nat \<Rightarrow> op_config \<Rightarrow> solver_error + ttnn_layout_attr"

text \<open>Layouts by page layout (row major, tiled) and memory layout (interleaved, sharded).\<close>

type_synonym page_layouts = "nat \<Rightarrow> nat \<Rightarrow> ttnn_layout_attr list"

record solver_ctx =
  scOp :: "nat \<Rightarrow> ir_op"
  scType :: "ir_value \<Rightarrow> value_type"
  scPossibleLayouts :: "tensor_type \<Rightarrow> (scalar_type \<Rightarrow> page_layouts option) option"
  scLegalConfigs :: "nat \<Rightarrow> op_config list option"
  scShardSpecs :: "nat list"
  scShardedOps :: "nat list"
  scUsableL1CacheSize :: "32 word"
  scReconfigEdges :: "edge list"
  scCustomCheck :: "shard_check option"
  scBackend :: "nat \<Rightarrow> op_constraints option"
  scWorkerGrid :: grid_attr

definition getLegalConfigs :: "solver_ctx \<Rightarrow> nat \<Rightarrow> op_config list" where
  "getLegalConfigs ctx operation = (case scLegalConfigs ctx operation of Some configs \<Rightarrow> configs | None \<Rightarrow> [])"

definition getShardedLayouts :: "solver_ctx \<Rightarrow> tensor_type \<Rightarrow> scalar_type \<Rightarrow> fault + ttnn_layout_attr list" where
  "getShardedLayouts ctx tensorType scalarElementType =
     (case scPossibleLayouts ctx tensorType of
        None \<Rightarrow> Inl (AssertFailed SiteOther)
      | Some byScalar \<Rightarrow> (case byScalar scalarElementType of
          None \<Rightarrow> Inl (AssertFailed SiteOther)
        | Some pages \<Rightarrow> Inr (concat (map (\<lambda>pageLayoutIdx. pages pageLayoutIdx 1) [0..<2]))))"

text \<open>The edges into an op from producers inside the chain, and the two edge maps the
  constructor fills.\<close>

definition chainEdges :: "solver_ctx \<Rightarrow> nat \<Rightarrow> edge list" where
  "chainEdges ctx operation =
     concat (map (\<lambda>i. case definingOp (irOperands (scOp ctx operation) ! i) of
         Some p \<Rightarrow> (if p \<in> set (scShardedOps ctx)
                     then [\<lparr>egProducer = Some p, egConsumer = operation, egOperandIndex = i\<rparr>] else [])
       | None \<Rightarrow> []) [0..<length (irOperands (scOp ctx operation))])"

definition allChainEdges :: "solver_ctx \<Rightarrow> edge list" where
  "allChainEdges ctx = concat (map (chainEdges ctx) (scShardSpecs ctx))"

definition operandOpEdges :: "solver_ctx \<Rightarrow> nat \<Rightarrow> edge list" where
  "operandOpEdges ctx operation = filter (\<lambda>e. egConsumer e = operation) (allChainEdges ctx)"

definition userOpEdges :: "solver_ctx \<Rightarrow> nat \<Rightarrow> edge list" where
  "userOpEdges ctx operation = filter (\<lambda>e. egProducer e = Some operation) (allChainEdges ctx)"

section \<open>The compatibility check\<close>

text \<open>Single precision: numbers are rounded to 24 significant bits, ties to even.\<close>

definition nearestEven :: "int \<Rightarrow> int \<Rightarrow> int" where
  "nearestEven p q = (let n = p div q; r = p mod q in if q < 2 * r \<or> q = 2 * r \<and> odd n then n + 1 else n)"

function roundQuotient :: "int \<Rightarrow> int \<Rightarrow> int" where
  "roundQuotient p q =
     (if p \<le> 0 \<or> q \<le> 0 then 0
      else if p div q < 16777216 then nearestEven p q
      else 2 * roundQuotient p (2 * q))"
  by pat_completeness auto
termination
proof (relation "measure (\<lambda>(p, q). nat (p div q))", goal_cases)
  case (2 p q)
  then have "16777216 \<le> p div q" by simp
  moreover have "p div (2 * q) = p div q div 2" using 2 by (simp add: zdiv_zmult2_eq mult.commute)
  ultimately show ?case by simp
qed simp

declare roundQuotient.simps [simp del]

definition roundF32 :: "int \<Rightarrow> int" where
  "roundF32 n = roundQuotient n 1"

text \<open>\<open>0.8f\<close> is 13421773 / 2^24; rounding commutes with powers of two, so the comparison
  \<open>usage < 0.8f * usable\<close> is done on numbers scaled by 2^24.\<close>

definition usageBelowCap :: "64 word \<Rightarrow> 32 word \<Rightarrow> bool" where
  "usageBelowCap usage usable \<longleftrightarrow>
     roundF32 (uint usage) * 16777216 < roundF32 (13421773 * roundF32 (uint usable))"

text \<open>The layouts the backend is asked about: the layout under check for every occurrence of
  the operand, tiled interleaved DRAM for the other tensors; device operands are skipped.\<close>

definition backendInputs ::
  "solver_ctx \<Rightarrow> ir_value \<Rightarrow> ttnn_layout_attr \<Rightarrow> nat \<Rightarrow> fault + ttnn_layout_attr list \<times> bool" where
  "backendInputs ctx producerOperand producerLayout consumerOp =
     (let operands = irOperands (scOp ctx consumerOp);
          numOperands = (if irIsDPS (scOp ctx consumerOp) then length operands - 1 else length operands)
      in foldE (\<lambda>operand (inputs, found).
           if scType ctx operand = DeviceValue then Inr (inputs, found)
           else if operand = producerOperand then Inr (inputs @ [producerLayout], True)
           else case scType ctx operand of
             DeviceValue \<Rightarrow> Inr (inputs, found)
           | RankedTensor ty \<Rightarrow>
               rbind (case ttElem ty of TileElem t \<Rightarrow> Inr (TileElem t)
                      | Scalar s \<Rightarrow> rbind (tileTypeGet s [TILE_HEIGHT, TILE_WIDTH]) (\<lambda>t. Inr (TileElem t))) (\<lambda>elementType.
               rbind (ttnnLayoutGet (ttShape ty) elementType DRAM (scWorkerGrid ctx) (Some Interleaved) None defaultIntervals)
                 (\<lambda>layout. Inr (inputs @ [layout], found))))
         (take numOperands operands) ([], False))"

definition checkShardCompatible ::
  "solver_ctx \<Rightarrow> ir_value \<Rightarrow> ttnn_layout_attr \<Rightarrow> nat \<Rightarrow> op_config \<Rightarrow> fault + (solver_error + ttnn_layout_attr)" where
  "checkShardCompatible ctx producerOperand producerLayout consumerOp consumerConfig =
     (case scCustomCheck ctx of
        Some check \<Rightarrow> Inr (check producerOperand producerLayout consumerOp consumerConfig)
      | None \<Rightarrow> (case scBackend ctx consumerOp of
          None \<Rightarrow> Inl FatalError
        | Some getOpConstraints \<Rightarrow>
            rbind (backendInputs ctx producerOperand producerLayout consumerOp) (\<lambda>(inputLayouts, found).
            rbind (assertE SiteOther found) (\<lambda>_.
            case getOpConstraints inputLayouts consumerConfig of
              Inl err \<Rightarrow> Inr (Inl err)
            | Inr (cBUsagePeak, tensorUsage, outputTensorUsage, outputLayout) \<Rightarrow>
                if ocOutputLayout consumerConfig \<noteq> None \<and> ocOutputLayout consumerConfig \<noteq> Some outputLayout
                then Inr (Inl OutputLayoutMismatch)
                else rbind (getShardSizeInBytes producerLayout) (\<lambda>producerL1OutputUsage.
                  if usageBelowCap (producerL1OutputUsage + outputTensorUsage + cBUsagePeak) (scUsableL1CacheSize ctx)
                  then Inr (Inr outputLayout) else Inr (Inl NotEnoughL1Memory))))))"

section \<open>The solver state\<close>

record mem_reconfig_entry =
  mrConfigMap :: "(nat \<times> op_config list) list"
  mrSelectedIndex :: int
  mrOverriden :: bool

definition setSelectedReshardOutputConfigBitIndex :: "int \<Rightarrow> mem_reconfig_entry \<Rightarrow> fault + mem_reconfig_entry" where
  "setSelectedReshardOutputConfigBitIndex i entry =
     rbind (assertE SiteOther (mrSelectedIndex entry < 0)) (\<lambda>_. Inr (entry\<lparr>mrSelectedIndex := i\<rparr>))"

record shard_solver =
  ssPathSets :: "path_set list"
  ssBitsets :: "bitset list"
  ssPathSetIds :: "edge \<Rightarrow> nat option"
  ssBitsetIds :: "nat \<Rightarrow> nat option"
  ssSelected :: "(nat \<times> op_config) list"
  ssReconfig :: "edge \<Rightarrow> mem_reconfig_entry option"
  ssEarlyExit :: bool

definition initialSolver :: shard_solver where
  "initialSolver = \<lparr>ssPathSets = [], ssBitsets = [], ssPathSetIds = (\<lambda>_. None), ssBitsetIds = (\<lambda>_. None),
     ssSelected = [], ssReconfig = (\<lambda>_. None), ssEarlyExit = False\<rparr>"

definition solverReset :: "shard_solver \<Rightarrow> shard_solver" where
  "solverReset s = s\<lparr>ssPathSets := [], ssBitsets := [], ssPathSetIds := (\<lambda>_. None), ssBitsetIds := (\<lambda>_. None)\<rparr>"

text \<open>\<open>getOrInsertBitset\<close> returns a pointer, here the index; it asserts that the vector, which
  was reserved for the ops of the chain, was not reallocated.\<close>

definition getOrInsertBitset ::
  "solver_ctx \<Rightarrow> nat \<Rightarrow> bitset \<Rightarrow> shard_solver \<Rightarrow> fault + nat \<times> shard_solver" where
  "getOrInsertBitset ctx operation init s =
     (case ssBitsetIds s operation of
        Some i \<Rightarrow> Inr (i, s)
      | None \<Rightarrow>
          let bitset_id = length (ssBitsets s) in
          rbind (assertE SiteOther (bitset_id < length (scShardedOps ctx))) (\<lambda>_.
          Inr (bitset_id, s\<lparr>ssBitsetIds := (ssBitsetIds s)(operation \<mapsto> bitset_id),
                            ssBitsets := ssBitsets s @ [init]\<rparr>)))"

definition getOperandPathSets :: "solver_ctx \<Rightarrow> shard_solver \<Rightarrow> nat \<Rightarrow> nat list" where
  "getOperandPathSets ctx s operation = List.map_filter (ssPathSetIds s) (operandOpEdges ctx operation)"

definition getUserPathSets :: "solver_ctx \<Rightarrow> shard_solver \<Rightarrow> nat \<Rightarrow> nat list" where
  "getUserPathSets ctx s operation = List.map_filter (ssPathSetIds s) (userOpEdges ctx operation)"

section \<open>The path processor\<close>

definition processPathSet :: "nat \<Rightarrow> shard_solver \<times> processor \<Rightarrow> fault + shard_solver \<times> processor" where
  "processPathSet k = (\<lambda>(s, pr).
     rbind (at (ssPathSets s) k) (\<lambda>ps.
     rbind (updateOperationProcessor ps (ssBitsets s, pr)) (\<lambda>(ps', bs', pr').
     Inr (s\<lparr>ssPathSets := (ssPathSets s)[k := ps'], ssBitsets := bs'\<rparr>, pr'))))"

lemma processPathSet_measure:
  assumes "processPathSet k (s, pr) = Inr (s', pr')"
  shows "ssBitsets s' = ssBitsets s \<and> pr' = pr \<or> totalBits (ssBitsets s') < totalBits (ssBitsets s)"
  using assms by (auto simp: processPathSet_def rbind_Inr_iff dest!: updateOperationProcessor_result(3))

lemma processPathSets_measure:
  assumes "foldE processPathSet ks (s, pr) = Inr (s', pr')"
  shows "ssBitsets s' = ssBitsets s \<and> pr' = pr \<or> totalBits (ssBitsets s') < totalBits (ssBitsets s)"
  using assms
proof (induction ks arbitrary: s pr)
  case (Cons k ks)
  then obtain s1 pr1 where a: "processPathSet k (s, pr) = Inr (s1, pr1)" "foldE processPathSet ks (s1, pr1) = Inr (s', pr')"
    by (auto simp: rbind_Inr_iff)
  from Cons.IH[OF a(2)] processPathSet_measure[OF a(1)] show ?case by auto
qed simp

text \<open>\<open>process\<close>: pop the back of the queue and update the path sets of its edges.\<close>

function processQueue :: "solver_ctx \<Rightarrow> shard_solver \<Rightarrow> processor \<Rightarrow> fault + shard_solver \<times> processor" where
  "processQueue ctx s pr =
     (if prQueue pr = [] then Inr (s, pr)
      else let operation = last (prQueue pr);
               pr1 = pr\<lparr>prQueue := butlast (prQueue pr), prControl := removeAll operation (prControl pr)\<rparr>
      in rbind (foldE processPathSet (getOperandPathSets ctx s operation @ getUserPathSets ctx s operation) (s, pr1))
           (\<lambda>(s2, pr2). processQueue ctx s2 pr2))"
  by pat_completeness auto
termination
proof (relation "measures [\<lambda>(ctx, s, pr). totalBits (ssBitsets s), \<lambda>(ctx, s, pr). length (prQueue pr)]", goal_cases)
  case (2 ctx s pr operation pr1 x s2 pr2)
  then have "foldE processPathSet (getOperandPathSets ctx s operation @ getUserPathSets ctx s operation) (s, pr1) = Inr (s2, pr2)"
    by simp
  from processPathSets_measure[OF this] 2(1,3) show ?case by auto
qed simp

declare processQueue.simps [simp del]

section \<open>updateSolver\<close>

definition updatePathSet :: "nat \<Rightarrow> shard_solver \<Rightarrow> fault + bool \<times> shard_solver" where
  "updatePathSet k s =
     rbind (at (ssPathSets s) k) (\<lambda>ps.
     rbind (psUpdate ps (ssBitsets s)) (\<lambda>(ps', bs', changed).
     Inr (changed, s\<lparr>ssPathSets := (ssPathSets s)[k := ps'], ssBitsets := bs'\<rparr>)))"

text \<open>No valid solution is left: an assertion unless \<open>set\<close> asked, unreachable otherwise.\<close>

definition handleNoPathsLeftOnUpdate :: "bool \<Rightarrow> fault" where
  "handleNoPathsLeftOnUpdate invokedBySet = (if invokedBySet then Unreachable else AssertFailed SiteOther)"

text \<open>Update the given path sets in turn, failing when one is empty afterwards.\<close>

fun updatePathSets :: "bool \<Rightarrow> nat list \<Rightarrow> shard_solver \<Rightarrow> fault + bool list \<times> shard_solver" where
  "updatePathSets invokedBySet [] s = Inr ([], s)"
| "updatePathSets invokedBySet (k # ks) s =
     rbind (updatePathSet k s) (\<lambda>(changed, s1).
     rbind (at (ssPathSets s1) k) (\<lambda>ps.
     rbind (psEmpty ps (ssBitsets s1)) (\<lambda>empty.
     if empty then Inl (handleNoPathsLeftOnUpdate invokedBySet)
     else rbind (updatePathSets invokedBySet ks s1) (\<lambda>(cs, s2). Inr (changed # cs, s2)))))"

definition addOperandsAndUsers :: "solver_ctx \<Rightarrow> nat \<Rightarrow> nat option \<Rightarrow> nat list" where
  "addOperandsAndUsers ctx operation ignoreOp =
     filter (\<lambda>p. irIsDPS (scOp ctx p) \<and> Some p \<noteq> ignoreOp \<and> p \<in> set (scShardedOps ctx))
       (List.map_filter definingOp (irOperands (scOp ctx operation)))
   @ filter (\<lambda>u. Some u \<noteq> ignoreOp \<and> u \<in> set (scShardedOps ctx)) (irUsers (scOp ctx operation))"

text \<open>The ops to push for the changed edges of \<open>operation\<close>: the other end of each and its
  neighbours.\<close>

definition pushChanged :: "solver_ctx \<Rightarrow> nat \<Rightarrow> (path_set \<Rightarrow> nat) \<Rightarrow> shard_solver \<Rightarrow> (nat \<times> bool) list \<Rightarrow> nat list" where
  "pushChanged ctx operation other s changes =
     concat (map (\<lambda>(k, changed). if changed
         then other (ssPathSets s ! k) # addOperandsAndUsers ctx (other (ssPathSets s ! k)) (Some operation)
         else []) changes)"

lemma updatePathSet_measure:
  assumes "updatePathSet k s = Inr (changed, s')"
  shows "if changed then totalBits (ssBitsets s') < totalBits (ssBitsets s) else ssBitsets s' = ssBitsets s"
  using assms by (auto simp: updatePathSet_def rbind_Inr_iff dest: psUpdate_result(3,4))

lemma updatePathSets_measure:
  assumes "updatePathSets ibs ks s = Inr (cs, s')"
  shows "if True \<in> set cs then totalBits (ssBitsets s') < totalBits (ssBitsets s) else ssBitsets s' = ssBitsets s"
  using assms
proof (induction ks arbitrary: s cs)
  case (Cons k ks)
  from Cons.prems obtain changed s1 cs1 where a: "updatePathSet k s = Inr (changed, s1)"
    and b: "updatePathSets ibs ks s1 = Inr (cs1, s')" and cs: "cs = changed # cs1"
    by (auto simp: rbind_Inr_iff split: if_splits)
  from Cons.IH[OF b] updatePathSet_measure[OF a] show ?case by (auto simp: cs split: if_splits)
qed simp

text \<open>The stack \<open>needsUpdate\<close>: its back is the last element. The op at the back is popped
  only once none of its path sets changes.\<close>

function updateLoop :: "solver_ctx \<Rightarrow> bool \<Rightarrow> nat list \<Rightarrow> shard_solver \<Rightarrow> fault + shard_solver" where
  "updateLoop ctx invokedBySet needsUpdate s =
     (if needsUpdate = [] then Inr s
      else let operation = last needsUpdate;
               operandPathSets = getOperandPathSets ctx s operation;
               userPathSets = getUserPathSets ctx s operation
      in rbind (updatePathSets invokedBySet operandPathSets s) (\<lambda>(producersChanged, s1).
         rbind (updatePathSets invokedBySet userPathSets s1) (\<lambda>(consumersChanged, s2).
           if True \<in> set producersChanged \<or> True \<in> set consumersChanged
           then updateLoop ctx invokedBySet
                  (needsUpdate @ pushChanged ctx operation psProducerOp s2 (zip operandPathSets producersChanged)
                   @ pushChanged ctx operation psConsumerOp s2 (zip userPathSets consumersChanged)) s2
           else updateLoop ctx invokedBySet (butlast needsUpdate) s2)))"
  by pat_completeness auto
termination
proof (relation "measures [\<lambda>(ctx, ibs, needs, s). totalBits (ssBitsets s), \<lambda>(ctx, ibs, needs, s). length needs]", goal_cases)
  case (2 ctx ibs needs s operation ops us x pc s1 y cc s2)
  then have "updatePathSets ibs ops s = Inr (pc, s1)" "updatePathSets ibs us s1 = Inr (cc, s2)" by simp_all
  from updatePathSets_measure[OF this(1)] updatePathSets_measure[OF this(2)] 2(9) show ?case
    by (auto split: if_splits)
next
  case (3 ctx ibs needs s operation ops us x pc s1 y cc s2)
  then have "updatePathSets ibs ops s = Inr (pc, s1)" "updatePathSets ibs us s1 = Inr (cc, s2)" by simp_all
  from updatePathSets_measure[OF this(1)] updatePathSets_measure[OF this(2)] 3(1,9) show ?case
    by (auto split: if_splits)
qed simp

declare updateLoop.simps [simp del]

definition updateSolver :: "solver_ctx \<Rightarrow> nat \<Rightarrow> bool \<Rightarrow> bool \<Rightarrow> shard_solver \<Rightarrow> fault + shard_solver" where
  "updateSolver ctx root expandRoot invokedBySet s =
     (if expandRoot then
        rbind (foldE (\<lambda>k s. rbind (updatePathSet k s) (\<lambda>(changed, s'). Inr s'))
                (getOperandPathSets ctx s root @ getUserPathSets ctx s root) s) (\<lambda>s1.
        updateLoop ctx invokedBySet (root # addOperandsAndUsers ctx root None) s1)
      else updateLoop ctx invokedBySet [root] s)"

section \<open>Resharding\<close>

definition consumerConfigNoLayout :: "op_config list \<Rightarrow> fault + op_config" where
  "consumerConfigNoLayout configs =
     (if configs = [] then Inl OutOfBounds
      else if \<exists>config \<in> set configs. ocOpSpecificAttr config \<noteq> ocOpSpecificAttr (hd configs) then Inl FatalError
      else Inr \<lparr>ocOutputLayout = None, ocOpSpecificAttr = ocOpSpecificAttr (hd configs)\<rparr>)"

text \<open>The first of the first \<open>limit\<close> configs with the given output layout.\<close>

definition findConfig :: "op_config list \<Rightarrow> nat \<Rightarrow> ttnn_layout_attr \<Rightarrow> nat option" where
  "findConfig configs limit layout =
     List.find (\<lambda>i. ocOutputLayout (configs ! i) = Some layout) [0..<min limit (length configs)]"

definition operandOf :: "solver_ctx \<Rightarrow> edge \<Rightarrow> fault + ir_value" where
  "operandOf ctx e = at (irOperands (scOp ctx (egConsumer e))) (egOperandIndex e)"

text \<open>The loop over the input layouts: stop at the first one whose output is a config.\<close>

fun findReshard ::
  "solver_ctx \<Rightarrow> edge \<Rightarrow> ir_value \<Rightarrow> op_config \<Rightarrow> op_config list \<Rightarrow> ttnn_layout_attr list
   \<Rightarrow> fault + (nat \<times> ttnn_layout_attr) option" where
  "findReshard ctx e operand noLayout configs [] = Inr None"
| "findReshard ctx e operand noLayout configs (inputLayout # rest) =
     rbind (checkShardCompatible ctx operand inputLayout (egConsumer e) noLayout) (\<lambda>shardCompatible.
       case shardCompatible of
         Inl err \<Rightarrow> findReshard ctx e operand noLayout configs rest
       | Inr consumerLayout \<Rightarrow>
           (case findConfig configs (length configs) consumerLayout of
              None \<Rightarrow> findReshard ctx e operand noLayout configs rest
            | Some i \<Rightarrow> Inr (Some (i, inputLayout))))"

definition insertReshard :: "solver_ctx \<Rightarrow> edge \<Rightarrow> shard_solver \<Rightarrow> fault + bool \<times> shard_solver" where
  "insertReshard ctx e s =
     rbind (assertE SiteOther (ssReconfig s e = None)) (\<lambda>_.
     rbind (getOrInsertBitset ctx (egConsumer e) (- 1) s) (\<lambda>(cid, s1).
       let s2 = s1\<lparr>ssBitsets := (ssBitsets s1)[cid := 0]\<rparr>;
           consumerConfigs = getLegalConfigs ctx (egConsumer e)
       in rbind (operandOf ctx e) (\<lambda>operand.
       rbind (case scType ctx operand of RankedTensor ty \<Rightarrow> Inr ty | DeviceValue \<Rightarrow> Inl (AssertFailed SiteOther)) (\<lambda>inputTensor.
       rbind (getShardedLayouts ctx inputTensor (getScalarElementType (ttEncoding inputTensor))) (\<lambda>inputLayouts.
       rbind (consumerConfigNoLayout consumerConfigs) (\<lambda>noLayout.
       rbind (findReshard ctx e operand noLayout consumerConfigs inputLayouts) (\<lambda>found.
         case found of
           None \<Rightarrow> Inr (False, s2\<lparr>ssEarlyExit := True\<rparr>)
         | Some (i, inputLayout) \<Rightarrow>
             rbind (bsSet i 0) (\<lambda>consumerBits.
             Inr (True, s2\<lparr>ssBitsets := (ssBitsets s2)[cid := consumerBits],
               ssReconfig := (ssReconfig s2)(e \<mapsto>
                 \<lparr>mrConfigMap = [(i, [\<lparr>ocOutputLayout = Some inputLayout, ocOpSpecificAttr = None\<rparr>])],
                  mrSelectedIndex = - 1, mrOverriden = False\<rparr>)\<rparr>)))))))))"

text \<open>The first op of the chain: unless its input edge is overridden, drop the configs that
  cannot be computed from an interleaved DRAM input; when none is left, reshard the input.\<close>

definition supportsInterleavedInputShardedOutput :: "solver_ctx \<Rightarrow> nat \<Rightarrow> op_config \<Rightarrow> fault + bool" where
  "supportsInterleavedInputShardedOutput ctx operation outputConfig =
     rbind (at (irOperands (scOp ctx operation)) 0) (\<lambda>operand.
     rbind (case scType ctx operand of RankedTensor ty \<Rightarrow> Inr (ttEncoding ty) | DeviceValue \<Rightarrow> Inl (AssertFailed SiteOther)) (\<lambda>l0.
     rbind (withBufferType l0 DRAM) (\<lambda>l1.
     rbind (withMemoryLayout l1 (Some Interleaved)) (\<lambda>inputLayout.
     rbind (checkShardCompatible ctx operand inputLayout operation outputConfig) (\<lambda>r.
     Inr (case r of Inl err \<Rightarrow> False | Inr layout \<Rightarrow> True))))))"

definition firstOpStep :: "solver_ctx \<Rightarrow> nat \<Rightarrow> nat \<Rightarrow> bitset \<times> bool \<Rightarrow> fault + bitset \<times> bool" where
  "firstOpStep ctx firstOp i = (\<lambda>(firstOpBits, hasValidConfig).
     rbind (bsTest firstOpBits i) (\<lambda>set.
     if \<not> set then Inr (firstOpBits, hasValidConfig)
     else rbind (case ocOutputLayout (getLegalConfigs ctx firstOp ! i) of Some l \<Rightarrow> Inr l | None \<Rightarrow> Inl NullDeref) (\<lambda>firstOpLayout.
          rbind (hasShardedL1TensorMemoryLayout firstOpLayout) (\<lambda>sharded.
          rbind (assertE SiteOther sharded) (\<lambda>_.
          rbind (supportsInterleavedInputShardedOutput ctx firstOp (getLegalConfigs ctx firstOp ! i)) (\<lambda>ok.
          if \<not> ok then rbind (bsReset i firstOpBits) (\<lambda>b. Inr (b, hasValidConfig))
          else Inr (firstOpBits, True)))))))"

definition firstOpEdge :: "solver_ctx \<Rightarrow> nat \<Rightarrow> fault + edge" where
  "firstOpEdge ctx firstOp =
     rbind (at (irOperands (scOp ctx firstOp)) 0) (\<lambda>operand.
       Inr \<lparr>egProducer = definingOp operand, egConsumer = firstOp, egOperandIndex = 0\<rparr>)"

definition preprocessFirstOp :: "solver_ctx \<Rightarrow> shard_solver \<Rightarrow> fault + bool \<times> shard_solver" where
  "preprocessFirstOp ctx s =
     rbind (at (scShardSpecs ctx) 0) (\<lambda>firstOp.
     rbind (firstOpEdge ctx firstOp) (\<lambda>e.
     if e \<in> set (scReconfigEdges ctx) \<or> ssReconfig s e \<noteq> None then Inr (True, s)
     else rbind (getOrInsertBitset ctx firstOp (- 1) s) (\<lambda>(fid, s1).
          rbind (at (ssBitsets s1) fid) (\<lambda>bits0.
          rbind (foldE (firstOpStep ctx firstOp) [0..<length (getLegalConfigs ctx firstOp)] (bits0, False))
            (\<lambda>(bits1, hasValidConfig).
            let s2 = s1\<lparr>ssBitsets := (ssBitsets s1)[fid := bits1]\<rparr> in
            if hasValidConfig then Inr (True, s2) else insertReshard ctx e s2)))))"

section \<open>resolve\<close>

text \<open>The three ways to fill the paths of an edge: a reshard entry, the compatibility check,
  and the reshard inserted when the check leaves no path.\<close>

definition producerIds :: "bitset \<Rightarrow> nat \<Rightarrow> nat list" where
  "producerIds producer limit = filter (bit producer) [0..<limit]"

definition pathsTo :: "nat list \<Rightarrow> nat \<Rightarrow> path list" where
  "pathsTo ids configBitIndex = map (\<lambda>p. \<lparr>pathProducer = p, pathConsumer = configBitIndex\<rparr>) ids"

definition setBits :: "nat list \<Rightarrow> bitset \<Rightarrow> bitset" where
  "setBits ids b = fold set_bit ids b"

type_synonym edge_paths = "path list \<times> bitset \<times> bitset"

definition reshardPaths :: "mem_reconfig_entry \<Rightarrow> bitset \<Rightarrow> nat \<Rightarrow> fault + edge_paths" where
  "reshardPaths entry producer producerCount =
     foldE (\<lambda>(configBitIndex, configs) (paths, edgeProducer, edgeConsumer).
         rbind (bsSet configBitIndex edgeConsumer) (\<lambda>edgeConsumer'.
         Inr (paths @ pathsTo (producerIds producer producerCount) configBitIndex,
              setBits (producerIds producer producerCount) edgeProducer, edgeConsumer')))
       (mrConfigMap entry) ([], 0, 0)"

definition checkStep ::
  "solver_ctx \<Rightarrow> nat \<Rightarrow> nat \<Rightarrow> op_config \<Rightarrow> nat \<Rightarrow> nat \<Rightarrow> edge_paths \<Rightarrow> fault + edge_paths" where
  "checkStep ctx producerOp consumerOp noLayout consumerCount producerId = (\<lambda>(paths, edgeProducer, edgeConsumer).
     rbind (at (getLegalConfigs ctx producerOp) producerId) (\<lambda>producerConfig.
     rbind (case ocOutputLayout producerConfig of Some l \<Rightarrow> Inr l | None \<Rightarrow> Inl NullDeref) (\<lambda>producerLayout.
     rbind (checkShardCompatible ctx (OpResult producerOp 0) producerLayout consumerOp noLayout) (\<lambda>shardCompatible.
       case shardCompatible of
         Inl err \<Rightarrow> Inr (paths, edgeProducer, edgeConsumer)
       | Inr consumerLayout \<Rightarrow>
           (case findConfig (getLegalConfigs ctx consumerOp) consumerCount consumerLayout of
              None \<Rightarrow> Inr (paths, edgeProducer, edgeConsumer)
            | Some consumerId \<Rightarrow>
                Inr (paths @ [\<lparr>pathProducer = producerId, pathConsumer = consumerId\<rparr>],
                     set_bit producerId edgeProducer, set_bit consumerId edgeConsumer))))))"

definition checkedPaths ::
  "solver_ctx \<Rightarrow> nat \<Rightarrow> nat \<Rightarrow> op_config \<Rightarrow> bitset \<Rightarrow> nat \<Rightarrow> nat \<Rightarrow> fault + edge_paths" where
  "checkedPaths ctx producerOp consumerOp noLayout producer producerCount consumerCount =
     foldE (checkStep ctx producerOp consumerOp noLayout consumerCount)
       (producerIds producer producerCount) ([], 0, 0)"

definition fallbackPaths :: "mem_reconfig_entry \<Rightarrow> bitset \<Rightarrow> nat \<Rightarrow> edge_paths \<Rightarrow> fault + edge_paths" where
  "fallbackPaths entry producer producerCount = (\<lambda>(paths0, edgeProducer0, edgeConsumer0).
     foldE (\<lambda>(configBitIndex, configs) (paths, edgeProducer, edgeConsumer).
         rbind (bsSet configBitIndex edgeConsumer) (\<lambda>edgeConsumer'.
         Inr (paths @ pathsTo (producerIds producer producerCount) configBitIndex, edgeProducer, edgeConsumer')))
       (mrConfigMap entry) (paths0, producer, edgeConsumer0))"

definition configCount :: "op_config list \<Rightarrow> nat" where
  "configCount configs = min kNumBitsetBits (max 1 (length configs))"

text \<open>The paths of an edge before any reshard is inserted.\<close>

definition edgePaths ::
  "solver_ctx \<Rightarrow> edge \<Rightarrow> nat \<Rightarrow> nat \<Rightarrow> op_config \<Rightarrow> bitset \<Rightarrow> shard_solver \<Rightarrow> fault + edge_paths" where
  "edgePaths ctx e producerOp consumerOp noLayout producerBits s =
     (let producerCount = configCount (getLegalConfigs ctx producerOp);
          consumerCount = configCount (getLegalConfigs ctx consumerOp);
          reshardOnEdge = (e \<in> set (scReconfigEdges ctx) \<or> ssReconfig s e \<noteq> None)
      in if reshardOnEdge
         then (case ssReconfig s e of
                 None \<Rightarrow> Inl (AssertFailed SiteOther)
               | Some entry \<Rightarrow> reshardPaths entry producerBits producerCount)
         else checkedPaths ctx producerOp consumerOp noLayout producerBits producerCount consumerCount)"

text \<open>When they leave no config on one side, a reshard is inserted. The flag is false when
  that fails and \<open>resolveStep\<close> returns false.\<close>

definition ensurePaths ::
  "solver_ctx \<Rightarrow> edge \<Rightarrow> nat \<Rightarrow> nat \<Rightarrow> nat \<Rightarrow> edge_paths \<Rightarrow> shard_solver \<Rightarrow> fault + bool \<times> shard_solver \<times> edge_paths" where
  "ensurePaths ctx e producerOp pid cid ep s =
     (case ep of (paths, edgeProducer, edgeConsumer) \<Rightarrow>
      rbind (at (ssBitsets s) pid) (\<lambda>producerBits.
      rbind (at (ssBitsets s) cid) (\<lambda>consumerBits.
      if paths = [] \<or> producerBits AND edgeProducer = 0 \<or> consumerBits AND edgeConsumer = 0
      then rbind (insertReshard ctx e s) (\<lambda>(ok, s2).
           if \<not> ok then Inr (False, s2, ep)
           else (case ssReconfig s2 e of
                   None \<Rightarrow> Inl (AssertFailed SiteOther)
                 | Some entry \<Rightarrow>
                     rbind (at (ssBitsets s2) pid) (\<lambda>producerBits2.
                     rbind (fallbackPaths entry producerBits2 (configCount (getLegalConfigs ctx producerOp)) ep)
                       (\<lambda>ep2. Inr (True, s2, ep2)))))
      else Inr (True, s, ep))))"

text \<open>Queue the producer if it loses configs, narrow both bitsets, add the path set.\<close>

definition commitEdge ::
  "edge \<Rightarrow> nat \<Rightarrow> nat \<Rightarrow> nat \<Rightarrow> nat \<Rightarrow> edge_paths \<Rightarrow> shard_solver \<times> processor \<Rightarrow> fault + shard_solver \<times> processor" where
  "commitEdge e producerOp consumerOp pid cid ep = (\<lambda>(s, pr).
     case ep of (paths, edgeProducer, edgeConsumer) \<Rightarrow>
     rbind (at (ssBitsets s) pid) (\<lambda>producerBits.
     let pr' = (if \<not> isSubset producerBits edgeProducer then addOp producerOp pr else pr);
         bs1 = (ssBitsets s)[pid := producerBits AND edgeProducer];
         bs2 = bs1[cid := bs1 ! cid AND edgeConsumer]
     in rbind (assertE SiteOther (ssPathSetIds s e = None)) (\<lambda>_.
        Inr (s\<lparr>ssBitsets := bs2,
               ssPathSets := ssPathSets s @ [\<lparr>psProducerSet = pid, psConsumerSet = cid,
                  psProducerOp = producerOp, psConsumerOp = consumerOp, psPaths = paths\<rparr>],
               ssPathSetIds := (ssPathSetIds s)(e \<mapsto> length (ssPathSets s))\<rparr>, pr'))))"

definition processEdge ::
  "solver_ctx \<Rightarrow> nat \<Rightarrow> nat \<Rightarrow> op_config \<Rightarrow> edge \<Rightarrow> shard_solver \<times> processor
   \<Rightarrow> fault + bool \<times> shard_solver \<times> processor" where
  "processEdge ctx consumerOp cid noLayout e = (\<lambda>(s0, pr).
     rbind (case egProducer e of Some p \<Rightarrow> Inr p | None \<Rightarrow> Inl NullDeref) (\<lambda>producerOp.
     rbind (getOrInsertBitset ctx producerOp (- 1) s0) (\<lambda>(pid, s1).
     rbind (assertE SiteOther (\<not> (getLegalConfigs ctx consumerOp = [] \<and> getLegalConfigs ctx producerOp = []))) (\<lambda>_.
     rbind (at (ssBitsets s1) pid) (\<lambda>producerBits.
     rbind (edgePaths ctx e producerOp consumerOp noLayout producerBits s1) (\<lambda>ep1.
     rbind (ensurePaths ctx e producerOp pid cid ep1 s1) (\<lambda>(ok, s2, ep2).
     if \<not> ok then Inr (False, s2, pr)
     else rbind (commitEdge e producerOp consumerOp pid cid ep2 (s2, pr)) (\<lambda>(s3, pr3). Inr (True, s3, pr3)))))))))"

fun processEdges ::
  "solver_ctx \<Rightarrow> nat \<Rightarrow> nat \<Rightarrow> op_config \<Rightarrow> edge list \<Rightarrow> shard_solver \<times> processor
   \<Rightarrow> fault + bool \<times> shard_solver \<times> processor" where
  "processEdges ctx consumerOp cid noLayout [] (s, pr) = Inr (True, s, pr)"
| "processEdges ctx consumerOp cid noLayout (e # es) (s, pr) =
     rbind (processEdge ctx consumerOp cid noLayout e (s, pr)) (\<lambda>(ok, s1, pr1).
       if ok then processEdges ctx consumerOp cid noLayout es (s1, pr1) else Inr (False, s1, pr1))"

fun resolveOps :: "solver_ctx \<Rightarrow> nat list \<Rightarrow> shard_solver \<times> processor \<Rightarrow> fault + bool \<times> shard_solver \<times> processor" where
  "resolveOps ctx [] (s, pr) = Inr (True, s, pr)"
| "resolveOps ctx (consumerOp # ops) (s, pr) =
     rbind (getOrInsertBitset ctx consumerOp (- 1) s) (\<lambda>(cid, s1).
     rbind (consumerConfigNoLayout (getLegalConfigs ctx consumerOp)) (\<lambda>noLayout.
     if operandOpEdges ctx consumerOp = [] then resolveOps ctx ops (s1, pr)
     else rbind (processEdges ctx consumerOp cid noLayout (operandOpEdges ctx consumerOp) (s1, pr)) (\<lambda>(ok, s2, pr2).
          if \<not> ok then Inr (False, s2, pr2)
          else rbind (processQueue ctx s2 pr2) (\<lambda>(s3, pr3). resolveOps ctx ops (s3, pr3)))))"

definition resolveStep :: "solver_ctx \<Rightarrow> shard_solver \<Rightarrow> fault + bool \<times> shard_solver" where
  "resolveStep ctx s =
     rbind (preprocessFirstOp ctx s) (\<lambda>(ok, s1).
     if \<not> ok then Inr (False, s1)
     else rbind (resolveOps ctx (scShardSpecs ctx) (s1, \<lparr>prQueue = [], prControl = []\<rparr>)) (\<lambda>(ok2, s2, pr).
          if \<not> ok2 then Inr (False, s2)
          else rbind (foldE (\<lambda>operation. updateSolver ctx operation False False) (scShardSpecs ctx) s2) (\<lambda>s3.
               Inr (True, s3))))"

definition resolve :: "solver_ctx \<Rightarrow> shard_solver \<Rightarrow> fault + bool \<times> shard_solver" where
  "resolve ctx s =
     rbind (resolveStep ctx (solverReset s)) (\<lambda>(resolved, s1).
     if ssEarlyExit s1 then rbind (assertE SiteOther (\<not> resolved)) (\<lambda>_. Inr (False, s1))
     else rbind (assertE SiteOther resolved) (\<lambda>_. Inr (resolved, s1)))"

section \<open>Choosing configs\<close>

text \<open>\<open>at(op)\<close>: the remaining configs, in order, with their indices. The iterator stops at
  the number of configs, although the bitset may have bits beyond it.\<close>

definition remainingIds :: "solver_ctx \<Rightarrow> shard_solver \<Rightarrow> nat \<Rightarrow> fault + nat list" where
  "remainingIds ctx s operation =
     rbind (case ssBitsetIds s operation of Some i \<Rightarrow> Inr i | None \<Rightarrow> Inl OutOfBounds) (\<lambda>i.
     rbind (at (ssBitsets s) i) (\<lambda>b.
       let ids = filter (bit b) [0..<min kNumBitsetBits (length (getLegalConfigs ctx operation))]
       in rbind (assertE SiteOther (ids \<noteq> [])) (\<lambda>_. Inr ids)))"

definition selectReshard :: "solver_ctx \<Rightarrow> nat \<Rightarrow> nat \<Rightarrow> nat \<Rightarrow> shard_solver \<Rightarrow> fault + shard_solver" where
  "selectReshard ctx operation selection operandIdx s =
     (let e = \<lparr>egProducer = definingOp (irOperands (scOp ctx operation) ! operandIdx),
               egConsumer = operation, egOperandIndex = operandIdx\<rparr>
      in case ssReconfig s e of
           None \<Rightarrow> Inr s
         | Some entry \<Rightarrow>
             rbind (assertE SiteOther (selection \<in> fst ` set (mrConfigMap entry))) (\<lambda>_.
             rbind (setSelectedReshardOutputConfigBitIndex (int selection) entry) (\<lambda>entry'.
             Inr (s\<lparr>ssReconfig := (ssReconfig s)(e \<mapsto> entry')\<rparr>))))"

definition setConfig :: "solver_ctx \<Rightarrow> nat \<Rightarrow> op_config \<Rightarrow> shard_solver \<Rightarrow> fault + shard_solver" where
  "setConfig ctx operation config s0 =
     rbind (assertE SiteOther (operation \<notin> fst ` set (ssSelected s0))) (\<lambda>_.
     let s = s0\<lparr>ssSelected := (operation, config) # ssSelected s0\<rparr>;
         configs = getLegalConfigs ctx operation
     in rbind (assertE SiteOther (configs \<noteq> [])) (\<lambda>_.
        let selection = length (takeWhile (\<lambda>c. c \<noteq> config) configs) in
        rbind (case ssBitsetIds s operation of Some i \<Rightarrow> Inr i | None \<Rightarrow> Inl OutOfBounds) (\<lambda>i.
        rbind (at (ssBitsets s) i) (\<lambda>b.
        rbind (assertE SiteOther (selection \<noteq> length configs)) (\<lambda>_.
        rbind (assertE SiteOther (bit b selection)) (\<lambda>_.
        rbind (bsSet selection 0) (\<lambda>b'.
        rbind (foldE (selectReshard ctx operation selection) [0..<length (irOperands (scOp ctx operation))]
                 (s\<lparr>ssBitsets := (ssBitsets s)[i := b']\<rparr>)) (\<lambda>s1.
        updateSolver ctx operation True True s1))))))))"

definition finish ::
  "solver_ctx \<Rightarrow> shard_solver \<Rightarrow> fault + (nat \<times> op_config) list \<times> (edge \<Rightarrow> mem_reconfig_entry option)" where
  "finish ctx s =
     rbind (assertE SiteOther (length (ssSelected s) = length (scShardedOps ctx))) (\<lambda>_.
       Inr (ssSelected s, ssReconfig s))"

end
