(* ===== verification/SolverUpdate.thy ===== *)
theory SolverUpdate
  imports ShardSolver
begin

text \<open>
  What the propagation of the shard solver does to the state: \<open>refines\<close> (bitsets narrow,
  path sets lose only dead paths, everything else is unchanged), the worklist invariant that
  makes every path set consistent, and the fact that a solution of the constraints survives
  every update, so that propagation cannot fail while one exists.
\<close>

unbundle bit_operations_syntax

section \<open>Refinement of states\<close>

abbreviation producerBits :: "shard_solver \<Rightarrow> nat \<Rightarrow> bitset" where
  "producerBits s k \<equiv> ssBitsets s ! psProducerSet (ssPathSets s ! k)"

abbreviation consumerBits :: "shard_solver \<Rightarrow> nat \<Rightarrow> bitset" where
  "consumerBits s k \<equiv> ssBitsets s ! psConsumerSet (ssPathSets s ! k)"

abbreviation pathsOf :: "shard_solver \<Rightarrow> nat \<Rightarrow> path list" where
  "pathsOf s k \<equiv> psPaths (ssPathSets s ! k)"

definition refines :: "shard_solver \<Rightarrow> shard_solver \<Rightarrow> bool" where
  "refines s s' \<longleftrightarrow> narrowed (ssBitsets s) (ssBitsets s') \<and> length (ssPathSets s') = length (ssPathSets s)
     \<and> (\<forall>k < length (ssPathSets s). ps_below (ssPathSets s ! k) (ssPathSets s' ! k)
          \<and> (\<forall>p \<in> set (pathsOf s k). alive (producerBits s' k) (consumerBits s' k) p \<longrightarrow> p \<in> set (pathsOf s' k)))
     \<and> ssPathSetIds s' = ssPathSetIds s \<and> ssBitsetIds s' = ssBitsetIds s \<and> ssReconfig s' = ssReconfig s
     \<and> ssSelected s' = ssSelected s \<and> ssEarlyExit s' = ssEarlyExit s"

lemma refines_refl [simp]: "refines s s"
  by (simp add: refines_def ps_below_def)

lemma alive_mono: "bits a \<subseteq> bits a' \<Longrightarrow> bits b \<subseteq> bits b' \<Longrightarrow> alive a b p \<Longrightarrow> alive a' b' p"
  by (auto simp: alive_def bits_def)

text \<open>The bitsets the path sets point to exist.\<close>

definition in_range :: "shard_solver \<Rightarrow> bool" where
  "in_range s \<longleftrightarrow> (\<forall>k < length (ssPathSets s).
     psProducerSet (ssPathSets s ! k) < length (ssBitsets s) \<and> psConsumerSet (ssPathSets s ! k) < length (ssBitsets s))"

lemma refines_in_range: "refines s s' \<Longrightarrow> in_range s \<Longrightarrow> in_range s'"
  by (simp add: refines_def in_range_def narrowed_def ps_below_def)

lemma refines_trans:
  assumes "refines s s1" and "refines s1 s2" and "in_range s"
  shows "refines s s2"
proof -
  have "p \<in> set (pathsOf s2 k)"
    if k: "k < length (ssPathSets s)" and p: "p \<in> set (pathsOf s k)" "alive (producerBits s2 k) (consumerBits s2 k) p" for k p
  proof -
    have same: "psProducerSet (ssPathSets s1 ! k) = psProducerSet (ssPathSets s2 ! k)"
      "psConsumerSet (ssPathSets s1 ! k) = psConsumerSet (ssPathSets s2 ! k)"
      using assms(1,2) k by (simp_all add: refines_def ps_below_def)
    have r: "in_range s1" using refines_in_range assms by blast
    moreover have "bits (ssBitsets s2 ! i) \<subseteq> bits (ssBitsets s1 ! i)" if "i < length (ssBitsets s1)" for i
      using assms(2) that by (simp add: refines_def narrowed_def)
    moreover have k1: "k < length (ssPathSets s1)" using k assms(1) by (simp add: refines_def)
    moreover from r k1 have "psProducerSet (ssPathSets s2 ! k) < length (ssBitsets s1)"
      "psConsumerSet (ssPathSets s2 ! k) < length (ssBitsets s1)"
      unfolding same[symmetric] in_range_def by blast+
    ultimately have "bits (producerBits s2 k) \<subseteq> bits (producerBits s1 k)" "bits (consumerBits s2 k) \<subseteq> bits (consumerBits s1 k)"
      unfolding same by blast+
    then have "alive (producerBits s1 k) (consumerBits s1 k) p" using p(2) by (rule alive_mono)
    with assms(1) k p(1) have "p \<in> set (pathsOf s1 k)" by (simp add: refines_def)
    with assms(1,2) k p(2) show ?thesis by (simp add: refines_def)
  qed
  moreover have "narrowed (ssBitsets s) (ssBitsets s2)" using assms narrowed_trans by (auto simp: refines_def)
  moreover have "ps_below (ssPathSets s ! k) (ssPathSets s2 ! k)" if "k < length (ssPathSets s)" for k
  proof -
    have "ps_below (ssPathSets s ! k) (ssPathSets s1 ! k)" "ps_below (ssPathSets s1 ! k) (ssPathSets s2 ! k)"
      using assms that by (simp_all add: refines_def)
    then show ?thesis by (auto simp: ps_below_def)
  qed
  ultimately show ?thesis using assms by (simp add: refines_def)
qed

text \<open>\<open>good s k\<close>: the path set is consistent and not empty. It depends on the live paths
  only, which refinement keeps when the two bitsets stay.\<close>

definition good :: "shard_solver \<Rightarrow> nat \<Rightarrow> bool" where
  "good s k \<longleftrightarrow> consistent (ssPathSets s ! k) (ssBitsets s) \<and> bits (producerBits s k) \<noteq> {}"

lemma good_refines:
  assumes "refines s s'" and "k < length (ssPathSets s)" and "good s k"
    and "producerBits s' k = producerBits s k" and "consumerBits s' k = consumerBits s k"
  shows "good s' k"
proof -
  have same: "psProducerSet (ssPathSets s' ! k) = psProducerSet (ssPathSets s ! k)"
    "psConsumerSet (ssPathSets s' ! k) = psConsumerSet (ssPathSets s ! k)"
    using assms(1,2) by (simp_all add: refines_def ps_below_def)
  let ?A = "alive (producerBits s k) (consumerBits s k)"
  have "{p \<in> set (pathsOf s' k). ?A p} = {p \<in> set (pathsOf s k). ?A p}"
    using assms by (auto simp: refines_def ps_below_def)
  then show ?thesis using assms(3-5) by (simp add: good_def consistent_def Let_def same)
qed

lemma updatePathSet_result:
  assumes "updatePathSet k s = Inr (changed, s')" and "in_range s"
  shows "k < length (ssPathSets s)" and "refines s s'"
    and "\<not> changed \<Longrightarrow> ssBitsets s' = ssBitsets s \<and> consistent (ssPathSets s' ! k) (ssBitsets s')"
    and "\<And>i. i \<noteq> psProducerSet (ssPathSets s ! k) \<Longrightarrow> i \<noteq> psConsumerSet (ssPathSets s ! k) \<Longrightarrow>
      ssBitsets s' ! i = ssBitsets s ! i"
proof -
  from assms(1) obtain ps' bs' where k: "k < length (ssPathSets s)"
    and u: "psUpdate (ssPathSets s ! k) (ssBitsets s) = Inr (ps', bs', changed)"
    and s': "s' = s\<lparr>ssPathSets := (ssPathSets s)[k := ps'], ssBitsets := bs'\<rparr>"
    by (auto simp: updatePathSet_def rbind_Inr_iff at_Inr_iff)
  note U = psUpdate_result[OF u]
  show "k < length (ssPathSets s)" by (fact k)
  have kept: "p \<in> set (psPaths ps')"
    if "p \<in> set (pathsOf s k)" "alive (bs' ! psProducerSet ps') (bs' ! psConsumerSet ps') p" for p
  proof -
    have "bits (bs' ! psProducerSet ps') \<subseteq> bits (producerBits s k)" "bits (bs' ! psConsumerSet ps') \<subseteq> bits (consumerBits s k)"
      using U(1,2,9,10) by (auto simp: ps_below_def narrowed_def)
    with that U(6) alive_mono show ?thesis by blast
  qed
  have "ps_below (ssPathSets s ! j) (ssPathSets s' ! j)
      \<and> (\<forall>p \<in> set (pathsOf s j). alive (producerBits s' j) (consumerBits s' j) p \<longrightarrow> p \<in> set (pathsOf s' j))"
    if "j < length (ssPathSets s)" for j
    using that U(1) kept k by (cases "j = k") (auto simp: s' ps_below_def)
  then show "refines s s'" using U(2) by (simp add: refines_def s')
  show "ssBitsets s' = ssBitsets s \<and> consistent (ssPathSets s' ! k) (ssBitsets s')" if "\<not> changed"
    using U(3)[OF that] k by (simp add: s')
  show "ssBitsets s' ! i = ssBitsets s ! i"
    if "i \<noteq> psProducerSet (ssPathSets s ! k)" "i \<noteq> psConsumerSet (ssPathSets s ! k)" for i
    using U(5)[OF that] by (simp add: s')
qed

lemma updatePathSets_bound:
  "updatePathSets ibs ks s = Inr (cs, s') \<Longrightarrow> \<forall>k \<in> set ks. k < length (ssPathSets s)"
proof (induction ks arbitrary: s cs)
  case (Cons k ks)
  from Cons.prems obtain changed s1 cs1 where a: "updatePathSet k s = Inr (changed, s1)"
    and b: "updatePathSets ibs ks s1 = Inr (cs1, s')"
    by (auto simp: rbind_Inr_iff at_Inr_iff split: if_splits)
  from a have "k < length (ssPathSets s)" "length (ssPathSets s1) = length (ssPathSets s)"
    by (auto simp: updatePathSet_def rbind_Inr_iff at_Inr_iff)
  with Cons.IH[OF b] show ?case by simp
qed simp

lemma updatePathSets_result:
  assumes "updatePathSets ibs ks s = Inr (cs, s')" and "in_range s"
  shows "length cs = length ks \<and> refines s s'
    \<and> (True \<notin> set cs \<longrightarrow> ssBitsets s' = ssBitsets s \<and> (\<forall>k \<in> set ks. good s' k))
    \<and> (\<forall>i. (\<forall>(k, changed) \<in> set (zip ks cs). changed \<longrightarrow>
          i \<noteq> psProducerSet (ssPathSets s ! k) \<and> i \<noteq> psConsumerSet (ssPathSets s ! k)) \<longrightarrow>
        ssBitsets s' ! i = ssBitsets s ! i)"
  using assms
proof (induction ks arbitrary: s cs)
  case (Cons k ks)
  from Cons.prems(1) obtain changed s1 cs1 where a: "updatePathSet k s = Inr (changed, s1)"
    and e: "k < length (ssPathSets s1)" "psEmpty (ssPathSets s1 ! k) (ssBitsets s1) = Inr False"
    and b: "updatePathSets ibs ks s1 = Inr (cs1, s')" and cs: "cs = changed # cs1"
    by (auto simp: rbind_Inr_iff at_Inr_iff split: if_splits)
  note A = updatePathSet_result[OF a Cons.prems(2)]
  have r1: "in_range s1" by (rule refines_in_range[OF A(2) Cons.prems(2)])
  note IH = Cons.IH[OF b r1]
  have ref: "refines s s'" using A(2) IH refines_trans Cons.prems(2) by blast
  have nz: "bits (producerBits s1 k) \<noteq> {}"
    using e(2) by (auto simp: psEmpty_def rbind_Inr_iff at_Inr_iff zero_iff_no_bits split: if_splits)
  have "good s' k \<and> ssBitsets s' = ssBitsets s \<and> (\<forall>k \<in> set ks. good s' k)" if "True \<notin> set cs"
  proof -
    from that cs have c: "\<not> changed" "True \<notin> set cs1" by auto
    have bs: "ssBitsets s1 = ssBitsets s" "ssBitsets s' = ssBitsets s1" using A(3)[OF c(1)] IH c(2) by auto
    have "good s1 k" using A(3)[OF c(1)] nz unfolding good_def by blast
    moreover have "psProducerSet (ssPathSets s' ! k) = psProducerSet (ssPathSets s1 ! k)"
      "psConsumerSet (ssPathSets s' ! k) = psConsumerSet (ssPathSets s1 ! k)"
      using IH e(1) by (auto simp: refines_def ps_below_def)
    ultimately have "good s' k" using IH e(1) bs by (intro good_refines[of s1 s']) auto
    with bs IH c(2) show ?thesis by auto
  qed
  moreover have "ssBitsets s' ! i = ssBitsets s ! i"
    if "\<forall>(k, changed) \<in> set (zip (k # ks) cs). changed \<longrightarrow>
          i \<noteq> psProducerSet (ssPathSets s ! k) \<and> i \<noteq> psConsumerSet (ssPathSets s ! k)" for i
  proof -
    have head: "ssBitsets s1 ! i = ssBitsets s ! i"
      using that A(3,4) cs by (cases changed) auto
    have same: "psProducerSet (ssPathSets s1 ! j) = psProducerSet (ssPathSets s ! j) \<and>
        psConsumerSet (ssPathSets s1 ! j) = psConsumerSet (ssPathSets s ! j)" if "j < length (ssPathSets s)" for j
      using A(2) that by (simp add: refines_def ps_below_def)
    have "j < length (ssPathSets s)" if "(j, ch) \<in> set (zip ks cs1)" for j ch
      using updatePathSets_bound[OF b] set_zip_leftD[OF that] A(2) by (simp add: refines_def)
    with that cs same have "\<forall>(j, ch) \<in> set (zip ks cs1). ch \<longrightarrow>
        i \<noteq> psProducerSet (ssPathSets s1 ! j) \<and> i \<noteq> psConsumerSet (ssPathSets s1 ! j)" by fastforce
    with IH have "ssBitsets s' ! i = ssBitsets s1 ! i" by blast
    with head show ?thesis by simp
  qed
  ultimately show ?case using IH cs ref by auto
qed simp

section \<open>The worklist makes every path set consistent\<close>

definition graph_ok :: "solver_ctx \<Rightarrow> shard_solver \<Rightarrow> bool" where
  "graph_ok ctx s \<longleftrightarrow> in_range s
     \<and> (\<forall>op op' i. ssBitsetIds s op = Some i \<longrightarrow> ssBitsetIds s op' = Some i \<longrightarrow> op = op')
     \<and> (\<forall>e k. ssPathSetIds s e = Some k \<longrightarrow> k < length (ssPathSets s)
          \<and> egProducer e = Some (psProducerOp (ssPathSets s ! k)) \<and> egConsumer e = psConsumerOp (ssPathSets s ! k)
          \<and> ssBitsetIds s (psProducerOp (ssPathSets s ! k)) = Some (psProducerSet (ssPathSets s ! k))
          \<and> ssBitsetIds s (psConsumerOp (ssPathSets s ! k)) = Some (psConsumerSet (ssPathSets s ! k)))
     \<and> (\<forall>k < length (ssPathSets s). \<exists>e \<in> set (allChainEdges ctx). ssPathSetIds s e = Some k)"

lemma graph_ok_in_range: "graph_ok ctx s \<Longrightarrow> in_range s"
  by (simp add: graph_ok_def)

lemma graph_ok_refines:
  assumes "refines s s'" and "graph_ok ctx s"
  shows "graph_ok ctx s'"
proof -
  have "in_range s'" using assms refines_in_range by (auto simp: graph_ok_def)
  moreover have "psProducerOp (ssPathSets s' ! k) = psProducerOp (ssPathSets s ! k)
      \<and> psConsumerOp (ssPathSets s' ! k) = psConsumerOp (ssPathSets s ! k)
      \<and> psProducerSet (ssPathSets s' ! k) = psProducerSet (ssPathSets s ! k)
      \<and> psConsumerSet (ssPathSets s' ! k) = psConsumerSet (ssPathSets s ! k)"
    if "k < length (ssPathSets s)" for k
    using assms(1) that by (simp add: refines_def ps_below_def)
  ultimately show ?thesis using assms by (auto simp: graph_ok_def refines_def)
qed

text \<open>\<open>touches s k ops\<close>: one end of the path set is among the ops.\<close>

definition touches :: "shard_solver \<Rightarrow> nat \<Rightarrow> nat set \<Rightarrow> bool" where
  "touches s k ops \<longleftrightarrow> psProducerOp (ssPathSets s ! k) \<in> ops \<or> psConsumerOp (ssPathSets s ! k) \<in> ops"

lemma touches_refines: "refines s s' \<Longrightarrow> k < length (ssPathSets s) \<Longrightarrow> touches s' k ops \<longleftrightarrow> touches s k ops"
  by (simp add: touches_def refines_def ps_below_def)

lemma map_filter_set: "set (List.map_filter f xs) = {y. \<exists>x \<in> set xs. f x = Some y}"
  by (force simp: List.map_filter_def)

lemma path_sets_of:
  assumes "graph_ok ctx s" and "k < length (ssPathSets s)"
  shows "k \<in> set (getOperandPathSets ctx s (psConsumerOp (ssPathSets s ! k)))"
    and "k \<in> set (getUserPathSets ctx s (psProducerOp (ssPathSets s ! k)))"
proof -
  from assms obtain e where e: "e \<in> set (allChainEdges ctx)" "ssPathSetIds s e = Some k"
    by (auto simp: graph_ok_def)
  with assms(1) have "egProducer e = Some (psProducerOp (ssPathSets s ! k))" "egConsumer e = psConsumerOp (ssPathSets s ! k)"
    by (auto simp: graph_ok_def)
  with e show "k \<in> set (getOperandPathSets ctx s (psConsumerOp (ssPathSets s ! k)))"
    "k \<in> set (getUserPathSets ctx s (psProducerOp (ssPathSets s ! k)))"
    by (auto simp: getOperandPathSets_def getUserPathSets_def operandOpEdges_def userOpEdges_def map_filter_set)
qed

lemma path_sets_end:
  assumes "graph_ok ctx s"
  shows "k \<in> set (getOperandPathSets ctx s op) \<Longrightarrow> k < length (ssPathSets s) \<and> psConsumerOp (ssPathSets s ! k) = op"
    and "k \<in> set (getUserPathSets ctx s op) \<Longrightarrow> k < length (ssPathSets s) \<and> psProducerOp (ssPathSets s ! k) = op"
  using assms by (auto simp: getOperandPathSets_def getUserPathSets_def operandOpEdges_def userOpEdges_def
      map_filter_set graph_ok_def)

lemma path_set_ops:
  assumes "graph_ok ctx s" and "k < length (ssPathSets s)" and "j < length (ssPathSets s)"
    and "{psProducerSet (ssPathSets s ! k), psConsumerSet (ssPathSets s ! k)}
       \<inter> {psProducerSet (ssPathSets s ! j), psConsumerSet (ssPathSets s ! j)} \<noteq> {}"
  shows "touches s k {psProducerOp (ssPathSets s ! j), psConsumerOp (ssPathSets s ! j)}"
proof -
  have ids: "ssBitsetIds s (psProducerOp (ssPathSets s ! i)) = Some (psProducerSet (ssPathSets s ! i))
      \<and> ssBitsetIds s (psConsumerOp (ssPathSets s ! i)) = Some (psConsumerSet (ssPathSets s ! i))"
    if i: "i < length (ssPathSets s)" for i
  proof -
    from assms(1) i obtain e where "ssPathSetIds s e = Some i" by (auto simp: graph_ok_def)
    with assms(1) show ?thesis by (simp add: graph_ok_def)
  qed
  have inj: "ssBitsetIds s op = Some i \<Longrightarrow> ssBitsetIds s op' = Some i \<Longrightarrow> op = op'" for op op' i
    using assms(1) by (auto simp: graph_ok_def)
  note i = ids[OF assms(2)] and j = ids[OF assms(3)]
  from assms(4) consider
      "psProducerSet (ssPathSets s ! k) = psProducerSet (ssPathSets s ! j)"
    | "psProducerSet (ssPathSets s ! k) = psConsumerSet (ssPathSets s ! j)"
    | "psConsumerSet (ssPathSets s ! k) = psProducerSet (ssPathSets s ! j)"
    | "psConsumerSet (ssPathSets s ! k) = psConsumerSet (ssPathSets s ! j)" by auto
  then show ?thesis
  proof cases
    case 1
    with inj[OF conjunct1[OF i]] j show ?thesis by (simp add: touches_def)
  next
    case 2
    with inj[OF conjunct1[OF i]] j show ?thesis by (simp add: touches_def)
  next
    case 3
    with inj[OF conjunct2[OF i]] j show ?thesis by (simp add: touches_def)
  next
    case 4
    with inj[OF conjunct2[OF i]] j show ?thesis by (simp add: touches_def)
  qed
qed

text \<open>One visit: either nothing changed and the path sets of the op are good, or whatever
  stopped being good touches an op of the new stack.\<close>

lemma visit:
  assumes G: "graph_ok ctx s" and op: "operation \<in> set stack"
    and a: "updatePathSets ibs (getOperandPathSets ctx s operation) s = Inr (pc, s1)"
    and b: "updatePathSets ibs (getUserPathSets ctx s operation) s1 = Inr (cc, s2)"
  shows "refines s s2 \<and> (\<forall>k < length (ssPathSets s).
      (True \<notin> set pc \<and> True \<notin> set cc \<longrightarrow> touches s k {operation} \<longrightarrow> good s2 k)
    \<and> (True \<notin> set pc \<and> True \<notin> set cc \<longrightarrow> good s k \<longrightarrow> good s2 k)
    \<and> (good s k \<longrightarrow> good s2 k \<or> touches s k (set stack
         \<union> set (pushChanged ctx operation psProducerOp s2 (zip (getOperandPathSets ctx s operation) pc))
         \<union> set (pushChanged ctx operation psConsumerOp s2 (zip (getUserPathSets ctx s operation) cc)))))"
proof -
  let ?ks = "getOperandPathSets ctx s operation" and ?us = "getUserPathSets ctx s operation"
  have r: "in_range s" by (rule graph_ok_in_range[OF G])
  note A = updatePathSets_result[OF a r]
  have r1: "in_range s1" using A refines_in_range r by blast
  note B = updatePathSets_result[OF b r1]
  have ref: "refines s s2" using A B refines_trans r by blast
  have same: "psProducerSet (ssPathSets s1 ! j) = psProducerSet (ssPathSets s ! j)
      \<and> psConsumerSet (ssPathSets s1 ! j) = psConsumerSet (ssPathSets s ! j)
      \<and> psProducerOp (ssPathSets s2 ! j) = psProducerOp (ssPathSets s ! j)
      \<and> psConsumerOp (ssPathSets s2 ! j) = psConsumerOp (ssPathSets s ! j)
      \<and> psProducerSet (ssPathSets s2 ! j) = psProducerSet (ssPathSets s ! j)
      \<and> psConsumerSet (ssPathSets s2 ! j) = psConsumerSet (ssPathSets s ! j)" if "j < length (ssPathSets s)" for j
    using A ref that by (simp add: refines_def ps_below_def)
  have unchanged: "good s2 k" if "True \<notin> set pc" "True \<notin> set cc" "k < length (ssPathSets s)" "good s k" for k
    using good_refines[OF ref that(3,4)] A B that same by simp
  have own: "good s2 k" if nc: "True \<notin> set pc" "True \<notin> set cc" and k: "k < length (ssPathSets s)"
    and t: "touches s k {operation}" for k
  proof -
    from t consider "k \<in> set ?us" | "k \<in> set ?ks"
      using path_sets_of[OF G k] by (auto simp: touches_def)
    then show ?thesis
    proof cases
      case 2
      then have g1: "good s1 k" using A nc by blast
      have "refines s1 s2" "k < length (ssPathSets s1)" using B A k by (auto simp: refines_def)
      then show ?thesis using good_refines[OF _ _ g1] B nc(2) same[OF k] by simp
    qed (use B nc in blast)
  qed
  have push: "touches s k (set stack \<union> set (pushChanged ctx operation psProducerOp s2 (zip ?ks pc))
         \<union> set (pushChanged ctx operation psConsumerOp s2 (zip ?us cc)))"
    if k: "k < length (ssPathSets s)" and g: "good s k" and ng: "\<not> good s2 k" for k
  proof -
    from good_refines[OF ref k g] ng same[OF k]
    obtain i where i: "i = psProducerSet (ssPathSets s ! k) \<or> i = psConsumerSet (ssPathSets s ! k)"
      and ch: "ssBitsets s2 ! i \<noteq> ssBitsets s ! i" by metis
    from ch consider "ssBitsets s1 ! i \<noteq> ssBitsets s ! i" | "ssBitsets s2 ! i \<noteq> ssBitsets s1 ! i" by metis
    then show ?thesis
    proof cases
      case 1
      with A obtain j where j: "(j, True) \<in> set (zip ?ks pc)"
        "i = psProducerSet (ssPathSets s ! j) \<or> i = psConsumerSet (ssPathSets s ! j)" by fastforce
      from j(1) have jj: "j < length (ssPathSets s)" "psConsumerOp (ssPathSets s ! j) = operation"
        using path_sets_end(1)[OF G] set_zip_leftD by metis+
      have "touches s k {psProducerOp (ssPathSets s ! j), operation}"
        using path_set_ops[OF G k jj(1)] i j(2) jj(2) by auto
      moreover have "psProducerOp (ssPathSets s ! j) \<in> set (pushChanged ctx operation psProducerOp s2 (zip ?ks pc))"
        using j(1) same[OF jj(1)] by (force simp: pushChanged_def)
      ultimately show ?thesis using op by (auto simp: touches_def)
    next
      case 2
      with B obtain j where j: "(j, True) \<in> set (zip ?us cc)"
        "i = psProducerSet (ssPathSets s1 ! j) \<or> i = psConsumerSet (ssPathSets s1 ! j)" by fastforce
      from j(1) have jj: "j < length (ssPathSets s)" "psProducerOp (ssPathSets s ! j) = operation"
        using path_sets_end(2)[OF G] set_zip_leftD by metis+
      have "touches s k {operation, psConsumerOp (ssPathSets s ! j)}"
        using path_set_ops[OF G k jj(1)] i j(2) jj(2) same[OF jj(1)] by auto
      moreover have "psConsumerOp (ssPathSets s ! j) \<in> set (pushChanged ctx operation psConsumerOp s2 (zip ?us cc))"
        using j(1) same[OF jj(1)] by (force simp: pushChanged_def)
      ultimately show ?thesis using op by (auto simp: touches_def)
    qed
  qed
  show ?thesis using ref unchanged own push by blast
qed

lemma updateLoop_good:
  assumes "updateLoop ctx ibs stack s = Inr s'" and "graph_ok ctx s"
  shows "refines s s' \<and> (\<forall>k < length (ssPathSets s). good s k \<or> touches s k (set stack \<union> R) \<longrightarrow> good s' k \<or> touches s k R)"
  using assms
proof (induction ctx ibs stack s rule: updateLoop.induct)
  case (1 ctx ibs stack s)
  show ?case
  proof (cases "stack = []")
    case True
    with 1(3) show ?thesis by (simp add: updateLoop.simps)
  next
    case False
    let ?op = "last stack"
    let ?ks = "getOperandPathSets ctx s ?op" and ?us = "getUserPathSets ctx s ?op"
    from 1(3) False obtain pc s1 cc s2 where a: "updatePathSets ibs ?ks s = Inr (pc, s1)"
      and b: "updatePathSets ibs ?us s1 = Inr (cc, s2)"
      and rest: "(if True \<in> set pc \<or> True \<in> set cc
           then updateLoop ctx ibs (stack @ pushChanged ctx ?op psProducerOp s2 (zip ?ks pc)
                   @ pushChanged ctx ?op psConsumerOp s2 (zip ?us cc)) s2
           else updateLoop ctx ibs (butlast stack) s2) = Inr s'"
      by (subst (asm) updateLoop.simps) (auto simp: Let_def rbind_Inr_iff)
    note V = visit[OF 1(4) last_in_set[OF False] a b]
    then have ref: "refines s s2" and G2: "graph_ok ctx s2" using graph_ok_refines 1(4) by blast+
    have len: "length (ssPathSets s2) = length (ssPathSets s)" using ref by (simp add: refines_def)
    note touch = touches_refines[OF ref]
    show ?thesis
    proof (cases "True \<in> set pc \<or> True \<in> set cc")
      case True
      let ?st = "stack @ pushChanged ctx ?op psProducerOp s2 (zip ?ks pc) @ pushChanged ctx ?op psConsumerOp s2 (zip ?us cc)"
      from True rest have rec: "updateLoop ctx ibs ?st s2 = Inr s'" by simp
      note IH = 1(1)[OF False HOL.refl HOL.refl HOL.refl a HOL.refl b HOL.refl True rec G2]
      have "good s2 k \<or> touches s2 k (set ?st \<union> R)" if "k < length (ssPathSets s)" "good s k \<or> touches s k (set stack \<union> R)" for k
        using that V touch[OF that(1)] by (auto simp: touches_def)
      with IH ref touch len 1(4) show ?thesis
        using refines_trans graph_ok_in_range by (metis (no_types, lifting))
    next
      case nc: False
      then have rec: "updateLoop ctx ibs (butlast stack) s2 = Inr s'" using rest by simp
      note IH = 1(2)[OF False HOL.refl HOL.refl HOL.refl a HOL.refl b HOL.refl nc rec G2]
      have st: "set stack = insert ?op (set (butlast stack))"
        by (metis False append_butlast_last_id list.simps(15) rotate1.simps(2) set_rotate1)
      have "good s2 k \<or> touches s2 k (set (butlast stack) \<union> R)"
        if k: "k < length (ssPathSets s)" and "good s k \<or> touches s k (set stack \<union> R)" for k
      proof -
        from that(2) st consider "good s k" | "touches s k {?op}" | "touches s k (set (butlast stack) \<union> R)"
          by (auto simp: touches_def)
        then show ?thesis using V k nc touch[OF k] by cases blast+
      qed
      with IH ref touch len 1(4) show ?thesis
        using refines_trans graph_ok_in_range by (metis (no_types, lifting))
    qed
  qed
qed

end
