(* ===== verification/SolverResolve.thy ===== *)
theory SolverResolve
  imports SolverUpdate
begin

text \<open>
  The invariant of \<open>ShardSolver::resolve\<close>: bitset and path set ids are consistent with the
  edges of the chain, every path comes from a positive answer of the compatibility check or
  from a reshard the backend accepted; and the state \<open>resolve\<close> ends in.
\<close>

unbundle bit_operations_syntax

section \<open>Allowed pairs of configs\<close>

text \<open>\<open>accepts\<close>: the consumer, given the input layout on the operand, produces the layout of
  its config \<open>c\<close>.\<close>

definition accepts :: "solver_ctx \<Rightarrow> ir_value \<Rightarrow> nat \<Rightarrow> ttnn_layout_attr \<Rightarrow> nat \<Rightarrow> bool" where
  "accepts ctx operand consumerOp inputLayout c \<longleftrightarrow> c < length (getLegalConfigs ctx consumerOp)
     \<and> (\<exists>noLayout out. consumerConfigNoLayout (getLegalConfigs ctx consumerOp) = Inr noLayout
          \<and> checkShardCompatible ctx operand inputLayout consumerOp noLayout = Inr (Inr out)
          \<and> ocOutputLayout (getLegalConfigs ctx consumerOp ! c) = Some out)"

definition entry_ok :: "solver_ctx \<Rightarrow> edge \<Rightarrow> mem_reconfig_entry \<Rightarrow> bool" where
  "entry_ok ctx e entry \<longleftrightarrow> (\<forall>(c, configs) \<in> set (mrConfigMap entry). c < 64 \<and> configs \<noteq> [] \<and> (\<forall>config \<in> set configs.
     \<exists>operand inputLayout. operandOf ctx e = Inr operand \<and> ocOutputLayout config = Some inputLayout
       \<and> accepts ctx operand (egConsumer e) inputLayout c))"

definition allowed :: "solver_ctx \<Rightarrow> (edge \<Rightarrow> mem_reconfig_entry option) \<Rightarrow> edge \<Rightarrow> nat \<Rightarrow> nat \<Rightarrow> bool" where
  "allowed ctx reconfig e p c \<longleftrightarrow> (\<exists>producerOp. egProducer e = Some producerOp \<and> p < length (getLegalConfigs ctx producerOp)
     \<and> ((\<exists>l. ocOutputLayout (getLegalConfigs ctx producerOp ! p) = Some l
           \<and> accepts ctx (OpResult producerOp 0) (egConsumer e) l c)
        \<or> (\<exists>entry. reconfig e = Some entry \<and> entry_ok ctx e entry \<and> c \<in> fst ` set (mrConfigMap entry))))"

lemma allowed_mono: "(\<And>entry. rc e = Some entry \<Longrightarrow> rc' e = Some entry) \<Longrightarrow> allowed ctx rc e p c \<Longrightarrow> allowed ctx rc' e p c"
  by (force simp: allowed_def)

section \<open>The invariant\<close>

definition solver_inv :: "solver_ctx \<Rightarrow> shard_solver \<Rightarrow> bool" where
  "solver_inv ctx s \<longleftrightarrow> graph_ok ctx s
     \<and> (\<forall>operation i. ssBitsetIds s operation = Some i \<longrightarrow> i < length (ssBitsets s))
     \<and> (\<forall>e entry. ssReconfig s e = Some entry \<longrightarrow> entry_ok ctx e entry)
     \<and> (\<forall>e k. ssPathSetIds s e = Some k \<longrightarrow>
          (\<forall>p \<in> set (pathsOf s k). allowed ctx (ssReconfig s) e (pathProducer p) (pathConsumer p)))"

lemma solver_inv_graph: "solver_inv ctx s \<Longrightarrow> graph_ok ctx s"
  by (simp add: solver_inv_def)

lemma solver_inv_refines:
  assumes "refines s s'" and "solver_inv ctx s"
  shows "solver_inv ctx s'"
proof -
  have eq: "ssPathSetIds s' = ssPathSetIds s" "ssReconfig s' = ssReconfig s" "ssBitsetIds s' = ssBitsetIds s"
    "length (ssBitsets s') = length (ssBitsets s)"
    using assms(1) by (simp_all add: refines_def narrowed_def)
  have "allowed ctx (ssReconfig s) e (pathProducer p) (pathConsumer p)"
    if k: "ssPathSetIds s e = Some k" and p: "p \<in> set (pathsOf s' k)" for e k p
  proof -
    from assms(2) k have "k < length (ssPathSets s)" by (simp add: solver_inv_def graph_ok_def)
    with assms(1) p have "p \<in> set (pathsOf s k)" by (auto simp: refines_def ps_below_def)
    with assms(2) k show ?thesis by (simp add: solver_inv_def)
  qed
  moreover have "graph_ok ctx s'" using assms(2) graph_ok_refines[OF assms(1)] by (simp add: solver_inv_def)
  ultimately show ?thesis using assms(2) by (simp add: solver_inv_def eq)
qed

lemma solver_inv_bits:
  assumes "solver_inv ctx s" and "length bs = length (ssBitsets s)"
  shows "solver_inv ctx (s\<lparr>ssBitsets := bs\<rparr>)"
  using assms by (auto simp: solver_inv_def graph_ok_def in_range_def)

text \<open>\<open>extends s s'\<close>: ids, path sets and reshard entries are kept.\<close>

definition extends :: "shard_solver \<Rightarrow> shard_solver \<Rightarrow> bool" where
  "extends s s' \<longleftrightarrow> ssBitsetIds s \<subseteq>\<^sub>m ssBitsetIds s' \<and> ssPathSetIds s \<subseteq>\<^sub>m ssPathSetIds s'
     \<and> ssReconfig s \<subseteq>\<^sub>m ssReconfig s' \<and> ssSelected s' = ssSelected s"

lemma extends_refl [simp]: "extends s s"
  by (simp add: extends_def)

lemma extends_trans: "extends a b \<Longrightarrow> extends b c \<Longrightarrow> extends a c"
  unfolding extends_def by (metis map_le_trans)

lemma refines_extends: "refines s s' \<Longrightarrow> extends s s'"
  by (simp add: refines_def extends_def)

lemma extends_bits [simp]: "extends s (s'\<lparr>ssBitsets := bs\<rparr>) \<longleftrightarrow> extends s s'"
  by (simp add: extends_def)

lemma getOrInsertBitset_inv:
  assumes "getOrInsertBitset ctx operation init s = Inr (i, s')" and "solver_inv ctx s"
  shows "solver_inv ctx s'" and "ssBitsetIds s' operation = Some i" and "i < length (ssBitsets s')"
    and "extends s s'" and "ssPathSets s' = ssPathSets s" and "ssPathSetIds s' = ssPathSetIds s"
    and "ssReconfig s' = ssReconfig s" and "ssEarlyExit s' = ssEarlyExit s"
    and "ssBitsetIds s op' = Some j \<Longrightarrow> ssBitsets s' ! j = ssBitsets s ! j"
proof -
  have I: "ssBitsetIds s op = Some i \<Longrightarrow> i < length (ssBitsets s)" for op i using assms(2) by (auto simp: solver_inv_def)
  show "solver_inv ctx s'" "ssBitsetIds s' operation = Some i" "i < length (ssBitsets s')"
    "extends s s'" "ssPathSets s' = ssPathSets s" "ssPathSetIds s' = ssPathSetIds s"
    "ssReconfig s' = ssReconfig s" "ssEarlyExit s' = ssEarlyExit s"
    "ssBitsetIds s op' = Some j \<Longrightarrow> ssBitsets s' ! j = ssBitsets s ! j"
    using assms I unfolding getOrInsertBitset_def
    by (auto simp: Let_def rbind_Inr_iff assertE_Inr_iff extends_def map_le_def solver_inv_def graph_ok_def in_range_def
        nth_append less_Suc_eq split: option.splits if_splits dest: I)
qed

lemma List_find_Some: "List.find P xs = Some x \<Longrightarrow> x \<in> set xs \<and> P x"
  by (auto simp: find_Some_iff)

lemma findConfig_Some:
  "findConfig configs limit l = Some i \<Longrightarrow> i < limit \<and> i < length configs \<and> ocOutputLayout (configs ! i) = Some l"
  by (auto simp: findConfig_def dest!: List_find_Some)

lemma findReshard_Some:
  assumes "findReshard ctx e operand noLayout configs layouts = Inr (Some (i, inputLayout))"
  shows "\<exists>out. checkShardCompatible ctx operand inputLayout (egConsumer e) noLayout = Inr (Inr out)
    \<and> i < length configs \<and> ocOutputLayout (configs ! i) = Some out"
  using assms
proof (induction layouts)
  case (Cons l layouts)
  from Cons.prems obtain r where r: "checkShardCompatible ctx operand l (egConsumer e) noLayout = Inr r"
    by (auto simp: rbind_Inr_iff)
  show ?case
  proof (cases r)
    case (Inr out)
    then show ?thesis
      using Cons r by (cases "findConfig configs (length configs) out") (auto dest: findConfig_Some)
  qed (use Cons r in simp)
qed simp

lemma insertReshard_inv:
  assumes "insertReshard ctx e s = Inr (ok, s')" and "solver_inv ctx s"
  shows "solver_inv ctx s' \<and> extends s s' \<and> ssPathSets s' = ssPathSets s \<and> ssPathSetIds s' = ssPathSetIds s
    \<and> (ok \<longrightarrow> ssEarlyExit s' = ssEarlyExit s) \<and> (\<not> ok \<longrightarrow> ssEarlyExit s')"
proof -
  have new: "ssReconfig s e = None"
    using assms(1) by (cases "ssReconfig s e") (simp_all add: insertReshard_def)
  obtain cid s1 where g: "getOrInsertBitset ctx (egConsumer e) (- 1) s = Inr (cid, s1)"
    using assms(1) new by (cases "getOrInsertBitset ctx (egConsumer e) (- 1) s") (auto simp: insertReshard_def)
  from assms(1) obtain operand inputTensor layouts noLayout found where
    o: "operandOf ctx e = Inr operand"
    and nl: "consumerConfigNoLayout (getLegalConfigs ctx (egConsumer e)) = Inr noLayout"
    and f: "findReshard ctx e operand noLayout (getLegalConfigs ctx (egConsumer e)) layouts = Inr found"
    and s': "(case found of
           None \<Rightarrow> Inr (False, s1\<lparr>ssBitsets := (ssBitsets s1)[cid := 0]\<rparr>\<lparr>ssEarlyExit := True\<rparr>)
         | Some (i, inputLayout) \<Rightarrow>
             rbind (bsSet i 0) (\<lambda>consumerBits.
             Inr (True, s1\<lparr>ssBitsets := (ssBitsets s1)[cid := 0]\<rparr>
               \<lparr>ssBitsets := (ssBitsets (s1\<lparr>ssBitsets := (ssBitsets s1)[cid := 0]\<rparr>))[cid := consumerBits],
               ssReconfig := (ssReconfig (s1\<lparr>ssBitsets := (ssBitsets s1)[cid := 0]\<rparr>))(e \<mapsto>
                 \<lparr>mrConfigMap = [(i, [\<lparr>ocOutputLayout = Some inputLayout, ocOpSpecificAttr = None\<rparr>])],
                  mrSelectedIndex = - 1, mrOverriden = False\<rparr>)\<rparr>))) = (Inr (ok, s') :: fault + _)"
    unfolding insertReshard_def Let_def
    by (simp only: new g rbind_simps prod.case assertE_simps simp_thms) (elim rbind_InrE, rule that; assumption)
  note G = getOrInsertBitset_inv[OF g assms(2)]
  have I: "solver_inv ctx (s1\<lparr>ssBitsets := bs\<rparr>)" if "length bs = length (ssBitsets s1)" for bs
    using solver_inv_bits[OF G(1) that] .
  show ?thesis
  proof (cases found)
    case None
    with s' have s'': "ok = False" "s' = s1\<lparr>ssBitsets := (ssBitsets s1)[cid := 0], ssEarlyExit := True\<rparr>" by auto
    have "solver_inv ctx s'" using I[of "(ssBitsets s1)[cid := 0]"]
      by (simp add: s'' solver_inv_def graph_ok_def in_range_def)
    with G s'' show ?thesis by (simp add: extends_def)
  next
    case (Some x)
    obtain i inputLayout where x: "x = (i, inputLayout)" by (cases x)
    from s' Some x obtain b where b: "bsSet i 0 = Inr b" and ok: "ok = True"
      and s'': "s' = s1\<lparr>ssBitsets := (ssBitsets s1)[cid := 0, cid := b],
               ssReconfig := (ssReconfig s1)(e \<mapsto>
                 \<lparr>mrConfigMap = [(i, [\<lparr>ocOutputLayout = Some inputLayout, ocOpSpecificAttr = None\<rparr>])],
                  mrSelectedIndex = - 1, mrOverriden = False\<rparr>)\<rparr>" by (auto simp: rbind_Inr_iff)
    have "i < 64" using b by (auto simp: bsSet_def kNumBitsetBits_def split: if_splits)
    then have entry: "entry_ok ctx e \<lparr>mrConfigMap = [(i, [\<lparr>ocOutputLayout = Some inputLayout, ocOpSpecificAttr = None\<rparr>])],
                  mrSelectedIndex = - 1, mrOverriden = False\<rparr>"
      using findReshard_Some[OF f[unfolded Some x]] nl o by (auto simp: entry_ok_def accepts_def)
    have none: "ssReconfig s1 e = None" using new G(7) by simp
    let ?t = "s1\<lparr>ssBitsets := (ssBitsets s1)[cid := 0, cid := b]\<rparr>"
    have It: "solver_inv ctx ?t" by (rule I) simp
    have "allowed ctx (ssReconfig s') e' p c" if "allowed ctx (ssReconfig ?t) e' p c" for e' p c
      by (rule allowed_mono[OF _ that]) (use none in \<open>auto simp: s''\<close>)
    with It entry have "solver_inv ctx s'"
      by (auto simp: s'' solver_inv_def graph_ok_def in_range_def)
    with G s'' ok none show ?thesis by (auto simp: extends_def map_le_def)
  qed
qed

section \<open>The path processor only refines\<close>

lemma processPathSet_refines:
  assumes "processPathSet k (s, pr) = Inr (s', pr')"
  shows "refines s s'"
proof -
  from assms obtain ps' bs' where k: "k < length (ssPathSets s)"
    and u: "updateOperationProcessor (ssPathSets s ! k) (ssBitsets s, pr) = Inr (ps', bs', pr')"
    and s': "s' = s\<lparr>ssPathSets := (ssPathSets s)[k := ps'], ssBitsets := bs'\<rparr>"
    by (auto simp: processPathSet_def rbind_Inr_iff at_Inr_iff)
  note U = updateOperationProcessor_result[OF u]
  have kept: "p \<in> set (psPaths ps')"
    if "p \<in> set (pathsOf s k)" "alive (bs' ! psProducerSet ps') (bs' ! psConsumerSet ps') p" for p
  proof -
    have "bits (bs' ! psProducerSet ps') \<subseteq> bits (producerBits s k)" "bits (bs' ! psConsumerSet ps') \<subseteq> bits (consumerBits s k)"
      using U(1,2,5,6) by (auto simp: ps_below_def narrowed_def)
    with that U(4) alive_mono show ?thesis by blast
  qed
  have "ps_below (ssPathSets s ! j) (ssPathSets s' ! j)
      \<and> (\<forall>p \<in> set (pathsOf s j). alive (producerBits s' j) (consumerBits s' j) p \<longrightarrow> p \<in> set (pathsOf s' j))"
    if "j < length (ssPathSets s)" for j
    using that U(1) kept k by (cases "j = k") (auto simp: s' ps_below_def)
  then show ?thesis using U(2) by (simp add: refines_def s')
qed

lemma processPathSets_refines:
  "foldE processPathSet ks (s, pr) = Inr (s', pr') \<Longrightarrow> in_range s \<Longrightarrow> refines s s'"
proof (induction ks arbitrary: s pr)
  case (Cons k ks)
  then obtain s1 pr1 where a: "processPathSet k (s, pr) = Inr (s1, pr1)" "foldE processPathSet ks (s1, pr1) = Inr (s', pr')"
    by (auto simp: rbind_Inr_iff)
  note r = processPathSet_refines[OF a(1)]
  with Cons.IH[OF a(2)] Cons.prems(2) show ?case using refines_trans refines_in_range by blast
qed simp

lemma processQueue_refines:
  "processQueue ctx s pr = Inr (s', pr') \<Longrightarrow> in_range s \<Longrightarrow> refines s s'"
proof (induction ctx s pr rule: processQueue.induct)
  case (1 ctx s pr)
  show ?case
  proof (cases "prQueue pr = []")
    case True
    with 1(2) show ?thesis by (simp add: processQueue.simps)
  next
    case False
    let ?op = "last (prQueue pr)"
    let ?pr1 = "pr\<lparr>prQueue := butlast (prQueue pr), prControl := removeAll ?op (prControl pr)\<rparr>"
    from 1(2) False obtain s2 pr2 where
      a: "foldE processPathSet (getOperandPathSets ctx s ?op @ getUserPathSets ctx s ?op) (s, ?pr1) = Inr (s2, pr2)"
      and b: "processQueue ctx s2 pr2 = Inr (s', pr')"
      by (subst (asm) processQueue.simps) (auto simp: Let_def rbind_Inr_iff)
    note r = processPathSets_refines[OF a 1(3)]
    from 1(1)[OF False HOL.refl HOL.refl a HOL.refl b] refines_in_range[OF r 1(3)] refines_trans[OF r] 1(3)
    show ?thesis by blast
  qed
qed

section \<open>The paths of an edge\<close>

lemma producerIds_set: "p \<in> set (producerIds b n) \<longleftrightarrow> p < n \<and> bit b p"
  by (auto simp: producerIds_def)

definition path_from :: "solver_ctx \<Rightarrow> (edge \<Rightarrow> mem_reconfig_entry option) \<Rightarrow> edge \<Rightarrow> path \<Rightarrow> bool" where
  "path_from ctx reconfig e p \<longleftrightarrow> allowed ctx reconfig e (pathProducer p) (pathConsumer p)"

lemma pathsTo_allowed:
  assumes "egProducer e = Some producerOp" and "getLegalConfigs ctx producerOp \<noteq> []"
    and "reconfig e = Some entry" and "entry_ok ctx e entry" and "c \<in> fst ` set (mrConfigMap entry)"
    and "p \<in> set (pathsTo (producerIds b (configCount (getLegalConfigs ctx producerOp))) c)"
  shows "path_from ctx reconfig e p"
proof -
  from assms(6) have "pathConsumer p = c" "pathProducer p < configCount (getLegalConfigs ctx producerOp)"
    by (auto simp: pathsTo_def producerIds_set)
  moreover from this(2) assms(2) have "pathProducer p < length (getLegalConfigs ctx producerOp)"
    by (cases "getLegalConfigs ctx producerOp") (auto simp: configCount_def)
  ultimately show ?thesis using assms by (auto simp: path_from_def allowed_def)
qed

lemma reshardPaths_set:
  assumes "foldE (\<lambda>(configBitIndex, configs) (paths, edgeProducer, edgeConsumer).
         rbind (bsSet configBitIndex edgeConsumer) (\<lambda>edgeConsumer'.
         Inr (paths @ pathsTo ids configBitIndex, f edgeProducer, edgeConsumer'))) cm (paths0, ep0, ec0) = Inr (paths, ep, ec)"
    and "p \<in> set paths"
  shows "p \<in> set paths0 \<or> (\<exists>c \<in> fst ` set cm. p \<in> set (pathsTo ids c))"
  using assms by (induction cm arbitrary: paths0 ep0 ec0) (fastforce simp: rbind_Inr_iff)+

lemma checkedPaths_allowed:
  assumes "foldE (checkStep ctx producerOp (egConsumer e) noLayout limit) ids (paths0, ep0, ec0) = Inr (paths, ep, ec)"
    and "consumerConfigNoLayout (getLegalConfigs ctx (egConsumer e)) = Inr noLayout"
    and "egProducer e = Some producerOp" and "p \<in> set paths"
  shows "p \<in> set paths0 \<or> path_from ctx reconfig e p"
  using assms(1)
proof (induction ids arbitrary: paths0 ep0 ec0)
  case Nil
  with assms(4) show ?case by simp
next
  case (Cons i ids)
  from Cons.prems obtain paths1 ep1 ec1 where
    a: "checkStep ctx producerOp (egConsumer e) noLayout limit i (paths0, ep0, ec0) = Inr (paths1, ep1, ec1)"
    and b: "foldE (checkStep ctx producerOp (egConsumer e) noLayout limit) ids (paths1, ep1, ec1) = Inr (paths, ep, ec)"
    by (auto simp: rbind_Inr_iff)
  from Cons.IH[OF b] consider "path_from ctx reconfig e p" | "p \<in> set paths1" by blast
  then show ?case
  proof cases
    case 2
    from a have i: "i < length (getLegalConfigs ctx producerOp)" by (auto simp: checkStep_def rbind_Inr_iff at_Inr_iff)
    with a obtain l where l: "ocOutputLayout (getLegalConfigs ctx producerOp ! i) = Some l"
      by (cases "ocOutputLayout (getLegalConfigs ctx producerOp ! i)") (auto simp: checkStep_def)
    with a i obtain r where r: "checkShardCompatible ctx (OpResult producerOp 0) l (egConsumer e) noLayout = Inr r"
      by (cases "checkShardCompatible ctx (OpResult producerOp 0) l (egConsumer e) noLayout") (auto simp: checkStep_def)
    have p1: "paths1 = (case r of Inl err \<Rightarrow> paths0 | Inr out \<Rightarrow>
         (case findConfig (getLegalConfigs ctx (egConsumer e)) limit out of None \<Rightarrow> paths0
          | Some c \<Rightarrow> paths0 @ [\<lparr>pathProducer = i, pathConsumer = c\<rparr>]))"
      using a i l r by (auto simp: checkStep_def split: sum.splits option.splits)
    show ?thesis
    proof (cases "p \<in> set paths0")
      case False
      with 2 p1 obtain out c where "r = Inr out" "findConfig (getLegalConfigs ctx (egConsumer e)) limit out = Some c"
        "p = \<lparr>pathProducer = i, pathConsumer = c\<rparr>" by (auto split: sum.splits option.splits)
      with i l r assms(2,3) show ?thesis
        by (auto simp: path_from_def allowed_def accepts_def dest: findConfig_Some)
    qed simp
  qed simp
qed

lemma edgePaths_allowed:
  assumes "edgePaths ctx e producerOp (egConsumer e) noLayout b s = Inr (paths, ep, ec)" and "solver_inv ctx s"
    and "egProducer e = Some producerOp" and "getLegalConfigs ctx producerOp \<noteq> []"
    and "consumerConfigNoLayout (getLegalConfigs ctx (egConsumer e)) = Inr noLayout" and "p \<in> set paths"
  shows "path_from ctx (ssReconfig s) e p"
proof (cases "e \<in> set (scReconfigEdges ctx) \<or> ssReconfig s e \<noteq> None")
  case True
  with assms(1) obtain entry where entry: "ssReconfig s e = Some entry"
    and r: "reshardPaths entry b (configCount (getLegalConfigs ctx producerOp)) = Inr (paths, ep, ec)"
    by (auto simp: edgePaths_def Let_def split: option.splits)
  from reshardPaths_set[OF r[unfolded reshardPaths_def] assms(6)] obtain c where
    c: "c \<in> fst ` set (mrConfigMap entry)" "p \<in> set (pathsTo (producerIds b (configCount (getLegalConfigs ctx producerOp))) c)"
    by auto
  from assms(2) entry have "entry_ok ctx e entry" by (auto simp: solver_inv_def)
  from pathsTo_allowed[where reconfig = "ssReconfig s", OF assms(3,4) entry this c] show ?thesis .
next
  case False
  with assms(1) have c: "checkedPaths ctx producerOp (egConsumer e) noLayout b (configCount (getLegalConfigs ctx producerOp))
      (configCount (getLegalConfigs ctx (egConsumer e))) = Inr (paths, ep, ec)"
    by (simp add: edgePaths_def Let_def)
  from checkedPaths_allowed[OF c[unfolded checkedPaths_def] assms(5,3,6)] show ?thesis by simp
qed

lemma ensurePaths_inv:
  assumes "ensurePaths ctx e producerOp pid cid (paths, ep, ec) s = Inr (ok, s', (paths', ep', ec'))"
    and "solver_inv ctx s" and "egProducer e = Some producerOp" and "getLegalConfigs ctx producerOp \<noteq> []"
    and "\<forall>p \<in> set paths. path_from ctx (ssReconfig s) e p"
  shows "solver_inv ctx s' \<and> extends s s' \<and> ssPathSetIds s' = ssPathSetIds s
    \<and> (ok \<longrightarrow> ssEarlyExit s' = ssEarlyExit s \<and> (\<forall>p \<in> set paths'. path_from ctx (ssReconfig s') e p))
    \<and> (\<not> ok \<longrightarrow> ssEarlyExit s')"
proof -
  let ?need = "paths = [] \<or> ssBitsets s ! pid AND ep = 0 \<or> ssBitsets s ! cid AND ec = 0"
  from assms(1) have len: "pid < length (ssBitsets s)" "cid < length (ssBitsets s)"
    by (auto simp: ensurePaths_def rbind_Inr_iff at_Inr_iff)
  show ?thesis
  proof (cases ?need)
    case False
    with assms len show ?thesis by (auto simp: ensurePaths_def)
  next
    case True
    with assms(1) len obtain ok1 s1 where i: "insertReshard ctx e s = Inr (ok1, s1)"
      by (cases "insertReshard ctx e s") (auto simp: ensurePaths_def)
    note R = insertReshard_inv[OF i assms(2)]
    show ?thesis
    proof (cases ok1)
      case False
      with assms(1) len True i R show ?thesis by (auto simp: ensurePaths_def)
    next
      case ok1: True
      from assms(1) len True i ok1 obtain entry where entry: "ssReconfig s1 e = Some entry"
        by (cases "ssReconfig s1 e") (auto simp: ensurePaths_def)
      with assms(1) len True i ok1 have f: "fallbackPaths entry (ssBitsets s1 ! pid) (configCount (getLegalConfigs ctx producerOp))
          (paths, ep, ec) = Inr (paths', ep', ec')" and s': "s' = s1" "ok"
        by (auto simp: ensurePaths_def rbind_Inr_iff at_Inr_iff)
      have eok: "entry_ok ctx e entry" using R entry by (auto simp: solver_inv_def)
      have "path_from ctx (ssReconfig s') e p" if "p \<in> set paths'" for p
      proof -
        from reshardPaths_set[OF f[unfolded fallbackPaths_def prod.case, folded id_def[THEN fun_cong, symmetric]] that]
        consider "p \<in> set paths" | c where "c \<in> fst ` set (mrConfigMap entry)"
          "p \<in> set (pathsTo (producerIds (ssBitsets s1 ! pid) (configCount (getLegalConfigs ctx producerOp))) c)" by blast
        then show ?thesis
        proof cases
          case 1
          have m: "\<And>x. ssReconfig s e = Some x \<Longrightarrow> ssReconfig s1 e = Some x"
            using R by (auto simp: extends_def map_le_def dom_def)
          from 1 assms(5) have "allowed ctx (ssReconfig s) e (pathProducer p) (pathConsumer p)" by (simp add: path_from_def)
          from allowed_mono[where rc = "ssReconfig s" and rc' = "ssReconfig s1", OF m this]
          show ?thesis by (simp add: path_from_def s')
        next
          case 2
          from pathsTo_allowed[where reconfig = "ssReconfig s1", OF assms(3,4) entry eok 2] show ?thesis by (simp add: s')
        qed
      qed
      with R ok1 s' show ?thesis by simp
    qed
  qed
qed

lemma commitEdge_inv:
  assumes "commitEdge e producerOp consumerOp pid cid (paths, ep, ec) (s, pr) = Inr (s', pr')"
    and "solver_inv ctx s" and "egProducer e = Some producerOp" and "egConsumer e = consumerOp"
    and "ssBitsetIds s producerOp = Some pid" and "ssBitsetIds s consumerOp = Some cid"
    and "e \<in> set (allChainEdges ctx)" and "\<forall>p \<in> set paths. path_from ctx (ssReconfig s) e p"
  shows "solver_inv ctx s' \<and> extends s s' \<and> ssPathSetIds s' e \<noteq> None \<and> ssEarlyExit s' = ssEarlyExit s"
proof -
  let ?ps = "\<lparr>psProducerSet = pid, psConsumerSet = cid, psProducerOp = producerOp, psConsumerOp = consumerOp, psPaths = paths\<rparr>"
  from assms(1) obtain a b where new: "ssPathSetIds s e = None"
    and s'': "s' = s\<lparr>ssBitsets := (ssBitsets s)[pid := a, cid := b], ssPathSets := ssPathSets s @ [?ps],
       ssPathSetIds := (ssPathSetIds s)(e \<mapsto> length (ssPathSets s))\<rparr>"
    by (force simp: commitEdge_def rbind_Inr_iff assertE_Inr_iff Let_def)
  define bs where "bs = (ssBitsets s)[pid := a, cid := b]"
  then have len: "length bs = length (ssBitsets s)" by simp
  have s': "s' = s\<lparr>ssBitsets := bs, ssPathSets := ssPathSets s @ [?ps],
       ssPathSetIds := (ssPathSetIds s)(e \<mapsto> length (ssPathSets s))\<rparr>" by (simp add: s'' bs_def)
  have ids: "pid < length (ssBitsets s)" "cid < length (ssBitsets s)" using assms(2,5,6) by (auto simp: solver_inv_def)
  have G: "graph_ok ctx s" by (rule solver_inv_graph[OF assms(2)])
  have old: "k < length (ssPathSets s)" if "ssPathSetIds s e' = Some k" for e' k
    using G that by (simp add: graph_ok_def)
  have "in_range s'" using G ids len by (auto simp: s' graph_ok_def in_range_def nth_append less_Suc_eq)
  moreover have "k < length (ssPathSets s')
      \<and> egProducer e' = Some (psProducerOp (ssPathSets s' ! k)) \<and> egConsumer e' = psConsumerOp (ssPathSets s' ! k)
      \<and> ssBitsetIds s' (psProducerOp (ssPathSets s' ! k)) = Some (psProducerSet (ssPathSets s' ! k))
      \<and> ssBitsetIds s' (psConsumerOp (ssPathSets s' ! k)) = Some (psConsumerSet (ssPathSets s' ! k))
      \<and> (\<forall>p \<in> set (pathsOf s' k). allowed ctx (ssReconfig s') e' (pathProducer p) (pathConsumer p))"
    if k: "ssPathSetIds s' e' = Some k" for e' k
  proof (cases "e' = e")
    case True
    with k assms show ?thesis by (auto simp: s' path_from_def nth_append)
  next
    case False
    with k have k': "ssPathSetIds s e' = Some k" by (simp add: s')
    with old have kl: "k < length (ssPathSets s')" and same: "ssPathSets s' ! k = ssPathSets s ! k"
      by (auto simp: s' nth_append less_Suc_eq)
    from G assms(2) k' kl show ?thesis
      unfolding same by (simp add: s' graph_ok_def solver_inv_def)
  qed
  moreover have "\<exists>e' \<in> set (allChainEdges ctx). ssPathSetIds s' e' = Some k" if k: "k < length (ssPathSets s')" for k
  proof (cases "k = length (ssPathSets s)")
    case True
    with assms(7) show ?thesis by (auto simp: s')
  next
    case False
    with k have "k < length (ssPathSets s)" by (simp add: s')
    with G obtain e' where e': "e' \<in> set (allChainEdges ctx)" "ssPathSetIds s e' = Some k" by (auto simp: graph_ok_def)
    with new have "e' \<noteq> e" by auto
    with e' show ?thesis by (auto simp: s')
  qed
  moreover have "ssBitsetIds s' = ssBitsetIds s" "ssReconfig s' = ssReconfig s" "length (ssBitsets s') = length (ssBitsets s)"
    using len by (simp_all add: s')
  ultimately have "solver_inv ctx s'" using assms(2) by (simp add: solver_inv_def graph_ok_def)
  with new show ?thesis by (auto simp: s' extends_def map_le_def)
qed

lemma chain_edge:
  assumes "e \<in> set (allChainEdges ctx)"
  obtains p where "egProducer e = Some p" and "p \<in> set (scShardedOps ctx)"
    and "egConsumer e \<in> set (scShardSpecs ctx)" and "e \<in> set (operandOpEdges ctx (egConsumer e))"
proof -
  from assms obtain operation where "operation \<in> set (scShardSpecs ctx)" "e \<in> set (chainEdges ctx operation)"
    by (auto simp: allChainEdges_def)
  then have "\<exists>p. egProducer e = Some p \<and> p \<in> set (scShardedOps ctx) \<and> egConsumer e \<in> set (scShardSpecs ctx)"
    by (auto simp: chainEdges_def split: option.splits if_splits) metis+
  moreover from assms have "e \<in> set (operandOpEdges ctx (egConsumer e))" by (simp add: operandOpEdges_def)
  ultimately show ?thesis using that by blast
qed

text \<open>Every op of the chain has a legal config.\<close>

definition has_configs :: "solver_ctx \<Rightarrow> bool" where
  "has_configs ctx \<longleftrightarrow> (\<forall>op \<in> set (scShardedOps ctx). getLegalConfigs ctx op \<noteq> [])"

lemma processEdge_inv:
  assumes "processEdge ctx (egConsumer e) cid noLayout e (s, pr) = Inr (ok, s', pr')" and "solver_inv ctx s"
    and "ssBitsetIds s (egConsumer e) = Some cid" and "consumerConfigNoLayout (getLegalConfigs ctx (egConsumer e)) = Inr noLayout"
    and "e \<in> set (allChainEdges ctx)" and "has_configs ctx"
  shows "solver_inv ctx s' \<and> extends s s' \<and> (ok \<longrightarrow> ssPathSetIds s' e \<noteq> None \<and> ssEarlyExit s' = ssEarlyExit s)
    \<and> (\<not> ok \<longrightarrow> ssEarlyExit s')"
proof -
  from assms(5) obtain p where p: "egProducer e = Some p" "p \<in> set (scShardedOps ctx)" by (rule chain_edge)
  then have ne: "getLegalConfigs ctx p \<noteq> []" using assms(6) by (simp add: has_configs_def)
  from assms(1) p(1) obtain pid s1 where g: "getOrInsertBitset ctx p (- 1) s = Inr (pid, s1)"
    by (cases "getOrInsertBitset ctx p (- 1) s") (auto simp: processEdge_def)
  note G = getOrInsertBitset_inv[OF g assms(2)]
  from assms(1) p(1) g G(3) obtain paths ep ec where
    ep: "edgePaths ctx e p (egConsumer e) noLayout (ssBitsets s1 ! pid) s1 = Inr (paths, ep, ec)"
    by (cases "edgePaths ctx e p (egConsumer e) noLayout (ssBitsets s1 ! pid) s1")
      (auto simp: processEdge_def rbind_Inr_iff at_Inr_iff)
  from assms(1) p(1) g G(3) ep obtain ok2 s2 paths2 ep2 ec2 where
    en: "ensurePaths ctx e p pid cid (paths, ep, ec) s1 = Inr (ok2, s2, (paths2, ep2, ec2))"
    and rest: "if ok2 then ok \<and> commitEdge e p (egConsumer e) pid cid (paths2, ep2, ec2) (s2, pr) = Inr (s', pr')
      else \<not> ok \<and> s' = s2"
    by (fastforce simp: processEdge_def rbind_Inr_iff at_Inr_iff assertE_Inr_iff split: if_splits)
  have "\<forall>q \<in> set paths. path_from ctx (ssReconfig s1) e q"
    using edgePaths_allowed[OF ep G(1) p(1) ne assms(4)] by blast
  note E = ensurePaths_inv[OF en G(1) p(1) ne this]
  show ?thesis
  proof (cases ok2)
    case True
    have ids: "ssBitsetIds s2 p = Some pid" "ssBitsetIds s2 (egConsumer e) = Some cid"
      using E G(2,4) assms(3) by (auto simp: extends_def map_le_def dom_def)
    from True rest have c: "commitEdge e p (egConsumer e) pid cid (paths2, ep2, ec2) (s2, pr) = Inr (s', pr')" by simp
    from E True have "solver_inv ctx s2" "\<forall>q \<in> set paths2. path_from ctx (ssReconfig s2) e q" by auto
    note C = commitEdge_inv[OF c this(1) p(1) HOL.refl ids assms(5) this(2)]
    have "extends s s'" using C E G(4) extends_trans by blast
    with C E G(8) True rest show ?thesis by simp
  next
    case False
    with rest E G show ?thesis using extends_trans by auto
  qed
qed

lemma extends_ids: "extends s s' \<Longrightarrow> ssPathSetIds s e \<noteq> None \<Longrightarrow> ssPathSetIds s' e \<noteq> None"
  and extends_bitset: "extends s s' \<Longrightarrow> ssBitsetIds s op = Some i \<Longrightarrow> ssBitsetIds s' op = Some i"
  by (auto simp: extends_def map_le_def dom_def)

lemma processEdges_inv:
  assumes "processEdges ctx consumerOp cid noLayout es (s, pr) = Inr (ok, s', pr')" and "solver_inv ctx s"
    and "ssBitsetIds s consumerOp = Some cid" and "consumerConfigNoLayout (getLegalConfigs ctx consumerOp) = Inr noLayout"
    and "set es \<subseteq> set (operandOpEdges ctx consumerOp)" and "has_configs ctx"
  shows "solver_inv ctx s' \<and> extends s s'
    \<and> (ok \<longrightarrow> (\<forall>e \<in> set es. ssPathSetIds s' e \<noteq> None) \<and> ssEarlyExit s' = ssEarlyExit s) \<and> (\<not> ok \<longrightarrow> ssEarlyExit s')"
  using assms(1,2,3,5)
proof (induction es arbitrary: s pr)
  case (Cons e es)
  from Cons.prems(4) have e: "egConsumer e = consumerOp" "e \<in> set (allChainEdges ctx)" by (auto simp: operandOpEdges_def)
  from Cons.prems(1) obtain ok1 s1 pr1 where a: "processEdge ctx consumerOp cid noLayout e (s, pr) = Inr (ok1, s1, pr1)"
    and b: "if ok1 then processEdges ctx consumerOp cid noLayout es (s1, pr1) = Inr (ok, s', pr')
      else \<not> ok \<and> s' = s1"
    by (auto simp: rbind_Inr_iff split: if_splits)
  note A = processEdge_inv[OF a[folded e(1)] Cons.prems(2) _ _ e(2) assms(6), unfolded e(1), OF Cons.prems(3) assms(4)]
  show ?case
  proof (cases ok1)
    case True
    have "ssBitsetIds s1 consumerOp = Some cid" using A Cons.prems(3) extends_bitset by blast
    with Cons.IH[of s1 pr1] Cons.prems(4) True b A
    have I: "solver_inv ctx s'" "extends s1 s'"
      "(ok \<longrightarrow> (\<forall>e \<in> set es. ssPathSetIds s' e \<noteq> None) \<and> ssEarlyExit s' = ssEarlyExit s1) \<and> (\<not> ok \<longrightarrow> ssEarlyExit s')"
      by simp_all
    moreover have "extends s s'" using A I(2) extends_trans by blast
    moreover have "ssPathSetIds s' e \<noteq> None" using extends_ids[OF I(2)] A True by blast
    ultimately show ?thesis using A True by simp
  next
    case False
    with A b show ?thesis by auto
  qed
qed simp

section \<open>The rows of resolveStep\<close>

lemma refines_inv_extends: "refines s s' \<Longrightarrow> solver_inv ctx s \<Longrightarrow> solver_inv ctx s' \<and> extends s s' \<and> ssEarlyExit s' = ssEarlyExit s"
  using solver_inv_refines refines_extends by (auto simp: refines_def)

lemma solver_inv_range: "solver_inv ctx s \<Longrightarrow> in_range s"
  by (auto simp: solver_inv_def graph_ok_def)

lemma resolveOps_inv:
  assumes "resolveOps ctx ops (s, pr) = Inr (ok, s', pr')" and "solver_inv ctx s" and "has_configs ctx"
  shows "solver_inv ctx s' \<and> extends s s' \<and> (ok \<longrightarrow> ssEarlyExit s' = ssEarlyExit s
      \<and> (\<forall>operation \<in> set ops. \<forall>e \<in> set (operandOpEdges ctx operation). ssPathSetIds s' e \<noteq> None))
    \<and> (\<not> ok \<longrightarrow> ssEarlyExit s')"
  using assms(1,2)
proof (induction ops arbitrary: s pr)
  case (Cons consumerOp ops)
  from Cons.prems(1) obtain cid s1 where g: "getOrInsertBitset ctx consumerOp (- 1) s = Inr (cid, s1)"
    by (cases "getOrInsertBitset ctx consumerOp (- 1) s") auto
  note G = getOrInsertBitset_inv[OF g Cons.prems(2)]
  from Cons.prems(1) g obtain noLayout where nl: "consumerConfigNoLayout (getLegalConfigs ctx consumerOp) = Inr noLayout"
    by (cases "consumerConfigNoLayout (getLegalConfigs ctx consumerOp)") auto
  show ?case
  proof (cases "operandOpEdges ctx consumerOp = []")
    case True
    with Cons.prems(1) g nl have "resolveOps ctx ops (s1, pr) = Inr (ok, s', pr')" by simp
    from Cons.IH[OF this G(1)] True G(4,8) show ?thesis using extends_trans by auto
  next
    case False
    from Cons.prems(1) g nl False obtain ok2 s2 pr2 where
      pe: "processEdges ctx consumerOp cid noLayout (operandOpEdges ctx consumerOp) (s1, pr) = Inr (ok2, s2, pr2)"
      by (cases "processEdges ctx consumerOp cid noLayout (operandOpEdges ctx consumerOp) (s1, pr)") auto
    note P = processEdges_inv[OF pe G(1,2) nl subset_refl assms(3)]
    have ext2: "extends s s2" using P G(4) extends_trans by blast
    show ?thesis
    proof (cases ok2)
      case True
      with Cons.prems(1) g nl False pe obtain s3 pr3 where q: "processQueue ctx s2 pr2 = Inr (s3, pr3)"
        and r: "resolveOps ctx ops (s3, pr3) = Inr (ok, s', pr')"
        by (cases "processQueue ctx s2 pr2") auto
      from P have inv2: "solver_inv ctx s2" by blast
      from processQueue_refines[OF q solver_inv_range[OF inv2]] inv2
      have Q: "solver_inv ctx s3 \<and> extends s2 s3 \<and> ssEarlyExit s3 = ssEarlyExit s2" by (rule refines_inv_extends)
      note I = Cons.IH[OF r conjunct1[OF Q]]
      have ext: "extends s2 s'" "extends s s'" using Q I ext2 extends_trans by blast+
      have "\<forall>e \<in> set (operandOpEdges ctx consumerOp). ssPathSetIds s' e \<noteq> None"
        using extends_ids[OF ext(1)] P True by blast
      then show ?thesis using I ext P True Q G(8) by simp
    next
      case False
      with Cons.prems(1) g nl \<open>operandOpEdges ctx consumerOp \<noteq> []\<close> pe have "ok = ok2" "s' = s2" by auto
      with False P ext2 show ?thesis by simp
    qed
  qed
qed simp

lemma preprocessFirstOp_inv:
  assumes "preprocessFirstOp ctx s = Inr (ok, s')" and "solver_inv ctx s"
  shows "solver_inv ctx s' \<and> extends s s' \<and> (ok \<longrightarrow> ssEarlyExit s' = ssEarlyExit s) \<and> (\<not> ok \<longrightarrow> ssEarlyExit s')"
proof -
  from assms(1) obtain firstOp e where f: "at (scShardSpecs ctx) 0 = Inr firstOp" "firstOpEdge ctx firstOp = Inr e"
    by (auto simp: preprocessFirstOp_def rbind_Inr_iff)
  show ?thesis
  proof (cases "e \<in> set (scReconfigEdges ctx) \<or> ssReconfig s e \<noteq> None")
    case True
    with assms f show ?thesis by (auto simp: preprocessFirstOp_def)
  next
    case False
    with assms(1) f obtain fid s1 where g: "getOrInsertBitset ctx firstOp (- 1) s = Inr (fid, s1)"
      by (cases "getOrInsertBitset ctx firstOp (- 1) s") (auto simp: preprocessFirstOp_def)
    note G = getOrInsertBitset_inv[OF g assms(2)]
    have r0: "rbind (foldE (firstOpStep ctx firstOp) [0..<length (getLegalConfigs ctx firstOp)] (ssBitsets s1 ! fid, False))
        (\<lambda>(bits1, hasValidConfig).
          if hasValidConfig then Inr (True, s1\<lparr>ssBitsets := (ssBitsets s1)[fid := bits1]\<rparr>)
          else insertReshard ctx e (s1\<lparr>ssBitsets := (ssBitsets s1)[fid := bits1]\<rparr>)) = Inr (ok, s')"
      using assms(1) f False g G(3) by (simp add: preprocessFirstOp_def at_def Let_def)
    obtain res where c: "(case res of (bits1, hasValidConfig) \<Rightarrow>
        (if hasValidConfig then Inr (True, s1\<lparr>ssBitsets := (ssBitsets s1)[fid := bits1]\<rparr>)
          else insertReshard ctx e (s1\<lparr>ssBitsets := (ssBitsets s1)[fid := bits1]\<rparr>))) = Inr (ok, s')"
      by (rule rbind_InrE[OF r0]) (rule that)
    obtain bits1 valid where res: "res = (bits1, valid)" by (cases res)
    from c have
      r: "(if valid then Inr (True, s1\<lparr>ssBitsets := (ssBitsets s1)[fid := bits1]\<rparr>)
        else insertReshard ctx e (s1\<lparr>ssBitsets := (ssBitsets s1)[fid := bits1]\<rparr>)) = Inr (ok, s')"
      by (simp only: res prod.case)
    have I: "solver_inv ctx (s1\<lparr>ssBitsets := (ssBitsets s1)[fid := bits1]\<rparr>)" by (rule solver_inv_bits[OF G(1)]) simp
    show ?thesis
    proof (cases valid)
      case True
      with r I G(4,8) show ?thesis by auto
    next
      case False
      with r have "insertReshard ctx e (s1\<lparr>ssBitsets := (ssBitsets s1)[fid := bits1]\<rparr>) = Inr (ok, s')" by simp
      note R = insertReshard_inv[OF this I]
      have "extends s1 (s1\<lparr>ssBitsets := (ssBitsets s1)[fid := bits1]\<rparr>)" by simp
      from extends_trans[OF G(4) extends_trans[OF this]] R have "extends s s'" by blast
      with R G(8) show ?thesis by simp
    qed
  qed
qed

section \<open>After resolve\<close>

text \<open>The last loop of \<open>resolveStep\<close> runs \<open>updateSolver\<close> from every op of the chain.\<close>

lemma updateAll_good:
  assumes "foldE (\<lambda>operation. updateSolver ctx operation False False) ops s = Inr s'" and "graph_ok ctx s"
  shows "refines s s' \<and> (\<forall>k < length (ssPathSets s). good s k \<or> touches s k (set ops) \<longrightarrow> good s' k)"
  using assms
proof (induction ops arbitrary: s)
  case Nil
  then show ?case by (simp add: touches_def)
next
  case (Cons op ops)
  then obtain s1 where a: "updateLoop ctx False [op] s = Inr s1"
    and b: "foldE (\<lambda>operation. updateSolver ctx operation False False) ops s1 = Inr s'"
    by (auto simp: rbind_Inr_iff updateSolver_def[of ctx op])
  note A = updateLoop_good[OF a Cons.prems(2), where R = "set ops"]
  have G1: "graph_ok ctx s1" using A graph_ok_refines Cons.prems(2) by blast
  note B = Cons.IH[OF b G1]
  have "length (ssPathSets s1) = length (ssPathSets s)" using A by (simp add: refines_def)
  moreover have "touches s1 k (set ops) \<longleftrightarrow> touches s k (set ops)" if "k < length (ssPathSets s)" for k
    using A touches_refines that by blast
  moreover have "refines s s'" using A B refines_trans graph_ok_in_range Cons.prems(2) by blast
  ultimately show ?case using A B by auto
qed

definition supported :: "solver_ctx \<Rightarrow> shard_solver \<Rightarrow> edge \<Rightarrow> bool" where
  "supported ctx s e \<longleftrightarrow> (\<exists>p i j. egProducer e = Some p \<and> ssBitsetIds s p = Some i \<and> ssBitsetIds s (egConsumer e) = Some j
     \<and> bits (ssBitsets s ! i) \<noteq> {} \<and> bits (ssBitsets s ! j) \<noteq> {}
     \<and> (\<forall>a \<in> bits (ssBitsets s ! i). \<exists>b \<in> bits (ssBitsets s ! j). allowed ctx (ssReconfig s) e a b)
     \<and> (\<forall>b \<in> bits (ssBitsets s ! j). \<exists>a \<in> bits (ssBitsets s ! i). allowed ctx (ssReconfig s) e a b))"

lemma good_supported:
  assumes "solver_inv ctx s" and "ssPathSetIds s e = Some k" and "good s k"
  shows "supported ctx s e"
proof -
  let ?P = "{p \<in> set (pathsOf s k). alive (producerBits s k) (consumerBits s k) p}"
  from assms(1,2) have ids: "egProducer e = Some (psProducerOp (ssPathSets s ! k))" "egConsumer e = psConsumerOp (ssPathSets s ! k)"
      "ssBitsetIds s (psProducerOp (ssPathSets s ! k)) = Some (psProducerSet (ssPathSets s ! k))"
      "ssBitsetIds s (psConsumerOp (ssPathSets s ! k)) = Some (psConsumerSet (ssPathSets s ! k))"
    and al: "\<forall>p \<in> ?P. allowed ctx (ssReconfig s) e (pathProducer p) (pathConsumer p)"
    by (auto simp: solver_inv_def graph_ok_def)
  from assms(3) have im: "bits (producerBits s k) = pathProducer ` ?P" "bits (consumerBits s k) = pathConsumer ` ?P"
    "bits (producerBits s k) \<noteq> {}"
    by (auto simp: good_def consistent_def Let_def alive_def bits_def)
  then have "bits (consumerBits s k) \<noteq> {}" by auto
  moreover have "\<forall>a \<in> bits (producerBits s k). \<exists>b \<in> bits (consumerBits s k). allowed ctx (ssReconfig s) e a b"
    unfolding im(1,2) using al by blast
  moreover have "\<forall>b \<in> bits (consumerBits s k). \<exists>a \<in> bits (producerBits s k). allowed ctx (ssReconfig s) e a b"
    unfolding im(1,2) using al by blast
  ultimately show ?thesis using im(3) ids unfolding supported_def by simp
qed

lemma initialSolver_inv: "solver_inv ctx (solverReset initialSolver)"
  by (simp add: solver_inv_def graph_ok_def in_range_def solverReset_def initialSolver_def)

text \<open>What a successful \<open>resolve\<close> leaves behind.\<close>

lemma resolve_result:
  assumes "resolve ctx initialSolver = Inr (True, s)" and "has_configs ctx"
  shows "solver_inv ctx s \<and> ssSelected s = []
    \<and> (\<forall>e \<in> set (allChainEdges ctx). \<exists>k. ssPathSetIds s e = Some k \<and> k < length (ssPathSets s) \<and> good s k)"
proof -
  let ?s0 = "solverReset initialSolver"
  from assms(1) have st: "resolveStep ctx ?s0 = Inr (True, s)"
    by (auto simp: resolve_def rbind_Inr_iff assertE_Inr_iff split: if_splits)
  then obtain s1 where p: "preprocessFirstOp ctx ?s0 = Inr (True, s1)"
    by (auto simp: resolveStep_def rbind_Inr_iff split: if_splits)
  with st obtain s2 pr2 where r: "resolveOps ctx (scShardSpecs ctx) (s1, \<lparr>prQueue = [], prControl = []\<rparr>) = Inr (True, s2, pr2)"
    and u: "foldE (\<lambda>operation. updateSolver ctx operation False False) (scShardSpecs ctx) s2 = Inr s"
    by (auto simp: resolveStep_def rbind_Inr_iff split: if_splits)
  note P = preprocessFirstOp_inv[OF p initialSolver_inv]
  note R = resolveOps_inv[OF r conjunct1[OF P] assms(2)]
  have G2: "graph_ok ctx s2" using R solver_inv_graph by blast
  note U = updateAll_good[OF u G2]
  have inv: "solver_inv ctx s" using U R solver_inv_refines by blast
  have "extends ?s0 s" using P R U refines_extends extends_trans by blast
  then have sel: "ssSelected s = []" by (simp add: extends_def solverReset_def initialSolver_def)
  have "\<exists>k. ssPathSetIds s e = Some k \<and> k < length (ssPathSets s) \<and> good s k" if e: "e \<in> set (allChainEdges ctx)" for e
  proof -
    from e obtain "egConsumer e \<in> set (scShardSpecs ctx)" "e \<in> set (operandOpEdges ctx (egConsumer e))" by (rule chain_edge)
    with R obtain k where k: "ssPathSetIds s2 e = Some k" by blast
    with G2 have kl: "k < length (ssPathSets s2)" and "psConsumerOp (ssPathSets s2 ! k) \<in> set (scShardSpecs ctx)"
      using \<open>egConsumer e \<in> set (scShardSpecs ctx)\<close> by (auto simp: graph_ok_def)
    then have "touches s2 k (set (scShardSpecs ctx))" by (simp add: touches_def)
    with U kl have "good s k" by blast
    moreover from U k kl have "ssPathSetIds s e = Some k" "k < length (ssPathSets s)" by (simp_all add: refines_def)
    ultimately show ?thesis by blast
  qed
  with inv sel show ?thesis by blast
qed

text \<open>C23: When \<open>resolve\<close> succeeds, every edge of the chain is supported: both of its ops have
  configs left, every remaining config of the producer has a remaining config of the consumer
  it is allowed with, and the other way round. A pair is allowed when the compatibility check,
  given the producer's layout, yields the consumer's, or when a reshard on the edge converts
  to a layout the check accepts for that consumer config.\<close>

theorem resolve_sound:
  assumes "resolve ctx initialSolver = Inr (True, s)"
    and "\<forall>operation \<in> set (scShardedOps ctx). getLegalConfigs ctx operation \<noteq> []"
    and "e \<in> set (allChainEdges ctx)"
  shows "supported ctx s e"
proof -
  from resolve_result[OF assms(1)] assms(2,3) obtain k where "solver_inv ctx s" "ssPathSetIds s e = Some k" "good s k"
    by (auto simp: has_configs_def)
  then show ?thesis by (rule good_supported)
qed

text \<open>A chain of two ops, the second the only user of the first; the first can be width or
  height sharded, the second only height sharded, and the hook lets the layout through.\<close>

definition demoLayout :: "shape \<Rightarrow> shape \<Rightarrow> tensor_memory_layout \<Rightarrow> ttnn_layout_attr" where
  "demoLayout grid shard m = \<lparr>getLinear = identityMap 2, getGrid = gridOfShape grid,
     getMemref = \<lparr>memrefShape = shard, memrefElem = TileElem (defaultTile BFloat16), memrefSpace = L1\<rparr>,
     getMemLayout = Some m, getTensorMeshSharding = None\<rparr>"

definition demoConfig :: "shape \<Rightarrow> shape \<Rightarrow> tensor_memory_layout \<Rightarrow> op_config" where
  "demoConfig grid shard m = \<lparr>ocOutputLayout = Some (demoLayout grid shard m), ocOpSpecificAttr = None\<rparr>"

definition demoSolver :: "edge list \<Rightarrow> solver_ctx" where
  "demoSolver override = \<lparr>scOp = (\<lambda>n. \<lparr>irOperands = (if n = 0 then [BlockArg 0] else [OpResult 0 0]),
       irUsers = (if n = 0 then [1] else []), irIsDPS = False\<rparr>),
     scType = (\<lambda>v. RankedTensor \<lparr>ttShape = [32, 64], ttElem = TileElem (defaultTile BFloat16),
       ttEncoding = demoLayout [1, 1] [1, 2] Interleaved\<rparr>),
     scPossibleLayouts = (\<lambda>ty. None),
     scLegalConfigs = (\<lambda>n. Some (if n = 0 then [demoConfig [1, 2] [1, 1] WidthSharded, demoConfig [1, 1] [1, 2] HeightSharded]
       else [demoConfig [1, 1] [1, 2] HeightSharded])),
     scShardSpecs = [0, 1], scShardedOps = [0, 1], scUsableL1CacheSize = 1000000, scReconfigEdges = override,
     scCustomCheck = Some (\<lambda>operand layout consumer config. Inr layout), scBackend = (\<lambda>n. None),
     scWorkerGrid = gridOfShape [8, 8]\<rparr>"

definition demoEdge :: edge where
  "demoEdge = \<lparr>egProducer = Some 0, egConsumer = 1, egOperandIndex = 0\<rparr>"

lemma demoSolver_facts:
  "\<forall>operation \<in> set (scShardedOps (demoSolver [])). getLegalConfigs (demoSolver []) operation \<noteq> []"
  "demoEdge \<in> set (allChainEdges (demoSolver override))"
  by (simp_all add: demoSolver_def getLegalConfigs_def demoEdge_def allChainEdges_def chainEdges_def)

theorem resolve_sound_witness:
  "\<exists>s. resolve (demoSolver []) initialSolver = Inr (True, s) \<and> supported (demoSolver []) s demoEdge"
proof -
  have "case resolve (demoSolver []) initialSolver of Inr (b, s) \<Rightarrow> b | Inl e \<Rightarrow> False" by code_simp
  then obtain s where r: "resolve (demoSolver []) initialSolver = Inr (True, s)"
    by (auto split: sum.splits prod.splits)
  with resolve_sound[OF r demoSolver_facts] show ?thesis by blast
qed

section \<open>Overridden edges inside a chain\<close>

text \<open>No reshard entry is ever recorded for an edge the overrides ask to reshard.\<close>

abbreviation no_override_entry :: "solver_ctx \<Rightarrow> shard_solver \<Rightarrow> bool" where
  "no_override_entry ctx s \<equiv> \<forall>e \<in> set (scReconfigEdges ctx). ssReconfig s e = None"

lemma insertReshard_other:
  assumes "insertReshard ctx e s = Inr (ok, s')" and "e' \<noteq> e"
  shows "ssReconfig s' e' = ssReconfig s e'"
  using assms by (auto simp: insertReshard_def getOrInsertBitset_def rbind_Inr_iff assertE_Inr_iff Let_def
      split: option.splits prod.splits if_splits)

lemma processEdge_override:
  assumes "processEdge ctx (egConsumer e) cid noLayout e (s, pr) = Inr (ok, s', pr')" and "no_override_entry ctx s"
  shows "e \<notin> set (scReconfigEdges ctx) \<and> no_override_entry ctx s'"
proof -
  from assms(1) obtain p where p: "egProducer e = Some p" by (cases "egProducer e") (auto simp: processEdge_def)
  with assms(1) obtain pid s1 where g: "getOrInsertBitset ctx p (- 1) s = Inr (pid, s1)"
    by (cases "getOrInsertBitset ctx p (- 1) s") (auto simp: processEdge_def)
  then have rc1: "ssReconfig s1 = ssReconfig s"
    by (auto simp: getOrInsertBitset_def Let_def rbind_Inr_iff split: option.splits)
  from assms(1) p g obtain ep1 where ep: "edgePaths ctx e p (egConsumer e) noLayout (ssBitsets s1 ! pid) s1 = Inr ep1"
    by (cases "edgePaths ctx e p (egConsumer e) noLayout (ssBitsets s1 ! pid) s1")
      (auto simp: processEdge_def rbind_Inr_iff at_Inr_iff)
  then have new: "e \<notin> set (scReconfigEdges ctx)"
    using rc1 assms(2) by (auto simp: edgePaths_def Let_def split: option.splits)
  obtain paths1 a1 b1 where t1: "ep1 = (paths1, a1, b1)" by (cases ep1)
  from assms(1) p g ep obtain ok2 s2 ep2 where en: "ensurePaths ctx e p pid cid ep1 s1 = Inr (ok2, s2, ep2)"
    and rest: "if ok2 then commitEdge e p (egConsumer e) pid cid ep2 (s2, pr) = Inr (s', pr') else s' = s2"
    by (auto simp: processEdge_def rbind_Inr_iff at_Inr_iff assertE_Inr_iff split: if_splits)
  have "ssReconfig s2 e' = ssReconfig s1 e'" if "e' \<noteq> e" for e'
    using en that insertReshard_other
    by (auto simp: ensurePaths_def t1 rbind_Inr_iff split: if_splits option.splits)
  moreover have "ssReconfig s' = ssReconfig s2"
    using rest by (cases ep2) (auto simp: commitEdge_def rbind_Inr_iff Let_def split: if_splits)
  ultimately show ?thesis using new assms(2) rc1 by metis
qed

lemma processEdges_override:
  "processEdges ctx c cid noLayout es (s, pr) = Inr (ok, s', pr') \<Longrightarrow> no_override_entry ctx s \<Longrightarrow>
    \<forall>e \<in> set es. egConsumer e = c \<Longrightarrow> no_override_entry ctx s' \<and> (ok \<longrightarrow> set es \<inter> set (scReconfigEdges ctx) = {})"
proof (induction es arbitrary: s pr)
  case (Cons e es)
  from Cons.prems(1) obtain ok1 s1 pr1 where a: "processEdge ctx c cid noLayout e (s, pr) = Inr (ok1, s1, pr1)"
    and b: "if ok1 then processEdges ctx c cid noLayout es (s1, pr1) = Inr (ok, s', pr') else \<not> ok \<and> s' = s1"
    by (auto simp: rbind_Inr_iff split: if_splits)
  from Cons.prems(3) a have "processEdge ctx (egConsumer e) cid noLayout e (s, pr) = Inr (ok1, s1, pr1)" by simp
  note A = processEdge_override[OF this Cons.prems(2)]
  with b Cons.IH[of s1 pr1] Cons.prems(3) show ?case by (auto split: if_splits)
qed simp

lemma processPathSets_reconfig:
  "foldE processPathSet ks (s, pr) = Inr (s', pr') \<Longrightarrow> ssReconfig s' = ssReconfig s"
proof (induction ks arbitrary: s pr)
  case (Cons k ks)
  then obtain s1 pr1 where a: "processPathSet k (s, pr) = Inr (s1, pr1)" "foldE processPathSet ks (s1, pr1) = Inr (s', pr')"
    by (auto simp: rbind_Inr_iff)
  then have "ssReconfig s1 = ssReconfig s" by (auto simp: processPathSet_def rbind_Inr_iff)
  with Cons.IH[OF a(2)] show ?case by simp
qed simp

lemma processQueue_reconfig: "processQueue ctx s pr = Inr (s', pr') \<Longrightarrow> ssReconfig s' = ssReconfig s"
proof (induction ctx s pr rule: processQueue.induct)
  case (1 ctx s pr)
  show ?case
  proof (cases "prQueue pr = []")
    case False
    let ?op = "last (prQueue pr)"
    let ?pr1 = "pr\<lparr>prQueue := butlast (prQueue pr), prControl := removeAll ?op (prControl pr)\<rparr>"
    from 1(2) False obtain s2 pr2 where
      a: "foldE processPathSet (getOperandPathSets ctx s ?op @ getUserPathSets ctx s ?op) (s, ?pr1) = Inr (s2, pr2)"
      and b: "processQueue ctx s2 pr2 = Inr (s', pr')"
      by (subst (asm) processQueue.simps) (auto simp: Let_def rbind_Inr_iff)
    from 1(1)[OF False HOL.refl HOL.refl a HOL.refl b] processPathSets_reconfig[OF a] show ?thesis by simp
  qed (use 1(2) in \<open>simp add: processQueue.simps\<close>)
qed

lemma getOrInsertBitset_reconfig: "getOrInsertBitset ctx operation init s = Inr (i, s') \<Longrightarrow> ssReconfig s' = ssReconfig s"
  by (auto simp: getOrInsertBitset_def Let_def rbind_Inr_iff split: option.splits)

lemma resolveOps_override:
  "resolveOps ctx ops (s, pr) = Inr (True, s', pr') \<Longrightarrow> no_override_entry ctx s \<Longrightarrow>
    operation \<in> set ops \<Longrightarrow> set (operandOpEdges ctx operation) \<inter> set (scReconfigEdges ctx) = {}"
proof (induction ops arbitrary: s pr)
  case (Cons c ops)
  from Cons.prems(1) obtain cid s1 where g: "getOrInsertBitset ctx c (- 1) s = Inr (cid, s1)"
    by (cases "getOrInsertBitset ctx c (- 1) s") auto
  with Cons.prems(1) obtain noLayout where nl: "consumerConfigNoLayout (getLegalConfigs ctx c) = Inr noLayout"
    by (cases "consumerConfigNoLayout (getLegalConfigs ctx c)") auto
  have no1: "no_override_entry ctx s1" using getOrInsertBitset_reconfig[OF g] Cons.prems(2) by simp
  show ?case
  proof (cases "operandOpEdges ctx c = []")
    case True
    with Cons.prems g nl Cons.IH[of s1 pr] no1 show ?thesis by auto
  next
    case False
    with Cons.prems(1) g nl obtain s2 pr2 s3 pr3 where
      pe: "processEdges ctx c cid noLayout (operandOpEdges ctx c) (s1, pr) = Inr (True, s2, pr2)"
      and q: "processQueue ctx s2 pr2 = Inr (s3, pr3)" and r: "resolveOps ctx ops (s3, pr3) = Inr (True, s', pr')"
      by (auto simp: rbind_Inr_iff split: if_splits)
    have "\<forall>e \<in> set (operandOpEdges ctx c). egConsumer e = c" by (simp add: operandOpEdges_def)
    note P = processEdges_override[OF pe no1 this]
    then have "no_override_entry ctx s3" using processQueue_reconfig[OF q] by simp
    from Cons.IH[OF r this] P Cons.prems(3) show ?thesis by auto
  qed
qed simp

lemma preprocessFirstOp_override:
  assumes "preprocessFirstOp ctx s = Inr (ok, s')" and "no_override_entry ctx s"
  shows "no_override_entry ctx s'"
proof -
  from assms(1) obtain firstOp e where f: "at (scShardSpecs ctx) 0 = Inr firstOp" "firstOpEdge ctx firstOp = Inr e"
    by (auto simp: preprocessFirstOp_def rbind_Inr_iff)
  show ?thesis
  proof (cases "e \<in> set (scReconfigEdges ctx) \<or> ssReconfig s e \<noteq> None")
    case True
    with assms f show ?thesis by (auto simp: preprocessFirstOp_def)
  next
    case False
    with assms(1) f obtain fid s1 where g: "getOrInsertBitset ctx firstOp (- 1) s = Inr (fid, s1)"
      by (cases "getOrInsertBitset ctx firstOp (- 1) s") (auto simp: preprocessFirstOp_def)
    with assms(1) f False obtain bs where
      "s' = s1\<lparr>ssBitsets := bs\<rparr> \<or> insertReshard ctx e (s1\<lparr>ssBitsets := bs\<rparr>) = Inr (ok, s')"
      by (auto simp: preprocessFirstOp_def rbind_Inr_iff Let_def split: if_splits)
    then have "ssReconfig s' e' = ssReconfig s e'" if "e' \<noteq> e" for e'
      using insertReshard_other[OF _ that] getOrInsertBitset_reconfig[OF g] by auto
    with False assms(2) show ?thesis by metis
  qed
qed

text \<open>C25: Asking for a reshard on an edge inside a chain defeats the solver: no entry exists
  for it when \<open>resolve\<close> looks one up, so \<open>resolve\<close> stops there and never reports success.\<close>

theorem override_edge_never_resolves:
  assumes "e \<in> set (allChainEdges ctx)" and "e \<in> set (scReconfigEdges ctx)"
  shows "resolve ctx initialSolver \<noteq> Inr (True, s)"
proof
  let ?s0 = "solverReset initialSolver"
  assume "resolve ctx initialSolver = Inr (True, s)"
  then obtain s1 s2 pr2 where p: "preprocessFirstOp ctx ?s0 = Inr (True, s1)"
    and r: "resolveOps ctx (scShardSpecs ctx) (s1, \<lparr>prQueue = [], prControl = []\<rparr>) = Inr (True, s2, pr2)"
    by (auto simp: resolve_def resolveStep_def rbind_Inr_iff assertE_Inr_iff split: if_splits)
  have "no_override_entry ctx ?s0" by (simp add: solverReset_def initialSolver_def)
  then have "no_override_entry ctx s1" by (rule preprocessFirstOp_override[OF p])
  from resolveOps_override[OF r this] assms chain_edge[OF assms(1)] show False by blast
qed

theorem override_edge_never_resolves_witness:
  "demoEdge \<in> set (scReconfigEdges (demoSolver [demoEdge])) \<and> resolve (demoSolver [demoEdge]) initialSolver \<noteq> Inr (True, initialSolver)"
proof -
  have in_edges: "demoEdge \<in> set (scReconfigEdges (demoSolver [demoEdge]))" by (simp add: demoSolver_def)
  with override_edge_never_resolves[OF demoSolver_facts(2) this] show ?thesis by blast
qed

end
