(* ===== verification/SolverSelect.thy ===== *)
theory SolverSelect
  imports SolverResolve
begin

text \<open>
  \<open>ShardSolver::set\<close> after a successful \<open>resolve\<close>: fixing the configs of the ops one after
  the other, in any order the calls accept, gives every edge of the chain an allowed pair of
  configs and every reshard on a chain edge the selection of its consumer.
\<close>

unbundle bit_operations_syntax

section \<open>Same reshards up to the selection\<close>

definition same_reshards :: "(edge \<Rightarrow> mem_reconfig_entry option) \<Rightarrow> (edge \<Rightarrow> mem_reconfig_entry option) \<Rightarrow> bool" where
  "same_reshards rc rc' \<longleftrightarrow> (\<forall>e. map_option mrConfigMap (rc e) = map_option mrConfigMap (rc' e))"

lemma same_reshards_refl [simp]: "same_reshards rc rc"
  and same_reshards_trans: "same_reshards a b \<Longrightarrow> same_reshards b c \<Longrightarrow> same_reshards a c"
  and same_reshards_sym: "same_reshards a b \<Longrightarrow> same_reshards b a"
  by (simp_all add: same_reshards_def)

lemma entry_ok_cong: "mrConfigMap entry = mrConfigMap entry' \<Longrightarrow> entry_ok ctx e entry = entry_ok ctx e entry'"
  by (simp add: entry_ok_def)

lemma same_reshards_entry: "same_reshards rc rc' \<Longrightarrow> rc' e = Some entry' \<Longrightarrow>
    \<exists>entry. rc e = Some entry \<and> mrConfigMap entry = mrConfigMap entry'"
  unfolding same_reshards_def by (metis map_option_eq_Some option.simps(9))

lemma allowed_same:
  assumes "same_reshards rc rc'" and "allowed ctx rc' e p c"
  shows "allowed ctx rc e p c"
proof -
  have "\<exists>entry. rc e = Some entry \<and> entry_ok ctx e entry \<and> c \<in> fst ` set (mrConfigMap entry)"
    if "rc' e = Some entry'" "entry_ok ctx e entry'" "c \<in> fst ` set (mrConfigMap entry')" for entry'
    using same_reshards_entry[OF assms(1) that(1)] that(2,3) entry_ok_cong by metis
  with assms(2) show ?thesis unfolding allowed_def by blast
qed

lemma solver_inv_reshards:
  assumes "solver_inv ctx s" and "same_reshards (ssReconfig s) rc"
  shows "solver_inv ctx (s\<lparr>ssReconfig := rc\<rparr>)"
proof -
  have "entry_ok ctx e entry" if "rc e = Some entry" for e entry
    using same_reshards_entry[OF assms(2) that] assms(1) entry_ok_cong by (metis solver_inv_def)
  moreover have "allowed ctx rc e (pathProducer p) (pathConsumer p)"
    if "ssPathSetIds s e = Some k" "p \<in> set (pathsOf s k)" for e k p
    using assms(1) that allowed_same[OF same_reshards_sym[OF assms(2)]] by (simp add: solver_inv_def)
  ultimately show ?thesis using assms(1) by (simp add: solver_inv_def graph_ok_def in_range_def)
qed

text \<open>\<open>picked\<close>: the reshard on the edge, if any, has the given selection.\<close>

definition picked :: "nat \<Rightarrow> (edge \<Rightarrow> mem_reconfig_entry option) \<Rightarrow> edge \<Rightarrow> bool" where
  "picked sel rc e \<longleftrightarrow> (\<forall>entry. rc e = Some entry \<longrightarrow> mrSelectedIndex entry = int sel)"

definition operand_edge :: "solver_ctx \<Rightarrow> nat \<Rightarrow> nat \<Rightarrow> edge" where
  "operand_edge ctx operation i = \<lparr>egProducer = definingOp (irOperands (scOp ctx operation) ! i),
     egConsumer = operation, egOperandIndex = i\<rparr>"

lemma selectReshard_result:
  assumes "selectReshard ctx operation sel i s = Inr s'"
  shows "s' = s\<lparr>ssReconfig := ssReconfig s'\<rparr> \<and> same_reshards (ssReconfig s) (ssReconfig s')
    \<and> (\<forall>e. egConsumer e \<noteq> operation \<longrightarrow> ssReconfig s' e = ssReconfig s e)
    \<and> (\<forall>e. e = operand_edge ctx operation i \<or> picked sel (ssReconfig s) e \<longrightarrow> picked sel (ssReconfig s') e)"
proof (cases "ssReconfig s (operand_edge ctx operation i)")
  case None
  then have "s' = s" using assms by (simp add: selectReshard_def Let_def operand_edge_def)
  with None show ?thesis by (simp add: picked_def)
next
  case (Some entry)
  with assms have s': "s' = s\<lparr>ssReconfig := (ssReconfig s)(operand_edge ctx operation i \<mapsto> entry\<lparr>mrSelectedIndex := int sel\<rparr>)\<rparr>"
    by (auto simp: selectReshard_def Let_def rbind_Inr_iff setSelectedReshardOutputConfigBitIndex_def operand_edge_def)
  have "egConsumer (operand_edge ctx operation i) = operation" by (simp add: operand_edge_def)
  with Some show ?thesis by (auto simp: s' same_reshards_def picked_def)
qed

lemma selectReshards_result:
  assumes "foldE (selectReshard ctx operation sel) idxs s = Inr s'"
  shows "s' = s\<lparr>ssReconfig := ssReconfig s'\<rparr> \<and> same_reshards (ssReconfig s) (ssReconfig s')
    \<and> (\<forall>e. egConsumer e \<noteq> operation \<longrightarrow> ssReconfig s' e = ssReconfig s e)
    \<and> (\<forall>e. e \<in> operand_edge ctx operation ` set idxs \<or> picked sel (ssReconfig s) e \<longrightarrow> picked sel (ssReconfig s') e)"
  using assms
proof (induction idxs arbitrary: s)
  case (Cons i idxs)
  then obtain s1 where a: "selectReshard ctx operation sel i s = Inr s1"
    and b: "foldE (selectReshard ctx operation sel) idxs s1 = Inr s'" by (auto simp: rbind_Inr_iff)
  note A = selectReshard_result[OF a] and B = Cons.IH[OF b]
  from A have eq1: "s1 = s\<lparr>ssReconfig := ssReconfig s1\<rparr>" by blast
  from B have eq2: "s' = s1\<lparr>ssReconfig := ssReconfig s'\<rparr>" by blast
  have "s' = s\<lparr>ssReconfig := ssReconfig s1\<rparr>\<lparr>ssReconfig := ssReconfig s'\<rparr>" by (subst eq1[symmetric]) (rule eq2)
  then have "s' = s\<lparr>ssReconfig := ssReconfig s'\<rparr>" by simp
  with A B same_reshards_trans show ?case by auto
qed simp

section \<open>One call of set\<close>

definition selectionOf :: "solver_ctx \<Rightarrow> nat \<Rightarrow> op_config \<Rightarrow> nat" where
  "selectionOf ctx operation config = length (takeWhile (\<lambda>c. c \<noteq> config) (getLegalConfigs ctx operation))"

lemma bits_single: "bsSet n 0 = Inr b \<Longrightarrow> bits b = {n}"
  by (auto simp: bsSet_def bits_def bit_exp_iff possible_bit_word kNumBitsetBits_def split: if_splits)

lemma expand_refines:
  assumes "foldE (\<lambda>k s. rbind (updatePathSet k s) (\<lambda>(changed, s'). Inr s')) ks s = Inr s'" and "in_range s"
  shows "refines s s'"
  using assms
proof (induction ks arbitrary: s)
  case (Cons k ks)
  then obtain changed s1 where a: "updatePathSet k s = Inr (changed, s1)"
    and b: "foldE (\<lambda>k s. rbind (updatePathSet k s) (\<lambda>(changed, s'). Inr s')) ks s1 = Inr s'" by (auto simp: rbind_Inr_iff)
  note A = updatePathSet_result(2)[OF a Cons.prems(2)]
  from Cons.IH[OF b refines_in_range[OF A Cons.prems(2)]] show ?case using refines_trans[OF A] Cons.prems(2) by blast
qed simp

lemma updateSolver_set:
  assumes "updateSolver ctx root True True s = Inr s'" and "graph_ok ctx s"
  shows "refines s s' \<and> (\<forall>k < length (ssPathSets s). touches s k {root} \<longrightarrow> good s' k)"
proof -
  from assms(1) obtain s1 where a: "foldE (\<lambda>k s. rbind (updatePathSet k s) (\<lambda>(changed, s'). Inr s'))
      (getOperandPathSets ctx s root @ getUserPathSets ctx s root) s = Inr s1"
    and b: "updateLoop ctx True (root # addOperandsAndUsers ctx root None) s1 = Inr s'"
    by (auto simp: updateSolver_def rbind_Inr_iff)
  note A = expand_refines[OF a graph_ok_in_range[OF assms(2)]]
  note B = updateLoop_good[OF b graph_ok_refines[OF A assms(2)], where R = "{}"]
  have "length (ssPathSets s1) = length (ssPathSets s)" using A by (simp add: refines_def)
  moreover have "touches s1 k (set (root # addOperandsAndUsers ctx root None))"
    if "k < length (ssPathSets s)" "touches s k {root}" for k
  proof -
    have "touches s1 k {root}" using that touches_refines[OF A] by blast
    then show ?thesis by (auto simp: touches_def)
  qed
  ultimately have "good s' k" if "k < length (ssPathSets s)" "touches s k {root}" for k
    using B that by (auto simp: touches_def)
  moreover have "refines s s'" using A B refines_trans graph_ok_in_range[OF assms(2)] by blast
  ultimately show ?thesis by blast
qed

text \<open>\<open>settled s op sel\<close>: at most the config \<open>sel\<close> is left for the op.\<close>

definition settled :: "shard_solver \<Rightarrow> nat \<Rightarrow> nat \<Rightarrow> bool" where
  "settled s operation sel \<longleftrightarrow> (\<exists>i. ssBitsetIds s operation = Some i \<and> i < length (ssBitsets s) \<and> bits (ssBitsets s ! i) \<subseteq> {sel})"

lemma settled_narrow:
  assumes "settled s operation sel" and "ssBitsetIds s' = ssBitsetIds s" and "length (ssBitsets s') = length (ssBitsets s)"
    and "\<And>i. i < length (ssBitsets s) \<Longrightarrow> bits (ssBitsets s' ! i) \<subseteq> bits (ssBitsets s ! i)"
  shows "settled s' operation sel"
  using assms unfolding settled_def by force

lemma settled_allowed:
  assumes "solver_inv ctx s" and "ssPathSetIds s e = Some k" and "good s k"
    and "egProducer e = Some p" and "settled s p a" and "settled s (egConsumer e) b"
  shows "allowed ctx (ssReconfig s) e a b"
proof -
  from good_supported[OF assms(1-3)] assms(4) obtain i j where
    ids: "ssBitsetIds s p = Some i" "ssBitsetIds s (egConsumer e) = Some j" and ne: "bits (ssBitsets s ! i) \<noteq> {}"
    and all: "\<forall>a \<in> bits (ssBitsets s ! i). \<exists>b \<in> bits (ssBitsets s ! j). allowed ctx (ssReconfig s) e a b"
    by (auto simp: supported_def)
  from ids assms(5,6) have "bits (ssBitsets s ! i) \<subseteq> {a}" "bits (ssBitsets s ! j) \<subseteq> {b}" by (simp_all add: settled_def)
  with ne all show ?thesis by blast
qed

definition selected_ok :: "solver_ctx \<Rightarrow> shard_solver \<Rightarrow> nat \<Rightarrow> op_config \<Rightarrow> bool" where
  "selected_ok ctx s operation config \<longleftrightarrow>
     (let sel = selectionOf ctx operation config in
      sel < length (getLegalConfigs ctx operation) \<and> getLegalConfigs ctx operation ! sel = config \<and> settled s operation sel
      \<and> (\<forall>i < length (irOperands (scOp ctx operation)). picked sel (ssReconfig s) (operand_edge ctx operation i)))"

lemma setConfig_result:
  assumes "setConfig ctx operation config s = Inr s'" and "solver_inv ctx s"
  shows "solver_inv ctx s'" and "ssSelected s' = (operation, config) # ssSelected s" and "operation \<notin> fst ` set (ssSelected s)"
    and "ssPathSetIds s' = ssPathSetIds s" and "selected_ok ctx s' operation config"
    and "op' \<noteq> operation \<Longrightarrow> selected_ok ctx s op' c' \<Longrightarrow> selected_ok ctx s' op' c'"
    and "same_reshards (ssReconfig s) (ssReconfig s')"
    and "ssPathSetIds s e = Some k \<Longrightarrow> egProducer e = Some operation \<or> egConsumer e = operation \<Longrightarrow> good s' k"
proof -
  let ?sel = "selectionOf ctx operation config" and ?configs = "getLegalConfigs ctx operation"
  let ?sa = "s\<lparr>ssSelected := (operation, config) # ssSelected s\<rparr>"
  have new: "operation \<notin> fst ` set (ssSelected s)" using assms(1) by (auto simp: setConfig_def rbind_Inr_iff assertE_Inr_iff)
  then show "operation \<notin> fst ` set (ssSelected s)" .
  from assms(1) new obtain i b b' s1 where
    i: "ssBitsetIds s operation = Some i" "i < length (ssBitsets s)" and b: "b = ssBitsets s ! i" "bit b ?sel"
    and sel: "?sel \<noteq> length ?configs" and b': "bsSet ?sel 0 = Inr b'"
    and f: "foldE (selectReshard ctx operation ?sel) [0..<length (irOperands (scOp ctx operation))]
        (?sa\<lparr>ssBitsets := (ssBitsets s)[i := b']\<rparr>) = Inr s1"
    and u: "updateSolver ctx operation True True s1 = Inr s'"
    by (auto simp: setConfig_def rbind_Inr_iff assertE_Inr_iff Let_def at_Inr_iff selectionOf_def split: option.splits)
  note F = selectReshards_result[OF f]
  have s1: "s1 = ?sa\<lparr>ssBitsets := (ssBitsets s)[i := b']\<rparr>\<lparr>ssReconfig := ssReconfig s1\<rparr>" using F by blast
  have s1b: "ssBitsets s1 = (ssBitsets s)[i := b']" "ssBitsetIds s1 = ssBitsetIds s" "ssPathSetIds s1 = ssPathSetIds s"
    "ssSelected s1 = (operation, config) # ssSelected s" "ssPathSets s1 = ssPathSets s"
    by (subst s1, simp)+
  have "solver_inv ctx ?sa" using assms(2) by (simp add: solver_inv_def graph_ok_def in_range_def)
  then have "solver_inv ctx (?sa\<lparr>ssBitsets := (ssBitsets s)[i := b']\<rparr>)" by (rule solver_inv_bits) simp
  then have inv1: "solver_inv ctx s1" using F by (subst s1) (rule solver_inv_reshards, auto)
  note U = updateSolver_set[OF u solver_inv_graph[OF inv1]]
  then have ref: "refines s1 s'" by blast
  show inv': "solver_inv ctx s'" using ref inv1 by (rule solver_inv_refines)
  show "ssSelected s' = (operation, config) # ssSelected s" "ssPathSetIds s' = ssPathSetIds s"
    using ref s1b by (simp_all add: refines_def)
  have rc: "ssReconfig s' = ssReconfig s1" using ref by (simp add: refines_def)
  then show same: "same_reshards (ssReconfig s) (ssReconfig s')" using F by simp
  have narrow: "bits (ssBitsets s' ! j) \<subseteq> bits (ssBitsets s1 ! j)" if "j < length (ssBitsets s1)" for j
    using ref that by (simp add: refines_def narrowed_def)
  have len: "length (ssBitsets s') = length (ssBitsets s)" using ref s1b(1) by (simp add: refines_def narrowed_def)
  have bids: "ssBitsetIds s' = ssBitsetIds s" using ref s1b(2) by (simp add: refines_def)
  have "settled s' operation ?sel"
    using narrow[of i] bits_single[OF b'] i s1b(1) len bids by (auto simp: settled_def)
  moreover have "?sel < length ?configs" "?configs ! ?sel = config"
    using sel length_takeWhile_le[of _ ?configs] nth_length_takeWhile[of "\<lambda>c. c \<noteq> config" ?configs]
    by (auto simp: selectionOf_def order.not_eq_order_implies_strict)
  moreover have "picked ?sel (ssReconfig s') (operand_edge ctx operation j)" if "j < length (irOperands (scOp ctx operation))" for j
    using F rc that by auto
  ultimately show "selected_ok ctx s' operation config" by (simp add: selected_ok_def Let_def)
  show "selected_ok ctx s' op' c'" if ne: "op' \<noteq> operation" and ok: "selected_ok ctx s op' c'"
  proof -
    have "bits (ssBitsets s' ! j) \<subseteq> bits (ssBitsets s ! j)" if "j < length (ssBitsets s)" for j
    proof (cases "j = i")
      case True
      with narrow[of i] bits_single[OF b'] i s1b(1) b show ?thesis by (auto simp: bits_def)
    next
      case False
      with narrow[of j] that s1b(1) show ?thesis by simp
    qed
    with ok have "settled s' op' (selectionOf ctx op' c')"
      using settled_narrow[OF _ bids len] by (auto simp: selected_ok_def Let_def)
    moreover have "ssReconfig s' (operand_edge ctx op' j) = ssReconfig s (operand_edge ctx op' j)" for j
      using F rc ne by (simp add: operand_edge_def)
    ultimately show ?thesis using ok by (simp add: selected_ok_def Let_def picked_def)
  qed
  show "good s' k" if "ssPathSetIds s e = Some k" "egProducer e = Some operation \<or> egConsumer e = operation"
  proof -
    from that(1) s1b(3) solver_inv_graph[OF inv1] have "k < length (ssPathSets s1)"
      "egProducer e = Some (psProducerOp (ssPathSets s1 ! k))" "egConsumer e = psConsumerOp (ssPathSets s1 ! k)"
      by (auto simp: graph_ok_def)
    with that(2) U show ?thesis by (auto simp: touches_def)
  qed
qed

section \<open>A sequence of calls\<close>

definition chooseConfigs :: "solver_ctx \<Rightarrow> (nat \<times> op_config) list \<Rightarrow> shard_solver \<Rightarrow> fault + shard_solver" where
  "chooseConfigs ctx choices s = foldE (\<lambda>(operation, config). setConfig ctx operation config) choices s"

definition choice_inv :: "solver_ctx \<Rightarrow> shard_solver \<Rightarrow> bool" where
  "choice_inv ctx s \<longleftrightarrow> solver_inv ctx s \<and> (\<forall>(operation, config) \<in> set (ssSelected s). selected_ok ctx s operation config)
     \<and> (\<forall>e p pc cc. ssPathSetIds s e \<noteq> None \<and> egProducer e = Some p \<and> (p, pc) \<in> set (ssSelected s)
          \<and> (egConsumer e, cc) \<in> set (ssSelected s)
        \<longrightarrow> allowed ctx (ssReconfig s) e (selectionOf ctx p pc) (selectionOf ctx (egConsumer e) cc))"

lemma setConfig_choice_inv:
  assumes "setConfig ctx operation config s = Inr s'" and "choice_inv ctx s"
  shows "choice_inv ctx s'"
proof -
  from assms(2) have inv: "solver_inv ctx s" by (simp add: choice_inv_def)
  note S = setConfig_result[OF assms(1) inv]
  have ok: "selected_ok ctx s' op' c'" if "(op', c') \<in> set (ssSelected s')" for op' c'
  proof (cases "(op', c') \<in> set (ssSelected s)")
    case True
    with S(3) have "op' \<noteq> operation" by force
    moreover have "selected_ok ctx s op' c'" using assms(2) True by (auto simp: choice_inv_def)
    ultimately show ?thesis by (rule S(6))
  next
    case False
    with that S(2,5) show ?thesis by simp
  qed
  have "allowed ctx (ssReconfig s') e (selectionOf ctx p pc) (selectionOf ctx (egConsumer e) cc)"
    if e: "ssPathSetIds s' e \<noteq> None" "egProducer e = Some p" and sel: "(p, pc) \<in> set (ssSelected s')" "(egConsumer e, cc) \<in> set (ssSelected s')"
    for e p pc cc
  proof (cases "p = operation \<or> egConsumer e = operation")
    case True
    from e obtain k where k: "ssPathSetIds s' e = Some k" by blast
    have "good s' k" using S(8)[of e k] S(4) k e(2) True by auto
    moreover have "settled s' p (selectionOf ctx p pc)" "settled s' (egConsumer e) (selectionOf ctx (egConsumer e) cc)"
      using ok[OF sel(1)] ok[OF sel(2)] by (simp_all add: selected_ok_def Let_def)
    ultimately show ?thesis using settled_allowed[OF S(1) k] e(2) by blast
  next
    case False
    with sel S(2) e S(4) assms(2) have "allowed ctx (ssReconfig s) e (selectionOf ctx p pc) (selectionOf ctx (egConsumer e) cc)"
      by (auto simp: choice_inv_def)
    then show ?thesis by (rule allowed_same[OF same_reshards_sym[OF S(7)]])
  qed
  with S(1) ok show ?thesis by (auto simp: choice_inv_def)
qed

lemma chooseConfigs_inv: "chooseConfigs ctx choices s = Inr s' \<Longrightarrow> choice_inv ctx s \<Longrightarrow>
    choice_inv ctx s' \<and> ssPathSetIds s' = ssPathSetIds s"
proof (induction choices arbitrary: s)
  case (Cons x choices)
  obtain operation config where x: "x = (operation, config)" by (cases x)
  from Cons.prems(1) x obtain s1 where a: "setConfig ctx operation config s = Inr s1" and b: "chooseConfigs ctx choices s1 = Inr s'"
    by (auto simp: chooseConfigs_def rbind_Inr_iff)
  from Cons.prems(2) have "solver_inv ctx s" by (simp add: choice_inv_def)
  from setConfig_result(4)[OF a this] Cons.IH[OF b setConfig_choice_inv[OF a Cons.prems(2)]] show ?case by simp
qed (simp add: chooseConfigs_def)

text \<open>What \<open>finish\<close> returns after any sequence of accepted choices.\<close>

lemma selection_consistent:
  assumes "resolve ctx initialSolver = Inr (True, s)"
    and "\<forall>operation \<in> set (scShardedOps ctx). getLegalConfigs ctx operation \<noteq> []"
    and "chooseConfigs ctx choices s = Inr s'" and "finish ctx s' = Inr (selected, reconfig)"
    and "e \<in> set (allChainEdges ctx)" and "egProducer e = Some p"
    and "(p, pc) \<in> set selected" and "(egConsumer e, cc) \<in> set selected"
  shows "\<exists>i j. i < length (getLegalConfigs ctx p) \<and> getLegalConfigs ctx p ! i = pc
      \<and> j < length (getLegalConfigs ctx (egConsumer e)) \<and> getLegalConfigs ctx (egConsumer e) ! j = cc
      \<and> allowed ctx reconfig e i j \<and> picked j reconfig e"
proof -
  have "solver_inv ctx s" "ssSelected s = []" and id: "ssPathSetIds s e \<noteq> None"
    using resolve_result[OF assms(1)] assms(2,5) by (auto simp: has_configs_def)
  then have "choice_inv ctx s" by (simp add: choice_inv_def)
  note I = chooseConfigs_inv[OF assms(3) this]
  from assms(4) have out: "selected = ssSelected s'" "reconfig = ssReconfig s'"
    by (auto simp: finish_def rbind_Inr_iff assertE_Inr_iff)
  let ?i = "selectionOf ctx p pc" and ?j = "selectionOf ctx (egConsumer e) cc"
  from I assms(6-8) id have al: "allowed ctx reconfig e ?i ?j" unfolding out choice_inv_def by simp
  from I assms(7,8) have ok: "selected_ok ctx s' p pc" "selected_ok ctx s' (egConsumer e) cc"
    unfolding out choice_inv_def by auto
  from assms(5) have "\<exists>n < length (irOperands (scOp ctx (egConsumer e))). e = operand_edge ctx (egConsumer e) n"
    by (force simp: allChainEdges_def chainEdges_def operand_edge_def split: option.splits if_splits)
  with ok(2) have "picked ?j reconfig e" by (auto simp: selected_ok_def Let_def out)
  with al ok show ?thesis unfolding selected_ok_def Let_def by blast
qed

text \<open>C24: After a successful \<open>resolve\<close>, whatever configs the calls of \<open>set\<close> accept, in whatever
  order, the selection \<open>finish\<close> returns is consistent: on every edge of the chain both selected
  configs are legal configs of their op, the pair is allowed, and the reshard on the edge, if
  there is one, is switched to the config selected for the consumer.\<close>

theorem selection_sound:
  assumes "resolve ctx initialSolver = Inr (True, s)"
    and "\<forall>operation \<in> set (scShardedOps ctx). getLegalConfigs ctx operation \<noteq> []"
    and "chooseConfigs ctx choices s = Inr s'" and "finish ctx s' = Inr (selected, reconfig)"
    and "e \<in> set (allChainEdges ctx)" and "egProducer e = Some p"
    and "(p, pc) \<in> set selected" and "(egConsumer e, cc) \<in> set selected"
  shows "\<exists>i j. i < length (getLegalConfigs ctx p) \<and> getLegalConfigs ctx p ! i = pc
      \<and> j < length (getLegalConfigs ctx (egConsumer e)) \<and> getLegalConfigs ctx (egConsumer e) ! j = cc
      \<and> allowed ctx reconfig e i j \<and> picked j reconfig e"
  by (rule selection_consistent[OF assms])

theorem selection_sound_witness:
  "\<exists>reconfig i j. allowed (demoSolver []) reconfig demoEdge i j \<and> i < 2
    \<and> getLegalConfigs (demoSolver []) 0 ! i = demoConfig [1, 1] [1, 2] HeightSharded"
proof -
  let ?c = "demoConfig [1, 1] [1, 2] HeightSharded"
  have "case resolve (demoSolver []) initialSolver of Inl err \<Rightarrow> False
    | Inr (b, s) \<Rightarrow> b \<and> (case chooseConfigs (demoSolver []) [(0, ?c), (1, ?c)] s of Inl err \<Rightarrow> False
      | Inr s' \<Rightarrow> (case finish (demoSolver []) s' of Inl err \<Rightarrow> False | Inr (selected, rc) \<Rightarrow> selected = [(1, ?c), (0, ?c)]))"
    by code_simp
  then obtain s where r: "resolve (demoSolver []) initialSolver = Inr (True, s)"
    and rest: "case chooseConfigs (demoSolver []) [(0, ?c), (1, ?c)] s of Inl err \<Rightarrow> False
      | Inr s' \<Rightarrow> (case finish (demoSolver []) s' of Inl err \<Rightarrow> False | Inr (selected, rc) \<Rightarrow> selected = [(1, ?c), (0, ?c)])"
    by (cases "resolve (demoSolver []) initialSolver") auto
  then obtain s' where c: "chooseConfigs (demoSolver []) [(0, ?c), (1, ?c)] s = Inr s'"
    and rest': "case finish (demoSolver []) s' of Inl err \<Rightarrow> False | Inr (selected, rc) \<Rightarrow> selected = [(1, ?c), (0, ?c)]"
    by (cases "chooseConfigs (demoSolver []) [(0, ?c), (1, ?c)] s") auto
  then obtain rc where f: "finish (demoSolver []) s' = Inr ([(1, ?c), (0, ?c)], rc)"
    by (cases "finish (demoSolver []) s'") auto
  have "egProducer demoEdge = Some 0" "(0, ?c) \<in> set [(1, ?c), (0, ?c)]" "(egConsumer demoEdge, ?c) \<in> set [(1, ?c), (0, ?c)]"
    by (simp_all add: demoEdge_def)
  from selection_sound[OF r demoSolver_facts(1) c f demoSolver_facts(2) this] show ?thesis
    by (fastforce simp: demoSolver_def getLegalConfigs_def)
qed

end
