(* ===== verification/CoreUsage.thy ===== *)
theory CoreUsage
  imports ShardSolver
begin

text \<open>
  \<open>ShardSolver::produceMaxCoreUsage\<close>: from the tail of a chain backwards, the number of cores a
  config of an op and the best configs of its users take. The sums are kept in single
  precision. A value is represented by an integer, in units of 2^-56, and each operation
  rounds to 24 significant bits, ties to even. This is exact: the summands are cores divided by
  a number of operands, which MLIR keeps in 32 bits, so that a summand is 0 or at least 2^-32
  and its last bit at least 2^-56; the sums stay far below the largest float.
\<close>

section \<open>Single precision\<close>

definition floatUnit :: int where
  "floatUnit = 72057594037927936"

definition floatOfInt :: "int \<Rightarrow> int" where
  "floatOfInt n = roundQuotient n 1 * floatUnit"

definition floatAdd :: "int \<Rightarrow> int \<Rightarrow> int" where
  "floatAdd a b = roundQuotient (a + b) 1"

definition floatDiv :: "int \<Rightarrow> int \<Rightarrow> int" where
  "floatDiv a b = roundQuotient (a * floatUnit) b"

definition floatToInt :: "int \<Rightarrow> int" where
  "floatToInt a = a div floatUnit"

section \<open>produceMaxCoreUsage\<close>

type_synonym core_usage = "nat \<Rightarrow> int list"

definition gridUsages :: "op_config list \<Rightarrow> fault + int list" where
  "gridUsages configs = mapE (\<lambda>config. case ocOutputLayout config of
       None \<Rightarrow> Inl NullDeref | Some l \<Rightarrow> Inr (floatOfInt (getGridVolume (getGrid l)))) configs"

definition testBitset :: "shard_solver \<Rightarrow> nat \<Rightarrow> nat \<Rightarrow> fault + unit" where
  "testBitset s operation i =
     rbind (case ssBitsetIds s operation of Some b \<Rightarrow> Inr b | None \<Rightarrow> Inl OutOfBounds) (\<lambda>b.
     rbind (at (ssBitsets s) b) (\<lambda>bitset.
     rbind (bsTest bitset i) (\<lambda>set. assertE SiteOther set)))"

definition maxOverPaths ::
  "shard_solver \<Rightarrow> nat \<Rightarrow> nat \<Rightarrow> core_usage \<Rightarrow> path list \<Rightarrow> nat \<Rightarrow> fault + int list" where
  "maxOverPaths s operation consumerOp accCoreUsage paths n =
     foldE (\<lambda>path maxCoreUsage.
       rbind (testBitset s operation (pathProducer path)) (\<lambda>_.
       rbind (testBitset s consumerOp (pathConsumer path)) (\<lambda>_.
       rbind (at (accCoreUsage consumerOp) (pathConsumer path)) (\<lambda>usage.
       rbind (at maxCoreUsage (pathProducer path)) (\<lambda>old.
         let consumerCoreUsage = floatToInt usage
         in Inr (if old < consumerCoreUsage then maxCoreUsage[pathProducer path := consumerCoreUsage] else maxCoreUsage))))))
     paths (replicate n 0)"

definition addUserUsage ::
  "solver_ctx \<Rightarrow> shard_solver \<Rightarrow> nat \<Rightarrow> nat \<Rightarrow> core_usage \<Rightarrow> fault + core_usage" where
  "addUserUsage ctx s operation k accCoreUsage =
     rbind (at (ssPathSets s) k) (\<lambda>pathSet.
     let consumerOp = psConsumerOp pathSet;
         consumerInChainOperandSize = int (length (getOperandPathSets ctx s consumerOp))
     in rbind (maxOverPaths s operation consumerOp accCoreUsage (psPaths pathSet) (length (getLegalConfigs ctx operation)))
          (\<lambda>maxCoreUsage.
          Inr (accCoreUsage(operation :=
            map2 (\<lambda>acc m. floatAdd acc (floatDiv (floatOfInt m) (floatOfInt consumerInChainOperandSize)))
              (accCoreUsage operation) maxCoreUsage))))"

definition addOpUsage :: "solver_ctx \<Rightarrow> shard_solver \<Rightarrow> nat \<Rightarrow> core_usage \<Rightarrow> fault + core_usage" where
  "addOpUsage ctx s operation accCoreUsage =
     (let configs = getLegalConfigs ctx operation
      in rbind (assertE SiteOther (configs \<noteq> [])) (\<lambda>_.
         rbind (gridUsages configs) (\<lambda>usages.
         foldE (addUserUsage ctx s operation) (getUserPathSets ctx s operation)
           (accCoreUsage(operation := accCoreUsage operation @ usages)))))"

definition produceMaxCoreUsage :: "solver_ctx \<Rightarrow> shard_solver \<Rightarrow> fault + core_usage" where
  "produceMaxCoreUsage ctx s = foldE (addOpUsage ctx s) (rev (scShardSpecs ctx)) (\<lambda>_. [])"

section \<open>Picking configs\<close>

text \<open>\<open>DFShardingPolicy::pickOpShardConfigs\<close>: of the remaining configs of an op, the last of those with
  the largest core usage that is not block sharded, and otherwise the first of them.\<close>

definition pickStep ::
  "op_config list \<Rightarrow> int list \<Rightarrow> nat \<Rightarrow> int \<times> op_config \<Rightarrow> fault + int \<times> op_config" where
  "pickStep configs usages i = (\<lambda>(maxCoreUsage, selectedConfig).
     rbind (at usages i) (\<lambda>usage.
     rbind (at configs i) (\<lambda>config.
       if maxCoreUsage < usage then Inr (usage, config)
       else if usage = maxCoreUsage then
         rbind (case ocOutputLayout config of None \<Rightarrow> Inl NullDeref | Some l \<Rightarrow> Inr l) (\<lambda>layout.
         (case getMemLayout layout of
            None \<Rightarrow> Inl (AssertFailed SiteOther)
          | Some memLayout \<Rightarrow> Inr (maxCoreUsage, if memLayout \<noteq> BlockSharded then config else selectedConfig)))
       else Inr (maxCoreUsage, selectedConfig))))"

definition pickConfig :: "solver_ctx \<Rightarrow> shard_solver \<Rightarrow> core_usage \<Rightarrow> nat \<Rightarrow> fault + op_config" where
  "pickConfig ctx s accMaxCoreUsage operation =
     rbind (remainingIds ctx s operation) (\<lambda>validConfigs.
     let configs = getLegalConfigs ctx operation
     in rbind (at configs (hd validConfigs)) (\<lambda>firstConfig.
        rbind (foldE (pickStep configs (accMaxCoreUsage operation)) validConfigs (0, firstConfig)) (\<lambda>(maxCoreUsage, selectedConfig).
        Inr selectedConfig)))"

definition pickOpShardConfigs :: "solver_ctx \<Rightarrow> shard_solver \<Rightarrow> fault + shard_solver" where
  "pickOpShardConfigs ctx s =
     rbind (produceMaxCoreUsage ctx s) (\<lambda>accMaxCoreUsage.
     foldE (\<lambda>operation s. rbind (pickConfig ctx s accMaxCoreUsage operation) (\<lambda>config. setConfig ctx operation config s))
       (scShardSpecs ctx) s)"

end
