(* ===== verification/L1Chain.thy ===== *)
theory L1Chain
  imports CoreUsage
begin

text \<open>
  \<open>L1ChainConfig\<close>: a chain of ops whose outputs stay in L1, with its life cycle as a state machine.
  Every operation asserts the state it may be called in.
\<close>

section \<open>State\<close>

datatype l1_chain_state = InBuild | Built | Resolved | Completed | Failed

record op_l1_mem_spec =
  msOp :: nat
  msTensorSplitFactor :: nat
  msConfig :: op_config

record l1_chain =
  lcOpL1MemSpecs :: "op_l1_mem_spec list"
  lcL1ChainedOps :: "nat list"
  lcMemReconfigEntryMap :: "edge \<Rightarrow> mem_reconfig_entry option"
  lcState :: l1_chain_state
  lcSpillEndToDRAM :: bool

definition newChain :: l1_chain where
  "newChain = \<lparr>lcOpL1MemSpecs = [], lcL1ChainedOps = [], lcMemReconfigEntryMap = (\<lambda>_. None), lcState = InBuild,
     lcSpillEndToDRAM = False\<rparr>"

section \<open>Operations\<close>

definition chainIsEmpty :: "l1_chain \<Rightarrow> bool" where
  "chainIsEmpty c \<longleftrightarrow> lcOpL1MemSpecs c = []"

definition addOpL1MemSpec :: "op_l1_mem_spec \<Rightarrow> l1_chain \<Rightarrow> fault + l1_chain" where
  "addOpL1MemSpec spec c =
     rbind (assertE SiteOther (lcState c = InBuild)) (\<lambda>_.
     Inr (c\<lparr>lcL1ChainedOps := List.insert (msOp spec) (lcL1ChainedOps c), lcOpL1MemSpecs := lcOpL1MemSpecs c @ [spec]\<rparr>))"

definition chainBuild :: "l1_chain \<Rightarrow> fault + l1_chain" where
  "chainBuild c = rbind (assertE SiteOther (lcState c = InBuild)) (\<lambda>_. Inr (c\<lparr>lcState := Built\<rparr>))"

definition chainResolve :: "l1_chain \<Rightarrow> fault + l1_chain" where
  "chainResolve c = rbind (assertE SiteOther (lcState c = Built)) (\<lambda>_. Inr (c\<lparr>lcState := Resolved\<rparr>))"

text \<open>The context of the solver of a chain.\<close>

definition chainCtx :: "solver_ctx \<Rightarrow> l1_chain \<Rightarrow> solver_ctx" where
  "chainCtx ctx c = ctx\<lparr>scShardSpecs := map msOp (lcOpL1MemSpecs c), scShardedOps := lcL1ChainedOps c\<rparr>"

definition resolveWithSolver :: "solver_ctx \<Rightarrow> l1_chain \<Rightarrow> fault + shard_solver \<times> l1_chain" where
  "resolveWithSolver ctx c =
     rbind (assertE SiteChainState (lcState c = Built)) (\<lambda>_.
     rbind (resolve (chainCtx ctx c) initialSolver) (\<lambda>(resolved, shardSolver).
       Inr (shardSolver, c\<lparr>lcState := if resolved then Resolved else Failed\<rparr>)))"

definition completeSpec :: "(nat \<times> op_config) list \<Rightarrow> op_l1_mem_spec \<Rightarrow> fault + op_l1_mem_spec" where
  "completeSpec selectedOpConfig spec =
     (case map_of selectedOpConfig (msOp spec) of
        None \<Rightarrow> Inl (AssertFailed SiteOther)
      | Some config \<Rightarrow> Inr (spec\<lparr>msConfig := config\<rparr>))"

definition chainComplete ::
  "(nat \<times> op_config) list \<Rightarrow> (edge \<Rightarrow> mem_reconfig_entry option) \<Rightarrow> l1_chain \<Rightarrow> fault + l1_chain" where
  "chainComplete selectedOpConfig memReconfigEntryMap c =
     rbind (assertE SiteOther (lcState c = Resolved)) (\<lambda>_.
     rbind (mapE (completeSpec selectedOpConfig) (lcOpL1MemSpecs c)) (\<lambda>specs.
     Inr (c\<lparr>lcOpL1MemSpecs := specs, lcMemReconfigEntryMap := memReconfigEntryMap, lcState := Completed\<rparr>)))"

definition chainCompleteDefault :: "l1_chain \<Rightarrow> fault + l1_chain" where
  "chainCompleteDefault c = rbind (assertE SiteOther (lcState c = Resolved)) (\<lambda>_. Inr (c\<lparr>lcState := Completed\<rparr>))"

definition chainMerge :: "l1_chain \<Rightarrow> l1_chain \<Rightarrow> fault + l1_chain" where
  "chainMerge other c =
     rbind (assertE SiteOther (lcState c = lcState other)) (\<lambda>_.
     Inr (c\<lparr>lcOpL1MemSpecs := lcOpL1MemSpecs c @ lcOpL1MemSpecs other,
            lcL1ChainedOps := foldl (\<lambda>ops op. List.insert op ops) (lcL1ChainedOps c) (lcL1ChainedOps other),
            lcMemReconfigEntryMap := lcMemReconfigEntryMap other ++ lcMemReconfigEntryMap c\<rparr>))"

definition getLastOp :: "l1_chain \<Rightarrow> fault + nat" where
  "getLastOp c = rbind (assertE SiteOther (lcOpL1MemSpecs c \<noteq> [])) (\<lambda>_. Inr (msOp (last (lcOpL1MemSpecs c))))"

section \<open>Resolving a chain\<close>

text \<open>What \<open>DFShardingPolicy::run\<close> does with each chain once all are built.\<close>

definition hasDRAMLayout :: "op_config \<Rightarrow> fault + bool" where
  "hasDRAMLayout config = (case ocOutputLayout config of None \<Rightarrow> Inl NullDeref | Some l \<Rightarrow> Inr (hasDRAMBufferType l))"

text \<open>\<open>selectedOpConfig[op]\<close> adds a null config for an op without one.\<close>

definition selectedAt :: "(nat \<times> op_config) list \<Rightarrow> nat \<Rightarrow> op_config" where
  "selectedAt selected operation =
     (case map_of selected operation of Some config \<Rightarrow> config | None \<Rightarrow> \<lparr>ocOutputLayout = None, ocOpSpecificAttr = None\<rparr>)"

definition resolveChain :: "solver_ctx \<Rightarrow> l1_chain \<Rightarrow> fault + l1_chain" where
  "resolveChain ctx c =
     rbind (resolveWithSolver ctx c) (\<lambda>(shardSolver, c1).
     if lcState c1 = Failed then rbind (at (lcOpL1MemSpecs c1) 0) (\<lambda>front. Inr c1)
     else rbind (assertE SiteOther (lcState c1 = Resolved)) (\<lambda>_.
          rbind (pickOpShardConfigs (chainCtx ctx c) shardSolver) (\<lambda>shardSolver2.
          rbind (finish (chainCtx ctx c) shardSolver2) (\<lambda>(selectedOpConfig, memReconfigEntryMap).
          rbind (chainComplete selectedOpConfig memReconfigEntryMap c1) (\<lambda>c2.
          rbind (getLastOp c2) (\<lambda>lastOp.
          rbind (hasDRAMLayout (selectedAt selectedOpConfig lastOp)) (\<lambda>dram.
            Inr (if \<not> dram then c2\<lparr>lcSpillEndToDRAM := True\<rparr> else c2))))))))"

end
