(* ===== verification/DFSharding.thy ===== *)
theory DFSharding
  imports L1Chain Scheduler
begin

text \<open>
  \<open>DFShardingPolicy::run\<close>: it schedules the ops of each function depth first, cuts the schedule
  into chains of ops that can hand over their outputs in sharded L1, and resolves each chain
  with the shard solver.

  The state of the loop over a function is the scheduler, the chains built so far, the chain
  at the back of \<open>l1ChainConfigs\<close>, and \<open>currentOp\<close>.
\<close>

section \<open>Inputs\<close>

datatype ttnn_op_kind = TTNN_ToLayoutOp | TTNN_MatmulOp | TTNN_ReshapeOp | TTNN_ConcatOp | TTNN_MeanOp
  | TTNN_SinOp | TTNN_CosOp | TTNN_ReciprocalOp | TTNN_Conv2dOp | TTNN_MaxPool2dOp | TTNN_OtherOp

text \<open>The policy has the solver's context, with the sharded configs as the legal ones and
  \<open>overrideReshardEdges\<close>. The set of unscheduled ops is iterated in an order of its own, a
  parameter of the model.\<close>

record df_ctx =
  dfSolver :: solver_ctx
  dfKind :: "nat \<Rightarrow> ttnn_op_kind"
  dfIterate :: "nat list \<Rightarrow> nat list"

record df_func =
  dfFunc :: sch_func
  dfIsConstEval :: bool

record df_state =
  dsScheduler :: scheduler
  dsChains :: "l1_chain list"
  dsBack :: l1_chain
  dsCurrent :: "nat option"

definition dfScheduleable :: "df_ctx \<Rightarrow> scheduler \<Rightarrow> nat list" where
  "dfScheduleable ctx s = dfIterate ctx (getScheduleableOps s)"

abbreviation isToLayout :: "df_ctx \<Rightarrow> nat \<Rightarrow> bool" where
  "isToLayout ctx op \<equiv> dfKind ctx op = TTNN_ToLayoutOp"

section \<open>Choosing the next op\<close>

text \<open>Layout ops first, while no chain is under way; then the successor found in the last round, or
  the first op that can be scheduled.\<close>

definition dfPickCurrent :: "df_ctx \<Rightarrow> df_state \<Rightarrow> fault + nat" where
  "dfPickCurrent ctx st =
     (let scheduleableOps = dfScheduleable ctx (dsScheduler st);
          layoutOp = (if chainIsEmpty (dsBack st) then List.find (isToLayout ctx) scheduleableOps else None)
      in case layoutOp of
           Some op \<Rightarrow> Inr op
         | None \<Rightarrow> (case dsCurrent st of Some op \<Rightarrow> Inr op | None \<Rightarrow> at scheduleableOps 0))"

text \<open>The inner \<open>break\<close> leaves the loop over the operands only, so the last user wins.\<close>

definition dfNextOp :: "df_ctx \<Rightarrow> nat \<Rightarrow> nat list \<Rightarrow> nat option" where
  "dfNextOp ctx currentOp scheduleableOps =
     foldl (\<lambda>nextOp op. if Some currentOp \<in> definingOp ` set (irOperands (scOp (dfSolver ctx) op)) then Some op else nextOp)
       None scheduleableOps"

definition dfUnsupported :: "ttnn_op_kind \<Rightarrow> bool" where
  "dfUnsupported k \<longleftrightarrow> k \<in> {TTNN_MatmulOp, TTNN_ReshapeOp, TTNN_ConcatOp, TTNN_MeanOp, TTNN_SinOp, TTNN_CosOp,
     TTNN_ReciprocalOp, TTNN_Conv2dOp, TTNN_MaxPool2dOp}"

definition dfValidForSharding :: "df_ctx \<Rightarrow> nat \<Rightarrow> nat \<Rightarrow> bool" where
  "dfValidForSharding ctx currentOp nextOp \<longleftrightarrow>
     length (irUsers (scOp (dfSolver ctx) currentOp)) = 1
     \<and> getLegalConfigs (dfSolver ctx) currentOp \<noteq> [] \<and> getLegalConfigs (dfSolver ctx) nextOp \<noteq> []
     \<and> \<not> dfUnsupported (dfKind ctx currentOp)"

section \<open>L1 usage\<close>

definition layoutOf :: "op_config \<Rightarrow> fault + ttnn_layout_attr" where
  "layoutOf config = (case ocOutputLayout config of Some l \<Rightarrow> Inr l | None \<Rightarrow> Inl NullDeref)"

text \<open>The largest sharded layout of an op is the first.\<close>

definition dfOutputLayout :: "df_ctx \<Rightarrow> nat \<Rightarrow> fault + ttnn_layout_attr" where
  "dfOutputLayout ctx op =
     rbind (at (getLegalConfigs (dfSolver ctx) op) 0) (\<lambda>config.
     rbind (layoutOf config) (\<lambda>layout.
     rbind (hasShardedL1TensorMemoryLayout layout) (\<lambda>sharded.
     rbind (assertE SiteOther sharded) (\<lambda>_. Inr layout))))"

definition dfL1UsageValid :: "df_ctx \<Rightarrow> ttnn_layout_attr \<Rightarrow> ttnn_layout_attr \<Rightarrow> fault + bool" where
  "dfL1UsageValid ctx l l' =
     rbind (getShardSizeInBytes l) (\<lambda>a. rbind (getShardSizeInBytes l') (\<lambda>b.
       Inr (usageBelowCap (a + b) (scUsableL1CacheSize (dfSolver ctx)))))"

text \<open>At the start of a chain whose input an override reshards, that input must fit as well.\<close>

definition dfFirstInputValid :: "df_ctx \<Rightarrow> l1_chain \<Rightarrow> nat \<Rightarrow> ttnn_layout_attr \<Rightarrow> fault + bool" where
  "dfFirstInputValid ctx back currentOp layout =
     (if \<not> chainIsEmpty back then Inr True
      else rbind (firstOpEdge (dfSolver ctx) currentOp) (\<lambda>e.
        if e \<notin> set (scReconfigEdges (dfSolver ctx)) then Inr True
        else rbind (case egProducer e of Some p \<Rightarrow> Inr p | None \<Rightarrow> Inl NullDeref) (\<lambda>producer.
             rbind (case scType (dfSolver ctx) (OpResult producer 0) of RankedTensor ty \<Rightarrow> Inr ty
                    | DeviceValue \<Rightarrow> Inl (AssertFailed SiteOther)) (\<lambda>ty.
             rbind (withBufferType (ttEncoding ty) (getBufferType layout)) (\<lambda>l1.
             rbind (withMemoryLayout l1 (getMemLayout layout)) (\<lambda>l2.
             rbind (withGrid l2 (ttShape ty) (getGrid layout) defaultIntervals) (\<lambda>l3.
               dfL1UsageValid ctx l3 layout)))))))"

section \<open>The loop\<close>

text \<open>Does \<open>currentOp\<close> join the chain, with \<open>nextOp\<close> to follow?\<close>

definition dfJoins :: "df_ctx \<Rightarrow> l1_chain \<Rightarrow> nat \<Rightarrow> nat \<Rightarrow> fault + bool" where
  "dfJoins ctx back currentOp nextOp =
     (if \<not> dfValidForSharding ctx currentOp nextOp then Inr False
      else rbind (dfOutputLayout ctx currentOp) (\<lambda>currentLayout.
           rbind (dfOutputLayout ctx nextOp) (\<lambda>nextLayout.
           rbind (dfL1UsageValid ctx currentLayout nextLayout) (\<lambda>l1UsageValid.
             if \<not> l1UsageValid then Inr False
             else dfFirstInputValid ctx back currentOp currentLayout))))"

definition nullConfig :: op_config where
  "nullConfig = \<lparr>ocOutputLayout = None, ocOpSpecificAttr = None\<rparr>"

definition dfSpec :: "nat \<Rightarrow> op_l1_mem_spec" where
  "dfSpec op = \<lparr>msOp = op, msTensorSplitFactor = 1, msConfig = nullConfig\<rparr>"

text \<open>The chain at the back is finished and a new one is started.\<close>

definition dfCloseChain :: "df_state \<Rightarrow> fault + df_state" where
  "dfCloseChain st =
     (if chainIsEmpty (dsBack st) then Inr st
      else rbind (chainBuild (dsBack st)) (\<lambda>built. Inr (st\<lparr>dsChains := dsChains st @ [built], dsBack := newChain\<rparr>)))"

definition dfIteration :: "df_ctx \<Rightarrow> df_state \<Rightarrow> fault + df_state" where
  "dfIteration ctx st =
     rbind (dfPickCurrent ctx st) (\<lambda>currentOp.
     let scheduler = scheduleOp currentOp (dsScheduler st); st1 = st\<lparr>dsScheduler := scheduler\<rparr>
     in if chainIsEmpty (dsBack st) \<and> isToLayout ctx currentOp then Inr (st1\<lparr>dsCurrent := None\<rparr>)
        else if \<not> hasUnscheduledOps scheduler then dfCloseChain (st1\<lparr>dsCurrent := Some currentOp\<rparr>)
        else case dfNextOp ctx currentOp (dfScheduleable ctx scheduler) of
            None \<Rightarrow> dfCloseChain (st1\<lparr>dsCurrent := None\<rparr>)
          | Some nextOp \<Rightarrow>
              rbind (dfJoins ctx (dsBack st) currentOp nextOp) (\<lambda>joins.
              if joins
              then rbind (addOpL1MemSpec (dfSpec currentOp) (dsBack st)) (\<lambda>back.
                   Inr (st1\<lparr>dsBack := back, dsCurrent := Some nextOp\<rparr>))
              else dfCloseChain (st1\<lparr>dsCurrent := None\<rparr>)))"

lemma dfCloseChain_scheduler: "dfCloseChain st = Inr st' \<Longrightarrow> dsScheduler st' = dsScheduler st"
  by (auto simp: dfCloseChain_def rbind_Inr_iff split: if_splits)

lemma dfIteration_scheduler:
  assumes "dfIteration ctx st = Inr st'"
  obtains op where "dfPickCurrent ctx st = Inr op" and "dsScheduler st' = scheduleOp op (dsScheduler st)"
  using assms by (auto simp: dfIteration_def rbind_Inr_iff Let_def split: if_splits option.splits dest!: dfCloseChain_scheduler)

text \<open>The loop ends when every op is scheduled. An iteration that schedules no unscheduled op would
  repeat forever; for the scheduler's own ready ops this does not happen.\<close>

function dfLoop :: "df_ctx \<Rightarrow> df_state \<Rightarrow> fault + df_state" where
  "dfLoop ctx st =
     (if \<not> hasUnscheduledOps (dsScheduler st) then Inr st
      else rbind (dfIteration ctx st) (\<lambda>st'.
        if length (unscheduledOps (dsScheduler st')) < length (unscheduledOps (dsScheduler st)) then dfLoop ctx st'
        else Inl Unreachable))"
  by pat_completeness auto
termination by (relation "measure (\<lambda>(ctx, st). length (unscheduledOps (dsScheduler st)))") auto

declare dfLoop.simps [simp del]

section \<open>run\<close>

definition dfStart :: "scheduler \<Rightarrow> df_state" where
  "dfStart s = \<lparr>dsScheduler = s, dsChains = [], dsBack = newChain, dsCurrent = None\<rparr>"

text \<open>The chains a function adds: the built ones, and the one left at the back.\<close>

definition dfFuncChains :: "df_ctx \<Rightarrow> df_func \<Rightarrow> fault + l1_chain list \<times> nat list" where
  "dfFuncChains ctx f =
     rbind (schedulerOf (dfFunc f)) (\<lambda>s.
     rbind (dfLoop ctx (dfStart s)) (\<lambda>st.
       Inr (dsChains st @ [dsBack st], schSchedule (dsScheduler st))))"

definition dfBuildChains :: "df_ctx \<Rightarrow> df_func list \<Rightarrow> fault + l1_chain list \<times> nat list list" where
  "dfBuildChains ctx funcs =
     rbind (mapE (dfFuncChains ctx) (filter (\<lambda>f. \<not> dfIsConstEval f) funcs)) (\<lambda>results.
       Inr (concat (map fst results), map snd results))"

text \<open>\<open>back()\<close> of an empty vector is out of range.\<close>

definition dfDropEmptyBack :: "l1_chain list \<Rightarrow> fault + l1_chain list" where
  "dfDropEmptyBack l1Chains =
     (if l1Chains = [] then Inl OutOfBounds
      else Inr (if chainIsEmpty (last l1Chains) then butlast l1Chains else l1Chains))"

definition dfRun :: "df_ctx \<Rightarrow> df_func list \<Rightarrow> fault + l1_chain list \<times> nat list list" where
  "dfRun ctx funcs =
     rbind (dfBuildChains ctx funcs) (\<lambda>(l1Chains, schedules).
     rbind (dfDropEmptyBack l1Chains) (\<lambda>l1Chains.
     rbind (mapE (resolveChain (dfSolver ctx)) l1Chains) (\<lambda>resolved.
       Inr (resolved, schedules))))"

section \<open>The analysis\<close>

text \<open>\<open>filterShardedOnly\<close>, and the results \<open>MemoryLayoutAnalysis\<close> collects from the chains.\<close>

definition filterShardedOnly :: "op_config list \<Rightarrow> fault + op_config list" where
  "filterShardedOnly configs =
     foldE (\<lambda>config kept. rbind (layoutOf config) (\<lambda>layout. rbind (hasShardedL1TensorMemoryLayout layout) (\<lambda>sharded.
       Inr (if sharded then kept @ [config] else kept)))) configs []"

record layout_analysis =
  laLegalConfigs :: "nat \<Rightarrow> op_config list option"
  laReconfig :: "edge \<Rightarrow> mem_reconfig_entry option"
  laSpillToDramOps :: "nat list"

definition collectChain :: "l1_chain \<Rightarrow> layout_analysis \<Rightarrow> fault + layout_analysis" where
  "collectChain c r =
     (if lcState c = Failed then Inr r
      else rbind (assertE SiteOther (lcState c = Completed)) (\<lambda>_.
        let r1 = r\<lparr>laLegalConfigs := foldl (\<lambda>m spec. m(msOp spec \<mapsto> [msConfig spec])) (laLegalConfigs r) (lcOpL1MemSpecs c),
                   laReconfig := lcMemReconfigEntryMap c ++ laReconfig r\<rparr>
        in if lcSpillEndToDRAM c then rbind (getLastOp c) (\<lambda>op. Inr (r1\<lparr>laSpillToDramOps := laSpillToDramOps r1 @ [op]\<rparr>))
           else Inr r1))"

definition analysisImplementation ::
  "df_ctx \<Rightarrow> (nat \<times> op_config list) list \<Rightarrow> df_func list \<Rightarrow> fault + layout_analysis" where
  "analysisImplementation ctx legalConfigs funcs =
     rbind (mapE (\<lambda>(op, configs). rbind (filterShardedOnly configs) (\<lambda>sharded. Inr (op, sharded))) legalConfigs) (\<lambda>shardedConfigs.
     rbind (dfRun (ctx\<lparr>dfSolver := (dfSolver ctx)\<lparr>scLegalConfigs := map_of shardedConfigs\<rparr>\<rparr>) funcs) (\<lambda>(l1Chains, schedules).
     foldE collectChain l1Chains \<lparr>laLegalConfigs = map_of legalConfigs, laReconfig = (\<lambda>_. None), laSpillToDramOps = []\<rparr>))"

end
