(* ===== verification/DFShardingFacts.thy ===== *)
theory DFShardingFacts
  imports DFSharding SolverSelect
begin

text \<open>
  The chains of \<open>DFShardingPolicy\<close>: they are consecutive pieces of a topological schedule, each op
  hands its output to the next, and whatever the solver selects for a completed chain is
  consistent along it. The loop over several functions leaves an empty chain behind.
\<close>

section \<open>Pieces of a schedule\<close>

inductive segments :: "'a list list \<Rightarrow> 'a list \<Rightarrow> bool" where
  none: "segments [] xs"
| piece: "segments cs xs \<Longrightarrow> segments (cs @ [c]) (xs @ c @ ys)"

lemma segments_append: "segments cs xs \<Longrightarrow> segments cs (xs @ ys)"
proof (induction rule: segments.induct)
  case (piece cs xs c zs)
  from segments.piece[OF piece.hyps, of c "zs @ ys"] show ?case by simp
qed (rule segments.none)

lemma segments_parts: "segments cs xs \<Longrightarrow> set (concat cs) \<subseteq> set xs \<and> (distinct xs \<longrightarrow> distinct (concat cs))"
  by (induction rule: segments.induct) auto

section \<open>Chains\<close>

abbreviation chainOps :: "l1_chain \<Rightarrow> nat list" where
  "chainOps c \<equiv> map msOp (lcOpL1MemSpecs c)"

text \<open>An op hands its output to the next: the next uses it and nobody else does, both have sharded
  configs, and the two largest outputs fit into L1 together.\<close>

definition handsOver :: "df_ctx \<Rightarrow> nat \<Rightarrow> nat \<Rightarrow> bool" where
  "handsOver ctx op next \<longleftrightarrow> dfValidForSharding ctx op next
     \<and> Some op \<in> definingOp ` set (irOperands (scOp (dfSolver ctx) next))
     \<and> (\<exists>l l'. dfOutputLayout ctx op = Inr l \<and> dfOutputLayout ctx next = Inr l' \<and> dfL1UsageValid ctx l l' = Inr True)"

definition chain_linked :: "df_ctx \<Rightarrow> l1_chain \<Rightarrow> bool" where
  "chain_linked ctx c \<longleftrightarrow> successively (handsOver ctx) (chainOps c) \<and> set (lcL1ChainedOps c) = set (chainOps c)"

definition built_chain :: "df_ctx \<Rightarrow> l1_chain \<Rightarrow> bool" where
  "built_chain ctx c \<longleftrightarrow> lcState c = Built \<and> chainOps c \<noteq> [] \<and> chain_linked ctx c
     \<and> (\<exists>next. handsOver ctx (last (chainOps c)) next)"

lemma linked_has_configs:
  assumes "built_chain ctx c" and "op \<in> set (chainOps c)"
  shows "getLegalConfigs (dfSolver ctx) op \<noteq> []"
proof -
  from assms(2) obtain i where i: "i < length (chainOps c)" "op = chainOps c ! i" by (metis in_set_conv_nth)
  have "\<exists>next. handsOver ctx op next"
  proof (cases "Suc i < length (chainOps c)")
    case True
    with assms(1) i show ?thesis by (auto simp: built_chain_def chain_linked_def successively_conv_nth)
  next
    case False
    with i have "op = last (chainOps c)" by (metis Suc_lessI diff_Suc_1 last_conv_nth length_0_conv not_less_zero)
    with assms(1) show ?thesis by (auto simp: built_chain_def)
  qed
  then show ?thesis by (auto simp: handsOver_def dfValidForSharding_def)
qed

section \<open>The invariant of the loop\<close>

definition backOk :: "df_ctx \<Rightarrow> df_state \<Rightarrow> bool" where
  "backOk ctx st \<longleftrightarrow> (if chainIsEmpty (dsBack st) then dsBack st = newChain
     else lcState (dsBack st) = InBuild \<and> chain_linked ctx (dsBack st)
        \<and> (\<exists>next. dsCurrent st = Some next \<and> handsOver ctx (last (chainOps (dsBack st))) next))"

definition dfInv :: "df_ctx \<Rightarrow> df_state \<Rightarrow> bool" where
  "dfInv ctx st \<longleftrightarrow> (\<forall>c \<in> set (dsChains st). built_chain ctx c) \<and> backOk ctx st
     \<and> (\<exists>xs. segments (map chainOps (dsChains st)) xs \<and> schSchedule (dsScheduler st) = xs @ chainOps (dsBack st))
     \<and> (\<not> hasUnscheduledOps (dsScheduler st) \<longrightarrow> chainIsEmpty (dsBack st))"

lemma dfStart_inv: "schSchedule s = [] \<Longrightarrow> dfInv ctx (dfStart s)"
  by (auto simp: dfInv_def dfStart_def backOk_def chainIsEmpty_def newChain_def intro: segments.none)

lemma dfNextOp_Some:
  "dfNextOp ctx currentOp ops = Some n \<Longrightarrow> n \<in> set ops \<and> Some currentOp \<in> definingOp ` set (irOperands (scOp (dfSolver ctx) n))"
  unfolding dfNextOp_def by (induction ops rule: rev_induct) (auto split: if_splits)

lemma dfJoins_handsOver:
  assumes "dfJoins ctx back currentOp next = Inr True" and "dfNextOp ctx currentOp ops = Some next"
  shows "handsOver ctx currentOp next"
  using assms(1) dfNextOp_Some[OF assms(2)] by (auto simp: dfJoins_def handsOver_def rbind_Inr_iff split: if_splits)

text \<open>Closing the chain at the back, when the schedule has grown by one op.\<close>

lemma dfCloseChain_inv:
  assumes "dfCloseChain st = Inr st'" and "dfInv ctx st0"
    and "dsChains st = dsChains st0" and "dsBack st = dsBack st0"
    and "schSchedule (dsScheduler st) = schSchedule (dsScheduler st0) @ [op]"
  shows "dfInv ctx st' \<and> dsBack st' = newChain"
proof -
  obtain xs where xs: "segments (map chainOps (dsChains st0)) xs" "schSchedule (dsScheduler st0) = xs @ chainOps (dsBack st0)"
    and ok: "\<forall>c \<in> set (dsChains st0). built_chain ctx c" and bk: "backOk ctx st0"
    using assms(2) by (auto simp: dfInv_def)
  note s = dfCloseChain_scheduler[OF assms(1)]
  have empty: "chainOps newChain = []" "chainIsEmpty newChain" by (simp_all add: newChain_def chainIsEmpty_def)
  show ?thesis
  proof (cases "chainIsEmpty (dsBack st0)")
    case True
    then have b: "dsBack st0 = newChain" using bk by (simp add: backOk_def)
    have st': "st' = st" using assms(1,4) True by (simp add: dfCloseChain_def)
    have "segments (map chainOps (dsChains st0)) (xs @ [op])" by (rule segments_append[OF xs(1)])
    moreover have "schSchedule (dsScheduler st) = (xs @ [op]) @ chainOps newChain" using xs(2) assms(5) b empty by simp
    ultimately show ?thesis using ok assms(3,4) b empty unfolding st' dfInv_def backOk_def by metis
  next
    case False
    have "lcState (dsBack st0) = InBuild" using bk False by (simp add: backOk_def)
    with assms(1,3,4) False have st': "st' = st\<lparr>dsChains := dsChains st0 @ [(dsBack st0)\<lparr>lcState := Built\<rparr>], dsBack := newChain\<rparr>"
      by (auto simp: dfCloseChain_def chainBuild_def rbind_Inr_iff)
    have "built_chain ctx ((dsBack st0)\<lparr>lcState := Built\<rparr>)"
      using bk False by (auto simp: backOk_def built_chain_def chain_linked_def chainIsEmpty_def)
    moreover have "segments (map chainOps (dsChains st0) @ [chainOps (dsBack st0)]) (xs @ chainOps (dsBack st0) @ [op])"
      by (rule segments.piece[OF xs(1)])
    moreover have "schSchedule (dsScheduler st) = (xs @ chainOps (dsBack st0) @ [op]) @ chainOps newChain" using xs(2) assms(5) empty by simp
    ultimately show ?thesis using ok empty unfolding st' dfInv_def backOk_def by auto
  qed
qed

text \<open>The current op joins the chain at the back.\<close>

lemma dfAdd_inv:
  assumes "addOpL1MemSpec (dfSpec op) (dsBack st) = Inr b" and "dfInv ctx st" and "handsOver ctx op n"
    and "chainIsEmpty (dsBack st) \<or> dsCurrent st = Some op" and "hasUnscheduledOps (scheduleOp op (dsScheduler st))"
  shows "dfInv ctx (st\<lparr>dsScheduler := scheduleOp op (dsScheduler st), dsBack := b, dsCurrent := Some n\<rparr>)"
proof -
  have b: "lcOpL1MemSpecs b = lcOpL1MemSpecs (dsBack st) @ [dfSpec op]" "lcState b = lcState (dsBack st)"
    "set (lcL1ChainedOps b) = insert op (set (lcL1ChainedOps (dsBack st)))" "lcState (dsBack st) = InBuild"
    using assms(1) by (auto simp: addOpL1MemSpec_def rbind_Inr_iff assertE_Inr_iff dfSpec_def)
  have ops: "chainOps b = chainOps (dsBack st) @ [op]" by (simp add: b dfSpec_def)
  have linked: "chain_linked ctx b"
  proof (cases "chainIsEmpty (dsBack st)")
    case True
    with assms(2) have "dsBack st = newChain" by (simp add: dfInv_def backOk_def)
    then show ?thesis using b(3) ops by (simp add: chain_linked_def newChain_def)
  next
    case False
    with assms(2,4) have "chain_linked ctx (dsBack st)" "handsOver ctx (last (chainOps (dsBack st))) op"
      by (auto simp: dfInv_def backOk_def)
    then show ?thesis using b(3) unfolding chain_linked_def ops by (auto simp: successively_append_iff)
  qed
  have ne: "\<not> chainIsEmpty b" by (simp add: chainIsEmpty_def b)
  have last: "last (chainOps b) = op" by (simp add: ops)
  have "backOk ctx (st\<lparr>dsScheduler := scheduleOp op (dsScheduler st), dsBack := b, dsCurrent := Some n\<rparr>)"
    using ne b linked assms(3) unfolding backOk_def by (simp add: dfSpec_def)
  then show ?thesis using assms(2,5) ops by (auto simp: dfInv_def scheduleOp_def)
qed

text \<open>The three ways an iteration ends.\<close>

lemma dfIteration_cases:
  assumes "dfIteration ctx st = Inr st'" and "dfPickCurrent ctx st = Inr op"
  obtains (layout) "chainIsEmpty (dsBack st)" and "st' = st\<lparr>dsScheduler := scheduleOp op (dsScheduler st), dsCurrent := None\<rparr>"
    | (close) c where "dfCloseChain (st\<lparr>dsScheduler := scheduleOp op (dsScheduler st), dsCurrent := c\<rparr>) = Inr st'"
        and "c = None \<or> \<not> hasUnscheduledOps (scheduleOp op (dsScheduler st))"
    | (join) n b where "hasUnscheduledOps (scheduleOp op (dsScheduler st))"
        and "dfNextOp ctx op (dfScheduleable ctx (scheduleOp op (dsScheduler st))) = Some n"
        and "dfJoins ctx (dsBack st) op n = Inr True" and "addOpL1MemSpec (dfSpec op) (dsBack st) = Inr b"
        and "st' = st\<lparr>dsScheduler := scheduleOp op (dsScheduler st), dsBack := b, dsCurrent := Some n\<rparr>"
proof -
  let ?s = "scheduleOp op (dsScheduler st)"
  note it = assms(1)[unfolded dfIteration_def assms(2) rbind_simps Let_def]
  show thesis
  proof (cases "chainIsEmpty (dsBack st) \<and> isToLayout ctx op")
    case True
    with it have "st' = st\<lparr>dsScheduler := ?s, dsCurrent := None\<rparr>" by simp
    with True layout show thesis by blast
  next
    case no_layout: False
    show thesis
    proof (cases "hasUnscheduledOps ?s")
      case False
      with it no_layout have "dfCloseChain (st\<lparr>dsScheduler := ?s, dsCurrent := Some op\<rparr>) = Inr st'" by simp
      with False close show thesis by blast
    next
      case unscheduled: True
      show thesis
      proof (cases "dfNextOp ctx op (dfScheduleable ctx ?s)")
        case None
        with it no_layout unscheduled have "dfCloseChain (st\<lparr>dsScheduler := ?s, dsCurrent := None\<rparr>) = Inr st'" by simp
        with close show thesis by blast
      next
        case (Some n)
        with it no_layout unscheduled obtain joins where j: "dfJoins ctx (dsBack st) op n = Inr joins"
          by (cases "dfJoins ctx (dsBack st) op n") auto
        show thesis
        proof (cases joins)
          case True
          with it no_layout unscheduled Some j obtain b where "addOpL1MemSpec (dfSpec op) (dsBack st) = Inr b"
            by (cases "addOpL1MemSpec (dfSpec op) (dsBack st)") auto
          with it no_layout unscheduled Some j True join show thesis by simp
        next
          case False
          with it no_layout unscheduled Some j have "dfCloseChain (st\<lparr>dsScheduler := ?s, dsCurrent := None\<rparr>) = Inr st'" by simp
          with close show thesis by blast
        qed
      qed
    qed
  qed
qed

lemma dfIteration_inv:
  assumes "dfIteration ctx st = Inr st'" and "dfInv ctx st"
  shows "dfInv ctx st'"
proof -
  from assms(1) obtain op where pick: "dfPickCurrent ctx st = Inr op" by (auto simp: dfIteration_def rbind_Inr_iff)
  let ?s = "scheduleOp op (dsScheduler st)"
  have sch: "schSchedule ?s = schSchedule (dsScheduler st) @ [op]" by (simp add: scheduleOp_def)
  have closed: "dfInv ctx st'" if "dfCloseChain (st\<lparr>dsScheduler := ?s, dsCurrent := c\<rparr>) = Inr st'" for c
    using dfCloseChain_inv[OF that assms(2), of op] sch by simp
  from assms(1) pick show ?thesis
  proof (cases rule: dfIteration_cases)
    case layout
    then have b: "dsBack st = newChain" using assms(2) by (simp add: dfInv_def backOk_def)
    obtain xs where "segments (map chainOps (dsChains st)) xs" "schSchedule (dsScheduler st) = xs @ chainOps (dsBack st)"
      using assms(2) by (auto simp: dfInv_def)
    then have "segments (map chainOps (dsChains st)) (xs @ [op])" "schSchedule ?s = (xs @ [op]) @ chainOps newChain"
      by (auto intro: segments_append simp: b sch newChain_def)
    then show ?thesis using assms(2) layout b unfolding dfInv_def backOk_def by auto
  next
    case (close c)
    then show ?thesis using closed by blast
  next
    case (join n b)
    have "dsCurrent st = Some op" if "\<not> chainIsEmpty (dsBack st)"
      using pick that assms(2) by (auto simp: dfPickCurrent_def dfInv_def backOk_def)
    with dfAdd_inv[OF join(4) assms(2) dfJoins_handsOver[OF join(3,2)] _ join(1)] join(5) show ?thesis by blast
  qed
qed

lemma dfLoop_inv: "dfLoop ctx st = Inr st' \<Longrightarrow> dfInv ctx st \<Longrightarrow> dfInv ctx st' \<and> \<not> hasUnscheduledOps (dsScheduler st')"
proof (induction ctx st rule: dfLoop.induct)
  case (1 ctx st)
  show ?case
  proof (cases "hasUnscheduledOps (dsScheduler st)")
    case True
    with "1.prems"(1) obtain s1 where s1: "dfIteration ctx st = Inr s1" "dfLoop ctx s1 = Inr st'"
      "length (unscheduledOps (dsScheduler s1)) < length (unscheduledOps (dsScheduler st))"
      by (subst (asm) dfLoop.simps) (auto simp: rbind_Inr_iff split: if_splits)
    show ?thesis by (rule "1.IH"[OF _ s1(1) s1(3) s1(2) dfIteration_inv[OF s1(1) "1.prems"(2)]]) (use True in simp)
  next
    case False
    with "1.prems" show ?thesis by (subst (asm) dfLoop.simps) simp
  qed
qed

text \<open>What a function adds to the chains.\<close>

lemma dfFuncChains_result:
  assumes "dfFuncChains ctx f = Inr (cs, schedule)"
  obtains built where "cs = built @ [newChain]" and "\<forall>c \<in> set built. built_chain ctx c"
    and "segments (map chainOps built) schedule"
proof -
  from assms obtain s st where s: "schedulerOf (dfFunc f) = Inr s" and l: "dfLoop ctx (dfStart s) = Inr st"
    and out: "cs = dsChains st @ [dsBack st]" "schedule = schSchedule (dsScheduler st)"
    by (auto simp: dfFuncChains_def rbind_Inr_iff)
  have "schSchedule s = []" using schedulerOf_state[OF s] by simp
  from dfLoop_inv[OF l dfStart_inv[OF this]] have I: "dfInv ctx st" "\<not> hasUnscheduledOps (dsScheduler st)" by simp_all
  then have b: "dsBack st = newChain" by (auto simp: dfInv_def backOk_def)
  show thesis
    using I b that[of "dsChains st"] out by (auto simp: dfInv_def newChain_def)
qed

section \<open>The schedule\<close>

text \<open>The set of ready ops is iterated in some order.\<close>

definition iterates_sets :: "df_ctx \<Rightarrow> bool" where
  "iterates_sets ctx \<longleftrightarrow> (\<forall>xs. set (dfIterate ctx xs) = set xs)"

definition currentReady :: "df_state \<Rightarrow> bool" where
  "currentReady st \<longleftrightarrow> (\<forall>op. dsCurrent st = Some op \<longrightarrow> hasUnscheduledOps (dsScheduler st) \<longrightarrow> isReady (dsScheduler st) op)"

lemma dfScheduleable_set: "iterates_sets ctx \<Longrightarrow> set (dfScheduleable ctx s) = set (getScheduleableOps s)"
  by (simp add: dfScheduleable_def iterates_sets_def)

lemma dfPickCurrent_ready:
  assumes "dfPickCurrent ctx st = Inr op" and "iterates_sets ctx" and "currentReady st" and "hasUnscheduledOps (dsScheduler st)"
  shows "isReady (dsScheduler st) op"
proof -
  have "op \<in> set (dfScheduleable ctx (dsScheduler st)) \<or> dsCurrent st = Some op"
    using assms(1) by (auto simp: dfPickCurrent_def at_Inr_iff find_Some_iff Let_def split: if_splits option.splits)
  with assms(2-4) show ?thesis by (auto simp: dfScheduleable_set currentReady_def)
qed

lemma dfIteration_ready:
  assumes "dfIteration ctx st = Inr st'" and "iterates_sets ctx"
  shows "currentReady st'"
proof -
  have close_ready: "currentReady st2" if "dfCloseChain st1 = Inr st2" "currentReady st1" for st1 st2
    using that by (auto simp: dfCloseChain_def rbind_Inr_iff currentReady_def split: if_splits)
  from assms(1) obtain op where "dfPickCurrent ctx st = Inr op" by (auto simp: dfIteration_def rbind_Inr_iff)
  from assms(1) this show ?thesis
  proof (cases rule: dfIteration_cases)
    case layout
    then show ?thesis by (simp add: currentReady_def)
  next
    case (close c)
    then show ?thesis by (intro close_ready[OF close(1)]) (auto simp: currentReady_def)
  next
    case (join n b)
    then show ?thesis using dfNextOp_Some[OF join(2)] by (simp add: currentReady_def dfScheduleable_set[OF assms(2)])
  qed
qed

lemma dfLoop_run:
  "dfLoop ctx st = Inr st' \<Longrightarrow> currentReady st \<Longrightarrow> iterates_sets ctx \<Longrightarrow> ready_run isReady scheduleOp s0 (dsScheduler st)
    \<Longrightarrow> ready_run isReady scheduleOp s0 (dsScheduler st')"
proof (induction ctx st rule: dfLoop.induct)
  case (1 ctx st)
  show ?case
  proof (cases "hasUnscheduledOps (dsScheduler st)")
    case True
    with "1.prems"(1) obtain s1 where s1: "dfIteration ctx st = Inr s1" "dfLoop ctx s1 = Inr st'"
      "length (unscheduledOps (dsScheduler s1)) < length (unscheduledOps (dsScheduler st))"
      by (subst (asm) dfLoop.simps) (auto simp: rbind_Inr_iff split: if_splits)
    from s1(1) obtain op where op: "dfPickCurrent ctx st = Inr op" "dsScheduler s1 = scheduleOp op (dsScheduler st)"
      by (rule dfIteration_scheduler)
    have "isReady (dsScheduler st) op" using "1.prems"(2,3) True op(1) by (intro dfPickCurrent_ready)
    then have "ready_run isReady scheduleOp s0 (dsScheduler s1)" using "1.prems"(4) op(2) ready_run.step by simp
    then show ?thesis using "1.IH"[OF _ s1(1,3,2)] True dfIteration_ready[OF s1(1) "1.prems"(3)] "1.prems"(3) by blast
  next
    case False
    with "1.prems" show ?thesis by (subst (asm) dfLoop.simps) simp
  qed
qed

section \<open>The policy does not fail\<close>

text \<open>The first sharded config of an op is really sharded and has a size; an op has an operand, and
  no override reshards its first one.\<close>

definition policy_inputs_ok :: "df_ctx \<Rightarrow> df_func \<Rightarrow> bool" where
  "policy_inputs_ok ctx f \<longleftrightarrow>
     (\<forall>op. getLegalConfigs (dfSolver ctx) op \<noteq> [] \<longrightarrow>
        (\<exists>l n. dfOutputLayout ctx op = Inr l \<and> getShardSizeInBytes l = Inr n))
   \<and> (\<forall>op \<in> schedulableIds (dfFunc f). irOperands (scOp (dfSolver ctx) op) \<noteq> []
        \<and> (\<forall>e \<in> set (scReconfigEdges (dfSolver ctx)). egConsumer e = op \<longrightarrow> egOperandIndex e \<noteq> 0))"

lemma dfJoins_total:
  assumes "policy_inputs_ok ctx f" and "op \<in> schedulableIds (dfFunc f)"
  shows "\<exists>b. dfJoins ctx c op n = Inr b"
proof (cases "dfValidForSharding ctx op n")
  case True
  then have "getLegalConfigs (dfSolver ctx) op \<noteq> []" "getLegalConfigs (dfSolver ctx) n \<noteq> []"
    by (simp_all add: dfValidForSharding_def)
  with assms(1) obtain l k l' k' where "dfOutputLayout ctx op = Inr l" "getShardSizeInBytes l = Inr k"
    "dfOutputLayout ctx n = Inr l'" "getShardSizeInBytes l' = Inr k'"
    unfolding policy_inputs_ok_def by blast
  moreover have "dfFirstInputValid ctx c op l'' = Inr True" for l''
    using assms by (cases "irOperands (scOp (dfSolver ctx) op)")
      (fastforce simp: dfFirstInputValid_def firstOpEdge_def policy_inputs_ok_def)+
  ultimately show ?thesis by (auto simp: dfJoins_def True dfL1UsageValid_def)
qed (auto simp: dfJoins_def)

lemma dfCloseChain_total: "dfInv ctx st \<Longrightarrow> \<exists>st'. dfCloseChain (st\<lparr>dsScheduler := s, dsCurrent := c\<rparr>) = Inr st'"
  by (auto simp: dfCloseChain_def chainBuild_def dfInv_def backOk_def assertE_def)

lemma dfIteration_total:
  assumes "policy_inputs_ok ctx f" and "dfInv ctx st" and "dfPickCurrent ctx st = Inr op" and "op \<in> schedulableIds (dfFunc f)"
  shows "\<exists>st'. dfIteration ctx st = Inr st'"
proof -
  let ?s = "scheduleOp op (dsScheduler st)"
  have close: "\<exists>st'. dfCloseChain (st\<lparr>dsScheduler := ?s, dsCurrent := c\<rparr>) = Inr st'" for c
    by (rule dfCloseChain_total[OF assms(2)])
  have add: "\<exists>b. addOpL1MemSpec (dfSpec op) (dsBack st) = Inr b"
    using assms(2) by (auto simp: addOpL1MemSpec_def dfInv_def backOk_def newChain_def assertE_def split: if_splits)
  have "\<exists>st'. (case dfNextOp ctx op (dfScheduleable ctx ?s) of
            None \<Rightarrow> dfCloseChain (st\<lparr>dsScheduler := ?s, dsCurrent := None\<rparr>)
          | Some nextOp \<Rightarrow>
              rbind (dfJoins ctx (dsBack st) op nextOp) (\<lambda>joins.
              if joins
              then rbind (addOpL1MemSpec (dfSpec op) (dsBack st)) (\<lambda>back.
                   Inr (st\<lparr>dsScheduler := ?s, dsBack := back, dsCurrent := Some nextOp\<rparr>))
              else dfCloseChain (st\<lparr>dsScheduler := ?s, dsCurrent := None\<rparr>))) = Inr st'"
  proof (cases "dfNextOp ctx op (dfScheduleable ctx ?s)")
    case None
    with close show ?thesis by simp
  next
    case (Some n)
    obtain b where "dfJoins ctx (dsBack st) op n = Inr b" using dfJoins_total[OF assms(1,4)] by blast
    with Some add close show ?thesis by (cases b) auto
  qed
  then show ?thesis using close by (simp add: dfIteration_def assms(3) Let_def)
qed

lemma dfLoop_total:
  assumes "schedulerOf (dfFunc f) = Inr s0" and "policy_inputs_ok ctx f" and "iterates_sets ctx"
    and "\<forall>op \<in> set (sfOps (dfFunc f)). \<forall>use \<in> set (sfOps (dfFunc f)) \<union> set (sfNested (dfFunc f)). usesFirst use op \<longrightarrow> soId op < soId use"
  shows "dfInv ctx st \<Longrightarrow> currentReady st \<Longrightarrow> ready_run isReady scheduleOp s0 (dsScheduler st) \<Longrightarrow> \<exists>st'. dfLoop ctx st = Inr st'"
proof (induction "length (unscheduledOps (dsScheduler st))" arbitrary: st rule: less_induct)
  case less
  let ?s = "dsScheduler st"
  note init = schedulerOf_state[OF assms(1)]
  then have I: "schInv (dependencies s0) s0" "ordered_by (\<lambda>x. set (dependencies s0 x)) (schSchedule s0)" by simp_all
  note R = sch.run_invariant[OF less.prems(3) I]
  show ?case
  proof (cases "hasUnscheduledOps ?s")
    case True
    have "\<exists>x. isReady ?s x" by (rule run_not_stuck[OF assms(1,4) less.prems(3) True])
    then have ne: "dfScheduleable ctx ?s \<noteq> []" using dfScheduleable_set[OF assms(3), of ?s] by auto
    then have "\<exists>op. dfPickCurrent ctx st = Inr op"
      by (auto simp: dfPickCurrent_def Let_def split: option.splits)
    then obtain op where op: "dfPickCurrent ctx st = Inr op" by blast
    have ready: "isReady ?s op" by (rule dfPickCurrent_ready[OF op assms(3) less.prems(2) True])
    then have un: "op \<in> set (unscheduledOps ?s)" by (simp add: getScheduleableOps_def)
    then have "op \<in> schedulableIds (dfFunc f)" using R init by auto
    from dfIteration_total[OF assms(2) less.prems(1) op this] obtain st1 where st1: "dfIteration ctx st = Inr st1" by blast
    have s1: "dsScheduler st1 = scheduleOp op ?s" using dfIteration_scheduler[OF st1] op by fastforce
    have "length (removeAll op (unscheduledOps ?s)) < length (unscheduledOps ?s)" using un by (rule length_removeAll_less)
    then have lt: "length (unscheduledOps (dsScheduler st1)) < length (unscheduledOps ?s)" by (simp add: s1 scheduleOp_def)
    have "ready_run isReady scheduleOp s0 (dsScheduler st1)" using ready_run.step[OF less.prems(3) ready] by (simp add: s1)
    from less.hyps[OF lt dfIteration_inv[OF st1 less.prems(1)] dfIteration_ready[OF st1 assms(3)] this]
    show ?thesis by (subst dfLoop.simps) (simp add: True st1 lt)
  next
    case False
    then show ?thesis by (subst dfLoop.simps) simp
  qed
qed

section \<open>Several functions\<close>

lemma mapE_member: "mapE f xs = Inr ys \<Longrightarrow> x \<in> set xs \<Longrightarrow> \<exists>y. f x = Inr y"
  by (induction xs arbitrary: ys) (auto simp: rbind_Inr_iff)

text \<open>A new chain cannot be resolved: it was never built.\<close>

lemma newChain_unresolved: "resolveChain ctx newChain = Inl (AssertFailed SiteChainState)"
  by (simp add: resolveChain_def resolveWithSolver_def newChain_def assertE_def)

lemma mapE_append: "mapE f (xs @ ys) = rbind (mapE f xs) (\<lambda>as. rbind (mapE f ys) (\<lambda>bs. Inr (as @ bs)))"
  by (induction xs) (simp_all add: rbind_assoc)

text \<open>The chains of all functions, for the chains the functions build: an empty chain is left after the chains of every
  function, and only the last one is dropped.\<close>

lemma dfRun_chains:
  assumes "mapE (dfFuncChains ctx) (filter (\<lambda>f. \<not> dfIsConstEval f) funcs) = Inr rs"
    and "map fst rs = map (\<lambda>built. built @ [newChain]) builts" and "builts \<noteq> []"
  shows "dfRun ctx funcs = rbind (mapE (resolveChain (dfSolver ctx)) (concat (map (\<lambda>built. built @ [newChain]) (butlast builts)) @ last builts))
    (\<lambda>resolved. Inr (resolved, map snd rs))"
proof -
  have e: "chainIsEmpty newChain" by (simp add: newChain_def chainIsEmpty_def)
  obtain bs l where "builts = bs @ [l]" using assms(3) by (cases builts rule: rev_cases) auto
  then show ?thesis using assms(1,2) e by (simp add: dfRun_def dfBuildChains_def dfDropEmptyBack_def butlast_append)
qed

lemma dfFuncChains_builts:
  assumes "mapE (dfFuncChains ctx) fs = Inr rs"
  shows "\<exists>builts. length builts = length fs \<and> map fst rs = map (\<lambda>built. built @ [newChain]) builts"
proof -
  have len: "length rs = length fs" by (rule mapE_length[OF assms])
  have "\<exists>built. fst (rs ! k) = built @ [newChain]" if "k < length fs" for k
  proof -
    have "dfFuncChains ctx (fs ! k) = Inr (fst (rs ! k), snd (rs ! k))" using mapE_nth[OF assms that] by simp
    then show ?thesis by (rule dfFuncChains_result) blast
  qed
  then obtain built where b: "\<And>k. k < length fs \<Longrightarrow> fst (rs ! k) = built k @ [newChain]" by metis
  show ?thesis
    by (intro exI[of _ "map built [0..<length fs]"]) (use len b in \<open>auto intro!: nth_equalityI\<close>)
qed

section \<open>Completed chains\<close>

lemma chooseConfigs_Cons:
  "chooseConfigs ctx ((operation, config) # choices) s = rbind (setConfig ctx operation config s) (chooseConfigs ctx choices)"
  by (cases "setConfig ctx operation config s") (simp_all add: chooseConfigs_def)

lemma picks_choose:
  assumes "foldE (\<lambda>operation s. rbind (pickConfig ctx s acc operation) (\<lambda>config. setConfig ctx operation config s)) ops s = Inr s'"
  shows "\<exists>choices. map fst choices = ops \<and> chooseConfigs ctx choices s = Inr s'"
  using assms
proof (induction ops arbitrary: s)
  case Nil
  then show ?case by (simp add: chooseConfigs_def)
next
  case (Cons operation ops)
  then obtain config s1 where "setConfig ctx operation config s = Inr s1"
    and "foldE (\<lambda>operation s. rbind (pickConfig ctx s acc operation) (\<lambda>config. setConfig ctx operation config s)) ops s1 = Inr s'"
    by (auto simp: rbind_Inr_iff)
  with Cons.IH[of s1] obtain choices where "map fst choices = ops" "chooseConfigs ctx ((operation, config) # choices) s = Inr s'"
    by (auto simp: chooseConfigs_Cons)
  then show ?case by (intro exI[of _ "(operation, config) # choices"]) simp
qed

text \<open>A resolved chain has failed, or its specs hold the configs of a solution.\<close>

lemma resolveChain_result:
  assumes "resolveChain ctx c = Inr c'" and "lcState c' \<noteq> Failed"
  obtains s choices s' selected reconfig where "resolve (chainCtx ctx c) initialSolver = Inr (True, s)"
    and "chooseConfigs (chainCtx ctx c) choices s = Inr s'" and "finish (chainCtx ctx c) s' = Inr (selected, reconfig)"
    and "lcState c' = Completed" and "lcMemReconfigEntryMap c' = reconfig"
    and "mapE (completeSpec selected) (lcOpL1MemSpecs c) = Inr (lcOpL1MemSpecs c')" and "lcL1ChainedOps c' = lcL1ChainedOps c"
proof -
  from assms(1) obtain solver c1 where r: "resolveWithSolver ctx c = Inr (solver, c1)"
    by (auto simp: resolveChain_def rbind_Inr_iff)
  from r obtain resolved where res: "resolve (chainCtx ctx c) initialSolver = Inr (resolved, solver)"
    and c1: "c1 = c\<lparr>lcState := if resolved then Resolved else Failed\<rparr>"
    by (auto simp: resolveWithSolver_def rbind_Inr_iff)
  show thesis
  proof (cases resolved)
    case True
    from assms(1) obtain s' selected reconfig c2 where p: "pickOpShardConfigs (chainCtx ctx c) solver = Inr s'"
      and f: "finish (chainCtx ctx c) s' = Inr (selected, reconfig)" and c2: "chainComplete selected reconfig c1 = Inr c2"
      and c': "c' = c2 \<or> c' = c2\<lparr>lcSpillEndToDRAM := True\<rparr>"
      by (auto simp: resolveChain_def r rbind_Inr_iff c1 True split: if_splits)
    from p obtain choices where ch: "chooseConfigs (chainCtx ctx c) choices solver = Inr s'"
      using picks_choose by (fastforce simp: pickOpShardConfigs_def rbind_Inr_iff)
    have "lcState c' = Completed" "lcMemReconfigEntryMap c' = reconfig"
      "mapE (completeSpec selected) (lcOpL1MemSpecs c) = Inr (lcOpL1MemSpecs c')" "lcL1ChainedOps c' = lcL1ChainedOps c"
      using c2 c' by (auto simp: chainComplete_def rbind_Inr_iff c1)
    moreover have "resolve (chainCtx ctx c) initialSolver = Inr (True, solver)" using res True by simp
    ultimately show thesis using that[OF _ ch f] by simp
  next
    case False
    with assms r c1 show thesis by (auto simp: resolveChain_def rbind_Inr_iff)
  qed
qed

lemma completeSpec_Inr:
  "completeSpec selected spec = Inr spec' \<Longrightarrow> msOp spec' = msOp spec \<and> map_of selected (msOp spec) = Some (msConfig spec')"
  by (auto simp: completeSpec_def split: option.splits)

lemma completeSpec_selected:
  assumes "mapE (completeSpec selected) specs = Inr specs'"
  shows "map msOp specs' = map msOp specs" and "spec \<in> set specs' \<Longrightarrow> (msOp spec, msConfig spec) \<in> set selected"
proof -
  note l = mapE_length[OF assms]
  have nth: "msOp (specs' ! k) = msOp (specs ! k) \<and> (msOp (specs' ! k), msConfig (specs' ! k)) \<in> set selected" if "k < length specs" for k
    using completeSpec_Inr[OF mapE_nth[OF assms that]] by (auto dest: map_of_SomeD)
  show "map msOp specs' = map msOp specs" using nth l by (intro nth_equalityI) auto
  show "(msOp spec, msConfig spec) \<in> set selected" if "spec \<in> set specs'"
    using that nth l by (metis in_set_conv_nth)
qed

lemma dfRun_chains_built:
  assumes "dfRun ctx funcs = Inr (cs, schedules)" and "c \<in> set cs"
  obtains c0 where "built_chain ctx c0" and "resolveChain (dfSolver ctx) c0 = Inr c"
proof -
  from assms(1) obtain results l1Chains where results: "mapE (dfFuncChains ctx) (filter (\<lambda>f. \<not> dfIsConstEval f) funcs) = Inr results"
    and drop: "dfDropEmptyBack (concat (map fst results)) = Inr l1Chains" and all: "mapE (resolveChain (dfSolver ctx)) l1Chains = Inr cs"
    by (auto simp: dfRun_def dfBuildChains_def rbind_Inr_iff)
  from assms(2) obtain k where k: "k < length cs" "c = cs ! k" by (metis in_set_conv_nth)
  have l: "length cs = length l1Chains" by (rule mapE_length[OF all])
  let ?c = "l1Chains ! k"
  have r: "resolveChain (dfSolver ctx) ?c = Inr c" using mapE_nth[OF all, of k] k l by simp
  then have old: "?c \<noteq> newChain" using newChain_unresolved[of "dfSolver ctx"] by auto
  have "set l1Chains \<subseteq> set (concat (map fst results))"
    using drop by (auto simp: dfDropEmptyBack_def simp del: set_concat split: if_splits dest: in_set_butlastD)
  moreover have "?c \<in> set l1Chains" using k l by simp
  ultimately have "?c \<in> set (concat (map fst results))" by blast
  then obtain x where x: "x \<in> set results" "?c \<in> set (fst x)" by auto
  then obtain m where m: "m < length results" "x = results ! m" by (metis in_set_conv_nth)
  have "dfFuncChains ctx (filter (\<lambda>f. \<not> dfIsConstEval f) funcs ! m) = Inr (fst x, snd x)"
    using mapE_nth[OF results, of m] m mapE_length[OF results] by simp
  then obtain built where "fst x = built @ [newChain]" "\<forall>c \<in> set built. built_chain ctx c" by (rule dfFuncChains_result)
  with old have "built_chain ctx ?c" using x(2) by auto
  with r that show thesis by blast
qed

text \<open>The configs of a completed chain fit together.\<close>

definition chain_consistent :: "solver_ctx \<Rightarrow> l1_chain \<Rightarrow> bool" where
  "chain_consistent ctx c \<longleftrightarrow>
     (\<forall>e \<in> set (allChainEdges (chainCtx ctx c)). \<forall>p \<in> set (lcOpL1MemSpecs c). \<forall>q \<in> set (lcOpL1MemSpecs c).
        egProducer e = Some (msOp p) \<and> egConsumer e = msOp q \<longrightarrow>
        (\<exists>i j. i < length (getLegalConfigs ctx (msOp p)) \<and> getLegalConfigs ctx (msOp p) ! i = msConfig p
           \<and> j < length (getLegalConfigs ctx (msOp q)) \<and> getLegalConfigs ctx (msOp q) ! j = msConfig q
           \<and> allowed (chainCtx ctx c) (lcMemReconfigEntryMap c) e i j \<and> picked j (lcMemReconfigEntryMap c) e))"

lemma chainCtx_simps [simp]:
  "getLegalConfigs (chainCtx ctx c) = getLegalConfigs ctx" "scShardedOps (chainCtx ctx c) = lcL1ChainedOps c"
  by (rule ext, simp_all add: getLegalConfigs_def chainCtx_def)

lemma resolveChain_consistent:
  assumes "resolveChain (dfSolver ctx) c = Inr c'" and "built_chain ctx c" and "lcState c' \<noteq> Failed"
  shows "lcState c' = Completed \<and> map msOp (lcOpL1MemSpecs c') = map msOp (lcOpL1MemSpecs c) \<and> chain_consistent (dfSolver ctx) c'"
proof -
  obtain s choices s' selected reconfig where r: "resolve (chainCtx (dfSolver ctx) c) initialSolver = Inr (True, s)"
    and ch: "chooseConfigs (chainCtx (dfSolver ctx) c) choices s = Inr s'" and f: "finish (chainCtx (dfSolver ctx) c) s' = Inr (selected, reconfig)"
    and out: "lcState c' = Completed" "lcMemReconfigEntryMap c' = reconfig"
    and m: "mapE (completeSpec selected) (lcOpL1MemSpecs c) = Inr (lcOpL1MemSpecs c')" and ops: "lcL1ChainedOps c' = lcL1ChainedOps c"
    by (rule resolveChain_result[OF assms(1,3)])
  note specs = completeSpec_selected[OF m]
  have ctx: "chainCtx (dfSolver ctx) c' = chainCtx (dfSolver ctx) c" by (simp add: chainCtx_def specs(1) ops)
  have "\<forall>op \<in> set (scShardedOps (chainCtx (dfSolver ctx) c)). getLegalConfigs (chainCtx (dfSolver ctx) c) op \<noteq> []"
    using linked_has_configs[OF assms(2)] assms(2) by (auto simp: built_chain_def chain_linked_def)
  note sel = selection_consistent[OF r this ch f]
  have "chain_consistent (dfSolver ctx) c'"
    unfolding chain_consistent_def ctx out(2)
  proof (intro ballI impI)
    fix e p q assume e: "e \<in> set (allChainEdges (chainCtx (dfSolver ctx) c))" and pq: "p \<in> set (lcOpL1MemSpecs c')" "q \<in> set (lcOpL1MemSpecs c')"
      and ends: "egProducer e = Some (msOp p) \<and> egConsumer e = msOp q"
    from sel[OF e conjunct1[OF ends] specs(2)[OF pq(1)]] specs(2)[OF pq(2)] ends
    show "\<exists>i j. i < length (getLegalConfigs (dfSolver ctx) (msOp p)) \<and> getLegalConfigs (dfSolver ctx) (msOp p) ! i = msConfig p
           \<and> j < length (getLegalConfigs (dfSolver ctx) (msOp q)) \<and> getLegalConfigs (dfSolver ctx) (msOp q) ! j = msConfig q
           \<and> allowed (chainCtx (dfSolver ctx) c) reconfig e i j \<and> picked j reconfig e"
      by auto
  qed
  with out specs(1) show ?thesis by simp
qed

section \<open>Properties\<close>

text \<open>C35: On a function whose uses follow their definitions, and with usable inputs, the chain builder
  of \<open>DFShardingPolicy\<close> does not fail, whatever the order in which the set of ready ops is iterated. It
  schedules every schedulable op once, after the ops it depends on. The chains it builds are
  consecutive, disjoint pieces of that schedule, and in each every op hands its output to the next:
  the next is its only user, both have sharded configs, and their outputs fit into L1 together. The
  empty chain it started last is left at the back.\<close>

theorem sharding_chains_built:
  assumes "schedulerOf (dfFunc f) = Inr s0" and "policy_inputs_ok ctx f" and "iterates_sets ctx"
    and "\<forall>op \<in> set (sfOps (dfFunc f)). \<forall>use \<in> set (sfOps (dfFunc f)) \<union> set (sfNested (dfFunc f)). usesFirst use op \<longrightarrow> soId op < soId use"
  shows "\<exists>built schedule. dfFuncChains ctx f = Inr (built @ [newChain], schedule)
    \<and> distinct schedule \<and> set schedule = schedulableIds (dfFunc f) \<and> ordered_by (\<lambda>x. {y. dependsOn (dfFunc f) x y}) schedule
    \<and> segments (map chainOps built) schedule \<and> (\<forall>c \<in> set built. built_chain ctx c)"
proof -
  note init = schedulerOf_state[OF assms(1)]
  then have I: "schInv (dependencies s0) s0" "ordered_by (\<lambda>x. set (dependencies s0 x)) (schSchedule s0)"
    and e: "schSchedule s0 = []" by simp_all
  have start: "dfInv ctx (dfStart s0)" "currentReady (dfStart s0)" "ready_run isReady scheduleOp s0 (dsScheduler (dfStart s0))"
    using dfStart_inv[OF e] by (simp_all add: currentReady_def dfStart_def ready_run.refl)
  obtain st where st: "dfLoop ctx (dfStart s0) = Inr st" using dfLoop_total[OF assms start] by blast
  let ?sch = "schSchedule (dsScheduler st)"
  have fc: "dfFuncChains ctx f = Inr (dsChains st @ [dsBack st], ?sch)" by (simp add: dfFuncChains_def assms(1) st)
  then obtain built where b: "dsChains st @ [dsBack st] = built @ [newChain]" "\<forall>c \<in> set built. built_chain ctx c"
    "segments (map chainOps built) ?sch" by (rule dfFuncChains_result)
  have run: "ready_run isReady scheduleOp s0 (dsScheduler st)" by (rule dfLoop_run[OF st start(2) assms(3) start(3)])
  note R = sch.run_invariant[OF run I]
  have "\<not> hasUnscheduledOps (dsScheduler st)" using dfLoop_inv[OF st start(1)] by simp
  then have "set ?sch = schedulableIds (dfFunc f)" using R init by (auto simp: hasUnscheduledOps_def)
  moreover have "ordered_by (\<lambda>x. {y. dependsOn (dfFunc f) x y}) ?sch" using R init by (simp add: ordered_by_def)
  ultimately show ?thesis using fc b by (auto simp: ordered_by_def)
qed

text \<open>A function of three ops in a row.\<close>

definition dfDemo :: df_ctx where
  "dfDemo = \<lparr>dfSolver = (demoSolver [])\<lparr>scOp := \<lambda>n. \<lparr>irOperands = [if n = 0 then BlockArg 0 else OpResult (n - 1) 0],
       irUsers = [n + 1], irIsDPS = False\<rparr>\<rparr>, dfKind = \<lambda>n. TTNN_OtherOp, dfIterate = \<lambda>xs. xs\<rparr>"

definition dfDemoFunc :: df_func where
  "dfDemoFunc = \<lparr>dfFunc = \<lparr>sfOps = [exSchOp 0 TTNNDialect ComputeOp 1 [], exSchOp 1 TTNNDialect ComputeOp 1 [(0, 0)],
       exSchOp 2 TTNNDialect ComputeOp 1 [(1, 0)]], sfNested = []\<rparr>, dfIsConstEval = False\<rparr>"

lemma dfDemo_configs: "getLegalConfigs (dfSolver dfDemo) n =
    (if n = 0 then [demoConfig [1, 2] [1, 1] WidthSharded, demoConfig [1, 1] [1, 2] HeightSharded] else [demoConfig [1, 1] [1, 2] HeightSharded])"
  by (simp add: getLegalConfigs_def dfDemo_def demoSolver_def)

lemma dfDemo_inputs: "policy_inputs_ok dfDemo dfDemoFunc"
proof -
  have "case dfOutputLayout dfDemo 0 of Inl _ \<Rightarrow> False | Inr l \<Rightarrow> (case getShardSizeInBytes l of Inl _ \<Rightarrow> False | Inr n \<Rightarrow> True)"
    "case dfOutputLayout dfDemo 1 of Inl _ \<Rightarrow> False | Inr l \<Rightarrow> (case getShardSizeInBytes l of Inl _ \<Rightarrow> False | Inr n \<Rightarrow> True)"
    by code_simp+
  then have "\<exists>l n. dfOutputLayout dfDemo (if op = 0 then 0 else 1) = Inr l \<and> getShardSizeInBytes l = Inr n" for op :: nat
    by (cases "op = 0") (auto split: sum.splits)
  moreover have "dfOutputLayout dfDemo (if op = 0 then 0 else 1) = dfOutputLayout dfDemo op" for op
    by (simp add: dfOutputLayout_def dfDemo_configs)
  ultimately have "\<exists>l n. dfOutputLayout dfDemo op = Inr l \<and> getShardSizeInBytes l = Inr n" for op by metis
  then show ?thesis by (auto simp: policy_inputs_ok_def) (simp_all add: dfDemo_def demoSolver_def)
qed

theorem sharding_chains_built_witness:
  "\<exists>built schedule. dfFuncChains dfDemo dfDemoFunc = Inr (built @ [newChain], schedule) \<and> set schedule = {0, 1, 2}"
proof -
  have "case schedulerOf (dfFunc dfDemoFunc) of Inl _ \<Rightarrow> False | Inr s \<Rightarrow> True" by code_simp
  then obtain s0 where s0: "schedulerOf (dfFunc dfDemoFunc) = Inr s0" by (cases "schedulerOf (dfFunc dfDemoFunc)") auto
  have it: "iterates_sets dfDemo" by (simp add: iterates_sets_def dfDemo_def)
  have ssa: "\<forall>op \<in> set (sfOps (dfFunc dfDemoFunc)). \<forall>use \<in> set (sfOps (dfFunc dfDemoFunc)) \<union> set (sfNested (dfFunc dfDemoFunc)).
      usesFirst use op \<longrightarrow> soId op < soId use"
    by (simp add: dfDemoFunc_def exSchOp_def usesFirst_def)
  have "schedulableIds (dfFunc dfDemoFunc) = set (map soId (filter isTTSchedulableOp (sfOps (dfFunc dfDemoFunc))))"
    by (auto simp: schedulableIds_def)
  also have "\<dots> = {0, 1, 2}" by (auto simp: dfDemoFunc_def exSchOp_def isTTSchedulableOp_def isTTNNScheduleableOp_def)
  finally have "schedulableIds (dfFunc dfDemoFunc) = {0, 1, 2}" .
  with sharding_chains_built[OF s0 dfDemo_inputs it ssa] show ?thesis by auto
qed

text \<open>
  C36: The policy works on modules with exactly one function to analyse. When the chains of every function can be built
  (C35 says when), a run without a function reads the back of an empty vector; a run with one function resolves
  exactly the chains built for it and returns them; and a run with several functions first resolves the chains of the
  first one and, when they all resolve, runs into the assertion of \<open>resolveWithSolver\<close> that the chain was built: the
  empty chain left at the back of every function but the last stays in the list, in the state \<open>InBuild\<close>.
\<close>

theorem sharding_needs_one_function:
  assumes "fs = filter (\<lambda>f. \<not> dfIsConstEval f) funcs" and "mapE (dfFuncChains ctx) fs = Inr rs"
  shows "(fs = [] \<longrightarrow> dfRun ctx funcs = Inl OutOfBounds)
    \<and> (fs \<noteq> [] \<longrightarrow> (\<exists>built. fst (hd rs) = built @ [newChain]
        \<and> dfRun ctx funcs = rbind (mapE (resolveChain (dfSolver ctx)) built) (\<lambda>resolved.
            if length fs = 1 then Inr (resolved, map snd rs) else Inl (AssertFailed SiteChainState))))"
proof (cases fs)
  case Nil
  then show ?thesis using assms by (simp add: dfRun_def dfBuildChains_def dfDropEmptyBack_def)
next
  case (Cons f rest)
  obtain builts where b: "length builts = length fs" "map fst rs = map (\<lambda>built. built @ [newChain]) builts"
    using dfFuncChains_builts[OF assms(2)] by blast
  then obtain built builts' where bs: "builts = built # builts'" using Cons by (cases builts) auto
  then have hd: "fst (hd rs) = built @ [newChain]" using b(2) by (cases rs) auto
  have run: "dfRun ctx funcs = rbind (mapE (resolveChain (dfSolver ctx)) (concat (map (\<lambda>built. built @ [newChain]) (butlast builts)) @ last builts))
    (\<lambda>resolved. Inr (resolved, map snd rs))"
    using assms b(2) bs by (intro dfRun_chains) simp_all
  show ?thesis
  proof (cases builts')
    case Nil
    then have "length fs = 1" "dfRun ctx funcs = rbind (mapE (resolveChain (dfSolver ctx)) built) (\<lambda>resolved. Inr (resolved, map snd rs))"
      using b(1) bs run by simp_all
    then show ?thesis using hd Cons by auto
  next
    case (Cons second others)
    then have "length fs \<noteq> 1" using b(1) bs by simp
    moreover have "dfRun ctx funcs = rbind (mapE (resolveChain (dfSolver ctx)) built) (\<lambda>resolved. Inl (AssertFailed SiteChainState))"
      unfolding run bs Cons by (simp add: mapE_append newChain_unresolved rbind_assoc)
    ultimately show ?thesis using hd \<open>fs = f # rest\<close> by auto
  qed
qed

theorem sharding_needs_one_function_witness:
  "(\<exists>c. dfRun dfDemo [dfDemoFunc] = Inr ([c], [[0, 1, 2]])) \<and> dfRun dfDemo [dfDemoFunc, dfDemoFunc] = Inl (AssertFailed SiteChainState)"
proof -
  have c: "case dfFuncChains dfDemo dfDemoFunc of Inl e \<Rightarrow> False | Inr (cs, schedule) \<Rightarrow>
      schedule = [0, 1, 2] \<and> length cs = 2 \<and> (case mapE (resolveChain (dfSolver dfDemo)) (butlast cs) of Inl e \<Rightarrow> False | Inr r \<Rightarrow> length r = 1)"
    by code_simp
  then obtain cs r where d: "dfFuncChains dfDemo dfDemoFunc = Inr (cs, [0, 1, 2])"
    "mapE (resolveChain (dfSolver dfDemo)) (butlast cs) = Inr r" "length r = 1"
    by (auto split: sum.splits prod.splits)
  have f: "\<not> dfIsConstEval dfDemoFunc" by (simp add: dfDemoFunc_def)
  from sharding_needs_one_function[of "[dfDemoFunc]" "[dfDemoFunc]" dfDemo "[(cs, [0, 1, 2])]"] d f
  have one: "dfRun dfDemo [dfDemoFunc] = Inr (r, [[0, 1, 2]])" by auto
  from sharding_needs_one_function[of "[dfDemoFunc, dfDemoFunc]" "[dfDemoFunc, dfDemoFunc]" dfDemo "[(cs, [0, 1, 2]), (cs, [0, 1, 2])]"] d f
  have "dfRun dfDemo [dfDemoFunc, dfDemoFunc] = Inl (AssertFailed SiteChainState)" by auto
  with one d(3) show ?thesis by (auto simp: length_Suc_conv)
qed

text \<open>C37: When the policy returns, every chain has either failed or is completed, and in a completed
  chain the configs of its ops fit together: on every edge between two ops of the chain both configs
  are legal configs of their op, the pair is allowed by the backend or by a reshard recorded for the
  edge, and such a reshard is switched to the consumer's config.\<close>

theorem sharded_chains_consistent:
  assumes "dfRun ctx funcs = Inr (cs, schedules)" and "c \<in> set cs"
  shows "lcState c = Failed \<or> lcState c = Completed \<and> chain_consistent (dfSolver ctx) c"
proof -
  obtain c0 where "built_chain ctx c0" "resolveChain (dfSolver ctx) c0 = Inr c" by (rule dfRun_chains_built[OF assms])
  with resolveChain_consistent show ?thesis by blast
qed

theorem sharded_chains_consistent_witness:
  "\<exists>c schedules. dfRun dfDemo [dfDemoFunc] = Inr ([c], schedules) \<and> lcState c = Completed \<and> chainOps c = [0, 1]
    \<and> chain_consistent (dfSolver dfDemo) c"
proof -
  have "case dfRun dfDemo [dfDemoFunc] of Inl _ \<Rightarrow> False
    | Inr (cs, schedules) \<Rightarrow> map lcState cs = [Completed] \<and> map chainOps cs = [[0, 1]]" by code_simp
  then obtain c schedules where "dfRun dfDemo [dfDemoFunc] = Inr ([c], schedules)" "lcState c = Completed" "chainOps c = [0, 1]"
    by (cases "dfRun dfDemo [dfDemoFunc]") auto
  with sharded_chains_consistent[of dfDemo "[dfDemoFunc]" "[c]" schedules c] show ?thesis by auto
qed

end
