(* ===== verification/Interleaved.thy ===== *)
theory Interleaved
  imports L1Chain Scheduler
begin

text \<open>
  What the two interleaved memory layout policies (\<open>GreedyL1InterleavedPolicy\<close>,
  \<open>BFInterleavedPolicy\<close>) share: the legal configs of an op, its DRAM and its interleaved L1
  layout, and the L1 memory available to tensors.

  Hash maps and sets are iterated in an order of their own; the orders are parameters of
  the context, as are the addresses of the ops, by which \<open>std::sort\<close> orders pointers.
\<close>

record l1_usage =
  outputL1Usage :: "64 word"
  requiredL1Usage :: "64 word"

record il_ctx =
  ilOp :: "nat \<Rightarrow> ir_op"
  ilLegalConfigs :: "nat \<Rightarrow> op_config list option"
  ilUsableL1CacheSize :: "32 word"
  ilIterate :: "nat list \<Rightarrow> nat list"
  ilMapOrder :: "(nat \<times> l1_usage) list \<Rightarrow> (nat \<times> l1_usage) list"
  ilAddress :: "nat \<Rightarrow> nat"

definition ilConfigs :: "il_ctx \<Rightarrow> nat \<Rightarrow> op_config list" where
  "ilConfigs ctx op = (case ilLegalConfigs ctx op of Some configs \<Rightarrow> configs | None \<Rightarrow> [])"

definition isAnalyzable :: "il_ctx \<Rightarrow> nat \<Rightarrow> bool" where
  "isAnalyzable ctx op = (case ilLegalConfigs ctx op of Some configs \<Rightarrow> 0 < length configs | None \<Rightarrow> False)"

text \<open>\<open>std::find_if\<close> over the configs of an op.\<close>

fun findLegalLayout :: "(ttnn_layout_attr \<Rightarrow> fault + bool) \<Rightarrow> op_config list \<Rightarrow> fault + ttnn_layout_attr option" where
  "findLegalLayout p [] = Inr None"
| "findLegalLayout p (config # configs) =
     (case ocOutputLayout config of
        None \<Rightarrow> Inl NullDeref
      | Some l \<Rightarrow> rbind (p l) (\<lambda>found. if found then Inr (Some l) else findLegalLayout p configs))"

definition hasDRAMBufferTypeOp :: "il_ctx \<Rightarrow> nat \<Rightarrow> fault + bool" where
  "hasDRAMBufferTypeOp ctx op =
     rbind (findLegalLayout (\<lambda>l. Inr (hasDRAMBufferType l)) (ilConfigs ctx op)) (\<lambda>l. Inr (l \<noteq> None))"

definition getDRAMLayout :: "il_ctx \<Rightarrow> nat \<Rightarrow> fault + ttnn_layout_attr" where
  "getDRAMLayout ctx op =
     rbind (findLegalLayout (\<lambda>l. Inr (hasDRAMBufferType l)) (ilConfigs ctx op)) (\<lambda>found.
       case found of None \<Rightarrow> Inl (AssertFailed SiteOther) | Some l \<Rightarrow> Inr l)"

definition hasL1BufferTypeOp :: "il_ctx \<Rightarrow> nat \<Rightarrow> fault + bool" where
  "hasL1BufferTypeOp ctx op =
     rbind (findLegalLayout hasInterleavedL1TensorMemoryLayout (ilConfigs ctx op)) (\<lambda>l. Inr (l \<noteq> None))"

definition getL1InterleavedLayout :: "il_ctx \<Rightarrow> nat \<Rightarrow> fault + ttnn_layout_attr" where
  "getL1InterleavedLayout ctx op =
     rbind (findLegalLayout hasInterleavedL1TensorMemoryLayout (ilConfigs ctx op)) (\<lambda>found.
       case found of None \<Rightarrow> Inl (AssertFailed SiteOther) | Some l \<Rightarrow> Inr l)"

text \<open>\<open>0.75f * usable\<close> in single precision, truncated to \<open>size_t\<close>.\<close>

definition getAvailableL1CacheSize :: "il_ctx \<Rightarrow> 64 word" where
  "getAvailableL1CacheSize ctx = word_of_int (roundF32 (3 * roundF32 (uint (ilUsableL1CacheSize ctx))) div 4)"

definition layoutConfig :: "ttnn_layout_attr \<Rightarrow> op_config" where
  "layoutConfig l = \<lparr>ocOutputLayout = Some l, ocOpSpecificAttr = None\<rparr>"

text \<open>The ops that define the operands of an op; block arguments are skipped.\<close>

definition operandOps :: "il_ctx \<Rightarrow> nat \<Rightarrow> nat list" where
  "operandOps ctx op = List.map_filter definingOp (irOperands (ilOp ctx op))"

definition analyzableOperands :: "il_ctx \<Rightarrow> nat \<Rightarrow> nat list" where
  "analyzableOperands ctx op = filter (isAnalyzable ctx) (operandOps ctx op)"

text \<open>The configs \<open>filterDRAMAndL1Interleaved\<close> of \<open>MemoryLayoutAnalysis\<close> leaves.\<close>

definition filterDRAMAndL1Interleaved :: "op_config list \<Rightarrow> fault + op_config list" where
  "filterDRAMAndL1Interleaved configs =
     foldE (\<lambda>config kept.
       case ocOutputLayout config of
         None \<Rightarrow> Inl NullDeref
       | Some l \<Rightarrow> rbind (if hasDRAMBufferType l then Inr True else hasInterleavedL1TensorMemoryLayout l) (\<lambda>b.
           Inr (if b then kept @ [config] else kept))) configs []"

section \<open>Configs without null layouts\<close>

definition interleavedConfigs :: "op_config list \<Rightarrow> bool" where
  "interleavedConfigs configs \<longleftrightarrow> (\<forall>config \<in> set configs. \<exists>l. ocOutputLayout config = Some l
     \<and> (hasDRAMBufferType l \<or> hasInterleavedL1TensorMemoryLayout l = Inr True))"

lemma filterInterleaved:
  "filterDRAMAndL1Interleaved configs = Inr kept \<Longrightarrow> interleavedConfigs kept \<and> set kept \<subseteq> set configs"
proof -
  assume a: "filterDRAMAndL1Interleaved configs = Inr kept"
  define I where "I = (\<lambda>kept. interleavedConfigs kept \<and> set kept \<subseteq> set configs)"
  have "I kept"
    by (rule foldE_invariant[OF _ a[unfolded filterDRAMAndL1Interleaved_def]])
       (auto simp: I_def interleavedConfigs_def rbind_Inr_iff split: option.splits if_splits)
  then show ?thesis by (simp add: I_def)
qed

lemma findConfig_found: "findLegalLayout p configs = Inr (Some l) \<Longrightarrow> p l = Inr True"
  by (induction configs) (auto simp: rbind_Inr_iff split: option.splits if_splits)

lemma getL1_layout:
  "getL1InterleavedLayout ctx op = Inr l \<Longrightarrow> hasInterleavedL1TensorMemoryLayout l = Inr True"
  by (auto simp: getL1InterleavedLayout_def rbind_Inr_iff split: option.splits dest: findConfig_found)

lemma getDRAM_layout: "getDRAMLayout ctx op = Inr l \<Longrightarrow> hasDRAMBufferType l"
  by (auto simp: getDRAMLayout_def rbind_Inr_iff split: option.splits dest: findConfig_found)

end
