(* ===== verification/GreedyPolicy.thy ===== *)
theory GreedyPolicy
  imports Greedy "HOL-Library.AList"
begin

text \<open>
  \<open>GreedyL1InterleavedPolicy::run\<close>: ops are scheduled as they become ready, each with the greedy
  choice for itself and its operands in L1; then the schedule is built depth first from the
  result of the function, along the precedences the choices left.
\<close>

section \<open>State\<close>

record op_mem_spec =
  omConfig :: op_config
  omRequiredL1Usage :: "64 word"

record greedy_state =
  gsScheduler :: scheduler
  gsSpecs :: "(nat \<times> op_mem_spec) list"
  gsPrecedence :: "nat \<Rightarrow> nat list"

text \<open>A function: its ops, and the operands of its return-like ops in the order of the walk.\<close>

record greedy_func =
  gfFunc :: sch_func
  gfReturns :: "ir_value list list"

text \<open>\<open>OpMemSpecMap[op]\<close> of an op without an entry has a null layout.\<close>

definition specOf :: "(nat \<times> op_mem_spec) list \<Rightarrow> nat \<Rightarrow> op_mem_spec" where
  "specOf specs op = (case map_of specs op of Some spec \<Rightarrow> spec
     | None \<Rightarrow> \<lparr>omConfig = \<lparr>ocOutputLayout = None, ocOpSpecificAttr = None\<rparr>, omRequiredL1Usage = 0\<rparr>)"

definition specLayout :: "(nat \<times> op_mem_spec) list \<Rightarrow> nat \<Rightarrow> fault + ttnn_layout_attr" where
  "specLayout specs op = (case ocOutputLayout (omConfig (specOf specs op)) of Some l \<Rightarrow> Inr l | None \<Rightarrow> Inl NullDeref)"

section \<open>One op\<close>

text \<open>The op starts in DRAM, and is a candidate for L1 when it has exactly one use.\<close>

definition ownSpec :: "il_ctx \<Rightarrow> nat \<Rightarrow> (nat \<times> op_mem_spec) list \<Rightarrow> fault + (nat \<times> op_mem_spec) list \<times> (nat \<times> l1_usage) list" where
  "ownSpec ctx op specs =
     (if \<not> isAnalyzable ctx op then Inr (specs, [])
      else rbind (getDRAMLayout ctx op) (\<lambda>l.
        let specs = AList.update op \<lparr>omConfig = layoutConfig l, omRequiredL1Usage = 0\<rparr> specs
        in rbind (if length (irUsers (ilOp ctx op)) = 1 then hasL1BufferTypeOp ctx op else Inr False) (\<lambda>candidate.
           if \<not> candidate then Inr (specs, [])
           else rbind (getL1InterleavedLayout ctx op) (\<lambda>l. rbind (getOpOutputL1Usage l) (\<lambda>usage.
             Inr (specs, [(op, \<lparr>outputL1Usage = usage, requiredL1Usage = 0\<rparr>)]))))))"

text \<open>Operands in interleaved L1 are candidates; the others go into the precedence right away.\<close>

definition operandChoice ::
  "il_ctx \<Rightarrow> (nat \<Rightarrow> bool) \<Rightarrow> (nat \<times> op_mem_spec) list \<Rightarrow> nat
    \<Rightarrow> (nat \<times> l1_usage) list \<times> nat list \<Rightarrow> fault + (nat \<times> l1_usage) list \<times> nat list" where
  "operandChoice ctx schedulable specs operandOp = (\<lambda>(opsL1Usage, opsPrecedence).
     if isAnalyzable ctx operandOp
     then rbind (specLayout specs operandOp) (\<lambda>l.
          rbind (hasInterleavedL1TensorMemoryLayout l) (\<lambda>interleaved.
          if interleaved
          then rbind (getOpOutputL1Usage l) (\<lambda>usage.
            Inr (AList.update operandOp \<lparr>outputL1Usage = usage, requiredL1Usage = omRequiredL1Usage (specOf specs operandOp)\<rparr> opsL1Usage,
                 opsPrecedence))
          else Inr (opsL1Usage, opsPrecedence @ [operandOp])))
     else Inr (opsL1Usage, if schedulable operandOp then opsPrecedence @ [operandOp] else opsPrecedence))"

definition overrideConfig :: "nat \<times> op_config \<Rightarrow> (nat \<times> op_mem_spec) list \<Rightarrow> (nat \<times> op_mem_spec) list" where
  "overrideConfig = (\<lambda>(op, config) specs. AList.update op ((specOf specs op)\<lparr>omConfig := config\<rparr>) specs)"

text \<open>The memory the op needs, over its operands in their own order.\<close>

definition requiredStep ::
  "(nat \<times> op_mem_spec) list \<Rightarrow> nat \<Rightarrow> 64 word \<times> 64 word \<Rightarrow> fault + 64 word \<times> 64 word" where
  "requiredStep specs operandOp = (\<lambda>(intermediateL1Usage, intermediateRequired).
     let required = max intermediateRequired (intermediateL1Usage + omRequiredL1Usage (specOf specs operandOp))
     in rbind (specLayout specs operandOp) (\<lambda>l. rbind (getOpOutputL1Usage l) (\<lambda>usage.
        Inr (intermediateL1Usage + usage, required))))"

definition updateRequired :: "il_ctx \<Rightarrow> nat \<Rightarrow> (nat \<times> op_mem_spec) list \<Rightarrow> fault + (nat \<times> op_mem_spec) list" where
  "updateRequired ctx op specs =
     (if \<not> isAnalyzable ctx op then Inr specs
      else rbind (foldE (requiredStep specs) (analyzableOperands ctx op) (0, 0)) (\<lambda>(intermediateL1Usage, intermediateRequired).
           rbind (specLayout specs op) (\<lambda>l. rbind (getOpOutputL1Usage l) (\<lambda>usage.
           Inr (AList.update op ((specOf specs op)\<lparr>omRequiredL1Usage := max intermediateRequired (intermediateL1Usage + usage)\<rparr>) specs)))))"

definition greedyOp :: "il_ctx \<Rightarrow> (nat \<Rightarrow> bool) \<Rightarrow> nat \<Rightarrow> greedy_state \<Rightarrow> fault + greedy_state" where
  "greedyOp ctx schedulable op st =
     rbind (ownSpec ctx op (gsSpecs st)) (\<lambda>(specs, own).
     rbind (foldE (operandChoice ctx schedulable specs) (operandOps ctx op) (own, [])) (\<lambda>(opsL1Usage, opsPrecedence).
     rbind (getGreedyConfig ctx op (ilMapOrder ctx opsL1Usage)) (\<lambda>choice.
     rbind (updateRequired ctx op (fold overrideConfig (gcConfigs choice) specs)) (\<lambda>specs.
       Inr (st\<lparr>gsScheduler := scheduleOp op (gsScheduler st), gsSpecs := specs,
               gsPrecedence := (gsPrecedence st)(op := opsPrecedence @ gcPrecedence choice)\<rparr>)))))"

section \<open>The loop over the ops\<close>

text \<open>All ops that are ready at the start of a round are scheduled in it. A round without ready ops
  would repeat forever.\<close>

function greedyLoop :: "il_ctx \<Rightarrow> (nat \<Rightarrow> bool) \<Rightarrow> greedy_state \<Rightarrow> fault + greedy_state" where
  "greedyLoop ctx schedulable st =
     (if \<not> hasUnscheduledOps (gsScheduler st) then Inr st
      else rbind (foldE (greedyOp ctx schedulable) (ilIterate ctx (getScheduleableOps (gsScheduler st))) st) (\<lambda>st'.
        if length (unscheduledOps (gsScheduler st')) < length (unscheduledOps (gsScheduler st))
        then greedyLoop ctx schedulable st' else Inl Unreachable))"
  by pat_completeness auto
termination by (relation "measure (\<lambda>(ctx, schedulable, st). length (unscheduledOps (gsScheduler st)))") auto

declare greedyLoop.simps [simp del]

section \<open>The schedule\<close>

text \<open>\<open>buildSchedule\<close>: the precedents of an op that were not visited, then the op. The state is the
  set of visited ops and the schedule; the fuel bounds the depth of the recursion.\<close>

fun buildSchedule :: "(nat \<Rightarrow> nat list) \<Rightarrow> nat \<Rightarrow> nat \<Rightarrow> nat list \<times> nat list \<Rightarrow> unit + nat list \<times> nat list" where
  "buildSchedule precedence 0 op st = Inl ()"
| "buildSchedule precedence (Suc fuel) op st =
     rbind (foldE (\<lambda>precedent st. if precedent \<in> set (fst st) then Inr st else buildSchedule precedence fuel precedent st)
              (precedence op) (List.insert op (fst st), snd st)) (\<lambda>st.
       Inr (fst st, snd st @ [op]))"

text \<open>A return-like op starts from its first operand. The op that defines a block argument is null, and
  goes into the schedule as well; an op without operands is out of range.\<close>

definition constructStep ::
  "(nat \<Rightarrow> nat list) \<Rightarrow> nat \<Rightarrow> ir_value list \<Rightarrow> nat list \<times> nat option list \<Rightarrow> fault + nat list \<times> nat option list" where
  "constructStep precedence fuel operands = (\<lambda>(visited, schedule).
     rbind (at operands 0) (\<lambda>operand.
     case definingOp operand of
       None \<Rightarrow> Inr (visited, schedule @ [None])
     | Some outputOp \<Rightarrow>
         (case buildSchedule precedence fuel outputOp (visited, []) of
            Inl _ \<Rightarrow> Inl Unreachable
          | Inr (visited, ops) \<Rightarrow> Inr (visited, schedule @ map Some ops))))"

definition constructSchedule ::
  "(nat \<Rightarrow> nat list) \<Rightarrow> nat \<Rightarrow> greedy_func \<Rightarrow> nat list \<Rightarrow> fault + nat list \<times> nat option list" where
  "constructSchedule precedence fuel f visited = foldE (constructStep precedence fuel) (gfReturns f) (visited, [])"

section \<open>run\<close>

text \<open>All analysed ops of a function go into one chain, which is completed with the chosen configs.\<close>

definition greedyChain :: "il_ctx \<Rightarrow> (nat \<times> op_mem_spec) list \<Rightarrow> fault + l1_chain" where
  "greedyChain ctx specs =
     (let ops = ilIterate ctx (map fst specs)
      in rbind (foldE (\<lambda>op c. addOpL1MemSpec \<lparr>msOp = op, msTensorSplitFactor = 1,
              msConfig = \<lparr>ocOutputLayout = None, ocOpSpecificAttr = None\<rparr>\<rparr> c) ops newChain) (\<lambda>c.
         rbind (chainBuild c) (\<lambda>c. rbind (chainResolve c) (\<lambda>c.
           chainComplete (map (\<lambda>op. (op, \<lparr>ocOutputLayout = ocOutputLayout (omConfig (specOf specs op)), ocOpSpecificAttr = None\<rparr>)) ops)
             (\<lambda>_. None) c))))"

definition greedyFunc ::
  "il_ctx \<Rightarrow> nat \<Rightarrow> greedy_func \<Rightarrow> (nat \<Rightarrow> nat list) \<times> nat list \<times> l1_chain list \<times> nat option list list
    \<Rightarrow> fault + (nat \<Rightarrow> nat list) \<times> nat list \<times> l1_chain list \<times> nat option list list" where
  "greedyFunc ctx fuel f = (\<lambda>(precedence, visited, l1Chains, schedules).
     let schedulable = (\<lambda>op. op \<in> set (map soId (filter isTTSchedulableOp (sfOps (gfFunc f)))))
     in rbind (schedulerOf (gfFunc f)) (\<lambda>s.
        rbind (greedyLoop ctx schedulable \<lparr>gsScheduler = s, gsSpecs = [], gsPrecedence = precedence\<rparr>) (\<lambda>st.
        rbind (constructSchedule (gsPrecedence st) fuel f visited) (\<lambda>(visited, schedule).
        rbind (greedyChain ctx (gsSpecs st)) (\<lambda>c.
          Inr (gsPrecedence st, visited, l1Chains @ [c], schedules @ [schedule]))))))"

text \<open>Every op has a precedence once, so the recursion is at most as deep as there are ops.\<close>

definition scheduleFuel :: "greedy_func list \<Rightarrow> nat" where
  "scheduleFuel funcs = Suc (\<Sum>f\<leftarrow>funcs. length (sfOps (gfFunc f)))"

definition greedyRun :: "il_ctx \<Rightarrow> greedy_func list \<Rightarrow> fault + l1_chain list \<times> nat option list list" where
  "greedyRun ctx funcs =
     rbind (foldE (greedyFunc ctx (scheduleFuel funcs)) funcs ((\<lambda>_. []), [], [], [])) (\<lambda>(precedence, visited, l1Chains, schedules).
       Inr (l1Chains, schedules))"

end
