(* ===== verification/GreedyFacts.thy ===== *)
theory GreedyFacts
  imports Greedy SolverResolve "HOL-Library.Multiset"
begin

text \<open>
  The specification of the greedy choice on sets and orders, in natural numbers, and the lemmas
  that relate the loops of \<open>getGreedyConfig\<close> to it.
\<close>

section \<open>Orders\<close>

text \<open>The most L1 memory needed at once when ops are run in an order: each op needs its own
  required memory on top of the outputs of the ops before it.\<close>

fun peakFrom :: "(nat \<Rightarrow> nat) \<Rightarrow> (nat \<Rightarrow> nat) \<Rightarrow> nat \<Rightarrow> nat list \<Rightarrow> nat" where
  "peakFrom out req live [] = 0"
| "peakFrom out req live (op # ops) = max (live + req op) (peakFrom out req (live + out op) ops)"

abbreviation outOf :: "(nat \<times> l1_usage) list \<Rightarrow> nat \<Rightarrow> nat" where
  "outOf ops op \<equiv> unat (outputL1Usage (usageOf ops op))"

abbreviation reqOf :: "(nat \<times> l1_usage) list \<Rightarrow> nat \<Rightarrow> nat" where
  "reqOf ops op \<equiv> unat (requiredL1Usage (usageOf ops op))"

definition peakOf :: "(nat \<times> l1_usage) list \<Rightarrow> nat list \<Rightarrow> nat" where
  "peakOf ops order = peakFrom (outOf ops) (reqOf ops) 0 order"

definition orderings :: "nat set \<Rightarrow> nat list set" where
  "orderings S = {order. distinct order \<and> set order = S}"

lemma requiredByOrder_peak:
  assumes "\<forall>op \<in> set order. unat live + (\<Sum>x\<leftarrow>order. unat (outputL1Usage (usage x))) + unat (requiredL1Usage (usage op)) < 2 ^ 64"
  defines "peak \<equiv> peakFrom (\<lambda>x. unat (outputL1Usage (usage x))) (\<lambda>x. unat (requiredL1Usage (usage x))) (unat live) order"
  shows "(peak \<le> unat available \<longrightarrow> (\<exists>r. requiredByOrder usage available order live cur = Some r \<and> unat r = max (unat cur) peak))
    \<and> (\<not> peak \<le> unat available \<longrightarrow> requiredByOrder usage available order live cur = None)"
  using assms(1) unfolding peak_def
proof (induction order arbitrary: live cur)
  case (Cons op order)
  have r: "unat (live + requiredL1Usage (usage op)) = unat live + unat (requiredL1Usage (usage op))"
    by (rule iffD1[OF unat_add_lem]) (use Cons.prems in simp)
  have o: "unat (live + outputL1Usage (usage op)) = unat live + unat (outputL1Usage (usage op))"
    by (rule iffD1[OF unat_add_lem]) (use Cons.prems in simp)
  have m: "unat (max cur (live + requiredL1Usage (usage op))) = max (unat cur) (unat live + unat (requiredL1Usage (usage op)))"
    by (simp add: max_def word_le_nat_alt r)
  have IH: "\<forall>x \<in> set order. unat (live + outputL1Usage (usage op)) + (\<Sum>x\<leftarrow>order. unat (outputL1Usage (usage x))) + unat (requiredL1Usage (usage x)) < 2 ^ 64"
    using Cons.prems by (auto simp: o algebra_simps)
  show ?case
    using Cons.IH[OF IH, of "max cur (live + requiredL1Usage (usage op))"]
    by (auto simp: word_less_nat_alt r o m)
qed simp

lemma lexPermutations_set: "length xs = n \<Longrightarrow> set (lexPermutations n xs) = {ys. mset ys = mset xs}"
proof (induction n arbitrary: xs)
  case (Suc n)
  show ?case
  proof (intro set_eqI iffI)
    fix ys assume "ys \<in> set (lexPermutations (Suc n) xs)"
    then obtain x zs where x: "x \<in> set xs" "ys = x # zs" "zs \<in> set (lexPermutations n (remove1 x xs))" by auto
    with Suc show "ys \<in> {ys. mset ys = mset xs}" by (auto simp: length_remove1)
  next
    fix ys assume ys: "ys \<in> {ys. mset ys = mset xs}"
    with Suc.prems obtain y zs where y: "ys = y # zs" by (cases ys) auto
    with ys have "y \<in> set xs" by (metis list.set_intros(1) mem_Collect_eq mset_eq_setD)
    moreover from ys y have "mset xs = add_mset y (mset zs)" by simp
    then have "mset zs = mset (remove1 y xs)" by simp
    ultimately show "ys \<in> set (lexPermutations (Suc n) xs)"
      using Suc y by (auto simp: length_remove1)
  qed
qed simp

lemma ordersOf_set: "distinct ops \<Longrightarrow> set (ordersOf ctx ops) = orderings (set ops)"
proof -
  assume d: "distinct ops"
  have "set (ordersOf ctx ops) = {ys. mset ys = mset ops}"
    by (simp add: ordersOf_def lexPermutations_set)
  also have "\<dots> = orderings (set ops)"
    unfolding orderings_def
    using d set_eq_iff_mset_eq_distinct[of _ ops] mset_eq_imp_distinct_iff[of _ ops] by blast
  finally show ?thesis .
qed

lemma foldl_orderStep:
  assumes "foldl (orderStep usage available) (False, bound, []) orders = (legal, least, best)"
  shows "if \<exists>x \<in> set orders. \<exists>r. requiredByOrder usage available x 0 0 = Some r \<and> r < bound
    then legal \<and> best \<in> set orders \<and> requiredByOrder usage available best 0 0 = Some least \<and> least < bound
      \<and> (\<forall>x \<in> set orders. \<forall>r. requiredByOrder usage available x 0 0 = Some r \<longrightarrow> least \<le> r)
    else \<not> legal \<and> least = bound \<and> best = []"
  using assms
proof (induction orders arbitrary: legal least best rule: rev_induct)
  case (snoc order orders)
  obtain legal' least' best' where s: "foldl (orderStep usage available) (False, bound, []) orders = (legal', least', best')"
    by (metis prod_cases3)
  show ?case
  proof (cases "requiredByOrder usage available order 0 0")
    case None
    with snoc.prems s have "(legal', least', best') = (legal, least, best)" by (simp add: orderStep_def)
    then show ?thesis using snoc.IH[OF s] None by (auto split: if_splits)
  next
    case (Some r)
    show ?thesis
    proof (cases "r < least'")
      case True
      with snoc.prems s Some have e: "legal" "least = r" "best = order" by (simp_all add: orderStep_def)
      have "least' \<le> bound" using snoc.IH[OF s] by (auto split: if_splits)
      with True have "r < bound" by simp
      then show ?thesis using snoc.IH[OF s] Some True e by (force split: if_splits)
    next
      case False
      with snoc.prems s Some have e: "(legal', least', best') = (legal, least, best)" by (simp add: orderStep_def)
      then show ?thesis using snoc.IH[OF s] Some False by (auto split: if_splits)
    qed
  qed
qed simp

section \<open>Subsets\<close>

text \<open>The ops a mask chooses; the config every op gets when the ops in \<open>S\<close> are put in L1.\<close>

definition chosenBy :: "nat \<Rightarrow> (nat \<times> l1_usage) list \<Rightarrow> nat set" where
  "chosenBy m ops = {fst (ops ! i) | i. i < length ops \<and> bit m i}"

lemma chosenBy_bit:
  "distinct (map fst ops) \<Longrightarrow> i < length ops \<Longrightarrow> bit m i \<longleftrightarrow> fst (ops ! i) \<in> chosenBy m ops"
  by (auto simp: chosenBy_def distinct_conv_nth)

lemma chosenBy_subsets:
  assumes "distinct (map fst ops)"
  shows "(\<lambda>m. chosenBy m ops) ` {..< 2 ^ length ops} = Pow (fst ` set ops)"
proof (intro equalityI subsetI)
  fix S assume "S \<in> (\<lambda>m. chosenBy m ops) ` {..< 2 ^ length ops}"
  then show "S \<in> Pow (fst ` set ops)" by (auto simp: chosenBy_def)
next
  fix S assume S: "S \<in> Pow (fst ` set ops)"
  define bs where "bs = map (\<lambda>(op, u). op \<in> S) ops"
  define m :: nat where "m = horner_sum of_bool 2 bs"
  have b: "bit m i \<longleftrightarrow> i < length ops \<and> fst (ops ! i) \<in> S" for i
    by (auto simp: m_def bs_def bit_horner_sum_bit_iff split_beta)
  have "m < 2 ^ length bs" unfolding m_def by (rule horner_sum_of_bool_2_less)
  moreover have "chosenBy m ops = S"
  proof (rule set_eqI)
    fix x
    have "x \<in> S \<Longrightarrow> \<exists>i < length ops. fst (ops ! i) = x" using S by (force simp: in_set_conv_nth)
    then show "x \<in> chosenBy m ops \<longleftrightarrow> x \<in> S" by (auto simp: chosenBy_def b)
  qed
  ultimately show "S \<in> (\<lambda>m. chosenBy m ops) ` {..< 2 ^ length ops}" by (auto simp: bs_def)
qed

definition choiceConfigs ::
  "(nat \<Rightarrow> ttnn_layout_attr) \<Rightarrow> (nat \<Rightarrow> ttnn_layout_attr) \<Rightarrow> nat set \<Rightarrow> (nat \<times> l1_usage) list \<Rightarrow> (nat \<times> op_config) list" where
  "choiceConfigs l1 dram S ops = map (\<lambda>(op, u). (op, layoutConfig (if op \<in> S then l1 op else dram op))) ops"

lemma foldE_maskStep:
  assumes "\<forall>op \<in> fst ` set ops. getL1InterleavedLayout ctx op = Inr (l1 op) \<and> getDRAMLayout ctx op = Inr (dram op)"
    and "\<forall>i < length ops. bit m (k + i) \<longleftrightarrow> fst (ops ! i) \<in> S" and "mkBitIndex st = k"
  shows "foldE (maskStep ctx baseOp m) ops st = Inr \<lparr>mkBitIndex = k + length ops,
    mkUsage = mkUsage st + (\<Sum>(op, u)\<leftarrow>filter (\<lambda>x. fst x \<in> S) ops. outputL1Usage u),
    mkConfigs = mkConfigs st @ choiceConfigs l1 dram S ops,
    mkL1 = mkL1 st @ filter (\<lambda>op. op \<in> S \<and> op \<noteq> baseOp) (map fst ops),
    mkDram = mkDram st @ filter (\<lambda>op. op \<notin> S \<and> op \<noteq> baseOp) (map fst ops)\<rparr>"
  using assms
proof (induction ops arbitrary: k st)
  case Nil
  then show ?case by (cases st) (simp add: choiceConfigs_def)
next
  case (Cons x ops)
  obtain op u where x: "x = (op, u)" by (cases x)
  have b: "bit m k \<longleftrightarrow> op \<in> S" using Cons.prems(2) x by (auto dest!: spec[of _ 0])
  have IH: "\<forall>i < length ops. bit m (Suc k + i) \<longleftrightarrow> fst (ops ! i) \<in> S"
  proof (intro allI impI)
    fix i assume "i < length ops"
    then show "bit m (Suc k + i) \<longleftrightarrow> fst (ops ! i) \<in> S" using spec[OF Cons.prems(2), of "Suc i"] by simp
  qed
  have l: "getL1InterleavedLayout ctx op = Inr (l1 op)" "getDRAMLayout ctx op = Inr (dram op)"
    using Cons.prems(1) x by auto
  define st1 where "st1 = projr (maskStep ctx baseOp m x st)"
  have st1: "maskStep ctx baseOp m x st = Inr st1" "mkBitIndex st1 = Suc k"
    "mkUsage st1 = mkUsage st + (if op \<in> S then outputL1Usage u else 0)"
    "mkConfigs st1 = mkConfigs st @ [(op, layoutConfig (if op \<in> S then l1 op else dram op))]"
    "mkL1 st1 = mkL1 st @ (if op \<in> S \<and> op \<noteq> baseOp then [op] else [])"
    "mkDram st1 = mkDram st @ (if op \<notin> S \<and> op \<noteq> baseOp then [op] else [])"
    using Cons.prems(3) b l
    by (cases "op \<in> S"; cases "op = baseOp"; simp add: st1_def maskStep_def x)+
  have "foldE (maskStep ctx baseOp m) ops st1 = Inr \<lparr>mkBitIndex = Suc k + length ops,
    mkUsage = mkUsage st1 + (\<Sum>(op, u)\<leftarrow>filter (\<lambda>x. fst x \<in> S) ops. outputL1Usage u),
    mkConfigs = mkConfigs st1 @ choiceConfigs l1 dram S ops,
    mkL1 = mkL1 st1 @ filter (\<lambda>op. op \<in> S \<and> op \<noteq> baseOp) (map fst ops),
    mkDram = mkDram st1 @ filter (\<lambda>op. op \<notin> S \<and> op \<noteq> baseOp) (map fst ops)\<rparr>"
    by (rule Cons.IH[OF _ IH st1(2)]) (use Cons.prems(1) in simp)
  with st1(1) have "foldE (maskStep ctx baseOp m) (x # ops) st = Inr \<lparr>mkBitIndex = Suc k + length ops,
    mkUsage = mkUsage st1 + (\<Sum>(op, u)\<leftarrow>filter (\<lambda>x. fst x \<in> S) ops. outputL1Usage u),
    mkConfigs = mkConfigs st1 @ choiceConfigs l1 dram S ops,
    mkL1 = mkL1 st1 @ filter (\<lambda>op. op \<in> S \<and> op \<noteq> baseOp) (map fst ops),
    mkDram = mkDram st1 @ filter (\<lambda>op. op \<notin> S \<and> op \<noteq> baseOp) (map fst ops)\<rparr>" by simp
  then show ?case unfolding st1(3-6) by (cases "op \<in> S"; cases "op = baseOp"; simp add: x choiceConfigs_def)
qed

section \<open>The largest subset\<close>

text \<open>A loop that keeps the first strictly larger candidate ends with a largest one.\<close>

lemma foldE_largest:
  fixes u :: "nat \<Rightarrow> 64 word"
  assumes "\<And>m best rest. m \<in> set ms \<Longrightarrow> step m (best, rest) = Inr (if fits m \<and> best < u m then (u m, val m) else (best, rest))"
  shows "\<exists>best rest. foldE step ms (0, d) = Inr (best, rest)
    \<and> (if \<exists>m \<in> set ms. fits m \<and> 0 < u m
        then \<exists>m \<in> set ms. fits m \<and> 0 < u m \<and> best = u m \<and> rest = val m \<and> (\<forall>m' \<in> set ms. fits m' \<longrightarrow> u m' \<le> u m)
        else best = 0 \<and> rest = d)"
  using assms
proof (induction ms rule: rev_induct)
  case (snoc x ms)
  have p: "step m (best, rest) = Inr (if fits m \<and> best < u m then (u m, val m) else (best, rest))"
    if "m \<in> set ms" for m best rest using snoc.prems[of m] that by simp
  obtain best rest where I: "foldE step ms (0, d) = Inr (best, rest)"
    "if \<exists>m \<in> set ms. fits m \<and> 0 < u m
      then \<exists>m \<in> set ms. fits m \<and> 0 < u m \<and> best = u m \<and> rest = val m \<and> (\<forall>m' \<in> set ms. fits m' \<longrightarrow> u m' \<le> u m)
      else best = 0 \<and> rest = d"
    by (atomize_elim, rule snoc.IH, rule p)
  have f: "foldE step (ms @ [x]) (0, d) = Inr (if fits x \<and> best < u x then (u x, val x) else (best, rest))"
    using snoc.prems[of x best rest] by (simp add: foldE_append I(1))
  show ?case
  proof (cases "fits x \<and> best < u x")
    case True
    have pos: "0 < u x" using True le_less_trans[OF word_zero_le] by blast
    have "u m' \<le> u x" if m: "m' \<in> set ms" "fits m'" for m'
    proof (cases "0 < u m'")
      case True
      with m I(2) have "u m' \<le> best" by (auto split: if_splits)
      then show ?thesis using \<open>fits x \<and> best < u x\<close> le_less_trans[of "u m'" best "u x"] by (simp add: less_imp_le)
    qed (use pos in simp)
    with True f pos show ?thesis by auto
  next
    case False
    show ?thesis
    proof (cases "\<exists>m \<in> set ms. fits m \<and> 0 < u m")
      case True
      with I(2) obtain m where "m \<in> set ms" "fits m" "0 < u m" "best = u m" "rest = val m"
        "\<forall>m' \<in> set ms. fits m' \<longrightarrow> u m' \<le> u m" by auto
      with False f show ?thesis by (auto simp: not_less)
    next
      case no: False
      with I(2) have "best = 0" "rest = d" by auto
      with no False f show ?thesis by auto
    qed
  qed
qed simp

section \<open>The specification\<close>

text \<open>The ops of \<open>S\<close> fit in L1 when their outputs do, and the operands among them can be run in an
  order that never needs all of the available memory. A best order needs least.\<close>

definition fitsIn :: "il_ctx \<Rightarrow> nat \<Rightarrow> (nat \<times> l1_usage) list \<Rightarrow> nat set \<Rightarrow> bool" where
  "fitsIn ctx baseOp ops S \<longleftrightarrow> (\<Sum>op \<in> S. outOf ops op) \<le> unat (getAvailableL1CacheSize ctx)
     \<and> (\<exists>order \<in> orderings (S - {baseOp}). peakOf ops order < unat (getAvailableL1CacheSize ctx))"

definition bestOrder :: "(nat \<times> l1_usage) list \<Rightarrow> nat set \<Rightarrow> nat list \<Rightarrow> bool" where
  "bestOrder ops S order \<longleftrightarrow> order \<in> orderings S \<and> (\<forall>order' \<in> orderings S. peakOf ops order \<le> peakOf ops order')"

text \<open>The sizes are far from \<open>2^64\<close>, and every op has both layouts.\<close>

definition smallUsages :: "(nat \<times> l1_usage) list \<Rightarrow> bool" where
  "smallUsages ops \<longleftrightarrow> (\<forall>op \<in> fst ` set ops. (\<Sum>op \<in> fst ` set ops. outOf ops op) + reqOf ops op < 2 ^ 64)"

definition hasBothLayouts :: "il_ctx \<Rightarrow> (nat \<Rightarrow> ttnn_layout_attr) \<Rightarrow> (nat \<Rightarrow> ttnn_layout_attr) \<Rightarrow> nat set \<Rightarrow> bool" where
  "hasBothLayouts ctx l1 dram S \<longleftrightarrow>
     (\<forall>op \<in> S. getL1InterleavedLayout ctx op = Inr (l1 op) \<and> getDRAMLayout ctx op = Inr (dram op))"

section \<open>The code meets it\<close>

lemma unat_sum_list: "(\<Sum>x\<leftarrow>xs. unat (f x)) < 2 ^ 64 \<Longrightarrow> unat (\<Sum>x\<leftarrow>xs. (f x :: 64 word)) = (\<Sum>x\<leftarrow>xs. unat (f x))"
proof (induction xs)
  case (Cons x xs)
  then have "unat (f x) + unat (\<Sum>x\<leftarrow>xs. f x) < 2 ^ LENGTH(64)" by simp
  then have "unat (f x + (\<Sum>x\<leftarrow>xs. f x)) = unat (f x) + unat (\<Sum>x\<leftarrow>xs. f x)" by (rule iffD1[OF unat_add_lem])
  with Cons show ?case by simp
qed simp

lemma maskUsage_sum:
  assumes "distinct (map fst ops)" and "S \<subseteq> fst ` set ops" and "smallUsages ops"
  shows "unat (\<Sum>(op, u)\<leftarrow>filter (\<lambda>x. fst x \<in> S) ops. outputL1Usage u) = (\<Sum>op \<in> S. outOf ops op)"
proof (cases "S = {}")
  case False
  have "(\<Sum>(op, u)\<leftarrow>filter (\<lambda>x. fst x \<in> S) ops. unat (outputL1Usage u))
      = (\<Sum>op\<leftarrow>map fst (filter (\<lambda>x. fst x \<in> S) ops). outOf ops op)"
    using assms(1) by (auto simp: usageOf_def intro!: arg_cong[where f = sum_list])
  also have "\<dots> = (\<Sum>op \<in> set (map fst (filter (\<lambda>x. fst x \<in> S) ops)). outOf ops op)"
    by (rule sum_list_distinct_conv_sum_set) (simp add: assms(1) distinct_map_filter)
  also have "set (map fst (filter (\<lambda>x. fst x \<in> S) ops)) = S" using assms(2) by force
  finally have e: "(\<Sum>(op, u)\<leftarrow>filter (\<lambda>x. fst x \<in> S) ops. unat (outputL1Usage u)) = (\<Sum>op \<in> S. outOf ops op)" .
  have "(\<Sum>op \<in> S. outOf ops op) \<le> (\<Sum>op \<in> fst ` set ops. outOf ops op)"
    by (rule sum_mono2) (use assms(2) in auto)
  moreover from False assms(2) obtain op where "op \<in> fst ` set ops" by blast
  then have "(\<Sum>op \<in> fst ` set ops. outOf ops op) < 2 ^ 64" using assms(3) by (force simp: smallUsages_def)
  ultimately show ?thesis using e unat_sum_list[of "\<lambda>x. outputL1Usage (snd x)" "filter (\<lambda>x. fst x \<in> S) ops"]
    by (simp add: split_def)
qed simp

lemma requiredByOrder_spec:
  assumes "smallUsages ops" and "order \<in> orderings S" and "S \<subseteq> fst ` set ops"
  shows "(\<forall>r. requiredByOrder (usageOf ops) available order 0 0 = Some r \<longrightarrow> unat r = peakOf ops order)
    \<and> (peakOf ops order \<le> unat available \<longleftrightarrow> requiredByOrder (usageOf ops) available order 0 0 \<noteq> None)"
proof -
  have o: "distinct order" "set order \<subseteq> fst ` set ops" using assms(2,3) by (auto simp: orderings_def)
  then have "(\<Sum>x\<leftarrow>order. outOf ops x) \<le> (\<Sum>op \<in> fst ` set ops. outOf ops op)"
    by (simp add: sum_list_distinct_conv_sum_set sum_mono2)
  then have "\<forall>op \<in> set order. unat (0 :: 64 word) + (\<Sum>x\<leftarrow>order. outOf ops x) + reqOf ops op < 2 ^ 64"
    using assms(1) o(2) by (fastforce simp: smallUsages_def)
  from requiredByOrder_peak[OF this, of available 0] show ?thesis by (auto simp: peakOf_def)
qed

lemma optimalOrder_spec:
  assumes "smallUsages ops" and "distinct os" and "set os \<subseteq> fst ` set ops"
    and "optimalOrder ctx (usageOf ops) os = (legal, least, best)"
  shows "legal \<longleftrightarrow> (\<exists>order \<in> orderings (set os). peakOf ops order < unat (getAvailableL1CacheSize ctx))"
    and "legal \<Longrightarrow> bestOrder ops (set os) best"
proof -
  define A where "A = getAvailableL1CacheSize ctx"
  define R where "R = (\<lambda>order. requiredByOrder (usageOf ops) A order 0 0)"
  note orders = ordersOf_set[OF assms(2), of ctx]
  have R: "(\<exists>r. R order = Some r \<and> r < A) \<longleftrightarrow> peakOf ops order < unat A" "R order = Some r \<Longrightarrow> unat r = peakOf ops order"
    "R order = None \<longleftrightarrow> unat A < peakOf ops order"
    if "order \<in> orderings (set os)" for order r
    using requiredByOrder_spec[OF assms(1) that assms(3), of A]
    by (auto simp: R_def word_less_nat_alt not_le)
  have f: "if \<exists>x \<in> orderings (set os). \<exists>r. R x = Some r \<and> r < A
    then legal \<and> best \<in> orderings (set os) \<and> R best = Some least \<and> least < A
      \<and> (\<forall>x \<in> orderings (set os). \<forall>r. R x = Some r \<longrightarrow> least \<le> r)
    else \<not> legal \<and> least = A \<and> best = []"
    using foldl_orderStep[OF assms(4)[unfolded optimalOrder_def]] unfolding R_def A_def orders .
  show l: "legal \<longleftrightarrow> (\<exists>order \<in> orderings (set os). peakOf ops order < unat (getAvailableL1CacheSize ctx))"
    using f R(1) unfolding A_def[symmetric] by (auto split: if_splits)
  show "bestOrder ops (set os) best" if legal
  proof -
    from f that have b: "best \<in> orderings (set os)" "R best = Some least" "least < A"
      "\<forall>x \<in> orderings (set os). \<forall>r. R x = Some r \<longrightarrow> least \<le> r" by (auto split: if_splits)
    have "peakOf ops best \<le> peakOf ops order" if o: "order \<in> orderings (set os)" for order
    proof (cases "R order")
      case None
      with R(3)[OF o] b R(2)[OF b(1,2)] show ?thesis by (simp add: word_less_nat_alt)
    next
      case (Some r)
      with b(4) o have "least \<le> r" by blast
      with R(2)[OF o Some] R(2)[OF b(1,2)] show ?thesis by (simp add: word_le_nat_alt)
    qed
    with b(1) show ?thesis by (simp add: bestOrder_def)
  qed
qed

text \<open>The result of the loop over the masks, for the subset \<open>S\<close>.\<close>

definition greedyVal ::
  "il_ctx \<Rightarrow> nat \<Rightarrow> (nat \<times> l1_usage) list \<Rightarrow> (nat \<Rightarrow> ttnn_layout_attr) \<Rightarrow> (nat \<Rightarrow> ttnn_layout_attr) \<Rightarrow> nat set
    \<Rightarrow> (nat \<times> op_config) list \<times> nat list" where
  "greedyVal ctx baseOp ops l1 dram S =
     (choiceConfigs l1 dram S ops,
      filter (\<lambda>op. op \<notin> S \<and> op \<noteq> baseOp) (map fst ops)
        @ snd (snd (optimalOrder ctx (usageOf ops) (filter (\<lambda>op. op \<in> S \<and> op \<noteq> baseOp) (map fst ops)))))"

lemma greedyStep_eq:
  assumes "distinct (map fst ops)" and "smallUsages ops" and "hasBothLayouts ctx l1 dram (fst ` set ops)"
  defines "u \<equiv> \<lambda>m. \<Sum>(op, u)\<leftarrow>filter (\<lambda>x. fst x \<in> chosenBy m ops) ops. outputL1Usage u"
  shows "greedyStep ctx baseOp ops m (best, rest) = Inr (if fitsIn ctx baseOp ops (chosenBy m ops) \<and> best < u m
    then (u m, greedyVal ctx baseOp ops l1 dram (chosenBy m ops)) else (best, rest))"
    and "unat (u m) = (\<Sum>op \<in> chosenBy m ops. outOf ops op)"
proof -
  define S where "S = chosenBy m ops"
  define os where "os = filter (\<lambda>op. op \<in> S \<and> op \<noteq> baseOp) (map fst ops)"
  have S: "S \<subseteq> fst ` set ops" by (auto simp: S_def chosenBy_def)
  have os: "distinct os" "set os \<subseteq> fst ` set ops" "set os = S - {baseOp}"
    using S assms(1) by (auto simp: os_def)
  have b: "\<forall>i < length ops. bit m (0 + i) \<longleftrightarrow> fst (ops ! i) \<in> S"
    using chosenBy_bit[OF assms(1)] by (simp add: S_def)
  have st: "maskState ctx baseOp m ops = Inr \<lparr>mkBitIndex = length ops, mkUsage = u m,
    mkConfigs = choiceConfigs l1 dram S ops, mkL1 = os, mkDram = filter (\<lambda>op. op \<notin> S \<and> op \<noteq> baseOp) (map fst ops)\<rparr>"
    using foldE_maskStep[OF assms(3)[unfolded hasBothLayouts_def] b, of
      "\<lparr>mkBitIndex = 0, mkUsage = 0, mkConfigs = [], mkL1 = [], mkDram = []\<rparr>" baseOp]
    by (simp add: maskState_def u_def S_def os_def)
  show uu: "unat (u m) = (\<Sum>op \<in> chosenBy m ops. outOf ops op)"
    using maskUsage_sum[OF assms(1) S assms(2)] by (simp add: u_def S_def)
  obtain legal least order where o: "optimalOrder ctx (usageOf ops) os = (legal, least, order)" by (metis prod_cases3)
  have legal: "legal \<and> u m \<le> getAvailableL1CacheSize ctx \<longleftrightarrow> fitsIn ctx baseOp ops S"
    using optimalOrder_spec(1)[OF assms(2) os(1,2) o] uu by (auto simp: fitsIn_def os(3) S_def word_le_nat_alt)
  show "greedyStep ctx baseOp ops m (best, rest) = Inr (if fitsIn ctx baseOp ops (chosenBy m ops) \<and> best < u m
    then (u m, greedyVal ctx baseOp ops l1 dram (chosenBy m ops)) else (best, rest))"
    using legal by (cases rest) (auto simp: greedyStep_def st o S_def[symmetric] greedyVal_def os_def[symmetric])
qed

lemma greedyVal_best:
  assumes "distinct (map fst ops)" and "smallUsages ops" and "S \<subseteq> fst ` set ops" and "fitsIn ctx baseOp ops S"
  shows "\<exists>order. bestOrder ops (S - {baseOp}) order \<and> greedyVal ctx baseOp ops l1 dram S =
    (choiceConfigs l1 dram S ops, filter (\<lambda>op. op \<notin> S \<and> op \<noteq> baseOp) (map fst ops) @ order)"
proof -
  define os where "os = filter (\<lambda>op. op \<in> S \<and> op \<noteq> baseOp) (map fst ops)"
  have os: "distinct os" "set os \<subseteq> fst ` set ops" "set os = S - {baseOp}"
    using assms(1,3) by (auto simp: os_def)
  obtain legal least order where o: "optimalOrder ctx (usageOf ops) os = (legal, least, order)" by (metis prod_cases3)
  have legal using optimalOrder_spec(1)[OF assms(2) os(1,2) o] assms(4) by (auto simp: fitsIn_def os(3))
  from optimalOrder_spec(2)[OF assms(2) os(1,2) o this] show ?thesis
    by (auto simp: greedyVal_def os_def[symmetric] o os(3))
qed

text \<open>
  C39: The greedy policy chooses optimally. When there are at most 30 candidates, each with a
  DRAM and an interleaved L1 layout in its legal configs, \<open>getGreedyConfig\<close> returns, if some
  subset of the candidates with L1 outputs fits, a subset that fits and has the largest
  outputs of all that fit: its ops get their L1 layout, the other candidates their DRAM layout,
  and the precedence lists the DRAM operands, then the L1 operands in an order that needs the
  least L1 memory. If no subset with outputs fits, it returns no configs and no precedence.
\<close>

theorem greedy_choice_optimal:
  assumes "distinct (map fst ops)" and "length ops \<le> 30" and "smallUsages ops"
    and "hasBothLayouts ctx l1 dram (fst ` set ops)"
  shows "\<exists>configs precedence.
    getGreedyConfig ctx baseOp ops = Inr \<lparr>gcBaseOp = baseOp, gcConfigs = configs, gcPrecedence = precedence\<rparr>
    \<and> (if \<exists>S \<subseteq> fst ` set ops. fitsIn ctx baseOp ops S \<and> 0 < (\<Sum>op \<in> S. outOf ops op)
       then \<exists>S order. S \<subseteq> fst ` set ops \<and> fitsIn ctx baseOp ops S
         \<and> (\<forall>T \<subseteq> fst ` set ops. fitsIn ctx baseOp ops T \<longrightarrow> (\<Sum>op \<in> T. outOf ops op) \<le> (\<Sum>op \<in> S. outOf ops op))
         \<and> bestOrder ops (S - {baseOp}) order \<and> configs = choiceConfigs l1 dram S ops
         \<and> precedence = filter (\<lambda>op. op \<notin> S \<and> op \<noteq> baseOp) (map fst ops) @ order
       else configs = [] \<and> precedence = [])"
proof -
  define u where "u = (\<lambda>m. \<Sum>(op, u)\<leftarrow>filter (\<lambda>x. fst x \<in> chosenBy m ops) ops. outputL1Usage u)"
  define val where "val = (\<lambda>m. greedyVal ctx baseOp ops l1 dram (chosenBy m ops))"
  define fits where "fits = (\<lambda>m. fitsIn ctx baseOp ops (chosenBy m ops))"
  define ms where "ms = [0..<2 ^ length ops]"
  note step = greedyStep_eq[OF assms(1,3,4)]
  have uu: "unat (u m) = (\<Sum>op \<in> chosenBy m ops. outOf ops op)" for m unfolding u_def by (rule step(2))
  have pow: "Pow (fst ` set ops) = (\<lambda>m. chosenBy m ops) ` set ms"
    using chosenBy_subsets[OF assms(1)] by (simp add: ms_def atLeast0LessThan)
  have subsets: "(\<exists>S \<subseteq> fst ` set ops. P S) \<longleftrightarrow> (\<exists>m \<in> set ms. P (chosenBy m ops))"
    "(\<forall>S \<subseteq> fst ` set ops. P S) \<longleftrightarrow> (\<forall>m \<in> set ms. P (chosenBy m ops))" for P
    unfolding Pow_iff[symmetric] pow by auto
  obtain best rest where r: "foldE (greedyStep ctx baseOp ops) ms (0, [], []) = Inr (best, rest)"
    "if \<exists>m \<in> set ms. fits m \<and> 0 < u m
     then \<exists>m \<in> set ms. fits m \<and> 0 < u m \<and> best = u m \<and> rest = val m \<and> (\<forall>m' \<in> set ms. fits m' \<longrightarrow> u m' \<le> u m)
     else best = 0 \<and> rest = ([], [])"
    by (atomize_elim, rule foldE_largest) (simp add: step(1) u_def val_def fits_def)
  have run: "getGreedyConfig ctx baseOp ops = Inr \<lparr>gcBaseOp = baseOp, gcConfigs = fst rest, gcPrecedence = snd rest\<rparr>"
    using assms(2) r(1) by (cases rest) (simp add: getGreedyConfig_def numOfMasks_def ms_def)
  have pos: "0 < u m \<longleftrightarrow> 0 < (\<Sum>op \<in> chosenBy m ops. outOf ops op)" for m
    by (simp add: uu[symmetric] word_less_nat_alt)
  show ?thesis
  proof (cases "\<exists>m \<in> set ms. fits m \<and> 0 < u m")
    case True
    with r(2) obtain m where m: "m \<in> set ms" "fits m" "rest = val m" "\<forall>m' \<in> set ms. fits m' \<longrightarrow> u m' \<le> u m" by auto
    define S where "S = chosenBy m ops"
    have S: "S \<subseteq> fst ` set ops" "fitsIn ctx baseOp ops S" using m(2) by (auto simp: S_def chosenBy_def fits_def)
    have "\<forall>T \<subseteq> fst ` set ops. fitsIn ctx baseOp ops T \<longrightarrow> (\<Sum>op \<in> T. outOf ops op) \<le> (\<Sum>op \<in> S. outOf ops op)"
      unfolding subsets using m(4) by (simp add: fits_def S_def word_le_nat_alt uu)
    moreover have "\<exists>S \<subseteq> fst ` set ops. fitsIn ctx baseOp ops S \<and> 0 < (\<Sum>op \<in> S. outOf ops op)"
      unfolding subsets using True by (simp add: fits_def pos)
    moreover from greedyVal_best[OF assms(1,3) S] obtain order where "bestOrder ops (S - {baseOp}) order"
      "rest = (choiceConfigs l1 dram S ops, filter (\<lambda>op. op \<notin> S \<and> op \<noteq> baseOp) (map fst ops) @ order)"
      by (auto simp: m(3) val_def S_def[symmetric])
    ultimately show ?thesis using S run by auto
  next
    case False
    then have "\<not> (\<exists>S \<subseteq> fst ` set ops. fitsIn ctx baseOp ops S \<and> 0 < (\<Sum>op \<in> S. outOf ops op))"
      unfolding subsets by (simp add: fits_def pos)
    with False r(2) run show ?thesis by auto
  qed
qed

text \<open>Two operands and the op itself; running op 0 before op 1 needs 100 bytes, the other order 130 of
  the 120 available.\<close>

definition greedyDemo :: il_ctx where
  "greedyDemo = \<lparr>ilOp = (\<lambda>n. \<lparr>irOperands = [OpResult 0 0, OpResult 1 0], irUsers = [3], irIsDPS = False\<rparr>),
     ilLegalConfigs = (\<lambda>n. Some [demoConfig [1, 1] [1, 2] Interleaved,
       layoutConfig ((demoLayout [1, 1] [1, 2] Interleaved)\<lparr>getMemref := \<lparr>memrefShape = [1, 2],
         memrefElem = TileElem (defaultTile BFloat16), memrefSpace = DRAM\<rparr>\<rparr>)]),
     ilUsableL1CacheSize = 160, ilIterate = (\<lambda>xs. xs), ilMapOrder = (\<lambda>xs. xs), ilAddress = (\<lambda>n. 10 - n)\<rparr>"

definition greedyDemoOps :: "(nat \<times> l1_usage) list" where
  "greedyDemoOps = [(0, \<lparr>outputL1Usage = 40, requiredL1Usage = 100\<rparr>), (1, \<lparr>outputL1Usage = 30, requiredL1Usage = 50\<rparr>),
     (2, \<lparr>outputL1Usage = 50, requiredL1Usage = 0\<rparr>)]"

theorem greedy_choice_optimal_witness:
  "\<exists>configs precedence. getGreedyConfig greedyDemo 2 greedyDemoOps
    = Inr \<lparr>gcBaseOp = 2, gcConfigs = configs, gcPrecedence = precedence\<rparr> \<and> configs \<noteq> []"
proof -
  define l1 where "l1 = (\<lambda>op. projr (getL1InterleavedLayout greedyDemo op))"
  define dram where "dram = (\<lambda>op. projr (getDRAMLayout greedyDemo op))"
  have "case getL1InterleavedLayout greedyDemo 0 of Inl _ \<Rightarrow> False | Inr _ \<Rightarrow> True"
    "case getDRAMLayout greedyDemo 0 of Inl _ \<Rightarrow> False | Inr _ \<Rightarrow> True" by code_simp+
  moreover have "getL1InterleavedLayout greedyDemo op = getL1InterleavedLayout greedyDemo 0"
    "getDRAMLayout greedyDemo op = getDRAMLayout greedyDemo 0" for op
    by (simp_all add: getL1InterleavedLayout_def getDRAMLayout_def ilConfigs_def greedyDemo_def)
  ultimately have "getL1InterleavedLayout greedyDemo op = Inr (l1 op)" "getDRAMLayout greedyDemo op = Inr (dram op)" for op
    by (auto simp: l1_def dram_def split: sum.splits)
  then have layouts: "hasBothLayouts greedyDemo l1 dram (fst ` set greedyDemoOps)" by (simp add: hasBothLayouts_def)
  have small: "smallUsages greedyDemoOps" by (simp add: smallUsages_def greedyDemoOps_def usageOf_def)
  have "unat (getAvailableL1CacheSize greedyDemo) = 120" by code_simp
  moreover have "orderings {} = {[]}" by (auto simp: orderings_def)
  ultimately have "fitsIn greedyDemo 2 greedyDemoOps {2}"
    by (simp add: fitsIn_def greedyDemoOps_def usageOf_def peakOf_def)
  then have "\<exists>S \<subseteq> fst ` set greedyDemoOps. fitsIn greedyDemo 2 greedyDemoOps S \<and> 0 < (\<Sum>op \<in> S. outOf greedyDemoOps op)"
    by (intro exI[of _ "{2}"]) (simp add: greedyDemoOps_def usageOf_def)
  moreover have "distinct (map fst greedyDemoOps)" "length greedyDemoOps \<le> 30" "choiceConfigs l1 dram S greedyDemoOps \<noteq> []" for S
    by (simp_all add: greedyDemoOps_def choiceConfigs_def)
  ultimately show ?thesis using greedy_choice_optimal[OF _ _ small layouts, of 2] by auto
qed

end
