(* ===== verification/GreedySchedule.thy ===== *)
theory GreedySchedule
  imports GreedyPolicy GreedyFacts
begin

text \<open>
  The schedule of the greedy policy: along precedences without cycles, \<open>buildSchedule\<close> is a
  depth-first search that lists every op once, after its precedents; and the precedences the
  policy records are operands, so there are no cycles.
\<close>

section \<open>Depth-first search\<close>

text \<open>A partial schedule: distinct, every op after its precedents; the visited ops are those of the
  schedule and those on the stack of the search.\<close>

definition precedentsFirst :: "(nat \<Rightarrow> nat list) \<Rightarrow> nat list \<Rightarrow> bool" where
  "precedentsFirst precedence ops \<longleftrightarrow> distinct ops \<and> (\<forall>i < length ops. set (precedence (ops ! i)) \<subseteq> set (take i ops))"

definition searchInv :: "(nat \<Rightarrow> nat list) \<Rightarrow> nat set \<Rightarrow> nat list \<times> nat list \<Rightarrow> bool" where
  "searchInv precedence stack st \<longleftrightarrow> precedentsFirst precedence (snd st)
     \<and> set (fst st) = set (snd st) \<union> stack \<and> set (snd st) \<inter> stack = {}"

definition reachesBy :: "(nat \<Rightarrow> nat list) \<Rightarrow> nat \<Rightarrow> nat \<Rightarrow> bool" where
  "reachesBy precedence = (\<lambda>x y. (x, y) \<in> {(x, p). p \<in> set (precedence x)}\<^sup>*)"

lemma precedentsFirst_snoc:
  "precedentsFirst precedence ops \<Longrightarrow> op \<notin> set ops \<Longrightarrow> set (precedence op) \<subseteq> set ops \<Longrightarrow> precedentsFirst precedence (ops @ [op])"
  by (auto simp: precedentsFirst_def nth_append less_Suc_eq)

lemma precedentsFirst_closed:
  assumes "precedentsFirst precedence ops" and "reachesBy precedence x y" and "x \<in> set ops"
  shows "y \<in> set ops"
  using assms(2) unfolding reachesBy_def
proof (induction rule: rtrancl_induct)
  case (step y z)
  then obtain i where "i < length ops" "ops ! i = y" by (auto simp: in_set_conv_nth)
  with assms(1) step have "z \<in> set (take i ops)" by (auto simp: precedentsFirst_def)
  then show ?case by (rule in_set_takeD)
qed (use assms(3) in simp)

lemma buildSchedule_search:
  assumes "finite {x. precedence x \<noteq> []}" and "\<forall>x. \<forall>p \<in> set (precedence x). (p :: nat) < x"
    and "card ({x. precedence x \<noteq> []} - set (fst st)) < fuel"
    and "searchInv precedence stack st" and "op \<notin> set (fst st)" and "\<forall>y \<in> stack. op < y"
  shows "\<exists>st' new. buildSchedule precedence fuel op st = Inr st' \<and> searchInv precedence stack st' \<and> snd st' = snd st @ new @ [op]
    \<and> (\<forall>x \<in> set new. reachesBy precedence op x)"
  using assms(3-6)
proof (induction fuel arbitrary: op st stack)
  case (Suc fuel)
  define st1 where "st1 = (List.insert op (fst st), snd st)"
  define step where "step = (\<lambda>precedent st. if precedent \<in> set (fst st) then Inr st else buildSchedule precedence fuel precedent st)"
  have inv1: "searchInv precedence (insert op stack) st1"
    using Suc.prems(2,3) by (auto simp: searchInv_def st1_def)
  have "\<exists>st' new. foldE step ps st1 = Inr st' \<and> searchInv precedence (insert op stack) st' \<and> snd st' = snd st1 @ new
      \<and> (\<forall>x \<in> set new. reachesBy precedence op x) \<and> set ps \<subseteq> set (snd st')"
    if "set ps \<subseteq> set (precedence op)" for ps
    using that
  proof (induction ps rule: rev_induct)
    case Nil
    then show ?case using inv1 by simp
  next
    case (snoc p ps)
    then obtain st2 new where st2: "foldE step ps st1 = Inr st2" "searchInv precedence (insert op stack) st2"
      "snd st2 = snd st1 @ new" "\<forall>x \<in> set new. reachesBy precedence op x" "set ps \<subseteq> set (snd st2)" by auto
    from snoc.prems assms(2) have p: "p \<in> set (precedence op)" "p < op" by auto
    have notstack: "p \<notin> insert op stack" using p(2) Suc.prems(4) by auto
    show ?case
    proof (cases "p \<in> set (fst st2)")
      case True
      with st2(2) notstack have "p \<in> set (snd st2)" by (auto simp: searchInv_def)
      with True st2 show ?thesis by (auto simp: foldE_append step_def)
    next
      case False
      have "set (fst st) \<subseteq> set (fst st2)" "op \<in> set (fst st2)"
        using st2(2,3) Suc.prems(2) by (auto simp: searchInv_def st1_def)
      moreover have "precedence op \<noteq> []" using p by auto
      ultimately have "{x. precedence x \<noteq> []} - set (fst st2) \<subset> {x. precedence x \<noteq> []} - set (fst st)"
        using Suc.prems(3) by auto
      then have "card ({x. precedence x \<noteq> []} - set (fst st2)) < card ({x. precedence x \<noteq> []} - set (fst st))"
        by (intro psubset_card_mono) (use assms(1) in auto)
      with Suc.prems(1) have "card ({x. precedence x \<noteq> []} - set (fst st2)) < fuel" by simp
      moreover have "\<forall>y \<in> insert op stack. p < y" using p(2) Suc.prems(4) by auto
      ultimately obtain st3 new3 where st3: "buildSchedule precedence fuel p st2 = Inr st3"
        "searchInv precedence (insert op stack) st3" "snd st3 = snd st2 @ new3 @ [p]" "\<forall>x \<in> set new3. reachesBy precedence p x"
        using Suc.IH[OF _ st2(2) False] by blast
      have reach: "reachesBy precedence op x" if "reachesBy precedence p x" for x
        using that p(1) unfolding reachesBy_def by (auto intro: converse_rtrancl_into_rtrancl)
      then have "reachesBy precedence op p" by (simp add: reachesBy_def)
      with reach st2 st3 False show ?thesis
        by (intro exI[of _ st3] exI[of _ "new @ new3 @ [p]"]) (auto simp: foldE_append step_def)
    qed
  qed
  then obtain st2 new where st2: "foldE step (precedence op) st1 = Inr st2" "searchInv precedence (insert op stack) st2"
    "snd st2 = snd st1 @ new" "\<forall>x \<in> set new. reachesBy precedence op x" "set (precedence op) \<subseteq> set (snd st2)" by blast
  have run: "buildSchedule precedence (Suc fuel) op st = Inr (fst st2, snd st2 @ [op])"
    using st2(1) by (simp add: step_def st1_def)
  have "op \<notin> set (snd st2)" using st2(2) by (auto simp: searchInv_def)
  then have "searchInv precedence stack (fst st2, snd st2 @ [op])"
    using st2(2,5) Suc.prems(2-4) by (auto simp: searchInv_def intro!: precedentsFirst_snoc)
  with run st2(3,4) show ?case by (auto simp: st1_def)
qed simp

lemma buildSchedule_complete:
  assumes "finite {x. precedence x \<noteq> []}" and "\<forall>x. \<forall>p \<in> set (precedence x). (p :: nat) < x"
    and "card {x. precedence x \<noteq> []} < fuel"
  shows "\<exists>visited ops. buildSchedule precedence fuel op ([], []) = Inr (visited, ops @ [op])
    \<and> precedentsFirst precedence (ops @ [op]) \<and> set (ops @ [op]) = {x. reachesBy precedence op x}"
proof -
  have "searchInv precedence {} ([], [])" by (simp add: searchInv_def precedentsFirst_def)
  with buildSchedule_search[OF assms(1,2), of "([], [])" fuel "{}" op] assms(3)
  obtain st' new where st': "buildSchedule precedence fuel op ([], []) = Inr st'" "searchInv precedence {} st'"
    "snd st' = new @ [op]" "\<forall>x \<in> set new. reachesBy precedence op x" by auto
  then have p: "precedentsFirst precedence (new @ [op])" by (simp add: searchInv_def)
  have "x \<in> set (new @ [op])" if "reachesBy precedence op x" for x
    by (rule precedentsFirst_closed[OF p that]) simp
  moreover have "reachesBy precedence op op" by (simp add: reachesBy_def)
  ultimately show ?thesis using st' p by (cases st') auto
qed

section \<open>The precedences are operands\<close>

lemma maskState_ops:
  assumes "maskState ctx baseOp m ops = Inr st"
  shows "set (mkL1 st) \<subseteq> fst ` set ops - {baseOp} \<and> set (mkDram st) \<subseteq> fst ` set ops - {baseOp}"
proof -
  define K where "K = fst ` set ops"
  have K: "(op, u) \<in> set ops \<Longrightarrow> op \<in> K" for op u by (force simp: K_def)
  define I :: "mask_state \<Rightarrow> bool" where "I = (\<lambda>st. set (mkL1 st) \<subseteq> K - {baseOp} \<and> set (mkDram st) \<subseteq> K - {baseOp})"
  have "I st"
    by (rule foldE_invariant[OF _ assms[unfolded maskState_def]])
       (auto simp: I_def maskStep_def rbind_Inr_iff dest: K split: prod.splits if_splits)
  then show ?thesis by (simp add: I_def K_def)
qed

lemma optimalOrder_ops: "optimalOrder ctx usage os = (legal, least, best) \<Longrightarrow> set best \<subseteq> set os"
proof -
  assume a: "optimalOrder ctx usage os = (legal, least, best)"
  have p: "set order = set os" if "order \<in> set (ordersOf ctx os)" for order
    using that mset_eq_setD by (auto simp: ordersOf_def lexPermutations_set)
  have "set (snd (snd (foldl (orderStep usage A) (l, b, best0) orders))) \<subseteq> set os"
    if "set orders \<subseteq> set (ordersOf ctx os)" "set best0 \<subseteq> set os" for A l b best0 orders
    using that
  proof (induction orders arbitrary: l b best0)
    case (Cons order orders)
    obtain l' b' best' where s: "orderStep usage A (l, b, best0) order = (l', b', best')" by (metis prod_cases3)
    then have "set best' \<subseteq> set os"
      using Cons.prems p[of order] by (auto simp: orderStep_def split: option.splits if_splits)
    with Cons s show ?case by simp
  qed simp
  from this[of "ordersOf ctx os" "[]" "getAvailableL1CacheSize ctx" False "getAvailableL1CacheSize ctx"] a
  show ?thesis by (simp add: optimalOrder_def)
qed

lemma getGreedyConfig_ops:
  assumes "getGreedyConfig ctx baseOp ops = Inr choice"
  shows "set (gcPrecedence choice) \<subseteq> fst ` set ops - {baseOp}"
proof -
  define I :: "64 word \<times> (nat \<times> op_config) list \<times> nat list \<Rightarrow> bool"
    where "I = (\<lambda>st. set (snd (snd st)) \<subseteq> fst ` set ops - {baseOp})"
  obtain masks usage configs precedence where m:
    "foldE (greedyStep ctx baseOp ops) [0..<masks] (0, [], []) = Inr (usage, configs, precedence)"
    "gcPrecedence choice = precedence"
    using assms by (auto simp: getGreedyConfig_def rbind_Inr_iff)
  have "I (usage, configs, precedence)"
  proof (rule foldE_invariant[OF _ m(1)])
    fix x st st' assume i: "I st" and s: "greedyStep ctx baseOp ops x st = Inr st'"
    obtain best cfgs prec where st: "st = (best, cfgs, prec)" by (cases st) auto
    from s obtain ms where ms: "maskState ctx baseOp x ops = Inr ms" by (auto simp: st greedyStep_def rbind_Inr_iff)
    obtain legal least order where o: "optimalOrder ctx (usageOf ops) (mkL1 ms) = (legal, least, order)"
      by (metis prod_cases3)
    with s ms have "st' = st \<or> st' = (mkUsage ms, mkConfigs ms, mkDram ms @ order)"
      by (auto simp: st greedyStep_def split: if_splits)
    then show "I st'"
    proof
      assume "st' = (mkUsage ms, mkConfigs ms, mkDram ms @ order)"
      with maskState_ops[OF ms] optimalOrder_ops[OF o] show ?thesis by (auto simp: I_def)
    qed (use i in simp)
  qed (simp add: I_def)
  then show ?thesis using m(2) by (simp add: I_def)
qed

text \<open>The orders the context gives hash maps and sets are rearrangements.\<close>

definition rearranges :: "il_ctx \<Rightarrow> bool" where
  "rearranges ctx \<longleftrightarrow> (\<forall>xs. set (ilIterate ctx xs) = set xs) \<and> (\<forall>ops. mset (ilMapOrder ctx ops) = mset ops)"

lemma operandChoices_ops:
  assumes "foldE (operandChoice ctx schedulable specs) operands (own, []) = Inr (ops, precedence)"
  shows "fst ` set ops \<subseteq> fst ` set own \<union> set operands \<and> set precedence \<subseteq> set operands"
proof -
  define keys :: "(nat \<times> l1_usage) list \<Rightarrow> nat set" where "keys = (\<lambda>al. fst ` set al)"
  have upd: "keys (AList.update k v al) = insert k (keys al)" for k v al
    using dom_update[of k v al] by (simp add: keys_def dom_map_of_conv_image_fst update_conv')
  define I :: "(nat \<times> l1_usage) list \<times> nat list \<Rightarrow> bool"
    where "I = (\<lambda>st. keys (fst st) \<subseteq> keys own \<union> set operands \<and> set (snd st) \<subseteq> set operands)"
  have "I (ops, precedence)"
    by (rule foldE_invariant[OF _ assms])
       (auto simp: I_def operandChoice_def rbind_Inr_iff upd split: prod.splits if_splits)
  then show ?thesis by (simp add: I_def keys_def)
qed

lemma greedyOp_precedence:
  assumes "greedyOp ctx schedulable op st = Inr st'" and "rearranges ctx"
  obtains ps where "gsPrecedence st' = (gsPrecedence st)(op := ps)" and "set ps \<subseteq> set (operandOps ctx op)"
    and "gsScheduler st' = scheduleOp op (gsScheduler st)"
proof -
  from assms(1) obtain specs own ops prec choice where o: "ownSpec ctx op (gsSpecs st) = Inr (specs, own)"
    "foldE (operandChoice ctx schedulable specs) (operandOps ctx op) (own, []) = Inr (ops, prec)"
    "getGreedyConfig ctx op (ilMapOrder ctx ops) = Inr choice"
    "gsPrecedence st' = (gsPrecedence st)(op := prec @ gcPrecedence choice)"
    "gsScheduler st' = scheduleOp op (gsScheduler st)"
    by (auto simp: greedyOp_def rbind_Inr_iff)
  have own: "fst ` set own \<subseteq> {op}" using o(1) by (auto simp: ownSpec_def rbind_Inr_iff Let_def split: if_splits)
  have perm: "set (ilMapOrder ctx ops) = set ops" using assms(2) by (metis mset_eq_setD rearranges_def)
  define K where "K = fst ` set ops"
  have "K \<subseteq> {op} \<union> set (operandOps ctx op)" using conjunct1[OF operandChoices_ops[OF o(2)]] Un_mono[OF own subset_refl] unfolding K_def by (rule order_trans)
  moreover have "set (gcPrecedence choice) \<subseteq> K - {op}" using getGreedyConfig_ops[OF o(3)] by (simp add: K_def perm)
  ultimately have "set (gcPrecedence choice) \<subseteq> set (operandOps ctx op)" by blast
  then have "set (prec @ gcPrecedence choice) \<subseteq> set (operandOps ctx op)"
    using operandChoices_ops[OF o(2)] by simp
  with o(4,5) that show thesis by blast
qed

definition greedyInv :: "il_ctx \<Rightarrow> nat set \<Rightarrow> greedy_state \<Rightarrow> bool" where
  "greedyInv ctx S st \<longleftrightarrow> (\<forall>op. set (gsPrecedence st op) \<subseteq> set (operandOps ctx op))
     \<and> {op. gsPrecedence st op \<noteq> []} \<subseteq> S \<and> set (unscheduledOps (gsScheduler st)) \<subseteq> S"

lemma greedyLoop_inv:
  assumes "greedyLoop ctx schedulable st = Inr st'" and "rearranges ctx" and "greedyInv ctx S st"
  shows "greedyInv ctx S st'"
  using assms
proof (induction ctx schedulable st arbitrary: st' rule: greedyLoop.induct)
  case (1 ctx schedulable st)
  show ?case
  proof (cases "hasUnscheduledOps (gsScheduler st)")
    case False
    with "1.prems" show ?thesis by (subst (asm) greedyLoop.simps) auto
  next
    case True
    with "1.prems"(1) obtain st1 where st1:
      "foldE (greedyOp ctx schedulable) (ilIterate ctx (getScheduleableOps (gsScheduler st))) st = Inr st1"
      "length (unscheduledOps (gsScheduler st1)) < length (unscheduledOps (gsScheduler st))"
      "greedyLoop ctx schedulable st1 = Inr st'"
      by (subst (asm) greedyLoop.simps) (auto simp: rbind_Inr_iff split: if_splits)
    have "set (ilIterate ctx (getScheduleableOps (gsScheduler st))) \<subseteq> S"
      using "1.prems"(2,3) by (auto simp: rearranges_def getScheduleableOps_def greedyInv_def)
    then have "greedyInv ctx S st1"
      by (intro foldE_invariant[where I = "greedyInv ctx S", OF _ st1(1) "1.prems"(3)], elim greedyOp_precedence[OF _ "1.prems"(2)])
         (auto simp: greedyInv_def scheduleOp_def split: if_splits)
    with "1.IH"[OF _ st1(1,2)] True st1(3) "1.prems"(2) show ?thesis by simp
  qed
qed

section \<open>The schedule of a function\<close>

text \<open>Operands come from earlier ops.\<close>

definition operandsEarlier :: "il_ctx \<Rightarrow> bool" where
  "operandsEarlier ctx \<longleftrightarrow> (\<forall>op. \<forall>p \<in> set (operandOps ctx op). p < op)"

text \<open>
  C29: The schedule the greedy policy builds for a function respects the precedences it has recorded.
  Once the loop over the ops is done, the depth-first search from the op that makes the result
  needs no more fuel than there are ops, never visits an op twice, and lists exactly the ops
  the result depends on through recorded precedences, each after all its precedents, the op
  of the result last. Every recorded precedent is an operand.
\<close>

theorem greedy_schedule_respects_precedence:
  assumes "schedulerOf (gfFunc f) = Inr s" and "rearranges ctx" and "operandsEarlier ctx"
    and "greedyLoop ctx schedulable \<lparr>gsScheduler = s, gsSpecs = [], gsPrecedence = \<lambda>_. []\<rparr> = Inr st"
    and "gfReturns f = [[OpResult outputOp r]]"
  shows "\<exists>visited ops. constructSchedule (gsPrecedence st) (scheduleFuel [f]) f [] = Inr (visited, map Some (ops @ [outputOp]))
    \<and> precedentsFirst (gsPrecedence st) (ops @ [outputOp])
    \<and> set (ops @ [outputOp]) = {op. reachesBy (gsPrecedence st) outputOp op}
    \<and> (\<forall>op. set (gsPrecedence st op) \<subseteq> set (operandOps ctx op))"
proof -
  define S where "S = soId ` set (sfOps (gfFunc f))"
  have "set (unscheduledOps s) \<subseteq> S"
    using schedulerOf_state[OF assms(1)] by (auto simp: schedulableIds_def S_def)
  then have "greedyInv ctx S st"
    by (intro greedyLoop_inv[OF assms(4,2)]) (simp add: greedyInv_def)
  then have inv: "\<forall>op. set (gsPrecedence st op) \<subseteq> set (operandOps ctx op)" "{op. gsPrecedence st op \<noteq> []} \<subseteq> S"
    by (simp_all add: greedyInv_def)
  have fin: "finite S" by (simp add: S_def)
  have "card {op. gsPrecedence st op \<noteq> []} \<le> card S" by (rule card_mono[OF fin inv(2)])
  also have "\<dots> \<le> length (sfOps (gfFunc f))" unfolding S_def by (metis card_image_le card_length finite_set le_trans)
  finally have fuel: "card {op. gsPrecedence st op \<noteq> []} < scheduleFuel [f]" by (simp add: scheduleFuel_def)
  have earlier: "\<forall>op. \<forall>p \<in> set (gsPrecedence st op). p < op"
    using inv(1) assms(3) by (auto simp: operandsEarlier_def)
  from buildSchedule_complete[OF finite_subset[OF inv(2) fin] earlier fuel, of outputOp]
  obtain visited ops where "buildSchedule (gsPrecedence st) (scheduleFuel [f]) outputOp ([], []) = Inr (visited, ops @ [outputOp])"
    "precedentsFirst (gsPrecedence st) (ops @ [outputOp])" "set (ops @ [outputOp]) = {x. reachesBy (gsPrecedence st) outputOp x}"
    by blast
  with inv(1) show ?thesis by (auto simp: constructSchedule_def constructStep_def assms(5) rbind_Inr_iff)
qed

text \<open>Five ops: 0 feeds 1, 1 and 2 feed 3, 3 feeds 4, whose result is returned. Their outputs take 6, 4, 3
  and \<open>tiles\<close> tiles of 2048 bytes, 4 is in DRAM; 12 tiles are available.\<close>

definition chainDemo :: "int \<Rightarrow> nat list \<Rightarrow> il_ctx" where
  "chainDemo tiles operands = \<lparr>
     ilOp = (\<lambda>n. \<lparr>irOperands = (if n = 1 then [OpResult 0 0] else if n = 3 then map (\<lambda>p. OpResult p 0) operands
         else if n = 4 then [OpResult 3 0] else [BlockArg 0]), irUsers = [if n = 1 \<or> n = 2 then 3 else n + 1], irIsDPS = False\<rparr>),
     ilLegalConfigs = (\<lambda>n. Some (layoutConfig ((demoLayout [1, 1] [1, 1] Interleaved)\<lparr>getMemref := \<lparr>memrefShape = [1, 1],
         memrefElem = TileElem (defaultTile BFloat16), memrefSpace = DRAM\<rparr>\<rparr>)
       # (if n < 4 then [demoConfig [1, 1] [1, [6, 4, 3, tiles] ! n] Interleaved] else []))),
     ilUsableL1CacheSize = 32768, ilIterate = (\<lambda>xs. xs), ilMapOrder = (\<lambda>xs. xs), ilAddress = (\<lambda>n. n)\<rparr>"

definition chainDemoFunc :: "nat list \<Rightarrow> greedy_func" where
  "chainDemoFunc operands = \<lparr>gfFunc = \<lparr>sfOps = map (\<lambda>n. \<lparr>soId = n, soDialect = TTNNDialect, soName = ComputeOp, soNumResults = 1,
       soOperands = (if n = 1 then [(0, 0)] else if n = 3 then map (\<lambda>p. (p, 0)) operands else if n = 4 then [(3, 0)] else [])\<rparr>)
       [0..<5], sfNested = []\<rparr>, gfReturns = [[OpResult 4 0]]\<rparr>"

text \<open>With the operands of op 3 in the order 2, 1, its required memory is computed as 13 tiles, although
  it was chosen to run in 12: the choice for op 4 is empty, and op 3 and all ops before it are
  missing from the schedule.\<close>

lemma greedy_schedule_drops_operands:
  "case greedyRun (chainDemo 5 [2, 1]) [chainDemoFunc [2, 1]] of
     Inr (l1Chains, schedules) \<Rightarrow> schedules = [[Some 4]] | Inl _ \<Rightarrow> False"
  by code_simp

lemma greedy_schedule_keeps_operands:
  "case greedyRun (chainDemo 4 [1, 2]) [chainDemoFunc [1, 2]] of
     Inr (l1Chains, schedules) \<Rightarrow> schedules = [map Some [0, 1, 2, 3, 4]] | Inl _ \<Rightarrow> False"
  by code_simp

theorem greedy_schedule_respects_precedence_witness:
  "\<exists>precedence visited ops. constructSchedule precedence 6 (chainDemoFunc [1, 2]) [] = Inr (visited, map Some (ops @ [4]))
    \<and> precedentsFirst precedence (ops @ [4]) \<and> 3 \<in> set ops"
proof -
  let ?ctx = "chainDemo 4 [1, 2]" and ?f = "chainDemoFunc [1, 2]"
  have "case schedulerOf (gfFunc ?f) of Inl _ \<Rightarrow> False | Inr s \<Rightarrow>
    (case greedyLoop ?ctx (\<lambda>op. True) \<lparr>gsScheduler = s, gsSpecs = [], gsPrecedence = \<lambda>_. []\<rparr> of Inl _ \<Rightarrow> False
     | Inr st \<Rightarrow> gsPrecedence st 4 = [3])" by code_simp
  then obtain s st where s: "schedulerOf (gfFunc ?f) = Inr s" "gsPrecedence st 4 = [3]"
    "greedyLoop ?ctx (\<lambda>op. True) \<lparr>gsScheduler = s, gsSpecs = [], gsPrecedence = \<lambda>_. []\<rparr> = Inr st"
    by (auto split: sum.splits)
  have "rearranges ?ctx" "operandsEarlier ?ctx" "gfReturns ?f = [[OpResult 4 0]]" "scheduleFuel [?f] = 6"
    by (auto simp: rearranges_def operandsEarlier_def operandOps_def chainDemo_def chainDemoFunc_def map_filter_def scheduleFuel_def
      split: if_splits)
  with greedy_schedule_respects_precedence[OF s(1) _ _ s(3)] obtain visited ops where r:
    "constructSchedule (gsPrecedence st) 6 ?f [] = Inr (visited, map Some (ops @ [4]))"
    "precedentsFirst (gsPrecedence st) (ops @ [4])" "set (ops @ [4]) = {op. reachesBy (gsPrecedence st) 4 op}" by metis
  have "reachesBy (gsPrecedence st) 4 3" using s(2) by (auto simp: reachesBy_def)
  with r(3) have "3 \<in> set (ops @ [4])" by simp
  with r(1,2) show ?thesis by auto
qed

end
