(* ===== verification/BFInterleaved.thy ===== *)
theory BFInterleaved
  imports Interleaved "HOL-Library.AList"
begin

text \<open>
  \<open>BFInterleavedPolicy::run\<close>: among the ready ops it schedules the one whose output, less the
  operands it frees, takes the least L1 memory, and puts its output into interleaved L1 when it
  fits. The state keeps, for every output in L1, its size and the number of uses to come.
\<close>

section \<open>State\<close>

record op_l1_mem_usage =
  muL1MemUsage :: "64 word"
  muUnscheduledUsers :: "64 word"

record bf_state =
  bsScheduler :: scheduler
  bsUsages :: "(nat \<times> op_l1_mem_usage) list"
  bsCurrent :: "64 word"
  bsChain :: l1_chain

section \<open>Choosing the next op\<close>

definition bfDealloc :: "il_ctx \<Rightarrow> (nat \<times> op_l1_mem_usage) list \<Rightarrow> nat \<Rightarrow> 64 word" where
  "bfDealloc ctx usages op =
     foldl (\<lambda>dealloc operandOp. case map_of usages operandOp of
         Some usage \<Rightarrow> dealloc + (if muUnscheduledUsers usage = 1 then 1 else 0) * muL1MemUsage usage
       | None \<Rightarrow> dealloc) 0 (analyzableOperands ctx op)"

text \<open>The L1 memory the output would take, and the buffer type.\<close>

definition bfAlloc :: "il_ctx \<Rightarrow> 64 word \<Rightarrow> nat \<Rightarrow> fault + 64 word \<times> buffer_type" where
  "bfAlloc ctx current op =
     rbind (hasL1BufferTypeOp ctx op) (\<lambda>hasL1.
     if \<not> hasL1 then Inr (0, DRAM)
     else rbind (getL1InterleavedLayout ctx op) (\<lambda>layout.
          rbind (getOpOutputL1Usage layout) (\<lambda>usage.
          Inr (if current + usage \<le> getAvailableL1CacheSize ctx then (usage, L1) else (0, DRAM)))))"

text \<open>The change is an unsigned difference: an op that frees more than it allocates wraps around.\<close>

definition bfConsider ::
  "il_ctx \<Rightarrow> bf_state \<Rightarrow> nat \<Rightarrow> 64 word \<times> (nat \<times> buffer_type) option \<Rightarrow> fault + 64 word \<times> (nat \<times> buffer_type) option" where
  "bfConsider ctx st op = (\<lambda>(minimal, nextOp).
     rbind (bfAlloc ctx (bsCurrent st) op) (\<lambda>(alloc, bufferType).
     let change = alloc - bfDealloc ctx (bsUsages st) op
     in Inr (if change < minimal then (change, Some (op, bufferType)) else (minimal, nextOp))))"

definition bfNextOp :: "il_ctx \<Rightarrow> bf_state \<Rightarrow> fault + (nat \<times> buffer_type) option" where
  "bfNextOp ctx st =
     rbind (foldE (bfConsider ctx st) (ilIterate ctx (getScheduleableOps (bsScheduler st))) (- 1, None)) (\<lambda>(minimal, nextOp).
       Inr nextOp)"

section \<open>One op\<close>

text \<open>An output put into L1.\<close>

definition bfAllocate :: "il_ctx \<Rightarrow> nat \<Rightarrow> bf_state \<Rightarrow> fault + bf_state" where
  "bfAllocate ctx op st =
     rbind (getL1InterleavedLayout ctx op) (\<lambda>layout.
     rbind (addOpL1MemSpec \<lparr>msOp = op, msTensorSplitFactor = 1, msConfig = layoutConfig layout\<rparr> (bsChain st)) (\<lambda>chain.
     rbind (getOpOutputL1Usage layout) (\<lambda>usage.
       Inr (st\<lparr>bsChain := chain, bsCurrent := bsCurrent st + usage,
               bsUsages := AList.update op \<lparr>muL1MemUsage = usage,
                 muUnscheduledUsers = of_nat (length (irUsers (ilOp ctx op)))\<rparr> (bsUsages st)\<rparr>))))"

text \<open>An operand loses a use, and is freed with its last.\<close>

definition bfRelease :: "nat \<Rightarrow> (nat \<times> op_l1_mem_usage) list \<times> 64 word \<Rightarrow> (nat \<times> op_l1_mem_usage) list \<times> 64 word" where
  "bfRelease operandOp = (\<lambda>(usages, current).
     case map_of usages operandOp of
       None \<Rightarrow> (usages, current)
     | Some usage \<Rightarrow>
         let users = muUnscheduledUsers usage - 1
         in if users = 0 then (AList.delete operandOp usages, current - muL1MemUsage usage)
            else (AList.update operandOp (usage\<lparr>muUnscheduledUsers := users\<rparr>) usages, current))"

text \<open>No op may have been found; then the walk over its operands uses a null pointer.\<close>

definition bfStep :: "il_ctx \<Rightarrow> bf_state \<Rightarrow> fault + bf_state" where
  "bfStep ctx st =
     rbind (bfNextOp ctx st) (\<lambda>nextOp.
     case nextOp of
       None \<Rightarrow> Inl NullDeref
     | Some (op, bufferType) \<Rightarrow>
         rbind (if bufferType = L1 then bfAllocate ctx op st else Inr st) (\<lambda>st.
         let (usages, current) = fold bfRelease (analyzableOperands ctx op) (bsUsages st, bsCurrent st)
         in Inr (st\<lparr>bsUsages := usages, bsCurrent := current, bsScheduler := scheduleOp op (bsScheduler st)\<rparr>)))"

function bfLoop :: "il_ctx \<Rightarrow> bf_state \<Rightarrow> fault + bf_state" where
  "bfLoop ctx st =
     (if \<not> hasUnscheduledOps (bsScheduler st) then Inr st
      else rbind (bfStep ctx st) (\<lambda>st'.
        if length (unscheduledOps (bsScheduler st')) < length (unscheduledOps (bsScheduler st)) then bfLoop ctx st'
        else Inl Unreachable))"
  by pat_completeness auto
termination by (relation "measure (\<lambda>(ctx, st). length (unscheduledOps (bsScheduler st)))") auto

declare bfLoop.simps [simp del]

section \<open>run\<close>

text \<open>Uses by return ops are taken off at the end; then nothing may be left.\<close>

definition bfFinish :: "il_ctx \<Rightarrow> (nat \<Rightarrow> bool) \<Rightarrow> bf_state \<Rightarrow> fault + unit" where
  "bfFinish ctx isReturnOp st =
     (let usages = map (\<lambda>(op, usage). (op, usage\<lparr>muUnscheduledUsers :=
            muUnscheduledUsers usage - of_nat (length (filter isReturnOp (irUsers (ilOp ctx op))))\<rparr>)) (bsUsages st);
          eraseable = filter (\<lambda>(op, usage). muUnscheduledUsers usage = 0) usages;
          current = foldl (\<lambda>current (op, usage). current - muL1MemUsage usage) (bsCurrent st) eraseable
      in rbind (assertE SiteOther (current = 0)) (\<lambda>_.
         assertE SiteOther (length (filter (\<lambda>(op, usage). muUnscheduledUsers usage \<noteq> 0) usages) = 0)))"

definition bfStart :: "scheduler \<Rightarrow> bf_state" where
  "bfStart s = \<lparr>bsScheduler = s, bsUsages = [], bsCurrent = 0, bsChain = newChain\<rparr>"

text \<open>The chain and the schedule of a function.\<close>

definition bfFunc :: "il_ctx \<Rightarrow> (nat \<Rightarrow> bool) \<Rightarrow> sch_func \<Rightarrow> fault + l1_chain \<times> nat list" where
  "bfFunc ctx isReturnOp f =
     rbind (schedulerOf f) (\<lambda>s.
     rbind (bfLoop ctx (bfStart s)) (\<lambda>st.
     rbind (bfFinish ctx isReturnOp st) (\<lambda>_. Inr (bsChain st, schSchedule (bsScheduler st)))))"

definition bfCompleteChain :: "l1_chain \<Rightarrow> fault + l1_chain" where
  "bfCompleteChain c = rbind (chainBuild c) (\<lambda>c. rbind (chainResolve c) chainCompleteDefault)"

text \<open>After every function all chains are built, resolved and completed, those of the functions before
  included.\<close>

definition bfRun :: "il_ctx \<Rightarrow> (nat \<Rightarrow> bool) \<Rightarrow> sch_func list \<Rightarrow> fault + l1_chain list \<times> nat list list" where
  "bfRun ctx isReturnOp funcs =
     foldE (\<lambda>f (l1Chains, schedules).
       rbind (bfFunc ctx isReturnOp f) (\<lambda>(c, schedule).
       rbind (mapE bfCompleteChain (l1Chains @ [c])) (\<lambda>l1Chains. Inr (l1Chains, schedules @ [schedule])))) funcs ([], [])"

text \<open>A second function finds the chain of the first one completed, and stops at the assertion of
  \<open>build\<close>.\<close>

lemma bfRun_one_function: "bfRun ctx isReturnOp funcs = Inr (l1Chains, schedules) \<Longrightarrow> length funcs \<le> 1"
proof (rule ccontr)
  assume r: "bfRun ctx isReturnOp funcs = Inr (l1Chains, schedules)" and n: "\<not> length funcs \<le> 1"
  from n obtain f g rest where funcs: "funcs = f # g # rest" by (cases funcs; cases "tl funcs") auto
  have "bfCompleteChain c = Inr c' \<Longrightarrow> bfCompleteChain c' = Inl (AssertFailed SiteOther)" for c c'
    by (auto simp: bfCompleteChain_def chainBuild_def chainResolve_def chainCompleteDefault_def result_simps)
  with r show False by (auto simp: bfRun_def funcs result_simps split: prod.splits)
qed

end
