(* ===== verification/BFFacts.thy ===== *)
theory BFFacts
  imports BFInterleaved SolverResolve
begin

text \<open>
  The L1 accounting of \<open>BFInterleavedPolicy\<close>: the map of outputs in L1 and the sum of their
  sizes, as functions of the schedule so far.
\<close>

section \<open>Releasing operands\<close>

definition freedBy :: "(nat \<Rightarrow> op_l1_mem_usage option) \<Rightarrow> nat list \<Rightarrow> nat set" where
  "freedBy m ps = {p. \<exists>u. m p = Some u \<and> 0 < count_list ps p \<and> count_list ps p = unat (muUnscheduledUsers u)}"

definition releasedMap :: "(nat \<Rightarrow> op_l1_mem_usage option) \<Rightarrow> nat list \<Rightarrow> nat \<Rightarrow> op_l1_mem_usage option" where
  "releasedMap m ps p = (case m p of None \<Rightarrow> None | Some u \<Rightarrow>
     if p \<in> freedBy m ps then None else Some (u\<lparr>muUnscheduledUsers := muUnscheduledUsers u - of_nat (count_list ps p)\<rparr>))"

lemma bfRelease_map:
  assumes "bfRelease p (usages, current) = (usages', current')"
  shows "map_of usages' = (case map_of usages p of None \<Rightarrow> map_of usages | Some u \<Rightarrow>
      if muUnscheduledUsers u = 1 then (map_of usages)(p := None)
      else (map_of usages)(p \<mapsto> u\<lparr>muUnscheduledUsers := muUnscheduledUsers u - 1\<rparr>))"
    and "current' = (case map_of usages p of None \<Rightarrow> current | Some u \<Rightarrow>
      if muUnscheduledUsers u = 1 then current - muL1MemUsage u else current)"
    and "distinct (map fst usages) \<Longrightarrow> distinct (map fst usages')"
  using assms by (auto simp: bfRelease_def Let_def update_conv' delete_conv' distinct_delete distinct_update split: option.splits if_splits)

lemma freedBy_finite: "finite (freedBy m ps)"
  by (rule finite_subset[of _ "set ps"]) (auto simp: freedBy_def intro: ccontr simp: count_list_0_iff)

lemma fold_bfRelease:
  assumes "\<forall>p u. map_of usages p = Some u \<longrightarrow> count_list ps p \<le> unat (muUnscheduledUsers u)"
    and "fold bfRelease ps (usages, current) = (usages', current')"
  shows "map_of usages' = releasedMap (map_of usages) ps
    \<and> current' = current - (\<Sum>p \<in> freedBy (map_of usages) ps. muL1MemUsage (the (map_of usages p)))
    \<and> (distinct (map fst usages) \<longrightarrow> distinct (map fst usages'))"
  using assms
proof (induction ps arbitrary: usages current)
  case Nil
  then show ?case by (auto simp: releasedMap_def freedBy_def fun_eq_iff split: option.splits)
next
  case (Cons p ps)
  obtain usages1 current1 where s: "bfRelease p (usages, current) = (usages1, current1)" by (cases "bfRelease p (usages, current)")
  note r = bfRelease_map[OF s]
  let ?m = "map_of usages" and ?m1 = "map_of usages1"
  have num1: "unat (muUnscheduledUsers u - 1) = unat (muUnscheduledUsers u) - 1" if "?m p = Some u" for u
  proof -
    have "1 \<le> unat (muUnscheduledUsers u)" using Cons.prems(1) that by force
    then have "muUnscheduledUsers u \<noteq> 0" by (metis unat_0 not_one_le_zero)
    then show ?thesis by (rule unat_minus_one)
  qed
  have one: "w = (1 :: 64 word) \<longleftrightarrow> unat w = 1" for w by (metis unat_1 word_unat_eq_iff)
  have pre: "\<forall>q u. ?m1 q = Some u \<longrightarrow> count_list ps q \<le> unat (muUnscheduledUsers u)"
  proof (intro allI impI)
    fix q u assume u: "?m1 q = Some u"
    show "count_list ps q \<le> unat (muUnscheduledUsers u)"
    proof (cases "q = p")
      case False
      with u have "?m q = Some u" by (auto simp: r(1) split: option.splits if_splits)
      with Cons.prems(1) False show ?thesis by (auto dest: spec[of _ q])
    next
      case True
      with u obtain u0 where u0: "?m p = Some u0" "u = u0\<lparr>muUnscheduledUsers := muUnscheduledUsers u0 - 1\<rparr>"
        by (auto simp: r(1) split: option.splits if_splits)
      with Cons.prems(1) True have "Suc (count_list ps q) \<le> unat (muUnscheduledUsers u0)" by (auto dest: spec[of _ p])
      then show ?thesis using num1[OF u0(1)] u0(2) by simp
    qed
  qed
  note IH = Cons.IH[OF pre Cons.prems(2)[simplified, unfolded s]]
  have counts: "count_list (p # ps) q = (if q = p then Suc (count_list ps p) else count_list ps q)" for q by simp
  show ?case
  proof (cases "?m p")
    case None
    with r have same: "?m1 = ?m" "current1 = current" by simp_all
    have "freedBy ?m (p # ps) = freedBy ?m ps" using None by (auto simp: freedBy_def split: if_splits)
    moreover from this have "releasedMap ?m (p # ps) = releasedMap ?m ps"
      using None by (auto simp: releasedMap_def fun_eq_iff split: option.splits)
    ultimately show ?thesis using IH same r(3) by simp
  next
    case (Some u)
    show ?thesis
    proof (cases "muUnscheduledUsers u = 1")
      case True
      with Some r have m1: "?m1 = ?m(p := None)" "current1 = current - muL1MemUsage u" by simp_all
      have c: "count_list ps p = 0" using Cons.prems(1) Some True by (auto dest!: spec[of _ p])
      have f: "freedBy ?m (p # ps) = insert p (freedBy ?m1 ps)" "p \<notin> freedBy ?m1 ps"
        using Some True c by (auto simp: freedBy_def m1 split: if_splits)
      have "releasedMap ?m (p # ps) = releasedMap ?m1 ps"
        unfolding fun_eq_iff releasedMap_def f using f(2) by (auto simp: m1 split: option.splits)
      moreover have "(\<Sum>q \<in> freedBy ?m1 ps. muL1MemUsage (the (?m1 q))) = (\<Sum>q \<in> freedBy ?m1 ps. muL1MemUsage (the (?m q)))"
        by (rule sum.cong) (use f(2) in \<open>auto simp: m1\<close>)
      ultimately show ?thesis using IH r(3) f Some by (simp add: m1(2) freedBy_finite)
    next
      case False
      with Some r have m1: "?m1 = ?m(p \<mapsto> u\<lparr>muUnscheduledUsers := muUnscheduledUsers u - 1\<rparr>)" "current1 = current" by simp_all
      have n: "unat (muUnscheduledUsers u) \<noteq> 1" using False one by simp
      have f: "freedBy ?m (p # ps) = freedBy ?m1 ps"
        using n num1[OF Some] Some by (auto simp: freedBy_def m1 counts split: if_splits)
      have "releasedMap ?m (p # ps) = releasedMap ?m1 ps"
        unfolding fun_eq_iff releasedMap_def f using Some by (auto simp: m1 split: option.splits)
      moreover have "(\<Sum>q \<in> freedBy ?m1 ps. muL1MemUsage (the (?m1 q))) = (\<Sum>q \<in> freedBy ?m1 ps. muL1MemUsage (the (?m q)))"
        by (rule sum.cong) (use Some in \<open>auto simp: m1\<close>)
      ultimately show ?thesis using IH r(3) f by (simp add: m1(2))
    qed
  qed
qed

section \<open>Uses\<close>

text \<open>How often the ops of a list use an op; whether its output is still needed after them. The size of
  its output in L1.\<close>

definition usedIn :: "il_ctx \<Rightarrow> nat list \<Rightarrow> nat \<Rightarrow> nat" where
  "usedIn ctx xs p = (\<Sum>x\<leftarrow>xs. count_list (operandOps ctx x) p)"

definition stillUsed :: "il_ctx \<Rightarrow> nat list \<Rightarrow> nat \<Rightarrow> bool" where
  "stillUsed ctx xs p \<longleftrightarrow> irUsers (ilOp ctx p) = [] \<or> usedIn ctx xs p < length (irUsers (ilOp ctx p))"

definition l1Size :: "il_ctx \<Rightarrow> nat \<Rightarrow> 64 word" where
  "l1Size ctx p = (case getL1InterleavedLayout ctx p of Inr l \<Rightarrow>
     (case getOpOutputL1Usage l of Inr n \<Rightarrow> n | Inl _ \<Rightarrow> 0) | Inl _ \<Rightarrow> 0)"

text \<open>What the policy relies on: it can tell for every op whether it has an L1 layout, and how large its
  output is (of an even number of bytes, and far from \<open>2^64\<close>); the users of an op are the ops that
  have it as an operand, and return ops; and the scheduler knows of every such use.\<close>

definition bfInputsOk :: "il_ctx \<Rightarrow> (nat \<Rightarrow> bool) \<Rightarrow> sch_func \<Rightarrow> bool" where
  "bfInputsOk ctx isReturnOp f \<longleftrightarrow> (\<forall>p \<in> schedulableIds f.
     (\<exists>b. hasL1BufferTypeOp ctx p = Inr b) \<and> (\<forall>l. getL1InterleavedLayout ctx p = Inr l \<longrightarrow> (\<exists>n. getOpOutputL1Usage l = Inr n))
     \<and> 2 dvd l1Size ctx p \<and> unat (getAvailableL1CacheSize ctx) + unat (l1Size ctx p) < 2 ^ 64
     \<and> length (irUsers (ilOp ctx p)) < 2 ^ 64
     \<and> length (irUsers (ilOp ctx p)) = (\<Sum>x \<in> schedulableIds f. count_list (operandOps ctx x) p)
         + length (filter isReturnOp (irUsers (ilOp ctx p)))
     \<and> (\<forall>x \<in> schedulableIds f. p \<in> set (operandOps ctx x) \<longrightarrow> dependsOn f x p))"

lemma schedulableIds_finite: "finite (schedulableIds f)"
  by (rule finite_subset[of _ "soId ` set (sfOps f)"]) (auto simp: schedulableIds_def)

lemma usedIn_bound:
  assumes "bfInputsOk ctx isReturnOp f" and "p \<in> schedulableIds f" and "distinct xs" and "set xs \<subseteq> schedulableIds f"
  shows "usedIn ctx xs p \<le> length (irUsers (ilOp ctx p))"
proof -
  have "usedIn ctx xs p = (\<Sum>x \<in> set xs. count_list (operandOps ctx x) p)"
    by (simp add: usedIn_def sum_list_distinct_conv_sum_set assms(3))
  also have "\<dots> \<le> (\<Sum>x \<in> schedulableIds f. count_list (operandOps ctx x) p)"
    by (rule sum_mono2) (use assms(4) schedulableIds_finite in auto)
  finally show ?thesis using assms(1,2) by (auto simp: bfInputsOk_def)
qed

lemma usedIn_snoc: "usedIn ctx (xs @ [x]) p = usedIn ctx xs p + count_list (operandOps ctx x) p"
  by (simp add: usedIn_def)

section \<open>The invariant\<close>

definition chosenL1 :: "bf_state \<Rightarrow> nat set" where
  "chosenL1 st = msOp ` set (lcOpL1MemSpecs (bsChain st))"

definition liveL1 :: "il_ctx \<Rightarrow> nat set \<Rightarrow> nat list \<Rightarrow> nat set" where
  "liveL1 ctx C xs = {p \<in> C. stillUsed ctx xs p}"

text \<open>The outputs in L1 while the op at position \<open>k\<close> runs: its own, and those still used when it starts.\<close>

definition liveAt :: "il_ctx \<Rightarrow> nat set \<Rightarrow> nat list \<Rightarrow> nat \<Rightarrow> nat set" where
  "liveAt ctx C xs k = {p \<in> C. p \<in> set (take (Suc k) xs) \<and> (p = xs ! k \<or> stillUsed ctx (take k xs) p)}"

abbreviation bfSchedule :: "bf_state \<Rightarrow> nat list" where
  "bfSchedule st \<equiv> schSchedule (bsScheduler st)"

text \<open>The ops of the chain have their interleaved L1 layout.\<close>

definition chosenLayouts :: "il_ctx \<Rightarrow> l1_chain \<Rightarrow> bool" where
  "chosenLayouts ctx c \<longleftrightarrow> (\<forall>spec \<in> set (lcOpL1MemSpecs c).
     \<exists>l. getL1InterleavedLayout ctx (msOp spec) = Inr l \<and> msConfig spec = layoutConfig l)"

definition bfInv :: "il_ctx \<Rightarrow> bf_state \<Rightarrow> bool" where
  "bfInv ctx st \<longleftrightarrow> lcState (bsChain st) = InBuild
     \<and> chosenL1 st \<subseteq> set (bfSchedule st) \<and> chosenLayouts ctx (bsChain st)
     \<and> distinct (map fst (bsUsages st))
     \<and> map_of (bsUsages st) = (\<lambda>p. if p \<in> liveL1 ctx (chosenL1 st) (bfSchedule st)
          then Some \<lparr>muL1MemUsage = l1Size ctx p,
                     muUnscheduledUsers = of_nat (length (irUsers (ilOp ctx p)) - usedIn ctx (bfSchedule st) p)\<rparr> else None)
     \<and> unat (bsCurrent st) = (\<Sum>p \<in> liveL1 ctx (chosenL1 st) (bfSchedule st). unat (l1Size ctx p))
     \<and> unat (bsCurrent st) \<le> unat (getAvailableL1CacheSize ctx)
     \<and> (\<forall>k < length (bfSchedule st). (\<Sum>p \<in> liveAt ctx (chosenL1 st) (bfSchedule st) k. unat (l1Size ctx p))
          \<le> unat (getAvailableL1CacheSize ctx))"

lemma chosenL1_finite: "finite (chosenL1 st)"
  by (simp add: chosenL1_def)

lemma bfStart_inv: "bfInv ctx (bfStart s)" if "schSchedule s = []"
  using that by (auto simp: bfInv_def bfStart_def newChain_def chosenL1_def liveL1_def chosenLayouts_def)

section \<open>Picking an op\<close>

lemma getL1_analyzable: "getL1InterleavedLayout ctx p = Inr l \<Longrightarrow> isAnalyzable ctx p"
  by (auto simp: getL1InterleavedLayout_def isAnalyzable_def ilConfigs_def rbind_Inr_iff split: option.splits)

lemma chosenLayouts_analyzable: "chosenLayouts ctx (bsChain st) \<Longrightarrow> \<forall>p \<in> chosenL1 st. isAnalyzable ctx p"
  by (auto simp: chosenLayouts_def chosenL1_def dest: getL1_analyzable)

lemma bfAlloc_ok:
  assumes "bfInputsOk ctx isReturnOp f" and "p \<in> schedulableIds f"
  shows "\<exists>alloc bufferType. bfAlloc ctx current p = Inr (alloc, bufferType) \<and> 2 dvd alloc
    \<and> (bufferType = L1 \<longrightarrow> (\<exists>l. getL1InterleavedLayout ctx p = Inr l \<and> getOpOutputL1Usage l = Inr (l1Size ctx p))
         \<and> current + l1Size ctx p \<le> getAvailableL1CacheSize ctx)"
proof -
  from assms obtain b where b: "hasL1BufferTypeOp ctx p = Inr b" "2 dvd l1Size ctx p"
    "\<forall>l. getL1InterleavedLayout ctx p = Inr l \<longrightarrow> (\<exists>n. getOpOutputL1Usage l = Inr n)" by (auto simp: bfInputsOk_def)
  show ?thesis
  proof (cases b)
    case True
    with b(1) obtain l where l: "getL1InterleavedLayout ctx p = Inr l"
      by (auto simp: hasL1BufferTypeOp_def getL1InterleavedLayout_def rbind_Inr_iff)
    with b(3) obtain n where n: "getOpOutputL1Usage l = Inr n" by blast
    with l have "l1Size ctx p = n" by (simp add: l1Size_def)
    with b l n True show ?thesis by (simp add: bfAlloc_def)
  qed (use b in \<open>simp add: bfAlloc_def\<close>)
qed

lemma bfDealloc_even:
  assumes "\<forall>p u. map_of usages p = Some u \<longrightarrow> 2 dvd muL1MemUsage u"
  shows "2 dvd bfDealloc ctx usages op"
proof -
  have "2 dvd foldl (\<lambda>dealloc operandOp. case map_of usages operandOp of
         Some usage \<Rightarrow> dealloc + (if muUnscheduledUsers usage = 1 then 1 else 0) * muL1MemUsage usage
       | None \<Rightarrow> dealloc) d ps" if "2 dvd d" for d ps
    using that assms by (induction ps arbitrary: d) (auto simp: dvd_add dvd_mult split: option.splits)
  then show ?thesis by (simp add: bfDealloc_def)
qed

lemma foldE_bfConsider:
  assumes "\<forall>op \<in> set ops. \<exists>alloc bufferType. bfAlloc ctx (bsCurrent st) op = Inr (alloc, bufferType)"
  shows "\<exists>minimal' nextOp'. foldE (bfConsider ctx st) ops (minimal, nextOp) = Inr (minimal', nextOp')
    \<and> (nextOp' = nextOp \<or> (\<exists>op alloc bufferType. nextOp' = Some (op, bufferType) \<and> op \<in> set ops
          \<and> bfAlloc ctx (bsCurrent st) op = Inr (alloc, bufferType)))"
  using assms
proof (induction ops arbitrary: minimal nextOp)
  case (Cons op ops)
  then obtain alloc bufferType where a: "bfAlloc ctx (bsCurrent st) op = Inr (alloc, bufferType)" by auto
  obtain minimal1 next1 where s: "bfConsider ctx st op (minimal, nextOp) = Inr (minimal1, next1)"
    "next1 = nextOp \<or> next1 = Some (op, bufferType)"
    by (cases "alloc - bfDealloc ctx (bsUsages st) op < minimal") (auto simp: bfConsider_def a Let_def)
  from Cons.IH[of minimal1 next1] Cons.prems obtain minimal' nextOp' where
    i: "foldE (bfConsider ctx st) ops (minimal1, next1) = Inr (minimal', nextOp')"
    "nextOp' = next1 \<or> (\<exists>op alloc bufferType. nextOp' = Some (op, bufferType) \<and> op \<in> set ops
       \<and> bfAlloc ctx (bsCurrent st) op = Inr (alloc, bufferType))" by auto
  have "nextOp' = nextOp \<or> (\<exists>op' alloc bufferType. nextOp' = Some (op', bufferType) \<and> op' \<in> set (op # ops)
          \<and> bfAlloc ctx (bsCurrent st) op' = Inr (alloc, bufferType))"
    using i(2) s(2) a by auto
  with i(1) s(1) show ?case by simp
qed simp

lemma word_minus_one_odd: "\<not> 2 dvd (- 1 :: 64 word)"
  by simp

lemma bfNextOp_ok:
  assumes "bfInputsOk ctx isReturnOp f" and "\<forall>p u. map_of (bsUsages st) p = Some u \<longrightarrow> 2 dvd muL1MemUsage u"
    and "set (ilIterate ctx (getScheduleableOps (bsScheduler st))) = set (getScheduleableOps (bsScheduler st))"
    and "getScheduleableOps (bsScheduler st) \<noteq> []" and "set (getScheduleableOps (bsScheduler st)) \<subseteq> schedulableIds f"
  shows "\<exists>op bufferType alloc. bfNextOp ctx st = Inr (Some (op, bufferType)) \<and> isReady (bsScheduler st) op
    \<and> bfAlloc ctx (bsCurrent st) op = Inr (alloc, bufferType)"
proof -
  from assms(3,4) obtain op ops where ops: "ilIterate ctx (getScheduleableOps (bsScheduler st)) = op # ops"
    by (metis list.exhaust set_empty)
  have mem: "set (op # ops) = set (getScheduleableOps (bsScheduler st))" using assms(3) ops by simp
  then have ids: "set (op # ops) \<subseteq> schedulableIds f" using assms(5) by simp
  then have "op \<in> schedulableIds f" by simp
  from bfAlloc_ok[OF assms(1) this, of "bsCurrent st"] obtain alloc bufferType where
    a: "bfAlloc ctx (bsCurrent st) op = Inr (alloc, bufferType)" "2 dvd alloc" by auto
  have "2 dvd alloc - bfDealloc ctx (bsUsages st) op" using a(2) bfDealloc_even[OF assms(2)] by (rule dvd_diff)
  then have "alloc - bfDealloc ctx (bsUsages st) op \<noteq> - 1" using word_minus_one_odd by metis
  then have first: "bfConsider ctx st op (- 1, None) = Inr (alloc - bfDealloc ctx (bsUsages st) op, Some (op, bufferType))"
    by (simp add: bfConsider_def a Let_def word_order.not_eq_extremum)
  have "\<forall>op \<in> set ops. \<exists>alloc bufferType. bfAlloc ctx (bsCurrent st) op = Inr (alloc, bufferType)"
    using ids bfAlloc_ok[OF assms(1)] by fastforce
  from foldE_bfConsider[OF this, of "alloc - bfDealloc ctx (bsUsages st) op" "Some (op, bufferType)"]
  obtain minimal' nextOp' where f: "foldE (bfConsider ctx st) ops (alloc - bfDealloc ctx (bsUsages st) op, Some (op, bufferType)) = Inr (minimal', nextOp')"
    "nextOp' = Some (op, bufferType) \<or> (\<exists>op alloc bufferType. nextOp' = Some (op, bufferType) \<and> op \<in> set ops
       \<and> bfAlloc ctx (bsCurrent st) op = Inr (alloc, bufferType))" by blast
  then have "bfNextOp ctx st = Inr nextOp'" by (simp add: bfNextOp_def ops first)
  with f(2) a mem show ?thesis by (metis list.set_intros)
qed

section \<open>A step keeps the accounts\<close>

lemma sum_words: "(\<Sum>p \<in> F. (w p :: 64 word)) = of_nat (\<Sum>p \<in> F. unat (w p))"
  by simp

lemma count_list_filter_eq: "P p \<Longrightarrow> count_list (filter P xs) p = count_list xs p"
  by (induction xs) auto

lemma bfAllocated:
  assumes ok: "bfInputsOk ctx isReturnOp f" and inv: "bfInv ctx st" and x: "x \<in> schedulableIds f" "x \<notin> set (bfSchedule st)"
    and unused: "usedIn ctx (bfSchedule st) x = 0"
    and alloc: "bfAlloc ctx (bsCurrent st) x = Inr (alloc, bufferType)"
  shows "\<exists>st1. (if bufferType = L1 then bfAllocate ctx x st else Inr st) = Inr st1 \<and> bsScheduler st1 = bsScheduler st
    \<and> lcState (bsChain st1) = InBuild \<and> chosenL1 st \<subseteq> chosenL1 st1 \<and> chosenL1 st1 \<subseteq> insert x (chosenL1 st)
    \<and> chosenLayouts ctx (bsChain st1) \<and> distinct (map fst (bsUsages st1))
    \<and> map_of (bsUsages st1) = (\<lambda>p. if p \<in> liveL1 ctx (chosenL1 st1) (bfSchedule st)
          then Some \<lparr>muL1MemUsage = l1Size ctx p,
                     muUnscheduledUsers = of_nat (length (irUsers (ilOp ctx p)) - usedIn ctx (bfSchedule st) p)\<rparr> else None)
     \<and> unat (bsCurrent st1) = (\<Sum>p \<in> liveL1 ctx (chosenL1 st1) (bfSchedule st). unat (l1Size ctx p))
     \<and> unat (bsCurrent st1) \<le> unat (getAvailableL1CacheSize ctx)"
proof (cases "bufferType = L1")
  case False
  with inv show ?thesis by (auto simp: bfInv_def)
next
  case True
  from bfAlloc_ok[OF ok x(1), of "bsCurrent st"] alloc True obtain l where
    l: "getL1InterleavedLayout ctx x = Inr l" "getOpOutputL1Usage l = Inr (l1Size ctx x)"
      "bsCurrent st + l1Size ctx x \<le> getAvailableL1CacheSize ctx" by auto
  have notin: "x \<notin> chosenL1 st" using inv x(2) by (auto simp: bfInv_def)
  define c where "c = (bsChain st)\<lparr>lcL1ChainedOps := List.insert x (lcL1ChainedOps (bsChain st)),
    lcOpL1MemSpecs := lcOpL1MemSpecs (bsChain st) @ [\<lparr>msOp = x, msTensorSplitFactor = 1, msConfig = layoutConfig l\<rparr>]\<rparr>"
  define st1 where "st1 = st\<lparr>bsChain := c, bsCurrent := bsCurrent st + l1Size ctx x,
    bsUsages := AList.update x \<lparr>muL1MemUsage = l1Size ctx x, muUnscheduledUsers = of_nat (length (irUsers (ilOp ctx x)))\<rparr> (bsUsages st)\<rparr>"
  have run: "bfAllocate ctx x st = Inr st1"
    using l inv by (simp add: bfAllocate_def addOpL1MemSpec_def bfInv_def st1_def c_def)
  have C: "chosenL1 st1 = insert x (chosenL1 st)" by (auto simp: chosenL1_def st1_def c_def)
  have live: "liveL1 ctx (chosenL1 st1) (bfSchedule st) = insert x (liveL1 ctx (chosenL1 st) (bfSchedule st))"
    "x \<notin> liveL1 ctx (chosenL1 st) (bfSchedule st)"
    using unused notin by (auto simp: C liveL1_def stillUsed_def)
  have "unat (bsCurrent st) + unat (l1Size ctx x) < 2 ^ LENGTH(64)"
    using ok x(1) inv by (auto simp: bfInputsOk_def bfInv_def)
  then have cur: "unat (bsCurrent st1) = unat (bsCurrent st) + unat (l1Size ctx x)"
    unfolding st1_def by simp (rule iffD1[OF unat_add_lem], simp)
  have m: "map_of (bsUsages st1) = (map_of (bsUsages st))(x \<mapsto> \<lparr>muL1MemUsage = l1Size ctx x, muUnscheduledUsers = of_nat (length (irUsers (ilOp ctx x)))\<rparr>)"
    by (simp add: st1_def update_conv')
  have fin: "finite (liveL1 ctx (chosenL1 st) (bfSchedule st))" by (simp add: liveL1_def chosenL1_finite)
  have "unat (bsCurrent st1) \<le> unat (getAvailableL1CacheSize ctx)" using l(3) by (simp add: st1_def word_le_nat_alt)
  moreover have "lcState (bsChain st1) = InBuild" "bsScheduler st1 = bsScheduler st" "distinct (map fst (bsUsages st1))"
    using inv by (auto simp: st1_def c_def bfInv_def distinct_update)
  moreover have "chosenLayouts ctx (bsChain st1)"
    using inv l(1) by (auto simp: bfInv_def chosenLayouts_def st1_def c_def)
  moreover have "map_of (bsUsages st1) = (\<lambda>p. if p \<in> liveL1 ctx (chosenL1 st1) (bfSchedule st)
          then Some \<lparr>muL1MemUsage = l1Size ctx p,
                     muUnscheduledUsers = of_nat (length (irUsers (ilOp ctx p)) - usedIn ctx (bfSchedule st) p)\<rparr> else None)"
    unfolding m live(1) using inv unused by (auto simp: fun_eq_iff bfInv_def)
  moreover have "unat (bsCurrent st1) = (\<Sum>p \<in> liveL1 ctx (chosenL1 st1) (bfSchedule st). unat (l1Size ctx p))"
    unfolding live(1) cur using live(2) fin inv by (simp add: bfInv_def)
  ultimately show ?thesis using True run C by auto
qed

text \<open>Releasing the operands of \<open>x\<close>, on the accounts for the schedule \<open>xs\<close>.\<close>

lemma bfReleased:
  assumes analyzable: "\<forall>p \<in> C. isAnalyzable ctx p" and fin: "finite C"
    and users: "\<forall>p \<in> C. length (irUsers (ilOp ctx p)) < 2 ^ 64 \<and> usedIn ctx (xs @ [x]) p \<le> length (irUsers (ilOp ctx p))"
    and dist: "distinct (map fst usages)"
    and m: "map_of usages = (\<lambda>p. if p \<in> liveL1 ctx C xs
          then Some \<lparr>muL1MemUsage = l1Size ctx p,
                     muUnscheduledUsers = of_nat (length (irUsers (ilOp ctx p)) - usedIn ctx xs p)\<rparr> else None)"
    and current: "unat current = (\<Sum>p \<in> liveL1 ctx C xs. unat (l1Size ctx p))"
    and run: "fold bfRelease (analyzableOperands ctx x) (usages, current) = (usages', current')"
  shows "distinct (map fst usages')"
    and "map_of usages' = (\<lambda>p. if p \<in> liveL1 ctx C (xs @ [x])
          then Some \<lparr>muL1MemUsage = l1Size ctx p,
                     muUnscheduledUsers = of_nat (length (irUsers (ilOp ctx p)) - usedIn ctx (xs @ [x]) p)\<rparr> else None)"
    and "unat current' = (\<Sum>p \<in> liveL1 ctx C (xs @ [x]). unat (l1Size ctx p))"
    and "unat current' \<le> unat current"
proof -
  let ?c = "\<lambda>p. count_list (analyzableOperands ctx x) p"
  let ?n = "\<lambda>p. length (irUsers (ilOp ctx p))"
  define L where "L = liveL1 ctx C xs"
  define F where "F = freedBy (map_of usages) (analyzableOperands ctx x)"
  have c: "?c p = count_list (operandOps ctx x) p" if "p \<in> C" for p
    using analyzable that by (simp add: analyzableOperands_def count_list_filter_eq)
  have used: "usedIn ctx (xs @ [x]) p = usedIn ctx xs p + ?c p" if "p \<in> C" for p
    by (simp add: usedIn_snoc c[OF that])
  have L: "p \<in> L \<longleftrightarrow> p \<in> C \<and> (?n p = 0 \<or> usedIn ctx xs p < ?n p)" for p
    by (simp add: L_def liveL1_def stillUsed_def)
  have num: "unat (of_nat (?n p - usedIn ctx xs p) :: 64 word) = ?n p - usedIn ctx xs p" if "p \<in> C" for p
    using users that by (intro of_nat_inverse[OF HOL.refl]) auto
  have pre: "\<forall>p u. map_of usages p = Some u \<longrightarrow> ?c p \<le> unat (muUnscheduledUsers u)"
    using users used num by (auto simp: m liveL1_def split: if_splits)
  from fold_bfRelease[OF pre run] dist have r: "map_of usages' = releasedMap (map_of usages) (analyzableOperands ctx x)"
    "current' = current - (\<Sum>p \<in> F. muL1MemUsage (the (map_of usages p)))" "distinct (map fst usages')"
    by (simp_all add: F_def)
  have F: "p \<in> F \<longleftrightarrow> p \<in> L \<and> 0 < ?c p \<and> ?c p = ?n p - usedIn ctx xs p" for p
    using num L by (auto simp: F_def freedBy_def m L_def[symmetric] split: if_splits)
  have live: "liveL1 ctx C (xs @ [x]) = L - F"
  proof (rule set_eqI)
    fix p
    show "p \<in> liveL1 ctx C (xs @ [x]) \<longleftrightarrow> p \<in> L - F"
      using users used[of p] by (cases "p \<in> C") (auto simp: L F liveL1_def stillUsed_def)
  qed
  have "F \<subseteq> L" using F by blast
  have fL: "finite L" using fin by (simp add: L_def liveL1_def)
  have "(\<Sum>p \<in> F. muL1MemUsage (the (map_of usages p))) = (\<Sum>p \<in> F. l1Size ctx p)"
    by (rule sum.cong) (use \<open>F \<subseteq> L\<close> in \<open>auto simp: m L_def\<close>)
  also have "\<dots> = of_nat (\<Sum>p \<in> F. unat (l1Size ctx p))" by (rule sum_words)
  finally have cur: "current' = of_nat (unat current) - of_nat (\<Sum>p \<in> F. unat (l1Size ctx p))" using r(2) by simp
  have le: "(\<Sum>p \<in> F. unat (l1Size ctx p)) \<le> unat current"
    unfolding current L_def[symmetric] by (rule sum_mono2[OF fL \<open>F \<subseteq> L\<close>]) simp
  have "current' = of_nat (unat current - (\<Sum>p \<in> F. unat (l1Size ctx p)))" unfolding cur using le by (simp only: of_nat_diff)
  moreover have "unat current < 2 ^ LENGTH(64)" by (rule unsigned_less)
  ultimately have cur': "unat current' = unat current - (\<Sum>p \<in> F. unat (l1Size ctx p))"
    using of_nat_inverse[of "unat current - (\<Sum>p \<in> F. unat (l1Size ctx p))" current'] by simp
  then show "unat current' \<le> unat current" by simp
  show "unat current' = (\<Sum>p \<in> liveL1 ctx C (xs @ [x]). unat (l1Size ctx p))"
    unfolding live cur' current L_def[symmetric] using sum_diff_nat[OF finite_subset[OF \<open>F \<subseteq> L\<close> fL] \<open>F \<subseteq> L\<close>] by simp
  show "distinct (map fst usages')" by (rule r(3))
  have "releasedMap (map_of usages) (analyzableOperands ctx x) p = (if p \<in> L - F
          then Some \<lparr>muL1MemUsage = l1Size ctx p, muUnscheduledUsers = of_nat (?n p - usedIn ctx (xs @ [x]) p)\<rparr> else None)" for p
  proof (cases "p \<in> L")
    case True
    then have C: "p \<in> C" by (simp add: L)
    with users used have "?c p \<le> ?n p - usedIn ctx xs p" by force
    then have "(of_nat (?n p - usedIn ctx xs p) :: 64 word) - of_nat (?c p) = of_nat (?n p - usedIn ctx (xs @ [x]) p)"
      by (simp only: of_nat_diff[symmetric] used[OF C] diff_diff_left)
    moreover have "map_of usages p = Some \<lparr>muL1MemUsage = l1Size ctx p, muUnscheduledUsers = of_nat (?n p - usedIn ctx xs p)\<rparr>"
      using True by (simp add: m L_def)
    ultimately show ?thesis using True by (simp add: releasedMap_def F_def[symmetric])
  next
    case False
    then have "map_of usages p = None" by (simp add: m L_def)
    with False show ?thesis by (simp add: releasedMap_def)
  qed
  with r(1) show "map_of usages' = (\<lambda>p. if p \<in> liveL1 ctx C (xs @ [x])
          then Some \<lparr>muL1MemUsage = l1Size ctx p,
                     muUnscheduledUsers = of_nat (?n p - usedIn ctx (xs @ [x]) p)\<rparr> else None)"
    unfolding live by presburger
qed

section \<open>The loop\<close>

lemma bfStep_ok:
  assumes ok: "bfInputsOk ctx isReturnOp f" and iter: "\<forall>xs. set (ilIterate ctx xs) = set xs"
    and s0: "schedulerOf f = Inr s0" and run: "ready_run isReady scheduleOp s0 (bsScheduler st)"
    and inv: "bfInv ctx st" and ready: "\<exists>x. isReady (bsScheduler st) x"
  shows "\<exists>st' x. bfStep ctx st = Inr st' \<and> isReady (bsScheduler st) x \<and> bsScheduler st' = scheduleOp x (bsScheduler st) \<and> bfInv ctx st'"
proof -
  let ?sch = "bfSchedule st"
  note init = schedulerOf_state[OF s0]
  then have "schInv (dependencies s0) s0" "ordered_by (\<lambda>x. set (dependencies s0 x)) (schSchedule s0)" by simp_all
  note R = sch.run_invariant[OF run this]
  have ids: "set (unscheduledOps (bsScheduler st)) \<union> set ?sch = schedulableIds f" "distinct ?sch"
    "set (unscheduledOps (bsScheduler st)) \<inter> set ?sch = {}"
    using R init by (auto simp: ordered_by_def schInv_def)
  have readyIds: "set (getScheduleableOps (bsScheduler st)) \<subseteq> schedulableIds f"
    using ids(1) by (auto simp: getScheduleableOps_def)
  have even: "\<forall>p u. map_of (bsUsages st) p = Some u \<longrightarrow> 2 dvd muL1MemUsage u"
  proof (intro allI impI)
    fix p u assume u: "map_of (bsUsages st) p = Some u"
    then have "p \<in> schedulableIds f" "muL1MemUsage u = l1Size ctx p"
      using inv ids(1) by (auto simp: bfInv_def liveL1_def split: if_splits)
    with ok show "2 dvd muL1MemUsage u" by (simp add: bfInputsOk_def)
  qed
  have nonempty: "getScheduleableOps (bsScheduler st) \<noteq> []" using ready by auto
  obtain x bufferType alloc where x: "bfNextOp ctx st = Inr (Some (x, bufferType))" "isReady (bsScheduler st) x"
    "bfAlloc ctx (bsCurrent st) x = Inr (alloc, bufferType)"
    using bfNextOp_ok[OF ok even spec[OF iter] nonempty readyIds] by blast
  have xs: "x \<in> schedulableIds f" "x \<notin> set ?sch"
    using x(2) ids readyIds by (auto simp: getScheduleableOps_def)
  have "x \<notin> set (operandOps ctx y)" if y: "y \<in> set ?sch" for y
  proof
    assume "x \<in> set (operandOps ctx y)"
    with ok xs(1) ids(1) y have "dependsOn f y x" by (auto simp: bfInputsOk_def)
    then have "x \<in> set (dependencies s0 y)" using init by auto
    moreover have "ordered_by (\<lambda>x. set (dependencies s0 x)) ?sch" using R by blast
    ultimately obtain i j where "i < j" "j < length ?sch" "?sch ! i = x" using ordered_by_before[OF _ y] by blast
    then have "x \<in> set ?sch" by auto
    with xs(2) show False by simp
  qed
  then have unused: "usedIn ctx ?sch x = 0" by (auto simp: usedIn_def count_list_0_iff)
  from bfAllocated[OF ok inv xs unused x(3)] obtain st1 where st1:
    "(if bufferType = L1 then bfAllocate ctx x st else Inr st) = Inr st1" "bsScheduler st1 = bsScheduler st"
    "lcState (bsChain st1) = InBuild" "chosenL1 st \<subseteq> chosenL1 st1" "chosenL1 st1 \<subseteq> insert x (chosenL1 st)"
    "chosenLayouts ctx (bsChain st1)" "distinct (map fst (bsUsages st1))"
    "map_of (bsUsages st1) = (\<lambda>p. if p \<in> liveL1 ctx (chosenL1 st1) ?sch
          then Some \<lparr>muL1MemUsage = l1Size ctx p,
                     muUnscheduledUsers = of_nat (length (irUsers (ilOp ctx p)) - usedIn ctx ?sch p)\<rparr> else None)"
    "unat (bsCurrent st1) = (\<Sum>p \<in> liveL1 ctx (chosenL1 st1) ?sch. unat (l1Size ctx p))"
    "unat (bsCurrent st1) \<le> unat (getAvailableL1CacheSize ctx)" by (elim exE conjE)
  define C where "C = chosenL1 st1"
  have C: "C \<subseteq> set (?sch @ [x])" "C \<subseteq> schedulableIds f"
    using st1(5) inv xs ids(1) by (auto simp: C_def bfInv_def)
  have users: "\<forall>p \<in> C. length (irUsers (ilOp ctx p)) < 2 ^ 64 \<and> usedIn ctx (?sch @ [x]) p \<le> length (irUsers (ilOp ctx p))"
  proof (intro ballI conjI)
    fix p assume "p \<in> C"
    with C(2) have p: "p \<in> schedulableIds f" by blast
    with ok show "length (irUsers (ilOp ctx p)) < 2 ^ 64" unfolding bfInputsOk_def by blast
    show "usedIn ctx (?sch @ [x]) p \<le> length (irUsers (ilOp ctx p))"
      by (rule usedIn_bound[OF ok p]) (use ids xs in auto)
  qed
  obtain usages' current' where f: "fold bfRelease (analyzableOperands ctx x) (bsUsages st1, bsCurrent st1) = (usages', current')"
    by (metis prod.exhaust)
  note rel = bfReleased[OF chosenLayouts_analyzable[OF st1(6)] chosenL1_finite, folded C_def, OF users st1(7) st1(8,9)[folded C_def] f]
  define st' where "st' = st1\<lparr>bsUsages := usages', bsCurrent := current', bsScheduler := scheduleOp x (bsScheduler st1)\<rparr>"
  have step: "bfStep ctx st = Inr st'" using x(1) st1(1) f by (simp add: bfStep_def st'_def)
  have sch': "bfSchedule st' = ?sch @ [x]" "chosenL1 st' = C"
    by (simp_all add: st'_def scheduleOp_def st1(2) chosenL1_def C_def)
  have "(\<Sum>p \<in> liveAt ctx C (?sch @ [x]) k. unat (l1Size ctx p)) \<le> unat (getAvailableL1CacheSize ctx)"
    if k: "k < length (?sch @ [x])" for k
  proof (cases "k < length ?sch")
    case True
    have "x \<notin> set (take (Suc k) ?sch)" using xs(2) by (auto dest: in_set_takeD)
    then have "liveAt ctx C (?sch @ [x]) k = liveAt ctx (chosenL1 st) ?sch k"
      using True st1(4,5) by (auto simp: liveAt_def nth_append C_def)
    then show ?thesis using inv True by (simp add: bfInv_def)
  next
    case False
    with k have [simp]: "k = length ?sch" by simp
    have "liveAt ctx C (?sch @ [x]) k \<subseteq> liveL1 ctx C ?sch"
      using unused by (auto simp: liveAt_def liveL1_def stillUsed_def nth_append)
    then have "(\<Sum>p \<in> liveAt ctx C (?sch @ [x]) k. unat (l1Size ctx p)) \<le> (\<Sum>p \<in> liveL1 ctx C ?sch. unat (l1Size ctx p))"
      by (intro sum_mono2) (auto simp: liveL1_def C_def chosenL1_finite)
    with st1(9,10) show ?thesis by (simp add: C_def)
  qed
  then have "bfInv ctx st'"
    unfolding bfInv_def sch' using rel st1(3,6,10) C(1) by (simp add: st'_def)
  with step x(2) st1(2) show ?thesis by (auto simp: st'_def)
qed

lemma bfLoop_ok:
  assumes ok: "bfInputsOk ctx isReturnOp f" and iter: "\<forall>xs. set (ilIterate ctx xs) = set xs"
    and s0: "schedulerOf f = Inr s0"
    and ssa: "\<forall>op \<in> set (sfOps f). \<forall>use \<in> set (sfOps f) \<union> set (sfNested f). usesFirst use op \<longrightarrow> soId op < soId use"
  shows "bfInv ctx st \<Longrightarrow> ready_run isReady scheduleOp s0 (bsScheduler st) \<Longrightarrow> \<exists>st'. bfLoop ctx st = Inr st' \<and> bfInv ctx st'
    \<and> ready_run isReady scheduleOp s0 (bsScheduler st') \<and> \<not> hasUnscheduledOps (bsScheduler st')"
proof (induction "length (unscheduledOps (bsScheduler st))" arbitrary: st rule: less_induct)
  case less
  show ?case
  proof (cases "hasUnscheduledOps (bsScheduler st)")
    case False
    with less.prems show ?thesis by (subst bfLoop.simps) auto
  next
    case True
    from bfStep_ok[OF ok iter s0 less.prems(2,1) run_not_stuck[OF s0 ssa less.prems(2) True]]
    obtain st1 x where st1: "bfStep ctx st = Inr st1" "isReady (bsScheduler st) x"
      "bsScheduler st1 = scheduleOp x (bsScheduler st)" "bfInv ctx st1" by blast
    have "x \<in> set (unscheduledOps (bsScheduler st))" using st1(2) by (simp add: getScheduleableOps_def)
    then have lt: "length (unscheduledOps (bsScheduler st1)) < length (unscheduledOps (bsScheduler st))"
      by (simp add: st1(3) scheduleOp_def length_removeAll_less)
    have "ready_run isReady scheduleOp s0 (bsScheduler st1)" unfolding st1(3) by (rule ready_run.step[OF less.prems(2) st1(2)])
    from less.hyps[OF lt st1(4) this] show ?thesis using True st1(1) lt by (subst bfLoop.simps) simp
  qed
qed

section \<open>The end of a function\<close>

lemma foldl_release: "foldl (\<lambda>current (op, usage). current - muL1MemUsage usage) c xs = c - (\<Sum>x\<leftarrow>xs. muL1MemUsage (snd x))"
  by (induction xs arbitrary: c) (auto simp: algebra_simps)

lemma bfFinish_ok:
  assumes ok: "bfInputsOk ctx isReturnOp f" and inv: "bfInv ctx st"
    and sch: "set (bfSchedule st) = schedulableIds f" "distinct (bfSchedule st)"
  shows "bfFinish ctx isReturnOp st = Inr ()"
proof -
  let ?live = "liveL1 ctx (chosenL1 st) (bfSchedule st)"
  let ?returns = "\<lambda>p. length (filter isReturnOp (irUsers (ilOp ctx p)))"
  define usages where "usages = map (\<lambda>(op, usage). (op, usage\<lparr>muUnscheduledUsers := muUnscheduledUsers usage - of_nat (?returns op)\<rparr>)) (bsUsages st)"
  have entry: "p \<in> ?live \<and> u = \<lparr>muL1MemUsage = l1Size ctx p, muUnscheduledUsers = of_nat (?returns p)\<rparr>"
    if "(p, u) \<in> set (bsUsages st)" for p u
  proof -
    have "map_of (bsUsages st) p = Some u" by (rule map_of_is_SomeI[OF _ that]) (use inv in \<open>simp add: bfInv_def\<close>)
    then have p: "p \<in> ?live" "u = \<lparr>muL1MemUsage = l1Size ctx p,
        muUnscheduledUsers = of_nat (length (irUsers (ilOp ctx p)) - usedIn ctx (bfSchedule st) p)\<rparr>"
      using inv by (auto simp: bfInv_def split: if_splits)
    have "p \<in> schedulableIds f" using p(1) inv sch(1) by (auto simp: liveL1_def bfInv_def)
    with ok have "length (irUsers (ilOp ctx p)) = (\<Sum>x \<in> schedulableIds f. count_list (operandOps ctx x) p) + ?returns p"
      by (simp add: bfInputsOk_def)
    moreover have "usedIn ctx (bfSchedule st) p = (\<Sum>x \<in> schedulableIds f. count_list (operandOps ctx x) p)"
      by (simp add: usedIn_def sum_list_distinct_conv_sum_set sch)
    ultimately show ?thesis using p by simp
  qed
  have zero: "\<forall>(op, u) \<in> set usages. muUnscheduledUsers u = 0" by (auto simp: usages_def dest!: entry)
  then have all: "filter (\<lambda>(op, u). muUnscheduledUsers u = 0) usages = usages"
    "filter (\<lambda>(op, u). muUnscheduledUsers u \<noteq> 0) usages = []"
    by (auto simp: filter_id_conv filter_empty_conv)
  have keys: "set (map fst (bsUsages st)) = ?live" "distinct (map fst (bsUsages st))"
  proof -
    have "dom (map_of (bsUsages st)) = ?live" using inv by (auto simp: bfInv_def split: if_splits)
    then show "set (map fst (bsUsages st)) = ?live" by (simp add: dom_map_of_conv_image_fst)
    show "distinct (map fst (bsUsages st))" using inv by (simp add: bfInv_def)
  qed
  have "(\<Sum>x\<leftarrow>usages. muL1MemUsage (snd x)) = (\<Sum>p\<leftarrow>map fst (bsUsages st). l1Size ctx p)"
    by (auto simp: usages_def intro!: arg_cong[where f = sum_list] dest!: entry)
  also have "\<dots> = (\<Sum>p \<in> ?live. l1Size ctx p)"
    using sum_list_distinct_conv_sum_set[OF keys(2), of "l1Size ctx"] unfolding keys(1) .
  also have "\<dots> = of_nat (\<Sum>p \<in> ?live. unat (l1Size ctx p))" by (rule sum_words)
  also have "\<dots> = of_nat (unat (bsCurrent st))" using inv unfolding bfInv_def by (elim conjE) (simp only:)
  finally have "foldl (\<lambda>current (op, usage). current - muL1MemUsage usage) (bsCurrent st) usages = 0"
    by (simp add: foldl_release)
  then show ?thesis by (simp add: bfFinish_def Let_def usages_def[symmetric] all)
qed

section \<open>The outputs fit\<close>

text \<open>The outputs that must be in memory while the op at position \<open>k\<close> of a schedule runs: its own, and
  those of earlier ops that it or a later op uses, or that the function returns.\<close>

definition neededAt :: "il_ctx \<Rightarrow> (nat \<Rightarrow> bool) \<Rightarrow> nat list \<Rightarrow> nat \<Rightarrow> nat set" where
  "neededAt ctx isReturnOp schedule k = {p \<in> set (take (Suc k) schedule). p = schedule ! k
     \<or> (\<exists>x \<in> set (drop k schedule). p \<in> set (operandOps ctx x)) \<or> (\<exists>user \<in> set (irUsers (ilOp ctx p)). isReturnOp user)}"

lemma neededAt_live:
  assumes ok: "bfInputsOk ctx isReturnOp f" and sch: "set xs = schedulableIds f" "distinct xs" and C: "C \<subseteq> schedulableIds f"
  shows "C \<inter> neededAt ctx isReturnOp xs k \<subseteq> liveAt ctx C xs k"
proof
  fix p assume p: "p \<in> C \<inter> neededAt ctx isReturnOp xs k"
  let ?returns = "length (filter isReturnOp (irUsers (ilOp ctx p)))"
  have ids: "p \<in> schedulableIds f" using p C by blast
  have "length (irUsers (ilOp ctx p)) = (\<Sum>x \<in> schedulableIds f. count_list (operandOps ctx x) p) + ?returns"
    using ok ids by (simp add: bfInputsOk_def)
  also have "(\<Sum>x \<in> schedulableIds f. count_list (operandOps ctx x) p) = usedIn ctx (take k xs @ drop k xs) p"
    by (simp add: usedIn_def sum_list_distinct_conv_sum_set sch)
  also have "\<dots> = usedIn ctx (take k xs) p + usedIn ctx (drop k xs) p"
    unfolding usedIn_def map_append sum_list_append ..
  finally have n: "length (irUsers (ilOp ctx p)) = usedIn ctx (take k xs) p + usedIn ctx (drop k xs) p + ?returns" .
  have "0 < usedIn ctx (drop k xs) p" if "x \<in> set (drop k xs)" "p \<in> set (operandOps ctx x)" for x
  proof -
    have "0 < count_list (operandOps ctx x) p" using that(2) by (simp add: count_list_0_iff zero_less_iff_neq_zero)
    also have "\<dots> \<le> usedIn ctx (drop k xs) p" unfolding usedIn_def by (rule member_le_sum_list) (use that(1) in auto)
    finally show ?thesis .
  qed
  moreover have "0 < ?returns" if "user \<in> set (irUsers (ilOp ctx p))" "isReturnOp user" for user
    using that by (auto simp: filter_empty_conv)
  ultimately show "p \<in> liveAt ctx C xs k" using p n by (auto simp: neededAt_def liveAt_def stillUsed_def)
qed

text \<open>
  C40: The outputs the BF policy puts into L1 fit. On a function whose uses follow their
  definitions, and with the inputs the policy relies on, whatever the order in which the set of
  ready ops is iterated, the policy does not fail: it schedules every schedulable op once,
  after the ops it depends on; its accounts come out even, so the assertions at the end of the
  function hold; the ops of the chain are schedulable ops with their interleaved L1 layout; and
  while any op of the schedule runs, the outputs in L1 that are needed (its own and those used by it
  or by a later op, or returned) together take no more than the available L1 memory.
\<close>

theorem bf_outputs_fit:
  assumes "schedulerOf f = Inr s0" and "bfInputsOk ctx isReturnOp f" and "\<forall>xs. set (ilIterate ctx xs) = set xs"
    and "\<forall>op \<in> set (sfOps f). \<forall>use \<in> set (sfOps f) \<union> set (sfNested f). usesFirst use op \<longrightarrow> soId op < soId use"
  shows "\<exists>c schedule. bfFunc ctx isReturnOp f = Inr (c, schedule)
    \<and> ordered_by (\<lambda>x. {y. dependsOn f x y}) schedule \<and> set schedule = schedulableIds f
    \<and> msOp ` set (lcOpL1MemSpecs c) \<subseteq> schedulableIds f \<and> chosenLayouts ctx c
    \<and> (\<forall>k < length schedule. (\<Sum>p \<in> msOp ` set (lcOpL1MemSpecs c) \<inter> neededAt ctx isReturnOp schedule k. unat (l1Size ctx p))
         \<le> unat (getAvailableL1CacheSize ctx))"
proof -
  note init = schedulerOf_state[OF assms(1)]
  then have I: "schInv (dependencies s0) s0" "ordered_by (\<lambda>x. set (dependencies s0 x)) (schSchedule s0)" by simp_all
  have "bfInv ctx (bfStart s0)" using init by (intro bfStart_inv) simp
  moreover have "ready_run isReady scheduleOp s0 (bsScheduler (bfStart s0))" by (simp add: bfStart_def ready_run.refl)
  ultimately obtain st where st: "bfLoop ctx (bfStart s0) = Inr st" "bfInv ctx st"
    "ready_run isReady scheduleOp s0 (bsScheduler st)" "\<not> hasUnscheduledOps (bsScheduler st)"
    using bfLoop_ok[OF assms(2,3,1,4)] by blast
  note R = sch.run_invariant[OF st(3) I]
  have sch: "set (bfSchedule st) = schedulableIds f" using R init st(4) by (auto simp: hasUnscheduledOps_def)
  have ord: "ordered_by (\<lambda>x. {y. dependsOn f x y}) (bfSchedule st)" using R init by (simp add: ordered_by_def)
  then have dist: "distinct (bfSchedule st)" by (simp add: ordered_by_def)
  have C: "chosenL1 st \<subseteq> schedulableIds f" using st(2) sch by (simp add: bfInv_def)
  have "bfFunc ctx isReturnOp f = Inr (bsChain st, bfSchedule st)"
    by (simp add: bfFunc_def assms(1) st(1) bfFinish_ok[OF assms(2) st(2) sch dist])
  moreover have "(\<Sum>p \<in> chosenL1 st \<inter> neededAt ctx isReturnOp (bfSchedule st) k. unat (l1Size ctx p)) \<le> unat (getAvailableL1CacheSize ctx)"
    if "k < length (bfSchedule st)" for k
  proof -
    have "(\<Sum>p \<in> chosenL1 st \<inter> neededAt ctx isReturnOp (bfSchedule st) k. unat (l1Size ctx p))
        \<le> (\<Sum>p \<in> liveAt ctx (chosenL1 st) (bfSchedule st) k. unat (l1Size ctx p))"
      by (rule sum_mono2[OF _ neededAt_live[OF assms(2) sch dist C]]) (auto simp: liveAt_def chosenL1_finite)
    also have "\<dots> \<le> unat (getAvailableL1CacheSize ctx)" using st(2) that by (simp add: bfInv_def)
    finally show ?thesis .
  qed
  ultimately show ?thesis using sch ord C st(2) by (auto simp: chosenL1_def bfInv_def)
qed

text \<open>Four ops: 0 feeds 1, and 1 and 2 feed 3, whose result is returned. Their outputs take 6, 4, 7 and 2
  tiles of 2048 bytes; 18 tiles are available.\<close>

definition bfDemo :: il_ctx where
  "bfDemo = \<lparr>
     ilOp = (\<lambda>n. \<lparr>irOperands = (if n = 1 then [OpResult 0 0] else if n = 3 then [OpResult 1 0, OpResult 2 0] else [BlockArg 0]),
         irUsers = [if n = 0 then 1 else if n = 3 then 4 else 3], irIsDPS = False\<rparr>),
     ilLegalConfigs = (\<lambda>n. if n < 4 then Some [demoConfig [1, 1] [1, [6, 4, 7, 2] ! n] Interleaved] else None),
     ilUsableL1CacheSize = 49152, ilIterate = (\<lambda>xs. xs), ilMapOrder = (\<lambda>xs. xs), ilAddress = (\<lambda>n. n)\<rparr>"

definition bfDemoFunc :: sch_func where
  "bfDemoFunc = \<lparr>sfOps = map (\<lambda>n. \<lparr>soId = n, soDialect = TTNNDialect, soName = ComputeOp, soNumResults = 1,
       soOperands = (if n = 1 then [(0, 0)] else if n = 3 then [(1, 0), (2, 0)] else [])\<rparr>) [0..<4], sfNested = []\<rparr>"

text \<open>After op 0, op 1 would free more than it takes, but the unsigned difference makes it the last
  choice: op 2 goes first, and 13 tiles are in use instead of 4 when it is done.\<close>

lemma bf_difference_wraps:
  "case bfFunc bfDemo (\<lambda>n. n = 4) bfDemoFunc of Inr (c, schedule) \<Rightarrow>
     schedule = [0, 2, 1, 3] \<and> map msOp (lcOpL1MemSpecs c) = [0, 2, 1, 3] | Inl _ \<Rightarrow> False"
  by code_simp

lemma bfDemo_ids: "schedulableIds bfDemoFunc = {0, 1, 2, 3}"
proof -
  have "schedulableIds bfDemoFunc = set (map soId (filter isTTSchedulableOp (sfOps bfDemoFunc)))"
    by (auto simp: schedulableIds_def)
  also have "map soId (filter isTTSchedulableOp (sfOps bfDemoFunc)) = [0, 1, 2, 3]" by code_simp
  finally show ?thesis by simp
qed

lemma bfDemo_inputs: "bfInputsOk bfDemo (\<lambda>n. n = 4) bfDemoFunc"
proof -
  have sizes: "map (l1Size bfDemo) [0, 1, 2, 3] = [12288, 8192, 14336, 4096]" "unat (getAvailableL1CacheSize bfDemo) = 36864"
    by code_simp+
  have ok: "\<forall>p \<in> set [0, 1, 2, 3]. hasL1BufferTypeOp bfDemo p = Inr True
    \<and> (case getL1InterleavedLayout bfDemo p of Inr l \<Rightarrow> (case getOpOutputL1Usage l of Inr n \<Rightarrow> True | Inl _ \<Rightarrow> False) | Inl _ \<Rightarrow> True)"
    by code_simp
  have uses: "dependsOn bfDemoFunc 1 0" "dependsOn bfDemoFunc 3 1" "dependsOn bfDemoFunc 3 2"
    by (auto simp: dependsOn_def bfDemoFunc_def isTTSchedulableOp_def isTTNNScheduleableOp_def usesFirst_def)
  have ops: "map (operandOps bfDemo) [0, 1, 2, 3] = [[], [0], [], [1, 2]]" by code_simp
  have users: "map (\<lambda>p. irUsers (ilOp bfDemo p)) [0, 1, 2, 3] = [[1], [3], [3], [4]]" by code_simp
  show ?thesis unfolding bfInputsOk_def bfDemo_ids
  proof (intro ballI conjI allI impI)
    fix p assume p: "p \<in> {0, 1, 2, 3 :: nat}"
    show "\<exists>b. hasL1BufferTypeOp bfDemo p = Inr b" using p ok by auto
    show "2 dvd l1Size bfDemo p" "unat (getAvailableL1CacheSize bfDemo) + unat (l1Size bfDemo p) < 2 ^ 64"
      "length (irUsers (ilOp bfDemo p)) < 2 ^ 64" using p sizes users by auto
    show "length (irUsers (ilOp bfDemo p)) = (\<Sum>x \<in> {0, 1, 2, 3}. count_list (operandOps bfDemo x) p)
         + length (filter (\<lambda>n. n = 4) (irUsers (ilOp bfDemo p)))" using p ops users by auto
    show "dependsOn bfDemoFunc x p" if "x \<in> {0, 1, 2, 3}" "p \<in> set (operandOps bfDemo x)" for x
      using that ops uses by auto
    show "\<exists>n. getOpOutputL1Usage l = Inr n" if "getL1InterleavedLayout bfDemo p = Inr l" for l
      using p ok that by (cases "getOpOutputL1Usage l") auto
  qed
qed

theorem bf_outputs_fit_witness:
  "\<exists>c schedule. bfFunc bfDemo (\<lambda>n. n = 4) bfDemoFunc = Inr (c, schedule) \<and> set schedule = {0, 1, 2, 3}
    \<and> (\<forall>k < length schedule. (\<Sum>p \<in> msOp ` set (lcOpL1MemSpecs c) \<inter> neededAt bfDemo (\<lambda>n. n = 4) schedule k. unat (l1Size bfDemo p)) \<le> 36864)"
proof -
  have "case schedulerOf bfDemoFunc of Inl _ \<Rightarrow> False | Inr s \<Rightarrow> True" by code_simp
  then obtain s0 where s0: "schedulerOf bfDemoFunc = Inr s0" by (cases "schedulerOf bfDemoFunc") auto
  have ssa: "\<forall>op \<in> set (sfOps bfDemoFunc). \<forall>use \<in> set (sfOps bfDemoFunc) \<union> set (sfNested bfDemoFunc).
      usesFirst use op \<longrightarrow> soId op < soId use"
    by code_simp
  have "unat (getAvailableL1CacheSize bfDemo) = 36864" by code_simp
  moreover have "\<forall>xs. set (ilIterate bfDemo xs) = set xs" by (simp add: bfDemo_def)
  ultimately show ?thesis using bf_outputs_fit[OF s0 bfDemo_inputs _ ssa] unfolding bfDemo_ids by auto
qed

end
