(* ===== verification/LayoutPolicies.thy ===== *)
theory LayoutPolicies
  imports DFSharding GreedyPolicy BFInterleaved
begin

text \<open>
  \<open>MemoryLayoutAnalysis\<close> with its three policies, and \<open>OpConfigAnalysis\<close>, which picks one config for every op
  of what the policy has left.
\<close>

datatype memory_layout_policy = DFShardingPolicy | GreedyL1InterleavedPolicy | BFInterleavedPolicy

text \<open>The functions of the module, as each policy sees them.\<close>

record policy_input =
  piDF :: df_ctx
  piIL :: il_ctx
  piDFFuncs :: "df_func list"
  piGreedyFuncs :: "greedy_func list"
  piIsReturnOp :: "nat \<Rightarrow> bool"
  piLegalConfigs :: "(nat \<times> op_config list) list"

definition filterConfigs ::
  "(op_config list \<Rightarrow> fault + op_config list) \<Rightarrow> (nat \<times> op_config list) list \<Rightarrow> fault + (nat \<times> op_config list) list" where
  "filterConfigs f legalConfigs = mapE (\<lambda>(op, configs). rbind (f configs) (\<lambda>kept. Inr (op, kept))) legalConfigs"

text \<open>The chains of a policy.\<close>

definition runPolicy :: "memory_layout_policy \<Rightarrow> policy_input \<Rightarrow> fault + l1_chain list" where
  "runPolicy policy inp =
     (case policy of
        DFShardingPolicy \<Rightarrow>
          rbind (filterConfigs filterShardedOnly (piLegalConfigs inp)) (\<lambda>configs.
          rbind (dfRun ((piDF inp)\<lparr>dfSolver := (dfSolver (piDF inp))\<lparr>scLegalConfigs := map_of configs\<rparr>\<rparr>) (piDFFuncs inp))
            (\<lambda>(l1Chains, schedules). Inr l1Chains))
      | GreedyL1InterleavedPolicy \<Rightarrow>
          rbind (filterConfigs filterDRAMAndL1Interleaved (piLegalConfigs inp)) (\<lambda>configs.
          rbind (greedyRun ((piIL inp)\<lparr>ilLegalConfigs := map_of configs\<rparr>) (piGreedyFuncs inp)) (\<lambda>(l1Chains, schedules). Inr l1Chains))
      | BFInterleavedPolicy \<Rightarrow>
          rbind (filterConfigs filterDRAMAndL1Interleaved (piLegalConfigs inp)) (\<lambda>configs.
          rbind (bfRun ((piIL inp)\<lparr>ilLegalConfigs := map_of configs\<rparr>) (piIsReturnOp inp) (map gfFunc (piGreedyFuncs inp)))
            (\<lambda>(l1Chains, schedules). Inr l1Chains)))"

definition memoryLayoutAnalysis :: "memory_layout_policy \<Rightarrow> policy_input \<Rightarrow> fault + layout_analysis" where
  "memoryLayoutAnalysis policy inp =
     rbind (runPolicy policy inp) (\<lambda>l1Chains.
     foldE collectChain l1Chains
       \<lparr>laLegalConfigs = map_of (piLegalConfigs inp), laReconfig = (\<lambda>_. None), laSpillToDramOps = []\<rparr>)"

text \<open>\<open>OpConfigAnalysis\<close>: the first config of every op.\<close>

definition opConfigAnalysis :: "(nat \<times> op_config list) list \<Rightarrow> fault + (nat \<times> op_config) list" where
  "opConfigAnalysis legalConfigs = mapE (\<lambda>(op, configs). rbind (at configs 0) (\<lambda>config. Inr (op, config))) legalConfigs"

section \<open>What the policies leave of an op\<close>

lemma analysis_of_df:
  "analysisImplementation ctx legalConfigs funcs = memoryLayoutAnalysis DFShardingPolicy
     \<lparr>piDF = ctx, piIL = il, piDFFuncs = funcs, piGreedyFuncs = gs, piIsReturnOp = r, piLegalConfigs = legalConfigs\<rparr>"
  by (auto simp: analysisImplementation_def memoryLayoutAnalysis_def runPolicy_def filterConfigs_def rbind_def
    split: sum.splits)

text \<open>Once a chain is collected, every op of it has the one config of its spec.\<close>

lemma foldl_specs:
  "op \<notin> msOp ` set specs \<Longrightarrow> foldl (\<lambda>m spec. m(msOp spec \<mapsto> [msConfig spec])) m specs op = m op"
  by (induction specs arbitrary: m) auto

lemma foldl_specs_in:
  "spec \<in> set specs \<Longrightarrow> distinct (map msOp specs)
    \<Longrightarrow> foldl (\<lambda>m spec. m(msOp spec \<mapsto> [msConfig spec])) m specs (msOp spec) = Some [msConfig spec]"
  by (induction specs arbitrary: m) (auto simp: foldl_specs)

lemma collectChain_configs:
  assumes "collectChain c r = Inr r'" and "lcState c \<noteq> Failed" and "distinct (map msOp (lcOpL1MemSpecs c))"
  shows "\<forall>spec \<in> set (lcOpL1MemSpecs c). laLegalConfigs r' (msOp spec) = Some [msConfig spec]"
    and "op \<notin> msOp ` set (lcOpL1MemSpecs c) \<Longrightarrow> laLegalConfigs r' op = laLegalConfigs r op"
  using assms by (auto simp: collectChain_def rbind_Inr_iff Let_def foldl_specs foldl_specs_in split: if_splits)

end
