(* ===== verification/PassOverrides.thy ===== *)
theory PassOverrides
  imports TTTypes "HOL-Library.AList"
begin

text \<open>
  The command line overrides of the optimizer (\<open>Dialect/TTNN/Utils/PassOverrides.cpp\<close>): three
  parsers from an option string to a map from op names to parameters, and the printers in the
  other direction.

  The functions of LLVM's \<open>StringRef\<close> the parsers call are parameters, a record of functions;
  what is assumed of them is stated as \<open>stringRefOk\<close>.
\<close>

section \<open>Strings\<close>

record string_ref =
  srSplit :: "char \<Rightarrow> string \<Rightarrow> string list"
  srSplitPair :: "char \<Rightarrow> string \<Rightarrow> string \<times> string"
  srGetAsInt64 :: "string \<Rightarrow> int option"
  srGetAsUInt32 :: "string \<Rightarrow> 32 word option"
  srEqualsInsensitive :: "string \<Rightarrow> string \<Rightarrow> bool"

text \<open>\<open>std::to_string\<close>.\<close>

definition digitChar :: "nat \<Rightarrow> char" where
  "digitChar d = char_of (48 + d)"

fun decimalNat :: "nat \<Rightarrow> string" where
  "decimalNat n = (if n < 10 then [digitChar n] else decimalNat (n div 10) @ [digitChar (n mod 10)])"

declare decimalNat.simps [simp del]

definition decimal :: "int \<Rightarrow> string" where
  "decimal i = (if i < 0 then CHR ''-'' # decimalNat (nat (- i)) else decimalNat (nat i))"

text \<open>A list of strings with a separator between them.\<close>

fun joinWith :: "char \<Rightarrow> string list \<Rightarrow> string" where
  "joinWith c [] = []"
| "joinWith c [s] = s"
| "joinWith c (s # t # ss) = s @ c # joinWith c (t # ss)"

text \<open>What LLVM documents: \<open>split\<close> cuts at every separator and keeps empty parts, the split in two cuts
  at the first separator, \<open>getAsInteger\<close> reads a decimal in range, and \<open>equals_insensitive\<close>
  compares up to the case of letters.\<close>

definition toLower :: "char \<Rightarrow> char" where
  "toLower c = (let n = of_char c :: nat in if 65 \<le> n \<and> n \<le> 90 then char_of (n + 32) else c)"

definition stringRefOk :: "string_ref \<Rightarrow> bool" where
  "stringRefOk sr \<longleftrightarrow>
     (\<forall>c parts. parts \<noteq> [] \<longrightarrow> (\<forall>s \<in> set parts. c \<notin> set s) \<longrightarrow> srSplit sr c (joinWith c parts) = parts)
     \<and> (\<forall>c a b. c \<notin> set a \<longrightarrow> srSplitPair sr c (a @ c # b) = (a, b))
     \<and> (\<forall>i. - (2 ^ 63) \<le> i \<longrightarrow> i < 2 ^ 63 \<longrightarrow> srGetAsInt64 sr (decimal i) = Some i)
     \<and> (\<forall>w. srGetAsUInt32 sr (decimal (uint w)) = Some w)
     \<and> (\<forall>a b. srEqualsInsensitive sr a b \<longleftrightarrow> map toLower a = map toLower b)"

section \<open>Enumerations\<close>

text \<open>The enum strings of the dialects, and the generated lookups.\<close>

fun DataTypeEnumToString :: "data_type \<Rightarrow> string" where
  "DataTypeEnumToString Float32 = ''f32''"
| "DataTypeEnumToString Float16 = ''f16''"
| "DataTypeEnumToString BFloat16 = ''bf16''"
| "DataTypeEnumToString BFP_Float8 = ''bfp_f8''"
| "DataTypeEnumToString BFP_BFloat8 = ''bfp_bf8''"
| "DataTypeEnumToString BFP_Float4 = ''bfp_f4''"
| "DataTypeEnumToString BFP_BFloat4 = ''bfp_bf4''"
| "DataTypeEnumToString BFP_Float2 = ''bfp_f2''"
| "DataTypeEnumToString BFP_BFloat2 = ''bfp_bf2''"
| "DataTypeEnumToString UInt32 = ''u32''"
| "DataTypeEnumToString UInt16 = ''u16''"
| "DataTypeEnumToString UInt8 = ''u8''"
| "DataTypeEnumToString Int32 = ''si32''"

definition DataTypeStringToEnum :: "string \<Rightarrow> data_type option" where
  "DataTypeStringToEnum s = List.find (\<lambda>d. DataTypeEnumToString d = s)
     [Float32, Float16, BFloat16, BFP_Float8, BFP_BFloat8, BFP_Float4, BFP_BFloat4, BFP_Float2, BFP_BFloat2,
      UInt32, UInt16, UInt8, Int32]"

fun stringifyTensorMemoryLayout :: "tensor_memory_layout \<Rightarrow> string" where
  "stringifyTensorMemoryLayout Interleaved = ''interleaved''"
| "stringifyTensorMemoryLayout SingleBank = ''single_bank''"
| "stringifyTensorMemoryLayout HeightSharded = ''height_sharded''"
| "stringifyTensorMemoryLayout WidthSharded = ''width_sharded''"
| "stringifyTensorMemoryLayout BlockSharded = ''block_sharded''"

definition symbolizeTensorMemoryLayout :: "string \<Rightarrow> tensor_memory_layout option" where
  "symbolizeTensorMemoryLayout s = List.find (\<lambda>d. stringifyTensorMemoryLayout d = s)
     [Interleaved, SingleBank, HeightSharded, WidthSharded, BlockSharded]"

fun stringifyBufferType :: "buffer_type \<Rightarrow> string" where
  "stringifyBufferType DRAM = ''dram''"
| "stringifyBufferType L1 = ''l1''"
| "stringifyBufferType SystemMemory = ''system_memory''"
| "stringifyBufferType L1Small = ''l1_small''"
| "stringifyBufferType Trace = ''trace''"

definition symbolizeBufferType :: "string \<Rightarrow> buffer_type option" where
  "symbolizeBufferType s = List.find (\<lambda>d. stringifyBufferType d = s) [DRAM, L1, SystemMemory, L1Small, Trace]"

fun stringifyLayout :: "layout \<Rightarrow> string" where
  "stringifyLayout RowMajor = ''row_major''"
| "stringifyLayout Tile = ''tile''"
| "stringifyLayout InvalidLayout = ''invalid''"

definition symbolizeLayout :: "string \<Rightarrow> layout option" where
  "symbolizeLayout s = List.find (\<lambda>d. stringifyLayout d = s) [RowMajor, Tile, InvalidLayout]"

section \<open>The option string\<close>

datatype override_error = InvalidFormat string | InvalidParam string | DuplicateParam string | InvalidName string
  | CoreGridNotSupported

text \<open>All three parsers cut the option string into overrides \<open>name=parameters\<close>; a later override of a
  name replaces an earlier one.\<close>

definition parseOverrides ::
  "string_ref \<Rightarrow> (string \<Rightarrow> override_error + 'p) \<Rightarrow> string \<Rightarrow> override_error + (string \<times> 'p) list" where
  "parseOverrides sr parseParams arg =
     foldE (\<lambda>opOverrides value.
       case srSplit sr (CHR ''='') opOverrides of
         [opName, paramPart] \<Rightarrow> rbind (parseParams paramPart) (\<lambda>params. Inr (AList.update opName params value))
       | _ \<Rightarrow> Inl (InvalidFormat opOverrides)) (srSplit sr (CHR '','') arg) []"

text \<open>The printers write the entries in the order of the map.\<close>

fun printOverrides :: "(string \<times> 'p \<Rightarrow> string) \<Rightarrow> (string \<times> 'p) list \<Rightarrow> string" where
  "printOverrides printEntry [] = []"
| "printOverrides printEntry [entry] = printEntry entry"
| "printOverrides printEntry (entry # e # es) = printEntry entry @ '','' @ printOverrides printEntry (e # es)"

section \<open>Input layout overrides\<close>

definition parseOperandIndexes :: "string_ref \<Rightarrow> string \<Rightarrow> override_error + int list" where
  "parseOperandIndexes sr s =
     mapE (\<lambda>part. case srGetAsInt64 sr part of Some i \<Rightarrow> Inr i | None \<Rightarrow> Inl (InvalidParam part)) (srSplit sr (CHR '':'') s)"

definition inputOverrideParse :: "string_ref \<Rightarrow> string \<Rightarrow> override_error + (string \<times> int list) list" where
  "inputOverrideParse sr = parseOverrides sr (parseOperandIndexes sr)"

text \<open>The last character is removed, whatever it is.\<close>

definition inputOverrideToString :: "(string \<times> int list) list \<Rightarrow> string" where
  "inputOverrideToString = printOverrides (\<lambda>(key, operandIdxes).
     butlast (key @ ''='' @ concat (map (\<lambda>operandIdx. decimal operandIdx @ '':'') operandIdxes)))"

section \<open>Output layout overrides\<close>

record output_override =
  ovGrid :: "int list option"
  ovBufferType :: "buffer_type option"
  ovTensorMemoryLayout :: "tensor_memory_layout option"
  ovMemoryLayout :: "layout option"
  ovDataType :: "data_type option"

definition noOutputOverride :: output_override where
  "noOutputOverride = \<lparr>ovGrid = None, ovBufferType = None, ovTensorMemoryLayout = None, ovMemoryLayout = None, ovDataType = None\<rparr>"

definition fullLayoutOverride :: "output_override \<Rightarrow> bool" where
  "fullLayoutOverride p \<longleftrightarrow> ovGrid p \<noteq> None \<and> ovBufferType p \<noteq> None \<and> ovTensorMemoryLayout p \<noteq> None \<and> ovMemoryLayout p \<noteq> None"

text \<open>An invalid size is reported, but parsing goes on with the other alternatives.\<close>

definition parseGrid :: "string_ref \<Rightarrow> string \<Rightarrow> int list option" where
  "parseGrid sr param =
     (case srSplit sr (CHR ''x'') param of
        [gridX, gridY] \<Rightarrow> (case (srGetAsInt64 sr gridX, srGetAsInt64 sr gridY) of (Some x, Some y) \<Rightarrow> Some [x, y] | _ \<Rightarrow> None)
      | _ \<Rightarrow> None)"

text \<open>A parameter may be set once.\<close>

definition setOnce :: "string \<Rightarrow> 'v option \<Rightarrow> (('v option \<Rightarrow> 'v option) \<Rightarrow> 'p \<Rightarrow> 'p) \<Rightarrow> 'v \<Rightarrow> 'p \<Rightarrow> override_error + 'p" where
  "setOnce param current upd v params = (if current \<noteq> None then Inl (DuplicateParam param) else Inr (upd (\<lambda>_. Some v) params))"

definition parseLayoutParam :: "string_ref \<Rightarrow> string \<Rightarrow> output_override \<Rightarrow> override_error + output_override" where
  "parseLayoutParam sr param params =
     (case parseGrid sr param of Some g \<Rightarrow> setOnce param (ovGrid params) ovGrid_update g params
      | None \<Rightarrow>
     (case symbolizeBufferType param of Some b \<Rightarrow> setOnce param (ovBufferType params) ovBufferType_update b params
      | None \<Rightarrow>
     (case symbolizeTensorMemoryLayout param of Some m \<Rightarrow> setOnce param (ovTensorMemoryLayout params) ovTensorMemoryLayout_update m params
      | None \<Rightarrow>
     (case symbolizeLayout param of Some l \<Rightarrow> setOnce param (ovMemoryLayout params) ovMemoryLayout_update l params
      | None \<Rightarrow>
     (case DataTypeStringToEnum param of Some d \<Rightarrow> setOnce param (ovDataType params) ovDataType_update d params
      | None \<Rightarrow> Inl (InvalidParam param))))))"

definition parseLayoutParams :: "string_ref \<Rightarrow> string \<Rightarrow> override_error + output_override" where
  "parseLayoutParams sr s = foldE (parseLayoutParam sr) (srSplit sr (CHR '':'') s) noOutputOverride"

definition outputOverrideParse :: "string_ref \<Rightarrow> string \<Rightarrow> override_error + (string \<times> output_override) list" where
  "outputOverrideParse sr = parseOverrides sr (parseLayoutParams sr)"

definition optionPart :: "('v \<Rightarrow> string) \<Rightarrow> 'v option \<Rightarrow> string list" where
  "optionPart p v = (case v of Some x \<Rightarrow> [p x] | None \<Rightarrow> [])"

definition layoutParts :: "output_override \<Rightarrow> string list" where
  "layoutParts params =
     optionPart (\<lambda>g. joinWith (CHR ''x'') (map decimal g)) (ovGrid params)
     @ optionPart stringifyBufferType (ovBufferType params)
     @ optionPart stringifyTensorMemoryLayout (ovTensorMemoryLayout params)
     @ optionPart stringifyLayout (ovMemoryLayout params)
     @ optionPart DataTypeEnumToString (ovDataType params)"

definition outputOverrideToString :: "(string \<times> output_override) list \<Rightarrow> string" where
  "outputOverrideToString = printOverrides (\<lambda>(key, params).
     key @ ''='' @ foldl (\<lambda>a b. if a = [] then b else a @ '':'' @ b) [] (layoutParts params))"

section \<open>Conv2d config overrides\<close>

record conv2d_override =
  cpDtype :: "data_type option"
  cpWeightsDtype :: "data_type option"
  cpActivation :: "string option"
  cpDeallocateActivation :: "bool option"
  cpReallocateHaloOutput :: "bool option"
  cpActBlockHOverride :: "32 word option"
  cpActBlockWDiv :: "32 word option"
  cpReshardIfNotOptimal :: "bool option"
  cpOverrideShardingConfig :: "bool option"
  cpShardLayout :: "tensor_memory_layout option"
  cpCoreGrid :: "nat option"
  cpTransposeShards :: "bool option"
  cpOutputLayout :: "layout option"
  cpPreprocessWeightsOnDevice :: "bool option"
  cpAlwaysPreprocessWeights :: "bool option"
  cpEnableActDoubleBuffer :: "bool option"
  cpEnableWeightsDoubleBuffer :: "bool option"
  cpEnableSplitReader :: "bool option"
  cpEnableSubblockPadding :: "bool option"

text \<open>The core grid is an attribute the parser never builds; here it is only a number.\<close>

definition noConv2dOverride :: conv2d_override where
  "noConv2dOverride = \<lparr>cpDtype = None, cpWeightsDtype = None, cpActivation = None, cpDeallocateActivation = None, cpReallocateHaloOutput = None, cpActBlockHOverride = None, cpActBlockWDiv = None, cpReshardIfNotOptimal = None, cpOverrideShardingConfig = None, cpShardLayout = None, cpCoreGrid = None, cpTransposeShards = None, cpOutputLayout = None, cpPreprocessWeightsOnDevice = None, cpAlwaysPreprocessWeights = None, cpEnableActDoubleBuffer = None, cpEnableWeightsDoubleBuffer = None, cpEnableSplitReader = None, cpEnableSubblockPadding = None\<rparr>"

text \<open>\<open>parseBool\<close>, and the values of the activation.\<close>

definition parseBool :: "string_ref \<Rightarrow> string \<Rightarrow> bool option" where
  "parseBool sr param =
     (if srEqualsInsensitive sr param ''true'' then Some True
      else if srEqualsInsensitive sr param ''false'' then Some False else None)"

definition parseActivation :: "string_ref \<Rightarrow> string \<Rightarrow> string option" where
  "parseActivation sr activation =
     (if \<not> srEqualsInsensitive sr activation ''relu'' \<and> \<not> srEqualsInsensitive sr activation ''none'' then None
      else if srEqualsInsensitive sr activation ''none'' then Some [] else Some activation)"

text \<open>A parameter with a value that may be invalid, and that may be set once.\<close>

definition setParam ::
  "string \<Rightarrow> 'v option \<Rightarrow> 'v option \<Rightarrow> (('v option \<Rightarrow> 'v option) \<Rightarrow> 'p \<Rightarrow> 'p) \<Rightarrow> 'p \<Rightarrow> override_error + 'p" where
  "setParam param parsed current upd params =
     (case parsed of None \<Rightarrow> Inl (InvalidParam param) | Some v \<Rightarrow> setOnce param current upd v params)"

definition parseConv2dParam :: "string_ref \<Rightarrow> string \<Rightarrow> conv2d_override \<Rightarrow> override_error + conv2d_override" where
  "parseConv2dParam sr param params =
     (let (paramName, paramValue) = srSplitPair sr (CHR ''#'') param in
      if paramName = ''dtype''
        then setParam param (DataTypeStringToEnum paramValue) (cpDtype params) cpDtype_update params
      else if paramName = ''weights_dtype''
        then setParam param (DataTypeStringToEnum paramValue) (cpWeightsDtype params) cpWeightsDtype_update params
      else if paramName = ''activation''
        then setParam param (parseActivation sr paramValue) (cpActivation params) cpActivation_update params
      else if paramName = ''deallocate_activation''
        then setParam param (parseBool sr paramValue) (cpDeallocateActivation params) cpDeallocateActivation_update params
      else if paramName = ''reallocate_halo_output''
        then setParam param (parseBool sr paramValue) (cpReallocateHaloOutput params) cpReallocateHaloOutput_update params
      else if paramName = ''act_block_h_override''
        then setParam param (srGetAsUInt32 sr paramValue) (cpActBlockHOverride params) cpActBlockHOverride_update params
      else if paramName = ''act_block_w_div''
        then setParam param (srGetAsUInt32 sr paramValue) (cpActBlockWDiv params) cpActBlockWDiv_update params
      else if paramName = ''reshard_if_not_optimal''
        then setParam param (parseBool sr paramValue) (cpReshardIfNotOptimal params) cpReshardIfNotOptimal_update params
      else if paramName = ''override_sharding_config''
        then setParam param (parseBool sr paramValue) (cpOverrideShardingConfig params) cpOverrideShardingConfig_update params
      else if paramName = ''shard_layout''
        then setParam param (symbolizeTensorMemoryLayout paramValue) (cpShardLayout params) cpShardLayout_update params
      else if paramName = ''core_grid''
        then Inl CoreGridNotSupported
      else if paramName = ''transpose_shards''
        then setParam param (parseBool sr paramValue) (cpTransposeShards params) cpTransposeShards_update params
      else if paramName = ''output_layout''
        then setParam param (symbolizeLayout paramValue) (cpOutputLayout params) cpOutputLayout_update params
      else if paramName = ''preprocess_weights_on_device''
        then setParam param (parseBool sr paramValue) (cpPreprocessWeightsOnDevice params) cpPreprocessWeightsOnDevice_update params
      else if paramName = ''always_preprocess_weights''
        then setParam param (parseBool sr paramValue) (cpAlwaysPreprocessWeights params) cpAlwaysPreprocessWeights_update params
      else if paramName = ''enable_act_double_buffer''
        then setParam param (parseBool sr paramValue) (cpEnableActDoubleBuffer params) cpEnableActDoubleBuffer_update params
      else if paramName = ''enable_weights_double_buffer''
        then setParam param (parseBool sr paramValue) (cpEnableWeightsDoubleBuffer params) cpEnableWeightsDoubleBuffer_update params
      else if paramName = ''enable_split_reader''
        then setParam param (parseBool sr paramValue) (cpEnableSplitReader params) cpEnableSplitReader_update params
      else if paramName = ''enable_subblock_padding''
        then setParam param (parseBool sr paramValue) (cpEnableSubblockPadding params) cpEnableSubblockPadding_update params
      else Inl (InvalidName paramName))"

definition parseConv2dParams :: "string_ref \<Rightarrow> string \<Rightarrow> override_error + conv2d_override" where
  "parseConv2dParams sr s = foldE (parseConv2dParam sr) (srSplit sr (CHR '':'') s) noConv2dOverride"

definition conv2dOverrideParse :: "string_ref \<Rightarrow> string \<Rightarrow> override_error + (string \<times> conv2d_override) list" where
  "conv2dOverrideParse sr = parseOverrides sr (parseConv2dParams sr)"

definition boolString :: "bool \<Rightarrow> string" where
  "boolString b = (if b then ''true'' else ''false'')"

text \<open>The core grid is not printed.\<close>

definition conv2dParts :: "conv2d_override \<Rightarrow> string list" where
  "conv2dParts params =
     optionPart (\<lambda>v. ''dtype#'' @ DataTypeEnumToString v) (cpDtype params)
     @ optionPart (\<lambda>v. ''weights_dtype#'' @ DataTypeEnumToString v) (cpWeightsDtype params)
     @ optionPart (\<lambda>v. ''activation#'' @ v) (cpActivation params)
     @ optionPart (\<lambda>v. ''deallocate_activation#'' @ boolString v) (cpDeallocateActivation params)
     @ optionPart (\<lambda>v. ''reallocate_halo_output#'' @ boolString v) (cpReallocateHaloOutput params)
     @ optionPart (\<lambda>v. ''act_block_h_override#'' @ decimal (uint v)) (cpActBlockHOverride params)
     @ optionPart (\<lambda>v. ''act_block_w_div#'' @ decimal (uint v)) (cpActBlockWDiv params)
     @ optionPart (\<lambda>v. ''reshard_if_not_optimal#'' @ boolString v) (cpReshardIfNotOptimal params)
     @ optionPart (\<lambda>v. ''override_sharding_config#'' @ boolString v) (cpOverrideShardingConfig params)
     @ optionPart (\<lambda>v. ''shard_layout#'' @ stringifyTensorMemoryLayout v) (cpShardLayout params)
     @ optionPart (\<lambda>v. ''transpose_shards#'' @ boolString v) (cpTransposeShards params)
     @ optionPart (\<lambda>v. ''output_layout#'' @ stringifyLayout v) (cpOutputLayout params)
     @ optionPart (\<lambda>v. ''preprocess_weights_on_device#'' @ boolString v) (cpPreprocessWeightsOnDevice params)
     @ optionPart (\<lambda>v. ''always_preprocess_weights#'' @ boolString v) (cpAlwaysPreprocessWeights params)
     @ optionPart (\<lambda>v. ''enable_act_double_buffer#'' @ boolString v) (cpEnableActDoubleBuffer params)
     @ optionPart (\<lambda>v. ''enable_weights_double_buffer#'' @ boolString v) (cpEnableWeightsDoubleBuffer params)
     @ optionPart (\<lambda>v. ''enable_split_reader#'' @ boolString v) (cpEnableSplitReader params)
     @ optionPart (\<lambda>v. ''enable_subblock_padding#'' @ boolString v) (cpEnableSubblockPadding params)"

text \<open>Every part is followed by a colon, and the last colon removed.\<close>

definition conv2dOverrideToString :: "(string \<times> conv2d_override) list \<Rightarrow> string" where
  "conv2dOverrideToString = printOverrides (\<lambda>(key, params).
     key @ ''='' @ butlast (concat (map (\<lambda>part. part @ '':'') (conv2dParts params))))"

end
