(* ===== verification/PassOverridesFacts.thy ===== *)
theory PassOverridesFacts
  imports PassOverrides
begin

text \<open>Printing and parsing the overrides are inverse to each other.\<close>

section \<open>Decimals\<close>

lemma digitChar_simps: "digitChar 0 = CHR ''0''" "digitChar 1 = CHR ''1''" "digitChar 2 = CHR ''2''" "digitChar 3 = CHR ''3''"
  "digitChar 4 = CHR ''4''" "digitChar 5 = CHR ''5''" "digitChar 6 = CHR ''6''" "digitChar 7 = CHR ''7''"
  "digitChar 8 = CHR ''8''" "digitChar 9 = CHR ''9''"
  by code_simp+

text \<open>The characters that separate parts.\<close>

definition separators :: "char set" where
  "separators = {CHR '','', CHR ''='', CHR '':'', CHR ''x'', CHR ''#''}"

lemma digitChar_plain: "d < 10 \<Longrightarrow> digitChar d \<notin> separators"
proof -
  assume "d < 10"
  then have "d \<in> {0, 1, 2, 3, 4, 5, 6, 7, 8, 9}" by auto
  then show ?thesis by (auto simp: separators_def digitChar_simps[simplified] digitChar_simps)
qed

lemma decimalNat_plain: "set (decimalNat n) \<inter> separators = {}"
proof (induction n rule: decimalNat.induct)
  case (1 n)
  have "digitChar (n mod 10) \<notin> separators" "n < 10 \<Longrightarrow> digitChar n \<notin> separators"
    by (simp_all add: digitChar_plain)
  with 1 show ?case by (subst decimalNat.simps) auto
qed

lemma decimal_plain: "c \<in> separators \<Longrightarrow> c \<notin> set (decimal i)"
  using decimalNat_plain by (auto simp: decimal_def separators_def)

lemma decimalNat_nonempty: "decimalNat n \<noteq> []"
  by (subst decimalNat.simps) simp

lemma decimal_nonempty: "decimal i \<noteq> []"
  by (simp add: decimal_def decimalNat_nonempty)

section \<open>Joining\<close>

lemma joinWith_Cons: "joinWith c (s # ss) = (if ss = [] then s else s @ c # joinWith c ss)"
  by (cases ss) simp_all

lemma joinWith_set: "set (joinWith c ss) \<subseteq> insert c (\<Union> (set ` set ss))"
  by (induction ss) (auto simp: joinWith_Cons split: if_splits)

lemma butlast_concat_join: "butlast (concat (map (\<lambda>s. s @ [c]) ss)) = joinWith c ss"
proof (induction ss)
  case (Cons s ss)
  show ?case
  proof (cases "ss = []")
    case False
    then have "concat (map (\<lambda>s. s @ [c]) ss) \<noteq> []" by (cases ss) auto
    with False Cons show ?thesis by (simp add: joinWith_Cons butlast_append)
  qed simp
qed simp

lemma foldl_join_from:
  "a \<noteq> [] \<Longrightarrow> foldl (\<lambda>a b. if a = [] then b else a @ c # b) a ss = (if ss = [] then a else a @ c # joinWith c ss)"
  by (induction ss arbitrary: a) (simp_all add: joinWith_Cons)

lemma foldl_join: "\<forall>s \<in> set ss. s \<noteq> [] \<Longrightarrow> foldl (\<lambda>a b. if a = [] then b else a @ c # b) [] ss = joinWith c ss"
  by (cases ss) (simp_all add: joinWith_Cons foldl_join_from)

lemma printOverrides_join: "printOverrides p es = joinWith (CHR '','') (map p es)"
  by (induction p es rule: printOverrides.induct) simp_all

lemma split_join: "stringRefOk sr \<Longrightarrow> parts \<noteq> [] \<Longrightarrow> (\<forall>s \<in> set parts. c \<notin> set s) \<Longrightarrow> srSplit sr c (joinWith c parts) = parts"
  by (simp add: stringRefOk_def)

lemma split_single: "stringRefOk sr \<Longrightarrow> c \<notin> set s \<Longrightarrow> srSplit sr c s = [s]"
  using split_join[of sr "[s]" c] by simp

lemma split_two: "stringRefOk sr \<Longrightarrow> c \<notin> set s \<Longrightarrow> c \<notin> set t \<Longrightarrow> srSplit sr c (s @ c # t) = [s, t]"
  using split_join[of sr "[s, t]" c] by simp

section \<open>Overrides of several ops\<close>

definition nameOk :: "string \<Rightarrow> bool" where
  "nameOk key \<longleftrightarrow> CHR '','' \<notin> set key \<and> CHR ''='' \<notin> set key"

lemma AList_update_new: "k \<notin> fst ` set al \<Longrightarrow> AList.update k v al = al @ [(k, v)]"
  by (induction al) auto

lemma overrides_roundtrip_by:
  assumes sr: "stringRefOk sr" and ne: "m \<noteq> []" and dist: "distinct (map fst m)"
    and entries: "\<And>key p. (key, p) \<in> set m \<Longrightarrow> nameOk key \<and> CHR '','' \<notin> set (body p) \<and> CHR ''='' \<notin> set (body p) \<and> parse (body p) = Inr p"
  shows "parseOverrides sr parse (printOverrides (\<lambda>(key, p). key @ CHR ''='' # body p) m) = Inr m"
proof -
  define text_of where "text_of = (\<lambda>(key, p). key @ CHR ''='' # body p)"
  have "CHR '','' \<notin> set (text_of e)" if "e \<in> set m" for e
    using entries[of "fst e" "snd e"] that by (auto simp: text_of_def nameOk_def split_beta)
  then have "\<forall>s \<in> set (map text_of m). CHR '','' \<notin> set s" by simp
  then have split: "srSplit sr (CHR '','') (printOverrides text_of m) = map text_of m"
    unfolding printOverrides_join using ne by (intro split_join[OF sr]) simp_all
  define step where "step = (\<lambda>opOverrides value.
       case srSplit sr (CHR ''='') opOverrides of
         [opName, paramPart] \<Rightarrow> rbind (parse paramPart) (\<lambda>params. Inr (AList.update opName params value))
       | _ \<Rightarrow> Inl (InvalidFormat opOverrides))"
  have "foldE step (map text_of es) done_m = Inr (done_m @ es)"
    if "set es \<subseteq> set m" "distinct (map fst (done_m @ es))" for es done_m
    using that
  proof (induction es arbitrary: done_m)
    case (Cons e es)
    obtain key p where e: "e = (key, p)" by (cases e)
    with Cons.prems entries have k: "nameOk key" "CHR ''='' \<notin> set (body p)" "parse (body p) = Inr p" by auto
    have "step (text_of e) done_m = Inr (done_m @ [(key, p)])"
      using k split_two[OF sr, of "CHR ''=''" key "body p"] Cons.prems(2)
      by (simp add: step_def text_of_def e nameOk_def AList_update_new)
    with Cons.IH[of "done_m @ [(key, p)]"] Cons.prems show ?case by (simp add: e)
  qed simp
  from this[of m "[]"] dist show ?thesis
    by (simp add: parseOverrides_def split text_of_def[symmetric] step_def[symmetric])
qed

section \<open>Input and output layouts\<close>

definition fitsInt64 :: "int \<Rightarrow> bool" where
  "fitsInt64 i \<longleftrightarrow> - (2 ^ 63) \<le> i \<and> i < 2 ^ 63"

definition inputOk :: "int list \<Rightarrow> bool" where
  "inputOk idx \<longleftrightarrow> idx \<noteq> [] \<and> (\<forall>i \<in> set idx. fitsInt64 i)"

lemma input_body:
  "butlast (key @ ''='' @ concat (map (\<lambda>i. decimal i @ '':'') idx)) = key @ CHR ''='' # joinWith (CHR '':'') (map decimal idx)"
  if "idx \<noteq> []"
proof -
  from that have "concat (map (\<lambda>i. decimal i @ '':'') idx) \<noteq> []" by (cases idx) auto
  moreover have "concat (map (\<lambda>i. decimal i @ '':'') idx) = concat (map (\<lambda>s. s @ '':'') (map decimal idx))" by (simp add: comp_def)
  ultimately show ?thesis by (simp add: butlast_append butlast_concat_join[of "CHR '':''", symmetric] del: map_map)
qed

lemma operandIndexes_roundtrip:
  assumes "stringRefOk sr" and "inputOk idx"
  shows "parseOperandIndexes sr (joinWith (CHR '':'') (map decimal idx)) = Inr idx"
proof -
  have "srSplit sr (CHR '':'') (joinWith (CHR '':'') (map decimal idx)) = map decimal idx"
    by (rule split_join[OF assms(1)]) (use assms(2) in \<open>auto simp: inputOk_def decimal_plain separators_def\<close>)
  moreover have "\<forall>i \<in> set idx. srGetAsInt64 sr (decimal i) = Some i"
    using assms by (simp add: inputOk_def fitsInt64_def stringRefOk_def)
  then have "mapE (\<lambda>part. case srGetAsInt64 sr part of Some i \<Rightarrow> Inr i | None \<Rightarrow> Inl (InvalidParam part)) (map decimal idx) = Inr idx"
    by (induction idx) auto
  ultimately show ?thesis by (simp add: parseOperandIndexes_def)
qed

definition outputOk :: "output_override \<Rightarrow> bool" where
  "outputOk p \<longleftrightarrow> p \<noteq> noOutputOverride \<and> (\<forall>g. ovGrid p = Some g \<longrightarrow> length g = 2 \<and> (\<forall>i \<in> set g. fitsInt64 i))"

text \<open>No enum string has a separator, and no two enums share a string.\<close>

lemma enum_plain:
  "c \<in> separators \<Longrightarrow> c \<notin> set (stringifyBufferType b)" "c \<in> separators \<Longrightarrow> c \<notin> set (stringifyTensorMemoryLayout m)"
  "c \<in> separators \<Longrightarrow> c \<notin> set (stringifyLayout l)" "c \<in> separators \<Longrightarrow> c \<notin> set (DataTypeEnumToString d)"
  by ((cases b; auto simp: separators_def),
      (cases m; auto simp: separators_def),
      (cases l; auto simp: separators_def),
      (cases d; auto simp: separators_def))

lemma symbolize_stringify [simp]:
  "symbolizeBufferType (stringifyBufferType b) = Some b"
  "symbolizeTensorMemoryLayout (stringifyTensorMemoryLayout m) = Some m"
  "symbolizeLayout (stringifyLayout l) = Some l"
  "DataTypeStringToEnum (DataTypeEnumToString d) = Some d"
  by ((cases b; simp add: symbolizeBufferType_def),
      (cases m; simp add: symbolizeTensorMemoryLayout_def),
      (cases l; simp add: symbolizeLayout_def),
      (cases d; simp add: DataTypeStringToEnum_def))

lemma symbolize_others [simp]:
  "symbolizeBufferType (stringifyTensorMemoryLayout m) = None"
  "symbolizeBufferType (stringifyLayout l) = None"
  "symbolizeBufferType (DataTypeEnumToString d) = None"
  "symbolizeTensorMemoryLayout (stringifyLayout l) = None"
  "symbolizeTensorMemoryLayout (DataTypeEnumToString d) = None"
  "symbolizeLayout (DataTypeEnumToString d) = None"
  by ((cases m; simp add: symbolizeBufferType_def),
      (cases l; simp add: symbolizeBufferType_def),
      (cases d; simp add: symbolizeBufferType_def),
      (cases l; simp add: symbolizeTensorMemoryLayout_def),
      (cases d; simp add: symbolizeTensorMemoryLayout_def),
      (cases d; simp add: symbolizeLayout_def))

lemma parseGrid_plain: "stringRefOk sr \<Longrightarrow> CHR ''x'' \<notin> set s \<Longrightarrow> parseGrid sr s = None"
  by (simp add: parseGrid_def split_single)

lemma parseGrid_grid:
  assumes "stringRefOk sr" and "fitsInt64 a" and "fitsInt64 b"
  shows "parseGrid sr (decimal a @ CHR ''x'' # decimal b) = Some [a, b]"
proof -
  have "srSplit sr (CHR ''x'') (decimal a @ CHR ''x'' # decimal b) = [decimal a, decimal b]"
    by (rule split_two[OF assms(1)]) (simp_all add: decimal_plain separators_def)
  then show ?thesis using assms by (simp add: parseGrid_def stringRefOk_def fitsInt64_def)
qed

lemma layoutPart_steps:
  assumes "stringRefOk sr"
  shows "\<forall>g. ovGrid p = Some g \<longrightarrow> length g = 2 \<and> (\<forall>i \<in> set g. fitsInt64 i) \<Longrightarrow> ovGrid st = None \<Longrightarrow>
      foldE (parseLayoutParam sr) (optionPart (\<lambda>g. joinWith (CHR ''x'') (map decimal g)) (ovGrid p)) st = Inr (st\<lparr>ovGrid := ovGrid p\<rparr>)"
    and "ovBufferType st = None \<Longrightarrow>
      foldE (parseLayoutParam sr) (optionPart stringifyBufferType (ovBufferType p)) st = Inr (st\<lparr>ovBufferType := ovBufferType p\<rparr>)"
    and "ovTensorMemoryLayout st = None \<Longrightarrow>
      foldE (parseLayoutParam sr) (optionPart stringifyTensorMemoryLayout (ovTensorMemoryLayout p)) st
        = Inr (st\<lparr>ovTensorMemoryLayout := ovTensorMemoryLayout p\<rparr>)"
    and "ovMemoryLayout st = None \<Longrightarrow>
      foldE (parseLayoutParam sr) (optionPart stringifyLayout (ovMemoryLayout p)) st = Inr (st\<lparr>ovMemoryLayout := ovMemoryLayout p\<rparr>)"
    and "ovDataType st = None \<Longrightarrow>
      foldE (parseLayoutParam sr) (optionPart DataTypeEnumToString (ovDataType p)) st = Inr (st\<lparr>ovDataType := ovDataType p\<rparr>)"
proof -
  have plain: "parseGrid sr (stringifyBufferType b) = None" "parseGrid sr (stringifyTensorMemoryLayout m) = None"
    "parseGrid sr (stringifyLayout l) = None" "parseGrid sr (DataTypeEnumToString d) = None" for b m l d
    by (rule parseGrid_plain[OF assms], rule enum_plain, simp add: separators_def)+
  show "foldE (parseLayoutParam sr) (optionPart (\<lambda>g. joinWith (CHR ''x'') (map decimal g)) (ovGrid p)) st = Inr (st\<lparr>ovGrid := ovGrid p\<rparr>)"
    if "\<forall>g. ovGrid p = Some g \<longrightarrow> length g = 2 \<and> (\<forall>i \<in> set g. fitsInt64 i)" "ovGrid st = None"
  proof (cases "ovGrid p")
    case (Some g)
    with that obtain a b where "g = [a, b]" "fitsInt64 a" "fitsInt64 b" by (auto elim!: length_2E)
    with Some that(2) show ?thesis by (simp add: optionPart_def parseLayoutParam_def parseGrid_grid[OF assms] setOnce_def)
  qed (use that in \<open>cases st; simp add: optionPart_def\<close>)
  show "foldE (parseLayoutParam sr) (optionPart stringifyBufferType (ovBufferType p)) st = Inr (st\<lparr>ovBufferType := ovBufferType p\<rparr>)"
    if "ovBufferType st = None" using that
    by (cases "ovBufferType p"; cases st) (simp_all add: optionPart_def parseLayoutParam_def plain setOnce_def)
  show "foldE (parseLayoutParam sr) (optionPart stringifyTensorMemoryLayout (ovTensorMemoryLayout p)) st
        = Inr (st\<lparr>ovTensorMemoryLayout := ovTensorMemoryLayout p\<rparr>)"
    if "ovTensorMemoryLayout st = None" using that
    by (cases "ovTensorMemoryLayout p"; cases st) (simp_all add: optionPart_def parseLayoutParam_def plain setOnce_def)
  show "foldE (parseLayoutParam sr) (optionPart stringifyLayout (ovMemoryLayout p)) st = Inr (st\<lparr>ovMemoryLayout := ovMemoryLayout p\<rparr>)"
    if "ovMemoryLayout st = None" using that
    by (cases "ovMemoryLayout p"; cases st) (simp_all add: optionPart_def parseLayoutParam_def plain setOnce_def)
  show "foldE (parseLayoutParam sr) (optionPart DataTypeEnumToString (ovDataType p)) st = Inr (st\<lparr>ovDataType := ovDataType p\<rparr>)"
    if "ovDataType st = None" using that
    by (cases "ovDataType p"; cases st) (simp_all add: optionPart_def parseLayoutParam_def plain setOnce_def)
qed

section \<open>The conv2d config\<close>

lemma parseBool_boolString [simp]: "stringRefOk sr \<Longrightarrow> parseBool sr (boolString b) = Some b"
proof -
  assume sr: "stringRefOk sr"
  have "map toLower ''false'' \<noteq> map toLower ''true''" by code_simp
  with sr show ?thesis by (simp add: parseBool_def boolString_def stringRefOk_def)
qed

lemma getAsUInt32_decimal [simp]: "stringRefOk sr \<Longrightarrow> srGetAsUInt32 sr (decimal (uint w)) = Some w"
  by (simp add: stringRefOk_def)

lemma splitPair_name: "stringRefOk sr \<Longrightarrow> CHR ''#'' \<notin> set name \<Longrightarrow> s = name @ CHR ''#'' # val \<Longrightarrow> srSplitPair sr (CHR ''#'') s = (name, val)"
  by (simp add: stringRefOk_def)

text \<open>Every parameter is read back as printed.\<close>

lemma parseActivation_relu: "stringRefOk sr \<Longrightarrow> parseActivation sr ''relu'' = Some ''relu''"
proof -
  assume sr: "stringRefOk sr"
  have "map toLower ''relu'' \<noteq> map toLower ''none''" by code_simp
  with sr show ?thesis by (simp add: parseActivation_def stringRefOk_def)
qed

definition conv2dOk :: "conv2d_override \<Rightarrow> bool" where
  "conv2dOk p \<longleftrightarrow> p \<noteq> noConv2dOverride \<and> cpCoreGrid p = None
     \<and> (\<forall>v. cpActivation p = Some v \<longrightarrow> v = ''relu'')"

lemma optionPart_step:
  assumes "\<And>v. x = Some v \<Longrightarrow> parse (f v) st = Inr (upd (\<lambda>_. Some v) st)" and "x = None \<Longrightarrow> upd (\<lambda>_. None) st = st"
  shows "foldE parse (optionPart f x) st = Inr (upd (\<lambda>_. x) st)"
  using assms by (cases x) (simp_all add: optionPart_def)

lemma conv2dPart_cpDtype:
  assumes "stringRefOk sr" and "cpDtype st = None"
  shows "foldE (parseConv2dParam sr) (optionPart (\<lambda>v. ''dtype#'' @ DataTypeEnumToString v) (cpDtype p)) st = Inr (cpDtype_update (\<lambda>_. cpDtype p) st)"
proof (rule optionPart_step)
  fix v assume v: "cpDtype p = Some v"
  have "srSplitPair sr (CHR ''#'') (''dtype#'' @ DataTypeEnumToString v) = (''dtype'', DataTypeEnumToString v)"
    by (rule splitPair_name[OF assms(1)]) simp_all
  then show "parseConv2dParam sr (''dtype#'' @ DataTypeEnumToString v) st = Inr (cpDtype_update (\<lambda>_. Some v) st)"
    using assms v by (simp add: parseConv2dParam_def setParam_def setOnce_def)
qed (use assms in \<open>cases st; simp\<close>)

lemma conv2dPart_cpWeightsDtype:
  assumes "stringRefOk sr" and "cpWeightsDtype st = None"
  shows "foldE (parseConv2dParam sr) (optionPart (\<lambda>v. ''weights_dtype#'' @ DataTypeEnumToString v) (cpWeightsDtype p)) st = Inr (cpWeightsDtype_update (\<lambda>_. cpWeightsDtype p) st)"
proof (rule optionPart_step)
  fix v assume v: "cpWeightsDtype p = Some v"
  have "srSplitPair sr (CHR ''#'') (''weights_dtype#'' @ DataTypeEnumToString v) = (''weights_dtype'', DataTypeEnumToString v)"
    by (rule splitPair_name[OF assms(1)]) simp_all
  then show "parseConv2dParam sr (''weights_dtype#'' @ DataTypeEnumToString v) st = Inr (cpWeightsDtype_update (\<lambda>_. Some v) st)"
    using assms v by (simp add: parseConv2dParam_def setParam_def setOnce_def)
qed (use assms in \<open>cases st; simp\<close>)

lemma conv2dPart_cpActivation:
  assumes "\<forall>v. cpActivation p = Some v \<longrightarrow> v = ''relu''" and "stringRefOk sr" and "cpActivation st = None"
  shows "foldE (parseConv2dParam sr) (optionPart (\<lambda>v. ''activation#'' @ v) (cpActivation p)) st = Inr (cpActivation_update (\<lambda>_. cpActivation p) st)"
proof (rule optionPart_step)
  fix v assume v: "cpActivation p = Some v"
  have "srSplitPair sr (CHR ''#'') (''activation#'' @ v) = (''activation'', v)"
    by (rule splitPair_name[OF assms(2)]) simp_all
  then show "parseConv2dParam sr (''activation#'' @ v) st = Inr (cpActivation_update (\<lambda>_. Some v) st)"
    using assms v by (simp add: parseConv2dParam_def setParam_def setOnce_def parseActivation_relu)
qed (use assms in \<open>cases st; simp\<close>)

lemma conv2dPart_cpDeallocateActivation:
  assumes "stringRefOk sr" and "cpDeallocateActivation st = None"
  shows "foldE (parseConv2dParam sr) (optionPart (\<lambda>v. ''deallocate_activation#'' @ boolString v) (cpDeallocateActivation p)) st = Inr (cpDeallocateActivation_update (\<lambda>_. cpDeallocateActivation p) st)"
proof (rule optionPart_step)
  fix v assume v: "cpDeallocateActivation p = Some v"
  have "srSplitPair sr (CHR ''#'') (''deallocate_activation#'' @ boolString v) = (''deallocate_activation'', boolString v)"
    by (rule splitPair_name[OF assms(1)]) simp_all
  then show "parseConv2dParam sr (''deallocate_activation#'' @ boolString v) st = Inr (cpDeallocateActivation_update (\<lambda>_. Some v) st)"
    using assms v by (simp add: parseConv2dParam_def setParam_def setOnce_def)
qed (use assms in \<open>cases st; simp\<close>)

lemma conv2dPart_cpReallocateHaloOutput:
  assumes "stringRefOk sr" and "cpReallocateHaloOutput st = None"
  shows "foldE (parseConv2dParam sr) (optionPart (\<lambda>v. ''reallocate_halo_output#'' @ boolString v) (cpReallocateHaloOutput p)) st = Inr (cpReallocateHaloOutput_update (\<lambda>_. cpReallocateHaloOutput p) st)"
proof (rule optionPart_step)
  fix v assume v: "cpReallocateHaloOutput p = Some v"
  have "srSplitPair sr (CHR ''#'') (''reallocate_halo_output#'' @ boolString v) = (''reallocate_halo_output'', boolString v)"
    by (rule splitPair_name[OF assms(1)]) simp_all
  then show "parseConv2dParam sr (''reallocate_halo_output#'' @ boolString v) st = Inr (cpReallocateHaloOutput_update (\<lambda>_. Some v) st)"
    using assms v by (simp add: parseConv2dParam_def setParam_def setOnce_def)
qed (use assms in \<open>cases st; simp\<close>)

lemma conv2dPart_cpActBlockHOverride:
  assumes "stringRefOk sr" and "cpActBlockHOverride st = None"
  shows "foldE (parseConv2dParam sr) (optionPart (\<lambda>v. ''act_block_h_override#'' @ decimal (uint v)) (cpActBlockHOverride p)) st = Inr (cpActBlockHOverride_update (\<lambda>_. cpActBlockHOverride p) st)"
proof (rule optionPart_step)
  fix v assume v: "cpActBlockHOverride p = Some v"
  have "srSplitPair sr (CHR ''#'') (''act_block_h_override#'' @ decimal (uint v)) = (''act_block_h_override'', decimal (uint v))"
    by (rule splitPair_name[OF assms(1)]) simp_all
  then show "parseConv2dParam sr (''act_block_h_override#'' @ decimal (uint v)) st = Inr (cpActBlockHOverride_update (\<lambda>_. Some v) st)"
    using assms v by (simp add: parseConv2dParam_def setParam_def setOnce_def)
qed (use assms in \<open>cases st; simp\<close>)

lemma conv2dPart_cpActBlockWDiv:
  assumes "stringRefOk sr" and "cpActBlockWDiv st = None"
  shows "foldE (parseConv2dParam sr) (optionPart (\<lambda>v. ''act_block_w_div#'' @ decimal (uint v)) (cpActBlockWDiv p)) st = Inr (cpActBlockWDiv_update (\<lambda>_. cpActBlockWDiv p) st)"
proof (rule optionPart_step)
  fix v assume v: "cpActBlockWDiv p = Some v"
  have "srSplitPair sr (CHR ''#'') (''act_block_w_div#'' @ decimal (uint v)) = (''act_block_w_div'', decimal (uint v))"
    by (rule splitPair_name[OF assms(1)]) simp_all
  then show "parseConv2dParam sr (''act_block_w_div#'' @ decimal (uint v)) st = Inr (cpActBlockWDiv_update (\<lambda>_. Some v) st)"
    using assms v by (simp add: parseConv2dParam_def setParam_def setOnce_def)
qed (use assms in \<open>cases st; simp\<close>)

lemma conv2dPart_cpReshardIfNotOptimal:
  assumes "stringRefOk sr" and "cpReshardIfNotOptimal st = None"
  shows "foldE (parseConv2dParam sr) (optionPart (\<lambda>v. ''reshard_if_not_optimal#'' @ boolString v) (cpReshardIfNotOptimal p)) st = Inr (cpReshardIfNotOptimal_update (\<lambda>_. cpReshardIfNotOptimal p) st)"
proof (rule optionPart_step)
  fix v assume v: "cpReshardIfNotOptimal p = Some v"
  have "srSplitPair sr (CHR ''#'') (''reshard_if_not_optimal#'' @ boolString v) = (''reshard_if_not_optimal'', boolString v)"
    by (rule splitPair_name[OF assms(1)]) simp_all
  then show "parseConv2dParam sr (''reshard_if_not_optimal#'' @ boolString v) st = Inr (cpReshardIfNotOptimal_update (\<lambda>_. Some v) st)"
    using assms v by (simp add: parseConv2dParam_def setParam_def setOnce_def)
qed (use assms in \<open>cases st; simp\<close>)

lemma conv2dPart_cpOverrideShardingConfig:
  assumes "stringRefOk sr" and "cpOverrideShardingConfig st = None"
  shows "foldE (parseConv2dParam sr) (optionPart (\<lambda>v. ''override_sharding_config#'' @ boolString v) (cpOverrideShardingConfig p)) st = Inr (cpOverrideShardingConfig_update (\<lambda>_. cpOverrideShardingConfig p) st)"
proof (rule optionPart_step)
  fix v assume v: "cpOverrideShardingConfig p = Some v"
  have "srSplitPair sr (CHR ''#'') (''override_sharding_config#'' @ boolString v) = (''override_sharding_config'', boolString v)"
    by (rule splitPair_name[OF assms(1)]) simp_all
  then show "parseConv2dParam sr (''override_sharding_config#'' @ boolString v) st = Inr (cpOverrideShardingConfig_update (\<lambda>_. Some v) st)"
    using assms v by (simp add: parseConv2dParam_def setParam_def setOnce_def)
qed (use assms in \<open>cases st; simp\<close>)

lemma conv2dPart_cpShardLayout:
  assumes "stringRefOk sr" and "cpShardLayout st = None"
  shows "foldE (parseConv2dParam sr) (optionPart (\<lambda>v. ''shard_layout#'' @ stringifyTensorMemoryLayout v) (cpShardLayout p)) st = Inr (cpShardLayout_update (\<lambda>_. cpShardLayout p) st)"
proof (rule optionPart_step)
  fix v assume v: "cpShardLayout p = Some v"
  have "srSplitPair sr (CHR ''#'') (''shard_layout#'' @ stringifyTensorMemoryLayout v) = (''shard_layout'', stringifyTensorMemoryLayout v)"
    by (rule splitPair_name[OF assms(1)]) simp_all
  then show "parseConv2dParam sr (''shard_layout#'' @ stringifyTensorMemoryLayout v) st = Inr (cpShardLayout_update (\<lambda>_. Some v) st)"
    using assms v by (simp add: parseConv2dParam_def setParam_def setOnce_def)
qed (use assms in \<open>cases st; simp\<close>)

lemma conv2dPart_cpTransposeShards:
  assumes "stringRefOk sr" and "cpTransposeShards st = None"
  shows "foldE (parseConv2dParam sr) (optionPart (\<lambda>v. ''transpose_shards#'' @ boolString v) (cpTransposeShards p)) st = Inr (cpTransposeShards_update (\<lambda>_. cpTransposeShards p) st)"
proof (rule optionPart_step)
  fix v assume v: "cpTransposeShards p = Some v"
  have "srSplitPair sr (CHR ''#'') (''transpose_shards#'' @ boolString v) = (''transpose_shards'', boolString v)"
    by (rule splitPair_name[OF assms(1)]) simp_all
  then show "parseConv2dParam sr (''transpose_shards#'' @ boolString v) st = Inr (cpTransposeShards_update (\<lambda>_. Some v) st)"
    using assms v by (simp add: parseConv2dParam_def setParam_def setOnce_def)
qed (use assms in \<open>cases st; simp\<close>)

lemma conv2dPart_cpOutputLayout:
  assumes "stringRefOk sr" and "cpOutputLayout st = None"
  shows "foldE (parseConv2dParam sr) (optionPart (\<lambda>v. ''output_layout#'' @ stringifyLayout v) (cpOutputLayout p)) st = Inr (cpOutputLayout_update (\<lambda>_. cpOutputLayout p) st)"
proof (rule optionPart_step)
  fix v assume v: "cpOutputLayout p = Some v"
  have "srSplitPair sr (CHR ''#'') (''output_layout#'' @ stringifyLayout v) = (''output_layout'', stringifyLayout v)"
    by (rule splitPair_name[OF assms(1)]) simp_all
  then show "parseConv2dParam sr (''output_layout#'' @ stringifyLayout v) st = Inr (cpOutputLayout_update (\<lambda>_. Some v) st)"
    using assms v by (simp add: parseConv2dParam_def setParam_def setOnce_def)
qed (use assms in \<open>cases st; simp\<close>)

lemma conv2dPart_cpPreprocessWeightsOnDevice:
  assumes "stringRefOk sr" and "cpPreprocessWeightsOnDevice st = None"
  shows "foldE (parseConv2dParam sr) (optionPart (\<lambda>v. ''preprocess_weights_on_device#'' @ boolString v) (cpPreprocessWeightsOnDevice p)) st = Inr (cpPreprocessWeightsOnDevice_update (\<lambda>_. cpPreprocessWeightsOnDevice p) st)"
proof (rule optionPart_step)
  fix v assume v: "cpPreprocessWeightsOnDevice p = Some v"
  have "srSplitPair sr (CHR ''#'') (''preprocess_weights_on_device#'' @ boolString v) = (''preprocess_weights_on_device'', boolString v)"
    by (rule splitPair_name[OF assms(1)]) simp_all
  then show "parseConv2dParam sr (''preprocess_weights_on_device#'' @ boolString v) st = Inr (cpPreprocessWeightsOnDevice_update (\<lambda>_. Some v) st)"
    using assms v by (simp add: parseConv2dParam_def setParam_def setOnce_def)
qed (use assms in \<open>cases st; simp\<close>)

lemma conv2dPart_cpAlwaysPreprocessWeights:
  assumes "stringRefOk sr" and "cpAlwaysPreprocessWeights st = None"
  shows "foldE (parseConv2dParam sr) (optionPart (\<lambda>v. ''always_preprocess_weights#'' @ boolString v) (cpAlwaysPreprocessWeights p)) st = Inr (cpAlwaysPreprocessWeights_update (\<lambda>_. cpAlwaysPreprocessWeights p) st)"
proof (rule optionPart_step)
  fix v assume v: "cpAlwaysPreprocessWeights p = Some v"
  have "srSplitPair sr (CHR ''#'') (''always_preprocess_weights#'' @ boolString v) = (''always_preprocess_weights'', boolString v)"
    by (rule splitPair_name[OF assms(1)]) simp_all
  then show "parseConv2dParam sr (''always_preprocess_weights#'' @ boolString v) st = Inr (cpAlwaysPreprocessWeights_update (\<lambda>_. Some v) st)"
    using assms v by (simp add: parseConv2dParam_def setParam_def setOnce_def)
qed (use assms in \<open>cases st; simp\<close>)

lemma conv2dPart_cpEnableActDoubleBuffer:
  assumes "stringRefOk sr" and "cpEnableActDoubleBuffer st = None"
  shows "foldE (parseConv2dParam sr) (optionPart (\<lambda>v. ''enable_act_double_buffer#'' @ boolString v) (cpEnableActDoubleBuffer p)) st = Inr (cpEnableActDoubleBuffer_update (\<lambda>_. cpEnableActDoubleBuffer p) st)"
proof (rule optionPart_step)
  fix v assume v: "cpEnableActDoubleBuffer p = Some v"
  have "srSplitPair sr (CHR ''#'') (''enable_act_double_buffer#'' @ boolString v) = (''enable_act_double_buffer'', boolString v)"
    by (rule splitPair_name[OF assms(1)]) simp_all
  then show "parseConv2dParam sr (''enable_act_double_buffer#'' @ boolString v) st = Inr (cpEnableActDoubleBuffer_update (\<lambda>_. Some v) st)"
    using assms v by (simp add: parseConv2dParam_def setParam_def setOnce_def)
qed (use assms in \<open>cases st; simp\<close>)

lemma conv2dPart_cpEnableWeightsDoubleBuffer:
  assumes "stringRefOk sr" and "cpEnableWeightsDoubleBuffer st = None"
  shows "foldE (parseConv2dParam sr) (optionPart (\<lambda>v. ''enable_weights_double_buffer#'' @ boolString v) (cpEnableWeightsDoubleBuffer p)) st = Inr (cpEnableWeightsDoubleBuffer_update (\<lambda>_. cpEnableWeightsDoubleBuffer p) st)"
proof (rule optionPart_step)
  fix v assume v: "cpEnableWeightsDoubleBuffer p = Some v"
  have "srSplitPair sr (CHR ''#'') (''enable_weights_double_buffer#'' @ boolString v) = (''enable_weights_double_buffer'', boolString v)"
    by (rule splitPair_name[OF assms(1)]) simp_all
  then show "parseConv2dParam sr (''enable_weights_double_buffer#'' @ boolString v) st = Inr (cpEnableWeightsDoubleBuffer_update (\<lambda>_. Some v) st)"
    using assms v by (simp add: parseConv2dParam_def setParam_def setOnce_def)
qed (use assms in \<open>cases st; simp\<close>)

lemma conv2dPart_cpEnableSplitReader:
  assumes "stringRefOk sr" and "cpEnableSplitReader st = None"
  shows "foldE (parseConv2dParam sr) (optionPart (\<lambda>v. ''enable_split_reader#'' @ boolString v) (cpEnableSplitReader p)) st = Inr (cpEnableSplitReader_update (\<lambda>_. cpEnableSplitReader p) st)"
proof (rule optionPart_step)
  fix v assume v: "cpEnableSplitReader p = Some v"
  have "srSplitPair sr (CHR ''#'') (''enable_split_reader#'' @ boolString v) = (''enable_split_reader'', boolString v)"
    by (rule splitPair_name[OF assms(1)]) simp_all
  then show "parseConv2dParam sr (''enable_split_reader#'' @ boolString v) st = Inr (cpEnableSplitReader_update (\<lambda>_. Some v) st)"
    using assms v by (simp add: parseConv2dParam_def setParam_def setOnce_def)
qed (use assms in \<open>cases st; simp\<close>)

lemma conv2dPart_cpEnableSubblockPadding:
  assumes "stringRefOk sr" and "cpEnableSubblockPadding st = None"
  shows "foldE (parseConv2dParam sr) (optionPart (\<lambda>v. ''enable_subblock_padding#'' @ boolString v) (cpEnableSubblockPadding p)) st = Inr (cpEnableSubblockPadding_update (\<lambda>_. cpEnableSubblockPadding p) st)"
proof (rule optionPart_step)
  fix v assume v: "cpEnableSubblockPadding p = Some v"
  have "srSplitPair sr (CHR ''#'') (''enable_subblock_padding#'' @ boolString v) = (''enable_subblock_padding'', boolString v)"
    by (rule splitPair_name[OF assms(1)]) simp_all
  then show "parseConv2dParam sr (''enable_subblock_padding#'' @ boolString v) st = Inr (cpEnableSubblockPadding_update (\<lambda>_. Some v) st)"
    using assms v by (simp add: parseConv2dParam_def setParam_def setOnce_def)
qed (use assms in \<open>cases st; simp\<close>)

lemmas conv2dPart_steps =
  conv2dPart_cpDtype
  conv2dPart_cpWeightsDtype
  conv2dPart_cpDeallocateActivation
  conv2dPart_cpReallocateHaloOutput
  conv2dPart_cpActBlockHOverride
  conv2dPart_cpActBlockWDiv
  conv2dPart_cpReshardIfNotOptimal
  conv2dPart_cpOverrideShardingConfig
  conv2dPart_cpShardLayout
  conv2dPart_cpTransposeShards
  conv2dPart_cpOutputLayout
  conv2dPart_cpPreprocessWeightsOnDevice
  conv2dPart_cpAlwaysPreprocessWeights
  conv2dPart_cpEnableActDoubleBuffer
  conv2dPart_cpEnableWeightsDoubleBuffer
  conv2dPart_cpEnableSplitReader
  conv2dPart_cpEnableSubblockPadding

lemma conv2dParts_parse:
  assumes "stringRefOk sr" and "conv2dOk p"
  shows "foldE (parseConv2dParam sr) (conv2dParts p) noConv2dOverride = Inr p"
proof -
  have act: "\<forall>v. cpActivation p = Some v \<longrightarrow> v = ''relu''" using assms(2) by (simp add: conv2dOk_def)
  show ?thesis
    unfolding conv2dParts_def noConv2dOverride_def
    using assms(2) act by (simp only: foldE_append rbind_simps conv2dPart_steps[OF assms(1)] conv2dPart_cpActivation[OF act assms(1)]
      conv2d_override.simps) (cases p; simp add: conv2dOk_def)
qed

lemma optionPart_eq_Nil: "optionPart f x = [] \<longleftrightarrow> x = None"
  by (cases x) (simp_all add: optionPart_def)

lemma optionPart_set: "s \<in> set (optionPart f x) \<longleftrightarrow> (\<exists>v. x = Some v \<and> s = f v)"
  by (cases x) (auto simp: optionPart_def)

lemma conv2dParts_nonempty: "p \<noteq> noConv2dOverride \<Longrightarrow> cpCoreGrid p = None \<Longrightarrow> conv2dParts p \<noteq> []"
  by (cases p) (auto simp: conv2dParts_def optionPart_eq_Nil noConv2dOverride_def)

lemma boolString_plain: "c \<in> separators \<Longrightarrow> c \<notin> set (boolString b)"
  by (cases b) (auto simp: boolString_def separators_def)

lemma conv2dParts_plain:
  assumes "conv2dOk p" and "s \<in> set (conv2dParts p)"
  shows "set s \<inter> {CHR '','', CHR ''='', CHR '':''} = {}"
proof -
  have act: "\<And>v. cpActivation p = Some v \<Longrightarrow> v = ''relu''" using assms(1) by (simp add: conv2dOk_def)
  have plain: "CHR '','' \<notin> set (boolString b)" "CHR ''='' \<notin> set (boolString b)" "CHR '':'' \<notin> set (boolString b)"
    "CHR '','' \<notin> set (decimal i)" "CHR ''='' \<notin> set (decimal i)" "CHR '':'' \<notin> set (decimal i)" for b i
    by (rule boolString_plain decimal_plain, simp add: separators_def)+
  have enums: "CHR '','' \<notin> set (stringifyTensorMemoryLayout m)" "CHR ''='' \<notin> set (stringifyTensorMemoryLayout m)"
    "CHR '':'' \<notin> set (stringifyTensorMemoryLayout m)"
    "CHR '','' \<notin> set (stringifyLayout l)" "CHR ''='' \<notin> set (stringifyLayout l)" "CHR '':'' \<notin> set (stringifyLayout l)"
    "CHR '','' \<notin> set (DataTypeEnumToString d)" "CHR ''='' \<notin> set (DataTypeEnumToString d)" "CHR '':'' \<notin> set (DataTypeEnumToString d)"
    for m l d by (rule enum_plain, simp add: separators_def)+
  from assms(2) show ?thesis
    unfolding conv2dParts_def set_append Un_iff optionPart_set
    by (elim disjE exE conjE) (auto simp: plain enums dest!: act)
qed

section \<open>Round trips\<close>

lemma printOverrides_cong: "(\<And>e. e \<in> set m \<Longrightarrow> p e = q e) \<Longrightarrow> printOverrides p m = printOverrides q m"
  by (auto simp: printOverrides_join intro!: arg_cong[where f = "joinWith (CHR '','')"])

lemma join_plain:
  assumes "\<forall>s \<in> set ss. set s \<inter> {CHR '','', CHR ''='', CHR '':''} = {}"
  shows "CHR '','' \<notin> set (joinWith (CHR '':'') ss)" and "CHR ''='' \<notin> set (joinWith (CHR '':'') ss)"
  using assms joinWith_set[of "CHR '':''" ss] by auto

lemma layoutParts_facts:
  assumes "outputOk p" and "s \<in> set (layoutParts p)"
  shows "set s \<inter> {CHR '','', CHR ''='', CHR '':''} = {}" and "s \<noteq> []"
proof -
  have plain: "CHR '','' \<notin> set (decimal i)" "CHR ''='' \<notin> set (decimal i)" "CHR '':'' \<notin> set (decimal i)" for i
    by (rule decimal_plain, simp add: separators_def)+
  have enums: "CHR '','' \<notin> set (stringifyTensorMemoryLayout m)" "CHR ''='' \<notin> set (stringifyTensorMemoryLayout m)"
    "CHR '':'' \<notin> set (stringifyTensorMemoryLayout m)"
    "CHR '','' \<notin> set (stringifyLayout l)" "CHR ''='' \<notin> set (stringifyLayout l)" "CHR '':'' \<notin> set (stringifyLayout l)"
    "CHR '','' \<notin> set (stringifyBufferType b)" "CHR ''='' \<notin> set (stringifyBufferType b)" "CHR '':'' \<notin> set (stringifyBufferType b)"
    "CHR '','' \<notin> set (DataTypeEnumToString d)" "CHR ''='' \<notin> set (DataTypeEnumToString d)" "CHR '':'' \<notin> set (DataTypeEnumToString d)"
    for m l b d by (rule enum_plain, simp add: separators_def)+
  have nonempty: "stringifyBufferType b \<noteq> []" "stringifyTensorMemoryLayout m \<noteq> []" "stringifyLayout l \<noteq> []" "DataTypeEnumToString d \<noteq> []"
    for b m l d by ((cases b; simp), (cases m; simp), (cases l; simp), (cases d; simp))
  have grid: "\<exists>a b. g = [a, b]" if "ovGrid p = Some g" for g
    using assms(1) that by (auto simp: outputOk_def elim!: length_2E)
  show "set s \<inter> {CHR '','', CHR ''='', CHR '':''} = {}" "s \<noteq> []"
    using assms(2) unfolding layoutParts_def set_append Un_iff optionPart_set
    by (auto simp: plain enums nonempty nonempty[symmetric] decimal_nonempty dest!: grid)
qed

lemma layoutParts_parse:
  assumes "stringRefOk sr" and "outputOk p"
  shows "foldE (parseLayoutParam sr) (layoutParts p) noOutputOverride = Inr p"
proof -
  have grid: "\<forall>g. ovGrid p = Some g \<longrightarrow> length g = 2 \<and> (\<forall>i \<in> set g. fitsInt64 i)" using assms(2) by (simp add: outputOk_def)
  show ?thesis
    unfolding layoutParts_def noOutputOverride_def
    by (simp only: foldE_append rbind_simps layoutPart_steps(2-5)[OF assms(1)] layoutPart_steps(1)[OF assms(1) grid] output_override.simps)
       (cases p; simp)
qed

lemma layoutParts_nonempty: "p \<noteq> noOutputOverride \<Longrightarrow> layoutParts p \<noteq> []"
  by (cases p) (auto simp: layoutParts_def optionPart_eq_Nil noOutputOverride_def)

text \<open>Distinct names without separators, and well-formed parameters.\<close>

definition overridesOk :: "('p \<Rightarrow> bool) \<Rightarrow> (string \<times> 'p) list \<Rightarrow> bool" where
  "overridesOk ok m \<longleftrightarrow> m \<noteq> [] \<and> distinct (map fst m) \<and> (\<forall>(key, p) \<in> set m. nameOk key \<and> ok p)"

lemma input_roundtrip:
  assumes "stringRefOk sr" and "overridesOk inputOk m"
  shows "inputOverrideParse sr (inputOverrideToString m) = Inr m"
proof -
  have eq: "inputOverrideToString m = printOverrides (\<lambda>(key, idx). key @ CHR ''='' # joinWith (CHR '':'') (map decimal idx)) m"
    unfolding inputOverrideToString_def
    by (rule printOverrides_cong) (use assms(2) input_body in \<open>fastforce simp: overridesOk_def inputOk_def\<close>)
  have plain: "CHR '','' \<notin> set (joinWith (CHR '':'') (map decimal idx))" "CHR ''='' \<notin> set (joinWith (CHR '':'') (map decimal idx))" for idx
    by (rule join_plain; simp add: decimal_plain separators_def)+
  show ?thesis
    unfolding inputOverrideParse_def eq
    by (rule overrides_roundtrip_by[OF assms(1)])
       (use assms(2) plain operandIndexes_roundtrip[OF assms(1)] in \<open>auto simp: overridesOk_def\<close>)
qed

lemma output_roundtrip:
  assumes sr: "stringRefOk sr" and "overridesOk outputOk m"
  shows "outputOverrideParse sr (outputOverrideToString m) = Inr m"
proof -
  have ok: "nameOk key \<and> outputOk p" if "(key, p) \<in> set m" for key p using that assms(2) by (auto simp: overridesOk_def)
  have fold: "foldl (\<lambda>a b. if a = [] then b else a @ CHR '':'' # b) [] (layoutParts p) = joinWith (CHR '':'') (layoutParts p)"
    if "outputOk p" for p
    by (rule foldl_join) (use layoutParts_facts(2)[OF that] in blast)
  have colon: "(\<lambda>a b. if a = [] then b else a @ '':'' @ b) = (\<lambda>a b. if a = [] then b else a @ CHR '':'' # b)"
    by (intro ext) simp
  have eq: "outputOverrideToString m = printOverrides (\<lambda>(key, p). key @ CHR ''='' # joinWith (CHR '':'') (layoutParts p)) m"
    unfolding outputOverrideToString_def colon
    by (rule printOverrides_cong) (use fold in \<open>auto dest!: ok\<close>)
  have "parseLayoutParams sr (joinWith (CHR '':'') (layoutParts p)) = Inr p" if "outputOk p" for p
  proof -
    have "srSplit sr (CHR '':'') (joinWith (CHR '':'') (layoutParts p)) = layoutParts p"
      by (rule split_join[OF sr]) (use that layoutParts_nonempty layoutParts_facts(1)[OF that] in \<open>auto simp: outputOk_def\<close>)
    then show ?thesis using layoutParts_parse[OF sr that] by (simp add: parseLayoutParams_def)
  qed
  then show ?thesis
    unfolding outputOverrideParse_def eq
    using join_plain layoutParts_facts(1) ok assms(2)
    by (intro overrides_roundtrip_by[OF sr]) (auto simp: overridesOk_def)
qed

lemma conv2d_roundtrip:
  assumes sr: "stringRefOk sr" and "overridesOk conv2dOk m"
  shows "conv2dOverrideParse sr (conv2dOverrideToString m) = Inr m"
proof -
  have ok: "nameOk key \<and> conv2dOk p" if "(key, p) \<in> set m" for key p using that assms(2) by (auto simp: overridesOk_def)
  have eq: "conv2dOverrideToString m = printOverrides (\<lambda>(key, p). key @ CHR ''='' # joinWith (CHR '':'') (conv2dParts p)) m"
    unfolding conv2dOverrideToString_def by (simp add: butlast_concat_join)
  have "parseConv2dParams sr (joinWith (CHR '':'') (conv2dParts p)) = Inr p" if "conv2dOk p" for p
  proof -
    have "srSplit sr (CHR '':'') (joinWith (CHR '':'') (conv2dParts p)) = conv2dParts p"
      by (rule split_join[OF sr]) (use that conv2dParts_nonempty conv2dParts_plain[OF that] in \<open>auto simp: conv2dOk_def\<close>)
    then show ?thesis using conv2dParts_parse[OF sr that] by (simp add: parseConv2dParams_def)
  qed
  then show ?thesis
    unfolding conv2dOverrideParse_def eq
    using join_plain conv2dParts_plain ok assms(2)
    by (intro overrides_roundtrip_by[OF sr]) (auto simp: overridesOk_def)
qed

text \<open>
  C22: The three parsers of the optimizer's overrides read back what the printers write. For at least one override, of
  distinct names without commas and equal signs: operand indexes that fit in 64 bits, at least one per op;
  output layouts with at least one parameter and grids of two dimensions; conv2d configs
  with at least one parameter, whose activation, if set, is relu, and without a core grid
  (the printer writes neither an empty activation in a form the parser accepts, nor core grids).
  The splitting and the number parsing of LLVM's strings are assumed to do what they document. (The
  lemma \<open>empty_overrides_not_read_back\<close>: the text printed for no override is not accepted.)
\<close>

theorem overrides_roundtrip:
  assumes "stringRefOk sr"
  shows "(\<forall>m. overridesOk inputOk m \<longrightarrow> inputOverrideParse sr (inputOverrideToString m) = Inr m)
    \<and> (\<forall>m. overridesOk outputOk m \<longrightarrow> outputOverrideParse sr (outputOverrideToString m) = Inr m)
    \<and> (\<forall>m. overridesOk conv2dOk m \<longrightarrow> conv2dOverrideParse sr (conv2dOverrideToString m) = Inr m)"
  using input_roundtrip[OF assms] output_roundtrip[OF assms] conv2d_roundtrip[OF assms] by blast

section \<open>A concrete instance\<close>

fun splitOn :: "char \<Rightarrow> string \<Rightarrow> string list" where
  "splitOn c [] = [[]]"
| "splitOn c (x # xs) = (if x = c then [] # splitOn c xs else (case splitOn c xs of s # ss \<Rightarrow> (x # s) # ss | [] \<Rightarrow> [[x]]))"

definition readNat :: "string \<Rightarrow> nat option" where
  "readNat s = (if s = [] \<or> (\<exists>c \<in> set s. (of_char c :: nat) < 48 \<or> 57 < (of_char c :: nat)) then None
     else Some (foldl (\<lambda>n c. n * 10 + (of_char c - 48)) 0 s))"

definition readInt :: "string \<Rightarrow> int option" where
  "readInt s = (case s of
       c # t \<Rightarrow> if c = CHR ''-'' then map_option (\<lambda>n. - int n) (readNat t) else map_option int (readNat s)
     | [] \<Rightarrow> None)"

definition stringRef :: string_ref where
  "stringRef = \<lparr>srSplit = splitOn, srSplitPair = (\<lambda>c s. (takeWhile ((\<noteq>) c) s, tl (dropWhile ((\<noteq>) c) s))),
     srGetAsInt64 = (\<lambda>s. case readInt s of Some i \<Rightarrow> if - (2 ^ 63) \<le> i \<and> i < 2 ^ 63 then Some i else None | None \<Rightarrow> None),
     srGetAsUInt32 = (\<lambda>s. case readInt s of Some i \<Rightarrow> if 0 \<le> i \<and> i < 2 ^ 32 then Some (word_of_int i) else None | None \<Rightarrow> None),
     srEqualsInsensitive = (\<lambda>a b. map toLower a = map toLower b)\<rparr>"

lemma splitOn_plain: "c \<notin> set s \<Longrightarrow> splitOn c s = [s]"
  by (induction s) auto

lemma splitOn_cut: "c \<notin> set s \<Longrightarrow> splitOn c (s @ c # t) = s # splitOn c t"
  by (induction s) auto

lemma splitOn_join: "parts \<noteq> [] \<Longrightarrow> (\<forall>s \<in> set parts. c \<notin> set s) \<Longrightarrow> splitOn c (joinWith c parts) = parts"
  by (induction parts) (auto simp: joinWith_Cons splitOn_plain splitOn_cut)

lemma digitChar_code: "d < 10 \<Longrightarrow> of_char (digitChar d) = 48 + d"
  by (simp add: digitChar_def)

lemma readNat_decimal: "readNat (decimalNat n) = Some n"
proof -
  have "(\<forall>c \<in> set (decimalNat n). 48 \<le> (of_char c :: nat) \<and> (of_char c :: nat) \<le> 57)
    \<and> foldl (\<lambda>n c. n * 10 + (of_char c - 48)) 0 (decimalNat n) = n"
  proof (induction n rule: decimalNat.induct)
    case (1 n)
    have d: "of_char (digitChar (n mod 10)) = 48 + n mod 10" by (rule digitChar_code) simp
    show ?case
    proof (cases "n < 10")
      case True
      with d show ?thesis by (subst (1 2) decimalNat.simps) (simp add: digitChar_code)
    next
      case False
      with 1 d show ?thesis by (subst (1 2) decimalNat.simps) auto
    qed
  qed
  then show ?thesis using decimalNat_nonempty[of n] by (force simp: readNat_def not_less)
qed

lemma readInt_decimal: "readInt (decimal i) = Some i"
proof (cases "i < 0")
  case True
  then show ?thesis by (simp add: readInt_def decimal_def readNat_decimal)
next
  case False
  have "decimalNat (nat i) \<noteq> [] \<and> hd (decimalNat (nat i)) \<noteq> CHR ''-''"
  proof -
    have "readNat (decimalNat (nat i)) \<noteq> None" by (simp add: readNat_decimal)
    then show ?thesis by (cases "decimalNat (nat i)") (auto simp: readNat_def split: if_splits)
  qed
  with False readNat_decimal[of "nat i"] show ?thesis
    by (cases "decimalNat (nat i)") (simp_all add: readInt_def decimal_def)
qed

lemma stringRef_ok: "stringRefOk stringRef"
proof -
  have "takeWhile ((\<noteq>) c) (a @ c # b) = a" "dropWhile ((\<noteq>) c) (a @ c # b) = c # b" if "c \<notin> set a" for c :: char and a b
    using that by (induction a) auto
  moreover have "uint w < 4294967296" for w :: "32 word" using uint_bounded[of w] by simp
  ultimately show ?thesis by (simp add: stringRefOk_def stringRef_def splitOn_join readInt_decimal)
qed

theorem overrides_roundtrip_witness:
  "inputOverrideParse stringRef (inputOverrideToString [(''add_0'', [0, 1]), (''mul'', [2])]) = Inr [(''add_0'', [0, 1]), (''mul'', [2])]"
  using overrides_roundtrip[OF stringRef_ok] by (simp add: overridesOk_def inputOk_def fitsInt64_def nameOk_def)

text \<open>What is not read back: an activation set to none, and an op without operands, whose equal sign
  is removed with the last character.\<close>

lemma activation_none_not_read_back:
  "conv2dOverrideToString [(''a'', noConv2dOverride\<lparr>cpActivation := Some []\<rparr>)] = ''a=activation#''
    \<and> conv2dOverrideParse stringRef ''a=activation#none'' = Inr [(''a'', noConv2dOverride\<lparr>cpActivation := Some []\<rparr>)]
    \<and> conv2dOverrideParse stringRef ''a=activation#'' = Inl (InvalidParam ''activation#'')"
  by code_simp

lemma no_operands_not_read_back:
  "inputOverrideToString [(''a'', [])] = ''a'' \<and> inputOverrideParse stringRef ''a'' = Inl (InvalidFormat ''a'')"
  by code_simp

text \<open>No override at all, the default of the options, is printed as the empty string, which the parsers reject: it splits
  into one part, which has no equal sign.\<close>

lemma empty_overrides_not_read_back:
  "inputOverrideToString [] = [] \<and> inputOverrideParse stringRef [] = Inl (InvalidFormat [])
    \<and> outputOverrideToString [] = [] \<and> outputOverrideParse stringRef [] = Inl (InvalidFormat [])
    \<and> conv2dOverrideToString [] = [] \<and> conv2dOverrideParse stringRef [] = Inl (InvalidFormat [])"
  by code_simp

end
