(* ===== verification/PossibleLayouts.thy ===== *)
theory PossibleLayouts
  imports ShardSolver
begin

text \<open>
  \<open>AllPossibleLayoutsAnalysis\<close>: for every tensor type of a module and every scalar type, the
  layouts the optimizer may choose from; with the virtual to physical grid maps of
  \<open>OptimizerUtils.cpp\<close>.

  The check of a layout by the op model library (\<open>isLayoutLegalForTensorShape\<close>) is a
  parameter, as is the order in which \<open>std::sort\<close> leaves layouts of the same grid volume.
\<close>

section \<open>Grids\<close>

fun virtualToPhysicalMap :: "tensor_memory_layout \<Rightarrow> shape \<Rightarrow> fault + affine_map" where
  "virtualToPhysicalMap WidthSharded physicalGridShape =
     rbind (at physicalGridShape 1) (\<lambda>workerCoreW.
       Inr \<lparr>numDims = 2, numSyms = 0, results = [AConst 0, AFloorDiv (ADim 1) (AConst workerCoreW), AMod (ADim 1) (AConst workerCoreW)]\<rparr>)"
| "virtualToPhysicalMap HeightSharded physicalGridShape =
     rbind (at physicalGridShape 1) (\<lambda>workerCoreW.
       Inr \<lparr>numDims = 2, numSyms = 0, results = [AConst 0, AFloorDiv (ADim 0) (AConst workerCoreW), AMod (ADim 0) (AConst workerCoreW)]\<rparr>)"
| "virtualToPhysicalMap _ physicalGridShape = Inr \<lparr>numDims = 2, numSyms = 0, results = [AConst 0, ADim 0, ADim 1]\<rparr>"

text \<open>The grid volume is a \<open>uint64_t\<close>.\<close>

definition gridVolume64 :: "grid_attr \<Rightarrow> 64 word" where
  "gridVolume64 g = foldl (\<lambda>acc d. acc * of_int d) 1 (gridShape g)"

definition layoutVolume :: "ttnn_layout_attr \<Rightarrow> nat" where
  "layoutVolume l = unat (gridVolume64 (getGrid l))"

section \<open>The layouts of a tensor type\<close>

record layouts_ctx =
  plMaxGrid :: grid_attr
  plLegalForShape :: "shape \<Rightarrow> ttnn_layout_attr \<Rightarrow> bool"
  plSort :: "ttnn_layout_attr list \<Rightarrow> ttnn_layout_attr list"

definition tensorShapeCompatibleWithShard :: "layouts_ctx \<Rightarrow> tensor_type \<Rightarrow> ttnn_layout_attr \<Rightarrow> fault + bool" where
  "tensorShapeCompatibleWithShard ctx tensorType layout =
     rbind (hasShardedTensorMemoryLayout layout) (\<lambda>sharded.
     if \<not> sharded then Inr True
     else if \<not> plLegalForShape ctx (ttShape tensorType) layout then Inr False
     else if isTiled layout
     then rbind (layoutTiledShape layout (ttShape tensorType)) (\<lambda>tiledShape.
          rbind (assertE SiteOther (length tiledShape = length (gridShape (getGrid layout)))) (\<lambda>_.
          Inr (list_all2 (\<lambda>tiles cores. \<not> tiles < cores) tiledShape (gridShape (getGrid layout)))))
     else Inr True)"

text \<open>One candidate: the layout of the base on a grid, kept when its shard shape is new.\<close>

definition shardOnGrid :: "ttnn_layout_attr \<Rightarrow> tensor_type \<Rightarrow> tensor_memory_layout \<Rightarrow> affine_map \<Rightarrow> shape \<Rightarrow> fault + ttnn_layout_attr" where
  "shardOnGrid shardedBase tensorType memLayout m g =
     rbind (withGrid shardedBase (ttShape tensorType) \<lparr>gridShape = g, gridMapping = m\<rparr> defaultIntervals) (\<lambda>l.
       withMemoryLayout l (Some memLayout))"

definition addShard ::
  "ttnn_layout_attr \<Rightarrow> tensor_type \<Rightarrow> tensor_memory_layout \<Rightarrow> affine_map \<Rightarrow> shape
    \<Rightarrow> (int \<times> int) list \<times> ttnn_layout_attr list \<Rightarrow> fault + (int \<times> int) list \<times> ttnn_layout_attr list" where
  "addShard shardedBase tensorType memLayout m g = (\<lambda>(shardShapes, shardedResults).
     rbind (shardOnGrid shardedBase tensorType memLayout m g) (\<lambda>l.
     rbind (assertE SiteRank (length (getShardShape l) = 2)) (\<lambda>_.
     let s = (getShardShape l ! 0, getShardShape l ! 1)
     in Inr (if s \<in> set shardShapes then (shardShapes, shardedResults) else (s # shardShapes, shardedResults @ [l])))))"

definition shardsOfKind ::
  "layouts_ctx \<Rightarrow> ttnn_layout_attr \<Rightarrow> tensor_type \<Rightarrow> tensor_memory_layout \<Rightarrow> shape list \<Rightarrow> fault + ttnn_layout_attr list" where
  "shardsOfKind ctx shardedBase tensorType memLayout grids =
     rbind (virtualToPhysicalMap memLayout (gridShape (plMaxGrid ctx))) (\<lambda>m.
     rbind (foldE (addShard shardedBase tensorType memLayout m) grids ([], [])) (\<lambda>(shardShapes, shardedResults).
       Inr shardedResults))"

definition upToInt :: "int \<Rightarrow> int list" where
  "upToInt n = map int [1..<Suc (nat n)]"

definition blockGrids :: "shape \<Rightarrow> shape list" where
  "blockGrids maxShape = concat (map (\<lambda>height. map (\<lambda>width. [height, width]) (upToInt (maxShape ! 1))) (upToInt (maxShape ! 0)))"

definition shardedLayoutsFor :: "layouts_ctx \<Rightarrow> tensor_type \<Rightarrow> elem_type \<Rightarrow> fault + ttnn_layout_attr list" where
  "shardedLayoutsFor ctx tensorType elementType =
     rbind (withBufferType (ttEncoding tensorType) L1) (\<lambda>l.
     rbind (withMemoryLayout l (Some BlockSharded)) (\<lambda>l.
     rbind (withElementType l elementType (ttShape tensorType) defaultIntervals) (\<lambda>shardedBase.
     rbind (assertE SiteRank (length (gridShape (plMaxGrid ctx)) = 2)) (\<lambda>_.
     let numCores = sint (gridVolume64 (plMaxGrid ctx))
     in rbind (shardsOfKind ctx shardedBase tensorType BlockSharded (blockGrids (gridShape (plMaxGrid ctx)))) (\<lambda>block.
        rbind (shardsOfKind ctx shardedBase tensorType HeightSharded (map (\<lambda>height. [height, 1]) (upToInt numCores))) (\<lambda>height.
        rbind (shardsOfKind ctx shardedBase tensorType WidthSharded (map (\<lambda>width. [1, width]) (upToInt numCores))) (\<lambda>width.
          Inr (block @ height @ width))))))))"

definition interleavedLayoutsFor :: "layouts_ctx \<Rightarrow> tensor_type \<Rightarrow> elem_type \<Rightarrow> fault + ttnn_layout_attr list" where
  "interleavedLayoutsFor ctx tensorType elementType =
     rbind (ttnnLayoutGet (ttShape tensorType) elementType DRAM (plMaxGrid ctx) (Some Interleaved) None defaultIntervals) (\<lambda>dram.
     if isTileElem elementType
     then rbind (ttnnLayoutGet (ttShape tensorType) elementType L1 (plMaxGrid ctx) (Some Interleaved) None defaultIntervals) (\<lambda>l1.
       Inr [dram, l1])
     else Inr [dram])"

definition filterE :: "('a \<Rightarrow> fault + bool) \<Rightarrow> 'a list \<Rightarrow> fault + 'a list" where
  "filterE p xs = foldE (\<lambda>x kept. rbind (p x) (\<lambda>b. Inr (if b then kept @ [x] else kept))) xs []"

definition generateAllPossibleLayouts ::
  "layouts_ctx \<Rightarrow> tensor_type \<Rightarrow> scalar_type \<Rightarrow> bool \<Rightarrow> int \<Rightarrow> bool \<Rightarrow> fault + ttnn_layout_attr list" where
  "generateAllPossibleLayouts ctx tensorType scalarElementType onlyShardedLayouts maxNumGeneratedLayouts rowMajorAllowed =
     rbind (tileTypeGet scalarElementType [TILE_HEIGHT, TILE_WIDTH]) (\<lambda>tile.
     let elementTypes = (if rowMajorAllowed then [Scalar scalarElementType] else []) @ [TileElem tile]
     in rbind (mapE (\<lambda>elementType.
            rbind (if onlyShardedLayouts then Inr [] else interleavedLayoutsFor ctx tensorType elementType) (\<lambda>interleaved.
            rbind (shardedLayoutsFor ctx tensorType elementType) (\<lambda>sharded. Inr (interleaved, sharded)))) elementTypes) (\<lambda>layouts.
        rbind (filterE (tensorShapeCompatibleWithShard ctx tensorType) (concat (map snd layouts))) (\<lambda>sharded.
        let sorted = plSort ctx sharded;
            numLayoutsToGenerate = (if 0 \<le> maxNumGeneratedLayouts then nat (min maxNumGeneratedLayouts (int (length sorted))) else length sorted)
        in Inr (concat (map fst layouts) @ take numLayoutsToGenerate sorted))))"

section \<open>The analysis\<close>

text \<open>Layouts by tensor type, scalar type, page layout and memory layout. Types are told apart by shape
  and element type; a type with another encoding counts as processed.\<close>

type_synonym possible_layouts = "shape \<times> elem_type \<Rightarrow> (scalar_type \<Rightarrow> page_layouts option) option"

definition getPageLayoutIndex :: "layout \<Rightarrow> fault + nat" where
  "getPageLayoutIndex l = rbind (assertE SiteOther (l = Tile \<or> l = RowMajor)) (\<lambda>_. Inr (if l = Tile then 1 else 0))"

definition getMemoryLayoutIndex :: "tensor_memory_layout \<Rightarrow> nat" where
  "getMemoryLayoutIndex memLayout = (if isShardedMemoryLayout memLayout then 1 else 0)"

definition categorize :: "shape \<times> elem_type \<Rightarrow> ttnn_layout_attr \<Rightarrow> possible_layouts \<Rightarrow> fault + possible_layouts" where
  "categorize key l result =
     (let scalarType = getScalarElementType l;
          memLayout = (case getMemLayout l of Some m \<Rightarrow> m | None \<Rightarrow> Interleaved)
      in rbind (getPageLayoutIndex (getLayout l)) (\<lambda>page.
         let memory = getMemoryLayoutIndex memLayout;
             scalars = (case result key of Some scalars \<Rightarrow> scalars | None \<Rightarrow> Map.empty);
             pages = (case scalars scalarType of Some pages \<Rightarrow> pages | None \<Rightarrow> (\<lambda>_ _. []))
         in Inr (result(key \<mapsto> scalars(scalarType \<mapsto> pages(page := (pages page)(memory := pages page memory @ [l])))))))"

definition generateLayouts :: "layouts_ctx \<Rightarrow> scalar_type list \<Rightarrow> bool \<Rightarrow> tensor_type \<Rightarrow> fault + ttnn_layout_attr list" where
  "generateLayouts ctx allowedScalarTypes rowMajorAllowed tensorType =
     rbind (assertE SiteOther (allowedScalarTypes \<noteq> [])) (\<lambda>_.
     rbind (mapE (\<lambda>scalarType. generateAllPossibleLayouts ctx tensorType scalarType False (- 1) rowMajorAllowed) allowedScalarTypes)
       (\<lambda>layouts. Inr (concat layouts)))"

definition processTensorType ::
  "layouts_ctx \<Rightarrow> scalar_type list \<Rightarrow> bool \<Rightarrow> tensor_type \<Rightarrow> possible_layouts \<Rightarrow> fault + possible_layouts" where
  "processTensorType ctx allowedScalarTypes rowMajorAllowed tensorType result =
     rbind (generateLayouts ctx allowedScalarTypes rowMajorAllowed tensorType) (\<lambda>layouts.
       foldE (categorize (ttShape tensorType, ttElem tensorType)) layouts result)"

text \<open>The operand and result types of the module, in the order of the walk.\<close>

definition allPossibleLayouts ::
  "layouts_ctx \<Rightarrow> scalar_type list \<Rightarrow> bool \<Rightarrow> value_type list \<Rightarrow> fault + possible_layouts" where
  "allPossibleLayouts ctx allowedScalarTypes rowMajorAllowed types =
     rbind (foldE (\<lambda>ty (processedTypes, result).
         case ty of
           DeviceValue \<Rightarrow> Inr (processedTypes, result)
         | RankedTensor tensorType \<Rightarrow>
             let key = (ttShape tensorType, ttElem tensorType)
             in if key \<in> set processedTypes then Inr (processedTypes, result)
                else rbind (processTensorType ctx allowedScalarTypes rowMajorAllowed tensorType result) (\<lambda>result.
                  Inr (key # processedTypes, result))) types ([], Map.empty)) (\<lambda>(processedTypes, result). Inr result)"

end
