(* ===== verification/LegalLayouts.thy ===== *)
theory LegalLayouts
  imports PossibleLayouts PassOverrides
begin

text \<open>
  \<open>LegalLayoutAnalysis\<close>: the configs the optimizer considers for one op, from the possible layouts of its
  tensor type and the overrides of the command line; and \<open>ScalarDataTypeAnalysis\<close>, which collects the
  scalar types layouts are generated for.
\<close>

section \<open>Inputs\<close>

datatype legal_op_kind = LegalEmptyOp | LegalToLayoutOp | LegalConv2dOp | LegalOtherOp

text \<open>The location of an op may be a name.\<close>

record legal_op =
  loIsTTNN :: bool
  loKind :: legal_op_kind
  loLoc :: "string option"
  loOperands :: "value_type list"
  loResults :: "value_type list"

text \<open>The pointers to the overrides may be null.\<close>

record legal_input =
  liPossible :: "scalar_type \<Rightarrow> page_layouts option"
  liMaxShardedConfigs :: nat
  liOutputOverrides :: "(string \<times> output_override) list option"
  liConv2dOverrides :: "(string \<times> conv2d_override) list option"
  liRowMajorEnabled :: bool
  liSort :: "ttnn_layout_attr list \<Rightarrow> ttnn_layout_attr list"

section \<open>Conv2d configs\<close>

record conv2d_config =
  ccDtype :: data_type
  ccWeightsDtype :: data_type
  ccActivation :: string
  ccDeallocateActivation :: bool
  ccReallocateHaloOutput :: bool
  ccActBlockHOverride :: "32 word"
  ccActBlockWDiv :: "32 word"
  ccReshardIfNotOptimal :: bool
  ccOverrideShardingConfig :: bool
  ccShardLayout :: "tensor_memory_layout option"
  ccCoreGrid :: "nat option"
  ccTransposeShards :: bool
  ccOutputLayout :: layout
  ccPreprocessWeightsOnDevice :: bool
  ccAlwaysPreprocessWeights :: bool
  ccEnableActDoubleBuffer :: bool
  ccEnableWeightsDoubleBuffer :: bool
  ccEnableSplitReader :: bool
  ccEnableSubblockPadding :: bool

definition valueOr :: "'v option \<Rightarrow> 'v \<Rightarrow> 'v" where
  "valueOr x d = (case x of Some v \<Rightarrow> v | None \<Rightarrow> d)"

definition operandDataType :: "legal_op \<Rightarrow> nat \<Rightarrow> fault + data_type" where
  "operandDataType op i =
     rbind (at (loOperands op) i) (\<lambda>ty.
     case ty of RankedTensor tensorType \<Rightarrow> elementTypeToDataType (ttElem tensorType) | DeviceValue \<Rightarrow> Inl (AssertFailed SiteOther))"

definition conv2dConfigOf :: "legal_op \<Rightarrow> conv2d_override \<Rightarrow> fault + conv2d_config" where
  "conv2dConfigOf op overrides =
     rbind (operandDataType op 0) (\<lambda>dtype.
     rbind (operandDataType op 1) (\<lambda>weightsDtype.
     Inr \<lparr>ccDtype = dtype, ccWeightsDtype = weightsDtype, ccActivation = valueOr (cpActivation overrides) [],
       ccDeallocateActivation = valueOr (cpDeallocateActivation overrides) False,
       ccReallocateHaloOutput = valueOr (cpReallocateHaloOutput overrides) True,
       ccActBlockHOverride = valueOr (cpActBlockHOverride overrides) 0,
       ccActBlockWDiv = valueOr (cpActBlockWDiv overrides) 1,
       ccReshardIfNotOptimal = valueOr (cpReshardIfNotOptimal overrides) False,
       ccOverrideShardingConfig = valueOr (cpOverrideShardingConfig overrides) False,
       ccShardLayout = cpShardLayout overrides, ccCoreGrid = cpCoreGrid overrides,
       ccTransposeShards = valueOr (cpTransposeShards overrides) False,
       ccOutputLayout = valueOr (cpOutputLayout overrides) Tile,
       ccPreprocessWeightsOnDevice = valueOr (cpPreprocessWeightsOnDevice overrides) False,
       ccAlwaysPreprocessWeights = valueOr (cpAlwaysPreprocessWeights overrides) False,
       ccEnableActDoubleBuffer = valueOr (cpEnableActDoubleBuffer overrides) False,
       ccEnableWeightsDoubleBuffer = valueOr (cpEnableWeightsDoubleBuffer overrides) False,
       ccEnableSplitReader = valueOr (cpEnableSplitReader overrides) False,
       ccEnableSubblockPadding = valueOr (cpEnableSubblockPadding overrides) False\<rparr>))"

text \<open>A legal config: a layout, and for a conv2d its config.\<close>

record legal_config =
  lgLayout :: ttnn_layout_attr
  lgConv2d :: "conv2d_config option"

definition ofLayout :: "ttnn_layout_attr \<Rightarrow> legal_config" where
  "ofLayout l = \<lparr>lgLayout = l, lgConv2d = None\<rparr>"

definition applyConv2dConfigOverrides :: "legal_op \<Rightarrow> conv2d_override \<Rightarrow> legal_config list \<Rightarrow> fault + legal_config list" where
  "applyConv2dConfigOverrides op overrides analysisResult =
     rbind (conv2dConfigOf op overrides) (\<lambda>config.
     mapE (\<lambda>opConfig. rbind (assertE SiteOther (lgConv2d opConfig = None)) (\<lambda>_. Inr (opConfig\<lparr>lgConv2d := Some config\<rparr>))) analysisResult)"

text \<open>The config overrides of a named conv2d; the default where there are none.\<close>

definition applyConv2dByName :: "legal_input \<Rightarrow> legal_op \<Rightarrow> string \<Rightarrow> legal_config list \<Rightarrow> fault + legal_config list" where
  "applyConv2dByName inp op opLocName analysisResult =
     (if loKind op = LegalConv2dOp
      then applyConv2dConfigOverrides op
        (case liConv2dOverrides inp of
           None \<Rightarrow> noConv2dOverride
         | Some m \<Rightarrow> valueOr (map_of m opLocName) noConv2dOverride) analysisResult
      else Inr analysisResult)"

section \<open>Full overrides\<close>

text \<open>The result type of the op, a ranked tensor; its layout.\<close>

definition resultType :: "legal_op \<Rightarrow> fault + tensor_type" where
  "resultType op = rbind (at (loResults op) 0) (\<lambda>ty.
     case ty of RankedTensor tensorType \<Rightarrow> Inr tensorType | DeviceValue \<Rightarrow> Inl (AssertFailed SiteOther))"

text \<open>\<open>applyOverrides\<close>: None to go on with the analysis.\<close>

definition applyOverrides :: "legal_input \<Rightarrow> legal_op \<Rightarrow> fault + legal_config list option" where
  "applyOverrides inp op =
     (case (liOutputOverrides inp, loLoc op) of
        (Some overrides, Some opLocName) \<Rightarrow>
          (case map_of overrides opLocName of
             None \<Rightarrow> Inr None
           | Some layoutOverride \<Rightarrow>
               if \<not> fullLayoutOverride layoutOverride then Inr None
               else rbind (resultType op) (\<lambda>tensorType.
                 let scalar = getScalarElementType (ttEncoding tensorType);
                     elementType = (case ovDataType layoutOverride of Some d \<Rightarrow> dataTypeToElementType d | None \<Rightarrow> scalar)
                 in rbind (if ovMemoryLayout layoutOverride = Some Tile
                           then rbind (tileTypeGet elementType [TILE_HEIGHT, TILE_WIDTH]) (\<lambda>t. Inr (TileElem t))
                           else Inr (Scalar elementType)) (\<lambda>elem.
                    rbind (ttnnLayoutGet (ttShape tensorType) elem (the (ovBufferType layoutOverride))
                             (gridOfShape (the (ovGrid layoutOverride))) (ovTensorMemoryLayout layoutOverride) None defaultIntervals) (\<lambda>l.
                    rbind (applyConv2dByName inp op opLocName [ofLayout l]) (\<lambda>configs. Inr (Some configs))))))
      | _ \<Rightarrow> Inr None)"

section \<open>The analysis\<close>

definition cantChangeOutputLayout :: "legal_op \<Rightarrow> bool" where
  "cantChangeOutputLayout op \<longleftrightarrow> \<not> loIsTTNN op \<or> loKind op = LegalEmptyOp \<or> loKind op = LegalToLayoutOp"

text \<open>The checks are made in order, and stop at the first that differs.\<close>

definition gridIncompatible :: "legal_config \<Rightarrow> output_override \<Rightarrow> fault + bool" where
  "gridIncompatible config layoutOverride =
     (case ovGrid layoutOverride of
        None \<Rightarrow> Inr False
      | Some g \<Rightarrow>
          let s = gridShape (getGrid (lgLayout config))
          in rbind (at s 0) (\<lambda>s0. rbind (at g 0) (\<lambda>g0.
             if s0 \<noteq> g0 then Inr True
             else rbind (at s 1) (\<lambda>s1. rbind (at g 1) (\<lambda>g1. Inr (s1 \<noteq> g1))))))"

definition incompatibleWithOverride :: "output_override option \<Rightarrow> legal_config \<Rightarrow> fault + bool" where
  "incompatibleWithOverride layoutOverride config =
     (case layoutOverride of
        None \<Rightarrow> Inr False
      | Some ov \<Rightarrow>
          rbind (gridIncompatible config ov) (\<lambda>b.
          if b then Inr True
          else if ovBufferType ov \<noteq> None \<and> Some (getBufferType (lgLayout config)) \<noteq> ovBufferType ov then Inr True
          else rbind (case ovTensorMemoryLayout ov of
                 None \<Rightarrow> Inr False
               | Some m \<Rightarrow> rbind (memLayoutValue (getMemLayout (lgLayout config))) (\<lambda>v. Inr (v \<noteq> m))) (\<lambda>b.
          if b then Inr True
          else Inr (case ovMemoryLayout ov of None \<Rightarrow> False | Some l \<Rightarrow> isTiled (lgLayout config) \<noteq> (l = Tile)))))"

text \<open>The overrides are read through a pointer without a check, if the op has a name.\<close>

definition lookupOverride :: "legal_input \<Rightarrow> legal_op \<Rightarrow> fault + output_override option" where
  "lookupOverride inp op =
     (case loLoc op of
        None \<Rightarrow> Inr None
      | Some opLocName \<Rightarrow> (case liOutputOverrides inp of None \<Rightarrow> Inl NullDeref | Some m \<Rightarrow> Inr (map_of m opLocName)))"

definition rowMajorAllowedFor :: "legal_input \<Rightarrow> output_override option \<Rightarrow> bool" where
  "rowMajorAllowedFor inp ov \<longleftrightarrow> liRowMajorEnabled inp \<or> (case ov of Some o1 \<Rightarrow> ovMemoryLayout o1 = Some RowMajor | None \<Rightarrow> False)"

definition scalarFor :: "output_override option \<Rightarrow> tensor_type \<Rightarrow> scalar_type" where
  "scalarFor ov tensorType =
     (case ov of
        Some o1 \<Rightarrow> (case ovDataType o1 of Some d \<Rightarrow> dataTypeToElementType d | None \<Rightarrow> getScalarElementType (ttEncoding tensorType))
      | None \<Rightarrow> getScalarElementType (ttEncoding tensorType))"

text \<open>The candidates: all interleaved layouts, then the sharded ones on the largest grids, half of them
  row major if row major is allowed.\<close>

definition interleavedCandidates :: "bool \<Rightarrow> page_layouts \<Rightarrow> ttnn_layout_attr list" where
  "interleavedCandidates rowMajorAllowed pages = (if rowMajorAllowed then pages 0 0 else []) @ pages 1 0"

definition shardedCandidates :: "legal_input \<Rightarrow> bool \<Rightarrow> page_layouts \<Rightarrow> ttnn_layout_attr list" where
  "shardedCandidates inp rowMajorAllowed pages =
     (let shardedLayoutsRowMajor = liSort inp (if rowMajorAllowed then pages 0 1 else []);
          shardedLayoutsTile = liSort inp (pages 1 1);
          maxShardedConfigs = (if rowMajorAllowed then liMaxShardedConfigs inp div 2 else liMaxShardedConfigs inp)
      in liSort inp (take (min maxShardedConfigs (length shardedLayoutsRowMajor)) shardedLayoutsRowMajor
                     @ take (min maxShardedConfigs (length shardedLayoutsTile)) shardedLayoutsTile))"

definition isRanked :: "value_type \<Rightarrow> bool" where
  "isRanked ty = (case ty of RankedTensor tensorType \<Rightarrow> True | DeviceValue \<Rightarrow> False)"

definition legalAnalysis :: "legal_input \<Rightarrow> legal_op \<Rightarrow> fault + legal_config list" where
  "legalAnalysis inp op =
     (if length (loResults op) = 0 then Inr []
      else if \<not> isRanked (loResults op ! 0) then Inr []
      else if loKind op = LegalEmptyOp then Inr []
      else rbind (resultType op) (\<lambda>tensorType.
        if cantChangeOutputLayout op then Inr [ofLayout (ttEncoding tensorType)]
        else rbind (lookupOverride inp op) (\<lambda>ov.
          let rowMajorAllowed = rowMajorAllowedFor inp ov
          in case liPossible inp (scalarFor ov tensorType) of
               None \<Rightarrow> Inl (AssertFailed SiteOther)
             | Some pages \<Rightarrow>
                 let candidates = map ofLayout (interleavedCandidates rowMajorAllowed pages @ shardedCandidates inp rowMajorAllowed pages)
                 in rbind (filterE (\<lambda>config. rbind (incompatibleWithOverride ov config) (\<lambda>b. Inr (\<not> b))) candidates) (\<lambda>kept.
                    rbind (case loLoc op of Some opLocName \<Rightarrow> applyConv2dByName inp op opLocName kept | None \<Rightarrow> Inr kept) (\<lambda>configs.
                    rbind (assertE SiteOther (configs \<noteq> [])) (\<lambda>_. Inr configs))))))"

definition legalLayouts :: "legal_input \<Rightarrow> legal_op \<Rightarrow> fault + legal_config list" where
  "legalLayouts inp op =
     rbind (applyOverrides inp op) (\<lambda>skip. case skip of Some configs \<Rightarrow> Inr configs | None \<Rightarrow> legalAnalysis inp op)"

section \<open>Scalar types\<close>

text \<open>\<open>ScalarDataTypeAnalysis\<close>: the types in the order of the walk, without repetition.\<close>

definition getScalarType :: "tensor_type \<Rightarrow> fault + scalar_type" where
  "getScalarType tensorType =
     (case ttElem tensorType of
        Scalar s \<Rightarrow> rbind (assertE SiteOther (getScalarElementType (ttEncoding tensorType) = s)) (\<lambda>_. Inr s)
      | TileElem t \<Rightarrow> Inl (AssertFailed SiteOther))"

definition collectValue :: "value_type \<Rightarrow> scalar_type list \<Rightarrow> fault + scalar_type list" where
  "collectValue ty scalarTypes =
     (case ty of DeviceValue \<Rightarrow> Inr scalarTypes
      | RankedTensor tensorType \<Rightarrow> rbind (getScalarType tensorType) (\<lambda>s. Inr (List.insert s scalarTypes)))"

definition collectScalarTypes ::
  "(string \<times> output_override) list option \<Rightarrow> legal_op \<Rightarrow> scalar_type list \<Rightarrow> fault + scalar_type list" where
  "collectScalarTypes overrides op scalarTypes =
     (let overridden = (case (loLoc op, overrides) of
            (Some opLocName, Some m) \<Rightarrow> (case map_of m opLocName of
                Some o1 \<Rightarrow> (case ovDataType o1 of Some d \<Rightarrow> List.insert (dataTypeToElementType d) scalarTypes | None \<Rightarrow> scalarTypes)
              | None \<Rightarrow> scalarTypes)
          | _ \<Rightarrow> scalarTypes)
      in rbind (foldE collectValue (loResults op) overridden) (foldE collectValue (loOperands op)))"

definition scalarDataTypes :: "(string \<times> output_override) list option \<Rightarrow> legal_op list \<Rightarrow> fault + scalar_type list" where
  "scalarDataTypes overrides ops = foldE (collectScalarTypes overrides) ops []"

end
