(* ===== verification/LayoutsFacts.thy ===== *)
theory LayoutsFacts
  imports LegalLayouts TTNNCoverage "HOL-Library.Multiset"
begin

text \<open>
  What the two layout analyses compute: the sharded candidates of a tensor type are the smallest grids of
  every shard shape, and the legal layouts of an op are the largest of the possible ones.
\<close>

section \<open>One candidate per shard shape\<close>

text \<open>The first grids with their shard shape.\<close>

fun firstGrids :: "(shape \<Rightarrow> 'k) \<Rightarrow> 'k list \<Rightarrow> shape list \<Rightarrow> shape list" where
  "firstGrids key seen [] = []"
| "firstGrids key seen (g # gs) =
     (if key g \<in> set seen then firstGrids key seen gs else g # firstGrids key (key g # seen) gs)"

lemma firstGrids_fresh: "g \<in> set (firstGrids key seen gs) \<Longrightarrow> g \<in> set gs \<and> key g \<notin> set seen"
  by (induction gs arbitrary: seen) (force split: if_splits)+

lemma firstGrids_distinct: "distinct (map key (firstGrids key seen gs))"
  by (induction gs arbitrary: seen) (auto dest: firstGrids_fresh)

lemma firstGrids_first:
  assumes "g \<in> set gs" and "key g \<notin> set seen"
  shows "\<exists>pre g' post. gs = pre @ g' # post \<and> g' \<in> set (firstGrids key seen gs) \<and> key g' = key g \<and> (\<forall>x \<in> set pre. key x \<noteq> key g)"
  using assms
proof (induction gs arbitrary: seen)
  case (Cons x gs)
  show ?case
  proof (cases "key x = key g")
    case True
    with Cons.prems(2) have "x # gs = [] @ x # gs \<and> x \<in> set (firstGrids key seen (x # gs)) \<and> key x = key g
      \<and> (\<forall>y \<in> set []. key y \<noteq> key g)" by simp
    then show ?thesis by blast
  next
    case False
    define seen' where "seen' = (if key x \<in> set seen then seen else key x # seen)"
    from False Cons.prems have "g \<in> set gs" "key g \<notin> set seen'" by (auto simp: seen'_def)
    from Cons.IH[OF this] obtain pre g' post where "gs = pre @ g' # post" "g' \<in> set (firstGrids key seen' gs)" "key g' = key g"
      "\<forall>y \<in> set pre. key y \<noteq> key g" by blast
    with False have "x # gs = (x # pre) @ g' # post \<and> g' \<in> set (firstGrids key seen (x # gs)) \<and> key g' = key g
      \<and> (\<forall>y \<in> set (x # pre). key y \<noteq> key g)" by (auto simp: seen'_def split: if_splits)
    then show ?thesis by blast
  qed
qed simp

lemma foldE_addShard:
  assumes "\<forall>g \<in> set gs. shardOnGrid base ty kind m g = Inr (L g) \<and> length (getShardShape (L g)) = 2"
  defines "key \<equiv> \<lambda>g. (getShardShape (L g) ! 0, getShardShape (L g) ! 1)"
  shows "\<exists>seen'. foldE (addShard base ty kind m) gs (seen, res) = Inr (seen', res @ map L (firstGrids key seen gs))"
  using assms(1)
proof (induction gs arbitrary: seen res)
  case (Cons g gs)
  then have g: "addShard base ty kind m g (seen, res) = Inr (if key g \<in> set seen then (seen, res) else (key g # seen, res @ [L g]))"
    by (simp add: addShard_def key_def)
  have IH: "\<exists>seen'. foldE (addShard base ty kind m) gs (seen, res) = Inr (seen', res @ map L (firstGrids key seen gs))" for seen res
    using Cons by simp
  show ?case
  proof (cases "key g \<in> set seen")
    case True
    with g IH show ?thesis by simp
  next
    case False
    with g IH[of "key g # seen" "res @ [L g]"] show ?thesis by simp
  qed
qed simp

section \<open>The shard of a grid\<close>

text \<open>The physical shape, flattened to two dimensions, is cut by the grid and, for tiles, counted in tiles.\<close>

definition shardOfGrid :: "elem_type \<Rightarrow> shape \<Rightarrow> shape \<Rightarrow> shape" where
  "shardOfGrid e s g =
     (let p = physicalShapeOf e s;
          flat = evalShape (linear2d p) p;
          h = ceil_div (flat ! 0) (g ! 0);
          w = ceil_div (flat ! 1) (g ! 1)
      in case e of Scalar _ \<Rightarrow> [h, w] | TileElem t \<Rightarrow> [ceil_div h (getHeight t), ceil_div w (getWidth t)])"

lemma shardOfGrid_coords: "\<exists>fh fw. \<forall>h w. shardOfGrid e s [h, w] = [fh h, fw w]"
proof (cases e)
  case (Scalar x)
  then show ?thesis by (auto simp: shardOfGrid_def Let_def intro!: exI)
next
  case (TileElem t)
  then show ?thesis by (auto simp: shardOfGrid_def Let_def intro!: exI)
qed

lemma length_shardOfGrid: "length (shardOfGrid e s g) = 2"
  by (simp add: shardOfGrid_def Let_def split: elem_type.splits)

lemma shardOnGrid_total:
  assumes "2 \<le> length (ttShape ty)" and "length g = 2" and "getBufferType base = L1"
    and "getMemLayout base = Some BlockSharded" and "\<And>t. getElementType base = TileElem t \<Longrightarrow> tile_ok t"
  shows "\<exists>l. shardOnGrid base ty kind m g = Inr l \<and> getMemLayout l = Some kind \<and> getBufferType l = L1
    \<and> getElementType l = getElementType base \<and> getGrid l = \<lparr>gridShape = g, gridMapping = m\<rparr>
    \<and> getShardShape l = shardOfGrid (getElementType base) (ttShape ty) g"
proof -
  have args: "sharded_args (ttShape ty) L1 \<lparr>gridShape = g, gridMapping = m\<rparr> (Some BlockSharded)"
    using assms(1,2) by (simp add: sharded_args_def)
  from get_total_memref_ok[OF args, where e = "getElementType base" and ms = "getTensorMeshSharding base"] assms(5)
  obtain l where l: "ttnnLayoutGet (ttShape ty) (getElementType base) L1 \<lparr>gridShape = g, gridMapping = m\<rparr> (Some BlockSharded)
      (getTensorMeshSharding base) defaultIntervals = Inr l" "memref_ok l" by blast
  have "getShardShape l = shardOfGrid (getElementType base) (ttShape ty) g"
    using l(1) unfolding ttnnLayoutGet_eq[OF args] by (auto simp: Let_def getShardShape_def shardOfGrid_def)
  moreover note ttnnLayoutGet_fields[OF l(1)]
  moreover have "shardOnGrid base ty kind m g = Inr (l\<lparr>getMemLayout := Some kind\<rparr>)"
    using l by (simp add: shardOnGrid_def withGrid_def assms(3,4) withMemoryLayout_eq[OF l(2)])
  ultimately show ?thesis by (auto simp: getBufferType_def getElementType_def getShardShape_def)
qed

section \<open>Grids in order\<close>

definition gridBefore :: "shape \<Rightarrow> shape \<Rightarrow> bool" where
  "gridBefore a b \<longleftrightarrow> a ! 0 < b ! 0 \<or> a ! 0 = b ! 0 \<and> a ! 1 < b ! 1"

lemma upToInt_sorted: "sorted_wrt (<) (upToInt n)"
  unfolding upToInt_def sorted_wrt_map by (rule sorted_wrt_mono_rel[OF _ sorted_wrt_upt]) simp

lemma upToInt_set: "set (upToInt n) = {i. 1 \<le> i \<and> i \<le> n}"
proof -
  have "i \<in> set (upToInt n)" if "1 \<le> i" "i \<le> n" for i
    using that by (auto simp: upToInt_def intro!: image_eqI[of _ _ "nat i"])
  moreover have "1 \<le> i \<and> i \<le> n" if "i \<in> set (upToInt n)" for i
    using that by (auto simp: upToInt_def)
  ultimately show ?thesis by blast
qed

lemma grids_sorted:
  assumes "sorted_wrt (<) hs" and "sorted_wrt (<) ws"
  shows "sorted_wrt gridBefore (concat (map (\<lambda>h. map (\<lambda>w. [h, w :: int]) ws) hs))"
  using assms(1)
proof (induction hs)
  case (Cons h hs)
  have "sorted_wrt gridBefore (map (\<lambda>w. [h, w]) ws)"
    unfolding sorted_wrt_map using assms(2) by (rule sorted_wrt_mono_rel[rotated]) (simp add: gridBefore_def)
  moreover have "gridBefore [h, w] g" if "g \<in> set (concat (map (\<lambda>h. map (\<lambda>w. [h, w]) ws) hs))" for w g
    using that Cons.prems by (auto simp: gridBefore_def)
  ultimately show ?case using Cons by (auto simp: sorted_wrt_append)
qed simp

lemma before_in_prefix:
  assumes "sorted_wrt gridBefore (pre @ g # post)" and "x \<in> set (pre @ g # post)" and "gridBefore x g"
  shows "x \<in> set pre"
proof (rule ccontr)
  assume "x \<notin> set pre"
  with assms(2) have "x = g \<or> x \<in> set post" by auto
  with assms(1) have "x = g \<or> gridBefore g x" by (auto simp: sorted_wrt_append)
  with assms(3) show False by (auto simp: gridBefore_def)
qed

text \<open>In a list of grids in order that contains the smaller grids of each grid, the first grid with the
  shard of a grid is no larger in either dimension.\<close>

lemma first_grid_smallest_on:
  assumes sorted: "sorted_wrt gridBefore gs"
    and closed: "\<And>h w h' w'. [h, w] \<in> set gs \<Longrightarrow> [h', w'] \<in> set gs \<Longrightarrow> [min h h', min w w'] \<in> set gs"
    and pairs: "\<forall>g \<in> set gs. length g = 2"
    and key: "\<forall>h w. key [h, w] = [fh h, fw w]"
    and same: "\<And>g g'. g \<in> set gs \<Longrightarrow> g' \<in> set gs \<Longrightarrow> pair g = pair g' \<longleftrightarrow> key g = key g'"
    and g: "g \<in> set gs"
  shows "\<exists>g' \<in> set (firstGrids pair [] gs). key g' = key g \<and> g' ! 0 \<le> g ! 0 \<and> g' ! 1 \<le> (g ! 1 :: int)"
proof -
  obtain pre g' post where f: "gs = pre @ g' # post" "g' \<in> set (firstGrids pair [] gs)" "pair g' = pair g"
    "\<forall>x \<in> set pre. pair x \<noteq> pair g"
    using firstGrids_first[OF g, of pair "[]"] by auto
  have g': "g' \<in> set gs" by (simp add: f(1))
  from pairs g obtain h w where gw: "g = [h, w]" by (metis length_2E)
  from pairs g' obtain h' w' where gw': "g' = [h', w']" by (metis length_2E)
  have m: "[min h h', min w w'] \<in> set gs" using closed g g' by (simp add: gw gw')
  have k: "key g' = key g" using f(3) same[OF g' g] by simp
  then have "fh h = fh h'" "fw w = fw w'" using key by (simp_all add: gw gw')
  then have "key [min h h', min w w'] = key g" using key by (simp add: gw min_def)
  with same[OF m g] f(4) have "[min h h', min w w'] \<notin> set pre" by blast
  with before_in_prefix[of pre g' post "[min h h', min w w']"] sorted m have "\<not> gridBefore [min h h', min w w'] g'"
    unfolding f(1) by blast
  then have "h' \<le> h" "w' \<le> w" by (auto simp: gridBefore_def gw' split: if_splits)
  with f(2) k show ?thesis by (auto simp: gw gw')
qed

section \<open>The sharded candidates\<close>

text \<open>Every layout is on one of the grids, with the shard of that grid; no two have the same shard; and every
  grid has a layout with its shard, on a grid that is no larger in either dimension.\<close>

definition smallestGrids :: "elem_type \<Rightarrow> shape \<Rightarrow> tensor_memory_layout \<Rightarrow> shape set \<Rightarrow> ttnn_layout_attr list \<Rightarrow> bool" where
  "smallestGrids e s kind grids ls \<longleftrightarrow>
     (\<forall>l \<in> set ls. getMemLayout l = Some kind \<and> getBufferType l = L1 \<and> getElementType l = e
        \<and> gridShape (getGrid l) \<in> grids \<and> getShardShape l = shardOfGrid e s (gridShape (getGrid l)))
     \<and> distinct (map getShardShape ls)
     \<and> (\<forall>g \<in> grids. \<exists>l \<in> set ls. getShardShape l = shardOfGrid e s g
          \<and> gridShape (getGrid l) ! 0 \<le> g ! 0 \<and> gridShape (getGrid l) ! 1 \<le> g ! 1)"

lemma virtualToPhysicalMap_2d: "length physical = 2 \<Longrightarrow> \<exists>m. virtualToPhysicalMap kind physical = Inr m"
  by (cases kind) (auto simp: at_def)

lemma shardsOfKind_smallest:
  assumes "2 \<le> length (ttShape ty)" and "getBufferType base = L1"
    and "getMemLayout base = Some BlockSharded" and "\<And>t. getElementType base = TileElem t \<Longrightarrow> tile_ok t"
    and "length (gridShape (plMaxGrid ctx)) = 2"
    and sorted: "sorted_wrt gridBefore gs"
    and closed: "\<And>h w h' w'. [h, w] \<in> set gs \<Longrightarrow> [h', w'] \<in> set gs \<Longrightarrow> [min h h', min w w'] \<in> set gs"
    and pairs: "\<forall>g \<in> set gs. length g = 2"
  shows "\<exists>ls. shardsOfKind ctx base ty kind gs = Inr ls \<and> smallestGrids (getElementType base) (ttShape ty) kind (set gs) ls"
proof -
  define key where "key = shardOfGrid (getElementType base) (ttShape ty)"
  obtain m where m: "virtualToPhysicalMap kind (gridShape (plMaxGrid ctx)) = Inr m" using virtualToPhysicalMap_2d assms(5) by blast
  define L where "L = (\<lambda>g. projr (shardOnGrid base ty kind m g))"
  have L: "shardOnGrid base ty kind m g = Inr (L g) \<and> getMemLayout (L g) = Some kind \<and> getBufferType (L g) = L1
    \<and> getElementType (L g) = getElementType base \<and> gridShape (getGrid (L g)) = g \<and> getShardShape (L g) = key g"
    if "g \<in> set gs" for g
    using shardOnGrid_total[OF assms(1) _ assms(2-4), of g kind m] pairs that by (auto simp: L_def key_def)
  define pair where "pair = (\<lambda>g. (getShardShape (L g) ! 0, getShardShape (L g) ! 1))"
  have two: "length (key g) = 2" for g by (simp add: key_def length_shardOfGrid)
  have same: "pair g = pair g' \<longleftrightarrow> key g = key g'" if "g \<in> set gs" "g' \<in> set gs" for g g'
    using L[OF that(1)] L[OF that(2)] two[of g] two[of g'] by (auto simp: pair_def list_eq_iff_nth_eq less_2_cases_iff)
  have "\<forall>g \<in> set gs. shardOnGrid base ty kind m g = Inr (L g) \<and> length (getShardShape (L g)) = 2" using L two by simp
  from foldE_addShard[OF this, of "[]" "[]"] obtain seen where
    "foldE (addShard base ty kind m) gs ([], []) = Inr (seen, map L (firstGrids pair [] gs))"
    by (auto simp: pair_def)
  with m have run: "shardsOfKind ctx base ty kind gs = Inr (map L (firstGrids pair [] gs))"
    by (simp add: shardsOfKind_def)
  define fs where "fs = firstGrids pair [] gs"
  have sub: "g \<in> set fs \<Longrightarrow> g \<in> set gs" for g unfolding fs_def by (blast dest: firstGrids_fresh)
  have "distinct (map pair fs)" unfolding fs_def by (rule firstGrids_distinct)
  then have "distinct fs" "inj_on pair (set fs)" by (auto simp: distinct_map)
  moreover from this(2) have "inj_on (getShardShape \<circ> L) (set fs)"
    using same sub L by (auto simp: inj_on_def)
  ultimately have d: "distinct (map getShardShape (map L fs))" by (simp add: distinct_map)
  obtain fh fw where f: "\<forall>h w. key [h, w] = [fh h, fw w]" unfolding key_def using shardOfGrid_coords by blast
  have pf: "\<exists>l \<in> set (map L fs). getShardShape l = key g \<and> gridShape (getGrid l) ! 0 \<le> g ! 0 \<and> gridShape (getGrid l) ! 1 \<le> g ! 1"
    if g: "g \<in> set gs" for g
  proof -
    from first_grid_smallest_on[OF sorted closed pairs f same g] obtain g' where
      "g' \<in> set fs" "key g' = key g" "g' ! 0 \<le> g ! 0" "g' ! 1 \<le> g ! 1" unfolding fs_def by blast
    then show ?thesis using L[OF sub] by auto
  qed
  have "smallestGrids (getElementType base) (ttShape ty) kind (set gs) (map L fs)"
    unfolding smallestGrids_def using d pf L[OF sub] sub by (auto simp: key_def)
  with run show ?thesis by (auto simp: fs_def)
qed

section \<open>All grids of a device\<close>

lemma blockGrids_set: "set (blockGrids [H, W]) = {[h, w] | h w. 1 \<le> h \<and> h \<le> H \<and> 1 \<le> w \<and> w \<le> W}"
  by (auto simp: blockGrids_def upToInt_set)

lemma blockGrids_sorted: "sorted_wrt gridBefore (blockGrids [H, W])"
  unfolding blockGrids_def by (simp add: grids_sorted upToInt_sorted)

lemma rowGrids_sorted: "sorted_wrt gridBefore (map (\<lambda>width. [1, width]) (upToInt n))"
  using grids_sorted[of "[1]" "upToInt n"] upToInt_sorted by simp

lemma columnGrids_sorted: "sorted_wrt gridBefore (map (\<lambda>height. [height, 1]) (upToInt n))"
proof -
  have "concat (map (\<lambda>h. map (\<lambda>w. [h, w]) [1]) (upToInt n)) = map (\<lambda>height. [height, 1]) (upToInt n)"
    by (induction "upToInt n") auto
  with grids_sorted[of "upToInt n" "[1]"] upToInt_sorted show ?thesis by simp
qed

lemma gridVolume_2d:
  assumes "0 \<le> H * W" and "H * W < 2 ^ 63"
  shows "sint (gridVolume64 \<lparr>gridShape = [H, W], gridMapping = m\<rparr>) = H * W"
proof -
  have "gridVolume64 \<lparr>gridShape = [H, W], gridMapping = m\<rparr> = word_of_int (H * W)" by (simp add: gridVolume64_def)
  moreover have "sint (word_of_int k :: 64 word) = k" if "0 \<le> k" "k < 2 ^ 63" for k
    using that by (simp add: signed_of_int signed_take_bit_int_eq_self)
  ultimately show ?thesis using assms by metis
qed

text \<open>
  The candidates of \<open>shardedLayoutsFor\<close>, before they are filtered, sorted and categorised, are, for every kind of
  sharding, the smallest grids of each shard. For a tensor of rank two or more whose layout has a two-dimensional
  shard and a two-dimensional grid, one element type (a scalar, or a tile of positive sizes) and a device of H by
  W cores, the generation does not fail; its candidates are block sharded, then height sharded, then width sharded; within a kind, each
  candidate has the shard its grid gives, no two have the same shard, and for every grid of the kind there is a
  candidate with its shard on a grid no larger in either dimension.
\<close>

lemma sharded_candidates_smallest:
  assumes "gridShape (plMaxGrid ctx) = [H, W]" and "1 \<le> H" and "1 \<le> W" and "H * W < 2 ^ 31"
    and "2 \<le> length (ttShape ty)" and "memref_ok (ttEncoding ty)" and "length (gridShape (getGrid (ttEncoding ty))) = 2"
    and "\<And>t. e = TileElem t \<Longrightarrow> tile_ok t"
  shows "\<exists>block height width. shardedLayoutsFor ctx ty e = Inr (block @ height @ width)
    \<and> smallestGrids e (ttShape ty) BlockSharded {[h, w] | h w. 1 \<le> h \<and> h \<le> H \<and> 1 \<le> w \<and> w \<le> W} block
    \<and> smallestGrids e (ttShape ty) HeightSharded {[h, 1] | h. 1 \<le> h \<and> h \<le> H * W} height
    \<and> smallestGrids e (ttShape ty) WidthSharded {[1, w] | w. 1 \<le> w \<and> w \<le> H * W} width"
proof -
  define enc where "enc = ttEncoding ty"
  obtain l1 where l1: "withBufferType enc L1 = Inr l1" using withBufferType_eq[OF assms(6)] by (auto simp: enc_def)
  have f1: "getBufferType l1 = L1" "gridShape (getGrid l1) = gridShape (getGrid enc)" "memref_ok l1"
    using withBufferType_fields[OF l1] l1 withBufferType_eq[OF assms(6), of L1] assms(6)
    by (auto simp: enc_def memref_ok_def getShardShape_def getElementType_def)
  define l2 where "l2 = l1\<lparr>getMemLayout := Some BlockSharded\<rparr>"
  have l2: "withMemoryLayout l1 (Some BlockSharded) = Inr l2" using withMemoryLayout_eq[OF f1(3)] by (simp add: l2_def)
  have f2: "getBufferType l2 = L1" "gridShape (getGrid l2) = gridShape (getGrid enc)" "getMemLayout l2 = Some BlockSharded"
    using f1 by (simp_all add: l2_def getBufferType_def)
  have "sharded_args (ttShape ty) L1 (getGrid l2) (Some BlockSharded)"
    using assms(5,7) f2 by (simp add: sharded_args_def enc_def)
  from get_total_memref_ok[OF this, where e = e and ms = "getTensorMeshSharding l2"] assms(8) obtain base where
    base: "withElementType l2 e (ttShape ty) defaultIntervals = Inr base" by (auto simp: withElementType_def f2)
  from base ttnnLayoutGet_fields have f3: "getBufferType base = L1" "getMemLayout base = Some BlockSharded" "getElementType base = e"
    by (auto simp: withElementType_def f2)
  have vol: "sint (gridVolume64 (plMaxGrid ctx)) = H * W"
    using gridVolume_2d[of H W "gridMapping (plMaxGrid ctx)"] assms(1-4) by (cases "plMaxGrid ctx") simp
  have two: "length (gridShape (plMaxGrid ctx)) = 2" using assms(1) by simp
  note kind = shardsOfKind_smallest[OF assms(5) f3(1,2) _ two, unfolded f3(3), OF assms(8)]
  obtain block where b: "shardsOfKind ctx base ty BlockSharded (blockGrids [H, W]) = Inr block"
    "smallestGrids e (ttShape ty) BlockSharded (set (blockGrids [H, W])) block"
    using kind[OF _ blockGrids_sorted, of H W BlockSharded] by (force simp: blockGrids_set)
  obtain height where h: "shardsOfKind ctx base ty HeightSharded (map (\<lambda>height. [height, 1]) (upToInt (H * W))) = Inr height"
    "smallestGrids e (ttShape ty) HeightSharded (set (map (\<lambda>height. [height, 1]) (upToInt (H * W)))) height"
    using kind[OF _ columnGrids_sorted, of "H * W" HeightSharded] by (force simp: upToInt_set)
  obtain width where w: "shardsOfKind ctx base ty WidthSharded (map (\<lambda>width. [1, width]) (upToInt (H * W))) = Inr width"
    "smallestGrids e (ttShape ty) WidthSharded (set (map (\<lambda>width. [1, width]) (upToInt (H * W)))) width"
    using kind[OF _ rowGrids_sorted, of "H * W" WidthSharded] by (force simp: upToInt_set)
  have "shardedLayoutsFor ctx ty e = Inr (block @ height @ width)"
    using l1 l2 base b(1) h(1) w(1) two by (simp add: shardedLayoutsFor_def enc_def vol assms(1))
  moreover have "set (map (\<lambda>height. [height, 1]) (upToInt (H * W))) = {[h, 1] | h. 1 \<le> h \<and> h \<le> H * W}"
    "set (map (\<lambda>width. [1, width]) (upToInt (H * W))) = {[1, w] | w. 1 \<le> w \<and> w \<le> H * W}"
    by (auto simp: upToInt_set)
  ultimately show ?thesis using b(2) h(2) w(2) by (auto simp: blockGrids_set)
qed

text \<open>A tensor of 64 by 96 elements in f32 tiles on a device of 2 by 3 cores.\<close>

definition candidateDemo :: tensor_type where
  "candidateDemo = \<lparr>ttShape = [64, 96], ttElem = Scalar (FloatType 32),
     ttEncoding = \<lparr>getLinear = linear2d [64, 96], getGrid = gridOfShape [1, 1],
       getMemref = \<lparr>memrefShape = [2, 3], memrefElem = TileElem (defaultTile Float32), memrefSpace = DRAM\<rparr>,
       getMemLayout = Some Interleaved, getTensorMeshSharding = None\<rparr>\<rparr>"

definition candidateCtx :: layouts_ctx where
  "candidateCtx = \<lparr>plMaxGrid = gridOfShape [2, 3], plLegalForShape = (\<lambda>s l. True), plSort = (\<lambda>ls. ls)\<rparr>"

lemma sharded_candidates_smallest_example:
  "\<exists>block height width. shardedLayoutsFor candidateCtx candidateDemo (TileElem (defaultTile Float32)) = Inr (block @ height @ width)
    \<and> smallestGrids (TileElem (defaultTile Float32)) [64, 96] BlockSharded {[h, w] | h w. 1 \<le> h \<and> h \<le> 2 \<and> 1 \<le> w \<and> w \<le> 3} block
    \<and> smallestGrids (TileElem (defaultTile Float32)) [64, 96] HeightSharded {[h, 1] | h. 1 \<le> h \<and> h \<le> 6} height
    \<and> smallestGrids (TileElem (defaultTile Float32)) [64, 96] WidthSharded {[1, w] | w. 1 \<le> w \<and> w \<le> 6} width"
  using sharded_candidates_smallest[of candidateCtx 2 3 candidateDemo "TileElem (defaultTile Float32)"]
  by (auto simp: candidateCtx_def candidateDemo_def memref_ok_def getShardShape_def getElementType_def)

end
