(* ===== verification/LegalFacts.thy ===== *)
theory LegalFacts
  imports LayoutsFacts
begin

text \<open>
  What \<open>LegalLayoutAnalysis\<close> leaves for an op: the interleaved layouts and the largest sharded ones, of which it
  keeps those that agree with the override. The cut comes before the override.
\<close>

section \<open>The largest layouts\<close>

definition byVolume :: "ttnn_layout_attr list \<Rightarrow> bool" where
  "byVolume ls \<longleftrightarrow> sorted_wrt (\<lambda>a b. layoutVolume b \<le> layoutVolume a) ls"

text \<open>What \<open>std::sort\<close> by descending volume guarantees.\<close>

definition sortsByVolume :: "(ttnn_layout_attr list \<Rightarrow> ttnn_layout_attr list) \<Rightarrow> bool" where
  "sortsByVolume srt \<longleftrightarrow> (\<forall>ls. mset (srt ls) = mset ls \<and> byVolume (srt ls))"

text \<open>\<open>n\<close> of the layouts, or all of them, and none of the others is on a larger grid.\<close>

definition largestOf :: "nat \<Rightarrow> ttnn_layout_attr list \<Rightarrow> ttnn_layout_attr list \<Rightarrow> bool" where
  "largestOf n ls chosen \<longleftrightarrow> length chosen = min n (length ls)
     \<and> (\<exists>others. mset ls = mset chosen + mset others
          \<and> (\<forall>l \<in> set chosen. \<forall>l' \<in> set others. layoutVolume l' \<le> layoutVolume l))"

lemma largestOf_take:
  assumes "sortsByVolume srt"
  shows "largestOf n ls (take (min n (length (srt ls))) (srt ls))"
proof -
  have m: "mset (srt ls) = mset ls" and v: "byVolume (srt ls)" using assms by (auto simp: sortsByVolume_def)
  let ?k = "min n (length (srt ls))"
  have "mset ls = mset (take ?k (srt ls)) + mset (drop ?k (srt ls))"
    by (metis m append_take_drop_id mset_append)
  moreover have "\<forall>l \<in> set (take ?k (srt ls)). \<forall>l' \<in> set (drop ?k (srt ls)). layoutVolume l' \<le> layoutVolume l"
    using v sorted_wrt_append[of "\<lambda>a b. layoutVolume b \<le> layoutVolume a" "take ?k (srt ls)" "drop ?k (srt ls)"]
    unfolding byVolume_def append_take_drop_id by blast
  moreover have "length (srt ls) = length ls" using m by (metis size_mset)
  ultimately show ?thesis unfolding largestOf_def by (auto intro!: exI[of _ "drop ?k (srt ls)"])
qed

lemma largestOf_nil: "largestOf n [] []"
  by (simp add: largestOf_def)

section \<open>Agreement with an override\<close>

definition agrees :: "output_override \<Rightarrow> ttnn_layout_attr \<Rightarrow> bool" where
  "agrees ov l \<longleftrightarrow>
     (\<forall>g. ovGrid ov = Some g \<longrightarrow> gridShape (getGrid l) = g)
     \<and> (\<forall>b. ovBufferType ov = Some b \<longrightarrow> getBufferType l = b)
     \<and> (\<forall>m. ovTensorMemoryLayout ov = Some m \<longrightarrow> getMemLayout l = Some m)
     \<and> (\<forall>p. ovMemoryLayout ov = Some p \<longrightarrow> isTiled l = (p = Tile))"

definition agreesOpt :: "output_override option \<Rightarrow> ttnn_layout_attr \<Rightarrow> bool" where
  "agreesOpt ov l \<longleftrightarrow> (case ov of None \<Rightarrow> True | Some ov \<Rightarrow> agrees ov l)"

text \<open>What the generated layouts and the parsed overrides satisfy.\<close>

definition deviceLayout :: "ttnn_layout_attr \<Rightarrow> bool" where
  "deviceLayout l \<longleftrightarrow> length (gridShape (getGrid l)) = 2 \<and> getMemLayout l \<noteq> None"

definition gridOverrideOk :: "output_override option \<Rightarrow> bool" where
  "gridOverrideOk ov \<longleftrightarrow> (\<forall>o1 g. ov = Some o1 \<longrightarrow> ovGrid o1 = Some g \<longrightarrow> length g = 2)"

lemma incompatible_iff:
  assumes "deviceLayout l" and "gridOverrideOk ov"
  shows "incompatibleWithOverride ov (ofLayout l) = Inr (\<not> agreesOpt ov l)"
proof (cases ov)
  case (Some o1)
  obtain s0 s1 m where l: "gridShape (getGrid l) = [s0, s1]" "getMemLayout l = Some m"
    using assms(1) by (auto simp: deviceLayout_def length_2E elim: length_2E)
  have "gridIncompatible (ofLayout l) o1 = Inr (\<not> (\<forall>g. ovGrid o1 = Some g \<longrightarrow> gridShape (getGrid l) = g))"
  proof (cases "ovGrid o1")
    case (Some g)
    with assms(2) \<open>ov = Some o1\<close> obtain g0 g1 where "g = [g0, g1]" by (auto simp: gridOverrideOk_def elim: length_2E)
    with Some l show ?thesis by (simp add: gridIncompatible_def ofLayout_def at_def)
  qed (simp add: gridIncompatible_def)
  with Some l show ?thesis
    by (auto simp: incompatibleWithOverride_def agreesOpt_def agrees_def ofLayout_def memLayoutValue_def split: option.splits)
qed (simp add: incompatibleWithOverride_def agreesOpt_def)

lemma lgLayout_of: "lgLayout (ofLayout l) = l"
  by (simp add: ofLayout_def)

lemma filterE_pure: "(\<And>x. x \<in> set xs \<Longrightarrow> p x = Inr (q x)) \<Longrightarrow> filterE p xs = Inr (filter q xs)"
proof -
  have "(\<And>x. x \<in> set xs \<Longrightarrow> p x = Inr (q x))
    \<Longrightarrow> foldE (\<lambda>x kept. rbind (p x) (\<lambda>b. Inr (if b then kept @ [x] else kept))) xs kept = Inr (kept @ filter q xs)" for kept
    by (induction xs arbitrary: kept) auto
  then show "(\<And>x. x \<in> set xs \<Longrightarrow> p x = Inr (q x)) \<Longrightarrow> filterE p xs = Inr (filter q xs)" by (simp add: filterE_def)
qed

section \<open>The configs of an op\<close>

definition pageLayouts :: "bool \<Rightarrow> page_layouts \<Rightarrow> nat \<Rightarrow> ttnn_layout_attr list" where
  "pageLayouts rowMajor pages memory = (if rowMajor then pages 0 memory else []) @ pages 1 memory"

lemma shardedCandidates_largest:
  fixes rm :: bool
  assumes "sortsByVolume (liSort inp)"
  defines "n \<equiv> if rm then liMaxShardedConfigs inp div 2 else liMaxShardedConfigs inp"
  shows "\<exists>rows tiles. largestOf n (if rm then pages 0 1 else []) rows \<and> largestOf n (pages 1 1) tiles
    \<and> mset (shardedCandidates inp rm pages) = mset rows + mset tiles \<and> byVolume (shardedCandidates inp rm pages)"
proof -
  define rows where "rows = take (min n (length (liSort inp (if rm then pages 0 1 else [])))) (liSort inp (if rm then pages 0 1 else []))"
  define tiles where "tiles = take (min n (length (liSort inp (pages 1 1)))) (liSort inp (pages 1 1))"
  have c: "shardedCandidates inp rm pages = liSort inp (rows @ tiles)"
    by (simp add: shardedCandidates_def Let_def rows_def tiles_def n_def)
  have "largestOf n (if rm then pages 0 1 else []) rows" "largestOf n (pages 1 1) tiles"
    unfolding rows_def tiles_def by (rule largestOf_take[OF assms(1)])+
  then show ?thesis using assms(1) unfolding c sortsByVolume_def by auto
qed

text \<open>The named op, without a full override.\<close>

definition searched :: "legal_input \<Rightarrow> legal_op \<Rightarrow> tensor_type \<Rightarrow> output_override option \<Rightarrow> page_layouts \<Rightarrow> bool" where
  "searched inp op ty ov pages \<longleftrightarrow>
     loIsTTNN op \<and> loKind op = LegalOtherOp \<and> (\<exists>rest. loResults op = RankedTensor ty # rest)
     \<and> (loLoc op = None \<and> ov = None
        \<or> (\<exists>name overrides. loLoc op = Some name \<and> liOutputOverrides inp = Some overrides \<and> ov = map_of overrides name))
     \<and> (\<forall>o1. ov = Some o1 \<longrightarrow> \<not> fullLayoutOverride o1) \<and> gridOverrideOk ov
     \<and> liPossible inp (scalarFor ov ty) = Some pages
     \<and> (\<forall>page < 2. \<forall>memory < 2. \<forall>l \<in> set (pages page memory). deviceLayout l)"

text \<open>
  C6: The legal layouts of an op are the interleaved ones and the largest sharded ones that agree with the
  override. For an op that is neither a convolution nor pinned to its layout, without a full override, the analysis
  takes, of the possible layouts of the op's type, all interleaved ones, and of the sharded ones as many
  as the limit allows (half for row major and half for tiles when row major is allowed), none of those left out on
  a larger grid than one of those taken in the same page layout, the sharded ones by descending grid volume; it
  keeps, in this order, those that agree with the override, and stops at the assertion if there are none.
\<close>

theorem legal_layouts_largest:
  assumes "searched inp op ty ov pages" and "sortsByVolume (liSort inp)"
  defines "rm \<equiv> rowMajorAllowedFor inp ov"
  defines "n \<equiv> if rm then liMaxShardedConfigs inp div 2 else liMaxShardedConfigs inp"
  shows "\<exists>rows tiles sharded legal. largestOf n (if rm then pages 0 1 else []) rows \<and> largestOf n (pages 1 1) tiles
    \<and> mset sharded = mset rows + mset tiles \<and> byVolume sharded
    \<and> legal = filter (agreesOpt ov) (pageLayouts rm pages 0 @ sharded)
    \<and> legalLayouts inp op = (if legal = [] then Inl (AssertFailed SiteOther) else Inr (map ofLayout legal))"
proof -
  define sharded where "sharded = shardedCandidates inp rm pages"
  from shardedCandidates_largest[OF assms(2), of rm pages] obtain rows tiles where
    r: "largestOf n (if rm then pages 0 1 else []) rows" "largestOf n (pages 1 1) tiles"
    and s: "mset sharded = mset rows + mset tiles" "byVolume sharded"
    unfolding n_def sharded_def by blast
  define candidates where "candidates = pageLayouts rm pages 0 @ sharded"
  have "set sharded \<subseteq> set (pages 0 1) \<union> set (pages 1 1)"
  proof
    fix l assume "l \<in> set sharded"
    then have "l \<in># mset rows + mset tiles" by (simp flip: s(1))
    with r show "l \<in> set (pages 0 1) \<union> set (pages 1 1)"
      by (auto simp: largestOf_def split: if_splits dest!: arg_cong[where f = set_mset])
  qed
  moreover have "\<forall>page < 2. \<forall>memory < 2. \<forall>l \<in> set (pages page memory). deviceLayout l"
    using assms(1) unfolding searched_def by blast
  then have "\<forall>l \<in> set (pages 0 0) \<union> set (pages 0 1) \<union> set (pages 1 0) \<union> set (pages 1 1). deviceLayout l"
    by (metis Un_iff one_less_numeral_iff semiring_norm(76) zero_less_numeral)
  ultimately have device: "\<forall>l \<in> set candidates. deviceLayout l"
    unfolding candidates_def pageLayouts_def by (simp split: if_splits) blast
  have kept: "filterE (\<lambda>config. rbind (incompatibleWithOverride ov config) (\<lambda>b. Inr (\<not> b))) (map ofLayout candidates)
    = Inr (map ofLayout (filter (agreesOpt ov) candidates))"
  proof -
    have "filterE (\<lambda>config. rbind (incompatibleWithOverride ov config) (\<lambda>b. Inr (\<not> b))) (map ofLayout candidates)
      = Inr (filter (\<lambda>config. agreesOpt ov (lgLayout config)) (map ofLayout candidates))"
      using device assms(1) by (intro filterE_pure) (auto simp: incompatible_iff searched_def lgLayout_of)
    then show ?thesis by (simp add: filter_map comp_def ofLayout_def)
  qed
  have over: "applyOverrides inp op = Inr None"
    using assms(1) by (auto simp: applyOverrides_def searched_def split: option.splits)
  have look: "lookupOverride inp op = Inr ov" using assms(1) by (auto simp: lookupOverride_def searched_def)
  have named: "(case loLoc op of Some opLocName \<Rightarrow> applyConv2dByName inp op opLocName configs | None \<Rightarrow> Inr configs) = Inr configs" for configs
    using assms(1) by (auto simp: applyConv2dByName_def searched_def split: option.splits)
  have analysis: "legalAnalysis inp op
    = (if filter (agreesOpt ov) candidates = [] then Inl (AssertFailed SiteOther)
       else Inr (map ofLayout (filter (agreesOpt ov) candidates)))"
    using assms(1) kept named look
    by (auto simp: legalAnalysis_def searched_def isRanked_def resultType_def at_def cantChangeOutputLayout_def Let_def
      candidates_def sharded_def rm_def pageLayouts_def interleavedCandidates_def assertE_def rbind_def)
  have run: "legalLayouts inp op = (if filter (agreesOpt ov) candidates = [] then Inl (AssertFailed SiteOther)
      else Inr (map ofLayout (filter (agreesOpt ov) candidates)))"
    by (simp only: legalLayouts_def over analysis rbind_simps option.case)
  show ?thesis
    by (rule exI[of _ rows], rule exI[of _ tiles], rule exI[of _ sharded], rule exI[of _ "filter (agreesOpt ov) candidates"])
       (simp only: r s run candidates_def simp_thms)
qed

section \<open>An example\<close>

definition legalDemoLayout :: "shape \<Rightarrow> tensor_memory_layout \<Rightarrow> ttnn_layout_attr" where
  "legalDemoLayout g m = \<lparr>getLinear = linear2d [64, 96], getGrid = gridOfShape g,
     getMemref = \<lparr>memrefShape = [1, 1], memrefElem = TileElem (defaultTile Float32), memrefSpace = L1\<rparr>,
     getMemLayout = Some m, getTensorMeshSharding = None\<rparr>"

definition legalDemoPages :: page_layouts where
  "legalDemoPages page memory =
     (if page = 0 then []
      else if memory = 0 then [legalDemoLayout [2, 3] Interleaved]
      else [legalDemoLayout [1, 1] BlockSharded, legalDemoLayout [2, 3] BlockSharded])"

definition legalDemo :: "nat \<Rightarrow> (string \<times> output_override) list \<Rightarrow> legal_input" where
  "legalDemo limit overrides = \<lparr>liPossible = (\<lambda>s. Some legalDemoPages), liMaxShardedConfigs = limit,
     liOutputOverrides = Some overrides, liConv2dOverrides = None, liRowMajorEnabled = False,
     liSort = (\<lambda>ls. rev (sort_key layoutVolume ls))\<rparr>"

definition legalDemoOp :: legal_op where
  "legalDemoOp = \<lparr>loIsTTNN = True, loKind = LegalOtherOp, loLoc = Some ''add'', loOperands = [], loResults = [RankedTensor candidateDemo]\<rparr>"

definition gridOverride :: output_override where
  "gridOverride = noOutputOverride\<lparr>ovGrid := Some [1, 1], ovTensorMemoryLayout := Some BlockSharded\<rparr>"

lemma demo_sorts: "sortsByVolume (\<lambda>ls. rev (sort_key layoutVolume ls))"
proof -
  have "sorted_wrt (\<lambda>a b. layoutVolume a \<le> layoutVolume b) (sort_key layoutVolume ls)" for ls
    using sorted_sort_key[of layoutVolume ls] by (simp add: sorted_map)
  then show ?thesis by (simp add: sortsByVolume_def byVolume_def sorted_wrt_rev)
qed

lemma legalDemo_searched:
  "searched (legalDemo limit [(''add'', gridOverride)]) legalDemoOp candidateDemo (Some gridOverride) legalDemoPages"
  by (auto simp: searched_def legalDemo_def legalDemoOp_def gridOverride_def noOutputOverride_def fullLayoutOverride_def
    gridOverrideOk_def legalDemoPages_def deviceLayout_def legalDemoLayout_def)

theorem legal_layouts_largest_witness:
  "\<exists>rows tiles sharded legal. largestOf 2 [] rows \<and> largestOf 2 (legalDemoPages 1 1) tiles
    \<and> mset sharded = mset rows + mset tiles \<and> byVolume sharded
    \<and> legal = filter (agreesOpt (Some gridOverride)) (pageLayouts False legalDemoPages 0 @ sharded)
    \<and> legalLayouts (legalDemo 2 [(''add'', gridOverride)]) legalDemoOp
        = (if legal = [] then Inl (AssertFailed SiteOther) else Inr (map ofLayout legal))"
proof -
  have "rowMajorAllowedFor (legalDemo 2 [(''add'', gridOverride)]) (Some gridOverride) = False"
    "liMaxShardedConfigs (legalDemo 2 [(''add'', gridOverride)]) = 2"
    by (simp_all add: rowMajorAllowedFor_def legalDemo_def gridOverride_def noOutputOverride_def)
  moreover have "sortsByVolume (liSort (legalDemo 2 [(''add'', gridOverride)]))" using demo_sorts by (simp add: legalDemo_def)
  ultimately show ?thesis using legal_layouts_largest[OF legalDemo_searched[of 2]] by simp
qed

text \<open>The cut to the largest grids comes before the override: an override to a small grid may find nothing left,
  although a layout that agrees with it is possible, and then the analysis stops at the assertion.\<close>

lemma override_after_the_cut:
  "legalLayouts (legalDemo 1 [(''add'', gridOverride)]) legalDemoOp = Inl (AssertFailed SiteOther)"
  "legalLayouts (legalDemo 2 [(''add'', gridOverride)]) legalDemoOp = Inr [ofLayout (legalDemoLayout [1, 1] BlockSharded)]"
  by code_simp+

end
