(* ===== verification/TTIRVerify.thy ===== *)
theory TTIRVerify
  imports LinearMap TTTypes "HOL-Library.Signed_Division"
begin

text \<open>
  The verifiers of the TTIR ops (\<open>Dialect/TTIR/IR/TTIROps.cpp\<close>).

  A verifier is a list of checks in the order of the code: the first check that fails gives
  the message of the \<open>emitOpError\<close> (its constant part). Attributes of type \<open>SI32Attr\<close> or
  \<open>I32Attr\<close> are integers; where the code stores a wider value in an \<open>int32_t\<close> the model
  truncates with \<open>i32\<close>. \<open>getBroadcastedShape\<close> of MLIR is a parameter.
\<close>

section \<open>Checks\<close>

type_synonym verdict = "string + unit"

fun checks :: "(bool \<times> string) list \<Rightarrow> verdict" where
  "checks [] = Inr ()"
| "checks ((ok, message) # cs) = (if ok then checks cs else Inl message)"

lemma checks_Inr_iff: "checks cs = Inr u \<longleftrightarrow> (\<forall>(ok, message) \<in> set cs. ok)"
  by (induction cs) (auto split: if_splits)

lemma checks_append: "checks (xs @ ys) = rbind (checks xs) (\<lambda>_. checks ys)"
  by (induction xs) auto

declare checks.simps [simp del]

text \<open>Conversion to \<open>int32_t\<close>.\<close>

definition i32 :: "int \<Rightarrow> int" where
  "i32 x = (x + 2 ^ 31) mod 2 ^ 32 - 2 ^ 31"

lemma i32_id [simp]: "- (2 ^ 31) \<le> x \<Longrightarrow> x < 2 ^ 31 \<Longrightarrow> i32 x = x"
  by (simp add: i32_def)

text \<open>Arithmetic on \<open>int32_t\<close> and \<open>int64_t\<close>, where an overflow is undefined.\<close>

definition int32 :: "int \<Rightarrow> fault + int" where
  "int32 n = (if - (2 ^ 31) \<le> n \<and> n < 2 ^ 31 then Inr n else Inl SignedOverflow)"

definition int64 :: "int \<Rightarrow> fault + int" where
  "int64 n = (if - (2 ^ 63) \<le> n \<and> n < 2 ^ 63 then Inr n else Inl SignedOverflow)"

lemma int32_id [simp]: "- (2 ^ 31) \<le> n \<Longrightarrow> n < 2 ^ 31 \<Longrightarrow> int32 n = Inr n"
  by (simp add: int32_def)

lemma int32_Inr: "int32 n = Inr m \<longleftrightarrow> m = n \<and> - (2 ^ 31) \<le> n \<and> n < 2 ^ 31"
  by (auto simp: int32_def)

lemma int64_Inr: "int64 n = Inr m \<longleftrightarrow> m = n \<and> - (2 ^ 63) \<le> n \<and> n < 2 ^ 63"
  by (auto simp: int64_def)

section \<open>Types\<close>

record ttir_type =
  tyShape :: shape
  tyElem :: elem_type
  tyEncoding :: "nat option"

abbreviation rank :: "ttir_type \<Rightarrow> int" where
  "rank t \<equiv> int (length (tyShape t))"

abbreviation dimSize :: "ttir_type \<Rightarrow> int \<Rightarrow> int" where
  "dimSize t i \<equiv> tyShape t ! nat i"

type_synonym broadcaster = "shape \<Rightarrow> shape \<Rightarrow> shape option"

section \<open>Broadcast, concatenation, padding, reshape\<close>

definition broadcastVerify :: "broadcaster \<Rightarrow> int list \<Rightarrow> ttir_type \<Rightarrow> ttir_type \<Rightarrow> verdict" where
  "broadcastVerify getBroadcastedShape broadcastDimensions inputType outputType =
     checks ([(rank inputType = rank outputType, ''Input tensor rank of''),
              (getBroadcastedShape (tyShape inputType) (tyShape outputType) \<noteq> None, ''Input tensor shape is not broadcastable''),
              (int (length broadcastDimensions) = rank inputType, ''Input tensor rank should match output tensor rank.'')]
       @ map (\<lambda>i. (tyShape inputType ! i * broadcastDimensions ! i = tyShape outputType ! i, ''Input tensor shape does not broadcast''))
           [0..<length broadcastDimensions])"

definition concatVerify :: "int \<Rightarrow> ttir_type list \<Rightarrow> verdict" where
  "concatVerify dim inputs =
     (let firstTensor = hd inputs;
          dim' = (if dim < 0 then i32 (dim + rank firstTensor) else dim)
      in checks ((0 \<le> dim' \<and> dim' < rank firstTensor, ''Invalid dimension for concatenation.'')
         # concat (map (\<lambda>inputType.
             (rank inputType = rank firstTensor, ''All input tensors must have the same rank.'')
             # map (\<lambda>i. (\<not> (int i \<noteq> dim' \<and> tyShape inputType ! i \<noteq> tyShape firstTensor ! i),
                         ''All input tensors must have the same dimensions''))
                 [0..<length (tyShape firstTensor)])
             (tl inputs))))"

definition padVerify :: "int list \<Rightarrow> ttir_type \<Rightarrow> ttir_type \<Rightarrow> verdict" where
  "padVerify padding inputType resultType =
     checks [(int (length padding) = 2 * rank inputType, ''Padding must have the same number of elements''),
             (tyShape resultType = map (\<lambda>i. tyShape inputType ! i + padding ! (2 * i) + padding ! (2 * i + 1))
                [0..<length (tyShape inputType)], ''Output tensor shape must match the inferred shape'')]"

text \<open>The loop of \<open>ReshapeOp::verify\<close> over the shape attribute.\<close>

fun reshapeDims :: "int list \<Rightarrow> shape \<Rightarrow> bool \<Rightarrow> verdict" where
  "reshapeDims (dimValue # shp) (d # outputShape) hasNegative =
     (if dimValue = - 1
      then (if hasNegative then Inl ''Shape attribute must have at most one -1 element''
            else reshapeDims shp outputShape True)
      else if dimValue \<le> 0 then Inl ''All dimensions must be positive except the one with -1''
      else if dimValue \<noteq> d then Inl ''Shape attribute must match the output tensor shape''
      else reshapeDims shp outputShape hasNegative)"
| "reshapeDims shp outputShape hasNegative = Inr ()"

definition reshapeVerify :: "int list \<Rightarrow> ttir_type \<Rightarrow> ttir_type \<Rightarrow> verdict" where
  "reshapeVerify shp inputType outputType =
     rbind (checks [(shp \<noteq> [], ''Shape attribute must be non-empty''),
                    (int (length shp) = rank outputType, ''Shape attribute size must match output tensor rank''),
                    (prod_list (tyShape inputType) = prod_list (tyShape outputType), ''Input tensor number of elements'')])
       (\<lambda>_. reshapeDims shp (tyShape outputType) False)"

text \<open>A shape of positive dimensions is its own shape attribute.\<close>

lemma reshapeDims_same: "\<forall>d \<in> set shp. 0 < d \<Longrightarrow> reshapeDims shp shp hasNegative = Inr ()"
  by (induction shp arbitrary: hasNegative) auto

lemma i32_small: "\<forall>d \<in> set s. 0 < d \<and> d < 2 ^ 31 \<Longrightarrow> map i32 s = s"
  by (rule map_idI) (auto simp: i32_def)

section \<open>Slices\<close>

text \<open>The checks \<open>SliceOp\<close> makes for each dimension and \<open>IndexOp\<close> for one.\<close>

definition sliceDimChecks :: "int \<Rightarrow> int \<Rightarrow> int \<Rightarrow> int \<Rightarrow> int \<Rightarrow> (bool \<times> string) list" where
  "sliceDimChecks dimSize' outSize begin' end' step =
     (let adjustedBegin = (if begin' < 0 then i32 (begin' + dimSize') else begin');
          adjustedEnd = (if end' < 0 then i32 (end' + dimSize') else end');
          expectedDimSize = (\<bar>adjustedEnd - adjustedBegin\<bar> + \<bar>step\<bar> - 1) div \<bar>step\<bar>
      in [(0 \<le> adjustedBegin \<and> adjustedBegin < dimSize', ''Invalid begin index''),
          (0 \<le> adjustedEnd \<and> adjustedEnd \<le> dimSize', ''Invalid end index''),
          (step \<noteq> 0, ''Step value cannot be zero''),
          (\<not> (0 < step \<and> adjustedEnd < adjustedBegin), ''For positive step, begin index must be less''),
          (\<not> (step < 0 \<and> adjustedBegin < adjustedEnd), ''For negative step, begin index must be greater''),
          (outSize = expectedDimSize, ''Mismatch in dimension of the output tensor'')])"

definition sliceVerify :: "int list \<Rightarrow> int list \<Rightarrow> int list \<Rightarrow> ttir_type \<Rightarrow> ttir_type \<Rightarrow> verdict" where
  "sliceVerify begins ends steps inputType outputType =
     checks ([(1 \<le> rank inputType, ''Input must be at least a 1D tensor''),
              (length begins = length (tyShape inputType) \<and> length ends = length (tyShape inputType)
                \<and> length steps = length (tyShape inputType), ''Begins, ends, and step attributes must have the same number of elements''),
              (tyElem inputType = tyElem outputType, ''Output tensor must have the same element type as the input tensor''),
              (rank inputType = rank outputType, ''Output tensor must have the same rank as the input tensor'')]
       @ concat (map (\<lambda>i. sliceDimChecks (tyShape inputType ! i) (tyShape outputType ! i) (begins ! i) (ends ! i) (steps ! i))
           [0..<length (tyShape inputType)]))"

definition indexVerify :: "int \<Rightarrow> int \<Rightarrow> int \<Rightarrow> int \<Rightarrow> ttir_type \<Rightarrow> ttir_type \<Rightarrow> verdict" where
  "indexVerify dim begin' end' step inputType outputType =
     checks ([(1 \<le> rank inputType, ''Input must be at least a 1D tensor''),
              (tyElem inputType = tyElem outputType, ''Output tensor must have the same element type as the input tensor''),
              (rank inputType = rank outputType, ''Output tensor must have the same rank as the input tensor''),
              (0 \<le> dim \<and> dim < rank inputType, ''Invalid dimension index'')]
       @ sliceDimChecks (dimSize inputType dim) (dimSize outputType dim) begin' end' step)"

text \<open>The lengths of the slices \<open>SelectOp\<close> takes along its dimension.\<close>

definition selectNumSlices :: "int \<Rightarrow> int \<Rightarrow> int \<Rightarrow> int" where
  "selectNumSlices dimSize' begin' stride = (dimSize' - begin' + stride - 1) div stride"

definition selectLengths :: "int \<Rightarrow> int \<Rightarrow> int \<Rightarrow> int \<Rightarrow> int list" where
  "selectLengths dimSize' begin' len stride =
     map (\<lambda>i. min (begin' + int i * stride + len) dimSize' - (begin' + int i * stride))
       [0..<nat (selectNumSlices dimSize' begin' stride)]"

definition selectVerify :: "int \<Rightarrow> int \<Rightarrow> int \<Rightarrow> int \<Rightarrow> ttir_type \<Rightarrow> ttir_type \<Rightarrow> verdict" where
  "selectVerify dim begin' len stride inputType outputType =
     (let dim' = (if dim < 0 then i32 (dim + rank inputType) else dim);
          dimSize' = i32 (dimSize inputType dim');
          stride' = (if stride = 0 then dimSize' else stride)
      in checks [(rank inputType = rank outputType, ''Input and output tensors must have the same rank.''),
          (tyElem inputType = tyElem outputType, ''Input and output tensors must have the same element type.''),
          (0 \<le> dim' \<and> dim' < rank inputType, ''Invalid dimension for select op''),
          (0 \<le> stride', ''stride must be non-negative''),
          (stride' \<le> dimSize', ''stride must be less than or equal to the dimension size''),
          (0 \<le> begin' \<and> begin' < dimSize', ''Invalid begin index''),
          (1 \<le> len \<and> len \<le> stride', ''Invalid length''),
          (begin' + len \<le> dimSize', ''begin + length must be less than or equal to the dimension size''),
          (sum_list (selectLengths dimSize' begin' len stride') = dimSize outputType dim',
            ''Sum of all slices must be equal to the output dimension size'')])"

section \<open>Rank changes\<close>

definition withoutDim :: "int \<Rightarrow> 'a list \<Rightarrow> 'a list" where
  "withoutDim dim xs = take (nat dim) xs @ drop (Suc (nat dim)) xs"

definition squeezeVerify :: "int \<Rightarrow> ttir_type \<Rightarrow> ttir_type \<Rightarrow> verdict" where
  "squeezeVerify dim inputType outputType =
     (let dim' = (if dim < 0 then i32 (dim + rank inputType) else dim)
      in checks [(0 \<le> dim' \<and> dim' < rank inputType, ''Invalid dimension for squeezing.''),
          (dimSize inputType dim' = 1, ''Dimension in the input tensor must be 1.''),
          (rank outputType \<noteq> 0, ''Output tensor must have at least one dimension.''),
          (rank outputType = rank inputType - 1, ''Output tensor rank must be one less than the input tensor rank.''),
          (withoutDim dim' (tyShape inputType) = tyShape outputType, ''Dimensions of the output tensor must be the same'')])"

definition unsqueezeVerify :: "int \<Rightarrow> ttir_type \<Rightarrow> ttir_type \<Rightarrow> verdict" where
  "unsqueezeVerify dim inputType outputType =
     (let dim' = (if dim < 0 then i32 (dim + rank inputType + 1) else dim)
      in checks [(\<not> (rank inputType < dim' \<or> dim' < 0), ''Dimension attribute must be within the bounds of the input tensor''),
          (rank outputType = rank inputType + 1, ''Output tensor must have one more dimension than the input tensor''),
          (dimSize outputType dim' = 1, ''Dimension added must be of size 1''),
          (tyShape inputType = withoutDim dim' (tyShape outputType), ''All dimensions of the input tensor must be the same'')])"

section \<open>Transpose, permute, reverse, repeat\<close>

definition transposeVerify :: "int \<Rightarrow> int \<Rightarrow> ttir_type \<Rightarrow> ttir_type \<Rightarrow> verdict" where
  "transposeVerify dim0 dim1 inputType outputType =
     (let dim0' = (if dim0 < 0 then i32 (dim0 + rank inputType) else dim0);
          dim1' = (if dim1 < 0 then i32 (dim1 + rank inputType) else dim1)
      in checks [(2 \<le> rank inputType, ''Input must be at least a 2D tensor''),
          (rank inputType = rank outputType, ''Input must have the same rank as output''),
          (\<not> (rank inputType \<le> dim0 \<or> dim0 < - rank inputType), ''Dimension 0 attribute must be within the bounds of the input tensor''),
          (\<not> (rank inputType \<le> dim1 \<or> dim1 < - rank inputType), ''Dimension 1 attribute must be within the bounds of the input tensor''),
          (\<not> (dimSize outputType dim0' \<noteq> dimSize inputType dim1' \<or> dimSize outputType dim1' \<noteq> dimSize inputType dim0'),
            ''Input-output transpose dimension mismatch.'')])"

definition is_permutation :: "int list \<Rightarrow> nat \<Rightarrow> bool" where
  "is_permutation p n \<longleftrightarrow> length p = n \<and> sort p = map int [0..<n]"

definition permuteVerify :: "int list \<Rightarrow> ttir_type \<Rightarrow> ttir_type \<Rightarrow> fault + verdict" where
  "permuteVerify permutation inputType resultType =
     (if \<not> is_permutation permutation (length (tyShape inputType)) then Inr (Inl ''Expected a permutation'')
      else rbind (applyPermutation (tyShape inputType) (map nat permutation)) (\<lambda>expectedResultShape.
           Inr (checks [(expectedResultShape = tyShape resultType, ''Expected result shape'')])))"

definition reverseVerify :: "int list \<Rightarrow> ttir_type \<Rightarrow> verdict" where
  "reverseVerify dimensions operandTy =
     checks ((distinct dimensions, ''dimensions should be unique.'')
       # concat (map (\<lambda>dim. [(0 \<le> dim, ''all dimensions should be non-negative.''),
                              (dim < rank operandTy, ''all dimensions should be in interval'')]) dimensions))"

definition repeatVerify :: "int list \<Rightarrow> ttir_type \<Rightarrow> ttir_type \<Rightarrow> verdict" where
  "repeatVerify repeatDimensions inputType outputType =
     checks ([(rank inputType = int (length repeatDimensions), ''Input tensor rank doesn't match the number of repeat dimensions''),
              (rank inputType = rank outputType, ''Input tensor rank doesn't match the output tensor rank'')]
       @ concat (map (\<lambda>i. [(0 < repeatDimensions ! i, ''Repeat dimension must be greater than 0.''),
              (tyShape inputType ! i * repeatDimensions ! i = tyShape outputType ! i, ''Input tensor shape does not repeat to output'')])
           [0..<length (tyShape inputType)]))"

definition repeatInterleaveVerify :: "int \<Rightarrow> int \<Rightarrow> ttir_type \<Rightarrow> ttir_type \<Rightarrow> verdict" where
  "repeatInterleaveVerify repeats dim inputType outputType =
     (let dim' = (if dim < 0 then i32 (dim + rank inputType) else dim)
      in checks [(1 \<le> rank inputType, ''Input must be at least a 1D tensor''),
          (repeats \<noteq> 0, ''Repeats attribute must be non-zero''),
          (\<not> (rank inputType \<le> dim \<or> dim < - rank inputType), ''Dimension attribute must be within the bounds''),
          (tyShape outputType = (tyShape inputType)[nat dim' := dimSize inputType dim' * repeats],
            ''Output shape does not match the expected shape'')])"

section \<open>Arange\<close>

text \<open>The number of values, in 64-bit arithmetic.\<close>

definition arangeCount :: "int \<Rightarrow> int \<Rightarrow> int \<Rightarrow> fault + int" where
  "arangeCount start end' step = rbind (int64 (end' - start)) (\<lambda>difference. int64 (difference sdiv step))"

lemma arangeCount_Inr:
  "arangeCount start end' step = Inr n \<longleftrightarrow>
     n = (end' - start) sdiv step \<and> - (2 ^ 63) \<le> end' - start \<and> end' - start < 2 ^ 63 \<and> - (2 ^ 63) \<le> n \<and> n < 2 ^ 63"
  by (auto simp: arangeCount_def rbind_Inr_iff int64_Inr)

text \<open>\<open>getDimSize\<close> of a dimension the type does not have is out of bounds.\<close>

definition arangeVerify :: "int \<Rightarrow> int \<Rightarrow> int \<Rightarrow> int \<Rightarrow> ttir_type \<Rightarrow> fault + verdict" where
  "arangeVerify start end' step arangeDimension ty =
     (if step = 0 then Inr (Inl ''Step value cannot be zero'')
      else rbind (arangeCount start end' step) (\<lambda>numValues.
        if numValues \<le> 0 then Inr (Inl ''Invalid range'')
        else if \<not> (0 \<le> arangeDimension \<and> arangeDimension < rank ty) then Inl OutOfBounds
        else Inr (checks [(numValues = dimSize ty arangeDimension, ''Output tensor shape must be numValues'')])))"

text \<open>What the decomposition pass leaves alone: an arange of rank one along dimension 0.\<close>

definition arangeLegal :: "int \<Rightarrow> ttir_type \<Rightarrow> bool" where
  "arangeLegal arangeDimension ty \<longleftrightarrow> arangeDimension = 0 \<and> rank ty = 1"

section \<open>Matrix products\<close>

text \<open>The shapes of the operands as matrices: a vector gets a dimension, a transposed operand has its
  last two exchanged.\<close>

definition swapAt :: "nat \<Rightarrow> nat \<Rightarrow> 'a list \<Rightarrow> 'a list" where
  "swapAt a b xs = xs[a := xs ! b, b := xs ! a]"

definition lhsShape :: "bool \<Rightarrow> shape \<Rightarrow> shape" where
  "lhsShape transposeA s =
     (if length s = 1 then 1 # s else if transposeA then swapAt (length s - 1) (length s - 2) s else s)"

definition rhsShape :: "bool \<Rightarrow> shape \<Rightarrow> shape" where
  "rhsShape transposeB s =
     (if length s = 1 then s @ [1] else if transposeB then swapAt (length s - 1) (length s - 2) s else s)"

text \<open>The part \<open>LinearOp::verify\<close> and \<open>MatmulOp::verify\<close> share: the expected shape of the product.\<close>

definition matmulShape :: "broadcaster \<Rightarrow> bool \<Rightarrow> bool \<Rightarrow> shape \<Rightarrow> shape \<Rightarrow> string + shape" where
  "matmulShape getBroadcastedShape transposeA transposeB a b =
     (if length a < 1 then Inl ''Input A must be at least a 1D tensor''
      else if length b < 1 then Inl ''Input B must be at least a 1D tensor''
      else
        let inputAShape = lhsShape transposeA a; inputBShape = rhsShape transposeB b;
            nA = length inputAShape; nB = length inputBShape
        in if inputAShape ! (nA - 1) \<noteq> inputBShape ! (nB - 2) then Inl ''must have matching inner dimensions''
           else rbind (if 2 < nA \<or> 2 < nB
                       then (case getBroadcastedShape (take (nA - 2) inputAShape) (take (nB - 2) inputBShape) of
                               None \<Rightarrow> Inl ''Batch dimensions are not broadcast compatible''
                             | Some broadcastedShape \<Rightarrow> Inr broadcastedShape)
                       else Inr []) (\<lambda>batch.
             Inr (batch @ (if 1 < length a then [inputAShape ! (nA - 2)] else [])
                        @ (if 1 < length b then [inputBShape ! (nB - 1)] else []))))"

definition matmulOutput :: "shape \<Rightarrow> shape \<Rightarrow> verdict" where
  "matmulOutput expectedOutputShape outputShape =
     (if expectedOutputShape = []
      then checks [(1 \<le> length outputShape, ''Scalar output is not supported, output must be at least a 1D tensor''),
                   (\<not> (1 < length outputShape \<or> outputShape ! 0 \<noteq> 1), ''Scalar output must be a 1D tensor of size 1'')]
      else checks ((length outputShape = length expectedOutputShape, ''Output shape rank must match the expected output shape rank'')
        # map (\<lambda>(outputDim, expectedDim). (outputDim = expectedDim, ''Output shape dimension doesn't match''))
            (zip outputShape expectedOutputShape)))"

definition matmulVerify :: "broadcaster \<Rightarrow> bool \<Rightarrow> bool \<Rightarrow> ttir_type \<Rightarrow> ttir_type \<Rightarrow> ttir_type \<Rightarrow> verdict" where
  "matmulVerify getBroadcastedShape transposeA transposeB inputAType inputBType outputType =
     rbind (matmulShape getBroadcastedShape transposeA transposeB (tyShape inputAType) (tyShape inputBType))
       (\<lambda>expectedOutputShape. matmulOutput expectedOutputShape (tyShape outputType))"

definition linearVerify ::
  "broadcaster \<Rightarrow> bool \<Rightarrow> bool \<Rightarrow> ttir_type \<Rightarrow> ttir_type \<Rightarrow> ttir_type option \<Rightarrow> ttir_type \<Rightarrow> verdict" where
  "linearVerify getBroadcastedShape transposeA transposeB inputAType inputBType biasType outputType =
     rbind (matmulShape getBroadcastedShape transposeA transposeB (tyShape inputAType) (tyShape inputBType)) (\<lambda>matmul.
     rbind (case biasType of
              None \<Rightarrow> Inr matmul
            | Some bias \<Rightarrow>
                if rank bias < 1 then Inl ''Bias must be at least a 1D tensor''
                else (case getBroadcastedShape matmul (tyShape bias) of
                        None \<Rightarrow> Inl ''Bias shape is not broadcast compatible with the matmul output shape''
                      | Some expectedOutputShape \<Rightarrow> Inr expectedOutputShape)) (\<lambda>expectedOutputShape.
       matmulOutput expectedOutputShape (tyShape outputType)))"

end
