(* ===== verification/TTIRTensor.thy ===== *)
theory TTIRTensor
  imports TTIRVerify Affine
begin

text \<open>
  TTIR as a language of tensor expressions: an op with its attributes, its operands (the ops
  that define them) and its result type. \<open>eval\<close> is the meaning of an expression, element by
  element, after the descriptions of the ops in \<open>TTIROps.td\<close>: an op says from which index of
  which operand each element of the result is read. A read outside the operand has no value.
  The theorem of the theory is that verified programs have a value at every index.
\<close>

section \<open>Expressions\<close>

datatype unary_op = AbsOp | CeilOp | FloorOp | BitwiseNotOp | NegOp | ReciprocalOp | ReluOp | SignOp
  | LogicalNotOp | OtherUnary nat

datatype binary_op = LogicalAndOp | LogicalOrOp | BitwiseAndOp | BitwiseOrOp | BitwiseXorOp | MinimumOp
  | OtherBinary nat

datatype ttir_op =
    UnaryOp unary_op
  | TypecastOp
  | BinaryOp binary_op
  | BroadcastOp "int list"
  | ConcatOp int
  | PadOp "int list" nat
  | ReshapeOp "int list"
  | SliceOp "int list" "int list" "int list"
  | IndexOp int int int int
  | SelectOp int int int int
  | SqueezeOp int
  | UnsqueezeOp int
  | TransposeOp int int
  | PermuteOp "int list"
  | ReverseOp "int list"
  | RepeatOp "int list"
  | RepeatInterleaveOp int int
  | ArangeOp int int int int
  | MatmulOp bool bool
  | LinearOp bool bool
  | DotGeneralOp "int list" "int list" "int list" "int list"

datatype ttir = Arg nat ttir_type | Op ttir_op "ttir list" ttir_type

fun typeOf :: "ttir \<Rightarrow> ttir_type" where
  "typeOf (Arg n ty) = ty"
| "typeOf (Op a xs ty) = ty"

abbreviation shapeOf :: "ttir \<Rightarrow> shape" where
  "shapeOf x \<equiv> tyShape (typeOf x)"

text \<open>Dispatch on the op; ops without a verifier of their own accept.\<close>

definition wrongArity :: "fault + verdict" where
  "wrongArity = Inr (Inl ''wrong number of operands'')"

fun verify1 :: "(ttir_type \<Rightarrow> fault + verdict) \<Rightarrow> ttir_type list \<Rightarrow> fault + verdict" where
  "verify1 f [x] = f x"
| "verify1 f xs = wrongArity"

fun verify2 :: "(ttir_type \<Rightarrow> ttir_type \<Rightarrow> fault + verdict) \<Rightarrow> ttir_type list \<Rightarrow> fault + verdict" where
  "verify2 f [x, y] = f x y"
| "verify2 f xs = wrongArity"

fun verifyLinear :: "(ttir_type \<Rightarrow> ttir_type \<Rightarrow> ttir_type option \<Rightarrow> fault + verdict) \<Rightarrow> ttir_type list \<Rightarrow> fault + verdict" where
  "verifyLinear f [x, y] = f x y None"
| "verifyLinear f [x, y, bias] = f x y (Some bias)"
| "verifyLinear f xs = wrongArity"

fun verifyOp :: "broadcaster \<Rightarrow> ttir_op \<Rightarrow> ttir_type list \<Rightarrow> ttir_type \<Rightarrow> fault + verdict" where
  "verifyOp bc (BroadcastOp ds) xs ty = verify1 (\<lambda>x. Inr (broadcastVerify bc ds x ty)) xs"
| "verifyOp bc (ConcatOp dim) xs ty = (if xs = [] then wrongArity else Inr (concatVerify dim xs))"
| "verifyOp bc (PadOp padding v) xs ty = verify1 (\<lambda>x. Inr (padVerify padding x ty)) xs"
| "verifyOp bc (ReshapeOp shp) xs ty = verify1 (\<lambda>x. Inr (reshapeVerify shp x ty)) xs"
| "verifyOp bc (SliceOp begins ends steps) xs ty = verify1 (\<lambda>x. Inr (sliceVerify begins ends steps x ty)) xs"
| "verifyOp bc (IndexOp dim b e s) xs ty = verify1 (\<lambda>x. Inr (indexVerify dim b e s x ty)) xs"
| "verifyOp bc (SelectOp dim b l s) xs ty = verify1 (\<lambda>x. Inr (selectVerify dim b l s x ty)) xs"
| "verifyOp bc (SqueezeOp dim) xs ty = verify1 (\<lambda>x. Inr (squeezeVerify dim x ty)) xs"
| "verifyOp bc (UnsqueezeOp dim) xs ty = verify1 (\<lambda>x. Inr (unsqueezeVerify dim x ty)) xs"
| "verifyOp bc (TransposeOp dim0 dim1) xs ty = verify1 (\<lambda>x. Inr (transposeVerify dim0 dim1 x ty)) xs"
| "verifyOp bc (PermuteOp p) xs ty = verify1 (\<lambda>x. permuteVerify p x ty) xs"
| "verifyOp bc (ReverseOp ds) xs ty = verify1 (\<lambda>x. Inr (reverseVerify ds x)) xs"
| "verifyOp bc (RepeatOp ds) xs ty = verify1 (\<lambda>x. Inr (repeatVerify ds x ty)) xs"
| "verifyOp bc (RepeatInterleaveOp r dim) xs ty = verify1 (\<lambda>x. Inr (repeatInterleaveVerify r dim x ty)) xs"
| "verifyOp bc (ArangeOp start e step dim) xs ty = (if xs = [] then arangeVerify start e step dim ty else wrongArity)"
| "verifyOp bc (MatmulOp tA tB) xs ty = verify2 (\<lambda>x y. Inr (matmulVerify bc tA tB x y ty)) xs"
| "verifyOp bc (LinearOp tA tB) xs ty = verifyLinear (\<lambda>x y bias. Inr (linearVerify bc tA tB x y bias ty)) xs"
| "verifyOp bc (DotGeneralOp bl cl br cr) xs ty = verify2 (\<lambda>x y. Inr (Inr ())) xs"
| "verifyOp bc (UnaryOp u) xs ty = verify1 (\<lambda>x. Inr (Inr ())) xs"
| "verifyOp bc TypecastOp xs ty = verify1 (\<lambda>x. Inr (Inr ())) xs"
| "verifyOp bc (BinaryOp b) xs ty = verify2 (\<lambda>x y. Inr (Inr ())) xs"

lemma verify_accepts:
  "verify1 f xs = Inr (Inr ()) \<longleftrightarrow> (\<exists>x. xs = [x] \<and> f x = Inr (Inr ()))"
  "verify2 g xs = Inr (Inr ()) \<longleftrightarrow> (\<exists>x y. xs = [x, y] \<and> g x y = Inr (Inr ()))"
  "verifyLinear h xs = Inr (Inr ()) \<longleftrightarrow> (\<exists>x y. xs = [x, y] \<and> h x y None = Inr (Inr ()))
     \<or> (\<exists>x y z. xs = [x, y, z] \<and> h x y (Some z) = Inr (Inr ()))"
  "wrongArity \<noteq> Inr (Inr ())"
  by (cases "(f, xs)" rule: verify1.cases, auto simp: wrongArity_def)
    (cases "(g, xs)" rule: verify2.cases, auto simp: wrongArity_def,
     cases "(h, xs)" rule: verifyLinear.cases, auto simp: wrongArity_def)

section \<open>Meaning\<close>

definition normDim :: "int \<Rightarrow> nat \<Rightarrow> nat" where
  "normDim dim n = nat (if dim < 0 then dim + int n else dim)"

definition posOf :: "int list \<Rightarrow> nat \<Rightarrow> nat" where
  "posOf p d = length (takeWhile (\<lambda>x. x \<noteq> int d) p)"

text \<open>The stride of a select: 0 means no stride, a single slice.\<close>

definition selectStride :: "int \<Rightarrow> int \<Rightarrow> int" where
  "selectStride stride d = (if stride = 0 then d else stride)"

text \<open>The index an element at \<open>i\<close> of the result is read from, for the ops that copy.\<close>

fun source :: "ttir_op \<Rightarrow> shape \<Rightarrow> shape \<Rightarrow> int list \<Rightarrow> int list" where
  "source (BroadcastOp ds) s out i = map2 (\<lambda>d j. if d = 1 then 0 else j) s i"
| "source (ReshapeOp shp) s out i = unlin s (lin out i)"
| "source (SliceOp begins ends steps) s out i =
     map (\<lambda>k. (if begins ! k < 0 then begins ! k + s ! k else begins ! k) + i ! k * steps ! k) [0..<length s]"
| "source (IndexOp dim b e step) s out i =
     i[nat dim := (if b < 0 then b + s ! nat dim else b) + i ! nat dim * step]"
| "source (SelectOp dim b len stride) s out i =
     (let d = normDim dim (length s); q = i ! d
      in i[d := b + (q div len) * selectStride stride (s ! d) + q mod len])"
| "source (SqueezeOp dim) s out i = (let d = normDim dim (length s) in take d i @ 0 # drop d i)"
| "source (UnsqueezeOp dim) s out i = withoutDim (int (normDim dim (length s + 1))) i"
| "source (TransposeOp a b) s out i = swapAt (normDim a (length s)) (normDim b (length s)) i"
| "source (PermuteOp p) s out i = map (\<lambda>d. i ! posOf p d) [0..<length s]"
| "source (ReverseOp ds) s out i = map (\<lambda>k. if int k \<in> set ds then s ! k - 1 - i ! k else i ! k) [0..<length s]"
| "source (RepeatOp ds) s out i = map2 (\<lambda>d j. j mod d) s i"
| "source (RepeatInterleaveOp r dim) s out i = (let d = normDim dim (length s) in i[d := i ! d div r])"
| "source a s out i = i"

text \<open>Operands of elementwise ops are aligned at the last dimension.\<close>

definition broadcastIndex :: "shape \<Rightarrow> shape \<Rightarrow> int list \<Rightarrow> int list" where
  "broadcastIndex s out i = map2 (\<lambda>d j. if d = 1 then 0 else j) s (drop (length out - length s) i)"

text \<open>The operand of a concatenation an element is read from, and the position in it.\<close>

fun concatPart :: "int list \<Rightarrow> int \<Rightarrow> nat \<times> int" where
  "concatPart [] q = (0, q)"
| "concatPart (d # ds) q = (if q < d then (0, q) else (case concatPart ds (q - d) of (k, r) \<Rightarrow> (Suc k, r)))"

record 'a scalars =
  scArg :: "nat \<Rightarrow> int list \<Rightarrow> 'a"
  scUnary :: "unary_op \<Rightarrow> 'a \<Rightarrow> 'a"
  scBinary :: "binary_op \<Rightarrow> 'a \<Rightarrow> 'a \<Rightarrow> 'a"
  scCast :: "elem_type \<Rightarrow> elem_type \<Rightarrow> 'a \<Rightarrow> 'a"
  scPad :: "nat \<Rightarrow> 'a"
  scInt :: "int \<Rightarrow> 'a"
  scMul :: "'a \<Rightarrow> 'a \<Rightarrow> 'a"
  scAdd :: "'a \<Rightarrow> 'a \<Rightarrow> 'a"
  scSum :: "'a list \<Rightarrow> 'a"

type_synonym 'a tensor = "ttir_type \<times> (int list \<Rightarrow> 'a option)"

definition readAt :: "'a tensor list \<Rightarrow> nat \<Rightarrow> int list \<Rightarrow> 'a option" where
  "readAt ins k j = (if k < length ins \<and> index_of (tyShape (fst (ins ! k))) j then snd (ins ! k) j else None)"

text \<open>Sums of products, in a fixed order of the terms.\<close>

definition sumOfProducts :: "'a scalars \<Rightarrow> ('a option \<times> 'a option) list \<Rightarrow> 'a option" where
  "sumOfProducts sc terms =
     map_option (scSum sc) (those (map (\<lambda>(x, y). case (x, y) of (Some v, Some w) \<Rightarrow> Some (scMul sc v w) | _ \<Rightarrow> None) terms))"

text \<open>A product of (batches of) matrices: term \<open>k\<close> is read at row and \<open>k\<close> on the left, at \<open>k\<close> and column
  on the right; batch dimensions, and rows and columns of a product that a bias enlarges, are broadcast.\<close>

definition lhsIndex :: "bool \<Rightarrow> shape \<Rightarrow> shape \<Rightarrow> int list \<Rightarrow> int \<Rightarrow> int \<Rightarrow> int list" where
  "lhsIndex transposeA s batchShape batch row k =
     (if length s = 1 then [k]
      else broadcastIndex (take (length s - 2) s) batchShape batch @ (if transposeA then [k, row] else [row, k]))"

definition rhsIndex :: "bool \<Rightarrow> shape \<Rightarrow> shape \<Rightarrow> int list \<Rightarrow> int \<Rightarrow> int \<Rightarrow> int list" where
  "rhsIndex transposeB s batchShape batch col k =
     (if length s = 1 then [k]
      else broadcastIndex (take (length s - 2) s) batchShape batch @ (if transposeB then [col, k] else [k, col]))"

definition matrixIndex :: "shape \<Rightarrow> shape \<Rightarrow> int list \<Rightarrow> nat \<times> int \<times> int" where
  "matrixIndex a b i =
     (let rows = (if 1 < length a then 1 else 0); cols = (if 1 < length b then 1 else 0); n = length i - rows - cols
      in (n, if 1 < length a then i ! n else 0, if 1 < length b then i ! (n + rows) else 0))"

definition evalMatmul ::
  "'a scalars \<Rightarrow> bool \<Rightarrow> bool \<Rightarrow> 'a tensor list \<Rightarrow> shape \<Rightarrow> int list \<Rightarrow> 'a option" where
  "evalMatmul sc tA tB ins out i =
     (let a = tyShape (fst (ins ! 0)); b = tyShape (fst (ins ! 1)); A = lhsShape tA a; B = rhsShape tB b;
          (n, r, c) = matrixIndex a b i;
          row = (if A ! (length A - 2) = 1 then 0 else r); col = (if B ! (length B - 1) = 1 then 0 else c)
      in sumOfProducts sc (map (\<lambda>k. (readAt ins 0 (lhsIndex tA a (take n out) (take n i) row (int k)),
                                    readAt ins 1 (rhsIndex tB b (take n out) (take n i) col (int k))))
                            [0..<nat (last A)]))"

text \<open>A general dot product: the index of the result holds the batch dimensions, then the remaining
  dimensions of the left and of the right operand.\<close>

definition getResultDims :: "int list \<Rightarrow> int list \<Rightarrow> nat \<Rightarrow> int list" where
  "getResultDims batchDims contractDims n =
     foldl (\<lambda>dims d. remove1 d dims) (foldl (\<lambda>dims d. remove1 d dims) (map int [0..<n]) batchDims) contractDims"

definition atDims :: "int list \<Rightarrow> int list \<Rightarrow> int list" where
  "atDims dims v = map (\<lambda>d. v ! posOf dims d) [0..<length dims]"

definition evalDot ::
  "'a scalars \<Rightarrow> int list \<Rightarrow> int list \<Rightarrow> int list \<Rightarrow> int list \<Rightarrow> 'a tensor list \<Rightarrow> int list \<Rightarrow> 'a option" where
  "evalDot sc bl cl br cr ins i =
     (let a = tyShape (fst (ins ! 0)); b = tyShape (fst (ins ! 1));
          rl = getResultDims bl cl (length a); rr = getResultDims br cr (length b);
          ib = take (length bl) i; il = take (length rl) (drop (length bl) i); ir = drop (length bl + length rl) i;
          contraction = map (\<lambda>d. a ! nat d) cl
      in sumOfProducts sc (map (\<lambda>k. let ik = unlin contraction (int k)
                                    in (readAt ins 0 (atDims (bl @ rl @ cl) (ib @ il @ ik)),
                                        readAt ins 1 (atDims (br @ cr @ rr) (ib @ ik @ ir))))
                            [0..<nat (prod_list contraction)]))"

fun evalOp :: "'a scalars \<Rightarrow> ttir_op \<Rightarrow> 'a tensor list \<Rightarrow> ttir_type \<Rightarrow> int list \<Rightarrow> 'a option" where
  "evalOp sc (UnaryOp u) ins ty i =
     map_option (scUnary sc u) (readAt ins 0 (broadcastIndex (tyShape (fst (ins ! 0))) (tyShape ty) i))"
| "evalOp sc TypecastOp ins ty i =
     map_option (scCast sc (tyElem (fst (ins ! 0))) (tyElem ty))
       (readAt ins 0 (broadcastIndex (tyShape (fst (ins ! 0))) (tyShape ty) i))"
| "evalOp sc (BinaryOp b) ins ty i =
     (case readAt ins 0 (broadcastIndex (tyShape (fst (ins ! 0))) (tyShape ty) i) of
        None \<Rightarrow> None
      | Some x \<Rightarrow> map_option (scBinary sc b x)
          (readAt ins 1 (broadcastIndex (tyShape (fst (ins ! 1))) (tyShape ty) i)))"
| "evalOp sc (ConcatOp dim) ins ty i =
     (let d = normDim dim (length (tyShape ty));
          (k, r) = concatPart (map (\<lambda>x. tyShape (fst x) ! d) ins) (i ! d)
      in readAt ins k (i[d := r]))"
| "evalOp sc (PadOp padding v) ins ty i =
     (let j = map (\<lambda>k. i ! k - padding ! (2 * k)) [0..<length i]
      in if index_of (tyShape (fst (ins ! 0))) j then readAt ins 0 j else Some (scPad sc v))"
| "evalOp sc (ArangeOp start e step dim) ins ty i = Some (scInt sc (start + i ! nat dim * step))"
| "evalOp sc (MatmulOp tA tB) ins ty i = evalMatmul sc tA tB ins (tyShape ty) i"
| "evalOp sc (LinearOp tA tB) ins ty i =
     (if length ins \<le> 2 then evalMatmul sc tA tB ins (tyShape ty) i
      else case evalMatmul sc tA tB ins (tyShape ty) i of
        None \<Rightarrow> None
      | Some v \<Rightarrow> map_option (scAdd sc v) (readAt ins 2 (broadcastIndex (tyShape (fst (ins ! 2))) (tyShape ty) i)))"
| "evalOp sc (DotGeneralOp bl cl br cr) ins ty i = evalDot sc bl cl br cr ins i"
| "evalOp sc a ins ty i = readAt ins 0 (source a (tyShape (fst (ins ! 0))) (tyShape ty) i)"

fun eval :: "'a scalars \<Rightarrow> ttir \<Rightarrow> int list \<Rightarrow> 'a option" where
  "eval sc (Arg n ty) i = Some (scArg sc n i)"
| "eval sc (Op a xs ty) i = evalOp sc a (map (\<lambda>x. (typeOf x, eval sc x)) xs) ty i"

section \<open>Verified expressions\<close>

text \<open>Static shapes whose sizes fit the 32-bit arithmetic of the verifiers.\<close>

definition valid_shape :: "shape \<Rightarrow> bool" where
  "valid_shape s \<longleftrightarrow> (\<forall>d \<in> set s. 0 \<le> d \<and> d < 2 ^ 31) \<and> int (length s) < 2 ^ 30"

definition broadcastsTo :: "shape \<Rightarrow> shape \<Rightarrow> bool" where
  "broadcastsTo s out \<longleftrightarrow> length s \<le> length out
     \<and> list_all2 (\<lambda>d o'. d = 1 \<or> d = o') s (drop (length out - length s) out)"

text \<open>The attributes of 32 bits the verifiers compute with (the others have 64).\<close>

fun attrs32 :: "ttir_op \<Rightarrow> int list" where
  "attrs32 (ConcatOp dim) = [dim]"
| "attrs32 (PadOp padding v) = padding"
| "attrs32 (ReshapeOp shp) = shp"
| "attrs32 (SliceOp begins ends steps) = begins @ ends @ steps"
| "attrs32 (IndexOp dim b e s) = [dim, b, e, s]"
| "attrs32 (SelectOp dim b l s) = [dim, b, l, s]"
| "attrs32 (SqueezeOp dim) = [dim]"
| "attrs32 (UnsqueezeOp dim) = [dim]"
| "attrs32 (TransposeOp dim0 dim1) = [dim0, dim1]"
| "attrs32 (RepeatInterleaveOp r dim) = [dim]"
| "attrs32 a = []"

definition attrsOk :: "ttir_op \<Rightarrow> bool" where
  "attrsOk a \<longleftrightarrow> (\<forall>x \<in> set (attrs32 a). - (2 ^ 31) \<le> x \<and> x < 2 ^ 31)
     \<and> (case a of RepeatInterleaveOp r dim \<Rightarrow> 0 \<le> r \<and> r < 2 ^ 32 | _ \<Rightarrow> True)"

text \<open>The constraints of a general dot product (the op has no verifier).\<close>

definition dimsOk :: "int list \<Rightarrow> nat \<Rightarrow> bool" where
  "dimsOk ds n \<longleftrightarrow> distinct ds \<and> (\<forall>d \<in> set ds. 0 \<le> d \<and> d < int n)"

definition dotShapes :: "int list \<Rightarrow> int list \<Rightarrow> int list \<Rightarrow> int list \<Rightarrow> shape \<Rightarrow> shape \<Rightarrow> shape \<Rightarrow> bool" where
  "dotShapes bl cl br cr a b out \<longleftrightarrow> dimsOk (bl @ cl) (length a) \<and> dimsOk (br @ cr) (length b)
     \<and> map (\<lambda>d. a ! nat d) bl = map (\<lambda>d. b ! nat d) br \<and> map (\<lambda>d. a ! nat d) cl = map (\<lambda>d. b ! nat d) cr
     \<and> out = map (\<lambda>d. a ! nat d) (bl @ getResultDims bl cl (length a)) @ map (\<lambda>d. b ! nat d) (getResultDims br cr (length b))"

text \<open>The ops that read each element of the result from one place of their only operand.\<close>

fun copies :: "ttir_op \<Rightarrow> bool" where
  "copies (UnaryOp u) = False" | "copies TypecastOp = False" | "copies (BinaryOp b) = False"
| "copies (ConcatOp d) = False" | "copies (PadOp p v) = False" | "copies (ArangeOp a b c d) = False"
| "copies (MatmulOp tA tB) = False" | "copies (LinearOp tA tB) = False" | "copies (DotGeneralOp a b c d) = False" | "copies a = True"

text \<open>What the verifiers above leave unchecked: the shape traits of the generated code (reverse,
  elementwise ops), and, for transpose, index, select and concat, the dimensions of the result
  the op does not work on.\<close>

fun restOk :: "ttir_op \<Rightarrow> shape list \<Rightarrow> shape \<Rightarrow> bool" where
  "restOk (UnaryOp u) ss out \<longleftrightarrow> (\<forall>s \<in> set ss. broadcastsTo s out)"
| "restOk TypecastOp ss out \<longleftrightarrow> (\<forall>s \<in> set ss. broadcastsTo s out)"
| "restOk (BinaryOp b) ss out \<longleftrightarrow> (\<forall>s \<in> set ss. broadcastsTo s out)"
| "restOk (ReverseOp ds) ss out \<longleftrightarrow> out = hd ss"
| "restOk (TransposeOp a b) ss out \<longleftrightarrow> out = swapAt (normDim a (length out)) (normDim b (length out)) (hd ss)"
| "restOk (IndexOp dim b e s) ss out \<longleftrightarrow> withoutDim dim out = withoutDim dim (hd ss)"
| "restOk (SelectOp dim b l s) ss out \<longleftrightarrow>
     (let d = int (normDim dim (length out)) in withoutDim d out = withoutDim d (hd ss))"
| "restOk (ConcatOp dim) ss out \<longleftrightarrow> length out = length (hd ss)
     \<and> (let d = normDim dim (length out) in withoutDim (int d) out = withoutDim (int d) (hd ss)
          \<and> out ! d = sum_list (map (\<lambda>s. s ! d) ss))"
| "restOk (DotGeneralOp bl cl br cr) ss out \<longleftrightarrow> dotShapes bl cl br cr (ss ! 0) (ss ! 1) out"
| "restOk a ss out \<longleftrightarrow> True"

fun wf_ttir :: "broadcaster \<Rightarrow> ttir \<Rightarrow> bool" where
  "wf_ttir bc (Arg n ty) \<longleftrightarrow> valid_shape (tyShape ty)"
| "wf_ttir bc (Op a xs ty) \<longleftrightarrow> (\<forall>x \<in> set xs. wf_ttir bc x) \<and> valid_shape (tyShape ty) \<and> attrsOk a
     \<and> verifyOp bc a (map typeOf xs) ty = Inr (Inr ()) \<and> restOk a (map shapeOf xs) (tyShape ty)"

lemma wf_valid: "wf_ttir bc x \<Longrightarrow> valid_shape (shapeOf x)"
  by (cases x) auto

end
