(* ===== verification/TTIRReads.thy ===== *)
theory TTIRReads
  imports TTIRTensor
begin

text \<open>
  Where the elements of each op come from: for a verified op, every index an element is read
  from lies inside the operand.
\<close>

section \<open>Indices\<close>

lemma index_ofI:
  "length i = length s \<Longrightarrow> (\<And>k. k < length s \<Longrightarrow> 0 \<le> i ! k \<and> i ! k < s ! k) \<Longrightarrow> index_of s i"
  by (simp add: index_of_def list_all2_conv_all_nth)

lemma index_of_iff: "index_of s i \<longleftrightarrow> length i = length s \<and> (\<forall>k < length s. 0 \<le> i ! k \<and> i ! k < s ! k)"
  by (auto simp: index_of_def list_all2_conv_all_nth)

lemma valid_nth: "valid_shape s \<Longrightarrow> k < length s \<Longrightarrow> 0 \<le> s ! k \<and> s ! k < 2 ^ 31"
  by (auto simp: valid_shape_def)

lemma valid_length: "valid_shape s \<Longrightarrow> int (length s) < 2 ^ 30"
  by (simp add: valid_shape_def)

text \<open>A valid index makes every dimension positive.\<close>

lemma index_positive: "index_of s i \<Longrightarrow> positive_shape s"
  by (force simp: index_of_iff positive_shape_def in_set_conv_nth)

lemma withoutDim_nth:
  "k < length xs - 1 \<Longrightarrow> nat d < length xs \<Longrightarrow> withoutDim d xs ! k = (if k < nat d then xs ! k else xs ! Suc k)"
  by (auto simp: withoutDim_def nth_append min_def)

lemma withoutDim_length: "nat d < length xs \<Longrightarrow> length (withoutDim d xs) = length xs - 1"
  by (simp add: withoutDim_def)

lemma withoutDim_eq:
  assumes "withoutDim d xs = withoutDim d ys" and "length xs = length ys" and "k < length xs" and "k \<noteq> nat d" and "nat d < length xs"
  shows "xs ! k = ys ! k"
proof (cases "k < nat d")
  case True
  then show ?thesis using withoutDim_nth[of k xs d] withoutDim_nth[of k ys d] assms by simp
next
  case False
  with assms(4) have "nat d < k" by simp
  then obtain m where m: "k = Suc m" "nat d \<le> m" by (cases k) auto
  then show ?thesis using withoutDim_nth[of m xs d] withoutDim_nth[of m ys d] assms by simp
qed

section \<open>Reads of each op\<close>

text \<open>MLIR's documented rule for \<open>getBroadcastedShape\<close>: shapes are aligned at the last dimension and
  broadcast to the result; shapes of one rank are compatible when dimensions agree or one is 1; and a shape
  is compatible with itself.\<close>

definition broadcast_rule :: "broadcaster \<Rightarrow> bool" where
  "broadcast_rule bc \<longleftrightarrow>
     (\<forall>a b c. bc a b = Some c \<longrightarrow> broadcastsTo a c \<and> broadcastsTo b c)
   \<and> (\<forall>a b. length a = length b \<longrightarrow>
        (bc a b \<noteq> None \<longleftrightarrow> (\<forall>k < length a. a ! k = b ! k \<or> a ! k = 1 \<or> b ! k = 1)))
   \<and> (\<forall>a. bc a a = Some a)"

lemma broadcast_ruleD:
  assumes "broadcast_rule bc"
  shows "bc a b = Some c \<Longrightarrow> broadcastsTo a c \<and> broadcastsTo b c"
    and "bc a b = Some c \<Longrightarrow> length a = length b \<Longrightarrow> k < length a \<Longrightarrow> a ! k = b ! k \<or> a ! k = 1 \<or> b ! k = 1"
    and "length a = length b \<Longrightarrow> (\<And>k. k < length a \<Longrightarrow> a ! k = b ! k \<or> a ! k = 1 \<or> b ! k = 1) \<Longrightarrow> bc a b \<noteq> None"
    and "bc a a = Some a"
  using assms unfolding broadcast_rule_def by (blast, metis option.distinct(1), blast, blast)

lemma broadcast_source:
  assumes "broadcastVerify bc ds x ty = Inr ()" and "broadcast_rule bc" and "valid_shape (tyShape x)"
    and "index_of (tyShape ty) i"
  shows "index_of (tyShape x) (source (BroadcastOp ds) (tyShape x) (tyShape ty) i)"
proof -
  from assms(1) obtain c where len: "length (tyShape x) = length (tyShape ty)" "length ds = length (tyShape x)"
    and bc: "bc (tyShape x) (tyShape ty) = Some c"
    and mult: "\<forall>k < length (tyShape x). tyShape x ! k * ds ! k = tyShape ty ! k"
    by (auto simp: broadcastVerify_def checks_Inr_iff)
  have rule: "tyShape x ! k = tyShape ty ! k \<or> tyShape x ! k = 1 \<or> tyShape ty ! k = 1" if "k < length (tyShape x)" for k
    using broadcast_ruleD(2)[OF assms(2) bc len(1) that] .
  show ?thesis
  proof (rule index_ofI)
    fix k assume k: "k < length (tyShape x)"
    note ik = index_of_nth[OF assms(4), of k]
    have "0 \<le> i ! k" "i ! k < tyShape ty ! k" using ik k len by auto
    moreover have "tyShape x ! k * ds ! k = tyShape ty ! k" using mult k by blast
    with valid_nth[OF assms(3) k] have "tyShape ty ! k = 1 \<Longrightarrow> tyShape x ! k = 1"
      by (auto simp: zmult_eq_1_iff)
    ultimately show "0 \<le> source (BroadcastOp ds) (tyShape x) (tyShape ty) i ! k
        \<and> source (BroadcastOp ds) (tyShape x) (tyShape ty) i ! k < tyShape x ! k"
      using rule[OF k] k len index_of_length[OF assms(4)] by auto
  qed (use len index_of_length[OF assms(4)] in simp)
qed

lemma reshape_source:
  assumes "reshapeVerify shp x ty = Inr ()" and "valid_shape (tyShape x)" and "index_of (tyShape ty) i"
  shows "index_of (tyShape x) (source (ReshapeOp shp) (tyShape x) (tyShape ty) i)"
    and "lin (tyShape x) (source (ReshapeOp shp) (tyShape x) (tyShape ty) i) = lin (tyShape ty) i"
proof -
  from assms(1) have vol: "prod_list (tyShape x) = prod_list (tyShape ty)"
    by (auto simp: reshapeVerify_def rbind_Inr_iff checks_Inr_iff)
  from lin_bounds[OF assms(3)] vol have b: "0 \<le> lin (tyShape ty) i" "lin (tyShape ty) i < prod_list (tyShape x)" by auto
  have "positive_shape (tyShape x)"
  proof -
    have "prod_list (tyShape x) \<noteq> 0" using b by auto
    then have "0 \<notin> set (tyShape x)" by (simp add: prod_list_zero_iff)
    with assms(2) show ?thesis by (auto simp: positive_shape_def valid_shape_def order_less_le)
  qed
  from lin_unlin[OF this b] show "index_of (tyShape x) (source (ReshapeOp shp) (tyShape x) (tyShape ty) i)"
    "lin (tyShape x) (source (ReshapeOp shp) (tyShape x) (tyShape ty) i) = lin (tyShape ty) i" by auto
qed

lemma slice_dim:
  assumes "\<forall>(ok, m) \<in> set (sliceDimChecks d out b e step). ok" and "0 \<le> d" and "d < 2 ^ 31"
    and "0 \<le> j" and "j < out" and "- (2 ^ 31) \<le> b" and "- (2 ^ 31) \<le> e"
  shows "0 \<le> (if b < 0 then b + d else b) + j * step \<and> (if b < 0 then b + d else b) + j * step < d"
proof -
  define ab where "ab = (if b < 0 then b + d else b)"
  define ae where "ae = (if e < 0 then e + d else e)"
  have "(if b < 0 then i32 (b + d) else b) = ab" "(if e < 0 then i32 (e + d) else e) = ae"
    using assms(2,3,6,7) by (auto simp: ab_def ae_def)
  with assms(1) have c: "0 \<le> ab" "ab < d" "0 \<le> ae" "ae \<le> d" "step \<noteq> 0"
    "0 < step \<Longrightarrow> ab \<le> ae" "step < 0 \<Longrightarrow> ae \<le> ab"
    "out = ceil_div \<bar>ae - ab\<bar> \<bar>step\<bar>"
    by (auto simp: sliceDimChecks_def Let_def ceil_div_def)
  have p: "0 < \<bar>step\<bar>" using c(5) by simp
  have "j * \<bar>step\<bar> \<le> (out - 1) * \<bar>step\<bar>" using assms(5) by (simp add: mult_right_mono)
  also have "\<dots> < \<bar>ae - ab\<bar>" using ceil_div_least[OF p] c(8) by simp
  finally have lt: "j * \<bar>step\<bar> < \<bar>ae - ab\<bar>" .
  show ?thesis
  proof (cases "0 < step")
    case True
    with lt c assms(4) have "ab + j * step < ae" "0 \<le> j * step" by auto
    with c show ?thesis unfolding ab_def[symmetric] by linarith
  next
    case False
    with c(5) have neg: "step < 0" by simp
    with lt c(7) have "j * (- step) < ab - ae" by (simp add: abs_if split: if_splits)
    moreover have "0 \<le> j * (- step)" using assms(4) neg by (simp add: mult_nonneg_nonpos)
    ultimately show ?thesis using c unfolding ab_def[symmetric] by (simp add: algebra_simps)
  qed
qed

text \<open>The dimension a verifier computes from a negative attribute.\<close>

lemma normDim_i32:
  assumes "- (2 ^ 31) \<le> dim" and "int n < 2 ^ 30" and "0 \<le> (if dim < 0 then i32 (dim + int n) else dim)"
  shows "(if dim < 0 then i32 (dim + int n) else dim) = int (normDim dim n)"
  using assms by (auto simp: normDim_def)

lemma slice_source:
  assumes "sliceVerify b e st x ty = Inr ()" and "valid_shape (tyShape x)" and "index_of (tyShape ty) i"
    and "attrsOk (SliceOp b e st)"
  shows "index_of (tyShape x) (source (SliceOp b e st) (tyShape x) (tyShape ty) i)"
proof (rule index_ofI)
  from assms(1) have len: "length b = length (tyShape x)" "length e = length (tyShape x)" "length st = length (tyShape x)"
    "length (tyShape x) = length (tyShape ty)"
    and ok: "\<forall>k < length (tyShape x). \<forall>(ok, m) \<in> set (sliceDimChecks (tyShape x ! k) (tyShape ty ! k) (b ! k) (e ! k) (st ! k)). ok"
    unfolding sliceVerify_def checks_Inr_iff by auto
  fix k assume k: "k < length (tyShape x)"
  then have okk: "\<forall>(ok, m) \<in> set (sliceDimChecks (tyShape x ! k) (tyShape ty ! k) (b ! k) (e ! k) (st ! k)). ok"
    using ok by blast
  from assms(4) k len have "- (2 ^ 31) \<le> b ! k" "- (2 ^ 31) \<le> e ! k" by (auto simp: attrsOk_def)
  then have "0 \<le> (if b ! k < 0 then b ! k + tyShape x ! k else b ! k) + i ! k * st ! k
    \<and> (if b ! k < 0 then b ! k + tyShape x ! k else b ! k) + i ! k * st ! k < tyShape x ! k"
    using valid_nth[OF assms(2) k] index_of_nth[OF assms(3), of k] k len by (intro slice_dim[OF okk]) auto
  moreover have "source (SliceOp b e st) (tyShape x) (tyShape ty) i ! k
      = (if b ! k < 0 then b ! k + tyShape x ! k else b ! k) + i ! k * st ! k" using k by simp
  ultimately show "0 \<le> source (SliceOp b e st) (tyShape x) (tyShape ty) i ! k
    \<and> source (SliceOp b e st) (tyShape x) (tyShape ty) i ! k < tyShape x ! k" by (simp only:)
qed simp

text \<open>Index and select: the result agrees with the operand away from the dimension.\<close>

lemma update_source:
  assumes "index_of out i" and "length s = length out" and "d < length s"
    and "withoutDim (int d) out = withoutDim (int d) s" and "0 \<le> q" and "q < s ! d"
  shows "index_of s (i[d := q])"
proof (rule index_ofI)
  fix k assume k: "k < length s"
  show "0 \<le> i[d := q] ! k \<and> i[d := q] ! k < s ! k"
  proof (cases "k = d")
    case True
    with assms k show ?thesis by (simp add: index_of_length[OF assms(1)])
  next
    case False
    with withoutDim_eq[OF assms(4), of k] assms(2,3) k index_of_nth[OF assms(1), of k] show ?thesis by simp
  qed
qed (use assms index_of_length in auto)

lemma index_source:
  assumes "indexVerify dim b e st x ty = Inr ()" and "valid_shape (tyShape x)" and "index_of (tyShape ty) i"
    and "attrsOk (IndexOp dim b e st)" and "withoutDim dim (tyShape ty) = withoutDim dim (tyShape x)"
  shows "index_of (tyShape x) (source (IndexOp dim b e st) (tyShape x) (tyShape ty) i)"
proof -
  from assms(1) have len: "length (tyShape x) = length (tyShape ty)" and d: "0 \<le> dim" "nat dim < length (tyShape x)"
    and ok: "\<forall>(ok, m) \<in> set (sliceDimChecks (dimSize x dim) (dimSize ty dim) b e st). ok"
    unfolding indexVerify_def checks_Inr_iff by auto
  from assms(4) have "- (2 ^ 31) \<le> b" "- (2 ^ 31) \<le> e" by (auto simp: attrsOk_def)
  from slice_dim[OF ok _ _ _ _ this, of "i ! nat dim"] valid_nth[OF assms(2) d(2)] index_of_nth[OF assms(3), of "nat dim"] d len
  have "0 \<le> (if b < 0 then b + dimSize x dim else b) + i ! nat dim * st"
    "(if b < 0 then b + dimSize x dim else b) + i ! nat dim * st < dimSize x dim" by auto
  from update_source[OF assms(3) len d(2) _ this] assms(5) d show ?thesis by simp
qed

text \<open>The slices of a select: all have the full length but the last, which ends in the dimension.\<close>

lemma selectLengths_eq:
  assumes "0 < st" "1 \<le> len" "len \<le> st" "b < d"
  obtains m where "selectNumSlices d b st = int m + 1" and "b + int m * st < d"
    and "selectLengths d b len st = replicate m len @ [min (b + int m * st + len) d - (b + int m * st)]"
    and "\<And>i. i < m \<Longrightarrow> b + int i * st + len \<le> d"
proof -
  define n where "n = selectNumSlices d b st"
  have nc: "n = ceil_div (d - b) st" by (simp add: n_def selectNumSlices_def ceil_div_def algebra_simps)
  have n: "0 < n" "(n - 1) * st < d - b" unfolding nc using ceil_div_pos[of "d - b" st] ceil_div_least[of st "d - b"] assms by auto
  obtain m where m: "n = int m + 1" using n(1) by (metis zless_iff_Suc_zadd add.commute add_0 of_nat_Suc)
  have full: "b + int i * st + len \<le> d" if "i < m" for i
  proof -
    have "(int i + 1) * st \<le> int m * st" using that assms(1) by (intro mult_right_mono) auto
    with n(2) m assms(3) show ?thesis by (simp add: algebra_simps)
  qed
  have "nat n = Suc m" using m by simp
  then have "selectLengths d b len st = map (\<lambda>i. min (b + int i * st + len) d - (b + int i * st)) [0..<Suc m]"
    by (simp only: selectLengths_def n_def)
  also have "\<dots> = map (\<lambda>i. min (b + int i * st + len) d - (b + int i * st)) [0..<m]
      @ [min (b + int m * st + len) d - (b + int m * st)]" by simp
  also have "map (\<lambda>i. min (b + int i * st + len) d - (b + int i * st)) [0..<m] = replicate m len"
    using full by (intro nth_equalityI) auto
  finally show thesis using that[of m] m n n_def full by simp
qed

text \<open>Position \<open>q\<close> of the concatenated slices: slice \<open>q div len\<close>, and \<open>q mod len\<close> in it.\<close>

lemma concatPart_slices:
  assumes "1 \<le> len" and "last' \<le> len" and "0 \<le> q" and "q < int m * len + last'"
  shows "concatPart (replicate m len @ [last']) q = (nat (q div len), q mod len) \<and> q div len \<le> int m
    \<and> (q div len = int m \<longrightarrow> q mod len < last')"
  using assms(3,4)
proof (induction m arbitrary: q)
  case 0
  with assms(1,2) show ?case by simp
next
  case (Suc m)
  show ?case
  proof (cases "q < len")
    case True
    with Suc.prems assms(1) show ?thesis by simp
  next
    case False
    then have q: "0 \<le> q - len" "q - len < int m * len + last'" using Suc.prems by (auto simp: algebra_simps)
    have d: "q div len = (q - len) div len + 1" "q mod len = (q - len) mod len"
      using assms(1) div_add_self2[of len "q - len"] mod_add_self2[of "q - len" len] by auto
    have z: "0 \<le> (q - len) div len" using q assms(1) by (simp add: pos_imp_zdiv_nonneg_iff)
    have s: "nat ((q - len) div len + 1) = Suc (nat ((q - len) div len))" using z by simp
    have "concatPart (replicate (Suc m) len @ [last']) q = (Suc (nat ((q - len) div len)), (q - len) mod len)"
      using Suc.IH[OF q] False by simp
    moreover have "(q - len) div len \<le> int m" "(q - len) div len = int m \<longrightarrow> (q - len) mod len < last'"
      using Suc.IH[OF q] by blast+
    ultimately show ?thesis unfolding d s by simp
  qed
qed

lemma select_dim:
  assumes "0 < st" "1 \<le> len" "len \<le> st" "0 \<le> b" "b < d" and q: "0 \<le> q" "q < sum_list (selectLengths d b len st)"
  shows "b + (q div len) * st + q mod len < d"
proof -
  obtain m where m: "b + int m * st < d"
    "selectLengths d b len st = replicate m len @ [min (b + int m * st + len) d - (b + int m * st)]"
    "\<And>i. i < m \<Longrightarrow> b + int i * st + len \<le> d"
    using selectLengths_eq[OF assms(1-3,5)] by metis
  let ?last = "min (b + int m * st + len) d - (b + int m * st)"
  have "q < int m * len + ?last" using q(2) m(2) by (simp add: sum_list_replicate)
  note part = concatPart_slices[OF assms(2) _ q(1) this]
  have k: "q div len \<le> int m" "q div len = int m \<longrightarrow> q mod len < ?last" "0 \<le> q div len" "q mod len < len"
    using part assms(2) q(1) by (auto simp: pos_imp_zdiv_nonneg_iff)
  show ?thesis
  proof (cases "q div len = int m")
    case True
    with k show ?thesis by simp
  next
    case False
    with k have "nat (q div len) < m" by simp
    from m(3)[OF this] k show ?thesis by simp
  qed
qed

lemma select_source:
  assumes "selectVerify dim b len st x ty = Inr ()" and "valid_shape (tyShape x)" and "index_of (tyShape ty) i"
    and "attrsOk (SelectOp dim b len st)"
    and "withoutDim (int (normDim dim (length (tyShape ty)))) (tyShape ty) = withoutDim (int (normDim dim (length (tyShape ty)))) (tyShape x)"
  shows "index_of (tyShape x) (source (SelectOp dim b len st) (tyShape x) (tyShape ty) i)"
proof -
  define d where "d = normDim dim (length (tyShape x))"
  define D where "D = tyShape x ! d"
  have dimlow: "- (2 ^ 31) \<le> dim" using assms(4) by (simp add: attrsOk_def)
  note v = assms(1)[unfolded selectVerify_def Let_def checks_Inr_iff, simplified]
  have len: "length (tyShape x) = length (tyShape ty)" using v by simp
  have d0: "0 \<le> (if dim < 0 then i32 (dim + rank x) else dim)" using v by auto
  have dd: "(if dim < 0 then i32 (dim + rank x) else dim) = int d"
    unfolding d_def by (rule normDim_i32[OF dimlow valid_length[OF assms(2)] d0])
  have dl: "d < length (tyShape x)" using v dd by (auto split: if_splits)
  have D: "0 \<le> D" "D < 2 ^ 31" using valid_nth[OF assms(2) dl] by (auto simp: D_def)
  have D32: "i32 (tyShape x ! d) = D" using D by (simp add: D_def)
  note v2 = assms(1)[unfolded selectVerify_def Let_def dd checks_Inr_iff, simplified D32 nat_int, simplified]
  define S where "S = selectStride st D"
  have S: "S = (if st = 0 then D else st)" by (simp add: S_def selectStride_def)
  have c: "0 < S" "1 \<le> len" "len \<le> S" "0 \<le> b" "b < D" and sum: "sum_list (selectLengths D b len S) = tyShape ty ! d"
    using v2 by (auto simp: S)
  have id: "0 \<le> i ! d" "i ! d < tyShape ty ! d" using index_of_nth[OF assms(3), of d] dl len by auto
  have lt: "b + (i ! d div len) * S + i ! d mod len < D" using select_dim[OF c id(1)] id(2) sum by simp
  have ge: "0 \<le> b + (i ! d div len) * S + i ! d mod len"
    using c id by (intro add_nonneg_nonneg mult_nonneg_nonneg) (auto simp: pos_imp_zdiv_nonneg_iff)
  have w: "withoutDim (int d) (tyShape ty) = withoutDim (int d) (tyShape x)" using assms(5) len by (simp add: d_def)
  from update_source[OF assms(3) len dl w ge] lt show ?thesis
    by (simp add: Let_def d_def[symmetric] D_def[symmetric] S_def)
qed

section \<open>Rank changes, transpose, permute, reverse, repeat\<close>

lemma squeeze_source:
  assumes "squeezeVerify dim x ty = Inr ()" and "valid_shape (tyShape x)" and "index_of (tyShape ty) i"
    and "attrsOk (SqueezeOp dim)"
  shows "index_of (tyShape x) (source (SqueezeOp dim) (tyShape x) (tyShape ty) i)"
proof -
  define d where "d = normDim dim (length (tyShape x))"
  have dimlow: "- (2 ^ 31) \<le> dim" using assms(4) by (simp add: attrsOk_def)
  note v = assms(1)[unfolded squeezeVerify_def Let_def checks_Inr_iff, simplified]
  have d0: "0 \<le> (if dim < 0 then i32 (dim + rank x) else dim)" using v by auto
  have dd: "(if dim < 0 then i32 (dim + rank x) else dim) = int d"
    unfolding d_def by (rule normDim_i32[OF dimlow valid_length[OF assms(2)] d0])
  note v2 = assms(1)[unfolded squeezeVerify_def Let_def dd checks_Inr_iff, simplified]
  have c: "d < length (tyShape x)" "tyShape x ! d = 1" "withoutDim (int d) (tyShape x) = tyShape ty" using v2 by auto
  have lo: "length (tyShape ty) = length (tyShape x) - 1" using c(1) by (simp add: withoutDim_length flip: c(3))
  have li: "length i = length (tyShape x) - 1" using index_of_length[OF assms(3)] lo by simp
  have out: "tyShape ty ! k = (if k < d then tyShape x ! k else tyShape x ! Suc k)" if "k < length (tyShape x) - 1" for k
    using withoutDim_nth[of k "tyShape x" "int d"] that c(1) by (simp add: c(3))
  have "index_of (tyShape x) (take d i @ 0 # drop d i)"
  proof (rule index_ofI)
    fix k assume k: "k < length (tyShape x)"
    have "k < d \<or> k = d \<or> (\<exists>m. k = Suc m \<and> d \<le> m)" by (cases k) auto
    then consider "k < d" | "k = d" | m where "k = Suc m" "d \<le> m" by blast
    then show "0 \<le> (take d i @ 0 # drop d i) ! k \<and> (take d i @ 0 # drop d i) ! k < tyShape x ! k"
    proof cases
      case 1
      with c(1) k li lo index_of_nth[OF assms(3), of k] out[of k] show ?thesis by (simp add: nth_append)
    next
      case 2
      with c(1,2) k li show ?thesis by (simp add: nth_append)
    next
      case 3
      with c(1) k li lo index_of_nth[OF assms(3), of m] out[of m] show ?thesis by (simp add: nth_append Suc_diff_le)
    qed
  qed (use li c(1) in simp)
  then show ?thesis by (simp add: d_def Let_def)
qed

lemma unsqueeze_source:
  assumes "unsqueezeVerify dim x ty = Inr ()" and "valid_shape (tyShape x)" and "index_of (tyShape ty) i"
    and "attrsOk (UnsqueezeOp dim)"
  shows "index_of (tyShape x) (source (UnsqueezeOp dim) (tyShape x) (tyShape ty) i)"
proof -
  define d where "d = normDim dim (length (tyShape x) + 1)"
  have dimlow: "- (2 ^ 31) \<le> dim" using assms(4) by (simp add: attrsOk_def)
  note v = assms(1)[unfolded unsqueezeVerify_def Let_def checks_Inr_iff, simplified]
  have "int (length (tyShape x)) < 2 ^ 30" by (rule valid_length[OF assms(2)])
  moreover have "0 \<le> (if dim < 0 then i32 (dim + rank x + 1) else dim)" using v by auto
  ultimately have dd: "(if dim < 0 then i32 (dim + rank x + 1) else dim) = int d"
    using dimlow by (auto simp: d_def normDim_def)
  note v2 = assms(1)[unfolded unsqueezeVerify_def Let_def dd checks_Inr_iff, simplified]
  have c: "d \<le> length (tyShape x)" "length (tyShape ty) = Suc (length (tyShape x))" "tyShape x = withoutDim (int d) (tyShape ty)"
    using v2 by auto
  have li: "length i = Suc (length (tyShape x))" using index_of_length[OF assms(3)] c(2) by simp
  have "index_of (tyShape x) (withoutDim (int d) i)"
  proof (rule index_ofI)
    show "length (withoutDim (int d) i) = length (tyShape x)" using c(1) li by (simp add: withoutDim_length)
    fix k assume k: "k < length (tyShape x)"
    have "tyShape x ! k = (if k < d then tyShape ty ! k else tyShape ty ! Suc k)"
      using withoutDim_nth[of k "tyShape ty" "int d"] k c(1,2) by (simp flip: c(3))
    then show "0 \<le> withoutDim (int d) i ! k \<and> withoutDim (int d) i ! k < tyShape x ! k"
      using c(1,2) li k index_of_nth[OF assms(3), of k] index_of_nth[OF assms(3), of "Suc k"]
        withoutDim_nth[of k i "int d"] by auto
  qed
  then show ?thesis by (simp add: d_def)
qed

lemma swapAt_simps [simp]: "length (swapAt a b xs) = length xs"
  by (simp add: swapAt_def)

lemma swapAt_nth: "a < length xs \<Longrightarrow> b < length xs \<Longrightarrow> k < length xs \<Longrightarrow>
    swapAt a b xs ! k = (if k = b then xs ! a else if k = a then xs ! b else xs ! k)"
  by (simp add: swapAt_def nth_list_update)

lemma swapAt_index:
  assumes "index_of (swapAt a b s) i" and "a < length s" and "b < length s"
  shows "index_of s (swapAt a b i)"
proof (rule index_ofI)
  have l: "length i = length s" using index_of_length[OF assms(1)] by simp
  then show "length (swapAt a b i) = length s" by simp
  fix k assume k: "k < length s"
  then show "0 \<le> swapAt a b i ! k \<and> swapAt a b i ! k < s ! k"
    using index_of_nth[OF assms(1), of k] index_of_nth[OF assms(1), of a] index_of_nth[OF assms(1), of b] assms(2,3) l
    by (auto simp: swapAt_nth split: if_splits)
qed

lemma transposeVerify_dims:
  assumes "transposeVerify dim0 dim1 x ty = Inr ()"
  shows "length (tyShape ty) = length (tyShape x)" "normDim dim0 (length (tyShape x)) < length (tyShape x)"
    "normDim dim1 (length (tyShape x)) < length (tyShape x)" "2 \<le> length (tyShape x)"
  using assms unfolding transposeVerify_def Let_def checks_Inr_iff by (auto simp: normDim_def)

lemma transpose_source:
  assumes "transposeVerify dim0 dim1 x ty = Inr ()" and "index_of (tyShape ty) i"
    and "tyShape ty = swapAt (normDim dim0 (length (tyShape ty))) (normDim dim1 (length (tyShape ty))) (tyShape x)"
  shows "index_of (tyShape x) (source (TransposeOp dim0 dim1) (tyShape x) (tyShape ty) i)"
  using swapAt_index[of "normDim dim0 (length (tyShape x))" "normDim dim1 (length (tyShape x))" "tyShape x" i]
    transposeVerify_dims[OF assms(1)] assms(2,3) by auto

lemma is_permutation_set: "is_permutation p n \<Longrightarrow> set p = int ` {0..<n} \<and> distinct p \<and> length p = n"
  unfolding is_permutation_def
  by (metis distinct_map distinct_sort distinct_upt inj_on_of_nat set_map set_sort set_upt)

lemma posOf_correct:
  assumes "is_permutation p n" and "d < n"
  shows "posOf p d < n" and "p ! posOf p d = int d"
proof -
  from is_permutation_set[OF assms(1)] assms(2) have m: "int d \<in> set p" and l: "length p = n" by auto
  have "takeWhile (\<lambda>x. x \<noteq> int d) p \<noteq> p" using m by (auto simp: takeWhile_eq_all_conv)
  then have lt: "posOf p d < length p"
    by (metis length_takeWhile_le nat_less_le posOf_def take_all_iff takeWhile_eq_take)
  then show "posOf p d < n" by (simp add: l)
  show "p ! posOf p d = int d" using nth_length_takeWhile[of "\<lambda>x. x \<noteq> int d" p] lt by (simp add: posOf_def)
qed

lemma permutation_apply:
  assumes "is_permutation q (length xs)"
  shows "applyPermutation xs (map nat q) = Inr (map (\<lambda>d. xs ! nat d) q)"
proof -
  have "set (map nat q) \<subseteq> {..<length xs}" using is_permutation_set[OF assms] by auto
  then show ?thesis using applyPermutation_eq[of "map nat q" xs] is_permutation_set[OF assms] by (simp add: o_def del: set_map)
qed

lemma permuteVerify_shape:
  assumes "permuteVerify p x ty = Inr (Inr ())"
  shows "is_permutation p (length (tyShape x))" "tyShape ty = map (\<lambda>d. tyShape x ! nat d) p"
proof -
  show perm: "is_permutation p (length (tyShape x))" using assms by (auto simp: permuteVerify_def split: if_splits)
  note permutation_apply[OF this]
  with assms perm show "tyShape ty = map (\<lambda>d. tyShape x ! nat d) p"
    by (auto simp: permuteVerify_def checks_Inr_iff o_def)
qed

lemma permute_source:
  assumes "permuteVerify p x ty = Inr (Inr ())" and "index_of (tyShape ty) i"
  shows "index_of (tyShape x) (source (PermuteOp p) (tyShape x) (tyShape ty) i)"
proof (rule index_ofI)
  note ps = permuteVerify_shape[OF assms(1)]
  fix k assume k: "k < length (tyShape x)"
  note q = posOf_correct[OF ps(1) k]
  show "0 \<le> source (PermuteOp p) (tyShape x) (tyShape ty) i ! k
    \<and> source (PermuteOp p) (tyShape x) (tyShape ty) i ! k < tyShape x ! k"
    using index_of_nth[OF assms(2), of "posOf p k"] q k is_permutation_set[OF ps(1)] by (simp add: ps(2))
qed simp

lemma reverse_source:
  assumes "tyShape ty = tyShape x" and "index_of (tyShape ty) i"
  shows "index_of (tyShape x) (source (ReverseOp ds) (tyShape x) (tyShape ty) i)"
  using assms by (auto simp: index_of_iff)

lemma repeat_source:
  assumes "repeatVerify ds x ty = Inr ()" and "valid_shape (tyShape x)" and "index_of (tyShape ty) i"
  shows "index_of (tyShape x) (source (RepeatOp ds) (tyShape x) (tyShape ty) i)"
proof -
  from assms(1) have len: "length ds = length (tyShape x)" "length (tyShape ty) = length (tyShape x)"
    and d: "\<forall>k < length (tyShape x). 0 < ds ! k \<and> tyShape x ! k * ds ! k = tyShape ty ! k"
    unfolding repeatVerify_def checks_Inr_iff by auto
  show ?thesis
  proof (rule index_ofI)
    fix k assume k: "k < length (tyShape x)"
    have "0 \<le> i ! k" "i ! k < tyShape x ! k * ds ! k" using index_of_nth[OF assms(3), of k] d k len by auto
    then have "tyShape x ! k \<noteq> 0" by auto
    then have "0 < tyShape x ! k" using valid_nth[OF assms(2) k] by simp
    then show "0 \<le> source (RepeatOp ds) (tyShape x) (tyShape ty) i ! k
      \<and> source (RepeatOp ds) (tyShape x) (tyShape ty) i ! k < tyShape x ! k"
      using k len index_of_length[OF assms(3)] by simp
  qed (use len index_of_length[OF assms(3)] in simp)
qed

lemma repeat_interleave_source:
  assumes "repeatInterleaveVerify r dim x ty = Inr ()" and "valid_shape (tyShape x)" and "index_of (tyShape ty) i"
    and "attrsOk (RepeatInterleaveOp r dim)"
  shows "index_of (tyShape x) (source (RepeatInterleaveOp r dim) (tyShape x) (tyShape ty) i)"
proof -
  define d where "d = normDim dim (length (tyShape x))"
  note v = assms(1)[unfolded repeatInterleaveVerify_def Let_def checks_Inr_iff, simplified]
  have b: "dim < rank x" "- rank x \<le> dim" "r \<noteq> 0" using v by auto
  have dimlow: "- (2 ^ 31) \<le> dim" using assms(4) by (simp add: attrsOk_def)
  have dd: "(if dim < 0 then i32 (dim + rank x) else dim) = int d"
    unfolding d_def using b valid_length[OF assms(2)] dimlow
    by (intro normDim_i32) (auto intro!: order_trans[OF _ eq_refl[OF i32_id[symmetric]]])
  note v2 = assms(1)[unfolded repeatInterleaveVerify_def Let_def dd checks_Inr_iff, simplified]
  have dl: "d < length (tyShape x)" using b by (auto simp: d_def normDim_def)
  have out: "tyShape ty = (tyShape x)[d := tyShape x ! d * r]" using v2 by simp
  have r: "0 < r" using assms(4) b by (simp add: attrsOk_def)
  have id: "0 \<le> i ! d" "i ! d < tyShape x ! d * r" using index_of_nth[OF assms(3), of d] dl out by auto
  have q: "0 \<le> i ! d div r" "i ! d div r < tyShape x ! d" using id r
    by (auto simp: pos_imp_zdiv_nonneg_iff intro: div_less_of_less_mult)
  have "withoutDim (int d) (tyShape ty) = withoutDim (int d) (tyShape x)" using dl by (simp add: out withoutDim_def)
  from update_source[OF assms(3) _ dl this q] out show ?thesis by (simp add: d_def Let_def)
qed

section \<open>Elementwise ops, concatenation, padding\<close>

lemma broadcastIndex_in:
  assumes "broadcastsTo s out" and "index_of out i"
  shows "index_of s (broadcastIndex s out i)"
proof (rule index_ofI)
  from assms(1) have l: "length s \<le> length out"
    and a: "\<And>k. k < length s \<Longrightarrow> s ! k = 1 \<or> s ! k = out ! (length out - length s + k)"
    by (auto simp: broadcastsTo_def list_all2_conv_all_nth)
  have li: "length i = length out" by (rule index_of_length[OF assms(2)])
  show "length (broadcastIndex s out i) = length s" using l li by (simp add: broadcastIndex_def)
  fix k assume k: "k < length s"
  then show "0 \<le> broadcastIndex s out i ! k \<and> broadcastIndex s out i ! k < s ! k"
    using l li a[OF k] index_of_nth[OF assms(2), of "length out - length s + k"] by (auto simp: broadcastIndex_def)
qed

lemma broadcastsTo_trans:
  assumes "broadcastsTo s t" and "broadcastsTo t u"
  shows "broadcastsTo s u"
proof -
  from assms have l: "length s \<le> length t" "length t \<le> length u"
    and a: "\<And>k. k < length s \<Longrightarrow> s ! k = 1 \<or> s ! k = t ! (length t - length s + k)"
    and b: "\<And>k. k < length t \<Longrightarrow> t ! k = 1 \<or> t ! k = u ! (length u - length t + k)"
    by (auto simp: broadcastsTo_def list_all2_conv_all_nth)
  have "s ! k = 1 \<or> s ! k = u ! (length u - length s + k)" if "k < length s" for k
    using a[OF that] b[of "length t - length s + k"] l that by auto
  then show ?thesis using l by (auto simp: broadcastsTo_def list_all2_conv_all_nth)
qed

lemma broadcastIndex_trans:
  assumes "broadcastsTo s t" and "broadcastsTo t u" and "length i = length u"
  shows "broadcastIndex s t (broadcastIndex t u i) = broadcastIndex s u i"
proof (rule nth_equalityI)
  from assms have l: "length s \<le> length t" "length t \<le> length u"
    and a: "\<And>k. k < length s \<Longrightarrow> s ! k = 1 \<or> s ! k = t ! (length t - length s + k)"
    by (auto simp: broadcastsTo_def list_all2_conv_all_nth)
  then show "length (broadcastIndex s t (broadcastIndex t u i)) = length (broadcastIndex s u i)"
    using assms(3) by (simp add: broadcastIndex_def)
  fix k assume "k < length (broadcastIndex s t (broadcastIndex t u i))"
  then have "k < length s" by (simp add: broadcastIndex_def)
  then show "broadcastIndex s t (broadcastIndex t u i) ! k = broadcastIndex s u i ! k"
    using a[of k] l assms(3) by (auto simp: broadcastIndex_def)
qed

lemma concatPart_in:
  assumes "0 \<le> q" and "q < sum_list ds"
  shows "fst (concatPart ds q) < length ds" and "0 \<le> snd (concatPart ds q)"
    and "snd (concatPart ds q) < ds ! fst (concatPart ds q)"
  using assms by (induction ds q rule: concatPart.induct) (auto split: prod.splits)

lemma concatVerify_rest:
  assumes "concatVerify dim (x # xs) = Inr ()" and "valid_shape (tyShape x)" and "- (2 ^ 31) \<le> dim" and "y \<in> set (x # xs)"
  shows "normDim dim (length (tyShape x)) < length (tyShape x)" and "length (tyShape y) = length (tyShape x)"
    and "k < length (tyShape x) \<Longrightarrow> k \<noteq> normDim dim (length (tyShape x)) \<Longrightarrow> tyShape y ! k = tyShape x ! k"
proof -
  note v = assms(1)[unfolded concatVerify_def Let_def list.sel checks_Inr_iff, simplified]
  have d0: "0 \<le> (if dim < 0 then i32 (dim + rank x) else dim)" using v by auto
  note dd = normDim_i32[OF assms(3) valid_length[OF assms(2)] d0]
  note v2 = assms(1)[unfolded concatVerify_def Let_def list.sel dd checks_Inr_iff, simplified]
  show "normDim dim (length (tyShape x)) < length (tyShape x)" using v2 by simp
  show "length (tyShape y) = length (tyShape x)" using v2 assms(4) by auto
  show "k < length (tyShape x) \<Longrightarrow> k \<noteq> normDim dim (length (tyShape x)) \<Longrightarrow> tyShape y ! k = tyShape x ! k"
    using v2 assms(4) by fastforce
qed

lemma concat_source:
  assumes "concatVerify dim (x # xs) = Inr ()" and "valid_shape (tyShape x)" and "attrsOk (ConcatOp dim)"
    and "index_of out i" and "restOk (ConcatOp dim) (map tyShape (x # xs)) out"
    and "concatPart (map (\<lambda>y. tyShape y ! normDim dim (length out)) (x # xs)) (i ! normDim dim (length out)) = (k, r)"
  shows "k < length (x # xs) \<and> index_of (tyShape ((x # xs) ! k)) (i[normDim dim (length out) := r])"
proof -
  define d where "d = normDim dim (length out)"
  define ds where "ds = map (\<lambda>y. tyShape y ! d) (x # xs)"
  have dimlow: "- (2 ^ 31) \<le> dim" using assms(3) by (simp add: attrsOk_def)
  note rest = concatVerify_rest[OF assms(1,2) dimlow]
  from assms(5) have lo: "length out = length (tyShape x)" and w: "withoutDim (int d) out = withoutDim (int d) (tyShape x)"
    and sum: "out ! d = sum_list ds" by (auto simp: d_def ds_def Let_def o_def)
  have dl: "d < length out" using rest(1)[of x] lo by (simp add: d_def)
  have "0 \<le> i ! d" "i ! d < sum_list ds" using index_of_nth[OF assms(4) dl] sum by auto
  note part = concatPart_in[OF this]
  have p: "concatPart ds (i ! d) = (k, r)" using assms(6) by (simp add: d_def ds_def)
  have k: "k < length (x # xs)" using part(1) p by (simp add: ds_def)
  then have y: "(x # xs) ! k \<in> set (x # xs)" by (rule nth_mem)
  have r: "0 \<le> r" "r < tyShape ((x # xs) ! k) ! d" using part(2,3) p k nth_map[OF k, of "\<lambda>y. tyShape y ! d"] by (auto simp: ds_def)
  have "withoutDim (int d) (tyShape ((x # xs) ! k)) = withoutDim (int d) (tyShape x)"
    using rest(2,3)[OF y] dl lo by (intro nth_equalityI) (auto simp: withoutDim_length withoutDim_nth d_def)
  with w have "withoutDim (int d) out = withoutDim (int d) (tyShape ((x # xs) ! k))" by simp
  from update_source[OF assms(4) _ _ this r] rest(2)[OF y] lo dl k show ?thesis by (simp add: d_def)
qed

end
