(* ===== verification/TTIRMatmul.thy ===== *)
theory TTIRMatmul
  imports TTIRReads
begin

text \<open>
  Matrix products and general dot products: the indices their terms are read from lie inside
  the operands.
\<close>

section \<open>Shapes\<close>

lemma last_nth: "1 \<le> length xs \<Longrightarrow> xs ! (length xs - 1) = last xs"
  by (cases xs rule: rev_cases) auto

lemma matmulShape_Inr:
  assumes "matmulShape bc tA tB a b = Inr expected" and "broadcast_rule bc"
  obtains batch where "expected = batch @ (if 1 < length a then [lhsShape tA a ! (length (lhsShape tA a) - 2)] else [])
      @ (if 1 < length b then [last (rhsShape tB b)] else [])"
    and "1 \<le> length a" and "1 \<le> length b"
    and "broadcastsTo (take (length (lhsShape tA a) - 2) (lhsShape tA a)) batch"
    and "broadcastsTo (take (length (rhsShape tB b) - 2) (rhsShape tB b)) batch"
    and "last (lhsShape tA a) = rhsShape tB b ! (length (rhsShape tB b) - 2)"
proof -
  let ?A = "lhsShape tA a" and ?B = "rhsShape tB b"
  have n1: "1 \<le> length a" using assms(1) by (cases a) (simp_all add: matmulShape_def)
  have n2: "1 \<le> length b" using assms(1) n1 by (cases b; cases a) (simp_all add: matmulShape_def)
  note n = n1 n2
  have inner: "?A ! (length ?A - 1) = ?B ! (length ?B - 2)"
    by (rule ccontr) (use assms(1) n in \<open>simp add: matmulShape_def Let_def not_less[symmetric]\<close>)
  have lens: "2 \<le> length ?A" "2 \<le> length ?B" using n by (auto simp: lhsShape_def rhsShape_def swapAt_def)
  then have last: "?A ! (length ?A - 1) = last ?A" "?B ! (length ?B - 1) = last ?B" using last_nth[of ?A] last_nth[of ?B] by auto
  show thesis
  proof (cases "2 < length ?A \<or> 2 < length ?B")
    case True
    then have "rbind (case bc (take (length ?A - 2) ?A) (take (length ?B - 2) ?B) of
        None \<Rightarrow> Inl ''Batch dimensions are not broadcast compatible'' | Some s \<Rightarrow> Inr s)
      (\<lambda>batch. Inr (batch @ (if 1 < length a then [?A ! (length ?A - 2)] else []) @ (if 1 < length b then [?B ! (length ?B - 1)] else [])))
      = Inr expected"
      using assms(1) n inner unfolding matmulShape_def Let_def by (simp only: if_True if_False not_less[symmetric] simp_thms)
    then obtain batch where "bc (take (length ?A - 2) ?A) (take (length ?B - 2) ?B) = Some batch"
      "expected = batch @ (if 1 < length a then [?A ! (length ?A - 2)] else []) @ (if 1 < length b then [?B ! (length ?B - 1)] else [])"
      by (cases "bc (take (length ?A - 2) ?A) (take (length ?B - 2) ?B)") auto
    then show thesis using that[of batch] broadcast_ruleD(1)[OF assms(2)] n inner last by auto
  next
    case False
    then have "expected = (if 1 < length a then [?A ! (length ?A - 2)] else []) @ (if 1 < length b then [?B ! (length ?B - 1)] else [])"
      using assms(1) n inner unfolding matmulShape_def Let_def
      by (simp only: if_True if_False not_less[symmetric] simp_thms rbind_simps append_Nil sum.inject)
    then show thesis using that[of "[]"] False lens n inner last by (auto simp: broadcastsTo_def)
  qed
qed

lemma broadcastsTo_append:
  assumes "broadcastsTo (s @ t) out"
  shows "length t \<le> length out" and "broadcastsTo s (take (length out - length t) out)"
    and "k < length t \<Longrightarrow> t ! k = 1 \<or> t ! k = out ! (length out - length t + k)"
proof -
  from assms have l: "length s + length t \<le> length out"
    and a: "\<And>k. k < length s + length t \<Longrightarrow> (s @ t) ! k = 1 \<or> (s @ t) ! k = out ! (length out - (length s + length t) + k)"
    by (auto simp: broadcastsTo_def list_all2_conv_all_nth)
  show "length t \<le> length out" using l by simp
  show "broadcastsTo s (take (length out - length t) out)" unfolding broadcastsTo_def list_all2_conv_all_nth
  proof (intro conjI allI impI)
    fix k assume k: "k < length s"
    define n where "n = length out - length t"
    have n: "n \<le> length out" "length s \<le> n" "length out - (length s + length t) = n - length s" using l by (auto simp: n_def)
    have "drop (length (take n out) - length s) (take n out) ! k = out ! (n - length s + k)" using n(1,2) k by simp
    moreover have "s ! k = 1 \<or> s ! k = out ! (n - length s + k)" using a[of k] k by (simp add: nth_append n(3))
    ultimately show "s ! k = 1 \<or> s ! k = drop (length (take (length out - length t) out) - length s) (take (length out - length t) out) ! k"
      by (simp add: n_def)
  qed (use l in auto)
  assume k: "k < length t"
  have "length out - (length s + length t) + (length s + k) = length out - length t + k" using l by simp
  with a[of "length s + k"] k show "t ! k = 1 \<or> t ! k = out ! (length out - length t + k)" by simp
qed

text \<open>An index whose last two coordinates lie in the matrix, in either order.\<close>

lemma matrix_index:
  assumes "2 \<le> length s" and "index_of (take (length s - 2) s) batch"
    and "0 \<le> p" "p < s ! (length s - 2)" "0 \<le> q" "q < s ! (length s - 1)"
  shows "index_of s (batch @ [p, q])"
proof -
  have "drop (length s - 2) s = [s ! (length s - 2), s ! (length s - 1)]"
    using assms(1) by (intro nth_equalityI) (auto simp: less_Suc_eq numeral_2_eq_2)
  then have "s = take (length s - 2) s @ [s ! (length s - 2), s ! (length s - 1)]" by (metis append_take_drop_id)
  moreover have "index_of (take (length s - 2) s @ [s ! (length s - 2), s ! (length s - 1)]) (batch @ [p, q])"
    using assms(2-6) unfolding index_of_def by (intro list_all2_appendI) auto
  ultimately show ?thesis by simp
qed

lemma shape_lengths [simp]:
  "1 \<le> length s \<Longrightarrow> length (lhsShape t s) = (if length s = 1 then 2 else length s)"
  "1 \<le> length s \<Longrightarrow> length (rhsShape t s) = (if length s = 1 then 2 else length s)"
  by (auto simp: lhsShape_def rhsShape_def swapAt_def)

text \<open>The batch dimensions do not depend on the transposition.\<close>

lemma batch_dims:
  assumes "2 \<le> length s"
  shows "take (length s - 2) (lhsShape t s) = take (length s - 2) s" "take (length s - 2) (rhsShape t s) = take (length s - 2) s"
  using assms by (auto simp: lhsShape_def rhsShape_def swapAt_def take_update_swap list_update_beyond)

lemma lhs_dims:
  assumes "2 \<le> length s"
  shows "lhsShape t s ! (length s - 2) = (if t then s ! (length s - 1) else s ! (length s - 2))"
    and "last (lhsShape t s) = (if t then s ! (length s - 2) else s ! (length s - 1))"
    and "rhsShape t s ! (length s - 2) = (if t then s ! (length s - 1) else s ! (length s - 2))"
    and "last (rhsShape t s) = (if t then s ! (length s - 2) else s ! (length s - 1))"
proof -
  have ne: "length s - Suc 0 \<noteq> length s - 2" "s \<noteq> []" "length s \<noteq> Suc 0" using assms by auto
  show "lhsShape t s ! (length s - 2) = (if t then s ! (length s - 1) else s ! (length s - 2))"
    "rhsShape t s ! (length s - 2) = (if t then s ! (length s - 1) else s ! (length s - 2))"
    using assms ne by (auto simp: lhsShape_def rhsShape_def swapAt_def)
  have "length (lhsShape t s) = length s" "length (rhsShape t s) = length s" using assms by auto
  then have "last (lhsShape t s) = lhsShape t s ! (length s - 1)" "last (rhsShape t s) = rhsShape t s ! (length s - 1)"
    using ne by (metis last_conv_nth length_0_conv)+
  then show "last (lhsShape t s) = (if t then s ! (length s - 2) else s ! (length s - 1))"
    "last (rhsShape t s) = (if t then s ! (length s - 2) else s ! (length s - 1))"
    using assms ne by (auto simp: lhsShape_def rhsShape_def swapAt_def)
qed

section \<open>Terms are read inside the operands\<close>

lemma lhsIndex_in:
  assumes "1 \<le> length s" and "broadcastsTo (take (length (lhsShape t s) - 2) (lhsShape t s)) bs" and "index_of bs batch"
    and "length s \<noteq> 1 \<Longrightarrow> 0 \<le> row \<and> row < lhsShape t s ! (length (lhsShape t s) - 2)" and "0 \<le> k" "k < last (lhsShape t s)"
  shows "index_of s (lhsIndex t s bs batch row k)"
proof (cases "length s = 1")
  case True
  then obtain d where "s = [d]" by (cases s) auto
  with assms(5,6) show ?thesis by (simp add: lhsIndex_def lhsShape_def)
next
  case False
  with assms(1) have two: "2 \<le> length s" by simp
  have "broadcastsTo (take (length s - 2) s) bs" using assms(2) False assms(1) batch_dims(1)[OF two] by simp
  note b = broadcastIndex_in[OF this assms(3)]
  show ?thesis
    using matrix_index[OF two b] assms(4-6) lhs_dims(1,2)[OF two, of t] assms(1) False by (simp add: lhsIndex_def split: if_splits)
qed

lemma rhsIndex_in:
  assumes "1 \<le> length s" and "broadcastsTo (take (length (rhsShape t s) - 2) (rhsShape t s)) bs" and "index_of bs batch"
    and "length s \<noteq> 1 \<Longrightarrow> 0 \<le> col \<and> col < last (rhsShape t s)" and "0 \<le> k" "k < rhsShape t s ! (length (rhsShape t s) - 2)"
  shows "index_of s (rhsIndex t s bs batch col k)"
proof (cases "length s = 1")
  case True
  then obtain d where "s = [d]" by (cases s) auto
  with assms(5,6) show ?thesis by (simp add: rhsIndex_def rhsShape_def)
next
  case False
  with assms(1) have two: "2 \<le> length s" by simp
  have "broadcastsTo (take (length s - 2) s) bs" using assms(2) False assms(1) batch_dims(2)[OF two] by simp
  note b = broadcastIndex_in[OF this assms(3)]
  show ?thesis
    using matrix_index[OF two b] assms(4-6) lhs_dims(3,4)[OF two, of t] assms(1) False by (simp add: rhsIndex_def split: if_splits)
qed

lemma index_of_take: "index_of s i \<Longrightarrow> index_of (take n s) (take n i)"
  by (auto simp: index_of_def list_all2_takeI)

text \<open>All terms of a product exist, at an index of a result the product is broadcast to.\<close>

lemma matmul_terms_in:
  assumes "matmulShape bc tA tB a b = Inr expected" and "broadcast_rule bc" and "broadcastsTo expected out" and "index_of out i"
    and "matrixIndex a b i = (n, r, c)"
    and "row = (if lhsShape tA a ! (length (lhsShape tA a) - 2) = 1 then 0 else r)"
    and "col = (if rhsShape tB b ! (length (rhsShape tB b) - 1) = 1 then 0 else c)"
    and "0 \<le> k" and "k < last (lhsShape tA a)"
  shows "index_of a (lhsIndex tA a (take n out) (take n i) row k)" and "index_of b (rhsIndex tB b (take n out) (take n i) col k)"
proof -
  let ?A = "lhsShape tA a" and ?B = "rhsShape tB b"
  obtain batch where e: "expected = batch @ (if 1 < length a then [?A ! (length ?A - 2)] else []) @ (if 1 < length b then [last ?B] else [])"
    and one: "1 \<le> length a" "1 \<le> length b"
    and ba: "broadcastsTo (take (length ?A - 2) ?A) batch" and bb: "broadcastsTo (take (length ?B - 2) ?B) batch"
    and inner: "last ?A = ?B ! (length ?B - 2)"
    using matmulShape_Inr[OF assms(1,2)] by metis
  have lastB: "?B ! (length ?B - 1) = last ?B" using one by (intro last_nth) simp
  define t where "t = (if 1 < length a then [?A ! (length ?A - 2)] else []) @ (if 1 < length b then [last ?B] else [])"
  have li: "length i = length out" by (rule index_of_length[OF assms(4)])
  have nt: "n = length out - length t" using assms(5) li by (auto simp: matrixIndex_def Let_def t_def)
  note ap = broadcastsTo_append[of batch t out]
  have et: "broadcastsTo (batch @ t) out" using assms(3) e by (simp add: t_def)
  have lt: "length t \<le> length out" by (rule ap(1)[OF et])
  have bn: "broadcastsTo batch (take n out)" using ap(2)[OF et] nt by simp
  have in_batch: "index_of (take n out) (take n i)" by (rule index_of_take[OF assms(4)])
  have dims: "t ! k = 1 \<or> t ! k = out ! (n + k)" "0 \<le> i ! (n + k)" "i ! (n + k) < out ! (n + k)" if "k < length t" for k
    using ap(3)[OF et that] index_of_nth[OF assms(4), of "n + k"] nt lt that by auto
  have row: "0 \<le> row \<and> row < ?A ! (length ?A - 2)" if "length a \<noteq> 1"
    using dims[of 0] that one assms(5,6) by (auto simp: t_def matrixIndex_def Let_def split: if_splits)
  have col: "0 \<le> col \<and> col < last ?B" if "length b \<noteq> 1"
    using dims[of "length t - 1"] that one assms(5,7) lastB by (auto simp: t_def matrixIndex_def Let_def split: if_splits)
  show "index_of a (lhsIndex tA a (take n out) (take n i) row k)"
    by (rule lhsIndex_in[OF one(1) broadcastsTo_trans[OF ba bn] in_batch row assms(8,9)])
  show "index_of b (rhsIndex tB b (take n out) (take n i) col k)"
    using rhsIndex_in[OF one(2) broadcastsTo_trans[OF bb bn] in_batch col assms(8)] assms(9) inner by simp
qed

section \<open>General dot products\<close>

lemma foldl_remove1: "distinct xs \<Longrightarrow> foldl (\<lambda>dims d. remove1 d dims) xs ds = filter (\<lambda>d. d \<notin> set ds) xs"
proof (induction ds arbitrary: xs)
  case (Cons d ds)
  then show ?case by (auto simp: distinct_remove1_removeAll removeAll_filter_not_eq intro: filter_cong)
qed simp

lemma getResultDims_filter: "getResultDims bl cl n = filter (\<lambda>d. d \<notin> set (bl @ cl)) (map int [0..<n])"
  by (simp add: getResultDims_def foldl_remove1 distinct_map conj_commute del: filter_map)

lemma permutationI:
  assumes "distinct p" and "set p = int ` {0..<n}"
  shows "is_permutation p n"
proof -
  have "length p = card (int ` {0..<n})" using distinct_card[OF assms(1)] assms(2) by simp
  then have "length p = n" by (simp add: card_image)
  moreover have "sort p = map int [0..<n]"
    using assms by (intro sorted_distinct_set_unique) (auto simp: distinct_map sorted_map)
  ultimately show ?thesis by (simp add: is_permutation_def)
qed

lemma dims_permutation:
  assumes "dimsOk (bl @ cl) n"
  shows "is_permutation (bl @ getResultDims bl cl n @ cl) n" and "is_permutation (bl @ cl @ getResultDims bl cl n) n"
proof -
  have d: "set (getResultDims bl cl n) = int ` {0..<n} - set (bl @ cl)" "distinct (getResultDims bl cl n)"
    by (auto simp: getResultDims_filter distinct_map)
  have c: "set (bl @ cl) \<subseteq> int ` {0..<n}"
  proof
    fix x assume "x \<in> set (bl @ cl)"
    then have "0 \<le> x" "x < int n" using assms by (auto simp: dimsOk_def)
    then have "x = int (nat x)" "nat x \<in> {0..<n}" by auto
    then show "x \<in> int ` {0..<n}" by blast
  qed
  have "distinct bl" "distinct cl" "set bl \<inter> set cl = {}" using assms by (auto simp: dimsOk_def)
  with c d show "is_permutation (bl @ getResultDims bl cl n @ cl) n" "is_permutation (bl @ cl @ getResultDims bl cl n) n"
    by (auto intro!: permutationI)
qed

lemma atDims_in:
  assumes "is_permutation p (length s)" and "index_of (map (\<lambda>d. s ! nat d) p) v"
  shows "index_of s (atDims p v)"
proof (rule index_ofI)
  have lp: "length p = length s" using is_permutation_set[OF assms(1)] by simp
  then show "length (atDims p v) = length s" by (simp add: atDims_def)
  fix k assume k: "k < length s"
  note q = posOf_correct[OF assms(1) k]
  show "0 \<le> atDims p v ! k \<and> atDims p v ! k < s ! k"
    using index_of_nth[OF assms(2), of "posOf p k"] q k lp by (simp add: atDims_def)
qed

lemma index_of_append: "index_of s i \<Longrightarrow> index_of t j \<Longrightarrow> index_of (s @ t) (i @ j)"
  by (simp add: index_of_def list_all2_appendI)

lemma index_of_splitE:
  assumes "index_of (s @ t) i"
  shows "index_of s (take (length s) i)" and "index_of t (drop (length s) i)"
  using assms unfolding index_of_def by (auto simp: list_all2_append2 dest: list_all2_lengthD)

lemma positive_of_volume:
  assumes "\<forall>d \<in> set s. 0 \<le> d" and "0 < prod_list (s :: int list)"
  shows "positive_shape s"
proof -
  have "0 \<notin> set s" using assms(2) by (metis less_irrefl prod_list_zero_iff)
  with assms(1) show ?thesis by (auto simp: positive_shape_def order_less_le)
qed

text \<open>The parts of an index of the result.\<close>

definition dotParts :: "int list \<Rightarrow> int list \<Rightarrow> int list \<Rightarrow> int list \<times> int list \<times> int list" where
  "dotParts bl rl i = (take (length bl) i, take (length rl) (drop (length bl) i), drop (length bl + length rl) i)"

lemma dotParts_in:
  assumes "dotShapes bl cl br cr a b out" and "index_of out i" and "dotParts bl (getResultDims bl cl (length a)) i = (ib, il, ir)"
  shows "index_of (map (\<lambda>d. a ! nat d) bl) ib" and "index_of (map (\<lambda>d. a ! nat d) (getResultDims bl cl (length a))) il"
    and "index_of (map (\<lambda>d. b ! nat d) (getResultDims br cr (length b))) ir" and "i = ib @ il @ ir"
proof -
  let ?rl = "getResultDims bl cl (length a)" and ?rr = "getResultDims br cr (length b)"
  have out: "index_of (map (\<lambda>d. a ! nat d) bl @ map (\<lambda>d. a ! nat d) ?rl @ map (\<lambda>d. b ! nat d) ?rr) i"
    using assms(1,2) by (simp add: dotShapes_def)
  note s1 = index_of_splitE[OF out] and s2 = index_of_splitE[OF index_of_splitE(2)[OF out]]
  show "index_of (map (\<lambda>d. a ! nat d) bl) ib" using s1(1) assms(3) by (simp add: dotParts_def)
  show "index_of (map (\<lambda>d. a ! nat d) ?rl) il" using s2(1) assms(3) by (simp add: dotParts_def)
  show "index_of (map (\<lambda>d. b ! nat d) ?rr) ir" using s2(2) assms(3) by (simp add: dotParts_def add.commute)
  show "i = ib @ il @ ir" using assms(3) by (auto simp: dotParts_def) (metis append_take_drop_id drop_drop add.commute)
qed

lemma contraction_index:
  assumes "\<forall>d \<in> set s. 0 \<le> d" and "0 \<le> k" and "k < prod_list s"
  shows "index_of s (unlin s k)" and "lin s (unlin s k) = k"
  using lin_unlin[OF positive_of_volume assms(2,3)] assms by auto

lemma dot_terms_in:
  assumes "dotShapes bl cl br cr a b out" and "index_of out i" and "dotParts bl (getResultDims bl cl (length a)) i = (ib, il, ir)"
    and "index_of (map (\<lambda>d. a ! nat d) cl) ik"
  shows "index_of a (atDims (bl @ getResultDims bl cl (length a) @ cl) (ib @ il @ ik))"
    and "index_of b (atDims (br @ cr @ getResultDims br cr (length b)) (ib @ ik @ ir))"
proof -
  have d: "dimsOk (bl @ cl) (length a)" "dimsOk (br @ cr) (length b)"
    and eq: "map (\<lambda>d. a ! nat d) bl = map (\<lambda>d. b ! nat d) br" "map (\<lambda>d. a ! nat d) cl = map (\<lambda>d. b ! nat d) cr"
    using assms(1) by (auto simp: dotShapes_def)
  note parts = dotParts_in[OF assms(1-3)]
  show "index_of a (atDims (bl @ getResultDims bl cl (length a) @ cl) (ib @ il @ ik))"
    using parts(1,2) assms(4) by (intro atDims_in[OF dims_permutation(1)[OF d(1)]]) (simp add: index_of_append)
  show "index_of b (atDims (br @ cr @ getResultDims br cr (length b)) (ib @ ik @ ir))"
    using parts(1,3) assms(4) eq by (intro atDims_in[OF dims_permutation(2)[OF d(2)]]) (simp add: index_of_append)
qed

section \<open>Accepted products\<close>

lemma broadcastsTo_refl [simp]: "broadcastsTo s s"
  by (simp add: broadcastsTo_def list_all2_conv_all_nth)

lemma matmulOutput_Inr: "matmulOutput e out = Inr () \<Longrightarrow> broadcastsTo e out"
proof (cases "e = []")
  case False
  assume "matmulOutput e out = Inr ()"
  with False have l: "length out = length e" and d: "\<forall>(x, y) \<in> set (zip out e). x = y"
    by (auto simp: matmulOutput_def checks_Inr_iff)
  have "out = e"
  proof (rule nth_equalityI[OF l])
    fix k assume "k < length out"
    with l have "k < min (length out) (length e)" by simp
    then have "(out ! k, e ! k) \<in> set (zip out e)" unfolding set_zip by blast
    from bspec[OF d this] show "out ! k = e ! k" by simp
  qed
  then show ?thesis by simp
qed (simp add: broadcastsTo_def)

lemma matmulVerify_Inr:
  assumes "matmulVerify bc tA tB x y ty = Inr ()"
  obtains e where "matmulShape bc tA tB (tyShape x) (tyShape y) = Inr e" and "broadcastsTo e (tyShape ty)"
  using assms by (auto simp: matmulVerify_def rbind_Inr_iff dest: matmulOutput_Inr)

lemma linearVerify_Inr:
  assumes "linearVerify bc tA tB x y bias ty = Inr ()" and "broadcast_rule bc"
  obtains e where "matmulShape bc tA tB (tyShape x) (tyShape y) = Inr e" and "broadcastsTo e (tyShape ty)"
    and "\<And>z. bias = Some z \<Longrightarrow> broadcastsTo (tyShape z) (tyShape ty)"
proof (cases bias)
  case None
  with assms(1) have "matmulVerify bc tA tB x y ty = Inr ()" by (simp add: linearVerify_def matmulVerify_def)
  then obtain e where "matmulShape bc tA tB (tyShape x) (tyShape y) = Inr e" "broadcastsTo e (tyShape ty)"
    by (rule matmulVerify_Inr)
  with that None show thesis by simp
next
  case (Some z)
  with assms(1) obtain e e2 where e: "matmulShape bc tA tB (tyShape x) (tyShape y) = Inr e" "bc e (tyShape z) = Some e2"
    "matmulOutput e2 (tyShape ty) = Inr ()"
    by (auto simp: linearVerify_def rbind_Inr_iff split: if_splits option.splits)
  note b = broadcast_ruleD(1)[OF assms(2) e(2)] and out = matmulOutput_Inr[OF e(3)]
  have "broadcastsTo e (tyShape ty)" by (rule broadcastsTo_trans[OF conjunct1[OF b] out])
  moreover have "broadcastsTo (tyShape z) (tyShape ty)" by (rule broadcastsTo_trans[OF conjunct2[OF b] out])
  ultimately show thesis using that e(1) Some by simp
qed

lemma those_total: "\<forall>x \<in> set xs. x \<noteq> None \<Longrightarrow> those xs \<noteq> None"
  by (induction xs) auto

lemma sumOfProducts_total:
  assumes "\<And>k. k \<in> set ks \<Longrightarrow> f k \<noteq> None" and "\<And>k. k \<in> set ks \<Longrightarrow> g k \<noteq> None"
  shows "sumOfProducts sc (map (\<lambda>k. (f k, g k)) ks) \<noteq> None"
proof -
  have "\<forall>x \<in> set (map (\<lambda>k. case (f k, g k) of (Some v, Some w) \<Rightarrow> Some (scMul sc v w) | _ \<Rightarrow> None) ks). x \<noteq> None"
    using assms by (fastforce split: option.splits)
  from those_total[OF this] show ?thesis by (simp add: sumOfProducts_def o_def)
qed

lemma evalMatmul_total:
  assumes "matmulShape bc tA tB (tyShape (fst (ins ! 0))) (tyShape (fst (ins ! 1))) = Inr e" and "broadcast_rule bc"
    and "broadcastsTo e out" and "index_of out i"
    and "\<And>k j. k < 2 \<Longrightarrow> index_of (tyShape (fst (ins ! k))) j \<Longrightarrow> readAt ins k j \<noteq> None"
  shows "evalMatmul sc tA tB ins out i \<noteq> None"
proof -
  obtain n r c where m: "matrixIndex (tyShape (fst (ins ! 0))) (tyShape (fst (ins ! 1))) i = (n, r, c)" by (cases "matrixIndex (tyShape (fst (ins ! 0))) (tyShape (fst (ins ! 1))) i")
  note terms = matmul_terms_in[OF assms(1-4) m refl refl]
  show ?thesis unfolding evalMatmul_def Let_def m prod.case
  proof (rule sumOfProducts_total)
    fix k assume "k \<in> set [0..<nat (last (lhsShape tA (tyShape (fst (ins ! 0)))))]"
    then have "0 \<le> int k" "int k < last (lhsShape tA (tyShape (fst (ins ! 0))))" by auto
    note t = terms[OF this]
    show "readAt ins 0 (lhsIndex tA (tyShape (fst (ins ! 0))) (take n out) (take n i)
        (if lhsShape tA (tyShape (fst (ins ! 0))) ! (length (lhsShape tA (tyShape (fst (ins ! 0)))) - 2) = 1 then 0 else r) (int k)) \<noteq> None"
      by (rule assms(5)[OF _ t(1)]) simp
    show "readAt ins 1 (rhsIndex tB (tyShape (fst (ins ! 1))) (take n out) (take n i)
        (if rhsShape tB (tyShape (fst (ins ! 1))) ! (length (rhsShape tB (tyShape (fst (ins ! 1)))) - 1) = 1 then 0 else c) (int k)) \<noteq> None"
      by (rule assms(5)[OF _ t(2)]) simp
  qed
qed

lemma evalDot_total:
  assumes "dotShapes bl cl br cr (tyShape (fst (ins ! 0))) (tyShape (fst (ins ! 1))) out" and "index_of out i"
    and "valid_shape (tyShape (fst (ins ! 0)))"
    and "\<And>k j. k < 2 \<Longrightarrow> index_of (tyShape (fst (ins ! k))) j \<Longrightarrow> readAt ins k j \<noteq> None"
  shows "evalDot sc bl cl br cr ins i \<noteq> None"
proof -
  let ?a = "tyShape (fst (ins ! 0))"
  obtain ib il ir where p: "dotParts bl (getResultDims bl cl (length ?a)) i = (ib, il, ir)" by (cases "dotParts bl (getResultDims bl cl (length ?a)) i")
  have "dimsOk (bl @ cl) (length ?a)" using assms(1) by (simp add: dotShapes_def)
  then have nn: "\<forall>d \<in> set (map (\<lambda>d. ?a ! nat d) cl). 0 \<le> d"
    using valid_nth[OF assms(3), of "nat d" for d] by (force simp: dimsOk_def nat_less_iff)
  have "index_of (map (\<lambda>d. ?a ! nat d) cl) (unlin (map (\<lambda>d. ?a ! nat d) cl) (int k))"
    if "k < nat (prod_list (map (\<lambda>d. ?a ! nat d) cl))" for k
    using contraction_index(1)[OF nn] that by simp
  note terms = dot_terms_in[OF assms(1,2) p this]
  have parts: "ib = take (length bl) i" "il = take (length (getResultDims bl cl (length ?a))) (drop (length bl) i)"
    "ir = drop (length bl + length (getResultDims bl cl (length ?a))) i" using p by (auto simp: dotParts_def)
  show ?thesis unfolding evalDot_def Let_def parts[symmetric]
  proof (rule sumOfProducts_total)
    fix k assume "k \<in> set [0..<nat (prod_list (map (\<lambda>d. ?a ! nat d) cl))]"
    then have k: "k < nat (prod_list (map (\<lambda>d. ?a ! nat d) cl))" by simp
    show "readAt ins 0 (atDims (bl @ getResultDims bl cl (length ?a) @ cl) (ib @ il @ unlin (map (\<lambda>d. ?a ! nat d) cl) (int k))) \<noteq> None"
      by (rule assms(4)[OF _ terms(1)[OF k]]) simp
    show "readAt ins 1 (atDims (br @ cr @ getResultDims br cr (length (tyShape (fst (ins ! 1)))))
        (ib @ unlin (map (\<lambda>d. ?a ! nat d) cl) (int k) @ ir)) \<noteq> None"
      by (rule assms(4)[OF _ terms(2)[OF k]]) simp
  qed
qed

end
