(* ===== verification/TTIRSafe.thy ===== *)
theory TTIRSafe
  imports TTIRMatmul
begin

text \<open>
  Programs: an op whose operands have values everywhere has a value at every index of its
  result, and so have verified expressions.
\<close>

section \<open>Programs\<close>

lemma source_in:
  assumes "verifyOp bc a [x] ty = Inr (Inr ())" and "broadcast_rule bc" and "valid_shape (tyShape x)"
    and "index_of (tyShape ty) i" and "attrsOk a" and "restOk a [tyShape x] (tyShape ty)"
    and "copies a"
  shows "index_of (tyShape x) (source a (tyShape x) (tyShape ty) i)"
  using assms
  by (cases a)
    (auto simp del: source.simps simp: Let_def intro!: broadcast_source reshape_source slice_source index_source select_source
      squeeze_source unsqueeze_source transpose_source permute_source reverse_source repeat_source repeat_interleave_source)

text \<open>An op whose operands have values everywhere has a value at every index of its result.\<close>

lemma evalOp_total:
  assumes ver: "verifyOp bc a xs ty = Inr (Inr ())" and bc: "broadcast_rule bc"
    and valid: "\<forall>x \<in> set xs. valid_shape (tyShape x)" and i: "index_of (tyShape ty) i"
    and at32: "attrsOk a" and rest: "restOk a (map tyShape xs) (tyShape ty)"
    and ins: "map fst ins = xs" and total: "\<forall>k < length ins. \<forall>j. index_of (tyShape (fst (ins ! k))) j \<longrightarrow> snd (ins ! k) j \<noteq> None"
  shows "evalOp sc a ins ty i \<noteq> None"
proof -
  have len: "length ins = length xs" using ins by (metis length_map)
  have f: "fst (ins ! k) = xs ! k" if "k < length xs" for k
    using arg_cong[OF ins, of "\<lambda>l. l ! k"] that len by simp
  have read: "readAt ins k j \<noteq> None" if "k < length xs" "index_of (tyShape (xs ! k)) j" for k j
    using that total len f by (simp add: readAt_def)
  have one: "evalOp sc a ins ty i \<noteq> None"
    if "xs = [x]" and "copies a" for x
  proof -
    have "index_of (tyShape x) (source a (tyShape x) (tyShape ty) i)"
      using source_in[OF _ bc _ i at32 _ that(2), of x] ver valid rest that(1) by simp
    then have "readAt ins 0 (source a (tyShape x) (tyShape ty) i) \<noteq> None" using read[of 0] that(1) by simp
    moreover have "evalOp sc a ins ty i = readAt ins 0 (source a (tyShape x) (tyShape ty) i)"
      using that f[of 0] by (cases a) (auto simp del: source.simps)
    ultimately show ?thesis by simp
  qed
  show ?thesis
  proof (cases "copies a")
    case True
    with ver obtain x where "xs = [x]" by (cases a) (auto simp: verify_accepts)
    then show ?thesis using one True by blast
  next
    case False
    then consider (u) u where "a = UnaryOp u" | (t) "a = TypecastOp" | (b) b where "a = BinaryOp b" | (c) d where "a = ConcatOp d" | (p) p v where "a = PadOp p v"
      | (g) s e st d where "a = ArangeOp s e st d"
      | (m) tA tB where "a = MatmulOp tA tB" | (l) tA tB where "a = LinearOp tA tB" | (dg) bl cl br cr where "a = DotGeneralOp bl cl br cr"
      by (cases a) auto
    then show ?thesis
    proof cases
      case u
      with ver obtain x where x: "xs = [x]" by (auto simp: verify_accepts)
      have "readAt ins 0 (broadcastIndex (tyShape x) (tyShape ty) i) \<noteq> None"
        using read[of 0] broadcastIndex_in[OF _ i] rest x u by simp
      then show ?thesis using u x f[of 0] by simp
    next
      case t
      with ver obtain x where x: "xs = [x]" by (auto simp: verify_accepts)
      have "readAt ins 0 (broadcastIndex (tyShape x) (tyShape ty) i) \<noteq> None"
        using read[of 0] broadcastIndex_in[OF _ i] rest x t by simp
      then show ?thesis using t x f[of 0] by simp
    next
      case b
      with ver obtain x y where x: "xs = [x, y]" by (auto simp: verify_accepts)
      have "readAt ins 0 (broadcastIndex (tyShape x) (tyShape ty) i) \<noteq> None" "readAt ins 1 (broadcastIndex (tyShape y) (tyShape ty) i) \<noteq> None"
        using read[of 0] read[of 1] broadcastIndex_in[OF _ i] rest x b by auto
      then show ?thesis using b x f[of 0] f[of 1] by auto
    next
      case c
      with ver obtain x ys where x: "xs = x # ys" "concatVerify d (x # ys) = Inr ()"
        by (cases xs) (auto simp: verify_accepts)
      obtain k r where kr: "concatPart (map (\<lambda>y. tyShape y ! normDim d (length (tyShape ty))) xs) (i ! normDim d (length (tyShape ty))) = (k, r)"
        by fastforce
      have "k < length xs \<and> index_of (tyShape (xs ! k)) (i[normDim d (length (tyShape ty)) := r])"
        unfolding x(1) using kr valid at32 rest
        by (intro concat_source[OF x(2) _ _ i]) (simp_all only: c x(1) list.set insert_iff simp_thms)
      moreover have "map (\<lambda>y. tyShape (fst y) ! normDim d (length (tyShape ty))) ins = map (\<lambda>y. tyShape y ! normDim d (length (tyShape ty))) xs"
        using arg_cong[OF ins, of "map (\<lambda>y. tyShape y ! normDim d (length (tyShape ty)))"] by (simp add: o_def)
      ultimately show ?thesis using c kr read by (simp add: Let_def)
    next
      case p
      with ver obtain x where x: "xs = [x]" by (auto simp: verify_accepts)
      show ?thesis using p x f[of 0] read[of 0] by (simp add: Let_def)
    next
      case g
      then show ?thesis by simp
    next
      case m
      with ver obtain x y where x: "xs = [x, y]" "matmulVerify bc tA tB x y ty = Inr ()" by (auto simp: verify_accepts)
      from x(2) obtain e where e: "matmulShape bc tA tB (tyShape x) (tyShape y) = Inr e" "broadcastsTo e (tyShape ty)"
        by (rule matmulVerify_Inr)
      have "evalMatmul sc tA tB ins (tyShape ty) i \<noteq> None"
        by (rule evalMatmul_total[OF _ bc e(2) i]) (use e(1) x(1) f[of 0] f[of 1] f read in auto)
      then show ?thesis using m by simp
    next
      case l
      show ?thesis
      proof (cases "length xs = 2")
        case True
        with l ver obtain x y where x: "xs = [x, y]" "linearVerify bc tA tB x y None ty = Inr ()" by (auto simp: verify_accepts)
        from x(2) bc obtain e where e: "matmulShape bc tA tB (tyShape x) (tyShape y) = Inr e" "broadcastsTo e (tyShape ty)"
          by (rule linearVerify_Inr)
        have "evalMatmul sc tA tB ins (tyShape ty) i \<noteq> None"
          by (rule evalMatmul_total[OF _ bc e(2) i]) (use e(1) x(1) f[of 0] f[of 1] f read in auto)
        then show ?thesis using l len x(1) by simp
      next
        case False
        with l ver obtain x y z where x: "xs = [x, y, z]" "linearVerify bc tA tB x y (Some z) ty = Inr ()" by (auto simp: verify_accepts)
        from x(2) bc obtain e where e: "matmulShape bc tA tB (tyShape x) (tyShape y) = Inr e" "broadcastsTo e (tyShape ty)"
          "broadcastsTo (tyShape z) (tyShape ty)"
          by (rule linearVerify_Inr) simp
        have "evalMatmul sc tA tB ins (tyShape ty) i \<noteq> None"
          by (rule evalMatmul_total[OF _ bc e(2) i]) (use e(1) x(1) f[of 0] f[of 1] f read in auto)
        moreover have "readAt ins 2 (broadcastIndex (tyShape z) (tyShape ty) i) \<noteq> None"
          using read[of 2] broadcastIndex_in[OF e(3) i] x(1) by simp
        ultimately show ?thesis using l len x(1) f[of 2] by auto
      qed
    next
      case dg
      with ver obtain x y where x: "xs = [x, y]" by (auto simp: verify_accepts)
      have "evalDot sc bl cl br cr ins i \<noteq> None"
        by (rule evalDot_total[OF _ i]) (use rest dg valid x f[of 0] f[of 1] f read in auto)
      then show ?thesis using dg by simp
    qed
  qed
qed

lemma eval_total:
  assumes "broadcast_rule bc"
  shows "wf_ttir bc e \<Longrightarrow> index_of (shapeOf e) i \<Longrightarrow> eval sc e i \<noteq> None"
proof (induction e arbitrary: i)
  case (Op a xs ty)
  have "evalOp sc a (map (\<lambda>x. (typeOf x, eval sc x)) xs) ty i \<noteq> None"
    by (rule evalOp_total[where bc = bc and xs = "map typeOf xs"]) (use Op assms wf_valid in \<open>auto simp: o_def\<close>)
  then show ?case by simp
qed simp

text \<open>A broadcasting rule and a program for the witnesses: a broadcast, sliced with a negative step,
  transposed and padded.\<close>

definition numpyBroadcast :: broadcaster where
  "numpyBroadcast a b =
     (let n = max (length a) (length b);
          x = replicate (n - length a) 1 @ a; y = replicate (n - length b) 1 @ b
      in if list_all2 (\<lambda>d e. d = e \<or> d = 1 \<or> e = 1) x y then Some (map2 (\<lambda>d e. if d = 1 then e else d) x y) else None)"

lemma numpyBroadcast_rule: "broadcast_rule numpyBroadcast"
proof -
  have "broadcastsTo a c \<and> broadcastsTo b c" if "numpyBroadcast a b = Some c" for a b c
  proof -
    define x where "x = replicate (max (length a) (length b) - length a) 1 @ a"
    define y where "y = replicate (max (length a) (length b) - length b) 1 @ b"
    from that have xy: "length x = length y" "\<And>k. k < length y \<Longrightarrow> x ! k = y ! k \<or> x ! k = 1 \<or> y ! k = 1"
      and c: "c = map2 (\<lambda>d e. if d = 1 then e else d) x y"
      by (auto simp: numpyBroadcast_def Let_def x_def y_def list_all2_conv_all_nth split: if_splits)
    have lc: "length c = max (length a) (length b)" by (simp add: c x_def y_def)
    have l: "length x = length c" "length y = length c" by (auto simp: lc x_def y_def)
    have cx: "x ! k = 1 \<or> x ! k = c ! k" and cy: "y ! k = 1 \<or> y ! k = c ! k" if "k < length c" for k
    proof -
      have k: "k < length x" "k < length y" using that l by simp_all
      show "x ! k = 1 \<or> x ! k = c ! k" "y ! k = 1 \<or> y ! k = c ! k" using xy(2)[OF k(2)] k by (auto simp: c)
    qed
    have a: "a ! k = x ! (length c - length a + k)" and b: "b ! k = y ! (length c - length b + k)" for k
      unfolding lc x_def y_def
      using nth_append_length_plus[of "replicate (max (length a) (length b) - length a) 1" a k]
        nth_append_length_plus[of "replicate (max (length a) (length b) - length b) 1" b k]
      by (simp_all only: length_replicate)
    show ?thesis unfolding broadcastsTo_def list_all2_conv_all_nth
      using cx cy by (simp add: a b lc)
  qed
  then show ?thesis
    by (auto simp: broadcast_rule_def numpyBroadcast_def Let_def list_all2_conv_all_nth intro: nth_equalityI split: if_splits)
qed

definition f32Type :: "shape \<Rightarrow> ttir_type" where
  "f32Type s = \<lparr>tyShape = s, tyElem = Scalar (FloatType 32), tyEncoding = None\<rparr>"

definition demoProgram :: ttir where
  "demoProgram =
     Op (PadOp [0, 1, 0, 0] 0)
       [Op (TransposeOp (- 1) 0)
         [Op (SliceOp [3, 0] [0, 1] [- 1, 1])
           [Op (BroadcastOp [4, 1]) [Arg 0 (f32Type [1, 2])] (f32Type [4, 2])] (f32Type [3, 1])] (f32Type [1, 3])]
       (f32Type [2, 3])"

text \<open>C26: A TTIR program whose ops pass their verifiers, and the shape checks the verifiers leave to
  the rest of the compiler, reads no tensor out of range: every element of its result has a value.
  The \<open>getBroadcastedShape\<close> of MLIR is assumed to accept only shapes that agree or have a 1.\<close>

theorem verified_programs_have_values:
  assumes "broadcast_rule bc" and "wf_ttir bc e" and "index_of (shapeOf e) i"
  shows "\<exists>v. eval sc e i = Some v"
  using eval_total[OF assms(1), of e i sc] assms(2,3) by auto

lemma demoProgram_wf: "wf_ttir numpyBroadcast demoProgram"
  by code_simp

definition demoScalars :: "int scalars" where
  "demoScalars = \<lparr>scArg = \<lambda>n i. sum_list i, scUnary = \<lambda>u x. x, scBinary = \<lambda>b x y. x + y,
     scCast = \<lambda>a b x. x, scPad = \<lambda>_. 0, scInt = \<lambda>n. n,
     scMul = \<lambda>x y. x * y, scAdd = \<lambda>x y. x + y, scSum = sum_list\<rparr>"

theorem verified_programs_have_values_witness: "\<exists>v. eval demoScalars demoProgram [1, 2] = Some v"
  by (rule verified_programs_have_values[OF numpyBroadcast_rule demoProgram_wf]) code_simp

text \<open>The verifier of the transpose looks at the two dimensions it exchanges only: changing any
  other dimension of the result type of an accepted op is accepted as well. (The same holds of the
  index, select and concat verifiers.)\<close>

theorem transpose_verifier_ignores_other_dims:
  assumes "transposeVerify dim0 dim1 x ty = Inr ()" and "valid_shape (tyShape x)" and "attrsOk (TransposeOp dim0 dim1)"
    and "k \<noteq> normDim dim0 (length (tyShape x))" and "k \<noteq> normDim dim1 (length (tyShape x))"
  shows "transposeVerify dim0 dim1 x (ty\<lparr>tyShape := (tyShape ty)[k := v]\<rparr>) = Inr ()"
proof -
  have l: "int (length (tyShape x)) < 2 ^ 30" by (rule valid_length[OF assms(2)])
  have b: "- rank x \<le> dim0" "dim0 < rank x" "- rank x \<le> dim1" "dim1 < rank x"
    using assms(1) by (auto simp: transposeVerify_def Let_def checks_Inr_iff)
  have n: "(if d < 0 then i32 (d + rank x) else d) = int (normDim d (length (tyShape x)))" if "- rank x \<le> d" "d < rank x" for d
    using that l by (auto simp: normDim_def)
  show ?thesis using assms(1,4,5)
    unfolding transposeVerify_def Let_def checks_Inr_iff n[OF b(1,2)] n[OF b(3,4)] by auto
qed

theorem transpose_verifier_ignores_other_dims_witness:
  "transposeVerify 0 1 (f32Type [2, 3, 4]) (f32Type [3, 2, 5]) = Inr ()"
  using transpose_verifier_ignores_other_dims[of 0 1 "f32Type [2, 3, 4]" "f32Type [3, 2, 4]" 2 5]
  by (simp add: f32Type_def transposeVerify_def valid_shape_def attrsOk_def normDim_def checks_Inr_iff)

end
