(* ===== verification/TTIRFold.thy ===== *)
theory TTIRFold
  imports TTIRSafe
begin

text \<open>
  The folders and canonicalization patterns of the TTIR ops (\<open>TTIROps.cpp\<close>, \<open>TTIRTraits.cpp\<close>).
  A folder returns \<open>None\<close> when it does not apply, and otherwise the expression that takes the
  op's place: an operand (\<open>return getInput()\<close>), or the op with the attributes or the operand
  it has set in place. Two uses of one value are two equal expressions.
\<close>

section \<open>Traits\<close>

text \<open>The ops with \<open>TTIR_Involution\<close>, \<open>TTIR_Idempotence\<close> and \<open>TTIR_BinaryIdempotence\<close>.\<close>

fun involution :: "unary_op \<Rightarrow> bool" where
  "involution BitwiseNotOp = True" | "involution NegOp = True" | "involution ReciprocalOp = True"
| "involution u = False"

fun idempotence :: "unary_op \<Rightarrow> bool" where
  "idempotence AbsOp = True" | "idempotence CeilOp = True" | "idempotence FloorOp = True"
| "idempotence ReluOp = True" | "idempotence SignOp = True" | "idempotence u = False"

fun binaryIdempotence :: "binary_op \<Rightarrow> bool" where
  "binaryIdempotence LogicalAndOp = True" | "binaryIdempotence LogicalOrOp = True"
| "binaryIdempotence BitwiseAndOp = True" | "binaryIdempotence BitwiseOrOp = True"
| "binaryIdempotence MinimumOp = True" | "binaryIdempotence b = False"

text \<open>The output operand of a DPS op has the type of the result.\<close>

fun operandAndResultSameType :: "ttir \<Rightarrow> bool" where
  "operandAndResultSameType (Op a xs ty) \<longleftrightarrow> (\<forall>x \<in> set xs. typeOf x = ty)"
| "operandAndResultSameType (Arg n ty) = False"

fun sameUnary :: "unary_op \<Rightarrow> ttir \<Rightarrow> bool" where
  "sameUnary u (Op (UnaryOp u') [y] ty) \<longleftrightarrow> u' = u"
| "sameUnary u x = False"

definition verifyInvolution :: "unary_op \<Rightarrow> ttir \<Rightarrow> ttir_type \<Rightarrow> bool" where
  "verifyInvolution u x ty \<longleftrightarrow> operandAndResultSameType (Op (UnaryOp u) [x] ty)
     \<and> sameUnary u x \<and> operandAndResultSameType x"

definition verifyIdempotence :: "unary_op \<Rightarrow> ttir \<Rightarrow> ttir_type \<Rightarrow> bool" where
  "verifyIdempotence u x ty \<longleftrightarrow> operandAndResultSameType (Op (UnaryOp u) [x] ty)
     \<and> sameUnary u x \<and> operandAndResultSameType x"

definition verifyBinaryIdempotence :: "ttir \<Rightarrow> ttir \<Rightarrow> ttir_type \<Rightarrow> bool" where
  "verifyBinaryIdempotence x y ty \<longleftrightarrow> x = y \<and> ty = typeOf x"

fun operand0 :: "ttir \<Rightarrow> ttir" where
  "operand0 (Op a (x # xs) ty) = x"
| "operand0 x = x"

section \<open>Transpose\<close>

definition sortTransposeDims :: "int \<Rightarrow> int \<Rightarrow> (int \<times> int) option" where
  "sortTransposeDims dim0 dim1 = (if dim0 < dim1 then None else Some (dim1, dim0))"

definition forcePositiveTransposeDims :: "int \<Rightarrow> int \<Rightarrow> int \<Rightarrow> (int \<times> int) option" where
  "forcePositiveTransposeDims rank' dim0 dim1 =
     (if 0 \<le> dim0 \<and> 0 \<le> dim1 then None
      else if dim0 < 0 then Some (i32 (dim0 + rank'), dim1)
      else if dim1 < 0 then Some (dim0, i32 (dim1 + rank'))
      else Some (dim0, dim1))"

fun foldInverseTransposeOperand :: "int \<Rightarrow> int \<Rightarrow> ttir \<Rightarrow> ttir option" where
  "foldInverseTransposeOperand dim0 dim1 (Op (TransposeOp a b) [y] ty) = (if dim0 = a \<and> dim1 = b then Some y else None)"
| "foldInverseTransposeOperand dim0 dim1 x = None"

definition transposeFold :: "int \<Rightarrow> int \<Rightarrow> ttir \<Rightarrow> ttir_type \<Rightarrow> ttir option" where
  "transposeFold dim0 dim1 x ty =
     (if dim0 = dim1 then Some x
      else case sortTransposeDims dim0 dim1 of
        Some (a, b) \<Rightarrow> Some (Op (TransposeOp a b) [x] ty)
      | None \<Rightarrow>
          (case forcePositiveTransposeDims (rank (typeOf x)) dim0 dim1 of
             Some (a, b) \<Rightarrow> Some (Op (TransposeOp a b) [x] ty)
           | None \<Rightarrow> foldInverseTransposeOperand dim0 dim1 x))"

section \<open>Reshape, permute, reverse, typecast\<close>

fun foldConsecutiveReshape :: "int list \<Rightarrow> ttir \<Rightarrow> ttir_type \<Rightarrow> ttir option" where
  "foldConsecutiveReshape shp (Op (ReshapeOp shp') [y] ty') ty = Some (Op (ReshapeOp shp) [y] ty)"
| "foldConsecutiveReshape shp x ty = None"

definition reshapeFold :: "int list \<Rightarrow> ttir \<Rightarrow> ttir_type \<Rightarrow> ttir option" where
  "reshapeFold shp x ty = (if ty = typeOf x then Some x else foldConsecutiveReshape shp x ty)"

text \<open>\<open>applyPermutation\<close> on the verified permutations, where no access is out of range.\<close>

fun foldConsecutivePermute :: "int list \<Rightarrow> ttir \<Rightarrow> ttir_type \<Rightarrow> ttir option" where
  "foldConsecutivePermute permutation (Op (PermuteOp producer) [y] ty') ty =
     (case applyPermutation producer (map nat permutation) of
        Inl _ \<Rightarrow> None
      | Inr composedPermutation \<Rightarrow> Some (Op (PermuteOp composedPermutation) [y] ty))"
| "foldConsecutivePermute permutation x ty = None"

definition permuteFold :: "int list \<Rightarrow> ttir \<Rightarrow> ttir_type \<Rightarrow> ttir option" where
  "permuteFold permutation x ty =
     (if sorted permutation then Some x else foldConsecutivePermute permutation x ty)"

text \<open>The bit vector of \<open>ReverseOp\<close>'s canonicalization: a bit per dimension, flipped by each use.\<close>

fun flipAll :: "int list \<Rightarrow> bool list \<Rightarrow> bool list" where
  "flipAll [] bits = bits"
| "flipAll (dim # dims) bits = flipAll dims (bits[nat dim := \<not> bits ! nat dim])"

definition setIndices :: "bool list \<Rightarrow> int list" where
  "setIndices bits = map int (filter (\<lambda>i. bits ! i) [0..<length bits])"

fun mergeReverse :: "ttir \<Rightarrow> ttir option" where
  "mergeReverse (Op (ReverseOp ds) [Op (ReverseOp ds') [y] ty'] ty) =
     Some (Op (ReverseOp (setIndices (flipAll ds' (flipAll ds (replicate (length (tyShape ty')) False))))) [y] ty)"
| "mergeReverse e = None"

fun dropReverse :: "ttir \<Rightarrow> ttir option" where
  "dropReverse (Op (ReverseOp ds) [x] ty) = (if ds \<noteq> [] then None else Some x)"
| "dropReverse e = None"

fun typecastCanonicalize :: "ttir \<Rightarrow> ttir option" where
  "typecastCanonicalize (Op TypecastOp [Op TypecastOp [y] ty'] ty) = Some (Op TypecastOp [y] ty)"
| "typecastCanonicalize e = None"

definition typecastFold :: "ttir \<Rightarrow> ttir_type \<Rightarrow> ttir option" where
  "typecastFold x ty = (if ty = typeOf x then Some x else None)"

definition broadcastFold :: "int list \<Rightarrow> ttir \<Rightarrow> ttir option" where
  "broadcastFold broadcastDimensions x = (if list_all (\<lambda>dim. dim = 1) broadcastDimensions then Some x else None)"

lemmas simple_folds [simp] = typecastFold_def broadcastFold_def

section \<open>The folders\<close>

fun fold :: "ttir \<Rightarrow> ttir option" where
  "fold (Op (UnaryOp u) [x] ty) =
     (if involution u \<and> verifyInvolution u x ty then Some (operand0 x)
      else if idempotence u \<and> verifyIdempotence u x ty then Some x
      else None)"
| "fold (Op (BinaryOp b) [x, y] ty) =
     (if binaryIdempotence b \<and> verifyBinaryIdempotence x y ty then Some x else None)"
| "fold (Op (BroadcastOp broadcastDimensions) [x] ty) = broadcastFold broadcastDimensions x"
| "fold (Op TypecastOp [x] ty) = typecastFold x ty"
| "fold (Op (ReshapeOp shp) [x] ty) = reshapeFold shp x ty"
| "fold (Op (TransposeOp dim0 dim1) [x] ty) = transposeFold dim0 dim1 x ty"
| "fold (Op (PermuteOp p) [x] ty) = permuteFold p x ty"
| "fold e = None"

section \<open>Laws of the scalars\<close>

text \<open>What the traits promise of the element functions.\<close>

definition lawful :: "'a scalars \<Rightarrow> bool" where
  "lawful sc \<longleftrightarrow> (\<forall>u x. involution u \<longrightarrow> scUnary sc u (scUnary sc u x) = x)
     \<and> (\<forall>u x. idempotence u \<longrightarrow> scUnary sc u (scUnary sc u x) = scUnary sc u x)
     \<and> (\<forall>b x. binaryIdempotence b \<longrightarrow> scBinary sc b x x = x)
     \<and> (\<forall>t x. scCast sc t t x = x)"

definition same_value :: "'a scalars \<Rightarrow> ttir \<Rightarrow> ttir \<Rightarrow> bool" where
  "same_value sc e e' \<longleftrightarrow> shapeOf e' = shapeOf e \<and> (\<forall>i. index_of (shapeOf e) i \<longrightarrow> eval sc e' i = eval sc e i)"

lemma same_value_refl [simp]: "same_value sc e e"
  by (simp add: same_value_def)

lemma same_value_trans: "same_value sc a b \<Longrightarrow> same_value sc b c \<Longrightarrow> same_value sc a c"
  by (simp add: same_value_def)

section \<open>Each rewriting is sound\<close>

text \<open>The value of an op that copies.\<close>

lemma eval_copy:
  assumes "wf_ttir bc (Op a [x] ty)" and "broadcast_rule bc" and "copies a" and "index_of (tyShape ty) i"
  shows "eval sc (Op a [x] ty) i = eval sc x (source a (shapeOf x) (tyShape ty) i)"
    and "index_of (shapeOf x) (source a (shapeOf x) (tyShape ty) i)"
proof -
  show in': "index_of (shapeOf x) (source a (shapeOf x) (tyShape ty) i)"
    using source_in[of bc a "typeOf x" ty i] assms wf_valid[of bc x] by simp
  have "evalOp sc a [(typeOf x, eval sc x)] ty i = readAt [(typeOf x, eval sc x)] 0 (source a (shapeOf x) (tyShape ty) i)"
    using assms(3) by (cases a) auto
  with in' show "eval sc (Op a [x] ty) i = eval sc x (source a (shapeOf x) (tyShape ty) i)" by (simp add: readAt_def)
qed

lemma broadcastIndex_same: "index_of s i \<Longrightarrow> broadcastIndex s s i = i"
  by (rule nth_equalityI) (force simp: broadcastIndex_def index_of_iff)+

lemma eval_unary_same:
  "typeOf x = ty \<Longrightarrow> index_of (tyShape ty) i \<Longrightarrow> eval sc (Op (UnaryOp u) [x] ty) i = map_option (scUnary sc u) (eval sc x i)"
  by (auto simp: broadcastIndex_same readAt_def)

text \<open>An op without effect on shape and indices is its operand.\<close>

lemma copy_identity:
  assumes "wf_ttir bc (Op a [x] ty)" and "broadcast_rule bc" and "copies a" and "tyShape ty = shapeOf x"
    and "\<And>i. index_of (shapeOf x) i \<Longrightarrow> source a (shapeOf x) (shapeOf x) i = i"
  shows "wf_ttir bc x \<and> same_value sc (Op a [x] ty) x"
  using assms eval_copy(1)[OF assms(1-3), of _ sc] by (auto simp: same_value_def)

lemma broadcast_fold_sound:
  assumes "wf_ttir bc (Op (BroadcastOp ds) [x] ty)" and "broadcast_rule bc" and "list_all (\<lambda>dim. dim = 1) ds"
  shows "wf_ttir bc x \<and> same_value sc (Op (BroadcastOp ds) [x] ty) x"
proof (rule copy_identity[OF assms(1,2)])
  from assms(1) have "broadcastVerify bc ds (typeOf x) ty = Inr ()" by simp
  then have l: "length (shapeOf x) = length (tyShape ty)" "length ds = length (shapeOf x)"
    and m: "\<forall>k < length (shapeOf x). shapeOf x ! k * ds ! k = tyShape ty ! k"
    by (auto simp: broadcastVerify_def checks_Inr_iff)
  then show "tyShape ty = shapeOf x" using assms(3) by (intro nth_equalityI) (auto simp: list_all_length)
  fix i assume i: "index_of (shapeOf x) i"
  then show "source (BroadcastOp ds) (shapeOf x) (shapeOf x) i = i"
    by (intro nth_equalityI) (force simp: index_of_iff)+
qed simp

lemma reshape_identity_sound:
  assumes "wf_ttir bc (Op (ReshapeOp shp) [x] ty)" and "broadcast_rule bc" and "tyShape ty = shapeOf x"
  shows "wf_ttir bc x \<and> same_value sc (Op (ReshapeOp shp) [x] ty) x"
proof (rule copy_identity[OF assms(1,2) _ assms(3)])
  fix i assume i: "index_of (shapeOf x) i"
  from assms(1) have "reshapeVerify shp (typeOf x) ty = Inr ()" by simp
  from reshape_source[OF this, of i] wf_valid[of bc x] assms(1,3) i
  show "source (ReshapeOp shp) (shapeOf x) (shapeOf x) i = i" by (auto intro: lin_inj)
qed simp

lemma reshapeVerify_volume: "reshapeVerify shp x ty = Inr () \<Longrightarrow> prod_list (tyShape x) = prod_list (tyShape ty)"
  by (auto simp: reshapeVerify_def rbind_Inr_iff checks_Inr_iff)

lemma reshapeVerify_cong:
  "prod_list (tyShape x) = prod_list (tyShape y) \<Longrightarrow> reshapeVerify shp x ty = reshapeVerify shp y ty"
  by (simp add: reshapeVerify_def)

text \<open>Two copies in a row read through both sources; a single op with the composed source replaces them.\<close>

lemma copy_copy:
  assumes "wf_ttir bc (Op a [Op b [y] ty'] ty)" and "broadcast_rule bc" and "copies a" and "copies b"
    and "wf_ttir bc (Op c [y] ty)" and "copies c"
    and "\<And>i. index_of (tyShape ty) i \<Longrightarrow>
      source b (shapeOf y) (tyShape ty') (source a (tyShape ty') (tyShape ty) i) = source c (shapeOf y) (tyShape ty) i"
  shows "wf_ttir bc (Op c [y] ty) \<and> same_value sc (Op a [Op b [y] ty'] ty) (Op c [y] ty)"
proof -
  have w: "wf_ttir bc (Op b [y] ty')" using assms(1) by simp
  have "eval sc (Op c [y] ty) i = eval sc (Op a [Op b [y] ty'] ty) i" if i: "index_of (tyShape ty) i" for i
    using eval_copy(1)[OF assms(1,2,3) i, of sc] eval_copy(2)[OF assms(1,2,3) i] eval_copy(1)[OF w assms(2,4), of _ sc]
      eval_copy(1)[OF assms(5,2,6) i, of sc] assms(7)[OF i] by (simp del: eval.simps source.simps)
  with assms(5) show ?thesis by (simp add: same_value_def del: eval.simps)
qed

lemma copy_inverse:
  assumes "wf_ttir bc (Op a [Op b [y] ty'] ty)" and "broadcast_rule bc" and "copies a" and "copies b"
    and "tyShape ty = shapeOf y"
    and "\<And>i. index_of (tyShape ty) i \<Longrightarrow>
      source b (shapeOf y) (tyShape ty') (source a (tyShape ty') (tyShape ty) i) = i"
  shows "wf_ttir bc y \<and> same_value sc (Op a [Op b [y] ty'] ty) y"
proof -
  have w: "wf_ttir bc (Op b [y] ty')" using assms(1) by simp
  have "eval sc y i = eval sc (Op a [Op b [y] ty'] ty) i" if i: "index_of (tyShape ty) i" for i
    using eval_copy(1)[OF assms(1,2,3) i, of sc] eval_copy(2)[OF assms(1,2,3) i] eval_copy(1)[OF w assms(2,4), of _ sc]
      assms(6)[OF i] by (simp del: eval.simps source.simps)
  with assms(1,5) show ?thesis by (simp add: same_value_def del: eval.simps)
qed

text \<open>An op that reads the same places can take the op's place.\<close>

lemma copy_same:
  assumes "wf_ttir bc (Op a [x] ty)" and "broadcast_rule bc" and "copies a" and "copies b"
    and "wf_ttir bc (Op b [x] ty)"
    and "\<And>i. index_of (tyShape ty) i \<Longrightarrow> source b (shapeOf x) (tyShape ty) i = source a (shapeOf x) (tyShape ty) i"
  shows "wf_ttir bc (Op b [x] ty) \<and> same_value sc (Op a [x] ty) (Op b [x] ty)"
  using assms(5,6) eval_copy(1)[OF assms(1-3), of _ sc] eval_copy(1)[OF assms(5,2,4), of _ sc]
  by (auto simp: same_value_def simp del: eval.simps source.simps)

lemma reshape_reshape_sound:
  assumes "wf_ttir bc (Op (ReshapeOp shp) [Op (ReshapeOp shp') [y] ty'] ty)" and "broadcast_rule bc"
  shows "wf_ttir bc (Op (ReshapeOp shp) [y] ty)
    \<and> same_value sc (Op (ReshapeOp shp) [Op (ReshapeOp shp') [y] ty'] ty) (Op (ReshapeOp shp) [y] ty)"
proof (rule copy_copy[OF assms])
  have v: "reshapeVerify shp' (typeOf y) ty' = Inr ()" "reshapeVerify shp ty' ty = Inr ()" using assms(1) by auto
  have "reshapeVerify shp (typeOf y) ty = Inr ()" using v reshapeVerify_volume[OF v(1)] reshapeVerify_cong by metis
  then show "wf_ttir bc (Op (ReshapeOp shp) [y] ty)" using assms(1) by simp
  fix i assume i: "index_of (tyShape ty) i"
  have "valid_shape (tyShape ty')" using assms(1) by simp
  from reshape_source(2)[OF v(2) this i]
  show "source (ReshapeOp shp') (shapeOf y) (tyShape ty') (source (ReshapeOp shp) (tyShape ty') (tyShape ty) i)
      = source (ReshapeOp shp) (shapeOf y) (tyShape ty) i" by simp
qed simp_all

section \<open>Transpose\<close>

lemma swapAt_same [simp]: "swapAt a a xs = xs"
  by (simp add: swapAt_def)

lemma swapAt_commute: "a < length xs \<Longrightarrow> b < length xs \<Longrightarrow> swapAt a b xs = swapAt b a xs"
  by (rule nth_equalityI) (auto simp: swapAt_nth)

lemma swapAt_swapAt: "a < length xs \<Longrightarrow> b < length xs \<Longrightarrow> swapAt a b (swapAt a b xs) = xs"
  by (rule nth_equalityI) (auto simp: swapAt_nth)

lemma transpose_wf:
  assumes "wf_ttir bc (Op (TransposeOp a b) [x] ty)"
  shows "transposeVerify a b (typeOf x) ty = Inr ()"
    and "tyShape ty = swapAt (normDim a (length (shapeOf x))) (normDim b (length (shapeOf x))) (shapeOf x)"
proof -
  show v: "transposeVerify a b (typeOf x) ty = Inr ()" using assms by simp
  show "tyShape ty = swapAt (normDim a (length (shapeOf x))) (normDim b (length (shapeOf x))) (shapeOf x)"
    using assms transposeVerify_dims(1)[OF v] by simp
qed

lemma transpose_identity_sound:
  assumes "wf_ttir bc (Op (TransposeOp a a) [x] ty)" and "broadcast_rule bc"
  shows "wf_ttir bc x \<and> same_value sc (Op (TransposeOp a a) [x] ty) x"
  by (rule copy_identity[OF assms]) (use transpose_wf(2)[OF assms(1)] in simp_all)

lemma transpose_sort_sound:
  assumes "wf_ttir bc (Op (TransposeOp a b) [x] ty)" and "broadcast_rule bc"
  shows "wf_ttir bc (Op (TransposeOp b a) [x] ty) \<and> same_value sc (Op (TransposeOp a b) [x] ty) (Op (TransposeOp b a) [x] ty)"
proof -
  note v = transpose_wf[OF assms(1)]
  note d = transposeVerify_dims[OF v(1)]
  have "transposeVerify b a (typeOf x) ty = Inr ()"
    using v(1) by (simp add: transposeVerify_def Let_def checks_Inr_iff)
  then have w: "wf_ttir bc (Op (TransposeOp b a) [x] ty)"
    using assms(1) d v(2) swapAt_commute[of "normDim a (length (shapeOf x))" "shapeOf x" "normDim b (length (shapeOf x))"]
    by (auto simp: attrsOk_def)
  show ?thesis
  proof (rule copy_same[OF assms _ _ w])
    fix i assume "index_of (tyShape ty) i"
    then show "source (TransposeOp b a) (shapeOf x) (tyShape ty) i = source (TransposeOp a b) (shapeOf x) (tyShape ty) i"
      using d index_of_length[of "tyShape ty" i]
        swapAt_commute[of "normDim a (length (shapeOf x))" i "normDim b (length (shapeOf x))"] by simp
  qed simp_all
qed

lemma normDim_idem: "normDim dim n < n \<Longrightarrow> normDim (int (normDim dim n)) n = normDim dim n"
  by (simp add: normDim_def)

text \<open>Making a dimension of a verified transpose positive does not wrap.\<close>

lemma transpose_dims_pos:
  assumes "wf_ttir bc (Op (TransposeOp a b) [x] ty)"
  shows "a < 0 \<Longrightarrow> i32 (a + rank (typeOf x)) = int (normDim a (length (shapeOf x)))"
    and "b < 0 \<Longrightarrow> i32 (b + rank (typeOf x)) = int (normDim b (length (shapeOf x)))"
proof -
  from assms have "rank (typeOf x) < 2 ^ 30" using wf_valid[of bc x] valid_length by simp
  moreover have "- rank (typeOf x) \<le> a" "- rank (typeOf x) \<le> b"
    using transpose_wf(1)[OF assms] by (auto simp: transposeVerify_def Let_def checks_Inr_iff)
  ultimately show "a < 0 \<Longrightarrow> i32 (a + rank (typeOf x)) = int (normDim a (length (shapeOf x)))"
    "b < 0 \<Longrightarrow> i32 (b + rank (typeOf x)) = int (normDim b (length (shapeOf x)))" by (auto simp: normDim_def)
qed

lemma transposeVerify_norm:
  assumes "transposeVerify a b x ty = Inr ()" and "a' = a \<or> a' = int (normDim a (length (tyShape x)))"
    and "b' = b \<or> b' = int (normDim b (length (tyShape x)))" and "valid_shape (tyShape x)"
    and "normDim a (length (tyShape x)) < length (tyShape x)" "normDim b (length (tyShape x)) < length (tyShape x)"
  shows "transposeVerify a' b' x ty = Inr ()"
proof -
  have l: "int (length (tyShape x)) < 2 ^ 30" by (rule valid_length[OF assms(4)])
  have bounds: "- rank x \<le> a" "- rank x \<le> b" "a < rank x" "b < rank x"
    using assms(1) by (auto simp: transposeVerify_def Let_def checks_Inr_iff)
  have n: "(if d < 0 then i32 (d + rank x) else d) = int (normDim d (length (tyShape x)))"
    if "- rank x \<le> d" "d < rank x" for d
    using that l by (auto simp: normDim_def)
  have a': "- rank x \<le> a'" "a' < rank x" "normDim a' (length (tyShape x)) = normDim a (length (tyShape x))"
    and b': "- rank x \<le> b'" "b' < rank x" "normDim b' (length (tyShape x)) = normDim b (length (tyShape x))"
    using assms bounds normDim_idem by auto
  show ?thesis using assms(1) bounds a'(1,2) b'(1,2)
    unfolding transposeVerify_def Let_def checks_Inr_iff n[OF bounds(1,3)] n[OF bounds(2,4)] n[OF a'(1,2)] n[OF b'(1,2)] a'(3) b'(3)
    by auto
qed

lemma transpose_positive_sound:
  assumes "wf_ttir bc (Op (TransposeOp a b) [x] ty)" and "broadcast_rule bc"
    and "forcePositiveTransposeDims (rank (typeOf x)) a b = Some (a', b')"
  shows "wf_ttir bc (Op (TransposeOp a' b') [x] ty) \<and> same_value sc (Op (TransposeOp a b) [x] ty) (Op (TransposeOp a' b') [x] ty)"
proof -
  let ?n = "length (shapeOf x)"
  note v = transpose_wf[OF assms(1)]
  note d = transposeVerify_dims[OF v(1)]
  have ab: "a' = a \<or> a' = int (normDim a ?n)" "b' = b \<or> b' = int (normDim b ?n)"
    using assms(3) transpose_dims_pos[OF assms(1)] by (auto simp: forcePositiveTransposeDims_def split: if_splits)
  then have same: "normDim a' ?n = normDim a ?n" "normDim b' ?n = normDim b ?n" using d normDim_idem by auto
  have vx: "valid_shape (shapeOf x)" using assms(1) wf_valid[of bc x] by simp
  then have "int ?n < 2 ^ 30" by (rule valid_length)
  then have "attrsOk (TransposeOp a' b')" using assms(1) ab d by (auto simp: attrsOk_def)
  moreover have "transposeVerify a' b' (typeOf x) ty = Inr ()" by (rule transposeVerify_norm[OF v(1) ab vx d(2,3)])
  ultimately have w: "wf_ttir bc (Op (TransposeOp a' b') [x] ty)" using assms(1) v(2) d(1) same by simp
  show ?thesis by (rule copy_same[OF assms(1,2) _ _ w]) (simp_all add: same)
qed

lemma transpose_inverse_sound:
  assumes "wf_ttir bc (Op (TransposeOp a b) [Op (TransposeOp a b) [y] ty'] ty)" and "broadcast_rule bc"
  shows "wf_ttir bc y \<and> same_value sc (Op (TransposeOp a b) [Op (TransposeOp a b) [y] ty'] ty) y"
proof -
  have w: "wf_ttir bc (Op (TransposeOp a b) [y] ty')" using assms(1) by simp
  note v = transpose_wf[OF assms(1)] and u = transpose_wf[OF w]
  note d = transposeVerify_dims[OF u(1)] transposeVerify_dims[OF v(1)]
  show ?thesis
  proof (rule copy_inverse[OF assms])
    show "tyShape ty = shapeOf y" using v(2) u(2) d by (simp add: swapAt_swapAt)
    fix i assume "index_of (tyShape ty) i"
    then show "source (TransposeOp a b) (shapeOf y) (tyShape ty') (source (TransposeOp a b) (tyShape ty') (tyShape ty) i) = i"
      using index_of_length[of "tyShape ty" i] d by (simp add: swapAt_swapAt)
  qed simp_all
qed

lemma transposeFold_sound:
  assumes "wf_ttir bc (Op (TransposeOp a b) [x] ty)" and "broadcast_rule bc" and "transposeFold a b x ty = Some e'"
  shows "wf_ttir bc e' \<and> same_value sc (Op (TransposeOp a b) [x] ty) e'"
proof -
  show ?thesis
  proof (cases "a = b")
    case True
    then show ?thesis using transpose_identity_sound[of bc b x ty sc] assms
      by (simp add: transposeFold_def del: wf_ttir.simps)
  next
    case ab: False
    show ?thesis
    proof (cases "a < b")
      case False
      then show ?thesis using transpose_sort_sound[OF assms(1,2), of sc] assms(3) ab
        by (simp add: transposeFold_def sortTransposeDims_def del: wf_ttir.simps)
    next
      case True
      show ?thesis
      proof (cases "forcePositiveTransposeDims (rank (typeOf x)) a b")
        case (Some d)
        then show ?thesis using transpose_positive_sound[OF assms(1,2), of "fst d" "snd d" sc] assms(3) ab True
          by (simp add: transposeFold_def sortTransposeDims_def split: prod.splits del: wf_ttir.simps)
      next
        case None
        then have "foldInverseTransposeOperand a b x = Some e'" using assms(3) ab True
          by (simp add: transposeFold_def sortTransposeDims_def)
        then obtain ty' where "x = Op (TransposeOp a b) [e'] ty'"
          by (cases "(a, b, x)" rule: foldInverseTransposeOperand.cases) (auto split: if_splits)
        then show ?thesis using transpose_inverse_sound[of bc a b e' ty' ty sc] assms(1,2)
          by (simp del: wf_ttir.simps)
      qed
    qed
  qed
qed

section \<open>Permute\<close>

lemma sorted_permutation:
  assumes "is_permutation p n" and "sorted p"
  shows "p = map int [0..<n]"
  using assms by (simp add: is_permutation_def sorted_sort_id)

lemma posOf_unique: "is_permutation p n \<Longrightarrow> j < n \<Longrightarrow> p ! j = int d \<Longrightarrow> d < n \<Longrightarrow> posOf p d = j"
  using is_permutation_set[of p n] posOf_correct[of p n d] nth_eq_iff_index_eq by metis

lemma permute_identity_sound:
  assumes "wf_ttir bc (Op (PermuteOp p) [x] ty)" and "broadcast_rule bc" and "sorted p"
  shows "wf_ttir bc x \<and> same_value sc (Op (PermuteOp p) [x] ty) x"
proof (rule copy_identity[OF assms(1,2)])
  have "permuteVerify p (typeOf x) ty = Inr (Inr ())" using assms(1) by simp
  note ps = permuteVerify_shape[OF this]
  note p = sorted_permutation[OF ps(1) assms(3)]
  show "tyShape ty = shapeOf x" unfolding ps(2) p by (simp add: o_def map_nth)
  fix i assume i: "index_of (shapeOf x) i"
  have "posOf p d = d" if "d < length (shapeOf x)" for d using posOf_unique[OF ps(1) that _ that] that by (simp add: p)
  then show "source (PermuteOp p) (shapeOf x) (shapeOf x) i = i"
    using index_of_length[OF i] by (intro nth_equalityI) auto
qed simp

lemma foldConsecutivePermute_composed:
  assumes "is_permutation p n" and "is_permutation q n"
  shows "applyPermutation p (map nat q) = Inr (map (\<lambda>d. p ! nat d) q)"
    and "is_permutation (map (\<lambda>d. p ! nat d) q) n"
    and "d < n \<Longrightarrow> posOf (map (\<lambda>d. p ! nat d) q) d = posOf q (posOf p d)"
proof -
  note ps = is_permutation_set[OF assms(1)] and qs = is_permutation_set[OF assms(2)]
  show "applyPermutation p (map nat q) = Inr (map (\<lambda>d. p ! nat d) q)" using permutation_apply[of q p] assms(2) ps by simp
  have nth: "(\<lambda>k. p ! k) ` {0..<n} = set p" using ps by (auto simp: set_conv_nth)
  have "set (map (\<lambda>d. p ! nat d) q) = (\<lambda>d. p ! nat d) ` int ` {0..<n}" using qs by simp
  also have "\<dots> = (\<lambda>k. p ! k) ` {0..<n}" by (simp only: image_image nat_int)
  finally have s: "set (map (\<lambda>d. p ! nat d) q) = int ` {0..<n}" using ps nth by simp
  moreover have "distinct (map (\<lambda>d. p ! nat d) q)" using s qs ps by (intro card_distinct) (simp add: card_image)
  ultimately have "sort (map (\<lambda>d. p ! nat d) q) = map int [0..<n]"
    by (intro sorted_distinct_set_unique) (auto simp: distinct_map sorted_map)
  then show perm: "is_permutation (map (\<lambda>d. p ! nat d) q) n" using qs by (simp add: is_permutation_def)
  assume d: "d < n"
  show "posOf (map (\<lambda>d. p ! nat d) q) d = posOf q (posOf p d)"
    using posOf_correct[OF assms(1) d] posOf_correct[OF assms(2), of "posOf p d"] d qs
    by (intro posOf_unique[OF perm]) auto
qed

lemma permute_permute_sound:
  assumes "wf_ttir bc (Op (PermuteOp q) [Op (PermuteOp p) [y] ty'] ty)" and "broadcast_rule bc"
    and "foldConsecutivePermute q (Op (PermuteOp p) [y] ty') ty = Some e'"
  shows "wf_ttir bc e' \<and> same_value sc (Op (PermuteOp q) [Op (PermuteOp p) [y] ty'] ty) e'"
proof -
  have v: "permuteVerify p (typeOf y) ty' = Inr (Inr ())" "permuteVerify q ty' ty = Inr (Inr ())" using assms(1) by auto
  note ps = permuteVerify_shape[OF v(1)] and qs = permuteVerify_shape[OF v(2)]
  let ?n = "length (shapeOf y)"
  have n: "length (tyShape ty') = ?n" using ps is_permutation_set[OF ps(1)] by simp
  note q = qs(1)[unfolded n]
  note c = foldConsecutivePermute_composed[OF ps(1) q]
  let ?c = "map (\<lambda>d. p ! nat d) q"
  have e': "e' = Op (PermuteOp ?c) [y] ty" using assms(3) c(1) by simp
  have "tyShape ty = map (\<lambda>d. shapeOf y ! nat d) ?c"
    unfolding qs(2) ps(2) using is_permutation_set[OF q] is_permutation_set[OF ps(1)] by auto
  moreover have "applyPermutation (shapeOf y) (map nat ?c) = Inr (map (\<lambda>d. shapeOf y ! nat d) ?c)"
    by (rule permutation_apply[OF c(2)])
  ultimately have "permuteVerify ?c (typeOf y) ty = Inr (Inr ())" using c(2) by (simp add: permuteVerify_def checks_Inr_iff)
  then have w: "wf_ttir bc (Op (PermuteOp ?c) [y] ty)" using assms(1) by (simp add: attrsOk_def)
  show ?thesis unfolding e'
  proof (rule copy_copy[OF assms(1,2) _ _ w])
    fix i assume "index_of (tyShape ty) i"
    show "source (PermuteOp p) (shapeOf y) (tyShape ty') (source (PermuteOp q) (tyShape ty') (tyShape ty) i)
        = source (PermuteOp ?c) (shapeOf y) (tyShape ty) i"
      using c(3) posOf_correct(1)[OF ps(1)] n by simp
  qed simp_all
qed

section \<open>Reverse\<close>

lemma flipAll_length [simp]: "length (flipAll ds bits) = length bits"
  by (induction ds bits rule: flipAll.induct) auto

text \<open>Distinct dimensions in range flip each their bit once.\<close>

lemma flipAll_nth:
  assumes "distinct ds" and "\<forall>d \<in> set ds. 0 \<le> d \<and> d < int (length bits)" and "k < length bits"
  shows "flipAll ds bits ! k = (bits ! k \<noteq> (int k \<in> set ds))"
  using assms
proof (induction ds bits rule: flipAll.induct)
  case (2 dim dims bits)
  then have "flipAll dims (bits[nat dim := \<not> bits ! nat dim]) ! k = (bits[nat dim := \<not> bits ! nat dim] ! k \<noteq> (int k \<in> set dims))"
    by simp
  with 2 show ?case by (cases "k = nat dim") auto
qed simp

lemma setIndices_set: "int k \<in> set (setIndices bits) \<longleftrightarrow> k < length bits \<and> bits ! k"
  by (auto simp: setIndices_def)

lemma setIndices_bounds: "distinct (setIndices bits)" "d \<in> set (setIndices bits) \<Longrightarrow> 0 \<le> d \<and> d < int (length bits)"
  by (auto simp: setIndices_def distinct_map)

lemma reverseVerify_iff: "reverseVerify ds x = Inr () \<longleftrightarrow> distinct ds \<and> (\<forall>d \<in> set ds. 0 \<le> d \<and> d < rank x)"
  by (auto simp: reverseVerify_def checks_Inr_iff)

lemma reverse_merge_sound:
  assumes "wf_ttir bc (Op (ReverseOp ds) [Op (ReverseOp ds') [y] ty'] ty)" and "broadcast_rule bc"
  shows "wf_ttir bc (Op (ReverseOp (setIndices (flipAll ds' (flipAll ds (replicate (length (tyShape ty')) False))))) [y] ty)
    \<and> same_value sc (Op (ReverseOp ds) [Op (ReverseOp ds') [y] ty'] ty)
        (Op (ReverseOp (setIndices (flipAll ds' (flipAll ds (replicate (length (tyShape ty')) False))))) [y] ty)"
proof (rule copy_copy[OF assms])
  let ?bits = "flipAll ds' (flipAll ds (replicate (length (tyShape ty')) False))"
  have sh: "tyShape ty' = shapeOf y" "tyShape ty = shapeOf y" using assms(1) by auto
  have d: "distinct ds" "\<forall>d \<in> set ds. 0 \<le> d \<and> d < rank ty'" "distinct ds'" "\<forall>d \<in> set ds'. 0 \<le> d \<and> d < rank (typeOf y)"
    using assms(1) by (auto simp: reverseVerify_iff)
  have bits: "?bits ! k = ((int k \<in> set ds) \<noteq> (int k \<in> set ds'))" if "k < length (shapeOf y)" for k
    using that d sh by (auto simp: flipAll_nth)
  show "wf_ttir bc (Op (ReverseOp (setIndices ?bits)) [y] ty)"
    using assms(1) setIndices_bounds[where bits = ?bits] sh by (simp add: reverseVerify_iff attrsOk_def)
  fix i assume i: "index_of (tyShape ty) i"
  show "source (ReverseOp ds') (shapeOf y) (tyShape ty') (source (ReverseOp ds) (tyShape ty') (tyShape ty) i)
      = source (ReverseOp (setIndices ?bits)) (shapeOf y) (tyShape ty) i"
    using bits sh by (intro nth_equalityI) (auto simp: setIndices_set)
qed simp_all

lemma reverse_drop_sound:
  assumes "wf_ttir bc (Op (ReverseOp []) [x] ty)" and "broadcast_rule bc"
  shows "wf_ttir bc x \<and> same_value sc (Op (ReverseOp []) [x] ty) x"
proof (rule copy_identity[OF assms])
  show "tyShape ty = shapeOf x" using assms(1) by simp
  fix i assume "index_of (shapeOf x) i"
  then show "source (ReverseOp []) (shapeOf x) (shapeOf x) i = i"
    using index_of_length by (auto intro: nth_equalityI)
qed simp

section \<open>Elementwise ops\<close>

lemma sameUnaryE:
  assumes "sameUnary u x" and "operandAndResultSameType x"
  obtains y ty where "x = Op (UnaryOp u) [y] ty" and "typeOf y = ty"
  using assms by (cases "(u, x)" rule: sameUnary.cases) auto

lemma unary_fold_sound:
  assumes "wf_ttir bc (Op (UnaryOp u) [x] ty)" and "lawful sc" and "fold (Op (UnaryOp u) [x] ty) = Some e'"
  shows "wf_ttir bc e' \<and> same_value sc (Op (UnaryOp u) [x] ty) e'"
proof -
  have "typeOf x = ty" "sameUnary u x" "operandAndResultSameType x"
    using assms(3) by (auto simp: verifyInvolution_def verifyIdempotence_def split: if_splits)
  then obtain y where x: "x = Op (UnaryOp u) [y] ty" "typeOf y = ty" using sameUnaryE by (metis typeOf.simps(2))
  have inv: "involution u \<Longrightarrow> scUnary sc u (scUnary sc u v) = v" and idem: "idempotence u \<Longrightarrow> scUnary sc u (scUnary sc u v) = scUnary sc u v" for v
    using assms(2) by (auto simp: lawful_def)
  have ex: "eval sc x i = map_option (scUnary sc u) (eval sc y i)" if "index_of (tyShape ty) i" for i
    unfolding x(1) by (rule eval_unary_same[OF x(2) that])
  have eval: "eval sc (Op (UnaryOp u) [x] ty) i = map_option (\<lambda>v. scUnary sc u (scUnary sc u v)) (eval sc y i)"
    if "index_of (tyShape ty) i" for i
    using eval_unary_same[of x ty i sc u] x(1) ex[OF that] that by (simp add: option.map_comp o_def del: eval.simps)
  show ?thesis
  proof (cases "involution u")
    case True
    then have e': "e' = y" using assms(3) x by (auto simp: verifyInvolution_def)
    have "(\<lambda>v. scUnary sc u (scUnary sc u v)) = id" using inv[OF True] by auto
    then show ?thesis using assms(1) x eval by (auto simp: same_value_def e' option.map_id simp del: eval.simps)
  next
    case False
    then have e': "e' = x" and "idempotence u" using assms(3) by (auto split: if_splits)
    then have "(\<lambda>v. scUnary sc u (scUnary sc u v)) = scUnary sc u" using idem by auto
    then show ?thesis using assms(1) x eval ex by (auto simp: same_value_def e' simp del: eval.simps)
  qed
qed

lemma binary_fold_sound:
  assumes "wf_ttir bc (Op (BinaryOp b) [x, y] ty)" and "lawful sc" and "fold (Op (BinaryOp b) [x, y] ty) = Some e'"
  shows "wf_ttir bc e' \<and> same_value sc (Op (BinaryOp b) [x, y] ty) e'"
proof -
  have e': "e' = x" "x = y" "typeOf x = ty" "binaryIdempotence b"
    using assms(3) by (auto simp: verifyBinaryIdempotence_def split: if_splits)
  then have "scBinary sc b v v = v" for v using assms(2) by (simp add: lawful_def)
  then show ?thesis using assms(1) e'
    by (auto simp: same_value_def broadcastIndex_same readAt_def map_option_case split: option.splits)
qed

lemma typecast_fold_sound:
  assumes "wf_ttir bc (Op TypecastOp [x] ty)" and "lawful sc" and "ty = typeOf x"
  shows "wf_ttir bc x \<and> same_value sc (Op TypecastOp [x] ty) x"
proof -
  have "scCast sc (tyElem ty) (tyElem ty) = id" using assms(2) by (auto simp: lawful_def)
  then show ?thesis using assms(1,3) by (auto simp: same_value_def broadcastIndex_same readAt_def option.map_id)
qed

section \<open>All folders\<close>

lemma fold_cases_sound:
  assumes "wf_ttir bc e" and "broadcast_rule bc" and "lawful sc" and "fold e = Some e'"
  shows "wf_ttir bc e' \<and> same_value sc e e'"
proof (cases e rule: fold.cases)
  case (1 u x ty)
  then show ?thesis using unary_fold_sound assms by blast
next
  case (2 b x y ty)
  then show ?thesis using binary_fold_sound assms by blast
next
  case (3 ds x ty)
  then show ?thesis using broadcast_fold_sound[of bc ds x ty sc] assms by (simp split: if_splits del: wf_ttir.simps)
next
  case (4 x ty)
  then show ?thesis using typecast_fold_sound[of bc x ty sc] assms by (simp split: if_splits del: wf_ttir.simps)
next
  case (5 shp x ty)
  show ?thesis
  proof (cases "ty = typeOf x")
    case True
    then show ?thesis using 5 reshape_identity_sound[of bc shp x ty sc] assms by (simp add: reshapeFold_def del: wf_ttir.simps)
  next
    case False
    then have "foldConsecutiveReshape shp x ty = Some e'" using 5 assms(4) by (simp add: reshapeFold_def)
    then obtain shp' y ty' where "x = Op (ReshapeOp shp') [y] ty'" "e' = Op (ReshapeOp shp) [y] ty"
      by (cases "(shp, x, ty)" rule: foldConsecutiveReshape.cases) auto
    then show ?thesis using 5 reshape_reshape_sound[of bc shp shp' y ty' ty sc] assms(1,2) by (simp del: wf_ttir.simps)
  qed
next
  case (6 a b x ty)
  then show ?thesis using transposeFold_sound[of bc a b x ty e' sc] assms by (simp del: wf_ttir.simps)
next
  case (7 p x ty)
  show ?thesis
  proof (cases "sorted p")
    case True
    then show ?thesis using 7 permute_identity_sound[of bc p x ty sc] assms by (simp add: permuteFold_def del: wf_ttir.simps)
  next
    case False
    then have f: "foldConsecutivePermute p x ty = Some e'" using 7 assms(4) by (simp add: permuteFold_def)
    then obtain q y ty' where "x = Op (PermuteOp q) [y] ty'"
      by (cases "(p, x, ty)" rule: foldConsecutivePermute.cases) auto
    then show ?thesis using 7 f permute_permute_sound[of bc p q y ty' ty e' sc] assms(1,2) by (simp del: wf_ttir.simps foldConsecutivePermute.simps)
  qed
qed (use assms(4) in simp_all)

end
