(* ===== verification/TTIRProducts.thy ===== *)
theory TTIRProducts
  imports TTIRFold
begin

text \<open>
  The canonicalization patterns of \<open>LinearOp\<close> and \<open>MatmulOp\<close> (\<open>TTIROps.cpp\<close>): a linear op without
  bias is a matrix product, and a transpose of the last two dimensions of an operand becomes
  the \<open>transpose_a\<close> or \<open>transpose_b\<close> attribute. Each is shown to keep programs verified and
  their values.
\<close>

section \<open>Patterns\<close>

fun getTransposeOpOperand :: "ttir \<Rightarrow> ttir option" where
  "getTransposeOpOperand (Op (TransposeOp dim0 dim1) [y] ty) =
     (if rank ty < 2 \<or> dim0 \<noteq> rank ty - 2 \<or> dim1 \<noteq> rank ty - 1 then None else Some y)"
| "getTransposeOpOperand x = None"

fun linearToMatmul :: "ttir \<Rightarrow> ttir option" where
  "linearToMatmul (Op (LinearOp tA tB) [a, b] ty) = Some (Op (MatmulOp tA tB) [a, b] ty)"
| "linearToMatmul e = None"

fun linearTransposeA :: "ttir \<Rightarrow> ttir option" where
  "linearTransposeA (Op (LinearOp tA tB) (a # b # bias) ty) =
     map_option (\<lambda>a'. Op (LinearOp (\<not> tA) tB) (a' # b # bias) ty) (getTransposeOpOperand a)"
| "linearTransposeA e = None"

fun linearTransposeB :: "ttir \<Rightarrow> ttir option" where
  "linearTransposeB (Op (LinearOp tA tB) (a # b # bias) ty) =
     map_option (\<lambda>b'. Op (LinearOp tA (\<not> tB)) (a # b' # bias) ty) (getTransposeOpOperand b)"
| "linearTransposeB e = None"

fun matmulTransposeA :: "ttir \<Rightarrow> ttir option" where
  "matmulTransposeA (Op (MatmulOp tA tB) [a, b] ty) =
     map_option (\<lambda>a'. Op (MatmulOp (\<not> tA) tB) [a', b] ty) (getTransposeOpOperand a)"
| "matmulTransposeA e = None"

fun matmulTransposeB :: "ttir \<Rightarrow> ttir option" where
  "matmulTransposeB (Op (MatmulOp tA tB) [a, b] ty) =
     map_option (\<lambda>b'. Op (MatmulOp tA (\<not> tB)) [a, b'] ty) (getTransposeOpOperand b)"
| "matmulTransposeB e = None"

fun_cases getTransposeOpOperandE: "getTransposeOpOperand x = Some y"

section \<open>A transposed operand\<close>

lemma swapAt_last: "swapAt (length xs) (Suc (length xs)) (xs @ [p, q]) = xs @ [q, p]"
  by (rule nth_equalityI) (auto simp: swapAt_def nth_list_update nth_append)

lemma index_of_swapAt:
  assumes "a < length s" and "b < length s"
  shows "index_of (swapAt a b s) (swapAt a b i) \<longleftrightarrow> index_of s i"
proof
  assume r: "index_of (swapAt a b s) (swapAt a b i)"
  then have "length i = length s" by (auto dest: index_of_length)
  with swapAt_index[OF r assms] assms show "index_of s i" by (simp add: swapAt_swapAt)
next
  assume i: "index_of s i"
  have "swapAt a b (swapAt a b s) = s" using assms by (rule swapAt_swapAt)
  with i swapAt_index[of a b "swapAt a b s" i] assms show "index_of (swapAt a b s) (swapAt a b i)" by simp
qed

text \<open>What a verified transpose of the last two dimensions says of the shapes and of the values.\<close>

lemma transposed:
  fixes sc :: "'a scalars"
  assumes "wf_ttir bc x" and "getTransposeOpOperand x = Some y"
  obtains n where "length (shapeOf y) = n + 2" and "shapeOf x = swapAt n (Suc n) (shapeOf y)" and "wf_ttir bc y"
    and "\<forall>j. index_of (shapeOf y) j \<longrightarrow> eval sc x (swapAt n (Suc n) j) = eval sc y j"
proof -
  from assms(2) obtain d0 d1 ty where x: "x = Op (TransposeOp d0 d1) [y] ty"
    and d: "2 \<le> rank ty" "d0 = rank ty - 2" "d1 = rank ty - 1"
    by (elim getTransposeOpOperandE) (auto split: if_splits)
  note w = transpose_wf(2)[OF assms(1)[unfolded x]]
  define n where "n = length (shapeOf y) - 2"
  have n: "length (shapeOf y) = n + 2" "d0 = int n" "d1 = int (Suc n)"
  proof -
    have "length (tyShape ty) = length (shapeOf y)" by (simp add: w)
    with d show "length (shapeOf y) = n + 2" "d0 = int n" "d1 = int (Suc n)" by (simp_all add: n_def)
  qed
  have dims: "normDim d0 (length (shapeOf y)) = n" "normDim d1 (length (shapeOf y)) = Suc n" using n by (auto simp: normDim_def)
  have s: "shapeOf x = swapAt n (Suc n) (shapeOf y)" using w by (simp add: x dims)
  show thesis
  proof (rule that[OF n(1) s])
    show "wf_ttir bc y" using assms(1) x by simp
    show "\<forall>j. index_of (shapeOf y) j \<longrightarrow> eval sc x (swapAt n (Suc n) j) = eval sc y j"
    proof (intro allI impI)
      fix j assume j: "index_of (shapeOf y) j"
      then have "length j = n + 2" using n(1) by (auto dest: index_of_length)
      then have "swapAt n (Suc n) (swapAt n (Suc n) j) = j" by (intro swapAt_swapAt) simp_all
      with j show "eval sc x (swapAt n (Suc n) j) = eval sc y j" by (simp add: x dims readAt_def)
    qed
  qed
qed

lemma transposed_read:
  assumes "wf_ttir bc x" and "getTransposeOpOperand x = Some y" and "k < length ins" and "k < length ins'"
    and "ins ! k = (typeOf x, eval sc x)" and "ins' ! k = (typeOf y, eval sc y)"
  shows "readAt ins k (p @ [r, c]) = readAt ins' k (p @ [c, r])"
proof -
  obtain n where y: "length (shapeOf y) = n + 2" "shapeOf x = swapAt n (Suc n) (shapeOf y)" "wf_ttir bc y"
    and e: "\<forall>j. index_of (shapeOf y) j \<longrightarrow> eval sc x (swapAt n (Suc n) j) = eval sc y j"
    by (rule transposed[OF assms(1,2), of sc])
  show ?thesis
  proof (cases "length p = n")
    case True
    then have j: "p @ [r, c] = swapAt n (Suc n) (p @ [c, r])" using swapAt_last by metis
    have "index_of (shapeOf x) (p @ [r, c]) \<longleftrightarrow> index_of (shapeOf y) (p @ [c, r])"
      unfolding j y(2) using y(1) by (intro index_of_swapAt) simp_all
    then show ?thesis using spec[OF e, of "p @ [c, r]"] assms(3-6) j by (simp add: readAt_def)
  next
    case False
    then have "\<not> index_of (shapeOf x) (p @ [r, c])" "\<not> index_of (shapeOf y) (p @ [c, r])" using y by (auto dest: index_of_length)
    then show ?thesis using assms(5,6) by (simp add: readAt_def)
  qed
qed

lemma transposed_matrix:
  assumes "wf_ttir bc x" and "getTransposeOpOperand x = Some y"
  shows "lhsShape t (shapeOf x) = lhsShape (\<not> t) (shapeOf y)" and "rhsShape t (shapeOf x) = rhsShape (\<not> t) (shapeOf y)"
    and "length (shapeOf x) = length (shapeOf y)" and "length (shapeOf y) \<noteq> 1"
    and "take (length (shapeOf x) - 2) (shapeOf x) = take (length (shapeOf y) - 2) (shapeOf y)"
proof -
  obtain n where y: "length (shapeOf y) = n + 2" "shapeOf x = swapAt n (Suc n) (shapeOf y)"
    using transposed[OF assms] by metis
  have "swapAt (Suc n) n (swapAt n (Suc n) (shapeOf y)) = shapeOf y" "swapAt (Suc n) n (shapeOf y) = swapAt n (Suc n) (shapeOf y)"
    using y(1) by (simp_all add: swapAt_commute[of "Suc n"] swapAt_swapAt)
  then show "lhsShape t (shapeOf x) = lhsShape (\<not> t) (shapeOf y)" "rhsShape t (shapeOf x) = rhsShape (\<not> t) (shapeOf y)"
    using y by (auto simp: lhsShape_def rhsShape_def)
  show "length (shapeOf x) = length (shapeOf y)" "length (shapeOf y) \<noteq> 1" using y by simp_all
  show "take (length (shapeOf x) - 2) (shapeOf x) = take (length (shapeOf y) - 2) (shapeOf y)"
    using y by (simp add: swapAt_def)
qed

section \<open>Each pattern is sound\<close>

lemma evalMatmul_same:
  assumes "lhsShape tA (tyShape (fst (ins ! 0))) = lhsShape tA' (tyShape (fst (ins' ! 0)))"
    and "rhsShape tB (tyShape (fst (ins ! 1))) = rhsShape tB' (tyShape (fst (ins' ! 1)))"
    and "length (tyShape (fst (ins ! 0))) = length (tyShape (fst (ins' ! 0)))"
    and "length (tyShape (fst (ins ! 1))) = length (tyShape (fst (ins' ! 1)))"
    and "\<And>bs j r k. readAt ins 0 (lhsIndex tA (tyShape (fst (ins ! 0))) bs j r k) = readAt ins' 0 (lhsIndex tA' (tyShape (fst (ins' ! 0))) bs j r k)"
    and "\<And>bs j c k. readAt ins 1 (rhsIndex tB (tyShape (fst (ins ! 1))) bs j c k) = readAt ins' 1 (rhsIndex tB' (tyShape (fst (ins' ! 1))) bs j c k)"
  shows "evalMatmul sc tA tB ins out i = evalMatmul sc tA' tB' ins' out i"
proof -
  have "matrixIndex (tyShape (fst (ins ! 0))) (tyShape (fst (ins ! 1))) i = matrixIndex (tyShape (fst (ins' ! 0))) (tyShape (fst (ins' ! 1))) i"
    using assms(3,4) by (simp only: matrixIndex_def)
  then show ?thesis by (simp only: evalMatmul_def Let_def assms(1,2,5,6))
qed

lemma evalMatmul_transposeA:
  assumes "wf_ttir bc x" and "getTransposeOpOperand x = Some y"
  shows "evalMatmul sc tA tB ((typeOf x, eval sc x) # b # rest) out i = evalMatmul sc (\<not> tA) tB ((typeOf y, eval sc y) # b # rest) out i"
proof (rule evalMatmul_same)
  note m = transposed_matrix[OF assms]
  show "readAt ((typeOf x, eval sc x) # b # rest) 0 (lhsIndex tA (tyShape (fst (((typeOf x, eval sc x) # b # rest) ! 0))) bs j r k)
      = readAt ((typeOf y, eval sc y) # b # rest) 0 (lhsIndex (\<not> tA) (tyShape (fst (((typeOf y, eval sc y) # b # rest) ! 0))) bs j r k)" for bs j r k
    using transposed_read[OF assms, of 0 "(typeOf x, eval sc x) # b # rest" "(typeOf y, eval sc y) # b # rest"] m
    by (simp add: lhsIndex_def)
qed (use transposed_matrix[OF assms] in \<open>simp_all add: readAt_def\<close>)

lemma evalMatmul_transposeB:
  assumes "wf_ttir bc x" and "getTransposeOpOperand x = Some y"
  shows "evalMatmul sc tA tB (a # (typeOf x, eval sc x) # rest) out i = evalMatmul sc tA (\<not> tB) (a # (typeOf y, eval sc y) # rest) out i"
proof (rule evalMatmul_same)
  note m = transposed_matrix[OF assms]
  show "readAt (a # (typeOf x, eval sc x) # rest) 1 (rhsIndex tB (tyShape (fst ((a # (typeOf x, eval sc x) # rest) ! 1))) bs j r k)
      = readAt (a # (typeOf y, eval sc y) # rest) 1 (rhsIndex (\<not> tB) (tyShape (fst ((a # (typeOf y, eval sc y) # rest) ! 1))) bs j r k)" for bs j r k
    using transposed_read[OF assms, of 1 "a # (typeOf x, eval sc x) # rest" "a # (typeOf y, eval sc y) # rest"] m
    by (simp add: rhsIndex_def)
qed (use transposed_matrix[OF assms] in \<open>simp_all add: readAt_def\<close>)

lemma transposed_verify:
  assumes "wf_ttir bc x" and "getTransposeOpOperand x = Some y"
  shows "matmulShape bc tA tB (shapeOf x) b = matmulShape bc (\<not> tA) tB (shapeOf y) b"
    and "matmulShape bc tA tB a (shapeOf x) = matmulShape bc tA (\<not> tB) a (shapeOf y)"
  using transposed_matrix[OF assms] by (simp_all only: matmulShape_def Let_def)

lemma linear_without_bias_sound:
  assumes "wf_ttir bc (Op (LinearOp tA tB) [a, b] ty)"
  shows "wf_ttir bc (Op (MatmulOp tA tB) [a, b] ty) \<and> same_value sc (Op (LinearOp tA tB) [a, b] ty) (Op (MatmulOp tA tB) [a, b] ty)"
  using assms by (simp add: linearVerify_def matmulVerify_def attrsOk_def same_value_def)

lemma products_sound:
  assumes "wf_ttir bc x" and "getTransposeOpOperand x = Some y"
  shows "wf_ttir bc (Op (LinearOp tA tB) (x # b # bias) ty) \<Longrightarrow> wf_ttir bc (Op (LinearOp (\<not> tA) tB) (y # b # bias) ty)
      \<and> same_value sc (Op (LinearOp tA tB) (x # b # bias) ty) (Op (LinearOp (\<not> tA) tB) (y # b # bias) ty)"
    and "wf_ttir bc (Op (LinearOp tA tB) (a # x # bias) ty) \<Longrightarrow> wf_ttir bc (Op (LinearOp tA (\<not> tB)) (a # y # bias) ty)
      \<and> same_value sc (Op (LinearOp tA tB) (a # x # bias) ty) (Op (LinearOp tA (\<not> tB)) (a # y # bias) ty)"
    and "wf_ttir bc (Op (MatmulOp tA tB) [x, b] ty) \<Longrightarrow> wf_ttir bc (Op (MatmulOp (\<not> tA) tB) [y, b] ty)
      \<and> same_value sc (Op (MatmulOp tA tB) [x, b] ty) (Op (MatmulOp (\<not> tA) tB) [y, b] ty)"
    and "wf_ttir bc (Op (MatmulOp tA tB) [a, x] ty) \<Longrightarrow> wf_ttir bc (Op (MatmulOp tA (\<not> tB)) [a, y] ty)
      \<and> same_value sc (Op (MatmulOp tA tB) [a, x] ty) (Op (MatmulOp tA (\<not> tB)) [a, y] ty)"
proof -
  have y: "wf_ttir bc y" by (rule transposed[OF assms])
  note v = transposed_verify[OF assms] and eA = evalMatmul_transposeA[OF assms, of sc] and eB = evalMatmul_transposeB[OF assms, of sc]
  show "wf_ttir bc (Op (LinearOp (\<not> tA) tB) (y # b # bias) ty)
      \<and> same_value sc (Op (LinearOp tA tB) (x # b # bias) ty) (Op (LinearOp (\<not> tA) tB) (y # b # bias) ty)"
    if "wf_ttir bc (Op (LinearOp tA tB) (x # b # bias) ty)"
  proof -
    from that have "bias = [] \<or> (\<exists>z. bias = [z])" by (auto simp: verify_accepts)
    with that y show ?thesis by (auto simp: linearVerify_def attrsOk_def same_value_def v(1) eA readAt_def split: option.split)
  qed
  show "wf_ttir bc (Op (LinearOp tA (\<not> tB)) (a # y # bias) ty)
      \<and> same_value sc (Op (LinearOp tA tB) (a # x # bias) ty) (Op (LinearOp tA (\<not> tB)) (a # y # bias) ty)"
    if "wf_ttir bc (Op (LinearOp tA tB) (a # x # bias) ty)"
  proof -
    from that have "bias = [] \<or> (\<exists>z. bias = [z])" by (auto simp: verify_accepts)
    with that y show ?thesis by (auto simp: linearVerify_def attrsOk_def same_value_def v(2) eB readAt_def split: option.split)
  qed
  show "wf_ttir bc (Op (MatmulOp (\<not> tA) tB) [y, b] ty)
      \<and> same_value sc (Op (MatmulOp tA tB) [x, b] ty) (Op (MatmulOp (\<not> tA) tB) [y, b] ty)"
    if "wf_ttir bc (Op (MatmulOp tA tB) [x, b] ty)"
    using that y by (auto simp: matmulVerify_def attrsOk_def same_value_def v(1) eA)
  show "wf_ttir bc (Op (MatmulOp tA (\<not> tB)) [a, y] ty)
      \<and> same_value sc (Op (MatmulOp tA tB) [a, x] ty) (Op (MatmulOp tA (\<not> tB)) [a, y] ty)"
    if "wf_ttir bc (Op (MatmulOp tA tB) [a, x] ty)"
    using that y by (auto simp: matmulVerify_def attrsOk_def same_value_def v(2) eB)
qed

end
