(* ===== verification/TTIRCanon.thy ===== *)
theory TTIRCanon
  imports TTIRProducts
begin

text \<open>
  The canonicalizer on TTIR: any of the folders and patterns, at any op of a program, in any
  order. Every sequence of rewritings ends, and it keeps the program verified and its value.
\<close>

section \<open>Steps\<close>

text \<open>The patterns of \<open>LinearOp\<close> and \<open>MatmulOp\<close>.\<close>

inductive product_step :: "ttir \<Rightarrow> ttir \<Rightarrow> bool" where
  "linearToMatmul e = Some e' \<Longrightarrow> product_step e e'"
| "linearTransposeA e = Some e' \<Longrightarrow> product_step e e'"
| "linearTransposeB e = Some e' \<Longrightarrow> product_step e e'"
| "matmulTransposeA e = Some e' \<Longrightarrow> product_step e e'"
| "matmulTransposeB e = Some e' \<Longrightarrow> product_step e e'"

text \<open>Merging typecasts is a parameter, because it changes values.\<close>

inductive canon_step :: "bool \<Rightarrow> ttir \<Rightarrow> ttir \<Rightarrow> bool" for merge_casts where
  folder: "fold e = Some e' \<Longrightarrow> canon_step merge_casts e e'"
| merge_reverse: "mergeReverse e = Some e' \<Longrightarrow> canon_step merge_casts e e'"
| drop_reverse: "dropReverse e = Some e' \<Longrightarrow> canon_step merge_casts e e'"
| merge_typecast: "merge_casts \<Longrightarrow> typecastCanonicalize e = Some e' \<Longrightarrow> canon_step merge_casts e e'"
| product: "product_step e e' \<Longrightarrow> canon_step merge_casts e e'"
| operand: "k < length xs \<Longrightarrow> canon_step merge_casts (xs ! k) x' \<Longrightarrow>
    canon_step merge_casts (Op a xs ty) (Op a (xs[k := x']) ty)"

text \<open>The ops that copy, concatenate or pad keep the element type.\<close>

fun keepsElem :: "ttir_op \<Rightarrow> bool" where
  "keepsElem (UnaryOp u) = False" | "keepsElem TypecastOp = False" | "keepsElem (BinaryOp b) = False"
| "keepsElem (MatmulOp tA tB) = False" | "keepsElem (LinearOp tA tB) = False" | "keepsElem (DotGeneralOp bl cl br cr) = False"
| "keepsElem a = True"

fun sameElem :: "ttir \<Rightarrow> bool" where
  "sameElem (Arg n ty) \<longleftrightarrow> True"
| "sameElem (Op a xs ty) \<longleftrightarrow> (\<forall>x \<in> set xs. sameElem x) \<and> (keepsElem a \<longrightarrow> (\<forall>x \<in> set xs. tyElem (typeOf x) = tyElem ty))"

section \<open>Rewriting an operand\<close>

definition same_type :: "ttir_type \<Rightarrow> ttir_type \<Rightarrow> bool" where
  "same_type t u \<longleftrightarrow> tyShape t = tyShape u \<and> tyElem t = tyElem u"

text \<open>The verifiers look at shapes and element types, never at encodings.\<close>

lemma verifyN_cong:
  assumes "list_all2 P xs ys"
  shows "(\<And>x y. P x y \<Longrightarrow> f x = f y) \<Longrightarrow> verify1 f xs = verify1 f ys"
    and "(\<And>x y u v. P x y \<Longrightarrow> P u v \<Longrightarrow> g x u = g y v) \<Longrightarrow> verify2 g xs = verify2 g ys"
    and "(\<And>x y u v. P x y \<Longrightarrow> P u v \<Longrightarrow> h x u None = h y v None) \<Longrightarrow>
         (\<And>x y u v z w. P x y \<Longrightarrow> P u v \<Longrightarrow> P z w \<Longrightarrow> h x u (Some z) = h y v (Some w)) \<Longrightarrow> verifyLinear h xs = verifyLinear h ys"
  using assms
  by (cases "(f, xs)" rule: verify1.cases, auto simp: list_all2_Cons1)
    (cases "(g, xs)" rule: verify2.cases, auto simp: list_all2_Cons1,
     cases "(h, xs)" rule: verifyLinear.cases, auto simp: list_all2_Cons1)

lemma concatVerify_cong:
  assumes "list_all2 same_type xs ys" and "xs \<noteq> []"
  shows "concatVerify dim xs = concatVerify dim ys"
proof (cases xs)
  case (Cons x xs')
  with assms obtain y ys' where y: "ys = y # ys'" "same_type x y" "list_all2 same_type xs' ys'" by (auto simp: list_all2_Cons1)
  have "map tyShape xs' = map tyShape ys'" using y(3) by (induction rule: list_all2_induct) (auto simp: same_type_def)
  moreover have "map (\<lambda>i. f (tyShape i)) zs = map f (map tyShape zs)" for f :: "shape \<Rightarrow> (bool \<times> string) list" and zs :: "ttir_type list" by simp
  ultimately have "map (\<lambda>i. f (tyShape i)) xs' = map (\<lambda>i. f (tyShape i)) ys'" for f :: "shape \<Rightarrow> (bool \<times> string) list" by (simp only:)
  from this[of "\<lambda>s. (int (length s) = rank x, ''All input tensors must have the same rank.'')
       # map (\<lambda>i. (\<not> (int i \<noteq> (if dim < 0 then i32 (dim + rank x) else dim) \<and> s ! i \<noteq> tyShape x ! i),
           ''All input tensors must have the same dimensions'')) [0..<length (tyShape x)]"]
  show ?thesis using y(2) by (simp add: Cons y(1) concatVerify_def same_type_def)
qed (use assms in simp)

lemmas unary_verifiers = broadcastVerify_def padVerify_def reshapeVerify_def sliceVerify_def indexVerify_def
  selectVerify_def squeezeVerify_def unsqueezeVerify_def transposeVerify_def permuteVerify_def reverseVerify_def repeatVerify_def
  repeatInterleaveVerify_def

lemma verifyOp_cong:
  assumes "list_all2 same_type xs ys"
  shows "verifyOp bc a xs ty = verifyOp bc a ys ty"
proof (cases a)
  case (ConcatOp dim)
  have "xs = [] \<longleftrightarrow> ys = []" using assms by auto
  then show ?thesis using concatVerify_cong[OF assms, of dim] ConcatOp by auto
next
  case (ArangeOp x1 x2 x3 x4)
  have "xs = [] \<longleftrightarrow> ys = []" using assms by auto
  then show ?thesis using ArangeOp by simp
next
  case (MatmulOp tA tB)
  show ?thesis unfolding MatmulOp verifyOp.simps
    by (rule verifyN_cong(2)[OF assms]) (simp add: same_type_def matmulVerify_def)
next
  case (LinearOp tA tB)
  show ?thesis unfolding LinearOp verifyOp.simps
    by (rule verifyN_cong(3)[OF assms]) (simp_all add: same_type_def linearVerify_def cong: if_cong)
next
  case (DotGeneralOp bl cl br cr)
  show ?thesis unfolding DotGeneralOp verifyOp.simps by (rule verifyN_cong(2)[OF assms]) simp
next
  case (BinaryOp b)
  show ?thesis unfolding BinaryOp verifyOp.simps by (rule verifyN_cong(2)[OF assms]) simp
qed (simp_all only: verifyOp.simps, auto intro!: verifyN_cong(1)[OF assms] simp: same_type_def unary_verifiers)

lemma evalMatmul_cong:
  assumes "\<And>k j. readAt ins k j = readAt ins' k j"
    and "tyShape (fst (ins ! 0)) = tyShape (fst (ins' ! 0))" and "tyShape (fst (ins ! 1)) = tyShape (fst (ins' ! 1))"
  shows "evalMatmul sc tA tB ins out i = evalMatmul sc tA tB ins' out i"
    and "evalDot sc bl cl br cr ins i = evalDot sc bl cl br cr ins' i"
  by (simp_all only: evalMatmul_def evalDot_def assms)

fun twoOperands :: "ttir_op \<Rightarrow> bool" where
  "twoOperands (BinaryOp b) = True" | "twoOperands (MatmulOp tA tB) = True" | "twoOperands (LinearOp tA tB) = True"
| "twoOperands (DotGeneralOp bl cl br cr) = True" | "twoOperands a = False"

lemma twoOperands_length:
  "verifyOp bc a xs ty = Inr (Inr ()) \<Longrightarrow> twoOperands a \<Longrightarrow> 2 \<le> length xs"
  by (cases a) (auto simp: verify_accepts)

lemma evalOp_cong:
  assumes "list_all2 (\<lambda>x y. same_type (fst x) (fst y) \<and> (\<forall>j. index_of (tyShape (fst x)) j \<longrightarrow> snd x j = snd y j)) ins ins'"
    and "twoOperands a \<Longrightarrow> 2 \<le> length ins"
  shows "evalOp sc a ins ty i = evalOp sc a ins' ty i"
proof -
  have l: "length ins = length ins'" using assms(1) by (rule list_all2_lengthD)
  have read: "readAt ins k j = readAt ins' k j" for k j
    using assms(1) by (auto simp: readAt_def list_all2_conv_all_nth same_type_def)
  have parts: "map (\<lambda>x. f (tyShape (fst x))) ins = map (\<lambda>x. f (tyShape (fst x))) ins'" for f :: "shape \<Rightarrow> int"
    using assms(1) by (intro nth_equalityI) (auto simp: list_all2_conv_all_nth same_type_def)
  have ty: "k < length ins \<Longrightarrow> tyShape (fst (ins ! k)) = tyShape (fst (ins' ! k))" for k
    using assms(1) by (auto simp: list_all2_conv_all_nth same_type_def)
  show ?thesis
  proof (cases "ins = []")
    case True
    with l show ?thesis by simp
  next
    case False
    then have "0 < length ins" by simp
    then have first: "tyShape (fst (ins ! 0)) = tyShape (fst (ins' ! 0))" "tyElem (fst (ins ! 0)) = tyElem (fst (ins' ! 0))"
      using assms(1) by (auto simp: list_all2_conv_all_nth same_type_def)
    have second: "tyShape (fst (ins ! 1)) = tyShape (fst (ins' ! 1))" if "twoOperands a"
      using assms(2)[OF that] by (intro ty) simp
    note mm = evalMatmul_cong[OF read first(1) second]
    show ?thesis
    proof (cases a)
      case (ConcatOp dim)
      then show ?thesis using parts[of "\<lambda>s. s ! normDim dim (length (tyShape ty))"] by (simp add: read Let_def)
    next
      case (LinearOp tA tB)
      have "tyShape (fst (ins ! 2)) = tyShape (fst (ins' ! 2))" if "\<not> length ins' \<le> 2" using that l by (intro ty) simp
      then show ?thesis using LinearOp mm(1) l by (auto simp: read split: option.split)
    next
      case (MatmulOp tA tB)
      then show ?thesis using mm(1) by simp
    next
      case (DotGeneralOp bl cl br cr)
      then show ?thesis using mm(2) by simp
    qed (use second in \<open>simp_all add: read first Let_def cong: option.case_cong\<close>)
  qed
qed

lemma operand_sound:
  assumes "wf_ttir bc (Op a xs ty)" and "k < length xs" and "wf_ttir bc x'" and "same_value sc (xs ! k) x'"
    and "tyElem (typeOf x') = tyElem (typeOf (xs ! k))"
  shows "wf_ttir bc (Op a (xs[k := x']) ty) \<and> same_value sc (Op a xs ty) (Op a (xs[k := x']) ty)"
proof -
  let ?ys = "xs[k := x']"
  have sh: "shapeOf x' = shapeOf (xs ! k)" using assms(4) by (simp add: same_value_def)
  have t: "list_all2 same_type (map typeOf xs) (map typeOf ?ys)"
    using assms(2,5) sh by (auto simp: list_all2_conv_all_nth same_type_def nth_list_update)
  have shapes: "map shapeOf ?ys = map shapeOf xs"
    using assms(2) sh by (intro nth_equalityI) (auto simp: nth_list_update)
  have "wf_ttir bc (Op a ?ys ty)"
    using assms(1,3) set_update_subset_insert[of xs k x'] verifyOp_cong[OF t] shapes by auto
  moreover have "evalOp sc a (map (\<lambda>x. (typeOf x, eval sc x)) xs) ty i = evalOp sc a (map (\<lambda>x. (typeOf x, eval sc x)) ?ys) ty i" for i
    using assms(1,2,4,5) sh twoOperands_length[of bc a "map typeOf xs" ty]
    by (intro evalOp_cong) (auto simp: list_all2_conv_all_nth same_type_def nth_list_update same_value_def)
  ultimately show ?thesis by (simp add: same_value_def del: wf_ttir.simps)
qed

section \<open>Element types\<close>

lemma transposeFold_elem:
  assumes "transposeFold a b x ty = Some e'" and "sameElem (Op (TransposeOp a b) [x] ty)"
  shows "tyElem (typeOf e') = tyElem ty \<and> sameElem e'"
proof -
  have keep: "e' = x \<or> (\<exists>a' b'. e' = Op (TransposeOp a' b') [x] ty) \<or> foldInverseTransposeOperand a b x = Some e'"
    using assms(1) unfolding transposeFold_def sortTransposeDims_def
    by (cases "a = b"; cases "a < b"; cases "forcePositiveTransposeDims (rank (typeOf x)) a b") (auto split: prod.splits)
  moreover have "foldInverseTransposeOperand a b x = Some e' \<Longrightarrow> \<exists>ty'. x = Op (TransposeOp a b) [e'] ty'"
    by (cases "(a, b, x)" rule: foldInverseTransposeOperand.cases) (auto split: if_splits)
  ultimately show ?thesis using assms(2) by auto
qed

fun_cases foldConsecutiveReshapeE: "foldConsecutiveReshape shp x ty = Some e'"
fun_cases foldConsecutivePermuteE: "foldConsecutivePermute p x ty = Some e'"

lemma fold_elem:
  assumes "fold e = Some e'" and "sameElem e"
  shows "tyElem (typeOf e') = tyElem (typeOf e) \<and> sameElem e'"
proof (cases e rule: fold.cases)
  case (1 u x ty)
  with assms(1) have "typeOf x = ty" "sameUnary u x" "operandAndResultSameType x" and e': "e' = x \<or> e' = operand0 x"
    by (auto simp: verifyInvolution_def verifyIdempotence_def split: if_splits)
  then obtain y where "x = Op (UnaryOp u) [y] ty" "typeOf y = ty" using sameUnaryE by (metis typeOf.simps(2))
  with 1 assms(2) e' show ?thesis by auto
next
  case (5 shp x ty)
  with assms(1) have "e' = x \<or> foldConsecutiveReshape shp x ty = Some e'" by (auto simp: reshapeFold_def split: if_splits)
  with 5 assms(2) show ?thesis by (auto elim!: foldConsecutiveReshapeE)
next
  case (6 a b x ty)
  then show ?thesis using assms transposeFold_elem[of a b x ty e'] by simp
next
  case (7 p x ty)
  with assms(1) have "e' = x \<or> foldConsecutivePermute p x ty = Some e'" by (auto simp: permuteFold_def split: if_splits)
  with 7 assms(2) show ?thesis by (auto elim!: foldConsecutivePermuteE split: sum.splits)
qed (use assms in \<open>auto simp: verifyBinaryIdempotence_def split: if_splits\<close>)

lemma merge_reverse_elem: "mergeReverse e = Some e' \<Longrightarrow> sameElem e \<Longrightarrow> tyElem (typeOf e') = tyElem (typeOf e) \<and> sameElem e'"
  by (cases e rule: mergeReverse.cases) auto

lemma drop_reverse_elem: "dropReverse e = Some e' \<Longrightarrow> sameElem e \<Longrightarrow> tyElem (typeOf e') = tyElem (typeOf e) \<and> sameElem e'"
  by (cases e rule: dropReverse.cases) (auto split: if_splits)

lemma merge_typecast_elem:
  "typecastCanonicalize e = Some e' \<Longrightarrow> sameElem e \<Longrightarrow> tyElem (typeOf e') = tyElem (typeOf e) \<and> sameElem e'"
  by (cases e rule: typecastCanonicalize.cases) auto

text \<open>What the patterns of the matrix products have in common: they keep the program and its value,
  they take a transpose away or turn a linear op into a product.\<close>

inductive product_shape :: "ttir \<Rightarrow> ttir \<Rightarrow> bool" where
  "product_shape (Op (LinearOp tA tB) [a, b] ty) (Op (MatmulOp tA tB) [a, b] ty)"
| "getTransposeOpOperand x = Some y \<Longrightarrow>
   product_shape (Op (LinearOp tA tB) (x # b # bias) ty) (Op (LinearOp (\<not> tA) tB) (y # b # bias) ty)"
| "getTransposeOpOperand x = Some y \<Longrightarrow>
   product_shape (Op (LinearOp tA tB) (a # x # bias) ty) (Op (LinearOp tA (\<not> tB)) (a # y # bias) ty)"
| "getTransposeOpOperand x = Some y \<Longrightarrow>
   product_shape (Op (MatmulOp tA tB) [x, b] ty) (Op (MatmulOp (\<not> tA) tB) [y, b] ty)"
| "getTransposeOpOperand x = Some y \<Longrightarrow>
   product_shape (Op (MatmulOp tA tB) [a, x] ty) (Op (MatmulOp tA (\<not> tB)) [a, y] ty)"

lemma product_step_shape: "product_step e e' \<Longrightarrow> product_shape e e'"
proof (induction rule: product_step.induct)
  case (1 e e')
  then show ?case by (cases e rule: linearToMatmul.cases) (auto intro: product_shape.intros)
next
  case (2 e e')
  then show ?case by (cases e rule: linearTransposeA.cases) (auto intro: product_shape.intros)
next
  case (3 e e')
  then show ?case by (cases e rule: linearTransposeB.cases) (auto intro: product_shape.intros)
next
  case (4 e e')
  then show ?case by (cases e rule: matmulTransposeA.cases) (auto intro: product_shape.intros)
next
  case (5 e e')
  then show ?case by (cases e rule: matmulTransposeB.cases) (auto intro: product_shape.intros)
qed

lemma getTransposeOpOperand_elem: "getTransposeOpOperand x = Some y \<Longrightarrow> sameElem x \<Longrightarrow> sameElem y"
  by (auto elim!: getTransposeOpOperandE split: if_splits)

lemma product_elem: "product_shape e e' \<Longrightarrow> sameElem e \<Longrightarrow> tyElem (typeOf e') = tyElem (typeOf e) \<and> sameElem e'"
  by (induction rule: product_shape.induct) (auto dest: getTransposeOpOperand_elem)

lemma product_sound:
  assumes "product_shape e e'" and "wf_ttir bc e"
  shows "wf_ttir bc e' \<and> same_value sc e e'"
  using assms
proof (induction rule: product_shape.induct)
  case (1 tA tB a b ty)
  then show ?case by (rule linear_without_bias_sound)
next
  case (2 x y tA tB b bias ty)
  then have "wf_ttir bc x" by simp
  from products_sound(1)[OF this 2(1,2)] show ?case .
next
  case (3 x y tA tB a bias ty)
  then have "wf_ttir bc x" by simp
  from products_sound(2)[OF this 3(1,2)] show ?case .
next
  case (4 x y tA tB b ty)
  then have "wf_ttir bc x" by simp
  from products_sound(3)[OF this 4(1,2)] show ?case .
next
  case (5 x y tA tB a ty)
  then have "wf_ttir bc x" by simp
  from products_sound(4)[OF this 5(1,2)] show ?case .
qed

section \<open>Soundness of a step\<close>

lemma merge_typecast_sound:
  assumes "wf_ttir bc (Op TypecastOp [Op TypecastOp [y] ty'] ty)"
    and "\<forall>a b c v. scCast sc b c (scCast sc a b v) = scCast sc a c v"
  shows "wf_ttir bc (Op TypecastOp [y] ty) \<and> same_value sc (Op TypecastOp [Op TypecastOp [y] ty'] ty) (Op TypecastOp [y] ty)"
proof -
  have b: "broadcastsTo (shapeOf y) (tyShape ty')" "broadcastsTo (tyShape ty') (tyShape ty)" using assms(1) by auto
  have "wf_ttir bc (Op TypecastOp [y] ty)" using assms(1) broadcastsTo_trans[OF b] by simp
  moreover have "eval sc (Op TypecastOp [y] ty) i = eval sc (Op TypecastOp [Op TypecastOp [y] ty'] ty) i"
    if i: "index_of (tyShape ty) i" for i
  proof -
    have j: "index_of (tyShape ty') (broadcastIndex (tyShape ty') (tyShape ty) i)" by (rule broadcastIndex_in[OF b(2) i])
    show ?thesis using j assms(2) broadcastIndex_trans[OF b index_of_length[OF i]]
      by (simp add: readAt_def option.map_comp o_def)
  qed
  ultimately show ?thesis by (simp add: same_value_def del: eval.simps)
qed

lemma canon_step_sound:
  assumes "canon_step merge_casts e e'" and "wf_ttir bc e" and "broadcast_rule bc" and "lawful sc" and "sameElem e"
    and "merge_casts \<longrightarrow> (\<forall>a b c v. scCast sc b c (scCast sc a b v) = scCast sc a c v)"
  shows "wf_ttir bc e' \<and> same_value sc e e' \<and> sameElem e' \<and> tyElem (typeOf e') = tyElem (typeOf e)"
  using assms
proof (induction rule: canon_step.induct)
  case (folder e e')
  then show ?case using fold_cases_sound fold_elem by blast
next
  case (merge_reverse e e')
  have "wf_ttir bc e' \<and> same_value sc e e'"
    using merge_reverse by (cases e rule: mergeReverse.cases) (auto simp only: mergeReverse.simps option.inject option.distinct intro!: reverse_merge_sound)
  then show ?case using merge_reverse merge_reverse_elem by blast
next
  case (drop_reverse e e')
  have "wf_ttir bc e' \<and> same_value sc e e'"
    using drop_reverse
    by (cases e rule: dropReverse.cases)
      (auto simp only: dropReverse.simps option.inject option.distinct simp_thms split: if_splits intro!: reverse_drop_sound)
  then show ?case using drop_reverse drop_reverse_elem by blast
next
  case (merge_typecast e e')
  have "wf_ttir bc e' \<and> same_value sc e e'"
    using merge_typecast
    by (cases e rule: typecastCanonicalize.cases)
      (auto simp only: typecastCanonicalize.simps option.inject option.distinct simp_thms intro!: merge_typecast_sound)
  then show ?case using merge_typecast.hyps(2) merge_typecast.prems(4) merge_typecast_elem by blast
next
  case (product e e')
  from product_step_shape[OF product.hyps] show ?case
    using product_sound product_elem product.prems(1,4) by blast
next
  case (operand k xs x' a ty)
  then have x: "wf_ttir bc (xs ! k)" "sameElem (xs ! k)" by auto
  with operand have x': "wf_ttir bc x'" "same_value sc (xs ! k) x'" "sameElem x'" "tyElem (typeOf x') = tyElem (typeOf (xs ! k))" by auto
  have "sameElem (Op a (xs[k := x']) ty)"
    using operand.prems(4) operand.hyps(1) x'(3,4) set_update_subset_insert[of xs k x'] by auto
  then show ?case using operand_sound[OF operand.prems(1) operand.hyps(1) x'(1,2,4)] by simp
qed

section \<open>Termination\<close>

text \<open>Every op weighs one; a transpose whose dimensions are negative or out of order weighs more, and
  so does a linear op, which may become a product.\<close>

fun opWeight :: "ttir_op \<Rightarrow> nat" where
  "opWeight (TransposeOp a b) = 1 + (if a < 0 then 2 else 0) + (if b < 0 then 2 else 0) + (if b < a then 1 else 0)"
| "opWeight (LinearOp tA tB) = 2"
| "opWeight a = 1"

fun weight :: "ttir \<Rightarrow> nat" where
  "weight (Arg n ty) = 0"
| "weight (Op a xs ty) = opWeight a + sum_list (map weight xs)"

lemma opWeight_pos [simp]: "0 < opWeight a"
  by (cases a) auto

text \<open>A transpose of a verified program gets positive dimensions, whatever order they had.\<close>

lemma transposeFold_weight:
  assumes "wf_ttir bc (Op (TransposeOp a b) [x] ty)" and "transposeFold a b x ty = Some e'"
  shows "weight e' < weight (Op (TransposeOp a b) [x] ty)"
proof (cases "a < b")
  case True
  show ?thesis
  proof (cases "forcePositiveTransposeDims (rank (typeOf x)) a b")
    case None
    then have "foldInverseTransposeOperand a b x = Some e'" using assms(2) True
      by (simp add: transposeFold_def sortTransposeDims_def)
    then obtain ty' where "x = Op (TransposeOp a b) [e'] ty'"
      by (cases "(a, b, x)" rule: foldInverseTransposeOperand.cases) (auto split: if_splits)
    then show ?thesis by simp
  next
    case (Some d)
    then have e': "e' = Op (TransposeOp (fst d) (snd d)) [x] ty" using assms(2) True
      by (auto simp: transposeFold_def sortTransposeDims_def split: prod.splits)
    show ?thesis using Some transpose_dims_pos[OF assms(1)] True
      by (auto simp: e' forcePositiveTransposeDims_def split: if_splits)
  qed
next
  case False
  then show ?thesis using assms(2) by (auto simp: transposeFold_def sortTransposeDims_def split: if_splits)
qed

lemma fold_weight:
  assumes "fold e = Some e'" and "wf_ttir bc e"
  shows "weight e' < weight e"
proof (cases e rule: fold.cases)
  case (1 u x ty)
  with assms(1) have "e' = x \<or> e' = operand0 x" by (auto split: if_splits)
  moreover have "weight (operand0 x) \<le> weight x" by (cases x rule: operand0.cases) auto
  ultimately show ?thesis using 1 by auto
next
  case (5 shp x ty)
  with assms(1) have "e' = x \<or> foldConsecutiveReshape shp x ty = Some e'" by (auto simp: reshapeFold_def split: if_splits)
  with 5 show ?thesis by (auto elim!: foldConsecutiveReshapeE)
next
  case (6 a b x ty)
  with assms show ?thesis using transposeFold_weight[of bc a b x ty e'] by (simp del: weight.simps wf_ttir.simps)
next
  case (7 p x ty)
  with assms(1) have "e' = x \<or> foldConsecutivePermute p x ty = Some e'" by (auto simp: permuteFold_def split: if_splits)
  with 7 show ?thesis by (auto elim!: foldConsecutivePermuteE split: sum.splits)
qed (use assms in \<open>auto simp: verifyBinaryIdempotence_def split: if_splits\<close>)

lemma getTransposeOpOperand_weight: "getTransposeOpOperand x = Some y \<Longrightarrow> weight y < weight x"
  by (auto elim!: getTransposeOpOperandE split: if_splits)

lemma product_weight: "product_shape e e' \<Longrightarrow> weight e' < weight e"
  by (induction rule: product_shape.induct) (auto dest: getTransposeOpOperand_weight)

lemma canon_step_weight:
  assumes "canon_step merge_casts e e'" and "wf_ttir bc e"
  shows "weight e' < weight e"
  using assms
proof (induction rule: canon_step.induct)
  case (folder e e')
  then show ?case using fold_weight by blast
next
  case (merge_reverse e e')
  then show ?case by (cases e rule: mergeReverse.cases) auto
next
  case (drop_reverse e e')
  then show ?case by (cases e rule: dropReverse.cases) (auto split: if_splits)
next
  case (merge_typecast e e')
  then show ?case by (cases e rule: typecastCanonicalize.cases) auto
next
  case (product e e')
  then show ?case by (intro product_weight product_step_shape)
next
  case (operand k xs x' a ty)
  have "weight (xs ! k) \<le> sum_list (map weight xs)" using operand.hyps(1) by (intro member_le_sum_list) auto
  with operand show ?case by (simp add: map_update sum_list_update)
qed

text \<open>Scalars for which every pattern is an equality, to carry well-formedness along a sequence.\<close>

definition trivialScalars :: "unit scalars" where
  "trivialScalars = \<lparr>scArg = \<lambda>_ _. (), scUnary = \<lambda>_ _. (), scBinary = \<lambda>_ _ _. (), scCast = \<lambda>_ _ _. (), scPad = \<lambda>_. (), scInt = \<lambda>_. (),
     scMul = \<lambda>_ _. (), scAdd = \<lambda>_ _. (), scSum = \<lambda>_. ()\<rparr>"

lemma canon_step_wf:
  assumes "canon_step merge_casts e e'" and "wf_ttir bc e" and "broadcast_rule bc" and "sameElem e"
  shows "wf_ttir bc e' \<and> sameElem e'"
  using canon_step_sound[OF assms(1-3) _ assms(4), of trivialScalars] by (simp add: lawful_def)

lemma canon_steps_bounded:
  assumes "(canon_step merge_casts ^^ n) e e'" and "wf_ttir bc e" and "broadcast_rule bc" and "sameElem e"
  shows "wf_ttir bc e' \<and> sameElem e' \<and> n + weight e' \<le> weight e"
  using assms(1)
proof (induction n arbitrary: e')
  case 0
  with assms show ?case by simp
next
  case (Suc n)
  then obtain m where m: "(canon_step merge_casts ^^ n) e m" "canon_step merge_casts m e'" by auto
  with Suc.IH have "wf_ttir bc m" "sameElem m" "n + weight m \<le> weight e" by auto
  with canon_step_wf[OF m(2) _ assms(3)] canon_step_weight[OF m(2)] show ?case by fastforce
qed

lemma canon_steps_sound:
  assumes "(canon_step merge_casts)\<^sup>*\<^sup>* e e'" and "wf_ttir bc e" and "broadcast_rule bc" and "lawful sc" and "sameElem e"
    and "merge_casts \<longrightarrow> (\<forall>a b c v. scCast sc b c (scCast sc a b v) = scCast sc a c v)"
  shows "wf_ttir bc e' \<and> sameElem e' \<and> same_value sc e e'"
  using assms(1)
proof (induction rule: rtranclp_induct)
  case base
  with assms show ?case by simp
next
  case (step m e')
  then show ?case using canon_step_sound[OF step(2) _ assms(3,4) _ assms(6)] same_value_trans by blast
qed

section \<open>The canonicalizer is sound and ends\<close>

text \<open>A program with three rewritings: two transposes that cancel once their dimensions are positive
  and sorted, under a reshape.\<close>

definition canonDemo :: ttir where
  "canonDemo = Op (ReshapeOp [6])
     [Op (TransposeOp 0 1) [Op (TransposeOp (- 1) 0) [Arg 0 (f32Type [2, 3])] (f32Type [3, 2])] (f32Type [2, 3])]
     (f32Type [6])"

definition canonDemo' :: ttir where
  "canonDemo' = Op (ReshapeOp [6])
     [Op (TransposeOp 0 1) [Op (TransposeOp 1 0) [Arg 0 (f32Type [2, 3])] (f32Type [3, 2])] (f32Type [2, 3])]
     (f32Type [6])"

lemma canonDemo_wf: "wf_ttir numpyBroadcast canonDemo"
  by code_simp

lemma canonDemo_sameElem: "sameElem canonDemo"
  by code_simp

lemma canonDemo_step: "canon_step merge_casts canonDemo canonDemo'"
proof -
  have "fold (Op (TransposeOp (- 1) 0) [Arg 0 (f32Type [2, 3])] (f32Type [3, 2]))
      = Some (Op (TransposeOp (- 1 + 2) 0) [Arg 0 (f32Type [2, 3])] (f32Type [3, 2]))"
    by code_simp
  then have "canon_step merge_casts (Op (TransposeOp (- 1) 0) [Arg 0 (f32Type [2, 3])] (f32Type [3, 2]))
      (Op (TransposeOp 1 0) [Arg 0 (f32Type [2, 3])] (f32Type [3, 2]))"
    by (intro canon_step.folder) simp
  from canon_step.operand[of 0 "[Op (TransposeOp (- 1) 0) [Arg 0 (f32Type [2, 3])] (f32Type [3, 2])]" merge_casts, simplified, OF this]
  have "canon_step merge_casts
      (Op (TransposeOp 0 1) [Op (TransposeOp (- 1) 0) [Arg 0 (f32Type [2, 3])] (f32Type [3, 2])] (f32Type [2, 3]))
      (Op (TransposeOp 0 1) [Op (TransposeOp 1 0) [Arg 0 (f32Type [2, 3])] (f32Type [3, 2])] (f32Type [2, 3]))" .
  from canon_step.operand[of 0 "[_]" merge_casts, simplified, OF this] show ?thesis
    by (simp add: canonDemo_def canonDemo'_def)
qed

text \<open>
  C27: Every sequence of rewritings of the canonicalizer (the folders of broadcast, reshape,
  transpose, permute, typecast and of the involution and idempotence traits, the two patterns of
  reverse, and those of linear and matmul), at any ops and in any order, keeps a verified program verified, of the same
  shape, and with the same value at every index. The program also passes the shape checks the verifiers leave out (as in
  C26), and its ops that only move data keep the element type of their operands, which the verifiers check for some
  of them only (the lemma \<open>dropped_reverse_breaks_slice\<close> is a program where this fails). The scalar functions obey the
  laws their traits promise, \<open>getBroadcastedShape\<close> accepts only shapes that agree or have a 1; merging
  two typecasts is included when casts compose exactly.
\<close>

theorem canonicalization_preserves_programs:
  assumes "(canon_step merge_casts)\<^sup>*\<^sup>* e e'" and "wf_ttir bc e" and "broadcast_rule bc" and "sameElem e" and "lawful sc"
    and "merge_casts \<longrightarrow> (\<forall>a b c v. scCast sc b c (scCast sc a b v) = scCast sc a c v)"
  shows "wf_ttir bc e' \<and> shapeOf e' = shapeOf e \<and> (\<forall>i. index_of (shapeOf e) i \<longrightarrow> eval sc e' i = eval sc e i)"
  using canon_steps_sound[OF assms(1-3,5,4,6)] by (simp add: same_value_def)

text \<open>Element functions over the integers that obey the laws of the traits.\<close>

definition intScalars :: "int scalars" where
  "intScalars = \<lparr>scArg = \<lambda>n i. lin [2, 3] i,
     scUnary = \<lambda>u. if involution u then uminus else if idempotence u then abs else (\<lambda>x. x + 1),
     scBinary = \<lambda>b. min, scCast = \<lambda>_ _ x. x, scPad = \<lambda>_. 0, scInt = \<lambda>n. n,
     scMul = \<lambda>x y. x * y, scAdd = \<lambda>x y. x + y, scSum = sum_list\<rparr>"

lemma intScalars_lawful: "lawful intScalars"
proof -
  have "\<not> (involution u \<and> idempotence u)" for u by (cases u) auto
  then show ?thesis by (auto simp: lawful_def intScalars_def)
qed

theorem canonicalization_preserves_programs_witness: "eval intScalars canonDemo' [4] = Some 4"
proof -
  have "eval intScalars canonDemo' [4] = eval intScalars canonDemo [4]"
    using canonicalization_preserves_programs[OF r_into_rtranclp[where r = "canon_step False", OF canonDemo_step] canonDemo_wf numpyBroadcast_rule
        canonDemo_sameElem intScalars_lawful, THEN conjunct2, THEN conjunct2, rule_format, of "[4]"]
    by (simp add: canonDemo_def f32Type_def)
  also have "\<dots> = Some 4" by code_simp
  finally show ?thesis .
qed

text \<open>C28: No sequence of rewritings of a verified program is longer than its weight: the number of
  its ops, plus what the transposes with negative or unsorted dimensions and the linear ops still
  have to do.\<close>

theorem canonicalization_terminates:
  assumes "(canon_step merge_casts ^^ n) e e'" and "wf_ttir bc e" and "broadcast_rule bc" and "sameElem e"
  shows "n + weight e' \<le> weight e"
  using canon_steps_bounded[OF assms] by blast

theorem canonicalization_terminates_witness: "1 + weight canonDemo' \<le> 6"
proof -
  have "(canon_step True ^^ 1) canonDemo canonDemo'" by (simp add: canonDemo_step eq_OO)
  from canonicalization_terminates[OF this canonDemo_wf numpyBroadcast_rule canonDemo_sameElem]
  show ?thesis by (simp add: canonDemo_def)
qed

section \<open>Patterns that change values\<close>

text \<open>Numbers in units of one half, cast to integers by rounding down.\<close>

definition halfScalars :: "int scalars" where
  "halfScalars = \<lparr>scArg = \<lambda>n i. 5, scUnary = \<lambda>u x. x,
     scBinary = \<lambda>b x y. if b = LogicalAndOp then (if x \<noteq> 0 \<and> y \<noteq> 0 then 2 else 0) else min x y,
     scCast = \<lambda>a b x. if b = Scalar (FloatType 32) then x else x div 2 * 2, scPad = \<lambda>_. 0, scInt = \<lambda>n. n,
     scMul = \<lambda>x y. x * y, scAdd = \<lambda>x y. x + y, scSum = sum_list\<rparr>"

text \<open>Merging two typecasts drops the rounding of the intermediate type: 2.5 cast to a 32-bit
  integer and back is 2, but after the canonicalization the program yields 2.5.\<close>

lemma merging_typecasts_changes_values:
  "let x = Arg 0 (f32Type [1]);
       e = Op TypecastOp [Op TypecastOp [x] ((f32Type [1])\<lparr>tyElem := Scalar (IntegerType Signless 32)\<rparr>)] (f32Type [1])
   in wf_ttir numpyBroadcast e \<and> eval halfScalars e [0] = Some 4
      \<and> typecastCanonicalize e = Some (Op TypecastOp [x] (f32Type [1]))
      \<and> eval halfScalars (Op TypecastOp [x] (f32Type [1])) [0] = Some 5"
  by code_simp

text \<open>\<open>logical_and\<close> is marked as idempotent, so \<open>logical_and(x, x)\<close> is folded to \<open>x\<close>, also where
  \<open>x\<close> is neither 0 nor 1: the op gives 1 for 2.5, the folded program 2.5.\<close>

lemma logical_and_fold_changes_values:
  "let x = Arg 0 (f32Type [1]); e = Op (BinaryOp LogicalAndOp) [x, x] (f32Type [1])
   in wf_ttir numpyBroadcast e \<and> eval halfScalars e [0] = Some 2
      \<and> fold e = Some x \<and> eval halfScalars x [0] = Some 5"
  by code_simp

text \<open>A reverse over no dimension is replaced by its operand whatever its element type. If its verifier let it change the
  element type, the users of the result no longer verify.\<close>

lemma dropped_reverse_breaks_slice:
  "let x = Arg 0 (f32Type [2]); bf16 = (f32Type [1])\<lparr>tyElem := Scalar BF16Type\<rparr>;
       r = Op (ReverseOp []) [x] ((f32Type [2])\<lparr>tyElem := Scalar BF16Type\<rparr>); e = Op (SliceOp [0] [1] [1]) [r] bf16
   in wf_ttir numpyBroadcast e \<and> \<not> sameElem e
      \<and> dropReverse r = Some x \<and> \<not> wf_ttir numpyBroadcast (Op (SliceOp [0] [1] [1]) [x] bf16)"
  by code_simp

end
