(* ===== verification/TTIRDecompose.thy ===== *)
theory TTIRDecompose
  imports TTIRFold
begin

text \<open>
  Patterns of \<open>TTIRToTTIRDecomposition.cpp\<close> that replace an op by simpler ops: an index by a
  slice, a select by slices and a concatenation, and an arange along any dimension by one
  along the last. Each is shown to produce a verified program with the value of the op.
\<close>

section \<open>Index to slice\<close>

definition dimBegins :: "nat \<Rightarrow> int \<Rightarrow> shape \<Rightarrow> int list" where
  "dimBegins d b s = map (\<lambda>i. if i = d then b else 0) [0..<length s]"

definition dimEnds :: "nat \<Rightarrow> int \<Rightarrow> shape \<Rightarrow> int list" where
  "dimEnds d e s = map (\<lambda>i. if i = d then e else i32 (s ! i)) [0..<length s]"

definition dimSteps :: "nat \<Rightarrow> int \<Rightarrow> shape \<Rightarrow> int list" where
  "dimSteps d st s = map (\<lambda>i. if i = d then st else 1) [0..<length s]"

fun indexToSlice :: "ttir \<Rightarrow> ttir option" where
  "indexToSlice (Op (IndexOp dim b e st) [x] ty) =
     Some (Op (SliceOp (dimBegins (nat dim) b (shapeOf x)) (dimEnds (nat dim) e (shapeOf x))
                       (dimSteps (nat dim) st (shapeOf x))) [x] ty)"
| "indexToSlice e = None"

section \<open>Select to slices\<close>

definition sliceOf :: "nat \<Rightarrow> int \<Rightarrow> int \<Rightarrow> ttir \<Rightarrow> ttir" where
  "sliceOf d newBegin newEnd x =
     Op (SliceOp (dimBegins d newBegin (shapeOf x)) (dimEnds d newEnd (shapeOf x)) (dimSteps d 1 (shapeOf x))) [x]
       ((typeOf x)\<lparr>tyShape := (shapeOf x)[d := newEnd - newBegin]\<rparr>)"

definition selectSlice :: "nat \<Rightarrow> int \<Rightarrow> int \<Rightarrow> int \<Rightarrow> int \<Rightarrow> ttir \<Rightarrow> nat \<Rightarrow> fault + ttir" where
  "selectSlice d inputDimSize b len stride x i =
     rbind (int32 (int i * stride)) (\<lambda>offset.
     rbind (int32 (b + offset)) (\<lambda>newBegin.
     rbind (int32 (newBegin + len)) (\<lambda>newEnd.
       Inr (sliceOf d newBegin (min newEnd inputDimSize) x))))"

definition numSlicesOf :: "int \<Rightarrow> int \<Rightarrow> int \<Rightarrow> fault + int" where
  "numSlicesOf inputDimSize b stride =
     rbind (int32 (inputDimSize - b)) (\<lambda>n.
     rbind (int32 (n + stride)) (\<lambda>n.
     rbind (int32 (n - 1)) (\<lambda>n.
       if stride = 0 then Inl DivisionByZero else Inr (n sdiv stride))))"

fun selectToSlice :: "ttir \<Rightarrow> fault + ttir" where
  "selectToSlice (Op (SelectOp dim b len stride) [x] ty) =
     (let d = nat (i32 (if dim < 0 then rank (typeOf x) + dim else dim));
          inputDimSize = i32 (shapeOf x ! d)
      in rbind (numSlicesOf inputDimSize b stride) (\<lambda>numSlices.
         rbind (mapE (selectSlice d inputDimSize b len stride x) [0..<nat numSlices]) (\<lambda>slices.
         rbind (assertE SiteOther (slices \<noteq> [])) (\<lambda>_.
           Inr (if 1 < length slices then Op (ConcatOp (int d)) slices ty else hd slices)))))"
| "selectToSlice e = Inr e"

section \<open>Arange along the last dimension\<close>

fun arangeForceLastDimension :: "ttir \<Rightarrow> fault + ttir" where
  "arangeForceLastDimension (Op (ArangeOp start end' step arangeDimension) [] ty) =
     (if step = 0 then Inl DivisionByZero
      else rbind (arangeCount start end' step) (\<lambda>arangeLength. let requiredShape = [arangeLength] in
        if requiredShape = tyShape ty then Inr (Op (ArangeOp start end' step arangeDimension) [] ty)
        else
          let arange = Op (ArangeOp start end' step 0) [] (ty\<lparr>tyShape := requiredShape\<rparr>);
              reshapeShape = map (\<lambda>i. if int i = arangeDimension then arangeLength else 1) [0..<length (tyShape ty)];
              output = (if rank ty \<noteq> 1
                        then Op (ReshapeOp (map i32 reshapeShape)) [arange] (ty\<lparr>tyShape := reshapeShape\<rparr>)
                        else arange);
              broadcastDims = filter (\<lambda>i. int i \<noteq> arangeDimension \<and> shapeOf output ! i \<noteq> tyShape ty ! i)
                                [0..<length (shapeOf output)];
              outputShape = map (\<lambda>i. if i \<in> set broadcastDims then tyShape ty ! i else shapeOf output ! i)
                              [0..<length (shapeOf output)]
          in if broadcastDims = [] then Inr output
             else rbind (getBroadcastDimensions (shapeOf output) outputShape) (\<lambda>broadcastShape.
                  rbind (assertE SiteOther (outputShape = tyShape ty)) (\<lambda>_.
                    Inr (Op (BroadcastOp broadcastShape) [output] (ty\<lparr>tyShape := outputShape\<rparr>))))))"
| "arangeForceLastDimension e = Inr e"

section \<open>A slice along one dimension\<close>

lemma dim_attr_nth [simp]:
  "i < length s \<Longrightarrow> dimBegins d b s ! i = (if i = d then b else 0)"
  "i < length s \<Longrightarrow> dimEnds d e s ! i = (if i = d then e else i32 (s ! i))"
  "i < length s \<Longrightarrow> dimSteps d st s ! i = (if i = d then st else 1)"
  "length (dimBegins d b s) = length s" "length (dimEnds d e s) = length s" "length (dimSteps d st s) = length s"
  by (simp_all add: dimBegins_def dimEnds_def dimSteps_def)

lemma i32_range [simp]: "- 2147483648 \<le> i32 n" "i32 n < 2147483648"
  by (simp_all add: i32_def)

lemma dim_slice_wf:
  assumes "wf_ttir bc x" and "positive_shape (shapeOf x)" and "d < length (shapeOf x)" and "valid_shape (tyShape ty)"
    and "tyElem ty = tyElem (typeOf x)" and "length (tyShape ty) = length (shapeOf x)"
    and "withoutDim (int d) (tyShape ty) = withoutDim (int d) (shapeOf x)"
    and "\<forall>(ok, m) \<in> set (sliceDimChecks (shapeOf x ! d) (tyShape ty ! d) b e st). ok"
    and "\<forall>n \<in> {b, e, st}. - (2 ^ 31) \<le> n \<and> n < 2 ^ 31"
  shows "wf_ttir bc (Op (SliceOp (dimBegins d b (shapeOf x)) (dimEnds d e (shapeOf x)) (dimSteps d st (shapeOf x))) [x] ty)"
proof -
  let ?s = "shapeOf x"
  have vx: "valid_shape ?s" by (rule wf_valid[OF assms(1)])
  have dims: "\<forall>(ok, m) \<in> set (sliceDimChecks (?s ! i) (tyShape ty ! i) (dimBegins d b ?s ! i) (dimEnds d e ?s ! i) (dimSteps d st ?s ! i)). ok"
    if i: "i < length ?s" for i
  proof (cases "i = d")
    case True
    with assms(3,8) show ?thesis by simp
  next
    case False
    have "tyShape ty ! i = ?s ! i" using withoutDim_eq[OF assms(7), of i] assms(3,6) i False by simp
    moreover have "0 < ?s ! i" "?s ! i < 2 ^ 31" using positive_shape_nth[OF assms(2) i] valid_nth[OF vx i] by auto
    ultimately show ?thesis using False i by (simp add: sliceDimChecks_def Let_def)
  qed
  have "sliceVerify (dimBegins d b ?s) (dimEnds d e ?s) (dimSteps d st ?s) (typeOf x) ty = Inr ()"
    unfolding sliceVerify_def checks_Inr_iff using dims assms(3,5,6) by auto
  moreover have "attrsOk (SliceOp (dimBegins d b ?s) (dimEnds d e ?s) (dimSteps d st ?s))"
    using assms(9) valid_nth[OF vx] by (auto simp: attrsOk_def dimBegins_def dimEnds_def dimSteps_def)
  ultimately show ?thesis using assms(1,4) by simp
qed

lemma dim_slice_source:
  assumes "length i = length s"
  shows "source (SliceOp (dimBegins d b s) (dimEnds d e s) (dimSteps d st s)) s out i
    = i[d := (if b < 0 then b + s ! d else b) + i ! d * st]"
  using assms by (intro nth_equalityI) (auto simp: nth_list_update)

lemma indexToSlice_sound:
  assumes "wf_ttir bc e" and "broadcast_rule bc" and "positive_shape (shapeOf (operand0 e))" and "indexToSlice e = Some e'"
  shows "wf_ttir bc e' \<and> same_value sc e e'"
proof (cases e rule: indexToSlice.cases)
  case (1 dim b e2 st x ty)
  let ?s = "shapeOf x"
  have e': "e' = Op (SliceOp (dimBegins (nat dim) b ?s) (dimEnds (nat dim) e2 ?s) (dimSteps (nat dim) st ?s)) [x] ty"
    using assms(4) 1 by simp
  have w: "wf_ttir bc (Op (IndexOp dim b e2 st) [x] ty)" using assms(1) 1 by simp
  then have v: "indexVerify dim b e2 st (typeOf x) ty = Inr ()" by simp
  then have c: "0 \<le> dim" "nat dim < length ?s" "length (tyShape ty) = length ?s" "tyElem ty = tyElem (typeOf x)"
    "\<forall>(ok, m) \<in> set (sliceDimChecks (?s ! nat dim) (tyShape ty ! nat dim) b e2 st). ok"
    unfolding indexVerify_def checks_Inr_iff by auto
  have wd: "withoutDim (int (nat dim)) (tyShape ty) = withoutDim (int (nat dim)) ?s" using w c(1) by simp
  have "wf_ttir bc e'" unfolding e'
    by (rule dim_slice_wf[OF _ _ c(2) _ c(4,3) wd c(5)]) (use w assms(3) 1 in \<open>auto simp: attrsOk_def\<close>)
  with copy_same[OF w assms(2) _ _ this[unfolded e'], of sc] show ?thesis
    unfolding e' 1 using dim_slice_source[of _ ?s "nat dim" b e2 st "tyShape ty"] c(3) index_of_length
    by (simp del: wf_ttir.simps)
qed (use assms(4) in simp_all)

section \<open>Select\<close>

text \<open>What a verified select gives: the numbers the pattern computes with.\<close>

lemma select_facts_stride:
  assumes "wf_ttir bc (Op (SelectOp dim b len st) [x] ty)"
  defines "d \<equiv> normDim dim (length (shapeOf x))"
  defines "S \<equiv> selectStride st (shapeOf x ! d)"
  shows "d < length (shapeOf x)" and "int d < 2 ^ 31" and "length (tyShape ty) = length (shapeOf x)" and "tyElem ty = tyElem (typeOf x)"
    and "0 < S" and "1 \<le> len" and "len \<le> S" and "S \<le> shapeOf x ! d" and "0 \<le> b" and "b < shapeOf x ! d"
    and "sum_list (selectLengths (shapeOf x ! d) b len S) = tyShape ty ! d"
    and "withoutDim (int d) (tyShape ty) = withoutDim (int d) (shapeOf x)"
    and "i32 (if dim < 0 then rank (typeOf x) + dim else dim) = int d"
    and "i32 (shapeOf x ! d) = shapeOf x ! d"
proof -
  have v: "selectVerify dim b len st (typeOf x) ty = Inr ()" and vx: "valid_shape (shapeOf x)"
    and at32: "attrsOk (SelectOp dim b len st)" using assms(1) wf_valid[of bc x] by auto
  have dimlow: "- (2 ^ 31) \<le> dim" using at32 by (simp add: attrsOk_def)
  note v1 = v[unfolded selectVerify_def Let_def checks_Inr_iff, simplified]
  show len: "length (tyShape ty) = length (shapeOf x)" and "tyElem ty = tyElem (typeOf x)" using v1 by auto
  have d0: "0 \<le> (if dim < 0 then i32 (dim + rank (typeOf x)) else dim)" using v1 by auto
  have dd: "(if dim < 0 then i32 (dim + rank (typeOf x)) else dim) = int d"
    unfolding d_def by (rule normDim_i32[OF dimlow valid_length[OF vx] d0])
  show dl: "d < length (shapeOf x)" using v1 dd by (auto split: if_splits)
  show d31: "int d < 2 ^ 31" using dl valid_length[OF vx] by simp
  show "i32 (if dim < 0 then rank (typeOf x) + dim else dim) = int d"
    using dd at32 by (auto simp: add.commute attrsOk_def split: if_splits)
  show D32: "i32 (shapeOf x ! d) = shapeOf x ! d" using valid_nth[OF vx dl] by simp
  have S: "(if st = 0 then shapeOf x ! d else st) = S" by (simp add: S_def selectStride_def)
  note v2 = v[unfolded selectVerify_def Let_def dd checks_Inr_iff, simplified D32 nat_int, simplified S, simplified]
  show "1 \<le> len" "len \<le> S" "S \<le> shapeOf x ! d" "0 \<le> b" "b < shapeOf x ! d"
    "sum_list (selectLengths (shapeOf x ! d) b len S) = tyShape ty ! d" using v2 by auto
  then show "0 < S" by simp
  show "withoutDim (int d) (tyShape ty) = withoutDim (int d) (shapeOf x)" using assms(1) len by (simp add: d_def Let_def)
qed

lemma select_facts:
  assumes "wf_ttir bc (Op (SelectOp dim b len st) [x] ty)" and "st \<noteq> 0"
  defines "d \<equiv> normDim dim (length (shapeOf x))"
  shows "d < length (shapeOf x)" and "int d < 2 ^ 31" and "length (tyShape ty) = length (shapeOf x)" and "tyElem ty = tyElem (typeOf x)"
    and "0 < st" and "1 \<le> len" and "len \<le> st" and "st \<le> shapeOf x ! d" and "0 \<le> b" and "b < shapeOf x ! d"
    and "sum_list (selectLengths (shapeOf x ! d) b len st) = tyShape ty ! d"
    and "withoutDim (int d) (tyShape ty) = withoutDim (int d) (shapeOf x)"
    and "i32 (if dim < 0 then rank (typeOf x) + dim else dim) = int d"
  using select_facts_stride[OF assms(1)] assms(2) unfolding d_def selectStride_def by simp_all

lemma sliceOf_typeOf [simp]: "typeOf (sliceOf d b e x) = (typeOf x)\<lparr>tyShape := (shapeOf x)[d := e - b]\<rparr>"
  by (simp add: sliceOf_def)

lemma sliceOf_wf:
  assumes "wf_ttir bc x" and "positive_shape (shapeOf x)" and "d < length (shapeOf x)" and "0 \<le> b" and "b < e" and "e \<le> shapeOf x ! d"
  shows "wf_ttir bc (sliceOf d b e x)"
proof -
  have vx: "valid_shape (shapeOf x)" by (rule wf_valid[OF assms(1)])
  note D = valid_nth[OF vx assms(3)]
  have "valid_shape ((shapeOf x)[d := e - b])"
    using vx assms(4-6) D set_update_subset_insert[of "shapeOf x" d "e - b"] by (auto simp: valid_shape_def)
  then show ?thesis unfolding sliceOf_def
    using assms D by (intro dim_slice_wf) (auto simp: withoutDim_def sliceDimChecks_def Let_def)
qed

lemma sliceOf_eval:
  assumes "wf_ttir bc (sliceOf d b e x)" and "broadcast_rule bc" and "index_of ((shapeOf x)[d := e - b]) j" and "0 \<le> b"
  shows "eval sc (sliceOf d b e x) j = eval sc x (j[d := b + j ! d])"
  using eval_copy(1)[OF assms(1)[unfolded sliceOf_def] assms(2), of j sc] index_of_length[OF assms(3)] assms(3,4)
    dim_slice_source[of j "shapeOf x" d b e 1]
  by (simp add: sliceOf_def del: wf_ttir.simps eval.simps source.simps)

lemma sdiv_nonneg: "0 \<le> a \<Longrightarrow> 0 < c \<Longrightarrow> a sdiv c = a div c" for a c :: int
  by (simp add: signed_divide_int_def sgn_if)

lemma mapE_Inr_eq: "(\<And>i. i \<in> set is \<Longrightarrow> f i = Inr (g i)) \<Longrightarrow> mapE f is = Inr (map g is)"
  by (induction "is") auto

lemma selectToSlice_eq:
  assumes w: "wf_ttir bc (Op (SelectOp dim b len st) [x] ty)" and st: "st \<noteq> 0"
    and small: "shapeOf x ! normDim dim (length (shapeOf x)) < 2 ^ 30"
    and m: "selectNumSlices (shapeOf x ! normDim dim (length (shapeOf x))) b st = int m + 1"
      "b + int m * st < shapeOf x ! normDim dim (length (shapeOf x))"
  defines "d \<equiv> normDim dim (length (shapeOf x))"
  defines "slices \<equiv> map (\<lambda>i. sliceOf d (b + int i * st) (min (b + int i * st + len) (shapeOf x ! d)) x) [0..<Suc m]"
  shows "selectToSlice (Op (SelectOp dim b len st) [x] ty)
    = Inr (if 0 < m then Op (ConcatOp (int d)) slices ty else hd slices)"
proof -
  note f = select_facts[OF w st, folded d_def]
  let ?D = "shapeOf x ! d"
  have D: "?D < 2 ^ 30" using small by (simp add: d_def)
  have D32: "i32 ?D = ?D" using D f(5,8) by (intro i32_id) auto
  have n: "numSlicesOf ?D b st = Inr (int m + 1)"
    using f(5-10) D m(1) by (simp add: numSlicesOf_def int32_def sdiv_nonneg selectNumSlices_def d_def algebra_simps)
  have slice: "selectSlice d ?D b len st x i = Inr (sliceOf d (b + int i * st) (min (b + int i * st + len) ?D) x)"
    if "i \<in> set [0..<Suc m]" for i
  proof -
    define p where "p = int i * st"
    have "p \<le> int m * st" unfolding p_def using that f(5) by (intro mult_right_mono) auto
    then have "b + p < ?D" using m(2) by (simp add: d_def)
    moreover have "0 \<le> p" using f(5) by (simp add: p_def)
    ultimately show ?thesis using D f(6-10) unfolding selectSlice_def p_def[symmetric] by (simp add: int32_def)
  qed
  have "mapE (selectSlice d ?D b len st x) [0..<Suc m] = Inr slices"
    unfolding slices_def by (rule mapE_Inr_eq[OF slice])
  moreover have "nat (int m + 1) = Suc m" by simp
  moreover have "slices \<noteq> []" "1 < length slices \<longleftrightarrow> 0 < m" by (simp_all add: slices_def)
  ultimately show ?thesis using n D32 by (simp only: selectToSlice.simps Let_def f(13) nat_int rbind_simps assertE_simps if_True not_False_eq_True)
qed

lemma selectToSlice_sound:
  assumes w: "wf_ttir bc (Op (SelectOp dim b len st) [x] ty)" and bc: "broadcast_rule bc" and st: "st \<noteq> 0"
    and pos: "positive_shape (shapeOf x)" and small: "shapeOf x ! normDim dim (length (shapeOf x)) < 2 ^ 30"
  shows "\<exists>e'. selectToSlice (Op (SelectOp dim b len st) [x] ty) = Inr e' \<and> wf_ttir bc e'
    \<and> same_value sc (Op (SelectOp dim b len st) [x] ty) e'"
proof -
  define d where "d = normDim dim (length (shapeOf x))"
  note f = select_facts[OF w st, folded d_def]
  let ?s = "shapeOf x" let ?D = "shapeOf x ! d" let ?out = "tyShape ty"
  obtain m where m: "selectNumSlices ?D b st = int m + 1" "b + int m * st < ?D"
    "selectLengths ?D b len st = replicate m len @ [min (b + int m * st + len) ?D - (b + int m * st)]"
    "\<And>i. i < m \<Longrightarrow> b + int i * st + len \<le> ?D"
    using selectLengths_eq[OF f(5,6,7,10)] by metis
  let ?last = "min (b + int m * st + len) ?D - (b + int m * st)"
  define slice where "slice i = sliceOf d (b + int i * st) (min (b + int i * st + len) ?D) x" for i
  define slices where "slices = map slice [0..<Suc m]"
  have wx: "wf_ttir bc x" using w by simp
  have i_st: "0 \<le> int i * st" "b + int i * st < ?D" if "i < Suc m" for i
  proof -
    have "int i * st \<le> int m * st" using that f(5) by (intro mult_right_mono) auto
    with m(2) show "b + int i * st < ?D" by linarith
  qed (use f(5) in simp)
  have ws: "wf_ttir bc (slice i)" if "i < Suc m" for i
    unfolding slice_def using i_st[OF that] f(6,9) by (intro sliceOf_wf[OF wx pos f(1)]) auto
  have lens: "map (\<lambda>y. shapeOf y ! d) slices = selectLengths ?D b len st"
    unfolding slices_def slice_def selectLengths_def m(1) using f(1) by (simp add: o_def nat_add_distrib)
  have sum: "?out ! d = int m * len + ?last" using f(11) m(3) by (simp add: sum_list_replicate)
  have slice_wd: "length (shapeOf (slice i)) = length ?s" "withoutDim (int d) (shapeOf (slice i)) = withoutDim (int d) ?s" for i
    by (simp_all add: slice_def withoutDim_def)
  have read: "index_of (shapeOf (slice (nat (j ! d div len)))) (j[d := j ! d mod len])
      \<and> eval sc (slice (nat (j ! d div len))) (j[d := j ! d mod len]) = eval sc (Op (SelectOp dim b len st) [x] ty) j
      \<and> concatPart (selectLengths ?D b len st) (j ! d) = (nat (j ! d div len), j ! d mod len) \<and> nat (j ! d div len) < Suc m"
    if j: "index_of ?out j" for j
  proof -
    have q: "0 \<le> j ! d" "j ! d < int m * len + ?last" using index_of_nth[OF j, of d] f(1,3) sum by auto
    have "?last \<le> len" by simp
    note part = concatPart_slices[OF f(6) this q]
    define k where "k = nat (j ! d div len)"
    have k: "int k = j ! d div len" "k < Suc m" using part f(6) q(1) by (auto simp: k_def pos_imp_zdiv_nonneg_iff)
    have r: "0 \<le> j ! d mod len" "j ! d mod len < min (b + int k * st + len) ?D - (b + int k * st)"
    proof -
      show "0 \<le> j ! d mod len" using f(6) by simp
      have "j ! d mod len < len" using f(6) by simp
      then show "j ! d mod len < min (b + int k * st + len) ?D - (b + int k * st)"
        using part k m(4)[of k] by (cases "k = m") auto
    qed
    have dl: "d < length (shapeOf (slice k))" using f(1) slice_wd by simp
    have "withoutDim (int d) ?out = withoutDim (int d) (shapeOf (slice k))" using f(12) slice_wd by simp
    then have idx: "index_of (shapeOf (slice k)) (j[d := j ! d mod len])"
      using j f(1,3) r slice_wd by (intro update_source[OF j]) (auto simp: slice_def)
    have "eval sc (slice k) (j[d := j ! d mod len]) = eval sc x (j[d := b + int k * st + j ! d mod len])"
      using sliceOf_eval[OF ws[OF k(2), unfolded slice_def] bc, of "j[d := j ! d mod len]" sc] idx i_st[OF k(2)] f(1,3,9) index_of_length[OF j]
      by (simp add: slice_def)
    also have "\<dots> = eval sc (Op (SelectOp dim b len st) [x] ty) j"
      using eval_copy(1)[OF w bc _ j, of sc] st by (simp add: Let_def selectStride_def d_def[symmetric] k(1) del: eval.simps)
    finally show ?thesis using idx part m(3) k(2) by (simp add: k_def[symmetric])
  qed
  show ?thesis
  proof (cases "0 < m")
    case True
    define e' where "e' = Op (ConcatOp (int d)) slices ty"
    have "selectToSlice (Op (SelectOp dim b len st) [x] ty) = Inr e'"
      using selectToSlice_eq[OF w st small, folded d_def, OF m(1,2)] True by (simp add: e'_def slices_def slice_def)
    moreover have "wf_ttir bc e'"
    proof -
      have hd: "slices = slice 0 # map slice [Suc 0..<Suc m]" by (simp add: slices_def upt_conv_Cons del: upt_Suc)
      have "concatVerify (int d) (map typeOf slices) = Inr ()"
        unfolding concatVerify_def Let_def checks_Inr_iff hd using f(1) by (auto simp: slice_def nth_list_update)
      then have "verifyOp bc (ConcatOp (int d)) (map typeOf slices) ty = Inr (Inr ())" unfolding hd by simp
      moreover have "?out ! d = sum_list (map (\<lambda>s. s ! d) (map shapeOf slices))"
        using lens f(11) by (simp add: o_def)
      then have "restOk (ConcatOp (int d)) (map shapeOf slices) ?out"
        using f(3,12) slice_wd unfolding hd by (simp add: normDim_def Let_def)
      moreover have "\<forall>y \<in> set slices. wf_ttir bc y" using ws by (auto simp: slices_def)
      moreover have "attrsOk (ConcatOp (int d))" using f(2) by (simp add: attrsOk_def)
      moreover have "valid_shape ?out" using w by simp
      ultimately show ?thesis unfolding e'_def wf_ttir.simps by blast
    qed
    moreover have "eval sc e' j = eval sc (Op (SelectOp dim b len st) [x] ty) j" if j: "index_of ?out j" for j
    proof -
      have "map (\<lambda>y. tyShape (fst y) ! d) (map (\<lambda>y. (typeOf y, eval sc y)) slices) = selectLengths ?D b len st"
        using lens by (simp add: o_def)
      then have "eval sc e' j = readAt (map (\<lambda>y. (typeOf y, eval sc y)) slices) (nat (j ! d div len)) (j[d := j ! d mod len])"
        using read[OF j] f(3) by (simp add: e'_def normDim_def Let_def del: map_map)
      also have "\<dots> = eval sc (slice (nat (j ! d div len))) (j[d := j ! d mod len])"
        using read[OF j] unfolding readAt_def slices_def by (simp del: upt_Suc)
      finally show ?thesis using read[OF j] by simp
    qed
    ultimately show ?thesis by (auto simp: same_value_def e'_def)
  next
    case False
    then have "selectToSlice (Op (SelectOp dim b len st) [x] ty) = Inr (slice 0)"
      using selectToSlice_eq[OF w st small, folded d_def, OF m(1,2)] by (simp add: slice_def)
    moreover have "wf_ttir bc (slice 0)" by (rule ws) simp
    moreover have "same_value sc (Op (SelectOp dim b len st) [x] ty) (slice 0)"
    proof -
      have m0: "m = 0" using False by simp
      have "?out = (shapeOf (slice 0))"
      proof (rule nth_equalityI)
        fix k assume "k < length ?out"
        then show "?out ! k = shapeOf (slice 0) ! k"
          using withoutDim_eq[OF f(12), of k] f(1,3) sum m0 by (cases "k = d") (auto simp: slice_def)
      qed (simp add: slice_wd f(3))
      moreover have "eval sc (slice 0) j = eval sc (Op (SelectOp dim b len st) [x] ty) j" if j: "index_of ?out j" for j
      proof -
        have "nat (j ! d div len) = 0" using read[OF j] m0 by simp
        moreover have "0 \<le> j ! d" using index_of_nth[OF j, of d] f(1,3) by simp
        ultimately have "j ! d div len = 0" using f(6) by (simp add: order.antisym pos_imp_zdiv_nonneg_iff)
        then have "j ! d mod len = j ! d" "nat (j ! d div len) = 0" using div_mult_mod_eq[of "j ! d" len] by auto
        then show ?thesis using read[OF j] by simp
      qed
      ultimately show ?thesis by (simp add: same_value_def del: eval.simps)
    qed
    ultimately show ?thesis by blast
  qed
qed

section \<open>Arange\<close>

lemma prod_one_dim:
  "prod_list (map (\<lambda>i. if i = d then L else (1::int)) [a..<a + n]) = (if a \<le> d \<and> d < a + n then L else 1)"
  by (induction n) auto

lemma lin_one_dim:
  "lin (map (\<lambda>i. if i = d then L else 1) [a..<a + n]) (map (\<lambda>i. if i = d then q else 0) [a..<a + n])
    = (if a \<le> d \<and> d < a + n then q else 0)"
proof (induction n arbitrary: a)
  case (Suc n)
  have r: "[a..<a + Suc n] = a # [Suc a..<Suc a + n]" by (simp add: upt_conv_Cons del: upt_Suc)
  show ?case unfolding r list.map lin.simps Suc.IH prod_one_dim by auto
qed simp

lemma arange_reshape:
  fixes ty :: ttir_type
  assumes d: "d < n" and L: "0 < L" "L < 2 ^ 31" and n: "int n < 2 ^ 30"
    and len: "arangeCount start e step = Inr L" "step \<noteq> 0" and bc: "broadcast_rule bc"
  defines "R \<equiv> map (\<lambda>i. if i = d then L else 1) [0..<n]"
  defines "r \<equiv> Op (ReshapeOp (map i32 R)) [Op (ArangeOp start e step 0) [] (ty\<lparr>tyShape := [L]\<rparr>)] (ty\<lparr>tyShape := R\<rparr>)"
  shows "wf_ttir bc r" and "\<lbrakk>0 \<le> q; q < L\<rbrakk> \<Longrightarrow> eval sc r (map (\<lambda>i. if i = d then q else 0) [0..<n]) = Some (scInt sc (start + q * step))"
proof -
  have R: "map i32 R = R" using L by (auto simp: R_def)
  have "prod_list R = L" using prod_one_dim[of d L 0 n] d by (simp add: R_def)
  then have v: "reshapeVerify R (ty\<lparr>tyShape := [L]\<rparr>) (ty\<lparr>tyShape := R\<rparr>) = Inr ()"
    using d L reshapeDims_same[of R False] by (auto simp: reshapeVerify_def R_def checks.simps rbind_Inr_iff)
  show w: "wf_ttir bc r" unfolding r_def R
    using v L n d len by (auto simp: arangeVerify_def valid_shape_def attrsOk_def R_def checks_Inr_iff)
  assume q: "0 \<le> q" "q < L"
  let ?i = "map (\<lambda>i. if i = d then q else 0) [0..<n]"
  have i: "index_of R ?i" using q by (auto simp: index_of_iff R_def)
  have "unlin [L] (lin R ?i) = [q]" using lin_one_dim[of d L 0 n q] d q by (simp add: R_def)
  then show "eval sc r ?i = Some (scInt sc (start + q * step))"
    using eval_copy(1)[OF w[unfolded r_def] bc, of ?i sc] i by (simp add: r_def)
qed

lemma arange_facts:
  assumes "wf_ttir bc (Op (ArangeOp start e step dim) [] ty)"
  shows "step \<noteq> 0" "0 \<le> dim" "nat dim < length (tyShape ty)" "arangeCount start e step = Inr (tyShape ty ! nat dim)"
    "0 < tyShape ty ! nat dim" "tyShape ty ! nat dim < 2 ^ 31" "rank ty < 2 ^ 30" "valid_shape (tyShape ty)"
proof -
  have v: "valid_shape (tyShape ty)" and a: "arangeVerify start e step dim ty = Inr (Inr ())" using assms by auto
  show "step \<noteq> 0" "0 \<le> dim" and d: "nat dim < length (tyShape ty)" and "arangeCount start e step = Inr (tyShape ty ! nat dim)"
    "0 < tyShape ty ! nat dim"
    using a by (auto simp: arangeVerify_def rbind_Inr_iff checks_Inr_iff split: if_splits)
  show "tyShape ty ! nat dim < 2 ^ 31" using valid_nth[OF v d] by simp
  show "rank ty < 2 ^ 30" "valid_shape (tyShape ty)" using v valid_length by auto
qed

lemma arange_sound:
  assumes w: "wf_ttir bc (Op (ArangeOp start e step dim) [] ty)" and bc: "broadcast_rule bc" and pos: "positive_shape (tyShape ty)"
  shows "\<exists>e'. arangeForceLastDimension (Op (ArangeOp start e step dim) [] ty) = Inr e' \<and> wf_ttir bc e'
    \<and> same_value sc (Op (ArangeOp start e step dim) [] ty) e'"
proof -
  note f = arange_facts[OF w]
  let ?s = "tyShape ty" let ?n = "length ?s"
  define d where "d = nat dim"
  define L where "L = ?s ! d"
  have dim: "(int i = dim) = (i = d)" for i using f(2) by (auto simp: d_def)
  define R where "R = map (\<lambda>i. if i = d then L else 1) [0..<?n]"
  define r where "r = Op (ReshapeOp (map i32 R)) [Op (ArangeOp start e step 0) [] (ty\<lparr>tyShape := [L]\<rparr>)] (ty\<lparr>tyShape := R\<rparr>)"
  have dl: "d < ?n" and L: "0 < L" "L < 2 ^ 31" "arangeCount start e step = Inr L" using f by (auto simp: d_def L_def)
  note rr = arange_reshape[OF dl L(1,2) f(7) L(3) f(1) bc, where ty = ty, folded R_def, folded r_def]
  show ?thesis
  proof (cases "[L] = ?s")
    case True
    then show ?thesis using w f(1) L(3) by (auto simp: Let_def simp del: wf_ttir.simps)
  next
    case False
    have n1: "?n \<noteq> 1"
    proof
      assume "?n = 1"
      then obtain y where "?s = [y]" by (cases ?s) auto
      with False dl show False by (simp add: L_def)
    qed
    have evalr: "eval sc (Op (ArangeOp start e step dim) [] ty) i = eval sc r (map (\<lambda>k. if k = d then i ! d else 0) [0..<?n])"
      if "index_of ?s i" for i
      using rr(2)[of "i ! d" sc] index_of_nth[OF that dl] by (simp add: L_def d_def)
    define B where "B = filter (\<lambda>i. i \<noteq> d \<and> R ! i \<noteq> ?s ! i) [0..<?n]"
    have Rn: "length R = ?n" "\<And>k. k < ?n \<Longrightarrow> R ! k = (if k = d then L else 1)" by (auto simp: R_def)
    have outS: "map (\<lambda>i. if i \<in> set B then ?s ! i else R ! i) [0..<?n] = ?s"
      by (rule nth_equalityI) (auto simp: B_def Rn L_def)
    have pattern: "arangeForceLastDimension (Op (ArangeOp start e step dim) [] ty) =
        (if B = [] then Inr r
         else rbind (getBroadcastDimensions R ?s) (\<lambda>broadcastShape. Inr (Op (BroadcastOp broadcastShape) [r] ty)))"
    proof -
      have rs: "shapeOf r = R" by (simp add: r_def)
      have c: "(step = 0) = False" "([L] = ?s) = False" "(rank ty \<noteq> 1) = True" using f(1) False n1 by auto
      show ?thesis
        unfolding arangeForceLastDimension.simps Let_def L(3) rbind_simps dim c if_True if_False R_def[symmetric] r_def[symmetric] rs Rn(1)
          B_def[symmetric] outS
        by simp
    qed
    show ?thesis
    proof (cases "B = []")
      case True
      then have sR: "R = ?s" using outS map_nth[of R] Rn(1) by simp
      have "arangeForceLastDimension (Op (ArangeOp start e step dim) [] ty) = Inr r"
        using True unfolding pattern by simp
      moreover have "map (\<lambda>k. if k = d then i ! d else 0) [0..<?n] = i" if i: "index_of ?s i" for i
        using index_of_nth[OF i] index_of_length[OF i] sR Rn by (intro nth_equalityI) force+
      then have "same_value sc (Op (ArangeOp start e step dim) [] ty) r"
        using evalr by (simp add: same_value_def r_def sR del: eval.simps)
      ultimately show ?thesis using rr(1) by blast
    next
      case nonempty: False
      define ds where "ds = map (\<lambda>i. ?s ! i div R ! i) [0..<?n]"
      have "mapE (\<lambda>(o', i). if i = 0 then Inl DivisionByZero else Inr (o' div i)) (zip ?s R) = Inr (map (\<lambda>(o', i). o' div i) (zip ?s R))"
        using Rn L(1) by (intro mapE_Inr_eq) (auto simp: in_set_zip split: if_splits)
      moreover have "map (\<lambda>(o', i). o' div i) (zip ?s R) = ds" by (rule nth_equalityI) (auto simp: ds_def Rn)
      ultimately have "getBroadcastDimensions R ?s = Inr ds" by (simp add: getBroadcastDimensions_def Rn)
      then have eq: "arangeForceLastDimension (Op (ArangeOp start e step dim) [] ty) = Inr (Op (BroadcastOp ds) [r] ty)"
        using nonempty unfolding pattern by simp
      have "bc R ?s \<noteq> None" using bc Rn unfolding broadcast_rule_def by (auto simp: L_def)
      then have "broadcastVerify bc ds (typeOf r) ty = Inr ()"
        unfolding broadcastVerify_def checks_Inr_iff using Rn L(1) by (auto simp: r_def ds_def L_def)
      then have w': "wf_ttir bc (Op (BroadcastOp ds) [r] ty)" using rr(1) f(8) by (simp add: attrsOk_def)
      have "source (BroadcastOp ds) R ?s i = map (\<lambda>k. if k = d then i ! d else 0) [0..<?n]" if i: "index_of ?s i" for i
        using index_of_nth[OF i dl] index_of_length[OF i] Rn by (intro nth_equalityI) (auto simp: L_def)
      then have "same_value sc (Op (ArangeOp start e step dim) [] ty) (Op (BroadcastOp ds) [r] ty)"
        using evalr eval_copy(1)[OF w' bc, of _ sc] by (simp add: same_value_def r_def del: eval.simps source.simps)
      with eq w' show ?thesis by blast
    qed
  qed
qed

section \<open>Properties\<close>

text \<open>
  C30: The decomposition of \<open>ttir.index\<close> into \<open>ttir.slice\<close> is an equality: on a verified index of a
  tensor without empty dimensions it produces a slice that passes its verifier, of the same shape and
  with the same elements. The result of the index has, besides the indexed one, the dimensions of the input; the verifier
  of the index does not check this. All sizes are below \<open>2 ^ 31\<close>.
\<close>

theorem index_to_slice_correct:
  assumes "wf_ttir bc (Op (IndexOp dim b e st) [x] ty)" and "broadcast_rule bc" and "positive_shape (shapeOf x)"
  shows "\<exists>e'. indexToSlice (Op (IndexOp dim b e st) [x] ty) = Some e' \<and> wf_ttir bc e' \<and> shapeOf e' = tyShape ty
    \<and> (\<forall>i. index_of (tyShape ty) i \<longrightarrow> eval sc e' i = eval sc (Op (IndexOp dim b e st) [x] ty) i)"
proof -
  obtain e' where e': "indexToSlice (Op (IndexOp dim b e st) [x] ty) = Some e'" by simp
  from indexToSlice_sound[OF assms(1,2) _ this, of sc] assms(3) show ?thesis
    unfolding e' by (auto simp: same_value_def simp del: wf_ttir.simps eval.simps indexToSlice.simps)
qed

text \<open>Every second column, from the last one backwards.\<close>

definition demoIndex :: ttir where
  "demoIndex = Op (IndexOp 1 (- 1) 0 (- 2)) [Arg 0 (f32Type [2, 6])] (f32Type [2, 3])"

theorem index_to_slice_correct_witness:
  "\<exists>e'. indexToSlice demoIndex = Some e' \<and> eval demoScalars e' [1, 2] = Some 2"
proof -
  have w: "wf_ttir numpyBroadcast demoIndex" by code_simp
  have "\<forall>i. index_of [2, 3] i \<longrightarrow> eval demoScalars e' i = eval demoScalars demoIndex i" if "indexToSlice demoIndex = Some e'" for e'
    using index_to_slice_correct[OF w[unfolded demoIndex_def] numpyBroadcast_rule, of demoScalars] that
    by (auto simp: demoIndex_def f32Type_def simp del: eval.simps)
  moreover have "index_of [2, 3] [1, 2]" by simp
  moreover have "eval demoScalars demoIndex [1, 2] = Some 2" by code_simp
  moreover obtain e' where "indexToSlice demoIndex = Some e'" by (simp add: demoIndex_def)
  ultimately show ?thesis by metis
qed

text \<open>
  C31: The decomposition of \<open>ttir.select\<close> into slices and a concatenation is an equality: on a
  verified select with a stride, of a tensor without empty dimensions and less than \<open>2 ^ 30\<close> long, no 32-bit
  computation of the pattern overflows, every created op passes its verifier, and the elements are those
  of the select. The result of the select has, besides the selected one, the dimensions of the input; the verifier of the
  select does not check this. All sizes are below \<open>2 ^ 31\<close>.
\<close>

theorem select_to_slices_correct:
  assumes "wf_ttir bc (Op (SelectOp dim b len st) [x] ty)" and "broadcast_rule bc" and "st \<noteq> 0"
    and "positive_shape (shapeOf x)" and "shapeOf x ! normDim dim (length (shapeOf x)) < 2 ^ 30"
  shows "\<exists>e'. selectToSlice (Op (SelectOp dim b len st) [x] ty) = Inr e' \<and> wf_ttir bc e' \<and> shapeOf e' = tyShape ty
    \<and> (\<forall>i. index_of (tyShape ty) i \<longrightarrow> eval sc e' i = eval sc (Op (SelectOp dim b len st) [x] ty) i)"
  using selectToSlice_sound[OF assms, of sc] by (auto simp: same_value_def simp del: wf_ttir.simps eval.simps)

text \<open>Columns 0, 1, 4 and 5 of six, the example of the comment in the code.\<close>

definition demoSelect :: "int \<Rightarrow> ttir" where
  "demoSelect stride = Op (SelectOp 1 0 2 stride) [Arg 0 (f32Type [2, 6])] (f32Type [2, 4])"

theorem select_to_slices_correct_witness:
  "\<exists>e'. selectToSlice (demoSelect 4) = Inr e' \<and> eval demoScalars e' [1, 3] = Some 6"
proof -
  have w: "wf_ttir numpyBroadcast (demoSelect 4)" by code_simp
  have "eval demoScalars (demoSelect 4) [1, 3] = Some 6" by code_simp
  with select_to_slices_correct[OF w[unfolded demoSelect_def] numpyBroadcast_rule, of demoScalars] show ?thesis
    by (auto simp: demoSelect_def f32Type_def normDim_def simp del: eval.simps selectToSlice.simps)
qed

text \<open>With the default stride 0, which the verifier reads as no stride, the pattern divides by zero,
  on every verified select.\<close>

theorem select_without_stride_divides_by_zero:
  assumes "wf_ttir bc (Op (SelectOp dim b len 0) [x] ty)" and "shapeOf x ! normDim dim (length (shapeOf x)) < 2 ^ 30"
  shows "selectToSlice (Op (SelectOp dim b len 0) [x] ty) = Inl DivisionByZero"
proof -
  note f = select_facts_stride[OF assms(1)]
  have "numSlicesOf (shapeOf x ! normDim dim (length (shapeOf x))) b 0 = Inl DivisionByZero"
    using f(9,10) assms(2) by (simp add: numSlicesOf_def int32_def)
  then show ?thesis by (simp only: selectToSlice.simps Let_def f(13,14) nat_int rbind_simps)
qed

theorem select_without_stride_divides_by_zero_witness:
  "selectToSlice (Op (SelectOp 1 0 4 0) [Arg 0 (f32Type [2, 6])] (f32Type [2, 4])) = Inl DivisionByZero"
proof -
  have w: "wf_ttir numpyBroadcast (Op (SelectOp 1 0 4 0) [Arg 0 (f32Type [2, 6])] (f32Type [2, 4]))" by code_simp
  show ?thesis by (rule select_without_stride_divides_by_zero[OF w]) (simp add: f32Type_def normDim_def)
qed

text \<open>The pattern is never called for an arange it leaves as it is: the only verified arange of the shape it
  requires is legal.\<close>

lemma arange_unchanged_is_legal:
  assumes "wf_ttir bc (Op (ArangeOp start e step dim) [] ty)"
    and "arangeForceLastDimension (Op (ArangeOp start e step dim) [] ty) = Inr (Op (ArangeOp start e step dim) [] ty)"
  shows "arangeLegal dim ty"
proof -
  note f = arange_facts[OF assms(1)]
  from assms(2) have "tyShape ty = [tyShape ty ! nat dim]"
    using f(1,4) by (auto simp: Let_def rbind_Inr_iff split: if_splits dest: arg_cong[where f = tyShape])
  then have "length (tyShape ty) = 1" by (metis length_Cons list.size(3) One_nat_def)
  then show ?thesis using f(2,3) by (simp add: arangeLegal_def)
qed

text \<open>
  C33: The pattern that moves an arange to the last dimension is an equality. For a verified arange along any
  dimension, with positive sizes below \<open>2 ^ 31\<close>, the pattern does not fail: the arange of rank one, the reshape and the
  broadcast it creates pass their verifiers, and together give the elements of the arange. (The pass calls the pattern
  only for an arange that is not of rank one along dimension 0.)
\<close>

theorem arange_force_last_dimension_correct:
  assumes "wf_ttir bc (Op (ArangeOp start e step dim) [] ty)" and "broadcast_rule bc" and "positive_shape (tyShape ty)"
  shows "\<exists>e'. arangeForceLastDimension (Op (ArangeOp start e step dim) [] ty) = Inr e' \<and> wf_ttir bc e'
    \<and> shapeOf e' = tyShape ty
    \<and> (\<forall>i. index_of (tyShape ty) i \<longrightarrow> eval sc e' i = Some (scInt sc (start + i ! nat dim * step)))"
  using arange_sound[OF assms, of sc] by (auto simp: same_value_def)

theorem arange_force_last_dimension_correct_witness:
  "\<exists>e'. arangeForceLastDimension (Op (ArangeOp 10 4 (- 2) 0) [] (f32Type [3, 2])) = Inr e' \<and> eval demoScalars e' [2, 1] = Some 6"
proof -
  have w: "wf_ttir numpyBroadcast (Op (ArangeOp 10 4 (- 2) 0) [] (f32Type [3, 2]))" by code_simp
  have "index_of [3, 2] [2, 1]" by simp
  with arange_force_last_dimension_correct[OF w numpyBroadcast_rule, of demoScalars] show ?thesis
    by (fastforce simp: f32Type_def demoScalars_def simp del: eval.simps arangeForceLastDimension.simps)
qed

text \<open>The number of values of an arange is rounded down: the verifier accepts an arange from 0 to 5
  with step 2 only with two values, and rejects the three values 0, 2, 4 that the op's description
  gives for the half-open range.\<close>

lemma arange_rounds_down:
  "arangeVerify 0 5 2 0 (f32Type [2]) = Inr (Inr ()) \<and> arangeVerify 0 5 2 0 (f32Type [3]) \<noteq> Inr (Inr ())"
  by code_simp

end
