(* ===== verification/TTIRDot.thy ===== *)
theory TTIRDot
  imports TTIRDecompose "HOL-Library.Multiset"
begin

text \<open>
  \<open>DotGeneralToMatmulConversionPattern\<close> of \<open>TTIRToTTIRDecomposition.cpp\<close>: a general dot product
  becomes a permutation and a reshape of each operand, a matrix product and a reshape of the
  result. The created program is verified and computes the same sums, term by term.
\<close>

section \<open>The pattern\<close>

definition dimAt :: "shape \<Rightarrow> int \<Rightarrow> fault + int" where
  "dimAt s d = (if d < 0 then Inl OutOfBounds else at s (nat d))"

definition getPermutation :: "int list \<Rightarrow> int list \<Rightarrow> int list \<Rightarrow> int list" where
  "getPermutation batchDims dims1 dims2 = batchDims @ dims1 @ dims2"

definition createPermuteOp :: "ttir \<Rightarrow> int list \<Rightarrow> fault + ttir" where
  "createPermuteOp x permutation =
     rbind (applyPermutation (shapeOf x) (map nat permutation)) (\<lambda>destinationShape.
       Inr (Op (PermuteOp permutation) [x] ((typeOf x)\<lparr>tyShape := destinationShape\<rparr>)))"

definition computeProductOfDims :: "shape \<Rightarrow> int list \<Rightarrow> fault + int" where
  "computeProductOfDims tensorShape dims =
     foldE (\<lambda>dim product. rbind (dimAt tensorShape dim) (\<lambda>n. int64 (product * n))) dims 1"

definition computeMatmulInputShape :: "shape \<Rightarrow> int list \<Rightarrow> int list \<Rightarrow> int list \<Rightarrow> fault + shape" where
  "computeMatmulInputShape tensorShape batchDims contractDims resultDims =
     rbind (mapE (dimAt tensorShape) batchDims) (\<lambda>batch.
     rbind (computeProductOfDims tensorShape contractDims) (\<lambda>contract.
     rbind (computeProductOfDims tensorShape resultDims) (\<lambda>result.
       Inr (batch @ [contract, result]))))"

definition createMatmulFinal :: "ttir \<Rightarrow> ttir_type \<Rightarrow> shape \<Rightarrow> ttir" where
  "createMatmulFinal x type finalShape = Op (ReshapeOp (map i32 finalShape)) [x] (type\<lparr>tyShape := finalShape\<rparr>)"

fun dotGeneralToMatmul :: "ttir \<Rightarrow> fault + ttir" where
  "dotGeneralToMatmul (Op (DotGeneralOp lhsBatchDims lhsContractDims rhsBatchDims rhsContractDims) [lhs, rhs] ty) =
     (let lhsType = typeOf lhs; rhsType = typeOf rhs;
          lhsResultDims = getResultDims lhsBatchDims lhsContractDims (length (tyShape lhsType));
          rhsResultDims = getResultDims rhsBatchDims rhsContractDims (length (tyShape rhsType));
          lhsPermutation = getPermutation lhsBatchDims lhsResultDims lhsContractDims;
          rhsPermutation = getPermutation rhsBatchDims rhsContractDims rhsResultDims
      in rbind (createPermuteOp lhs lhsPermutation) (\<lambda>lhsPermute.
         rbind (createPermuteOp rhs rhsPermutation) (\<lambda>rhsPermute.
         rbind (computeMatmulInputShape (tyShape lhsType) lhsBatchDims lhsResultDims lhsContractDims) (\<lambda>lhsMatmulInputShape.
         rbind (computeMatmulInputShape (tyShape rhsType) rhsBatchDims rhsContractDims rhsResultDims) (\<lambda>rhsMatmulInputShape.
         let lhsMatmulInput = createMatmulFinal lhsPermute lhsType lhsMatmulInputShape;
             rhsMatmulInput = createMatmulFinal rhsPermute rhsType rhsMatmulInputShape
         in rbind (mapE (dimAt (tyShape lhsType)) lhsBatchDims) (\<lambda>batch.
            rbind (computeProductOfDims (tyShape lhsType) lhsResultDims) (\<lambda>lhsResult.
            rbind (computeProductOfDims (tyShape rhsType) rhsResultDims) (\<lambda>rhsResult.
            let matmulOp = Op (MatmulOp False False) [lhsMatmulInput, rhsMatmulInput]
                             (lhsType\<lparr>tyShape := batch @ [lhsResult, rhsResult]\<rparr>)
            in rbind (mapE (dimAt (tyShape lhsType)) lhsResultDims) (\<lambda>lhsDims.
               rbind (mapE (dimAt (tyShape rhsType)) rhsResultDims) (\<lambda>rhsDims.
               let resultShape = batch @ lhsDims @ rhsDims
               in Inr (Op (ReshapeOp (map i32 resultShape)) [matmulOp] (lhsType\<lparr>tyShape := resultShape\<rparr>))))))))))))"
| "dotGeneralToMatmul e = Inr e"

section \<open>Sizes\<close>

abbreviation dims :: "shape \<Rightarrow> int list \<Rightarrow> shape" where
  "dims s ds \<equiv> map (\<lambda>d. s ! nat d) ds"

lemma dims_at: "\<forall>d \<in> set ds. 0 \<le> d \<and> d < int (length s) \<Longrightarrow> mapE (dimAt s) ds = Inr (dims s ds)"
  by (induction ds) (auto simp: dimAt_def nat_less_iff)

lemma dims_product:
  assumes "\<forall>d \<in> set ds. 0 \<le> d \<and> d < int (length s)" and "positive_shape (dims s ds)" and "prod_list (dims s ds) < 2 ^ 63"
  shows "computeProductOfDims s ds = Inr (prod_list (dims s ds))"
proof -
  have "foldE (\<lambda>dim product. rbind (dimAt s dim) (\<lambda>n. int64 (product * n))) ds p = Inr (p * prod_list (dims s ds))"
    if "0 < p" "p * prod_list (dims s ds) < 2 ^ 63" for p
    using assms(1,2) that
  proof (induction ds arbitrary: p)
    case (Cons d ds)
    have "1 \<le> prod_list (dims s ds)" using prod_list_pos[of "dims s ds"] Cons.prems(2) by simp
    moreover have pos: "0 < p * s ! nat d" using Cons.prems(2,3) by simp
    ultimately have "p * s ! nat d * 1 \<le> p * s ! nat d * prod_list (dims s ds)" by (intro mult_left_mono) auto
    then have "p * s ! nat d < 2 ^ 63" using Cons.prems(4) by (simp add: mult.assoc)
    then have "int64 (p * s ! nat d) = Inr (p * s ! nat d)" using pos unfolding int64_def by auto
    then show ?case using Cons.IH[of "p * s ! nat d"] Cons.prems pos by (auto simp: dimAt_def nat_less_iff mult.assoc)
  qed simp
  from this[of 1] assms(3) show ?thesis by (simp add: computeProductOfDims_def)
qed

lemma permuted_product: "is_permutation p (length s) \<Longrightarrow> prod_list (dims s p) = prod_list s"
proof -
  assume "is_permutation p (length s)"
  then have "mset p = mset (map int [0..<length s])" by (metis is_permutation_def mset_sort)
  then have "mset (dims s p) = mset (dims s (map int [0..<length s]))" by (simp only: mset_map)
  then have "prod_list (dims s p) = prod_list (dims s (map int [0..<length s]))" by (simp only: prod_mset_prod_list[symmetric])
  also have "dims s (map int [0..<length s]) = s" by (simp add: o_def map_nth)
  finally show ?thesis .
qed

lemma positive_append [simp]: "positive_shape (s @ t) \<longleftrightarrow> positive_shape s \<and> positive_shape t"
  by (auto simp: positive_shape_def)

section \<open>Row-major indices\<close>

lemma lin_append: "length i = length s \<Longrightarrow> lin (s @ t) (i @ j) = lin s i * prod_list t + lin t j"
proof (induction s i rule: list_induct2')
  case (4 d s k i)
  then show ?case by (simp add: algebra_simps)
qed auto

lemma unlin_lin: "positive_shape s \<Longrightarrow> index_of s i \<Longrightarrow> unlin s (lin s i) = i"
  using lin_unlin[of s "lin s i"] lin_bounds[of s i] lin_inj[of s "unlin s (lin s i)" i] by blast

text \<open>The coordinates a reshape splits or joins.\<close>

lemma unlin_split:
  assumes "positive_shape (b @ r @ c)" and "index_of b ib" and "0 \<le> p" "p < prod_list r" and "0 \<le> q" "q < prod_list c"
  shows "unlin (b @ r @ c) (lin (b @ [prod_list r, prod_list c]) (ib @ [p, q])) = ib @ unlin r p @ unlin c q"
    and "index_of (b @ r @ c) (ib @ unlin r p @ unlin c q)"
proof -
  have r: "index_of r (unlin r p)" "lin r (unlin r p) = p" and c: "index_of c (unlin c q)" "lin c (unlin c q) = q"
    using lin_unlin[of r p] lin_unlin[of c q] assms by auto
  show i: "index_of (b @ r @ c) (ib @ unlin r p @ unlin c q)" using assms(2) r(1) c(1) by (intro index_of_append)
  have "lin (b @ [prod_list r, prod_list c]) (ib @ [p, q]) = lin (b @ r @ c) (ib @ unlin r p @ unlin c q)"
    using r c index_of_length[OF assms(2)] index_of_length[OF r(1)] by (simp add: lin_append algebra_simps)
  with unlin_lin[OF assms(1) i] show "unlin (b @ r @ c) (lin (b @ [prod_list r, prod_list c]) (ib @ [p, q])) = ib @ unlin r p @ unlin c q"
    by simp
qed

lemma unlin_join:
  assumes "positive_shape (b @ r @ c)" and "index_of b ib" and "index_of r ir" and "index_of c ic"
  shows "unlin (b @ [prod_list r, prod_list c]) (lin (b @ r @ c) (ib @ ir @ ic)) = ib @ [lin r ir, lin c ic]"
proof -
  have "lin (b @ r @ c) (ib @ ir @ ic) = lin (b @ [prod_list r, prod_list c]) (ib @ [lin r ir, lin c ic])"
    using index_of_length[OF assms(2)] index_of_length[OF assms(3)] by (simp add: lin_append algebra_simps)
  moreover have "index_of (b @ [prod_list r, prod_list c]) (ib @ [lin r ir, lin c ic])"
    using assms(2) lin_bounds[OF assms(3)] lin_bounds[OF assms(4)] by (intro index_of_append) auto
  moreover have "positive_shape (b @ [prod_list r, prod_list c])" using assms(1) prod_list_pos by auto
  ultimately show ?thesis using unlin_lin by simp
qed

section \<open>An operand, permuted and reshaped\<close>

definition prepared :: "ttir \<Rightarrow> ttir_type \<Rightarrow> int list \<Rightarrow> shape \<Rightarrow> ttir" where
  "prepared x type p finalShape =
     createMatmulFinal (Op (PermuteOp p) [x] ((typeOf x)\<lparr>tyShape := dims (shapeOf x) p\<rparr>)) type finalShape"

lemma reshapeVerify_positive:
  assumes "positive_shape (tyShape ty)" and "tyShape ty \<noteq> []" and "prod_list (tyShape x) = prod_list (tyShape ty)"
  shows "reshapeVerify (tyShape ty) x ty = Inr ()"
  using assms reshapeDims_same[of "tyShape ty" False] by (simp add: reshapeVerify_def checks.simps positive_shape_def)

lemma reshape_wf:
  assumes "wf_ttir bc x" and "\<forall>d \<in> set s. 0 < d \<and> d < 2 ^ 31" and "s \<noteq> []" and "int (length s) < 2 ^ 30"
    and "prod_list (shapeOf x) = prod_list s"
  shows "wf_ttir bc (Op (ReshapeOp (map i32 s)) [x] (ty\<lparr>tyShape := s\<rparr>))"
  using assms reshapeVerify_positive[of "ty\<lparr>tyShape := s\<rparr>" "typeOf x"]
  by (auto simp: i32_small attrsOk_def valid_shape_def positive_shape_def)

lemma permute_wf:
  assumes "wf_ttir bc x" and "is_permutation p (length (shapeOf x))"
  shows "wf_ttir bc (Op (PermuteOp p) [x] ((typeOf x)\<lparr>tyShape := dims (shapeOf x) p\<rparr>))"
proof -
  have v: "valid_shape (shapeOf x)" by (rule wf_valid[OF assms(1)])
  have "set (dims (shapeOf x) p) \<subseteq> set (shapeOf x)"
    using is_permutation_set[OF assms(2)] by auto
  then have "valid_shape (dims (shapeOf x) p)"
    using v is_permutation_set[OF assms(2)] by (auto simp: valid_shape_def)
  then show ?thesis
    using assms permutation_apply[OF assms(2)] by (simp add: permuteVerify_def checks.simps attrsOk_def)
qed

lemma prepared_wf:
  assumes "wf_ttir bc x" and "is_permutation p (length (shapeOf x))"
    and "\<forall>d \<in> set s. 0 < d \<and> d < 2 ^ 31" and "s \<noteq> []" and "int (length s) < 2 ^ 30" and "prod_list s = prod_list (shapeOf x)"
  shows "wf_ttir bc (prepared x ty p s)"
  unfolding prepared_def createMatmulFinal_def
  using assms permuted_product[OF assms(2)] by (intro reshape_wf permute_wf) simp_all

text \<open>Its element at batch, row and column is the operand's element at the coordinates the row and the
  column stand for.\<close>

lemma prepared_eval:
  assumes "wf_ttir bc (prepared x ty p s)" and "broadcast_rule bc"
    and "is_permutation p (length (shapeOf x))" and "dims (shapeOf x) p = b @ r @ c" and "s = b @ [prod_list r, prod_list c]"
    and "positive_shape (b @ r @ c)" and "index_of b ib" and "0 \<le> q" "q < prod_list r" and "0 \<le> k" "k < prod_list c"
  shows "eval sc (prepared x ty p s) (ib @ [q, k]) = eval sc x (atDims p (ib @ unlin r q @ unlin c k))"
proof -
  let ?P = "Op (PermuteOp p) [x] ((typeOf x)\<lparr>tyShape := dims (shapeOf x) p\<rparr>)"
  have w: "wf_ttir bc (Op (ReshapeOp (map i32 s)) [?P] (ty\<lparr>tyShape := s\<rparr>))" using assms(1) by (simp add: prepared_def createMatmulFinal_def)
  then have wp: "wf_ttir bc ?P" by simp
  note u = unlin_split[OF assms(6-11)]
  have "index_of s (ib @ [q, k])" using assms(5,7-11) by (auto intro!: index_of_append)
  then have "eval sc (prepared x ty p s) (ib @ [q, k]) = eval sc ?P (ib @ unlin r q @ unlin c k)"
    using eval_copy(1)[OF w assms(2), of "ib @ [q, k]" sc] u(1) assms(4,5)
    by (simp add: prepared_def createMatmulFinal_def del: eval.simps)
  also have "\<dots> = eval sc x (atDims p (ib @ unlin r q @ unlin c k))"
    using eval_copy(1)[OF wp assms(2), of "ib @ unlin r q @ unlin c k" sc] u(2) assms(4) is_permutation_set[OF assms(3)]
    by (simp add: atDims_def del: eval.simps)
  finally show ?thesis .
qed

section \<open>The product\<close>

lemma plain_matmul_shape:
  assumes "broadcast_rule bc"
  shows "matmulShape bc False False (b @ [R, K]) (b @ [K, C]) = Inr (b @ [R, C])"
  using broadcast_ruleD(4)[OF assms, of b]
  by (auto simp: matmulShape_def lhsShape_def rhsShape_def Let_def nth_append numeral_2_eq_2)

lemma plain_matmul_wf:
  assumes "wf_ttir bc A" and "wf_ttir bc B" and "shapeOf A = b @ [R, K]" and "shapeOf B = b @ [K, C]" and "tyShape ty = b @ [R, C]"
    and "broadcast_rule bc" and "valid_shape (b @ [R, C])"
  shows "wf_ttir bc (Op (MatmulOp False False) [A, B] ty)"
proof -
  have "matmulOutput (b @ [R, C]) (b @ [R, C]) = Inr ()"
    unfolding matmulOutput_def using set_zip_leftD by (auto simp: checks_Inr_iff zip_same)
  then show ?thesis using assms plain_matmul_shape[OF assms(6)] by (simp add: matmulVerify_def attrsOk_def)
qed

lemma plain_matmul_eval:
  assumes "shapeOf A = b @ [R, K]" and "shapeOf B = b @ [K, C]" and "tyShape ty = b @ [R, C]"
    and "index_of b ib" and "0 \<le> p" "p < R" and "0 \<le> q" "q < C"
  shows "eval sc (Op (MatmulOp False False) [A, B] ty) (ib @ [p, q])
    = sumOfProducts sc (map (\<lambda>k. (eval sc A (ib @ [p, int k]), eval sc B (ib @ [int k, q]))) [0..<nat K])"
proof -
  have l: "length ib = length b" by (rule index_of_length[OF assms(4)])
  let ?ins = "[(typeOf A, eval sc A), (typeOf B, eval sc B)]"
  have m: "matrixIndex (b @ [R, K]) (b @ [K, C]) (ib @ [p, q]) = (length b, p, q)"
    using l by (simp add: matrixIndex_def nth_append)
  have rc: "(if R = 1 then 0 else p) = p" "(if C = 1 then 0 else q) = q" using assms(5-8) by auto
  have x: "lhsIndex False (b @ [R, K]) b ib p k = ib @ [p, k]" "rhsIndex False (b @ [K, C]) b ib q k = ib @ [k, q]" for k
    using broadcastIndex_same[OF assms(4)] by (auto simp: lhsIndex_def rhsIndex_def)
  have "readAt ?ins 0 (ib @ [p, int k]) = eval sc A (ib @ [p, int k])" "readAt ?ins 1 (ib @ [int k, q]) = eval sc B (ib @ [int k, q])"
    if "k \<in> set [0..<nat K]" for k
    using assms that index_of_append[OF assms(4), of "[R, K]" "[p, int k]"] index_of_append[OF assms(4), of "[K, C]" "[int k, q]"]
    by (auto simp: readAt_def)
  then have terms: "map (\<lambda>k. (readAt ?ins 0 (ib @ [p, int k]), readAt ?ins 1 (ib @ [int k, q]))) [0..<nat K]
      = map (\<lambda>k. (eval sc A (ib @ [p, int k]), eval sc B (ib @ [int k, q]))) [0..<nat K]"
    by (intro map_cong refl) simp
  have "eval sc (Op (MatmulOp False False) [A, B] ty) (ib @ [p, q]) = evalMatmul sc False False ?ins (b @ [R, C]) (ib @ [p, q])"
    using assms(3) by simp
  also have "\<dots> = sumOfProducts sc (map (\<lambda>k. (readAt ?ins 0 (ib @ [p, int k]), readAt ?ins 1 (ib @ [int k, q]))) [0..<nat K])"
    using l by (simp add: evalMatmul_def assms(1,2) lhsShape_def rhsShape_def m rc x Let_def nth_append)
  finally show ?thesis by (simp only: terms)
qed

section \<open>The pattern is an equality\<close>

lemma parts_bounded:
  assumes "positive_shape (x @ y @ z)" and "prod_list (x @ y @ z) < (n :: int)"
  shows "prod_list x < n" and "prod_list y < n" and "prod_list z < n" and "0 < prod_list y" and "0 < prod_list z"
proof -
  have p: "1 \<le> prod_list x" "1 \<le> prod_list y" "1 \<le> prod_list z"
    using assms(1) prod_list_pos[of x] prod_list_pos[of y] prod_list_pos[of z] by auto
  then show "0 < prod_list y" "0 < prod_list z" by auto
  have "prod_list x * 1 \<le> prod_list x * (prod_list y * prod_list z)" "prod_list y * 1 \<le> prod_list y * (prod_list x * prod_list z)"
    "prod_list z * 1 \<le> prod_list z * (prod_list x * prod_list y)"
    using p by (intro mult_left_mono; use mult_mono[of 1 "prod_list _" 1 "prod_list _"] in force)+
  with assms(2) show "prod_list x < n" "prod_list y < n" "prod_list z < n" by (simp_all add: ac_simps)
qed

lemma dot_pattern:
  assumes shapes: "dotShapes bl cl br cr (shapeOf lhs) (shapeOf rhs) (tyShape ty)"
    and pos: "positive_shape (shapeOf lhs)" "positive_shape (shapeOf rhs)"
    and small: "prod_list (shapeOf lhs) < 2 ^ 31" "prod_list (shapeOf rhs) < 2 ^ 31"
  defines "rl \<equiv> getResultDims bl cl (length (shapeOf lhs))" and "rr \<equiv> getResultDims br cr (length (shapeOf rhs))"
  defines "b \<equiv> dims (shapeOf lhs) bl" and "c \<equiv> dims (shapeOf lhs) cl" and "sl \<equiv> dims (shapeOf lhs) rl" and "sr \<equiv> dims (shapeOf rhs) rr"
  shows "dotGeneralToMatmul (Op (DotGeneralOp bl cl br cr) [lhs, rhs] ty) =
      Inr (Op (ReshapeOp (map i32 (tyShape ty)))
        [Op (MatmulOp False False)
          [prepared lhs (typeOf lhs) (bl @ rl @ cl) (b @ [prod_list sl, prod_list c]),
           prepared rhs (typeOf rhs) (br @ cr @ rr) (b @ [prod_list c, prod_list sr])]
          ((typeOf lhs)\<lparr>tyShape := b @ [prod_list sl, prod_list sr]\<rparr>)]
        ((typeOf lhs)\<lparr>tyShape := tyShape ty\<rparr>))"
    and "positive_shape (b @ sl @ c)" "positive_shape (b @ c @ sr)"
    and "dims (shapeOf lhs) (bl @ rl @ cl) = b @ sl @ c" "dims (shapeOf rhs) (br @ cr @ rr) = b @ c @ sr"
    and "is_permutation (bl @ rl @ cl) (length (shapeOf lhs))" "is_permutation (br @ cr @ rr) (length (shapeOf rhs))"
    and "tyShape ty = b @ sl @ sr"
proof -
  let ?a = "shapeOf lhs" and ?b = "shapeOf rhs"
  have ok: "dimsOk (bl @ cl) (length ?a)" "dimsOk (br @ cr) (length ?b)"
    and eq: "b = dims ?b br" "c = dims ?b cr" and out: "tyShape ty = b @ sl @ sr"
    using shapes by (auto simp: dotShapes_def rl_def rr_def b_def c_def sl_def sr_def)
  show pl: "is_permutation (bl @ rl @ cl) (length ?a)" and pr: "is_permutation (br @ cr @ rr) (length ?b)"
    unfolding rl_def rr_def by (rule dims_permutation(1)[OF ok(1)], rule dims_permutation(2)[OF ok(2)])
  show dl: "dims ?a (bl @ rl @ cl) = b @ sl @ c" and dr: "dims ?b (br @ cr @ rr) = b @ c @ sr"
    using eq by (simp_all add: b_def c_def sl_def sr_def)
  have range: "\<forall>d \<in> set (bl @ rl @ cl). 0 \<le> d \<and> d < int (length ?a)" "\<forall>d \<in> set (br @ cr @ rr). 0 \<le> d \<and> d < int (length ?b)"
    using is_permutation_set[OF pl] is_permutation_set[OF pr] by auto
  have "\<forall>d \<in> set (b @ sl @ c). 0 < d" "\<forall>d \<in> set (b @ c @ sr). 0 < d"
    unfolding dl[symmetric] dr[symmetric] using range pos by (auto simp: positive_shape_nth nat_less_iff)
  then show pb: "positive_shape (b @ sl @ c)" "positive_shape (b @ c @ sr)" by (simp_all only: positive_shape_def)
  have "prod_list (b @ sl @ c) < 2 ^ 63" "prod_list (b @ c @ sr) < 2 ^ 63"
    unfolding dl[symmetric] dr[symmetric] permuted_product[OF pl] permuted_product[OF pr] using small by simp_all
  note bounds = parts_bounded[OF pb(1) this(1)] parts_bounded[OF pb(2) this(2)]
  have prods: "computeProductOfDims ?a rl = Inr (prod_list sl)" "computeProductOfDims ?a cl = Inr (prod_list c)"
    "computeProductOfDims ?b cr = Inr (prod_list c)" "computeProductOfDims ?b rr = Inr (prod_list sr)"
    using bounds range pb dims_product[of rl ?a] dims_product[of cl ?a] dims_product[of cr ?b, folded eq(2)] dims_product[of rr ?b]
    by (simp_all add: sl_def c_def[symmetric] sr_def)
  have ats: "mapE (dimAt ?a) bl = Inr b" "mapE (dimAt ?b) br = Inr b" "mapE (dimAt ?a) rl = Inr sl" "mapE (dimAt ?b) rr = Inr sr"
    using range eq(1) by (simp_all add: dims_at b_def sl_def sr_def)
  have perms: "createPermuteOp lhs (bl @ rl @ cl) = Inr (Op (PermuteOp (bl @ rl @ cl)) [lhs] ((typeOf lhs)\<lparr>tyShape := dims ?a (bl @ rl @ cl)\<rparr>))"
    "createPermuteOp rhs (br @ cr @ rr) = Inr (Op (PermuteOp (br @ cr @ rr)) [rhs] ((typeOf rhs)\<lparr>tyShape := dims ?b (br @ cr @ rr)\<rparr>))"
    unfolding createPermuteOp_def permutation_apply[OF pl] permutation_apply[OF pr] by (simp_all only: rbind_simps)
  show "dotGeneralToMatmul (Op (DotGeneralOp bl cl br cr) [lhs, rhs] ty) =
      Inr (Op (ReshapeOp (map i32 (tyShape ty)))
        [Op (MatmulOp False False)
          [prepared lhs (typeOf lhs) (bl @ rl @ cl) (b @ [prod_list sl, prod_list c]),
           prepared rhs (typeOf rhs) (br @ cr @ rr) (b @ [prod_list c, prod_list sr])]
          ((typeOf lhs)\<lparr>tyShape := b @ [prod_list sl, prod_list sr]\<rparr>)]
        ((typeOf lhs)\<lparr>tyShape := tyShape ty\<rparr>))"
    unfolding dotGeneralToMatmul.simps Let_def getPermutation_def rl_def[symmetric] rr_def[symmetric] computeMatmulInputShape_def
      perms prods ats rbind_simps prepared_def out ..
  show "tyShape ty = b @ sl @ sr" by (rule out)
qed

lemma dot_sound:
  assumes w: "wf_ttir bc (Op (DotGeneralOp bl cl br cr) [lhs, rhs] ty)" and bc: "broadcast_rule bc"
    and pos: "positive_shape (shapeOf lhs)" "positive_shape (shapeOf rhs)"
    and small: "prod_list (shapeOf lhs) < 2 ^ 31" "prod_list (shapeOf rhs) < 2 ^ 31"
    and rank: "rank (typeOf lhs) + 2 < 2 ^ 30" and scalar: "tyShape ty \<noteq> []"
  shows "\<exists>e'. dotGeneralToMatmul (Op (DotGeneralOp bl cl br cr) [lhs, rhs] ty) = Inr e' \<and> wf_ttir bc e'
    \<and> same_value sc (Op (DotGeneralOp bl cl br cr) [lhs, rhs] ty) e'"
proof -
  let ?a = "shapeOf lhs" and ?b = "shapeOf rhs"
  define rl where "rl = getResultDims bl cl (length ?a)"
  define rr where "rr = getResultDims br cr (length ?b)"
  define b where "b = dims ?a bl"
  define c where "c = dims ?a cl"
  define sl where "sl = dims ?a rl"
  define sr where "sr = dims ?b rr"
  have shapes: "dotShapes bl cl br cr ?a ?b (tyShape ty)" and wl: "wf_ttir bc lhs" and wr: "wf_ttir bc rhs"
    and vt: "valid_shape (tyShape ty)" using w by auto
  note d = dot_pattern[OF shapes pos small, folded rl_def rr_def, folded b_def c_def sl_def sr_def]
  define L where "L = prepared lhs (typeOf lhs) (bl @ rl @ cl) (b @ [prod_list sl, prod_list c])"
  define R where "R = prepared rhs (typeOf rhs) (br @ cr @ rr) (b @ [prod_list c, prod_list sr])"
  define M where "M = Op (MatmulOp False False) [L, R] ((typeOf lhs)\<lparr>tyShape := b @ [prod_list sl, prod_list sr]\<rparr>)"
  have pl: "prod_list (b @ sl @ c) = prod_list ?a" and pr: "prod_list (b @ c @ sr) = prod_list ?b"
    unfolding d(4,5)[symmetric] permuted_product[OF d(6)] permuted_product[OF d(7)] by simp_all
  note bl = parts_bounded[OF d(2), unfolded pl, OF small(1)] and br = parts_bounded[OF d(3), unfolded pr, OF small(2)]
  have "length b = length bl" by (simp add: b_def)
  moreover have "length bl \<le> length ?a" using is_permutation_set[OF d(6)] by simp
  ultimately have lb: "int (length b) + 2 < 2 ^ 30" using rank by simp
  have "\<forall>x \<in> set b. x \<in> set (tyShape ty)" by (simp add: d(8))
  then have bs: "\<forall>x \<in> set b. 0 < x \<and> x < 2 ^ 31" using d(2) vt by (auto simp: valid_shape_def positive_shape_def)
  have wL: "wf_ttir bc L" unfolding L_def
    by (rule prepared_wf[OF wl d(6)]) (use bs bl lb pl in auto)
  have wR: "wf_ttir bc R" unfolding R_def
    by (rule prepared_wf[OF wr d(7)]) (use bs br lb pr in auto)
  have sL: "shapeOf L = b @ [prod_list sl, prod_list c]" and sR: "shapeOf R = b @ [prod_list c, prod_list sr]"
    by (simp_all add: L_def R_def prepared_def createMatmulFinal_def)
  have "valid_shape (b @ [prod_list sl, prod_list sr])" using bs bl br lb by (auto simp: valid_shape_def)
  then have wM: "wf_ttir bc M" unfolding M_def
    by (intro plain_matmul_wf[OF wL wR sL sR _ bc]) simp_all
  let ?e = "Op (ReshapeOp (map i32 (tyShape ty))) [M] ((typeOf lhs)\<lparr>tyShape := tyShape ty\<rparr>)"
  have sM: "shapeOf M = b @ [prod_list sl, prod_list sr]" by (simp add: M_def)
  have post: "positive_shape (b @ sl @ sr)" using d(2,3) by simp
  have "wf_ttir bc ?e"
    by (rule reshape_wf[OF wM]) (use post vt scalar d(8) sM in \<open>auto simp: valid_shape_def positive_shape_def\<close>)
  moreover have "eval sc ?e i = eval sc (Op (DotGeneralOp bl cl br cr) [lhs, rhs] ty) i" if i: "index_of (tyShape ty) i" for i
  proof -
    obtain ib il ir where parts: "dotParts bl rl i = (ib, il, ir)" by (cases "dotParts bl rl i")
    note q = dotParts_in[OF shapes i, folded rl_def rr_def, OF parts, folded b_def sl_def sr_def]
    have ul: "unlin sl (lin sl il) = il" and ur: "unlin sr (lin sr ir) = ir"
      using unlin_lin[OF _ q(2)] unlin_lin[OF _ q(3)] post by auto
    have b: "0 \<le> lin sl il" "lin sl il < prod_list sl" "0 \<le> lin sr ir" "lin sr ir < prod_list sr"
      using lin_bounds[OF q(2)] lin_bounds[OF q(3)] by auto
    have "eval sc ?e i = eval sc M (ib @ [lin sl il, lin sr ir])"
      using eval_copy(1)[OF calculation bc, of i sc] i q(4) unlin_join[OF post q(1,2,3)] by (simp add: d(8) sM del: eval.simps)
    also have "\<dots> = sumOfProducts sc (map (\<lambda>k. (eval sc L (ib @ [lin sl il, int k]), eval sc R (ib @ [int k, lin sr ir]))) [0..<nat (prod_list c)])"
      unfolding M_def by (rule plain_matmul_eval[OF sL sR _ q(1) b]) simp
    also have "map (\<lambda>k. (eval sc L (ib @ [lin sl il, int k]), eval sc R (ib @ [int k, lin sr ir]))) [0..<nat (prod_list c)]
      = map (\<lambda>k. let ik = unlin c (int k)
                 in (readAt [(typeOf lhs, eval sc lhs), (typeOf rhs, eval sc rhs)] 0 (atDims (bl @ rl @ cl) (ib @ il @ ik)),
                     readAt [(typeOf lhs, eval sc lhs), (typeOf rhs, eval sc rhs)] 1 (atDims (br @ cr @ rr) (ib @ ik @ ir))))
          [0..<nat (prod_list c)]"
    proof (intro map_cong refl)
      fix k assume "k \<in> set [0..<nat (prod_list c)]"
      then have k: "0 \<le> int k" "int k < prod_list c" by auto
      have ik: "index_of c (unlin c (int k))" using lin_unlin[of c "int k"] d(2) k by auto
      have eL: "eval sc L (ib @ [lin sl il, int k]) = eval sc lhs (atDims (bl @ rl @ cl) (ib @ il @ unlin c (int k)))"
        using prepared_eval[OF wL[unfolded L_def] bc d(6) d(4) refl d(2) q(1) b(1,2) k, of sc] by (simp add: L_def ul)
      have eR: "eval sc R (ib @ [int k, lin sr ir]) = eval sc rhs (atDims (br @ cr @ rr) (ib @ unlin c (int k) @ ir))"
        using prepared_eval[OF wR[unfolded R_def] bc d(7) d(5) refl d(3) q(1) k b(3,4), of sc] by (simp add: R_def ur)
      note t = dot_terms_in[OF shapes i, folded rl_def rr_def, OF parts, folded c_def, OF ik]
      show "(eval sc L (ib @ [lin sl il, int k]), eval sc R (ib @ [int k, lin sr ir])) =
        (let ik = unlin c (int k)
         in (readAt [(typeOf lhs, eval sc lhs), (typeOf rhs, eval sc rhs)] 0 (atDims (bl @ rl @ cl) (ib @ il @ ik)),
             readAt [(typeOf lhs, eval sc lhs), (typeOf rhs, eval sc rhs)] 1 (atDims (br @ cr @ rr) (ib @ ik @ ir))))"
        using t eL eR by (simp add: readAt_def Let_def)
    qed
    also have "sumOfProducts sc \<dots> = eval sc (Op (DotGeneralOp bl cl br cr) [lhs, rhs] ty) i"
      using parts unfolding dotParts_def by (simp add: evalDot_def Let_def rl_def[symmetric] rr_def[symmetric] c_def[symmetric])
    finally show ?thesis .
  qed
  ultimately show ?thesis
    using d(1) unfolding L_def[symmetric] R_def[symmetric] M_def[symmetric] by (auto simp: same_value_def simp del: wf_ttir.simps eval.simps)
qed

text \<open>C34: The decomposition of \<open>ttir.dot_general\<close> is an equality: for operands without empty dimensions
  and of less than 2^31 elements, and a result of at least one dimension (the reshape verifier rejects
  the empty shape), no computation of the pattern overflows, every created op passes its verifier, and
  each element is the same sum of products, with the terms in the same order.\<close>

theorem dot_general_to_matmul_correct:
  assumes "wf_ttir bc (Op (DotGeneralOp bl cl br cr) [lhs, rhs] ty)" and "broadcast_rule bc"
    and "positive_shape (shapeOf lhs)" and "positive_shape (shapeOf rhs)"
    and "prod_list (shapeOf lhs) < 2 ^ 31" and "prod_list (shapeOf rhs) < 2 ^ 31"
    and "rank (typeOf lhs) + 2 < 2 ^ 30" and "tyShape ty \<noteq> []"
  shows "\<exists>e'. dotGeneralToMatmul (Op (DotGeneralOp bl cl br cr) [lhs, rhs] ty) = Inr e' \<and> wf_ttir bc e'
    \<and> shapeOf e' = tyShape ty
    \<and> (\<forall>i. index_of (tyShape ty) i \<longrightarrow> eval sc e' i = eval sc (Op (DotGeneralOp bl cl br cr) [lhs, rhs] ty) i)"
  using dot_sound[OF assms, of sc]
  by (auto simp: same_value_def simp del: wf_ttir.simps eval.simps dotGeneralToMatmul.simps)

text \<open>A batch dimension first on the left and in the middle on the right.\<close>

definition demoDot :: ttir where
  "demoDot = Op (DotGeneralOp [0] [2] [1] [0]) [Arg 0 (f32Type [2, 2, 3]), Arg 1 (f32Type [3, 2, 2])] (f32Type [2, 2, 2])"

theorem dot_general_to_matmul_correct_witness:
  "\<exists>e'. dotGeneralToMatmul demoDot = Inr e' \<and> eval demoScalars e' [1, 0, 1] = Some 20"
proof -
  have w: "wf_ttir numpyBroadcast demoDot" by code_simp
  have "eval demoScalars demoDot [1, 0, 1] = Some 20" by code_simp
  with dot_general_to_matmul_correct[OF w[unfolded demoDot_def] numpyBroadcast_rule, of demoScalars] show ?thesis
    by (auto simp: demoDot_def f32Type_def simp del: eval.simps dotGeneralToMatmul.simps)
qed

end
