(* ===== verification/TTIRWindows.thy ===== *)
theory TTIRWindows
  imports TTIRVerify
begin

text \<open>
  The verifiers of the TTIR ops that slide a window over their input (\<open>Conv2dOp\<close>,
  \<open>ConvTranspose2dOp\<close>, \<open>ConvolutionOp\<close>, the pooling ops), with the attributes of one, two or four
  integers they take.

  The verifiers mix \<open>int32_t\<close>, \<open>uint32_t\<close> and \<open>int64_t\<close>: the conversions are written out as \<open>i32\<close>
  and \<open>u32\<close>. A division by zero groups is a fault.
\<close>

section \<open>Integer attributes\<close>

definition u32 :: "int \<Rightarrow> int" where
  "u32 x = x mod 2 ^ 32"

lemma u32_id [simp]: "0 \<le> x \<Longrightarrow> x < 2 ^ 32 \<Longrightarrow> u32 x = x"
  by (simp add: u32_def)

text \<open>\<open>I32Attr\<close> or \<open>DenseI32ArrayAttr\<close>.\<close>

datatype int_attr = IntAttr int | ArrayAttr "int list"

fun getPairOfInteger :: "int_attr \<Rightarrow> string + int \<times> int" where
  "getPairOfInteger (IntAttr v) = Inr (v, v)"
| "getPairOfInteger (ArrayAttr vs) =
     (if length vs = 2 then Inr (vs ! 0, vs ! 1) else Inl ''Expected integer or pair of integers, got tuple of size'')"

fun getQuadrupleOfInteger :: "int_attr \<Rightarrow> string + int \<times> int \<times> int \<times> int" where
  "getQuadrupleOfInteger (IntAttr v) = Inr (v, v, v, v)"
| "getQuadrupleOfInteger (ArrayAttr vs) =
     (if length vs = 2 then Inr (vs ! 0, vs ! 1, vs ! 0, vs ! 1)
      else if length vs = 4 then Inr (vs ! 0, vs ! 1, vs ! 2, vs ! 3)
      else Inl ''Expected integer, pair, or tuple of size 4, but got tuple of size'')"

text \<open>Verifiers that may also run into undefined behaviour: a verdict, or a fault.\<close>

definition onPass :: "string + 'a \<Rightarrow> ('a \<Rightarrow> fault + (string + 'b)) \<Rightarrow> fault + (string + 'b)" where
  "onPass v f = (case v of Inl message \<Rightarrow> Inr (Inl message) | Inr x \<Rightarrow> f x)"

lemma onPass_simps [simp]: "onPass (Inl message) f = Inr (Inl message)" "onPass (Inr x) f = f x"
  by (simp_all add: onPass_def)

lemma onPass_pass: "onPass v f = Inr (Inr u) \<longleftrightarrow> (\<exists>x. v = Inr x \<and> f x = Inr (Inr u))"
  by (simp add: onPass_def split: sum.splits)

definition onPassE :: "fault + (string + 'a) \<Rightarrow> ('a \<Rightarrow> fault + (string + 'b)) \<Rightarrow> fault + (string + 'b)" where
  "onPassE m f = rbind m (\<lambda>v. onPass v f)"

lemma onPassE_simps [simp]:
  "onPassE (Inl e) f = Inl e" "onPassE (Inr (Inl message)) f = Inr (Inl message)" "onPassE (Inr (Inr x)) f = f x"
  by (simp_all add: onPassE_def)

lemma onPassE_pass: "onPassE m f = Inr (Inr u) \<longleftrightarrow> (\<exists>x. m = Inr (Inr x) \<and> f x = Inr (Inr u))"
  by (simp add: onPassE_def rbind_Inr_iff) (metis onPass_pass)

text \<open>When no fault occurs.\<close>

lemma onPass_ok: "(\<exists>v. onPass m f = Inr v) \<longleftrightarrow> (\<forall>x. m = Inr x \<longrightarrow> (\<exists>v. f x = Inr v))"
  by (auto simp: onPass_def split: sum.splits)

lemma onPassE_ok:
  "(\<exists>v. onPassE m f = Inr v) \<longleftrightarrow> (\<exists>v. m = Inr v) \<and> (\<forall>x. m = Inr (Inr x) \<longrightarrow> (\<exists>v. f x = Inr v))"
  by (auto simp: onPassE_def onPass_def rbind_def split: sum.splits)

section \<open>Conv2dOp\<close>

record flat_info =
  fiBatchSize :: int
  fiInputHeight :: int
  fiInputWidth :: int

record conv_attrs =
  caStride :: int_attr
  caPadding :: int_attr
  caDilation :: int_attr
  caGroups :: int
  caFlat :: "flat_info option"

definition isBiasCompatible :: "ttir_type \<Rightarrow> shape \<Rightarrow> bool" where
  "isBiasCompatible weight bias \<longleftrightarrow> bias ! 0 = 1 \<and> bias ! 1 = 1 \<and> bias ! 2 = 1 \<and> bias ! 3 = tyShape weight ! 0"

text \<open>The size of an output dimension, and the check that the window fits into the padded input.\<close>

definition windowFits :: "int \<Rightarrow> int \<Rightarrow> int \<Rightarrow> int \<Rightarrow> bool" where
  "windowFits inputSize padding kernelSize dilation \<longleftrightarrow>
     \<not> u32 (inputSize + padding) < u32 (kernelSize + (kernelSize - 1) * (dilation - 1))"

definition calculatedOut :: "int \<Rightarrow> int \<Rightarrow> int \<Rightarrow> int \<Rightarrow> int \<Rightarrow> int" where
  "calculatedOut inputSize padding kernelSize dilation stride =
     i32 ((u32 (inputSize + padding) - dilation * (kernelSize - 1) - 1) sdiv stride + 1)"

text \<open>The batch size, height and width of the input: its own, or those it had before it was flattened.\<close>

definition windowInput :: "flat_info option \<Rightarrow> ttir_type \<Rightarrow> int \<times> int \<times> int" where
  "windowInput flat input =
     (case flat of
        None \<Rightarrow> (u32 (tyShape input ! 0), u32 (tyShape input ! 1), u32 (tyShape input ! 2))
      | Some info \<Rightarrow> (u32 (fiBatchSize info), u32 (fiInputHeight info), u32 (fiInputWidth info)))"

definition conv2dShapeChecks :: "flat_info option \<Rightarrow> ttir_type option \<Rightarrow> ttir_type \<Rightarrow> ttir_type \<Rightarrow> ttir_type \<Rightarrow> verdict" where
  "conv2dShapeChecks flat bias input weight output =
     (let (batchSize, inputHeight, inputWidth) = windowInput flat input
      in checks ([(rank input = 4, ''Input must be a 4D tensor''), (rank output = 4, ''Output must be a 4D tensor''),
                  (rank weight = 4, ''Weight must be a 4D tensor'')]
         @ (case bias of None \<Rightarrow> [] | Some b \<Rightarrow>
              [(rank b = 4, ''Bias must be a 4D tensor''), (isBiasCompatible weight (tyShape b), ''Bias should have shape [1, 1, 1, '')])
         @ [(flat \<noteq> None \<or> tyShape input ! 0 = tyShape output ! 0, ''Batch size from the input tensor''),
            (flat = None \<or> tyShape input ! 2 = u32 (batchSize * inputHeight * inputWidth), ''Expected dim 2 of the input tensor to have size'')]))"

definition conv2dAttrChecks :: "conv_attrs \<Rightarrow> fault + (string + (int \<times> int) \<times> (int \<times> int) \<times> (int \<times> int))" where
  "conv2dAttrChecks a =
     onPass (getPairOfInteger (caStride a)) (\<lambda>(strideH, strideW).
     onPass (checks [(1 \<le> strideH \<and> 1 \<le> strideW, ''Stride attribute values must be greater than 0'')]) (\<lambda>_.
     onPass (getQuadrupleOfInteger (caPadding a)) (\<lambda>(paddingTop, paddingLeft, paddingBottom, paddingRight).
     onPass (checks [(0 \<le> paddingTop \<and> 0 \<le> paddingBottom \<and> 0 \<le> paddingLeft \<and> 0 \<le> paddingRight,
              ''Padding attribute values must be greater than or equal to 0'')]) (\<lambda>_.
     rbind (int32 (paddingTop + paddingBottom)) (\<lambda>verticalPadding.
     rbind (int32 (paddingLeft + paddingRight)) (\<lambda>horizontalPadding.
     onPass (getPairOfInteger (caDilation a)) (\<lambda>(dilationH, dilationW).
     onPass (checks [(1 \<le> dilationH \<and> 1 \<le> dilationW, ''Dilation attribute values must be greater than 0'')]) (\<lambda>_.
       Inr (Inr ((strideH, strideW), (verticalPadding, horizontalPadding), (dilationH, dilationW)))))))))))"

definition conv2dVerify :: "conv_attrs \<Rightarrow> ttir_type option \<Rightarrow> ttir_type \<Rightarrow> ttir_type \<Rightarrow> ttir_type \<Rightarrow> fault + verdict" where
  "conv2dVerify a bias input weight output =
     onPass (conv2dShapeChecks (caFlat a) bias input weight output) (\<lambda>_.
     onPassE (conv2dAttrChecks a) (\<lambda>((strideH, strideW), (verticalPadding, horizontalPadding), (dilationH, dilationW)).
     let (batchSize, inputHeight, inputWidth) = windowInput (caFlat a) input;
         inChannels = u32 (tyShape input ! 3);
         outChannels = u32 (tyShape output ! 3);
         kernelH = tyShape weight ! 2;
         kernelW = tyShape weight ! 3;
         groups = u32 (caGroups a)
     in onPass (checks [(windowFits inputHeight verticalPadding kernelH dilationH \<and> windowFits inputWidth horizontalPadding kernelW dilationW,
          ''Calculated padded input size per channel'')]) (\<lambda>_.
     if groups = 0 then Inl DivisionByZero
     else let hOut = calculatedOut inputHeight verticalPadding kernelH dilationH strideH;
              wOut = calculatedOut inputWidth horizontalPadding kernelW dilationW strideW
          in onPass (checks
            [(inChannels mod groups = 0, ''Number of input channels from input tensor must be divisible by the number of groups''),
             (outChannels mod groups = 0, ''Number of output channels from output tensor must be divisible by the number of groups''),
             (outChannels = tyShape weight ! 0, ''Number of output channels from output tensor must match the first dimension of the weight tensor''),
             (inChannels div groups = tyShape weight ! 1, ''Number of input channels per group must match the second dimension of the weight tensor''),
             (case bias of None \<Rightarrow> True | Some b \<Rightarrow> tyShape b ! 3 = outChannels, ''Mismatch in bias tensor dimensions'')]) (\<lambda>_.
          case caFlat a of
            None \<Rightarrow> Inr (checks [(hOut = tyShape output ! 1 \<and> wOut = tyShape output ! 2, ''Mismatch between calculated and got output height and width'')])
          | Some info \<Rightarrow> rbind (int32 (hOut * wOut)) (\<lambda>places.
              Inr (checks [(u32 (places * batchSize) = tyShape output ! 2, ''Mismatch between calculated flatten dimension and output type'')]))))))"

section \<open>ConvTranspose2dOp\<close>

record conv_transpose_attrs =
  ctStride :: int_attr
  ctPadding :: int_attr
  ctOutputPadding :: int_attr
  ctDilation :: int_attr
  ctGroups :: int

definition convTransposeShapeChecks :: "ttir_type option \<Rightarrow> ttir_type \<Rightarrow> ttir_type \<Rightarrow> ttir_type \<Rightarrow> verdict" where
  "convTransposeShapeChecks bias input weight output =
     checks ([(rank input = 4, ''Input must be a 4D tensor''), (rank output = 4, ''Output must be a 4D tensor''),
              (rank weight = 4, ''Weight must be a 4D tensor'')]
       @ (case bias of None \<Rightarrow> [] | Some b \<Rightarrow> [(rank b = 4, ''Bias must be a 4D tensor'')])
       @ [(tyShape input ! 0 = tyShape output ! 0, ''Batch size of input and output tensors must match'')])"

definition convTransposeAttrChecks ::
  "conv_transpose_attrs \<Rightarrow> fault + (string + (int \<times> int) \<times> (int \<times> int) \<times> (int \<times> int) \<times> (int \<times> int))" where
  "convTransposeAttrChecks a =
     onPass (getPairOfInteger (ctStride a)) (\<lambda>(strideH, strideW).
     onPass (checks [(1 \<le> strideH \<and> 1 \<le> strideW, ''Stride values must be greater than 0'')]) (\<lambda>_.
     onPass (getQuadrupleOfInteger (ctPadding a)) (\<lambda>(paddingTop, paddingLeft, paddingBottom, paddingRight).
     onPass (checks [(0 \<le> paddingTop \<and> 0 \<le> paddingBottom \<and> 0 \<le> paddingLeft \<and> 0 \<le> paddingRight,
              ''Padding values must be greater or equal than 0'')]) (\<lambda>_.
     rbind (int32 (paddingTop + paddingBottom)) (\<lambda>verticalPadding.
     rbind (int32 (paddingLeft + paddingRight)) (\<lambda>horizontalPadding.
     onPass (getPairOfInteger (ctOutputPadding a)) (\<lambda>(outputPaddingH, outputPaddingW).
     onPass (checks [(0 \<le> outputPaddingH \<and> 0 \<le> outputPaddingW, ''Output padding values must be greater or equal than 0'')]) (\<lambda>_.
     onPass (getPairOfInteger (ctDilation a)) (\<lambda>(dilationH, dilationW).
     onPass (checks [(1 \<le> dilationH \<and> 1 \<le> dilationW, ''Dilation values must be greater than 0'')]) (\<lambda>_.
       Inr (Inr ((strideH, strideW), (verticalPadding, horizontalPadding), (outputPaddingH, outputPaddingW), (dilationH, dilationW)))))))))))))"

text \<open>The expected size of an output dimension, computed from left to right in \<open>int32_t\<close>.\<close>

definition expectedOut :: "int \<Rightarrow> int \<Rightarrow> int \<Rightarrow> int \<Rightarrow> int \<Rightarrow> int \<Rightarrow> fault + int" where
  "expectedOut inputSize stride padding dilation kernelSize outputPadding =
     rbind (int32 (inputSize - 1)) (\<lambda>places.
     rbind (int32 (places * stride)) (\<lambda>offset.
     rbind (int32 (offset - padding)) (\<lambda>begin'.
     rbind (int32 (kernelSize - 1)) (\<lambda>gaps.
     rbind (int32 (dilation * gaps)) (\<lambda>reach.
     rbind (int32 (begin' + reach)) (\<lambda>end'.
     rbind (int32 (end' + outputPadding)) (\<lambda>padded.
       int32 (padded + 1))))))))"

text \<open>A channel count is an \<open>int32_t\<close>, which an operation with the \<open>uint32_t\<close> groups converts.\<close>

definition convTranspose2dVerify ::
  "conv_transpose_attrs \<Rightarrow> ttir_type option \<Rightarrow> ttir_type \<Rightarrow> ttir_type \<Rightarrow> ttir_type \<Rightarrow> fault + verdict" where
  "convTranspose2dVerify a bias input weight output =
     onPass (convTransposeShapeChecks bias input weight output) (\<lambda>_.
     onPassE (convTransposeAttrChecks a) (\<lambda>((strideH, strideW), (verticalPadding, horizontalPadding),
         (outputPaddingH, outputPaddingW), (dilationH, dilationW)).
     let inputChannels = i32 (tyShape input ! 3);
         outputChannels = i32 (tyShape output ! 3);
         groups = u32 (ctGroups a)
     in if groups = 0 then Inl DivisionByZero
        else onPass (checks
               [(u32 inputChannels mod groups = 0, ''Number of input channels from input tensor must be divisible by the number of groups''),
                (u32 outputChannels mod groups = 0, ''Number of output channels from output tensor must be divisible by the number of groups''),
                (inputChannels = tyShape weight ! 0, ''Number of input channels from input tensor must match the first dimension of the weight tensor''),
                (u32 outputChannels div groups = tyShape weight ! 1, ''Number of output channels per group must match the second dimension of the weight tensor''),
                (case bias of None \<Rightarrow> True | Some b \<Rightarrow> tyShape b ! 3 = outputChannels, ''Mismatch in bias tensor dimensions'')]) (\<lambda>_.
             rbind (expectedOut (i32 (tyShape input ! 1)) strideH verticalPadding dilationH (i32 (tyShape weight ! 2)) outputPaddingH) (\<lambda>expectedH.
             rbind (expectedOut (i32 (tyShape input ! 2)) strideW horizontalPadding dilationW (i32 (tyShape weight ! 3)) outputPaddingW) (\<lambda>expectedW.
               Inr (checks
                 [(0 \<le> expectedH \<and> 0 \<le> expectedW, ''Output size is too small''),
                  (i32 (tyShape output ! 1) = expectedH \<and> i32 (tyShape output ! 2) = expectedW,
                   ''Mismatch between expected output size per channel and got output tensor dimensions'')]))))))"

section \<open>ConvolutionOp and PoolingOp\<close>

record convolution_layout =
  clInputBatch :: int
  clInputFeature :: int
  clInputSpatial :: "int list"
  clKernelOutputFeature :: int
  clKernelInputFeature :: int
  clKernelSpatial :: "int list"
  clOutputBatch :: int
  clOutputFeature :: int
  clOutputSpatial :: "int list"

definition convolutionVerify :: "convolution_layout \<Rightarrow> int list \<Rightarrow> ttir_type option \<Rightarrow> ttir_type \<Rightarrow> ttir_type \<Rightarrow> verdict" where
  "convolutionVerify l windowStrides bias input weight =
     checks [(length (clInputSpatial l) = length (clOutputSpatial l),
                ''Convolution input, output, and kernel must have the same number of spatial dimensions''),
             (length (clInputSpatial l) = length (clKernelSpatial l),
                ''Convolution input, output, and kernel must have the same number of spatial dimensions''),
             (rank input - 2 = int (length (clInputSpatial l)),
                ''Input tensor must have the same number of spatial dimensions as specified in the ConvolutionLayout''),
             (rank weight - 2 = int (length (clKernelSpatial l)),
                ''Weight tensor must have the same number of spatial dimensions as specified in the ConvolutionLayout''),
             (case bias of None \<Rightarrow> True | Some b \<Rightarrow> rank b = 4, ''Bias must be a 4D tensor''),
             (length windowStrides = length (clInputSpatial l),
                ''Window strides must have the same number of elements as the spatial dimensions of the input tensor'')]"

definition poolingVerify :: "int list \<Rightarrow> int list \<Rightarrow> int list \<Rightarrow> int list \<Rightarrow> ttir_type list \<Rightarrow> verdict" where
  "poolingVerify windowStrides windowDilations windowDimensions padding inputs =
     (let inputRank = length (tyShape (hd inputs))
      in checks (map (\<lambda>input. (length (tyShape input) = inputRank, ''All input tensors must have the same rank'')) inputs
         @ [(length windowStrides = inputRank, ''Window strides must have the same number of elements''),
            (length windowDilations = inputRank, ''Window dilations must have the same number of elements''),
            (length windowDimensions = inputRank, ''Window dimensions must have the same number of elements''),
            (length padding = 2 * inputRank, ''Padding must have the same number of elements as twice the rank'')]))"

text \<open>The common verifier of \<open>AvgPool2dOp\<close> and \<open>MaxPool2dOp\<close>. Two of its checks compare a size with itself.\<close>

definition verifyPoolingOp :: "flat_info option \<Rightarrow> int \<Rightarrow> int \<Rightarrow> ttir_type \<Rightarrow> ttir_type \<Rightarrow> verdict" where
  "verifyPoolingOp flat kernelHeight kernelWidth input output =
     (let inputHeight = (case flat of None \<Rightarrow> tyShape input ! 1 | Some info \<Rightarrow> fiInputHeight info);
          inputWidth = (case flat of None \<Rightarrow> tyShape input ! 2 | Some info \<Rightarrow> fiInputWidth info);
          inChannels = tyShape input ! 3;
          outChannels = tyShape output ! 3
      in checks [(rank input = 4, ''Input tensor rank must be 4''), (rank output = 4, ''Output tensor rank must be 4''),
                 (case flat of None \<Rightarrow> True | Some info \<Rightarrow> tyShape input ! 2 = fiBatchSize info * inputHeight * inputWidth,
                    ''Expected dim 2 of the input tensor to have size''),
                 (flat \<noteq> None \<or> tyShape input ! 0 = tyShape output ! 0, ''Batch size from the input tensor''),
                 (outChannels = tyShape output ! 3, ''Expected dim 3 of the output tensor to have size''),
                 (inChannels = tyShape input ! 3, ''Expected dim 3 of the input tensor to have size''),
                 (outChannels = inChannels, ''Output tensor channels''),
                 (kernelHeight \<le> inputHeight, ''Kernel height''),
                 (kernelWidth \<le> inputWidth, ''Kernel width'')])"

section \<open>Flattening\<close>

text \<open>The pass \<open>TTIRFlattenSlidingWindow\<close>: the batch, height and width of the input and the output become one
  dimension, and the op remembers those of its input.\<close>

definition getNHWFlattenedType :: "ttir_type \<Rightarrow> fault + ttir_type" where
  "getNHWFlattenedType unflattened =
     rbind (assertE SiteRank (length (tyShape unflattened) = 4)) (\<lambda>_.
     let s = tyShape unflattened
     in Inr \<lparr>tyShape = [1, 1, s ! 0 * s ! 1 * s ! 2, s ! 3], tyElem = tyElem unflattened, tyEncoding = None\<rparr>)"

definition flatInfoOf :: "ttir_type \<Rightarrow> flat_info" where
  "flatInfoOf input = \<lparr>fiBatchSize = tyShape input ! 0, fiInputHeight = tyShape input ! 1, fiInputWidth = tyShape input ! 2\<rparr>"

definition flattenConv2d :: "conv_attrs \<Rightarrow> ttir_type \<Rightarrow> ttir_type \<Rightarrow> fault + conv_attrs \<times> ttir_type \<times> ttir_type" where
  "flattenConv2d a input output =
     rbind (getNHWFlattenedType input) (\<lambda>flatInput.
     rbind (getNHWFlattenedType output) (\<lambda>flatOutput.
       Inr (a\<lparr>caFlat := Some (flatInfoOf input)\<rparr>, flatInput, flatOutput)))"

definition flattenPooling :: "ttir_type \<Rightarrow> ttir_type \<Rightarrow> fault + flat_info \<times> ttir_type \<times> ttir_type" where
  "flattenPooling input output =
     rbind (getNHWFlattenedType input) (\<lambda>flatInput.
     rbind (getNHWFlattenedType output) (\<lambda>flatOutput. Inr (flatInfoOf input, flatInput, flatOutput)))"

text \<open>The reshapes around the op: the shape attribute is narrowed to 32 bits.\<close>

definition generateReshape :: "ttir_type \<Rightarrow> int list" where
  "generateReshape outputType = map i32 (tyShape outputType)"

end
