(* ===== verification/TTIRWindowFacts.thy ===== *)
theory TTIRWindowFacts
  imports TTIRWindows
begin

text \<open>
  What the verifiers of the sliding window ops accept: the output of a convolution has an element for every
  place of the window in the padded input; a transposed convolution undoes the shape of a convolution; and
  flattening keeps a convolution or a pooling op verified.
\<close>

section \<open>Places of a window\<close>

text \<open>The window at \<open>place\<close> stays inside the padded input.\<close>

definition windowInside :: "int \<Rightarrow> int \<Rightarrow> int \<Rightarrow> int \<Rightarrow> int \<Rightarrow> int \<Rightarrow> bool" where
  "windowInside inputSize padding kernelSize dilation stride place \<longleftrightarrow>
     0 \<le> place \<and> (\<forall>k. 0 \<le> k \<longrightarrow> k < kernelSize \<longrightarrow> place * stride + k * dilation < inputSize + padding)"

lemma windowInside_iff:
  assumes "1 \<le> kernelSize" and "0 \<le> dilation"
  shows "windowInside inputSize padding kernelSize dilation stride place \<longleftrightarrow>
    0 \<le> place \<and> place * stride + (kernelSize - 1) * dilation < inputSize + padding"
proof -
  have "place * stride + k * dilation < inputSize + padding"
    if "place * stride + (kernelSize - 1) * dilation < inputSize + padding" "k < kernelSize" for k
    using mult_right_mono[of k "kernelSize - 1" dilation] that assms(2) by linarith
  with assms(1) show ?thesis unfolding windowInside_def by force
qed

text \<open>Sizes and attributes below \<open>2 ^ 15\<close>, so that no conversion between the integer types changes a value.\<close>

definition small :: "int \<Rightarrow> bool" where
  "small x \<longleftrightarrow> x < 2 ^ 15"

lemma small_product: "small a \<Longrightarrow> small b \<Longrightarrow> 0 \<le> a \<Longrightarrow> 0 \<le> b \<Longrightarrow> a * b < 2 ^ 30"
  using mult_mono[of a "2 ^ 15 - 1" b "2 ^ 15 - 1"] by (simp add: small_def)

lemma small_window:
  assumes "small kernelSize" and "small dilation" and "1 \<le> kernelSize" and "1 \<le> dilation"
  shows "0 \<le> dilation * (kernelSize - 1)" and "dilation * (kernelSize - 1) < 2 ^ 30"
    and "kernelSize + (kernelSize - 1) * (dilation - 1) = dilation * (kernelSize - 1) + 1"
proof -
  show "0 \<le> dilation * (kernelSize - 1)" using assms(3,4) by simp
  show "dilation * (kernelSize - 1) < 2 ^ 30" using small_product[of dilation "kernelSize - 1"] assms by (simp add: small_def)
qed (simp add: algebra_simps)

lemma mult_le_div_iff: "1 \<le> s \<Longrightarrow> x * s \<le> y \<longleftrightarrow> x \<le> y div (s :: int)"
proof
  assume "1 \<le> s" "x * s \<le> y"
  then show "x \<le> y div s" using zdiv_mono1[of "x * s" y s] by simp
next
  assume "1 \<le> s" "x \<le> y div s"
  then have "x * s \<le> (y div s) * s" by simp
  also have "\<dots> \<le> y" using div_mult_mod_eq[of y s] pos_mod_sign[of s y] \<open>1 \<le> s\<close> by linarith
  finally show "x * s \<le> y" .
qed

lemma calculatedOut_places:
  assumes "small inputSize" and "small padding" and "small kernelSize" and "small dilation" and "small stride"
    and "1 \<le> inputSize" and "0 \<le> padding" and "1 \<le> kernelSize" and "1 \<le> dilation" and "1 \<le> stride"
    and "windowFits inputSize padding kernelSize dilation"
  shows "windowInside inputSize padding kernelSize dilation stride place
    \<longleftrightarrow> 0 \<le> place \<and> place < calculatedOut inputSize padding kernelSize dilation stride"
    and "1 \<le> calculatedOut inputSize padding kernelSize dilation stride"
    and "calculatedOut inputSize padding kernelSize dilation stride \<le> 2 ^ 16"
proof -
  define last where "last = inputSize + padding - dilation * (kernelSize - 1) - 1"
  note w = small_window[OF assms(3,4,8,9)]
  have size: "u32 (inputSize + padding) = inputSize + padding" using assms(1,2,6,7) by (simp add: small_def)
  have "u32 (kernelSize + (kernelSize - 1) * (dilation - 1)) = dilation * (kernelSize - 1) + 1"
    unfolding w(3) using w(1,2) by simp
  with assms(11) size have last: "0 \<le> last" by (simp add: windowFits_def last_def)
  have bound: "last div stride \<le> last" using zdiv_mono2[of last 1 stride] last assms(10) by simp
  have "last < 2 ^ 16" using w(1) assms(1,2) by (simp add: last_def small_def)
  with bound last assms(10) have d: "last div stride < 2 ^ 16" "0 \<le> last div stride" by (simp_all add: pos_imp_zdiv_nonneg_iff)
  have "last sdiv stride = last div stride"
    using last assms(10) by (simp add: signed_divide_int_def sgn_if)
  with size d have out: "calculatedOut inputSize padding kernelSize dilation stride = last div stride + 1"
    by (simp add: calculatedOut_def last_def)
  then show "1 \<le> calculatedOut inputSize padding kernelSize dilation stride"
    and "calculatedOut inputSize padding kernelSize dilation stride \<le> 2 ^ 16" using d by simp_all
  have "place * stride \<le> last \<longleftrightarrow> place \<le> last div stride" using mult_le_div_iff assms(10) by simp
  then show "windowInside inputSize padding kernelSize dilation stride place
    \<longleftrightarrow> 0 \<le> place \<and> place < calculatedOut inputSize padding kernelSize dilation stride"
    using windowInside_iff[of kernelSize dilation inputSize padding stride place] assms(8,9)
    by (auto simp: out last_def algebra_simps)
qed

section \<open>Convolutions\<close>

definition dimsOk :: "ttir_type \<Rightarrow> bool" where
  "dimsOk t \<longleftrightarrow> (\<forall>x \<in> set (tyShape t). 1 \<le> x \<and> small x)"

lemma dimsOk_nth: "dimsOk t \<Longrightarrow> i < length (tyShape t) \<Longrightarrow> 1 \<le> tyShape t ! i \<and> small (tyShape t ! i)"
  by (simp add: dimsOk_def)

text \<open>The attributes of a convolution, read as pairs and as the four paddings.\<close>

definition windowAttrs :: "conv_attrs \<Rightarrow> (int \<times> int) \<times> (int \<times> int \<times> int \<times> int) \<times> (int \<times> int) \<Rightarrow> bool" where
  "windowAttrs a w \<longleftrightarrow> (case w of ((sH, sW), (pT, pL, pB, pR), (dH, dW)) \<Rightarrow>
     getPairOfInteger (caStride a) = Inr (sH, sW) \<and> getQuadrupleOfInteger (caPadding a) = Inr (pT, pL, pB, pR)
     \<and> getPairOfInteger (caDilation a) = Inr (dH, dW) \<and> small sH \<and> small sW \<and> small dH \<and> small dW
     \<and> small (pT + pB) \<and> small (pL + pR))"

text \<open>What a convolution should satisfy.\<close>

definition conv2dSpec ::
  "(int \<times> int) \<times> (int \<times> int \<times> int \<times> int) \<times> (int \<times> int) \<Rightarrow> int \<Rightarrow> ttir_type option \<Rightarrow> ttir_type \<Rightarrow> ttir_type \<Rightarrow> ttir_type \<Rightarrow> bool" where
  "conv2dSpec w groups bias input weight output \<longleftrightarrow>
     (case w of ((sH, sW), (pT, pL, pB, pR), (dH, dW)) \<Rightarrow>
     1 \<le> sH \<and> 1 \<le> sW \<and> 0 \<le> pT \<and> 0 \<le> pL \<and> 0 \<le> pB \<and> 0 \<le> pR \<and> 1 \<le> dH \<and> 1 \<le> dW
     \<and> (\<exists>N H W C OC KH KW OH OW. tyShape input = [N, H, W, C] \<and> tyShape weight = [OC, C div groups, KH, KW]
          \<and> tyShape output = [N, OH, OW, OC] \<and> groups dvd C \<and> groups dvd OC
          \<and> (\<forall>b. bias = Some b \<longrightarrow> tyShape b = [1, 1, 1, OC])
          \<and> windowInside H (pT + pB) KH dH sH 0 \<and> windowInside W (pL + pR) KW dW sW 0
          \<and> (\<forall>place. windowInside H (pT + pB) KH dH sH place \<longleftrightarrow> 0 \<le> place \<and> place < OH)
          \<and> (\<forall>place. windowInside W (pL + pR) KW dW sW place \<longleftrightarrow> 0 \<le> place \<and> place < OW)))"

lemma windowFits_iff:
  assumes "small inputSize" and "small padding" and "small kernelSize" and "small dilation"
    and "1 \<le> inputSize" and "0 \<le> padding" and "1 \<le> kernelSize" and "1 \<le> dilation"
  shows "windowFits inputSize padding kernelSize dilation \<longleftrightarrow> windowInside inputSize padding kernelSize dilation stride 0"
proof -
  note w = small_window[OF assms(3,4,7,8)]
  have "u32 (inputSize + padding) = inputSize + padding" using assms(1,2,5,6) by (simp add: small_def)
  moreover have "u32 (dilation * (kernelSize - 1) + 1) = dilation * (kernelSize - 1) + 1"
    using w(1,2) by simp
  ultimately show ?thesis using assms(7,8) unfolding windowFits_def w(3)
    by (auto simp: windowInside_iff algebra_simps)
qed

text \<open>Two sizes with the same places are equal.\<close>

lemma places_unique:
  assumes "\<And>place. P place \<longleftrightarrow> 0 \<le> place \<and> place < (a :: int)" and "1 \<le> a" and "1 \<le> b"
  shows "(\<forall>place. P place \<longleftrightarrow> 0 \<le> place \<and> place < b) \<longleftrightarrow> a = b"
proof
  assume "\<forall>place. P place \<longleftrightarrow> 0 \<le> place \<and> place < b"
  with assms(1) have "0 \<le> x \<and> x < a \<longleftrightarrow> 0 \<le> x \<and> x < b" for x by simp
  from this[of "a - 1"] this[of "b - 1"] assms(2,3) show "a = b" by linarith
qed (simp add: assms(1))

lemma length_4E: "length xs = 4 \<longleftrightarrow> (\<exists>a b c d. xs = [a, b, c, d])"
  by (auto simp: numeral_eq_Suc length_Suc_conv)

lemma checks_pass [simp]: "checks [] = Inr ()" "checks ((ok, message) # cs) = Inr u \<longleftrightarrow> ok \<and> checks cs = Inr u"
  by (auto simp: checks.simps)

lemma conv2dAttrChecks_pass:
  assumes "windowAttrs a ((sH, sW), (pT, pL, pB, pR), (dH, dW))"
  shows "conv2dAttrChecks a = Inr (Inr r) \<longleftrightarrow>
    1 \<le> sH \<and> 1 \<le> sW \<and> 0 \<le> pT \<and> 0 \<le> pL \<and> 0 \<le> pB \<and> 0 \<le> pR \<and> 1 \<le> dH \<and> 1 \<le> dW
    \<and> r = ((sH, sW), (pT + pB, pL + pR), (dH, dW))"
proof -
  from assms have "int32 (pT + pB) = Inr (pT + pB)" "int32 (pL + pR) = Inr (pL + pR)" if "0 \<le> pT" "0 \<le> pL" "0 \<le> pB" "0 \<le> pR"
    using that by (simp_all add: windowAttrs_def small_def)
  with assms show ?thesis by (auto simp: conv2dAttrChecks_def windowAttrs_def onPass_pass rbind_Inr_iff int32_Inr)
qed

lemma conv2dShapeChecks_pass:
  "conv2dShapeChecks None bias input weight output = Inr u \<longleftrightarrow>
    length (tyShape input) = 4 \<and> length (tyShape output) = 4 \<and> length (tyShape weight) = 4
    \<and> (\<forall>b. bias = Some b \<longrightarrow> length (tyShape b) = 4 \<and> isBiasCompatible weight (tyShape b))
    \<and> tyShape input ! 0 = tyShape output ! 0"
  by (cases bias) (auto simp: conv2dShapeChecks_def windowInput_def)

lemma conv2d_verify_iff:
  assumes "windowAttrs a w" and "caFlat a = None" and "1 \<le> caGroups a" and "caGroups a < 2 ^ 31"
    and "dimsOk input" and "dimsOk weight" and "dimsOk output"
  shows "conv2dVerify a bias input weight output = Inr (Inr ()) \<longleftrightarrow> conv2dSpec w (caGroups a) bias input weight output"
proof -
  obtain sH sW pT pL pB pR dH dW where w: "w = ((sH, sW), (pT, pL, pB, pR), (dH, dW))"
    by (cases w) auto
  note attrs = conv2dAttrChecks_pass[OF assms(1)[unfolded w]]
  have sm: "small sH" "small sW" "small dH" "small dW" "small (pT + pB)" "small (pL + pR)"
    using assms(1) by (simp_all add: w windowAttrs_def)
  define goodAttrs where "goodAttrs \<longleftrightarrow> 1 \<le> sH \<and> 1 \<le> sW \<and> 0 \<le> pT \<and> 0 \<le> pL \<and> 0 \<le> pB \<and> 0 \<le> pR \<and> 1 \<le> dH \<and> 1 \<le> dW"
  define ranks where "ranks \<longleftrightarrow> length (tyShape input) = 4 \<and> length (tyShape output) = 4 \<and> length (tyShape weight) = 4"
  show ?thesis
  proof (cases "goodAttrs \<and> ranks")
    case False
    then have "conv2dVerify a bias input weight output \<noteq> Inr (Inr ())"
      unfolding conv2dVerify_def onPass_pass onPassE_pass assms(2) conv2dShapeChecks_pass attrs goodAttrs_def ranks_def by blast
    moreover have "\<not> conv2dSpec w (caGroups a) bias input weight output"
      using False by (auto simp: conv2dSpec_def w goodAttrs_def ranks_def)
    ultimately show ?thesis by blast
  next
    case True
    from True obtain N H W C where i: "tyShape input = [N, H, W, C]" by (auto simp: ranks_def length_4E)
    from True obtain O1 I KH KW where k: "tyShape weight = [O1, I, KH, KW]" by (auto simp: ranks_def length_4E)
    from True obtain N' OH OW O2 where out: "tyShape output = [N', OH, OW, O2]" by (auto simp: ranks_def length_4E)
    have dims: "1 \<le> H" "1 \<le> W" "1 \<le> KH" "1 \<le> KW" "1 \<le> OH" "1 \<le> OW" "1 \<le> C" "1 \<le> O2" "1 \<le> N"
      "small H" "small W" "small KH" "small KW" "small C" "small O2" "small N"
      using assms(5-7) by (simp_all add: dimsOk_def i k out)
    have g: "u32 (caGroups a) = caGroups a" "caGroups a \<noteq> 0" using assms(3,4) by simp_all
    have u: "u32 N = N" "u32 H = H" "u32 W = W" "u32 C = C" "u32 O2 = O2" using dims by (simp_all add: small_def)
    have t: "1 \<le> sH" "1 \<le> sW" "0 \<le> pT + pB" "0 \<le> pL + pR" "1 \<le> dH" "1 \<le> dW" using True by (simp_all add: goodAttrs_def)
    define fitH where "fitH = windowFits H (pT + pB) KH dH"
    define fitW where "fitW = windowFits W (pL + pR) KW dW"
    have fit: "fitH = windowInside H (pT + pB) KH dH sH 0" "fitW = windowInside W (pL + pR) KW dW sW 0"
      unfolding fitH_def fitW_def using dims t sm by (simp_all add: windowFits_iff)
    have placesH: "(\<forall>place. windowInside H (pT + pB) KH dH sH place \<longleftrightarrow> 0 \<le> place \<and> place < OH)
        \<longleftrightarrow> calculatedOut H (pT + pB) KH dH sH = OH" if fitH
      using that dims t sm unfolding fitH_def by (intro places_unique calculatedOut_places) assumption+
    have placesW: "(\<forall>place. windowInside W (pL + pR) KW dW sW place \<longleftrightarrow> 0 \<le> place \<and> place < OW)
        \<longleftrightarrow> calculatedOut W (pL + pR) KW dW sW = OW" if fitW
      using that dims t sm unfolding fitW_def by (intro places_unique calculatedOut_places) assumption+
    have bias: "(\<forall>b. bias = Some b \<longrightarrow> length (tyShape b) = 4 \<and> isBiasCompatible weight (tyShape b))
        \<longleftrightarrow> (\<forall>b. bias = Some b \<longrightarrow> tyShape b = [1, 1, 1, O1])"
      by (auto simp: isBiasCompatible_def k length_4E)
    have shapes: "conv2dShapeChecks (caFlat a) bias input weight output = Inr u \<longleftrightarrow>
        (\<forall>b. bias = Some b \<longrightarrow> tyShape b = [1, 1, 1, O1]) \<and> N = N'" for u
      unfolding assms(2) conv2dShapeChecks_pass bias by (simp add: i k out)
    have attrsOk: "conv2dAttrChecks a = Inr (Inr ((sH, sW), (pT + pB, pL + pR), (dH, dW)))"
      using True by (simp add: attrs goodAttrs_def)
    have "conv2dVerify a bias input weight output = Inr (Inr ()) \<longleftrightarrow>
      (\<forall>b. bias = Some b \<longrightarrow> tyShape b = [1, 1, 1, O1]) \<and> N = N' \<and> fitH \<and> fitW
      \<and> C mod caGroups a = 0 \<and> O2 mod caGroups a = 0 \<and> O2 = O1 \<and> C div caGroups a = I
      \<and> (\<forall>b. bias = Some b \<longrightarrow> tyShape b ! 3 = O2)
      \<and> calculatedOut H (pT + pB) KH dH sH = OH \<and> calculatedOut W (pL + pR) KW dW sW = OW"
      unfolding conv2dVerify_def onPass_pass onPassE_pass shapes attrsOk
      by (auto simp: windowInput_def assms(2) i k out u g fitH_def fitW_def onPass_pass Let_def split: option.splits)
    moreover have "conv2dSpec w (caGroups a) bias input weight output \<longleftrightarrow>
      (\<forall>b. bias = Some b \<longrightarrow> tyShape b = [1, 1, 1, O1]) \<and> N = N' \<and> fitH \<and> fitW
      \<and> C mod caGroups a = 0 \<and> O2 mod caGroups a = 0 \<and> O2 = O1 \<and> C div caGroups a = I
      \<and> calculatedOut H (pT + pB) KH dH sH = OH \<and> calculatedOut W (pL + pR) KW dW sW = OW"
      using True placesH placesW unfolding fit
      by (auto simp: conv2dSpec_def w i k out goodAttrs_def mod_0_imp_dvd dvd_imp_mod_0)
    ultimately show ?thesis by auto
  qed
qed

lemma conv2d_no_fault:
  assumes "windowAttrs a w" and "caFlat a = None" and "1 \<le> caGroups a" and "caGroups a < 2 ^ 31"
  shows "\<exists>v. conv2dVerify a bias input weight output = Inr v"
proof -
  obtain sH sW pT pL pB pR dH dW where w: "w = ((sH, sW), (pT, pL, pB, pR), (dH, dW))" by (cases w) auto
  have "\<exists>v. conv2dAttrChecks a = Inr v"
    unfolding conv2dAttrChecks_def using assms(1)
    by (auto simp: w windowAttrs_def small_def onPass_ok checks.simps)
  moreover have "u32 (caGroups a) \<noteq> 0" using assms(3,4) by simp
  ultimately show ?thesis by (auto simp: conv2dVerify_def onPass_ok onPassE_ok assms(2) Let_def split: prod.splits)
qed

text \<open>
  C3: The verifier of the convolution accepts an op exactly when its output has one element for every place of the
  window. For an op that is not flattened, with attributes of the lengths the op describes, dimensions from 1 up to below
  \<open>2 ^ 15\<close>, strides, dilations and sums of opposite paddings below \<open>2 ^ 15\<close>, and a positive number of groups, \<open>Conv2dOp::verify\<close> always returns a verdict (no
  arithmetic overflows and nothing is divided by zero), and the verdict is success if and only if strides and dilations
  are positive, paddings not negative, the shapes agree in batch and channels (the groups dividing the channels, a bias
  of one value per output channel), the window fits into the padded input, and an output row (column) exists for exactly
  those places at which the dilated kernel stays inside the padded rows (columns).
\<close>

theorem conv2d_verifier_counts_windows:
  assumes "windowAttrs a w" and "caFlat a = None" and "1 \<le> caGroups a" and "caGroups a < 2 ^ 31"
    and "dimsOk input" and "dimsOk weight" and "dimsOk output"
  shows "\<exists>v. conv2dVerify a bias input weight output = Inr v
    \<and> (v = Inr () \<longleftrightarrow> conv2dSpec w (caGroups a) bias input weight output)"
proof -
  obtain v where "conv2dVerify a bias input weight output = Inr v" using conv2d_no_fault[OF assms(1-4)] by blast
  with conv2d_verify_iff[OF assms, of bias] show ?thesis by auto
qed

text \<open>A convolution of an image of 5 by 7 with a kernel of 3 by 3, stride 2, and a padding of 1.\<close>

definition convDemo :: conv_attrs where
  "convDemo = \<lparr>caStride = IntAttr 2, caPadding = ArrayAttr [1, 1], caDilation = IntAttr 1, caGroups = 2, caFlat = None\<rparr>"

definition windowType :: "shape \<Rightarrow> ttir_type" where
  "windowType s = \<lparr>tyShape = s, tyElem = Scalar (FloatType 32), tyEncoding = None\<rparr>"

theorem conv2d_verifier_counts_windows_witness:
  "conv2dVerify convDemo None (windowType [1, 5, 7, 4]) (windowType [6, 2, 3, 3]) (windowType [1, 3, 4, 6]) = Inr (Inr ())
   \<and> conv2dSpec ((2, 2), (1, 1, 1, 1), (1, 1)) 2 None (windowType [1, 5, 7, 4]) (windowType [6, 2, 3, 3]) (windowType [1, 3, 4, 6])"
proof -
  have "windowAttrs convDemo ((2, 2), (1, 1, 1, 1), (1, 1))" by (simp add: windowAttrs_def convDemo_def small_def)
  from conv2d_verifier_counts_windows[OF this, of "windowType [1, 5, 7, 4]" "windowType [6, 2, 3, 3]" "windowType [1, 3, 4, 6]" None]
  have iff: "conv2dVerify convDemo None (windowType [1, 5, 7, 4]) (windowType [6, 2, 3, 3]) (windowType [1, 3, 4, 6]) = Inr (Inr ())
    \<longleftrightarrow> conv2dSpec ((2, 2), (1, 1, 1, 1), (1, 1)) 2 None (windowType [1, 5, 7, 4]) (windowType [6, 2, 3, 3]) (windowType [1, 3, 4, 6])"
    by (fastforce simp: convDemo_def dimsOk_def windowType_def small_def)
  moreover have "conv2dVerify convDemo None (windowType [1, 5, 7, 4]) (windowType [6, 2, 3, 3]) (windowType [1, 3, 4, 6]) = Inr (Inr ())"
    by code_simp
  ultimately show ?thesis by blast
qed

section \<open>Flattening\<close>

lemma length_4_nth: "length xs = 4 \<Longrightarrow> xs = [xs ! 0, xs ! 1, xs ! 2, xs ! 3]"
  by (auto simp: length_4E)

lemma product_3: "prod_list [1, 1, a * b * c, d] = prod_list [a, b, c, d :: int]"
  by simp

lemma reshape_flat:
  assumes "tyShape from = [a, b, c, d]" and "tyShape to = [1, 1, a * b * c, d]"
    and "1 \<le> a * b * c" and "a * b * c < 2 ^ 31" and "1 \<le> d" and "d < 2 ^ 31"
  shows "reshapeVerify (generateReshape to) from to = Inr ()"
  using assms by (simp add: reshapeVerify_def generateReshape_def)

lemma reshape_unflat:
  assumes "tyShape from = [1, 1, a * b * c, d]" and "tyShape to = [a, b, c, d]"
    and "1 \<le> a" "1 \<le> b" "1 \<le> c" "1 \<le> d" and "small a" "small b" "small c" "small d"
  shows "reshapeVerify (generateReshape to) from to = Inr ()"
  using assms by (simp add: reshapeVerify_def generateReshape_def small_def)

text \<open>The checks of the attributes and of the sizes are the same for a flattened convolution.\<close>

lemma flat_conv_verified:
  assumes v: "conv2dVerify a bias input weight output = Inr (Inr ())" and "caFlat a = None"
    and "dimsOk input" and "dimsOk output"
    and "tyShape input = [N, H, W, C]" and "tyShape output = [N, OH, OW, OC]"
    and "N * H * W < 2 ^ 31" and "N * OH * OW < 2 ^ 31"
    and "tyShape fi = [1, 1, N * H * W, C]" and "tyShape fo = [1, 1, N * OH * OW, OC]"
  shows "conv2dVerify (a\<lparr>caFlat := Some (flatInfoOf input)\<rparr>) bias fi weight fo = Inr (Inr ())"
proof -
  have dims: "1 \<le> N" "1 \<le> H" "1 \<le> W" "1 \<le> C" "1 \<le> OH" "1 \<le> OW" "1 \<le> OC"
    "small N" "small H" "small W" "small C" "small OH" "small OW" "small OC"
    using assms(3,4) by (simp_all add: dimsOk_def assms(5,6))
  have u: "u32 N = N" "u32 H = H" "u32 W = W" "u32 C = C" "u32 OC = OC" using dims by (simp_all add: small_def)
  have flatH: "u32 (N * H * W) = N * H * W" using assms(7) dims by simp
  have "0 \<le> OH * OW" "OH * OW < 2 ^ 30" using small_product[of OH OW] dims by simp_all
  then have prod: "int32 (OH * OW) = Inr (OH * OW)" by simp
  have flatO: "u32 (OH * OW * N) = N * OH * OW"
    using assms(8) dims by (simp add: mult.commute mult.left_commute)
  have info: "flatInfoOf input = \<lparr>fiBatchSize = N, fiInputHeight = H, fiInputWidth = W\<rparr>"
    by (simp add: flatInfoOf_def assms(5))
  have attrs: "conv2dAttrChecks (a\<lparr>caFlat := f\<rparr>) = conv2dAttrChecks a" for f by (simp add: conv2dAttrChecks_def)
  have shapes: "conv2dShapeChecks (Some (flatInfoOf input)) bias fi weight fo = Inr ()"
    using v dims flatH unfolding conv2dVerify_def onPass_pass onPassE_pass assms(2) conv2dShapeChecks_pass
    by (cases bias) (auto simp: conv2dShapeChecks_def windowInput_def info u assms(9,10))
  from v obtain r where r: "conv2dAttrChecks a = Inr (Inr r)" unfolding conv2dVerify_def onPass_pass onPassE_pass by blast
  obtain sH sW vp hp dH dW where rr: "r = ((sH, sW), (vp, hp), (dH, dW))" by (cases r) auto
  have c: "windowFits H vp (tyShape weight ! 2) dH" "windowFits W hp (tyShape weight ! 3) dW" "u32 (caGroups a) \<noteq> 0"
    "C mod u32 (caGroups a) = 0" "OC mod u32 (caGroups a) = 0" "tyShape weight ! 0 = OC" "C div u32 (caGroups a) = tyShape weight ! 1"
    "case bias of None \<Rightarrow> True | Some b \<Rightarrow> tyShape b ! 3 = OC"
    "calculatedOut H vp (tyShape weight ! 2) dH sH = OH" "calculatedOut W hp (tyShape weight ! 3) dW sW = OW"
    using v unfolding conv2dVerify_def r rr onPass_pass onPassE_pass
    by (auto simp: windowInput_def assms(2,5,6) u Let_def onPass_pass split: if_splits)
  show ?thesis
    using c(1-8) prod flatO unfolding conv2dVerify_def attrs r rr onPass_pass onPassE_pass
    by (simp add: shapes[unfolded info] windowInput_def assms(9,10) info u Let_def onPass_pass c(9,10))
qed

lemma flat_pool_verified:
  assumes "verifyPoolingOp None kernelHeight kernelWidth input output = Inr ()"
    and "tyShape input = [N, H, W, C]" and "tyShape output = [N', OH, OW, C']"
    and "tyShape fi = [1, 1, N * H * W, C]" and "tyShape fo = [1, 1, N' * OH * OW, C']"
  shows "verifyPoolingOp (Some (flatInfoOf input)) kernelHeight kernelWidth fi fo = Inr ()"
  using assms by (simp add: verifyPoolingOp_def flatInfoOf_def)

text \<open>
  C16: Flattening keeps sliding window ops verified. For a verified convolution or pooling op that is not
  flattened yet, with sizes below \<open>2 ^ 15\<close> and fewer than \<open>2 ^ 31\<close> rows of channels in the input and in the
  output, the pass \<open>TTIRFlattenSlidingWindow\<close> does not fail, the flattened op is verified, and so are
  the reshapes of its input and of its output.
\<close>

theorem flattened_windows_verified:
  assumes "dimsOk input" and "dimsOk output" and "length (tyShape input) = 4" and "length (tyShape output) = 4"
    and "prod_list (take 3 (tyShape input)) < 2 ^ 31" and "prod_list (take 3 (tyShape output)) < 2 ^ 31"
  shows "\<exists>fi fo. flattenPooling input output = Inr (flatInfoOf input, fi, fo)
    \<and> flattenConv2d a input output = Inr (a\<lparr>caFlat := Some (flatInfoOf input)\<rparr>, fi, fo)
    \<and> reshapeVerify (generateReshape fi) input fi = Inr () \<and> reshapeVerify (generateReshape output) fo output = Inr ()
    \<and> (verifyPoolingOp None kernelHeight kernelWidth input output = Inr ()
        \<longrightarrow> verifyPoolingOp (Some (flatInfoOf input)) kernelHeight kernelWidth fi fo = Inr ())
    \<and> (caFlat a = None \<and> conv2dVerify a bias input weight output = Inr (Inr ())
        \<longrightarrow> conv2dVerify (a\<lparr>caFlat := Some (flatInfoOf input)\<rparr>) bias fi weight fo = Inr (Inr ()))"
proof -
  obtain N H W C where i: "tyShape input = [N, H, W, C]" using assms(3) by (auto simp: length_4E)
  obtain N' OH OW OC where out: "tyShape output = [N', OH, OW, OC]" using assms(4) by (auto simp: length_4E)
  define fi where "fi = \<lparr>tyShape = [1, 1, N * H * W, C], tyElem = tyElem input, tyEncoding = None\<rparr>"
  define fo where "fo = \<lparr>tyShape = [1, 1, N' * OH * OW, OC], tyElem = tyElem output, tyEncoding = None\<rparr>"
  have flat: "getNHWFlattenedType input = Inr fi" "getNHWFlattenedType output = Inr fo"
    by (simp_all add: getNHWFlattenedType_def i out fi_def fo_def Let_def)
  have dims: "1 \<le> N" "1 \<le> H" "1 \<le> W" "1 \<le> C" "1 \<le> N'" "1 \<le> OH" "1 \<le> OW" "1 \<le> OC"
    "small C" "small N'" "small OH" "small OW" "small OC"
    using assms(1,2) by (simp_all add: dimsOk_def i out)
  have bounds: "N * H * W < 2 ^ 31" "N' * OH * OW < 2 ^ 31" using assms(5,6) by (simp_all add: i out mult.assoc)
  have pos: "1 \<le> N * H * W" using dims(1-3) by (simp add: int_one_le_iff_zero_less)
  have "reshapeVerify (generateReshape fi) input fi = Inr ()"
    using dims pos bounds by (intro reshape_flat[OF i]) (simp_all add: fi_def small_def)
  moreover have "reshapeVerify (generateReshape output) fo output = Inr ()"
    using dims by (intro reshape_unflat[OF _ out]) (simp_all add: fo_def)
  moreover have "verifyPoolingOp (Some (flatInfoOf input)) kernelHeight kernelWidth fi fo = Inr ()"
    if "verifyPoolingOp None kernelHeight kernelWidth input output = Inr ()"
    using flat_pool_verified[OF that i out, of fi fo] by (simp add: fi_def fo_def)
  moreover have "conv2dVerify (a\<lparr>caFlat := Some (flatInfoOf input)\<rparr>) bias fi weight fo = Inr (Inr ())"
    if c: "caFlat a = None" "conv2dVerify a bias input weight output = Inr (Inr ())"
  proof -
    have "N = N'" using c unfolding conv2dVerify_def onPass_pass onPassE_pass conv2dShapeChecks_pass by (auto simp: conv2dShapeChecks_pass i out)
    with flat_conv_verified[OF c(2,1) assms(1,2) i _ _ _, of OH OW OC fi fo] out bounds show ?thesis by (simp add: fi_def fo_def)
  qed
  ultimately show ?thesis using flat by (auto simp: flattenConv2d_def flattenPooling_def)
qed

theorem flattened_windows_verified_witness:
  "conv2dVerify (convDemo\<lparr>caFlat := Some (flatInfoOf (windowType [1, 5, 7, 4]))\<rparr>) None (windowType [1, 1, 35, 4]) (windowType [6, 2, 3, 3])
     (windowType [1, 1, 12, 6]) = Inr (Inr ())"
proof -
  have "conv2dVerify convDemo None (windowType [1, 5, 7, 4]) (windowType [6, 2, 3, 3]) (windowType [1, 3, 4, 6]) = Inr (Inr ())"
    by code_simp
  moreover have "caFlat convDemo = None" by (simp add: convDemo_def)
  ultimately show ?thesis
    using flattened_windows_verified[of "windowType [1, 5, 7, 4]" "windowType [1, 3, 4, 6]" convDemo 1 1 None "windowType [6, 2, 3, 3]"]
    by (auto simp: windowType_def dimsOk_def small_def flattenConv2d_def getNHWFlattenedType_def)
qed

section \<open>Transposed convolutions\<close>

text \<open>The padding that is missing after the last place of a window is smaller than the stride.\<close>

lemma last_place:
  assumes "\<forall>place. windowInside inputSize padding kernelSize dilation stride place \<longleftrightarrow> 0 \<le> place \<and> place < out"
    and "1 \<le> out" and "1 \<le> kernelSize" and "1 \<le> dilation" and "1 \<le> stride" and "1 \<le> inputSize" and "small inputSize"
    and "small out" and "small kernelSize" and "small dilation" and "small stride" and "0 \<le> padding" and "small padding"
  shows "\<exists>outputPadding. 0 \<le> outputPadding \<and> outputPadding < stride
    \<and> expectedOut out stride padding dilation kernelSize outputPadding = Inr inputSize"
proof -
  note inside = windowInside_iff[of kernelSize dilation inputSize padding stride]
  define op where "op = inputSize + padding - (out - 1) * stride - (kernelSize - 1) * dilation - 1"
  have "windowInside inputSize padding kernelSize dilation stride (out - 1)"
    "\<not> windowInside inputSize padding kernelSize dilation stride out" using assms(1,2) by auto
  then have "0 \<le> op" "op < stride"
    using assms(2-4) inside[of "out - 1"] inside[of out] by (auto simp: op_def algebra_simps)
  moreover have "(out - 1) * stride - padding + dilation * (kernelSize - 1) + op + 1 = inputSize"
    by (simp add: op_def algebra_simps)
  then have eq: "(out - 1) * stride - padding + dilation * (kernelSize - 1) + op + 1 = inputSize" .
  define offset reach where d: "offset = (out - 1) * stride" "reach = dilation * (kernelSize - 1)"
  have bounds: "0 \<le> offset" "offset < 2 ^ 30" "0 \<le> reach" "reach < 2 ^ 30"
    unfolding d using small_product[of "out - 1" stride] small_product[of dilation "kernelSize - 1"] assms(2-5,8-11) by (simp_all add: small_def)
  have "expectedOut out stride padding dilation kernelSize op = Inr (offset - padding + reach + op + 1)"
    using bounds \<open>0 \<le> op\<close> \<open>op < stride\<close> eq[folded d] assms(2,3,6-13) unfolding expectedOut_def
    by (simp add: small_def d[symmetric])
  then have "expectedOut out stride padding dilation kernelSize op = Inr inputSize" by (simp only: d eq)
  ultimately show ?thesis by blast
qed

text \<open>
  C12: A transposed convolution undoes the shape of a convolution. If a convolution in one group, with sizes and
  attributes below \<open>2 ^ 15\<close>, passes its verifier, then the transposed convolution with the same stride,
  padding and dilation and the weight of the same shape, from the type of the output back to the type of
  the input, passes its verifier for one choice of the output padding, which is smaller than the stride.
\<close>

theorem conv_transpose_restores_shape:
  assumes "conv2dVerify a None input weight output = Inr (Inr ())" and "caFlat a = None" and "caGroups a = 1"
    and "windowAttrs a w" and "w = ((sH, sW), padding, (dH, dW))"
    and "dimsOk input" and "dimsOk weight" and "dimsOk output"
  shows "\<exists>opH opW. 0 \<le> opH \<and> opH < sH \<and> 0 \<le> opW \<and> opW < sW
    \<and> convTranspose2dVerify \<lparr>ctStride = caStride a, ctPadding = caPadding a, ctOutputPadding = ArrayAttr [opH, opW],
        ctDilation = caDilation a, ctGroups = 1\<rparr> None output weight input = Inr (Inr ())"
proof -
  obtain pT pL pB pR where w: "w = ((sH, sW), (pT, pL, pB, pR), (dH, dW))" using assms(5) by (cases padding) auto
  have spec: "conv2dSpec w 1 None input weight output"
    using conv2d_verify_iff[OF assms(4,2) _ _ assms(6-8), of None] assms(1,3) by simp
  from spec obtain N H W C OC KH KW OH OW where
    s: "tyShape input = [N, H, W, C]" "tyShape weight = [OC, C, KH, KW]" "tyShape output = [N, OH, OW, OC]"
    and pos: "1 \<le> sH" "1 \<le> sW" "0 \<le> pT" "0 \<le> pL" "0 \<le> pB" "0 \<le> pR" "1 \<le> dH" "1 \<le> dW"
    and ph: "\<forall>place. windowInside H (pT + pB) KH dH sH place \<longleftrightarrow> 0 \<le> place \<and> place < OH"
    and pw: "\<forall>place. windowInside W (pL + pR) KW dW sW place \<longleftrightarrow> 0 \<le> place \<and> place < OW"
    by (auto simp: conv2dSpec_def w)
  have dims: "1 \<le> H" "1 \<le> W" "1 \<le> KH" "1 \<le> KW" "1 \<le> OH" "1 \<le> OW" "1 \<le> C" "1 \<le> OC"
    "small H" "small W" "small KH" "small KW" "small C" "small OC" "small OH" "small OW"
    using assms(6-8) by (simp_all add: dimsOk_def s)
  have sm: "small sH" "small sW" "small dH" "small dW" "small (pT + pB)" "small (pL + pR)"
    using assms(4) by (simp_all add: w windowAttrs_def)
  from last_place[OF ph] dims pos obtain opH where
    h: "0 \<le> opH" "opH < sH" "expectedOut OH sH (pT + pB) dH KH opH = Inr H" using sm by auto
  from last_place[OF pw] dims pos obtain opW where
    v: "0 \<le> opW" "opW < sW" "expectedOut OW sW (pL + pR) dW KW opW = Inr W" using sm by auto
  have "convTranspose2dVerify \<lparr>ctStride = caStride a, ctPadding = caPadding a, ctOutputPadding = ArrayAttr [opH, opW],
        ctDilation = caDilation a, ctGroups = 1\<rparr> None output weight input = Inr (Inr ())"
    using assms(4) pos dims sm h v
    by (simp add: convTranspose2dVerify_def convTransposeShapeChecks_def convTransposeAttrChecks_def w windowAttrs_def s small_def checks.simps)
  with h v show ?thesis by blast
qed

theorem conv_transpose_restores_shape_witness:
  "\<exists>opH opW. 0 \<le> opH \<and> opH < 2 \<and> 0 \<le> opW \<and> opW < 2
    \<and> convTranspose2dVerify \<lparr>ctStride = IntAttr 2, ctPadding = ArrayAttr [1, 1], ctOutputPadding = ArrayAttr [opH, opW],
        ctDilation = IntAttr 1, ctGroups = 1\<rparr> None (windowType [1, 3, 4, 6]) (windowType [6, 4, 3, 3]) (windowType [1, 6, 7, 4]) = Inr (Inr ())"
proof -
  have c: "conv2dVerify (convDemo\<lparr>caGroups := 1\<rparr>) None (windowType [1, 6, 7, 4]) (windowType [6, 4, 3, 3]) (windowType [1, 3, 4, 6]) = Inr (Inr ())"
    by code_simp
  have w: "windowAttrs (convDemo\<lparr>caGroups := 1\<rparr>) ((2, 2), (1, 1, 1, 1), (1, 1))" by (simp add: windowAttrs_def convDemo_def small_def)
  from conv_transpose_restores_shape[OF c _ _ w] show ?thesis
    by (simp add: convDemo_def dimsOk_def windowType_def small_def)
qed

end
