(* ===== verification/TTIRVerifyOps.thy ===== *)
theory TTIRVerifyOps
  imports TTIRWindows MetalLayout
begin

text \<open>
  The verifiers of the remaining TTIR ops (\<open>TTIROps.cpp\<close>): clamps, constants, quantization,
  embeddings, reductions, collectives, caches, and the ops that change a layout; with the folders of
  \<open>get_dimension_size\<close>, \<open>cumsum\<close> and \<open>to_layout\<close> and the canonicalization of \<open>clamp_tensor\<close>.
\<close>

section \<open>Clamps and constants\<close>

definition clampScalarVerify :: "ttir_type \<Rightarrow> ttir_type \<Rightarrow> verdict" where
  "clampScalarVerify inputType outputType = checks [(inputType = outputType, ''input and output must have same shape.'')]"

definition clampTensorVerify :: "broadcaster \<Rightarrow> ttir_type \<Rightarrow> ttir_type \<Rightarrow> ttir_type \<Rightarrow> verdict" where
  "clampTensorVerify getBroadcastedShape minType maxType outputType =
     checks [(getBroadcastedShape (tyShape minType) (tyShape outputType) \<noteq> None, ''Min attribute shape cannot be broadcasted to output shape''),
             (getBroadcastedShape (tyShape maxType) (tyShape outputType) \<noteq> None, ''Max attribute shape cannot be broadcasted to output shape'')]"

text \<open>The value attribute of a constant: dense or a resource, and its element type.\<close>

datatype elements_attr = DenseElements elem_type | DenseResourceElements elem_type | OtherElements elem_type

fun elementsType :: "elements_attr \<Rightarrow> elem_type" where
  "elementsType (DenseElements e) = e"
| "elementsType (DenseResourceElements e) = e"
| "elementsType (OtherElements e) = e"

definition isFloatElem :: "elem_type \<Rightarrow> bool" where
  "isFloatElem e \<longleftrightarrow> (case e of Scalar BF16Type \<Rightarrow> True | Scalar (FloatType w) \<Rightarrow> True | _ \<Rightarrow> False)"

definition isIntegerElem :: "elem_type \<Rightarrow> bool" where
  "isIntegerElem e \<longleftrightarrow> (case e of Scalar (IntegerType sg w) \<Rightarrow> True | _ \<Rightarrow> False)"

definition isQuantizedElem :: "elem_type \<Rightarrow> bool" where
  "isQuantizedElem e \<longleftrightarrow> (case e of Scalar (QuantizedType s) \<Rightarrow> True | _ \<Rightarrow> False)"

definition constantVerify :: "elements_attr \<Rightarrow> verdict" where
  "constantVerify v =
     checks [((case v of OtherElements e \<Rightarrow> False | _ \<Rightarrow> True), ''value attribute must be one of DenseResourceElementsAttr or DenseElementsAttr.''),
             (isFloatElem (elementsType v) \<or> isIntegerElem (elementsType v), ''value attribute must be of int or float type.'')]"

section \<open>GetDimensionSizeOp\<close>

definition getDimensionSizeVerify :: "int \<Rightarrow> ttir_type \<Rightarrow> verdict" where
  "getDimensionSizeVerify dimension inputType = checks [(dimension < rank inputType, '''')]"

definition getDimensionSizeFold :: "int \<Rightarrow> ttir_type \<Rightarrow> fault + int" where
  "getDimensionSizeFold dimension inputType =
     rbind (at (tyShape inputType) (nat (u32 dimension))) (\<lambda>dimSize. Inr (u32 dimSize))"

section \<open>Quantization\<close>

definition quantizeChecks :: "ttir_type \<Rightarrow> ttir_type \<Rightarrow> (bool \<times> string) list" where
  "quantizeChecks inputType outputType =
     [(rank inputType = rank outputType, ''Input tensor rank does not match the output tensor rank''),
      (tyShape inputType = tyShape outputType, ''Output tensor shape must match the inferred shape'')]"

definition quantizeVerify :: "ttir_type \<Rightarrow> ttir_type \<Rightarrow> verdict" where
  "quantizeVerify inputType outputType =
     checks ([(isFloatElem (tyElem inputType), ''Input element type must be float''),
              (isQuantizedElem (tyElem outputType), ''Output element type must be UniformQuantizedType or UniformQuantizedPerAxisType'')]
       @ quantizeChecks inputType outputType)"

definition dequantizeVerify :: "ttir_type \<Rightarrow> ttir_type \<Rightarrow> verdict" where
  "dequantizeVerify inputType outputType =
     checks ([(isQuantizedElem (tyElem inputType), ''Input element type must be UniformQuantizedType or UniformQuantizedPerAxisType''),
              (isFloatElem (tyElem outputType), ''Output element type must be float'')]
       @ quantizeChecks inputType outputType)"

definition requantizeVerify :: "ttir_type \<Rightarrow> ttir_type \<Rightarrow> verdict" where
  "requantizeVerify inputType outputType =
     checks ([(isQuantizedElem (tyElem inputType), ''Input element type must be UniformQuantizedType or UniformQuantizedPerAxisType''),
              (isQuantizedElem (tyElem outputType), ''Output element type must be UniformQuantizedType or UniformQuantizedPerAxisType'')]
       @ quantizeChecks inputType outputType)"

section \<open>Embeddings\<close>

definition embeddingVerify :: "ttir_type \<Rightarrow> ttir_type \<Rightarrow> ttir_type \<Rightarrow> verdict" where
  "embeddingVerify inputType weightType outputType =
     checks [(rank inputType \<le> 2, ''input must be at most a 2D tensor''),
             (2 \<le> rank weightType, ''weight must be at least 2D tensor''),
             (\<forall>d \<in> set (take (length (tyShape weightType) - 2) (tyShape weightType)). d = 1, ''weight must be effectively 2D tensor''),
             (tyShape outputType = tyShape inputType @ [last (tyShape weightType)], ''expected output shape'')]"

definition embeddingBackwardVerify :: "ttir_type \<Rightarrow> ttir_type \<Rightarrow> ttir_type \<Rightarrow> verdict" where
  "embeddingBackwardVerify weightType inputGradType outputType =
     checks [(rank weightType = 2, ''Input must be a 2D tensor''),
             (tyElem inputGradType = tyElem outputType, ''Input gradient and output must have the same dtype''),
             (tyShape outputType = tyShape weightType, ''Output must have the same shape as weight'')]"

section \<open>Upsample, alloc, softmax\<close>

definition upsample2dVerify :: "int_attr \<Rightarrow> string \<Rightarrow> ttir_type \<Rightarrow> ttir_type \<Rightarrow> verdict" where
  "upsample2dVerify scaleFactor mode inputType outputType =
     rbind (checks [(rank inputType = 4, ''Expected rank of input tensor is 4''), (rank outputType = 4, ''Expected rank of output tensor is 4'')]) (\<lambda>_.
     rbind (getPairOfInteger scaleFactor) (\<lambda>(scaleH, scaleW).
     let i = tyShape inputType; out = tyShape outputType
     in checks [(0 < scaleH \<and> 0 < scaleW, ''Scale factors must be positive integers''),
                (i ! 1 * scaleH = out ! 1, ''Expected output H dimension to be input H dimension * scaleH''),
                (i ! 2 * scaleW = out ! 2, ''Expected output W dimension to be input W dimension * scaleW''),
                (i ! 0 = out ! 0, ''Expected output N dimension''),
                (i ! 3 = out ! 3, ''Expected output C dimension''),
                (mode = ''nearest'' \<or> mode = ''bilinear'', ''Expected modes are'')]))"

definition allocVerify :: "metal_layout_attr option \<Rightarrow> int \<Rightarrow> int \<Rightarrow> memory_space \<Rightarrow> verdict" where
  "allocVerify l address allocSize memorySpace =
     (case l of
        None \<Rightarrow> Inl ''Result type missing layout attribute''
      | Some l \<Rightarrow> checks
          [(allocSize \<noteq> 0, ''Alloc size must be non-zero''),
           (mlMemorySpace l = memorySpace, ''Input tensor layout memory space must match alloc memory space''),
           (\<not> (isSystemMemorySpace memorySpace \<and> address \<noteq> 0), ''Allocating from system memory space must have address set to 0''),
           (\<not> (isDeviceMemorySpace (mlMemorySpace l) \<and> address = 0), ''Allocating from a device memory space must have address set to a non-zero value'')])"

text \<open>A dimension attribute, possibly negative, within the rank.\<close>

definition dimInBounds :: "int \<Rightarrow> ttir_type \<Rightarrow> bool" where
  "dimInBounds dim ty \<longleftrightarrow> \<not> (rank ty \<le> dim \<or> dim < - rank ty)"

definition softmaxVerify :: "int \<Rightarrow> ttir_type \<Rightarrow> ttir_type \<Rightarrow> verdict" where
  "softmaxVerify dim inputType outputType =
     checks [(tyShape inputType = tyShape outputType, ''Input and output shapes must be the same''),
             (dimInBounds dim inputType, ''Dimension attribute must be within the bounds of the input tensor'')]"

section \<open>Collectives\<close>

datatype reduce_type = ReduceSum | ReduceMean | ReduceMax | ReduceMin | ReduceStd | ReduceVar

datatype mesh_shard_type = ShardIdentity | ShardReplicate | ShardMaximal | ShardDevices

definition supportedReduce :: "reduce_type \<Rightarrow> bool" where
  "supportedReduce r \<longleftrightarrow> r = ReduceSum \<or> r = ReduceMax \<or> r = ReduceMin"

definition allGatherVerify :: "int \<Rightarrow> ttir_type \<Rightarrow> verdict" where
  "allGatherVerify gatherDim inputType = checks [(dimInBounds gatherDim inputType, ''Invalid dimension for all gather op.'')]"

definition allReduceVerify :: "reduce_type \<Rightarrow> verdict" where
  "allReduceVerify reduceType = checks [(supportedReduce reduceType, ''Invalid reduction op for all reduce op.'')]"

definition reduceScatterVerify :: "reduce_type \<Rightarrow> int \<Rightarrow> ttir_type \<Rightarrow> verdict" where
  "reduceScatterVerify reduceType scatterDim inputType =
     checks [(supportedReduce reduceType, ''Invalid reduction op for reduce scatter op.''),
             (dimInBounds scatterDim inputType, ''Invalid dimension for reduce scatter op.'')]"

text \<open>No value may come again at the same parity; it is compared after a conversion to \<open>int\<close>.\<close>

fun laterSame :: "int list \<Rightarrow> int \<Rightarrow> bool" where
  "laterSame (x # y # rest) target = (y = target \<or> laterSame rest target)"
| "laterSame _ target = False"

fun areElementsUnique :: "int list \<Rightarrow> bool" where
  "areElementsUnique [] = True"
| "areElementsUnique (x # xs) = (\<not> laterSame xs (i32 x) \<and> areElementsUnique xs)"

definition collectivePermuteVerify :: "shape \<Rightarrow> int list \<Rightarrow> verdict" where
  "collectivePermuteVerify pairsShape pairs =
     checks [(length pairsShape = 2, ''The rank of source target pairs must be 2''),
             (areElementsUnique pairs, ''There are duplicate 'src' or 'dest' devices in source target pairs'')]"

definition meshShardVerify :: "mesh_shard_type \<Rightarrow> verdict" where
  "meshShardVerify shardType = checks [(shardType \<noteq> ShardMaximal, ''Invalid shard_type (maximal) for mesh_shard op.'')]"

section \<open>Scatter and caches\<close>

definition scatterVerify :: "int list \<Rightarrow> int list \<Rightarrow> shape \<Rightarrow> fault + verdict" where
  "scatterVerify updateWindowDims insertedWindowDims inputShape =
     onPass (checks [(length updateWindowDims + length insertedWindowDims = length inputShape, ''Batching currently not supported'')]) (\<lambda>_.
     foldE (\<lambda>dim verdict.
       case verdict of Inl message \<Rightarrow> Inr (Inl message)
       | Inr _ \<Rightarrow> rbind (if dim < 0 then Inl OutOfBounds else at inputShape (nat dim)) (\<lambda>size.
           Inr (checks [(size = 1, ''Dimension size to slice into must be 1'')]))) insertedWindowDims (Inr ()))"

definition cacheShapesMatch :: "ttir_type \<Rightarrow> ttir_type \<Rightarrow> bool" where
  "cacheShapesMatch cacheType inputType \<longleftrightarrow>
     tyShape cacheType ! 0 = tyShape inputType ! 0 \<and> tyShape cacheType ! 1 = tyShape inputType ! 1
     \<and> tyShape cacheType ! 3 = tyShape inputType ! 3"

text \<open>What \<open>update_cache\<close> and \<open>fill_cache\<close> share; the check of dimension 2 differs.\<close>

definition cacheVerify :: "(bool \<times> string) \<Rightarrow> int \<Rightarrow> ttir_type \<Rightarrow> ttir_type \<Rightarrow> fault + verdict" where
  "cacheVerify dim2 batchOffset cacheType inputType =
     onPass (checks [(batchOffset = 0, ''Only single-batch is supported. Batch offset must be 0'')]) (\<lambda>_.
     rbind (elementTypeToDataType (tyElem cacheType)) (\<lambda>cacheDataType.
     rbind (elementTypeToDataType (tyElem inputType)) (\<lambda>inputDataType.
     Inr (checks [(cacheDataType = inputDataType, ''Cache and input tensors must have the same dtype.''),
                  (rank cacheType = 4, ''Cache tensor must be a 4D tensor''),
                  (rank inputType = 4, ''Input tensor must be a 4D tensor''),
                  dim2,
                  (cacheShapesMatch cacheType inputType, ''Cache tensor shape must match input tensor shape on all dimensions except dim 2.'')]))))"

definition updateCacheVerify :: "int \<Rightarrow> ttir_type \<Rightarrow> ttir_type \<Rightarrow> fault + verdict" where
  "updateCacheVerify batchOffset cacheType inputType =
     cacheVerify (tyShape inputType ! 2 = 1, ''Input tensor requires that dim 2 have size 1'') batchOffset cacheType inputType"

definition fillCacheVerify :: "int \<Rightarrow> ttir_type \<Rightarrow> ttir_type \<Rightarrow> fault + verdict" where
  "fillCacheVerify batchOffset cacheType inputType =
     cacheVerify (tyShape inputType ! 2 \<le> tyShape cacheType ! 2, ''Input tensor requires that dim 2 have a size which is less than or equal to'')
       batchOffset cacheType inputType"

section \<open>Reductions\<close>

text \<open>The reduced dimensions as a mask. Uniqueness is checked on the values as they are given.\<close>

definition reduceDimsMask :: "nat \<Rightarrow> int list option \<Rightarrow> bool list" where
  "reduceDimsMask inputRank reduceDims =
     (case reduceDims of
        None \<Rightarrow> replicate inputRank True
      | Some dims \<Rightarrow> map (\<lambda>i. int i \<in> (\<lambda>d. (d + int inputRank) mod int inputRank) ` set dims) [0..<inputRank])"

definition expectedReduceShape :: "shape \<Rightarrow> bool list \<Rightarrow> bool \<Rightarrow> shape" where
  "expectedReduceShape inputShape reduced keepDim =
     (let dims = concat (map2 (\<lambda>d r. if \<not> r then [d] else if keepDim then [1] else []) inputShape reduced)
      in if dims = [] \<and> \<not> keepDim then [1] else dims)"

definition verifyReduceOp :: "ttir_type \<Rightarrow> int list option \<Rightarrow> bool \<Rightarrow> shape \<Rightarrow> verdict" where
  "verifyReduceOp inputType reduceDims keepDim outputShape =
     (let dims = (case reduceDims of None \<Rightarrow> [] | Some dims \<Rightarrow> dims)
      in checks (map (\<lambda>d. (dimInBounds d inputType, ''Reduce dimension is out of range for input tensor'')) dims
         @ [(card (set dims) = length dims, ''Reduce dimensions are not unique''),
            (outputShape = expectedReduceShape (tyShape inputType) (reduceDimsMask (length (tyShape inputType)) reduceDims) keepDim,
             ''Expected output shape'')]))"

text \<open>A dimension given twice, once counted from the front and once from the back, passes the uniqueness check.\<close>

lemma repeated_reduce_dimension_accepted:
  "verifyReduceOp \<lparr>tyShape = [2, 3], tyElem = Scalar (FloatType 32), tyEncoding = None\<rparr> (Some [1, - 1]) False [2] = Inr ()"
  by (simp add: verifyReduceOp_def dimInBounds_def expectedReduceShape_def reduceDimsMask_def checks.simps upt_Suc_Cons numeral_eq_Suc)

definition argMaxVerify :: "ttir_type \<Rightarrow> int list option \<Rightarrow> bool \<Rightarrow> shape \<Rightarrow> verdict" where
  "argMaxVerify inputType reduceDims keepDim outputShape =
     rbind (checks [((case reduceDims of None \<Rightarrow> True | Some dims \<Rightarrow> length dims \<le> 1), ''can only reduce one dimension'')])
       (\<lambda>_. verifyReduceOp inputType reduceDims keepDim outputShape)"

section \<open>CumSumOp\<close>

definition cumSumVerify :: "int \<Rightarrow> ttir_type \<Rightarrow> verdict" where
  "cumSumVerify dim inputType = checks [(dimInBounds dim inputType, ''specified dimension should be between'')]"

text \<open>The folder makes the dimension positive.\<close>

definition cumSumFold :: "int \<Rightarrow> ttir_type \<Rightarrow> int option" where
  "cumSumFold dim inputType = (if dim < 0 then Some (dim + rank inputType) else None)"

section \<open>Ops that change a layout\<close>

text \<open>A tensor with an optional metal layout, a memref, or another type.\<close>

datatype layout_operand = LayoutTensor shape elem_type "metal_layout_attr option" | LayoutMemref device_memref | OtherOperand

definition isDeviceLayout :: "device_layout \<Rightarrow> bool" where
  "isDeviceLayout l \<longleftrightarrow> l \<noteq> OtherLayout"

definition verifyLayoutOp ::
  "layout_operand \<Rightarrow> layout_operand \<Rightarrow> bool \<Rightarrow> bool \<Rightarrow> bool \<Rightarrow> bool \<Rightarrow> verdict" where
  "verifyLayoutOp inputTy outputTy allowFormatChange allowMemorySpaceChange checkMemrefRank checkMemrefGridShardForm =
     (case inputTy of
        LayoutTensor s e inputLayout \<Rightarrow>
          (case outputTy of
             LayoutTensor s' e' outputLayout \<Rightarrow>
               (case (inputLayout, outputLayout) of
                  (Some i, Some out) \<Rightarrow> checks
                    [(mlElementType i = mlElementType out \<or> allowFormatChange, ''Input and output layout element types must be the same''),
                     (allowMemorySpaceChange \<or> mlMemorySpace i = mlMemorySpace out, ''Input and output layout memory spaces must be the same'')]
                | _ \<Rightarrow> Inr ())
           | _ \<Rightarrow> Inl ''Input and output types must be the same'')
      | LayoutMemref i \<Rightarrow>
          (case outputTy of
             LayoutMemref out \<Rightarrow> checks
               [(allowFormatChange \<or> dmElem i = dmElem out, ''Input and output layout element types must be the same''),
                (allowMemorySpaceChange \<or> dmSpace i = dmSpace out, ''Input and output memref memory spaces must be the same''),
                (\<not> checkMemrefRank \<or> length (dmShape i) = length (dmShape out), ''Input and output memref ranks must be the same''),
                (\<not> checkMemrefGridShardForm \<or> isDeviceLayout (dmLayout i), ''input memref must have device layout''),
                (\<not> checkMemrefGridShardForm \<or> isDeviceLayout (dmLayout out), ''output memref must have device layout'')]
           | _ \<Rightarrow> Inl ''Input and output types must be the same'')
      | OtherOperand \<Rightarrow> Inl ''Unsupported input type for view'')"

definition toLayoutVerify :: "layout_operand \<Rightarrow> layout_operand \<Rightarrow> verdict" where
  "toLayoutVerify inputTy outputTy = verifyLayoutOp inputTy outputTy True True False False"

definition viewLayoutVerify :: "layout_operand \<Rightarrow> layout_operand \<Rightarrow> verdict" where
  "viewLayoutVerify inputTy resultTy = verifyLayoutOp inputTy resultTy False False False False"

definition streamLayoutVerify :: "layout_operand \<Rightarrow> layout_operand \<Rightarrow> layout_operand \<Rightarrow> verdict" where
  "streamLayoutVerify inputTy storageTy resultTy =
     rbind (verifyLayoutOp inputTy storageTy False True True True) (\<lambda>_.
     rbind (verifyLayoutOp storageTy resultTy False True True True) (\<lambda>_.
     case (inputTy, resultTy) of
       (LayoutMemref i, LayoutMemref r) \<Rightarrow> checks [(dmSpace i = dmSpace r, ''Input and result memref memory spaces must be the same'')]
     | _ \<Rightarrow> Inr ()))"

text \<open>What a \<open>to_layout\<close> changes. A tensor without a layout has the default one of its type.\<close>

record compound_components =
  isLayoutChange :: bool
  isGridChange :: bool
  isFormatChange :: bool
  isMemorySpaceChange :: bool

definition layoutOfTensor :: "shape \<Rightarrow> elem_type \<Rightarrow> metal_layout_attr option \<Rightarrow> fault + metal_layout_attr" where
  "layoutOfTensor s e l =
     (case l of Some l \<Rightarrow> Inr l | None \<Rightarrow> metalLayoutGetTy s e System None defaultIntervals Undef)"

definition compoundComponents :: "layout_operand \<Rightarrow> layout_operand \<Rightarrow> fault + compound_components" where
  "compoundComponents inputTy outputTy =
     (case (inputTy, outputTy) of
        (LayoutTensor s e i, LayoutTensor s' e' out) \<Rightarrow>
          rbind (layoutOfTensor s e i) (\<lambda>inputLayout. rbind (layoutOfTensor s' e' out) (\<lambda>outputLayout.
            Inr \<lparr>isLayoutChange = mlLinear inputLayout \<noteq> mlLinear outputLayout, isGridChange = mlGrid inputLayout \<noteq> mlGrid outputLayout,
                 isFormatChange = mlElementType inputLayout \<noteq> mlElementType outputLayout,
                 isMemorySpaceChange = mlMemorySpace inputLayout \<noteq> mlMemorySpace outputLayout\<rparr>))
      | (LayoutMemref i, LayoutMemref out) \<Rightarrow>
            Inr \<lparr>isLayoutChange = False, isGridChange = dmShape i \<noteq> dmShape out,
                 isFormatChange = dmElem i \<noteq> dmElem out, isMemorySpaceChange = dmSpace i \<noteq> dmSpace out\<rparr>
      | _ \<Rightarrow> Inl (AssertFailed SiteOther))"

text \<open>The value a chain of \<open>to_layout\<close> ops produces: its source, and the types it passes through.\<close>

datatype layout_expr = LayoutEmpty layout_operand | LayoutSource nat layout_operand | ToLayout layout_expr layout_operand

fun layoutType :: "layout_expr \<Rightarrow> layout_operand" where
  "layoutType (LayoutEmpty ty) = ty"
| "layoutType (LayoutSource n ty) = ty"
| "layoutType (ToLayout x ty) = ty"

definition toLayoutFold :: "layout_expr \<Rightarrow> layout_operand \<Rightarrow> layout_expr option" where
  "toLayoutFold x ty =
     (case (layoutType x, ty) of
        (LayoutTensor s e l, LayoutTensor s' e' l') \<Rightarrow> if s = s' \<and> e = e' \<and> l = l' then Some x else None
      | _ \<Rightarrow> None)"

definition toLayoutOfEmpty :: "layout_expr \<Rightarrow> layout_operand \<Rightarrow> layout_expr option" where
  "toLayoutOfEmpty x ty = (case x of LayoutEmpty ty' \<Rightarrow> Some (LayoutEmpty ty) | _ \<Rightarrow> None)"

definition toLayoutOfToLayout :: "layout_expr \<Rightarrow> layout_operand \<Rightarrow> layout_expr option" where
  "toLayoutOfToLayout x ty = (case x of ToLayout y ty' \<Rightarrow> Some (ToLayout y ty) | _ \<Rightarrow> None)"

section \<open>Yield and await\<close>

text \<open>An operand is looked up among the arguments of the region after its \<open>memref.collapse_shape\<close>s are
  stripped; a value is a region argument, the collapse of a value, or another.\<close>

datatype region_value = RegionArg nat | Collapse region_value | OtherRegionValue nat

fun recurseThroughMemrefCollapse :: "region_value \<Rightarrow> region_value" where
  "recurseThroughMemrefCollapse (Collapse v) = recurseThroughMemrefCollapse v"
| "recurseThroughMemrefCollapse v = v"

definition operandsInRegionArguments :: "nat \<Rightarrow> region_value list \<Rightarrow> verdict" where
  "operandsInRegionArguments numArguments operands =
     checks (map (\<lambda>operand. (recurseThroughMemrefCollapse operand \<in> RegionArg ` {..<numArguments}, ''operand not in region arguments'')) operands)"

end
