(* ===== verification/TTIRGeneric.thy ===== *)
theory TTIRGeneric
  imports TTIRVerifyOps Device
begin

text \<open>
  \<open>GenericOp\<close>, the op that runs regions on a grid of cores (\<open>TTIROps.cpp\<close>): its verifier, the grid shapes of
  its operands and its loop bounds.

  Three functions of MLIR on affine maps are parameters, a record of functions: the concatenation of maps, the
  inverse of a permutation, and the inverse of a projected permutation with zeros for the dimensions
  that do not occur.
\<close>

record mlir_maps =
  mmConcat :: "affine_map list \<Rightarrow> affine_map"
  mmInversePermutation :: "affine_map \<Rightarrow> affine_map"
  mmInverseAndBroadcast :: "affine_map \<Rightarrow> affine_map"

section \<open>Operands and regions\<close>

datatype thread_type = ComputeThread | DatamovementThread

record thread_attr =
  thType :: thread_type
  thKernelSymbol :: "string option"

datatype region_arg = MemrefArg device_memref | SemaphoreArg | OtherArg nat

record generic_region =
  grBlocks :: nat
  grArguments :: "region_arg list"

record generic_op =
  geInputs :: "layout_operand list"
  geOutputs :: "layout_operand list"
  geGrid :: grid_attr
  geIndexingMaps :: "affine_map list"
  geThreads :: "thread_attr list"
  geRegions :: "generic_region list"

definition geOperands :: "generic_op \<Rightarrow> layout_operand list" where
  "geOperands op = geInputs op @ geOutputs op"

text \<open>A cast to the layout interface fails for another layout, and a tensor without a layout has none.\<close>

definition deviceMemref :: "device_memref \<Rightarrow> fault + device_memref" where
  "deviceMemref m = (if isDeviceLayout (dmLayout m) then Inr m else Inl (AssertFailed SiteOther))"

definition operandGridShape :: "layout_operand \<Rightarrow> fault + shape" where
  "operandGridShape ty =
     (case ty of
        LayoutMemref m \<Rightarrow> rbind (deviceMemref m) memrefGridShape
      | LayoutTensor s e (Some l) \<Rightarrow> Inr (gridShape (mlGrid l))
      | _ \<Rightarrow> Inl NullDeref)"

definition getOperandGridShapes :: "generic_op \<Rightarrow> fault + shape list" where
  "getOperandGridShapes op = mapE operandGridShape (geOperands op)"

section \<open>The verifier\<close>

text \<open>The first dimension at which two shapes differ, where none of them is zero.\<close>

definition compareCompatibleDims :: "shape \<Rightarrow> shape \<Rightarrow> nat option" where
  "compareCompatibleDims as bs =
     (let n = min (length as) (length bs)
      in List.find (\<lambda>i. as ! i \<noteq> bs ! i \<and> as ! i \<noteq> 0 \<and> bs ! i \<noteq> 0) [0..<n])"

definition verifyAffineShapes :: "mlir_maps \<Rightarrow> affine_map list \<Rightarrow> shape list \<Rightarrow> fault + verdict" where
  "verifyAffineShapes mm indexingMaps shapes =
     rbind (assertE SiteOther (length indexingMaps = length shapes)) (\<lambda>_.
     let shapeOf = (\<lambda>i. mapEval (mmInverseAndBroadcast mm (indexingMaps ! i)) (shapes ! i));
         pairs = concat (map (\<lambda>a. map (\<lambda>b. (a, b)) (filter (\<lambda>b. b \<noteq> a) [0..<length shapes])) [0..<length shapes])
     in Inr (checks (map (\<lambda>(a, b). (compareCompatibleDims (shapeOf a) (shapeOf b) = None, ''shape mismatch between operands'')) pairs)))"

text \<open>The grid of an output: none for a tensor without a layout, which is skipped.\<close>

definition outputGridShape :: "layout_operand \<Rightarrow> fault + shape option" where
  "outputGridShape ty =
     (case ty of
        LayoutTensor s e None \<Rightarrow> Inr None
      | LayoutTensor s e (Some l) \<Rightarrow> Inr (Some (gridShape (mlGrid l)))
      | LayoutMemref m \<Rightarrow> rbind (deviceMemref m) (\<lambda>m. rbind (memrefGridShape m) (\<lambda>s. Inr (Some s)))
      | OtherOperand \<Rightarrow> Inl (AssertFailed SiteOther))"

text \<open>What the argument of a region for an operand must be: its memory space unless it is a stream, and its
  shard shape.\<close>

definition expectedArgument :: "layout_operand \<Rightarrow> fault + (memory_space \<times> shape \<times> bool) option" where
  "expectedArgument ty =
     (case ty of
        LayoutTensor s e None \<Rightarrow> Inr None
      | LayoutTensor s e (Some l) \<Rightarrow> Inr (Some (mlMemorySpace l, memrefShape (mlMemref l), False))
      | LayoutMemref m \<Rightarrow> rbind (deviceMemref m) (\<lambda>m. rbind (memrefShardShape m) (\<lambda>s.
          Inr (Some (dmSpace m, s, (case dmLayout m of ViewLayout r \<Rightarrow> True | _ \<Rightarrow> False)))))
      | OtherOperand \<Rightarrow> Inl (AssertFailed SiteOther))"

definition argumentVerify :: "region_arg \<Rightarrow> layout_operand \<Rightarrow> fault + verdict" where
  "argumentVerify arg ty =
     (case arg of
        MemrefArg blockMemref \<Rightarrow>
          rbind (expectedArgument ty) (\<lambda>expected. Inr (case expected of
              None \<Rightarrow> Inr ()
            | Some (space, shardShape, isStream) \<Rightarrow> checks
                [(isStream \<or> space = dmSpace blockMemref, ''region argument memory space must match the memory space of the corresponding operand''),
                 (shardShape = dmShape blockMemref, ''region argument shape must match the shape of the corresponding operand'')]))
      | _ \<Rightarrow> Inr (Inl ''region arguments must be of MemRefType''))"

text \<open>Verdicts in a row: the first message, or the first fault.\<close>

fun firstVerdict :: "(fault + verdict) list \<Rightarrow> fault + verdict" where
  "firstVerdict [] = Inr (Inr ())"
| "firstVerdict (v # vs) = rbind v (\<lambda>verdict. case verdict of Inl message \<Rightarrow> Inr (Inl message) | Inr _ \<Rightarrow> firstVerdict vs)"

definition regionVerify :: "generic_op \<Rightarrow> generic_region \<Rightarrow> fault + verdict" where
  "regionVerify op region =
     (let args = grArguments region;
          firstArgs = grArguments (hd (geRegions op));
          n = length (geOperands op)
      in firstVerdict
        (Inr (checks [(grBlocks region = 1, ''region must have a single block''),
                (n \<le> length args, ''region must have at least as many arguments as the number of top-level operands''),
                (length args = length firstArgs, ''all regions must have the same number of arguments''),
                (args = firstArgs, ''all regions must have the same argument types'')])
         # map2 argumentVerify (take n args) (geOperands op)
         @ [Inr (checks (map (\<lambda>arg. (arg = SemaphoreArg, ''additional region arguments must be of 'semaphore' type'')) (drop n args)))]))"

definition hasGrid :: "layout_operand \<Rightarrow> bool" where
  "hasGrid ty \<longleftrightarrow> (case ty of LayoutMemref m \<Rightarrow> True | LayoutTensor s e l \<Rightarrow> l \<noteq> None | OtherOperand \<Rightarrow> False)"

definition allEqual :: "'a list \<Rightarrow> bool" where
  "allEqual xs \<longleftrightarrow> (case xs of [] \<Rightarrow> True | x # rest \<Rightarrow> list_all (\<lambda>y. y = x) rest)"

definition genericVerify :: "mlir_maps \<Rightarrow> generic_op \<Rightarrow> fault + verdict" where
  "genericVerify mm op =
     firstVerdict
       ([Inr (checks [(results (gridMapping (geGrid op)) = [], ''grid mapping is not supported''),
                      (length (geOutputs op) = 1, ''must currently have exactly one output operand''),
                      (geThreads op \<noteq> [], ''must have at least one thread''),
                      (geRegions op = [] \<or> length (geRegions op) = length (geThreads op), ''number of regions must match the number of threads'')])]
        @ map (\<lambda>out. rbind (outputGridShape out) (\<lambda>s.
              Inr (checks [((case s of None \<Rightarrow> True | Some s \<Rightarrow> gridShape (geGrid op) = s), ''output grid shape must match the generic op's grid shape'')])))
            (geOutputs op)
        @ [Inr (checks [(allEqual (map numDims (geIndexingMaps op)), ''all indexing maps must have the same number of dimensions'')]),
           (if geOutputs op \<noteq> [] \<and> hasGrid (hd (geOutputs op)) \<and> geIndexingMaps op \<noteq> []
            then rbind (getOperandGridShapes op) (verifyAffineShapes mm (geIndexingMaps op)) else Inr (Inr ()))]
        @ map (regionVerify op) (geRegions op)
        @ [Inr (checks [(geRegions op \<noteq> [] \<or> list_all (\<lambda>t. thKernelSymbol t \<noteq> None) (geThreads op),
                 ''threads must have a kernel symbol in external symbol form'')])])"

section \<open>Loop bounds\<close>

definition getNumDims :: "generic_op \<Rightarrow> fault + nat" where
  "getNumDims op = rbind (assertE SiteOther (geIndexingMaps op \<noteq> [])) (\<lambda>_. Inr (numDims (hd (geIndexingMaps op))))"

text \<open>The grid shapes of the operands, outputs first, the output grid divided by the compute grid.\<close>

definition divideGrid :: "shape \<Rightarrow> shape \<Rightarrow> fault + shape" where
  "divideGrid computeGrid flattened =
     foldE (\<lambda>i shapes. rbind (at shapes i) (\<lambda>d.
         if computeGrid ! i = 0 then Inl DivisionByZero
         else rbind (assertE SiteOther (d mod computeGrid ! i = 0)) (\<lambda>_. Inr (shapes[i := d div computeGrid ! i])))) [0..<length computeGrid] flattened"

definition getLoopBounds :: "mlir_maps \<Rightarrow> generic_op \<Rightarrow> fault + int list" where
  "getLoopBounds mm op =
     rbind (assertE SiteOther (geIndexingMaps op \<noteq> [])) (\<lambda>_.
     rbind (assertE SiteOther (length (geOutputs op) = 1)) (\<lambda>_.
     let inverse = mmInversePermutation mm (mmConcat mm (rev (geIndexingMaps op)))
     in rbind (getOperandGridShapes op) (\<lambda>operandGridShapes.
        rbind (divideGrid (gridShape (geGrid op)) (concat (rev operandGridShapes))) (\<lambda>flattenedGridShapes.
          Inr (mapEval inverse flattenedGridShapes)))))"

end
