(* ===== verification/TTNNVerify.thy ===== *)
theory TTNNVerify
  imports TTIRVerifyOps TTNNUtils
begin

text \<open>
  The verifiers, folders and canonicalization patterns of the TTNN ops (\<open>Dialect/TTNN/IR/TTNNOps.cpp\<close>).

  Where the code of a verifier repeats the one of the TTIR op, so does the definition: it is the TTIR verifier at the
  types without their layout (\<open>ttirType\<close>). Attributes of type \<open>I32Attr\<close> and \<open>UI32Attr\<close> are read as \<open>uint32_t\<close>.
\<close>

definition ttirType :: "tensor_type \<Rightarrow> ttir_type" where
  "ttirType ty = \<lparr>tyShape = ttShape ty, tyElem = ttElem ty, tyEncoding = None\<rparr>"

lemma ttirType_simps [simp]: "tyShape (ttirType ty) = ttShape ty" "tyElem (ttirType ty) = ttElem ty" "tyEncoding (ttirType ty) = None"
  by (simp_all add: ttirType_def)

section \<open>Constants and clamps\<close>

definition nnConstantVerify :: "elements_attr \<Rightarrow> verdict" where
  "nnConstantVerify v =
     checks [((case v of OtherElements e \<Rightarrow> False | _ \<Rightarrow> True), ''value attribute must be one of DenseResourceElementsAttr or DenseElementsAttr.'')]"

definition nnClampScalarVerify :: "ttir_type \<Rightarrow> ttir_type \<Rightarrow> verdict" where
  "nnClampScalarVerify inputType outputType =
     checks [(tyShape inputType = tyShape outputType, ''input and output must have same shape.'')]"

section \<open>Convolutions\<close>

text \<open>The attributes of \<open>ttnn.conv2d\<close>, \<open>ttnn.prepare_conv2d_weights\<close> and \<open>ttnn.conv_transpose2d\<close>.\<close>

record nn_conv =
  ncInChannels :: int
  ncOutChannels :: int
  ncBatchSize :: int
  ncInputHeight :: int
  ncInputWidth :: int
  ncKernelSize :: "int list"
  ncStride :: "int list"
  ncPadding :: "int list"
  ncOutputPadding :: "int list"
  ncDilation :: "int list"
  ncGroups :: int

definition prepareConv2dWeightsVerify :: "string \<Rightarrow> nn_conv \<Rightarrow> ttir_type \<Rightarrow> fault + verdict" where
  "prepareConv2dWeightsVerify weightsFormat c weight =
     onPass (checks [(rank weight = 4, ''Weight must be a 4D tensor''),
                     (weightsFormat = ''OIHW'', ''Only `OIHW` weights format is currently supported''),
                     (tyShape weight ! 0 = u32 (ncOutChannels c), ''Expected output channels attribute to match the first dimension of the weight tensor'')]) (\<lambda>_.
     if u32 (ncGroups c) = 0 then Inl DivisionByZero
     else Inr (checks [(tyShape weight ! 1 = u32 (ncInChannels c) div u32 (ncGroups c), ''Expected input channels attribute to match the number of input channels per group''),
                       (length (ncKernelSize c) = 2, ''Expected kernel size attribute to be a 2D tensor''),
                       (tyShape weight ! 2 = ncKernelSize c ! 0, ''Expected kernel height attribute to match the third dimension of the weight tensor''),
                       (tyShape weight ! 3 = ncKernelSize c ! 1, ''Expected kernel width attribute to match the fourth dimension of the weight tensor''),
                       (length (ncStride c) = 2, ''Expected stride attribute to be a 2D tensor''),
                       (length (ncDilation c) = 2, ''Expected dilation attribute to be a 2D tensor''),
                       (length (ncPadding c) = 2, ''Expected padding attribute to be a 2D tensor'')]))"

text \<open>Whether the window fits and the size of an output dimension: the products are of type \<open>int32_t\<close>, the sums with
  the size of the input unsigned.\<close>

definition nnWindowFits :: "int \<Rightarrow> int \<Rightarrow> int \<Rightarrow> int \<Rightarrow> fault + bool" where
  "nnWindowFits inputSize padding kernelSize dilation =
     rbind (int32 (2 * padding)) (\<lambda>doubled.
     rbind (int32 (kernelSize - 1)) (\<lambda>gaps.
     rbind (int32 (dilation - 1)) (\<lambda>holes.
     rbind (int32 (gaps * holes)) (\<lambda>filled.
     rbind (int32 (kernelSize + filled)) (\<lambda>effective.
       Inr (\<not> u32 (inputSize + doubled) < u32 effective))))))"

definition nnCalculatedOut :: "int \<Rightarrow> int \<Rightarrow> int \<Rightarrow> int \<Rightarrow> int \<Rightarrow> fault + int" where
  "nnCalculatedOut inputSize padding kernelSize dilation stride =
     rbind (int32 (2 * padding)) (\<lambda>doubled.
     rbind (int32 (kernelSize - 1)) (\<lambda>gaps.
     rbind (int32 (dilation * gaps)) (\<lambda>reach.
     let stride' = u32 stride
     in if stride' = 0 then Inl DivisionByZero
        else Inr (i32 (u32 (inputSize + doubled - reach - 1) div stride' + 1)))))"

definition nnConv2dShapeChecks :: "nn_conv \<Rightarrow> ttir_type option \<Rightarrow> ttir_type \<Rightarrow> ttir_type \<Rightarrow> ttir_type \<Rightarrow> (bool \<times> string) list" where
  "nnConv2dShapeChecks c bias input weight output =
     [(rank input = 4, ''Input must be a 4D tensor''), (rank output = 4, ''Output must be a 4D tensor''),
      (rank weight = 4, ''Weight must be a 4D tensor'')]
     @ (case bias of None \<Rightarrow> [] | Some b \<Rightarrow>
          [(rank b = 4, ''Bias must be a 4D tensor''),
           (tyShape b ! 0 = 1 \<and> tyShape b ! 1 = 1 \<and> tyShape b ! 2 = 1, ''Bias must only have data on the final dimenstion'')])
     @ [(u32 (ncInChannels c) = tyShape input ! 3, ''Expected input channels attribute to match the last dimension of the input tensor'')]
     @ (case bias of None \<Rightarrow> [] | Some b \<Rightarrow>
          [(u32 (ncOutChannels c) = tyShape b ! 3, ''Expected output channels attribute to match the last dimension of the bias tensor'')])
     @ [(u32 (ncOutChannels c) = tyShape output ! 3, ''Expected output channels attribute to match the last dimension of the output tensor''),
        (u32 (u32 (ncBatchSize c) * u32 (ncInputHeight c) * u32 (ncInputWidth c)) = tyShape input ! 2,
          ''Input is flattened, so batch_size * input_height * input_width must match the third dimension of the input tensor'')]"

definition nnConv2dAttrChecks :: "nn_conv \<Rightarrow> (bool \<times> string) list" where
  "nnConv2dAttrChecks c =
     [(length (ncStride c) = 2, ''Stride attribute must have two values''),
      (list_all (\<lambda>v. 1 \<le> v) (ncStride c), ''Stride attribute must be greater than 0''),
      (length (ncPadding c) = 2, ''Padding attribute must have two values''),
      (list_all (\<lambda>v. 0 \<le> v) (ncPadding c), ''Padding attribute must be greater than or equal to 0''),
      (length (ncDilation c) = 2, ''Dilation attribute must have two values''),
      (list_all (\<lambda>v. 1 \<le> v) (ncDilation c), ''Dilation attribute must be greater than 0''),
      (length (ncKernelSize c) = 2, ''Kernel size attribute must have two values'')]"

definition nnConv2dVerify :: "nn_conv \<Rightarrow> ttir_type option \<Rightarrow> ttir_type \<Rightarrow> ttir_type \<Rightarrow> ttir_type \<Rightarrow> fault + verdict" where
  "nnConv2dVerify c bias input weight output =
     onPass (checks (nnConv2dShapeChecks c bias input weight output @ nnConv2dAttrChecks c)) (\<lambda>_.
     rbind (nnWindowFits (u32 (ncInputHeight c)) (ncPadding c ! 0) (ncKernelSize c ! 0) (ncDilation c ! 0)) (\<lambda>fitsH.
     rbind (nnWindowFits (u32 (ncInputWidth c)) (ncPadding c ! 1) (ncKernelSize c ! 1) (ncDilation c ! 1)) (\<lambda>fitsW.
     onPass (checks [(fitsH \<and> fitsW, ''Calculated padded input size per channel'')]) (\<lambda>_.
     let groups = u32 (ncGroups c)
     in if groups = 0 then Inl DivisionByZero
        else onPass (checks
          [(u32 (ncInChannels c) mod groups = 0, ''Number of input channels must be divisible by the number of groups''),
           (u32 (ncOutChannels c) mod groups = 0, ''Number of output channels must be divisible by the number of groups'')]) (\<lambda>_.
        rbind (nnCalculatedOut (u32 (ncInputHeight c)) (ncPadding c ! 0) (ncKernelSize c ! 0) (ncDilation c ! 0) (ncStride c ! 0)) (\<lambda>hOut.
        rbind (nnCalculatedOut (u32 (ncInputWidth c)) (ncPadding c ! 1) (ncKernelSize c ! 1) (ncDilation c ! 1) (ncStride c ! 1)) (\<lambda>wOut.
        Inr (checks
          [(0 \<le> hOut \<and> 0 \<le> wOut, ''Output size is too small''),
           (u32 (u32 (ncBatchSize c) * hOut * wOut) = tyShape output ! 2,
             ''Output is flattened, so batch_size * output_height * output_width must match the third dimension of the output tensor'')]))))))))"

definition nnIsBiasCompatible :: "ttir_type \<Rightarrow> shape \<Rightarrow> bool" where
  "nnIsBiasCompatible weight bias \<longleftrightarrow> bias ! 0 = 1 \<and> bias ! 1 = 1 \<and> bias ! 2 = 1 \<and> bias ! 3 = tyShape weight ! 0"

definition checkBiggerThan :: "int list \<Rightarrow> int \<Rightarrow> bool \<times> string" where
  "checkBiggerThan values minValue = (list_all (\<lambda>v. minValue \<le> v) values, ''Attribute contains a value less than'')"

text \<open>The number of values of the array attributes is not checked: an element that is missing is out of bounds.\<close>

definition nnExpectedOut :: "nn_conv \<Rightarrow> ttir_type \<Rightarrow> ttir_type \<Rightarrow> nat \<Rightarrow> fault + int" where
  "nnExpectedOut c input weight i =
     rbind (at (ncStride c) i) (\<lambda>stride.
     rbind (at (ncPadding c) i) (\<lambda>padding.
     rbind (at (ncDilation c) i) (\<lambda>dilation.
     rbind (at (ncOutputPadding c) i) (\<lambda>outputPadding.
     rbind (int32 (2 * padding)) (\<lambda>doubled.
       expectedOut (i32 (tyShape input ! (1 + i))) stride doubled dilation (i32 (tyShape weight ! (2 + i))) outputPadding)))))"

definition nnConvTranspose2dVerify :: "nn_conv \<Rightarrow> ttir_type option \<Rightarrow> ttir_type \<Rightarrow> ttir_type \<Rightarrow> ttir_type \<Rightarrow> fault + verdict" where
  "nnConvTranspose2dVerify c bias input weight output =
     onPass (checks
       ([(rank input = 4, ''Input must be a 4D tensor''), (rank output = 4, ''Output must be a 4D tensor''),
         (rank weight = 4, ''Weight must be a 4D tensor''),
         (case bias of None \<Rightarrow> True | Some b \<Rightarrow> rank b = 4, ''Bias must be a 4D tensor''),
         (u32 (ncInChannels c) = tyShape input ! 3, ''Input channels attribute must match the last dimension of the input tensor''),
         (u32 (ncOutChannels c) = tyShape output ! 3, ''Output channels attribute match the last dimension of the output tensor''),
         (u32 (ncBatchSize c) = tyShape input ! 0, ''Batch size attribute must match the first dimension of the input tensor''),
         (u32 (ncInputHeight c) = tyShape input ! 1, ''Input height attribute must match the second dimension of the input tensor''),
         (u32 (ncInputWidth c) = tyShape input ! 2, ''Input width attribute must match the third dimension of the input tensor''),
         checkBiggerThan (ncStride c) 1, checkBiggerThan (ncPadding c) 0, checkBiggerThan (ncOutputPadding c) 0,
         checkBiggerThan (ncDilation c) 1])) (\<lambda>_.
     let inputChannels = i32 (tyShape input ! 3);
         outputChannels = i32 (tyShape output ! 3);
         groups = u32 (ncGroups c)
     in if groups = 0 then Inl DivisionByZero
        else onPass (checks
          [(u32 inputChannels mod groups = 0, ''Number of input channels from input tensor must be divisible by the number of groups''),
           (u32 outputChannels mod groups = 0, ''Number of output channels from output tensor must be divisible by the number of groups''),
           (inputChannels = tyShape weight ! 0, ''Number of input channels from input tensor must match the first dimension of the weight tensor''),
           (u32 outputChannels div groups = tyShape weight ! 1, ''Number of output channels per group must match the second dimension of the weight tensor''),
           (case bias of None \<Rightarrow> True | Some b \<Rightarrow> tyShape b ! 3 = outputChannels, ''Mismatch in bias tensor dimensions'')]) (\<lambda>_.
          rbind (nnExpectedOut c input weight 0) (\<lambda>expectedH.
          rbind (nnExpectedOut c input weight 1) (\<lambda>expectedW.
            Inr (checks [(0 \<le> expectedH \<and> 0 \<le> expectedW, ''Output size is too small'')])))))"

section \<open>Quantization\<close>

definition nnQuantizeChecks :: "int option \<Rightarrow> ttir_type \<Rightarrow> ttir_type \<Rightarrow> (bool \<times> string) list" where
  "nnQuantizeChecks axis inputType outputType =
     quantizeChecks inputType outputType
     @ [((case axis of None \<Rightarrow> True | Some a \<Rightarrow> u32 a < rank inputType), ''Axis value is out of range for tensor'')]"

definition nnQuantizeVerify :: "int option \<Rightarrow> ttir_type \<Rightarrow> ttir_type \<Rightarrow> verdict" where
  "nnQuantizeVerify axis inputType outputType =
     checks ([(isFloatElem (tyElem inputType), ''Input element type must be float''),
              (isQuantizedElem (tyElem outputType), ''Result element type must be UniformQuantizedType or UniformQuantizedPerAxisType'')]
       @ nnQuantizeChecks axis inputType outputType)"

definition nnDequantizeVerify :: "int option \<Rightarrow> ttir_type \<Rightarrow> ttir_type \<Rightarrow> verdict" where
  "nnDequantizeVerify axis inputType outputType =
     checks ([(isQuantizedElem (tyElem inputType), ''Input element type must be UniformQuantizedType or UniformQuantizedPerAxisType''),
              (isFloatElem (tyElem outputType), ''Result element type must be float'')]
       @ nnQuantizeChecks axis inputType outputType)"

definition nnRequantizeVerify :: "int option \<Rightarrow> ttir_type \<Rightarrow> ttir_type \<Rightarrow> verdict" where
  "nnRequantizeVerify axis inputType outputType =
     checks ([(isQuantizedElem (tyElem inputType), ''Input element type must be UniformQuantizedType or UniformQuantizedPerAxisType''),
              (isQuantizedElem (tyElem outputType), ''Result element type must be UniformQuantizedType or UniformQuantizedPerAxisType'')]
       @ nnQuantizeChecks axis inputType outputType)"

section \<open>Casts\<close>

definition nnTypecastVerify :: "data_type \<Rightarrow> tensor_type \<Rightarrow> fault + verdict" where
  "nnTypecastVerify dtype outputType =
     rbind (getDataType (ttEncoding outputType)) (\<lambda>d.
       Inr (checks [(dtype = d, ''Output tensor data type must match the data type of dtype attribute'')]))"

definition nnToDTypeVerify :: "data_type \<Rightarrow> tensor_type \<Rightarrow> fault + verdict" where
  "nnToDTypeVerify dtype outputType =
     rbind (getDataType (ttEncoding outputType)) (\<lambda>d.
       Inr (checks [(dtype = d, ''Output tensor data type must match the data type of dtype attribute'')]))"

text \<open>A chain of casts of one kind, each with its data type, its type and the number of its uses.\<close>

datatype cast_expr = CastSource nat tensor_type | CastOp data_type tensor_type nat cast_expr

fun castType :: "cast_expr \<Rightarrow> tensor_type" where
  "castType (CastSource n ty) = ty"
| "castType (CastOp dtype ty uses x) = ty"

fun nnCastFold :: "cast_expr \<Rightarrow> cast_expr option" where
  "nnCastFold (CastOp dtype ty uses x) = (if ty = castType x then Some x else None)"
| "nnCastFold (CastSource n ty) = None"

fun foldConsecutiveDataCastOps :: "cast_expr \<Rightarrow> cast_expr option" where
  "foldConsecutiveDataCastOps (CastOp dtype ty uses (CastOp dtype' ty' uses' x)) =
     (if uses' = 1 then Some (CastOp dtype ty uses x) else None)"
| "foldConsecutiveDataCastOps x = None"

section \<open>Pooling\<close>

definition nnVerifyPoolingOp :: "int list \<Rightarrow> int \<Rightarrow> int \<Rightarrow> int \<Rightarrow> int \<Rightarrow> ttir_type \<Rightarrow> fault + verdict" where
  "nnVerifyPoolingOp kernelSize inputHeight inputWidth batchSize channels input =
     rbind (at kernelSize 0) (\<lambda>kernelHeight.
     onPass (checks [(\<not> i32 inputHeight < kernelHeight, ''Kernel height is greater than input height'')]) (\<lambda>_.
     rbind (at kernelSize 1) (\<lambda>kernelWidth.
     onPass (checks [(\<not> i32 inputWidth < kernelWidth, ''Kernel width is greater than input width''),
                  (rank input = 4, ''Input tensor rank must be 4.''),
                  (tyShape input ! 0 = 1 \<and> tyShape input ! 1 = 1, ''input must be in the form (1, 1, N*H*W, C).'')]) (\<lambda>_.
     rbind (int32 (i32 batchSize * i32 inputHeight)) (\<lambda>rows.
     rbind (int32 (rows * i32 inputWidth)) (\<lambda>places.
     Inr (checks [(tyShape input ! 2 = places, ''shape at dim -2 must be equal to N*H*W.''),
                  (tyShape input ! 3 = i32 channels, ''shape at dim -3 must be equal to C.'')])))))))"

section \<open>Creation ops\<close>

definition nnArangeVerify :: "int \<Rightarrow> int \<Rightarrow> int \<Rightarrow> ttir_type \<Rightarrow> fault + verdict" where
  "nnArangeVerify start end' step ty =
     (if step = 0 then Inr (Inl ''Step cannot be zero.'')
      else rbind (arangeCount start end' step) (\<lambda>numValues.
        Inr (checks [(0 < numValues, ''Invalid range''), (tyShape ty = [numValues], ''Output tensor shape must be'')])))"

definition namedOpVerify :: "data_type option \<Rightarrow> shape \<Rightarrow> ttir_type \<Rightarrow> fault + verdict" where
  "namedOpVerify dtype shp output =
     rbind (case dtype of None \<Rightarrow> Inr True
            | Some d \<Rightarrow> rbind (elementTypeToDataType (tyElem output)) (\<lambda>e. Inr (d = e))) (\<lambda>dtypeOk.
       Inr (checks [(dtypeOk, ''Data type mismatch between op and output tensor.''), (shp = tyShape output, ''Output tensor shape must be'')]))"

definition nnEmptyVerify :: "shape \<Rightarrow> data_type \<Rightarrow> layout \<Rightarrow> memory_config_attr \<Rightarrow> tensor_type \<Rightarrow> fault + verdict" where
  "nnEmptyVerify shp dtype lay memoryConfig output =
     onPass (checks [(ttShape output = shp, ''Output tensor shape must be''),
                     (lay = getLayout (ttEncoding output), ''Layout mismatch between op and layoutAttr.'')]) (\<lambda>_.
     rbind (getDataType (ttEncoding output)) (\<lambda>d.
     Inr (checks [(dtype = d, ''Data type mismatch between op and layoutAttr.''),
                  (mcBufferType memoryConfig = getBufferType (ttEncoding output), ''Buffer type mismatch between op and layoutAttr.''),
                  (mcTensorMemoryLayout memoryConfig = getMemLayout (ttEncoding output), ''Tensor memory layout mismatch between op and layoutAttr.'')])))"

end
