(* ===== verification/TTNNVerifyOps.thy ===== *)
theory TTNNVerifyOps
  imports TTNNVerify
begin

text \<open>
  The second half of \<open>TTNNOps.cpp\<close>: the ops that move data, memory configurations, layouts, collectives,
  caches and reductions.
\<close>

section \<open>Ops that move data\<close>

definition nnConcatVerify :: "int \<Rightarrow> ttir_type list \<Rightarrow> verdict" where
  "nnConcatVerify = concatVerify"

definition nnRepeatVerify :: "int list \<Rightarrow> ttir_type \<Rightarrow> ttir_type \<Rightarrow> verdict" where
  "nnRepeatVerify = repeatVerify"

definition nnReshapeVerify :: "int list \<Rightarrow> ttir_type \<Rightarrow> ttir_type \<Rightarrow> verdict" where
  "nnReshapeVerify = reshapeVerify"

definition nnPadVerify :: "int list \<Rightarrow> ttir_type \<Rightarrow> ttir_type \<Rightarrow> verdict" where
  "nnPadVerify = padVerify"

definition nnSliceVerify :: "int list \<Rightarrow> int list \<Rightarrow> int list \<Rightarrow> ttir_type \<Rightarrow> ttir_type \<Rightarrow> verdict" where
  "nnSliceVerify = sliceVerify"

definition nnTransposeVerify :: "int \<Rightarrow> int \<Rightarrow> ttir_type \<Rightarrow> ttir_type \<Rightarrow> verdict" where
  "nnTransposeVerify = transposeVerify"

definition nnPermuteVerify :: "int list \<Rightarrow> ttir_type \<Rightarrow> ttir_type \<Rightarrow> fault + verdict" where
  "nnPermuteVerify = permuteVerify"

definition nnRepeatInterleaveVerify :: "int \<Rightarrow> int \<Rightarrow> ttir_type \<Rightarrow> ttir_type \<Rightarrow> verdict" where
  "nnRepeatInterleaveVerify = repeatInterleaveVerify"

definition nnUpsampleVerify :: "int_attr \<Rightarrow> string \<Rightarrow> ttir_type \<Rightarrow> ttir_type \<Rightarrow> verdict" where
  "nnUpsampleVerify = upsample2dVerify"

definition nnEmbeddingVerify :: "ttir_type \<Rightarrow> ttir_type \<Rightarrow> ttir_type \<Rightarrow> verdict" where
  "nnEmbeddingVerify = embeddingVerify"

text \<open>\<open>back()\<close> of an empty shape is out of bounds.\<close>

definition nnEmbeddingBackwardVerify :: "ttir_type \<Rightarrow> ttir_type \<Rightarrow> ttir_type \<Rightarrow> ttir_type \<Rightarrow> fault + verdict" where
  "nnEmbeddingBackwardVerify inputType weightType inputGradType outputType =
     (if tyShape inputType = [] then Inl OutOfBounds
      else Inr (checks
        [(last (tyShape inputType) mod TILE_WIDTH = 0, ''Input's last dim must be divisible by TILE_WIDTH''),
         (rank weightType = 2, ''Input must be a 2D tensor''),
         (rank inputGradType = 4, ''Input gradient must be a 4D tensor''),
         (tyShape inputGradType ! 0 = 1 \<and> tyShape inputGradType ! 1 = 1, ''Input gradient must be in the form (1, 1, R, C)''),
         (tyShape inputGradType ! 2 = prod_list (tyShape inputType), ''Input gradient first dimension must match the volume of the input tensor''),
         (tyShape inputGradType ! 3 = tyShape weightType ! 1, ''Input gradient second dimension must match the second dimension of the weight tensor''),
         (tyElem inputGradType = tyElem outputType, ''Input gradient and output must have the same dtype''),
         (tyShape outputType = tyShape weightType, ''Output must have the same shape as weight'')]))"

section \<open>Memory configurations and layouts\<close>

definition isValidDeviceLayout :: "tensor_memory_layout option \<Rightarrow> bool" where
  "isValidDeviceLayout memLayout \<longleftrightarrow> (case memLayout of None \<Rightarrow> False | Some m \<Rightarrow> m = Interleaved \<or> isShardedMemoryLayout m)"

definition toMemoryConfigVerify :: "ttnn_layout_attr option \<Rightarrow> ttnn_layout_attr option \<Rightarrow> fault + verdict" where
  "toMemoryConfigVerify inputLayout outputLayout =
     onPass (checks [(inputLayout \<noteq> None, ''Input tensor type missing layout attribute''),
                     (outputLayout \<noteq> None, ''Output tensor type missing layout attribute'')]) (\<lambda>_.
     let out = the outputLayout
     in onPass (checks [(\<not> (isDeviceBufferType (getBufferType out) \<and> \<not> isValidDeviceLayout (getMemLayout out)),
                          ''Device memory space only supports interleaved or sharded memory layouts'')]) (\<lambda>_.
        rbind (if getBufferType out = DRAM then rbind (memLayoutValue (getMemLayout out)) (\<lambda>m. Inr (m = Interleaved)) else Inr True) (\<lambda>dramOk.
        onPass (checks [(dramOk, ''Device DRAM memory space only supports interleaved memory layout'')]) (\<lambda>_.
        rbind (hasShardedTensorMemoryLayout out) (\<lambda>sharded.
        if \<not> sharded then Inr (Inr ())
        else rbind (hasShardedL1TensorMemoryLayout out) (\<lambda>shardedL1.
          Inr (checks [(shardedL1, ''Sharded tensors layout must reside in L1''),
                       (length (getShardShape out) = 2, ''Shard shape must be 2D'')])))))))"

text \<open>A chain of \<open>ttnn.to_layout\<close> ops: the optional encoding of the type of each, its attributes and the number of its
  uses.\<close>

record to_layout_attrs =
  tlLayout :: layout
  tlDtype :: "data_type option"
  tlMemoryConfig :: "memory_config_attr option"
  tlDevice :: bool

datatype nn_layout_expr = NnLayoutSource nat "ttnn_layout_attr option"
  | NnToLayoutOp to_layout_attrs "ttnn_layout_attr option" nat nn_layout_expr

fun nnLayoutOf :: "nn_layout_expr \<Rightarrow> ttnn_layout_attr option" where
  "nnLayoutOf (NnLayoutSource n l) = l"
| "nnLayoutOf (NnToLayoutOp a l uses x) = l"

fun nnToLayoutIdentity :: "nn_layout_expr \<Rightarrow> nn_layout_expr option" where
  "nnToLayoutIdentity (NnToLayoutOp a l uses x) =
     (if nnLayoutOf x = None \<or> l = None \<or> nnLayoutOf x \<noteq> l then None else Some x)"
| "nnToLayoutIdentity (NnLayoutSource n l) = None"

fun nnToLayoutMerge :: "nn_layout_expr \<Rightarrow> nn_layout_expr option" where
  "nnToLayoutMerge (NnToLayoutOp a l uses (NnToLayoutOp b l' uses' x)) =
     (if uses' = 1
      then Some (NnToLayoutOp
             \<lparr>tlLayout = tlLayout a,
              tlDtype = (if tlDtype a \<noteq> None then tlDtype a else tlDtype b),
              tlMemoryConfig = (if tlMemoryConfig a \<noteq> None then tlMemoryConfig a else tlMemoryConfig b),
              tlDevice = tlDevice a\<rparr> l uses x)
      else None)"
| "nnToLayoutMerge x = None"

definition nnAllocVerify :: "ttnn_layout_attr option \<Rightarrow> int \<Rightarrow> int \<Rightarrow> buffer_type \<Rightarrow> verdict" where
  "nnAllocVerify l address allocSize bufferType =
     (case l of
        None \<Rightarrow> Inl ''Result type missing layout attribute''
      | Some l \<Rightarrow> checks
          [(allocSize \<noteq> 0, ''Alloc size must be non-zero''),
           (getBufferType l = bufferType, ''Input tensor layout memory space must match alloc memory space''),
           (\<not> (isSystemBufferType bufferType \<and> address \<noteq> 0), ''Allocating from system memory space must have address set to 0''),
           (\<not> (isDeviceBufferType (getBufferType l) \<and> address = 0), ''Allocating from a device memory space must have address set to a non-zero value'')])"

section \<open>Matrix products and softmax\<close>

definition nnLinearVerify ::
  "broadcaster \<Rightarrow> bool \<Rightarrow> bool \<Rightarrow> ttir_type \<Rightarrow> ttir_type \<Rightarrow> ttir_type option \<Rightarrow> ttir_type \<Rightarrow> verdict" where
  "nnLinearVerify = linearVerify"

definition nnMatmulVerify :: "broadcaster \<Rightarrow> bool \<Rightarrow> bool \<Rightarrow> ttir_type \<Rightarrow> ttir_type \<Rightarrow> ttir_type \<Rightarrow> verdict" where
  "nnMatmulVerify = matmulVerify"

definition nnSoftmaxVerify :: "int \<Rightarrow> ttir_type \<Rightarrow> ttir_type \<Rightarrow> verdict" where
  "nnSoftmaxVerify = softmaxVerify"

section \<open>Collectives\<close>

definition nnAllGatherVerify :: "int \<Rightarrow> ttir_type \<Rightarrow> verdict" where
  "nnAllGatherVerify gatherDim inputType = checks [(dimInBounds gatherDim inputType, ''Invalid gather dimension for all reduce op.'')]"

definition nnReduceScatterVerify :: "reduce_type \<Rightarrow> int \<Rightarrow> ttir_type \<Rightarrow> verdict" where
  "nnReduceScatterVerify reduceType scatterDim inputType =
     checks [(dimInBounds scatterDim inputType, ''Invalid scatter dimension for reduce scatter op.''),
             (supportedReduce reduceType, ''Invalid reduction op for reduce scatter op.'')]"

definition nnAllReduceVerify :: "reduce_type \<Rightarrow> verdict" where
  "nnAllReduceVerify reduceType = checks [(supportedReduce reduceType, ''Invalid reduction op for all reduce op.'')]"

text \<open>The folder of the three collectives: whether the op is replaced by its input.\<close>

definition cclFolds :: "int list \<Rightarrow> nat \<Rightarrow> shape \<Rightarrow> shape \<Rightarrow> fault + bool" where
  "cclFolds meshShape clusterAxis inputShape outputShape =
     (if meshShape = [] then Inr False
      else rbind (at meshShape clusterAxis) (\<lambda>devices. Inr (devices = 1 \<and> inputShape = outputShape)))"

definition nnCollectivePermuteVerify :: "shape \<Rightarrow> int list \<Rightarrow> verdict" where
  "nnCollectivePermuteVerify = collectivePermuteVerify"

text \<open>The folder drops the pairs that send to themselves: the input when none is left, or the op with new pairs.\<close>

fun dropSelfPairs :: "int list \<Rightarrow> fault + int list" where
  "dropSelfPairs [] = Inr []"
| "dropSelfPairs [src] = Inl OutOfBounds"
| "dropSelfPairs (src # target # rest) =
     rbind (dropSelfPairs rest) (\<lambda>filtered. Inr (if src = target then filtered else src # target # filtered))"

datatype permute_fold = PermuteToInput | PermuteWith shape "int list" | PermuteUnchanged

definition nnCollectivePermuteFold :: "int list \<Rightarrow> fault + permute_fold" where
  "nnCollectivePermuteFold pairs =
     rbind (dropSelfPairs pairs) (\<lambda>filtered.
       Inr (if filtered = [] then PermuteToInput
            else if length pairs \<noteq> length filtered then PermuteWith [int (length filtered div 2), 2] filtered
            else PermuteUnchanged))"

definition nnMeshShardVerify :: "mesh_shard_type \<Rightarrow> int list \<Rightarrow> ttir_type \<Rightarrow> verdict" where
  "nnMeshShardVerify shardType shardShape inputType =
     checks [(shardType \<noteq> ShardMaximal, ''Invalid shard_type (maximal) for mesh_shard op.''),
             (\<not> (shardType = ShardDevices \<and> length shardShape \<noteq> length (tyShape inputType)),
               ''Invalid rank(shard_shape) != rank(input) for mesh_shard op with devices partition.''),
             (\<not> (shardType = ShardDevices \<and> prod_list shardShape < 2),
               ''Invalid overall partition (<2) for mesh_shard op with devices partition.'')]"

section \<open>Caches\<close>

definition nnUpdateCacheVerify :: "int \<Rightarrow> ttir_type \<Rightarrow> ttir_type \<Rightarrow> fault + verdict" where
  "nnUpdateCacheVerify = updateCacheVerify"

definition nnFillCacheVerify :: "int \<Rightarrow> ttir_type \<Rightarrow> ttir_type \<Rightarrow> fault + verdict" where
  "nnFillCacheVerify = fillCacheVerify"

section \<open>Reductions\<close>

text \<open>Setting a bit beyond the rank fails an assertion of the bit vector.\<close>

definition nnReduceDimsMask :: "nat \<Rightarrow> int list option \<Rightarrow> fault + bool list" where
  "nnReduceDimsMask inputRank reduceDims =
     (case reduceDims of
        None \<Rightarrow> Inr (replicate inputRank True)
      | Some dims \<Rightarrow> foldE (\<lambda>d reduced.
          let d' = (if d < 0 then d + int inputRank else d)
          in rbind (assertE SiteOther (0 \<le> d' \<and> d' < int inputRank)) (\<lambda>_. Inr (reduced[nat d' := True])))
          dims (replicate inputRank False))"

definition nnVerifyReduceOp :: "ttir_type \<Rightarrow> int list option \<Rightarrow> bool \<Rightarrow> shape \<Rightarrow> fault + verdict" where
  "nnVerifyReduceOp inputType reduceDims keepDim outputShape =
     rbind (nnReduceDimsMask (length (tyShape inputType)) reduceDims) (\<lambda>reduced.
       Inr (checks [(outputShape = expectedReduceShape (tyShape inputType) reduced keepDim, ''Expected output shape'')]))"

definition verifyReduceProdOp :: "ttir_type \<Rightarrow> bool \<Rightarrow> verdict" where
  "verifyReduceProdOp inputType allDimensions =
     checks [(rank inputType \<le> 4, ''Input tensor rank is greater than 4 for reduce(product).''),
             (\<not> (allDimensions \<and> tyElem inputType \<noteq> Scalar BF16Type), ''TTNN only supports Reduce(prod) along all dimensions for bfloat16 datatype.'')]"

end
