(* ===== verification/TTIRToTTNN.thy ===== *)
theory TTIRToTTNN
  imports TTNNVerifyOps
begin

text \<open>
  The conversion of TTIR ops to TTNN ops (\<open>Conversion/TTIRToTTNN/TTIRToTTNN.cpp\<close>, \<open>Utils.cpp\<close>): for each TTIR op, the
  TTNN ops its pattern creates, in their order, and the value that replaces its result. The type converter of the pass
  is the identity.

  An op is a kind with its attributes; the operands are given by their types (the output operand of the TTIR op, which
  the patterns drop, is left out but for scatter). A float attribute is a token, the names of the elementwise ops and of
  the reductions are strings.
\<close>

section \<open>TTIR ops\<close>

type_synonym float_attr = nat

text \<open>The element type of a quantized tensor: per tensor (scale and zero point) or per axis.\<close>

datatype quant_kind = PerTensor float_attr int | PerAxis int

record pool_attrs =
  poKernelHeight :: int
  poKernelWidth :: int
  poStrideHeight :: int
  poStrideWidth :: int
  poDilationHeight :: int
  poDilationWidth :: int
  poCeilMode :: bool
  poPaddingLeft :: int
  poPaddingRight :: int
  poPaddingTop :: int
  poPaddingBottom :: int
  poFlat :: "flat_info option"

datatype ttir_kind =
    TirEmpty
  | TirNamedFull string shape
  | TirToLayout
  | TirElementwise string
  | TirReduction string bool "int list option"
  | TirProd bool "int list option"
  | TirArgMax bool "int list option"
  | TirEmbedding
  | TirEmbeddingBackward
  | TirCumSum int
  | TirRepeatInterleave int int
  | TirSoftmax int
  | TirTranspose int int
  | TirClampScalar float_attr float_attr
  | TirClampTensor
  | TirUpdateCache int nat
  | TirFillCache int nat
  | TirUnaryFloat string float_attr
  | TirConcat int
  | TirReshape "int list"
  | TirSlice "int list" "int list" "int list"
  | TirSqueeze int
  | TirBroadcast "int list"
  | TirRepeat "int list"
  | TirPad "int list" float_attr
  | TirUnsqueeze int
  | TirConstant elements_attr "float_attr option"
  | TirLinear bool bool
  | TirMatmul bool bool
  | TirConv2d conv_attrs
  | TirConvTranspose2d conv_transpose_attrs
  | TirPool2d string pool_attrs
  | TirTypecast
  | TirSubtract
  | TirAllReduce reduce_type int
  | TirReduceScatter reduce_type int int
  | TirMeshShard nat mesh_shard_type "int list" "int list"
  | TirAllGather int int
  | TirCollectivePermute shape "int list"
  | TirArange int int int int
  | TirScatter "int list" "int list"
  | TirPermute "int list"
  | TirUpsample int_attr string
  | TirQuantize "quant_kind option"
  | TirDequantize "quant_kind option"
  | TirRequantize "quant_kind option" "quant_kind option"

section \<open>TTNN ops\<close>

datatype nn_kind =
    NnEmpty shape data_type layout memory_config_attr
  | NnNamedFull string shape data_type layout bool "memory_config_attr option"
  | NnToLayout layout data_type memory_config_attr bool
  | NnElementwise string
  | NnReduction string bool "int list option"
  | NnProd bool bool int
  | NnArgMax "int option" bool
  | NnEmbedding
  | NnEmbeddingBackward data_type memory_config_attr
  | NnMorehCumSum int
  | NnRepeatInterleave int int
  | NnSoftmax int
  | NnTranspose int int
  | NnClampScalar float_attr float_attr
  | NnClampTensor
  | NnUpdateCache int
  | NnFillCache int
  | NnUnaryFloat string float_attr
  | NnConcat int
  | NnReshape "int list"
  | NnSlice "int list" "int list" "int list"
  | NnRepeat "int list"
  | NnPad "int list" float_attr "memory_config_attr option"
  | NnFull float_attr
  | NnConstant elements_attr
  | NnLinear bool bool
  | NnMatmul bool bool
  | NnConv2d nn_conv
  | NnConvTranspose2d nn_conv
  | NnPool2d string int int int int "int list" "int list" "int list" "int list" bool
  | NnTypecast data_type
  | NnAllReduce reduce_type int
  | NnReduceScatter reduce_type int int
  | NnMeshShard nat mesh_shard_type "int list" "int list"
  | NnAllGather int int
  | NnCollectivePermute shape "int list"
  | NnArange int int int data_type memory_config_attr
  | NnScatter
  | NnPermute "int list"
  | NnUpsample int_attr string
  | NnQuantize float_attr int "int option" data_type
  | NnDequantize float_attr int "int option" data_type
  | NnRequantize float_attr int float_attr int "int option" data_type

text \<open>An operand of a created op is an operand of the converted op or the result of an op created before. The cache ops
  have no result.\<close>

datatype nn_value = Operand nat | Created nat

record nn_op =
  noKind :: nn_kind
  noOperands :: "nn_value list"
  noResult :: "tensor_type option"

datatype lowering_error = MatchFailure string | OpError string | LoweringFault fault

type_synonym lowered = "lowering_error + nn_op list \<times> nn_value"

definition replaceWith :: "nn_kind \<Rightarrow> nn_value list \<Rightarrow> tensor_type \<Rightarrow> lowered" where
  "replaceWith kind operands ty = Inr ([\<lparr>noKind = kind, noOperands = operands, noResult = Some ty\<rparr>], Created 0)"

definition allOperands :: "'a list \<Rightarrow> nn_value list" where
  "allOperands tys = map Operand [0..<length tys]"

definition orLoweringFault :: "fault + 'a \<Rightarrow> lowering_error + 'a" where
  "orLoweringFault r = (case r of Inl f \<Rightarrow> Inl (LoweringFault f) | Inr x \<Rightarrow> Inr x)"

definition orMatchFailure :: "string + 'a \<Rightarrow> lowering_error + 'a" where
  "orMatchFailure r = (case r of Inl message \<Rightarrow> Inl (MatchFailure message) | Inr x \<Rightarrow> Inr x)"

definition orOpError :: "string + 'a \<Rightarrow> lowering_error + 'a" where
  "orOpError r = (case r of Inl message \<Rightarrow> Inl (OpError message) | Inr x \<Rightarrow> Inr x)"

section \<open>Creation ops and layouts\<close>

text \<open>The memory configuration of a layout.\<close>

definition memoryConfigOf :: "ttnn_layout_attr \<Rightarrow> memory_config_attr" where
  "memoryConfigOf l = \<lparr>mcBufferType = getBufferType l, mcShardSpec = getShardShape l, mcTensorMemoryLayout = getMemLayout l\<rparr>"

definition lowerEmpty :: "tensor_type \<Rightarrow> lowered" where
  "lowerEmpty ty =
     (let l = ttEncoding ty; lay = (if isTiled l then Tile else RowMajor)
      in rbind (orLoweringFault (getDataType l)) (\<lambda>dtype.
         replaceWith (if isSystemBufferType (getBufferType l) then NnNamedFull ''zeros'' (ttShape ty) dtype lay False None
                      else NnEmpty (ttShape ty) dtype lay (memoryConfigOf l)) [] ty))"

definition lowerNamedFull :: "string \<Rightarrow> shape \<Rightarrow> tensor_type \<Rightarrow> lowered" where
  "lowerNamedFull op shp ty =
     (let l = ttEncoding ty; lay = (if isTileElem (memrefElem (getMemref l)) then Tile else RowMajor)
      in rbind (orLoweringFault (getDataType l)) (\<lambda>dtype.
         replaceWith (NnNamedFull op shp dtype lay (getMemLayout l \<noteq> None)
            (if getMemLayout l \<noteq> None then Some (memoryConfigOf l) else None)) [] ty))"

definition lowerToLayout :: "tensor_type \<Rightarrow> lowered" where
  "lowerToLayout ty =
     (let l = ttEncoding ty
      in rbind (orLoweringFault (getDataType l)) (\<lambda>dtype.
         replaceWith (NnToLayout (getLayout l) dtype (memoryConfigOf l) (getBufferType l \<noteq> SystemMemory)) [Operand 0] ty))"

definition lowerConstant :: "elements_attr \<Rightarrow> float_attr option \<Rightarrow> tensor_type \<Rightarrow> lowered" where
  "lowerConstant v splat ty =
     (if \<not> (isFloatElem (elementsType v) \<or> isIntegerElem (elementsType v))
      then Inl (MatchFailure ''TTNN doesn't currently support tensor creation from values which are not integer or floating point numbers'')
      else case splat of
        Some fillValue \<Rightarrow> replaceWith (NnFull fillValue) [] ty
      | None \<Rightarrow> replaceWith (NnConstant v) [] ty)"

definition lowerArange :: "int \<Rightarrow> int \<Rightarrow> int \<Rightarrow> int \<Rightarrow> tensor_type \<Rightarrow> lowered" where
  "lowerArange start end' step arangeDimension ty =
     rbind (orLoweringFault (assertE SiteOther (arangeDimension = int (length (ttShape ty)) - 1))) (\<lambda>_.
     rbind (orLoweringFault (elementTypeToDataType (ttElem ty))) (\<lambda>dtype.
       replaceWith (NnArange start end' step dtype (memoryConfigOf (ttEncoding ty))) [] ty))"

section \<open>Reductions\<close>

definition lowerProd :: "bool \<Rightarrow> int list option \<Rightarrow> tensor_type \<Rightarrow> tensor_type \<Rightarrow> lowered" where
  "lowerProd keepDim dimArg inputTy ty =
     (let inputRank = length (ttShape inputTy);
          n = (case dimArg of Some dims \<Rightarrow> length dims | None \<Rightarrow> inputRank)
      in if 1 < n \<and> n < inputRank
         then Inl (MatchFailure ''tt-metal only supports reduce(prod) along one dimension or all dimensions.'')
         else rbind (case dimArg of Some dims \<Rightarrow> orLoweringFault (at dims 0) | None \<Rightarrow> Inr 0) (\<lambda>dimension.
              replaceWith (NnProd (n = inputRank) keepDim dimension) [Operand 0] ty))"

definition lowerArgMax :: "bool \<Rightarrow> int list option \<Rightarrow> tensor_type \<Rightarrow> lowered" where
  "lowerArgMax keepDim dimArg ty =
     rbind (case dimArg of
              None \<Rightarrow> Inr None
            | Some dims \<Rightarrow> rbind (orLoweringFault (assertE SiteOther (length dims = 1))) (\<lambda>_. Inr (Some (hd dims)))) (\<lambda>reductionAxis.
       replaceWith (NnArgMax reductionAxis keepDim) [Operand 0] ty)"

section \<open>Reshapes\<close>

text \<open>\<open>ttir_to_ttnn::utils::generateReshape\<close>: a reshape of a value of the given type.\<close>

definition generateNnReshape :: "tensor_type \<Rightarrow> nn_value \<Rightarrow> shape \<Rightarrow> lowering_error + nn_op" where
  "generateNnReshape inputTy v newShape =
     rbind (orLoweringFault (withTensorShape (ttEncoding inputTy) newShape)) (\<lambda>l.
       Inr \<lparr>noKind = NnReshape (map i32 newShape), noOperands = [v],
            noResult = Some \<lparr>ttShape = newShape, ttElem = ttElem inputTy, ttEncoding = l\<rparr>\<rparr>)"

definition generateNHWFlatten :: "tensor_type \<Rightarrow> nn_value \<Rightarrow> lowering_error + nn_op" where
  "generateNHWFlatten inputTy v =
     rbind (orLoweringFault (assertE SiteRank (length (ttShape inputTy) = 4))) (\<lambda>_.
     let s = ttShape inputTy
     in generateNnReshape inputTy v [1, 1, s ! 0 * s ! 1 * s ! 2, s ! 3])"

definition lowerEmbeddingBackward :: "tensor_type list \<Rightarrow> tensor_type \<Rightarrow> lowered" where
  "lowerEmbeddingBackward operandTypes ty =
     (let gradTy = operandTypes ! 2; gradShape = ttShape gradTy; l = ttEncoding ty
      in if gradShape = [] then Inl (LoweringFault OutOfBounds)
         else let R = foldl (\<lambda>acc d. i32 (acc * d)) 1 (butlast gradShape)
              in rbind (generateNnReshape gradTy (Operand 2) [1, 1, R, last gradShape]) (\<lambda>reshapedGrad.
                 rbind (orLoweringFault (getDataType l)) (\<lambda>dtype.
                 Inr ([reshapedGrad,
                       \<lparr>noKind = NnEmbeddingBackward dtype (memoryConfigOf l), noOperands = [Operand 0, Operand 1, Created 0],
                        noResult = Some ty\<rparr>], Created 1))))"

definition lowerSqueeze :: "int \<Rightarrow> tensor_type \<Rightarrow> tensor_type \<Rightarrow> lowered" where
  "lowerSqueeze dim inputTy ty =
     (let s = ttShape inputTy; dim' = (if dim < 0 then i32 (dim + int (length s)) else dim);
          newShape = map (\<lambda>i. i32 (s ! i)) (filter (\<lambda>i. int i \<noteq> dim') [0..<length s])
      in replaceWith (NnReshape newShape) [Operand 0] ty)"

definition lowerUnsqueeze :: "int \<Rightarrow> tensor_type \<Rightarrow> tensor_type \<Rightarrow> lowered" where
  "lowerUnsqueeze dim inputTy ty =
     (let s = ttShape inputTy; dim' = (if dim < 0 then i32 (dim + int (length s) + 1) else dim);
          newShape = concat (map (\<lambda>i. (if int i = dim' then [1] else []) @ [i32 (s ! i)]) [0..<length s])
                     @ (if int (length s) = dim' then [1] else [])
      in replaceWith (NnReshape newShape) [Operand 0] ty)"

section \<open>Windows\<close>

text \<open>Four padding values that TTNN can express as two.\<close>

definition attrToDenseI32Array :: "int_attr \<Rightarrow> string + int list" where
  "attrToDenseI32Array a = rbind (getPairOfInteger a) (\<lambda>(x, y). Inr [x, y])"

definition attrToDenseI32Array4 :: "int_attr \<Rightarrow> string + int list" where
  "attrToDenseI32Array4 a = rbind (getQuadrupleOfInteger a) (\<lambda>(x, y, z, w). Inr [x, y, z, w])"

definition symmetricPadding :: "int list \<Rightarrow> string + int list" where
  "symmetricPadding p =
     (if p ! 0 \<noteq> p ! 2 \<or> p ! 1 \<noteq> p ! 3
      then Inl ''TTNN only supports padding height/width attributes.'' else Inr [p ! 0, p ! 1])"

definition lowerConv2d :: "conv_attrs \<Rightarrow> tensor_type list \<Rightarrow> tensor_type \<Rightarrow> lowered" where
  "lowerConv2d a operandTypes ty =
     (case caFlat a of
        None \<Rightarrow> Inl (MatchFailure ''TTNN only supports flattened input tensors for Conv2dOp.'')
      | Some info \<Rightarrow>
          let input = ttShape (operandTypes ! 0); weight = ttShape (operandTypes ! 1)
          in rbind (orMatchFailure (attrToDenseI32Array (caStride a))) (\<lambda>stride.
             rbind (orMatchFailure (attrToDenseI32Array4 (caPadding a))) (\<lambda>padding.
             rbind (orMatchFailure (symmetricPadding padding)) (\<lambda>reducedPadding.
             rbind (orMatchFailure (attrToDenseI32Array (caDilation a))) (\<lambda>dilation.
             replaceWith (NnConv2d
               \<lparr>ncInChannels = i32 (input ! 3), ncOutChannels = i32 (ttShape ty ! 3), ncBatchSize = i32 (fiBatchSize info),
                ncInputHeight = i32 (fiInputHeight info), ncInputWidth = i32 (fiInputWidth info),
                ncKernelSize = [i32 (weight ! 2), i32 (weight ! 3)], ncStride = stride, ncPadding = reducedPadding,
                ncOutputPadding = [], ncDilation = dilation, ncGroups = i32 (caGroups a)\<rparr>) (allOperands operandTypes) ty)))))"

definition lowerConvTranspose2d :: "conv_transpose_attrs \<Rightarrow> tensor_type list \<Rightarrow> tensor_type \<Rightarrow> lowered" where
  "lowerConvTranspose2d a operandTypes ty =
     (let input = ttShape (operandTypes ! 0); weight = ttShape (operandTypes ! 1); out = ttShape ty
      in rbind (orOpError (attrToDenseI32Array (ctStride a))) (\<lambda>stride.
         rbind (orOpError (attrToDenseI32Array4 (ctPadding a))) (\<lambda>padding.
         rbind (orOpError (symmetricPadding padding)) (\<lambda>reducedPadding.
         rbind (orOpError (attrToDenseI32Array (ctOutputPadding a))) (\<lambda>outputPadding.
         rbind (orOpError (attrToDenseI32Array (ctDilation a))) (\<lambda>dilation.
         let flattened = ty\<lparr>ttShape := [1, 1, out ! 0 * out ! 1 * out ! 2, out ! 3]\<rparr>;
             newConv = \<lparr>noKind = NnConvTranspose2d
               \<lparr>ncInChannels = i32 (input ! 3), ncOutChannels = i32 (out ! 3), ncBatchSize = i32 (input ! 0),
                ncInputHeight = i32 (input ! 1), ncInputWidth = i32 (input ! 2),
                ncKernelSize = [i32 (weight ! 2), i32 (weight ! 3)], ncStride = stride, ncPadding = reducedPadding,
                ncOutputPadding = outputPadding, ncDilation = dilation, ncGroups = i32 (ctGroups a)\<rparr>,
               noOperands = allOperands operandTypes, noResult = Some flattened\<rparr>
         in rbind (generateNnReshape flattened (Created 0) out) (\<lambda>reshape.
              Inr ([newConv, reshape], Created 1))))))))"

definition lowerPool2d :: "string \<Rightarrow> pool_attrs \<Rightarrow> tensor_type list \<Rightarrow> tensor_type \<Rightarrow> lowered" where
  "lowerPool2d op a operandTypes ty =
     (case poFlat a of
        None \<Rightarrow> Inl (MatchFailure ''TTNN only supports flattened input tensors'')
      | Some info \<Rightarrow>
          if poPaddingBottom a \<noteq> poPaddingTop a then Inl (MatchFailure ''does not support asymmetric padding for top/bottom.'')
          else if poPaddingLeft a \<noteq> poPaddingRight a then Inl (MatchFailure ''does not support asymmetric padding for left/right.'')
          else replaceWith (NnPool2d op (u32 (fiBatchSize info)) (u32 (fiInputHeight info)) (u32 (fiInputWidth info))
                 (u32 (ttShape (operandTypes ! 0) ! 3)) [poKernelHeight a, poKernelWidth a] [poStrideHeight a, poStrideWidth a]
                 [poPaddingTop a, poPaddingLeft a] [poDilationHeight a, poDilationWidth a] (poCeilMode a)) [Operand 0] ty)"

section \<open>Other ops\<close>

definition lowerPad :: "int list \<Rightarrow> float_attr \<Rightarrow> tensor_type \<Rightarrow> lowered" where
  "lowerPad padding v ty =
     replaceWith (NnPad padding v (if getBufferType (ttEncoding ty) \<noteq> SystemMemory then Some (memoryConfigOf (ttEncoding ty)) else None))
       [Operand 0] ty"

definition lowerSubtract :: "tensor_type list \<Rightarrow> tensor_type \<Rightarrow> lowered" where
  "lowerSubtract operandTypes ty =
     (let lhsType = operandTypes ! 0; rhsType = operandTypes ! 1
      in if ttShape lhsType = ttShape rhsType then replaceWith (NnElementwise ''subtract'') [Operand 0, Operand 1] ty
         else Inr ([\<lparr>noKind = NnElementwise ''neg'', noOperands = [Operand 1], noResult = Some rhsType\<rparr>,
                    \<lparr>noKind = NnElementwise ''add'', noOperands = [Operand 0, Created 0], noResult = Some ty\<rparr>], Created 1))"

text \<open>The patterns that create one op with the operands and attributes of the replaced one.\<close>

definition lowerElementwise :: "string \<Rightarrow> tensor_type list \<Rightarrow> tensor_type \<Rightarrow> lowered" where
  [simp]: "lowerElementwise op tys ty = replaceWith (NnElementwise op) (allOperands tys) ty"

definition lowerReduction :: "string \<Rightarrow> bool \<Rightarrow> int list option \<Rightarrow> tensor_type \<Rightarrow> lowered" where
  [simp]: "lowerReduction op keepDim dimArg ty = replaceWith (NnReduction op keepDim dimArg) [Operand 0] ty"

definition lowerEmbedding :: "tensor_type list \<Rightarrow> tensor_type \<Rightarrow> lowered" where
  [simp]: "lowerEmbedding tys ty = replaceWith NnEmbedding (allOperands tys) ty"

definition lowerCumSum :: "int \<Rightarrow> tensor_type \<Rightarrow> lowered" where
  [simp]: "lowerCumSum dim ty = replaceWith (NnMorehCumSum dim) [Operand 0] ty"

definition lowerRepeatInterleave :: "int \<Rightarrow> int \<Rightarrow> tensor_type \<Rightarrow> lowered" where
  [simp]: "lowerRepeatInterleave repeats dim ty = replaceWith (NnRepeatInterleave repeats dim) [Operand 0] ty"

definition lowerSoftmax :: "int \<Rightarrow> tensor_type \<Rightarrow> lowered" where
  [simp]: "lowerSoftmax dim ty = replaceWith (NnSoftmax dim) [Operand 0] ty"

definition lowerTranspose :: "int \<Rightarrow> int \<Rightarrow> tensor_type \<Rightarrow> lowered" where
  [simp]: "lowerTranspose dim0 dim1 ty = replaceWith (NnTranspose dim0 dim1) [Operand 0] ty"

definition lowerClampScalar :: "float_attr \<Rightarrow> float_attr \<Rightarrow> tensor_type \<Rightarrow> lowered" where
  [simp]: "lowerClampScalar mn mx ty = replaceWith (NnClampScalar mn mx) [Operand 0] ty"

definition lowerUnaryFloat :: "string \<Rightarrow> float_attr \<Rightarrow> tensor_type \<Rightarrow> lowered" where
  [simp]: "lowerUnaryFloat op parameter ty = replaceWith (NnUnaryFloat op parameter) [Operand 0] ty"

definition lowerConcat :: "int \<Rightarrow> tensor_type list \<Rightarrow> tensor_type \<Rightarrow> lowered" where
  [simp]: "lowerConcat dim tys ty =
     replaceWith (NnConcat (if dim < 0 then i32 (dim + int (length (ttShape (tys ! 0)))) else dim)) (allOperands tys) ty"

definition lowerReshape :: "int list \<Rightarrow> tensor_type \<Rightarrow> lowered" where
  [simp]: "lowerReshape shp ty = replaceWith (NnReshape shp) [Operand 0] ty"

definition lowerSlice :: "int list \<Rightarrow> int list \<Rightarrow> int list \<Rightarrow> tensor_type \<Rightarrow> lowered" where
  [simp]: "lowerSlice begins ends step ty = replaceWith (NnSlice begins ends step) [Operand 0] ty"

definition lowerBroadcast :: "int list \<Rightarrow> tensor_type \<Rightarrow> lowered" where
  [simp]: "lowerBroadcast dims ty = replaceWith (NnRepeat dims) [Operand 0] ty"

definition lowerRepeat :: "int list \<Rightarrow> tensor_type \<Rightarrow> lowered" where
  [simp]: "lowerRepeat dims ty = replaceWith (NnRepeat dims) [Operand 0] ty"

definition lowerLinear :: "bool \<Rightarrow> bool \<Rightarrow> tensor_type list \<Rightarrow> tensor_type \<Rightarrow> lowered" where
  [simp]: "lowerLinear transposeA transposeB tys ty = replaceWith (NnLinear transposeA transposeB) (allOperands tys) ty"

definition lowerMatmul :: "bool \<Rightarrow> bool \<Rightarrow> tensor_type list \<Rightarrow> tensor_type \<Rightarrow> lowered" where
  [simp]: "lowerMatmul transposeA transposeB tys ty = replaceWith (NnMatmul transposeA transposeB) (allOperands tys) ty"

definition lowerTypecast :: "tensor_type \<Rightarrow> lowered" where
  [simp]: "lowerTypecast ty =
     rbind (orLoweringFault (getDataType (ttEncoding ty))) (\<lambda>outputDataType. replaceWith (NnTypecast outputDataType) [Operand 0] ty)"

definition lowerAllReduce :: "reduce_type \<Rightarrow> int \<Rightarrow> tensor_type \<Rightarrow> lowered" where
  [simp]: "lowerAllReduce reduceType clusterAxis ty = replaceWith (NnAllReduce reduceType clusterAxis) [Operand 0] ty"

definition lowerReduceScatter :: "reduce_type \<Rightarrow> int \<Rightarrow> int \<Rightarrow> tensor_type \<Rightarrow> lowered" where
  [simp]: "lowerReduceScatter reduceType scatterDim clusterAxis ty =
     replaceWith (NnReduceScatter reduceType scatterDim clusterAxis) [Operand 0] ty"

definition lowerMeshShard :: "nat \<Rightarrow> mesh_shard_type \<Rightarrow> int list \<Rightarrow> int list \<Rightarrow> tensor_type \<Rightarrow> lowered" where
  [simp]: "lowerMeshShard direction shardType shardShape shardDims ty =
     replaceWith (NnMeshShard direction shardType shardShape shardDims) [Operand 0] ty"

definition lowerAllGather :: "int \<Rightarrow> int \<Rightarrow> tensor_type \<Rightarrow> lowered" where
  [simp]: "lowerAllGather gatherDim clusterAxis ty =
     replaceWith (NnAllGather gatherDim (u32 clusterAxis)) [Operand 0] ty"

definition lowerCollectivePermute :: "shape \<Rightarrow> int list \<Rightarrow> tensor_type \<Rightarrow> lowered" where
  [simp]: "lowerCollectivePermute pairsShape pairs ty =
     replaceWith (NnCollectivePermute pairsShape pairs) [Operand 0] ty"

definition lowerScatter :: "int list \<Rightarrow> int list \<Rightarrow> tensor_type list \<Rightarrow> tensor_type \<Rightarrow> lowered" where
  [simp]: "lowerScatter updateWindowDims insertedWindowDims tys ty =
     replaceWith NnScatter [Operand 2, Operand 0] (tys ! 3)"

definition lowerPermute :: "int list \<Rightarrow> tensor_type \<Rightarrow> lowered" where
  [simp]: "lowerPermute permutation ty = replaceWith (NnPermute permutation) [Operand 0] ty"

definition lowerUpsample :: "int_attr \<Rightarrow> string \<Rightarrow> tensor_type \<Rightarrow> lowered" where
  [simp]: "lowerUpsample scaleFactor mode ty = replaceWith (NnUpsample scaleFactor mode) [Operand 0] ty"

text \<open>The cache ops work in place: the op has no result, and the cache replaces the result of the TTIR op.\<close>

definition lowerCache :: "nn_kind \<Rightarrow> nat \<Rightarrow> tensor_type list \<Rightarrow> lowered" where
  "lowerCache kind users operandTypes =
     (if users \<noteq> 1 then Inl (MatchFailure ''must have exactly one user'')
      else Inr ([\<lparr>noKind = kind, noOperands = allOperands operandTypes, noResult = None\<rparr>], Operand 0))"

definition getScaleAndZeroPoint :: "quant_kind \<Rightarrow> (float_attr \<times> int) option" where
  "getScaleAndZeroPoint q = (case q of PerTensor scale zeroPoint \<Rightarrow> Some (scale, i32 zeroPoint) | PerAxis d \<Rightarrow> None)"

definition getAxis :: "quant_kind \<Rightarrow> int option" where
  "getAxis q = (case q of PerTensor scale zeroPoint \<Rightarrow> None | PerAxis d \<Rightarrow> Some (i32 d))"

definition lowerQuantization ::
  "(float_attr \<Rightarrow> int \<Rightarrow> int option \<Rightarrow> data_type \<Rightarrow> nn_kind) \<Rightarrow> quant_kind option \<Rightarrow> tensor_type \<Rightarrow> lowered" where
  "lowerQuantization mk elementType ty =
     (case elementType of
        None \<Rightarrow> Inl (MatchFailure '''')
      | Some q \<Rightarrow> (case getScaleAndZeroPoint q of
          None \<Rightarrow> Inl (MatchFailure ''Only per tensor quantization is supported right now.'')
        | Some (scale, zeroPoint) \<Rightarrow>
            rbind (orLoweringFault (getDataType (ttEncoding ty))) (\<lambda>outputDataType.
              replaceWith (mk scale zeroPoint (getAxis q) outputDataType) [Operand 0] ty)))"

definition lowerRequantize :: "quant_kind option \<Rightarrow> quant_kind option \<Rightarrow> tensor_type \<Rightarrow> lowered" where
  "lowerRequantize inputElementType outputElementType ty =
     (case (inputElementType, outputElementType) of
        (Some qi, Some qo) \<Rightarrow>
          (case (getScaleAndZeroPoint qi, getScaleAndZeroPoint qo) of
             (Some (inputScale, inputZeroPoint), Some (outputScale, outputZeroPoint)) \<Rightarrow>
               rbind (orLoweringFault (getDataType (ttEncoding ty))) (\<lambda>outputDataType.
                 replaceWith (NnRequantize inputScale inputZeroPoint outputScale outputZeroPoint (getAxis qi) outputDataType) [Operand 0] ty)
           | _ \<Rightarrow> Inl (MatchFailure ''Only per tensor quantization is supported right now.''))
      | _ \<Rightarrow> Inl (MatchFailure ''''))"

section \<open>The conversion of an op\<close>

fun lowerOp :: "ttir_kind \<Rightarrow> tensor_type list \<Rightarrow> tensor_type \<Rightarrow> lowered" where
  "lowerOp TirEmpty tys ty = lowerEmpty ty"
| "lowerOp (TirNamedFull op s) tys ty = lowerNamedFull op s ty"
| "lowerOp TirToLayout tys ty = lowerToLayout ty"
| "lowerOp (TirElementwise op) tys ty = lowerElementwise op tys ty"
| "lowerOp (TirReduction op keepDim dimArg) tys ty = lowerReduction op keepDim dimArg ty"
| "lowerOp (TirProd keepDim dimArg) tys ty = lowerProd keepDim dimArg (tys ! 0) ty"
| "lowerOp (TirArgMax keepDim dimArg) tys ty = lowerArgMax keepDim dimArg ty"
| "lowerOp TirEmbedding tys ty = lowerEmbedding tys ty"
| "lowerOp TirEmbeddingBackward tys ty = lowerEmbeddingBackward tys ty"
| "lowerOp (TirCumSum dim) tys ty = lowerCumSum dim ty"
| "lowerOp (TirRepeatInterleave repeats dim) tys ty = lowerRepeatInterleave repeats dim ty"
| "lowerOp (TirSoftmax dim) tys ty = lowerSoftmax dim ty"
| "lowerOp (TirTranspose dim0 dim1) tys ty = lowerTranspose dim0 dim1 ty"
| "lowerOp (TirClampScalar mn mx) tys ty = lowerClampScalar mn mx ty"
| "lowerOp TirClampTensor tys ty = replaceWith NnClampTensor (allOperands tys) ty"
| "lowerOp (TirUpdateCache batchOffset users) tys ty = lowerCache (NnUpdateCache batchOffset) users tys"
| "lowerOp (TirFillCache batchOffset users) tys ty = lowerCache (NnFillCache batchOffset) users tys"
| "lowerOp (TirUnaryFloat op parameter) tys ty = lowerUnaryFloat op parameter ty"
| "lowerOp (TirConcat dim) tys ty = lowerConcat dim tys ty"
| "lowerOp (TirReshape shp) tys ty = lowerReshape shp ty"
| "lowerOp (TirSlice begins ends step) tys ty = lowerSlice begins ends step ty"
| "lowerOp (TirSqueeze dim) tys ty = lowerSqueeze dim (tys ! 0) ty"
| "lowerOp (TirBroadcast dims) tys ty = lowerBroadcast dims ty"
| "lowerOp (TirRepeat dims) tys ty = lowerRepeat dims ty"
| "lowerOp (TirPad padding v) tys ty = lowerPad padding v ty"
| "lowerOp (TirUnsqueeze dim) tys ty = lowerUnsqueeze dim (tys ! 0) ty"
| "lowerOp (TirConstant v splat) tys ty = lowerConstant v splat ty"
| "lowerOp (TirLinear transposeA transposeB) tys ty = lowerLinear transposeA transposeB tys ty"
| "lowerOp (TirMatmul transposeA transposeB) tys ty = lowerMatmul transposeA transposeB tys ty"
| "lowerOp (TirConv2d a) tys ty = lowerConv2d a tys ty"
| "lowerOp (TirConvTranspose2d a) tys ty = lowerConvTranspose2d a tys ty"
| "lowerOp (TirPool2d op a) tys ty = lowerPool2d op a tys ty"
| "lowerOp TirTypecast tys ty = lowerTypecast ty"
| "lowerOp TirSubtract tys ty = lowerSubtract tys ty"
| "lowerOp (TirAllReduce reduceType clusterAxis) tys ty = lowerAllReduce reduceType clusterAxis ty"
| "lowerOp (TirReduceScatter reduceType scatterDim clusterAxis) tys ty = lowerReduceScatter reduceType scatterDim clusterAxis ty"
| "lowerOp (TirMeshShard direction shardType shardShape shardDims) tys ty = lowerMeshShard direction shardType shardShape shardDims ty"
| "lowerOp (TirAllGather gatherDim clusterAxis) tys ty = lowerAllGather gatherDim clusterAxis ty"
| "lowerOp (TirCollectivePermute pairsShape pairs) tys ty = lowerCollectivePermute pairsShape pairs ty"
| "lowerOp (TirArange start end' step arangeDimension) tys ty = lowerArange start end' step arangeDimension ty"
| "lowerOp (TirScatter updateWindowDims insertedWindowDims) tys ty = lowerScatter updateWindowDims insertedWindowDims tys ty"
| "lowerOp (TirPermute permutation) tys ty = lowerPermute permutation ty"
| "lowerOp (TirUpsample scaleFactor mode) tys ty = lowerUpsample scaleFactor mode ty"
| "lowerOp (TirQuantize q) tys ty = lowerQuantization NnQuantize q ty"
| "lowerOp (TirDequantize q) tys ty = lowerQuantization NnDequantize q ty"
| "lowerOp (TirRequantize qi qo) tys ty = lowerRequantize qi qo ty"

end
