(* ===== verification/LoweringVerify.thy ===== *)
theory LoweringVerify
  imports TTIRToTTNN
begin

text \<open>
  What it means for a TTIR op, and for the TTNN ops its pattern creates, to be verified: the verifier of the op is run on
  the types of its operands and its result, after the check of their number that MLIR generates. An op without a verifier
  of its own passes.
\<close>

section \<open>Operands\<close>

definition noOperand :: "(fault + verdict) \<Rightarrow> 'a list \<Rightarrow> fault + verdict" where
  "noOperand v tys = (case tys of [] \<Rightarrow> v | _ \<Rightarrow> Inr (Inl ''number of operands''))"

definition oneOperand :: "('a \<Rightarrow> fault + verdict) \<Rightarrow> 'a list \<Rightarrow> fault + verdict" where
  "oneOperand f tys = (case tys of [x] \<Rightarrow> f x | _ \<Rightarrow> Inr (Inl ''number of operands''))"

definition twoOperands :: "('a \<Rightarrow> 'a \<Rightarrow> fault + verdict) \<Rightarrow> 'a list \<Rightarrow> fault + verdict" where
  "twoOperands f tys = (case tys of [x, y] \<Rightarrow> f x y | _ \<Rightarrow> Inr (Inl ''number of operands''))"

definition threeOperands :: "('a \<Rightarrow> 'a \<Rightarrow> 'a \<Rightarrow> fault + verdict) \<Rightarrow> 'a list \<Rightarrow> fault + verdict" where
  "threeOperands f tys = (case tys of [x, y, z] \<Rightarrow> f x y z | _ \<Rightarrow> Inr (Inl ''number of operands''))"

text \<open>Two operands and an optional third.\<close>

definition biasedOperands :: "('a option \<Rightarrow> 'a \<Rightarrow> 'a \<Rightarrow> fault + verdict) \<Rightarrow> 'a list \<Rightarrow> fault + verdict" where
  "biasedOperands f tys = (case tys of [x, y] \<Rightarrow> f None x y | [x, y, b] \<Rightarrow> f (Some b) x y | _ \<Rightarrow> Inr (Inl ''number of operands''))"

named_theorems operand_simps

lemma noOperand_pass [operand_simps]: "noOperand v tys = Inr (Inr ()) \<longleftrightarrow> tys = [] \<and> v = Inr (Inr ())"
  by (simp add: noOperand_def split: list.splits)

lemma oneOperand_pass [operand_simps]: "oneOperand f tys = Inr (Inr ()) \<longleftrightarrow> (\<exists>x. tys = [x] \<and> f x = Inr (Inr ()))"
  by (simp add: oneOperand_def split: list.splits)

lemma twoOperands_pass [operand_simps]: "twoOperands f tys = Inr (Inr ()) \<longleftrightarrow> (\<exists>x y. tys = [x, y] \<and> f x y = Inr (Inr ()))"
  by (simp add: twoOperands_def split: list.splits)

lemma threeOperands_pass [operand_simps]:
  "threeOperands f tys = Inr (Inr ()) \<longleftrightarrow> (\<exists>x y z. tys = [x, y, z] \<and> f x y z = Inr (Inr ()))"
  by (simp add: threeOperands_def split: list.splits)

lemma biasedOperands_pass [operand_simps]:
  "biasedOperands f tys = Inr (Inr ()) \<longleftrightarrow>
     (\<exists>x y. tys = [x, y] \<and> f None x y = Inr (Inr ())) \<or> (\<exists>x y b. tys = [x, y, b] \<and> f (Some b) x y = Inr (Inr ()))"
  by (auto simp: biasedOperands_def split: list.splits)

abbreviation passes :: "fault + verdict" where
  "passes \<equiv> Inr (Inr ())"

section \<open>TTIR ops\<close>

fun tirVerify :: "broadcaster \<Rightarrow> ttir_kind \<Rightarrow> ttir_type list \<Rightarrow> ttir_type \<Rightarrow> fault + verdict" where
  "tirVerify bc TirEmpty tys ty = noOperand passes tys"
| "tirVerify bc (TirNamedFull op s) tys ty = noOperand passes tys"
| "tirVerify bc TirToLayout tys ty = oneOperand (\<lambda>x. passes) tys"
| "tirVerify bc (TirElementwise op) tys ty = passes"
| "tirVerify bc (TirReduction op keepDim dimArg) tys ty = oneOperand (\<lambda>x. Inr (verifyReduceOp x dimArg keepDim (tyShape ty))) tys"
| "tirVerify bc (TirProd keepDim dimArg) tys ty = oneOperand (\<lambda>x. Inr (verifyReduceOp x dimArg keepDim (tyShape ty))) tys"
| "tirVerify bc (TirArgMax keepDim dimArg) tys ty = oneOperand (\<lambda>x. Inr (argMaxVerify x dimArg keepDim (tyShape ty))) tys"
| "tirVerify bc TirEmbedding tys ty = twoOperands (\<lambda>x w. Inr (embeddingVerify x w ty)) tys"
| "tirVerify bc TirEmbeddingBackward tys ty = threeOperands (\<lambda>x w g. Inr (embeddingBackwardVerify w g ty)) tys"
| "tirVerify bc (TirCumSum dim) tys ty = oneOperand (\<lambda>x. Inr (cumSumVerify dim x)) tys"
| "tirVerify bc (TirRepeatInterleave repeats dim) tys ty = oneOperand (\<lambda>x. Inr (repeatInterleaveVerify repeats dim x ty)) tys"
| "tirVerify bc (TirSoftmax dim) tys ty = oneOperand (\<lambda>x. Inr (softmaxVerify dim x ty)) tys"
| "tirVerify bc (TirTranspose dim0 dim1) tys ty = oneOperand (\<lambda>x. Inr (transposeVerify dim0 dim1 x ty)) tys"
| "tirVerify bc (TirClampScalar mn mx) tys ty = oneOperand (\<lambda>x. Inr (clampScalarVerify x ty)) tys"
| "tirVerify bc TirClampTensor tys ty = threeOperands (\<lambda>x mn mx. Inr (clampTensorVerify bc mn mx ty)) tys"
| "tirVerify bc (TirUpdateCache batchOffset users) tys ty = threeOperands (\<lambda>cache x i. updateCacheVerify batchOffset cache x) tys"
| "tirVerify bc (TirFillCache batchOffset users) tys ty = twoOperands (\<lambda>cache x. fillCacheVerify batchOffset cache x) tys"
| "tirVerify bc (TirUnaryFloat op p) tys ty = oneOperand (\<lambda>x. passes) tys"
| "tirVerify bc (TirConcat dim) tys ty = (if tys = [] then Inl OutOfBounds else Inr (concatVerify dim tys))"
| "tirVerify bc (TirReshape shp) tys ty = oneOperand (\<lambda>x. Inr (reshapeVerify shp x ty)) tys"
| "tirVerify bc (TirSlice begins ends step) tys ty = oneOperand (\<lambda>x. Inr (sliceVerify begins ends step x ty)) tys"
| "tirVerify bc (TirSqueeze dim) tys ty = oneOperand (\<lambda>x. Inr (squeezeVerify dim x ty)) tys"
| "tirVerify bc (TirBroadcast dims) tys ty = oneOperand (\<lambda>x. Inr (broadcastVerify bc dims x ty)) tys"
| "tirVerify bc (TirRepeat dims) tys ty = oneOperand (\<lambda>x. Inr (repeatVerify dims x ty)) tys"
| "tirVerify bc (TirPad padding v) tys ty = oneOperand (\<lambda>x. Inr (padVerify padding x ty)) tys"
| "tirVerify bc (TirUnsqueeze dim) tys ty = oneOperand (\<lambda>x. Inr (unsqueezeVerify dim x ty)) tys"
| "tirVerify bc (TirConstant v splat) tys ty = noOperand (Inr (constantVerify v)) tys"
| "tirVerify bc (TirLinear transposeA transposeB) tys ty = biasedOperands (\<lambda>b x y. Inr (linearVerify bc transposeA transposeB x y b ty)) tys"
| "tirVerify bc (TirMatmul transposeA transposeB) tys ty = twoOperands (\<lambda>x y. Inr (matmulVerify bc transposeA transposeB x y ty)) tys"
| "tirVerify bc (TirConv2d a) tys ty = biasedOperands (\<lambda>b x w. conv2dVerify a b x w ty) tys"
| "tirVerify bc (TirConvTranspose2d a) tys ty = biasedOperands (\<lambda>b x w. convTranspose2dVerify a b x w ty) tys"
| "tirVerify bc (TirPool2d op a) tys ty = oneOperand (\<lambda>x. Inr (verifyPoolingOp (poFlat a) (poKernelHeight a) (poKernelWidth a) x ty)) tys"
| "tirVerify bc TirTypecast tys ty = oneOperand (\<lambda>x. passes) tys"
| "tirVerify bc TirSubtract tys ty = twoOperands (\<lambda>x y. passes) tys"
| "tirVerify bc (TirAllReduce reduceType clusterAxis) tys ty = oneOperand (\<lambda>x. Inr (allReduceVerify reduceType)) tys"
| "tirVerify bc (TirReduceScatter reduceType scatterDim clusterAxis) tys ty = oneOperand (\<lambda>x. Inr (reduceScatterVerify reduceType scatterDim x)) tys"
| "tirVerify bc (TirMeshShard direction shardType shardShape shardDims) tys ty = oneOperand (\<lambda>x. Inr (meshShardVerify shardType)) tys"
| "tirVerify bc (TirAllGather gatherDim clusterAxis) tys ty = oneOperand (\<lambda>x. Inr (allGatherVerify gatherDim x)) tys"
| "tirVerify bc (TirCollectivePermute pairsShape pairs) tys ty = oneOperand (\<lambda>x. Inr (collectivePermuteVerify pairsShape pairs)) tys"
| "tirVerify bc (TirArange start end' step arangeDimension) tys ty = noOperand (arangeVerify start end' step arangeDimension ty) tys"
| "tirVerify bc (TirScatter updateWindowDims insertedWindowDims) tys ty =
     (case tys of [x, i, u, out] \<Rightarrow> scatterVerify updateWindowDims insertedWindowDims (tyShape x) | _ \<Rightarrow> Inr (Inl ''number of operands''))"
| "tirVerify bc (TirPermute permutation) tys ty = oneOperand (\<lambda>x. permuteVerify permutation x ty) tys"
| "tirVerify bc (TirUpsample scaleFactor mode) tys ty = oneOperand (\<lambda>x. Inr (upsample2dVerify scaleFactor mode x ty)) tys"
| "tirVerify bc (TirQuantize q) tys ty = oneOperand (\<lambda>x. Inr (quantizeVerify x ty)) tys"
| "tirVerify bc (TirDequantize q) tys ty = oneOperand (\<lambda>x. Inr (dequantizeVerify x ty)) tys"
| "tirVerify bc (TirRequantize qi qo) tys ty = oneOperand (\<lambda>x. Inr (requantizeVerify x ty)) tys"

section \<open>TTNN ops\<close>

fun nnVerify :: "broadcaster \<Rightarrow> nn_kind \<Rightarrow> tensor_type list \<Rightarrow> tensor_type \<Rightarrow> fault + verdict" where
  "nnVerify bc (NnEmpty s dtype lay mc) tys ty = noOperand (nnEmptyVerify s dtype lay mc ty) tys"
| "nnVerify bc (NnNamedFull op s dtype lay device mc) tys ty = noOperand (namedOpVerify (Some dtype) s (ttirType ty)) tys"
| "nnVerify bc (NnToLayout lay dtype mc device) tys ty = oneOperand (\<lambda>x. passes) tys"
| "nnVerify bc (NnElementwise op) tys ty = passes"
| "nnVerify bc (NnReduction op keepDim dimArg) tys ty = oneOperand (\<lambda>x. nnVerifyReduceOp (ttirType x) dimArg keepDim (ttShape ty)) tys"
| "nnVerify bc (NnProd allDimensions keepDim dim) tys ty = oneOperand (\<lambda>x. Inr (verifyReduceProdOp (ttirType x) allDimensions)) tys"
| "nnVerify bc (NnArgMax dim keepDim) tys ty = oneOperand (\<lambda>x. passes) tys"
| "nnVerify bc NnEmbedding tys ty = twoOperands (\<lambda>x w. Inr (nnEmbeddingVerify (ttirType x) (ttirType w) (ttirType ty))) tys"
| "nnVerify bc (NnEmbeddingBackward dtype mc) tys ty =
     threeOperands (\<lambda>x w g. nnEmbeddingBackwardVerify (ttirType x) (ttirType w) (ttirType g) (ttirType ty)) tys"
| "nnVerify bc (NnMorehCumSum dim) tys ty = oneOperand (\<lambda>x. passes) tys"
| "nnVerify bc (NnRepeatInterleave repeats dim) tys ty = oneOperand (\<lambda>x. Inr (nnRepeatInterleaveVerify repeats dim (ttirType x) (ttirType ty))) tys"
| "nnVerify bc (NnSoftmax dim) tys ty = oneOperand (\<lambda>x. Inr (nnSoftmaxVerify dim (ttirType x) (ttirType ty))) tys"
| "nnVerify bc (NnTranspose dim0 dim1) tys ty = oneOperand (\<lambda>x. Inr (nnTransposeVerify dim0 dim1 (ttirType x) (ttirType ty))) tys"
| "nnVerify bc (NnClampScalar mn mx) tys ty = oneOperand (\<lambda>x. Inr (nnClampScalarVerify (ttirType x) (ttirType ty))) tys"
| "nnVerify bc NnClampTensor tys ty = threeOperands (\<lambda>x mn mx. passes) tys"
| "nnVerify bc (NnUpdateCache batchOffset) tys ty = threeOperands (\<lambda>cache x i. nnUpdateCacheVerify batchOffset (ttirType cache) (ttirType x)) tys"
| "nnVerify bc (NnFillCache batchOffset) tys ty = twoOperands (\<lambda>cache x. nnFillCacheVerify batchOffset (ttirType cache) (ttirType x)) tys"
| "nnVerify bc (NnUnaryFloat op p) tys ty = oneOperand (\<lambda>x. passes) tys"
| "nnVerify bc (NnConcat dim) tys ty = (if tys = [] then Inl OutOfBounds else Inr (nnConcatVerify dim (map ttirType tys)))"
| "nnVerify bc (NnReshape shp) tys ty = oneOperand (\<lambda>x. Inr (nnReshapeVerify shp (ttirType x) (ttirType ty))) tys"
| "nnVerify bc (NnSlice begins ends step) tys ty = oneOperand (\<lambda>x. Inr (nnSliceVerify begins ends step (ttirType x) (ttirType ty))) tys"
| "nnVerify bc (NnRepeat dims) tys ty = oneOperand (\<lambda>x. Inr (nnRepeatVerify dims (ttirType x) (ttirType ty))) tys"
| "nnVerify bc (NnPad padding v mc) tys ty = oneOperand (\<lambda>x. Inr (nnPadVerify padding (ttirType x) (ttirType ty))) tys"
| "nnVerify bc (NnFull v) tys ty = noOperand passes tys"
| "nnVerify bc (NnConstant v) tys ty = noOperand (Inr (nnConstantVerify v)) tys"
| "nnVerify bc (NnLinear transposeA transposeB) tys ty =
     biasedOperands (\<lambda>b x y. Inr (nnLinearVerify bc transposeA transposeB (ttirType x) (ttirType y) (map_option ttirType b) (ttirType ty))) tys"
| "nnVerify bc (NnMatmul transposeA transposeB) tys ty =
     twoOperands (\<lambda>x y. Inr (nnMatmulVerify bc transposeA transposeB (ttirType x) (ttirType y) (ttirType ty))) tys"
| "nnVerify bc (NnConv2d c) tys ty =
     biasedOperands (\<lambda>b x w. nnConv2dVerify c (map_option ttirType b) (ttirType x) (ttirType w) (ttirType ty)) tys"
| "nnVerify bc (NnConvTranspose2d c) tys ty =
     biasedOperands (\<lambda>b x w. nnConvTranspose2dVerify c (map_option ttirType b) (ttirType x) (ttirType w) (ttirType ty)) tys"
| "nnVerify bc (NnPool2d op batchSize inputHeight inputWidth channels kernelSize stride padding dilation ceilMode) tys ty =
     oneOperand (\<lambda>x. nnVerifyPoolingOp kernelSize inputHeight inputWidth batchSize channels (ttirType x)) tys"
| "nnVerify bc (NnTypecast dtype) tys ty = oneOperand (\<lambda>x. nnTypecastVerify dtype ty) tys"
| "nnVerify bc (NnAllReduce reduceType clusterAxis) tys ty = oneOperand (\<lambda>x. Inr (nnAllReduceVerify reduceType)) tys"
| "nnVerify bc (NnReduceScatter reduceType scatterDim clusterAxis) tys ty = oneOperand (\<lambda>x. Inr (nnReduceScatterVerify reduceType scatterDim (ttirType x))) tys"
| "nnVerify bc (NnMeshShard direction shardType shardShape shardDims) tys ty = oneOperand (\<lambda>x. Inr (nnMeshShardVerify shardType shardShape (ttirType x))) tys"
| "nnVerify bc (NnAllGather gatherDim clusterAxis) tys ty = oneOperand (\<lambda>x. Inr (nnAllGatherVerify gatherDim (ttirType x))) tys"
| "nnVerify bc (NnCollectivePermute pairsShape pairs) tys ty = oneOperand (\<lambda>x. Inr (nnCollectivePermuteVerify pairsShape pairs)) tys"
| "nnVerify bc (NnArange start end' step dtype mc) tys ty = noOperand (nnArangeVerify start end' step (ttirType ty)) tys"
| "nnVerify bc NnScatter tys ty = twoOperands (\<lambda>u x. passes) tys"
| "nnVerify bc (NnPermute permutation) tys ty = oneOperand (\<lambda>x. nnPermuteVerify permutation (ttirType x) (ttirType ty)) tys"
| "nnVerify bc (NnUpsample scaleFactor mode) tys ty = oneOperand (\<lambda>x. Inr (nnUpsampleVerify scaleFactor mode (ttirType x) (ttirType ty))) tys"
| "nnVerify bc (NnQuantize scale zeroPoint axis dtype) tys ty = oneOperand (\<lambda>x. Inr (nnQuantizeVerify axis (ttirType x) (ttirType ty))) tys"
| "nnVerify bc (NnDequantize scale zeroPoint axis dtype) tys ty = oneOperand (\<lambda>x. Inr (nnDequantizeVerify axis (ttirType x) (ttirType ty))) tys"
| "nnVerify bc (NnRequantize inScale inZero outScale outZero axis dtype) tys ty = oneOperand (\<lambda>x. Inr (nnRequantizeVerify axis (ttirType x) (ttirType ty))) tys"

section \<open>The created ops\<close>

text \<open>The type of a value: an operand of the converted op, or the result of a created op. An op without a result
  has none; the first operand stands for the type its verifier is given.\<close>

fun valueType :: "tensor_type list \<Rightarrow> nn_op list \<Rightarrow> nn_value \<Rightarrow> tensor_type" where
  "valueType tys ops (Operand i) = tys ! i"
| "valueType tys ops (Created i) = (case noResult (ops ! i) of Some ty \<Rightarrow> ty | None \<Rightarrow> hd tys)"

definition resultOrFirst :: "tensor_type list \<Rightarrow> nn_op \<Rightarrow> tensor_type" where
  "resultOrFirst tys op = (case noResult op of Some ty \<Rightarrow> ty | None \<Rightarrow> hd tys)"

definition createdVerify :: "broadcaster \<Rightarrow> tensor_type list \<Rightarrow> nn_op list \<Rightarrow> bool" where
  "createdVerify bc tys ops \<longleftrightarrow>
     list_all (\<lambda>op. nnVerify bc (noKind op) (map (valueType tys ops) (noOperands op)) (resultOrFirst tys op) = passes) ops"

text \<open>A value is available to the \<open>n\<close>-th created op if it is an operand or the result of an earlier one.\<close>

fun available :: "tensor_type list \<Rightarrow> nn_op list \<Rightarrow> nat \<Rightarrow> nn_value \<Rightarrow> bool" where
  "available tys ops n (Operand i) = (i < length tys)"
| "available tys ops n (Created i) = (i < n \<and> i < length ops \<and> noResult (ops ! i) \<noteq> None)"

definition dominates :: "tensor_type list \<Rightarrow> nn_op list \<Rightarrow> nn_value \<Rightarrow> bool" where
  "dominates tys ops v \<longleftrightarrow>
     list_all (\<lambda>n. list_all (available tys ops n) (noOperands (ops ! n))) [0..<length ops] \<and> available tys ops (length ops) v"

end
