(* ===== verification/LoweringFacts.thy ===== *)
theory LoweringFacts
  imports LoweringVerify TTIRWindowFacts
begin

text \<open>
  The conversion of TTIR to TTNN creates verified ops: for a verified TTIR op with sizes below \<open>2 ^ 31\<close>, within what
  TTNN expresses, every op its pattern creates passes its verifier.
\<close>

section \<open>Conversions of integers\<close>

lemma i32_cong: "a mod 2 ^ 32 = b mod 2 ^ 32 \<Longrightarrow> i32 a = i32 b"
  by (metis i32_def mod_add_left_eq)

lemma i32_mod: "i32 a mod 2 ^ 32 = a mod 2 ^ 32"
proof -
  have "((a + 2 ^ 31) mod 2 ^ 32 - 2 ^ 31) mod 2 ^ 32 = (a + 2 ^ 31 - 2 ^ 31) mod 2 ^ 32" by (rule mod_diff_left_eq)
  then show ?thesis by (simp only: i32_def add_diff_cancel_right')
qed

lemma u32_i32 [simp]: "u32 (i32 a) = u32 a"
  unfolding u32_def by (rule i32_mod)

lemma i32_u32 [simp]: "i32 (u32 a) = i32 a"
  by (rule i32_cong) (simp add: u32_def)

lemma u32_add_i32: "u32 (a + i32 b) = u32 (a + b)"
  unfolding u32_def by (metis i32_mod mod_add_right_eq)

lemma u32_mult_i32: "u32 (i32 a * b) = u32 (a * b)" "u32 (b * i32 a) = u32 (b * a)"
  unfolding u32_def by (metis i32_mod mod_mult_left_eq, metis i32_mod mod_mult_right_eq)

lemma u32_mult_u32: "u32 (u32 a * b) = u32 (a * b)"
  by (simp add: u32_def mod_mult_left_eq)

lemma u32_range: "0 \<le> u32 a" "u32 a < 2 ^ 32"
  by (simp_all add: u32_def)

definition dims31 :: "tensor_type \<Rightarrow> bool" where
  "dims31 t \<longleftrightarrow> (\<forall>x \<in> set (ttShape t). 1 \<le> x \<and> x < 2 ^ 31)"

lemma dims31_nth: "dims31 t \<Longrightarrow> i < length (ttShape t) \<Longrightarrow> 1 \<le> ttShape t ! i \<and> ttShape t ! i < 2 ^ 31"
  by (simp add: dims31_def)

lemma dims31_map [simp]: "dims31 t \<Longrightarrow> map i32 (ttShape t) = ttShape t"
  by (rule i32_small) (force simp: dims31_def)

section \<open>Convolutions\<close>

text \<open>Where the window fits, the unsigned computation of TTNN gives the size TTIR computes.\<close>

lemma calculatedOut_agrees:
  assumes "windowFits inputSize (padding + padding) kernelSize dilation"
    and "1 \<le> kernelSize" "1 \<le> dilation" "1 \<le> stride" and "small kernelSize" "small dilation"
    and "0 \<le> inputSize" "0 \<le> padding" "inputSize + 2 * padding < 2 ^ 31" "stride < 2 ^ 31"
  shows "nnWindowFits inputSize padding kernelSize dilation = Inr True"
    and "nnCalculatedOut inputSize padding kernelSize dilation stride = Inr (calculatedOut inputSize (padding + padding) kernelSize dilation stride)"
    and "0 \<le> calculatedOut inputSize (padding + padding) kernelSize dilation stride"
proof -
  note w = small_window[OF assms(5,6,2,3)]
  have g: "0 \<le> (kernelSize - 1) * (dilation - 1)" "(kernelSize - 1) * (dilation - 1) < 2 ^ 30"
    using small_product[of "kernelSize - 1" "dilation - 1"] assms(2,3,5,6) by (simp_all add: small_def)
  have pad: "u32 (inputSize + (padding + padding)) = inputSize + 2 * padding"
    using assms(7-9) by simp
  have effective: "u32 (kernelSize + (kernelSize - 1) * (dilation - 1)) = dilation * (kernelSize - 1) + 1"
    unfolding w(3) using w(1,2) by simp
  have doubled: "int32 (2 * padding) = Inr (padding + padding)" using assms(7-9) by simp
  have gaps: "int32 (kernelSize - 1) = Inr (kernelSize - 1)" "int32 (dilation - 1) = Inr (dilation - 1)"
    using assms(2,3,5,6) by (simp_all add: small_def)
  have products: "int32 ((kernelSize - 1) * (dilation - 1)) = Inr ((kernelSize - 1) * (dilation - 1))"
    "int32 (dilation * (kernelSize - 1)) = Inr (dilation * (kernelSize - 1))"
    using g w(1,2) by (simp_all add: int32_def)
  have sum: "int32 (kernelSize + (kernelSize - 1) * (dilation - 1)) = Inr (kernelSize + (kernelSize - 1) * (dilation - 1))"
    unfolding w(3) using w(1,2) by (simp add: int32_def)
  show "nnWindowFits inputSize padding kernelSize dilation = Inr True"
    using assms(1) unfolding nnWindowFits_def doubled gaps products rbind_simps sum by (simp add: windowFits_def)
  define last where "last = inputSize + 2 * padding - dilation * (kernelSize - 1) - 1"
  from assms(1) pad effective have last: "0 \<le> last" by (simp add: windowFits_def last_def)
  have "last < 2 ^ 31 - 1" using w(1) assms(9) by (simp add: last_def)
  moreover have "last div stride \<le> last" using zdiv_mono2[of last 1 stride] last assms(4) by simp
  ultimately have d: "0 \<le> last div stride" "last div stride < 2 ^ 31 - 1" "last < 2 ^ 32"
    using last assms(4) by (simp_all add: pos_imp_zdiv_nonneg_iff)
  have st: "u32 stride = stride" using assms(4,10) by simp
  have l: "inputSize + (padding + padding) - dilation * (kernelSize - 1) - 1 = last" by (simp add: last_def)
  have "u32 last = last" using last d by simp
  then have nn: "nnCalculatedOut inputSize padding kernelSize dilation stride = Inr (last div stride + 1)"
    using d assms(4) unfolding nnCalculatedOut_def doubled gaps products rbind_simps Let_def st l by simp
  have "last sdiv stride = last div stride" using last assms(4) by (simp add: signed_divide_int_def sgn_if)
  then have c: "calculatedOut inputSize (padding + padding) kernelSize dilation stride = last div stride + 1"
    using d unfolding calculatedOut_def pad by (simp add: last_def[symmetric])
  show "nnCalculatedOut inputSize padding kernelSize dilation stride = Inr (calculatedOut inputSize (padding + padding) kernelSize dilation stride)"
    and "0 \<le> calculatedOut inputSize (padding + padding) kernelSize dilation stride"
    using d unfolding nn c by simp_all
qed

text \<open>The sizes up to which the 32-bit computation of TTNN does not overflow: kernels, dilations and paddings below
  \<open>2 ^ 15\<close>, strides below \<open>2 ^ 31\<close>, and an image of fewer than \<open>2 ^ 30\<close> rows and columns.\<close>

definition convSizes :: "conv_attrs \<Rightarrow> ttir_type \<Rightarrow> bool" where
  "convSizes a weight \<longleftrightarrow> small (tyShape weight ! 2) \<and> small (tyShape weight ! 3)
     \<and> (case (getPairOfInteger (caDilation a), getQuadrupleOfInteger (caPadding a)) of
          (Inr (dH, dW), Inr (pT, pL, pB, pR)) \<Rightarrow> small dH \<and> small dW \<and> small pT \<and> small pL | _ \<Rightarrow> True)
     \<and> (case getPairOfInteger (caStride a) of Inr (sH, sW) \<Rightarrow> sH < 2 ^ 31 \<and> sW < 2 ^ 31 | _ \<Rightarrow> True)
     \<and> (case caFlat a of None \<Rightarrow> True | Some info \<Rightarrow>
          0 \<le> fiInputHeight info \<and> fiInputHeight info < 2 ^ 30 \<and> 0 \<le> fiInputWidth info \<and> fiInputWidth info < 2 ^ 30)"

lemma conv2dAttrChecks_Inr:
  "conv2dAttrChecks a = Inr (Inr r) \<longleftrightarrow> (\<exists>sH sW pT pL pB pR dH dW.
     getPairOfInteger (caStride a) = Inr (sH, sW) \<and> getQuadrupleOfInteger (caPadding a) = Inr (pT, pL, pB, pR)
     \<and> getPairOfInteger (caDilation a) = Inr (dH, dW)
     \<and> 1 \<le> sH \<and> 1 \<le> sW \<and> 0 \<le> pT \<and> 0 \<le> pL \<and> 0 \<le> pB \<and> 0 \<le> pR \<and> 1 \<le> dH \<and> 1 \<le> dW
     \<and> pT + pB < 2 ^ 31 \<and> pL + pR < 2 ^ 31 \<and> r = ((sH, sW), (pT + pB, pL + pR), (dH, dW)))"
  by (auto simp: conv2dAttrChecks_def onPass_pass rbind_Inr_iff int32_Inr)

lemma conv2d_lowered_verified:
  assumes "caFlat a = Some info" and "conv2dVerify a bias input weight output = passes"
    and "getPairOfInteger (caStride a) = Inr (sH, sW)" and "getQuadrupleOfInteger (caPadding a) = Inr (pT, pL, pT, pL)"
    and "getPairOfInteger (caDilation a) = Inr (dH, dW)" and "convSizes a weight"
    and "\<forall>x \<in> set (tyShape input) \<union> set (tyShape weight) \<union> set (tyShape output). 1 \<le> x \<and> x < 2 ^ 31"
    and "c = \<lparr>ncInChannels = i32 (tyShape input ! 3), ncOutChannels = i32 (tyShape output ! 3), ncBatchSize = i32 (fiBatchSize info),
                ncInputHeight = i32 (fiInputHeight info), ncInputWidth = i32 (fiInputWidth info),
                ncKernelSize = [i32 (tyShape weight ! 2), i32 (tyShape weight ! 3)], ncStride = [sH, sW], ncPadding = [pT, pL],
                ncOutputPadding = [], ncDilation = [dH, dW], ncGroups = i32 (caGroups a)\<rparr>"
  shows "nnConv2dVerify c bias input weight output = passes"
proof -
  from assms(2) obtain r where shapes: "conv2dShapeChecks (Some info) bias input weight output = Inr ()" and r: "conv2dAttrChecks a = Inr (Inr r)"
    unfolding conv2dVerify_def onPass_pass onPassE_pass assms(1) by auto
  have attrs: "1 \<le> sH" "1 \<le> sW" "0 \<le> pT" "0 \<le> pL" "1 \<le> dH" "1 \<le> dW" and rr: "r = ((sH, sW), (pT + pT, pL + pL), (dH, dW))"
    using r by (auto simp: conv2dAttrChecks_Inr assms(3-5))
  from shapes have ranks: "length (tyShape input) = 4" "length (tyShape weight) = 4" "length (tyShape output) = 4"
    by (auto simp: conv2dShapeChecks_def windowInput_def Let_def)
  obtain i0 i1 i2 C where i: "tyShape input = [i0, i1, i2, C]" using ranks(1) by (auto simp: length_4E)
  obtain OC wc KH KW where w: "tyShape weight = [OC, wc, KH, KW]" using ranks(2) by (auto simp: length_4E)
  obtain o0 o1 o2 o3 where out: "tyShape output = [o0, o1, o2, o3]" using ranks(3) by (auto simp: length_4E)
  define H W where "H = fiInputHeight info" and "W = fiInputWidth info"
  have sizes: "small KH" "small KW" "small dH" "small dW" "small pT" "small pL" "0 \<le> H" "H < 2 ^ 30" "0 \<le> W" "W < 2 ^ 30"
    "sH < 2 ^ 31" "sW < 2 ^ 31"
    using assms(6) by (simp_all add: convSizes_def assms(1,3,4,5) w H_def W_def)
  have dims: "1 \<le> C" "C < 2 ^ 31" "1 \<le> KH" "1 \<le> KW" "KH < 2 ^ 31" "KW < 2 ^ 31" "1 \<le> o3" "o3 < 2 ^ 31"
    using assms(7) by (simp_all add: i w out)
  have u: "u32 C = C" "u32 o3 = o3" "u32 H = H" "u32 W = W" using dims sizes by simp_all
  have win: "windowInput (Some info) input = (u32 (fiBatchSize info), H, W)" using u by (simp add: windowInput_def H_def W_def)
  define hOut wOut where o: "hOut = calculatedOut H (pT + pT) KH dH sH" "wOut = calculatedOut W (pL + pL) KW dW sW"
  have v: "windowFits H (pT + pT) KH dH" "windowFits W (pL + pL) KW dW" "u32 (caGroups a) \<noteq> 0"
    "C mod u32 (caGroups a) = 0" "o3 mod u32 (caGroups a) = 0" "o3 = OC" "u32 (hOut * wOut * u32 (fiBatchSize info)) = o2"
    using assms(2) unfolding conv2dVerify_def assms(1) shapes r rr win
    by (auto simp: Let_def i w out u o onPass_pass rbind_Inr_iff int32_Inr split: if_splits)
  have hb: "H + 2 * pT < 2 ^ 31" "W + 2 * pL < 2 ^ 31" using sizes by (simp_all add: small_def)
  note oh = calculatedOut_agrees[OF v(1) dims(3) attrs(5) attrs(1) sizes(1,3,7) attrs(3) hb(1) sizes(11), folded o]
  note ow = calculatedOut_agrees[OF v(2) dims(4) attrs(6) attrs(2) sizes(2,4,9) attrs(4) hb(2) sizes(12), folded o]
  have flat: "u32 (u32 (fiBatchSize info) * H * W) = i2"
    using shapes by (cases bias) (auto simp: conv2dShapeChecks_def win i)
  have bias: "\<forall>b. bias = Some b \<longrightarrow> length (tyShape b) = 4 \<and> tyShape b ! 0 = 1 \<and> tyShape b ! 1 = 1 \<and> tyShape b ! 2 = 1 \<and> tyShape b ! 3 = OC"
    using shapes by (cases bias) (auto simp: conv2dShapeChecks_def win isBiasCompatible_def w)
  have "u32 (u32 (fiBatchSize info) * hOut * wOut) = o2"
    using v(7) by (simp add: ac_simps)
  with oh ow v attrs bias flat dims sizes show ?thesis
    unfolding nnConv2dVerify_def onPass_pass assms(8)
    by (cases bias) (simp_all add: nnConv2dShapeChecks_def nnConv2dAttrChecks_def i w out u Let_def H_def[symmetric] W_def[symmetric] onPass_pass)
qed

section \<open>Transposed convolutions and pooling\<close>

lemma convTransposeAttrChecks_Inr:
  "convTransposeAttrChecks a = Inr (Inr r) \<longleftrightarrow> (\<exists>sH sW pT pL pB pR oH oW dH dW.
     getPairOfInteger (ctStride a) = Inr (sH, sW) \<and> getQuadrupleOfInteger (ctPadding a) = Inr (pT, pL, pB, pR)
     \<and> getPairOfInteger (ctOutputPadding a) = Inr (oH, oW) \<and> getPairOfInteger (ctDilation a) = Inr (dH, dW)
     \<and> 1 \<le> sH \<and> 1 \<le> sW \<and> 0 \<le> pT \<and> 0 \<le> pL \<and> 0 \<le> pB \<and> 0 \<le> pR \<and> 0 \<le> oH \<and> 0 \<le> oW \<and> 1 \<le> dH \<and> 1 \<le> dW
     \<and> int32 (pT + pB) = Inr (pT + pB) \<and> int32 (pL + pR) = Inr (pL + pR)
     \<and> r = ((sH, sW), (pT + pB, pL + pR), (oH, oW), (dH, dW)))"
  by (auto simp: convTransposeAttrChecks_def onPass_pass rbind_Inr_iff int32_Inr)

lemma conv_transpose_lowered_verified:
  assumes "convTranspose2dVerify a bias input weight output = passes"
    and "getPairOfInteger (ctStride a) = Inr (sH, sW)" and "getQuadrupleOfInteger (ctPadding a) = Inr (pT, pL, pT, pL)"
    and "getPairOfInteger (ctOutputPadding a) = Inr (oH, oW)" and "getPairOfInteger (ctDilation a) = Inr (dH, dW)"
    and "\<forall>x \<in> set (tyShape input) \<union> set (tyShape output). 1 \<le> x \<and> x < 2 ^ 31"
    and "c = \<lparr>ncInChannels = i32 (tyShape input ! 3), ncOutChannels = i32 (tyShape output ! 3), ncBatchSize = i32 (tyShape input ! 0),
                ncInputHeight = i32 (tyShape input ! 1), ncInputWidth = i32 (tyShape input ! 2),
                ncKernelSize = [i32 (tyShape weight ! 2), i32 (tyShape weight ! 3)], ncStride = [sH, sW], ncPadding = [pT, pL],
                ncOutputPadding = [oH, oW], ncDilation = [dH, dW], ncGroups = i32 (ctGroups a)\<rparr>"
    and "length (tyShape flattened) = 4" and "tyShape flattened ! 3 = tyShape output ! 3"
  shows "nnConvTranspose2dVerify c bias input weight flattened = passes"
proof -
  from assms(1) obtain r where shapes: "convTransposeShapeChecks bias input weight output = Inr ()" and r: "convTransposeAttrChecks a = Inr (Inr r)"
    unfolding convTranspose2dVerify_def onPass_pass onPassE_pass by auto
  have attrs: "1 \<le> sH" "1 \<le> sW" "0 \<le> pT" "0 \<le> pL" "0 \<le> oH" "0 \<le> oW" "1 \<le> dH" "1 \<le> dW"
    and rr: "r = ((sH, sW), (pT + pT, pL + pL), (oH, oW), (dH, dW))"
    and doubled: "int32 (2 * pT) = Inr (pT + pT)" "int32 (2 * pL) = Inr (pL + pL)"
    using r by (auto simp: convTransposeAttrChecks_Inr assms(2-5))
  from shapes have ranks: "length (tyShape input) = 4" "length (tyShape weight) = 4" "length (tyShape output) = 4"
    and bias: "\<forall>b. bias = Some b \<longrightarrow> length (tyShape b) = 4"
    by (cases bias; auto simp: convTransposeShapeChecks_def)+
  obtain N H W C where i: "tyShape input = [N, H, W, C]" using ranks(1) by (auto simp: length_4E)
  obtain w0 w1 KH KW where w: "tyShape weight = [w0, w1, KH, KW]" using ranks(2) by (auto simp: length_4E)
  obtain o0 o1 o2 OC where out: "tyShape output = [o0, o1, o2, OC]" using ranks(3) by (auto simp: length_4E)
  have dims: "1 \<le> N" "N < 2 ^ 31" "1 \<le> H" "H < 2 ^ 31" "1 \<le> W" "W < 2 ^ 31" "1 \<le> C" "C < 2 ^ 31" "1 \<le> OC" "OC < 2 ^ 31"
    using assms(6) by (simp_all add: i out)
  have u: "u32 N = N" "u32 H = H" "u32 W = W" "u32 C = C" "u32 OC = OC" "i32 C = C" "i32 OC = OC" "i32 H = H" "i32 W = W"
    using dims by simp_all
  obtain eH eW where e: "expectedOut H sH (pT + pT) dH (i32 KH) oH = Inr eH" "expectedOut W sW (pL + pL) dW (i32 KW) oW = Inr eW"
    "0 \<le> eH" "0 \<le> eW"
    using assms(1) unfolding convTranspose2dVerify_def shapes r rr
    by (auto simp: Let_def i w out u onPass_pass rbind_Inr_iff split: if_splits)
  have v: "u32 (ctGroups a) \<noteq> 0" "C mod u32 (ctGroups a) = 0" "OC mod u32 (ctGroups a) = 0" "w0 = C" "OC div u32 (ctGroups a) = w1"
    "\<forall>b. bias = Some b \<longrightarrow> tyShape b ! 3 = OC"
    using assms(1) unfolding convTranspose2dVerify_def shapes r rr
    by (cases bias; auto simp: Let_def i w out u onPass_pass split: if_splits)+
  have h: "nnExpectedOut c input weight 0 = Inr eH" "nnExpectedOut c input weight 1 = Inr eW"
    using e(1,2) by (simp_all add: nnExpectedOut_def assms(7) at_def i w u doubled)
  have c: "u32 (ncInChannels c) = C" "u32 (ncOutChannels c) = OC" "u32 (ncBatchSize c) = N" "u32 (ncInputHeight c) = H"
    "u32 (ncInputWidth c) = W" "ncStride c = [sH, sW]" "ncPadding c = [pT, pL]" "ncOutputPadding c = [oH, oW]" "ncDilation c = [dH, dW]"
    "u32 (ncGroups c) = u32 (ctGroups a)"
    by (simp_all add: assms(7) i out u)
  show ?thesis
    using v e attrs bias assms(8,9) unfolding nnConvTranspose2dVerify_def onPass_pass h c
    by (cases bias) (simp_all add: i w out u Let_def onPass_pass checkBiggerThan_def)
qed

lemma product_bound:
  assumes "1 \<le> a" "1 \<le> b" "a * b < (k :: int)"
  shows "a < k" "b < k"
proof -
  have "a * 1 \<le> a * b" using assms by (intro mult_left_mono) auto
  moreover have "1 * b \<le> a * b" using assms by (intro mult_right_mono) auto
  ultimately show "a < k" "b < k" using assms(3) by linarith+
qed

lemma pool_lowered_verified:
  assumes "verifyPoolingOp (Some info) kernelHeight kernelWidth input output = Inr ()"
    and "take 2 (tyShape input) = [1, 1]" and "\<forall>x \<in> set (tyShape input). 1 \<le> x \<and> x < 2 ^ 31"
    and "1 \<le> fiBatchSize info" "1 \<le> fiInputHeight info" "1 \<le> fiInputWidth info"
  shows "nnVerifyPoolingOp [kernelHeight, kernelWidth] (u32 (fiInputHeight info)) (u32 (fiInputWidth info)) (u32 (fiBatchSize info))
    (u32 (tyShape input ! 3)) input = passes"
proof -
  from assms(1) have "length (tyShape input) = 4" by (simp add: verifyPoolingOp_def Let_def)
  with assms(2) obtain n c where i: "tyShape input = [1, 1, n, c]" by (auto simp: length_4E)
  have v: "n = fiBatchSize info * fiInputHeight info * fiInputWidth info" "kernelHeight \<le> fiInputHeight info" "kernelWidth \<le> fiInputWidth info"
    using assms(1) by (simp_all add: verifyPoolingOp_def Let_def i)
  have n: "n < 2 ^ 31" "c < 2 ^ 31" "1 \<le> n" "1 \<le> c" using assms(3) by (simp_all add: i)
  have bh: "1 \<le> fiBatchSize info * fiInputHeight info" using mult_mono[of 1 "fiBatchSize info" 1 "fiInputHeight info"] assms(4,5) by simp
  have "fiBatchSize info * fiInputHeight info < 2 ^ 31" "fiInputWidth info < 2 ^ 31"
    using product_bound[OF bh assms(6)] n(1) by (simp_all add: v)
  moreover from this have "fiBatchSize info < 2 ^ 31" "fiInputHeight info < 2 ^ 31" using product_bound[OF assms(4,5)] by blast+
  moreover have "int32 (fiBatchSize info * fiInputHeight info) = Inr (fiBatchSize info * fiInputHeight info)"
    "int32 (fiBatchSize info * fiInputHeight info * fiInputWidth info) = Inr n"
    using bh n(1,3) calculation(1) by (simp_all add: int32_Inr v(1)[symmetric])
  ultimately show ?thesis
    using v n assms(4-6) by (simp add: nnVerifyPoolingOp_def at_def i checks.simps)
qed

section \<open>Reductions\<close>

lemma normalized_dim:
  assumes "- n \<le> d" "d < (n :: int)"
  shows "(d + n) mod n = (if d < 0 then d + n else d)"
  using assms mod_pos_pos_trivial[of "d + n" n] mod_pos_pos_trivial[of d n] by simp

lemma nnReduceDimsMask_fold:
  assumes "\<forall>d \<in> set dims. - int n \<le> d \<and> d < int n" and "length reduced = n"
  shows "foldE (\<lambda>d reduced.
          let d' = (if d < 0 then d + int n else d)
          in rbind (assertE SiteOther (0 \<le> d' \<and> d' < int n)) (\<lambda>_. Inr (reduced[nat d' := True]))) dims reduced
    = Inr (map (\<lambda>i. reduced ! i \<or> int i \<in> (\<lambda>d. (d + int n) mod int n) ` set dims) [0..<n])"
  using assms
proof (induction dims arbitrary: reduced)
  case Nil
  then show ?case by (auto intro: nth_equalityI)
next
  case (Cons d dims)
  define d' where "d' = (if d < 0 then d + int n else d)"
  have d: "0 \<le> d'" "d' < int n" "(d + int n) mod int n = d'" using Cons.prems normalized_dim[of "int n" d] by (auto simp: d'_def)
  have "map (\<lambda>i. reduced[nat d' := True] ! i \<or> int i \<in> (\<lambda>d. (d + int n) mod int n) ` set dims) [0..<n]
      = map (\<lambda>i. reduced ! i \<or> int i \<in> (\<lambda>d. (d + int n) mod int n) ` set (d # dims)) [0..<n]"
    using d Cons.prems(2) by (auto simp: nth_list_update)
  then show ?case using Cons.IH[of "reduced[nat d' := True]"] Cons.prems d by (simp add: d'_def[symmetric] Let_def)
qed

lemma reduce_lowered_verified:
  assumes "verifyReduceOp inputType dimArg keepDim outputShape = Inr ()"
  shows "nnVerifyReduceOp inputType dimArg keepDim outputShape = passes"
proof (cases dimArg)
  case None
  then show ?thesis using assms by (simp add: verifyReduceOp_def nnVerifyReduceOp_def nnReduceDimsMask_def reduceDimsMask_def)
next
  case (Some dims)
  let ?n = "length (tyShape inputType)"
  have "checks (map (\<lambda>d. (dimInBounds d inputType, ''Reduce dimension is out of range for input tensor'')) dims) = Inr ()"
    and v: "outputShape = expectedReduceShape (tyShape inputType) (reduceDimsMask ?n dimArg) keepDim"
    using assms by (auto simp: verifyReduceOp_def Some checks_append rbind_Inr_iff)
  then have "\<forall>d \<in> set dims. - int ?n \<le> d \<and> d < int ?n" by (auto simp: checks_Inr_iff dimInBounds_def)
  from nnReduceDimsMask_fold[OF this, of "replicate ?n False"]
  have "nnReduceDimsMask ?n dimArg = Inr (reduceDimsMask ?n dimArg)"
    by (simp add: nnReduceDimsMask_def Some reduceDimsMask_def cong: map_cong)
  with v show ?thesis by (simp add: nnVerifyReduceOp_def)
qed

section \<open>Reshapes\<close>

lemma reshape_attr_verified:
  assumes "\<forall>d \<in> set (tyShape ty). 1 \<le> d \<and> d < 2 ^ 31" and "tyShape ty \<noteq> []" and "prod_list (tyShape x) = prod_list (tyShape ty)"
  shows "reshapeVerify (map i32 (tyShape ty)) x ty = Inr ()"
proof -
  have "map i32 (tyShape ty) = tyShape ty" using assms(1) by (intro i32_small) force
  moreover have "reshapeDims (tyShape ty) (tyShape ty) False = Inr ()" using assms(1) by (intro reshapeDims_same) force
  ultimately show ?thesis using assms(2,3) by (simp add: reshapeVerify_def)
qed

lemma prod_withoutDim:
  fixes t :: "int list"
  assumes "0 \<le> d" "d < int (length t)"
  shows "prod_list t = t ! nat d * prod_list (withoutDim d t)"
proof -
  have "t = take (nat d) t @ t ! nat d # drop (Suc (nat d)) t" using assms by (intro id_take_nth_drop) simp
  then have "prod_list t = prod_list (take (nat d) t @ t ! nat d # drop (Suc (nat d)) t)" by simp
  then show ?thesis by (simp add: withoutDim_def ac_simps)
qed

lemma filter_withoutDim:
  assumes "0 \<le> d" "d < int (length s)"
  shows "map (\<lambda>i. f (s ! i)) (filter (\<lambda>i. int i \<noteq> d) [0..<length s]) = map f (withoutDim d s)"
proof -
  obtain k where d: "d = int k" "k < length s" using assms by (metis nonneg_int_cases of_nat_less_iff)
  have "[0..<length s] = [0..<k] @ k # [Suc k..<length s]"
    using d(2) upt_add_eq_append[of 0 k "length s - k"] by (simp add: upt_conv_Cons)
  then have "filter (\<lambda>i. int i \<noteq> d) [0..<length s] = [0..<k] @ [Suc k..<length s]"
    by (simp add: d(1) filter_id_conv)
  moreover have "map (\<lambda>i. f (s ! i)) [0..<k] = map f (take k s)" using d(2) by (intro nth_equalityI) simp_all
  moreover have "map (\<lambda>i. f (s ! i)) [Suc k..<length s] = map f (drop (Suc k) s)" by (intro nth_equalityI) simp_all
  ultimately show ?thesis by (simp add: withoutDim_def d(1))
qed

lemma squeeze_lowered_verified:
  assumes "squeezeVerify dim inputType ty = Inr ()" and "\<forall>d \<in> set (tyShape ty). 1 \<le> d \<and> d < 2 ^ 31"
  shows "reshapeVerify (map (\<lambda>i. i32 (tyShape inputType ! i))
      (filter (\<lambda>i. int i \<noteq> (if dim < 0 then i32 (dim + rank inputType) else dim)) [0..<length (tyShape inputType)])) inputType ty = Inr ()"
proof -
  define d where "d = (if dim < 0 then i32 (dim + rank inputType) else dim)"
  have v: "0 \<le> d" "d < rank inputType" "tyShape inputType ! nat d = 1" "tyShape ty \<noteq> []" "withoutDim d (tyShape inputType) = tyShape ty"
    using assms(1) by (auto simp: squeezeVerify_def d_def[symmetric] Let_def)
  show ?thesis
    unfolding d_def[symmetric] filter_withoutDim[OF v(1,2), of i32] v(5)
    using prod_withoutDim[OF v(1,2)] v assms(2) by (intro reshape_attr_verified) simp_all
qed

lemma insert_one:
  "concat (map (\<lambda>i. (if i = k then [1] else []) @ [f i]) [0..<n]) =
    (if k < n then map f [0..<k] @ 1 # map f [k..<n] else map f [0..<n])"
  by (induction n) (auto simp: less_Suc_eq upt_Suc)

lemma unsqueeze_lowered_verified:
  assumes "unsqueezeVerify dim inputType ty = Inr ()" and "\<forall>d \<in> set (tyShape ty). 1 \<le> d \<and> d < 2 ^ 31"
    and "d = (if dim < 0 then i32 (dim + rank inputType + 1) else dim)"
  shows "reshapeVerify (concat (map (\<lambda>i. (if int i = d then [1] else []) @ [i32 (tyShape inputType ! i)]) [0..<length (tyShape inputType)])
      @ (if rank inputType = d then [1] else [])) inputType ty = Inr ()"
proof -
  let ?s = "tyShape inputType" and ?t = "tyShape ty"
  have v: "0 \<le> d" "d \<le> rank inputType" "length ?t = Suc (length ?s)" "?t ! nat d = 1" "?s = withoutDim d ?t"
    using assms(1) by (auto simp: unsqueezeVerify_def assms(3)[symmetric] Let_def)
  obtain k where d: "d = int k" "k \<le> length ?s" using v(1,2) by (metis nonneg_int_cases of_nat_le_iff)
  have "k < length ?t" using d v(3) by simp
  have "map i32 ?t = ?t" using assms(2) by (intro i32_small) force
  have t: "?t = take k ?s @ 1 # drop k ?s"
  proof -
    have "?t = take k ?t @ ?t ! k # drop (Suc k) ?t" using \<open>k < length ?t\<close> by (rule id_take_nth_drop)
    moreover have "take k ?s = take k ?t" "drop k ?s = drop (Suc k) ?t"
      using v(5) \<open>k < length ?t\<close> by (simp_all add: withoutDim_def d(1))
    ultimately show ?thesis using v(4) d(1) by simp
  qed
  have "map (\<lambda>i. i32 (?s ! i)) [0..<k] = map i32 (take k ?s)" using d(2) by (intro nth_equalityI) simp_all
  moreover have "map (\<lambda>i. i32 (?s ! i)) [k..<length ?s] = map i32 (drop k ?s)" by (intro nth_equalityI) simp_all
  moreover have "map (\<lambda>i. i32 (?s ! i)) [0..<length ?s] = map i32 ?s" by (intro nth_equalityI) simp_all
  ultimately have "concat (map (\<lambda>i. (if int i = d then [1] else []) @ [i32 (?s ! i)]) [0..<length ?s]) @ (if rank inputType = d then [1] else [])
      = map i32 (take k ?s) @ 1 # map i32 (drop k ?s)"
    using d(2) by (auto simp: d(1) insert_one)
  also have "\<dots> = map i32 (take k ?s @ 1 # drop k ?s)" by simp
  also have "\<dots> = map i32 ?t" by (simp only: t[symmetric])
  finally have "concat (map (\<lambda>i. (if int i = d then [1] else []) @ [i32 (?s ! i)]) [0..<length ?s]) @ (if rank inputType = d then [1] else [])
      = map i32 ?t" .
  moreover have "prod_list ?s = prod_list ?t" using prod_withoutDim[of d ?t] v by simp
  moreover have "?t \<noteq> []" using v(3) by auto
  ultimately show ?thesis using reshape_attr_verified[OF assms(2)] by simp
qed

lemma product_positive: "\<forall>x \<in> set xs. (1 :: int) \<le> x \<Longrightarrow> 1 \<le> prod_list xs"
  by (induction xs) (auto simp: int_one_le_iff_zero_less)

lemma fold_product:
  assumes "\<forall>x \<in> set xs. (1 :: int) \<le> x" and "1 \<le> acc" and "acc * prod_list xs < 2 ^ 31"
  shows "foldl (\<lambda>acc d. i32 (acc * d)) acc xs = acc * prod_list xs"
  using assms
proof (induction xs arbitrary: acc)
  case (Cons x xs)
  have p: "1 \<le> prod_list xs" using Cons.prems(1) by (simp add: product_positive)
  have ax: "1 \<le> acc * x" using Cons.prems(1,2) mult_mono[of 1 acc 1 x] by simp
  have "acc * x < 2 ^ 31" using product_bound(1)[OF ax p] Cons.prems(3) by (simp add: mult.assoc)
  then have "i32 (acc * x) = acc * x" using ax by simp
  then show ?case using Cons.IH[of "acc * x"] Cons.prems ax by (simp add: mult.assoc)
qed simp

lemma concat_lowered_verified:
  assumes "concatVerify dim tys = Inr ()"
  shows "concatVerify (if dim < 0 then i32 (dim + rank (hd tys)) else dim) tys = Inr ()"
proof -
  define d where "d = (if dim < 0 then i32 (dim + rank (hd tys)) else dim)"
  have "0 \<le> d" using assms unfolding concatVerify_def Let_def d_def[symmetric] by simp
  with assms show ?thesis unfolding concatVerify_def Let_def d_def[symmetric] by simp
qed

lemma broadcast_lowered_verified:
  assumes "broadcastVerify bc dims x ty = Inr ()" and "\<forall>d \<in> set (tyShape x) \<union> set (tyShape ty). 1 \<le> d"
  shows "repeatVerify dims x ty = Inr ()"
proof -
  have v: "length (tyShape x) = length (tyShape ty)" "length dims = length (tyShape x)"
    "\<forall>i < length dims. tyShape x ! i * dims ! i = tyShape ty ! i"
    using assms(1) by (auto simp: broadcastVerify_def checks_append rbind_Inr_iff checks_Inr_iff)
  have "0 < dims ! i" if "i < length dims" for i
  proof -
    have "1 \<le> tyShape x ! i" "1 \<le> tyShape ty ! i" using assms(2) that v(1,2) by auto
    then have "0 < tyShape x ! i * dims ! i" "0 < tyShape x ! i" using v(3) that by auto
    then show ?thesis using zero_less_mult_pos by blast
  qed
  with v show ?thesis by (auto simp: repeatVerify_def checks_append rbind_Inr_iff checks_Inr_iff)
qed

end
