(* ===== verification/Lowering.thy ===== *)
theory Lowering
  imports LoweringFacts
begin

text \<open>
  The theorem on the conversion of TTIR to TTNN: the created ops are verified, in order, and of the type of the op they
  replace; and the ops for which TTNN asks more than TTIR, where this fails.
\<close>

section \<open>The ops of the theorem\<close>

text \<open>The data type of the layout is the one of the element type.\<close>

definition storedAs :: "tensor_type \<Rightarrow> bool" where
  "storedAs ty \<longleftrightarrow> getDataType (ttEncoding ty) = elementTypeToDataType (ttElem ty)"

text \<open>The input of a pooling op as the pass \<open>TTIRFlattenSlidingWindow\<close> leaves it.\<close>

definition flattenedInput :: "flat_info \<Rightarrow> ttir_type \<Rightarrow> bool" where
  "flattenedInput info input \<longleftrightarrow> 1 \<le> fiBatchSize info \<and> 1 \<le> fiInputHeight info \<and> 1 \<le> fiInputWidth info
     \<and> take 3 (tyShape input) = [1, 1, fiBatchSize info * fiInputHeight info * fiInputWidth info]"

lemma flattenedInput_take: "flattenedInput info input \<Longrightarrow> take 2 (tyShape input) = [1, 1]"
  using take_take[of 2 3 "tyShape input"] by (simp add: flattenedInput_def)

text \<open>
  The kinds of op the theorem is about, in the form the earlier passes leave them in. For the kinds left out the TTNN
  verifier asks for more than the TTIR verifier (the lemma \<open>stricter_ttnn_verifiers\<close> has an example for each), or the
  op has no result or the type of another operand (caches, scatter).
\<close>

definition loweringScope :: "ttir_kind \<Rightarrow> tensor_type list \<Rightarrow> tensor_type \<Rightarrow> bool" where
  "loweringScope k tys ty \<longleftrightarrow>
     (case k of
        TirNamedFull op s \<Rightarrow> False
      | TirProd keepDim dimArg \<Rightarrow> False
      | TirEmbeddingBackward \<Rightarrow> False
      | TirMeshShard direction shardType shardShape shardDims \<Rightarrow> False
      | TirUpdateCache batchOffset users \<Rightarrow> False
      | TirFillCache batchOffset users \<Rightarrow> False
      | TirScatter updateWindowDims insertedWindowDims \<Rightarrow> False
      | TirEmpty \<Rightarrow> storedAs ty
      | TirArange start end' step arangeDimension \<Rightarrow> arangeLegal arangeDimension (ttirType ty)
      | TirConv2d a \<Rightarrow> convSizes a (ttirType (tys ! 1))
      | TirPool2d op a \<Rightarrow> (case poFlat a of None \<Rightarrow> True | Some info \<Rightarrow> flattenedInput info (ttirType (tys ! 0)))
      | _ \<Rightarrow> True)"

section \<open>The created ops of each kind\<close>

definition loweredWell :: "broadcaster \<Rightarrow> tensor_type list \<Rightarrow> tensor_type \<Rightarrow> nn_op list \<times> nn_value \<Rightarrow> bool" where
  "loweredWell bc tys ty r \<longleftrightarrow> (case r of (ops, v) \<Rightarrow> createdVerify bc tys ops \<and> dominates tys ops v
     \<and> ttShape (valueType tys ops v) = ttShape ty \<and> ttElem (valueType tys ops v) = ttElem ty)"

lemma allOperands_types [simp]: "map (valueType tys ops) (allOperands tys) = tys"
  by (auto simp: allOperands_def intro: nth_equalityI)

lemma allOperands_available [simp]: "list_all (available tys ops n) (allOperands tys)"
  by (auto simp: allOperands_def list_all_iff)

text \<open>One created op is right if it verifies and its operands are operands of the converted op.\<close>

lemma one_op_well:
  assumes "replaceWith kind operands ty = Inr r"
    and "nnVerify bc kind (map (valueType tys []) operands) ty = passes"
    and "\<forall>v \<in> set operands. \<exists>i < length tys. v = Operand i"
  shows "loweredWell bc tys ty r"
proof -
  have r: "r = ([\<lparr>noKind = kind, noOperands = operands, noResult = Some ty\<rparr>], Created 0)" using assms(1) by (simp add: replaceWith_def)
  have "map (valueType tys (fst r)) operands = map (valueType tys []) operands" using assms(3) by auto
  moreover have "list_all (available tys ops n) operands" for ops n using assms(3) by (auto simp: list_all_iff)
  ultimately show ?thesis using assms(2)
    by (simp add: loweredWell_def r createdVerify_def resultOrFirst_def dominates_def del: map_eq_conv)
qed

lemma all_operands_well:
  assumes "replaceWith kind (allOperands tys) ty = Inr r" and "nnVerify bc kind tys ty = passes"
  shows "loweredWell bc tys ty r"
proof (rule one_op_well[OF assms(1)])
  show "nnVerify bc kind (map (valueType tys []) (allOperands tys)) ty = passes" using assms(2) by simp
qed (auto simp: allOperands_def)

lemma given_operands_well:
  assumes "replaceWith kind operands ty = Inr r" and "operands = allOperands tys" and "nnVerify bc kind tys ty = passes"
  shows "loweredWell bc tys ty r"
  using assms by (auto intro: all_operands_well)

lemma first_operand_well:
  assumes "replaceWith kind [Operand 0] ty = Inr r" and "tys = [x]" and "nnVerify bc kind [x] ty = passes"
  shows "loweredWell bc tys ty r"
  using assms by (intro one_op_well) auto

lemma no_operand_well:
  assumes "replaceWith kind [] ty = Inr r" and "nnVerify bc kind [] ty = passes"
  shows "loweredWell bc tys ty r"
  using assms by (intro one_op_well) auto

lemma orErrors_Inr [simp]:
  "orLoweringFault x = Inr y \<longleftrightarrow> x = Inr y" "orMatchFailure u = Inr z \<longleftrightarrow> u = Inr z" "orOpError u = Inr z \<longleftrightarrow> u = Inr z"
  by (simp_all add: orLoweringFault_def orMatchFailure_def orOpError_def split: sum.splits)

lemma dense_Inr:
  "attrToDenseI32Array a = Inr p \<longleftrightarrow> (\<exists>x y. getPairOfInteger a = Inr (x, y) \<and> p = [x, y])"
  "attrToDenseI32Array4 a = Inr q \<longleftrightarrow> (\<exists>x y z w. getQuadrupleOfInteger a = Inr (x, y, z, w) \<and> q = [x, y, z, w])"
  by (auto simp: attrToDenseI32Array_def attrToDenseI32Array4_def rbind_Inr_iff)

lemma symmetricPadding_Inr: "symmetricPadding [x, y, z, w] = Inr p \<longleftrightarrow> x = z \<and> y = w \<and> p = [x, y]"
  by (auto simp: symmetricPadding_def)

lemma conv2d_well:
  assumes "tirVerify bc (TirConv2d a) (map ttirType tys) (ttirType ty) = passes" and "lowerConv2d a tys ty = Inr r"
    and "\<forall>t \<in> set (ty # tys). dims31 t" and "convSizes a (ttirType (tys ! 1))"
  shows "loweredWell bc tys ty r"
proof -
  from assms(2) obtain info sH sW pT pL dH dW where flat: "caFlat a = Some info"
    and attrs: "getPairOfInteger (caStride a) = Inr (sH, sW)" "getQuadrupleOfInteger (caPadding a) = Inr (pT, pL, pT, pL)"
      "getPairOfInteger (caDilation a) = Inr (dH, dW)"
    and r: "replaceWith (NnConv2d
               \<lparr>ncInChannels = i32 (ttShape (tys ! 0) ! 3), ncOutChannels = i32 (ttShape ty ! 3), ncBatchSize = i32 (fiBatchSize info),
                ncInputHeight = i32 (fiInputHeight info), ncInputWidth = i32 (fiInputWidth info),
                ncKernelSize = [i32 (ttShape (tys ! 1) ! 2), i32 (ttShape (tys ! 1) ! 3)], ncStride = [sH, sW], ncPadding = [pT, pL],
                ncOutputPadding = [], ncDilation = [dH, dW], ncGroups = i32 (caGroups a)\<rparr>) (allOperands tys) ty = Inr r"
    by (auto simp: lowerConv2d_def Let_def rbind_Inr_iff dense_Inr symmetricPadding_Inr split: option.splits)
  obtain x w where t: "tys ! 0 = x" "tys ! 1 = w" "tys = [x, w] \<or> (\<exists>b. tys = [x, w, b])"
    using assms(1) by (auto simp: operand_simps map_eq_Cons_conv)
  have dims: "\<forall>d \<in> set (tyShape (ttirType x)) \<union> set (tyShape (ttirType w)) \<union> set (tyShape (ttirType ty)). 1 \<le> d \<and> d < 2 ^ 31"
    using assms(3) t(3) by (auto simp: dims31_def)
  have "conv2dVerify a bias (ttirType x) (ttirType w) (ttirType ty) = passes \<Longrightarrow>
     nnConv2dVerify \<lparr>ncInChannels = i32 (ttShape x ! 3), ncOutChannels = i32 (ttShape ty ! 3), ncBatchSize = i32 (fiBatchSize info),
                ncInputHeight = i32 (fiInputHeight info), ncInputWidth = i32 (fiInputWidth info),
                ncKernelSize = [i32 (ttShape w ! 2), i32 (ttShape w ! 3)], ncStride = [sH, sW], ncPadding = [pT, pL],
                ncOutputPadding = [], ncDilation = [dH, dW], ncGroups = i32 (caGroups a)\<rparr>
      bias (ttirType x) (ttirType w) (ttirType ty) = passes" for bias
    using conv2d_lowered_verified[OF flat _ attrs assms(4)[unfolded t(2)] dims refl] by simp
  then show ?thesis
    using assms(1) t(3) by (intro all_operands_well[OF r]) (auto simp: operand_simps t(1,2))
qed

lemma conv_transpose_well:
  assumes "tirVerify bc (TirConvTranspose2d a) (map ttirType tys) (ttirType ty) = passes" and "lowerConvTranspose2d a tys ty = Inr r"
    and "\<forall>t \<in> set (ty # tys). dims31 t"
  shows "loweredWell bc tys ty r"
proof -
  define s where "s = ttShape ty"
  define flattened where "flattened = ty\<lparr>ttShape := [1, 1, s ! 0 * s ! 1 * s ! 2, s ! 3]\<rparr>"
  define c where "c sH sW pT pL oH oW dH dW =
     \<lparr>ncInChannels = i32 (ttShape (tys ! 0) ! 3), ncOutChannels = i32 (s ! 3), ncBatchSize = i32 (ttShape (tys ! 0) ! 0),
                ncInputHeight = i32 (ttShape (tys ! 0) ! 1), ncInputWidth = i32 (ttShape (tys ! 0) ! 2),
                ncKernelSize = [i32 (ttShape (tys ! 1) ! 2), i32 (ttShape (tys ! 1) ! 3)], ncStride = [sH, sW], ncPadding = [pT, pL],
                ncOutputPadding = [oH, oW], ncDilation = [dH, dW], ncGroups = i32 (ctGroups a)\<rparr>" for sH sW pT pL oH oW dH dW
  from assms(2) obtain sH sW pT pL oH oW dH dW l where
    attrs: "getPairOfInteger (ctStride a) = Inr (sH, sW)" "getQuadrupleOfInteger (ctPadding a) = Inr (pT, pL, pT, pL)"
      "getPairOfInteger (ctOutputPadding a) = Inr (oH, oW)" "getPairOfInteger (ctDilation a) = Inr (dH, dW)"
    and r: "r = ([\<lparr>noKind = NnConvTranspose2d (c sH sW pT pL oH oW dH dW), noOperands = allOperands tys, noResult = Some flattened\<rparr>,
        \<lparr>noKind = NnReshape (map i32 s), noOperands = [Created 0], noResult = Some \<lparr>ttShape = s, ttElem = ttElem ty, ttEncoding = l\<rparr>\<rparr>], Created 1)"
    by (auto simp: lowerConvTranspose2d_def Let_def rbind_Inr_iff dense_Inr symmetricPadding_Inr generateNnReshape_def c_def s_def[symmetric]
        flattened_def)
  obtain x w where t: "tys ! 0 = x" "tys ! 1 = w" "tys = [x, w] \<or> (\<exists>b. tys = [x, w, b])"
    using assms(1) by (auto simp: operand_simps map_eq_Cons_conv)
  obtain bias where v: "convTranspose2dVerify a (map_option ttirType bias) (ttirType x) (ttirType w) (ttirType ty) = passes"
    and b: "tys = [x, w] \<and> bias = None \<or> (\<exists>b. tys = [x, w, b] \<and> bias = Some b)"
    using assms(1) t(3) by (force simp: operand_simps)
  have dims: "\<forall>d \<in> set (tyShape (ttirType x)) \<union> set (tyShape (ttirType ty)). 1 \<le> d \<and> d < 2 ^ 31"
    using assms(3) t(3) by (auto simp: dims31_def)
  have "nnConvTranspose2dVerify (c sH sW pT pL oH oW dH dW) (map_option ttirType bias) (ttirType x) (ttirType w) (ttirType flattened) = passes"
    by (rule conv_transpose_lowered_verified[OF v attrs dims]) (simp_all add: c_def t(1) t(2)[unfolded One_nat_def] s_def flattened_def)
  then have conv: "nnVerify bc (NnConvTranspose2d (c sH sW pT pL oH oW dH dW)) tys flattened = passes"
    using b by (auto simp: operand_simps)
  from v have "length s = 4"
    unfolding convTranspose2dVerify_def onPass_pass by (cases bias) (auto simp: convTransposeShapeChecks_def s_def)
  then have s4: "s = [s ! 0, s ! 1, s ! 2, s ! 3]" by (rule length_4_nth)
  have "prod_list [1, 1, s ! 0 * s ! 1 * s ! 2, s ! 3] = prod_list s" by (subst (5) s4) simp
  moreover have "ttShape ty \<noteq> []" using \<open>length s = 4\<close> by (auto simp: s_def)
  ultimately have "reshapeVerify (map i32 s) (ttirType flattened) (ttirType \<lparr>ttShape = s, ttElem = ttElem ty, ttEncoding = l\<rparr>) = Inr ()"
    using dims reshape_attr_verified[of "ttirType \<lparr>ttShape = s, ttElem = ttElem ty, ttEncoding = l\<rparr>" "ttirType flattened"]
    by (auto simp: s_def flattened_def)
  with conv show ?thesis
    by (simp add: loweredWell_def r createdVerify_def resultOrFirst_def dominates_def upt_rec s_def[symmetric]
        nnReshapeVerify_def oneOperand_def)
qed

lemma embedding_backward_well:
  assumes "tirVerify bc TirEmbeddingBackward (map ttirType tys) (ttirType ty) = passes" and "lowerEmbeddingBackward tys ty = Inr r"
    and "\<forall>t \<in> set (ty # tys). dims31 t"
    and "ttShape (tys ! 0) \<noteq> []" "last (ttShape (tys ! 0)) mod 32 = 0" "prod_list (ttShape (tys ! 0)) < 2 ^ 31"
    and "prod_list (butlast (ttShape (tys ! 2))) = prod_list (ttShape (tys ! 0))" "last (ttShape (tys ! 2)) = ttShape (tys ! 1) ! 1"
  shows "loweredWell bc tys ty r"
proof -
  obtain x w g where tys: "tys = [x, w, g]" and v: "embeddingBackwardVerify (ttirType w) (ttirType g) (ttirType ty) = Inr ()"
    using assms(1) by (auto simp: operand_simps map_eq_Cons_conv)
  let ?g = "ttShape g"
  have e: "ttShape x \<noteq> []" "last (ttShape x) mod 32 = 0" "prod_list (butlast ?g) = prod_list (ttShape x)"
    "prod_list (ttShape x) < 2 ^ 31" "last ?g = ttShape w ! 1"
    using assms(4-8) by (simp_all add: tys numeral_2_eq_2)
  have ne: "?g \<noteq> []" using assms(2) by (auto simp: lowerEmbeddingBackward_def tys Let_def)
  then have g: "?g = butlast ?g @ [last ?g]" by simp
  have pos: "\<forall>d \<in> set ?g. 1 \<le> d \<and> d < 2 ^ 31" "\<forall>d \<in> set (ttShape x). 1 \<le> d" using assms(3) by (auto simp: tys dims31_def)
  have "\<forall>d \<in> set (butlast ?g). 1 \<le> d" using pos(1) in_set_butlastD by fast
  from fold_product[OF this, of 1] e(3,4)
  have R: "foldl (\<lambda>acc d. i32 (acc * d)) 1 (butlast ?g) = prod_list (ttShape x)" by simp
  have px: "1 \<le> prod_list (ttShape x)" by (rule product_positive[OF pos(2)])
  define s where "s = [1, 1, prod_list (ttShape x), last ?g]"
  have i32s: "map i32 s = [1, 1, i32 (prod_list (ttShape x)), i32 (last ?g)]" by (simp add: s_def)
  have lg: "1 \<le> last ?g" "last ?g < 2 ^ 31" using pos(1) ne by auto
  from assms(2) obtain l dtype where
    r: "r = ([\<lparr>noKind = NnReshape (map i32 s), noOperands = [Operand 2], noResult = Some \<lparr>ttShape = s, ttElem = ttElem g, ttEncoding = l\<rparr>\<rparr>,
        \<lparr>noKind = NnEmbeddingBackward dtype (memoryConfigOf (ttEncoding ty)), noOperands = [Operand 0, Operand 1, Created 0],
          noResult = Some ty\<rparr>], Created 1)"
    using ne by (auto simp: lowerEmbeddingBackward_def tys Let_def rbind_Inr_iff generateNnReshape_def R s_def[symmetric] numeral_2_eq_2 i32s)
  have "prod_list ?g = prod_list s" by (subst g) (simp add: s_def e(3))
  then have "reshapeVerify (map i32 s) (ttirType g) (ttirType \<lparr>ttShape = s, ttElem = ttElem g, ttEncoding = l\<rparr>) = Inr ()"
    using reshape_attr_verified[of "ttirType \<lparr>ttShape = s, ttElem = ttElem g, ttEncoding = l\<rparr>" "ttirType g"] px e(4) lg
    by (simp add: s_def)
  moreover have "nnEmbeddingBackwardVerify (ttirType x) (ttirType w) (ttirType \<lparr>ttShape = s, ttElem = ttElem g, ttEncoding = l\<rparr>) (ttirType ty) = passes"
    using v e by (auto simp: nnEmbeddingBackwardVerify_def embeddingBackwardVerify_def s_def TILE_WIDTH_def)
  ultimately show ?thesis
    by (simp add: loweredWell_def r createdVerify_def resultOrFirst_def dominates_def upt_rec tys
        nnReshapeVerify_def oneOperand_def threeOperands_def numeral_2_eq_2)
qed

lemma subtract_well:
  assumes "length tys = 2" and "lowerSubtract tys ty = Inr r"
  shows "loweredWell bc tys ty r"
  using assms by (auto simp: lowerSubtract_def Let_def loweredWell_def createdVerify_def dominates_def replaceWith_def
      resultOrFirst_def upt_rec split: if_splits)

lemma quantization_well:
  assumes "lowerQuantization mk q ty = Inr r" and "tys = [x]"
    and "\<And>scale zeroPoint dtype. nnVerify bc (mk scale zeroPoint None dtype) [x] ty = passes"
  shows "loweredWell bc tys ty r"
proof -
  from assms(1) obtain scale zeroPoint dtype where "replaceWith (mk scale zeroPoint None dtype) [Operand 0] ty = Inr r"
    by (auto simp: lowerQuantization_def getScaleAndZeroPoint_def getAxis_def rbind_Inr_iff split: option.splits quant_kind.splits)
  from first_operand_well[OF this assms(2,3)] show ?thesis .
qed

lemma requantize_well:
  assumes "lowerRequantize qi qo ty = Inr r" and "tys = [x]" and "requantizeVerify (ttirType x) (ttirType ty) = Inr ()"
  shows "loweredWell bc tys ty r"
proof -
  from assms(1) obtain s z s' z' dtype where "replaceWith (NnRequantize s z s' z' None dtype) [Operand 0] ty = Inr r"
    by (auto simp: lowerRequantize_def getScaleAndZeroPoint_def getAxis_def rbind_Inr_iff split: option.splits quant_kind.splits)
  then show ?thesis using assms(3)
    by (intro first_operand_well[OF _ assms(2)])
      (auto simp: operand_simps nnRequantizeVerify_def requantizeVerify_def nnQuantizeChecks_def quantizeChecks_def)
qed

lemma ttirType_shape: "ttirType x = ttirType y \<Longrightarrow> ttShape x = ttShape y"
  by (cases x, cases y) (simp add: ttirType_def)

section \<open>The theorem\<close>

lemma lowered_well:
  assumes "tirVerify bc k (map ttirType tys) (ttirType ty) = passes" and "lowerOp k tys ty = Inr r"
    and "\<forall>t \<in> set (ty # tys). dims31 t" and "loweringScope k tys ty"
  shows "loweredWell bc tys ty r"
proof -
  note dims = assms(3)[unfolded dims31_def]
  show ?thesis
  proof (cases k)
    case TirEmpty
    then show ?thesis using assms
      by (cases "isSystemBufferType (getBufferType (ttEncoding ty))")
        (auto simp: lowerEmpty_def Let_def rbind_Inr_iff operand_simps loweringScope_def storedAs_def namedOpVerify_def
          nnEmptyVerify_def getLayout_def memoryConfigOf_def checks.simps onPass_pass intro!: no_operand_well)
  next
    case (TirSqueeze dim)
    with assms obtain x where x: "tys = [x]" "squeezeVerify dim (ttirType x) (ttirType ty) = Inr ()" by (auto simp: operand_simps map_eq_Cons_conv)
    with squeeze_lowered_verified[OF x(2)] dims assms(2) TirSqueeze show ?thesis
      by (auto simp: lowerSqueeze_def Let_def operand_simps nnReshapeVerify_def intro!: first_operand_well)
  next
    case (TirUnsqueeze dim)
    with assms obtain x where x: "tys = [x]" "unsqueezeVerify dim (ttirType x) (ttirType ty) = Inr ()" by (auto simp: operand_simps map_eq_Cons_conv)
    with unsqueeze_lowered_verified[OF x(2) _ refl] dims assms(2) TirUnsqueeze show ?thesis
      by (auto simp: lowerUnsqueeze_def Let_def operand_simps nnReshapeVerify_def intro!: first_operand_well)
  next
    case (TirPool2d op a)
    with assms obtain x where x: "tys = [x]" by (auto simp: operand_simps map_eq_Cons_conv)
    have "take 2 (ttShape x) = [1, 1]" if "flattenedInput info (ttirType x)" for info
      using flattenedInput_take[OF that] by simp
    with TirPool2d x assms dims show ?thesis
      by (auto simp: lowerPool2d_def operand_simps loweringScope_def flattenedInput_def split: option.splits if_splits
          intro!: first_operand_well pool_lowered_verified[of _ _ _ "ttirType x" "ttirType ty", simplified])
  next
    case (TirConcat dim)
    then show ?thesis using assms concat_lowered_verified[of dim "map ttirType tys"]
      by (cases tys) (auto intro!: all_operands_well simp: nnConcatVerify_def)
  next
    case (TirBroadcast dims)
    with assms obtain x where x: "tys = [x]" by (auto simp: operand_simps map_eq_Cons_conv)
    then have "\<forall>d \<in> set (tyShape (ttirType x)) \<union> set (tyShape (ttirType ty)). 1 \<le> d" using dims by auto
    with x TirBroadcast assms have "repeatVerify dims (ttirType x) (ttirType ty) = Inr ()"
      by (intro broadcast_lowered_verified[of bc]) (auto simp: operand_simps)
    with x TirBroadcast assms(2) show ?thesis
      by (auto simp: operand_simps nnRepeatVerify_def intro!: first_operand_well)
  next
    case (TirReduction op keepDim dimArg)
    then show ?thesis using assms
      by (auto simp: operand_simps map_eq_Cons_conv intro!: first_operand_well reduce_lowered_verified[of "ttirType _", simplified])
  next
    case (TirConv2d a)
    then show ?thesis using assms conv2d_well[of bc a tys ty r] by (simp add: loweringScope_def)
  next
    case (TirConvTranspose2d a)
    then show ?thesis using assms conv_transpose_well[of bc a tys ty r] by simp
  next
    case TirSubtract
    then show ?thesis using assms by (auto simp: operand_simps map_eq_Cons_conv intro!: subtract_well)
  next
    case (TirQuantize q)
    then show ?thesis using assms
      by (auto simp: operand_simps map_eq_Cons_conv nnQuantizeVerify_def quantizeVerify_def nnQuantizeChecks_def quantizeChecks_def
          intro!: quantization_well)
  next
    case (TirDequantize q)
    then show ?thesis using assms
      by (auto simp: operand_simps map_eq_Cons_conv nnDequantizeVerify_def dequantizeVerify_def nnQuantizeChecks_def quantizeChecks_def
          intro!: quantization_well)
  next
    case (TirRequantize qi qo)
    then show ?thesis using assms by (auto simp: operand_simps map_eq_Cons_conv intro!: requantize_well)
  next
    case (TirArange start end' step arangeDimension)
    then show ?thesis using assms
      by (auto simp: lowerArange_def rbind_Inr_iff operand_simps arangeVerify_def nnArangeVerify_def loweringScope_def arangeLegal_def Let_def assertE_def
          length_Suc_conv split: if_splits intro!: no_operand_well)
  next
    case (TirConstant v splat)
    then show ?thesis using assms
      by (auto simp: lowerConstant_def operand_simps constantVerify_def nnConstantVerify_def split: if_splits option.splits intro!: no_operand_well)
  next
    case (TirArgMax keepDim dimArg)
    then show ?thesis using assms
      by (auto simp: lowerArgMax_def operand_simps map_eq_Cons_conv rbind_Inr_iff intro!: first_operand_well)
  next
    case (TirPad padding v)
    then show ?thesis using assms
      by (auto simp: lowerPad_def operand_simps map_eq_Cons_conv nnPadVerify_def intro!: first_operand_well)
  next
    case (TirLinear ta tb)
    then show ?thesis using assms
      by (auto simp: operand_simps map_eq_Cons_conv nnLinearVerify_def intro!: all_operands_well)
  next
    case (TirMatmul ta tb)
    then show ?thesis using assms
      by (auto simp: operand_simps map_eq_Cons_conv nnMatmulVerify_def intro!: all_operands_well)
  next
    case (TirClampScalar lo hi)
    with assms obtain x where x: "tys = [x]" and t: "ttirType x = ttirType ty" by (auto simp: operand_simps clampScalarVerify_def map_eq_Cons_conv)
    with TirClampScalar assms(2) ttirType_shape[OF t] show ?thesis
      by (auto simp: operand_simps nnClampScalarVerify_def intro!: first_operand_well)
  qed (use assms in \<open>auto simp: operand_simps map_eq_Cons_conv rbind_Inr_iff lowerToLayout_def Let_def loweringScope_def
      nnRepeatInterleaveVerify_def nnSoftmaxVerify_def nnTransposeVerify_def
      nnReshapeVerify_def nnSliceVerify_def nnRepeatVerify_def nnTypecastVerify_def nnAllReduceVerify_def allReduceVerify_def
      nnReduceScatterVerify_def reduceScatterVerify_def nnMeshShardVerify_def meshShardVerify_def nnAllGatherVerify_def allGatherVerify_def
      nnCollectivePermuteVerify_def nnPermuteVerify_def nnUpsampleVerify_def nnEmbeddingVerify_def
      allOperands_def intro!: given_operands_well\<close>)
qed

text \<open>
  C15: an op that its TTIR verifier accepts and that the conversion to TTNN replaces is replaced by ops that
  their TTNN verifiers accept, that use only operands of the op and results of earlier created ops, and whose last
  value has the shape and the element type of the replaced result. All dimensions are from 1 to \<open>2 ^ 31 - 1\<close>; for a
  convolution the kernel sizes, dilations and paddings are also below \<open>2 ^ 15\<close>, and the recorded height and width below
  \<open>2 ^ 30\<close> (the verifier of TTNN computes in 32 bits). A pooling op has the flattened input
  \<open>TTIRFlattenSlidingWindow\<close> creates, an arange is of rank one, as the decomposition leaves it, and the layout of an
  empty tensor has the data type of its element type. Not covered are the named full ops (zeros, ones), the product,
  embedding backward, mesh shard (for all of these TTNN's verifier asks for more, and the created op can be rejected),
  the cache ops and scatter.
\<close>

theorem lowering_keeps_verified:
  assumes "tirVerify bc k (map ttirType tys) (ttirType ty) = passes" and "lowerOp k tys ty = Inr (ops, v)"
    and "\<forall>t \<in> set (ty # tys). dims31 t" and "loweringScope k tys ty"
  shows "createdVerify bc tys ops \<and> dominates tys ops v
    \<and> ttShape (valueType tys ops v) = ttShape ty \<and> ttElem (valueType tys ops v) = ttElem ty"
  using lowered_well[OF assms] by (simp add: loweredWell_def)

definition loweringType :: "shape \<Rightarrow> tensor_type" where
  "loweringType s = \<lparr>ttShape = s, ttElem = Scalar (FloatType 32), ttEncoding =
     \<lparr>getLinear = linear2d [64, 64], getGrid = gridOfShape [1, 1],
      getMemref = \<lparr>memrefShape = [64, 64], memrefElem = Scalar (FloatType 32), memrefSpace = DRAM\<rparr>,
      getMemLayout = Some Interleaved, getTensorMeshSharding = None\<rparr>\<rparr>"

definition loweringConv :: conv_transpose_attrs where
  "loweringConv = \<lparr>ctStride = IntAttr 2, ctPadding = ArrayAttr [1, 1], ctOutputPadding = ArrayAttr [1, 0],
     ctDilation = IntAttr 1, ctGroups = 1\<rparr>"

theorem lowering_keeps_verified_witness:
  "case lowerOp (TirConvTranspose2d loweringConv) [loweringType [1, 3, 4, 6], loweringType [6, 4, 3, 3]] (loweringType [1, 6, 7, 4]) of
     Inl e \<Rightarrow> False
   | Inr (ops, v) \<Rightarrow> length ops = 2
       \<and> createdVerify (\<lambda>_ _. None) [loweringType [1, 3, 4, 6], loweringType [6, 4, 3, 3]] ops"
proof -
  let ?k = "TirConvTranspose2d loweringConv"
  let ?tys = "[loweringType [1, 3, 4, 6], loweringType [6, 4, 3, 3]]"
  let ?ty = "loweringType [1, 6, 7, 4]"
  have "tirVerify (\<lambda>_ _. None) ?k (map ttirType ?tys) (ttirType ?ty) = passes" by code_simp
  note lowered = lowering_keeps_verified[OF this]
  have "case lowerOp ?k ?tys ?ty of Inl e \<Rightarrow> False | Inr (ops, v) \<Rightarrow> length ops = 2" by code_simp
  then obtain ops v where r: "lowerOp ?k ?tys ?ty = Inr (ops, v)" "length ops = 2"
    by (simp split: sum.splits prod.splits)
  have "\<forall>t \<in> set (?ty # ?tys). dims31 t" by (simp add: dims31_def loweringType_def)
  from lowered[OF r(1) this] r show ?thesis by (simp add: loweringScope_def)
qed

section \<open>Reductions over no dimension\<close>

text \<open>
  A reduction over an empty list of dimensions is accepted by the TTIR verifier, but the patterns of the product and of
  argmax read the first dimension of the list.
\<close>

lemma empty_reduction_not_lowered:
  "tirVerify bc (TirProd True (Some [])) [ttirType (loweringType [2, 3])] (ttirType (loweringType [2, 3])) = passes
   \<and> lowerOp (TirProd True (Some [])) [loweringType [2, 3]] (loweringType [2, 3]) = Inl (LoweringFault OutOfBounds)
   \<and> tirVerify bc (TirArgMax True (Some [])) [ttirType (loweringType [2, 3])] (ttirType (loweringType [2, 3])) = passes
   \<and> lowerOp (TirArgMax True (Some [])) [loweringType [2, 3]] (loweringType [2, 3]) = Inl (LoweringFault (AssertFailed SiteOther))"
  by code_simp

section \<open>Where TTNN asks for more\<close>

text \<open>
  Ops the TTIR verifier accepts and the pattern lowers to one op that the TTNN verifier rejects: a product over all
  dimensions of a tensor of 32-bit floats, zeros whose shape attribute is not the shape of the result, a mesh shard over
  devices that does not partition anything; and an embedding backward whose input has a last dimension that is no
  multiple of the tile width, where the second of the two created ops is rejected.
\<close>

lemma stricter_ttnn_verifiers:
  "tirVerify bc (TirProd True None) [ttirType (loweringType [2, 3])] (ttirType (loweringType [1, 1])) = passes
   \<and> (case lowerOp (TirProd True None) [loweringType [2, 3]] (loweringType [1, 1]) of
        Inl e \<Rightarrow> False | Inr (ops, v) \<Rightarrow> \<not> createdVerify bc [loweringType [2, 3]] ops)"
  "tirVerify bc (TirNamedFull ''zeros'' [2, 3]) [] (ttirType (loweringType [3, 2])) = passes
   \<and> (case lowerOp (TirNamedFull ''zeros'' [2, 3]) [] (loweringType [3, 2]) of
        Inl e \<Rightarrow> False | Inr (ops, v) \<Rightarrow> \<not> createdVerify bc [] ops)"
  "tirVerify bc (TirMeshShard 0 ShardDevices [1, 1] [0, 1]) [ttirType (loweringType [2, 3])] (ttirType (loweringType [2, 3])) = passes
   \<and> (case lowerOp (TirMeshShard 0 ShardDevices [1, 1] [0, 1]) [loweringType [2, 3]] (loweringType [2, 3]) of
        Inl e \<Rightarrow> False | Inr (ops, v) \<Rightarrow> \<not> createdVerify bc [loweringType [2, 3]] ops)"
  "tirVerify bc TirEmbeddingBackward (map ttirType [loweringType [2, 3], loweringType [8, 4], loweringType [2, 3, 4]]) (ttirType (loweringType [8, 4])) = passes
   \<and> (case lowerOp TirEmbeddingBackward [loweringType [2, 3], loweringType [8, 4], loweringType [2, 3, 4]] (loweringType [8, 4]) of
        Inl e \<Rightarrow> False | Inr (ops, v) \<Rightarrow> \<not> createdVerify bc [loweringType [2, 3], loweringType [8, 4], loweringType [2, 3, 4]] ops)"
  by code_simp+

end
