(* ===== verification/TTIRConvolution.thy ===== *)
theory TTIRConvolution
  imports TTIRDot TTIRWindows LinearMap
begin

text \<open>
  The convolution patterns of \<open>TTIRToTTIRDecomposition.cpp\<close>: a convolution over one spatial dimension becomes one over two,
  and a convolution over two spatial dimensions becomes a conv2d between permutations. A convolution is given a meaning,
  as a list of products in a fixed order, and the created programs have the meaning of the op they replace.
\<close>

section \<open>Programs with convolutions\<close>

text \<open>\<open>ttir.convolution\<close>.\<close>

record convolution_op =
  coStrides :: "int list"
  coPadding :: "int list"
  coInputDilation :: "int list"
  coWeightDilation :: "int list"
  coReversal :: "bool list"
  coLayout :: convolution_layout
  coFeatureGroups :: int
  coBatchGroups :: int

datatype conv_expr =
    Plain ttir
  | CopyOf ttir_op conv_expr ttir_type
  | ConvolutionOf convolution_op conv_expr conv_expr "conv_expr option" ttir_type
  | Conv2dOf conv_attrs conv_expr conv_expr "conv_expr option" ttir_type

fun convTypeOf :: "conv_expr \<Rightarrow> ttir_type" where
  "convTypeOf (Plain x) = typeOf x"
| "convTypeOf (CopyOf a x ty) = ty"
| "convTypeOf (ConvolutionOf c x w b ty) = ty"
| "convTypeOf (Conv2dOf a x w b ty) = ty"

section \<open>Meaning\<close>

text \<open>
  The value at an output place \<open>n, o, p\<close> (batch, feature, spatial): the sum over the input features of the group of
  \<open>o\<close> and over the places of the kernel. Padding and the holes of a dilated input count as zero.
\<close>

definition windowPlace :: "convolution_op \<Rightarrow> shape \<Rightarrow> int list \<Rightarrow> int list \<Rightarrow> int list" where
  "windowPlace c kernelSizes p k =
     map (\<lambda>d. p ! d * coStrides c ! d + k ! d * coWeightDilation c ! d - coPadding c ! (2 * d)) [0..<length kernelSizes]"

definition kernelPlace :: "convolution_op \<Rightarrow> shape \<Rightarrow> int list \<Rightarrow> int list" where
  "kernelPlace c kernelSizes k =
     map (\<lambda>d. if coReversal c ! d then kernelSizes ! d - 1 - k ! d else k ! d) [0..<length kernelSizes]"

definition undilatedBy :: "int list \<Rightarrow> shape \<Rightarrow> int list \<Rightarrow> int list option" where
  "undilatedBy dilation sizes q =
     (if \<forall>d < length q. 0 \<le> q ! d \<and> q ! d mod dilation ! d = 0 \<and> q ! d div dilation ! d < sizes ! d
      then Some (map (\<lambda>d. q ! d div dilation ! d) [0..<length q]) else None)"

definition undilated :: "convolution_op \<Rightarrow> shape \<Rightarrow> int list \<Rightarrow> int list option" where
  "undilated c inputSizes q = undilatedBy (coInputDilation c) inputSizes q"

definition convolutionAt ::
  "'a scalars \<Rightarrow> convolution_op \<Rightarrow> shape \<Rightarrow> shape \<Rightarrow> (int list \<Rightarrow> 'a option) \<Rightarrow> (int list \<Rightarrow> 'a option)
     \<Rightarrow> int \<Rightarrow> int \<Rightarrow> int list \<Rightarrow> 'a option" where
  "convolutionAt sc c x w readX readW n out p =
     (let l = coLayout c;
          inputSizes = dims x (clInputSpatial l); kernelSizes = dims w (clKernelSpatial l);
          features = w ! nat (clKernelOutputFeature l); groupFeatures = w ! nat (clKernelInputFeature l);
          group = out div (features div coFeatureGroups c);
          batch = n + (out div (features div coBatchGroups c)) * (x ! nat (clInputBatch l) div coBatchGroups c)
      in sumOfProducts sc (map (\<lambda>(f, j).
           let k = unlin kernelSizes (int j)
           in (case undilated c inputSizes (windowPlace c kernelSizes p k) of
                 None \<Rightarrow> Some (scInt sc 0)
               | Some q \<Rightarrow> readX (atDims (clInputBatch l # clInputFeature l # clInputSpatial l)
                                    (batch # (group * groupFeatures + int f) # q)),
               readW (atDims (clKernelOutputFeature l # clKernelInputFeature l # clKernelSpatial l)
                        (out # int f # kernelPlace c kernelSizes k))))
         (List.product [0..<nat groupFeatures] [0..<nat (prod_list kernelSizes)])))"

text \<open>A bias has one value for each output feature, in its last dimension.\<close>

definition addBias :: "'a scalars \<Rightarrow> 'a option option \<Rightarrow> 'a option \<Rightarrow> 'a option" where
  "addBias sc bias v =
     (case bias of None \<Rightarrow> v
      | Some b \<Rightarrow> (case (v, b) of (Some x, Some y) \<Rightarrow> Some (scAdd sc x y) | _ \<Rightarrow> None))"

definition readIn :: "shape \<Rightarrow> (int list \<Rightarrow> 'a option) \<Rightarrow> int list \<Rightarrow> 'a option" where
  "readIn s f j = (if index_of s j then f j else None)"

text \<open>\<open>ttir.conv2d\<close>: batch, height, width, channel; the kernel has output channel, input channel, height, width.\<close>

definition conv2dLayout :: convolution_layout where
  "conv2dLayout = \<lparr>clInputBatch = 0, clInputFeature = 3, clInputSpatial = [1, 2],
     clKernelOutputFeature = 0, clKernelInputFeature = 1, clKernelSpatial = [2, 3],
     clOutputBatch = 0, clOutputFeature = 3, clOutputSpatial = [1, 2]\<rparr>"

definition conv2dOp :: "conv_attrs \<Rightarrow> string + convolution_op" where
  "conv2dOp a =
     rbind (getPairOfInteger (caStride a)) (\<lambda>(sH, sW).
     rbind (getQuadrupleOfInteger (caPadding a)) (\<lambda>(pT, pL, pB, pR).
     rbind (getPairOfInteger (caDilation a)) (\<lambda>(dH, dW).
       Inr \<lparr>coStrides = [sH, sW], coPadding = [pT, pB, pL, pR], coInputDilation = [1, 1], coWeightDilation = [dH, dW],
            coReversal = [False, False], coLayout = conv2dLayout, coFeatureGroups = caGroups a, coBatchGroups = 1\<rparr>)))"

definition convolutionValue ::
  "'a scalars \<Rightarrow> convolution_op \<Rightarrow> 'a tensor \<Rightarrow> 'a tensor \<Rightarrow> 'a tensor option \<Rightarrow> int list \<Rightarrow> 'a option" where
  "convolutionValue sc c x w b i =
     (let l = coLayout c; out = i ! nat (clOutputFeature l)
      in addBias sc (map_option (\<lambda>(ty, f). readIn (tyShape ty) f [0, 0, 0, out]) b)
           (convolutionAt sc c (tyShape (fst x)) (tyShape (fst w)) (readIn (tyShape (fst x)) (snd x)) (readIn (tyShape (fst w)) (snd w))
              (i ! nat (clOutputBatch l)) out (dims i (clOutputSpatial l))))"

fun convEval :: "'a scalars \<Rightarrow> conv_expr \<Rightarrow> int list \<Rightarrow> 'a option" where
  "convEval sc (Plain x) = eval sc x"
| "convEval sc (CopyOf a x ty) = evalOp sc a [(convTypeOf x, convEval sc x)] ty"
| "convEval sc (ConvolutionOf c x w b ty) =
     convolutionValue sc c (convTypeOf x, convEval sc x) (convTypeOf w, convEval sc w)
       (map_option (\<lambda>y. (convTypeOf y, convEval sc y)) b)"
| "convEval sc (Conv2dOf a x w b ty) =
     (case conv2dOp a of
        Inl e \<Rightarrow> (\<lambda>i. None)
      | Inr c \<Rightarrow> convolutionValue sc c (convTypeOf x, convEval sc x) (convTypeOf w, convEval sc w)
          (map_option (\<lambda>y. (convTypeOf y, convEval sc y)) b))"

section \<open>The patterns\<close>

definition setDim :: "int list \<Rightarrow> int \<Rightarrow> int \<Rightarrow> fault + int list" where
  "setDim xs d v = (if 0 \<le> d \<and> nat d < length xs then Inr (xs[nat d := v]) else Inl OutOfBounds)"

text \<open>The spatial dimensions count from 0, the batch is -1 and the feature -2 (in a kernel the input features are -1, the
  output features -2).\<close>

definition layoutOf :: "int \<Rightarrow> int \<Rightarrow> int list \<Rightarrow> fault + int list" where
  "layoutOf minusOne minusTwo spatial =
     rbind (setDim (replicate 4 (-3)) minusOne (-1)) (\<lambda>l.
     rbind (setDim l minusTwo (-2)) (\<lambda>l.
       foldE (\<lambda>k l. setDim l (spatial ! k) (int k)) [0..<length spatial] l))"

definition generateConvPermutation :: "convolution_layout \<Rightarrow> int list \<Rightarrow> fault + int list" where
  "generateConvPermutation l ttnnConvolutionLayout =
     rbind (layoutOf (clInputBatch l) (clInputFeature l) (clInputSpatial l)) (\<lambda>inputLayout.
     rbind (generatePermutation inputLayout ttnnConvolutionLayout) (\<lambda>permutation. Inr (map int permutation)))"

definition generateConvKernelPermutation :: "convolution_layout \<Rightarrow> int list \<Rightarrow> fault + int list" where
  "generateConvKernelPermutation l ttnnConvolutionKernelLayout =
     rbind (layoutOf (clKernelInputFeature l) (clKernelOutputFeature l) (clKernelSpatial l)) (\<lambda>kernelLayout.
     rbind (generatePermutation kernelLayout ttnnConvolutionKernelLayout) (\<lambda>permutation. Inr (map int permutation)))"

definition isNDimensional :: "convolution_op \<Rightarrow> nat \<Rightarrow> bool" where
  "isNDimensional c numSpatialDims \<longleftrightarrow> length (clInputSpatial (coLayout c)) = numSpatialDims"

definition isSupportedConv :: "convolution_op \<Rightarrow> fault + bool" where
  "isSupportedConv c =
     (let l = coLayout c
      in rbind (assertE SiteRank (length (clInputSpatial l) = length (clOutputSpatial l))) (\<lambda>_.
         rbind (assertE SiteRank (length (clInputSpatial l) = length (clKernelSpatial l))) (\<lambda>_.
           Inr (\<not> (\<exists>r \<in> set (coReversal c). r) \<and> coBatchGroups c = 1))))"

text \<open>Two rows of two, the low and the high padding of a spatial dimension.\<close>

definition getPaddingMatrix :: "nat \<Rightarrow> int list \<Rightarrow> fault + (int \<times> int) list" where
  "getPaddingMatrix nDims padding =
     rbind (assertE SiteRank (2 * nDims \<le> length padding)) (\<lambda>_.
       Inr (map (\<lambda>i. (padding ! (2 * i), padding ! (2 * i + 1))) [0..<nDims]))"

text \<open>The operands as the patterns reshape and permute them.\<close>

definition convReshape :: "conv_expr \<Rightarrow> shape \<Rightarrow> conv_expr" where
  "convReshape x targetShape = CopyOf (ReshapeOp (map i32 targetShape)) x ((convTypeOf x)\<lparr>tyShape := targetShape\<rparr>)"

definition convPermute :: "conv_expr \<Rightarrow> int list \<Rightarrow> fault + conv_expr" where
  "convPermute x permutation =
     rbind (applyPermutation (tyShape (convTypeOf x)) (map nat permutation)) (\<lambda>s.
       Inr (CopyOf (PermuteOp permutation) x ((convTypeOf x)\<lparr>tyShape := s\<rparr>)))"

text \<open>No match is \<open>None\<close>.\<close>

fun legalize1DConvolution :: "conv_expr \<Rightarrow> fault + conv_expr option" where
  "legalize1DConvolution (ConvolutionOf c x w b ty) =
     rbind (isSupportedConv c) (\<lambda>supported.
     if \<not> (supported \<and> isNDimensional c 1) then Inr None
     else let l = coLayout c;
              reshapeInput = convReshape x (tyShape (convTypeOf x) @ [1]);
              reshapeWeight = convReshape w (tyShape (convTypeOf w) @ [1]);
              c' = c\<lparr>coStrides := coStrides c @ [1], coPadding := coPadding c @ [0, 0],
                     coInputDilation := coInputDilation c @ [1], coWeightDilation := coWeightDilation c @ [1],
                     coReversal := coReversal c @ [False],
                     coLayout := l\<lparr>clInputSpatial := clInputSpatial l @ [3], clKernelSpatial := clKernelSpatial l @ [3],
                                   clOutputSpatial := clOutputSpatial l @ [3]\<rparr>\<rparr>
          in Inr (Some (convReshape (ConvolutionOf c' reshapeInput reshapeWeight None (ty\<lparr>tyShape := tyShape ty @ [1]\<rparr>)) (tyShape ty))))"
| "legalize1DConvolution e = Inr None"

fun convolutionToConv2d :: "conv_expr \<Rightarrow> fault + conv_expr option" where
  "convolutionToConv2d (ConvolutionOf c x w b ty) =
     rbind (isSupportedConv c) (\<lambda>supported.
     if \<not> (supported \<and> isNDimensional c 2) then Inr None
     else let l = coLayout c
          in rbind (mapE (at (coStrides c)) [0, 1]) (\<lambda>strides.
             rbind (mapE (at (coWeightDilation c)) [0, 1]) (\<lambda>dilation.
             rbind (getPaddingMatrix 2 (coPadding c)) (\<lambda>paddingMatrix.
             let a = \<lparr>caStride = ArrayAttr (map i32 strides),
                      caPadding = ArrayAttr (map i32 (map fst paddingMatrix @ map snd paddingMatrix)),
                      caDilation = ArrayAttr (map i32 dilation), caGroups = i32 (coFeatureGroups c), caFlat = None\<rparr>
             in rbind (mapE (dimAt (tyShape ty)) (clOutputBatch l # clOutputSpatial l @ [clOutputFeature l])) (\<lambda>newOutputShape.
                rbind (generateConvPermutation l [-1, 0, 1, -2]) (\<lambda>permutation.
                rbind (convPermute x permutation) (\<lambda>input.
                rbind (generateConvKernelPermutation l [-2, -1, 0, 1]) (\<lambda>kernelPermutation.
                rbind (convPermute w kernelPermutation) (\<lambda>weight.
                rbind (inversePermutation (map nat permutation)) (\<lambda>inverse.
                let newConv = Conv2dOf a input weight b ((convTypeOf x)\<lparr>tyShape := newOutputShape\<rparr>)
                in Inr (Some (CopyOf (PermuteOp (map int inverse)) newConv ty))))))))))))"
| "convolutionToConv2d e = Inr None"

text \<open>The conversion driver applies the second pattern to the op the first one creates.\<close>

definition decomposeConvolution :: "conv_expr \<Rightarrow> fault + conv_expr option" where
  "decomposeConvolution e =
     rbind (legalize1DConvolution e) (\<lambda>r.
     case r of
       None \<Rightarrow> convolutionToConv2d e
     | Some (CopyOf a e2d ty) \<Rightarrow> rbind (convolutionToConv2d e2d) (\<lambda>r. Inr (map_option (\<lambda>e. CopyOf a e ty) r))
     | Some e' \<Rightarrow> Inr (Some e'))"

section \<open>Places by dimension\<close>

text \<open>What \<open>atDims\<close> puts at a dimension depends on the dimensions and values as pairs only.\<close>

lemma atDims_lookup:
  assumes "is_permutation ds n" and "length v = n"
  shows "atDims ds v = map (\<lambda>d. the (map_of (zip ds v) (int d))) [0..<n]"
proof -
  have "v ! posOf ds d = the (map_of (zip ds v) (int d))" if "d < n" for d
  proof -
    note p = posOf_correct[OF assms(1) that] is_permutation_set[OF assms(1)]
    have "(int d, v ! posOf ds d) \<in> set (zip ds v)"
      using p assms(2) by (auto simp: set_zip intro!: exI[of _ "posOf ds d"])
    with p assms(2) show ?thesis by (simp add: map_of_is_SomeI)
  qed
  then show ?thesis using is_permutation_set[OF assms(1)] by (simp add: atDims_def)
qed

lemma dims_atDims:
  assumes "is_permutation ds (length v)"
  shows "atDims ds (dims v ds) = v"
proof (rule nth_equalityI)
  have l: "length ds = length v" using is_permutation_set[OF assms] by simp
  then show "length (atDims ds (dims v ds)) = length v" by (simp add: atDims_def)
  fix k assume "k < length (atDims ds (dims v ds))"
  then have k: "k < length v" using l by (simp add: atDims_def)
  note p = posOf_correct[OF assms k]
  show "atDims ds (dims v ds) ! k = v ! k" using p k l by (simp add: atDims_def)
qed

lemma atDims_dims:
  assumes "is_permutation ds n" and "length v = n"
  shows "dims (atDims ds v) ds = v"
proof (rule nth_equalityI)
  note p = is_permutation_set[OF assms(1)]
  then show "length (dims (atDims ds v) ds) = length v" using assms(2) by simp
  fix k assume "k < length (dims (atDims ds v) ds)"
  then have k: "k < n" using p by simp
  then have "ds ! k \<in> int ` {0..<n}" using p by (metis nth_mem)
  then obtain d where d: "ds ! k = int d" "d < n" by auto
  note q = posOf_correct[OF assms(1) d(2)]
  have "posOf ds d = k" using q d p k by (metis nth_eq_iff_index_eq)
  then show "dims (atDims ds v) ds ! k = v ! k" using d k p by (simp add: atDims_def)
qed

lemma index_atDims:
  assumes "is_permutation ds (length s)" and "length v = length s"
  shows "index_of s (atDims ds v) \<longleftrightarrow> index_of (dims s ds) v"
proof
  assume "index_of (dims s ds) v"
  then show "index_of s (atDims ds v)" by (rule atDims_in[OF assms(1)])
next
  note p = is_permutation_set[OF assms(1)]
  assume i: "index_of s (atDims ds v)"
  have "index_of (dims s ds) (dims (atDims ds v) ds)"
  proof (rule index_ofI)
    fix k assume "k < length (dims s ds)"
    then have "ds ! k \<in> int ` {0..<length s}" using p by (metis length_map nth_mem)
    then obtain d where "ds ! k = int d" "d < length s" by auto
    with index_of_nth[OF i, of d] \<open>k < length (dims s ds)\<close>
    show "0 \<le> dims (atDims ds v) ds ! k \<and> dims (atDims ds v) ds ! k < dims s ds ! k" by simp
  qed simp
  then show "index_of (dims s ds) v" by (simp only: atDims_dims[OF assms])
qed

section \<open>The permutations of the patterns\<close>

lemma layoutOf_at:
  assumes "is_permutation [b, f, s0, s1] 4"
  shows "\<exists>L. layoutOf b f [s0, s1] = Inr L \<and> length L = 4
    \<and> L ! nat b = -1 \<and> L ! nat f = -2 \<and> L ! nat s0 = 0 \<and> L ! nat s1 = 1"
proof -
  from is_permutation_set[OF assms] have s: "{b, f, s0, s1} = int ` {0..<4}" "distinct [b, f, s0, s1]" by auto
  then have r: "\<forall>d \<in> {b, f, s0, s1}. 0 \<le> d \<and> nat d < 4" by auto
  then have "nat b \<noteq> nat f" "nat b \<noteq> nat s0" "nat b \<noteq> nat s1" "nat f \<noteq> nat s0" "nat f \<noteq> nat s1" "nat s0 \<noteq> nat s1"
    using s(2) by (auto simp: eq_nat_nat_iff)
  with r show ?thesis by (auto simp: layoutOf_def setDim_def upt_rec)
qed

lemma layout_permutation:
  assumes "is_permutation [b, f, s0, s1] 4" and "set order \<subseteq> {-1, -2, 0, 1}" and "length order = 4"
  shows "\<exists>L. layoutOf b f [s0, s1] = Inr L
    \<and> rbind (generatePermutation L order) (\<lambda>p. Inr (map int p)) = Inr (map (\<lambda>v. if v = -1 then b else if v = -2 then f else if v = 0 then s0 else s1) order)"
proof -
  obtain L where L: "layoutOf b f [s0, s1] = Inr L" "length L = 4"
    "L ! nat b = -1" "L ! nat f = -2" "L ! nat s0 = 0" "L ! nat s1 = 1"
    using layoutOf_at[OF assms(1)] by blast
  from is_permutation_set[OF assms(1)] have s: "{b, f, s0, s1} = int ` {0..<4}" by auto
  then have r: "\<forall>d \<in> {b, f, s0, s1}. 0 \<le> d \<and> nat d < 4" by auto
  have i: "i = nat b \<or> i = nat f \<or> i = nat s0 \<or> i = nat s1" if "i < 4" for i
  proof -
    have "int i \<in> {b, f, s0, s1}" unfolding s using that by auto
    then show ?thesis by auto
  qed
  have "distinct L" unfolding distinct_conv_nth
  proof (intro allI impI)
    fix p q assume "p < length L" "q < length L" and ne: "p \<noteq> q"
    then have "p = nat b \<or> p = nat f \<or> p = nat s0 \<or> p = nat s1" "q = nat b \<or> q = nat f \<or> q = nat s0 \<or> q = nat s1"
      using i L(2) by simp_all
    then show "L ! p \<noteq> L ! q" using ne L(3-) by (elim disjE; simp)
  qed
  then have index: "indexMap L v = nat d" if "L ! nat d = v" "d \<in> {b, f, s0, s1}" for v d
    using that r L(2) indexMap_nth[of L "nat d"] by auto
  have "map (int \<circ> indexMap L) order = map (\<lambda>v. if v = -1 then b else if v = -2 then f else if v = 0 then s0 else s1) order"
  proof (intro map_cong refl)
    fix v assume "v \<in> set order"
    then have "v \<in> {-1, -2, 0, 1}" using assms(2) by blast
    then show "(int \<circ> indexMap L) v = (if v = -1 then b else if v = -2 then f else if v = 0 then s0 else s1)"
      using index[OF L(3)] index[OF L(4)] index[OF L(5)] index[OF L(6)] r by (elim insertE emptyE; simp)
  qed
  then show ?thesis using L(1,2) assms(3) by (auto simp: generatePermutation_def assertE_def)
qed

end
