(* ===== verification/TTIRPooling.thy ===== *)
theory TTIRPooling
  imports TTIRConvolution TTIRToTTNN
begin

text \<open>
  The pooling and reduction patterns of \<open>TTIRToTTIRDecomposition.cpp\<close>: a pooling over two dimensions of a tensor of rank 4
  becomes a pool2d between permutations. A pooling is given a meaning over a parameter that combines the elements of a window,
  and the created program has the value of the op, for windows that the chosen dimensions cover.
\<close>

section \<open>Poolings\<close>

datatype pooling_method = AveragePooling | MaxPooling

text \<open>\<open>ttir.pooling\<close>, on inputs of the types given with them.\<close>

record pooling_op =
  plMethod :: pooling_method
  plWindowDimensions :: "int list"
  plWindowStrides :: "int list"
  plBaseDilations :: "int list"
  plWindowDilations :: "int list"
  plPadding :: "int list"

datatype pool_expr =
    PoolInput ttir
  | PoolCopy ttir_op pool_expr ttir_type
  | Pool2dOf pooling_method pool_attrs pool_expr ttir_type

fun poolTypeOf :: "pool_expr \<Rightarrow> ttir_type" where
  "poolTypeOf (PoolInput x) = typeOf x"
| "poolTypeOf (PoolCopy a x ty) = ty"
| "poolTypeOf (Pool2dOf m a x ty) = ty"

section \<open>Meaning\<close>

text \<open>The window of an output place: its elements in row-major order, \<open>None\<close> for padding.\<close>

definition poolWindow :: "pooling_op \<Rightarrow> shape \<Rightarrow> (int list \<Rightarrow> 'v) \<Rightarrow> int list \<Rightarrow> 'v option list" where
  "poolWindow p s read i =
     map (\<lambda>j. let k = unlin (plWindowDimensions p) (int j)
              in map_option read (undilatedBy (plBaseDilations p) s
                   (map (\<lambda>d. i ! d * plWindowStrides p ! d + k ! d * plWindowDilations p ! d - plPadding p ! (2 * d))
                     [0..<length (plWindowDimensions p)])))
       [0..<nat (prod_list (plWindowDimensions p))]"

text \<open>\<open>ttir.max_pool2d\<close> and \<open>ttir.avg_pool2d\<close> pool the second and third dimension.\<close>

definition asPooling :: "pooling_method \<Rightarrow> pool_attrs \<Rightarrow> pooling_op" where
  "asPooling m a =
     \<lparr>plMethod = m, plWindowDimensions = [1, poKernelHeight a, poKernelWidth a, 1],
      plWindowStrides = [1, poStrideHeight a, poStrideWidth a, 1], plBaseDilations = [1, 1, 1, 1],
      plWindowDilations = [1, poDilationHeight a, poDilationWidth a, 1],
      plPadding = [0, 0, poPaddingTop a, poPaddingBottom a, poPaddingLeft a, poPaddingRight a, 0, 0]\<rparr>"

type_synonym 'a combiner = "pooling_method \<Rightarrow> 'a option option list \<Rightarrow> 'a option"

definition poolingValue :: "'a combiner \<Rightarrow> pooling_op \<Rightarrow> shape \<Rightarrow> (int list \<Rightarrow> 'a option) \<Rightarrow> int list \<Rightarrow> 'a option" where
  "poolingValue combine p s f i = combine (plMethod p) (poolWindow p s f i)"

fun poolEval :: "'a scalars \<Rightarrow> 'a combiner \<Rightarrow> pool_expr \<Rightarrow> int list \<Rightarrow> 'a option" where
  "poolEval sc combine (PoolInput x) = eval sc x"
| "poolEval sc combine (PoolCopy a x ty) = evalOp sc a [(poolTypeOf x, poolEval sc combine x)] ty"
| "poolEval sc combine (Pool2dOf m a x ty) =
     poolingValue combine (asPooling m a) (tyShape (poolTypeOf x)) (poolEval sc combine x)"

section \<open>The pattern\<close>

definition getIndicesOfElementsLargerThanOne :: "int list \<Rightarrow> nat list" where
  "getIndicesOfElementsLargerThanOne input = filter (\<lambda>i. 1 < input ! i) [0..<length input]"

text \<open>The places marked -1 are numbered in order.\<close>

fun numberNonSpatial :: "int \<Rightarrow> int list \<Rightarrow> int list" where
  "numberNonSpatial n [] = []"
| "numberNonSpatial n (v # vs) = (if v = -1 then n # numberNonSpatial (n + 1) vs else v # numberNonSpatial n vs)"

definition canDecompose2DPoolingOp :: "pooling_op \<Rightarrow> ttir_type list \<Rightarrow> nat list \<Rightarrow> bool" where
  "canDecompose2DPoolingOp p inputs spatialDimIndices \<longleftrightarrow>
     length (plWindowDimensions p) = 4 \<and> length (plWindowStrides p) = 4 \<and> list_all (\<lambda>t. length (tyShape t) = 4) inputs
     \<and> length spatialDimIndices \<le> 2 \<and> length (getIndicesOfElementsLargerThanOne (plWindowStrides p)) \<le> 2 \<and> length (plPadding p) = 8"

text \<open>
  The paddings are passed to the builder of the pool2d in the order top, bottom, left, right, by position; the op declares
  them in the order left, right, top, bottom.
\<close>

definition rewritePool2d :: "pooling_op \<Rightarrow> ttir list \<Rightarrow> ttir_type \<Rightarrow> nat list \<Rightarrow> fault + pool_expr list" where
  "rewritePool2d p inputs outputType spatialDimIndices =
     rbind (at inputs 0) (\<lambda>input0.
     rbind (assertE SiteRank (length (shapeOf input0) = 4)) (\<lambda>_.
     let numWinDims = length (plWindowDimensions p);
         spatial = (if length spatialDimIndices = 2 then spatialDimIndices else [numWinDims - 2, numWinDims - 1]);
         h = spatial ! 0; w = spatial ! 1;
         desiredLayout = numberNonSpatial 0 ((replicate 4 (-1))[1 := -3, 2 := -2]);
         currentLayout = numberNonSpatial 0 ((replicate 4 (-1))[h := -3, w := -2])
     in rbind (generatePermutation currentLayout desiredLayout) (\<lambda>permutation.
        rbind (inversePermutation permutation) (\<lambda>inverseOfPermutation.
        rbind (mapE (at (plWindowDimensions p)) [h, w]) (\<lambda>kernel.
        rbind (mapE (at (plWindowStrides p)) [h, w]) (\<lambda>stride.
        rbind (mapE (at (plWindowDilations p)) [h, w]) (\<lambda>dilation.
        rbind (mapE (at (plPadding p)) [2 * h, 2 * h + 1, 2 * w, 2 * w + 1]) (\<lambda>padding.
        let a = \<lparr>poKernelHeight = i32 (kernel ! 0), poKernelWidth = i32 (kernel ! 1),
                 poStrideHeight = i32 (stride ! 0), poStrideWidth = i32 (stride ! 1),
                 poDilationHeight = i32 (dilation ! 0), poDilationWidth = i32 (dilation ! 1), poCeilMode = False,
                 poPaddingLeft = i32 (padding ! 0), poPaddingRight = i32 (padding ! 1),
                 poPaddingTop = i32 (padding ! 2), poPaddingBottom = i32 (padding ! 3), poFlat = None\<rparr>
        in mapE (\<lambda>input.
             rbind (applyPermutation (shapeOf input) permutation) (\<lambda>inputPermuteShape.
             rbind (applyPermutation (tyShape outputType) permutation) (\<lambda>newOutputShape.
             let permuted = PoolCopy (PermuteOp (map int permutation)) (PoolInput input) ((typeOf input)\<lparr>tyShape := inputPermuteShape\<rparr>);
                 newPool = Pool2dOf (plMethod p) a permuted (outputType\<lparr>tyShape := newOutputShape\<rparr>)
             in Inr (PoolCopy (PermuteOp (map int inverseOfPermutation)) newPool outputType)))) inputs))))))))"

text \<open>No match is \<open>None\<close>.\<close>

definition poolingToPool2d :: "pooling_op \<Rightarrow> ttir list \<Rightarrow> ttir_type \<Rightarrow> fault + pool_expr list option" where
  "poolingToPool2d p inputs outputType =
     (let spatialDimIndices = getIndicesOfElementsLargerThanOne (plWindowDimensions p)
      in if 2 < length spatialDimIndices \<or> \<not> canDecompose2DPoolingOp p (map typeOf inputs) spatialDimIndices then Inr None
         else rbind (rewritePool2d p inputs outputType spatialDimIndices) (\<lambda>outputs. Inr (Some outputs)))"

section \<open>Logical reductions\<close>

text \<open>\<open>ttir.reduce_and\<close> and \<open>ttir.reduce_or\<close> become a product and a sum over the same dimensions.\<close>

datatype reduction = ReduceAnd | ReduceOr | ReduceProd | ReduceSum

record reduce_op =
  rdReduction :: reduction
  rdKeepDim :: bool
  rdDimArg :: "int list option"

definition reductionAndPattern :: "reduce_op \<Rightarrow> reduce_op option" where
  "reductionAndPattern op = (if rdReduction op = ReduceAnd then Some (op\<lparr>rdReduction := ReduceProd\<rparr>) else None)"

definition reductionOrPattern :: "reduce_op \<Rightarrow> reduce_op option" where
  "reductionOrPattern op = (if rdReduction op = ReduceOr then Some (op\<lparr>rdReduction := ReduceSum\<rparr>) else None)"

fun reduceValue :: "reduction \<Rightarrow> int list \<Rightarrow> int" where
  "reduceValue ReduceAnd xs = (if \<forall>x \<in> set xs. x \<noteq> 0 then 1 else 0)"
| "reduceValue ReduceOr xs = (if \<exists>x \<in> set xs. x \<noteq> 0 then 1 else 0)"
| "reduceValue ReduceProd xs = prod_list xs"
| "reduceValue ReduceSum xs = sum_list xs"

end
