(* ===== verification/TTIRConvolutionFacts.thy ===== *)
theory TTIRConvolutionFacts
  imports TTIRConvolution TTIRSafe
begin

text \<open>
  The convolution patterns keep the value of the convolution, product by product, if its input is not dilated and its output has
  the layout of its input; and what they do otherwise.
\<close>

section \<open>Permuted operands\<close>

lemma permutation_range: "is_permutation p n \<Longrightarrow> d \<in> set p \<Longrightarrow> 0 \<le> d \<and> nat d < n"
  using is_permutation_set[of p n] by auto

lemma index_dims:
  assumes "is_permutation ds (length s)" and "index_of s i"
  shows "index_of (dims s ds) (dims i ds)"
  using index_atDims[OF assms(1), of "dims i ds"] dims_atDims[of ds i] assms index_of_length[OF assms(2)]
    is_permutation_set[OF assms(1)] by simp

lemma convPermute_eq:
  assumes "is_permutation p (length (tyShape (convTypeOf x)))"
  shows "convPermute x p = Inr (CopyOf (PermuteOp p) x ((convTypeOf x)\<lparr>tyShape := dims (tyShape (convTypeOf x)) p\<rparr>))"
  using permutation_apply[OF assms] by (simp add: convPermute_def del: map_map)

lemma permuted_read:
  assumes "is_permutation p (length s)" and "s = tyShape (convTypeOf x)" and "length j = length s" and "tyShape ty = dims s p"
  shows "readIn (dims s p) (convEval sc (CopyOf (PermuteOp p) x ty)) j = readIn s (convEval sc x) (atDims p j)"
proof -
  have "map (\<lambda>d. j ! posOf p d) [0..<length s] = atDims p j"
    using is_permutation_set[OF assms(1)] by (simp add: atDims_def)
  then show ?thesis using index_atDims[OF assms(1,3)] assms(2,4) by (auto simp: readIn_def readAt_def)
qed

text \<open>The same places, listed in another order.\<close>

lemma atDims_reorder:
  assumes "is_permutation [a, b, c, d] 4"
  shows "atDims [a, c, d, b] [va, vc, vd, vb] = atDims [a, b, c, d] [va, vb, vc, vd]" and "is_permutation [a, c, d, b] 4"
proof -
  note s = is_permutation_set[OF assms]
  then show p: "is_permutation [a, c, d, b] 4" by (intro permutationI) auto
  show "atDims [a, c, d, b] [va, vc, vd, vb] = atDims [a, b, c, d] [va, vb, vc, vd]"
    unfolding atDims_lookup[OF p, of "[va, vc, vd, vb]", simplified] atDims_lookup[OF assms, of "[va, vb, vc, vd]", simplified]
    using s by (intro map_cong refl) auto
qed

lemma inverse_places:
  assumes "is_permutation p n"
  shows "\<exists>inv. inversePermutation (map nat p) = Inr inv \<and> length inv = n
    \<and> (\<forall>i. length i = n \<longrightarrow> map (\<lambda>d. i ! posOf (map int inv) d) [0..<n] = dims i p)"
proof -
  note s = is_permutation_set[OF assms]
  have d: "distinct (map nat p)" using s by (auto simp: distinct_map inj_on_def)
  have "set (map nat p) = {..<length (map nat p)}" using s by (force simp: image_iff)
  from inversePermutation_correct[OF d this] obtain inv where inv: "inversePermutation (map nat p) = Inr inv" "length inv = length p"
    "\<forall>i < length p. inv ! (map nat p ! i) = i" by auto
  have pn: "nat (p ! k) < n" "0 \<le> p ! k" if "k < n" for k
  proof -
    have "p ! k \<in> int ` {0..<n}" using s that by (metis nth_mem)
    then show "nat (p ! k) < n" "0 \<le> p ! k" by auto
  qed
  have perm: "is_permutation (map int inv) n"
  proof (rule permutationI)
    have "\<forall>k < n. \<exists>j < n. inv ! j = k" using inv(3) s pn by (metis length_map nth_map)
    then have "{0..<n} \<subseteq> set inv" using inv(2) s by (auto simp: in_set_conv_nth)
    moreover from this have c: "card {0..<n} \<le> card (set inv)" by (intro card_mono) auto
    ultimately have "distinct inv" using inv(2) s card_length[of inv] by (intro card_distinct) simp
    moreover have "set inv = {0..<n}"
      using \<open>{0..<n} \<subseteq> set inv\<close> distinct_card[OF \<open>distinct inv\<close>] inv(2) s by (intro card_subset_eq[symmetric]) auto
    ultimately show "distinct (map int inv)" "set (map int inv) = int ` {0..<n}" by (simp_all add: distinct_map)
  qed
  have "posOf (map int inv) d = nat (p ! d)" if "d < n" for d
  proof -
    note q = posOf_correct[OF perm that]
    have "map int inv ! nat (p ! d) = int d" using inv s pn[OF that] that by simp
    with q show ?thesis using is_permutation_set[OF perm] pn(1)[OF that] by (metis nth_eq_iff_index_eq)
  qed
  then have "map (\<lambda>d. i ! posOf (map int inv) d) [0..<n] = dims i p" if "length i = n" for i
    using s by (intro nth_equalityI) auto
  with inv s show ?thesis by auto
qed

section \<open>Two spatial dimensions\<close>

text \<open>The convolutions the patterns are right for: a batch, a feature and the spatial dimensions, the output laid out as
  the input, no dilation of the input, no reversal, no batch groups, attributes of 32 bits.\<close>

definition fits32 :: "int \<Rightarrow> bool" where
  "fits32 v \<longleftrightarrow> - (2 ^ 31) \<le> v \<and> v < 2 ^ 31"

lemma fits32_i32: "fits32 v \<Longrightarrow> i32 v = v"
  by (simp add: fits32_def i32_small)

definition decomposable :: "convolution_op \<Rightarrow> nat \<Rightarrow> shape \<Rightarrow> shape \<Rightarrow> shape \<Rightarrow> bool" where
  "decomposable c n x w out \<longleftrightarrow>
     (let l = coLayout c
      in length x = n + 2 \<and> length w = n + 2 \<and> length out = n + 2
         \<and> is_permutation (clInputBatch l # clInputFeature l # clInputSpatial l) (n + 2)
         \<and> is_permutation (clKernelOutputFeature l # clKernelInputFeature l # clKernelSpatial l) (n + 2)
         \<and> clOutputBatch l = clInputBatch l \<and> clOutputFeature l = clInputFeature l \<and> clOutputSpatial l = clInputSpatial l
         \<and> length (coStrides c) = n \<and> length (coWeightDilation c) = n \<and> length (coPadding c) = 2 * n
         \<and> coInputDilation c = replicate n 1 \<and> coReversal c = replicate n False \<and> coBatchGroups c = 1
         \<and> list_all fits32 (coStrides c @ coWeightDilation c @ coPadding c @ [coFeatureGroups c]))"

text \<open>The convolution the created conv2d stands for.\<close>

definition asConv2d :: "convolution_op \<Rightarrow> convolution_op" where
  "asConv2d c = c\<lparr>coLayout := conv2dLayout\<rparr>"

lemma undilated_length: "undilated c s q = Some r \<Longrightarrow> length r = length q"
  by (auto simp: undilated_def undilatedBy_def split: if_splits)

lemma convolution_permuted:
  assumes "decomposable c 2 x w out" and "clInputSpatial (coLayout c) = [s0, s1]" and "clKernelSpatial (coLayout c) = [k0, k1]"
    and "\<And>j. length j = 4 \<Longrightarrow> readX' j = readX (atDims [clInputBatch (coLayout c), s0, s1, clInputFeature (coLayout c)] j)"
    and "\<And>j. length j = 4 \<Longrightarrow> readW' j = readW (atDims [clKernelOutputFeature (coLayout c), clKernelInputFeature (coLayout c), k0, k1] j)"
  shows "convolutionAt sc (asConv2d c) (dims x [clInputBatch (coLayout c), s0, s1, clInputFeature (coLayout c)])
      (dims w [clKernelOutputFeature (coLayout c), clKernelInputFeature (coLayout c), k0, k1]) readX' readW' n o' p
    = convolutionAt sc c x w readX readW n o' p"
proof -
  define l where "l = coLayout c"
  have perms: "is_permutation [clInputBatch l, clInputFeature l, s0, s1] 4"
    using assms(1) by (simp add: decomposable_def Let_def assms(2) l_def)
  have r: "coReversal c = [False, False]" using assms(1) by (simp add: decomposable_def Let_def numeral_2_eq_2)
  have base: "is_permutation [0, 3, 1, 2] 4" "is_permutation [0, 1, 2, 3] 4" by (simp_all add: is_permutation_def upt_rec)
  have X: "readX' (atDims [0, 3, 1, 2] (a # f # q)) = readX (atDims [clInputBatch l, clInputFeature l, s0, s1] (a # f # q))"
    if len: "length q = 2" for a f q
  proof -
    obtain q0 q1 where q: "q = [q0, q1]" using len by (auto simp: numeral_2_eq_2 length_Suc_conv)
    have "atDims [0, 3, 1, 2] [a, f, q0, q1] = [a, q0, q1, f]"
      by (simp add: atDims_def posOf_def upt_rec)
    then show ?thesis using assms(4)[of "[a, q0, q1, f]"] atDims_reorder(1)[OF perms] by (simp add: q l_def)
  qed
  have W: "readW' (atDims [0, 1, 2, 3] (a # f # q)) = readW (atDims [clKernelOutputFeature l, clKernelInputFeature l, k0, k1] (a # f # q))"
    if len: "length q = 2" for a f q
  proof -
    obtain q0 q1 where q: "q = [q0, q1]" using len by (auto simp: numeral_2_eq_2 length_Suc_conv)
    have "atDims [0, 1, 2, 3] [a, f, q0, q1] = [a, f, q0, q1]"
      by (simp add: atDims_def posOf_def upt_rec)
    then show ?thesis using assms(5)[of "[a, f, q0, q1]"] by (simp add: q l_def)
  qed
  have same: "windowPlace (asConv2d c) = windowPlace c" "undilated (asConv2d c) = undilated c" "kernelPlace (asConv2d c) = kernelPlace c"
    by (simp_all add: fun_eq_iff windowPlace_def undilated_def undilatedBy_def kernelPlace_def asConv2d_def)
  have len: "length (windowPlace c [a, b] p k) = 2" "length (kernelPlace c [a, b] k) = 2" for a b p k
    by (simp_all add: windowPlace_def kernelPlace_def)
  have term_x: "(case undilated c s (windowPlace c [a, b] p k) of None \<Rightarrow> Some (scInt sc 0) | Some q \<Rightarrow> readX' (atDims [0, 3, 1, 2] (n # f # q)))
      = (case undilated c s (windowPlace c [a, b] p k) of None \<Rightarrow> Some (scInt sc 0)
         | Some q \<Rightarrow> readX (atDims [clInputBatch l, clInputFeature l, s0, s1] (n # f # q)))" for s a b k n f
    using undilated_length[of c s "windowPlace c [a, b] p k"] len(1) by (auto simp: X split: option.split)
  have term_w: "readW' (atDims [0, 1, 2, 3] (o' # f # kernelPlace c [a, b] k))
      = readW (atDims [clKernelOutputFeature l, clKernelInputFeature l, k0, k1] (o' # f # kernelPlace c [a, b] k))" for f a b k
    by (rule W[OF len(2)])
  have d: "dims (dims x [clInputBatch l, s0, s1, clInputFeature l]) [1, 2] = dims x [s0, s1]"
    "dims (dims w [clKernelOutputFeature l, clKernelInputFeature l, k0, k1]) [2, 3] = dims w [k0, k1]"
    "dims x [clInputBatch l, s0, s1, clInputFeature l] ! nat 0 = x ! nat (clInputBatch l)"
    "dims w [clKernelOutputFeature l, clKernelInputFeature l, k0, k1] ! nat 0 = w ! nat (clKernelOutputFeature l)"
    "dims w [clKernelOutputFeature l, clKernelInputFeature l, k0, k1] ! nat 1 = w ! nat (clKernelInputFeature l)"
    by simp_all
  have fields: "coLayout (asConv2d c) = conv2dLayout" "coFeatureGroups (asConv2d c) = coFeatureGroups c"
    "coBatchGroups (asConv2d c) = coBatchGroups c" by (simp_all add: asConv2d_def)
  have layout: "clInputBatch conv2dLayout = 0" "clInputFeature conv2dLayout = 3" "clInputSpatial conv2dLayout = [1, 2]"
    "clKernelOutputFeature conv2dLayout = 0" "clKernelInputFeature conv2dLayout = 1" "clKernelSpatial conv2dLayout = [2, 3]"
    by (simp_all add: conv2dLayout_def)
  show ?thesis
    unfolding convolutionAt_def Let_def l_def[symmetric] fields layout same d assms(2,3)[folded l_def]
    by (simp only: list.map term_x term_w)
qed

lemma replicate_2: "replicate 2 v = [v, v]"
  by (simp add: numeral_2_eq_2)

lemma conv2dOp_created:
  assumes "decomposable c 2 x w out"
  shows "conv2dOp \<lparr>caStride = ArrayAttr (map i32 [coStrides c ! 0, coStrides c ! 1]),
           caPadding = ArrayAttr (map i32 [coPadding c ! 0, coPadding c ! 2, coPadding c ! 1, coPadding c ! 3]),
           caDilation = ArrayAttr (map i32 [coWeightDilation c ! 0, coWeightDilation c ! 1]), caGroups = i32 (coFeatureGroups c), caFlat = None\<rparr>
         = Inr (asConv2d c)"
proof -
  obtain a0 a1 where a: "coStrides c = [a0, a1]"
    using assms by (auto simp: decomposable_def Let_def numeral_2_eq_2 length_Suc_conv)
  obtain d0 d1 where d: "coWeightDilation c = [d0, d1]"
    using assms by (auto simp: decomposable_def Let_def numeral_2_eq_2 length_Suc_conv)
  have "length (coPadding c) = 4" using assms by (simp add: decomposable_def Let_def)
  then obtain p0 p1 p2 p3 where p: "coPadding c = [p0, p1, p2, p3]" by (auto simp: eval_nat_numeral length_Suc_conv)
  have f: "fits32 a0" "fits32 a1" "fits32 d0" "fits32 d1" "fits32 p0" "fits32 p1" "fits32 p2" "fits32 p3" "fits32 (coFeatureGroups c)"
    and r: "coInputDilation c = [1, 1]" "coReversal c = [False, False]" "coBatchGroups c = 1"
    using assms by (simp_all add: decomposable_def Let_def a d p numeral_2_eq_2)
  show ?thesis
    by (cases c) (use a d p r f in \<open>simp add: conv2dOp_def asConv2d_def fits32_i32\<close>)
qed

lemma convolution_to_conv2d_sound:
  assumes "decomposable c 2 (tyShape (convTypeOf x)) (tyShape (convTypeOf w)) (tyShape ty)"
  shows "\<exists>e. convolutionToConv2d (ConvolutionOf c x w b ty) = Inr (Some e) \<and> convTypeOf e = ty
    \<and> (\<forall>i. index_of (tyShape ty) i \<longrightarrow> convEval sc e i = convEval sc (ConvolutionOf c x w b ty) i)"
proof -
  let ?x = "tyShape (convTypeOf x)" and ?w = "tyShape (convTypeOf w)"
  define l where "l = coLayout c"
  have lens: "length ?x = 4" "length ?w = 4" "length (tyShape ty) = 4" "length (coStrides c) = 2" "length (coWeightDilation c) = 2"
    "length (coPadding c) = 4"
    and pi: "is_permutation (clInputBatch l # clInputFeature l # clInputSpatial l) 4"
    and pk: "is_permutation (clKernelOutputFeature l # clKernelInputFeature l # clKernelSpatial l) 4"
    and out: "clOutputBatch l = clInputBatch l" "clOutputFeature l = clInputFeature l" "clOutputSpatial l = clInputSpatial l"
    and attrs: "coReversal c = [False, False]" "coBatchGroups c = 1"
    using assms by (simp_all add: decomposable_def Let_def l_def replicate_2)
  obtain s0 s1 where s: "clInputSpatial l = [s0, s1]"
    using is_permutation_set[OF pi] by (auto simp: eval_nat_numeral length_Suc_conv)
  obtain k0 k1 where k: "clKernelSpatial l = [k0, k1]"
    using is_permutation_set[OF pk] by (auto simp: eval_nat_numeral length_Suc_conv)
  define P where "P = [clInputBatch l, s0, s1, clInputFeature l]"
  define K where "K = [clKernelOutputFeature l, clKernelInputFeature l, k0, k1]"
  have P: "is_permutation P 4" unfolding P_def by (rule atDims_reorder(2)[OF pi[unfolded s]])
  have lP: "length P = 4" by (simp add: P_def)
  have K: "is_permutation K 4" using pk by (simp add: K_def k)
  have ki: "is_permutation [clKernelInputFeature l, clKernelOutputFeature l, k0, k1] 4"
    using is_permutation_set[OF K] unfolding K_def by (intro permutationI) auto
  have gP: "generateConvPermutation l [-1, 0, 1, -2] = Inr P"
    using layout_permutation[OF pi[unfolded s], of "[-1, 0, 1, -2]"] by (auto simp: generateConvPermutation_def s P_def)
  have gK: "generateConvKernelPermutation l [-2, -1, 0, 1] = Inr K"
    using layout_permutation[OF ki, of "[-2, -1, 0, 1]"] by (auto simp: generateConvKernelPermutation_def k K_def)
  from inverse_places[OF P] obtain inv where inv: "inversePermutation (map nat P) = Inr inv"
    "\<And>i. length i = 4 \<Longrightarrow> map (\<lambda>d. i ! posOf (map int inv) d) [0..<4] = dims i P" by blast
  define a where "a = \<lparr>caStride = ArrayAttr (map i32 [coStrides c ! 0, coStrides c ! 1]),
           caPadding = ArrayAttr (map i32 [coPadding c ! 0, coPadding c ! 2, coPadding c ! 1, coPadding c ! 3]),
           caDilation = ArrayAttr (map i32 [coWeightDilation c ! 0, coWeightDilation c ! 1]), caGroups = i32 (coFeatureGroups c), caFlat = None\<rparr>"
  note conv = conv2dOp_created[OF assms, folded a_def]
  define x' where "x' = CopyOf (PermuteOp P) x ((convTypeOf x)\<lparr>tyShape := dims ?x P\<rparr>)"
  define w' where "w' = CopyOf (PermuteOp K) w ((convTypeOf w)\<lparr>tyShape := dims ?w K\<rparr>)"
  define newTy where "newTy = (convTypeOf x)\<lparr>tyShape := dims (tyShape ty) P\<rparr>"
  have range: "\<forall>d \<in> set P. 0 \<le> d \<and> d < int (length (tyShape ty))" using is_permutation_set[OF P] lens by auto
  have "convolutionToConv2d (ConvolutionOf c x w b ty) = Inr (Some (CopyOf (PermuteOp (map int inv)) (Conv2dOf a x' w' b newTy) ty))"
  proof -
    have "isSupportedConv c = Inr True" using attrs out by (simp add: isSupportedConv_def Let_def l_def[symmetric] assertE_def s k)
    moreover have "isNDimensional c 2" using s by (simp add: isNDimensional_def l_def)
    moreover have "mapE (at (coStrides c)) [0, 1] = Inr [coStrides c ! 0, coStrides c ! 1]"
      "mapE (at (coWeightDilation c)) [0, 1] = Inr [coWeightDilation c ! 0, coWeightDilation c ! 1]" using lens by simp_all
    moreover have "getPaddingMatrix 2 (coPadding c) = Inr [(coPadding c ! 0, coPadding c ! 1), (coPadding c ! 2, coPadding c ! 3)]"
      using lens by (simp add: getPaddingMatrix_def assertE_def upt_rec numeral_3_eq_3)
    moreover have "mapE (dimAt (tyShape ty)) (clOutputBatch l # clOutputSpatial l @ [clOutputFeature l]) = Inr (dims (tyShape ty) P)"
      using dims_at[OF range] out s by (simp add: P_def)
    moreover have "convPermute x P = Inr x'" "convPermute w K = Inr w'"
      using convPermute_eq[of P x] convPermute_eq[of K w] P K lens by (simp_all add: x'_def w'_def)
    ultimately show ?thesis
      unfolding convolutionToConv2d.simps Let_def l_def[symmetric] by (simp add: gP gK inv(1) newTy_def a_def)
  qed
  moreover have "convEval sc (CopyOf (PermuteOp (map int inv)) (Conv2dOf a x' w' b newTy) ty) i = convEval sc (ConvolutionOf c x w b ty) i"
    if i: "index_of (tyShape ty) i" for i
  proof -
    have li: "length i = 4" using index_of_length[OF i] lens by simp
    have "convEval sc (CopyOf (PermuteOp (map int inv)) (Conv2dOf a x' w' b newTy) ty) i = convEval sc (Conv2dOf a x' w' b newTy) (dims i P)"
      using inv(2)[OF li] index_dims[OF _ i, of P] P lens lP by (simp add: newTy_def readAt_def del: convEval.simps(4))
    also have "\<dots> = convEval sc (ConvolutionOf c x w b ty) i"
      using convolution_permuted[OF assms s[unfolded l_def] k[unfolded l_def], of "readIn (dims ?x P) (convEval sc x')" "readIn ?x (convEval sc x)"
          "readIn (dims ?w K) (convEval sc w')" "readIn ?w (convEval sc w)" sc "i ! nat (clInputBatch l)" "i ! nat (clInputFeature l)" "dims i [s0, s1]"]
        permuted_read[of P ?x x _ _ sc] permuted_read[of K ?w w _ _ sc] P K lens
      by (simp add: conv convolutionValue_def Let_def l_def[symmetric] asConv2d_def[of c] conv2dLayout_def out s x'_def w'_def P_def K_def)
    finally show ?thesis .
  qed
  ultimately show ?thesis by auto
qed

section \<open>One spatial dimension\<close>

lemma permutation_snoc:
  assumes "is_permutation [a, b, c] 3"
  shows "is_permutation [a, b, c, 3] 4" and "atDims [a, b, c, 3] [va, vb, vc, vd] = atDims [a, b, c] [va, vb, vc] @ [vd]"
proof -
  note s = is_permutation_set[OF assms]
  have e: "{0..<4} = insert 3 {0..<(3::nat)}" by auto
  have n3: "3 \<notin> {a, b, c}" using s by auto
  then show p: "is_permutation [a, b, c, 3] 4" using s by (intro permutationI) (auto simp: e)
  have l4: "length (atDims [a, b, c] [va, vb, vc] @ [vd]) = 4" by (simp add: atDims_def)
  have "the (map_of (zip [a, b, c, 3] [va, vb, vc, vd]) (int d)) = (atDims [a, b, c] [va, vb, vc] @ [vd]) ! d" if "d < 4" for d
  proof (cases "d < 3")
    case True
    then have "int d \<in> {a, b, c}" using s by auto
    with True show ?thesis
      unfolding atDims_lookup[OF assms, of "[va, vb, vc]", simplified] by (auto simp: nth_append)
  next
    case False
    then have "d = 3" using that by simp
    moreover have "length (atDims [a, b, c] [va, vb, vc]) = 3" by (simp add: atDims_def)
    ultimately show ?thesis using n3 by (auto simp: nth_append)
  qed
  then have "map (\<lambda>d. the (map_of (zip [a, b, c, 3] [va, vb, vc, vd]) (int d))) [0..<4]
      = map (\<lambda>d. (atDims [a, b, c] [va, vb, vc] @ [vd]) ! d) [0..<4]" by (intro map_cong refl) simp
  also have "\<dots> = atDims [a, b, c] [va, vb, vc] @ [vd]" by (subst l4[symmetric]) (rule map_nth)
  finally show "atDims [a, b, c, 3] [va, vb, vc, vd] = atDims [a, b, c] [va, vb, vc] @ [vd]"
    using atDims_lookup[OF p, of "[va, vb, vc, vd]"] by simp
qed

lemma index_snoc_one: "index_of (s @ [1]) (j @ [0]) \<longleftrightarrow> index_of s j"
  by (auto simp: index_of_iff nth_append less_Suc_eq)

lemma reshaped_read:
  assumes "s = tyShape (convTypeOf x)"
  shows "readIn (s @ [1]) (convEval sc (convReshape x (s @ [1]))) (j @ [0]) = readIn s (convEval sc x) j"
proof (cases "index_of s j")
  case True
  have "unlin s (lin (s @ [1]) (j @ [0])) = j"
    using unlin_lin[OF index_positive[OF True] True] index_of_length[OF True] by (simp add: lin_append)
  with True show ?thesis using assms by (simp add: readIn_def index_snoc_one convReshape_def readAt_def)
next
  case False
  then show ?thesis by (simp add: readIn_def index_snoc_one)
qed

definition with2Dims :: "convolution_op \<Rightarrow> convolution_op" where
  "with2Dims c = (let l = coLayout c in
     c\<lparr>coStrides := coStrides c @ [1], coPadding := coPadding c @ [0, 0],
       coInputDilation := coInputDilation c @ [1], coWeightDilation := coWeightDilation c @ [1],
       coReversal := coReversal c @ [False],
       coLayout := l\<lparr>clInputSpatial := clInputSpatial l @ [3], clKernelSpatial := clKernelSpatial l @ [3],
                     clOutputSpatial := clOutputSpatial l @ [3]\<rparr>\<rparr>)"

lemma length_1: "length xs = 1 \<longleftrightarrow> (\<exists>x. xs = [x])"
  by (auto simp: length_Suc_conv)

lemma with2Dims_decomposable:
  assumes "decomposable c 1 x w out"
  shows "decomposable (with2Dims c) 2 (x @ [1]) (w @ [1]) (out @ [1])"
proof -
  define l where "l = coLayout c"
  have pi: "is_permutation (clInputBatch l # clInputFeature l # clInputSpatial l) 3"
    and pk: "is_permutation (clKernelOutputFeature l # clKernelInputFeature l # clKernelSpatial l) 3"
    using assms by (simp_all add: decomposable_def Let_def l_def numeral_3_eq_3)
  obtain s0 where s: "clInputSpatial l = [s0]"
    using is_permutation_set[OF pi] by (auto simp: eval_nat_numeral length_Suc_conv)
  obtain k0 where k: "clKernelSpatial l = [k0]"
    using is_permutation_set[OF pk] by (auto simp: eval_nat_numeral length_Suc_conv)
  have "is_permutation (clInputBatch l # clInputFeature l # clInputSpatial l @ [3]) 4"
    "is_permutation (clKernelOutputFeature l # clKernelInputFeature l # clKernelSpatial l @ [3]) 4"
    using permutation_snoc(1)[OF pi[unfolded s]] permutation_snoc(1)[OF pk[unfolded k]] by (simp_all add: s k)
  then show ?thesis
    using assms by (simp add: decomposable_def with2Dims_def Let_def l_def replicate_2 fits32_def numeral_3_eq_3[symmetric])
qed

lemma convolution_2dims:
  assumes "decomposable c 1 x w out" and "clInputSpatial (coLayout c) = [s0]" and "clKernelSpatial (coLayout c) = [k0]"
    and "\<And>j. readX' (j @ [0]) = readX j" and "\<And>j. readW' (j @ [0]) = readW j"
  shows "convolutionAt sc (with2Dims c) (x @ [1]) (w @ [1]) readX' readW' n o' [p, 0] = convolutionAt sc c x w readX readW n o' [p]"
proof -
  define l where "l = coLayout c"
  have lens: "length x = 3" "length w = 3" "length (coPadding c) = 2"
    and pi: "is_permutation [clInputBatch l, clInputFeature l, s0] 3"
    and pk: "is_permutation [clKernelOutputFeature l, clKernelInputFeature l, k0] 3"
    and attrs: "coInputDilation c = [1]" "coReversal c = [False]"
    and one: "length (coStrides c) = 1" "length (coWeightDilation c) = 1"
    using assms(1-3) by (simp_all add: decomposable_def Let_def l_def numeral_3_eq_3)
  obtain st where st: "coStrides c = [st]" using one(1) unfolding length_1 by auto
  obtain wd where wd: "coWeightDilation c = [wd]" using one(2) unfolding length_1 by auto
  obtain pl ph where pad: "coPadding c = [pl, ph]" using lens(3) by (auto simp: numeral_2_eq_2 length_Suc_conv)
  have r: "\<forall>d \<in> {clInputBatch l, clInputFeature l, s0, clKernelOutputFeature l, clKernelInputFeature l, k0}. nat d < 3"
    using permutation_range[OF pi] permutation_range[OF pk] by auto
  have f: "coLayout (with2Dims c) = l\<lparr>clInputSpatial := [s0, 3], clKernelSpatial := [k0, 3], clOutputSpatial := clOutputSpatial l @ [3]\<rparr>"
    "coFeatureGroups (with2Dims c) = coFeatureGroups c" "coBatchGroups (with2Dims c) = coBatchGroups c"
    by (simp_all add: with2Dims_def Let_def assms(2,3) l_def)
  have layout: "clInputSpatial (coLayout (with2Dims c)) = [s0, 3]" "clKernelSpatial (coLayout (with2Dims c)) = [k0, 3]"
    "clInputBatch (coLayout (with2Dims c)) = clInputBatch l" "clInputFeature (coLayout (with2Dims c)) = clInputFeature l"
    "clKernelOutputFeature (coLayout (with2Dims c)) = clKernelOutputFeature l"
    "clKernelInputFeature (coLayout (with2Dims c)) = clKernelInputFeature l" by (simp_all add: f)
  have sizes: "(x @ [1]) ! nat s0 = x ! nat s0" "(x @ [1]) ! nat 3 = 1" "(w @ [1]) ! nat k0 = w ! nat k0" "(w @ [1]) ! nat 3 = 1"
    "(x @ [1]) ! nat (clInputBatch l) = x ! nat (clInputBatch l)"
    "(w @ [1]) ! nat (clKernelOutputFeature l) = w ! nat (clKernelOutputFeature l)"
    "(w @ [1]) ! nat (clKernelInputFeature l) = w ! nat (clKernelInputFeature l)"
    using r lens by (simp_all add: nth_append)
  have prods: "prod_list [a, 1 :: int] = prod_list [a]" "unlin [a, 1] j = [j, 0]" "unlin [a] j = [j]" for a j :: int by simp_all
  have place: "windowPlace (with2Dims c) [a, 1] [p, 0] [j, 0] = [p * st + j * wd - pl, 0]" "windowPlace c [a] [p] [j] = [p * st + j * wd - pl]"
    "kernelPlace (with2Dims c) [a, 1] [j, 0] = [j, 0]" "kernelPlace c [a] [j] = [j]" for a j
    by (simp_all add: windowPlace_def kernelPlace_def with2Dims_def Let_def st wd pad attrs upt_rec nth_append)
  have und: "undilated (with2Dims c) [a, 1] [q, 0] = map_option (\<lambda>q. q @ [0]) (undilated c [a] [q])" for a q
    by (auto simp: undilated_def undilatedBy_def with2Dims_def Let_def attrs upt_rec less_Suc_eq nth_append)
  have one': "undilated c [a] [q] = Some z \<Longrightarrow> z = [q]" for a q z
    by (auto simp: undilated_def undilatedBy_def attrs split: if_splits)
  have X: "(case map_option (\<lambda>q. q @ [0]) (undilated c [a] [q]) of None \<Rightarrow> Some (scInt sc 0) | Some q \<Rightarrow> readX' (atDims [clInputBatch l, clInputFeature l, s0, 3] (n # g # q)))
      = (case undilated c [a] [q] of None \<Rightarrow> Some (scInt sc 0) | Some q \<Rightarrow> readX (atDims [clInputBatch l, clInputFeature l, s0] (n # g # q)))" for a q n g
    using one'[of a q] by (auto simp: permutation_snoc(2)[OF pi] assms(4) split: option.split)
  have W: "readW' (atDims [clKernelOutputFeature l, clKernelInputFeature l, k0, 3] (o' # g # [j, 0]))
      = readW (atDims [clKernelOutputFeature l, clKernelInputFeature l, k0] (o' # g # [j]))" for j g
    by (simp add: permutation_snoc(2)[OF pk] assms(5))
  show ?thesis
    unfolding convolutionAt_def Let_def layout f(2,3) l_def[symmetric] assms(2,3)[folded l_def]
    by (simp only: sizes list.map prods place und X W)
qed

text \<open>The result of a conversion of the inner op is enough where a reshape reads it.\<close>

lemma reshaped_result:
  assumes "index_of out i" and "tyShape (convTypeOf e) = out @ [1]"
  shows "convEval sc (convReshape e out) i = convEval sc e (i @ [0])"
proof -
  have "unlin (out @ [1]) (lin out i) = i @ [0]"
  proof -
    have p: "positive_shape (out @ [1])" using index_positive[OF assms(1)] by (simp add: positive_shape_def)
    have "index_of (out @ [1]) (i @ [0])" using assms(1) by (simp only: index_snoc_one)
    from unlin_lin[OF p this] show ?thesis using index_of_length[OF assms(1)] by (simp add: lin_append)
  qed
  then show ?thesis using assms index_snoc_one[of out i] by (simp add: convReshape_def readAt_def)
qed

lemma legalize_sound:
  assumes "decomposable c 1 (tyShape (convTypeOf x)) (tyShape (convTypeOf w)) (tyShape ty)"
  shows "\<exists>e. legalize1DConvolution (ConvolutionOf c x w None ty) = Inr (Some (convReshape e (tyShape ty)))
    \<and> (\<exists>x' w'. e = ConvolutionOf (with2Dims c) x' w' None (ty\<lparr>tyShape := tyShape ty @ [1]\<rparr>)
        \<and> decomposable (with2Dims c) 2 (tyShape (convTypeOf x')) (tyShape (convTypeOf w')) (tyShape ty @ [1]))
    \<and> (\<forall>i. index_of (tyShape ty) i \<longrightarrow> convEval sc e (i @ [0]) = convEval sc (ConvolutionOf c x w None ty) i)"
proof -
  define l where "l = coLayout c"
  have lens: "length (tyShape ty) = 3"
    and pi: "is_permutation (clInputBatch l # clInputFeature l # clInputSpatial l) 3"
    and pk: "is_permutation (clKernelOutputFeature l # clKernelInputFeature l # clKernelSpatial l) 3"
    and out: "clOutputBatch l = clInputBatch l" "clOutputFeature l = clInputFeature l" "clOutputSpatial l = clInputSpatial l"
    and attrs: "coReversal c = [False]" "coBatchGroups c = 1"
    using assms by (simp_all add: decomposable_def Let_def l_def numeral_3_eq_3)
  obtain s0 where s: "clInputSpatial l = [s0]"
    using is_permutation_set[OF pi] by (auto simp: eval_nat_numeral length_Suc_conv)
  obtain k0 where k: "clKernelSpatial l = [k0]"
    using is_permutation_set[OF pk] by (auto simp: eval_nat_numeral length_Suc_conv)
  have r: "\<forall>d \<in> {clInputBatch l, clInputFeature l, s0}. nat d < 3" using permutation_range[OF pi] s by auto
  let ?x = "tyShape (convTypeOf x)" and ?w = "tyShape (convTypeOf w)"
  define e where "e = ConvolutionOf (with2Dims c) (convReshape x (?x @ [1])) (convReshape w (?w @ [1])) None (ty\<lparr>tyShape := tyShape ty @ [1]\<rparr>)"
  have leg: "legalize1DConvolution (ConvolutionOf c x w None ty) = Inr (Some (convReshape e (tyShape ty)))"
    using attrs by (simp add: isSupportedConv_def isNDimensional_def Let_def l_def[symmetric] assertE_def out s k e_def with2Dims_def)
  have "convEval sc e (i @ [0]) = convEval sc (ConvolutionOf c x w None ty) i" if i: "index_of (tyShape ty) i" for i
  proof -
    have li: "length i = 3" using index_of_length[OF i] lens by simp
    have o: "clOutputBatch (coLayout (with2Dims c)) = clInputBatch l" "clOutputFeature (coLayout (with2Dims c)) = clInputFeature l"
      "clOutputSpatial (coLayout (with2Dims c)) = [s0, 3]"
      by (simp_all add: with2Dims_def Let_def l_def[symmetric] out s)
    have at: "(i @ [0]) ! nat (clInputBatch l) = i ! nat (clInputBatch l)" "(i @ [0]) ! nat (clInputFeature l) = i ! nat (clInputFeature l)"
      "(i @ [0]) ! nat s0 = i ! nat s0" "(i @ [0]) ! 3 = 0" using r li by (simp_all add: nth_append)
    have "convolutionAt sc (with2Dims c) (?x @ [1]) (?w @ [1]) (readIn (?x @ [1]) (convEval sc (convReshape x (?x @ [1]))))
        (readIn (?w @ [1]) (convEval sc (convReshape w (?w @ [1])))) n o' [p, 0]
      = convolutionAt sc c ?x ?w (readIn ?x (convEval sc x)) (readIn ?w (convEval sc w)) n o' [p]" for n o' p
      by (rule convolution_2dims[OF assms s[unfolded l_def] k[unfolded l_def]]) (simp_all add: reshaped_read)
    then show ?thesis
      by (simp add: e_def convolutionValue_def Let_def o at l_def[symmetric] out s convReshape_def)
  qed
  moreover have "decomposable (with2Dims c) 2 (?x @ [1]) (?w @ [1]) (tyShape ty @ [1])" by (rule with2Dims_decomposable[OF assms])
  ultimately show ?thesis using leg by (auto simp: e_def convReshape_def)
qed

lemma decompose_sound:
  assumes "decomposable c n (tyShape (convTypeOf x)) (tyShape (convTypeOf w)) (tyShape ty)" and "n = 2 \<or> n = 1 \<and> b = None"
  shows "\<exists>e. decomposeConvolution (ConvolutionOf c x w b ty) = Inr (Some e)
    \<and> (\<forall>i. index_of (tyShape ty) i \<longrightarrow> convEval sc e i = convEval sc (ConvolutionOf c x w b ty) i)"
proof (cases "n = 2")
  case True
  have "isSupportedConv c = Inr True" and "length (clInputSpatial (coLayout c)) = 2"
    using assms(1) is_permutation_set[of "clInputBatch (coLayout c) # clInputFeature (coLayout c) # clInputSpatial (coLayout c)" 4]
      is_permutation_set[of "clKernelOutputFeature (coLayout c) # clKernelInputFeature (coLayout c) # clKernelSpatial (coLayout c)" 4]
    by (auto simp: decomposable_def Let_def True isSupportedConv_def assertE_def)
  then have "legalize1DConvolution (ConvolutionOf c x w b ty) = Inr None" by (simp add: isNDimensional_def)
  with convolution_to_conv2d_sound[OF assms(1)[unfolded True], of b sc] show ?thesis by (auto simp: decomposeConvolution_def)
next
  case False
  with assms have d: "decomposable c 1 (tyShape (convTypeOf x)) (tyShape (convTypeOf w)) (tyShape ty)" and b: "b = None" by auto
  from legalize_sound[OF d, of sc] obtain e x' w' where
    e: "legalize1DConvolution (ConvolutionOf c x w None ty) = Inr (Some (convReshape e (tyShape ty)))"
      "e = ConvolutionOf (with2Dims c) x' w' None (ty\<lparr>tyShape := tyShape ty @ [1]\<rparr>)"
      "decomposable (with2Dims c) 2 (tyShape (convTypeOf x')) (tyShape (convTypeOf w')) (tyShape ty @ [1])"
    and v: "\<And>i. index_of (tyShape ty) i \<Longrightarrow> convEval sc e (i @ [0]) = convEval sc (ConvolutionOf c x w None ty) i" by blast
  from convolution_to_conv2d_sound[of "with2Dims c" x' w' "ty\<lparr>tyShape := tyShape ty @ [1]\<rparr>" None sc] e(2,3) obtain e' where
    e': "convolutionToConv2d e = Inr (Some e')" "convTypeOf e' = ty\<lparr>tyShape := tyShape ty @ [1]\<rparr>"
      "\<And>i. index_of (tyShape ty @ [1]) i \<Longrightarrow> convEval sc e' i = convEval sc e i" by auto
  have "decomposeConvolution (ConvolutionOf c x w b ty) = Inr (Some (convReshape e' (tyShape ty)))"
    using e(1) e'(1,2) b e(2) by (simp add: decomposeConvolution_def convReshape_def)
  moreover have "convEval sc (convReshape e' (tyShape ty)) i = convEval sc (ConvolutionOf c x w b ty) i" if i: "index_of (tyShape ty) i" for i
    using reshaped_result[OF i, of e' sc] e'(2) e'(3)[of "i @ [0]"] v[OF i] i index_snoc_one b by simp
  ultimately show ?thesis by blast
qed

text \<open>
  C8: a convolution over one or two spatial dimensions is decomposed without failing, and the
  created program has the value of the convolution at every index of the result: the same products, summed in the same
  order. Input, weight and result have two dimensions more than the spatial ones; the layouts of input and kernel name each
  dimension once, and the output has the layout of the input; there is one stride and one weight dilation per spatial dimension and two paddings;
  the input is not dilated, no window is reversed, there is one batch group, and all attributes fit into 32 bits. Over one
  dimension there is no bias. (The lemmas after this one show what the patterns do with a dilated input, a bias over one dimension,
  and another output layout.)
\<close>

theorem convolution_decomposition_correct:
  assumes "decomposable c n (tyShape (convTypeOf x)) (tyShape (convTypeOf w)) (tyShape ty)" and "n = 2 \<or> n = 1 \<and> b = None"
  shows "\<exists>e. decomposeConvolution (ConvolutionOf c x w b ty) = Inr (Some e)
    \<and> (\<forall>i. index_of (tyShape ty) i \<longrightarrow> convEval sc e i = convEval sc (ConvolutionOf c x w b ty) i)"
  by (rule decompose_sound[OF assms])

definition convolutionDemo :: convolution_op where
  "convolutionDemo = \<lparr>coStrides = [2], coPadding = [1, 0], coInputDilation = [1], coWeightDilation = [2], coReversal = [False],
     coLayout = \<lparr>clInputBatch = 0, clInputFeature = 1, clInputSpatial = [2], clKernelOutputFeature = 2, clKernelInputFeature = 1,
       clKernelSpatial = [0], clOutputBatch = 0, clOutputFeature = 1, clOutputSpatial = [2]\<rparr>,
     coFeatureGroups = 2, coBatchGroups = 1\<rparr>"

abbreviation convDemoArg :: "nat \<Rightarrow> shape \<Rightarrow> conv_expr" where
  "convDemoArg n s \<equiv> Plain (Arg n \<lparr>tyShape = s, tyElem = Scalar (FloatType 32), tyEncoding = None\<rparr>)"

theorem convolution_decomposition_correct_witness:
  "\<exists>e. decomposeConvolution (ConvolutionOf convolutionDemo (convDemoArg 0 [1, 4, 7]) (convDemoArg 1 [3, 2, 6]) None
       \<lparr>tyShape = [1, 6, 2], tyElem = Scalar (FloatType 32), tyEncoding = None\<rparr>) = Inr (Some e)
     \<and> convEval demoScalars e [0, 4, 1] = Some 191"
proof -
  let ?e = "ConvolutionOf convolutionDemo (convDemoArg 0 [1, 4, 7]) (convDemoArg 1 [3, 2, 6]) None
       \<lparr>tyShape = [1, 6, 2], tyElem = Scalar (FloatType 32), tyEncoding = None\<rparr>"
  have d: "decomposable convolutionDemo 1 (tyShape (convTypeOf (convDemoArg 0 [1, 4, 7]))) (tyShape (convTypeOf (convDemoArg 1 [3, 2, 6])))
      (tyShape \<lparr>tyShape = [1, 6, 2], tyElem = Scalar (FloatType 32), tyEncoding = None\<rparr>)"
    by (simp add: decomposable_def convolutionDemo_def Let_def is_permutation_def fits32_def upt_rec)
  have "convEval demoScalars ?e [0, 4, 1] = Some 191" by code_simp
  with convolution_decomposition_correct[OF d, of None demoScalars] show ?thesis by auto
qed

section \<open>What the patterns leave out\<close>

text \<open>The dilation of the input is not looked at: with another one, the pattern creates the same ops.\<close>

lemma input_dilation_ignored:
  "convolutionToConv2d (ConvolutionOf (c\<lparr>coInputDilation := ds\<rparr>) x w b ty) = convolutionToConv2d (ConvolutionOf c x w b ty)"
  by (simp add: isSupportedConv_def isNDimensional_def cong: if_cong)

text \<open>The bias of a convolution over one dimension is dropped.\<close>

lemma one_dimensional_bias_dropped:
  "legalize1DConvolution (ConvolutionOf c x w (Some b) ty) = legalize1DConvolution (ConvolutionOf c x w None ty)"
  by simp

text \<open>If the output has another layout than the input, the result is permuted as the input was, into a type that the verifier of
  the permutation rejects.\<close>

lemma output_layout_ignored:
  "\<exists>p conv. convolutionToConv2d (ConvolutionOf
       \<lparr>coStrides = [1, 1], coPadding = [0, 0, 0, 0], coInputDilation = [1, 1], coWeightDilation = [1, 1], coReversal = [False, False],
        coLayout = conv2dLayout\<lparr>clOutputFeature := 1, clOutputSpatial := [2, 3]\<rparr>, coFeatureGroups = 1, coBatchGroups = 1\<rparr>
       (convDemoArg 0 [1, 5, 5, 4]) (convDemoArg 1 [6, 4, 3, 3]) None
       \<lparr>tyShape = [1, 6, 3, 3], tyElem = Scalar (FloatType 32), tyEncoding = None\<rparr>)
     = Inr (Some (CopyOf (PermuteOp p) conv \<lparr>tyShape = [1, 6, 3, 3], tyElem = Scalar (FloatType 32), tyEncoding = None\<rparr>))
     \<and> tyShape (convTypeOf conv) = [1, 3, 3, 6]
     \<and> permuteVerify p (convTypeOf conv) \<lparr>tyShape = [1, 6, 3, 3], tyElem = Scalar (FloatType 32), tyEncoding = None\<rparr> \<noteq> Inr (Inr ())"
  by (intro exI conjI, code_simp, code_simp, code_simp)

end
