(* ===== verification/TTIRPoolingFacts.thy ===== *)
theory TTIRPoolingFacts
  imports TTIRPooling TTIRConvolutionFacts
begin

text \<open>
  A decomposed pooling has the value of the pooling, for windows that the two chosen dimensions cover and that are padded
  alike in both; a padding that differs is exchanged.
\<close>

section \<open>The permutation\<close>

lemma pool_permutation:
  assumes "h < w" and "w < 4"
  shows "\<exists>a b. generatePermutation (numberNonSpatial 0 ((replicate 4 (-1))[h := -3, w := -2])) (numberNonSpatial 0 ((replicate 4 (-1))[1 := -3, 2 := -2]))
      = Inr [a, h, w, b] \<and> {a, h, w, b} = {0..<4} \<and> distinct [a, h, w, b] \<and> a < b"
proof -
  have "(h, w) \<in> {(0, 1), (0, 2), (0, 3), (1, 2), (1, 3), (2, 3)}" using assms by auto
  then show ?thesis
    by (elim insertE emptyE; simp add: generatePermutation_def assertE_def indexMap_def eval_nat_numeral) auto
qed

section \<open>Windows\<close>

text \<open>The poolings the pattern is right for, with their two dimensions.\<close>

definition pools2d :: "pooling_op \<Rightarrow> nat \<Rightarrow> nat \<Rightarrow> bool" where
  "pools2d p h w \<longleftrightarrow>
     length (plWindowDimensions p) = 4 \<and> length (plWindowStrides p) = 4 \<and> length (plWindowDilations p) = 4 \<and> length (plPadding p) = 8
     \<and> plBaseDilations p = [1, 1, 1, 1] \<and> (\<forall>v \<in> set (plWindowDimensions p @ plWindowStrides p). 1 \<le> v)
     \<and> (let s = getIndicesOfElementsLargerThanOne (plWindowDimensions p) in (if length s = 2 then s else [2, 3]) = [h, w])
     \<and> (\<forall>d < 4. d \<noteq> h \<and> d \<noteq> w \<longrightarrow> plWindowDimensions p ! d = 1 \<and> plWindowStrides p ! d = 1 \<and> plPadding p ! (2 * d) = 0)
     \<and> plPadding p ! (2 * h) = plPadding p ! (2 * w) \<and> plPadding p ! (2 * h + 1) = plPadding p ! (2 * w + 1)
     \<and> (\<forall>v \<in> set (plWindowDimensions p @ plWindowStrides p @ plWindowDilations p @ plPadding p). fits32 v)"

lemma pools2d_dims:
  assumes "pools2d p h w"
  shows "h < w" and "w < 4"
proof -
  let ?s = "getIndicesOfElementsLargerThanOne (plWindowDimensions p)"
  have s: "sorted ?s" "distinct ?s" "set ?s \<subseteq> {..<4}"
    using assms by (auto simp: getIndicesOfElementsLargerThanOne_def pools2d_def sorted_wrt_filter)
  have "(if length ?s = 2 then ?s else [2, 3]) = [h, w]" using assms by (simp add: pools2d_def Let_def)
  then have "?s = [h, w] \<or> h = 2 \<and> w = 3" by (simp split: if_splits)
  then show "h < w" "w < 4" using s by auto
qed

lemma undilatedBy_ones:
  assumes "length q = length s" and "\<forall>d < length q. dilation ! d = 1"
  shows "undilatedBy dilation s q = (if index_of s q then Some q else None)"
  using assms by (auto simp: undilatedBy_def index_of_iff intro: nth_equalityI)

lemma length_4: "length xs = 4 \<longleftrightarrow> (\<exists>a b c d. xs = [a, b, c, d])"
  by (auto simp: eval_nat_numeral length_Suc_conv)

text \<open>The places of the window in a window with two more dimensions of size 1.\<close>

lemma unlin_window:
  assumes "h < w" "w < 4" and "length wd = 4" and "\<forall>d < 4. d \<noteq> h \<and> d \<noteq> w \<longrightarrow> wd ! d = 1"
    and "1 \<le> wd ! h" "1 \<le> wd ! w"
  shows "prod_list wd = wd ! h * wd ! w"
    and "0 \<le> j \<Longrightarrow> j < wd ! h * wd ! w \<Longrightarrow> d < 4 \<Longrightarrow>
      unlin wd j ! d = (if d = h then j div wd ! w else if d = w then j mod wd ! w else 0)"
proof -
  obtain w0 w1 w2 w3 where wd: "wd = [w0, w1, w2, w3]" using assms(3) by (auto simp: length_4)
  have one: "d < 4 \<Longrightarrow> d \<noteq> h \<Longrightarrow> d \<noteq> w \<Longrightarrow> wd ! d = 1" for d using assms(4) by blast
  note ones = one[of 0] one[of 1] one[of 2] one[of 3]
  have hw: "(h, w) \<in> {(0, 1), (0, 2), (0, 3), (1, 2), (1, 3), (2, 3)}" using assms(1,2) by auto
  then show "prod_list wd = wd ! h * wd ! w" using ones by (elim insertE emptyE; simp add: wd)
  assume j: "0 \<le> j" "j < wd ! h * wd ! w" and "d < 4"
  then have "d = 0 \<or> d = 1 \<or> d = 2 \<or> d = 3" by auto
  then show "unlin wd j ! d = (if d = h then j div wd ! w else if d = w then j mod wd ! w else 0)"
    using hw ones j assms(5,6) by (elim insertE emptyE disjE; simp add: wd)
qed

text \<open>The window of the created op, at the permuted place, is the window of the pooling.\<close>

lemma window_permuted:
  fixes s :: shape
  assumes "pools2d p h w" and "{a, h, w, b} = {0..<4}" and "distinct [a, h, w, b]" and "length s = 4" and "length i = 4"
    and "poKernelHeight c = plWindowDimensions p ! h" "poKernelWidth c = plWindowDimensions p ! w"
      "poStrideHeight c = plWindowStrides p ! h" "poStrideWidth c = plWindowStrides p ! w"
      "poDilationHeight c = plWindowDilations p ! h" "poDilationWidth c = plWindowDilations p ! w"
      "poPaddingTop c = plPadding p ! (2 * h)" "poPaddingLeft c = plPadding p ! (2 * w)"
    and "\<And>j. length j = 4 \<Longrightarrow> index_of (dims s (map int [a, h, w, b])) j \<Longrightarrow> read' j = read (atDims (map int [a, h, w, b]) j)"
  shows "poolWindow (asPooling m c) (dims s (map int [a, h, w, b])) read' (dims i (map int [a, h, w, b])) = poolWindow p s read i"
proof -
  define P where "P = map int [a, h, w, b]"
  note hw = pools2d_dims[OF assms(1)]
  let ?wd = "plWindowDimensions p" and ?st = "plWindowStrides p" and ?dl = "plWindowDilations p" and ?pd = "plPadding p"
  have lens: "length ?wd = 4" "plBaseDilations p = [1, 1, 1, 1]" and pos: "1 \<le> ?wd ! h" "1 \<le> ?wd ! w"
    and outside: "\<And>d. d < 4 \<Longrightarrow> d \<noteq> h \<Longrightarrow> d \<noteq> w \<Longrightarrow> ?wd ! d = 1 \<and> ?st ! d = 1 \<and> ?pd ! (2 * d) = 0"
    using assms(1) hw by (auto simp: pools2d_def)
  have ab: "a < 4" "b < 4" "a \<noteq> h" "a \<noteq> w" "b \<noteq> h" "b \<noteq> w" using assms(2,3) by auto
  have perm: "is_permutation P 4"
  proof (rule permutationI)
    show "distinct P" using assms(3) by (simp add: P_def)
    have "set P = int ` {a, h, w, b}" by (simp add: P_def)
    then show "set P = int ` {0..<4}" by (simp only: assms(2))
  qed
  have u: "unlin ?wd j ! d = (if d = h then j div ?wd ! w else if d = w then j mod ?wd ! w else 0)"
    if "0 \<le> j" "j < ?wd ! h * ?wd ! w" "d < 4" for j d
    using unlin_window(2)[OF hw lens(1) _ pos that] outside by blast
  have u': "unlin [1, ?wd ! h, ?wd ! w, 1] j = [0, j div ?wd ! w, j mod ?wd ! w, 0]"
    if "0 \<le> j" "j < ?wd ! h * ?wd ! w" for j using that pos by simp
  define place where "place k = map (\<lambda>d. i ! d * ?st ! d + k ! d * ?dl ! d - ?pd ! (2 * d)) [0..<4]" for k
  have place_nth: "place k ! d = i ! d * ?st ! d + k ! d * ?dl ! d - ?pd ! (2 * d)" if "d < 4" for k d
    using that by (simp add: place_def)
  have prod: "prod_list ?wd = ?wd ! h * ?wd ! w" using unlin_window(1)[OF hw lens(1) _ pos] outside by blast
  have elem: "map_option read' (undilatedBy [1, 1, 1, 1] (dims s P) (dims (place (unlin ?wd j)) P))
      = map_option read (undilatedBy [1, 1, 1, 1] s (place (unlin ?wd j)))" for j
  proof -
    let ?q = "place (unlin ?wd j)"
    have l: "length ?q = 4" "length P = 4" by (simp_all add: place_def P_def)
    have ones: "\<forall>d < 4. [1, 1, 1, 1 :: int] ! d = 1" by (auto simp: less_Suc_eq eval_nat_numeral)
    have e: "undilatedBy [1, 1, 1, 1] (dims s P) (dims ?q P) = (if index_of (dims s P) (dims ?q P) then Some (dims ?q P) else None)"
      "undilatedBy [1, 1, 1, 1] s ?q = (if index_of s ?q then Some ?q else None)"
      using l ones assms(4) by (intro undilatedBy_ones; simp)+
    have put_back: "atDims P (dims ?q P) = ?q" using dims_atDims[of P ?q] perm l by simp
    have "index_of (dims s P) (dims ?q P) \<longleftrightarrow> index_of s ?q"
      using index_atDims[of P s "dims ?q P"] perm assms(4) l put_back by simp
    then show ?thesis using assms(14)[folded P_def, of "dims ?q P"] l put_back by (simp add: e)
  qed
  have places: "[dims i P ! 0, dims i P ! Suc 0 * ?st ! h + j div ?wd ! w * ?dl ! h - ?pd ! (2 * h),
      dims i P ! Suc (Suc 0) * ?st ! w + j mod ?wd ! w * ?dl ! w - ?pd ! (2 * w), dims i P ! Suc (Suc (Suc 0))]
    = dims (place (unlin ?wd j)) P"
    if "0 \<le> j" "j < ?wd ! h * ?wd ! w" for j
    using u[OF that] outside[OF ab(1,3,4)] outside[OF ab(2,5,6)] ab hw
    by (simp add: place_nth P_def)
  show ?thesis unfolding poolWindow_def P_def[symmetric]
    by (simp add: asPooling_def assms(6-13) prod lens Let_def)
      (auto simp: u' places elem place_def[symmetric])
qed

section \<open>The pattern\<close>

lemma mapE_map: "(\<And>x. x \<in> set xs \<Longrightarrow> f x = Inr (g x)) \<Longrightarrow> mapE f xs = Inr (map g xs)"
  by (induction xs) auto

lemma pooling_sound:
  assumes "pools2d p h w" and "inputs \<noteq> []" and "\<forall>x \<in> set inputs. length (shapeOf x) = 4" and "length (tyShape ty) = 4"
  shows "\<exists>e. poolingToPool2d p inputs ty = Inr (Some (map e inputs))
    \<and> (\<forall>x \<in> set inputs. \<forall>i. index_of (tyShape ty) i \<longrightarrow>
         poolEval sc combine (e x) i = poolingValue combine p (shapeOf x) (eval sc x) i)"
proof -
  note hw = pools2d_dims[OF assms(1)]
  let ?wd = "plWindowDimensions p" and ?st = "plWindowStrides p" and ?dl = "plWindowDilations p" and ?pd = "plPadding p"
  let ?s = "getIndicesOfElementsLargerThanOne ?wd"
  have lens: "length ?wd = 4" "length ?st = 4" "length ?dl = 4" "length ?pd = 8" "plBaseDilations p = [1, 1, 1, 1]"
    and spatial: "(if length ?s = 2 then ?s else [2, 3]) = [h, w]"
    and outside: "\<And>d. d < 4 \<Longrightarrow> d \<noteq> h \<Longrightarrow> d \<noteq> w \<Longrightarrow> ?wd ! d = 1 \<and> ?st ! d = 1"
    and pads: "?pd ! (2 * h) = ?pd ! (2 * w)" "?pd ! (2 * h + 1) = ?pd ! (2 * w + 1)"
    and fits: "\<forall>v \<in> set (?wd @ ?st @ ?dl @ ?pd). fits32 v"
    using assms(1) by (simp_all add: pools2d_def Let_def)
  have few: "length (getIndicesOfElementsLargerThanOne v) \<le> 2" if "length v = 4" "\<And>d. d < 4 \<Longrightarrow> d \<noteq> h \<Longrightarrow> d \<noteq> w \<Longrightarrow> v ! d = 1" for v
  proof -
    have "set (getIndicesOfElementsLargerThanOne v) \<subseteq> {h, w}" "distinct (getIndicesOfElementsLargerThanOne v)"
      using that by (fastforce simp: getIndicesOfElementsLargerThanOne_def)+
    then have "length (getIndicesOfElementsLargerThanOne v) \<le> card {h, w}" by (metis card_mono distinct_card finite.emptyI finite_insert)
    also have "\<dots> \<le> 2" by (simp add: card_insert_if)
    finally show ?thesis .
  qed
  have can: "\<not> 2 < length ?s" "canDecompose2DPoolingOp p (map typeOf inputs) ?s"
    using few[of ?wd] few[of ?st] outside lens assms(3) by (auto simp: canDecompose2DPoolingOp_def list_all_iff)
  obtain a b where gen: "generatePermutation (numberNonSpatial 0 ((replicate 4 (-1))[h := -3, w := -2]))
        (numberNonSpatial 0 ((replicate 4 (-1))[1 := -3, 2 := -2])) = Inr [a, h, w, b]"
    and ab: "{a, h, w, b} = {0..<4}" "distinct [a, h, w, b]" using pool_permutation[OF hw] by blast
  define P where "P = map int [a, h, w, b]"
  have lP: "length P = 4" "map nat P = [a, h, w, b]" by (simp_all add: P_def)
  have perm: "is_permutation P 4"
  proof (rule permutationI)
    show "distinct P" using ab(2) by (simp add: P_def)
    have "set P = int ` {a, h, w, b}" by (simp add: P_def)
    then show "set P = int ` {0..<4}" by (simp only: ab(1))
  qed
  obtain inv where inv: "inversePermutation [a, h, w, b] = Inr inv"
    "\<And>i. length i = 4 \<Longrightarrow> map (\<lambda>d. i ! posOf (map int inv) d) [0..<4] = dims i P"
    using inverse_places[OF perm] by (auto simp: lP)
  define c where "c = \<lparr>poKernelHeight = ?wd ! h, poKernelWidth = ?wd ! w, poStrideHeight = ?st ! h, poStrideWidth = ?st ! w,
      poDilationHeight = ?dl ! h, poDilationWidth = ?dl ! w, poCeilMode = False,
      poPaddingLeft = ?pd ! (2 * h), poPaddingRight = ?pd ! (2 * h + 1),
      poPaddingTop = ?pd ! (2 * w), poPaddingBottom = ?pd ! (2 * w + 1), poFlat = None\<rparr>"
  define permuted where "permuted x = PoolCopy (PermuteOp P) (PoolInput x) ((typeOf x)\<lparr>tyShape := dims (shapeOf x) P\<rparr>)" for x
  define e where "e x = PoolCopy (PermuteOp (map int inv)) (Pool2dOf (plMethod p) c (permuted x) (ty\<lparr>tyShape := dims (tyShape ty) P\<rparr>)) ty" for x
  have ats: "mapE (at ?wd) [h, w] = Inr [?wd ! h, ?wd ! w]" "mapE (at ?st) [h, w] = Inr [?st ! h, ?st ! w]"
    "mapE (at ?dl) [h, w] = Inr [?dl ! h, ?dl ! w]"
    "mapE (at ?pd) [2 * h, 2 * h + 1, 2 * w, 2 * w + 1] = Inr [?pd ! (2 * h), ?pd ! (2 * h + 1), ?pd ! (2 * w), ?pd ! (2 * w + 1)]"
    using hw lens by simp_all
  have small: "i32 (?wd ! h) = ?wd ! h" "i32 (?wd ! w) = ?wd ! w" "i32 (?st ! h) = ?st ! h" "i32 (?st ! w) = ?st ! w"
    "i32 (?dl ! h) = ?dl ! h" "i32 (?dl ! w) = ?dl ! w" "i32 (?pd ! (2 * h)) = ?pd ! (2 * h)" "i32 (?pd ! (2 * h + 1)) = ?pd ! (2 * h + 1)"
    "i32 (?pd ! (2 * w)) = ?pd ! (2 * w)" "i32 (?pd ! (2 * w + 1)) = ?pd ! (2 * w + 1)"
    using fits hw lens by (auto intro!: fits32_i32)
  have "applyPermutation (shapeOf x) [a, h, w, b] = Inr (dims (shapeOf x) P)" if "x \<in> set inputs" for x
    using permutation_apply[of P "shapeOf x"] perm assms(3) that by (simp add: lP del: map_map)
  moreover have "applyPermutation (tyShape ty) [a, h, w, b] = Inr (dims (tyShape ty) P)"
    using permutation_apply[of P "tyShape ty"] perm assms(4) by (simp add: lP del: map_map)
  moreover obtain x0 xs where inputs: "inputs = x0 # xs" using assms(2) by (cases inputs) auto
  ultimately have map: "mapE (\<lambda>input. rbind (applyPermutation (shapeOf input) [a, h, w, b]) (\<lambda>inputPermuteShape.
      rbind (applyPermutation (tyShape ty) [a, h, w, b]) (\<lambda>newOutputShape.
        Inr (PoolCopy (PermuteOp (map int inv))
               (Pool2dOf (plMethod p) c (PoolCopy (PermuteOp (map int [a, h, w, b])) (PoolInput input) ((typeOf input)\<lparr>tyShape := inputPermuteShape\<rparr>))
                 (ty\<lparr>tyShape := newOutputShape\<rparr>)) ty)))) inputs = Inr (map e inputs)"
    by (intro mapE_map) (simp add: e_def permuted_def P_def)
  have sp: "(if length ?s = 2 then ?s else [length ?wd - 2, length ?wd - 1]) = [h, w]" using spatial lens by (simp split: if_splits)
  have first: "at inputs 0 = Inr x0" "assertE SiteRank (length (shapeOf x0) = 4) = Inr ()" using inputs assms(3) by (simp_all add: assertE_def)
  have nths: "[x, y] ! 0 = x" "[x, y] ! 1 = y" "[x, y, z, v] ! 0 = x" "[x, y, z, v] ! 1 = y" "[x, y, z, v] ! 2 = z" "[x, y, z, v] ! 3 = v"
    for x y z v :: 'b by simp_all
  have "rewritePool2d p inputs ty ?s = Inr (map e inputs)"
    unfolding rewritePool2d_def Let_def first rbind_simps sp nths gen inv(1) ats small c_def[symmetric] by (rule map)
  then have "poolingToPool2d p inputs ty = Inr (Some (map e inputs))" using can by (simp add: poolingToPool2d_def Let_def)
  moreover have "poolEval sc combine (e x) i = poolingValue combine p (shapeOf x) (eval sc x) i"
    if x: "x \<in> set inputs" and i: "index_of (tyShape ty) i" for x i
  proof -
    have l: "length i = 4" "length (shapeOf x) = 4" using index_of_length[OF i] assms(3,4) x by auto
    have "poolEval sc combine (e x) i
        = poolEval sc combine (Pool2dOf (plMethod p) c (permuted x) (ty\<lparr>tyShape := dims (tyShape ty) P\<rparr>)) (dims i P)"
      using inv(2)[OF l(1)] index_dims[OF _ i, of P] perm assms(4) lP by (simp add: e_def readAt_def del: poolEval.simps(3))
    also have "\<dots> = combine (plMethod p) (poolWindow (asPooling (plMethod p) c) (dims (shapeOf x) P) (poolEval sc combine (permuted x)) (dims i P))"
      by (simp add: poolingValue_def asPooling_def permuted_def)
    also have "poolWindow (asPooling (plMethod p) c) (dims (shapeOf x) P) (poolEval sc combine (permuted x)) (dims i P)
        = poolWindow p (shapeOf x) (eval sc x) i"
    proof (unfold P_def, rule window_permuted[OF assms(1) ab l(2,1)])
      fix j :: "int list" assume j: "length j = 4" "index_of (dims (shapeOf x) (map int [a, h, w, b])) j"
      have "map (\<lambda>d. j ! posOf P d) [0..<4] = atDims P j" by (simp add: atDims_def lP)
      moreover have "index_of (shapeOf x) (atDims P j)" using atDims_in[of P "shapeOf x" j] perm j(2)[folded P_def] l by simp
      ultimately have "poolEval sc combine (permuted x) j = eval sc x (atDims P j)" using l by (simp add: permuted_def readAt_def)
      then show "poolEval sc combine (permuted x) j = eval sc x (atDims (map int [a, h, w, b]) j)" by (simp only: P_def)
    qed (use pads in \<open>simp_all add: c_def\<close>)
    finally show ?thesis by (simp add: poolingValue_def)
  qed
  ultimately show ?thesis by blast
qed

text \<open>
  C32: a pooling of tensors of rank 4 over a window of more than one element in exactly two dimensions (otherwise the window extends
  at most in the last two, which the pattern then takes) is decomposed without failing, and each created program has the value
  of the pooling of its input at every index of the result: the same elements of the window, in the same order, with the
  padding at the same places, whatever the method makes of them. The pooling has no base dilation, positive window sizes and strides, one stride and one dilation per
  dimension and two paddings; outside the two dimensions neither a stride nor a padding in front; in the two dimensions the same
  padding in front and the same behind (the lemma \<open>pooling_padding_exchanged\<close> shows the pattern exchange different ones); and all attributes fit into
  32 bits.
\<close>

theorem pooling_decomposition_correct:
  assumes "pools2d p h w" and "inputs \<noteq> []" and "\<forall>x \<in> set inputs. length (shapeOf x) = 4" and "length (tyShape ty) = 4"
  shows "\<exists>outputs. poolingToPool2d p inputs ty = Inr (Some outputs) \<and> length outputs = length inputs
    \<and> (\<forall>k < length inputs. \<forall>i. index_of (tyShape ty) i \<longrightarrow>
         poolEval sc combine (outputs ! k) i = poolingValue combine p (shapeOf (inputs ! k)) (eval sc (inputs ! k)) i)"
proof -
  obtain e where "poolingToPool2d p inputs ty = Inr (Some (map e inputs))"
    and "\<And>x i. x \<in> set inputs \<Longrightarrow> index_of (tyShape ty) i \<Longrightarrow>
      poolEval sc combine (e x) i = poolingValue combine p (shapeOf x) (eval sc x) i"
    using pooling_sound[OF assms, of sc combine] by blast
  then show ?thesis by (intro exI[of _ "map e inputs"]) simp
qed

definition poolingDemo :: "int list \<Rightarrow> pooling_op" where
  "poolingDemo padding = \<lparr>plMethod = MaxPooling, plWindowDimensions = [1, 2, 3, 1], plWindowStrides = [1, 2, 1, 1],
     plBaseDilations = [1, 1, 1, 1], plWindowDilations = [1, 1, 1, 1], plPadding = padding\<rparr>"

definition poolingType :: "shape \<Rightarrow> ttir_type" where
  "poolingType s = \<lparr>tyShape = s, tyElem = Scalar (FloatType 32), tyEncoding = None\<rparr>"

text \<open>The sum of the window, padding counting one.\<close>

definition poolingCombine :: "int combiner" where
  "poolingCombine m window = Some (sum_list (map (\<lambda>v. case v of Some (Some n) \<Rightarrow> n | _ \<Rightarrow> 100) window))"

theorem pooling_decomposition_correct_witness:
  "\<exists>e. poolingToPool2d (poolingDemo [0, 0, 1, 1, 1, 1, 0, 0]) [Arg 0 (poolingType [2, 4, 4, 3])] (poolingType [2, 3, 4, 3]) = Inr (Some [e])
     \<and> poolEval demoScalars poolingCombine e [1, 1, 3, 2] = Some 228"
proof -
  have d: "pools2d (poolingDemo [0, 0, 1, 1, 1, 1, 0, 0]) 1 2"
    by (simp add: pools2d_def poolingDemo_def getIndicesOfElementsLargerThanOne_def fits32_def upt_rec less_Suc_eq eval_nat_numeral)
  have "poolingValue poolingCombine (poolingDemo [0, 0, 1, 1, 1, 1, 0, 0]) [2, 4, 4, 3] (eval demoScalars (Arg 0 (poolingType [2, 4, 4, 3]))) [1, 1, 3, 2]
      = Some 228" by code_simp
  with pooling_decomposition_correct[OF d, of "[Arg 0 (poolingType [2, 4, 4, 3])]" "poolingType [2, 3, 4, 3]" demoScalars poolingCombine]
  show ?thesis by (auto simp: poolingType_def length_Suc_conv)
qed

text \<open>With a padding of the height only, the created op pads the width.\<close>

lemma pooling_padding_exchanged:
  "case poolingToPool2d (poolingDemo [0, 0, 1, 2, 0, 0, 0, 0]) [Arg 0 (poolingType [2, 4, 4, 3])] (poolingType [2, 3, 2, 3]) of
     Inr (Some [PoolCopy out (Pool2dOf m a x newTy) ty]) \<Rightarrow>
       poPaddingTop a = 0 \<and> poPaddingBottom a = 0 \<and> poPaddingLeft a = 1 \<and> poPaddingRight a = 2
   | _ \<Rightarrow> False"
  by code_simp

text \<open>With a window of more than one element in a single dimension that is not one of the last two, the created op has a window of
  one element.\<close>

lemma pooling_window_lost:
  "case poolingToPool2d ((poolingDemo [0, 0, 0, 0, 0, 0, 0, 0])\<lparr>plWindowDimensions := [1, 2, 1, 1]\<rparr>)
       [Arg 0 (poolingType [2, 4, 4, 3])] (poolingType [2, 2, 4, 3]) of
     Inr (Some [PoolCopy out (Pool2dOf m a x newTy) ty]) \<Rightarrow> poKernelHeight a = 1 \<and> poKernelWidth a = 1
   | _ \<Rightarrow> False"
  by code_simp

section \<open>Logical reductions\<close>

text \<open>The product is true (not zero) exactly if the conjunction is; the sum exactly if the disjunction is, for elements that are
  not negative. The elements 1 and -1, both true, have a false sum.\<close>

lemma reduction_patterns:
  "reductionAndPattern op = Some op' \<Longrightarrow> reduceValue (rdReduction op') xs \<noteq> 0 \<longleftrightarrow> reduceValue (rdReduction op) xs \<noteq> 0"
  "reductionOrPattern op = Some op' \<Longrightarrow> \<forall>x \<in> set xs. 0 \<le> x \<Longrightarrow>
     reduceValue (rdReduction op') xs \<noteq> 0 \<longleftrightarrow> reduceValue (rdReduction op) xs \<noteq> 0"
  by (auto simp: reductionAndPattern_def reductionOrPattern_def prod_list_zero_iff sum_list_nonneg_eq_0_iff split: if_splits)

lemma signed_disjunction_lost:
  "reductionOrPattern \<lparr>rdReduction = ReduceOr, rdKeepDim = k, rdDimArg = d\<rparr> = Some \<lparr>rdReduction = ReduceSum, rdKeepDim = k, rdDimArg = d\<rparr>"
  "reduceValue ReduceOr [1, -1] = 1" "reduceValue ReduceSum [1, -1] = 0"
  by (simp_all add: reductionOrPattern_def)

end
