(* ===== verification/Spec2Isabelle.thy ===== *)
theory Spec2Isabelle
  imports TTNNCoverage DecomposeFacts LayoutConverter MetalLayout DeviceFacts AllocatorFacts
    Scheduler SolverSelect DFShardingFacts GreedySchedule BFFacts LayoutPolicies
    PassOverridesFacts LegalFacts TTIRCanon TTIRDot TTIRWindowFacts TTIRGeneric Lowering TTIRPoolingFacts
begin

text \<open>
  A verification library for tt-mlir, the MLIR compiler for Tenstorrent devices.

  \<^bold>\<open>The program.\<close> A tensor program enters as StableHLO or TTIR, is rewritten to TTIR, has its
  tensors laid out over the cores of a device, and is lowered to TTNN or TTMetal; a runtime
  executes the result. The library models the parts of the compiler that compute: layouts
  and memory maps, the passes that choose and materialise them, the analyses that choose
  sharded configurations, and the runtime's layout conversion. MLIR's own machinery
  (contexts, uniquing, the pattern driver, regions) is represented only by what the modelled
  code observes of it.

  \<^bold>\<open>Conventions.\<close> A shape is an \<open>int list\<close>; machine integers are words, or integers with the
  wrap-around written out where a narrower type is stored. A C++ operation that can stop (a
  failed assertion, a null attribute, \<open>llvm_unreachable\<close>, an index out of range, a signed overflow or a division by
  zero in the verifiers) returns
  \<open>fault + 'a\<close>, and \<open>rbind\<close> sequences such operations (theory Prelude). Enumerations keep
  the names of the source; the names of the definitions are those of the C++ functions.

  \<^bold>\<open>Layouts.\<close>
  \<^item> TTTypes: data types, tiles, memory spaces (\<open>TTOpsTypes.cpp\<close>, \<open>TTOpsEnums.td\<close>).
  \<^item> Affine, LinearMap, CollapsedMap: affine expressions and maps, and the map from a logical
    shape to a grid (\<open>collapsedLinearAffineMap\<close> of \<open>TTOpsTypes.cpp\<close>, \<open>Utils.h\<close>); permutations
    are undone by their inverse (C38).
  \<^item> TTNNLayout: \<open>TTNNLayoutAttr\<close> with all its \<open>with...\<close> operations (\<open>TTNNOpsAttrs.cpp\<close>);
    TTNNCoverage shows that every element gets a place in exactly one shard, that the L1
    interleaved shard is big enough, and that the tiled shape counts tiles (C1, C2, C4); the L1
    interleaved layout of a row-major element type is never built.
  \<^item> TTNNUtils: layout helpers (\<open>TTNN/Utils/Utils.cpp\<close>).
  \<^item> MetalLayout: \<open>MetalLayoutAttr\<close>; strides are row major (C10).

  \<^bold>\<open>Layout conversion.\<close>
  \<^item> DecomposeLayouts: the pass \<open>TTNNDecomposeLayouts\<close>, from the walk over the module to the
    created ops. DecomposeFacts: the created sequence turns the input layout into the output
    layout (C5; the branch that loses a memory config is set apart and shown to lose it, and so are the
    untilizes the code does on the device for rows of any width), and the conversions that are decided
    without a failed assertion (C7; not those from or to interleaved L1 or block floats). The pass replaces
    every \<open>ttnn.to_layout\<close> op of the input; among the ops it creates are again \<open>ttnn.to_layout\<close> ops, each
    of which changes the layout only.
  \<^item> LayoutConverter: the runtime's \<open>LayoutConverter\<close> over a parameter for the ttnn library;
    it produces a tensor of the requested description (C9).

  \<^bold>\<open>Device and memory.\<close>
  \<^item> Device, DeviceFacts: system and device descriptions, the worker grid and the L1 and DRAM
    maps: the chip of a core, the default device, the places of elements (C11, C13, C14), and where
    the core coordinates, the DRAM pages and the DRAM shards collide.
  \<^item> Allocator, AllocatorFacts: the pass \<open>TTIRAllocate\<close>; live buffers never overlap and end below the allocator's own
    limit (C17), which is past the end of the memory: L1
    allocations may run into the scratch region (C18), stream insertion ends in a state it
    leaves alone (C19).

  \<^bold>\<open>The optimizer's solver.\<close>
  \<^item> Scheduler: the op scheduler as a state machine; its runs are topological (C20), complete
    (C21); results after the first make no dependency.
  \<^item> PathSets, ShardSolver: \<open>ShardSolver.cpp\<close> and \<open>ShardSolver.h\<close>: bitsets of the remaining
    configs, path sets, \<open>resolve\<close>, \<open>set\<close>, \<open>finish\<close>. The backend that answers the
    compatibility queries, and the hook that replaces it, are fields of the context.
  \<^item> SolverUpdate: what propagation does to a state (\<open>refines\<close>) and the worklist invariant;
    SolverResolve: the invariant of \<open>resolve\<close> and the state it ends in (C23), and why
    overridden edges defeat it (C25); SolverSelect: the configs \<open>set\<close> accepts fit together
    (C24). CoreUsage: the ranking of configs by cores (\<open>produceMaxCoreUsage\<close>), with the rounding
    of single precision written out, and the choice the policy makes with it.
  \<^item> L1Chain, DFSharding: \<open>L1ChainConfig.cpp\<close> and \<open>DFShardingPolicy.cpp\<close>, the policy that drives the
    scheduler and the solver: it cuts the schedule of a function into chains and resolves them.
    DFShardingFacts: the chains are pieces of a topological schedule in which every op hands its
    output to the next (C35); the policy resolves the chains of exactly one function and
    fails without one and with several (C36); the configs of
    a completed chain fit together (C37).
  \<^item> Interleaved: what the two interleaved policies share. Greedy, GreedyPolicy:
    \<open>GreedyL1InterleavedPolicy.cpp\<close>; GreedyFacts: the choice for an op and its operands is optimal
    among all subsets and orders (C39); GreedySchedule: the schedule built from the choices respects
    them (C29), and how an operand can be dropped. BFInterleaved: \<open>BFInterleavedPolicy.cpp\<close>;
    BFFacts: the outputs it puts into L1 fit at every step (C40). LayoutPolicies:
    \<open>MemoryLayoutAnalysis.cpp\<close>, which runs one of the three policies, and \<open>OpConfigAnalysis.cpp\<close>.
  \<^item> PassOverrides: the command line overrides (\<open>PassOverrides.cpp\<close>) over a record of the string
    functions of LLVM; PassOverridesFacts: what is printed is read back (C22).
  \<^item> PossibleLayouts, LegalLayouts: \<open>AllPossibleLayoutsAnalysis.cpp\<close>, \<open>LegalLayoutAnalysis.cpp\<close>,
    \<open>ScalarDataTypeAnalysis.cpp\<close>. LayoutsFacts: the sharded candidates of an element type are generated
    on the smallest grids of each shard; LegalFacts: the legal layouts are the largest candidates that agree with the
    override (C6).

  \<^bold>\<open>TTIR.\<close>
  \<^item> TTIRVerify: the verifiers of the ops that move data, of arange, linear and matmul
    (\<open>TTIROps.cpp\<close>), as lists of checks with the messages of \<open>emitOpError\<close>; an
    overflow of their 32- or 64-bit arithmetic is a fault.
  \<^item> TTIRTensor: TTIR expressions and their meaning element by element (after \<open>TTIROps.td\<close>), and
    the expressions whose ops pass their verifiers (\<open>wf_ttir\<close>). TTIRReads: for each op, the
    place an element is read from is inside the operand; TTIRMatmul: the same for the terms
    of the matrix products. TTIRSafe: a verified program has a value at every index of its
    result (C26), and which dimensions the transpose verifier does not look at.
  \<^item> TTIRWindows: the verifiers of the convolutions and poolings, at the widths of their integers, and the
    pass \<open>TTIRFlattenSlidingWindow\<close>. TTIRWindowFacts: the verifier accepts the outputs that have an element for
    every place of the window (C3), a transposed convolution restores the shape (C12), and the pass keeps
    verified ops verified (C16). TTIRVerifyOps, TTIRGeneric: the other verifiers and folders.
  \<^item> TTIRFold, TTIRProducts: the folders and canonicalization patterns (\<open>TTIROps.cpp\<close>,
    \<open>TTIRTraits.cpp\<close>), each shown to keep the value; TTIRCanon: any sequence of them keeps a
    program verified and its value (C27) and is bounded by the program's weight (C28). Its last
    section has the two patterns that do change values.
  \<^item> TTIRDecompose: the patterns of \<open>TTIRToTTIRDecomposition.cpp\<close> for index (C30), select (C31)
    and arange (C33), and TTIRDot for dot_general (C34): the ops they create are verified and
    have the value of the op they replace.
  \<^item> TTIRConvolution, TTIRConvolutionFacts: the two convolution patterns of the same file; the created conv2d between
    permutations sums the same products in the same order (C8). TTIRPooling, TTIRPoolingFacts: the pooling pattern,
    whose pool2d sees the same windows (C32), and the two reduction patterns. Both end with what the patterns leave
    out: input dilations, the bias over one dimension, other output layouts, paddings that differ between height and width.

  \<^bold>\<open>TTNN.\<close>
  \<^item> TTNNVerify, TTNNVerifyOps: the verifiers, folders and canonicalization patterns of \<open>TTNNOps.cpp\<close>.
  \<^item> TTIRToTTNN: the patterns of \<open>TTIRToTTNN.cpp\<close>, from an op to the list of the ops created for it and the value that
    replaces its result. LoweringVerify: the two verifiers of an op by its kind. LoweringFacts: the TTNN verifier
    accepts the op a pattern creates, for the ops whose attributes change; Lowering: for every kind of op (C15) but those whose
    TTNN verifier asks for more (with an example of each) and the cache ops and scatter; and two reductions that
    are verified but not lowered.

  \<^bold>\<open>Termination.\<close> Loops are structural recursion or folds, except the worklists of the solver and
  the loops of the three policies, whose termination is proved: a round removes a bit from some
  bitset or shortens the worklist, or schedules an op. Fuel is used once, for the depth first search of
  \<open>buildSchedule\<close>: the number of ops bounds its depth (C29).

  \<^bold>\<open>Not modelled.\<close> Printing, parsing and file input (flatbuffer system descriptions), the
  flatbuffer serialisation, the emission of kernel dialects, the calls into the ttnn library,
  bindings. Of the decomposition patterns, that of gather. Of the optimizer, the pass that applies the chosen configs to the module.
\<close>

end
